(* ===== verification/Center_Prelude.thy ===== *)
theory Center_Prelude
  imports Main "HOL-Library.AList" "HOL-Library.Char_ord" "HOL-Library.List_Lexorder"
    "HOL-Library.Product_Lexorder" "HOL-Library.Word"
begin

text \<open>
  What the components of the development share.

  \<^item> Rust strings are modelled by their UTF-8 bytes: a \<^typ>\<open>string\<close> is a list of bytes, so
    \<open>length\<close> is Rust's \<open>str::len\<close> and \<open>str\<close>'s bytewise \<open>Ord\<close> is the lexicographic order of
    \<open>List_Lexorder\<close>. The string functions the sources call (\<open>split\<close>, \<open>split_once\<close>, \<open>trim\<close>,
    \<open>to_ascii_lowercase\<close>, \<open>chars().any(is_control)\<close>, \<open>chars().count()\<close>) are defined here.
  \<^item> A \<open>HashMap\<close> or \<open>BTreeMap\<close> is an association list with distinct keys: \<open>map_of\<close> is
    \<open>get\<close>, \<open>AList.update\<close> is \<open>insert\<close>, \<open>AList.delete\<close> is \<open>remove\<close>, \<open>length\<close> is \<open>len\<close>.
    Iteration order is an artefact of the model; the sources sort before they expose an order,
    and the lemmas speak of \<open>map_of\<close>.
  \<^item> A Rust \<open>Result<T, E>\<close> is a sum, \<open>Inl\<close> for the error; \<open>and_then\<close> is the \<open>?\<close> operator.
  \<^item> \<open>u64\<close> and \<open>u32\<close> counters that the sources increment are machine words.
\<close>

type_synonym u64 = "64 word"
type_synonym u32 = "32 word"

type_synonym ('k, 'v) hmap = "('k \<times> 'v) list"

datatype CoreError =
    InvalidIdentifier string string
  | Conflict string
  | NotFound string
  | Unsupported string
  | Adapter string

type_synonym 'a CoreResult = "CoreError + 'a"

section \<open>Results\<close>

definition and_then :: "'e + 'a \<Rightarrow> ('a \<Rightarrow> 'e + 'b) \<Rightarrow> 'e + 'b" where
  "and_then r f = (case r of Inl e \<Rightarrow> Inl e | Inr x \<Rightarrow> f x)"

fun for_each_ok :: "('a \<Rightarrow> 'e + unit) \<Rightarrow> 'a list \<Rightarrow> 'e + unit" where
  "for_each_ok f [] = Inr ()"
| "for_each_ok f (x # xs) = and_then (f x) (\<lambda>_. for_each_ok f xs)"

definition is_ok :: "'e + 'a \<Rightarrow> bool" where
  "is_ok r \<longleftrightarrow> (case r of Inl _ \<Rightarrow> False | Inr _ \<Rightarrow> True)"

section \<open>Hash maps\<close>

abbreviation wf_map :: "('k, 'v) hmap \<Rightarrow> bool" where
  "wf_map m \<equiv> distinct (map fst m)"

definition map_retain :: "('k \<Rightarrow> 'v \<Rightarrow> bool) \<Rightarrow> ('k, 'v) hmap \<Rightarrow> ('k, 'v) hmap" where
  "map_retain P m = filter (\<lambda>(k, v). P k v) m"

definition map_values :: "('v \<Rightarrow> 'w) \<Rightarrow> ('k, 'v) hmap \<Rightarrow> ('k, 'w) hmap" where
  "map_values f m = map (\<lambda>(k, v). (k, f v)) m"

definition collect_map :: "('k \<times> 'v) list \<Rightarrow> ('k, 'v) hmap" where
  "collect_map items = fold (\<lambda>(k, v). AList.update k v) items []"

section \<open>Strings\<close>

definition byte :: "char \<Rightarrow> nat" where
  "byte c = of_char c"

definition to_ascii_lowercase_char :: "char \<Rightarrow> char" where
  "to_ascii_lowercase_char c = (if 65 \<le> byte c \<and> byte c \<le> 90 then char_of (byte c + 32) else c)"

definition to_ascii_lowercase :: "string \<Rightarrow> string" where
  "to_ascii_lowercase s = map to_ascii_lowercase_char s"

definition eq_ignore_ascii_case :: "string \<Rightarrow> string \<Rightarrow> bool" where
  "eq_ignore_ascii_case a b \<longleftrightarrow> to_ascii_lowercase a = to_ascii_lowercase b"

definition is_ascii_lowercase :: "char \<Rightarrow> bool" where
  "is_ascii_lowercase c \<longleftrightarrow> 97 \<le> byte c \<and> byte c \<le> 122"

definition is_ascii_uppercase :: "char \<Rightarrow> bool" where
  "is_ascii_uppercase c \<longleftrightarrow> 65 \<le> byte c \<and> byte c \<le> 90"

definition is_ascii_digit :: "char \<Rightarrow> bool" where
  "is_ascii_digit c \<longleftrightarrow> 48 \<le> byte c \<and> byte c \<le> 57"

definition is_ascii_alphanumeric :: "char \<Rightarrow> bool" where
  "is_ascii_alphanumeric c \<longleftrightarrow> is_ascii_lowercase c \<or> is_ascii_uppercase c \<or> is_ascii_digit c"

definition is_ascii_hexdigit :: "char \<Rightarrow> bool" where
  "is_ascii_hexdigit c \<longleftrightarrow> is_ascii_digit c \<or> (65 \<le> byte c \<and> byte c \<le> 70) \<or> (97 \<le> byte c \<and> byte c \<le> 102)"

text \<open>
  \<open>char::is_control\<close> is the Unicode category Cc: U+0000 to U+001F, U+007F, and U+0080 to U+009F,
  which UTF-8 encodes as the byte C2 followed by 80 to 9F.
\<close>

fun has_control :: "string \<Rightarrow> bool" where
  "has_control [] = False"
| "has_control (c # cs) =
     (byte c < 32 \<or> byte c = 127
      \<or> (byte c = 194 \<and> cs \<noteq> [] \<and> 128 \<le> byte (hd cs) \<and> byte (hd cs) \<le> 159)
      \<or> has_control cs)"

text \<open>\<open>chars().count()\<close>: the bytes that are not UTF-8 continuation bytes.\<close>

definition char_count :: "string \<Rightarrow> nat" where
  "char_count s = length (filter (\<lambda>c. byte c < 128 \<or> 192 \<le> byte c) s)"

text \<open>The UTF-8 encodings of the characters with the Unicode property White_Space.\<close>

definition whitespace_encodings :: "string list" where
  "whitespace_encodings =
     map (map char_of)
       ([[9], [10], [11], [12], [13], [32], [194, 133], [194, 160], [225, 154, 128],
         [226, 128, 128], [226, 128, 129], [226, 128, 130], [226, 128, 131], [226, 128, 132],
         [226, 128, 133], [226, 128, 134], [226, 128, 135], [226, 128, 136], [226, 128, 137],
         [226, 128, 138], [226, 128, 168], [226, 128, 169], [226, 128, 175], [226, 129, 159],
         [227, 128, 128]] :: nat list list)"

definition strip_prefix :: "string \<Rightarrow> string \<Rightarrow> string option" where
  "strip_prefix p s = (if take (length p) s = p then Some (drop (length p) s) else None)"

definition strip_suffix :: "string \<Rightarrow> string \<Rightarrow> string option" where
  "strip_suffix p s = map_option rev (strip_prefix (rev p) (rev s))"

definition starts_with :: "string \<Rightarrow> string \<Rightarrow> bool" where
  "starts_with p s \<longleftrightarrow> strip_prefix p s \<noteq> None"

definition ends_with :: "string \<Rightarrow> string \<Rightarrow> bool" where
  "ends_with p s \<longleftrightarrow> strip_suffix p s \<noteq> None"

text \<open>Drops the longest prefix made of the given non-empty words.\<close>

function trim_words :: "string list \<Rightarrow> string \<Rightarrow> string" where
  "trim_words ws s =
     (case find (\<lambda>w. w \<noteq> [] \<and> strip_prefix w s \<noteq> None) ws of
        None \<Rightarrow> s
      | Some w \<Rightarrow> trim_words ws (drop (length w) s))"
  by pat_completeness auto
termination
proof (relation "measure (\<lambda>(ws, s). length s)")
  fix ws s w
  assume "find (\<lambda>w. w \<noteq> [] \<and> strip_prefix w s \<noteq> None) ws = Some w"
  then have "w \<noteq> []" and "strip_prefix w s \<noteq> None"
    by (auto simp: find_Some_iff)
  then have "length w \<le> length s" and "0 < length w"
    by (auto simp: strip_prefix_def split: if_splits dest: arg_cong [where f = length])
  then have "length s - length w < length s" by linarith
  then show "((ws, drop (length w) s), ws, s) \<in> measure (\<lambda>(ws, s). length s)"
    by simp
qed simp

declare trim_words.simps [simp del]

definition trim :: "string \<Rightarrow> string" where
  "trim s = rev (trim_words (map rev whitespace_encodings)
                   (rev (trim_words whitespace_encodings s)))"

fun split_on :: "char \<Rightarrow> string \<Rightarrow> string list" where
  "split_on c [] = [[]]"
| "split_on c (x # xs) =
     (if x = c then [] # split_on c xs
      else (x # hd (split_on c xs)) # tl (split_on c xs))"

fun split_once :: "char \<Rightarrow> string \<Rightarrow> (string \<times> string) option" where
  "split_once c [] = None"
| "split_once c (x # xs) =
     (if x = c then Some ([], xs)
      else map_option (\<lambda>(a, b). (x # a, b)) (split_once c xs))"

fun join_with :: "string \<Rightarrow> string list \<Rightarrow> string" where
  "join_with sep [] = []"
| "join_with sep [x] = x"
| "join_with sep (x # y # ys) = x @ sep @ join_with sep (y # ys)"

section \<open>Machine integers\<close>

definition saturating_add_u64 :: "u64 \<Rightarrow> u64 \<Rightarrow> u64" where
  "saturating_add_u64 a b = (if unat a + unat b < 2 ^ 64 then a + b else - 1)"

definition checked_add_u64 :: "u64 \<Rightarrow> u64 \<Rightarrow> u64 option" where
  "checked_add_u64 a b = (if unat a + unat b < 2 ^ 64 then Some (a + b) else None)"

section \<open>Lemmas\<close>

named_theorems map_simps
  \<open>lookup, keys and well-formedness of hash maps after an operation\<close>

named_theorems string_simps
  \<open>definitions of the string predicates, for evaluation\<close>

lemma and_then_Inl [simp]: "and_then (Inl e) f = Inl e"
  by (simp add: and_then_def)

lemma and_then_Inr [simp]: "and_then (Inr x) f = f x"
  by (simp add: and_then_def)

lemma and_then_eq_Inr: "and_then r f = Inr y \<longleftrightarrow> (\<exists>x. r = Inr x \<and> f x = Inr y)"
  by (cases r) auto

lemma and_then_eq_Inl: "and_then r f = Inl e \<longleftrightarrow> r = Inl e \<or> (\<exists>x. r = Inr x \<and> f x = Inl e)"
  by (cases r) auto

lemma is_ok_simps [simp]: "is_ok (Inr x)" "\<not> is_ok (Inl e)"
  by (simp_all add: is_ok_def)

lemma is_ok_and_then: "is_ok (and_then r f) \<longleftrightarrow> (\<exists>x. r = Inr x \<and> is_ok (f x))"
  by (cases r) auto

lemma for_each_ok_Inr: "for_each_ok f xs = Inr u \<longleftrightarrow> (\<forall>x \<in> set xs. f x = Inr ())"
  by (induction xs) (auto simp: and_then_eq_Inr)

lemma for_each_ok_Inl: "for_each_ok f xs = Inl e \<Longrightarrow> \<exists>x \<in> set xs. f x = Inl e"
  by (induction xs) (auto simp: and_then_eq_Inl)

subsection \<open>Hash maps\<close>

lemma case_unit_simp [simp]: "(case u of () \<Rightarrow> x) = x"
  by (cases u) (simp only: old.unit.case)

lemma map_of_update [map_simps]: "map_of (AList.update k v m) = (map_of m)(k \<mapsto> v)"
  by (rule update_conv')

lemma map_of_delete_key [map_simps]: "map_of (AList.delete k m) = (map_of m)(k := None)"
  by (rule delete_conv')

lemma keys_update [map_simps]: "fst ` set (AList.update k v m) = insert k (fst ` set m)"
  by (simp add: dom_update)

lemma keys_delete [map_simps]: "fst ` set (AList.delete k m) = fst ` set m - {k}"
  by (auto simp: AList.delete_eq image_iff)

lemma delete_Nil_lookup: "AList.delete k m = [] \<Longrightarrow> l \<noteq> k \<Longrightarrow> map_of m l = None"
  using fun_cong [OF map_of_delete_key [of k m], of l] by simp

lemma retain_Nil_lookup:
  "wf_map m \<Longrightarrow> map_retain P m = [] \<Longrightarrow> map_of m l = Some v \<Longrightarrow> \<not> P l v"
  by (force simp: map_retain_def filter_empty_conv dest: map_of_SomeD)

lemma map_of_SomeE_wf: "wf_map m \<Longrightarrow> p \<in> set m \<Longrightarrow> map_of m (fst p) = Some (snd p)"
  by (cases p) (simp add: map_of_eq_Some_iff)

lemma set_delete_subset: "p \<in> set (AList.delete k m) \<Longrightarrow> p \<in> set m"
  by (simp add: AList.delete_eq)

lemma wf_map_update [simp, intro]: "wf_map m \<Longrightarrow> wf_map (AList.update k v m)"
  by (rule distinct_update)

lemma wf_map_delete [simp, intro]: "wf_map m \<Longrightarrow> wf_map (AList.delete k m)"
  by (rule distinct_delete)

lemma dom_map_of_keys: "dom (map_of m) = fst ` set m"
  by (rule dom_map_of_conv_image_fst)

lemma length_wf_map: "wf_map m \<Longrightarrow> length m = card (dom (map_of m))"
  by (metis distinct_card dom_map_of_conv_image_fst length_map set_map)

declare map_of_eq_Some_iff [simp del] Some_eq_map_of_iff [simp del] map_of_is_SomeI [simp del]

lemma mem_wf_map: "wf_map m \<Longrightarrow> (k, v) \<in> set m \<longleftrightarrow> map_of m k = Some v"
  by (auto simp: map_of_eq_Some_iff)

lemma length_update_le: "length (AList.update k v m) \<le> Suc (length m)"
  by (induction m) auto

lemma wf_map_retain [simp, intro]: "wf_map m \<Longrightarrow> wf_map (map_retain P m)"
  by (induction m) (auto simp: map_retain_def)

lemma map_of_retain [map_simps]:
  "wf_map m \<Longrightarrow> map_of (map_retain P m) k =
     (case map_of m k of None \<Rightarrow> None | Some v \<Rightarrow> if P k v then Some v else None)"
  by (induction m) (force simp: map_retain_def split: option.splits dest: map_of_SomeD)+

lemma map_of_values [map_simps]: "map_of (map_values f m) k = map_option f (map_of m k)"
  by (induction m) (auto simp: map_values_def)

lemma keys_values [simp]: "map fst (map_values f m) = map fst m"
  by (induction m) (auto simp: map_values_def)

lemma length_values [simp]: "length (map_values f m) = length m"
  by (simp add: map_values_def)

lemma fold_update_wf: "wf_map m \<Longrightarrow> wf_map (fold (\<lambda>(k, v). AList.update k v) items m)"
  by (induction items arbitrary: m) auto

lemma fold_update_map_of:
  "map_of (fold (\<lambda>(k, v). AList.update k v) items m) = map_of m ++ map_of (rev items)"
  by (induction items arbitrary: m) (auto simp: map_simps map_add_def fun_eq_iff split: option.splits)

lemma collect_map_wf [simp, intro]: "wf_map (collect_map items)"
  by (simp add: collect_map_def fold_update_wf)

lemma map_of_collect: "map_of (collect_map items) = map_of (rev items)"
  by (simp add: collect_map_def fold_update_map_of)

lemma map_of_rev_distinct: "wf_map items \<Longrightarrow> map_of (rev items) = map_of items"
  by (rule map_of_inject_set [THEN iffD2]) (auto simp: rev_map [symmetric])

lemma fold_update_length:
  "length (fold (\<lambda>(k, v). AList.update k v) items m) \<le> length m + length items"
proof (induction items arbitrary: m)
  case (Cons p items)
  obtain k v where p: "p = (k, v)" by (cases p)
  from Cons.IH [of "AList.update k v m"] length_update_le [of k v m] show ?case
    by (simp add: p)
qed simp

lemma collect_map_length: "length (collect_map items) \<le> length items"
  using fold_update_length [of items "[]"] by (simp add: collect_map_def)

lemma collect_map_distinct_length: "wf_map items \<Longrightarrow> length (collect_map items) = length items"
  by (simp add: length_wf_map map_of_collect map_of_rev_distinct)

subsection \<open>Strings\<close>

lemmas ascii_class_defs [string_simps] =
  is_ascii_lowercase_def is_ascii_uppercase_def is_ascii_digit_def is_ascii_alphanumeric_def
  is_ascii_hexdigit_def

lemma split_on_not_Nil [simp]: "split_on c s \<noteq> []"
  by (cases s) auto

lemma join_split_on: "join_with [c] (split_on c s) = s"
proof (induction s)
  case (Cons x xs)
  obtain y ys where eq: "split_on c xs = y # ys"
    using split_on_not_Nil [of c xs] by (cases "split_on c xs") auto
  show ?case
  proof (cases ys)
    case Nil
    with Cons eq show ?thesis by auto
  next
    case (Cons z zs)
    with \<open>join_with [c] (split_on c xs) = xs\<close> eq show ?thesis by auto
  qed
qed simp

lemma split_on_no_sep: "p \<in> set (split_on c s) \<Longrightarrow> c \<notin> set p"
proof (induction s arbitrary: p)
  case (Cons x xs)
  show ?case
  proof (cases "x = c")
    case True
    with Cons show ?thesis by auto
  next
    case False
    have "c \<notin> set (hd (split_on c xs))"
      by (rule Cons.IH) simp
    moreover have "q \<in> set (tl (split_on c xs)) \<Longrightarrow> c \<notin> set q" for q
      by (rule Cons.IH) (rule list.set_sel(2), simp_all)
    ultimately show ?thesis
      using False Cons.prems by auto
  qed
qed simp

lemma split_on_append:
  "c \<notin> set a \<Longrightarrow> split_on c (a @ c # s) = a # split_on c s"
  by (induction a) auto

lemma split_on_single: "c \<notin> set a \<Longrightarrow> split_on c a = [a]"
  by (induction a) auto

lemma split_on_join:
  "xs \<noteq> [] \<Longrightarrow> (\<forall>x \<in> set xs. c \<notin> set x) \<Longrightarrow> split_on c (join_with [c] xs) = xs"
proof (induction xs)
  case (Cons x xs)
  then show ?case
    by (cases xs) (auto simp: split_on_single split_on_append)
qed simp

lemma split_once_append: "c \<notin> set a \<Longrightarrow> split_once c (a @ c # b) = Some (a, b)"
  by (induction a) auto

lemma split_once_None: "split_once c s = None \<longleftrightarrow> c \<notin> set s"
  by (induction s) auto

lemma split_once_Some: "split_once c s = Some (a, b) \<Longrightarrow> s = a @ c # b \<and> c \<notin> set a"
  by (induction s arbitrary: a b) (auto split: if_splits)

lemma split_once_iff: "split_once c s = Some (a, b) \<longleftrightarrow> s = a @ c # b \<and> c \<notin> set a"
  by (auto dest: split_once_Some simp: split_once_append)

lemma strip_prefix_iff: "strip_prefix p s = Some t \<longleftrightarrow> s = p @ t"
  by (auto simp: strip_prefix_def) (metis append_take_drop_id)

lemma strip_suffix_iff: "strip_suffix p s = Some t \<longleftrightarrow> s = t @ p"
  by (auto simp: strip_suffix_def strip_prefix_iff) (metis rev_append rev_rev_ident)

lemma starts_with_iff: "starts_with p s \<longleftrightarrow> (\<exists>t. s = p @ t)"
  by (auto simp: starts_with_def strip_prefix_iff)

lemma ends_with_iff: "ends_with p s \<longleftrightarrow> (\<exists>t. s = t @ p)"
  by (auto simp: ends_with_def strip_suffix_iff)

lemma byte_char_of [simp]: "n < 256 \<Longrightarrow> byte (char_of n) = n"
  by (simp add: byte_def)

lemma char_of_byte [simp]: "char_of (byte c) = c"
  by (simp add: byte_def)

lemma byte_less [simp]: "byte c < 256"
  using nat_of_char_less_256 [of c] by (simp add: byte_def)

lemma lowercase_char_idem [simp]:
  "to_ascii_lowercase_char (to_ascii_lowercase_char c) = to_ascii_lowercase_char c"
  by (auto simp: to_ascii_lowercase_char_def)

lemma lowercase_idem [simp]: "to_ascii_lowercase (to_ascii_lowercase s) = to_ascii_lowercase s"
  by (simp add: to_ascii_lowercase_def)

lemma lowercase_length [simp]: "length (to_ascii_lowercase s) = length s"
  by (simp add: to_ascii_lowercase_def)

lemma lowercase_fixed:
  "(\<forall>c \<in> set s. \<not> is_ascii_uppercase c) \<Longrightarrow> to_ascii_lowercase s = s"
  by (induction s) (auto simp: to_ascii_lowercase_def to_ascii_lowercase_char_def string_simps)

lemma trim_words_fixed:
  "(\<forall>w \<in> set ws. w \<noteq> [] \<longrightarrow> strip_prefix w s = None) \<Longrightarrow> trim_words ws s = s"
  by (subst trim_words.simps) (auto simp: find_Some_iff split: option.splits)

lemma trim_words_suffix: "\<exists>p. s = p @ trim_words ws s"
proof (induction ws s rule: trim_words.induct)
  case (1 ws s)
  show ?case
  proof (cases "find (\<lambda>w. w \<noteq> [] \<and> strip_prefix w s \<noteq> None) ws")
    case None
    then show ?thesis by (subst trim_words.simps) simp
  next
    case (Some w)
    with "1.IH" obtain p where "drop (length w) s = p @ trim_words ws (drop (length w) s)"
      by blast
    then have "s = (take (length w) s @ p) @ trim_words ws (drop (length w) s)"
      by (metis append.assoc append_take_drop_id)
    then have "\<exists>p. s = p @ trim_words ws (drop (length w) s)" ..
    with Some show ?thesis by (simp add: trim_words.simps [of ws s])
  qed
qed

subsection \<open>Machine integers\<close>

lemma max_word_u64: "unat (- 1 :: u64) = 2 ^ 64 - 1"
  by (simp add: unsigned_minus_1_eq_mask mask_eq_exp_minus_1)

lemma unat_u64_less: "unat (a :: u64) < 18446744073709551616"
  using unsigned_less [of a, where 'a = nat] by simp

lemma saturating_add_ge: "a \<le> saturating_add_u64 a b"
  using unat_u64_less [of a]
  by (auto simp: saturating_add_u64_def word_le_nat_alt unat_word_ariths max_word_u64)

lemma saturating_add_unat: "unat (saturating_add_u64 a b) = min (unat a + unat b) (2 ^ 64 - 1)"
  by (auto simp: saturating_add_u64_def unat_word_ariths max_word_u64)

lemma checked_add_Some:
  "checked_add_u64 a b = Some c \<longleftrightarrow> unat a + unat b < 2 ^ 64 \<and> c = a + b"
  by (auto simp: checked_add_u64_def)

lemma checked_add_unat: "checked_add_u64 a b = Some c \<Longrightarrow> unat c = unat a + unat b"
  by (auto simp: checked_add_Some unat_word_ariths)

subsection \<open>Printable text\<close>

definition graphic :: "char \<Rightarrow> bool" where
  "graphic c \<longleftrightarrow> 32 < byte c \<and> byte c < 127"

lemma whitespace_not_graphic: "\<forall>w \<in> set whitespace_encodings. w \<noteq> [] \<and> \<not> graphic (hd w) \<and> \<not> graphic (last w)"
  by code_simp

lemma strip_prefix_graphic: "list_all graphic s \<Longrightarrow> w \<noteq> [] \<Longrightarrow> \<not> graphic (hd w) \<Longrightarrow> strip_prefix w s = None"
  by (cases w; cases s) (auto simp: strip_prefix_def)

lemma trim_graphic [string_simps]: "list_all graphic s \<Longrightarrow> trim s = s"
proof -
  assume s: "list_all graphic s"
  have "trim_words whitespace_encodings s = s"
    using s whitespace_not_graphic by (intro trim_words_fixed) (auto intro: strip_prefix_graphic)
  moreover have "trim_words (map rev whitespace_encodings) (rev s) = rev s"
    using s whitespace_not_graphic
    by (intro trim_words_fixed) (auto simp: hd_rev intro!: strip_prefix_graphic)
  ultimately show ?thesis by (simp add: trim_def)
qed

lemma has_control_graphic [string_simps]: "list_all graphic s \<Longrightarrow> \<not> has_control s"
  by (induction s) (auto simp: graphic_def)

text \<open>Text with spaces inside.\<close>

definition printable :: "char \<Rightarrow> bool" where
  "printable c \<longleftrightarrow> 32 \<le> byte c \<and> byte c < 127"

lemma trim_ends_graphic: "s \<noteq> [] \<Longrightarrow> graphic (hd s) \<Longrightarrow> graphic (last s) \<Longrightarrow> trim s = s"
proof -
  assume s: "s \<noteq> []" "graphic (hd s)" "graphic (last s)"
  have strip: "graphic (hd t) \<Longrightarrow> w \<noteq> [] \<Longrightarrow> \<not> graphic (hd w) \<Longrightarrow> t \<noteq> [] \<Longrightarrow> strip_prefix w t = None" for w t
    by (cases w; cases t) (auto simp: strip_prefix_def)
  have "trim_words whitespace_encodings s = s"
    using s whitespace_not_graphic by (intro trim_words_fixed) (auto intro: strip)
  moreover have "trim_words (map rev whitespace_encodings) (rev s) = rev s"
    using s whitespace_not_graphic by (intro trim_words_fixed) (auto simp: hd_rev intro!: strip)
  ultimately show ?thesis by (simp add: trim_def)
qed

lemma has_control_printable: "list_all printable s \<Longrightarrow> \<not> has_control s"
  by (induction s) (auto simp: printable_def)

end
