(* ===== verification/Controller_Core.thy ===== *)
theory Controller_Core
  imports Center_Prelude
begin

text \<open>
  The platform-neutral Controller types of \<open>crates/center-core/src/controller.rs\<close> and
  \<open>coordination.rs\<close>, the registration message of \<open>proto/fed_sync.proto\<close>, and the validating
  constructor of the identifier newtypes. An \<open>i64\<close> timestamp is an \<open>int\<close>.
\<close>

record RegisterRequest =
  req_controller_id :: string
  req_cluster :: string
  req_env :: "string list"
  req_tag :: "string list"

record OwnershipFence =
  fence_token :: string
  fence_epoch :: u64

record ControllerRegistration =
  reg_controller_id :: string
  reg_session_id :: string
  reg_cluster :: string
  reg_environments :: "string list"
  reg_tags :: "string list"
  reg_connected_replica :: "string option"
  reg_ownership_fence :: "OwnershipFence option"
  reg_observed_at_unix_ms :: int

record ControllerOwnerRoute =
  route_holder :: string
  route_endpoint :: string
  route_ownership_fence :: OwnershipFence

datatype ControllerPhase = PhaseOnline | PhaseOffline | PhaseStale

record ControllerRecord =
  rec_controller_id :: string
  rec_current_session_id :: "string option"
  rec_cluster :: string
  rec_environments :: "string list"
  rec_tags :: "string list"
  rec_connected_replica :: "string option"
  rec_ownership_fence :: "OwnershipFence option"
  rec_sync_version :: "u64 option"
  rec_watch_server_id :: "string option"
  rec_resource_count :: "u64 option"
  rec_resource_counts_by_kind :: "(string, u32) hmap option"
  rec_stats_updated_unix_ms :: "int option"
  rec_watch_updated_unix_ms :: "int option"
  rec_phase :: ControllerPhase
  rec_last_seen_unix_ms :: int

record ControllerRuntimeObservation =
  obs_controller_id :: string
  obs_session_id :: string
  obs_ownership_fence :: "OwnershipFence option"
  obs_sync_version :: "u64 option"
  obs_watch_server_id :: "string option"
  obs_resource_count :: "u64 option"
  obs_resource_counts_by_kind :: "(string, u32) hmap option"
  obs_stats_updated_unix_ms :: "int option"
  obs_watch_updated_unix_ms :: "int option"
  obs_observed_at_unix_ms :: int

datatype EvictionOutcome = Evicted | AlreadyAbsent

record EvictionTarget =
  target_session_id :: "string option"
  target_connected_replica :: "string option"
  target_ownership_fence :: "OwnershipFence option"

record EvictionResult =
  result_outcome :: EvictionOutcome
  result_target :: "EvictionTarget option"

datatype OfflineOutcome = Marked | NotCurrent

datatype CoordinationRole = ControllerOwner string | Maintenance string

record Leadership =
  lead_role :: CoordinationRole
  lead_holder :: string
  lead_fencing_token :: string
  lead_fencing_epoch :: u64
  lead_valid_for_millis :: u64

datatype RenewalOutcome = Renewed Leadership | RenewalLost

datatype ReleaseOutcome = Released | ReleaseLost

text \<open>\<open>ControllerId::new\<close> and \<open>SessionId::new\<close>, with the kind of the \<open>identifier!\<close> macro.\<close>

definition identifier_new :: "string \<Rightarrow> string \<Rightarrow> string CoreResult" where
  "identifier_new kind value =
     (if trim value = [] \<or> has_control value then Inl (InvalidIdentifier kind value) else Inr value)"

lemma identifier_new_ok:
  "identifier_new kind v = Inr w \<longleftrightarrow> w = v \<and> trim v \<noteq> [] \<and> \<not> has_control v"
  by (auto simp: identifier_new_def)

end
