(* ===== verification/Session_Registry.thy ===== *)
theory Session_Registry
  imports Controller_Core
begin

text \<open>
  The in-memory session table: \<open>crates/center-runtime/src/federation/registry.rs\<close>.

  A session shares two cells with the tasks that serve it: its \<open>CancellationToken\<close> and the
  \<open>valid\<close> flag of its ownership. Both are one-way, so the model names a cell by a number and keeps
  the set of cancelled tokens and the set of revoked flags; the numbers handed out for tokens count
  upwards. The \<open>mpsc\<close> sender is the number of its channel, an \<open>Instant\<close> is a number of
  milliseconds, the two metrics are counters.
\<close>

section \<open>Data\<close>

record SessionOwnership =
  own_holder :: string
  own_fence :: OwnershipFence
  own_valid :: nat

record ControllerSession =
  sess_controller_id :: string
  sess_session_id :: string
  sess_info :: RegisterRequest
  sess_stream_tx :: "nat option"
  sess_last_seen :: nat
  sess_offline_since :: "nat option"
  sess_cancel :: nat
  sess_ownership :: "SessionOwnership option"

record ControllerRegistry =
  sr_inner :: "(string, ControllerSession) hmap"
  sr_cancelled :: "nat set"
  sr_revoked :: "nat set"
  sr_next_token :: nat
  sr_reentries :: nat
  sr_evictions :: nat

record RegistrationOutcome =
  displaced_session_id :: "string option"
  outcome_session_cancel :: nat

record SessionView =
  sv_controller_id :: string
  sv_session_id :: string
  sv_info :: RegisterRequest
  sv_stream_tx :: "nat option"
  sv_last_seen :: nat
  sv_offline_since :: "nat option"
  sv_session_cancel :: nat
  sv_ownership :: "SessionOwnership option"

section \<open>Operations\<close>

definition new_controller_registry :: ControllerRegistry where
  "new_controller_registry =
     \<lparr>sr_inner = [], sr_cancelled = {}, sr_revoked = {}, sr_next_token = 0, sr_reentries = 0,
      sr_evictions = 0\<rparr>"

definition is_valid :: "ControllerRegistry \<Rightarrow> SessionOwnership \<Rightarrow> bool" where
  "is_valid r ow \<longleftrightarrow> own_valid ow \<notin> sr_revoked r"

definition is_online :: "ControllerRegistry \<Rightarrow> ControllerSession \<Rightarrow> bool" where
  "is_online r s \<longleftrightarrow> sess_stream_tx s \<noteq> None \<and> sess_cancel s \<notin> sr_cancelled r"

definition register_owned_cancellable ::
  "nat \<Rightarrow> string \<Rightarrow> RegisterRequest \<Rightarrow> nat \<Rightarrow> string \<Rightarrow> SessionOwnership option
     \<Rightarrow> ControllerRegistry \<Rightarrow> RegistrationOutcome \<times> ControllerRegistry" where
  "register_owned_cancellable now controller_id info stream_tx session_id ownership r =
     (let session_cancel = sr_next_token r;
          session = \<lparr>sess_controller_id = controller_id, sess_session_id = session_id,
                     sess_info = info, sess_stream_tx = Some stream_tx, sess_last_seen = now,
                     sess_offline_since = None, sess_cancel = session_cancel,
                     sess_ownership = ownership\<rparr>;
          previous = map_of (sr_inner r) controller_id;
          live = Option.bind previous (\<lambda>s. if sess_stream_tx s \<noteq> None then Some s else None)
      in (\<lparr>displaced_session_id = map_option sess_session_id live,
           outcome_session_cancel = session_cancel\<rparr>,
          r\<lparr>sr_inner := AList.update controller_id session (sr_inner r),
            sr_cancelled := (case live of
                               None \<Rightarrow> sr_cancelled r
                             | Some s \<Rightarrow> insert (sess_cancel s) (sr_cancelled r)),
            sr_next_token := Suc session_cancel,
            sr_reentries := (if previous \<noteq> None then Suc (sr_reentries r) else sr_reentries r)\<rparr>))"

definition register_cancellable ::
  "nat \<Rightarrow> string \<Rightarrow> RegisterRequest \<Rightarrow> nat \<Rightarrow> string \<Rightarrow> ControllerRegistry
     \<Rightarrow> RegistrationOutcome \<times> ControllerRegistry" where
  "register_cancellable now controller_id info stream_tx session_id r =
     register_owned_cancellable now controller_id info stream_tx session_id None r"

definition register ::
  "nat \<Rightarrow> string \<Rightarrow> RegisterRequest \<Rightarrow> nat \<Rightarrow> string \<Rightarrow> ControllerRegistry
     \<Rightarrow> string option \<times> ControllerRegistry" where
  "register now controller_id info stream_tx session_id r =
     (let (out, r') = register_cancellable now controller_id info stream_tx session_id r
      in (displaced_session_id out, r'))"

definition is_current_session :: "string \<Rightarrow> string \<Rightarrow> ControllerRegistry \<Rightarrow> bool" where
  "is_current_session controller_id session_id r \<longleftrightarrow>
     (case map_of (sr_inner r) controller_id of
        None \<Rightarrow> False
      | Some s \<Rightarrow> sess_session_id s = session_id)"

definition get_session :: "string \<Rightarrow> ControllerRegistry \<Rightarrow> SessionView option" where
  "get_session controller_id r =
     map_option
       (\<lambda>s. \<lparr>sv_controller_id = sess_controller_id s, sv_session_id = sess_session_id s,
             sv_info = sess_info s,
             sv_stream_tx = (if is_online r s then sess_stream_tx s else None),
             sv_last_seen = sess_last_seen s, sv_offline_since = sess_offline_since s,
             sv_session_cancel = sess_cancel s, sv_ownership = sess_ownership s\<rparr>)
       (map_of (sr_inner r) controller_id)"

definition fence_owned_session :: "string \<Rightarrow> ControllerRegistry \<Rightarrow> bool \<times> ControllerRegistry" where
  "fence_owned_session controller_id r =
     (case map_of (sr_inner r) controller_id of
        None \<Rightarrow> (False, r)
      | Some s \<Rightarrow>
          (case sess_ownership s of
             None \<Rightarrow> (False, r)
           | Some ow \<Rightarrow>
               (True, r\<lparr>sr_revoked := insert (own_valid ow) (sr_revoked r),
                        sr_cancelled := insert (sess_cancel s) (sr_cancelled r)\<rparr>)))"

definition last_seen_secs_ago :: "nat \<Rightarrow> string \<Rightarrow> ControllerRegistry \<Rightarrow> nat option" where
  "last_seen_secs_ago now controller_id r =
     map_option (\<lambda>s. (now - sess_last_seen s) div 1000) (map_of (sr_inner r) controller_id)"

definition update_last_seen :: "nat \<Rightarrow> string \<Rightarrow> ControllerRegistry \<Rightarrow> ControllerRegistry" where
  "update_last_seen now controller_id r =
     (case map_of (sr_inner r) controller_id of
        None \<Rightarrow> r
      | Some s \<Rightarrow> r\<lparr>sr_inner := AList.update controller_id (s\<lparr>sess_last_seen := now\<rparr>) (sr_inner r)\<rparr>)"

definition cancel_all :: "ControllerRegistry \<Rightarrow> nat \<times> ControllerRegistry" where
  "cancel_all r =
     (let live = filter (\<lambda>(_, s). is_online r s) (sr_inner r)
      in (length live,
          r\<lparr>sr_inner := map_values (\<lambda>s. if is_online r s then s\<lparr>sess_stream_tx := None\<rparr> else s) (sr_inner r),
            sr_cancelled := (\<lambda>(_, s). sess_cancel s) ` set live \<union> sr_cancelled r\<rparr>))"

definition mark_offline :: "nat \<Rightarrow> string \<Rightarrow> string \<Rightarrow> ControllerRegistry \<Rightarrow> bool \<times> ControllerRegistry" where
  "mark_offline now controller_id expected_session_id r =
     (case map_of (sr_inner r) controller_id of
        None \<Rightarrow> (False, r)
      | Some s \<Rightarrow>
          if sess_session_id s \<noteq> expected_session_id then (False, r)
          else if sess_offline_since s \<noteq> None then (False, r)
          else
            (True,
             r\<lparr>sr_inner := AList.update controller_id
                             (s\<lparr>sess_offline_since := Some now, sess_stream_tx := None\<rparr>) (sr_inner r),
               sr_cancelled := insert (sess_cancel s) (sr_cancelled r)\<rparr>))"

definition online_controller_ids :: "ControllerRegistry \<Rightarrow> string list" where
  "online_controller_ids r =
     map (\<lambda>(_, s). sess_controller_id s) (filter (\<lambda>(_, s). is_online r s) (sr_inner r))"

definition online_senders :: "ControllerRegistry \<Rightarrow> (string \<times> nat) list" where
  "online_senders r =
     List.map_filter
       (\<lambda>(_, s). if is_online r s then map_option (\<lambda>tx. (sess_controller_id s, tx)) (sess_stream_tx s)
                 else None) (sr_inner r)"

definition remove_session :: "string \<Rightarrow> ControllerRegistry \<Rightarrow> bool \<times> ControllerRegistry" where
  "remove_session controller_id r =
     (case map_of (sr_inner r) controller_id of
        None \<Rightarrow> (False, r)
      | Some s \<Rightarrow>
          (True,
           r\<lparr>sr_inner := AList.delete controller_id (sr_inner r),
             sr_revoked := (case sess_ownership s of
                              None \<Rightarrow> sr_revoked r
                            | Some ow \<Rightarrow> insert (own_valid ow) (sr_revoked r)),
             sr_cancelled := insert (sess_cancel s) (sr_cancelled r),
             sr_evictions := Suc (sr_evictions r)\<rparr>))"

definition registry_len :: "ControllerRegistry \<Rightarrow> nat" where
  "registry_len r = length (sr_inner r)"

definition registry_is_empty :: "ControllerRegistry \<Rightarrow> bool" where
  "registry_is_empty r \<longleftrightarrow> sr_inner r = []"

definition online_len :: "ControllerRegistry \<Rightarrow> nat" where
  "online_len r = length (filter (\<lambda>(_, s). is_online r s) (sr_inner r))"

definition matches_ownership :: "ControllerRegistry \<Rightarrow> string \<Rightarrow> OwnershipFence \<Rightarrow> SessionView \<Rightarrow> bool" where
  "matches_ownership r holder fence v \<longleftrightarrow>
     (case sv_ownership v of
        None \<Rightarrow> False
      | Some ow \<Rightarrow> is_valid r ow \<and> own_holder ow = holder \<and> own_fence ow = fence)"

section \<open>Histories\<close>

text \<open>
  The calls other components make, in any order. \<open>CancelToken\<close> and \<open>Revoke\<close> are the writes of the
  heartbeat and ownership tasks to the shared cells; a task holds only tokens that were handed out.
\<close>

datatype registry_op =
    Register nat string RegisterRequest nat string "SessionOwnership option"
  | MarkOffline nat string string
  | FenceOwned string
  | RemoveSession string
  | UpdateLastSeen nat string
  | CancelAll
  | CancelToken nat
  | Revoke nat

fun registry_step :: "registry_op \<Rightarrow> ControllerRegistry \<Rightarrow> ControllerRegistry" where
  "registry_step (Register now c info tx sid ow) r = snd (register_owned_cancellable now c info tx sid ow r)"
| "registry_step (MarkOffline now c sid) r = snd (mark_offline now c sid r)"
| "registry_step (FenceOwned c) r = snd (fence_owned_session c r)"
| "registry_step (RemoveSession c) r = snd (remove_session c r)"
| "registry_step (UpdateLastSeen now c) r = update_last_seen now c r"
| "registry_step CancelAll r = snd (cancel_all r)"
| "registry_step (CancelToken t) r =
     (if t < sr_next_token r then r\<lparr>sr_cancelled := insert t (sr_cancelled r)\<rparr> else r)"
| "registry_step (Revoke v) r = r\<lparr>sr_revoked := insert v (sr_revoked r)\<rparr>"

definition registry_run :: "registry_op list \<Rightarrow> ControllerRegistry \<Rightarrow> ControllerRegistry" where
  "registry_run ops r = fold registry_step ops r"

text \<open>
  The invariant: keys are the sessions' own ids, tokens were handed out and are not shared, a
  session without a sender is cancelled, an offline one has no sender, and every token that is
  still live is the token of a registered session with a sender.
\<close>

definition session_ok :: "ControllerRegistry \<Rightarrow> string \<Rightarrow> ControllerSession \<Rightarrow> bool" where
  "session_ok r c s \<longleftrightarrow>
     sess_controller_id s = c \<and> sess_cancel s < sr_next_token r
     \<and> (sess_stream_tx s = None \<longrightarrow> sess_cancel s \<in> sr_cancelled r)
     \<and> (sess_offline_since s \<noteq> None \<longrightarrow> sess_stream_tx s = None)"

definition session_inv :: "ControllerRegistry \<Rightarrow> bool" where
  "session_inv r \<longleftrightarrow>
     wf_map (sr_inner r) \<and> sr_cancelled r \<subseteq> {..<sr_next_token r}
     \<and> (\<forall>c s. map_of (sr_inner r) c = Some s \<longrightarrow> session_ok r c s)
     \<and> (\<forall>c d s t. map_of (sr_inner r) c = Some s \<and> map_of (sr_inner r) d = Some t
           \<and> sess_cancel s = sess_cancel t \<longrightarrow> c = d)
     \<and> (\<forall>t < sr_next_token r. t \<notin> sr_cancelled r \<longrightarrow>
           (\<exists>c s. map_of (sr_inner r) c = Some s \<and> sess_cancel s = t))"

section \<open>Lemmas\<close>

lemma session_ok_mono:
  "session_ok r c s \<Longrightarrow> sr_next_token r \<le> sr_next_token r' \<Longrightarrow> sr_cancelled r \<subseteq> sr_cancelled r' \<Longrightarrow>
     session_ok r' c s"
  by (auto simp: session_ok_def)

lemma session_inv_wf: "session_inv r \<Longrightarrow> wf_map (sr_inner r)"
  by (simp add: session_inv_def)

lemma session_inv_issued: "session_inv r \<Longrightarrow> sr_cancelled r \<subseteq> {..<sr_next_token r}"
  by (simp add: session_inv_def)

lemma session_inv_ok: "session_inv r \<Longrightarrow> map_of (sr_inner r) c = Some s \<Longrightarrow> session_ok r c s"
  by (simp add: session_inv_def)

lemma session_inv_distinct:
  "session_inv r \<Longrightarrow> map_of (sr_inner r) c = Some s \<Longrightarrow> map_of (sr_inner r) d = Some t \<Longrightarrow>
     sess_cancel s = sess_cancel t \<Longrightarrow> c = d"
  unfolding session_inv_def by blast

lemma session_inv_live:
  "session_inv r \<Longrightarrow> t < sr_next_token r \<Longrightarrow> t \<notin> sr_cancelled r \<Longrightarrow>
     \<exists>c s. map_of (sr_inner r) c = Some s \<and> sess_cancel s = t"
  by (simp add: session_inv_def)

lemma session_invI:
  assumes "wf_map (sr_inner r)" "sr_cancelled r \<subseteq> {..<sr_next_token r}"
    and "\<And>c s. map_of (sr_inner r) c = Some s \<Longrightarrow> session_ok r c s"
    and "\<And>c d s t. map_of (sr_inner r) c = Some s \<Longrightarrow> map_of (sr_inner r) d = Some t \<Longrightarrow>
           sess_cancel s = sess_cancel t \<Longrightarrow> c = d"
    and "\<And>t. t < sr_next_token r \<Longrightarrow> t \<notin> sr_cancelled r \<Longrightarrow>
           \<exists>c s. map_of (sr_inner r) c = Some s \<and> sess_cancel s = t"
  shows "session_inv r"
  using assms unfolding session_inv_def by blast

text \<open>An operation that keeps every session's token and cancels at most more tokens.\<close>

lemma session_inv_same_tokens:
  assumes "session_inv r" "wf_map (sr_inner r')" "sr_next_token r' = sr_next_token r"
    and "sr_cancelled r \<subseteq> sr_cancelled r'" "sr_cancelled r' \<subseteq> {..<sr_next_token r}"
    and dom: "\<And>c. map_option sess_cancel (map_of (sr_inner r') c) = map_option sess_cancel (map_of (sr_inner r) c)"
    and ok: "\<And>c s s'. map_of (sr_inner r) c = Some s \<Longrightarrow> map_of (sr_inner r') c = Some s' \<Longrightarrow>
           session_ok r c s \<Longrightarrow> session_ok r' c s'"
  shows "session_inv r'"
proof (rule session_invI)
  have orig: "\<exists>s. map_of (sr_inner r) c = Some s \<and> sess_cancel s = sess_cancel s'"
    if "map_of (sr_inner r') c = Some s'" for c s'
    using dom [of c] that by (cases "map_of (sr_inner r) c") auto
  show "session_ok r' c s'" if "map_of (sr_inner r') c = Some s'" for c s'
    using orig [OF that] ok that session_inv_ok [OF assms(1)] by blast
  show "c = d" if "map_of (sr_inner r') c = Some s" "map_of (sr_inner r') d = Some t"
    "sess_cancel s = sess_cancel t" for c d s t
    using orig [OF that(1)] orig [OF that(2)] that(3) session_inv_distinct [OF assms(1)] by metis
  show "\<exists>c s. map_of (sr_inner r') c = Some s \<and> sess_cancel s = t"
    if "t < sr_next_token r'" "t \<notin> sr_cancelled r'" for t
  proof -
    have "t < sr_next_token r" "t \<notin> sr_cancelled r" using that assms(3,4) by auto
    with session_inv_live [OF assms(1)] obtain c s
      where "map_of (sr_inner r) c = Some s" "sess_cancel s = t" by blast
    with dom [of c] show ?thesis by (cases "map_of (sr_inner r') c") auto
  qed
qed (use assms(2,3,5) in simp_all)

lemma new_registry_session_inv: "session_inv new_controller_registry"
  by (simp add: session_inv_def new_controller_registry_def)

lemma register_inv:
  assumes "session_inv r" "register_owned_cancellable now c info tx sid ow r = (out, r')"
  shows "session_inv r'"
proof -
  let ?s = "\<lparr>sess_controller_id = c, sess_session_id = sid, sess_info = info, sess_stream_tx = Some tx,
     sess_last_seen = now, sess_offline_since = None, sess_cancel = sr_next_token r, sess_ownership = ow\<rparr>"
  have inner: "sr_inner r' = AList.update c ?s (sr_inner r)"
    and next': "sr_next_token r' = Suc (sr_next_token r)"
    and sub: "sr_cancelled r \<subseteq> sr_cancelled r'"
    using assms(2) by (auto simp: register_owned_cancellable_def Let_def split: option.splits)
  have old: "sess_cancel s \<in> sr_cancelled r'" if "map_of (sr_inner r) c = Some s" for s
    using session_inv_ok [OF assms(1) that] assms(2) that
    by (cases "sess_stream_tx s") (auto simp: register_owned_cancellable_def Let_def session_ok_def)
  have fresh: "sess_cancel s < sr_next_token r" if "map_of (sr_inner r) d = Some s" for d s
    using session_inv_ok [OF assms(1) that] by (simp add: session_ok_def)
  show ?thesis
  proof (rule session_invI)
    show "wf_map (sr_inner r')" using assms(1) by (simp add: inner session_inv_def)
    show "sr_cancelled r' \<subseteq> {..<sr_next_token r'}"
      using session_inv_issued [OF assms(1)] assms(2) fresh [of c]
      by (fastforce simp: register_owned_cancellable_def Let_def split: option.splits bind_splits if_splits)
    show "session_ok r' d s" if "map_of (sr_inner r') d = Some s" for d s
    proof (cases "d = c")
      case True
      with that next' show ?thesis by (auto simp: inner map_of_update session_ok_def)
    next
      case False
      with that have "session_ok r d s" using session_inv_ok [OF assms(1)] by (simp add: inner map_of_update)
      then show ?thesis by (rule session_ok_mono) (simp_all add: next' sub)
    qed
    show "d = e" if "map_of (sr_inner r') d = Some s" "map_of (sr_inner r') e = Some t"
      "sess_cancel s = sess_cancel t" for d e s t
      using that fresh [of d s] fresh [of e t] session_inv_distinct [OF assms(1), of d s e t]
      by (cases "d = c"; cases "e = c") (auto simp: inner map_of_update)
    show "\<exists>d s. map_of (sr_inner r') d = Some s \<and> sess_cancel s = t"
      if "t < sr_next_token r'" "t \<notin> sr_cancelled r'" for t
    proof (cases "t = sr_next_token r")
      case True
      then show ?thesis by (intro exI [of _ c] exI [of _ ?s]) (simp add: inner map_of_update)
    next
      case False
      with that next' sub session_inv_live [OF assms(1), of t] obtain d s
        where d: "map_of (sr_inner r) d = Some s" "sess_cancel s = t" by auto
      with old that have "d \<noteq> c" by auto
      with d show ?thesis by (intro exI [of _ d] exI [of _ s]) (simp add: inner map_of_update)
    qed
  qed
qed

lemma mark_offline_inv:
  assumes "session_inv r"
  shows "session_inv (snd (mark_offline now c sid r))"
proof (cases "fst (mark_offline now c sid r)")
  case True
  then obtain s where "map_of (sr_inner r) c = Some s"
    by (auto simp: mark_offline_def split: option.splits)
  with True session_inv_ok [OF assms this] session_inv_issued [OF assms] show ?thesis
    by (intro session_inv_same_tokens [OF assms])
      (auto simp: mark_offline_def map_of_update session_ok_def session_inv_wf [OF assms] split: if_splits)
next
  case False
  with assms show ?thesis by (auto simp: mark_offline_def split: option.splits if_splits)
qed

lemma update_last_seen_inv:
  assumes "session_inv r"
  shows "session_inv (update_last_seen now c r)"
  using session_inv_issued [OF assms]
  by (intro session_inv_same_tokens [OF assms])
    (auto simp: update_last_seen_def map_of_update session_ok_def session_inv_wf [OF assms]
      split: option.splits if_splits)

lemma fence_inv:
  assumes "session_inv r"
  shows "session_inv (snd (fence_owned_session c r))"
  using session_inv_issued [OF assms] session_inv_ok [OF assms, of c]
  by (intro session_inv_same_tokens [OF assms])
    (auto simp: fence_owned_session_def session_ok_def session_inv_wf [OF assms] split: option.splits)

lemma cancel_all_inv:
  assumes "session_inv r"
  shows "session_inv (snd (cancel_all r))"
proof (rule session_inv_same_tokens [OF assms])
  let ?f = "\<lambda>s. if is_online r s then s\<lparr>sess_stream_tx := None\<rparr> else s"
  have inner: "map_of (sr_inner (snd (cancel_all r))) c = map_option ?f (map_of (sr_inner r) c)" for c
    by (simp add: cancel_all_def Let_def map_of_values)
  show "map_option sess_cancel (map_of (sr_inner (snd (cancel_all r))) c) =
      map_option sess_cancel (map_of (sr_inner r) c)" for c
    by (cases "map_of (sr_inner r) c") (simp_all add: inner)
  show "session_ok (snd (cancel_all r)) c s'"
    if "map_of (sr_inner r) c = Some s" "map_of (sr_inner (snd (cancel_all r))) c = Some s'"
      "session_ok r c s" for c s s'
  proof -
    have s': "s' = ?f s" using that inner by simp
    have "sess_cancel s \<in> sr_cancelled (snd (cancel_all r))" if "is_online r s"
      using that \<open>map_of (sr_inner r) c = Some s\<close>
      by (force simp: cancel_all_def Let_def dest: map_of_SomeD)
    moreover have "sr_next_token (snd (cancel_all r)) = sr_next_token r"
      "sr_cancelled r \<subseteq> sr_cancelled (snd (cancel_all r))"
      by (auto simp: cancel_all_def Let_def)
    ultimately show ?thesis
      using that(3) by (auto simp: s' session_ok_def)
  qed
  show "sr_cancelled (snd (cancel_all r)) \<subseteq> {..<sr_next_token r}"
    using session_inv_issued [OF assms] session_inv_ok [OF assms] session_inv_wf [OF assms]
    by (force simp: cancel_all_def Let_def session_ok_def mem_wf_map)
qed (auto simp: cancel_all_def Let_def session_inv_wf [OF assms])

lemma cancel_token_inv:
  assumes "session_inv r" "t < sr_next_token r"
  shows "session_inv (r\<lparr>sr_cancelled := insert t (sr_cancelled r)\<rparr>)"
  using session_inv_issued [OF assms(1)] session_inv_wf [OF assms(1)] assms(2)
  by (intro session_inv_same_tokens [OF assms(1)]) (auto simp: session_ok_def)

lemma revoke_inv:
  assumes "session_inv r"
  shows "session_inv (r\<lparr>sr_revoked := V\<rparr>)"
  using session_inv_issued [OF assms(1)] session_inv_wf [OF assms(1)]
  by (intro session_inv_same_tokens [OF assms(1)]) (auto simp: session_ok_def)

lemma remove_session_inv:
  assumes "session_inv r"
  shows "session_inv (snd (remove_session c r))"
proof (cases "map_of (sr_inner r) c")
  case None
  with assms show ?thesis by (simp add: remove_session_def)
next
  case (Some s)
  let ?r = "snd (remove_session c r)"
  have inner: "map_of (sr_inner ?r) = (map_of (sr_inner r))(c := None)"
    and same: "sr_next_token ?r = sr_next_token r"
    and canc: "sr_cancelled ?r = insert (sess_cancel s) (sr_cancelled r)"
    and wf: "wf_map (sr_inner ?r)"
    using session_inv_wf [OF assms] by (simp_all add: remove_session_def Some map_of_delete_key)
  show ?thesis
  proof (rule session_invI [OF wf])
    show "sr_cancelled ?r \<subseteq> {..<sr_next_token ?r}"
      unfolding same canc using session_inv_issued [OF assms] session_inv_ok [OF assms Some]
      by (simp add: session_ok_def)
    show "session_ok ?r d t" if "map_of (sr_inner ?r) d = Some t" for d t
      using that session_inv_ok [OF assms, of d t]
      by (cases "d = c") (auto simp: inner same canc intro!: session_ok_mono [of r d t])
    show "d = e" if "map_of (sr_inner ?r) d = Some t" "map_of (sr_inner ?r) e = Some u"
      "sess_cancel t = sess_cancel u" for d e t u
      using that session_inv_distinct [OF assms, of d t e u]
      by (cases "d = c"; cases "e = c") (simp_all add: inner)
    show "\<exists>d u. map_of (sr_inner ?r) d = Some u \<and> sess_cancel u = t"
      if "t < sr_next_token ?r" "t \<notin> sr_cancelled ?r" for t
    proof -
      from that session_inv_live [OF assms, of t] obtain d u
        where d: "map_of (sr_inner r) d = Some u" "sess_cancel u = t" by (auto simp: same canc)
      with Some that have "d \<noteq> c" by (auto simp: canc)
      with d show ?thesis by (intro exI [of _ d] exI [of _ u]) (simp add: inner)
    qed
  qed
qed

lemma registry_step_inv: "session_inv r \<Longrightarrow> session_inv (registry_step opn r)"
  by (cases opn)
    (auto simp: mark_offline_inv update_last_seen_inv fence_inv cancel_all_inv cancel_token_inv
      revoke_inv      remove_session_inv intro: register_inv [OF _ surjective_pairing])

lemma registry_run_inv: "session_inv r \<Longrightarrow> session_inv (registry_run ops r)"
  unfolding registry_run_def
  by (induction ops arbitrary: r) (auto intro: registry_step_inv simp del: registry_step.simps)

lemma registry_run_snoc: "registry_run (ops @ [opn]) r = registry_step opn (registry_run ops r)"
  by (simp add: registry_run_def)

lemma registry_run_append: "registry_run (xs @ ys) r = registry_run ys (registry_run xs r)"
  by (simp add: registry_run_def)

text \<open>Cells only ever go one way.\<close>

lemma registry_step_cells:
  "sr_cancelled r \<subseteq> sr_cancelled (registry_step opn r)"
  "sr_revoked r \<subseteq> sr_revoked (registry_step opn r)"
  by (cases opn;
      auto simp: register_owned_cancellable_def mark_offline_def fence_owned_session_def
        remove_session_def update_last_seen_def cancel_all_def Let_def split: option.splits)+

lemma registry_run_cells:
  "sr_cancelled r \<subseteq> sr_cancelled (registry_run ops r) \<and> sr_revoked r \<subseteq> sr_revoked (registry_run ops r)"
  unfolding registry_run_def
proof (induction ops arbitrary: r)
  case (Cons opn ops)
  from Cons.IH [of "registry_step opn r"] registry_step_cells [of r opn] show ?case
    by (simp del: registry_step.simps) blast
qed simp

text \<open>Only a registration can make a session id current.\<close>

lemma registry_step_current:
  assumes "is_current_session c sid (registry_step opn r)"
  shows "is_current_session c sid r \<or> (\<exists>now info tx ow. opn = Register now c info tx sid ow)"
  using assms
  by (cases opn)
    (auto simp: is_current_session_def register_owned_cancellable_def mark_offline_def
      fence_owned_session_def remove_session_def update_last_seen_def cancel_all_def Let_def
      map_simps split: option.splits if_splits)

lemma registry_run_current:
  assumes "\<not> is_current_session c sid r"
    and "\<And>now d info tx ow. Register now d info tx sid ow \<notin> set ops"
  shows "\<not> is_current_session c sid (registry_run ops r)"
  using assms
proof (induction ops arbitrary: r)
  case (Cons opn ops)
  have "\<not> is_current_session c sid (registry_step opn r)"
    using Cons.prems registry_step_current by (metis list.set_intros(1))
  with Cons show ?case by (simp add: registry_run_def del: registry_step.simps)
qed (simp add: registry_run_def)

lemma mark_offline_stale: "\<not> is_current_session c sid r \<Longrightarrow> mark_offline now c sid r = (False, r)"
  by (auto simp: is_current_session_def mark_offline_def split: option.splits)

lemma revoked_never_matches:
  "sv_ownership v = Some ow \<Longrightarrow> own_valid ow \<in> sr_revoked r \<Longrightarrow> \<not> matches_ownership r h f v"
  by (simp add: matches_ownership_def is_valid_def)

section \<open>Properties\<close>

text \<open>
  C6: Takeover is exclusive. Whatever happened before, right after a registration the new session is
  the current one and online, the session it replaced is cancelled and reported as displaced exactly
  when it still had a sender, and every token that was ever handed out and is not cancelled is the
  token of a registered session that holds a sender: no predecessor of any Controller is left live.
\<close>

theorem takeover_exclusive:
  assumes "r = registry_run ops new_controller_registry"
    and "register_owned_cancellable now c info tx sid ow r = (out, r')"
  shows "is_current_session c sid r'
    \<and> (\<exists>v. get_session c r' = Some v \<and> sv_stream_tx v = Some tx \<and> sv_ownership v = ow
           \<and> sv_session_cancel v = outcome_session_cancel out)
    \<and> (\<forall>s. map_of (sr_inner r) c = Some s \<longrightarrow>
           sess_cancel s \<in> sr_cancelled r' \<and> sess_cancel s \<noteq> outcome_session_cancel out
           \<and> displaced_session_id out = (if sess_stream_tx s = None then None else Some (sess_session_id s)))
    \<and> (\<forall>t < sr_next_token r'. t \<notin> sr_cancelled r' \<longrightarrow>
           (\<exists>d s. map_of (sr_inner r') d = Some s \<and> sess_cancel s = t \<and> is_online r' s))"
proof -
  have inv: "session_inv r" unfolding assms(1) by (rule registry_run_inv [OF new_registry_session_inv])
  then have inv': "session_inv r'" using assms(2) by (rule register_inv)
  have old: "sess_cancel s \<in> sr_cancelled r' \<and> sess_cancel s \<noteq> outcome_session_cancel out
      \<and> displaced_session_id out = (if sess_stream_tx s = None then None else Some (sess_session_id s))"
    if "map_of (sr_inner r) c = Some s" for s
    using session_inv_ok [OF inv that] assms(2) that
    by (auto simp: register_owned_cancellable_def Let_def session_ok_def)
  have live: "\<exists>d s. map_of (sr_inner r') d = Some s \<and> sess_cancel s = t \<and> is_online r' s"
    if "t < sr_next_token r'" "t \<notin> sr_cancelled r'" for t
  proof -
    from session_inv_live [OF inv' that] obtain d s
      where "map_of (sr_inner r') d = Some s" "sess_cancel s = t" by blast
    with session_inv_ok [OF inv' this(1)] that show ?thesis
      by (auto simp: session_ok_def is_online_def intro!: exI [of _ d])
  qed
  have "sr_next_token r \<notin> sr_cancelled r"
    using session_inv_issued [OF inv] by auto
  then have "sr_next_token r \<notin> sr_cancelled r'"
    using session_inv_ok [OF inv, of c] assms(2)
    by (auto simp: register_owned_cancellable_def Let_def session_ok_def
        split: option.splits bind_splits if_splits)
  moreover have "map_of (sr_inner r') c = Some \<lparr>sess_controller_id = c, sess_session_id = sid,
      sess_info = info, sess_stream_tx = Some tx, sess_last_seen = now, sess_offline_since = None,
      sess_cancel = sr_next_token r, sess_ownership = ow\<rparr>"
    and "outcome_session_cancel out = sr_next_token r"
    using assms(2) by (auto simp: register_owned_cancellable_def Let_def map_of_update)
  ultimately have "\<exists>v. get_session c r' = Some v \<and> sv_stream_tx v = Some tx \<and> sv_ownership v = ow
      \<and> sv_session_cancel v = outcome_session_cancel out"
    and "is_current_session c sid r'"
    by (simp_all add: get_session_def is_online_def is_current_session_def)
  with old live show ?thesis by blast
qed

definition sample_request :: "string \<Rightarrow> RegisterRequest" where
  "sample_request c = \<lparr>req_controller_id = c, req_cluster = ''eu'', req_env = [], req_tag = []\<rparr>"

lemma takeover_exclusive_witness:
  "let r = registry_run [Register 1 ''c1'' (sample_request ''c1'') 10 ''s1'' None] new_controller_registry;
       r' = snd (register_owned_cancellable 2 ''c1'' (sample_request ''c1'') 11 ''s2'' None r)
   in is_current_session ''c1'' ''s2'' r' \<and> 0 \<in> sr_cancelled r'"
proof -
  let ?r = "registry_run [Register 1 ''c1'' (sample_request ''c1'') 10 ''s1'' None] new_controller_registry"
  have "map_of (sr_inner ?r) ''c1'' = Some \<lparr>sess_controller_id = ''c1'', sess_session_id = ''s1'',
      sess_info = sample_request ''c1'', sess_stream_tx = Some 10, sess_last_seen = 1,
      sess_offline_since = None, sess_cancel = 0, sess_ownership = None\<rparr>"
    by (simp add: registry_run_def register_owned_cancellable_def Let_def new_controller_registry_def)
  with takeover_exclusive [OF refl surjective_pairing, where now = 2 and c = "''c1''" and tx = 11
      and info = "sample_request ''c1''" and sid = "''s2''" and ow = None
      and ops = "[Register 1 ''c1'' (sample_request ''c1'') 10 ''s1'' None]"]
  show ?thesis unfolding Let_def by fastforce
qed

text \<open>
  A superseded task stays superseded. Once a session id is not the current one of a Controller,
  it never becomes current again under any further calls that do not register that same id, and its
  offline report is refused without touching the table.
\<close>

theorem stale_session_stays_stale:
  assumes "\<not> is_current_session c sid r"
    and "\<And>now d info tx ow. Register now d info tx sid ow \<notin> set ops"
  shows "\<not> is_current_session c sid (registry_run ops r)
         \<and> mark_offline now' c sid (registry_run ops r) = (False, registry_run ops r)"
  using registry_run_current [OF assms] mark_offline_stale by blast

lemma stale_session_stays_stale_witness:
  "let r = registry_run [Register 1 ''c1'' (sample_request ''c1'') 10 ''s1'' None,
                         Register 2 ''c1'' (sample_request ''c1'') 11 ''s2'' None] new_controller_registry;
       r' = registry_run [UpdateLastSeen 3 ''c1'', CancelAll] r
   in mark_offline 4 ''c1'' ''s1'' r' = (False, r')"
  unfolding Let_def
  by (rule stale_session_stays_stale [THEN conjunct2])
    (simp_all add: registry_run_def register_owned_cancellable_def Let_def is_current_session_def
      new_controller_registry_def)

text \<open>
  A fence is final. After \<open>fence_owned_session\<close> or \<open>remove\<close> on an owned session, every view of
  that session, also one read before, fails \<open>matches_ownership\<close> for every holder and fence, and its
  token is cancelled, whatever calls follow: traffic under the old fence is never accepted again.
\<close>

theorem fenced_never_matches:
  assumes "get_session c r = Some v" "sv_ownership v = Some ow"
    and "r' = snd (fence_owned_session c r) \<or> r' = snd (remove_session c r)"
  shows "\<not> matches_ownership (registry_run ops r') holder fence v
         \<and> sv_session_cancel v \<in> sr_cancelled (registry_run ops r')"
proof -
  have "own_valid ow \<in> sr_revoked r' \<and> sv_session_cancel v \<in> sr_cancelled r'"
    using assms by (auto simp: get_session_def fence_owned_session_def remove_session_def)
  with registry_run_cells [of r' ops] revoked_never_matches [OF assms(2)] show ?thesis by blast
qed

definition sample_ownership :: SessionOwnership where
  "sample_ownership =
     \<lparr>own_holder = ''center-0'', own_fence = \<lparr>fence_token = ''t'', fence_epoch = 4\<rparr>, own_valid = 0\<rparr>"

lemma fenced_never_matches_witness:
  "let r = registry_run [Register 1 ''c1'' (sample_request ''c1'') 10 ''s1'' (Some sample_ownership)] new_controller_registry;
       v = the (get_session ''c1'' r)
   in matches_ownership r ''center-0'' \<lparr>fence_token = ''t'', fence_epoch = 4\<rparr> v
      \<and> \<not> matches_ownership (registry_run [CancelAll] (snd (fence_owned_session ''c1'' r)))
            ''center-0'' \<lparr>fence_token = ''t'', fence_epoch = 4\<rparr> v"
proof -
  let ?r = "registry_run [Register 1 ''c1'' (sample_request ''c1'') 10 ''s1'' (Some sample_ownership)] new_controller_registry"
  have v: "get_session ''c1'' ?r = Some \<lparr>sv_controller_id = ''c1'', sv_session_id = ''s1'',
      sv_info = sample_request ''c1'', sv_stream_tx = Some 10, sv_last_seen = 1,
      sv_offline_since = None, sv_session_cancel = 0, sv_ownership = Some sample_ownership\<rparr>"
    and rev: "sr_revoked ?r = {}"
    by (simp_all add: registry_run_def register_owned_cancellable_def Let_def get_session_def
        is_online_def new_controller_registry_def)
  from fenced_never_matches [OF v _ disjI1 [OF refl], of sample_ownership "[CancelAll]" "''center-0''"
      "\<lparr>fence_token = ''t'', fence_epoch = 4\<rparr>"] v rev
  show ?thesis
    by (simp add: Let_def matches_ownership_def is_valid_def sample_ownership_def)
qed

end
