(* ===== verification/Aggregator.thy ===== *)
theory Aggregator
  imports Controller_Core
begin

text \<open>
  The in-memory Controller aggregate: \<open>crates/center-runtime/src/aggregator.rs\<close>. The metrics hook
  is the list of gauge writes an operation makes, in order; \<open>Instant\<close>s are milliseconds.
\<close>

section \<open>Data\<close>

record ControllerInfo =
  info_controller_id :: string
  info_cluster :: string
  info_environments :: "string list"
  info_tags :: "string list"

record StatsEntry =
  stats_total :: u64
  stats_per_kind :: "(string, u32) hmap option"
  stats_updated_at :: nat

record ControllerSnapshot =
  snap_info :: ControllerInfo
  snap_offline_since :: "nat option"
  snap_stats :: "StatsEntry option"

type_synonym ResourceAggregator = "(string, ControllerSnapshot) hmap"

datatype metric_write = SetControllerCount string u64 | RecordEviction

datatype StatsState = Fresh | Stale | Missing

record ControllerSummary =
  sum_controller_id :: string
  sum_cluster :: string
  sum_env :: "string list"
  sum_tag :: "string list"
  sum_online :: bool
  sum_key_count :: "u64 option"
  sum_per_kind :: "(string, u32) hmap option"
  sum_stats_updated_secs_ago :: "nat option"
  sum_stats_state :: StatsState
  sum_last_seen_secs_ago :: "nat option"

section \<open>Operations\<close>

definition new_snapshot :: "ControllerInfo \<Rightarrow> ControllerSnapshot" where
  "new_snapshot info = \<lparr>snap_info = info, snap_offline_since = None, snap_stats = None\<rparr>"

definition cluster_label :: "ControllerSnapshot \<Rightarrow> string" where
  "cluster_label s = (if info_cluster (snap_info s) = [] then ''unknown'' else info_cluster (snap_info s))"

text \<open>The two passes: seed every known cluster with zero, then count the online Controllers.\<close>

definition compute_gauge_snapshot :: "ResourceAggregator \<Rightarrow> (string, u64) hmap" where
  "compute_gauge_snapshot m =
     fold (\<lambda>s g. let c = cluster_label s
                 in AList.update c ((case map_of g c of None \<Rightarrow> 0 | Some n \<Rightarrow> n) + 1) g)
       (filter (\<lambda>s. snap_offline_since s = None) (map snd m))
       (fold (\<lambda>s g. let c = cluster_label s
                    in if map_of g c = None then AList.update c 0 g else g) (map snd m) [])"

definition emit_gauges :: "(string, u64) hmap \<Rightarrow> metric_write list" where
  "emit_gauges snapshot = map (\<lambda>(cluster, count). SetControllerCount cluster count) snapshot"

definition set_controller_info ::
  "string \<Rightarrow> ControllerInfo \<Rightarrow> ResourceAggregator \<Rightarrow> ResourceAggregator \<times> metric_write list" where
  "set_controller_info controller_id info m =
     (let snap = (case map_of m controller_id of None \<Rightarrow> new_snapshot info | Some s \<Rightarrow> s);
          m' = AList.update controller_id
                 (snap\<lparr>snap_info := info, snap_offline_since := None, snap_stats := None\<rparr>) m
      in (m', emit_gauges (compute_gauge_snapshot m')))"

definition aggregator_mark_offline ::
  "nat \<Rightarrow> string \<Rightarrow> ResourceAggregator \<Rightarrow> ResourceAggregator \<times> metric_write list" where
  "aggregator_mark_offline now controller_id m =
     (let m' = (case map_of m controller_id of
                  None \<Rightarrow> m
                | Some s \<Rightarrow>
                    if snap_offline_since s = None
                    then AList.update controller_id (s\<lparr>snap_offline_since := Some now\<rparr>) m
                    else m)
      in (m', emit_gauges (compute_gauge_snapshot m')))"

definition aggregator_remove ::
  "string \<Rightarrow> ResourceAggregator \<Rightarrow> bool \<times> ResourceAggregator \<times> metric_write list" where
  "aggregator_remove controller_id m =
     (case map_of m controller_id of
        None \<Rightarrow> (False, m, [])
      | Some s \<Rightarrow>
          let cluster = cluster_label s;
              m' = AList.delete controller_id m;
              zero = (if list_ex (\<lambda>(_, s'). cluster_label s' = cluster) m' then [] else [SetControllerCount cluster 0])
          in (True, m', RecordEviction # emit_gauges (compute_gauge_snapshot m') @ zero))"

definition update_stats ::
  "nat \<Rightarrow> string \<Rightarrow> (string, u32) hmap option \<Rightarrow> u64 \<Rightarrow> ResourceAggregator \<Rightarrow> ResourceAggregator" where
  "update_stats now controller_id per_kind total_count m =
     (case map_of m controller_id of
        None \<Rightarrow> m
      | Some s \<Rightarrow>
          AList.update controller_id
            (s\<lparr>snap_stats := Some \<lparr>stats_total = total_count, stats_per_kind = per_kind,
                                  stats_updated_at = now\<rparr>\<rparr>) m)"

definition derive_stats_state :: "bool \<Rightarrow> bool \<Rightarrow> StatsState" where
  "derive_stats_state counts_present online =
     (case (counts_present, online) of
        (True, True) \<Rightarrow> Fresh
      | (True, False) \<Rightarrow> Stale
      | (False, _) \<Rightarrow> Missing)"

definition controller_summaries :: "nat \<Rightarrow> ResourceAggregator \<Rightarrow> ControllerSummary list" where
  "controller_summaries now m =
     map (\<lambda>(_, s).
       let online = (snap_offline_since s = None);
           key_count = map_option stats_total (snap_stats s)
       in \<lparr>sum_controller_id = info_controller_id (snap_info s),
           sum_cluster = info_cluster (snap_info s), sum_env = info_environments (snap_info s),
           sum_tag = info_tags (snap_info s), sum_online = online, sum_key_count = key_count,
           sum_per_kind = Option.bind (snap_stats s) stats_per_kind,
           sum_stats_updated_secs_ago =
             map_option (\<lambda>e. (now - stats_updated_at e) div 1000) (snap_stats s),
           sum_stats_state = derive_stats_state (key_count \<noteq> None) online,
           sum_last_seen_secs_ago = None\<rparr>) m"

section \<open>Specification\<close>

definition clusters_of :: "ResourceAggregator \<Rightarrow> string set" where
  "clusters_of m = cluster_label ` snd ` set m"

definition online_in_cluster :: "string \<Rightarrow> ResourceAggregator \<Rightarrow> nat" where
  "online_in_cluster cluster m =
     length (filter (\<lambda>(_, s). snap_offline_since s = None \<and> cluster_label s = cluster) m)"

text \<open>The value a gauge has after a list of writes, starting from \<open>g\<close>.\<close>

fun gauge_write :: "metric_write \<Rightarrow> (string \<rightharpoonup> u64) \<Rightarrow> (string \<rightharpoonup> u64)" where
  "gauge_write (SetControllerCount cluster n) g = g(cluster \<mapsto> n)"
| "gauge_write RecordEviction g = g"

definition gauges_after :: "metric_write list \<Rightarrow> (string \<rightharpoonup> u64) \<Rightarrow> (string \<rightharpoonup> u64)" where
  "gauges_after ws g = fold gauge_write ws g"

text \<open>
  Every gauge that was ever written shows the number of online Controllers of its cluster, and every
  cluster of a known Controller has one.
\<close>

definition gauges_ok :: "ResourceAggregator \<Rightarrow> (string \<rightharpoonup> u64) \<Rightarrow> bool" where
  "gauges_ok m g \<longleftrightarrow>
     (\<forall>cluster n. g cluster = Some n \<longrightarrow> n = of_nat (online_in_cluster cluster m))
     \<and> clusters_of m \<subseteq> dom g"

datatype aggregator_op =
    SetInfo string ControllerInfo
  | AggOffline nat string
  | AggRemove string
  | AggStats nat string "(string, u32) hmap option" u64

fun aggregator_step :: "aggregator_op \<Rightarrow> ResourceAggregator \<times> (string \<rightharpoonup> u64) \<Rightarrow> ResourceAggregator \<times> (string \<rightharpoonup> u64)" where
  "aggregator_step (SetInfo c info) (m, g) =
     (let (m', ws) = set_controller_info c info m in (m', gauges_after ws g))"
| "aggregator_step (AggOffline now c) (m, g) =
     (let (m', ws) = aggregator_mark_offline now c m in (m', gauges_after ws g))"
| "aggregator_step (AggRemove c) (m, g) =
     (let (_, m', ws) = aggregator_remove c m in (m', gauges_after ws g))"
| "aggregator_step (AggStats now c per_kind n) (m, g) = (update_stats now c per_kind n m, g)"

section \<open>Lemmas\<close>

lemma seed_pass:
  fixes g :: "(string, u64) hmap"
  shows "map_of (fold (\<lambda>s g. let c = cluster_label s in if map_of g c = None then AList.update c 0 g else g) ss g) k =
     (case map_of g k of Some n \<Rightarrow> Some n | None \<Rightarrow> if k \<in> cluster_label ` set ss then Some 0 else None)"
  by (induction ss arbitrary: g) (auto simp: Let_def map_of_update split: option.splits)

lemma seed_pass_wf:
  fixes g :: "(string, u64) hmap"
  shows "wf_map g \<Longrightarrow>
     wf_map (fold (\<lambda>s g. let c = cluster_label s in if map_of g c = None then AList.update c 0 g else g) ss g)"
  by (induction ss arbitrary: g) (auto simp: Let_def)

lemma count_pass:
  fixes g :: "(string, u64) hmap"
  assumes "cluster_label ` set ss \<subseteq> dom (map_of g)"
  shows "map_of (fold (\<lambda>s g. let c = cluster_label s
            in AList.update c ((case map_of g c of None \<Rightarrow> 0 | Some n \<Rightarrow> n) + 1) g) ss g) k =
     map_option (\<lambda>n. n + of_nat (length (filter (\<lambda>s. cluster_label s = k) ss))) (map_of g k)"
  using assms
proof (induction ss arbitrary: g)
  case (Cons s ss)
  let ?g = "AList.update (cluster_label s) ((case map_of g (cluster_label s) of None \<Rightarrow> 0 | Some n \<Rightarrow> n) + 1) g"
  have "cluster_label ` set ss \<subseteq> dom (map_of ?g)"
    using Cons.prems by (auto simp: map_of_update)
  from Cons.IH [OF this] Cons.prems show ?case
    by (cases "map_of g k") (auto simp: Let_def map_of_update)
qed (simp add: option.map_ident)

lemma count_pass_wf:
  fixes g :: "(string, u64) hmap"
  shows "wf_map g \<Longrightarrow> wf_map (fold (\<lambda>s g. let c = cluster_label s
            in AList.update c ((case map_of g c of None \<Rightarrow> 0 | Some n \<Rightarrow> n) + 1) g) ss g)"
  by (induction ss arbitrary: g) (auto simp: Let_def)

lemma gauge_snapshot_wf: "wf_map (compute_gauge_snapshot m)"
  unfolding compute_gauge_snapshot_def by (intro count_pass_wf seed_pass_wf) simp

lemma online_filter:
  "online_in_cluster k m =
     length (filter (\<lambda>s. cluster_label s = k) (filter (\<lambda>s. snap_offline_since s = None) (map snd m)))"
  unfolding online_in_cluster_def by (induction m) (simp_all add: split_beta)

lemma gauge_snapshot:
  "map_of (compute_gauge_snapshot m) k =
     (if k \<in> clusters_of m then Some (of_nat (online_in_cluster k m)) else None)"
proof -
  let ?online = "filter (\<lambda>s. snap_offline_since s = None) (map snd m)"
  let ?seed = "fold (\<lambda>s g. let c = cluster_label s in if map_of g c = None then AList.update c 0 g else g)
     (map snd m) ([] :: (string, u64) hmap)"
  have seed: "map_of ?seed l = (if l \<in> clusters_of m then Some 0 else None)" for l
    by (simp only: seed_pass clusters_of_def set_map) simp
  have dom: "cluster_label ` set ?online \<subseteq> dom (map_of ?seed)"
  proof -
    have "dom (map_of ?seed) = clusters_of m"
      unfolding dom_def seed by (auto split: if_splits)
    moreover have "cluster_label ` set ?online \<subseteq> cluster_label ` snd ` set m"
      by (rule image_mono) auto
    ultimately show ?thesis by (simp only: clusters_of_def)
  qed
  show ?thesis
    unfolding online_filter compute_gauge_snapshot_def count_pass [OF dom] seed by simp
qed

lemma gauges_after_emit:
  "gauges_after (emit_gauges snap) g = g ++ map_of (rev snap)"
  unfolding gauges_after_def emit_gauges_def
  by (induction snap arbitrary: g) (auto simp: map_add_def fun_eq_iff split: option.splits)

lemma gauges_emit_snapshot:
  "gauges_after (emit_gauges (compute_gauge_snapshot m)) g = g ++ map_of (compute_gauge_snapshot m)"
  by (simp add: gauges_after_emit map_of_rev_distinct gauge_snapshot_wf)

lemma online_in_cluster_none: "k \<notin> clusters_of m \<Longrightarrow> online_in_cluster k m = 0"
  by (force simp: online_in_cluster_def clusters_of_def filter_empty_conv)

text \<open>
  Emitting the snapshot of a new map repairs the gauges as long as every gauge outside it belongs to
  a cluster that is gone.
\<close>

lemma gauges_ok_emit:
  assumes "\<And>k n. g k = Some n \<Longrightarrow> k \<notin> clusters_of m' \<Longrightarrow> n = 0"
  shows "gauges_ok m' (gauges_after (emit_gauges (compute_gauge_snapshot m')) g)"
  unfolding gauges_ok_def gauges_emit_snapshot
proof (intro conjI allI impI subsetI)
  fix k n
  assume "(g ++ map_of (compute_gauge_snapshot m')) k = Some n"
  then show "n = of_nat (online_in_cluster k m')"
    using assms [of k n]
    by (cases "k \<in> clusters_of m'") (simp_all add: map_add_def gauge_snapshot online_in_cluster_none)
next
  fix k
  assume "k \<in> clusters_of m'"
  then show "k \<in> dom (g ++ map_of (compute_gauge_snapshot m'))"
    by (simp add: map_add_def gauge_snapshot domIff)
qed

lemma gauges_ok_zero:
  "gauges_ok m g \<Longrightarrow> clusters_of m \<subseteq> S \<Longrightarrow> g k = Some n \<Longrightarrow> k \<notin> S \<Longrightarrow> n = 0"
  unfolding gauges_ok_def using online_in_cluster_none [of k m] by force

text \<open>A Controller that is already known registers again under the cluster it had.\<close>

fun same_cluster :: "aggregator_op \<Rightarrow> ResourceAggregator \<Rightarrow> bool" where
  "same_cluster (SetInfo c info) m \<longleftrightarrow>
     (case map_of m c of None \<Rightarrow> True | Some s \<Rightarrow> info_cluster (snap_info s) = info_cluster info)"
| "same_cluster _ m \<longleftrightarrow> True"

fun aggregator_run ::
  "aggregator_op list \<Rightarrow> ResourceAggregator \<times> (string \<rightharpoonup> u64) \<Rightarrow> ResourceAggregator \<times> (string \<rightharpoonup> u64)" where
  "aggregator_run [] st = st"
| "aggregator_run (opn # ops) st = aggregator_run ops (aggregator_step opn st)"

fun clusters_fixed :: "aggregator_op list \<Rightarrow> ResourceAggregator \<times> (string \<rightharpoonup> u64) \<Rightarrow> bool" where
  "clusters_fixed [] st \<longleftrightarrow> True"
| "clusters_fixed (opn # ops) st \<longleftrightarrow>
     same_cluster opn (fst st) \<and> clusters_fixed ops (aggregator_step opn st)"

lemma labels_update:
  assumes "wf_map m" "\<And>s. map_of m c = Some s \<Longrightarrow> cluster_label s = cluster_label s'"
  shows "clusters_of (AList.update c s' m) = insert (cluster_label s') (clusters_of m)"
proof -
  have snd_ran: "snd ` set n = ran (map_of n)" if "wf_map n" for n :: ResourceAggregator
    using that by (simp add: ran_distinct)
  have "ran ((map_of m)(c \<mapsto> s')) = insert s' (ran ((map_of m)(c := None)))"
    by (auto simp: ran_def)
  moreover have "cluster_label ` insert s' (ran ((map_of m)(c := None))) =
      insert (cluster_label s') (cluster_label ` ran (map_of m))"
  proof -
    have "ran (map_of m) \<subseteq> ran ((map_of m)(c := None)) \<union> {s. map_of m c = Some s}"
      by (auto simp: ran_def)
    moreover have "ran ((map_of m)(c := None)) \<subseteq> ran (map_of m)"
      by (auto simp: ran_def split: if_splits)
    ultimately show ?thesis using assms(2) by (fastforce simp: image_iff)
  qed
  ultimately show ?thesis
    using assms(1) by (simp only: snd_ran map_of_update clusters_of_def wf_map_update)
qed

lemma aggregator_step_wf: "wf_map (fst st) \<Longrightarrow> wf_map (fst (aggregator_step opn st))"
  by (cases st; cases opn)
    (auto simp: set_controller_info_def aggregator_mark_offline_def aggregator_remove_def
      update_stats_def Let_def split: option.splits)

lemma set_info_gauges:
  assumes "wf_map m" "gauges_ok m g" "same_cluster (SetInfo c info) m"
    and "set_controller_info c info m = (m', ws)"
  shows "gauges_ok m' (gauges_after ws g)"
proof -
  let ?s = "(case map_of m c of None \<Rightarrow> new_snapshot info | Some s \<Rightarrow> s)
     \<lparr>snap_info := info, snap_offline_since := None, snap_stats := None\<rparr>"
  have m': "m' = AList.update c ?s m" and ws: "ws = emit_gauges (compute_gauge_snapshot m')"
    using assms(4) by (auto simp: set_controller_info_def Let_def)
  have "clusters_of m' = insert (cluster_label ?s) (clusters_of m)"
    unfolding m' using assms(1,3) by (intro labels_update) (auto simp: cluster_label_def)
  then show ?thesis
    unfolding ws using assms(2) by (intro gauges_ok_emit) (erule gauges_ok_zero, auto)
qed

lemma offline_gauges:
  assumes "wf_map m" "gauges_ok m g" "aggregator_mark_offline now c m = (m', ws)"
  shows "gauges_ok m' (gauges_after ws g)"
proof -
  have ws: "ws = emit_gauges (compute_gauge_snapshot m')"
    using assms(3) by (auto simp: aggregator_mark_offline_def Let_def)
  have "clusters_of m \<subseteq> clusters_of m'"
  proof (cases "map_of m c")
    case None
    with assms(3) show ?thesis by (simp add: aggregator_mark_offline_def Let_def)
  next
    case (Some s)
    let ?s = "s\<lparr>snap_offline_since := Some now\<rparr>"
    have "clusters_of (AList.update c ?s m) = insert (cluster_label ?s) (clusters_of m)"
      using assms(1) Some by (intro labels_update) (simp_all add: cluster_label_def)
    with Some assms(3) show ?thesis
      by (auto simp: aggregator_mark_offline_def Let_def split: if_splits)
  qed
  then show ?thesis
    unfolding ws using assms(2) by (intro gauges_ok_emit) (erule gauges_ok_zero, auto)
qed

lemma clusters_of_ex: "list_ex (\<lambda>(_, s). cluster_label s = k) m \<longleftrightarrow> k \<in> clusters_of m"
  by (induction m) (auto simp: clusters_of_def)

lemma mem_clusters_of: "wf_map m \<Longrightarrow> k \<in> clusters_of m \<longleftrightarrow> (\<exists>c s. map_of m c = Some s \<and> cluster_label s = k)"
  by (force simp: clusters_of_def mem_wf_map [symmetric])

lemma remove_gauges:
  assumes "wf_map m" "gauges_ok m g" "aggregator_remove c m = (b, m', ws)"
  shows "gauges_ok m' (gauges_after ws g)"
proof (cases "map_of m c")
  case None
  with assms show ?thesis by (simp add: aggregator_remove_def gauges_after_def)
next
  case (Some s)
  let ?k = "cluster_label s"
  let ?g = "gauges_after (emit_gauges (compute_gauge_snapshot m')) g"
  have m': "m' = AList.delete c m"
    and ws: "ws = RecordEviction # emit_gauges (compute_gauge_snapshot m') @
       (if ?k \<in> clusters_of m' then [] else [SetControllerCount ?k 0])"
    using assms(3) Some by (auto simp: aggregator_remove_def Let_def clusters_of_ex)
  have sub: "clusters_of m \<subseteq> insert ?k (clusters_of m')"
  proof
    fix k assume "k \<in> clusters_of m"
    then obtain d t where "map_of m d = Some t" "cluster_label t = k"
      using mem_clusters_of [OF assms(1)] by blast
    with Some show "k \<in> insert ?k (clusters_of m')"
      using assms(1)
      by (cases "d = c") (auto simp: m' mem_clusters_of map_of_delete_key intro!: exI [of _ d])
  qed
  show ?thesis
  proof (cases "?k \<in> clusters_of m'")
    case True
    then have "gauges_ok m' ?g"
      using assms(2) sub by (intro gauges_ok_emit) (erule gauges_ok_zero, auto)
    with True show ?thesis by (simp add: ws gauges_after_def)
  next
    case False
    have "gauges_after ws g = ?g(?k \<mapsto> 0)"
      using False by (simp add: ws gauges_after_def)
    moreover have "gauges_ok m' (?g(?k \<mapsto> 0))"
    proof -
      have "gauges_ok m' (gauges_after (emit_gauges (compute_gauge_snapshot m')) (g(?k \<mapsto> 0)))"
        using assms(2) sub by (intro gauges_ok_emit)
          (auto split: if_splits dest: gauges_ok_zero [of m g "insert ?k (clusters_of m')"])
      moreover have "gauges_after (emit_gauges (compute_gauge_snapshot m')) (g(?k \<mapsto> 0)) = ?g(?k \<mapsto> 0)"
        using False by (auto simp: gauges_emit_snapshot map_add_def gauge_snapshot fun_eq_iff)
      ultimately show ?thesis by simp
    qed
    ultimately show ?thesis by simp
  qed
qed

lemma update_stats_gauges:
  assumes "wf_map m" "gauges_ok m g"
  shows "gauges_ok (update_stats now c per_kind n m) g"
proof (cases "map_of m c")
  case None
  with assms show ?thesis by (simp add: update_stats_def)
next
  case (Some s)
  let ?s = "s\<lparr>snap_stats := Some \<lparr>stats_total = n, stats_per_kind = per_kind, stats_updated_at = now\<rparr>\<rparr>"
  have online: "online_in_cluster k (AList.update c ?s xs) = online_in_cluster k xs"
    if "map_of xs c = Some s" for k xs
  proof -
    have lab: "cluster_label ?s = cluster_label s" by (simp add: cluster_label_def)
    from that show ?thesis by (induction xs) (auto simp: online_in_cluster_def lab split: if_splits)
  qed
  have "clusters_of (AList.update c ?s m) = insert (cluster_label ?s) (clusters_of m)"
    using assms(1) Some by (intro labels_update) (simp_all add: cluster_label_def)
  moreover have "cluster_label ?s \<in> clusters_of m"
    using Some assms(1) by (auto simp: mem_clusters_of cluster_label_def)
  ultimately show ?thesis
    using assms(2) online [OF Some] Some by (simp add: update_stats_def gauges_ok_def) blast
qed

lemma aggregator_step_gauges:
  assumes "wf_map (fst st)" "gauges_ok (fst st) (snd st)" "same_cluster opn (fst st)"
  shows "gauges_ok (fst (aggregator_step opn st)) (snd (aggregator_step opn st))"
proof -
  obtain m g where st: "st = (m, g)" by fastforce
  show ?thesis
  proof (cases opn)
    case (SetInfo c info)
    obtain m' ws where "set_controller_info c info m = (m', ws)" by fastforce
    with set_info_gauges [OF _ _ _ this] assms show ?thesis by (simp add: st SetInfo)
  next
    case (AggOffline now c)
    obtain m' ws where "aggregator_mark_offline now c m = (m', ws)" by fastforce
    with offline_gauges [OF _ _ this] assms show ?thesis by (simp add: st AggOffline)
  next
    case (AggRemove c)
    obtain b m' ws where "aggregator_remove c m = (b, m', ws)" by (rule prod_cases3)
    with remove_gauges [OF _ _ this] assms show ?thesis by (simp add: st AggRemove)
  next
    case (AggStats now c per_kind n)
    with update_stats_gauges assms show ?thesis by (simp add: st)
  qed
qed

lemma aggregator_run_gauges:
  "wf_map (fst st) \<Longrightarrow> gauges_ok (fst st) (snd st) \<Longrightarrow> clusters_fixed ops st \<Longrightarrow>
     gauges_ok (fst (aggregator_run ops st)) (snd (aggregator_run ops st))"
  by (induction ops arbitrary: st)
    (auto simp: aggregator_step_gauges aggregator_step_wf simp del: aggregator_step.simps)

section \<open>Properties\<close>

text \<open>
  The Controller gauges are exact as long as a known Controller re-registers under the cluster it
  had: after any sequence of registrations, disconnections, removals and reports, every gauge that was
  ever written shows the number of Controllers of its cluster that are online, which is zero once the
  last one is gone, and every cluster of a known Controller has a gauge.
\<close>

theorem gauges_exact:
  assumes "clusters_fixed ops ([], Map.empty)" "aggregator_run ops ([], Map.empty) = (m, g)"
  shows "(\<forall>cluster n. g cluster = Some n \<longrightarrow> n = of_nat (online_in_cluster cluster m))
         \<and> (\<forall>c s. (c, s) \<in> set m \<longrightarrow> cluster_label s \<in> dom g)"
proof -
  have "gauges_ok m g"
    using aggregator_run_gauges [OF _ _ assms(1)] assms(2)
    by (simp add: gauges_ok_def clusters_of_def)
  then show ?thesis unfolding gauges_ok_def clusters_of_def by force
qed

definition sample_info :: "string \<Rightarrow> ControllerInfo" where
  "sample_info cluster =
     \<lparr>info_controller_id = ''c1'', info_cluster = cluster, info_environments = [], info_tags = []\<rparr>"

lemma gauges_exact_witness:
  "let (m, g) = aggregator_run [SetInfo ''c1'' (sample_info ''eu''), AggOffline 5 ''c1'',
                                SetInfo ''c1'' (sample_info ''eu''), AggRemove ''c1''] ([], Map.empty)
   in g ''eu'' = Some (of_nat (online_in_cluster ''eu'' m)) \<and> g ''eu'' = Some 0"
proof -
  let ?ops = "[SetInfo ''c1'' (sample_info ''eu''), AggOffline 5 ''c1'',
               SetInfo ''c1'' (sample_info ''eu''), AggRemove ''c1'']"
  obtain m g where run: "aggregator_run ?ops ([], Map.empty) = (m, g)" by fastforce
  have "clusters_fixed ?ops ([], Map.empty)"
    by (simp add: set_controller_info_def aggregator_mark_offline_def new_snapshot_def sample_info_def Let_def)
  from gauges_exact [OF this run] have "g ''eu'' = Some n \<Longrightarrow> n = of_nat (online_in_cluster ''eu'' m)" for n
    by blast
  moreover from run have "g ''eu'' = Some 0"
    by (auto simp: set_controller_info_def aggregator_mark_offline_def aggregator_remove_def
        new_snapshot_def sample_info_def Let_def compute_gauge_snapshot_def emit_gauges_def
        gauges_after_def cluster_label_def)
  ultimately show ?thesis using run by simp
qed

text \<open>
  The proviso is needed: a Controller that re-registers under another cluster leaves the gauge of
  its former cluster at one although no Controller of that cluster is known any more.
\<close>

theorem gauge_stale_after_cluster_change:
  "\<exists>m g. aggregator_run [SetInfo ''c1'' (sample_info ''eu''), SetInfo ''c1'' (sample_info ''us'')]
           ([], Map.empty) = (m, g)
     \<and> g ''eu'' = Some 1 \<and> online_in_cluster ''eu'' m = 0 \<and> ''eu'' \<notin> cluster_label ` snd ` set m"
  by (simp add: set_controller_info_def new_snapshot_def sample_info_def Let_def
      compute_gauge_snapshot_def emit_gauges_def gauges_after_def cluster_label_def online_in_cluster_def)

end
