(* ===== verification/Json_Value.thy ===== *)
theory Json_Value
  imports Center_Prelude
begin

text \<open>
  JSON documents, the payload type of the federation watch. The Center stores a watched
  resource as a \<open>serde_json::Value\<close>, whose six public variants are the constructors below, and
  reads it only through \<open>get\<close>, \<open>as_str\<close>, \<open>as_object\<close> and JSON pointers with constant paths
  (\<open>/spec/data/type\<close>, \<open>/metadata/name\<close>, \dots). A pointer is the list of its tokens; none of the
  constant tokens is a number, so a pointer never descends into an array. Numbers are never
  computed with and are kept as their text. Parsing and printing belong to \<open>serde_json\<close> and are
  parameters of the definitions that call them.
\<close>

datatype json =
    JNull
  | JBool bool
  | JNumber string
  | JString string
  | JArray "json list"
  | JObject "(string \<times> json) list"

fun as_str :: "json \<Rightarrow> string option" where
  "as_str (JString s) = Some s"
| "as_str _ = None"

fun as_object :: "json \<Rightarrow> (string \<times> json) list option" where
  "as_object (JObject m) = Some m"
| "as_object _ = None"

definition json_get :: "string \<Rightarrow> json \<Rightarrow> json option" where
  "json_get k v = Option.bind (as_object v) (\<lambda>m. map_of m k)"

fun json_pointer :: "string list \<Rightarrow> json \<Rightarrow> json option" where
  "json_pointer [] v = Some v"
| "json_pointer (k # ks) v = Option.bind (json_get k v) (json_pointer ks)"

text \<open>A mutation through \<open>pointer_mut\<close>: \<open>f\<close> is applied to the value at the path, if there is one.\<close>

fun json_modify :: "string list \<Rightarrow> (json \<Rightarrow> json) \<Rightarrow> json \<Rightarrow> json" where
  "json_modify [] f v = f v"
| "json_modify (k # ks) f v =
     (case as_object v of
        None \<Rightarrow> v
      | Some m \<Rightarrow> JObject (map (\<lambda>(k', w). (k', if k' = k then json_modify ks f w else w)) m))"

text \<open>\<open>as_object_mut().remove(key)\<close>\<close>

definition json_remove_key :: "string \<Rightarrow> json \<Rightarrow> json" where
  "json_remove_key k v = (case as_object v of None \<Rightarrow> v | Some m \<Rightarrow> JObject (AList.delete k m))"

definition json_insert_key :: "string \<Rightarrow> json \<Rightarrow> json \<Rightarrow> json" where
  "json_insert_key k x v =
     (case as_object v of None \<Rightarrow> v | Some m \<Rightarrow> JObject (AList.update k x m))"

text \<open>Objects have distinct keys at every level.\<close>

fun wf_json :: "json \<Rightarrow> bool" where
  "wf_json (JArray vs) \<longleftrightarrow> (\<forall>v \<in> set vs. wf_json v)"
| "wf_json (JObject m) \<longleftrightarrow> distinct (map fst m) \<and> (\<forall>p \<in> set m. wf_json (snd p))"
| "wf_json _ \<longleftrightarrow> True"

section \<open>Lemmas\<close>

lemma as_str_Some [simp]: "as_str v = Some s \<longleftrightarrow> v = JString s"
  by (cases v) auto

lemma as_object_Some [simp]: "as_object v = Some m \<longleftrightarrow> v = JObject m"
  by (cases v) auto

lemma json_get_Some: "json_get k v = Some w \<longleftrightarrow> (\<exists>m. v = JObject m \<and> map_of m k = Some w)"
  by (cases v) (auto simp: json_get_def)

lemma map_of_map_at:
  "map_of (map (\<lambda>(k', w). (k', if k' = k then g w else w)) m) l =
     (if l = k then map_option g (map_of m l) else map_of m l)"
  by (induction m) auto

lemma json_get_modify:
  "json_get l (json_modify (k # ks) f v) =
     (if l = k then map_option (json_modify ks f) (json_get k v) else json_get l v)"
  by (cases v) (auto simp: json_get_def map_of_map_at)

declare json_modify.simps(2) [simp del]

lemma json_pointer_modify_same:
  "json_pointer ks (json_modify ks f v) = map_option f (json_pointer ks v)"
  by (induction ks arbitrary: v)
    (auto simp: json_get_modify split: option.splits bind_splits)

lemma json_pointer_modify_below:
  "json_pointer (ks @ ls) (json_modify ks f v) =
     Option.bind (json_pointer ks v) (\<lambda>w. json_pointer ls (f w))"
  by (induction ks arbitrary: v)
    (auto simp: json_get_modify split: option.splits bind_splits)

text \<open>A pointer that leaves the modified path at some token sees the old document.\<close>

lemma json_pointer_modify_apart:
  "k \<noteq> l \<Longrightarrow> json_pointer (ks @ l # ls) (json_modify (ks @ k # ms) f v) = json_pointer (ks @ l # ls) v"
  by (induction ks arbitrary: v)
    (auto simp: json_get_modify split: option.splits bind_splits)

lemma json_modify_cong:
  "(\<And>w. json_pointer ks v = Some w \<Longrightarrow> f w = g w) \<Longrightarrow> wf_json v \<Longrightarrow> json_modify ks f v = json_modify ks g v"
proof (induction ks arbitrary: v)
  case (Cons k ks)
  show ?case
  proof (cases v)
    case (JObject m)
    have "json_modify ks f w = json_modify ks g w" if "(k, w) \<in> set m" for w
    proof (rule Cons.IH)
      show "f u = g u" if "json_pointer ks w = Some u" for u
        using that Cons.prems \<open>(k, w) \<in> set m\<close> JObject by (simp add: json_get_def mem_wf_map)
      show "wf_json w"
        using that Cons.prems JObject by force
    qed
    with JObject show ?thesis by (auto simp: json_modify.simps(2))
  qed (auto simp: json_modify.simps(2))
qed simp

lemma json_modify_compose:
  "json_modify ks f (json_modify ks g v) = json_modify ks (f \<circ> g) v"
proof (induction ks arbitrary: v)
  case (Cons k ks)
  then show ?case by (cases v) (auto simp: o_def json_modify.simps(2))
qed simp

lemma json_get_remove_key:
  "json_get l (json_remove_key k v) = (if l = k then None else json_get l v)"
  by (cases v) (auto simp: json_get_def json_remove_key_def map_simps)

lemma json_get_insert_key:
  "l \<noteq> k \<Longrightarrow> json_get l (json_insert_key k x v) = json_get l v"
  by (cases v) (auto simp: json_get_def json_insert_key_def map_simps)

lemma json_remove_insert_key:
  "json_remove_key k (json_insert_key k x v) = json_remove_key k v"
  by (cases v) (auto simp: json_remove_key_def json_insert_key_def delete_update_same)

end
