(* ===== verification/Watch_Cache.thy ===== *)
theory Watch_Cache
  imports Json_Value
begin

text \<open>
  The per-Controller watch cache: \<open>crates/center-runtime/src/watch_cache/cache.rs\<close> with the
  constants, the \<open>ConfigTyped\<close> trait and \<open>ChangeSummary\<close> of \<open>mod.rs\<close> and the handler trait of
  \<open>traits.rs\<close>. An operation takes the state under the write lock and returns the new state; the
  calls it makes after releasing the lock (the handler, the change broadcast) are returned as a
  list of effects in the order the code makes them. The wall clock is the argument \<open>now\<close>, the
  trait implementation the argument \<open>ct\<close>.

  The section on contracts states the promise of a \<open>CenterConfHandler\<close> as a locale and proves
  inside it that any such handler tracks the cache.
\<close>

section \<open>Data\<close>

definition MAX_ENTRIES_PER_CONTROLLER :: nat where
  "MAX_ENTRIES_PER_CONTROLLER = 10000"

datatype EventType = Update | Delete | Add

record 'v WatchEventSimple =
  event_type :: EventType
  event_key :: string
  event_data :: 'v

datatype ApplyResult = Applied | Overflow

record 'v CacheState =
  cs_data :: "(string, 'v) hmap"
  cs_sync_version :: u64
  cs_server_id :: string
  cs_revision :: u64
  cs_stale :: bool
  cs_overflowed :: bool
  cs_last_applied_unix_ms :: "u64 option"

record CacheStatus =
  status_sync_version :: u64
  status_server_id :: string
  status_revision :: u64
  status_stale :: bool
  status_overflowed :: bool
  status_last_applied_unix_ms :: "u64 option"
  status_entry_count :: nat

record ChangeSummary =
  summary_controller_id :: string
  summary_revision :: u64
  summary_changed_types :: "string set"
  summary_event_unix_ms :: u64

datatype 'v handler_call =
    FullSet string "(string, 'v) hmap"
  | PartialUpdate string "(string, 'v) hmap" "(string, 'v) hmap" "(string, 'v) hmap"
  | ControllerOffline string
  | ControllerRemoved string

datatype 'v effect = HandlerCall "'v handler_call" | Broadcast ChangeSummary

section \<open>Operations\<close>

definition config_type_json :: "json \<Rightarrow> string option" where
  "config_type_json v = Option.bind (json_pointer [''spec'', ''data'', ''type''] v) as_str"

definition type_label :: "('v \<Rightarrow> string option) \<Rightarrow> 'v \<Rightarrow> string" where
  "type_label ct v = (case ct v of None \<Rightarrow> ''Unknown'' | Some t \<Rightarrow> t)"

definition new_cache :: "'v CacheState" where
  "new_cache =
     \<lparr>cs_data = [], cs_sync_version = 0, cs_server_id = [], cs_revision = 0, cs_stale = False,
      cs_overflowed = False, cs_last_applied_unix_ms = None\<rparr>"

definition cache_status :: "'v CacheState \<Rightarrow> CacheStatus" where
  "cache_status st =
     \<lparr>status_sync_version = cs_sync_version st, status_server_id = cs_server_id st,
      status_revision = cs_revision st, status_stale = cs_stale st,
      status_overflowed = cs_overflowed st,
      status_last_applied_unix_ms = cs_last_applied_unix_ms st,
      status_entry_count = length (cs_data st)\<rparr>"

definition set_stale :: "'v CacheState \<Rightarrow> 'v CacheState" where
  "set_stale st = st\<lparr>cs_stale := True\<rparr>"

definition entries_snapshot :: "'v CacheState \<Rightarrow> (string \<times> 'v) list" where
  "entries_snapshot st = cs_data st"

definition raw_get :: "string \<Rightarrow> 'v CacheState \<Rightarrow> 'v option" where
  "raw_get k st = map_of (cs_data st) k"

definition reject_overflow :: "'v CacheState \<Rightarrow> 'v CacheState" where
  "reject_overflow st = st\<lparr>cs_overflowed := True, cs_stale := True\<rparr>"

definition commit_batch ::
  "u64 \<Rightarrow> u64 \<Rightarrow> string \<Rightarrow> (string, 'v) hmap \<Rightarrow> 'v CacheState \<Rightarrow> 'v CacheState" where
  "commit_batch now sync_version server_id data st =
     st\<lparr>cs_data := data, cs_sync_version := sync_version, cs_server_id := server_id,
        cs_revision := cs_revision st + 1, cs_stale := False, cs_overflowed := False,
        cs_last_applied_unix_ms := Some now\<rparr>"

definition replace_all ::
  "('v \<Rightarrow> string option) \<Rightarrow> string \<Rightarrow> u64 \<Rightarrow> (string \<times> 'v) list \<Rightarrow> u64 \<Rightarrow> string \<Rightarrow> 'v CacheState
     \<Rightarrow> ApplyResult \<times> 'v CacheState \<times> 'v effect list" where
  "replace_all ct controller_id now items sync_version server_id st =
     (if MAX_ENTRIES_PER_CONTROLLER < length items then (Overflow, reject_overflow st, [])
      else
        let old_types = type_label ct ` snd ` set (cs_data st);
            new_data = collect_map items;
            changed_types = old_types \<union> type_label ct ` snd ` set new_data;
            st' = commit_batch now sync_version server_id new_data st
        in (Applied, st',
            [HandlerCall (FullSet controller_id new_data),
             Broadcast \<lparr>summary_controller_id = controller_id,
                        summary_revision = cs_revision st',
                        summary_changed_types = changed_types,
                        summary_event_unix_ms = now\<rparr>]))"

text \<open>The capacity projection of \<open>apply_events\<close>: the key set after the batch, as a distinct list.\<close>

fun project_key :: "'v WatchEventSimple \<Rightarrow> string list \<Rightarrow> string list" where
  "project_key e keys =
     (case event_type e of
        Add \<Rightarrow> List.insert (event_key e) keys
      | Update \<Rightarrow> List.insert (event_key e) keys
      | Delete \<Rightarrow> removeAll (event_key e) keys)"

definition projected_len :: "'v WatchEventSimple list \<Rightarrow> 'v CacheState \<Rightarrow> nat" where
  "projected_len events st = length (fold project_key events (map fst (cs_data st)))"

record 'v batch =
  b_data :: "(string, 'v) hmap"
  b_add :: "(string, 'v) hmap"
  b_update :: "(string, 'v) hmap"
  b_remove :: "(string, 'v) hmap"
  b_types :: "string set"

fun apply_event :: "('v \<Rightarrow> string option) \<Rightarrow> 'v WatchEventSimple \<Rightarrow> 'v batch \<Rightarrow> 'v batch" where
  "apply_event ct e b =
     (case event_type e of
        Add \<Rightarrow>
          b\<lparr>b_types := insert (type_label ct (event_data e)) (b_types b),
            b_data := AList.update (event_key e) (event_data e) (b_data b),
            b_add := AList.update (event_key e) (event_data e) (b_add b)\<rparr>
      | Update \<Rightarrow>
          b\<lparr>b_types := insert (type_label ct (event_data e)) (b_types b),
            b_data := AList.update (event_key e) (event_data e) (b_data b),
            b_update := AList.update (event_key e) (event_data e) (b_update b)\<rparr>
      | Delete \<Rightarrow>
          (case map_of (b_data b) (event_key e) of
             None \<Rightarrow> b
           | Some old \<Rightarrow>
               b\<lparr>b_types := insert (type_label ct old) (b_types b),
                 b_data := AList.delete (event_key e) (b_data b),
                 b_remove := AList.update (event_key e) old (b_remove b)\<rparr>))"

definition start_batch :: "(string, 'v) hmap \<Rightarrow> 'v batch" where
  "start_batch data =
     \<lparr>b_data = data, b_add = [], b_update = [], b_remove = [], b_types = {}\<rparr>"

definition apply_events ::
  "('v \<Rightarrow> string option) \<Rightarrow> string \<Rightarrow> u64 \<Rightarrow> 'v WatchEventSimple list \<Rightarrow> u64 \<Rightarrow> string \<Rightarrow> 'v CacheState
     \<Rightarrow> ApplyResult \<times> 'v CacheState \<times> 'v effect list" where
  "apply_events ct controller_id now events sync_version server_id st =
     (if MAX_ENTRIES_PER_CONTROLLER < projected_len events st
      then (Overflow, reject_overflow st, [])
      else
        let b = fold (apply_event ct) events (start_batch (cs_data st));
            st' = commit_batch now sync_version server_id (b_data b) st
        in (Applied, st',
            [HandlerCall (PartialUpdate controller_id (b_add b) (b_update b) (b_remove b)),
             Broadcast \<lparr>summary_controller_id = controller_id,
                        summary_revision = cs_revision st',
                        summary_changed_types = b_types b,
                        summary_event_unix_ms = now\<rparr>]))"

section \<open>Specification\<close>

text \<open>The abstract cache is the partial function from keys to documents.\<close>

fun event_spec :: "'v WatchEventSimple \<Rightarrow> (string \<rightharpoonup> 'v) \<Rightarrow> (string \<rightharpoonup> 'v)" where
  "event_spec e m =
     (case event_type e of
        Delete \<Rightarrow> m(event_key e := None)
      | _ \<Rightarrow> m(event_key e \<mapsto> event_data e))"

definition cache_inv :: "'v CacheState \<Rightarrow> bool" where
  "cache_inv st \<longleftrightarrow> wf_map (cs_data st) \<and> length (cs_data st) \<le> MAX_ENTRIES_PER_CONTROLLER"

text \<open>What a rejected batch leaves behind: the old contents, flagged stale and overflowed.\<close>

definition rejected_from :: "'v CacheState \<Rightarrow> 'v CacheState \<Rightarrow> bool" where
  "rejected_from st st' \<longleftrightarrow>
     cs_data st' = cs_data st \<and> cs_sync_version st' = cs_sync_version st
     \<and> cs_server_id st' = cs_server_id st \<and> cs_revision st' = cs_revision st
     \<and> cs_last_applied_unix_ms st' = cs_last_applied_unix_ms st
     \<and> cs_stale st' \<and> cs_overflowed st'"

text \<open>
  What a handler that is told of removals, additions and updates separately can reconstruct:
  the removals first, then the additions, then the updates, which is the order the only
  implementation uses.
\<close>

definition delta_spec ::
  "(string, 'v) hmap \<Rightarrow> (string, 'v) hmap \<Rightarrow> (string, 'v) hmap \<Rightarrow> (string \<rightharpoonup> 'v) \<Rightarrow> (string \<rightharpoonup> 'v)" where
  "delta_spec add upd rem m =
     (\<lambda>k. case map_of upd k of
            Some v \<Rightarrow> Some v
          | None \<Rightarrow> (case map_of add k of
                       Some v \<Rightarrow> Some v
                     | None \<Rightarrow> if map_of rem k = None then m k else None))"

definition run_effects :: "('v handler_call \<Rightarrow> 'h \<Rightarrow> 'h) \<Rightarrow> 'v effect list \<Rightarrow> 'h \<Rightarrow> 'h" where
  "run_effects call es h =
     fold (\<lambda>e h. case e of HandlerCall c \<Rightarrow> call c h | Broadcast _ \<Rightarrow> h) es h"

text \<open>The Controller a handler call names.\<close>

primrec call_target :: "'v handler_call \<Rightarrow> string" where
  "call_target (FullSet c data) = c"
| "call_target (PartialUpdate c add upd rem) = c"
| "call_target (ControllerOffline c) = c"
| "call_target (ControllerRemoved c) = c"

definition only_if :: "('v \<Rightarrow> bool) \<Rightarrow> 'v option \<Rightarrow> 'v option" where
  "only_if P x = Option.bind x (\<lambda>v. if P v then Some v else None)"

section \<open>Lemmas\<close>

lemma project_key_set:
  "set (project_key e keys) =
     (case event_type e of Delete \<Rightarrow> set keys - {event_key e} | _ \<Rightarrow> insert (event_key e) (set keys))"
  by (simp split: EventType.splits)

lemma project_key_distinct: "distinct keys \<Longrightarrow> distinct (project_key e keys)"
  by (simp add: distinct_removeAll split: EventType.splits)

lemma apply_event_data:
  "map_of (b_data (apply_event ct e b)) = event_spec e (map_of (b_data b))"
  by (auto simp: map_simps fun_eq_iff split: EventType.splits option.splits)

lemma apply_event_wf: "wf_map (b_data b) \<Longrightarrow> wf_map (b_data (apply_event ct e b))"
  by (auto split: EventType.splits option.splits)

lemma apply_event_keys:
  "fst ` set (b_data b) = set keys \<Longrightarrow>
     fst ` set (b_data (apply_event ct e b)) = set (project_key e keys)"
  by (auto simp: map_simps project_key_set map_of_eq_None_iff simp del: project_key.simps
      split: EventType.splits option.splits)

declare apply_event.simps [simp del] event_spec.simps [simp del] project_key.simps [simp del]

lemma fold_apply_event_data:
  "map_of (b_data (fold (apply_event ct) events b)) = fold event_spec events (map_of (b_data b))"
  by (induction events arbitrary: b) (auto simp: apply_event_data)

lemma fold_apply_event_wf:
  "wf_map (b_data b) \<Longrightarrow> wf_map (b_data (fold (apply_event ct) events b))"
  by (induction events arbitrary: b) (auto intro: apply_event_wf)

lemma fold_apply_event_keys:
  "fst ` set (b_data b) = set keys \<Longrightarrow>
     fst ` set (b_data (fold (apply_event ct) events b)) = set (fold project_key events keys)"
  by (induction events arbitrary: b keys) (auto simp: apply_event_keys)

lemma fold_project_key_distinct: "distinct keys \<Longrightarrow> distinct (fold project_key events keys)"
  by (induction events arbitrary: keys) (auto simp: project_key_distinct)

text \<open>The projection computes the size the batch will have.\<close>

lemma projected_len_exact:
  assumes "wf_map (cs_data st)"
  shows "projected_len events st =
     length (b_data (fold (apply_event ct) events (start_batch (cs_data st))))"
proof -
  let ?b = "fold (apply_event ct) events (start_batch (cs_data st))"
  let ?keys = "fold project_key events (map fst (cs_data st))"
  have "wf_map (b_data ?b)"
    by (rule fold_apply_event_wf) (simp add: start_batch_def assms)
  then have "length (b_data ?b) = card (fst ` set (b_data ?b))"
    by (metis distinct_card length_map set_map)
  also have "fst ` set (b_data ?b) = set ?keys"
    by (rule fold_apply_event_keys) (simp add: start_batch_def)
  also have "card (set ?keys) = length ?keys"
    by (rule distinct_card) (simp add: fold_project_key_distinct assms)
  finally show ?thesis by (simp add: projected_len_def)
qed

lemma new_cache_inv: "cache_inv new_cache"
  by (simp add: cache_inv_def new_cache_def)

lemma set_stale_inv: "cache_inv st \<Longrightarrow> cache_inv (set_stale st)"
  by (simp add: cache_inv_def set_stale_def)

lemma reject_overflow_inv: "cache_inv st \<Longrightarrow> cache_inv (reject_overflow st)"
  by (simp add: cache_inv_def reject_overflow_def)

lemma rejected_from_reject: "rejected_from st (reject_overflow st)"
  by (simp add: rejected_from_def reject_overflow_def)

lemma commit_batch_inv:
  "wf_map data \<Longrightarrow> length data \<le> MAX_ENTRIES_PER_CONTROLLER \<Longrightarrow>
     cache_inv (commit_batch now sv sid data st)"
  by (simp add: cache_inv_def commit_batch_def)

lemma replace_all_inv:
  "cache_inv st \<Longrightarrow> replace_all ct c now items sv sid st = (r, st', es) \<Longrightarrow> cache_inv st'"
  using collect_map_length [of items]
  by (auto simp: replace_all_def Let_def reject_overflow_inv split: if_splits
      intro!: commit_batch_inv)

lemma apply_events_inv:
  "cache_inv st \<Longrightarrow> apply_events ct c now events sv sid st = (r, st', es) \<Longrightarrow> cache_inv st'"
  by (auto simp: apply_events_def Let_def reject_overflow_inv cache_inv_def [of st]
      projected_len_exact [of st events ct] start_batch_def fold_apply_event_wf
      split: if_splits intro!: commit_batch_inv)

text \<open>
  For a batch that names each key once, the three maps given to the handler carry the whole
  change: replaying them on the old contents gives the new contents.
\<close>

lemma apply_event_fresh_delta:
  assumes "map_of (b_add b) (event_key e) = None" "map_of (b_update b) (event_key e) = None"
    and "map_of (b_remove b) (event_key e) = None"
    and "delta_spec (b_add b) (b_update b) (b_remove b) m = map_of (b_data b)"
  shows "delta_spec (b_add (apply_event ct e b)) (b_update (apply_event ct e b))
           (b_remove (apply_event ct e b)) m = map_of (b_data (apply_event ct e b))"
proof
  fix k
  have "delta_spec (b_add b) (b_update b) (b_remove b) m k = map_of (b_data b) k"
    and "m (event_key e) = map_of (b_data b) (event_key e)"
    using fun_cong [OF assms(4), of k] fun_cong [OF assms(4), of "event_key e"] assms(1-3)
    by (simp_all add: delta_spec_def)
  with assms(1-3) show "delta_spec (b_add (apply_event ct e b)) (b_update (apply_event ct e b))
      (b_remove (apply_event ct e b)) m k = map_of (b_data (apply_event ct e b)) k"
    by (auto simp: apply_event.simps delta_spec_def map_simps
        split: EventType.splits option.splits)
qed

lemma apply_event_keys_touched:
  "k \<noteq> event_key e \<Longrightarrow>
     map_of (b_add (apply_event ct e b)) k = map_of (b_add b) k
     \<and> map_of (b_update (apply_event ct e b)) k = map_of (b_update b) k
     \<and> map_of (b_remove (apply_event ct e b)) k = map_of (b_remove b) k"
  by (auto simp: apply_event.simps map_simps split: EventType.splits option.splits)

lemma fold_apply_event_delta:
  assumes "distinct (map event_key events)"
    and "\<And>e. e \<in> set events \<Longrightarrow> map_of (b_add b) (event_key e) = None
           \<and> map_of (b_update b) (event_key e) = None \<and> map_of (b_remove b) (event_key e) = None"
    and "delta_spec (b_add b) (b_update b) (b_remove b) m = map_of (b_data b)"
  shows "let b' = fold (apply_event ct) events b
         in delta_spec (b_add b') (b_update b') (b_remove b') m = map_of (b_data b')"
  using assms
proof (induction events arbitrary: b)
  case (Cons e events)
  have "delta_spec (b_add (apply_event ct e b)) (b_update (apply_event ct e b))
      (b_remove (apply_event ct e b)) m = map_of (b_data (apply_event ct e b))"
    using Cons.prems by (intro apply_event_fresh_delta) auto
  moreover have "map_of (b_add (apply_event ct e b)) (event_key e') = None
      \<and> map_of (b_update (apply_event ct e b)) (event_key e') = None
      \<and> map_of (b_remove (apply_event ct e b)) (event_key e') = None" if "e' \<in> set events" for e'
  proof -
    from that Cons.prems(1) have "event_key e' \<noteq> event_key e" by (metis distinct.simps(2) image_eqI list.map(2) list.set_map)
    with Cons.prems(2) [of e'] that show ?thesis by (simp add: apply_event_keys_touched)
  qed
  ultimately show ?case
    using Cons.prems(1) Cons.IH [of "apply_event ct e b"] by simp
qed simp

text \<open>Every document a handler is told of comes from an event of the batch.\<close>

lemma apply_event_values:
  assumes "map_of (b_add (apply_event ct e b)) k = Some v
           \<or> map_of (b_update (apply_event ct e b)) k = Some v"
  shows "map_of (b_add b) k = Some v \<or> map_of (b_update b) k = Some v
           \<or> (k = event_key e \<and> v = event_data e)"
  using assms
  by (cases "event_type e")
    (simp_all add: apply_event.simps map_of_update split: option.splits if_splits, blast+)

lemma fold_apply_event_values:
  assumes "map_of (b_add (fold (apply_event ct) events b)) k = Some v
           \<or> map_of (b_update (fold (apply_event ct) events b)) k = Some v"
  shows "map_of (b_add b) k = Some v \<or> map_of (b_update b) k = Some v
           \<or> (\<exists>e \<in> set events. k = event_key e \<and> v = event_data e)"
  using assms
proof (induction events arbitrary: b)
  case (Cons e events)
  from Cons.IH [of "apply_event ct e b"] Cons.prems
  consider "map_of (b_add (apply_event ct e b)) k = Some v
      \<or> map_of (b_update (apply_event ct e b)) k = Some v"
    | "\<exists>e \<in> set events. k = event_key e \<and> v = event_data e"
    by auto
  then show ?case
    using apply_event_values [of ct e b k v] by cases auto
qed simp

lemma apply_event_wf_maps:
  "wf_map (b_add b) \<and> wf_map (b_update b) \<and> wf_map (b_remove b) \<Longrightarrow>
     wf_map (b_add (apply_event ct e b)) \<and> wf_map (b_update (apply_event ct e b))
     \<and> wf_map (b_remove (apply_event ct e b))"
  by (auto simp: apply_event.simps split: EventType.splits option.splits)

lemma fold_apply_event_wf_maps:
  "wf_map (b_add b) \<and> wf_map (b_update b) \<and> wf_map (b_remove b) \<Longrightarrow>
     wf_map (b_add (fold (apply_event ct) events b)) \<and> wf_map (b_update (fold (apply_event ct) events b))
     \<and> wf_map (b_remove (fold (apply_event ct) events b))"
proof (induction events arbitrary: b)
  case (Cons e events)
  from apply_event_wf_maps [OF Cons.prems] Cons.IH show ?case by simp
qed simp

lemma only_if_None [simp]: "only_if P None = None"
  by (simp add: only_if_def)

text \<open>A cache calls its handler about its own Controller only.\<close>

lemma batch_calls_own_controller:
  assumes "replace_all ct c now items sv sid st = (res, st', es)
           \<or> apply_events ct c now events sv sid st = (res, st', es)"
    and "HandlerCall hc \<in> set es"
  shows "call_target hc = c"
  using assms by (auto simp: replace_all_def apply_events_def Let_def split: if_splits)

lemmas cache_inv_intros = new_cache_inv set_stale_inv replace_all_inv apply_events_inv

section \<open>The contract of a handler\<close>

text \<open>
  A \<open>CenterConfHandler\<close> keeps, per Controller and key, the documents it shows. A call never
  touches another Controller, whatever documents it carries. For documents stored under their own
  key (\<open>keyed\<close>) a full set replaces what the handler holds for the Controller and a partial
  update applies the three maps; going offline keeps everything, removal forgets the Controller.
\<close>

locale conf_handler =
  fixes call :: "'v handler_call \<Rightarrow> 'h \<Rightarrow> 'h"
    and view :: "'h \<Rightarrow> string \<Rightarrow> string \<Rightarrow> 'v option"
    and keyed :: "string \<Rightarrow> 'v \<Rightarrow> bool"
    and shown :: "'v \<Rightarrow> bool"
    and inv :: "'h \<Rightarrow> bool"
  assumes call_inv: "inv h \<Longrightarrow> inv (call hc h)"
    and view_other: "inv h \<Longrightarrow> call_target hc \<noteq> d \<Longrightarrow> view (call hc h) d k = view h d k"
    and view_full_set:
      "inv h \<Longrightarrow> wf_map m \<Longrightarrow> (\<And>k v. map_of m k = Some v \<Longrightarrow> keyed k v) \<Longrightarrow>
         view (call (FullSet c m) h) c k = only_if shown (map_of m k)"
    and view_partial_update:
      "inv h \<Longrightarrow> wf_map a \<Longrightarrow> wf_map u \<Longrightarrow> wf_map r \<Longrightarrow>
         (\<And>k v. map_of a k = Some v \<or> map_of u k = Some v \<Longrightarrow> keyed k v) \<Longrightarrow>
         view (call (PartialUpdate c a u r) h) c k =
           (case map_of u k of
              Some v \<Rightarrow> only_if shown (Some v)
            | None \<Rightarrow> (case map_of a k of
                         Some v \<Rightarrow> only_if shown (Some v)
                       | None \<Rightarrow> if map_of r k = None then view h c k else None))"
    and view_offline: "inv h \<Longrightarrow> view (call (ControllerOffline c) h) c k = view h c k"
    and view_removed: "inv h \<Longrightarrow> view (call (ControllerRemoved c) h) c k = None"
begin

definition tracks :: "'h \<Rightarrow> string \<Rightarrow> 'v CacheState \<Rightarrow> bool" where
  "tracks h c st \<longleftrightarrow> (\<forall>k. view h c k = only_if shown (map_of (cs_data st) k))"

definition sound :: "'h \<Rightarrow> string \<Rightarrow> 'v CacheState \<Rightarrow> bool" where
  "sound h c st \<longleftrightarrow> (\<forall>k v. view h c k = Some v \<longrightarrow> shown v \<and> map_of (cs_data st) k = Some v)"

lemma run_effects_inv: "inv h \<Longrightarrow> inv (run_effects call es h)"
  by (induction es arbitrary: h) (auto simp: run_effects_def call_inv split: effect.splits)

lemma replace_all_tracks:
  assumes "inv h" "\<And>k v. (k, v) \<in> set items \<Longrightarrow> keyed k v"
    and "replace_all ct c now items sv sid st = (Applied, st', es)"
  shows "tracks (run_effects call es h) c st'"
proof -
  have "keyed k v" if "map_of (collect_map items) k = Some v" for k v
    using that by (intro assms(2)) (auto simp: map_of_collect dest: map_of_SomeD)
  then have "view (call (FullSet c (collect_map items)) h) c k =
      only_if shown (map_of (collect_map items) k)" for k
    using assms(1) by (subst view_full_set) auto
  then show ?thesis
    using assms(3)
    by (auto simp: tracks_def replace_all_def Let_def commit_batch_def run_effects_def split: if_splits)
qed

text \<open>The view after a batch, in terms of what the handler is told.\<close>

lemma apply_events_view:
  assumes "inv h" "\<forall>e \<in> set events. keyed (event_key e) (event_data e)"
    and "apply_events ct c now events sv sid st = (Applied, st', es)"
  obtains a u r where
    "view (run_effects call es h) c k =
        (case map_of u k of
           Some v \<Rightarrow> only_if shown (Some v)
         | None \<Rightarrow> (case map_of a k of
                      Some v \<Rightarrow> only_if shown (Some v)
                    | None \<Rightarrow> if map_of r k = None then view h c k else None))"
    "distinct (map event_key events) \<Longrightarrow> delta_spec a u r (map_of (cs_data st)) = map_of (cs_data st')"
proof
  let ?b = "fold (apply_event ct) events (start_batch (cs_data st))"
  have st': "cs_data st' = b_data ?b"
    and es: "run_effects call es h = call (PartialUpdate c (b_add ?b) (b_update ?b) (b_remove ?b)) h"
    using assms(3)
    by (auto simp: apply_events_def Let_def commit_batch_def run_effects_def split: if_splits)
  have vals: "keyed k v"
    if "map_of (b_add ?b) k = Some v \<or> map_of (b_update ?b) k = Some v" for k v
    using fold_apply_event_values [OF that] assms(2) by (auto simp: start_batch_def)
  have wfs: "wf_map (b_add ?b) \<and> wf_map (b_update ?b) \<and> wf_map (b_remove ?b)"
    by (rule fold_apply_event_wf_maps) (simp add: start_batch_def)
  show "view (run_effects call es h) c k =
        (case map_of (b_update ?b) k of
           Some v \<Rightarrow> only_if shown (Some v)
         | None \<Rightarrow> (case map_of (b_add ?b) k of
                      Some v \<Rightarrow> only_if shown (Some v)
                    | None \<Rightarrow> if map_of (b_remove ?b) k = None then view h c k else None))"
    unfolding es using assms(1) vals wfs by (subst view_partial_update) (blast | simp)+
  show "delta_spec (b_add ?b) (b_update ?b) (b_remove ?b) (map_of (cs_data st)) = map_of (cs_data st')"
    if "distinct (map event_key events)"
    using fold_apply_event_delta [of events "start_batch (cs_data st)" "map_of (cs_data st)" ct] that
    by (simp add: st' start_batch_def delta_spec_def Let_def)
qed

lemma apply_events_tracks:
  assumes "inv h" "tracks h c st" "distinct (map event_key events)"
    and "\<forall>e \<in> set events. keyed (event_key e) (event_data e)"
    and "apply_events ct c now events sv sid st = (Applied, st', es)"
  shows "tracks (run_effects call es h) c st'"
  unfolding tracks_def
proof
  fix k
  from assms(1,4,5) obtain a u r where *:
    "view (run_effects call es h) c k =
        (case map_of u k of
           Some v \<Rightarrow> only_if shown (Some v)
         | None \<Rightarrow> (case map_of a k of
                      Some v \<Rightarrow> only_if shown (Some v)
                    | None \<Rightarrow> if map_of r k = None then view h c k else None))"
    "delta_spec a u r (map_of (cs_data st)) = map_of (cs_data st')"
    by (rule apply_events_view) (use assms(3) in blast)
  have "map_of (cs_data st') k = delta_spec a u r (map_of (cs_data st)) k"
    by (simp only: *(2))
  with assms(2) show "view (run_effects call es h) c k = only_if shown (map_of (cs_data st') k)"
    by (cases "map_of u k"; cases "map_of a k"; cases "map_of r k")
      (simp_all add: *(1) tracks_def delta_spec_def)
qed

text \<open>Without exactness, after rows were pruned: the handler still shows only cached documents.\<close>

lemma tracks_sound: "tracks h c st \<Longrightarrow> sound h c st"
  by (auto simp: tracks_def sound_def only_if_def split: bind_splits if_splits)

lemma apply_events_sound:
  assumes "inv h" "sound h c st" "distinct (map event_key events)"
    and "\<forall>e \<in> set events. keyed (event_key e) (event_data e)"
    and "apply_events ct c now events sv sid st = (Applied, st', es)"
  shows "sound (run_effects call es h) c st'"
  unfolding sound_def
proof (intro allI impI)
  fix k v
  assume v: "view (run_effects call es h) c k = Some v"
  from assms(1,4,5) obtain a u r where *:
    "view (run_effects call es h) c k =
        (case map_of u k of
           Some v \<Rightarrow> only_if shown (Some v)
         | None \<Rightarrow> (case map_of a k of
                      Some v \<Rightarrow> only_if shown (Some v)
                    | None \<Rightarrow> if map_of r k = None then view h c k else None))"
    "delta_spec a u r (map_of (cs_data st)) = map_of (cs_data st')"
    by (rule apply_events_view) (use assms(3) in blast)
  have "map_of (cs_data st') k = delta_spec a u r (map_of (cs_data st)) k"
    by (simp only: *(2))
  with assms(2) v show "shown v \<and> map_of (cs_data st') k = Some v"
    by (cases "map_of u k"; cases "map_of a k"; cases "map_of r k")
      (simp_all add: *(1) sound_def delta_spec_def only_if_def split: if_splits)
qed

lemma run_effects_other:
  "inv h \<Longrightarrow> (\<And>hc. HandlerCall hc \<in> set es \<Longrightarrow> call_target hc \<noteq> d) \<Longrightarrow>
     view (run_effects call es h) d k = view h d k"
  by (induction es arbitrary: h)
    (auto simp: run_effects_def call_inv view_other split: effect.splits)

end

section \<open>Properties\<close>

text \<open>
  C3: An incremental batch refines the abstract map. On a well-formed cache it is accepted exactly
  when the resulting key set fits the per-Controller limit; then the contents are the old contents
  with the events replayed in order, the stream position and server id are those of the batch, the
  revision advances by one and the stale and overflow flags are cleared. Otherwise nothing of the
  batch is visible: contents, position and revision are the old ones, the cache is flagged, and
  neither the handler nor the subscribers are told.
\<close>

theorem apply_events_refines:
  assumes "cache_inv st" "apply_events ct c now events sv sid st = (r, st', es)"
  shows "let m = fold event_spec events (map_of (cs_data st))
         in if card (dom m) \<le> MAX_ENTRIES_PER_CONTROLLER
            then r = Applied \<and> map_of (cs_data st') = m \<and> cs_sync_version st' = sv
                 \<and> cs_server_id st' = sid \<and> cs_revision st' = cs_revision st + 1
                 \<and> \<not> cs_stale st' \<and> \<not> cs_overflowed st' \<and> cs_last_applied_unix_ms st' = Some now
                 \<and> cache_inv st'
            else r = Overflow \<and> rejected_from st st' \<and> es = [] \<and> cache_inv st'"
proof -
  let ?b = "fold (apply_event ct) events (start_batch (cs_data st))"
  let ?m = "fold event_spec events (map_of (cs_data st))"
  have wf: "wf_map (cs_data st)" using assms(1) by (simp add: cache_inv_def)
  have m: "map_of (b_data ?b) = ?m" by (simp add: fold_apply_event_data start_batch_def)
  have "wf_map (b_data ?b)" by (rule fold_apply_event_wf) (simp add: start_batch_def wf)
  then have len: "projected_len events st = card (dom ?m)"
    using projected_len_exact [OF wf, of events ct] length_wf_map m by metis
  have "cache_inv st'" using apply_events_inv assms by blast
  with assms(2) len m show ?thesis
    by (auto simp: Let_def apply_events_def commit_batch_def rejected_from_reject split: if_splits)
qed

lemma apply_events_refines_witness:
  "\<exists>r st' es. apply_events (\<lambda>_. None) ''ctl'' 7
       [\<lparr>event_type = Add, event_key = ''a'', event_data = (1::nat)\<rparr>,
        \<lparr>event_type = Update, event_key = ''b'', event_data = 2\<rparr>,
        \<lparr>event_type = Delete, event_key = ''a'', event_data = 0\<rparr>] 3 ''srv'' new_cache = (r, st', es)
     \<and> r = Applied \<and> map_of (cs_data st') = [''b'' \<mapsto> 2] \<and> cs_sync_version st' = 3"
proof -
  let ?evs = "[\<lparr>event_type = Add, event_key = ''a'', event_data = (1::nat)\<rparr>,
        \<lparr>event_type = Update, event_key = ''b'', event_data = 2\<rparr>,
        \<lparr>event_type = Delete, event_key = ''a'', event_data = 0\<rparr>]"
  obtain r st' es where eq: "apply_events (\<lambda>_. None) ''ctl'' 7 ?evs 3 ''srv'' new_cache = (r, st', es)"
    by (rule prod_cases3)
  have spec: "fold event_spec ?evs (map_of (cs_data new_cache)) = [''b'' \<mapsto> 2]"
    by (auto simp: event_spec.simps new_cache_def)
  then have "card (dom (fold event_spec ?evs (map_of (cs_data new_cache)))) \<le> MAX_ENTRIES_PER_CONTROLLER"
    by (simp add: MAX_ENTRIES_PER_CONTROLLER_def)
  with apply_events_refines [OF new_cache_inv eq] spec
  have "r = Applied \<and> map_of (cs_data st') = [''b'' \<mapsto> 2] \<and> cs_sync_version st' = 3"
    by (simp only: Let_def if_True)
  with eq show ?thesis by blast
qed

text \<open>
  A full list replaces the cache. It is accepted exactly when it has at most the permitted
  number of rows; then the cache holds precisely the listed documents, the last one for a repeated
  key, and the handler receives that same map before subscribers hear of the change, which names
  every type that was or is in the cache. A larger list changes nothing but the two flags.
\<close>

theorem replace_all_refines:
  assumes "cache_inv st" "replace_all ct c now items sv sid st = (r, st', es)"
  shows "cache_inv st' \<and>
    (if length items \<le> MAX_ENTRIES_PER_CONTROLLER
     then r = Applied \<and> map_of (cs_data st') = map_of (rev items) \<and> cs_sync_version st' = sv
          \<and> cs_server_id st' = sid \<and> cs_revision st' = cs_revision st + 1
          \<and> \<not> cs_stale st' \<and> \<not> cs_overflowed st'
          \<and> es = [HandlerCall (FullSet c (cs_data st')),
                  Broadcast \<lparr>summary_controller_id = c, summary_revision = cs_revision st',
                    summary_changed_types =
                      type_label ct ` (ran (map_of (cs_data st)) \<union> ran (map_of (rev items))),
                    summary_event_unix_ms = now\<rparr>]
     else r = Overflow \<and> rejected_from st st' \<and> es = [])"
proof -
  have "snd ` set m = ran (map_of m)" if "wf_map m" for m :: "(string, 'a) hmap"
    using that by (simp add: ran_distinct)
  moreover have "wf_map (cs_data st)" using assms(1) by (simp add: cache_inv_def)
  ultimately have "snd ` set (cs_data st) = ran (map_of (cs_data st))"
    "snd ` set (collect_map items) = ran (map_of (rev items))"
    by (simp_all add: map_of_collect [symmetric])
  moreover have "cache_inv st'" using replace_all_inv assms by blast
  ultimately show ?thesis
    using assms(2)
    by (auto simp: replace_all_def Let_def commit_batch_def map_of_collect rejected_from_reject
        image_Un split: if_splits)
qed

lemma replace_all_refines_witness:
  "\<exists>r st' es. replace_all (\<lambda>_. None) ''ctl'' 7 [(''a'', 1::nat), (''a'', 2)] 3 ''srv'' new_cache = (r, st', es)
     \<and> r = Applied \<and> map_of (cs_data st') ''a'' = Some 2 \<and> length es = 2"
proof -
  obtain r st' es where eq:
    "replace_all (\<lambda>_. None) ''ctl'' 7 [(''a'', 1::nat), (''a'', 2)] 3 ''srv'' new_cache = (r, st', es)"
    by (rule prod_cases3)
  from replace_all_refines [OF new_cache_inv eq]
  have "r = Applied \<and> map_of (cs_data st') ''a'' = Some 2 \<and> length es = 2"
    by (simp add: MAX_ENTRIES_PER_CONTROLLER_def)
  with eq show ?thesis by blast
qed

end
