(* ===== verification/Metadata_Store.thy ===== *)
theory Metadata_Store
  imports Watch_Cache
begin

text \<open>
  The cross-Controller override store: \<open>crates/center-runtime/src/metadata_store.rs\<close>. A row is
  keyed by \<open>namespace/name\<close> and holds one document per contributing Controller. The store is the
  production \<open>CenterConfHandler\<close> of the watch caches: it interprets the handler contract of
  \<open>Watch_Cache\<close>, for documents that are cached under their own \<open>namespace/name\<close>.
\<close>

section \<open>Data\<close>

type_synonym override_map = "(string, (string, json) hmap) hmap"

record CenterRegionRouteOverrideView =
  view_namespace :: string
  view_name :: string
  view_controllers :: "(string, json) hmap"

section \<open>Operations\<close>

definition new_metadata_store :: override_map where
  "new_metadata_store = []"

definition remove_override_key_for_controller ::
  "string \<Rightarrow> string \<Rightarrow> override_map \<Rightarrow> override_map" where
  "remove_override_key_for_controller key controller_id m =
     (case map_of m key of
        None \<Rightarrow> m
      | Some controllers \<Rightarrow>
          let controllers' = AList.delete controller_id controllers
          in if controllers' = [] then AList.delete key m else AList.update key controllers' m)"

definition remove_controller_from_override_map :: "string \<Rightarrow> override_map \<Rightarrow> override_map" where
  "remove_controller_from_override_map controller_id m =
     map_retain (\<lambda>_ controllers. controllers \<noteq> []) (map_values (AList.delete controller_id) m)"

definition retain_override_controllers :: "string set \<Rightarrow> override_map \<Rightarrow> override_map" where
  "retain_override_controllers controller_ids m =
     map_retain (\<lambda>_ controllers. controllers \<noteq> [])
       (map_values (map_retain (\<lambda>id _. id \<in> controller_ids)) m)"

definition upsert_watched_override :: "string \<Rightarrow> json \<Rightarrow> override_map \<Rightarrow> override_map" where
  "upsert_watched_override controller_id resource m =
     (case Option.bind (json_pointer [''metadata'', ''namespace''] resource) as_str of
        None \<Rightarrow> m
      | Some namespace \<Rightarrow>
          (case Option.bind (json_pointer [''metadata'', ''name''] resource) as_str of
             None \<Rightarrow> m
           | Some name \<Rightarrow>
               let key = namespace @ ''/'' @ name;
                   data_type = Option.bind (json_pointer [''spec'', ''data'', ''type''] resource) as_str;
                   m' = remove_override_key_for_controller key controller_id m
               in if data_type \<noteq> Some ''RegionRouteOverride'' then m'
                  else AList.update key
                         (AList.update controller_id resource
                            (case map_of m' key of None \<Rightarrow> [] | Some controllers \<Rightarrow> controllers)) m'))"

definition full_set :: "string \<Rightarrow> (string, json) hmap \<Rightarrow> override_map \<Rightarrow> override_map" where
  "full_set controller_id data m =
     fold (upsert_watched_override controller_id) (map snd data)
       (remove_controller_from_override_map controller_id m)"

definition partial_update ::
  "string \<Rightarrow> (string, json) hmap \<Rightarrow> (string, json) hmap \<Rightarrow> (string, json) hmap
     \<Rightarrow> override_map \<Rightarrow> override_map" where
  "partial_update controller_id add update remove m =
     fold (upsert_watched_override controller_id) (map snd add @ map snd update)
       (fold (\<lambda>key. remove_override_key_for_controller key controller_id) (map fst remove) m)"

definition controller_offline :: "string \<Rightarrow> override_map \<Rightarrow> override_map" where
  "controller_offline controller_id m = m"

definition controller_removed :: "string \<Rightarrow> override_map \<Rightarrow> override_map" where
  "controller_removed controller_id m = remove_controller_from_override_map controller_id m"

definition list_region_route_overrides ::
  "override_map \<Rightarrow> CenterRegionRouteOverrideView list" where
  "list_region_route_overrides m =
     sort_key (\<lambda>row. (view_namespace row, view_name row))
       (List.map_filter
          (\<lambda>(key, controllers).
             map_option (\<lambda>(namespace, name).
                 \<lparr>view_namespace = namespace, view_name = name, view_controllers = controllers\<rparr>)
               (split_once (CHR ''/'') key)) m)"

text \<open>The dispatch of the trait object.\<close>

fun store_call :: "json handler_call \<Rightarrow> override_map \<Rightarrow> override_map" where
  "store_call (FullSet c data) m = full_set c data m"
| "store_call (PartialUpdate c add upd rem) m = partial_update c add upd rem m"
| "store_call (ControllerOffline c) m = controller_offline c m"
| "store_call (ControllerRemoved c) m = controller_removed c m"

section \<open>Specification\<close>

definition store_view :: "override_map \<Rightarrow> string \<Rightarrow> string \<Rightarrow> json option" where
  "store_view m c k = Option.bind (map_of m k) (\<lambda>controllers. map_of controllers c)"

definition store_inv :: "override_map \<Rightarrow> bool" where
  "store_inv m \<longleftrightarrow>
     wf_map m \<and> (\<forall>row \<in> set m. wf_map (snd row) \<and> snd row \<noteq> [])"

definition override_key :: "json \<Rightarrow> string option" where
  "override_key v =
     (case (Option.bind (json_pointer [''metadata'', ''namespace''] v) as_str,
            Option.bind (json_pointer [''metadata'', ''name''] v) as_str) of
        (Some ns, Some n) \<Rightarrow> Some (ns @ ''/'' @ n)
      | _ \<Rightarrow> None)"

definition own_key :: "string \<Rightarrow> json \<Rightarrow> bool" where
  "own_key k v \<longleftrightarrow> override_key v = Some k"

definition is_override :: "json \<Rightarrow> bool" where
  "is_override v \<longleftrightarrow> config_type_json v = Some ''RegionRouteOverride''"

section \<open>Lemmas\<close>

lemma store_invI:
  "wf_map m \<Longrightarrow> (\<And>k cs. map_of m k = Some cs \<Longrightarrow> wf_map cs \<and> cs \<noteq> []) \<Longrightarrow> store_inv m"
  unfolding store_inv_def using map_of_SomeE_wf by fast

lemma store_invD:
  "store_inv m \<Longrightarrow> wf_map m"
  "store_inv m \<Longrightarrow> map_of m k = Some cs \<Longrightarrow> wf_map cs \<and> cs \<noteq> []"
  by (force simp: store_inv_def dest: map_of_SomeD)+

lemma remove_key_view:
  "store_view (remove_override_key_for_controller k c m) c' k' =
       (if c' = c \<and> k' = k then None else store_view m c' k')"
  by (cases "map_of m k")
    (auto simp: remove_override_key_for_controller_def store_view_def map_simps Let_def
      dest: delete_Nil_lookup)

lemma remove_key_inv:
  assumes "store_inv m"
  shows "store_inv (remove_override_key_for_controller k c m)"
proof (cases "map_of m k")
  case None
  with assms show ?thesis by (simp add: remove_override_key_for_controller_def)
next
  case (Some cs)
  with assms show ?thesis
    unfolding remove_override_key_for_controller_def Let_def
    by (auto intro!: store_invI simp: store_invD map_of_update map_of_delete_key
        dest: store_invD split: if_splits)
qed

lemma remove_controller_view:
  "store_inv m \<Longrightarrow>
     store_view (remove_controller_from_override_map c m) c' k =
       (if c' = c then None else store_view m c' k)"
  by (cases "map_of m k")
    (auto simp: remove_controller_from_override_map_def store_view_def map_of_retain map_of_values
      map_of_delete_key store_invD dest: delete_Nil_lookup)

lemma remove_controller_inv: "store_inv m \<Longrightarrow> store_inv (remove_controller_from_override_map c m)"
  unfolding remove_controller_from_override_map_def
  by (rule store_invI)
    (auto simp: map_of_retain map_of_values store_invD split: option.splits if_splits dest: store_invD)

lemma retain_controllers_view:
  "store_inv m \<Longrightarrow>
     store_view (retain_override_controllers ids m) c k = (if c \<in> ids then store_view m c k else None)"
  by (cases "map_of m k")
    (auto simp: retain_override_controllers_def store_view_def map_of_retain map_of_values
      store_invD split: option.splits dest: retain_Nil_lookup store_invD)

lemma retain_controllers_inv: "store_inv m \<Longrightarrow> store_inv (retain_override_controllers ids m)"
  unfolding retain_override_controllers_def
  by (rule store_invI)
    (auto simp: map_of_retain map_of_values store_invD split: option.splits if_splits dest: store_invD)

lemma upsert_own_key:
  "own_key k v \<Longrightarrow>
     upsert_watched_override c v m =
       (let m' = remove_override_key_for_controller k c m
        in if is_override v then
             AList.update k (AList.update c v (case map_of m' k of None \<Rightarrow> [] | Some cs \<Rightarrow> cs)) m'
           else m')"
  by (auto simp: upsert_watched_override_def own_key_def override_key_def is_override_def
      config_type_json_def Let_def split: option.splits)

lemma upsert_no_key: "override_key v = None \<Longrightarrow> upsert_watched_override c v m = m"
  by (auto simp: upsert_watched_override_def override_key_def split: option.splits)

lemma upsert_view:
  assumes "own_key k v"
  shows "store_view (upsert_watched_override c v m) c' k' =
     (if c' = c \<and> k' = k then only_if is_override (Some v) else store_view m c' k')"
proof -
  let ?m = "remove_override_key_for_controller k c m"
  have "store_view (AList.update k (AList.update c v (case map_of ?m k of None \<Rightarrow> [] | Some cs \<Rightarrow> cs)) ?m) c' k' =
      (if c' = c \<and> k' = k then Some v else store_view ?m c' k')"
    by (auto simp: store_view_def map_simps split: option.splits)
  then show ?thesis
    by (cases "is_override v"; cases "c' = c"; cases "k' = k")
      (simp_all add: upsert_own_key [OF assms] Let_def remove_key_view only_if_def)
qed

lemma upsert_other_view:
  "c' \<noteq> c \<Longrightarrow> store_view (upsert_watched_override c v m) c' k = store_view m c' k"
  by (cases "override_key v") (simp_all add: upsert_no_key upsert_view own_key_def)

lemma upsert_inv:
  assumes "store_inv m"
  shows "store_inv (upsert_watched_override c v m)"
proof (cases "override_key v")
  case None
  with assms show ?thesis by (simp add: upsert_no_key)
next
  case (Some k)
  let ?m = "remove_override_key_for_controller k c m"
  have inv: "store_inv ?m" using assms by (rule remove_key_inv)
  have "store_inv (AList.update k (AList.update c v (case map_of ?m k of None \<Rightarrow> [] | Some cs \<Rightarrow> cs)) ?m)"
    by (rule store_invI)
      (auto simp: map_of_update store_invD [OF inv] update_nonempty split: if_splits option.splits
        dest: store_invD(2) [OF inv])
  with Some inv show ?thesis by (simp add: upsert_own_key own_key_def Let_def)
qed

text \<open>A sequence of upserts whose documents have the keys \<open>f\<close>, all different.\<close>

lemma fold_upsert_inv: "store_inv m \<Longrightarrow> store_inv (fold (upsert_watched_override c) vs m)"
  by (induction vs arbitrary: m) (auto intro: upsert_inv)

lemma fold_upsert_view:
  assumes "wf_map kvs" "\<forall>p \<in> set kvs. own_key (fst p) (snd p)"
  shows "store_view (fold (upsert_watched_override c) (map snd kvs) m) c' k =
     (case map_of kvs k of
        Some v \<Rightarrow> if c' = c then only_if is_override (Some v) else store_view m c' k
      | None \<Rightarrow> store_view m c' k)"
  using assms
proof (induction kvs arbitrary: m)
  case (Cons p kvs)
  obtain l v where p: "p = (l, v)" by (cases p)
  have own: "own_key l v" using Cons.prems(2) p by simp
  have "l \<notin> fst ` set kvs" using Cons.prems(1) p by simp
  then have "map_of kvs l = None" by (simp add: map_of_eq_None_iff)
  with Cons.IH [of "upsert_watched_override c v m"] Cons.prems show ?case
    by (auto simp: p upsert_view [OF own] split: option.splits)
qed simp

lemma fold_upsert_other_view:
  "c' \<noteq> c \<Longrightarrow> store_view (fold (upsert_watched_override c) vs m) c' k = store_view m c' k"
  by (induction vs arbitrary: m) (simp_all add: upsert_other_view)

lemma fold_remove_inv:
  "store_inv m \<Longrightarrow> store_inv (fold (\<lambda>key. remove_override_key_for_controller key c) keys m)"
  by (induction keys arbitrary: m) (auto intro: remove_key_inv)

lemma fold_remove_view:
  "store_view (fold (\<lambda>key. remove_override_key_for_controller key c) keys m) c' k =
     (if c' = c \<and> k \<in> set keys then None else store_view m c' k)"
  by (induction keys arbitrary: m) (auto simp: remove_key_view)

lemma store_call_inv: "store_inv m \<Longrightarrow> store_inv (store_call call m)"
  by (cases call)
    (auto simp: full_set_def partial_update_def controller_offline_def controller_removed_def
      intro!: fold_upsert_inv fold_remove_inv remove_controller_inv)

text \<open>No call changes what another Controller contributes, whatever documents it carries.\<close>

lemma store_call_other_view:
  "store_inv m \<Longrightarrow> call_target call \<noteq> d \<Longrightarrow> store_view (store_call call m) d k = store_view m d k"
  by (cases call)
    (simp_all add: full_set_def partial_update_def controller_offline_def controller_removed_def
      fold_upsert_other_view fold_remove_view remove_controller_view del: fold_append)

lemma full_set_view:
  assumes "store_inv m" "wf_map data" "\<And>k v. map_of data k = Some v \<Longrightarrow> own_key k v"
  shows "store_view (full_set c data m) c k = only_if is_override (map_of data k)"
proof -
  have "\<forall>p \<in> set data. own_key (fst p) (snd p)"
    using assms(3) map_of_SomeE_wf [OF assms(2)] by blast
  with assms(2) show ?thesis
    by (auto simp: full_set_def fold_upsert_view remove_controller_view assms(1) split: option.splits)
qed

lemma partial_update_view:
  assumes "wf_map add" "wf_map upd"
    and own: "\<And>k v. map_of add k = Some v \<or> map_of upd k = Some v \<Longrightarrow> own_key k v"
  shows "store_view (partial_update c add upd rem m) c k =
     (case map_of upd k of
        Some v \<Rightarrow> only_if is_override (Some v)
      | None \<Rightarrow> (case map_of add k of
                   Some v \<Rightarrow> only_if is_override (Some v)
                 | None \<Rightarrow> if map_of rem k = None then store_view m c k else None))"
proof -
  have "\<forall>p \<in> set add. own_key (fst p) (snd p)" "\<forall>p \<in> set upd. own_key (fst p) (snd p)"
    using own map_of_SomeE_wf assms(1,2) by blast+
  moreover have "k \<in> set (map fst rem) \<longleftrightarrow> map_of rem k \<noteq> None"
    by (simp add: map_of_eq_None_iff)
  ultimately show ?thesis
    by (cases "map_of upd k"; cases "map_of add k")
      (simp_all only: partial_update_def fold_append o_apply fold_upsert_view assms(1,2)
        fold_remove_view option.case, auto)
qed

interpretation metadata: conf_handler store_call store_view own_key is_override store_inv
proof unfold_locales
  show "store_inv (store_call hc h)" if "store_inv h" for hc h
    using that by (rule store_call_inv)
  show "store_view (store_call hc h) d k = store_view h d k"
    if "store_inv h" "call_target hc \<noteq> d" for hc h d k
    using that by (rule store_call_other_view)
  show "store_view (store_call (FullSet c m) h) c k = only_if is_override (map_of m k)"
    if "store_inv h" "wf_map m" "\<And>k v. map_of m k = Some v \<Longrightarrow> own_key k v" for h m c k
    using full_set_view [OF that] by simp
next
  fix h a u and r :: "(string, json) hmap" and c k
  assume "store_inv h" "wf_map a" "wf_map u" "wf_map r"
    and "\<And>k v. map_of a k = Some v \<or> map_of u k = Some v \<Longrightarrow> own_key k v"
  then show "store_view (store_call (PartialUpdate c a u r) h) c k =
      (case map_of u k of
         Some v \<Rightarrow> only_if is_override (Some v)
       | None \<Rightarrow> (case map_of a k of
                    Some v \<Rightarrow> only_if is_override (Some v)
                  | None \<Rightarrow> if map_of r k = None then store_view h c k else None))"
    by (simp only: store_call.simps partial_update_view)
qed (simp_all add: controller_offline_def controller_removed_def remove_controller_view)

end
