(* ===== verification/Watch_Registry.thy ===== *)
theory Watch_Registry
  imports Metadata_Store
begin

text \<open>
  The registry of watch caches (\<open>watch_cache/registry.rs\<close>) and the redacted read model over it
  (\<open>watch_cache/read_model.rs\<close>), both under \<open>crates/center-runtime/src\<close>.

  A cache is shared: the registry map and every session that asked for it hold an \<open>Arc\<close>. The
  model keeps the cache objects in a heap and the map holds their addresses, so a handle that
  outlives its registration keeps pointing at the same object. The handler the registry owns is
  the metadata store; its calls are the effects of \<open>Watch_Cache\<close>.
\<close>

section \<open>Data\<close>

type_synonym cache_ref = nat

record CenterWatchCacheRegistry =
  wr_caches :: "(string, cache_ref) hmap"
  wr_heap :: "(string \<times> json CacheState) list"

record ConfigDataEntry =
  entry_controller_id :: string
  entry_namespace :: string
  entry_name :: string
  entry_config_type :: string
  entry_doc :: json

definition CONFIG_PASSTHROUGH_TYPES :: "string list" where
  "CONFIG_PASSTHROUGH_TYPES =
     [''IpList'', ''KeyList'', ''Selector'', ''RegionRouteOverride'', ''ProxyProtocolTrust'',
      ''WafPolicy'']"

section \<open>Registry operations\<close>

definition new_registry :: CenterWatchCacheRegistry where
  "new_registry = \<lparr>wr_caches = [], wr_heap = []\<rparr>"

definition get_or_create ::
  "string \<Rightarrow> CenterWatchCacheRegistry \<Rightarrow> cache_ref \<times> CenterWatchCacheRegistry" where
  "get_or_create controller_id r =
     (case map_of (wr_caches r) controller_id of
        Some a \<Rightarrow> (a, r)
      | None \<Rightarrow>
          let a = length (wr_heap r)
          in (a, r\<lparr>wr_caches := AList.update controller_id a (wr_caches r),
                   wr_heap := wr_heap r @ [(controller_id, new_cache)]\<rparr>))"

definition get_if_present :: "string \<Rightarrow> CenterWatchCacheRegistry \<Rightarrow> cache_ref option" where
  "get_if_present controller_id r = map_of (wr_caches r) controller_id"

definition cache_at :: "CenterWatchCacheRegistry \<Rightarrow> cache_ref \<Rightarrow> json CacheState" where
  "cache_at r a = snd (wr_heap r ! a)"

definition set_cache :: "cache_ref \<Rightarrow> json CacheState \<Rightarrow> CenterWatchCacheRegistry \<Rightarrow> CenterWatchCacheRegistry" where
  "set_cache a st r = r\<lparr>wr_heap := (wr_heap r)[a := (fst (wr_heap r ! a), st)]\<rparr>"

definition caches_snapshot :: "CenterWatchCacheRegistry \<Rightarrow> (string \<times> cache_ref) list" where
  "caches_snapshot r = wr_caches r"

definition statuses :: "CenterWatchCacheRegistry \<Rightarrow> (string \<times> CacheStatus) list" where
  "statuses r = map (\<lambda>(id, a). (id, cache_status (cache_at r a))) (wr_caches r)"

definition registry_mark_offline ::
  "string \<Rightarrow> CenterWatchCacheRegistry \<Rightarrow> CenterWatchCacheRegistry \<times> json effect list" where
  "registry_mark_offline controller_id r =
     ((case map_of (wr_caches r) controller_id of
         None \<Rightarrow> r
       | Some a \<Rightarrow> set_cache a (set_stale (cache_at r a)) r),
      [HandlerCall (ControllerOffline controller_id)])"

definition remove_controller ::
  "string \<Rightarrow> CenterWatchCacheRegistry \<Rightarrow> CenterWatchCacheRegistry \<times> json effect list" where
  "remove_controller controller_id r =
     (r\<lparr>wr_caches := AList.delete controller_id (wr_caches r)\<rparr>,
      [HandlerCall (ControllerRemoved controller_id)])"

text \<open>A batch through a cache handle: the object knows its Controller id and the shared handler.\<close>

definition cache_replace_all ::
  "cache_ref \<Rightarrow> u64 \<Rightarrow> (string \<times> json) list \<Rightarrow> u64 \<Rightarrow> string \<Rightarrow> CenterWatchCacheRegistry
     \<Rightarrow> ApplyResult \<times> CenterWatchCacheRegistry \<times> json effect list" where
  "cache_replace_all a now items sync_version server_id r =
     (let (res, st, es) = replace_all config_type_json (fst (wr_heap r ! a)) now items sync_version
                            server_id (cache_at r a)
      in (res, set_cache a st r, es))"

definition cache_apply_events ::
  "cache_ref \<Rightarrow> u64 \<Rightarrow> json WatchEventSimple list \<Rightarrow> u64 \<Rightarrow> string \<Rightarrow> CenterWatchCacheRegistry
     \<Rightarrow> ApplyResult \<times> CenterWatchCacheRegistry \<times> json effect list" where
  "cache_apply_events a now events sync_version server_id r =
     (let (res, st, es) = apply_events config_type_json (fst (wr_heap r ! a)) now events sync_version
                            server_id (cache_at r a)
      in (res, set_cache a st r, es))"

section \<open>Read model\<close>

definition split_key :: "string \<Rightarrow> string \<times> string" where
  "split_key key =
     (case split_once (CHR ''/'') key of
        Some (namespace, name) \<Rightarrow> (namespace, name)
      | None \<Rightarrow> ([], key))"

definition redact :: "json \<Rightarrow> string \<Rightarrow> json" where
  "redact value config_type =
     (if config_type \<notin> set CONFIG_PASSTHROUGH_TYPES
      then json_modify [''spec'', ''data''] (json_remove_key ''config'') value
      else value)"

definition build_entry :: "string \<Rightarrow> string \<Rightarrow> json \<Rightarrow> ConfigDataEntry" where
  "build_entry controller_id key value =
     (let (namespace, name) = split_key key;
          config_type = type_label config_type_json value
      in \<lparr>entry_controller_id = controller_id, entry_namespace = namespace, entry_name = name,
          entry_config_type = config_type, entry_doc = redact value config_type\<rparr>)"

definition list_entries :: "string \<Rightarrow> string option \<Rightarrow> json CacheState \<Rightarrow> ConfigDataEntry list" where
  "list_entries controller_id_hint type_filter st =
     sort_key (\<lambda>e. (entry_namespace e, entry_name e))
       (filter (\<lambda>e. case type_filter of None \<Rightarrow> True | Some wanted \<Rightarrow> entry_config_type e = wanted)
          (map (\<lambda>(key, value). build_entry controller_id_hint key value) (entries_snapshot st)))"

definition list_all_entries :: "string option \<Rightarrow> CenterWatchCacheRegistry \<Rightarrow> ConfigDataEntry list" where
  "list_all_entries type_filter r =
     sort_key (\<lambda>e. (entry_namespace e, entry_name e, entry_controller_id e))
       (concat (map (\<lambda>(controller_id, a). list_entries controller_id type_filter (cache_at r a))
                  (caches_snapshot r)))"

definition raw_document :: "string \<Rightarrow> string \<Rightarrow> CenterWatchCacheRegistry \<Rightarrow> json option" where
  "raw_document controller_id key r =
     Option.bind (get_if_present controller_id r) (\<lambda>a. raw_get key (cache_at r a))"

definition cached_server_id :: "string \<Rightarrow> CenterWatchCacheRegistry \<Rightarrow> string option" where
  "cached_server_id controller_id r =
     (case map_option (\<lambda>a. cs_server_id (cache_at r a)) (get_if_present controller_id r) of
        Some sid \<Rightarrow> if sid = [] then None else Some sid
      | None \<Rightarrow> None)"

section \<open>The registry with its handler\<close>

text \<open>
  The registry together with the store it drives. Batches are applied through the handle the
  registry currently gives out, with any contents. \<open>Prune\<close> is the periodic
  \<open>retain_controllers\<close> sweep, for any set of Controllers.
\<close>

record watch_system =
  ws_registry :: CenterWatchCacheRegistry
  ws_store :: override_map

datatype watch_op =
    Open string
  | ListBatch string u64 "(string \<times> json) list" u64 string
  | EventBatch string u64 "json WatchEventSimple list" u64 string
  | Offline string
  | Remove string
  | Prune "string set"

definition with_effects :: "CenterWatchCacheRegistry \<times> json effect list \<Rightarrow> watch_system \<Rightarrow> watch_system" where
  "with_effects = (\<lambda>(r, es) s. \<lparr>ws_registry = r, ws_store = run_effects store_call es (ws_store s)\<rparr>)"

fun watch_step :: "watch_op \<Rightarrow> watch_system \<Rightarrow> watch_system" where
  "watch_step (Open c) s = s\<lparr>ws_registry := snd (get_or_create c (ws_registry s))\<rparr>"
| "watch_step (ListBatch c now items sv sid) s =
     (let (a, r) = get_or_create c (ws_registry s)
      in with_effects (snd (cache_replace_all a now items sv sid r)) s)"
| "watch_step (EventBatch c now events sv sid) s =
     (let (a, r) = get_or_create c (ws_registry s)
      in with_effects (snd (cache_apply_events a now events sv sid r)) s)"
| "watch_step (Offline c) s = with_effects (registry_mark_offline c (ws_registry s)) s"
| "watch_step (Remove c) s = with_effects (remove_controller c (ws_registry s)) s"
| "watch_step (Prune ids) s = s\<lparr>ws_store := retain_override_controllers ids (ws_store s)\<rparr>"

text \<open>
  The operations after which the rows of a Controller may differ from its cache. A batch
  \<open>scrambles\<close> them when it stores a document under a key that is not the document's own
  \<open>namespace/name\<close>, or when it names a key twice; a sweep \<open>prunes\<close> them when the Controller is
  not in the set to retain. Only a batch of that Controller and such a sweep can do either. A full
  list within the capacity bound, and the removal of the Controller, bring the two back in step.
\<close>

fun scrambles :: "string \<Rightarrow> watch_op \<Rightarrow> bool" where
  "scrambles c (ListBatch d now items sv sid) \<longleftrightarrow>
     d = c \<and> (\<exists>(k, v) \<in> set items. \<not> own_key k v)"
| "scrambles c (EventBatch d now events sv sid) \<longleftrightarrow>
     d = c \<and> (\<not> distinct (map event_key events)
              \<or> (\<exists>e \<in> set events. \<not> own_key (event_key e) (event_data e)))"
| "scrambles c _ \<longleftrightarrow> False"

fun prunes :: "string \<Rightarrow> watch_op \<Rightarrow> bool" where
  "prunes c (Prune ids) \<longleftrightarrow> c \<notin> ids"
| "prunes c _ \<longleftrightarrow> False"

fun resyncs :: "string \<Rightarrow> watch_op \<Rightarrow> bool" where
  "resyncs c (ListBatch d now items sv sid) \<longleftrightarrow>
     d = c \<and> length items \<le> MAX_ENTRIES_PER_CONTROLLER \<and> (\<forall>(k, v) \<in> set items. own_key k v)"
| "resyncs c (Remove d) \<longleftrightarrow> d = c"
| "resyncs c _ \<longleftrightarrow> False"

definition initial_watch_system :: watch_system where
  "initial_watch_system = \<lparr>ws_registry = new_registry, ws_store = new_metadata_store\<rparr>"

text \<open>
  The registry's own invariant: a registered address is in the heap, names the Controller it is
  registered for (so two Controllers never share an object), and holds a well-formed cache.
\<close>

definition registry_inv :: "CenterWatchCacheRegistry \<Rightarrow> bool" where
  "registry_inv r \<longleftrightarrow>
     wf_map (wr_caches r) \<and>
     (\<forall>(c, a) \<in> set (wr_caches r). a < length (wr_heap r) \<and> fst (wr_heap r ! a) = c) \<and>
     (\<forall>(c, st) \<in> set (wr_heap r). cache_inv st)"

fun watch_run :: "watch_op list \<Rightarrow> watch_system \<Rightarrow> watch_system" where
  "watch_run [] s = s"
| "watch_run (opn # ops) s = watch_run ops (watch_step opn s)"

definition cache_of :: "CenterWatchCacheRegistry \<Rightarrow> string \<Rightarrow> json CacheState" where
  "cache_of r c = (case get_if_present c r of None \<Rightarrow> new_cache | Some a \<Rightarrow> cache_at r a)"

section \<open>Lemmas\<close>

subsection \<open>Registry\<close>

lemma registry_invD:
  assumes "registry_inv r" "map_of (wr_caches r) c = Some a"
  shows "a < length (wr_heap r)" "fst (wr_heap r ! a) = c" "cache_inv (cache_at r a)"
proof -
  from map_of_SomeD [OF assms(2)] assms(1) show "a < length (wr_heap r)" "fst (wr_heap r ! a) = c"
    by (auto simp: registry_inv_def)
  then have "wr_heap r ! a \<in> set (wr_heap r)" by simp
  with assms(1) show "cache_inv (cache_at r a)"
    by (auto simp: registry_inv_def cache_at_def)
qed

lemma new_registry_inv: "registry_inv new_registry"
  by (simp add: registry_inv_def new_registry_def)

lemma cache_of_inv: "registry_inv r \<Longrightarrow> cache_inv (cache_of r c)"
  by (auto simp: cache_of_def get_if_present_def new_cache_inv registry_invD split: option.splits)

lemma get_or_create_spec:
  assumes "registry_inv r" "get_or_create c r = (a, r')"
  shows "map_of (wr_caches r') c = Some a" "cache_of r' = cache_of r" "registry_inv r'"
proof -
  have "map_of (wr_caches r') c = Some a \<and> cache_of r' = cache_of r \<and> registry_inv r'"
  proof (cases "map_of (wr_caches r) c")
    case None
    with assms have a: "a = length (wr_heap r)"
      and r': "r' = r\<lparr>wr_caches := AList.update c a (wr_caches r), wr_heap := wr_heap r @ [(c, new_cache)]\<rparr>"
      by (auto simp: get_or_create_def Let_def)
    have wf: "wf_map (wr_caches r')"
      using assms(1) by (simp add: registry_inv_def r')
    have "cache_of r' d = cache_of r d" for d
    proof (cases "d = c")
      case True
      with None show ?thesis
        by (simp add: r' a cache_of_def get_if_present_def cache_at_def map_of_update)
    next
      case False
      then show ?thesis
        using registry_invD(1) [OF assms(1), of d]
        by (cases "map_of (wr_caches r) d")
          (simp_all add: r' a cache_of_def get_if_present_def cache_at_def map_of_update nth_append)
    qed
    moreover have "e < length (wr_heap r') \<and> fst (wr_heap r' ! e) = d"
      if "(d, e) \<in> set (wr_caches r')" for d e
    proof -
      have "map_of (wr_caches r') d = Some e"
        using that mem_wf_map [OF wf] by blast
      then show ?thesis
        using registry_invD(1,2) [OF assms(1), of d e]
        by (cases "d = c") (simp_all add: r' a map_of_update nth_append)
    qed
    moreover have "\<forall>(d, st) \<in> set (wr_heap r'). cache_inv st"
      using assms(1) by (simp add: registry_inv_def r' new_cache_inv)
    moreover have "map_of (wr_caches r') c = Some a"
      by (simp add: r' map_of_update)
    ultimately show ?thesis
      unfolding registry_inv_def fun_eq_iff using wf by blast
  next
    case (Some b)
    with assms show ?thesis by (simp add: get_or_create_def)
  qed
  then show "map_of (wr_caches r') c = Some a" "cache_of r' = cache_of r" "registry_inv r'"
    by auto
qed

lemma set_cache_spec:
  assumes "registry_inv r" "map_of (wr_caches r) c = Some a" "cache_inv st"
  shows "cache_of (set_cache a st r) = (cache_of r)(c := st)" "registry_inv (set_cache a st r)"
proof -
  have a: "a < length (wr_heap r)" "fst (wr_heap r ! a) = c"
    using registry_invD [OF assms(1,2)] by auto
  show "cache_of (set_cache a st r) = (cache_of r)(c := st)"
  proof
    fix d
    show "cache_of (set_cache a st r) d = ((cache_of r)(c := st)) d"
      using a assms(2) registry_invD [OF assms(1), of d]
      by (auto simp: cache_of_def get_if_present_def cache_at_def set_cache_def nth_list_update
          split: option.splits)
  qed
  show "registry_inv (set_cache a st r)"
    using assms(1,3) a
    by (auto simp: registry_inv_def set_cache_def nth_list_update dest!: set_update_subset_insert [THEN subsetD]
        split: if_splits)
qed

lemma remove_controller_spec:
  assumes "registry_inv r" "remove_controller c r = (r', es)"
  shows "cache_of r' = (cache_of r)(c := new_cache)" "registry_inv r'"
proof -
  from assms(2) have r': "r' = r\<lparr>wr_caches := AList.delete c (wr_caches r)\<rparr>"
    by (simp add: remove_controller_def)
  show "cache_of r' = (cache_of r)(c := new_cache)"
    by (auto simp: r' cache_of_def get_if_present_def cache_at_def map_simps fun_eq_iff
        split: option.splits)
  show "registry_inv r'"
    using assms(1) by (auto simp: r' registry_inv_def dest: set_delete_subset)
qed

lemma mark_offline_spec:
  assumes "registry_inv r" "registry_mark_offline c r = (r', es)"
  shows "registry_inv r'" "cs_data (cache_of r' d) = cs_data (cache_of r d)"
proof -
  have "registry_inv r' \<and> cs_data (cache_of r' d) = cs_data (cache_of r d)"
  proof (cases "map_of (wr_caches r) c")
    case None
    with assms show ?thesis by (simp add: registry_mark_offline_def)
  next
    case (Some a)
    have inv: "cache_inv (set_stale (cache_at r a))"
      using registry_invD(3) [OF assms(1) Some] by (rule set_stale_inv)
    from Some assms(2) have r': "r' = set_cache a (set_stale (cache_at r a)) r"
      by (simp add: registry_mark_offline_def)
    have "cs_data (set_stale (cache_at r a)) = cs_data (cache_of r c)"
      by (simp add: set_stale_def cache_of_def get_if_present_def Some)
    then show ?thesis
      by (simp add: r' set_cache_spec [OF assms(1) Some inv])
  qed
  then show "registry_inv r'" "cs_data (cache_of r' d) = cs_data (cache_of r d)" by auto
qed

lemma cache_replace_all_spec:
  assumes "registry_inv r" "map_of (wr_caches r) c = Some a"
    and "cache_replace_all a now items sv sid r = (res, r', es)"
  obtains st where "replace_all config_type_json c now items sv sid (cache_of r c) = (res, st, es)"
    "cache_of r' = (cache_of r)(c := st)" "registry_inv r'"
proof -
  have c: "cache_of r c = cache_at r a" by (simp add: cache_of_def get_if_present_def assms(2))
  obtain res' st es' where eq: "replace_all config_type_json c now items sv sid (cache_at r a) = (res', st, es')"
    by (cases "replace_all config_type_json c now items sv sid (cache_at r a)")
  with assms registry_invD [OF assms(1,2)]
  have "res' = res" "es' = es" "r' = set_cache a st r"
    by (auto simp: cache_replace_all_def)
  moreover have "cache_inv st"
    using replace_all_inv eq registry_invD(3) [OF assms(1,2)] by blast
  ultimately show ?thesis
    using that eq set_cache_spec [OF assms(1,2)] by (metis c)
qed

lemma cache_apply_events_spec:
  assumes "registry_inv r" "map_of (wr_caches r) c = Some a"
    and "cache_apply_events a now events sv sid r = (res, r', es)"
  obtains st where "apply_events config_type_json c now events sv sid (cache_of r c) = (res, st, es)"
    "cache_of r' = (cache_of r)(c := st)" "registry_inv r'"
proof -
  have c: "cache_of r c = cache_at r a" by (simp add: cache_of_def get_if_present_def assms(2))
  obtain res' st es' where eq: "apply_events config_type_json c now events sv sid (cache_at r a) = (res', st, es')"
    by (cases "apply_events config_type_json c now events sv sid (cache_at r a)")
  with assms registry_invD [OF assms(1,2)]
  have "res' = res" "es' = es" "r' = set_cache a st r"
    by (auto simp: cache_apply_events_def)
  moreover have "cache_inv st"
    using apply_events_inv eq registry_invD(3) [OF assms(1,2)] by blast
  ultimately show ?thesis
    using that eq set_cache_spec [OF assms(1,2)] by (metis c)
qed


subsection \<open>The registry with its handler\<close>

lemma rejected_batch:
  assumes "replace_all ct c now items sv sid st = (Overflow, st', es)
           \<or> apply_events ct c now events sv sid st = (Overflow, st', es)"
  shows "es = [] \<and> rejected_from st st'"
  using assms
  by (auto simp: replace_all_def apply_events_def Let_def rejected_from_reject split: if_splits)

definition watch_wf :: "watch_system \<Rightarrow> bool" where
  "watch_wf s \<longleftrightarrow> registry_inv (ws_registry s) \<and> store_inv (ws_store s)"

text \<open>What a batch does to the system, in terms of the cache operation it runs.\<close>

lemma list_batch_effect:
  assumes "watch_wf s"
  obtains res st es where
    "replace_all config_type_json d now items sv sid (cache_of (ws_registry s) d) = (res, st, es)"
    "cache_of (ws_registry (watch_step (ListBatch d now items sv sid) s)) =
       (cache_of (ws_registry s))(d := st)"
    "ws_store (watch_step (ListBatch d now items sv sid) s) = run_effects store_call es (ws_store s)"
    "watch_wf (watch_step (ListBatch d now items sv sid) s)"
proof -
  obtain a r1 where g: "get_or_create d (ws_registry s) = (a, r1)" by fastforce
  have inv: "registry_inv (ws_registry s)" "store_inv (ws_store s)"
    using assms by (simp_all add: watch_wf_def)
  note g' = get_or_create_spec [OF inv(1) g]
  obtain res r2 es where b: "cache_replace_all a now items sv sid r1 = (res, r2, es)"
    by (cases "cache_replace_all a now items sv sid r1")
  from g'(3,1) b obtain st where
    "replace_all config_type_json d now items sv sid (cache_of r1 d) = (res, st, es)"
    "cache_of r2 = (cache_of r1)(d := st)" "registry_inv r2"
    by (rule cache_replace_all_spec)
  with that g'(2) metadata.run_effects_inv [OF inv(2)] show ?thesis
    by (simp add: g b with_effects_def watch_wf_def)
qed

lemma event_batch_effect:
  assumes "watch_wf s"
  obtains res st es where
    "apply_events config_type_json d now events sv sid (cache_of (ws_registry s) d) = (res, st, es)"
    "cache_of (ws_registry (watch_step (EventBatch d now events sv sid) s)) =
       (cache_of (ws_registry s))(d := st)"
    "ws_store (watch_step (EventBatch d now events sv sid) s) = run_effects store_call es (ws_store s)"
    "watch_wf (watch_step (EventBatch d now events sv sid) s)"
proof -
  obtain a r1 where g: "get_or_create d (ws_registry s) = (a, r1)" by fastforce
  have inv: "registry_inv (ws_registry s)" "store_inv (ws_store s)"
    using assms by (simp_all add: watch_wf_def)
  note g' = get_or_create_spec [OF inv(1) g]
  obtain res r2 es where b: "cache_apply_events a now events sv sid r1 = (res, r2, es)"
    by (cases "cache_apply_events a now events sv sid r1")
  from g'(3,1) b obtain st where
    "apply_events config_type_json d now events sv sid (cache_of r1 d) = (res, st, es)"
    "cache_of r2 = (cache_of r1)(d := st)" "registry_inv r2"
    by (rule cache_apply_events_spec)
  with that g'(2) metadata.run_effects_inv [OF inv(2)] show ?thesis
    by (simp add: g b with_effects_def watch_wf_def)
qed

lemma offline_effect:
  assumes "watch_wf s"
  shows "cs_data (cache_of (ws_registry (watch_step (Offline d) s)) c) = cs_data (cache_of (ws_registry s) c)"
    "ws_store (watch_step (Offline d) s) = ws_store s" "watch_wf (watch_step (Offline d) s)"
proof -
  obtain r es where m: "registry_mark_offline d (ws_registry s) = (r, es)" by fastforce
  then have es: "es = [HandlerCall (ControllerOffline d)]" by (simp add: registry_mark_offline_def)
  have "registry_inv (ws_registry s)" using assms by (simp add: watch_wf_def)
  note spec = mark_offline_spec [OF this m]
  show "ws_store (watch_step (Offline d) s) = ws_store s"
    by (simp add: m es with_effects_def run_effects_def controller_offline_def)
  then show "watch_wf (watch_step (Offline d) s)"
    using assms spec(1) by (simp add: m es with_effects_def watch_wf_def)
  show "cs_data (cache_of (ws_registry (watch_step (Offline d) s)) c) = cs_data (cache_of (ws_registry s) c)"
    by (simp add: m with_effects_def spec(2))
qed

lemma remove_effect:
  assumes "watch_wf s"
  shows "cache_of (ws_registry (watch_step (Remove d) s)) = (cache_of (ws_registry s))(d := new_cache)"
    "ws_store (watch_step (Remove d) s) = controller_removed d (ws_store s)"
    "watch_wf (watch_step (Remove d) s)"
proof -
  obtain r es where m: "remove_controller d (ws_registry s) = (r, es)" by fastforce
  then have es: "es = [HandlerCall (ControllerRemoved d)]" by (simp add: remove_controller_def)
  have "registry_inv (ws_registry s)" using assms by (simp add: watch_wf_def)
  note spec = remove_controller_spec [OF this m]
  show "cache_of (ws_registry (watch_step (Remove d) s)) = (cache_of (ws_registry s))(d := new_cache)"
    by (simp add: m with_effects_def spec(1))
  show store: "ws_store (watch_step (Remove d) s) = controller_removed d (ws_store s)"
    by (simp add: m es with_effects_def run_effects_def)
  show "watch_wf (watch_step (Remove d) s)"
    using assms spec(2)
    by (simp add: m es with_effects_def run_effects_def watch_wf_def controller_removed_def
        remove_controller_inv)
qed

lemma open_effect:
  assumes "watch_wf s"
  shows "cache_of (ws_registry (watch_step (Open d) s)) = cache_of (ws_registry s)"
    "ws_store (watch_step (Open d) s) = ws_store s" "watch_wf (watch_step (Open d) s)"
  using assms get_or_create_spec(2,3) [OF _ prod.collapse [symmetric], of "ws_registry s" d]
  by (simp_all add: watch_wf_def)

text \<open>The well-formedness of registry and store survives every operation, with any contents.\<close>

lemma watch_step_wf: "watch_wf s \<Longrightarrow> watch_wf (watch_step opn s)"
proof (cases opn)
  case (Prune ids)
  then show "watch_wf s \<Longrightarrow> ?thesis" by (simp add: watch_wf_def retain_controllers_inv)
qed (blast intro: open_effect(3) offline_effect(3) remove_effect(3)
      elim: list_batch_effect event_batch_effect)+

lemma watch_run_wf: "watch_wf s \<Longrightarrow> watch_wf (watch_run ops s)"
  by (induction ops arbitrary: s) (auto intro: watch_step_wf simp del: watch_step.simps)

lemma initial_wf: "watch_wf initial_watch_system"
  by (simp add: watch_wf_def initial_watch_system_def new_registry_inv new_metadata_store_def
      store_inv_def)

lemma watch_run_append: "watch_run (xs @ ys) s = watch_run ys (watch_run xs s)"
  by (induction xs arbitrary: s) simp_all

text \<open>
  Relations between what the store shows for one Controller and that Controller's cache. Such a
  relation looks at the shown rows and the contents only, holds of nothing against an empty cache,
  is re-established by an accepted full list and kept by an accepted batch of well-keyed events.
  Then it is kept by every operation that does not scramble or prune the Controller's rows,
  whatever the operations on other Controllers carry.
\<close>

definition coupled ::
  "(override_map \<Rightarrow> string \<Rightarrow> json CacheState \<Rightarrow> bool) \<Rightarrow> string \<Rightarrow> watch_system \<Rightarrow> bool" where
  "coupled R c s \<longleftrightarrow> watch_wf s \<and> R (ws_store s) c (cache_of (ws_registry s) c)"

locale coupling =
  fixes R :: "override_map \<Rightarrow> string \<Rightarrow> json CacheState \<Rightarrow> bool"
  assumes transfer: "(\<And>k. store_view m' c k = store_view m c k) \<Longrightarrow> cs_data st' = cs_data st \<Longrightarrow>
      R m c st \<Longrightarrow> R m' c st'"
    and empty: "(\<And>k. store_view m c k = None) \<Longrightarrow> R m c new_cache"
    and listed: "store_inv m \<Longrightarrow> (\<And>k v. (k, v) \<in> set items \<Longrightarrow> own_key k v) \<Longrightarrow>
      replace_all config_type_json c now items sv sid st = (Applied, st', es) \<Longrightarrow>
      R (run_effects store_call es m) c st'"
    and applied: "store_inv m \<Longrightarrow> R m c st \<Longrightarrow> distinct (map event_key events) \<Longrightarrow>
      \<forall>e \<in> set events. own_key (event_key e) (event_data e) \<Longrightarrow>
      apply_events config_type_json c now events sv sid st = (Applied, st', es) \<Longrightarrow>
      R (run_effects store_call es m) c st'"
begin

lemma initial: "coupled R c initial_watch_system"
  unfolding coupled_def using initial_wf
  by (auto simp: initial_watch_system_def new_metadata_store_def store_view_def cache_of_def
      get_if_present_def new_registry_def intro!: empty)

text \<open>A step that leaves the Controller's rows and cache contents alone.\<close>

lemma untouched:
  assumes "coupled R c s" "watch_wf s'"
    and "\<And>k. store_view (ws_store s') c k = store_view (ws_store s) c k"
    and "cs_data (cache_of (ws_registry s') c) = cs_data (cache_of (ws_registry s) c)"
  shows "coupled R c s'"
  using assms transfer [OF assms(3,4)] by (simp add: coupled_def)

lemma resynced:
  assumes "watch_wf s" "resyncs c opn"
  shows "coupled R c (watch_step opn s)"
proof (cases opn)
  case (ListBatch d now items sv sid)
  with assms(2) have d: "d = c" "length items \<le> MAX_ENTRIES_PER_CONTROLLER"
    and own: "\<And>k v. (k, v) \<in> set items \<Longrightarrow> own_key k v" by auto
  from assms(1) obtain res st es where e:
    "replace_all config_type_json c now items sv sid (cache_of (ws_registry s) c) = (res, st, es)"
    "cache_of (ws_registry (watch_step opn s)) = (cache_of (ws_registry s))(c := st)"
    "ws_store (watch_step opn s) = run_effects store_call es (ws_store s)" "watch_wf (watch_step opn s)"
    unfolding ListBatch d(1) by (rule list_batch_effect)
  have "res = Applied" using e(1) d(2) by (simp add: replace_all_def Let_def)
  with listed [OF _ own] e assms(1) show ?thesis by (simp add: coupled_def watch_wf_def)
next
  case (Remove d)
  with assms show ?thesis
    using remove_effect [OF assms(1), of d]
    by (auto simp: coupled_def controller_removed_def remove_controller_view watch_wf_def
        simp del: watch_step.simps intro!: empty)
qed (use assms(2) in simp_all)

lemma list_batch:
  assumes "coupled R c s" "\<not> scrambles c (ListBatch d now items sv sid)"
  shows "coupled R c (watch_step (ListBatch d now items sv sid) s)"
proof -
  have wf: "watch_wf s" using assms(1) by (simp add: coupled_def)
  show ?thesis
  proof (cases "d = c \<and> length items \<le> MAX_ENTRIES_PER_CONTROLLER")
    case True
    with assms(2) show ?thesis by (intro resynced [OF wf]) auto
  next
    case False
    from wf obtain res st es where e:
      "replace_all config_type_json d now items sv sid (cache_of (ws_registry s) d) = (res, st, es)"
      "cache_of (ws_registry (watch_step (ListBatch d now items sv sid) s)) =
         (cache_of (ws_registry s))(d := st)"
      "ws_store (watch_step (ListBatch d now items sv sid) s) = run_effects store_call es (ws_store s)"
      "watch_wf (watch_step (ListBatch d now items sv sid) s)"
      by (rule list_batch_effect)
    have "(\<forall>hc. HandlerCall hc \<in> set es \<longrightarrow> call_target hc \<noteq> c) \<and>
        (d = c \<longrightarrow> cs_data st = cs_data (cache_of (ws_registry s) c))"
      using False e(1) batch_calls_own_controller [OF disjI1 [OF e(1)]]
      by (auto simp: replace_all_def reject_overflow_def)
    with e wf show ?thesis
      by (intro untouched [OF assms(1)])
        (auto simp: metadata.run_effects_other watch_wf_def simp del: watch_step.simps)
  qed
qed

lemma event_batch:
  assumes "coupled R c s" "\<not> scrambles c (EventBatch d now events sv sid)"
  shows "coupled R c (watch_step (EventBatch d now events sv sid) s)"
proof -
  have wf: "watch_wf s" and R: "R (ws_store s) c (cache_of (ws_registry s) c)"
    using assms(1) by (simp_all add: coupled_def)
  from wf obtain res st es where e:
    "apply_events config_type_json d now events sv sid (cache_of (ws_registry s) d) = (res, st, es)"
    "cache_of (ws_registry (watch_step (EventBatch d now events sv sid) s)) =
       (cache_of (ws_registry s))(d := st)"
    "ws_store (watch_step (EventBatch d now events sv sid) s) = run_effects store_call es (ws_store s)"
    "watch_wf (watch_step (EventBatch d now events sv sid) s)"
    by (rule event_batch_effect)
  show ?thesis
  proof (cases "d = c \<and> res = Applied")
    case True
    with assms(2) e(1) wf have "R (run_effects store_call es (ws_store s)) c st"
      by (intro applied [OF _ R]) (auto simp: watch_wf_def)
    with True e show ?thesis
      by (simp add: coupled_def del: watch_step.simps)
  next
    case False
    then have "(\<forall>hc. HandlerCall hc \<in> set es \<longrightarrow> call_target hc \<noteq> c) \<and>
        (d = c \<longrightarrow> cs_data st = cs_data (cache_of (ws_registry s) c))"
      using e(1) batch_calls_own_controller [OF disjI2 [OF e(1)]]
      by (auto simp: apply_events_def reject_overflow_def Let_def split: if_splits)
    with e wf show ?thesis
      by (intro untouched [OF assms(1)])
        (auto simp: metadata.run_effects_other watch_wf_def simp del: watch_step.simps)
  qed
qed

lemma watch_step:
  assumes "coupled R c s" "\<not> scrambles c opn" "\<not> prunes c opn"
  shows "coupled R c (watch_step opn s)"
proof -
  have wf: "watch_wf s" using assms(1) by (simp add: coupled_def)
  show ?thesis
  proof (cases opn)
    case (Open d)
    then show ?thesis
      using open_effect [OF wf, of d] by (intro untouched [OF assms(1)]) (simp_all del: watch_step.simps)
  next
    case (Offline d)
    then show ?thesis
      using offline_effect [OF wf, of d] by (intro untouched [OF assms(1)]) (simp_all del: watch_step.simps)
  next
    case (Remove d)
    then show ?thesis
      using remove_effect [OF wf, of d] resynced [OF wf, of c opn] wf
      by (cases "d = c")
        (auto simp: controller_removed_def remove_controller_view watch_wf_def
          simp del: watch_step.simps intro!: untouched [OF assms(1)])
  next
    case (Prune ids)
    with assms(3) wf show ?thesis
      by (intro untouched [OF assms(1)])
        (simp_all add: watch_wf_def retain_controllers_view retain_controllers_inv)
  qed (use assms(2) list_batch [OF assms(1)] event_batch [OF assms(1)] in \<open>simp_all only:\<close>)
qed

lemma watch_run:
  "coupled R c s \<Longrightarrow> \<forall>opn \<in> set ops. \<not> scrambles c opn \<and> \<not> prunes c opn \<Longrightarrow>
     coupled R c (watch_run ops s)"
  by (induction ops arbitrary: s) (auto intro!: watch_step simp del: watch_step.simps)

lemma resync_point:
  assumes "ops = [] \<or> resyncs c (last ops)"
  shows "coupled R c (watch_run ops initial_watch_system)"
proof (cases ops rule: rev_cases)
  case Nil
  then show ?thesis by (simp add: initial)
next
  case (snoc ys opn)
  with assms resynced [OF watch_run_wf [OF initial_wf], of c opn ys] show ?thesis
    by (simp add: watch_run_append del: watch_step.simps)
qed

end


interpretation pruned: coupling metadata.sound
proof unfold_locales
  show "metadata.sound m' c st'" if "\<And>k. store_view m' c k = store_view m c k"
    "cs_data st' = cs_data st" "metadata.sound m c st" for m' c m st' and st :: "json CacheState"
    using that by (simp add: metadata.sound_def)
  show "metadata.sound m c new_cache" if "\<And>k. store_view m c k = None" for m c
    using that by (simp add: metadata.sound_def)
qed (fact metadata.apply_events_sound metadata.tracks_sound [OF metadata.replace_all_tracks])+

lemma watch_run_sound:
  "coupled metadata.sound c s \<Longrightarrow> \<forall>opn \<in> set ops. \<not> scrambles c opn \<Longrightarrow>
     coupled metadata.sound c (watch_run ops s)"
proof (induction ops arbitrary: s)
  case (Cons opn ops)
  have "coupled metadata.sound c (watch_step opn s)"
  proof (cases "prunes c opn")
    case True
    then obtain ids where "opn = Prune ids" "c \<notin> ids" by (cases opn) auto
    with Cons.prems(1) show ?thesis
      by (simp add: coupled_def watch_wf_def metadata.sound_def retain_controllers_view
          retain_controllers_inv)
  qed (use Cons.prems in \<open>auto intro: pruned.watch_step simp del: watch_step.simps\<close>)
  with Cons show ?case by (simp del: watch_step.simps)
qed simp

lemma raw_document_cache_of: "raw_document c k r = map_of (cs_data (cache_of r c)) k"
  by (auto simp: raw_document_def raw_get_def cache_of_def get_if_present_def new_cache_def
      split: option.splits)

subsection \<open>Read model\<close>

lemma redact_config:
  "config_type \<notin> set CONFIG_PASSTHROUGH_TYPES \<Longrightarrow>
     json_pointer [''spec'', ''data'', ''config''] (redact v config_type) = None"
  using json_pointer_modify_below [of "[''spec'', ''data'']" "[''config'']" "json_remove_key ''config''" v]
  by (auto simp: redact_def json_get_remove_key split: bind_splits)

lemma redact_other:
  assumes "k \<noteq> ''config''"
  shows "json_pointer ([''spec'', ''data''] @ k # ks) (redact v t) = json_pointer ([''spec'', ''data''] @ k # ks) v"
  using assms json_pointer_modify_below [of "[''spec'', ''data'']" "k # ks" "json_remove_key ''config''" v]
  by (auto simp: redact_def json_get_remove_key split: bind_splits)

lemma sort_key_sorted_map: "sorted (map f (sort_key f xs))"
  by simp

lemma build_entry_fields [simp]:
  "entry_controller_id (build_entry c k v) = c"
  "entry_namespace (build_entry c k v) = fst (split_key k)"
  "entry_name (build_entry c k v) = snd (split_key k)"
  "entry_config_type (build_entry c k v) = type_label config_type_json v"
  "entry_doc (build_entry c k v) = redact v (type_label config_type_json v)"
  by (simp_all add: build_entry_def Let_def split: prod.splits)

definition type_wanted :: "string option \<Rightarrow> json \<Rightarrow> bool" where
  "type_wanted type_filter v \<longleftrightarrow>
     (case type_filter of None \<Rightarrow> True | Some wanted \<Rightarrow> type_label config_type_json v = wanted)"

lemma mem_list_entries:
  "e \<in> set (list_entries c type_filter st) \<longleftrightarrow>
     (\<exists>k v. (k, v) \<in> set (cs_data st) \<and> type_wanted type_filter v \<and> e = build_entry c k v)"
  by (cases type_filter) (force simp: list_entries_def entries_snapshot_def type_wanted_def)+

lemma mem_list_all:
  assumes "registry_inv r"
  shows "e \<in> set (list_all_entries type_filter r) \<longleftrightarrow>
     (\<exists>c k v. raw_document c k r = Some v \<and> type_wanted type_filter v \<and> e = build_entry c k v)"
proof -
  have caches: "(c, a) \<in> set (wr_caches r) \<longleftrightarrow> map_of (wr_caches r) c = Some a" for c a
    using assms by (simp add: registry_inv_def mem_wf_map)
  have "map_of (wr_caches r) c = Some a \<Longrightarrow>
      (k, v) \<in> set (cs_data (cache_at r a)) \<longleftrightarrow> raw_document c k r = Some v" for c a k v
    using registry_invD(3) [OF assms, of c a]
    by (simp add: raw_document_def get_if_present_def raw_get_def cache_inv_def mem_wf_map)
  moreover have "raw_document c k r = Some v \<Longrightarrow> \<exists>a. map_of (wr_caches r) c = Some a" for c k v
    by (auto simp: raw_document_def get_if_present_def split: bind_splits)
  moreover have "e \<in> set (list_all_entries type_filter r) \<longleftrightarrow>
      (\<exists>c a. map_of (wr_caches r) c = Some a \<and> e \<in> set (list_entries c type_filter (cache_at r a)))"
    unfolding caches [symmetric] by (force simp: list_all_entries_def caches_snapshot_def)
  ultimately show ?thesis
    unfolding mem_list_entries by blast
qed

section \<open>Properties\<close>


definition sample_override :: "string \<Rightarrow> json" where
  "sample_override region =
     JObject [(''metadata'', JObject [(''namespace'', JString ''shop''), (''name'', JString ''eu'')]),
              (''spec'', JObject [(''data'', JObject [(''type'', JString ''RegionRouteOverride''),
                                                    (''config'', JString region)])])]"

lemma sample_override_own_key [simp]: "own_key ''shop/eu'' (sample_override x)"
  by (simp add: own_key_def override_key_def sample_override_def json_get_def)


text \<open>
  When sweeps may drop the Controller too, the store is still sound for it: every row it shows is a
  \<open>RegionRouteOverride\<close> document that this Controller's cache holds under that key.
\<close>

theorem store_rows_are_cached:
  assumes "earlier = [] \<or> resyncs c (last earlier)"
    and "\<forall>opn \<in> set recent. \<not> scrambles c opn"
    and "s = watch_run (earlier @ recent) initial_watch_system"
    and "store_view (ws_store s) c k = Some v"
  shows "is_override v \<and> raw_document c k (ws_registry s) = Some v"
  using watch_run_sound [OF pruned.resync_point [OF assms(1)] assms(2)] assms(3,4)
  by (simp add: coupled_def metadata.sound_def raw_document_cache_of watch_run_append)

lemma store_rows_are_cached_witness:
  "let s = watch_run
       ([ListBatch ''c1'' 1 [(''shop/eu'', sample_override ''east'')] 4 ''srv''] @ [Prune {''c1''}])
       initial_watch_system
   in is_override (sample_override ''east'')
      \<and> raw_document ''c1'' ''shop/eu'' (ws_registry s) = Some (sample_override ''east'')"
  unfolding Let_def
proof (rule store_rows_are_cached [OF _ _ refl])
  show "store_view (ws_store (watch_run
       ([ListBatch ''c1'' 1 [(''shop/eu'', sample_override ''east'')] 4 ''srv''] @ [Prune {''c1''}])
       initial_watch_system)) ''c1'' ''shop/eu'' = Some (sample_override ''east'')"
    by code_simp
qed (simp_all add: MAX_ENTRIES_PER_CONTROLLER_def)

text \<open>
  C20: No secret body leaves through the read model. Every row that \<open>list_all\<close> returns whose type is
  not on the allowlist, a missing or unknown type included, has nothing at \<open>/spec/data/config\<close>.
\<close>

theorem list_all_redacted:
  assumes "registry_inv r" "e \<in> set (list_all_entries type_filter r)"
    and "entry_config_type e \<notin> set CONFIG_PASSTHROUGH_TYPES"
  shows "json_pointer [''spec'', ''data'', ''config''] (entry_doc e) = None"
  using assms by (auto simp: mem_list_all redact_config simp del: json_pointer.simps)

definition sample_secret :: json where
  "sample_secret =
     JObject [(''spec'', JObject [(''data'', JObject [(''type'', JString ''misc''),
                                                   (''config'', JString ''hunter2'')])])]"

definition sample_registry :: CenterWatchCacheRegistry where
  "sample_registry =
     fst (snd (cache_replace_all 0 1 [(''ns/x'', sample_secret)] 2 ''srv''
       (snd (get_or_create ''c1'' new_registry))))"

lemma sample_registry_eq:
  "sample_registry =
     \<lparr>wr_caches = [(''c1'', 0)],
      wr_heap = [(''c1'', \<lparr>cs_data = [(''ns/x'', sample_secret)], cs_sync_version = 2,
        cs_server_id = ''srv'', cs_revision = 1, cs_stale = False, cs_overflowed = False,
        cs_last_applied_unix_ms = Some 1\<rparr>)]\<rparr>"
  by code_simp

lemma sample_registry_inv: "registry_inv sample_registry"
  by (simp add: sample_registry_eq registry_inv_def cache_inv_def MAX_ENTRIES_PER_CONTROLLER_def)

lemma sample_registry_document: "raw_document ''c1'' ''ns/x'' sample_registry = Some sample_secret"
  by (simp add: sample_registry_eq raw_document_def raw_get_def get_if_present_def cache_at_def)

lemma sample_registry_row:
  "build_entry ''c1'' ''ns/x'' sample_secret \<in> set (list_all_entries None sample_registry)"
  unfolding mem_list_all [OF sample_registry_inv] type_wanted_def
  using sample_registry_document by force

lemma list_all_redacted_witness:
  "build_entry ''c1'' ''ns/x'' sample_secret \<in> set (list_all_entries None sample_registry)
   \<and> json_pointer [''spec'', ''data'', ''config'']
       (entry_doc (build_entry ''c1'' ''ns/x'' sample_secret)) = None"
  using sample_registry_row list_all_redacted [OF sample_registry_inv sample_registry_row]
  by (simp add: sample_secret_def type_label_def config_type_json_def json_get_def
      CONFIG_PASSTHROUGH_TYPES_def del: json_pointer.simps(2))
    (simp add: json_get_def)

text \<open>
  Redaction is non-interfering: for a document whose type is not on the allowlist, the row built
  from it is the same whatever body is stored at \<open>/spec/data/config\<close>.
\<close>

theorem redaction_noninterference:
  assumes "type_label config_type_json v \<notin> set CONFIG_PASSTHROUGH_TYPES"
  shows "build_entry c k (json_modify [''spec'', ''data''] (json_insert_key ''config'' secret1) v)
       = build_entry c k (json_modify [''spec'', ''data''] (json_insert_key ''config'' secret2) v)"
proof -
  have type: "config_type_json (json_modify [''spec'', ''data''] (json_insert_key ''config'' x) v) =
      config_type_json v" for x
    using json_pointer_modify_below [of "[''spec'', ''data'']" "[''type'']" "json_insert_key ''config'' x" v]
    by (auto simp: config_type_json_def json_get_insert_key split: bind_splits)
  have "redact (json_modify [''spec'', ''data''] (json_insert_key ''config'' x) v) (type_label config_type_json v) =
      json_modify [''spec'', ''data''] (json_remove_key ''config'') v" for x
    using assms by (simp add: redact_def json_modify_compose o_def json_remove_insert_key)
  with type show ?thesis by (simp add: build_entry_def type_label_def)
qed

lemma redaction_noninterference_witness:
  "build_entry ''c1'' ''ns/x'' (json_modify [''spec'', ''data''] (json_insert_key ''config'' (JString ''pw1'')) sample_secret)
   = build_entry ''c1'' ''ns/x'' (json_modify [''spec'', ''data''] (json_insert_key ''config'' JNull) sample_secret)"
  by (rule redaction_noninterference)
    (simp add: sample_secret_def type_label_def config_type_json_def json_get_def
      CONFIG_PASSTHROUGH_TYPES_def)

text \<open>
  The global listing is complete and ordered. Its rows are exactly the rows of the documents
  some registered cache holds and the type filter admits, each under its Controller, and they are
  sorted by namespace, name and Controller id.
\<close>

theorem list_all_complete_sorted:
  assumes "registry_inv r"
  shows "set (list_all_entries type_filter r) =
           {build_entry c k v | c k v. raw_document c k r = Some v \<and> type_wanted type_filter v}
         \<and> sorted (map (\<lambda>e. (entry_namespace e, entry_name e, entry_controller_id e)) (list_all_entries type_filter r))"
proof
  show "set (list_all_entries type_filter r) =
      {build_entry c k v | c k v. raw_document c k r = Some v \<and> type_wanted type_filter v}"
    unfolding set_eq_iff mem_list_all [OF assms] by blast
qed (simp add: list_all_entries_def)

lemma list_all_complete_sorted_witness:
  "build_entry ''c1'' ''ns/x'' sample_secret \<in> set (list_all_entries None sample_registry)"
  using list_all_complete_sorted [OF sample_registry_inv, of None] sample_registry_document
  by (auto simp: type_wanted_def)

text \<open>
  The condition that no batch names a key twice is needed: a batch that adds an override and
  deletes it again reaches the store as one removal followed by one addition, so the document is gone
  from the cache and its row stays in the store.
\<close>

theorem handler_order_divergence:
  "(let s = watch_run [Open ''c1'',
                       ListBatch ''c1'' 1 [] 4 ''srv'',
                       EventBatch ''c1'' 2
                         [\<lparr>event_type = Add, event_key = ''shop/eu'', event_data = sample_override ''a''\<rparr>,
                          \<lparr>event_type = Delete, event_key = ''shop/eu'', event_data = sample_override ''a''\<rparr>]
                         5 ''srv''] initial_watch_system
    in raw_document ''c1'' ''shop/eu'' (ws_registry s) = None
       \<and> store_view (ws_store s) ''c1'' ''shop/eu'' = Some (sample_override ''a''))"
  by code_simp

end
