(* ===== verification/Watch_Protocol.thy ===== *)
theory Watch_Protocol
  imports Watch_Registry Controller_Core
begin

text \<open>
  The reverse list/watch protocol of one session: \<open>resource_key\<close>, \<open>FedWatchState\<close>, the two response
  handlers and the re-watch step of \<open>crates/center-runtime/src/federation/server.rs\<close>, with the
  messages of \<open>proto/fed_sync.proto\<close>. The handlers work on the session's cache; what they tell the
  override store is returned as the effects of \<open>Watch_Cache\<close>. JSON parsing is \<open>serde_json\<close>'s: the
  functions \<open>parse_list\<close>, \<open>parse_events\<close> and \<open>parse_doc\<close> are arguments, \<open>None\<close> for an error. Fresh
  request ids (\<open>Uuid::new_v4\<close>) and the clock are arguments too. Metric and log calls are left out.
\<close>

section \<open>Messages\<close>

record FedWatchRequest =
  wreq_request_id :: string
  wreq_kind :: string
  wreq_from_version :: u64

record FedWatchListResponse =
  wlist_request_id :: string
  wlist_data :: string
  wlist_sync_version :: u64
  wlist_server_id :: string

record FedWatchEventResponse =
  wevent_request_id :: string
  wevent_data :: string
  wevent_sync_version :: u64
  wevent_server_id :: string
  wevent_error :: string

record HttpProxyRequest =
  hreq_request_id :: string
  hreq_method :: string
  hreq_path :: string
  hreq_headers :: "(string, string) hmap"
  hreq_body :: string

record HttpProxyResponse =
  hresp_request_id :: string
  hresp_status_code :: u32
  hresp_headers :: "(string, string) hmap"
  hresp_body :: string

datatype CenterMessage =
    RegisterAck string
  | Ping u64
  | HttpProxy HttpProxyRequest
  | WatchRequest FedWatchRequest

record WatchEventRaw =
  raw_event_type :: string
  raw_data :: string
  raw_sync_version :: u64

section \<open>Watch state\<close>

definition EDGION_CONFIG_DATA :: string where
  "EDGION_CONFIG_DATA = ''EdgionConfigData''"

record FedWatchState =
  fw_kind :: string
  fw_request_id :: string
  fw_server_id :: "string option"
  fw_consecutive_errors :: u32
  fw_terminated :: bool

datatype WatchOutcome =
    WatchApplied
  | Skipped
  | ParseError
  | ReWatch
  | BackoffReWatch
  | Terminal
  | WatchOverflow

definition new_watch_state :: "string \<Rightarrow> string \<Rightarrow> string option \<Rightarrow> FedWatchState" where
  "new_watch_state kind request_id server_id =
     \<lparr>fw_kind = kind, fw_request_id = request_id, fw_server_id = server_id,
      fw_consecutive_errors = 0, fw_terminated = False\<rparr>"

definition re_watch :: "string \<Rightarrow> FedWatchState \<Rightarrow> CenterMessage \<times> FedWatchState" where
  "re_watch new_id w =
     (WatchRequest \<lparr>wreq_request_id = new_id, wreq_kind = fw_kind w, wreq_from_version = 0\<rparr>,
      w\<lparr>fw_request_id := new_id, fw_consecutive_errors := 0\<rparr>)"

definition terminate :: "FedWatchState \<Rightarrow> FedWatchState" where
  "terminate w = w\<lparr>fw_terminated := True\<rparr>"

definition initial_watch_request :: "string \<Rightarrow> u64 \<Rightarrow> CenterMessage" where
  "initial_watch_request request_id from_version =
     WatchRequest \<lparr>wreq_request_id = request_id, wreq_kind = EDGION_CONFIG_DATA,
                   wreq_from_version = from_version\<rparr>"

definition resource_key :: "json \<Rightarrow> string option" where
  "resource_key v =
     Option.bind (json_get ''metadata'' v) (\<lambda>metadata.
       Option.bind (as_object metadata) (\<lambda>m.
         Option.bind (Option.bind (map_of m ''name'') as_str) (\<lambda>raw_name.
           let name = trim raw_name
           in if name = [] then None
              else Some (case Option.bind (map_of m ''namespace'') as_str of
                           None \<Rightarrow> name
                         | Some namespace \<Rightarrow> namespace @ ''/'' @ name))))"

section \<open>List responses\<close>

record keyed_scan =
  ks_keyed :: "(string \<times> json) list"
  ks_seen :: "string list"
  ks_keyless :: nat
  ks_duplicate :: nat

definition scan_item :: "json \<Rightarrow> keyed_scan \<Rightarrow> keyed_scan" where
  "scan_item item s =
     (case resource_key item of
        None \<Rightarrow> s\<lparr>ks_keyless := ks_keyless s + 1\<rparr>
      | Some key \<Rightarrow>
          s\<lparr>ks_duplicate := (if key \<in> set (ks_seen s) then ks_duplicate s + 1 else ks_duplicate s),
            ks_seen := List.insert key (ks_seen s),
            ks_keyed := ks_keyed s @ [(key, item)]\<rparr>)"

definition scan_items :: "json list \<Rightarrow> keyed_scan" where
  "scan_items items =
     fold scan_item items \<lparr>ks_keyed = [], ks_seen = [], ks_keyless = 0, ks_duplicate = 0\<rparr>"

definition apply_watch_list ::
  "(string \<Rightarrow> json list option) \<Rightarrow> u64 \<Rightarrow> string \<Rightarrow> FedWatchListResponse
     \<Rightarrow> json CacheState \<times> FedWatchState
     \<Rightarrow> WatchOutcome \<times> (json CacheState \<times> FedWatchState) \<times> json effect list" where
  "apply_watch_list parse_list now cid resp = (\<lambda>(cache, w).
     if wlist_request_id resp \<noteq> fw_request_id w then (Skipped, (cache, w), [])
     else if fw_terminated w then (Skipped, (cache, w), [])
     else
       (case parse_list (wlist_data resp) of
          None \<Rightarrow> (ParseError, (cache, w), [])
        | Some items \<Rightarrow>
            let s = scan_items items
            in if 0 < ks_keyless s \<or> 0 < ks_duplicate s then (ParseError, (cache, w), [])
               else
                 (case replace_all config_type_json cid now (ks_keyed s) (wlist_sync_version resp)
                         (wlist_server_id resp) cache of
                    (Overflow, cache', es) \<Rightarrow> (WatchOverflow, (cache', terminate w), es)
                  | (Applied, cache', es) \<Rightarrow>
                      (WatchApplied,
                       (cache', w\<lparr>fw_server_id := Some (wlist_server_id resp),
                                  fw_consecutive_errors := 0\<rparr>), es))))"

section \<open>Event responses\<close>

record event_scan =
  es_events :: "json WatchEventSimple list"
  es_unknown_type :: nat
  es_keyless :: nat
  es_body_error :: nat

definition event_type_of :: "string \<Rightarrow> EventType option" where
  "event_type_of t =
     (if t = ''add'' then Some Add
      else if t = ''update'' then Some Update
      else if t = ''delete'' then Some Delete
      else None)"

definition scan_event :: "(string \<Rightarrow> json option) \<Rightarrow> WatchEventRaw \<Rightarrow> event_scan \<Rightarrow> event_scan" where
  "scan_event parse_doc raw s =
     (case event_type_of (raw_event_type raw) of
        None \<Rightarrow> s\<lparr>es_unknown_type := es_unknown_type s + 1\<rparr>
      | Some ty \<Rightarrow>
          (case parse_doc (raw_data raw) of
             None \<Rightarrow> s\<lparr>es_body_error := es_body_error s + 1\<rparr>
           | Some item \<Rightarrow>
               (case resource_key item of
                  None \<Rightarrow> s\<lparr>es_keyless := es_keyless s + 1\<rparr>
                | Some key \<Rightarrow>
                    s\<lparr>es_events := es_events s @
                        [\<lparr>event_type = ty, event_key = key, event_data = item\<rparr>]\<rparr>)))"

definition scan_events :: "(string \<Rightarrow> json option) \<Rightarrow> WatchEventRaw list \<Rightarrow> event_scan" where
  "scan_events parse_doc raws =
     fold (scan_event parse_doc) raws
       \<lparr>es_events = [], es_unknown_type = 0, es_keyless = 0, es_body_error = 0\<rparr>"

definition apply_watch_event ::
  "(string \<Rightarrow> WatchEventRaw list option) \<Rightarrow> (string \<Rightarrow> json option) \<Rightarrow> u64 \<Rightarrow> string
     \<Rightarrow> FedWatchEventResponse \<Rightarrow> json CacheState \<times> FedWatchState
     \<Rightarrow> WatchOutcome \<times> (json CacheState \<times> FedWatchState) \<times> json effect list" where
  "apply_watch_event parse_events parse_doc now cid resp = (\<lambda>(cache, w).
     if wevent_request_id resp \<noteq> fw_request_id w then (Skipped, (cache, w), [])
     else if fw_terminated w then (Skipped, (cache, w), [])
     else if wevent_error resp \<noteq> [] then
       (if wevent_error resp = ''Forbidden'' then (Terminal, (set_stale cache, terminate w), [])
        else (BackoffReWatch,
              (cache, w\<lparr>fw_consecutive_errors := fw_consecutive_errors w + 1\<rparr>), []))
     else if (case fw_server_id w of
                None \<Rightarrow> False
              | Some expected_sid \<Rightarrow> expected_sid \<noteq> wevent_server_id resp)
     then (ReWatch, (cache, w), [])
     else
       (case parse_events (wevent_data resp) of
          None \<Rightarrow> (ParseError, (cache, w), [])
        | Some raws \<Rightarrow>
            let s = scan_events parse_doc raws;
                w' = w\<lparr>fw_server_id := Some (wevent_server_id resp), fw_consecutive_errors := 0\<rparr>
            in if 0 < es_unknown_type s \<or> 0 < es_keyless s \<or> 0 < es_body_error s
               then (ParseError, (cache, w), [])
               else if 0 < cs_sync_version cache \<and> wevent_sync_version resp \<le> cs_sync_version cache
               then (ReWatch, (cache, w), [])
               else if es_events s = [] then (WatchApplied, (cache, w'), [])
               else
                 (case apply_events config_type_json cid now (es_events s) (wevent_sync_version resp)
                         (wevent_server_id resp) cache of
                    (Overflow, cache', es) \<Rightarrow> (WatchOverflow, (cache', terminate w), es)
                  | (Applied, cache', es) \<Rightarrow> (WatchApplied, (cache', w'), es))))"

text \<open>
  The backoff: \<open>closed\<close> says that the session was cancelled or its channel closed during the three
  seconds. The result is whether the message loop stops, the new state, and the message sent.
\<close>

definition backoff_then_rewatch ::
  "bool \<Rightarrow> string \<Rightarrow> FedWatchState \<Rightarrow> bool \<times> FedWatchState \<times> CenterMessage list" where
  "backoff_then_rewatch closed new_id w =
     (if closed then (True, w, [])
      else let (msg, w') = re_watch new_id w in (False, w', [msg]))"

text \<open>The watch arms of the message loop: what is sent, and whether the loop stops.\<close>

definition after_list_outcome ::
  "bool \<Rightarrow> string \<Rightarrow> WatchOutcome \<Rightarrow> FedWatchState \<Rightarrow> bool \<times> FedWatchState \<times> CenterMessage list" where
  "after_list_outcome closed new_id outcome w =
     (case outcome of
        ParseError \<Rightarrow> backoff_then_rewatch closed new_id w
      | _ \<Rightarrow> (False, w, []))"

definition after_event_outcome ::
  "bool \<Rightarrow> string \<Rightarrow> WatchOutcome \<Rightarrow> FedWatchState \<Rightarrow> bool \<times> FedWatchState \<times> CenterMessage list" where
  "after_event_outcome closed new_id outcome w =
     (case outcome of
        BackoffReWatch \<Rightarrow> backoff_then_rewatch closed new_id w
      | ParseError \<Rightarrow> backoff_then_rewatch closed new_id w
      | ReWatch \<Rightarrow> (let (msg, w') = re_watch new_id w in (False, w', [msg]))
      | _ \<Rightarrow> (False, w, []))"

section \<open>Sessions\<close>

text \<open>
  One watch frame: the handler and then the arm of the loop. \<open>closed\<close> and \<open>new_id\<close> are what the
  backoff and the id generator give at that point.
\<close>

datatype watch_frame =
    ListFrame u64 FedWatchListResponse bool string
  | EventFrame u64 FedWatchEventResponse bool string

record watch_parsers =
  parse_list :: "string \<Rightarrow> json list option"
  parse_events :: "string \<Rightarrow> WatchEventRaw list option"
  parse_doc :: "string \<Rightarrow> json option"

fun on_watch_frame ::
  "watch_parsers \<Rightarrow> string \<Rightarrow> watch_frame \<Rightarrow> json CacheState \<times> FedWatchState
     \<Rightarrow> WatchOutcome \<times> bool \<times> (json CacheState \<times> FedWatchState) \<times> json effect list \<times> CenterMessage list" where
  "on_watch_frame p cid (ListFrame now resp closed new_id) st =
     (let (outcome, (cache, w), es) = apply_watch_list (parse_list p) now cid resp st;
          (stop, w', msgs) = after_list_outcome closed new_id outcome w
      in (outcome, stop, (cache, w'), es, msgs))"
| "on_watch_frame p cid (EventFrame now resp closed new_id) st =
     (let (outcome, (cache, w), es) = apply_watch_event (parse_events p) (parse_doc p) now cid resp st;
          (stop, w', msgs) = after_event_outcome closed new_id outcome w
      in (outcome, stop, (cache, w'), es, msgs))"

text \<open>The frames of a session until it stops, with all messages sent.\<close>

fun watch_session ::
  "watch_parsers \<Rightarrow> string \<Rightarrow> watch_frame list \<Rightarrow> json CacheState \<times> FedWatchState
     \<Rightarrow> (json CacheState \<times> FedWatchState) \<times> CenterMessage list" where
  "watch_session p cid [] st = (st, [])"
| "watch_session p cid (f # fs) st =
     (let (_, stop, st', _, msgs) = on_watch_frame p cid f st
      in if stop then (st', msgs)
         else let (st'', msgs') = watch_session p cid fs st' in (st'', msgs @ msgs'))"

text \<open>Every cached document sits under the key its metadata gives.\<close>

definition keyed_cache :: "json CacheState \<Rightarrow> bool" where
  "keyed_cache cache \<longleftrightarrow> (\<forall>k v. map_of (cs_data cache) k = Some v \<longrightarrow> resource_key v = Some k)"

section \<open>Lemmas\<close>

definition all_keyed :: "json list \<Rightarrow> bool" where
  "all_keyed items \<longleftrightarrow> (\<forall>v \<in> set items. resource_key v \<noteq> None)"

lemma scan_items_fold:
  "let s' = fold scan_item items s; keys = List.map_filter resource_key items
   in ks_keyed s' = ks_keyed s @ List.map_filter (\<lambda>v. map_option (\<lambda>k. (k, v)) (resource_key v)) items
      \<and> set (ks_seen s') = set (ks_seen s) \<union> set keys
      \<and> (ks_keyless s' = 0 \<longleftrightarrow> ks_keyless s = 0 \<and> all_keyed items)
      \<and> (ks_duplicate s' = 0 \<longleftrightarrow>
           ks_duplicate s = 0 \<and> distinct keys \<and> set keys \<inter> set (ks_seen s) = {})"
proof (induction items arbitrary: s)
  case Nil
  then show ?case by (simp add: List.map_filter_def all_keyed_def)
next
  case (Cons v items)
  show ?case
  proof (cases "resource_key v")
    case None
    with Cons.IH [of "scan_item v s"] show ?thesis
      by (auto simp: Let_def scan_item_def List.map_filter_def all_keyed_def)
  next
    case (Some k)
    with Cons.IH [of "scan_item v s"] show ?thesis
      by (auto simp: Let_def scan_item_def List.map_filter_def all_keyed_def)
  qed
qed

definition with_keys :: "json list \<Rightarrow> (string \<times> json) list" where
  "with_keys items = map (\<lambda>v. (the (resource_key v), v)) items"

lemma scan_items_ok:
  "ks_keyless (scan_items items) = 0 \<and> ks_duplicate (scan_items items) = 0 \<longleftrightarrow>
     all_keyed items \<and> distinct (map fst (with_keys items))"
proof -
  have "List.map_filter resource_key items = map fst (with_keys items)" if "all_keyed items"
    using that by (induction items) (auto simp: all_keyed_def with_keys_def List.map_filter_def)
  then show ?thesis
    using scan_items_fold [of items "\<lparr>ks_keyed = [], ks_seen = [], ks_keyless = 0, ks_duplicate = 0\<rparr>"]
    by (auto simp: scan_items_def Let_def)
qed

lemma scan_items_keyed: "all_keyed items \<Longrightarrow> ks_keyed (scan_items items) = with_keys items"
proof -
  assume "all_keyed items"
  then have "List.map_filter (\<lambda>v. map_option (\<lambda>k. (k, v)) (resource_key v)) items = with_keys items"
    by (induction items) (auto simp: all_keyed_def with_keys_def List.map_filter_def)
  then show ?thesis
    using scan_items_fold [of items "\<lparr>ks_keyed = [], ks_seen = [], ks_keyless = 0, ks_duplicate = 0\<rparr>"]
    by (simp add: scan_items_def Let_def)
qed

text \<open>Which raw batches pass the scan, and what they become.\<close>

definition decode_event :: "(string \<Rightarrow> json option) \<Rightarrow> WatchEventRaw \<Rightarrow> json WatchEventSimple option" where
  "decode_event pd raw =
     Option.bind (event_type_of (raw_event_type raw)) (\<lambda>ty.
       Option.bind (pd (raw_data raw)) (\<lambda>item.
         map_option (\<lambda>k. \<lparr>event_type = ty, event_key = k, event_data = item\<rparr>) (resource_key item)))"

lemma scan_events_fold:
  "es_events (fold (scan_event pd) raws s) = es_events s @ List.map_filter (decode_event pd) raws"
  by (induction raws arbitrary: s)
    (auto simp: scan_event_def decode_event_def List.map_filter_def split: option.splits)

text \<open>The shape of a list response's result.\<close>

lemma watch_list_cases:
  assumes "apply_watch_list pl now cid resp (cache, w) = (outcome, (cache', w'), es)"
  obtains (skip) "outcome = Skipped" "cache' = cache" "w' = w" "es = []"
      "wlist_request_id resp \<noteq> fw_request_id w \<or> fw_terminated w"
  | (parse) "outcome = ParseError" "cache' = cache" "w' = w" "es = []" "\<not> fw_terminated w"
      "\<forall>items. pl (wlist_data resp) = Some items \<longrightarrow> \<not> (all_keyed items \<and> wf_map (with_keys items))"
  | (batch) items res where "pl (wlist_data resp) = Some items" "all_keyed items" "wf_map (with_keys items)"
      "wlist_request_id resp = fw_request_id w" "\<not> fw_terminated w"
      "replace_all config_type_json cid now (with_keys items) (wlist_sync_version resp)
         (wlist_server_id resp) cache = (res, cache', es)"
      "res = Applied \<Longrightarrow> outcome = WatchApplied \<and>
         w' = w\<lparr>fw_server_id := Some (wlist_server_id resp), fw_consecutive_errors := 0\<rparr>"
      "res = Overflow \<Longrightarrow> outcome = WatchOverflow \<and> w' = terminate w"
proof (cases "wlist_request_id resp \<noteq> fw_request_id w \<or> fw_terminated w")
  case True
  with assms skip show ?thesis by (auto simp: apply_watch_list_def split: if_splits)
next
  case live: False
  show ?thesis
  proof (cases "pl (wlist_data resp)")
    case None
    with live assms parse show ?thesis by (simp add: apply_watch_list_def)
  next
    case (Some items)
    show ?thesis
    proof (cases "all_keyed items \<and> wf_map (with_keys items)")
      case False
      then have "0 < ks_keyless (scan_items items) \<or> 0 < ks_duplicate (scan_items items)"
        using scan_items_ok [of items] by auto
      with live Some False assms parse show ?thesis by (auto simp: apply_watch_list_def Let_def)
    next
      case True
      then have "ks_keyless (scan_items items) = 0" "ks_duplicate (scan_items items) = 0"
        "ks_keyed (scan_items items) = with_keys items"
        using scan_items_ok [of items] scan_items_keyed by auto
      with live Some True assms batch show ?thesis
        by (auto simp: apply_watch_list_def Let_def split: prod.splits ApplyResult.splits)
    qed
  qed
qed

definition clean_scan :: "event_scan \<Rightarrow> bool" where
  "clean_scan s \<longleftrightarrow> es_unknown_type s = 0 \<and> es_keyless s = 0 \<and> es_body_error s = 0"

lemma clean_scan_event: "clean_scan (scan_event pd raw s) \<longleftrightarrow> clean_scan s \<and> decode_event pd raw \<noteq> None"
  by (cases "event_type_of (raw_event_type raw)"; cases "pd (raw_data raw)"; cases "resource_key (the (pd (raw_data raw)))")
    (simp_all add: clean_scan_def scan_event_def decode_event_def)

lemma clean_scan_fold:
  "clean_scan (fold (scan_event pd) raws s) \<longleftrightarrow> clean_scan s \<and> (\<forall>raw \<in> set raws. decode_event pd raw \<noteq> None)"
  by (induction raws arbitrary: s) (simp_all add: clean_scan_event)

lemma scan_events_decode:
  assumes "\<forall>raw \<in> set raws. decode_event pd raw \<noteq> None"
  shows "es_events (scan_events pd raws) = map (\<lambda>raw. the (decode_event pd raw)) raws"
proof -
  have "List.map_filter (decode_event pd) raws = map (\<lambda>raw. the (decode_event pd raw)) raws"
    using assms by (induction raws) (auto simp: List.map_filter_def)
  then show ?thesis by (simp add: scan_events_def scan_events_fold)
qed

lemma decode_event_keyed:
  "decode_event pd raw = Some e \<Longrightarrow> resource_key (event_data e) = Some (event_key e)"
  by (auto simp: decode_event_def split: bind_splits)

lemma scan_events_ok:
  "0 < es_unknown_type (scan_events pd raws) \<or> 0 < es_keyless (scan_events pd raws)
     \<or> 0 < es_body_error (scan_events pd raws) \<longleftrightarrow> \<not> (\<forall>raw \<in> set raws. decode_event pd raw \<noteq> None)"
proof -
  have "clean_scan (scan_events pd raws) \<longleftrightarrow> (\<forall>raw \<in> set raws. decode_event pd raw \<noteq> None)"
    unfolding scan_events_def clean_scan_fold by (simp add: clean_scan_def)
  then show ?thesis unfolding clean_scan_def by (simp only: neq0_conv [symmetric] de_Morgan_conj [symmetric])
qed

lemma watch_event_cases:
  assumes "apply_watch_event pe pd now cid resp (cache, w) = (outcome, (cache', w'), es)"
  obtains (skip) "outcome = Skipped" "cache' = cache" "w' = w" "es = []"
  | (forbidden) "outcome = Terminal" "cache' = set_stale cache" "w' = terminate w" "es = []"
  | (backoff) "outcome = BackoffReWatch" "cache' = cache" "es = []" "\<not> fw_terminated w"
      "w' = w\<lparr>fw_consecutive_errors := fw_consecutive_errors w + 1\<rparr>"
  | (resync) "outcome = ReWatch \<or> outcome = ParseError" "cache' = cache" "w' = w" "es = []" "\<not> fw_terminated w"
  | (nothing) "outcome = WatchApplied" "cache' = cache" "es = []"
      "w' = w\<lparr>fw_server_id := Some (wevent_server_id resp), fw_consecutive_errors := 0\<rparr>" "\<not> fw_terminated w"
  | (batch) raws res where "pe (wevent_data resp) = Some raws"
      "\<forall>raw \<in> set raws. decode_event pd raw \<noteq> None"
      "wevent_request_id resp = fw_request_id w" "\<not> fw_terminated w" "wevent_error resp = []"
      "cs_sync_version cache = 0 \<or> cs_sync_version cache < wevent_sync_version resp"
      "apply_events config_type_json cid now (map (\<lambda>raw. the (decode_event pd raw)) raws)
         (wevent_sync_version resp) (wevent_server_id resp) cache = (res, cache', es)"
      "res = Applied \<Longrightarrow> outcome = WatchApplied \<and>
         w' = w\<lparr>fw_server_id := Some (wevent_server_id resp), fw_consecutive_errors := 0\<rparr>"
      "res = Overflow \<Longrightarrow> outcome = WatchOverflow \<and> w' = terminate w"
proof (cases "wevent_request_id resp \<noteq> fw_request_id w \<or> fw_terminated w")
  case True
  with assms skip show ?thesis by (auto simp: apply_watch_event_def split: if_splits)
next
  case live: False
  show ?thesis
  proof (cases "wevent_error resp = []")
    case False
    with live assms forbidden backoff show ?thesis
      by (auto simp: apply_watch_event_def split: if_splits)
  next
    case noerr: True
    show ?thesis
    proof (cases "(case fw_server_id w of None \<Rightarrow> False | Some sid \<Rightarrow> sid \<noteq> wevent_server_id resp)
        \<or> pe (wevent_data resp) = None")
      case True
      with live noerr assms resync show ?thesis
        by (auto simp: apply_watch_event_def split: if_splits option.splits)
    next
      case False
      then obtain raws where raws: "pe (wevent_data resp) = Some raws" by auto
      have sid: "(case fw_server_id w of None \<Rightarrow> False | Some sid \<Rightarrow> sid \<noteq> wevent_server_id resp) = False"
        using False by blast
      show ?thesis
      proof (cases "(\<forall>raw \<in> set raws. decode_event pd raw \<noteq> None) \<and>
          \<not> (0 < cs_sync_version cache \<and> wevent_sync_version resp \<le> cs_sync_version cache)")
        case bad: False
        show ?thesis
        proof (cases "\<forall>raw \<in> set raws. decode_event pd raw \<noteq> None")
          case True
          with bad have "(0 < cs_sync_version cache \<and> wevent_sync_version resp \<le> cs_sync_version cache) = True"
            by blast
          moreover have "(0 < es_unknown_type (scan_events pd raws) \<or> 0 < es_keyless (scan_events pd raws)
              \<or> 0 < es_body_error (scan_events pd raws)) = False"
            using True scan_events_ok [of pd raws] by blast
          ultimately have "(outcome, (cache', w'), es) = (ReWatch, (cache, w), [])"
            using assms live noerr raws sid by (simp only: apply_watch_event_def Let_def split if_False if_True
              option.case de_Morgan_disj not_not simp_thms)
          with live resync show ?thesis by simp
        next
          case False
          then have "(0 < es_unknown_type (scan_events pd raws) \<or> 0 < es_keyless (scan_events pd raws)
              \<or> 0 < es_body_error (scan_events pd raws)) = True"
            unfolding scan_events_ok by simp
          then have "(outcome, (cache', w'), es) = (ParseError, (cache, w), [])"
            using assms live noerr raws sid by (simp only: apply_watch_event_def Let_def split if_False if_True
              option.case de_Morgan_disj not_not simp_thms)
          with live resync show ?thesis by simp
        qed
      next
        case ok: True
        then have scan: "(0 < es_unknown_type (scan_events pd raws) \<or> 0 < es_keyless (scan_events pd raws)
            \<or> 0 < es_body_error (scan_events pd raws)) = False"
          using scan_events_ok [of pd raws] by blast
        have ver: "cs_sync_version cache = 0 \<or> cs_sync_version cache < wevent_sync_version resp"
          using ok by (metis not_le word_gt_0)
        have ver': "(0 < cs_sync_version cache \<and> wevent_sync_version resp \<le> cs_sync_version cache) = False"
          using ok by blast
        note dec = scan_events_decode [OF conjunct1 [OF ok]]
        show ?thesis
        proof (cases "raws = []")
          case True
          show ?thesis
            by (rule nothing) (use True assms live noerr raws sid scan dec in
              \<open>auto simp: apply_watch_event_def Let_def ver' simp del: not_gr_zero\<close>)
        next
          case False
          obtain res c2 es2 where ae: "apply_events config_type_json cid now
              (map (\<lambda>raw. the (decode_event pd raw)) raws) (wevent_sync_version resp)
              (wevent_server_id resp) cache = (res, c2, es2)" by (rule prod_cases3)
          from False dec have "(es_events (scan_events pd raws) = []) = False" by simp
          with assms live noerr raws sid scan dec ae have
            "(outcome, (cache', w'), es) = (case res of
               Overflow \<Rightarrow> (WatchOverflow, (c2, terminate w), es2)
             | Applied \<Rightarrow> (WatchApplied, (c2, w\<lparr>fw_server_id := Some (wevent_server_id resp),
                 fw_consecutive_errors := 0\<rparr>), es2))"
            by (simp add: apply_watch_event_def Let_def ver' del: not_gr_zero split: ApplyResult.splits)
          with batch [OF raws conjunct1 [OF ok] _ _ noerr ver, of res] ae live show ?thesis
            by (cases res) auto
        qed
      qed
    qed
  qed
qed

subsection \<open>Invariants\<close>

lemma fold_event_spec_keyed:
  assumes "\<forall>k v. m k = Some v \<longrightarrow> resource_key v = Some k"
    and "\<forall>e \<in> set events. resource_key (event_data e) = Some (event_key e)"
  shows "\<forall>k v. fold event_spec events m k = Some v \<longrightarrow> resource_key v = Some k"
  using assms
proof (induction events arbitrary: m)
  case (Cons e events)
  have "resource_key v = Some k" if "event_spec e m k = Some v" for k v
    using Cons.prems that by (cases "event_type e"; cases "k = event_key e") (simp_all add: event_spec.simps)
  with Cons.IH [of "event_spec e m"] Cons.prems(2) show ?case by simp
qed simp

lemma apply_events_contents:
  assumes "cache_inv st" "apply_events ct c now events sv sid st = (Applied, st', es)"
  shows "map_of (cs_data st') = fold event_spec events (map_of (cs_data st))"
  using assms
  by (auto simp: apply_events_def Let_def commit_batch_def fold_apply_event_data start_batch_def
      split: if_splits)

lemma watch_list_keyed:
  assumes "keyed_cache cache" "apply_watch_list pl now cid resp (cache, w) = (outcome, (cache', w'), es)"
  shows "keyed_cache cache'"
  using assms(2)
proof (cases rule: watch_list_cases)
  case (batch items res)
  have keys: "resource_key v = Some k" if "(k, v) \<in> set (with_keys items)" for k v
    using that batch(2) by (auto simp: with_keys_def all_keyed_def)
  show ?thesis
  proof (cases res)
    case Applied
    with batch(6) have "map_of (cs_data cache') = map_of (rev (with_keys items))"
      by (auto simp: replace_all_def Let_def commit_batch_def map_of_collect split: if_splits)
    then show ?thesis using keys by (auto simp: keyed_cache_def dest!: map_of_SomeD)
  next
    case Overflow
    with batch(6) assms(1) show ?thesis
      by (auto simp: replace_all_def Let_def reject_overflow_def keyed_cache_def split: if_splits)
  qed
qed (use assms(1) in simp_all)

lemma watch_event_keyed:
  assumes "keyed_cache cache" "cache_inv cache"
    and "apply_watch_event pe pd now cid resp (cache, w) = (outcome, (cache', w'), es)"
  shows "keyed_cache cache'"
  using assms(3)
proof (cases rule: watch_event_cases)
  case forbidden
  with assms(1) show ?thesis by (simp add: keyed_cache_def set_stale_def)
next
  case (batch raws res)
  have keys: "\<forall>e \<in> set (map (\<lambda>raw. the (decode_event pd raw)) raws).
      resource_key (event_data e) = Some (event_key e)"
    using batch(2) by (force dest: decode_event_keyed)
  show ?thesis
  proof (cases res)
    case Applied
    with apply_events_contents [OF assms(2)] batch(7)
    have "map_of (cs_data cache') =
        fold event_spec (map (\<lambda>raw. the (decode_event pd raw)) raws) (map_of (cs_data cache))" by blast
    with fold_event_spec_keyed [OF assms(1) [unfolded keyed_cache_def] keys] show ?thesis
      by (simp add: keyed_cache_def)
  next
    case Overflow
    with batch(7) assms(1) show ?thesis
      by (auto simp: apply_events_def Let_def reject_overflow_def keyed_cache_def split: if_splits)
  qed
qed (use assms(1) in simp_all)

lemma watch_list_inv:
  "cache_inv cache \<Longrightarrow> apply_watch_list pl now cid resp (cache, w) = (outcome, (cache', w'), es) \<Longrightarrow>
     cache_inv cache'"
  by (erule watch_list_cases) (auto intro: replace_all_inv)

lemma watch_event_inv:
  "cache_inv cache \<Longrightarrow> apply_watch_event pe pd now cid resp (cache, w) = (outcome, (cache', w'), es) \<Longrightarrow>
     cache_inv cache'"
  by (erule watch_event_cases) (auto intro: apply_events_inv set_stale_inv)

lemma on_watch_frame_cache:
  assumes "on_watch_frame p cid f (cache, w) = (outcome, stop, (cache', w'), es, msgs)"
  obtains now resp w2 where "apply_watch_list (parse_list p) now cid resp (cache, w) = (outcome, (cache', w2), es)"
  | now resp w2 where
      "apply_watch_event (parse_events p) (parse_doc p) now cid resp (cache, w) = (outcome, (cache', w2), es)"
  using assms by (cases f) (auto split: prod.splits)

lemma on_watch_frame_inv:
  assumes "cache_inv cache" "keyed_cache cache"
    and "on_watch_frame p cid f (cache, w) = (outcome, stop, (cache', w'), es, msgs)"
  shows "cache_inv cache' \<and> keyed_cache cache'"
  using assms(3)
  by (rule on_watch_frame_cache)
    (auto intro: watch_list_inv [OF assms(1)] watch_event_inv [OF assms(1)]
      watch_list_keyed [OF assms(2)] watch_event_keyed [OF assms(2,1)])

lemma watch_session_inv:
  "cache_inv (fst st) \<Longrightarrow> keyed_cache (fst st) \<Longrightarrow>
     cache_inv (fst (fst (watch_session p cid fs st))) \<and> keyed_cache (fst (fst (watch_session p cid fs st)))"
proof (induction fs arbitrary: st)
  case (Cons f fs)
  obtain cache w where st: "st = (cache, w)" by fastforce
  obtain outcome stop cache' w' es msgs where
    f: "on_watch_frame p cid f (cache, w) = (outcome, stop, (cache', w'), es, msgs)"
    by (metis prod_cases5 surj_pair)
  from on_watch_frame_inv [OF _ _ f] Cons.prems st have "cache_inv cache' \<and> keyed_cache cache'" by simp
  with Cons.IH [of "(cache', w')"] show ?case by (simp add: st f split: prod.splits) force
qed simp

lemma new_cache_keyed: "keyed_cache new_cache"
  by (simp add: keyed_cache_def new_cache_def)

section \<open>Properties\<close>

text \<open>
  A list response is applied whole or not at all. It is applied exactly when it answers the
  current request of a watch that is not terminated, its body parses, every document has a key, no
  key repeats, and it fits; then the cache holds precisely the listed documents under their keys, at
  the version and server id of the response. An oversized list terminates the watch and leaves the
  contents and the version alone; any other response changes nothing at all.
\<close>

theorem watch_list_atomic:
  assumes "cache_inv cache"
    and "apply_watch_list pl now cid resp (cache, w) = (outcome, (cache', w'), es)"
  shows "(outcome = WatchApplied \<longleftrightarrow>
            wlist_request_id resp = fw_request_id w \<and> \<not> fw_terminated w
            \<and> (\<exists>items. pl (wlist_data resp) = Some items \<and> all_keyed items
                 \<and> distinct (map resource_key items) \<and> length items \<le> MAX_ENTRIES_PER_CONTROLLER))
    \<and> (outcome = WatchApplied \<longrightarrow>
         cs_sync_version cache' = wlist_sync_version resp \<and> cs_server_id cache' = wlist_server_id resp
         \<and> (\<forall>k v. map_of (cs_data cache') k = Some v \<longleftrightarrow>
              v \<in> set (the (pl (wlist_data resp))) \<and> resource_key v = Some k))
    \<and> (outcome = WatchOverflow \<longrightarrow> rejected_from cache cache' \<and> fw_terminated w' \<and> es = [])
    \<and> (outcome \<noteq> WatchApplied \<and> outcome \<noteq> WatchOverflow \<longrightarrow> cache' = cache \<and> w' = w \<and> es = [])"
proof -
  have keys: "distinct (map resource_key items) \<longleftrightarrow> wf_map (with_keys items)" if "all_keyed items" for items
  proof -
    have "map resource_key items = map Some (map fst (with_keys items))"
      using that by (auto simp: with_keys_def all_keyed_def)
    then show ?thesis by (simp only: distinct_map) auto
  qed
  from assms(2) show ?thesis
  proof (cases rule: watch_list_cases)
    case skip
    then show ?thesis by auto
  next
    case parse
    with keys show ?thesis by auto
  next
    case (batch items res)
    have len: "length (with_keys items) = length items" by (simp add: with_keys_def)
    have mem: "map_of (rev (with_keys items)) k = Some v \<longleftrightarrow> v \<in> set items \<and> resource_key v = Some k" for k v
    proof -
      have "map_of (rev (with_keys items)) k = Some v \<longleftrightarrow> (k, v) \<in> set (with_keys items)"
        using batch(3) by (simp add: map_of_rev_distinct mem_wf_map)
      then show ?thesis using batch(2) by (force simp: with_keys_def all_keyed_def)
    qed
    show ?thesis
    proof (cases res)
      case Applied
      with batch have "length items \<le> MAX_ENTRIES_PER_CONTROLLER"
        "cs_sync_version cache' = wlist_sync_version resp" "cs_server_id cache' = wlist_server_id resp"
        "map_of (cs_data cache') = map_of (rev (with_keys items))"
        by (auto simp: replace_all_def Let_def commit_batch_def map_of_collect len split: if_splits)
      with Applied batch keys mem show ?thesis by auto
    next
      case Overflow
      with batch have "MAX_ENTRIES_PER_CONTROLLER < length items" "rejected_from cache cache' \<and> es = []"
        by (auto simp: replace_all_def Let_def rejected_from_reject len split: if_splits)
      with Overflow batch show ?thesis by (auto simp: terminate_def)
    qed
  qed
qed

definition sample_doc :: json where
  "sample_doc = JObject [(''metadata'', JObject [(''namespace'', JString ''shop''), (''name'', JString ''eu'')])]"

lemma trim_eu: "trim ''eu'' = ''eu''"
  by code_simp

lemma sample_doc_key: "resource_key sample_doc = Some ''shop/eu''"
  by (simp add: resource_key_def sample_doc_def json_get_def trim_eu)

definition sample_watch :: FedWatchState where
  "sample_watch = new_watch_state EDGION_CONFIG_DATA ''r1'' None"

lemma watch_list_atomic_witness:
  "\<exists>cache' w' es. apply_watch_list (\<lambda>_. Some [sample_doc]) 5 ''c1''
       \<lparr>wlist_request_id = ''r1'', wlist_data = ''body'', wlist_sync_version = 9, wlist_server_id = ''srv''\<rparr>
       (new_cache, sample_watch) = (WatchApplied, (cache', w'), es)
     \<and> map_of (cs_data cache') ''shop/eu'' = Some sample_doc \<and> cs_sync_version cache' = 9"
proof -
  let ?resp = "\<lparr>wlist_request_id = ''r1'', wlist_data = ''body'', wlist_sync_version = 9, wlist_server_id = ''srv''\<rparr>"
  obtain outcome cache' w' es where
    eq: "apply_watch_list (\<lambda>_. Some [sample_doc]) 5 ''c1'' ?resp (new_cache, sample_watch) = (outcome, (cache', w'), es)"
    by (metis prod_cases4 surj_pair)
  from watch_list_atomic [OF new_cache_inv eq] have "outcome = WatchApplied"
    by (simp add: sample_watch_def new_watch_state_def all_keyed_def sample_doc_key
        MAX_ENTRIES_PER_CONTROLLER_def)
  moreover from this watch_list_atomic [OF new_cache_inv eq]
  have "map_of (cs_data cache') ''shop/eu'' = Some sample_doc \<and> cs_sync_version cache' = 9"
    by (simp add: sample_doc_key)
  ultimately show ?thesis using eq by blast
qed

text \<open>
  C24: An event response is applied whole, in order and only forward. When it is applied it answers
  the current request, carries no error, names only known event types and keyed documents, and its
  version is above the cache's, unless the cache has none yet; a non-empty batch then replays its
  events on the contents and moves the cache to the response's version. In every other case, and
  for an empty batch, contents, version and revision stay as they are and nobody is notified.
\<close>

theorem watch_event_atomic:
  assumes "cache_inv cache"
    and "apply_watch_event pe pd now cid resp (cache, w) = (outcome, (cache', w'), es)"
  shows "(cs_data cache' = cs_data cache \<and> cs_sync_version cache' = cs_sync_version cache
            \<and> cs_revision cache' = cs_revision cache \<and> es = [])
       \<or> (\<exists>raws. outcome = WatchApplied \<and> wevent_request_id resp = fw_request_id w \<and> \<not> fw_terminated w
            \<and> wevent_error resp = [] \<and> pe (wevent_data resp) = Some raws
            \<and> (\<forall>raw \<in> set raws. decode_event pd raw \<noteq> None)
            \<and> (cs_sync_version cache = 0 \<or> cs_sync_version cache < wevent_sync_version resp)
            \<and> map_of (cs_data cache') =
                 fold event_spec (map (\<lambda>raw. the (decode_event pd raw)) raws) (map_of (cs_data cache))
            \<and> cs_sync_version cache' = wevent_sync_version resp
            \<and> cs_revision cache' = cs_revision cache + 1
            \<and> fw_server_id w' = Some (wevent_server_id resp))"
  using assms(2)
proof (cases rule: watch_event_cases)
  case (batch raws res)
  show ?thesis
  proof (cases res)
    case Applied
    with apply_events_contents [OF assms(1)] batch(7)
    have "map_of (cs_data cache') =
        fold event_spec (map (\<lambda>raw. the (decode_event pd raw)) raws) (map_of (cs_data cache))" by blast
    moreover from Applied batch(7) have "cs_sync_version cache' = wevent_sync_version resp"
      "cs_revision cache' = cs_revision cache + 1"
      by (auto simp: apply_events_def Let_def commit_batch_def split: if_splits)
    ultimately show ?thesis using batch Applied by (intro disjI2 exI [of _ raws]) simp
  next
    case Overflow
    with batch(7) show ?thesis
      by (auto simp: apply_events_def Let_def reject_overflow_def split: if_splits)
  qed
qed (simp_all add: set_stale_def)

definition sample_raw :: WatchEventRaw where
  "sample_raw = \<lparr>raw_event_type = ''add'', raw_data = ''doc'', raw_sync_version = 3\<rparr>"

lemma watch_event_atomic_witness:
  "\<exists>outcome cache' w' es. apply_watch_event (\<lambda>_. Some [sample_raw]) (\<lambda>_. Some sample_doc) 5 ''c1''
       \<lparr>wevent_request_id = ''r1'', wevent_data = ''body'', wevent_sync_version = 9,
        wevent_server_id = ''srv'', wevent_error = []\<rparr>
       (new_cache, sample_watch) = (outcome, (cache', w'), es)
     \<and> outcome = WatchApplied \<and> map_of (cs_data cache') = [''shop/eu'' \<mapsto> sample_doc]"
proof -
  let ?resp = "\<lparr>wevent_request_id = ''r1'', wevent_data = ''body'', wevent_sync_version = 9,
        wevent_server_id = ''srv'', wevent_error = []\<rparr>"
  obtain outcome cache' w' es where
    eq: "apply_watch_event (\<lambda>_. Some [sample_raw]) (\<lambda>_. Some sample_doc) 5 ''c1'' ?resp
           (new_cache, sample_watch) = (outcome, (cache', w'), es)"
    by (metis prod_cases4 surj_pair)
  have scan: "es_events (scan_events (\<lambda>_. Some sample_doc) [sample_raw]) \<noteq> []"
    and dec: "decode_event (\<lambda>_. Some sample_doc) sample_raw =
      Some \<lparr>event_type = Add, event_key = ''shop/eu'', event_data = sample_doc\<rparr>"
    by (simp_all add: scan_events_def scan_event_def decode_event_def sample_raw_def event_type_of_def
        sample_doc_key)
  have "es \<noteq> []"
    using eq scan
    by (auto simp: apply_watch_event_def sample_watch_def new_watch_state_def Let_def scan_events_def
        scan_event_def sample_raw_def event_type_of_def sample_doc_key apply_events_def projected_len_def
        project_key.simps new_cache_def MAX_ENTRIES_PER_CONTROLLER_def)
  with watch_event_atomic [OF new_cache_inv eq] show ?thesis
    using eq by (auto simp: dec event_spec.simps new_cache_def)
qed

text \<open>
  A terminated watch is never retried. Once the watch state is terminated, every further frame of
  the session is skipped, changes nothing and sends nothing; in particular the loop reaches
  \<open>re_watch\<close>, whose debug assertion excludes terminated states, only on live ones.
\<close>

theorem terminated_watch_is_final:
  assumes "fw_terminated w"
  shows "watch_session p cid frames (cache, w) = ((cache, w), [])
         \<and> (\<forall>frame. \<exists>es. on_watch_frame p cid frame (cache, w) = (Skipped, False, (cache, w), es, []))"
proof -
  have step: "on_watch_frame p cid frame (cache, w) = (Skipped, False, (cache, w), [], [])" for frame
    using assms
    by (cases frame)
      (simp_all add: apply_watch_list_def apply_watch_event_def after_list_outcome_def after_event_outcome_def)
  then have "watch_session p cid frames (cache, w) = ((cache, w), [])"
    by (induction frames) (simp_all del: on_watch_frame.simps)
  with step show ?thesis by blast
qed

lemma terminated_watch_is_final_witness:
  "watch_session \<lparr>parse_list = \<lambda>_. Some [sample_doc], parse_events = \<lambda>_. None, parse_doc = \<lambda>_. None\<rparr> ''c1''
     [ListFrame 5 \<lparr>wlist_request_id = ''r1'', wlist_data = ''body'', wlist_sync_version = 9,
        wlist_server_id = ''srv''\<rparr> False ''r2''] (new_cache, terminate sample_watch)
   = ((new_cache, terminate sample_watch), [])"
  using terminated_watch_is_final [of "terminate sample_watch"] by (simp add: terminate_def)

lemma watch_list_resync:
  assumes "apply_watch_list pl now cid resp (cache, w) = (outcome, (cache', w'), es)"
  shows "outcome = ParseError \<longrightarrow> cache' = cache \<and> w' = w \<and> es = [] \<and> \<not> fw_terminated w"
  using assms
proof (cases rule: watch_list_cases)
  case (batch items res)
  then show ?thesis by (cases res) auto
qed auto

lemma watch_event_resync:
  assumes "apply_watch_event pe pd now cid resp (cache, w) = (outcome, (cache', w'), es)"
  shows "outcome \<in> {ParseError, ReWatch, BackoffReWatch} \<longrightarrow>
     cache' = cache \<and> fw_kind w' = fw_kind w \<and> es = [] \<and> \<not> fw_terminated w'"
  using assms
proof (cases rule: watch_event_cases)
  case (batch raws res)
  then show ?thesis by (cases res) auto
qed auto

text \<open>
  Every request a session sends after its first is a full resynchronisation: it asks for the
  session's kind from version zero under the fresh id that the watch state now expects, so the answer
  to any earlier request is from then on stale.
\<close>

theorem resync_requests_full_list:
  assumes "on_watch_frame p cid frame (cache, w) = (outcome, stop, (cache', w'), es, msgs)"
    and "msg \<in> set msgs"
  shows "msg = WatchRequest \<lparr>wreq_request_id = fw_request_id w', wreq_kind = fw_kind w, wreq_from_version = 0\<rparr>
         \<and> msgs = [msg] \<and> fw_consecutive_errors w' = 0 \<and> \<not> fw_terminated w'
         \<and> outcome \<in> {ParseError, ReWatch, BackoffReWatch} \<and> cache' = cache \<and> es = [] \<and> \<not> stop"
proof (cases frame)
  case (ListFrame now resp closed new_id)
  obtain o2 c2 w2 es2 where r: "apply_watch_list (parse_list p) now cid resp (cache, w) = (o2, (c2, w2), es2)"
    by (metis prod_cases4 surj_pair)
  with assms have "o2 = ParseError"
    by (cases o2) (auto simp: ListFrame after_list_outcome_def)
  with assms r watch_list_resync [OF r] show ?thesis
    by (auto simp: ListFrame after_list_outcome_def backoff_then_rewatch_def re_watch_def split: if_splits)
next
  case (EventFrame now resp closed new_id)
  obtain o2 c2 w2 es2 where
    r: "apply_watch_event (parse_events p) (parse_doc p) now cid resp (cache, w) = (o2, (c2, w2), es2)"
    by (metis prod_cases4 surj_pair)
  with assms have "o2 \<in> {ParseError, ReWatch, BackoffReWatch}"
    by (cases o2) (auto simp: EventFrame after_event_outcome_def)
  with assms r watch_event_resync [OF r] show ?thesis
    by (auto simp: EventFrame after_event_outcome_def backoff_then_rewatch_def re_watch_def split: if_splits)
qed

definition sample_parsers :: watch_parsers where
  "sample_parsers = \<lparr>parse_list = \<lambda>_. None, parse_events = \<lambda>_. None, parse_doc = \<lambda>_. None\<rparr>"

lemma resync_requests_full_list_witness:
  "\<exists>outcome stop cache' w' es msg.
     on_watch_frame sample_parsers ''c1''
       (ListFrame 5 \<lparr>wlist_request_id = ''r1'', wlist_data = ''junk'', wlist_sync_version = 9,
          wlist_server_id = ''srv''\<rparr> False ''r2'') (new_cache, sample_watch)
     = (outcome, stop, (cache', w'), es, [msg])
     \<and> msg = WatchRequest \<lparr>wreq_request_id = fw_request_id w', wreq_kind = ''EdgionConfigData'',
                           wreq_from_version = 0\<rparr>"
proof -
  let ?f = "ListFrame 5 \<lparr>wlist_request_id = ''r1'', wlist_data = ''junk'', wlist_sync_version = 9,
          wlist_server_id = ''srv''\<rparr> False ''r2''"
  obtain outcome stop cache' w' es msg where
    eq: "on_watch_frame sample_parsers ''c1'' ?f (new_cache, sample_watch) =
      (outcome, stop, (cache', w'), es, [msg])"
    by (simp add: apply_watch_list_def sample_watch_def new_watch_state_def sample_parsers_def
        after_list_outcome_def backoff_then_rewatch_def re_watch_def) blast
  with resync_requests_full_list [OF eq, of msg] show ?thesis
    by (auto simp: sample_watch_def new_watch_state_def EDGION_CONFIG_DATA_def)
qed

text \<open>
  Over a whole session, starting from a cache the registry created or kept, the cache stays within
  its bound, has one document per key, and every document is under the key its own metadata gives.
\<close>

theorem session_cache_invariant:
  assumes "cache_inv cache" "keyed_cache cache"
    and "watch_session p cid frames (cache, w) = ((cache', w'), msgs)"
  shows "length (cs_data cache') \<le> MAX_ENTRIES_PER_CONTROLLER \<and> distinct (map fst (cs_data cache'))
         \<and> (\<forall>(k, v) \<in> set (cs_data cache'). resource_key v = Some k)"
proof -
  have inv: "cache_inv cache' \<and> keyed_cache cache'"
    using watch_session_inv [of "(cache, w)" p cid frames] assms by simp
  then show ?thesis
    by (auto simp: cache_inv_def keyed_cache_def mem_wf_map)
qed

lemma session_cache_invariant_witness:
  "length (cs_data (fst (fst (watch_session sample_parsers ''c1''
     [ListFrame 5 \<lparr>wlist_request_id = ''r1'', wlist_data = ''junk'', wlist_sync_version = 9,
        wlist_server_id = ''srv''\<rparr> True ''r2''] (new_cache, sample_watch))))) \<le> MAX_ENTRIES_PER_CONTROLLER"
proof -
  let ?r = "watch_session sample_parsers ''c1''
     [ListFrame 5 \<lparr>wlist_request_id = ''r1'', wlist_data = ''junk'', wlist_sync_version = 9,
        wlist_server_id = ''srv''\<rparr> True ''r2''] (new_cache, sample_watch)"
  obtain cache' w' msgs where eq: "?r = ((cache', w'), msgs)" by (metis surj_pair)
  from session_cache_invariant [OF new_cache_inv new_cache_keyed eq] show ?thesis
    unfolding eq by simp
qed

text \<open>
  The keys of the protocol and of the override store agree on documents with a namespace and a
  name that has no surrounding whitespace, so for those the store mirrors the cache.
\<close>

theorem resource_key_is_own_key:
  assumes "resource_key v = Some k"
    and "Option.bind (json_pointer [''metadata'', ''namespace''] v) as_str = Some namespace"
    and "Option.bind (json_pointer [''metadata'', ''name''] v) as_str = Some name" "trim name = name"
  shows "own_key k v"
  using assms
  by (auto simp: resource_key_def own_key_def override_key_def Let_def json_get_Some
      split: bind_splits if_splits option.splits)

lemma resource_key_is_own_key_witness: "own_key ''shop/eu'' sample_doc"
  by (rule resource_key_is_own_key [OF sample_doc_key, of "''shop''" "''eu''"])
    (simp_all add: sample_doc_def json_get_def trim_eu)

definition padded_override :: json where
  "padded_override =
     JObject [(''metadata'', JObject [(''namespace'', JString ''shop''), (''name'', JString '' eu'')]),
              (''spec'', JObject [(''data'', JObject [(''type'', JString ''RegionRouteOverride'')])])]"

lemma trim_padded: "trim '' eu'' = ''eu''"
  by code_simp

text \<open>
  The condition on whitespace is needed: an override whose name has a leading blank is cached
  under the trimmed key and stored under the untrimmed one, so deleting it empties the cache and
  leaves the row in the store.
\<close>

theorem padded_name_leaves_row:
  "resource_key padded_override = Some ''shop/eu'' \<and>
   (let s = watch_run [ListBatch ''c1'' 1 [(''shop/eu'', padded_override)] 4 ''srv'',
                       EventBatch ''c1'' 2 [\<lparr>event_type = Delete, event_key = ''shop/eu'',
                                             event_data = padded_override\<rparr>] 5 ''srv''] initial_watch_system
    in raw_document ''c1'' ''shop/eu'' (ws_registry s) = None
       \<and> store_view (ws_store s) ''c1'' ''shop/ eu'' = Some padded_override)"
proof
  show "resource_key padded_override = Some ''shop/eu''"
    by (simp add: resource_key_def padded_override_def json_get_def trim_padded)
qed code_simp

end
