(* ===== verification/Spiffe.thy ===== *)
theory Spiffe
  imports Center_Prelude
begin

text \<open>
  Peer identity binding: \<open>crates/center-runtime/src/federation/spiffe.rs\<close>. The DER parser
  (\<open>x509_parser\<close>) is the argument \<open>from_der\<close>; of its result the code reads, per extension, whether
  it is the subject alternative name and the general names it parsed to.
\<close>

section \<open>Data\<close>

definition MAX_LEAF_DER_LEN :: nat where
  "MAX_LEAF_DER_LEN = 16 * 1024"

definition MAX_SAN_ENTRIES :: nat where
  "MAX_SAN_ENTRIES = 64"

datatype PeerIdentityError = IdParseError | NoSpiffeSan | MultiSan | Mismatch

record ControllerSpiffe =
  spiffe_host :: string
  spiffe_cluster :: string
  spiffe_name :: string

datatype GeneralName = URI string | OtherName

record x509_extension =
  ext_is_san_oid :: bool
  ext_san_names :: "GeneralName list option"

type_synonym der_parser = "string \<Rightarrow> x509_extension list option"

section \<open>Operations\<close>

definition has_spiffe_scheme :: "string \<Rightarrow> bool" where
  "has_spiffe_scheme uri \<longleftrightarrow> 9 \<le> length uri \<and> eq_ignore_ascii_case (take 9 uri) ''spiffe://''"

fun scan_general_names ::
  "GeneralName list \<Rightarrow> nat \<times> string list \<Rightarrow> PeerIdentityError + (nat \<times> string list)" where
  "scan_general_names [] acc = Inr acc"
| "scan_general_names (gn # gns) (seen, spiffe) =
     (if MAX_SAN_ENTRIES < seen + 1 then Inl IdParseError
      else scan_general_names gns
        (seen + 1,
         case gn of
           URI uri \<Rightarrow> if has_spiffe_scheme uri then spiffe @ [uri] else spiffe
         | OtherName \<Rightarrow> spiffe))"

fun scan_extensions ::
  "x509_extension list \<Rightarrow> nat \<times> string list \<Rightarrow> PeerIdentityError + (nat \<times> string list)" where
  "scan_extensions [] acc = Inr acc"
| "scan_extensions (ext # exts) acc =
     (if \<not> ext_is_san_oid ext then scan_extensions exts acc
      else
        (case ext_san_names ext of
           None \<Rightarrow> scan_extensions exts acc
         | Some names \<Rightarrow> and_then (scan_general_names names acc) (scan_extensions exts)))"

definition extract_single_spiffe_uri :: "der_parser \<Rightarrow> string \<Rightarrow> PeerIdentityError + string" where
  "extract_single_spiffe_uri from_der der =
     (if MAX_LEAF_DER_LEN < length der then Inl IdParseError
      else
        (case from_der der of
           None \<Rightarrow> Inl IdParseError
         | Some exts \<Rightarrow>
             and_then (scan_extensions exts (0, [])) (\<lambda>(_, spiffe).
               case spiffe of
                 [] \<Rightarrow> Inl NoSpiffeSan
               | [uri] \<Rightarrow> Inr uri
               | _ \<Rightarrow> Inl MultiSan)))"

definition parse_controller_spiffe :: "string \<Rightarrow> ControllerSpiffe option" where
  "parse_controller_spiffe uri =
     (if \<not> has_spiffe_scheme uri then None
      else
        (case split_once (CHR ''/'') (drop 9 uri) of
           None \<Rightarrow> None
         | Some (host, path) \<Rightarrow>
             (case split_on (CHR ''/'') path of
                [controllers, cluster, name] \<Rightarrow>
                  if controllers \<noteq> ''controllers'' then None
                  else if host = [] \<or> cluster = [] \<or> name = [] then None
                  else Some \<lparr>spiffe_host = host, spiffe_cluster = cluster, spiffe_name = name\<rparr>
              | _ \<Rightarrow> None)))"

definition check_match ::
  "ControllerSpiffe \<Rightarrow> string \<Rightarrow> string \<Rightarrow> string \<Rightarrow> PeerIdentityError + unit" where
  "check_match parsed trust_domain req_cluster req_controller_id =
     (if \<not> eq_ignore_ascii_case (spiffe_host parsed) trust_domain then Inl Mismatch
      else if spiffe_cluster parsed \<noteq> req_cluster then Inl Mismatch
      else if spiffe_cluster parsed @ ''/'' @ spiffe_name parsed \<noteq> req_controller_id then Inl Mismatch
      else Inr ())"

definition verify ::
  "der_parser \<Rightarrow> string \<Rightarrow> string \<Rightarrow> string \<Rightarrow> string \<Rightarrow> PeerIdentityError + unit" where
  "verify from_der leaf_der trust_domain req_cluster req_controller_id =
     and_then (extract_single_spiffe_uri from_der leaf_der) (\<lambda>uri.
       case parse_controller_spiffe uri of
         None \<Rightarrow> Inl Mismatch
       | Some parsed \<Rightarrow> check_match parsed trust_domain req_cluster req_controller_id)"

definition path_matches :: "ControllerSpiffe \<Rightarrow> string \<Rightarrow> string \<Rightarrow> bool" where
  "path_matches parsed cluster name \<longleftrightarrow> spiffe_cluster parsed = cluster \<and> spiffe_name parsed = name"

section \<open>Specification\<close>

text \<open>The names of all subject alternative name extensions, in order, and the SPIFFE ones of them.\<close>

definition san_names :: "x509_extension list \<Rightarrow> GeneralName list" where
  "san_names exts =
     concat (map (\<lambda>ext. if ext_is_san_oid ext then (case ext_san_names ext of None \<Rightarrow> [] | Some ns \<Rightarrow> ns) else []) exts)"

fun spiffe_uris :: "GeneralName list \<Rightarrow> string list" where
  "spiffe_uris [] = []"
| "spiffe_uris (URI uri # gns) = (if has_spiffe_scheme uri then uri # spiffe_uris gns else spiffe_uris gns)"
| "spiffe_uris (OtherName # gns) = spiffe_uris gns"

text \<open>The identity a URI states, as the format of the documentation.\<close>

definition spiffe_uri :: "string \<Rightarrow> string \<Rightarrow> string \<Rightarrow> string \<Rightarrow> string" where
  "spiffe_uri scheme host cluster name =
     scheme @ host @ ''/controllers/'' @ cluster @ ''/'' @ name"

section \<open>Lemmas\<close>

lemma spiffe_uris_append [simp]: "spiffe_uris (xs @ ys) = spiffe_uris xs @ spiffe_uris ys"
  by (induction xs rule: spiffe_uris.induct) auto

lemma scan_general_names_eq:
  "scan_general_names gns (seen, spiffe) =
     (if gns = [] \<or> seen + length gns \<le> MAX_SAN_ENTRIES then Inr (seen + length gns, spiffe @ spiffe_uris gns)
      else Inl IdParseError)"
proof (induction gns arbitrary: seen spiffe)
  case (Cons gn gns)
  then show ?case by (cases gn) auto
qed simp

lemma san_names_simps [simp]:
  "san_names [] = []"
  "\<not> ext_is_san_oid ext \<Longrightarrow> san_names (ext # exts) = san_names exts"
  "ext_san_names ext = None \<Longrightarrow> san_names (ext # exts) = san_names exts"
  "ext_is_san_oid ext \<Longrightarrow> ext_san_names ext = Some ns \<Longrightarrow> san_names (ext # exts) = ns @ san_names exts"
  by (simp_all add: san_names_def)

lemma scan_extensions_eq:
  "scan_extensions exts (seen, spiffe) =
     (if san_names exts = [] \<or> seen + length (san_names exts) \<le> MAX_SAN_ENTRIES
      then Inr (seen + length (san_names exts), spiffe @ spiffe_uris (san_names exts))
      else Inl IdParseError)"
proof (induction exts arbitrary: seen spiffe)
  case (Cons ext exts)
  show ?case
  proof (cases "ext_is_san_oid ext \<and> ext_san_names ext \<noteq> None")
    case True
    then obtain ns where "ext_is_san_oid ext" "ext_san_names ext = Some ns" by auto
    with Cons show ?thesis
      by (cases "san_names exts = []"; cases "ns = []") (simp_all add: scan_general_names_eq add.assoc)
  next
    case False
    with Cons show ?thesis by (cases "ext_is_san_oid ext") auto
  qed
qed simp

lemma extract_ok:
  "extract_single_spiffe_uri from_der der = Inr uri \<longleftrightarrow>
     length der \<le> MAX_LEAF_DER_LEN \<and>
     (\<exists>exts. from_der der = Some exts \<and> length (san_names exts) \<le> MAX_SAN_ENTRIES
        \<and> spiffe_uris (san_names exts) = [uri])"
proof (cases "from_der der")
  case None
  then show ?thesis by (simp add: extract_single_spiffe_uri_def)
next
  case (Some exts)
  show ?thesis
  proof (cases "san_names exts = [] \<or> length (san_names exts) \<le> MAX_SAN_ENTRIES")
    case True
    then have "length (san_names exts) \<le> MAX_SAN_ENTRIES" by auto
    with Some show ?thesis
      by (cases "spiffe_uris (san_names exts)")
        (auto simp: extract_single_spiffe_uri_def scan_extensions_eq split: list.splits)
  next
    case False
    with Some show ?thesis by (simp add: extract_single_spiffe_uri_def scan_extensions_eq)
  qed
qed

lemma parse_spiffe_iff:
  "parse_controller_spiffe uri = Some \<lparr>spiffe_host = h, spiffe_cluster = c, spiffe_name = n\<rparr> \<longleftrightarrow>
     (\<exists>scheme. uri = spiffe_uri scheme h c n \<and> length scheme = 9 \<and> eq_ignore_ascii_case scheme ''spiffe://'')
     \<and> h \<noteq> [] \<and> c \<noteq> [] \<and> n \<noteq> [] \<and> CHR ''/'' \<notin> set h \<and> CHR ''/'' \<notin> set c \<and> CHR ''/'' \<notin> set n"
  (is "?L \<longleftrightarrow> ?R")
proof
  assume L: ?L
  then have scheme: "has_spiffe_scheme uri" by (simp add: parse_controller_spiffe_def split: if_splits)
  with L obtain path where
    split: "split_once (CHR ''/'') (drop 9 uri) = Some (h, path)"
    and segs: "split_on (CHR ''/'') path = [''controllers'', c, n]" and ne: "h \<noteq> []" "c \<noteq> []" "n \<noteq> []"
    by (auto simp: parse_controller_spiffe_def split: option.splits list.splits if_splits prod.splits)
  have "join_with [CHR ''/''] [''controllers'', c, n] = path"
    using join_split_on [of "CHR ''/''" path] segs by simp
  then have "uri = take 9 uri @ h @ CHR ''/'' # ''controllers/'' @ c @ ''/'' @ n"
    using split_once_Some [OF split] by (metis append_take_drop_id append_Cons append_Nil append_assoc join_with.simps(2,3))
  moreover have "CHR ''/'' \<notin> set c" "CHR ''/'' \<notin> set n"
    using split_on_no_sep [of _ "CHR ''/''" path] segs by auto
  ultimately show ?R
    using scheme ne split_once_Some [OF split]
    by (auto simp: has_spiffe_scheme_def spiffe_uri_def intro!: exI [of _ "take 9 uri"])
next
  assume R: ?R
  then obtain scheme where uri: "uri = spiffe_uri scheme h c n" and sch: "length scheme = 9"
    "eq_ignore_ascii_case scheme ''spiffe://''" by blast
  have path: "split_on (CHR ''/'') (''controllers/'' @ c @ ''/'' @ n) = [''controllers'', c, n]"
    using split_on_join [of "[''controllers'', c, n]" "CHR ''/''"] R by simp
  have "split_once (CHR ''/'') (h @ CHR ''/'' # (''controllers/'' @ c @ ''/'' @ n)) =
      Some (h, ''controllers/'' @ c @ ''/'' @ n)"
    using R by (intro split_once_append) simp
  moreover have "drop 9 uri = h @ CHR ''/'' # (''controllers/'' @ c @ ''/'' @ n)" "take 9 uri = scheme"
    using sch by (simp_all add: uri spiffe_uri_def)
  ultimately show ?L
    using R sch path by (simp add: parse_controller_spiffe_def has_spiffe_scheme_def uri spiffe_uri_def)
qed

section \<open>Properties\<close>

text \<open>
  C32: \<open>verify\<close> accepts a leaf certificate for a cluster and Controller id exactly when the
  certificate is within the size limits, parses, carries exactly one SPIFFE URI among all its
  alternative names, and this URI spells \<open>spiffe://host/controllers/cluster/name\<close> with the host
  equal to the trust domain up to ASCII case, the given cluster, and the Controller id
  \<open>cluster/name\<close>, where no part is empty or contains a slash.
\<close>

theorem verify_iff:
  "verify from_der der td cluster cid = Inr () \<longleftrightarrow>
     length der \<le> MAX_LEAF_DER_LEN \<and>
     (\<exists>exts scheme host name.
        from_der der = Some exts \<and> length (san_names exts) \<le> MAX_SAN_ENTRIES
        \<and> spiffe_uris (san_names exts) = [spiffe_uri scheme host cluster name]
        \<and> length scheme = 9 \<and> eq_ignore_ascii_case scheme ''spiffe://''
        \<and> eq_ignore_ascii_case host td \<and> cid = cluster @ ''/'' @ name
        \<and> host \<noteq> [] \<and> cluster \<noteq> [] \<and> name \<noteq> []
        \<and> CHR ''/'' \<notin> set host \<and> CHR ''/'' \<notin> set cluster \<and> CHR ''/'' \<notin> set name)"
proof -
  have "verify from_der der td cluster cid = Inr () \<longleftrightarrow>
      (\<exists>uri h n. extract_single_spiffe_uri from_der der = Inr uri
         \<and> parse_controller_spiffe uri = Some \<lparr>spiffe_host = h, spiffe_cluster = cluster, spiffe_name = n\<rparr>
         \<and> eq_ignore_ascii_case h td \<and> cid = cluster @ ''/'' @ n)"
  proof
    assume v: "verify from_der der td cluster cid = Inr ()"
    then obtain uri parsed where "extract_single_spiffe_uri from_der der = Inr uri"
      "parse_controller_spiffe uri = Some parsed" "check_match parsed td cluster cid = Inr ()"
      by (auto simp: verify_def and_then_eq_Inr split: option.splits)
    then show "\<exists>uri h n. extract_single_spiffe_uri from_der der = Inr uri
         \<and> parse_controller_spiffe uri = Some \<lparr>spiffe_host = h, spiffe_cluster = cluster, spiffe_name = n\<rparr>
         \<and> eq_ignore_ascii_case h td \<and> cid = cluster @ ''/'' @ n"
      by (cases parsed) (auto simp: check_match_def split: if_splits)
  qed (auto simp: verify_def check_match_def)
  then show ?thesis unfolding extract_ok parse_spiffe_iff by blast
qed

text \<open>
  A certificate identifies one Controller. If the same certificate is accepted for two requests,
  they name the same cluster and the same Controller id.
\<close>

theorem verify_unique:
  assumes "verify from_der der td1 cluster1 cid1 = Inr ()"
    and "verify from_der der td2 cluster2 cid2 = Inr ()"
  shows "cluster1 = cluster2 \<and> cid1 = cid2"
proof -
  from assms obtain uri p1 p2 where
    "extract_single_spiffe_uri from_der der = Inr uri" "parse_controller_spiffe uri = Some p1"
    "check_match p1 td1 cluster1 cid1 = Inr ()"
    "parse_controller_spiffe uri = Some p2" "check_match p2 td2 cluster2 cid2 = Inr ()"
    by (auto simp: verify_def and_then_eq_Inr split: option.splits)
  then show ?thesis by (auto simp: check_match_def split: if_splits)
qed

definition sample_der_parser :: der_parser where
  "sample_der_parser = (\<lambda>_. Some [\<lparr>ext_is_san_oid = True,
     ext_san_names = Some [OtherName, URI ''https://x/'', URI ''SPIFFE://Td/controllers/eu/c1'']\<rparr>])"

lemma verify_unique_witness:
  "verify sample_der_parser ''der'' ''td'' ''eu'' ''eu/c1'' = Inr () \<and>
   (verify sample_der_parser ''der'' ''TD'' ''eu'' ''eu/c1'' = Inr () \<and> ''eu'' = ''eu'' \<and> ''eu/c1'' = ''eu/c1'')"
proof -
  have "verify sample_der_parser ''der'' ''td'' ''eu'' ''eu/c1'' = Inr ()"
    "verify sample_der_parser ''der'' ''TD'' ''eu'' ''eu/c1'' = Inr ()"
    by code_simp+
  with verify_unique [OF this] show ?thesis by blast
qed

end
