(* ===== verification/Runtime_Projector.thy ===== *)
theory Runtime_Projector
  imports Controller_Core
begin

text \<open>
  The background projections of \<open>crates/center-runtime/src/federation/server.rs\<close>: the per-Controller
  slots of \<open>RuntimeProjector\<close> with their worker, the observation clock, the ingest bound on stats
  reports, the retry loop of \<open>project_offline_with_retry\<close> and the \<open>OfflineReconciler\<close>.

  A worker task is modelled by the points at which it touches the shared slots: it reads a slot,
  its directory call succeeds, fails or is abandoned because the projector was stopped, on success it
  settles, and after a failure it sleeps until it wakes or is stopped. What the directory answers, and
  when, is the environment's choice, so the workers, the submitters and the shutdown interleave
  arbitrarily. The failure counter of a worker only chooses its delay (\<open>retry_delay_ms\<close>).
\<close>

section \<open>Stats ingest bound\<close>

definition MAX_STATS_KINDS :: nat where
  "MAX_STATS_KINDS = 64"

definition MAX_STATS_KIND_LEN :: nat where
  "MAX_STATS_KIND_LEN = 63"

definition bounded_per_kind :: "(string, u32) hmap \<Rightarrow> (string, u32) hmap option" where
  "bounded_per_kind per_kind =
     (if MAX_STATS_KINDS < length per_kind then None
      else if \<exists>key \<in> set (map fst per_kind). MAX_STATS_KIND_LEN < length key then None
      else Some (sort_key fst per_kind))"

section \<open>Observation clock\<close>

definition i64_max :: u64 where
  "i64_max = 9223372036854775807"

definition clamp_i64 :: "u64 \<Rightarrow> int" where
  "clamp_i64 n = int (unat (min n i64_max))"

text \<open>
  \<open>next_observed_at_ms\<close>. Each compare-exchange either succeeds or reports the value another thread
  left in \<open>LAST\<close>; \<open>failures\<close> are the values of the failing attempts, so the last of them (or the
  first load) is what \<open>LAST\<close> holds when the exchange succeeds.
\<close>

fun next_observed :: "u64 \<Rightarrow> u64 \<Rightarrow> u64 list \<Rightarrow> u64 \<times> int" where
  "next_observed wall previous [] =
     (let n = max wall (saturating_add_u64 previous 1) in (n, clamp_i64 n))"
| "next_observed wall previous (actual # failures) = next_observed wall actual failures"

text \<open>A history of calls; a call's \<open>stale\<close> loads are arbitrary, its successful exchange is on \<open>LAST\<close>.\<close>

fun observe_all :: "(u64 \<times> u64 list) list \<Rightarrow> u64 \<Rightarrow> int list" where
  "observe_all [] lst = []"
| "observe_all ((wall, stale) # calls) lst =
     (let (lst', t) = (case stale of
                         [] \<Rightarrow> next_observed wall lst []
                       | previous # failures \<Rightarrow> next_observed wall previous (failures @ [lst]))
      in t # observe_all calls lst')"

section \<open>Runtime projection slots\<close>

record RuntimeProjectionSlot =
  slot_observation :: ControllerRuntimeObservation
  slot_generation :: u64

type_synonym slots = "(string, RuntimeProjectionSlot) hmap"

definition or_else :: "'a option \<Rightarrow> 'a option \<Rightarrow> 'a option" where
  "or_else new old = (if new \<noteq> None then new else old)"

definition merge_observation ::
  "ControllerRuntimeObservation \<Rightarrow> ControllerRuntimeObservation \<Rightarrow> ControllerRuntimeObservation" where
  "merge_observation new old =
     old\<lparr>obs_sync_version := or_else (obs_sync_version new) (obs_sync_version old),
         obs_watch_server_id := or_else (obs_watch_server_id new) (obs_watch_server_id old),
         obs_resource_count := or_else (obs_resource_count new) (obs_resource_count old),
         obs_resource_counts_by_kind :=
           or_else (obs_resource_counts_by_kind new) (obs_resource_counts_by_kind old),
         obs_stats_updated_unix_ms :=
           or_else (obs_stats_updated_unix_ms new) (obs_stats_updated_unix_ms old),
         obs_watch_updated_unix_ms :=
           or_else (obs_watch_updated_unix_ms new) (obs_watch_updated_unix_ms old),
         obs_observed_at_unix_ms := max (obs_observed_at_unix_ms old) (obs_observed_at_unix_ms new)\<rparr>"

definition same_session :: "ControllerRuntimeObservation \<Rightarrow> ControllerRuntimeObservation \<Rightarrow> bool" where
  "same_session a b \<longleftrightarrow>
     obs_session_id a = obs_session_id b \<and> obs_ownership_fence a = obs_ownership_fence b"

text \<open>\<open>submit\<close>, with the flag whether a directory is configured and the flag whether it spawns.\<close>

definition submit :: "bool \<Rightarrow> ControllerRuntimeObservation \<Rightarrow> slots \<Rightarrow> slots \<times> bool" where
  "submit has_directory observation s =
     (if \<not> has_directory then (s, False)
      else
        let key = obs_controller_id observation
        in (case map_of s key of
              Some slot \<Rightarrow>
                (AList.update key
                   \<lparr>slot_observation =
                      (if same_session (slot_observation slot) observation
                       then merge_observation observation (slot_observation slot) else observation),
                    slot_generation = slot_generation slot + 1\<rparr> s, False)
            | None \<Rightarrow>
                (AList.update key \<lparr>slot_observation = observation, slot_generation = 0\<rparr> s, True)))"

definition worker_read :: "string \<Rightarrow> slots \<Rightarrow> (ControllerRuntimeObservation \<times> u64) option" where
  "worker_read key s = map_option (\<lambda>slot. (slot_observation slot, slot_generation slot)) (map_of s key)"

text \<open>After a successful call: remove the slot and stop, or go round again.\<close>

definition worker_settle :: "string \<Rightarrow> u64 \<Rightarrow> slots \<Rightarrow> slots \<times> bool" where
  "worker_settle key generation s =
     (case map_of s key of
        Some slot \<Rightarrow> if slot_generation slot = generation then (AList.delete key s, True) else (s, False)
      | None \<Rightarrow> (s, False))"

definition retry_delay_ms :: "string \<Rightarrow> nat \<Rightarrow> nat" where
  "retry_delay_ms key failures =
     (let exponent = min (failures - 1) 5;
          base_ms = min (250 * 2 ^ exponent) 8000;
          jitter_ms = fold (\<lambda>b sum. sum + byte b) key 0 mod 97
      in base_ms + jitter_ms)"

section \<open>Workers and submitters\<close>

text \<open>
  A worker reads its slot, waits for the directory or sleeps; both waits are a \<open>select!\<close> with the
  cancellation token of the handle, so once \<open>Stop\<close> has cancelled it either arm may win. \<open>pj_projected\<close>
  records the acknowledged calls, the latest first.
\<close>

datatype worker = Reading | Calling ControllerRuntimeObservation u64 | Sleeping

record projector =
  pj_slots :: slots
  pj_workers :: "(string, worker) hmap"
  pj_stopped :: bool
  pj_projected :: "(string \<times> ControllerRuntimeObservation) list"

datatype projector_op =
    Submit ControllerRuntimeObservation
  | Read string
  | Succeed string
  | Fail string
  | Wake string
  | Stop
  | Abandon string

fun projector_step :: "projector_op \<Rightarrow> projector \<Rightarrow> projector" where
  "projector_step (Submit ob) p =
     (let (s, spawn) = submit True ob (pj_slots p)
      in p\<lparr>pj_slots := s,
           pj_workers := (if spawn then AList.update (obs_controller_id ob) Reading (pj_workers p)
                          else pj_workers p)\<rparr>)"
| "projector_step (Read key) p =
     (case (map_of (pj_workers p) key, worker_read key (pj_slots p)) of
        (Some Reading, Some (ob, g)) \<Rightarrow> p\<lparr>pj_workers := AList.update key (Calling ob g) (pj_workers p)\<rparr>
      | (Some Reading, None) \<Rightarrow> p\<lparr>pj_workers := AList.delete key (pj_workers p)\<rparr>
      | _ \<Rightarrow> p)"
| "projector_step (Succeed key) p =
     (case map_of (pj_workers p) key of
        Some (Calling ob g) \<Rightarrow>
          let (s, stop) = worker_settle key g (pj_slots p)
          in p\<lparr>pj_slots := s, pj_projected := (key, ob) # pj_projected p,
               pj_workers := (if stop then AList.delete key (pj_workers p)
                              else AList.update key Reading (pj_workers p))\<rparr>
      | _ \<Rightarrow> p)"
| "projector_step (Fail key) p =
     (case map_of (pj_workers p) key of
        Some (Calling ob g) \<Rightarrow> p\<lparr>pj_workers := AList.update key Sleeping (pj_workers p)\<rparr>
      | _ \<Rightarrow> p)"
| "projector_step (Wake key) p =
     (case map_of (pj_workers p) key of
        Some Sleeping \<Rightarrow> p\<lparr>pj_workers := AList.update key Reading (pj_workers p)\<rparr>
      | _ \<Rightarrow> p)"
| "projector_step Stop p = p\<lparr>pj_stopped := True\<rparr>"
| "projector_step (Abandon key) p =
     (case map_of (pj_workers p) key of
        None \<Rightarrow> p
      | Some Reading \<Rightarrow> p
      | Some _ \<Rightarrow> if pj_stopped p then p\<lparr>pj_workers := AList.delete key (pj_workers p)\<rparr> else p)"

fun projector_run :: "projector_op list \<Rightarrow> projector \<Rightarrow> projector" where
  "projector_run [] p = p"
| "projector_run (opn # ops) p = projector_run ops (projector_step opn p)"

definition new_projector :: projector where
  "new_projector = \<lparr>pj_slots = [], pj_workers = [], pj_stopped = False, pj_projected = []\<rparr>"

section \<open>Offline projection\<close>

text \<open>
  \<open>project_offline_with_retry\<close>: the environment gives, per attempt, whether the worker was cancelled
  before the call finished, the call's result (\<open>None\<close> for an error or a timeout), and whether it was
  cancelled during the sleep. The result is the outcome and the sleeps taken; no further attempts in
  the list means the worker is still waiting.
\<close>

datatype offline_end = OfflineDone OfflineOutcome | OfflineCancelled | OfflineWaiting

fun project_offline_with_retry ::
  "nat \<Rightarrow> (bool \<times> OfflineOutcome option \<times> bool) list \<Rightarrow> offline_end \<times> nat list" where
  "project_offline_with_retry delay [] = (OfflineWaiting, [])"
| "project_offline_with_retry delay ((cancelled, result, cancelled_in_sleep) # attempts) =
     (if cancelled then (OfflineCancelled, [])
      else
        (case result of
           Some out \<Rightarrow> (OfflineDone out, [])
         | None \<Rightarrow>
             if cancelled_in_sleep then (OfflineCancelled, [delay])
             else let (e, ds) = project_offline_with_retry (min (delay * 2) 30000) attempts
                  in (e, delay # ds)))"

record OfflineReconciler =
  or_workers :: "(string, u64 \<times> nat) hmap"
  or_next_generation :: u64
  or_tokens :: nat
  or_cancelled :: "nat set"

definition new_reconciler :: OfflineReconciler where
  "new_reconciler = \<lparr>or_workers = [], or_next_generation = 1, or_tokens = 0, or_cancelled = {}\<rparr>"

definition cancel_worker :: "string \<Rightarrow> OfflineReconciler \<Rightarrow> OfflineReconciler" where
  "cancel_worker controller_id r =
     (case map_of (or_workers r) controller_id of
        None \<Rightarrow> r
      | Some (_, token) \<Rightarrow>
          r\<lparr>or_workers := AList.delete controller_id (or_workers r),
            or_cancelled := insert token (or_cancelled r)\<rparr>)"

definition schedule :: "string \<Rightarrow> OfflineReconciler \<Rightarrow> (u64 \<times> nat) \<times> OfflineReconciler" where
  "schedule controller_id r =
     (let generation = or_next_generation r; token = or_tokens r
      in ((generation, token),
          r\<lparr>or_workers := AList.update controller_id (generation, token) (or_workers r),
            or_next_generation := generation + 1, or_tokens := Suc token,
            or_cancelled := (case map_of (or_workers r) controller_id of
                               None \<Rightarrow> or_cancelled r
                             | Some (_, previous) \<Rightarrow> insert previous (or_cancelled r))\<rparr>))"

text \<open>The end of a spawned worker: it removes its entry only if it is still its own.\<close>

definition worker_finished :: "string \<Rightarrow> u64 \<Rightarrow> OfflineReconciler \<Rightarrow> OfflineReconciler" where
  "worker_finished key generation r =
     (case map_of (or_workers r) key of
        Some (current, _) \<Rightarrow>
          if current = generation then r\<lparr>or_workers := AList.delete key (or_workers r)\<rparr> else r
      | None \<Rightarrow> r)"

text \<open>
  The reconciler with the workers it spawned: \<open>rs_spawned\<close> lists the Controller and generation of
  each token, \<open>rs_finished\<close> the tokens whose worker has ended by itself.
\<close>

record reconciler_system =
  rs_rec :: OfflineReconciler
  rs_spawned :: "(string \<times> u64) list"
  rs_finished :: "nat set"

datatype reconciler_op = Schedule string | CancelWorker string | Finish nat

fun reconciler_step :: "reconciler_op \<Rightarrow> reconciler_system \<Rightarrow> reconciler_system" where
  "reconciler_step (Schedule c) s =
     (let ((g, t), r) = schedule c (rs_rec s)
      in s\<lparr>rs_rec := r, rs_spawned := rs_spawned s @ [(c, g)]\<rparr>)"
| "reconciler_step (CancelWorker c) s = s\<lparr>rs_rec := cancel_worker c (rs_rec s)\<rparr>"
| "reconciler_step (Finish t) s =
     (if t < length (rs_spawned s) \<and> t \<notin> or_cancelled (rs_rec s) then
        let (c, g) = rs_spawned s ! t
        in s\<lparr>rs_rec := worker_finished c g (rs_rec s), rs_finished := insert t (rs_finished s)\<rparr>
      else s)"

fun reconciler_run :: "reconciler_op list \<Rightarrow> reconciler_system \<Rightarrow> reconciler_system" where
  "reconciler_run [] s = s"
| "reconciler_run (opn # ops) s = reconciler_run ops (reconciler_step opn s)"

definition new_reconciler_system :: reconciler_system where
  "new_reconciler_system = \<lparr>rs_rec = new_reconciler, rs_spawned = [], rs_finished = {}\<rparr>"

definition live_worker :: "reconciler_system \<Rightarrow> nat \<Rightarrow> bool" where
  "live_worker s t \<longleftrightarrow>
     t < length (rs_spawned s) \<and> t \<notin> or_cancelled (rs_rec s) \<and> t \<notin> rs_finished s"

section \<open>Lemmas\<close>

lemma next_observed_last: "failures \<noteq> [] \<Longrightarrow> next_observed wall previous failures = next_observed wall (last failures) []"
  by (induction failures arbitrary: previous) auto

lemma observe_all_Cons:
  "observe_all ((wall, stale) # calls) lst =
     clamp_i64 (max wall (saturating_add_u64 lst 1)) # observe_all calls (max wall (saturating_add_u64 lst 1))"
  by (cases stale) (simp_all add: next_observed_last Let_def)

lemma clamp_mono: "a \<le> b \<Longrightarrow> clamp_i64 a \<le> clamp_i64 b"
  unfolding clamp_i64_def of_nat_le_iff word_le_nat_alt [symmetric] by (rule min.mono) auto

lemma clamp_unat: "clamp_i64 n = int (min (unat n) 9223372036854775807)"
proof -
  have "unat (min n i64_max) = min (unat n) (unat i64_max)"
    by (simp add: min_def word_le_nat_alt)
  then show ?thesis by (simp only: clamp_i64_def) (simp add: i64_max_def)
qed

lemma clamp_successor:
  assumes "clamp_i64 (saturating_add_u64 n 1) < 9223372036854775807"
  shows "clamp_i64 n < clamp_i64 (saturating_add_u64 n 1)"
proof -
  have "unat (saturating_add_u64 n 1) = min (unat n + 1) 18446744073709551615"
    by (simp add: saturating_add_unat)
  with assms show ?thesis unfolding clamp_unat by linarith
qed

declare observe_all.simps(2) [simp del]

lemma observe_all_ge:
  "t \<in> set (observe_all calls lst) \<Longrightarrow> clamp_i64 (saturating_add_u64 lst 1) \<le> t"
proof (induction calls arbitrary: lst)
  case (Cons call calls)
  obtain wall stale where call: "call = (wall, stale)" by fastforce
  let ?l = "max wall (saturating_add_u64 lst 1)"
  have "saturating_add_u64 lst 1 \<le> saturating_add_u64 ?l 1"
    using saturating_add_ge [of ?l 1] by (meson max.cobounded2 order_trans)
  then have "clamp_i64 (saturating_add_u64 lst 1) \<le> clamp_i64 (saturating_add_u64 ?l 1)"
    "clamp_i64 (saturating_add_u64 lst 1) \<le> clamp_i64 ?l"
    by (auto intro: clamp_mono)
  with Cons.IH [of ?l] Cons.prems show ?case
    unfolding call observe_all_Cons by auto
qed simp

text \<open>
  The invariant, per key, after at most \<open>n\<close> steps: a slot is worked on until the projector is stopped,
  its generation counts its submissions, and a call in flight under the current generation carries the
  current content.
\<close>

definition key_inv :: "nat \<Rightarrow> bool \<Rightarrow> RuntimeProjectionSlot option \<Rightarrow> worker option \<Rightarrow> bool" where
  "key_inv n stopped so wo \<longleftrightarrow>
     (case so of
        None \<Rightarrow> wo = None
      | Some slot \<Rightarrow>
          (wo = None \<longrightarrow> stopped) \<and>
          (\<exists>m \<le> n. slot_generation slot = of_nat m
             \<and> (\<forall>ob g. wo = Some (Calling ob g) \<longrightarrow>
                  (\<exists>k \<le> m. g = of_nat k \<and> (k = m \<longrightarrow> ob = slot_observation slot)))))"

definition proj_inv :: "nat \<Rightarrow> projector \<Rightarrow> bool" where
  "proj_inv n p \<longleftrightarrow> (\<forall>key. key_inv n (pj_stopped p) (map_of (pj_slots p) key) (map_of (pj_workers p) key))"

lemma key_inv_mono: "key_inv n b so wo \<Longrightarrow> (b \<Longrightarrow> b') \<Longrightarrow> key_inv (Suc n) b' so wo"
  by (cases so) (auto simp: key_inv_def intro: le_SucI)

lemma key_inv_idle:
  "key_inv n b (Some slot) wo \<Longrightarrow> w \<in> {Reading, Sleeping} \<Longrightarrow> key_inv n b (Some slot) (Some w)"
  by (auto simp: key_inv_def)

lemma key_inv_empty: "key_inv n b None wo \<longleftrightarrow> wo = None"
  by (simp add: key_inv_def)

lemma key_inv_bump:
  assumes "key_inv n b (Some slot) wo"
  shows "key_inv (Suc n) b (Some \<lparr>slot_observation = ob, slot_generation = slot_generation slot + 1\<rparr>) wo"
proof -
  from assms obtain m where m: "wo = None \<longrightarrow> b" "m \<le> n" "slot_generation slot = of_nat m"
    "\<forall>ob g. wo = Some (Calling ob g) \<longrightarrow> (\<exists>k \<le> m. g = of_nat k \<and> (k = m \<longrightarrow> ob = slot_observation slot))"
    by (auto simp: key_inv_def)
  have "\<forall>o2 g. wo = Some (Calling o2 g) \<longrightarrow> (\<exists>k \<le> Suc m. g = of_nat k \<and> (k = Suc m \<longrightarrow> o2 = ob))"
  proof (intro allI impI)
    fix o2 g
    assume "wo = Some (Calling o2 g)"
    with m(4) obtain k where "k \<le> m" "g = of_nat k" by blast
    then show "\<exists>k \<le> Suc m. g = of_nat k \<and> (k = Suc m \<longrightarrow> o2 = ob)"
      by (intro exI [of _ k]) simp
  qed
  moreover have "slot_generation slot + 1 = of_nat (Suc m)" using m(3) by simp
  ultimately show ?thesis
    using m(1,2) unfolding key_inv_def by (simp del: of_nat_Suc) (rule exI [of _ "Suc m"], simp del: of_nat_Suc)
qed

text \<open>One step seen from one key: its slot and its worker.\<close>

lemma submit_key:
  "map_of (pj_slots (projector_step (Submit ob) p)) key =
     (if key = obs_controller_id ob
      then Some (case map_of (pj_slots p) key of
             None \<Rightarrow> \<lparr>slot_observation = ob, slot_generation = 0\<rparr>
           | Some slot \<Rightarrow> \<lparr>slot_observation =
                 (if same_session (slot_observation slot) ob then merge_observation ob (slot_observation slot) else ob),
                 slot_generation = slot_generation slot + 1\<rparr>)
      else map_of (pj_slots p) key)"
  "map_of (pj_workers (projector_step (Submit ob) p)) key =
     (if key = obs_controller_id ob \<and> map_of (pj_slots p) key = None then Some Reading else map_of (pj_workers p) key)"
  by (auto simp: submit_def Let_def map_of_update split: option.splits)

lemma step_other_key:
  assumes "opn \<notin> {Read key, Succeed key, Fail key, Wake key, Abandon key}" "\<forall>ob. opn = Submit ob \<longrightarrow> obs_controller_id ob \<noteq> key"
  shows "map_of (pj_slots (projector_step opn p)) key = map_of (pj_slots p) key"
    and "map_of (pj_workers (projector_step opn p)) key = map_of (pj_workers p) key"
proof -
  have "map_of (pj_slots (projector_step opn p)) key = map_of (pj_slots p) key
      \<and> map_of (pj_workers (projector_step opn p)) key = map_of (pj_workers p) key"
  proof (cases opn)
    case (Submit ob)
    with assms(2) show ?thesis by (simp add: submit_key del: projector_step.simps)
  qed (use assms(1) in \<open>auto simp: worker_read_def worker_settle_def map_of_update map_of_delete_key Let_def
         split: option.splits worker.splits prod.splits if_splits\<close>)
  then show "map_of (pj_slots (projector_step opn p)) key = map_of (pj_slots p) key"
    "map_of (pj_workers (projector_step opn p)) key = map_of (pj_workers p) key" by auto
qed

lemma step_stopped: "pj_stopped (projector_step opn p) \<longleftrightarrow> pj_stopped p \<or> opn = Stop"
  by (cases opn)
    (auto simp: submit_def worker_settle_def Let_def split: option.splits worker.splits prod.splits if_splits)

text \<open>A slot is emptied only by its own worker, after the directory has acknowledged its content.\<close>

lemma succeed_key:
  assumes "map_of (pj_slots p) key = Some slot"
  shows "map_of (pj_slots (projector_step (Succeed key) p)) key =
      (if \<exists>ob. map_of (pj_workers p) key = Some (Calling ob (slot_generation slot)) then None else Some slot)"
    and "map_of (pj_workers (projector_step (Succeed key) p)) key =
      (case map_of (pj_workers p) key of
         Some (Calling ob g) \<Rightarrow> if g = slot_generation slot then None else Some Reading
       | wo \<Rightarrow> wo)"
  using assms
  by (auto simp: worker_settle_def map_of_update map_of_delete_key split: option.splits worker.splits)

lemma slot_gone:
  assumes "map_of (pj_slots p) key = Some slot" "map_of (pj_slots (projector_step opn p)) key = None"
  shows "opn = Succeed key \<and> (\<exists>ob. map_of (pj_workers p) key = Some (Calling ob (slot_generation slot)))"
proof (cases opn)
  case (Succeed k)
  show ?thesis
  proof (cases "k = key")
    case True
    with Succeed assms show ?thesis by (auto simp: succeed_key simp del: projector_step.simps split: if_splits)
  next
    case False
    with step_other_key(1) [of opn key p] Succeed assms show ?thesis by (simp del: projector_step.simps)
  qed
next
  case (Submit ob)
  with assms show ?thesis by (auto simp: submit_key simp del: projector_step.simps split: if_splits)
qed (use assms in \<open>auto split: option.splits worker.splits if_splits\<close>)

lemma worker_gone:
  assumes "map_of (pj_slots p) key = Some slot" "map_of (pj_workers (projector_step opn p)) key = None"
    and "map_of (pj_workers p) key \<noteq> None"
  shows "opn = Succeed key \<and> map_of (pj_slots (projector_step opn p)) key = None
    \<or> opn = Abandon key \<and> pj_stopped p \<and> map_of (pj_slots (projector_step opn p)) key = Some slot"
proof (cases "opn \<in> {Read key, Succeed key, Fail key, Wake key, Abandon key} \<or> (\<exists>ob. opn = Submit ob \<and> obs_controller_id ob = key)")
  case False
  then show ?thesis using step_other_key(2) [of opn key p] assms by auto
next
  case True
  then consider "opn = Succeed key" | "opn = Read key" | "opn = Fail key" | "opn = Wake key" | "opn = Abandon key"
    | ob where "opn = Submit ob" "obs_controller_id ob = key" by auto
  then show ?thesis
  proof cases
    case 1
    with assms show ?thesis
      by (auto simp: succeed_key simp del: projector_step.simps split: option.splits worker.splits if_splits)
  next
    case (6 ob)
    with assms show ?thesis by (auto simp: submit_key simp del: projector_step.simps)
  qed (use assms in \<open>auto simp: worker_read_def map_of_update split: option.splits worker.splits if_splits\<close>)
qed

lemma projector_step_inv:
  assumes "proj_inv n p"
  shows "proj_inv (Suc n) (projector_step opn p)"
  unfolding proj_inv_def
proof
  fix key
  let ?b = "pj_stopped p" and ?b' = "pj_stopped (projector_step opn p)"
  let ?so = "map_of (pj_slots p) key" and ?wo = "map_of (pj_workers p) key"
  have old: "key_inv n ?b ?so ?wo" using assms by (simp add: proj_inv_def)
  have grow: "key_inv (Suc n) ?b' so wo" if "key_inv n ?b so wo" for so wo
    using key_inv_mono [OF that] step_stopped by blast
  show "key_inv (Suc n) ?b' (map_of (pj_slots (projector_step opn p)) key) (map_of (pj_workers (projector_step opn p)) key)"
  proof (cases "opn \<in> {Read key, Succeed key, Fail key, Wake key, Abandon key} \<or> (\<exists>ob. opn = Submit ob \<and> obs_controller_id ob = key)")
    case False
    then show ?thesis using step_other_key [of opn key p] grow [OF old] by auto
  next
    case True
    show ?thesis
    proof (cases "\<exists>ob. opn = Submit ob")
      case True
      with \<open>_ \<or> _\<close> obtain ob where ob: "opn = Submit ob" "obs_controller_id ob = key" by auto
      show ?thesis
      proof (cases ?so)
        case None
        with ob show ?thesis
          by (auto simp: submit_key key_inv_def simp del: projector_step.simps intro!: exI [of _ 0])
      next
        case (Some slot)
        with key_inv_bump old step_stopped [of opn p] ob show ?thesis
          by (simp add: submit_key del: projector_step.simps)
      qed
    next
      case False
      show ?thesis
      proof (cases ?so)
        case None
        with old have "?wo = None" by (simp add: key_inv_empty)
        with False True None show ?thesis by (auto simp: key_inv_empty)
      next
        case (Some slot)
        note slot = this
        from False True consider "opn = Read key" | "opn = Succeed key" | "opn = Fail key" | "opn = Wake key" | "opn = Abandon key"
          by auto
        then show ?thesis
        proof cases
          case 1
          from old slot obtain m where "m \<le> n" "slot_generation slot = of_nat m" by (auto simp: key_inv_def)
          then have "key_inv n ?b (Some slot) (Some (Calling (slot_observation slot) (slot_generation slot)))"
            by (auto simp: key_inv_def)
          with grow grow [OF old] slot 1 show ?thesis
            by (auto simp: worker_read_def map_of_update split: option.splits worker.splits)
        next
          case 2
          with slot grow [OF old] grow [OF key_inv_idle [OF old [unfolded slot], of Reading]] show ?thesis
            by (auto simp: succeed_key key_inv_empty simp del: projector_step.simps split: option.splits worker.splits)
        next
          case 3
          with slot grow [OF old] grow [OF key_inv_idle [OF old [unfolded slot], of Sleeping]] show ?thesis
            by (auto simp: map_of_update split: option.splits worker.splits)
        next
          case 4
          with slot grow [OF old] grow [OF key_inv_idle [OF old [unfolded slot], of Reading]] show ?thesis
            by (auto simp: map_of_update split: option.splits worker.splits)
        next
          case 5
          have "key_inv (Suc n) True (Some slot) None" using old slot by (auto simp: key_inv_def intro: le_SucI)
          with 5 slot grow [OF old] show ?thesis
            by (auto simp: map_of_delete_key split: option.splits worker.splits)
        qed
      qed
    qed
  qed
qed

lemma projector_run_inv:
  "proj_inv n p \<Longrightarrow> proj_inv (n + length ops) (projector_run ops p)"
proof (induction ops arbitrary: n p)
  case (Cons opn ops)
  from Cons.IH [OF projector_step_inv [OF Cons.prems, of opn]] show ?case by simp
qed simp

lemma new_projector_inv: "proj_inv 0 new_projector"
  by (simp add: proj_inv_def new_projector_def key_inv_def)

lemma projector_run_stopped: "pj_stopped (projector_run ops p) \<longleftrightarrow> pj_stopped p \<or> Stop \<in> set ops"
  by (induction ops arbitrary: p) (auto simp: step_stopped simp del: projector_step.simps)

text \<open>Under the bound the generation test is exact.\<close>

lemma settle_current:
  assumes "proj_inv n p" "n < 2 ^ 64" "map_of (pj_workers p) key = Some (Calling ob g)"
    and "map_of (pj_slots p) key = Some slot" "slot_generation slot = g"
  shows "ob = slot_observation slot"
proof -
  have "key_inv n (pj_stopped p) (Some slot) (Some (Calling ob g))"
    using assms(1,3,4) unfolding proj_inv_def by metis
  then obtain m k where "m \<le> n" "slot_generation slot = of_nat m" "k \<le> m" "g = of_nat k"
    "k = m \<longrightarrow> ob = slot_observation slot"
    by (auto simp: key_inv_def)
  moreover from this assms(2) have "unat (of_nat m :: u64) = m" "unat (of_nat k :: u64) = k"
    by (simp_all add: unat_of_nat)
  ultimately show ?thesis using assms(5) by metis
qed

text \<open>The reconciler's table is exactly its live workers.\<close>

definition rec_inv :: "reconciler_system \<Rightarrow> bool" where
  "rec_inv s \<longleftrightarrow>
     or_tokens (rs_rec s) = length (rs_spawned s)
     \<and> or_next_generation (rs_rec s) = of_nat (Suc (length (rs_spawned s)))
     \<and> (\<forall>t < length (rs_spawned s). snd (rs_spawned s ! t) = of_nat (Suc t))
     \<and> (\<forall>c g t. map_of (or_workers (rs_rec s)) c = Some (g, t) \<longrightarrow>
          t < length (rs_spawned s) \<and> rs_spawned s ! t = (c, g))
     \<and> (\<forall>t. live_worker s t \<longrightarrow>
          map_of (or_workers (rs_rec s)) (fst (rs_spawned s ! t)) = Some (snd (rs_spawned s ! t), t))"

lemma rec_inv_workers:
  "rec_inv s \<Longrightarrow> map_of (or_workers (rs_rec s)) c = Some (g, t) \<Longrightarrow>
     t < length (rs_spawned s) \<and> rs_spawned s ! t = (c, g)"
  unfolding rec_inv_def by blast

lemma rec_inv_generation:
  "rec_inv s \<Longrightarrow> t < length (rs_spawned s) \<Longrightarrow> snd (rs_spawned s ! t) = of_nat (Suc t)"
  unfolding rec_inv_def by blast

lemma rec_inv_schedule:
  assumes "rec_inv s"
  shows "rec_inv (reconciler_step (Schedule c) s)"
proof -
  let ?r = "rs_rec s" and ?n = "length (rs_spawned s)"
  define s' where "s' = reconciler_step (Schedule c) s"
  have tok: "or_tokens ?r = ?n" "or_next_generation ?r = of_nat (Suc ?n)"
    using assms by (simp_all add: rec_inv_def)
  have spawned: "rs_spawned s' = rs_spawned s @ [(c, of_nat (Suc ?n))]"
    and workers: "map_of (or_workers (rs_rec s')) = (map_of (or_workers ?r))(c \<mapsto> (of_nat (Suc ?n), ?n))"
    and canc: "or_cancelled (rs_rec s') = (case map_of (or_workers ?r) c of None \<Rightarrow> or_cancelled ?r
        | Some (_, previous) \<Rightarrow> insert previous (or_cancelled ?r))"
    and fin: "rs_finished s' = rs_finished s"
    by (simp_all add: s'_def schedule_def Let_def tok map_of_update del: of_nat_Suc)
  have live: "map_of (or_workers (rs_rec s')) (fst (rs_spawned s' ! t)) = Some (snd (rs_spawned s' ! t), t)"
    if "live_worker s' t" for t
  proof (cases "t = ?n")
    case True
    then show ?thesis by (simp add: spawned workers nth_append)
  next
    case False
    with that have t: "t < ?n" by (simp add: live_worker_def spawned)
    with that have "live_worker s t"
      by (auto simp: live_worker_def fin canc split: option.splits)
    then have old: "map_of (or_workers ?r) (fst (rs_spawned s ! t)) = Some (snd (rs_spawned s ! t), t)"
      using assms by (simp add: rec_inv_def)
    have "fst (rs_spawned s ! t) \<noteq> c"
      using old that by (auto simp: live_worker_def canc)
    with old t show ?thesis by (simp add: spawned workers nth_append)
  qed
  have "or_tokens (rs_rec s') = Suc ?n" "or_next_generation (rs_rec s') = of_nat (Suc (Suc ?n))"
    by (simp_all add: s'_def schedule_def Let_def tok)
  moreover have "snd (rs_spawned s' ! t) = of_nat (Suc t)" if "t < length (rs_spawned s')" for t
    using assms that
    by (cases "t = length (rs_spawned s)") (simp_all add: rec_inv_def spawned nth_append del: of_nat_Suc)
  moreover have "t < length (rs_spawned s') \<and> rs_spawned s' ! t = (d, g)"
    if "map_of (or_workers (rs_rec s')) d = Some (g, t)" for d g t
  proof (cases "d = c")
    case True
    with that show ?thesis by (auto simp: spawned workers nth_append simp del: of_nat_Suc)
  next
    case False
    with that have "map_of (or_workers ?r) d = Some (g, t)" by (simp add: workers)
    then have "t < ?n \<and> rs_spawned s ! t = (d, g)" using assms by (simp add: rec_inv_def)
    then show ?thesis by (simp add: spawned nth_append)
  qed
  ultimately show ?thesis using live unfolding s'_def [symmetric] rec_inv_def by (simp add: spawned del: of_nat_Suc)
qed

lemma rec_inv_cancel: "rec_inv s \<Longrightarrow> rec_inv (reconciler_step (CancelWorker c) s)"
proof (cases "map_of (or_workers (rs_rec s)) c")
  case (Some gt)
  assume inv: "rec_inv s"
  obtain g t where gt: "gt = (g, t)" by fastforce
  define s' where "s' = reconciler_step (CancelWorker c) s"
  have workers: "map_of (or_workers (rs_rec s')) = (map_of (or_workers (rs_rec s)))(c := None)"
    and canc: "or_cancelled (rs_rec s') = insert t (or_cancelled (rs_rec s))"
    and same: "rs_spawned s' = rs_spawned s" "rs_finished s' = rs_finished s"
      "or_tokens (rs_rec s') = or_tokens (rs_rec s)"
      "or_next_generation (rs_rec s') = or_next_generation (rs_rec s)"
    using Some gt by (simp_all add: s'_def cancel_worker_def map_of_delete_key)
  have "map_of (or_workers (rs_rec s')) (fst (rs_spawned s ! u)) = Some (snd (rs_spawned s ! u), u)"
    if "live_worker s' u" for u
  proof -
    from that have "live_worker s u" "u \<noteq> t" by (auto simp: live_worker_def same canc)
    with inv Some gt show ?thesis by (auto simp: rec_inv_def workers)
  qed
  with inv show ?thesis unfolding s'_def [symmetric] rec_inv_def same by (auto simp: workers split: if_splits)
qed (simp add: cancel_worker_def)

lemma rec_inv_finish:
  assumes inv: "rec_inv s" and len: "length (rs_spawned s) < 2 ^ 64"
  shows "rec_inv (reconciler_step (Finish t) s)"
proof (cases "t < length (rs_spawned s) \<and> t \<notin> or_cancelled (rs_rec s)")
  case True
  define s' where "s' = reconciler_step (Finish t) s"
  obtain c g where cg: "rs_spawned s ! t = (c, g)" by fastforce
  have g: "g = of_nat (Suc t)" using rec_inv_generation [OF inv, of t] True cg by simp
  have mine: "u = t" if "map_of (or_workers (rs_rec s)) c = Some (g, u)" for u
  proof -
    have u: "u < length (rs_spawned s) \<and> rs_spawned s ! u = (c, g)"
      using rec_inv_workers [OF inv that] .
    have "g = of_nat (Suc u)" using rec_inv_generation [OF inv, of u] u by simp
    with g have "(of_nat (Suc u) :: u64) = of_nat (Suc t)" by simp
    then have "unat (of_nat (Suc u) :: u64) = unat (of_nat (Suc t) :: u64)" by simp
    moreover have "Suc u \<le> 2 ^ 64 - 1" "Suc t \<le> 2 ^ 64 - 1"
      using u True len by auto
    ultimately show ?thesis by (simp add: unat_of_nat del: of_nat_Suc)
  qed
  have rec': "rs_rec s' = worker_finished c g (rs_rec s)"
    using True cg by (simp add: s'_def)
  have workers: "map_of (or_workers (rs_rec s')) d =
      (if d = c \<and> map_of (or_workers (rs_rec s)) c = Some (g, t) then None else map_of (or_workers (rs_rec s)) d)" for d
  proof (cases "\<exists>u. map_of (or_workers (rs_rec s)) c = Some (g, u)")
    case True
    then obtain u where u: "map_of (or_workers (rs_rec s)) c = Some (g, u)" by blast
    from mine [OF u] u show ?thesis by (simp add: rec' worker_finished_def map_of_delete_key)
  next
    case False
    then show ?thesis by (simp add: rec' worker_finished_def split: option.split prod.split)
  qed
  have same: "rs_spawned s' = rs_spawned s" "rs_finished s' = insert t (rs_finished s)"
    "or_tokens (rs_rec s') = or_tokens (rs_rec s)" "or_cancelled (rs_rec s') = or_cancelled (rs_rec s)"
    "or_next_generation (rs_rec s') = or_next_generation (rs_rec s)"
    using True cg by (auto simp: s'_def worker_finished_def split: option.splits)
  have "map_of (or_workers (rs_rec s')) (fst (rs_spawned s ! u)) = Some (snd (rs_spawned s ! u), u)"
    if "live_worker s' u" for u
  proof -
    from that have "live_worker s u" "u \<noteq> t" by (auto simp: live_worker_def same)
    with inv have "map_of (or_workers (rs_rec s)) (fst (rs_spawned s ! u)) = Some (snd (rs_spawned s ! u), u)"
      by (simp add: rec_inv_def)
    with \<open>u \<noteq> t\<close> show ?thesis unfolding workers by (metis option.inject prod.inject)
  qed
  moreover have "v < length (rs_spawned s) \<and> rs_spawned s ! v = (d, h)"
    if "map_of (or_workers (rs_rec s')) d = Some (h, v)" for d h v
  proof -
    from that have "map_of (or_workers (rs_rec s)) d = Some (h, v)"
      unfolding workers by (simp split: if_splits)
    then show ?thesis by (rule rec_inv_workers [OF inv])
  qed
  ultimately show ?thesis
    using inv unfolding s'_def [symmetric] rec_inv_def same by blast
qed (use inv in auto)

lemma reconciler_run_inv:
  "rec_inv s \<Longrightarrow> length (rs_spawned s) + length ops < 2 ^ 64 \<Longrightarrow> rec_inv (reconciler_run ops s)"
proof (induction ops arbitrary: s)
  case (Cons opn ops)
  have "rec_inv (reconciler_step opn s)"
    using Cons.prems rec_inv_schedule rec_inv_cancel rec_inv_finish
    by (cases opn) (simp_all del: reconciler_step.simps)
  moreover have "length (rs_spawned (reconciler_step opn s)) \<le> Suc (length (rs_spawned s))"
    by (cases opn) (simp_all add: schedule_def Let_def split: prod.splits)
  ultimately show ?case using Cons by (simp del: reconciler_step.simps)
qed simp

lemma new_reconciler_inv: "rec_inv new_reconciler_system"
  by (simp add: rec_inv_def new_reconciler_system_def new_reconciler_def live_worker_def)

section \<open>Properties\<close>

text \<open>
  The observation clock is strictly increasing. However calls interleave and whatever the wall
  clock shows, backwards jumps included, the timestamps handed out below the largest signed value are
  all different and in increasing order of their successful exchanges.
\<close>

theorem observation_clock_increases:
  assumes "\<forall>t \<in> set (observe_all calls lst). t < 9223372036854775807"
  shows "sorted_wrt (<) (observe_all calls lst)"
  using assms
proof (induction calls arbitrary: lst)
  case (Cons call calls)
  obtain wall stale where call: "call = (wall, stale)" by fastforce
  let ?l = "max wall (saturating_add_u64 lst 1)"
  have "clamp_i64 ?l < t" if t: "t \<in> set (observe_all calls ?l)" for t
  proof -
    from t Cons.prems have "t < 9223372036854775807" by (simp add: call observe_all_Cons)
    with observe_all_ge [OF t] clamp_successor [of ?l] show ?thesis by linarith
  qed
  with Cons show ?case by (simp add: call observe_all_Cons)
qed simp

lemma observation_clock_increases_witness:
  "sorted_wrt (<) (observe_all [(100, []), (90, [5, 7]), (90, [])] 0)"
  by (rule observation_clock_increases)
    (simp add: observe_all_Cons saturating_add_u64_def clamp_unat max_def)

text \<open>
  C33: No observation is lost before shutdown. In every interleaving of submitters, workers, sleeps
  and the shutdown (shorter than 2^64 steps, the range of the generation counter) each occupied slot
  has a worker unless the projector has been stopped, stopped or not no step but an acknowledged
  directory call of its own worker empties a slot, and the observation acknowledged then is the
  slot's content at that moment, with every submission merged in. After the stop a worker may give
  up; its slot then keeps the latest observation.
\<close>

theorem projector_loses_nothing:
  assumes "length ops < 2 ^ 64" "p = projector_run ops new_projector"
    and "map_of (pj_slots p) key = Some slot"
  shows "(map_of (pj_workers p) key = None \<longrightarrow> Stop \<in> set ops)
    \<and> (map_of (pj_slots (projector_step opn p)) key = None \<longrightarrow>
         opn = Succeed key
         \<and> pj_projected (projector_step opn p) = (key, slot_observation slot) # pj_projected p
         \<and> map_of (pj_workers (projector_step opn p)) key = None)
    \<and> (map_of (pj_workers (projector_step opn p)) key = None \<and> map_of (pj_workers p) key \<noteq> None \<longrightarrow>
         (opn = Succeed key \<and> map_of (pj_slots (projector_step opn p)) key = None)
         \<or> (opn = Abandon key \<and> Stop \<in> set ops \<and> map_of (pj_slots (projector_step opn p)) key = Some slot))"
proof -
  have inv: "proj_inv (length ops) p"
    using projector_run_inv [OF new_projector_inv, of ops] assms(2) by simp
  have stop: "pj_stopped p \<longleftrightarrow> Stop \<in> set ops"
    by (simp add: assms(2) projector_run_stopped) (simp add: new_projector_def)
  from inv have "key_inv (length ops) (pj_stopped p) (Some slot) (map_of (pj_workers p) key)"
    using assms(3) unfolding proj_inv_def by metis
  then have "map_of (pj_workers p) key = None \<longrightarrow> Stop \<in> set ops" by (simp add: key_inv_def stop)
  moreover have "opn = Succeed key
      \<and> pj_projected (projector_step opn p) = (key, slot_observation slot) # pj_projected p
      \<and> map_of (pj_workers (projector_step opn p)) key = None"
    if gone: "map_of (pj_slots (projector_step opn p)) key = None"
  proof -
    from slot_gone [OF assms(3) gone] obtain ob
      where o: "opn = Succeed key" "map_of (pj_workers p) key = Some (Calling ob (slot_generation slot))" by blast
    with settle_current [OF inv assms(1) o(2) assms(3)] assms(3) show ?thesis
      by (simp add: worker_settle_def map_of_delete_key)
  qed
  ultimately show ?thesis using worker_gone [OF assms(3)] stop by metis
qed

definition sample_observation :: "u64 option \<Rightarrow> ControllerRuntimeObservation" where
  "sample_observation v =
     \<lparr>obs_controller_id = ''c1'', obs_session_id = ''s1'', obs_ownership_fence = None,
      obs_sync_version = v, obs_watch_server_id = None, obs_resource_count = None,
      obs_resource_counts_by_kind = None, obs_stats_updated_unix_ms = None,
      obs_watch_updated_unix_ms = None, obs_observed_at_unix_ms = 1\<rparr>"

lemma projector_loses_nothing_witness:
  "let p = projector_run [Submit (sample_observation (Some 3)), Read ''c1'', Submit (sample_observation None),
                          Succeed ''c1'', Read ''c1''] new_projector
   in map_of (pj_slots (projector_step (Succeed ''c1'') p)) ''c1'' = None
      \<and> fst (hd (pj_projected (projector_step (Succeed ''c1'') p))) = ''c1''
      \<and> obs_sync_version (snd (hd (pj_projected (projector_step (Succeed ''c1'') p)))) = Some 3"
proof -
  let ?ops = "[Submit (sample_observation (Some 3)), Read ''c1'', Submit (sample_observation None),
               Succeed ''c1'', Read ''c1'']"
  let ?p = "projector_run ?ops new_projector"
  have slot: "map_of (pj_slots ?p) ''c1'' =
      Some \<lparr>slot_observation = sample_observation (Some 3), slot_generation = 1\<rparr>"
    and gone: "map_of (pj_slots (projector_step (Succeed ''c1'') ?p)) ''c1'' = None"
    by code_simp+
  from projector_loses_nothing [OF _ refl slot, of "Succeed ''c1''"] gone show ?thesis
    by (simp add: Let_def sample_observation_def del: projector_step.simps projector_run.simps)
qed

text \<open>
  Projection makes progress. As long as the projector is not stopped and the directory answers, a
  slot drains: from every reachable state at most a wake-up, an answer, a read and an answer empty the
  slot and leave its last content projected.
\<close>

theorem projector_drains:
  assumes "length ops < 2 ^ 64" "p = projector_run ops new_projector" "Stop \<notin> set ops"
    and "map_of (pj_slots p) key = Some slot"
  shows "\<exists>rest. map_of (pj_slots (projector_run rest p)) key = None
     \<and> hd (pj_projected (projector_run rest p)) = (key, slot_observation slot)
     \<and> set rest \<subseteq> {Succeed key, Read key, Wake key} \<and> length rest \<le> 3"
proof -
  have inv: "proj_inv (length ops) p"
    using projector_run_inv [OF new_projector_inv, of ops] assms(2) by simp
  have "\<not> pj_stopped p"
    using assms(3) by (simp add: assms(2) projector_run_stopped) (simp add: new_projector_def)
  with inv have "key_inv (length ops) False (Some slot) (map_of (pj_workers p) key)"
    using assms(4) unfolding proj_inv_def by metis
  then obtain w where w: "map_of (pj_workers p) key = Some w" by (auto simp: key_inv_def)
  show ?thesis
  proof (cases w)
    case Reading
    with w assms(4) show ?thesis
      by (intro exI [of _ "[Read key, Succeed key]"])
        (simp add: worker_read_def worker_settle_def map_of_update map_of_delete_key)
  next
    case Sleeping
    with w assms(4) show ?thesis
      by (intro exI [of _ "[Wake key, Read key, Succeed key]"])
        (simp add: worker_read_def worker_settle_def map_of_update map_of_delete_key)
  next
    case (Calling ob g)
    show ?thesis
    proof (cases "slot_generation slot = g")
      case True
      with settle_current [OF inv assms(1) w [unfolded Calling] assms(4)] w Calling assms(4) show ?thesis
        by (intro exI [of _ "[Succeed key]"]) (simp add: worker_settle_def map_of_delete_key)
    next
      case False
      with w Calling assms(4) show ?thesis
        by (intro exI [of _ "[Succeed key, Read key, Succeed key]"])
          (simp add: worker_read_def worker_settle_def map_of_update map_of_delete_key)
    qed
  qed
qed

lemma projector_drains_witness:
  "\<exists>rest. map_of (pj_slots (projector_run rest (projector_run [Submit (sample_observation (Some 3))] new_projector))) ''c1'' = None"
proof -
  have "map_of (pj_slots (projector_run [Submit (sample_observation (Some 3))] new_projector)) ''c1'' =
      Some \<lparr>slot_observation = sample_observation (Some 3), slot_generation = 0\<rparr>"
    by code_simp
  from projector_drains [OF _ refl _ this] show ?thesis by auto
qed

text \<open>
  One offline worker per Controller. In every history of schedules, cancellations and finished
  workers (shorter than 2^64), a worker that is still running is the one the table holds for its
  Controller; so reconnect churn never accumulates workers, and a finished worker never unregisters
  its successor.
\<close>

theorem one_offline_worker:
  assumes "length ops < 2 ^ 64" "s = reconciler_run ops new_reconciler_system"
    and "live_worker s t" "live_worker s u" "fst (rs_spawned s ! t) = fst (rs_spawned s ! u)"
  shows "t = u \<and> map_of (or_workers (rs_rec s)) (fst (rs_spawned s ! t)) = Some (snd (rs_spawned s ! t), t)"
proof -
  have "rec_inv s"
    using reconciler_run_inv [OF new_reconciler_inv] assms(1,2) by (simp add: new_reconciler_system_def)
  then have "map_of (or_workers (rs_rec s)) (fst (rs_spawned s ! t)) = Some (snd (rs_spawned s ! t), t)"
    "map_of (or_workers (rs_rec s)) (fst (rs_spawned s ! u)) = Some (snd (rs_spawned s ! u), u)"
    using assms(3,4) by (simp_all add: rec_inv_def)
  with assms(5) show ?thesis by (metis option.inject prod.inject)
qed

lemma one_offline_worker_witness:
  "let s = reconciler_run [Schedule ''c1'', Schedule ''c1'', Finish 0] new_reconciler_system
   in live_worker s 1 \<and> map_of (or_workers (rs_rec s)) ''c1'' = Some (2, 1)"
proof -
  let ?s = "reconciler_run [Schedule ''c1'', Schedule ''c1'', Finish 0] new_reconciler_system"
  have live: "live_worker ?s 1" and nth: "rs_spawned ?s ! 1 = (''c1'', 2)"
    by code_simp+
  from one_offline_worker [OF _ refl live live refl] nth live show ?thesis
    by (simp add: Let_def del: reconciler_run.simps)
qed

end
