(* ===== verification/Ownership.thy ===== *)
theory Ownership
  imports Controller_Core
begin

text \<open>
  Keeping the ownership Lease of one session: \<open>maintain_ownership\<close>, \<open>release_ownership\<close> and
  \<open>OwnershipTaskTracker\<close> of \<open>crates/center-runtime/src/federation/server.rs\<close>.

  The coordinator, the clock and the cancellation of the session are the environment: a pass of the
  loop is given their answers as a \<open>round_env\<close>, and the task is the sequence of the calls and stores
  it makes, each renewal with its answer and the instant it arrived. Durations and instants are in nanoseconds; \<open>Instant::checked_add\<close> overflows above the
  platform's last instant, the argument \<open>horizon\<close>.
\<close>

section \<open>The maintenance task\<close>

definition COORDINATION_OPERATION_TIMEOUT :: nat where
  "COORDINATION_OPERATION_TIMEOUT = 3000000000"

definition from_millis :: "u64 \<Rightarrow> nat" where
  "from_millis ms = 1000000 * unat ms"

definition instant_add :: "nat \<Rightarrow> nat \<Rightarrow> nat \<Rightarrow> nat option" where
  "instant_add horizon t d = (if t + d \<le> horizon then Some (t + d) else None)"

datatype own_action =
    CancelOwnershipLost
  | InvalidateOwnership
  | CancelSession
  | SleepFor nat
  | CallRenew Leadership nat "RenewalOutcome CoreResult option" nat
  | CallRelease Leadership nat

record round_env =
  re_cancelled :: bool
  re_woken_at :: nat
  re_answer :: "RenewalOutcome CoreResult option"
  re_answered_at :: nat
  re_checked_at :: nat

record maintainer =
  mt_leadership :: Leadership
  mt_valid_for :: nat
  mt_deadline :: nat

definition lose :: "own_action list" where
  "lose = [CancelOwnershipLost, InvalidateOwnership, CancelSession]"

definition release_ownership :: "Leadership \<Rightarrow> own_action list" where
  "release_ownership l = [CallRelease l COORDINATION_OPERATION_TIMEOUT]"

text \<open>
  One pass of the loop: the actions, the task's variables after it, and whether it goes round again.
  \<open>expiry_check\<close> is the test at the end of the pass.
\<close>

definition expiry_check :: "nat \<Rightarrow> maintainer \<Rightarrow> own_action list \<times> maintainer \<times> bool" where
  "expiry_check now st = (if mt_deadline st \<le> now then (lose, st, False) else ([], st, True))"

definition prepend :: "own_action list \<Rightarrow> own_action list \<times> maintainer \<times> bool \<Rightarrow> own_action list \<times> maintainer \<times> bool" where
  "prepend as = (\<lambda>(bs, st, continue). (as @ bs, st, continue))"

definition maintain_round :: "nat \<Rightarrow> round_env \<Rightarrow> maintainer \<Rightarrow> own_action list \<times> maintainer \<times> bool" where
  "maintain_round horizon e st =
     (if mt_valid_for st = 0 then (lose, st, False)
      else
        let renew_after = max (mt_valid_for st div 3) 100000000
        in prepend [SleepFor renew_after]
          (if re_cancelled e then ([], st, False)
           else
             let remaining = mt_deadline st - re_woken_at e
             in if remaining = 0 then (lose, st, False)
                else
                  prepend [CallRenew (mt_leadership st) (min COORDINATION_OPERATION_TIMEOUT remaining)
                             (re_answer e) (re_answered_at e)]
                    (case re_answer e of
                       Some (Inr (Renewed l)) \<Rightarrow>
                         (let valid_for = from_millis (lead_valid_for_millis l)
                          in case instant_add horizon (re_answered_at e) valid_for of
                               None \<Rightarrow> (lose, st\<lparr>mt_valid_for := valid_for\<rparr>, False)
                             | Some deadline \<Rightarrow>
                                 expiry_check (re_checked_at e)
                                   \<lparr>mt_leadership = l, mt_valid_for = valid_for, mt_deadline = deadline\<rparr>)
                     | Some (Inr RenewalLost) \<Rightarrow> (lose, st, False)
                     | Some (Inl _) \<Rightarrow> expiry_check (re_checked_at e) st
                     | None \<Rightarrow> expiry_check (re_checked_at e) st)))"

text \<open>
  The task over the answers so far: the actions, the final or current variables, and whether it has
  returned.
\<close>

fun maintain_loop :: "nat \<Rightarrow> round_env list \<Rightarrow> maintainer \<Rightarrow> own_action list \<times> maintainer \<times> bool" where
  "maintain_loop horizon [] st = ([], st, False)"
| "maintain_loop horizon (e # es) st =
     (let (as, st', continue) = maintain_round horizon e st
      in if continue then (let (bs, st'', finished) = maintain_loop horizon es st' in (as @ bs, st'', finished))
         else (as @ [InvalidateOwnership] @ release_ownership (mt_leadership st'), st', True))"

definition maintain_ownership :: "nat \<Rightarrow> nat \<Rightarrow> Leadership \<Rightarrow> round_env list \<Rightarrow> own_action list \<times> maintainer \<times> bool" where
  "maintain_ownership horizon now l es =
     (let valid_for = from_millis (lead_valid_for_millis l)
      in case instant_add horizon now valid_for of
           None \<Rightarrow> (lose @ release_ownership l, \<lparr>mt_leadership = l, mt_valid_for = valid_for, mt_deadline = 0\<rparr>, True)
         | Some deadline \<Rightarrow>
             maintain_loop horizon es \<lparr>mt_leadership = l, mt_valid_for = valid_for, mt_deadline = deadline\<rparr>)"

section \<open>The task tracker\<close>

text \<open>
  \<open>OwnershipTaskTracker\<close> with one task waiting in \<open>wait\<close>. A finished task first decrements the
  counter and then notifies; \<open>notify_waiters\<close> wakes every \<open>Notified\<close> created before it, so a
  \<open>Notified\<close> is the number of notifications before its creation.
\<close>

datatype waiter = Starting | Armed nat | Sleeping nat | Returned

record task_tracker =
  tt_active :: nat
  tt_unnotified :: nat
  tt_notifications :: nat
  tt_waiter :: waiter

definition tracker_spawn :: "task_tracker \<Rightarrow> task_tracker" where
  "tracker_spawn t = t\<lparr>tt_active := Suc (tt_active t)\<rparr>"

definition guard_decrement :: "task_tracker \<Rightarrow> task_tracker" where
  "guard_decrement t = t\<lparr>tt_active := tt_active t - 1, tt_unnotified := Suc (tt_unnotified t)\<rparr>"

definition guard_notify :: "task_tracker \<Rightarrow> task_tracker" where
  "guard_notify t = t\<lparr>tt_unnotified := tt_unnotified t - 1, tt_notifications := Suc (tt_notifications t)\<rparr>"

definition wait_step :: "task_tracker \<Rightarrow> task_tracker option" where
  "wait_step t =
     (case tt_waiter t of
        Starting \<Rightarrow> Some (t\<lparr>tt_waiter := Armed (tt_notifications t)\<rparr>)
      | Armed n \<Rightarrow> Some (t\<lparr>tt_waiter := if tt_active t = 0 then Returned else Sleeping n\<rparr>)
      | Sleeping n \<Rightarrow> if n < tt_notifications t then Some (t\<lparr>tt_waiter := Starting\<rparr>) else None
      | Returned \<Rightarrow> None)"

inductive tracker_step :: "task_tracker \<Rightarrow> task_tracker \<Rightarrow> bool" where
  spawned: "tracker_step t (tracker_spawn t)"
| decremented: "0 < tt_active t \<Longrightarrow> tracker_step t (guard_decrement t)"
| notified: "0 < tt_unnotified t \<Longrightarrow> tracker_step t (guard_notify t)"
| waited: "wait_step t = Some t' \<Longrightarrow> tracker_step t t'"

definition initial_tracker :: task_tracker where
  "initial_tracker = \<lparr>tt_active = 0, tt_unnotified = 0, tt_notifications = 0, tt_waiter = Starting\<rparr>"

definition tracker_inv :: "task_tracker \<Rightarrow> bool" where
  "tracker_inv t \<longleftrightarrow>
     (case tt_waiter t of
        Armed n \<Rightarrow> n \<le> tt_notifications t
      | Sleeping n \<Rightarrow> n \<le> tt_notifications t \<and> (0 < tt_active t \<or> 0 < tt_unnotified t \<or> n < tt_notifications t)
      | _ \<Rightarrow> True)"

lemma tracker_inv_step: "tracker_step t t' \<Longrightarrow> tracker_inv t \<Longrightarrow> tracker_inv t'"
  by (induction rule: tracker_step.induct)
    (auto simp: tracker_inv_def tracker_spawn_def guard_decrement_def guard_notify_def wait_step_def
      split: waiter.splits if_splits)

lemma tracker_reachable: "tracker_step\<^sup>*\<^sup>* initial_tracker t \<Longrightarrow> tracker_inv t"
  by (induction rule: rtranclp_induct) (simp add: tracker_inv_def initial_tracker_def, rule tracker_inv_step)

section \<open>Lemmas\<close>

text \<open>The last grant the task has adopted, with the instant at which it was received.\<close>

fun adopt :: "nat \<Rightarrow> own_action \<Rightarrow> nat \<times> Leadership \<Rightarrow> nat \<times> Leadership" where
  "adopt horizon (CallRenew _ _ (Some (Inr (Renewed l))) t) g =
     (if t + from_millis (lead_valid_for_millis l) \<le> horizon then (t, l) else g)"
| "adopt horizon _ g = g"

definition last_grant :: "nat \<Rightarrow> own_action list \<Rightarrow> nat \<times> Leadership \<Rightarrow> nat \<times> Leadership" where
  "last_grant horizon as g = fold (adopt horizon) as g"

lemma last_grant_simps [simp]:
  "last_grant horizon [] g = g"
  "last_grant horizon (a # as) g = last_grant horizon as (adopt horizon a g)"
  "last_grant horizon (as @ bs) g = last_grant horizon bs (last_grant horizon as g)"
  by (simp_all add: last_grant_def)

lemma last_grant_lose [simp]: "last_grant horizon lose g = g"
  by (simp add: lose_def)

definition grant_deadline :: "nat \<times> Leadership \<Rightarrow> nat" where
  "grant_deadline = (\<lambda>(t, l). t + from_millis (lead_valid_for_millis l))"

definition represents :: "nat \<times> Leadership \<Rightarrow> maintainer \<Rightarrow> bool" where
  "represents g st \<longleftrightarrow> mt_leadership st = snd g \<and> mt_deadline st = grant_deadline g"

lemmas round_defs = maintain_round_def prepend_def expiry_check_def lose_def Let_def instant_add_def

lemma prepend_eq:
  "prepend as r = (bs, st, k) \<longleftrightarrow> (\<exists>cs. r = (cs, st, k) \<and> bs = as @ cs)"
  by (auto simp: prepend_def split: prod.splits)

lemma expiry_check_cases:
  "expiry_check now st = (as, st', k) \<longleftrightarrow> st' = st \<and> (if mt_deadline st \<le> now then as = lose \<and> \<not> k else as = [] \<and> k)"
  by (auto simp: expiry_check_def)

lemma no_release_lose: "CallRelease l d \<notin> set lose"
  by (simp add: lose_def)

lemma round_no_release:
  assumes "maintain_round horizon e st = (as, st', k)"
  shows "CallRelease l d \<notin> set as"
  using assms no_release_lose
  by (auto simp: maintain_round_def Let_def prepend_eq expiry_check_cases
      split: if_splits option.splits sum.splits RenewalOutcome.splits)

lemma round_adopts:
  assumes "maintain_round horizon e st = (as, st', k)" "represents g st"
  shows "mt_leadership st' = snd (last_grant horizon as g)"
  using assms
  by (auto simp: maintain_round_def Let_def prepend_eq expiry_check_cases instant_add_def represents_def
      split: if_splits option.splits sum.splits RenewalOutcome.splits)

lemma round_continues:
  assumes "maintain_round horizon e st = (as, st', True)" "represents g st"
  shows "represents (last_grant horizon as g) st' \<and> re_checked_at e < mt_deadline st'
     \<and> InvalidateOwnership \<notin> set as"
  using assms
  by (auto simp: maintain_round_def Let_def prepend_eq expiry_check_cases instant_add_def represents_def
      grant_deadline_def split: if_splits option.splits sum.splits RenewalOutcome.splits)

lemma maintain_loop_running:
  assumes "maintain_loop horizon es st = (as, st', False)" "represents g st"
  shows "represents (last_grant horizon as g) st' \<and> InvalidateOwnership \<notin> set as
     \<and> (es \<noteq> [] \<longrightarrow> re_checked_at (last es) < mt_deadline st') \<and> (\<forall>l d. CallRelease l d \<notin> set as)"
  using assms
proof (induction es arbitrary: st g as)
  case (Cons e es)
  from Cons.prems(1) obtain bs st1 cs where r: "maintain_round horizon e st = (bs, st1, True)"
    and l: "maintain_loop horizon es st1 = (cs, st', False)" and as: "as = bs @ cs"
    by (auto simp: Let_def split: prod.splits if_splits)
  note c = round_continues [OF r Cons.prems(2)]
  have "es = [] \<Longrightarrow> st1 = st'" using l by simp
  with Cons.IH [OF l conjunct1 [OF c]] c round_no_release [OF r] show ?case
    by (auto simp: as)
qed simp

lemma maintain_loop_finished:
  assumes "maintain_loop horizon es st = (as, st', True)" "represents g st"
  shows "\<exists>pre. as = pre @ [InvalidateOwnership, CallRelease (snd (last_grant horizon pre g)) COORDINATION_OPERATION_TIMEOUT]
     \<and> (\<forall>l d. CallRelease l d \<notin> set pre)"
  using assms
proof (induction es arbitrary: st g as)
  case (Cons e es)
  obtain bs st1 k where r: "maintain_round horizon e st = (bs, st1, k)"
    by (cases "maintain_round horizon e st") auto
  show ?case
  proof (cases k)
    case True
    with Cons.prems(1) r obtain cs where l: "maintain_loop horizon es st1 = (cs, st', True)" and as: "as = bs @ cs"
      by (auto simp: Let_def split: prod.splits)
    from True r have "represents (last_grant horizon bs g) st1"
      using round_continues Cons.prems(2) by simp
    from Cons.IH [OF l this] obtain pre where
      "cs = pre @ [InvalidateOwnership, CallRelease (snd (last_grant horizon pre (last_grant horizon bs g))) COORDINATION_OPERATION_TIMEOUT]"
      "\<forall>l d. CallRelease l d \<notin> set pre" by blast
    with round_no_release [OF r] show ?thesis by (intro exI [of _ "bs @ pre"]) (simp add: as)
  next
    case False
    with Cons.prems(1) r round_adopts [OF r Cons.prems(2)] round_no_release [OF r] show ?thesis
      by (auto simp: release_ownership_def)
  qed
qed simp

lemma initial_represents:
  "represents (now, l) \<lparr>mt_leadership = l, mt_valid_for = from_millis (lead_valid_for_millis l),
     mt_deadline = now + from_millis (lead_valid_for_millis l)\<rparr>"
  by (simp add: represents_def grant_deadline_def)

text \<open>Without a new grant the deadline stays, and a pass that ends after it ends the task.\<close>

definition not_renewed :: "round_env \<Rightarrow> bool" where
  "not_renewed e \<longleftrightarrow> (case re_answer e of Some (Inr (Renewed _)) \<Rightarrow> False | _ \<Rightarrow> True)"

lemma expired_pass_ends:
  assumes "maintain_loop horizon es st = (as, st', k)" "\<forall>e \<in> set es. not_renewed e"
    and "e \<in> set es" "mt_deadline st \<le> re_checked_at e"
  shows k
  using assms
proof (induction es arbitrary: st as)
  case (Cons x es)
  obtain bs st1 c where r: "maintain_round horizon x st = (bs, st1, c)"
    by (cases "maintain_round horizon x st") auto
  have keep: "c \<Longrightarrow> st1 = st \<and> re_checked_at x < mt_deadline st"
    using r Cons.prems(2)
    by (auto simp: maintain_round_def Let_def prepend_eq expiry_check_cases not_renewed_def
        split: if_splits option.splits sum.splits RenewalOutcome.splits)
  show ?case
  proof (cases c)
    case True
    with Cons.prems(1) r obtain cs where "maintain_loop horizon es st1 = (cs, st', k)"
      by (auto simp: Let_def split: prod.splits)
    with Cons.IH [of st1 cs] keep True Cons.prems(2-4) show ?thesis by auto
  qed (use Cons.prems(1) r in simp)
qed simp

section \<open>Properties\<close>

definition sample_leadership :: Leadership where
  "sample_leadership =
     \<lparr>lead_role = ControllerOwner ''c1'', lead_holder = ''r1'', lead_fencing_token = ''t1'',
      lead_fencing_epoch = 3, lead_valid_for_millis = 15000\<rparr>"

definition sample_rounds :: "round_env list" where
  "sample_rounds =
     [\<lparr>re_cancelled = False, re_woken_at = 5000000000, re_answer = Some (Inr (Renewed sample_leadership)),
       re_answered_at = 5100000000, re_checked_at = 5100000000\<rparr>,
      \<lparr>re_cancelled = False, re_woken_at = 10100000000, re_answer = None,
       re_answered_at = 13100000000, re_checked_at = 13100000000\<rparr>]"

lemmas sample_ownership_defs = sample_leadership_def sample_rounds_def

text \<open>
  C9: A task that has returned has handed its ownership over in a safe order: the cached ownership of
  the session is invalidated before the one release of the Lease, the release is the last thing the
  task does, and it presents the leadership of the last grant the task adopted.
\<close>

theorem ownership_invalidated_before_release:
  assumes "maintain_ownership horizon now l es = (as, st, True)"
  shows "\<exists>pre. as = pre @ [CallRelease (snd (last_grant horizon pre (now, l))) COORDINATION_OPERATION_TIMEOUT]
     \<and> InvalidateOwnership \<in> set pre \<and> (\<forall>l d. CallRelease l d \<notin> set pre)"
proof (cases "now + from_millis (lead_valid_for_millis l) \<le> horizon")
  case True
  with assms maintain_loop_finished [OF _ initial_represents, of horizon es l now as st]
  obtain pre where "as = pre @ [InvalidateOwnership, CallRelease (snd (last_grant horizon pre (now, l))) COORDINATION_OPERATION_TIMEOUT]"
    "\<forall>l d. CallRelease l d \<notin> set pre"
    by (auto simp: maintain_ownership_def Let_def instant_add_def)
  then show ?thesis by (intro exI [of _ "pre @ [InvalidateOwnership]"]) simp
next
  case False
  with assms show ?thesis
    by (auto simp: maintain_ownership_def Let_def instant_add_def release_ownership_def lose_def)
qed

theorem ownership_invalidated_before_release_witness:
  "\<exists>pre. fst (maintain_ownership (2 ^ 60) 0 sample_leadership
               (sample_rounds @ [\<lparr>re_cancelled = True, re_woken_at = 0, re_answer = None, re_answered_at = 0, re_checked_at = 0\<rparr>]))
       = pre @ [CallRelease (snd (last_grant (2 ^ 60) pre (0, sample_leadership))) COORDINATION_OPERATION_TIMEOUT]"
proof -
  let ?es = "sample_rounds @ [\<lparr>re_cancelled = True, re_woken_at = 0, re_answer = None, re_answered_at = 0, re_checked_at = 0\<rparr>]"
  let ?r = "maintain_ownership (2 ^ 60) 0 sample_leadership ?es"
  have "snd (snd ?r)" by (simp add: sample_ownership_defs maintain_ownership_def from_millis_def round_defs COORDINATION_OPERATION_TIMEOUT_def)
  then have "?r = (fst ?r, fst (snd ?r), True)" by (simp add: prod_eq_iff)
  from ownership_invalidated_before_release [OF this] show ?thesis by blast
qed

text \<open>
  While the task runs, the session's ownership is backed by a grant that had not expired: after
  every pass that goes round again, the instant of its last check is before the deadline, which is
  the validity of the last adopted grant counted from the moment it was received, and neither the
  session's ownership has been invalidated nor the Lease released.
\<close>

theorem running_ownership_is_unexpired:
  assumes "maintain_ownership horizon now l es = (as, st, False)" "es \<noteq> []"
  shows "re_checked_at (last es) < grant_deadline (last_grant horizon as (now, l))
     \<and> mt_leadership st = snd (last_grant horizon as (now, l))
     \<and> InvalidateOwnership \<notin> set as \<and> (\<forall>l d. CallRelease l d \<notin> set as)"
proof -
  from assms(1) have "maintain_loop horizon es
      \<lparr>mt_leadership = l, mt_valid_for = from_millis (lead_valid_for_millis l),
       mt_deadline = now + from_millis (lead_valid_for_millis l)\<rparr> = (as, st, False)"
    by (auto simp: maintain_ownership_def Let_def instant_add_def split: if_splits)
  from maintain_loop_running [OF this initial_represents] assms(2) show ?thesis
    by (simp add: represents_def)
qed

theorem running_ownership_is_unexpired_witness:
  "re_checked_at (last sample_rounds) <
     grant_deadline (last_grant (2 ^ 60) (fst (maintain_ownership (2 ^ 60) 0 sample_leadership sample_rounds)) (0, sample_leadership))"
proof -
  let ?r = "maintain_ownership (2 ^ 60) 0 sample_leadership sample_rounds"
  have "\<not> snd (snd ?r)" by (simp add: sample_ownership_defs maintain_ownership_def from_millis_def round_defs COORDINATION_OPERATION_TIMEOUT_def)
  then have "?r = (fst ?r, fst (snd ?r), False)" by (simp add: prod_eq_iff)
  from running_ownership_is_unexpired [OF this] show ?thesis by (simp add: sample_rounds_def)
qed

text \<open>
  A session does not outlive its Lease: if no renewal succeeds and the end of some pass is at or
  after the deadline of the first grant, the task has returned, so by then the ownership is
  invalidated and the Lease released.
\<close>

theorem unrenewed_ownership_ends:
  assumes "\<forall>e \<in> set es. not_renewed e" "e \<in> set es"
    and "now + from_millis (lead_valid_for_millis l) \<le> re_checked_at e"
  shows "snd (snd (maintain_ownership horizon now l es))"
proof (cases "now + from_millis (lead_valid_for_millis l) \<le> horizon")
  case True
  let ?st = "\<lparr>mt_leadership = l, mt_valid_for = from_millis (lead_valid_for_millis l),
     mt_deadline = now + from_millis (lead_valid_for_millis l)\<rparr>"
  have "maintain_loop horizon es ?st = (fst (maintain_loop horizon es ?st), fst (snd (maintain_loop horizon es ?st)),
      snd (snd (maintain_loop horizon es ?st)))" by simp
  from expired_pass_ends [OF this assms(1,2)] True assms(3) show ?thesis
    by (simp add: maintain_ownership_def Let_def instant_add_def)
qed (simp add: maintain_ownership_def Let_def instant_add_def)

theorem unrenewed_ownership_ends_witness:
  "snd (snd (maintain_ownership (2 ^ 60) 0 sample_leadership
     [\<lparr>re_cancelled = False, re_woken_at = 5000000000, re_answer = Some (Inl (Adapter ''down'')),
       re_answered_at = 15000000000, re_checked_at = 15000000000\<rparr>]))"
proof -
  define e where "e = \<lparr>re_cancelled = False, re_woken_at = 5000000000, re_answer = Some (Inl (Adapter ''down'')),
    re_answered_at = 15000000000, re_checked_at = 15000000000\<rparr>"
  show ?thesis
    unfolding e_def [symmetric]
    by (rule unrenewed_ownership_ends [of _ e]) (simp_all add: not_renewed_def sample_leadership_def from_millis_def e_def)
qed

text \<open>
  \<open>OwnershipTaskTracker::wait\<close> has no lost wakeup: in every interleaving of spawning tasks,
  finishing tasks and the waiter, a waiter that sleeps once all tasks have finished and notified is
  able to take its next step.
\<close>

theorem tracker_no_lost_wakeup:
  assumes "tracker_step\<^sup>*\<^sup>* initial_tracker t" "tt_active t = 0" "tt_unnotified t = 0" "tt_waiter t \<noteq> Returned"
  shows "\<exists>t'. wait_step t = Some t'"
  using tracker_reachable [OF assms(1)] assms(2-4)
  by (auto simp: tracker_inv_def wait_step_def split: waiter.splits)

theorem tracker_no_lost_wakeup_witness:
  "\<exists>t'. wait_step \<lparr>tt_active = 0, tt_unnotified = 0, tt_notifications = 1, tt_waiter = Sleeping 0\<rparr> = Some t'"
proof -
  let ?t0 = "tracker_spawn initial_tracker"
  let ?t1 = "the (wait_step (the (wait_step ?t0)))"
  let ?t2 = "guard_notify (guard_decrement ?t1)"
  note defs = initial_tracker_def tracker_spawn_def wait_step_def guard_decrement_def guard_notify_def
  have "tracker_step initial_tracker ?t0" by (rule spawned)
  moreover have "tracker_step ?t0 (the (wait_step ?t0))" by (rule waited) (simp add: defs)
  moreover have "tracker_step (the (wait_step ?t0)) ?t1" by (rule waited) (simp add: defs)
  moreover have "tracker_step ?t1 (guard_decrement ?t1)" by (rule decremented) (simp add: defs)
  moreover have "tracker_step (guard_decrement ?t1) ?t2" by (rule notified) (simp add: defs)
  ultimately have "tracker_step\<^sup>*\<^sup>* initial_tracker ?t2" by (meson rtranclp.rtrancl_into_rtrancl rtranclp.rtrancl_refl)
  moreover have "?t2 = \<lparr>tt_active = 0, tt_unnotified = 0, tt_notifications = 1, tt_waiter = Sleeping 0\<rparr>"
    by (simp add: defs)
  ultimately show ?thesis using tracker_no_lost_wakeup [of ?t2] by simp
qed

end
