(* ===== verification/Fed_Registration.thy ===== *)
theory Fed_Registration
  imports Session_Registry Aggregator Watch_Protocol Spiffe Runtime_Projector Ownership
begin

text \<open>
  Registering a Controller stream: the boundary checks and the first part of
  \<open>FederationGrpcServer::sync\<close> in \<open>crates/center-runtime/src/federation/server.rs\<close>.

  The shared state of the server is one record. \<open>sync\<close> is cut where it awaits something outside the
  process: \<open>sync_admit\<close> is everything up to the peer identity check, \<open>sync_begin\<close> ends with the call
  of \<open>acquire\<close>, \<open>sync_install\<close> with the call of \<open>upsert_registration\<close>, \<open>sync_projected\<close> takes its
  answer and \<open>sync_start\<close> opens the watch. Between two parts other streams run. The answers of the
  coordinator and the directory are arguments, \<open>None\<close> for a timeout. A part returns the calls it
  makes as effects, in order; log lines are left out, an audit event has its path, status and detail.
  A failing \<open>expect\<close> is the result \<open>None\<close> of \<open>sync_registration\<close>.
\<close>

section \<open>Boundary checks\<close>

definition MAX_CONTROLLER_ID_LEN :: nat where "MAX_CONTROLLER_ID_LEN = 253"
definition MAX_CLUSTER_LEN :: nat where "MAX_CLUSTER_LEN = 63"
definition MAX_TAG_LEN :: nat where "MAX_TAG_LEN = 63"
definition MAX_LIST_ITEMS :: nat where "MAX_LIST_ITEMS = 32"
definition MAX_REGISTRY_ENTRIES :: nat where "MAX_REGISTRY_ENTRIES = 10000"

fun validate_list_items :: "string list \<Rightarrow> string \<Rightarrow> string + unit" where
  "validate_list_items [] label = Inr ()"
| "validate_list_items (item # items) label =
     (if MAX_TAG_LEN < length item then Inl (label @ '' item exceeds max length'')
      else if has_control item then Inl (label @ '' item contains control characters'')
      else validate_list_items items label)"

definition validate_string_list :: "string list \<Rightarrow> string \<Rightarrow> string + unit" where
  "validate_string_list items field =
     (if MAX_LIST_ITEMS < length items then
        Inl ((if field \<in> {''env'', ''tag''} then field @ '' list'' else ''list'') @ '' exceeds max items'')
      else validate_list_items items (if field \<in> {''env'', ''tag''} then field else ''list''))"

definition validate_register_req :: "RegisterRequest \<Rightarrow> string + unit" where
  "validate_register_req req =
     (if req_controller_id req = [] then Inl ''controller_id is empty''
      else if MAX_CONTROLLER_ID_LEN < length (req_controller_id req) then Inl ''controller_id exceeds max length''
      else if has_control (req_controller_id req) then Inl ''controller_id contains control characters''
      else if MAX_CLUSTER_LEN < length (req_cluster req) then Inl ''cluster exceeds max length''
      else if has_control (req_cluster req) then Inl ''cluster contains control characters''
      else and_then (validate_string_list (req_env req) ''env'') (\<lambda>_.
             validate_string_list (req_tag req) ''tag''))"

definition registry_capacity_exceeded :: "ControllerRegistry \<Rightarrow> string \<Rightarrow> nat \<Rightarrow> bool" where
  "registry_capacity_exceeded registry incoming_id cap \<longleftrightarrow>
     cap \<le> registry_len registry \<and> get_session incoming_id registry = None"

section \<open>Server state\<close>

datatype StatusCode =
    DeadlineExceeded | InternalError | CancelledCall | InvalidArgument | ResourceExhausted | PermissionDenied | Unavailable
  | FailedPrecondition | NotFoundStatus | Unauthenticated

type_synonym Status = "StatusCode \<times> string"

record StatsReport =
  report_per_kind :: "(string, u32) hmap"
  report_total :: u32

datatype ControllerMessage =
    MsgRegister RegisterRequest
  | MsgPong u64
  | MsgHttpProxyResponse HttpProxyResponse
  | MsgWatchList FedWatchListResponse
  | MsgWatchEvent FedWatchEventResponse
  | MsgStatsReport StatsReport
  | MsgEmpty

text \<open>The wait for the first message: five seconds passed, a stream error, the end, or a message.\<close>

datatype first_message = FirstTimeout | FirstError string | FirstClosed | FirstMessage ControllerMessage

datatype fed_effect =
    PeerIdentityCheck "PeerIdentityError option"
  | SessionTakeover
  | ConnectionEvent string
  | ConnectionsActive nat
  | ConnectionDuration nat
  | MarkOfflineTotal string
  | Gauges "metric_write list"
  | Audit string string string int string
  | AcquireLease CoordinationRole
  | ReleaseLease Leadership
  | UpsertRegistration ControllerRegistration
  | ProjectOffline string string "OwnershipFence option" int
  | SpawnMaintainer Leadership nat nat
  | SpawnProjection string
  | SendTo nat CenterMessage
  | CompleteProxy nat HttpProxyResponse

record center_config =
  cfg_trust_domain :: "string option"
  cfg_has_directory :: bool
  cfg_has_coordinator :: bool

record FederationGrpcServer =
  fs_registry :: ControllerRegistry
  fs_aggregator :: ResourceAggregator
  fs_watch :: watch_system
  fs_reconciler :: OfflineReconciler
  fs_slots :: slots
  fs_pending_proxies :: "(string, nat) hmap"
  fs_next_flag :: nat
  fs_lost :: "nat set"

text \<open>
  What a stream keeps. \<open>ss_flag\<close> names its \<open>ownership_valid\<close> cell and its \<open>ownership_lost\<close> token,
  \<open>ss_cancel\<close> its session token, \<open>ss_tx\<close> its outgoing channel.
\<close>

record sync_session =
  ss_request :: RegisterRequest
  ss_session_id :: string
  ss_observed_at :: int
  ss_leadership :: "Leadership option"
  ss_flag :: nat
  ss_cancel :: nat
  ss_tx :: nat
  ss_audit_detail :: string

abbreviation ss_controller_id :: "sync_session \<Rightarrow> string" where
  "ss_controller_id s \<equiv> req_controller_id (ss_request s)"

definition fence_of :: "Leadership \<Rightarrow> OwnershipFence" where
  "fence_of l = \<lparr>fence_token = lead_fencing_token l, fence_epoch = lead_fencing_epoch l\<rparr>"

definition ss_fence :: "sync_session \<Rightarrow> OwnershipFence option" where
  "ss_fence s = map_option fence_of (ss_leadership s)"

section \<open>The parts of \<open>sync\<close>\<close>

definition sync_admit ::
  "der_parser \<Rightarrow> center_config \<Rightarrow> string list option \<Rightarrow> first_message \<Rightarrow> FederationGrpcServer
     \<Rightarrow> fed_effect list \<times> (Status + RegisterRequest)" where
  "sync_admit from_der cfg peer_certs first_msg fs =
     (case first_msg of
        FirstTimeout \<Rightarrow> ([], Inl (DeadlineExceeded, ''Registration timeout: no RegisterRequest within 5s''))
      | FirstError e \<Rightarrow> ([], Inl (InternalError, e))
      | FirstClosed \<Rightarrow> ([], Inl (CancelledCall, ''Stream closed before RegisterRequest''))
      | FirstMessage (MsgRegister req) \<Rightarrow>
          (case validate_register_req req of
             Inl _ \<Rightarrow> ([], Inl (InvalidArgument, ''RegisterRequest validation failed''))
           | Inr () \<Rightarrow>
               if registry_capacity_exceeded (fs_registry fs) (req_controller_id req) MAX_REGISTRY_ENTRIES then
                 ([], Inl (ResourceExhausted, ''Federation registry is at capacity''))
               else
                 (case Option.bind peer_certs (\<lambda>cs. if cs = [] then None else Some (hd cs)) of
                    None \<Rightarrow> ([], Inl (InternalError, ''missing client certificate under mTLS''))
                  | Some leaf \<Rightarrow>
                      (case verify from_der leaf (case cfg_trust_domain cfg of None \<Rightarrow> [] | Some d \<Rightarrow> d)
                              (req_cluster req) (req_controller_id req) of
                         Inr () \<Rightarrow> ([PeerIdentityCheck None], Inr req)
                       | Inl e \<Rightarrow>
                           ([PeerIdentityCheck (Some e)], Inl (PermissionDenied, ''peer identity verification failed'')))))
      | FirstMessage _ \<Rightarrow> ([], Inl (InvalidArgument, ''First message must be RegisterRequest'')))"

definition sync_begin ::
  "center_config \<Rightarrow> RegisterRequest \<Rightarrow> FederationGrpcServer \<Rightarrow> fed_effect list \<times> FederationGrpcServer" where
  "sync_begin cfg req fs =
     (if cfg_has_coordinator cfg then
        ([AcquireLease (ControllerOwner (req_controller_id req))],
         fs\<lparr>fs_registry := snd (fence_owned_session (req_controller_id req) (fs_registry fs))\<rparr>)
      else ([], fs))"

text \<open>\<open>ControllerId::new\<close> and \<open>SessionId::new\<close> with their \<open>expect\<close>; \<open>None\<close> is the panic.\<close>

definition sync_registration :: "sync_session \<Rightarrow> ControllerRegistration option" where
  "sync_registration s =
     (case (identifier_new ''controller'' (ss_controller_id s), identifier_new ''session'' (ss_session_id s)) of
        (Inr cid, Inr sid) \<Rightarrow>
          Some \<lparr>reg_controller_id = cid, reg_session_id = sid, reg_cluster = req_cluster (ss_request s),
                reg_environments = req_env (ss_request s), reg_tags = req_tag (ss_request s),
                reg_connected_replica = map_option lead_holder (ss_leadership s),
                reg_ownership_fence = ss_fence s, reg_observed_at_unix_ms = ss_observed_at s\<rparr>
      | _ \<Rightarrow> None)"

definition takeover_detail :: "string option \<Rightarrow> string" where
  "takeover_detail displaced =
     (case displaced of
        Some sid \<Rightarrow> ''controller session takeover displaced '' @ sid
      | None \<Rightarrow> ''controller session established'')"

definition install_session ::
  "nat \<Rightarrow> RegisterRequest \<Rightarrow> string \<Rightarrow> int \<Rightarrow> nat \<Rightarrow> Leadership option \<Rightarrow> FederationGrpcServer
     \<Rightarrow> fed_effect list \<times> sync_session \<times> FederationGrpcServer" where
  "install_session now req session_id observed_at tx leadership fs =
     (let cid = req_controller_id req; flag = fs_next_flag fs;
          (out, registry) =
            register_owned_cancellable now cid req tx session_id
              (map_option (\<lambda>l. \<lparr>own_holder = lead_holder l, own_fence = fence_of l, own_valid = flag\<rparr>) leadership)
              (fs_registry fs);
          (aggregator, gauges) =
            set_controller_info cid
              \<lparr>info_controller_id = cid, info_cluster = req_cluster req,
               info_environments = req_env req, info_tags = req_tag req\<rparr> (fs_aggregator fs)
      in ((if displaced_session_id out \<noteq> None then [SessionTakeover] else []) @ [Gauges gauges],
          \<lparr>ss_request = req, ss_session_id = session_id, ss_observed_at = observed_at,
           ss_leadership = leadership, ss_flag = flag, ss_cancel = outcome_session_cancel out, ss_tx = tx,
           ss_audit_detail = takeover_detail (displaced_session_id out)\<rparr>,
          fs\<lparr>fs_registry := registry, fs_aggregator := aggregator, fs_next_flag := Suc flag\<rparr>))"

definition sync_install ::
  "nat \<Rightarrow> center_config \<Rightarrow> RegisterRequest \<Rightarrow> string \<Rightarrow> int \<Rightarrow> nat \<Rightarrow> Leadership CoreResult option
     \<Rightarrow> FederationGrpcServer \<Rightarrow> fed_effect list \<times> (Status + sync_session) \<times> FederationGrpcServer" where
  "sync_install now cfg req session_id observed_at tx acquired fs =
     (let refuse = (\<lambda>detail.
            ([Audit (req_controller_id req) session_id ''/federation/connect'' 503 detail],
             Inl (Unavailable, ''controller ownership unavailable''), fs));
          install = (\<lambda>leadership.
            let (effs, s, fs') = install_session now req session_id observed_at tx leadership fs
            in (effs, Inr s, fs'))
      in if cfg_has_coordinator cfg then
           (case acquired of
              Some (Inr l) \<Rightarrow> install (Some l)
            | Some (Inl _) \<Rightarrow> refuse ''controller ownership unavailable''
            | None \<Rightarrow> refuse ''controller ownership timed out'')
         else install None)"

definition error_text :: "unit CoreResult option \<Rightarrow> (CoreError \<Rightarrow> string) \<Rightarrow> string" where
  "error_text answer display =
     (case answer of
        Some (Inl e) \<Rightarrow> display e
      | _ \<Rightarrow> ''controller projection timed out'')"

definition projection_failed ::
  "(CoreError \<Rightarrow> string) \<Rightarrow> nat \<Rightarrow> sync_session \<Rightarrow> unit CoreResult option \<Rightarrow> FederationGrpcServer
     \<Rightarrow> fed_effect list \<times> FederationGrpcServer" where
  "projection_failed display now s answer fs =
     (let cid = ss_controller_id s;
          registry = snd (mark_offline now cid (ss_session_id s) (fs_registry fs));
          (aggregator, gauges) = aggregator_mark_offline now cid (fs_aggregator fs);
          reconciler = snd (schedule cid (fs_reconciler fs))
      in ([Gauges gauges, ProjectOffline cid (ss_session_id s) (ss_fence s) (ss_observed_at s),
           Audit cid (ss_session_id s) ''/federation/connect'' 503
             (ss_audit_detail s @ ''; projection failed: '' @ error_text answer display)]
          @ (case ss_leadership s of None \<Rightarrow> [] | Some l \<Rightarrow> [ReleaseLease l]),
          fs\<lparr>fs_registry := registry, fs_aggregator := aggregator, fs_reconciler := reconciler\<rparr>))"

definition connected_effects :: "sync_session \<Rightarrow> FederationGrpcServer \<Rightarrow> fed_effect list" where
  "connected_effects s fs =
     [ConnectionEvent ''connected'', ConnectionsActive (online_len (fs_registry fs)),
      Audit (ss_controller_id s) (ss_session_id s) ''/federation/connect'' 200 (ss_audit_detail s)]"

definition sync_projected ::
  "(CoreError \<Rightarrow> string) \<Rightarrow> nat \<Rightarrow> center_config \<Rightarrow> sync_session \<Rightarrow> unit CoreResult option \<Rightarrow> FederationGrpcServer
     \<Rightarrow> fed_effect list \<times> (Status + unit) \<times> FederationGrpcServer" where
  "sync_projected display now cfg s answer fs =
     (if \<not> cfg_has_directory cfg then (connected_effects s fs, Inr (), fs)
      else
        (case answer of
           Some (Inr ()) \<Rightarrow>
             (let fs' = fs\<lparr>fs_reconciler := cancel_worker (ss_controller_id s) (fs_reconciler fs)\<rparr>
              in (connected_effects s fs', Inr (), fs'))
         | _ \<Rightarrow>
             (let (effs, fs') = projection_failed display now s answer fs
              in (effs, Inl (Unavailable, ''controller registration projection unavailable''), fs'))))"

text \<open>The loop variables of the message task.\<close>

record message_loop =
  ml_session :: sync_session
  ml_cache :: cache_ref
  ml_watch :: FedWatchState
  ml_last_pong :: nat
  ml_started :: nat

definition sync_start ::
  "nat \<Rightarrow> string \<Rightarrow> sync_session \<Rightarrow> FederationGrpcServer \<Rightarrow> fed_effect list \<times> message_loop \<times> FederationGrpcServer" where
  "sync_start now watch_request_id s fs =
     (let (a, caches) = get_or_create (ss_controller_id s) (ws_registry (fs_watch fs));
          cache = cache_at caches a
      in ([SendTo (ss_tx s) (RegisterAck (ss_session_id s)),
           SendTo (ss_tx s) (initial_watch_request watch_request_id (cs_sync_version cache))]
          @ (case ss_leadership s of None \<Rightarrow> [] | Some l \<Rightarrow> [SpawnMaintainer l (ss_cancel s) (ss_flag s)]),
          \<lparr>ml_session = s, ml_cache = a,
           ml_watch = new_watch_state EDGION_CONFIG_DATA watch_request_id
                        (if cs_server_id cache = [] then None else Some (cs_server_id cache)),
           ml_last_pong = now, ml_started = now\<rparr>,
          fs\<lparr>fs_watch := (fs_watch fs)\<lparr>ws_registry := caches\<rparr>\<rparr>))"

section \<open>Lemmas\<close>

text \<open>What the shape check demands.\<close>

definition labels_ok :: "string list \<Rightarrow> bool" where
  "labels_ok items \<longleftrightarrow>
     length items \<le> MAX_LIST_ITEMS \<and> list_all (\<lambda>item. length item \<le> MAX_TAG_LEN \<and> \<not> has_control item) items"

definition register_req_ok :: "RegisterRequest \<Rightarrow> bool" where
  "register_req_ok req \<longleftrightarrow>
     0 < length (req_controller_id req) \<and> length (req_controller_id req) \<le> MAX_CONTROLLER_ID_LEN
     \<and> \<not> has_control (req_controller_id req)
     \<and> length (req_cluster req) \<le> MAX_CLUSTER_LEN \<and> \<not> has_control (req_cluster req)
     \<and> labels_ok (req_env req) \<and> labels_ok (req_tag req)"

lemma validate_list_items_ok:
  "validate_list_items items label = Inr () \<longleftrightarrow>
     list_all (\<lambda>item. length item \<le> MAX_TAG_LEN \<and> \<not> has_control item) items"
  by (induction items) auto

lemma validate_string_list_ok: "validate_string_list items field = Inr () \<longleftrightarrow> labels_ok items"
  by (auto simp: validate_string_list_def labels_ok_def validate_list_items_ok)

lemma validate_register_req_ok: "validate_register_req req = Inr () \<longleftrightarrow> register_req_ok req"
  by (auto simp: validate_register_req_def register_req_ok_def validate_string_list_ok and_then_eq_Inr)

lemma capacity_exceeded_iff:
  "registry_capacity_exceeded r cid cap \<longleftrightarrow> cap \<le> registry_len r \<and> cid \<notin> dom (map_of (sr_inner r))"
  by (auto simp: registry_capacity_exceeded_def get_session_def)

lemma certs_cases:
  obtains "peer_certs = None" | "peer_certs = Some []" | leaf rest where "peer_certs = Some (leaf # rest)"
  by (cases peer_certs; cases "the peer_certs") auto

lemma sync_admit_ok:
  "sync_admit from_der cfg peer_certs first_msg fs = (effs, Inr req) \<longleftrightarrow>
     first_msg = FirstMessage (MsgRegister req) \<and> register_req_ok req
     \<and> \<not> registry_capacity_exceeded (fs_registry fs) (req_controller_id req) MAX_REGISTRY_ENTRIES
     \<and> (\<exists>leaf rest. peer_certs = Some (leaf # rest)
           \<and> verify from_der leaf (case cfg_trust_domain cfg of None \<Rightarrow> [] | Some d \<Rightarrow> d)
               (req_cluster req) (req_controller_id req) = Inr ())
     \<and> effs = [PeerIdentityCheck None]"
proof (cases "first_msg = FirstMessage (MsgRegister req) \<and> register_req_ok req
    \<and> \<not> registry_capacity_exceeded (fs_registry fs) (req_controller_id req) MAX_REGISTRY_ENTRIES")
  case True
  then have "validate_register_req req = Inr ()" by (simp add: validate_register_req_ok)
  with True show ?thesis
    by (cases peer_certs rule: certs_cases)
      (simp_all add: sync_admit_def eq_commute [of effs] split: sum.split)
next
  case False
  then have "validate_register_req req = Inr () \<Longrightarrow> first_msg = FirstMessage (MsgRegister req) \<Longrightarrow>
      registry_capacity_exceeded (fs_registry fs) (req_controller_id req) MAX_REGISTRY_ENTRIES"
    by (simp add: validate_register_req_ok)
  then have "snd (sync_admit from_der cfg peer_certs first_msg fs) \<noteq> Inr req"
    by (auto simp: sync_admit_def split: first_message.split ControllerMessage.split sum.split option.split)
  with False show ?thesis by auto
qed

lemma verified_id_form:
  "verify from_der leaf td cluster cid = Inr () \<Longrightarrow> \<exists>name. cid = cluster @ ''/'' @ name"
  by (auto simp: verify_def and_then_eq_Inr check_match_def split: option.splits if_splits)

lemma trim_words_keeps:
  "x \<in> set s \<Longrightarrow> \<forall>w \<in> set ws. x \<notin> set w \<Longrightarrow> x \<in> set (trim_words ws s)"
proof (induction ws s rule: trim_words.induct)
  case (1 ws s)
  show ?case
  proof (cases "find (\<lambda>w. w \<noteq> [] \<and> strip_prefix w s \<noteq> None) ws")
    case None
    with 1 show ?thesis by (simp add: trim_words.simps [of ws s])
  next
    case (Some w)
    then have w: "w \<in> set ws" "take (length w) s = w"
      by (auto simp: find_Some_iff strip_prefix_def split: if_splits)
    have "set s = set (take (length w) s) \<union> set (drop (length w) s)"
      by (metis append_take_drop_id set_append)
    with w 1 have "x \<in> set (drop (length w) s)" by auto
    with 1 Some show ?thesis by (simp add: trim_words.simps [of ws s])
  qed
qed

lemma trim_keeps_slash: "CHR ''/'' \<in> set s \<Longrightarrow> trim s \<noteq> []"
proof -
  assume "CHR ''/'' \<in> set s"
  moreover have "\<forall>w \<in> set whitespace_encodings. CHR ''/'' \<notin> set w" by code_simp
  ultimately have "CHR ''/'' \<in> set (trim s)" by (simp add: trim_def trim_words_keeps)
  then show ?thesis by auto
qed

section \<open>Concurrent registrations\<close>

text \<open>
  Registrations between their admission and their entry in the table, with the bound \<open>N\<close> on how many
  there are at a time, and everything else that touches the table meanwhile.
\<close>

inductive registration_step ::
  "der_parser \<Rightarrow> center_config \<Rightarrow> nat \<Rightarrow> FederationGrpcServer \<times> RegisterRequest list
     \<Rightarrow> FederationGrpcServer \<times> RegisterRequest list \<Rightarrow> bool"
  for from_der cfg N where
  admitted: "registration_step from_der cfg N (fs, pending) (fs, req # pending)"
    if "sync_admit from_der cfg peer_certs first_msg fs = (effs, Inr req)" "length pending < N"
| begun: "registration_step from_der cfg N (fs, pending) (snd (sync_begin cfg req fs), pending)"
    if "req \<in> set pending"
| installed: "registration_step from_der cfg N (fs, pending) (fs', remove1 req pending)"
    if "req \<in> set pending" "sync_install now cfg req sid observed tx acquired fs = (effs, result, fs')"
| other: "registration_step from_der cfg N (fs, pending) (fs\<lparr>fs_registry := registry_step opn (fs_registry fs)\<rparr>, pending)"
    if "\<forall>now c info tx sid ow. opn \<noteq> Register now c info tx sid ow"

definition initial_server :: FederationGrpcServer where
  "initial_server =
     \<lparr>fs_registry = new_controller_registry, fs_aggregator = [], fs_watch = initial_watch_system,
      fs_reconciler = new_reconciler, fs_slots = [], fs_pending_proxies = [], fs_next_flag = 0, fs_lost = {}\<rparr>"

definition known_ids :: "FederationGrpcServer \<times> RegisterRequest list \<Rightarrow> string set" where
  "known_ids = (\<lambda>(fs, pending). dom (map_of (sr_inner (fs_registry fs))) \<union> req_controller_id ` set pending)"

definition capacity_inv :: "nat \<Rightarrow> FederationGrpcServer \<times> RegisterRequest list \<Rightarrow> bool" where
  "capacity_inv N = (\<lambda>(fs, pending).
     session_inv (fs_registry fs) \<and> length pending \<le> N
     \<and> card (known_ids (fs, pending)) \<le> MAX_REGISTRY_ENTRIES + (N - 1))"

lemma finite_known: "session_inv (fs_registry fs) \<Longrightarrow> finite (known_ids (fs, pending))"
  by (simp add: known_ids_def finite_dom_map_of)

lemma registry_step_ids:
  assumes "\<forall>now c info tx sid ow. opn \<noteq> Register now c info tx sid ow"
  shows "dom (map_of (sr_inner (registry_step opn r))) \<subseteq> dom (map_of (sr_inner r))"
  using assms
  by (cases opn)
    (auto simp: mark_offline_def fence_owned_session_def remove_session_def update_last_seen_def cancel_all_def
      Let_def map_of_values map_simps split: option.splits if_splits)

lemma install_session_ids:
  assumes "install_session now req sid observed tx l fs = (effs, s, fs')"
  shows "dom (map_of (sr_inner (fs_registry fs'))) = insert (req_controller_id req) (dom (map_of (sr_inner (fs_registry fs))))"
  using assms
  by (auto simp: install_session_def register_owned_cancellable_def Let_def map_simps split: prod.splits)

lemma install_session_inv:
  assumes "install_session now req sid observed tx l fs = (effs, s, fs')" "session_inv (fs_registry fs)"
  shows "session_inv (fs_registry fs')"
proof -
  have "fs_registry fs' = registry_step (Register now (req_controller_id req) req tx sid
      (map_option (\<lambda>l. \<lparr>own_holder = lead_holder l, own_fence = fence_of l, own_valid = fs_next_flag fs\<rparr>) l)) (fs_registry fs)"
    using assms(1) by (auto simp: install_session_def Let_def split: prod.splits)
  with assms(2) show ?thesis using registry_step_inv by presburger
qed

lemma sync_install_cases:
  assumes "sync_install now cfg req sid observed tx acquired fs = (effs, result, fs')"
  obtains "fs' = fs" | effs' s l where "install_session now req sid observed tx l fs = (effs', s, fs')" "result = Inr s"
  using assms that
  by (auto simp: sync_install_def Let_def split: if_splits option.splits sum.splits prod.splits)

lemma known_ids_simp: "known_ids (fs, pending) = dom (map_of (sr_inner (fs_registry fs))) \<union> req_controller_id ` set pending"
  by (simp add: known_ids_def)

lemma known_ids_mono:
  assumes "known_ids x \<subseteq> known_ids (fs, pending)" "session_inv (fs_registry fs)"
  shows "card (known_ids x) \<le> card (known_ids (fs, pending))"
  using card_mono [OF finite_known assms(1)] assms(2) by blast

lemma admitted_known_ids:
  assumes "session_inv (fs_registry fs)" "length pending < N"
    and "card (known_ids (fs, pending)) \<le> MAX_REGISTRY_ENTRIES + (N - 1)"
    and "\<not> registry_capacity_exceeded (fs_registry fs) (req_controller_id req) MAX_REGISTRY_ENTRIES"
  shows "card (known_ids (fs, req # pending)) \<le> MAX_REGISTRY_ENTRIES + (N - 1)"
proof (cases "req_controller_id req \<in> dom (map_of (sr_inner (fs_registry fs)))")
  case True
  then have "known_ids (fs, req # pending) = known_ids (fs, pending)" by (auto simp: known_ids_simp)
  with assms(3) show ?thesis by simp
next
  case False
  let ?D = "dom (map_of (sr_inner (fs_registry fs)))"
  have "card ?D = registry_len (fs_registry fs)"
    using assms(1) by (simp add: registry_len_def length_wf_map session_inv_wf)
  with assms(4) False have "card ?D < MAX_REGISTRY_ENTRIES" by (simp add: capacity_exceeded_iff)
  moreover have "card (req_controller_id ` set (req # pending)) \<le> Suc (length pending)"
    using card_image_le [of "set (req # pending)" req_controller_id] card_length [of "req # pending"] by simp
  moreover have "card (known_ids (fs, req # pending)) \<le> card ?D + card (req_controller_id ` set (req # pending))"
    unfolding known_ids_simp by (rule card_Un_le)
  ultimately show ?thesis using assms(2) by simp
qed

lemma fence_ids: "dom (map_of (sr_inner (snd (fence_owned_session c r)))) = dom (map_of (sr_inner r))"
  by (auto simp: fence_owned_session_def split: option.splits)

lemma registration_step_capacity:
  assumes "registration_step from_der cfg N x y" "capacity_inv N x"
  shows "capacity_inv N y"
  using assms
proof (induction rule: registration_step.induct)
  case (admitted peer_certs first_msg fs effs req pending)
  then show ?case
    using admitted_known_ids [of fs pending N req] by (simp add: capacity_inv_def sync_admit_ok)
next
  case (begun req pending fs)
  have "session_inv (fs_registry (snd (sync_begin cfg req fs)))"
    using begun fence_inv by (auto simp: capacity_inv_def sync_begin_def)
  moreover have "known_ids (snd (sync_begin cfg req fs), pending) = known_ids (fs, pending)"
    by (simp add: known_ids_simp sync_begin_def fence_ids)
  ultimately show ?case using begun by (simp add: capacity_inv_def)
next
  case (installed req pending now sid observed tx acquired fs effs result fs')
  have sub: "known_ids (fs', remove1 req pending) \<subseteq> known_ids (fs, pending) \<and> session_inv (fs_registry fs')"
    using installed(2)
  proof (cases rule: sync_install_cases)
    case 1
    with installed(3) show ?thesis using set_remove1_subset by (fastforce simp: known_ids_simp capacity_inv_def)
  next
    case (2 effs' s l)
    from install_session_ids [OF 2(1)] installed(1) set_remove1_subset [of req pending]
    have "known_ids (fs', remove1 req pending) \<subseteq> known_ids (fs, pending)" by (auto simp: known_ids_simp)
    with install_session_inv [OF 2(1)] installed(3) show ?thesis by (simp add: capacity_inv_def)
  qed
  then have "card (known_ids (fs', remove1 req pending)) \<le> card (known_ids (fs, pending))"
    using known_ids_mono installed(3) by (auto simp: capacity_inv_def)
  with sub installed(3) show ?case by (auto simp: capacity_inv_def length_remove1)
next
  case (other opn fs pending)
  let ?y = "(fs\<lparr>fs_registry := registry_step opn (fs_registry fs)\<rparr>, pending)"
  have "known_ids ?y \<subseteq> known_ids (fs, pending)"
    using registry_step_ids [OF other(1), of "fs_registry fs"] by (auto simp: known_ids_simp)
  then have "card (known_ids ?y) \<le> card (known_ids (fs, pending))"
    using known_ids_mono other(2) by (auto simp: capacity_inv_def)
  with other(2) show ?case by (simp add: capacity_inv_def registry_step_inv)
qed

lemma registration_run_capacity:
  assumes "(registration_step from_der cfg N)\<^sup>*\<^sup>* (initial_server, []) y"
  shows "capacity_inv N y"
  using assms
proof (induction rule: rtranclp_induct)
  case base
  show ?case
    by (simp add: capacity_inv_def known_ids_def initial_server_def new_registry_session_inv)
      (simp add: new_controller_registry_def)
qed (rule registration_step_capacity)

section \<open>Properties\<close>

definition sample_config :: center_config where
  "sample_config = \<lparr>cfg_trust_domain = Some ''td'', cfg_has_directory = True, cfg_has_coordinator = True\<rparr>"

definition sample_register :: RegisterRequest where
  "sample_register = \<lparr>req_controller_id = ''eu/c1'', req_cluster = ''eu'', req_env = [''prod''], req_tag = []\<rparr>"

lemma sample_admitted:
  "sync_admit sample_der_parser sample_config (Some [''der'']) (FirstMessage (MsgRegister sample_register)) initial_server
     = ([PeerIdentityCheck None], Inr sample_register)"
proof -
  have "register_req_ok sample_register"
    by code_simp
  moreover have "verify sample_der_parser ''der'' ''td'' ''eu'' ''eu/c1'' = Inr ()"
    by code_simp
  ultimately show ?thesis
    unfolding sync_admit_ok
    by (simp add: sample_config_def sample_register_def initial_server_def new_controller_registry_def capacity_exceeded_iff
        registry_len_def MAX_REGISTRY_ENTRIES_def)
qed

text \<open>
  C19: A stream is admitted exactly when its first message is a registration of the permitted shape
  (a Controller id of 1 to 253 bytes and a cluster of at most 63, at most 32 labels of at most 63
  bytes each, no control characters anywhere), the table has room or knows the Controller, and the
  leaf certificate of the peer carries that identity.
\<close>

theorem admission_exact:
  "snd (sync_admit from_der cfg peer_certs first_msg fs) = Inr req \<longleftrightarrow>
     first_msg = FirstMessage (MsgRegister req) \<and> register_req_ok req
     \<and> (registry_len (fs_registry fs) < MAX_REGISTRY_ENTRIES
        \<or> req_controller_id req \<in> dom (map_of (sr_inner (fs_registry fs))))
     \<and> (\<exists>leaf rest. peer_certs = Some (leaf # rest)
           \<and> verify from_der leaf (case cfg_trust_domain cfg of None \<Rightarrow> [] | Some d \<Rightarrow> d)
               (req_cluster req) (req_controller_id req) = Inr ())"
  using sync_admit_ok [of from_der cfg peer_certs first_msg fs "fst (sync_admit from_der cfg peer_certs first_msg fs)" req]
    sync_admit_ok [of from_der cfg peer_certs first_msg fs "[PeerIdentityCheck None]" req]
  by (auto simp: prod_eq_iff capacity_exceeded_iff not_le)

text \<open>
  The identifiers of an admitted stream are valid, so the two \<open>expect\<close> calls on its registration
  never panic: the id names its cluster and therefore contains a slash, and the shape check has
  excluded control characters. (The shape check alone would admit an id of blanks.)
\<close>

theorem admitted_never_panics:
  assumes "snd (sync_admit from_der cfg peer_certs first_msg fs) = Inr req"
    and "identifier_new ''session'' session_id = Inr session_id"
    and "sync_install now cfg req session_id observed tx acquired fs' = (effs, Inr s, fs'')"
  shows "\<exists>registration. sync_registration s = Some registration
           \<and> reg_controller_id registration = req_controller_id req \<and> reg_session_id registration = session_id"
proof -
  from assms(1) have a: "sync_admit from_der cfg peer_certs first_msg fs
      = (fst (sync_admit from_der cfg peer_certs first_msg fs), Inr req)"
    by (simp add: prod_eq_iff)
  then have "register_req_ok req" and "CHR ''/'' \<in> set (req_controller_id req)"
    unfolding sync_admit_ok by (auto dest!: verified_id_form)
  then have "identifier_new ''controller'' (req_controller_id req) = Inr (req_controller_id req)"
    using trim_keeps_slash by (simp add: identifier_new_def register_req_ok_def)
  moreover have "ss_request s = req \<and> ss_session_id s = session_id"
    using assms(3)
    by (auto simp: sync_install_def install_session_def Let_def split: if_splits option.splits sum.splits prod.splits)
  ultimately show ?thesis using assms(2) by (simp add: sync_registration_def)
qed

definition sample_lead :: Leadership where
  "sample_lead =
     \<lparr>lead_role = ControllerOwner ''eu/c1'', lead_holder = ''center-0'', lead_fencing_token = ''t1'',
      lead_fencing_epoch = 1, lead_valid_for_millis = 15000\<rparr>"

definition sample_installed :: "sync_session \<times> FederationGrpcServer" where
  "sample_installed = snd (install_session 5 sample_register ''s1'' 7 3 (Some sample_lead) initial_server)"

lemma sample_install:
  "sync_install 5 sample_config sample_register ''s1'' 7 3 (Some (Inr sample_lead)) initial_server
     = (fst (install_session 5 sample_register ''s1'' 7 3 (Some sample_lead) initial_server),
        Inr (fst sample_installed), snd sample_installed)"
  by (simp add: sync_install_def sample_config_def sample_installed_def split: prod.splits)

theorem admitted_never_panics_witness:
  "\<exists>registration. sync_registration (fst sample_installed) = Some registration
     \<and> reg_controller_id registration = ''eu/c1'' \<and> reg_session_id registration = ''s1''"
proof -
  have "identifier_new ''session'' ''s1'' = Inr ''s1''" by code_simp
  from admitted_never_panics [OF _ this sample_install, of sample_der_parser "Some [''der'']"
      "FirstMessage (MsgRegister sample_register)" initial_server]
  show ?thesis by (simp add: sample_admitted) (simp add: sample_register_def)
qed

text \<open>
  C35: The table is bounded under concurrency: if at most \<open>N\<close> streams are at any time between their
  admission and their entry in the table, it never holds more than \<open>MAX_REGISTRY_ENTRIES + N - 1\<close>
  Controllers. One registration at a time respects the limit itself.
\<close>

theorem registry_bounded:
  assumes "(registration_step from_der cfg N)\<^sup>*\<^sup>* (initial_server, []) (fs, pending)"
  shows "registry_len (fs_registry fs) \<le> MAX_REGISTRY_ENTRIES + (N - 1)"
proof -
  from registration_run_capacity [OF assms] have c: "capacity_inv N (fs, pending)" .
  then have "registry_len (fs_registry fs) = card (dom (map_of (sr_inner (fs_registry fs))))"
    by (simp add: capacity_inv_def registry_len_def length_wf_map session_inv_wf)
  also have "\<dots> \<le> card (known_ids (fs, pending))"
    using c by (intro card_mono finite_known) (auto simp: capacity_inv_def known_ids_simp)
  finally show ?thesis using c by (simp add: capacity_inv_def)
qed

theorem registry_bounded_witness:
  "registry_len (fs_registry (snd sample_installed)) \<le> MAX_REGISTRY_ENTRIES + (1 - 1)"
proof -
  let ?S = "registration_step sample_der_parser sample_config 1"
  have "?S (initial_server, []) (initial_server, [sample_register])"
    by (rule admitted [OF sample_admitted]) simp
  moreover have "?S (initial_server, [sample_register]) (snd sample_installed, remove1 sample_register [sample_register])"
    by (rule installed [OF _ sample_install]) simp
  ultimately have "?S\<^sup>*\<^sup>* (initial_server, []) (snd sample_installed, remove1 sample_register [sample_register])"
    by (meson r_into_rtranclp rtranclp.rtrancl_into_rtrancl)
  from registry_bounded [OF this] show ?thesis .
qed

lemma sample_installed_inner:
  "sr_inner (fs_registry (snd sample_installed)) =
     [(''eu/c1'', \<lparr>sess_controller_id = ''eu/c1'', sess_session_id = ''s1'', sess_info = sample_register,
        sess_stream_tx = Some 3, sess_last_seen = 5, sess_offline_since = None, sess_cancel = 0,
        sess_ownership = Some \<lparr>own_holder = ''center-0'', own_fence = fence_of sample_lead, own_valid = 0\<rparr>\<rparr>)]"
  "sr_revoked (fs_registry (snd sample_installed)) = {}" "ss_controller_id (fst sample_installed) = ''eu/c1''"
  "ss_session_id (fst sample_installed) = ''s1''" "ss_leadership (fst sample_installed) = Some sample_lead"
  by (simp_all add: sample_installed_def install_session_def register_owned_cancellable_def sample_register_def
      initial_server_def new_controller_registry_def Let_def sample_lead_def split: prod.splits)

text \<open>
  A registration whose projection fails gives its Lease back without invalidating the ownership
  it has cached: the retained offline session still matches the fence of the released Lease.
\<close>

theorem failed_projection_keeps_fence:
  "let (effs, result, fs) = sync_projected display 9 sample_config (fst sample_installed) None (snd sample_installed)
   in ReleaseLease sample_lead \<in> set effs \<and> result = Inl (Unavailable, ''controller registration projection unavailable'')
      \<and> sv_offline_since (the (get_session ''eu/c1'' (fs_registry fs))) = Some 9
      \<and> matches_ownership (fs_registry fs) ''center-0'' (fence_of sample_lead) (the (get_session ''eu/c1'' (fs_registry fs)))"
  by (simp add: sync_projected_def sample_config_def projection_failed_def Let_def mark_offline_def get_session_def
      sample_installed_inner matches_ownership_def is_valid_def split: prod.splits)

end
