(* ===== verification/Fed_Session.thy ===== *)
theory Fed_Session
  imports Fed_Registration
begin

text \<open>
  Serving a registered stream: the heartbeat task, the message loop and the disconnect clean-up
  \<open>mark_offline_all\<close> of \<open>FederationGrpcServer::sync\<close> in \<open>crates/center-runtime/src/federation/server.rs\<close>.

  A pass of the loop reads the shared cells several times; what other tasks do to the session table
  between two reads, and between the last read and the effect of the payload, is the argument
  \<open>me_between\<close> of its environment, so the repeated checks of the code keep their meaning. The writes of
  one clean-up to the state holders are taken together. Clocks, fresh ids and the answer of the
  back-off are arguments.
\<close>

section \<open>Clean-up on disconnect\<close>

definition HEARTBEAT_MISSED_PING_BUDGET :: nat where "HEARTBEAT_MISSED_PING_BUDGET = 3"

definition mark_offline_all ::
  "nat \<Rightarrow> center_config \<Rightarrow> string \<Rightarrow> message_loop \<Rightarrow> FederationGrpcServer \<Rightarrow> fed_effect list \<times> FederationGrpcServer" where
  "mark_offline_all now cfg reason ml fs =
     (let s = ml_session ml; cid = ss_controller_id s;
          (transitioned, registry) = mark_offline now cid (ss_session_id s) (fs_registry fs)
      in if \<not> transitioned then ([], fs)
         else
           let (aggregator, gauges) = aggregator_mark_offline now cid (fs_aggregator fs);
               watch = with_effects (registry_mark_offline cid (ws_registry (fs_watch fs))) (fs_watch fs);
               reconciler = (if cfg_has_directory cfg then snd (schedule cid (fs_reconciler fs)) else fs_reconciler fs)
           in ([Gauges gauges]
               @ (if cfg_has_directory cfg
                  then [ProjectOffline cid (ss_session_id s) (ss_fence s) (ss_observed_at s)] else [])
               @ [MarkOfflineTotal reason, ConnectionEvent ''disconnected'', ConnectionDuration (now - ml_started ml),
                  ConnectionsActive (online_len registry),
                  Audit cid (ss_session_id s) ''/federation/disconnect'' 200 reason],
               fs\<lparr>fs_registry := registry, fs_aggregator := aggregator, fs_watch := watch,
                  fs_reconciler := reconciler\<rparr>))"

section \<open>Heartbeat\<close>

text \<open>
  One tick of the heartbeat task: it stops when the session is cancelled, cancels the session when the
  last Pong is too old, and otherwise sends a Ping; \<open>closed\<close> says that the channel is gone, \<open>cancelled_while_sending\<close>
  that the session was cancelled while the channel was full.
\<close>

datatype heartbeat = HeartbeatStop | HeartbeatTimeout | HeartbeatPing u64

definition heartbeat_tick ::
  "nat \<Rightarrow> nat \<Rightarrow> u64 \<Rightarrow> bool \<Rightarrow> bool \<Rightarrow> message_loop \<Rightarrow> FederationGrpcServer
     \<Rightarrow> heartbeat \<times> FederationGrpcServer" where
  "heartbeat_tick ping_interval now now_ms closed cancelled_while_sending ml fs =
     (let token = ss_cancel (ml_session ml)
      in if token \<in> sr_cancelled (fs_registry fs) then (HeartbeatStop, fs)
         else if HEARTBEAT_MISSED_PING_BUDGET * ping_interval < now - ml_last_pong ml then
           (HeartbeatTimeout,
            fs\<lparr>fs_registry := (fs_registry fs)\<lparr>sr_cancelled := insert token (sr_cancelled (fs_registry fs))\<rparr>\<rparr>)
         else if cancelled_while_sending \<or> closed then (HeartbeatStop, fs)
         else (HeartbeatPing now_ms, fs))"

section \<open>Message loop\<close>

datatype inbound = InError | InClosed | InMessage ControllerMessage

datatype loop_control = LoopContinue | LoopBreak

record message_env =
  me_between :: "nat \<Rightarrow> ControllerRegistry \<Rightarrow> ControllerRegistry"
  me_now :: nat
  me_cache_now :: u64
  me_observed_at :: int
  me_backoff_closed :: bool
  me_new_id :: string

definition live :: "sync_session \<Rightarrow> FederationGrpcServer \<Rightarrow> bool" where
  "live s fs \<longleftrightarrow> ss_flag s \<notin> sr_revoked (fs_registry fs) \<and> ss_cancel s \<notin> sr_cancelled (fs_registry fs)"

definition interfere :: "message_env \<Rightarrow> nat \<Rightarrow> FederationGrpcServer \<Rightarrow> FederationGrpcServer" where
  "interfere e n fs = fs\<lparr>fs_registry := me_between e n (fs_registry fs)\<rparr>"

definition bare_observation :: "sync_session \<Rightarrow> int \<Rightarrow> ControllerRuntimeObservation" where
  "bare_observation s t =
     \<lparr>obs_controller_id = ss_controller_id s, obs_session_id = ss_session_id s, obs_ownership_fence = ss_fence s,
      obs_sync_version = None, obs_watch_server_id = None, obs_resource_count = None,
      obs_resource_counts_by_kind = None, obs_stats_updated_unix_ms = None, obs_watch_updated_unix_ms = None,
      obs_observed_at_unix_ms = t\<rparr>"

definition submit_observation ::
  "center_config \<Rightarrow> ControllerRuntimeObservation \<Rightarrow> FederationGrpcServer \<Rightarrow> fed_effect list \<times> FederationGrpcServer" where
  "submit_observation cfg obs fs =
     (let (slots, spawned) = submit (cfg_has_directory cfg) obs (fs_slots fs)
      in (if spawned then [SpawnProjection (obs_controller_id obs)] else [], fs\<lparr>fs_slots := slots\<rparr>))"

text \<open>A watch frame through the session's cache handle, and the observation of an applied one.\<close>

definition on_watch_payload ::
  "watch_parsers \<Rightarrow> center_config \<Rightarrow> message_env \<Rightarrow> watch_frame \<Rightarrow> u64 \<Rightarrow> string \<Rightarrow> message_loop \<Rightarrow> FederationGrpcServer
     \<Rightarrow> loop_control \<times> fed_effect list \<times> message_loop \<times> FederationGrpcServer" where
  "on_watch_payload p cfg e frame sync_version server_id ml fs =
     (let s = ml_session ml; caches = ws_registry (fs_watch fs);
          (outcome, stop, (cache, w), es, msgs) =
            on_watch_frame p (ss_controller_id s) frame (cache_at caches (ml_cache ml), ml_watch ml);
          fs' = fs\<lparr>fs_watch := with_effects (set_cache (ml_cache ml) cache caches, es) (fs_watch fs)\<rparr>;
          sent = map (SendTo (ss_tx s)) msgs;
          (effs, fs'') =
            (if outcome = WatchApplied
             then submit_observation cfg
                    ((bare_observation s (me_observed_at e))
                       \<lparr>obs_sync_version := Some sync_version, obs_watch_server_id := Some server_id,
                        obs_watch_updated_unix_ms := Some (me_observed_at e)\<rparr>) fs'
             else ([], fs'))
      in (if stop then LoopBreak else LoopContinue, sent @ effs, ml\<lparr>ml_watch := w\<rparr>, fs''))"

text \<open>The payload: the ownership flag is read once more, then other tasks may run, then the effect follows.\<close>

definition on_payload ::
  "watch_parsers \<Rightarrow> center_config \<Rightarrow> message_env \<Rightarrow> ControllerMessage \<Rightarrow> message_loop \<Rightarrow> FederationGrpcServer
     \<Rightarrow> loop_control \<times> fed_effect list \<times> message_loop \<times> FederationGrpcServer" where
  "on_payload p cfg e msg ml fs =
     (let s = ml_session ml; revoked = (ss_flag s \<in> sr_revoked (fs_registry fs)); checked = interfere e 3 fs
      in case msg of
           MsgPong _ \<Rightarrow>
             if revoked then (LoopContinue, [], ml, fs)
             else
               let (effs, fs') = submit_observation cfg (bare_observation s (me_observed_at e)) checked
               in (LoopContinue, effs, ml\<lparr>ml_last_pong := me_now e\<rparr>, fs')
         | MsgHttpProxyResponse resp \<Rightarrow>
             if revoked then (LoopContinue, [], ml, fs)
             else
               (case map_of (fs_pending_proxies checked) (hresp_request_id resp) of
                  None \<Rightarrow> (LoopContinue, [], ml, checked)
                | Some tx \<Rightarrow>
                    (LoopContinue, [CompleteProxy tx resp], ml,
                     checked\<lparr>fs_pending_proxies := AList.delete (hresp_request_id resp) (fs_pending_proxies checked)\<rparr>))
         | MsgWatchList resp \<Rightarrow>
             if revoked then (LoopContinue, [], ml, fs)
             else on_watch_payload p cfg e (ListFrame (me_cache_now e) resp (me_backoff_closed e) (me_new_id e))
                    (wlist_sync_version resp) (wlist_server_id resp) ml checked
         | MsgWatchEvent resp \<Rightarrow>
             if revoked then (LoopContinue, [], ml, fs)
             else on_watch_payload p cfg e (EventFrame (me_cache_now e) resp (me_backoff_closed e) (me_new_id e))
                    (wevent_sync_version resp) (wevent_server_id resp) ml checked
         | MsgStatsReport report \<Rightarrow>
             if revoked then (LoopContinue, [], ml, fs)
             else
               let counts = bounded_per_kind (report_per_kind report);
                   total_count = ucast (report_total report) :: u64;
                   fs' = checked\<lparr>fs_aggregator := update_stats (me_now e) (ss_controller_id s) counts total_count (fs_aggregator checked)\<rparr>;
                   (effs, fs'') =
                     submit_observation cfg
                       ((bare_observation s (me_observed_at e))
                          \<lparr>obs_resource_count := Some total_count, obs_resource_counts_by_kind := counts,
                           obs_stats_updated_unix_ms := Some (me_observed_at e)\<rparr>) fs'
               in (LoopContinue, effs, ml, fs'')
         | _ \<Rightarrow> (LoopContinue, [], ml, fs))"

definition on_message ::
  "watch_parsers \<Rightarrow> center_config \<Rightarrow> message_env \<Rightarrow> ControllerMessage \<Rightarrow> message_loop \<Rightarrow> FederationGrpcServer
     \<Rightarrow> loop_control \<times> fed_effect list \<times> message_loop \<times> FederationGrpcServer" where
  "on_message p cfg e msg ml fs =
     (let s = ml_session ml; cid = ss_controller_id s
      in if \<not> live s fs \<or> \<not> is_current_session cid (ss_session_id s) (fs_registry fs) then (LoopBreak, [], ml, fs)
         else
           let fs1 = interfere e 0 fs
           in if \<not> live s fs1 then (LoopContinue, [], ml, fs1)
              else
                let fs2 = interfere e 1 (fs1\<lparr>fs_registry := update_last_seen (me_now e) cid (fs_registry fs1)\<rparr>)
                in if \<not> live s fs2 then (LoopContinue, [], ml, fs2)
                   else on_payload p cfg e msg ml (interfere e 2 fs2))"

text \<open>One turn of the biased \<open>select!\<close>: a cancelled session is noticed before any message.\<close>

definition loop_step ::
  "watch_parsers \<Rightarrow> center_config \<Rightarrow> message_env \<Rightarrow> inbound \<Rightarrow> message_loop \<Rightarrow> FederationGrpcServer
     \<Rightarrow> loop_control \<times> fed_effect list \<times> message_loop \<times> FederationGrpcServer" where
  "loop_step p cfg e inb ml fs =
     (let s = ml_session ml;
          leave = (\<lambda>reason. let (effs, fs') = mark_offline_all (me_now e) cfg reason ml fs in (LoopBreak, effs, ml, fs'))
      in if ss_cancel s \<in> sr_cancelled (fs_registry fs) then
           leave (if ss_flag s \<in> fs_lost fs then ''ownership_lost'' else ''heartbeat'')
         else
           (case inb of
              InError \<Rightarrow> leave ''disconnect''
            | InClosed \<Rightarrow> leave ''disconnect''
            | InMessage msg \<Rightarrow> on_message p cfg e msg ml fs))"

section \<open>Lemmas\<close>

lemma on_payload_revoked:
  assumes "ss_flag (ml_session ml) \<in> sr_revoked (fs_registry fs)"
  shows "on_payload p cfg e msg ml fs = (LoopContinue, [], ml, fs)"
  using assms by (cases msg) (simp_all add: on_payload_def)

lemma interfere_fields [simp]:
  "fs_aggregator (interfere e n fs) = fs_aggregator fs" "fs_watch (interfere e n fs) = fs_watch fs"
  "fs_slots (interfere e n fs) = fs_slots fs" "fs_pending_proxies (interfere e n fs) = fs_pending_proxies fs"
  "fs_reconciler (interfere e n fs) = fs_reconciler fs" "fs_registry (interfere e n fs) = me_between e n (fs_registry fs)"
  by (simp_all add: interfere_def)

definition same_data :: "FederationGrpcServer \<Rightarrow> FederationGrpcServer \<Rightarrow> bool" where
  "same_data fs fs' \<longleftrightarrow>
     fs_aggregator fs' = fs_aggregator fs \<and> fs_watch fs' = fs_watch fs \<and> fs_slots fs' = fs_slots fs
     \<and> fs_pending_proxies fs' = fs_pending_proxies fs \<and> fs_reconciler fs' = fs_reconciler fs"

text \<open>The session table as the payload's own check of the ownership flag finds it.\<close>

definition table_at_last_check :: "message_env \<Rightarrow> string \<Rightarrow> ControllerRegistry \<Rightarrow> ControllerRegistry" where
  "table_at_last_check e cid table =
     me_between e 2 (me_between e 1 (update_last_seen (me_now e) cid (me_between e 0 table)))"

lemma on_message_cases:
  assumes "on_message p cfg e msg ml fs = (ctl, effs, ml', fs')"
  obtains "effs = []" "ml' = ml" "same_data fs fs'"
  | fs2 where "same_data fs fs2" "on_payload p cfg e msg ml fs2 = (ctl, effs, ml', fs')"
      "fs_registry fs2 = table_at_last_check e (ss_controller_id (ml_session ml)) (fs_registry fs)"
proof (cases "live (ml_session ml) fs \<and> is_current_session (ss_controller_id (ml_session ml)) (ss_session_id (ml_session ml)) (fs_registry fs)")
  case False
  with assms that(1) show ?thesis by (auto simp: on_message_def same_data_def)
next
  case True
  define fs1 where "fs1 = interfere e 0 fs"
  define fs2 where "fs2 = interfere e 1 (fs1\<lparr>fs_registry :=
      update_last_seen (me_now e) (ss_controller_id (ml_session ml)) (fs_registry fs1)\<rparr>)"
  have same: "same_data fs fs1" "same_data fs fs2" "same_data fs (interfere e 2 fs2)"
    by (simp_all add: same_data_def fs1_def fs2_def)
  have eq: "on_message p cfg e msg ml fs =
      (if \<not> live (ml_session ml) fs1 then (LoopContinue, [], ml, fs1)
       else if \<not> live (ml_session ml) fs2 then (LoopContinue, [], ml, fs2)
       else on_payload p cfg e msg ml (interfere e 2 fs2))"
    using True by (simp add: on_message_def Let_def fs1_def fs2_def)
  have table: "fs_registry (interfere e 2 fs2) = table_at_last_check e (ss_controller_id (ml_session ml)) (fs_registry fs)"
    by (simp add: fs2_def fs1_def table_at_last_check_def)
  show ?thesis
  proof (cases "live (ml_session ml) fs1 \<and> live (ml_session ml) fs2")
    case False
    with assms same that(1) show ?thesis by (auto simp: eq split: if_splits)
  next
    case live: True
    with assms have "on_payload p cfg e msg ml (interfere e 2 fs2) = (ctl, effs, ml', fs')" by (simp add: eq)
    with that(2) same(3) table show ?thesis by blast
  qed
qed

text \<open>The parts of the disconnect clean-up when the session is the current one and still online.\<close>

lemma mark_offline_all_current:
  assumes "is_current_session cid sid (fs_registry fs)"
    and "map_of (sr_inner (fs_registry fs)) cid = Some sess" "sess_offline_since sess = None"
    and "cid = ss_controller_id (ml_session ml)" "sid = ss_session_id (ml_session ml)"
    and "mark_offline_all now cfg reason ml fs = (effs, fs')"
  shows "map_of (sr_inner (fs_registry fs')) cid = Some (sess\<lparr>sess_offline_since := Some now, sess_stream_tx := None\<rparr>)"
    and "sess_cancel sess \<in> sr_cancelled (fs_registry fs')"
    and "fs_aggregator fs' = fst (aggregator_mark_offline now cid (fs_aggregator fs))"
    and "fs_watch fs' = with_effects (registry_mark_offline cid (ws_registry (fs_watch fs))) (fs_watch fs)"
    and "cfg_has_directory cfg \<Longrightarrow> fs_reconciler fs' = snd (schedule cid (fs_reconciler fs))"
    and "MarkOfflineTotal reason \<in> set effs"
  using assms
  by (auto simp: mark_offline_all_def mark_offline_def is_current_session_def Let_def map_simps split: prod.splits)

lemma mark_offline_all_stale:
  assumes "\<not> is_current_session (ss_controller_id (ml_session ml)) (ss_session_id (ml_session ml)) (fs_registry fs)"
  shows "mark_offline_all now cfg reason ml fs = ([], fs)"
  using mark_offline_stale [OF assms] by (simp add: mark_offline_all_def)

section \<open>Who is online\<close>

text \<open>
  Online in the session table is the \<open>is_online\<close> of the code: a sender that is not cancelled. A session
  that has been marked offline keeps the time of it.
\<close>

definition online_in_registry :: "FederationGrpcServer \<Rightarrow> string \<Rightarrow> bool" where
  "online_in_registry fs c \<longleftrightarrow>
     (case map_of (sr_inner (fs_registry fs)) c of None \<Rightarrow> False | Some s \<Rightarrow> is_online (fs_registry fs) s)"

definition marked_offline :: "FederationGrpcServer \<Rightarrow> string \<Rightarrow> bool" where
  "marked_offline fs c \<longleftrightarrow>
     (case map_of (sr_inner (fs_registry fs)) c of None \<Rightarrow> False | Some s \<Rightarrow> sess_offline_since s \<noteq> None)"

definition online_in_aggregator :: "FederationGrpcServer \<Rightarrow> string \<Rightarrow> bool" where
  "online_in_aggregator fs c \<longleftrightarrow> (case map_of (fs_aggregator fs) c of None \<Rightarrow> False | Some s \<Rightarrow> snap_offline_since s = None)"

lemmas online_defs = online_in_registry_def online_in_aggregator_def

lemma offline_after_aggregator:
  "online_in_aggregator (fs\<lparr>fs_aggregator := fst (aggregator_mark_offline now c (fs_aggregator fs))\<rparr>) d \<longleftrightarrow>
     d \<noteq> c \<and> online_in_aggregator fs d"
  by (auto simp: aggregator_mark_offline_def Let_def online_defs map_simps split: option.splits)

text \<open>The clean-up acts exactly on the current session that has not been marked offline yet.\<close>

lemma mark_offline_all_acts:
  assumes "mark_offline_all now cfg reason ml fs = (effs, fs')"
    and "cid = ss_controller_id (ml_session ml)" "sid = ss_session_id (ml_session ml)"
  obtains (idle) "effs = []" "fs' = fs" "\<not> (is_current_session cid sid (fs_registry fs) \<and> \<not> marked_offline fs cid)"
  | (acts) sess where "effs \<noteq> []" "is_current_session cid sid (fs_registry fs)"
      "map_of (sr_inner (fs_registry fs)) cid = Some sess" "sess_offline_since sess = None" "sess_session_id sess = sid"
proof (cases "is_current_session cid sid (fs_registry fs) \<and> \<not> marked_offline fs cid")
  case True
  then obtain sess where "map_of (sr_inner (fs_registry fs)) cid = Some sess" "sess_offline_since sess = None"
    "sess_session_id sess = sid"
    by (auto simp: marked_offline_def is_current_session_def split: option.splits)
  moreover from this assms have "effs \<noteq> []"
    by (auto simp: mark_offline_all_def mark_offline_def Let_def split: prod.splits)
  ultimately show ?thesis using True acts by blast
next
  case False
  then have "mark_offline now cid sid (fs_registry fs) = (False, fs_registry fs)"
    by (auto simp: mark_offline_def is_current_session_def marked_offline_def split: option.splits)
  with assms False idle show ?thesis by (auto simp: mark_offline_all_def)
qed

lemma mark_offline_all_data:
  assumes "mark_offline_all now cfg reason ml fs = (effs, fs')"
  shows "fs_slots fs' = fs_slots fs \<and> fs_pending_proxies fs' = fs_pending_proxies fs"
  using assms by (auto simp: mark_offline_all_def Let_def split: prod.splits if_splits)

lemma loop_step_leaves:
  assumes "ss_cancel (ml_session ml) \<in> sr_cancelled (fs_registry fs) \<or> inb \<in> {InError, InClosed}"
    and "loop_step p cfg e inb ml fs = (ctl, effs, ml', fs')"
  obtains reason where "mark_offline_all (me_now e) cfg reason ml fs = (effs, fs')" "ctl = LoopBreak" "ml' = ml"
proof -
  let ?m = "mark_offline_all (me_now e) cfg
    (if ss_cancel (ml_session ml) \<in> sr_cancelled (fs_registry fs)
     then if ss_flag (ml_session ml) \<in> fs_lost fs then ''ownership_lost'' else ''heartbeat''
     else ''disconnect'') ml fs"
  have "loop_step p cfg e inb ml fs = (LoopBreak, fst ?m, ml, snd ?m)"
    using assms(1) by (cases inb) (simp_all add: loop_step_def Let_def case_prod_beta)
  with assms(2) have "?m = (effs, fs')" "ctl = LoopBreak" "ml' = ml" by auto
  with that show ?thesis by blast
qed

text \<open>A marked session stays marked, or is gone, in every later table, unless its id is registered again.\<close>

definition spent :: "string \<Rightarrow> string \<Rightarrow> ControllerRegistry \<Rightarrow> bool" where
  "spent cid sid table \<longleftrightarrow>
     (\<forall>s. map_of (sr_inner table) cid = Some s \<and> sess_session_id s = sid \<longrightarrow> sess_offline_since s \<noteq> None)"

lemma registry_step_spent:
  assumes "spent cid sid table" "\<forall>now info tx ow. opn \<noteq> Register now cid info tx sid ow"
  shows "spent cid sid (registry_step opn table)"
proof (cases opn)
  case (Register now c info tx sid' ow)
  with assms show ?thesis
    by (auto simp: spent_def register_owned_cancellable_def Let_def map_simps)
next
  case (MarkOffline now c sid')
  with assms(1) show ?thesis
    by (auto simp: spent_def mark_offline_def map_simps split: option.splits if_splits)
next
  case (FenceOwned c)
  with assms(1) show ?thesis by (auto simp: spent_def fence_owned_session_def split: option.splits)
next
  case (RemoveSession c)
  with assms(1) show ?thesis by (auto simp: spent_def remove_session_def map_simps split: option.splits)
next
  case (UpdateLastSeen now c)
  with assms(1) show ?thesis by (auto simp: spent_def update_last_seen_def map_simps split: option.splits)
next
  case CancelAll
  with assms(1) show ?thesis
    by (auto simp: spent_def cancel_all_def Let_def map_simps split: if_splits)
qed (use assms(1) in \<open>auto simp: spent_def\<close>)

lemma registry_run_spent:
  "spent cid sid table \<Longrightarrow> (\<forall>now info tx ow. Register now cid info tx sid ow \<notin> set ops) \<Longrightarrow>
     spent cid sid (registry_run ops table)"
proof (induction ops arbitrary: table)
  case (Cons opn ops)
  have "spent cid sid (registry_step opn table)"
    using Cons.prems by (intro registry_step_spent) auto
  with Cons show ?case by (simp add: registry_run_def del: registry_step.simps)
qed (simp add: registry_run_def)

section \<open>Properties\<close>

definition sample_loop :: message_loop where
  "sample_loop =
     \<lparr>ml_session = fst sample_installed, ml_cache = 0,
      ml_watch = new_watch_state EDGION_CONFIG_DATA ''w1'' None, ml_last_pong = 5, ml_started = 5\<rparr>"

definition sample_env :: "nat \<Rightarrow> (nat \<Rightarrow> ControllerRegistry \<Rightarrow> ControllerRegistry) \<Rightarrow> message_env" where
  "sample_env now between =
     \<lparr>me_between = between, me_now = now, me_cache_now = 0, me_observed_at = int now, me_backoff_closed = False, me_new_id = ''w2''\<rparr>"

lemma sample_installed_cells:
  "ss_cancel (fst sample_installed) = 0" "ss_flag (fst sample_installed) = 0"
  "sr_cancelled (fs_registry (snd sample_installed)) = {}" "fs_lost (snd sample_installed) = {}"
  by (simp_all add: sample_installed_def install_session_def register_owned_cancellable_def sample_register_def
      initial_server_def new_controller_registry_def Let_def split: prod.splits)

lemma sample_installed_aggregator:
  "map_of (fs_aggregator (snd sample_installed)) ''eu/c1'' =
     Some (new_snapshot \<lparr>info_controller_id = ''eu/c1'', info_cluster = ''eu'', info_environments = [''prod''], info_tags = []\<rparr>)"
  by (simp add: sample_installed_def install_session_def sample_register_def initial_server_def set_controller_info_def
      new_snapshot_def Let_def split: prod.splits)

text \<open>
  C5: A disconnect reaches every state holder, once. When the clean-up of a session has an effect, the
  session was the current one of its Controller; afterwards it is marked offline, cancelled and without
  sender in the session table, offline in the aggregate, its cache is marked stale, an offline
  projection with its session id and fence is scheduled (with a directory) and the disconnect is
  audited. And whatever sequence of operations other tasks then run on the session table, evictions,
  take-overs, fencing and shutdown included, a second clean-up of the same session (the id is not
  registered again) has no effect at all.
\<close>

theorem disconnect_reported_once:
  assumes "mark_offline_all now cfg reason ml fs = (effs, fs1)" "effs \<noteq> []"
    and "cid = ss_controller_id (ml_session ml)" "sid = ss_session_id (ml_session ml)"
    and "fs_registry fs2 = registry_run ops (fs_registry fs1)"
    and "\<forall>t info tx ow. Register t cid info tx sid ow \<notin> set ops"
    and "ml_session ml2 = ml_session ml"
  shows "is_current_session cid sid (fs_registry fs)
     \<and> marked_offline fs1 cid \<and> \<not> online_in_registry fs1 cid \<and> \<not> online_in_aggregator fs1 cid
     \<and> ws_registry (fs_watch fs1) = fst (registry_mark_offline cid (ws_registry (fs_watch fs)))
     \<and> (cfg_has_directory cfg \<longrightarrow>
          map_of (or_workers (fs_reconciler fs1)) cid \<noteq> None
          \<and> ProjectOffline cid sid (ss_fence (ml_session ml)) (ss_observed_at (ml_session ml)) \<in> set effs)
     \<and> Audit cid sid ''/federation/disconnect'' 200 reason \<in> set effs
     \<and> mark_offline_all now2 cfg2 reason2 ml2 fs2 = ([], fs2)"
  using assms(1,3,4)
proof (cases rule: mark_offline_all_acts)
  case idle
  with assms(2) show ?thesis by simp
next
  case (acts sess)
  note m = mark_offline_all_current [OF acts(2-4) assms(3,4) assms(1)]
  have agg: "\<not> online_in_aggregator fs1 cid"
    using offline_after_aggregator [where fs = fs and now = now and c = cid and d = cid] by (simp add: online_in_aggregator_def m(3))
  have worker: "map_of (or_workers (fs_reconciler fs1)) cid \<noteq> None" if "cfg_has_directory cfg"
    using m(5) [OF that] by (simp add: schedule_def Let_def map_simps)
  have effs: "Audit cid sid ''/federation/disconnect'' 200 reason \<in> set effs"
    "cfg_has_directory cfg \<Longrightarrow> ProjectOffline cid sid (ss_fence (ml_session ml)) (ss_observed_at (ml_session ml)) \<in> set effs"
    using assms(1-4) by (auto simp: mark_offline_all_def Let_def split: prod.splits if_splits)
  have "spent cid sid (fs_registry fs1)" using m(1) by (simp add: spent_def)
  from registry_run_spent [OF this assms(6)] have spent: "spent cid sid (fs_registry fs2)" by (simp add: assms(5))
  obtain effs2 fs3 where again: "mark_offline_all now2 cfg2 reason2 ml2 fs2 = (effs2, fs3)" by fastforce
  have "effs2 = [] \<and> fs3 = fs2"
    using again assms(3,4) [folded assms(7)]
  proof (cases rule: mark_offline_all_acts)
    case (acts s)
    with spent show ?thesis by (simp add: spent_def)
  qed simp
  with again acts agg worker effs m(1,4) show ?thesis
    by (auto simp: marked_offline_def online_in_registry_def is_online_def with_effects_def split: prod.splits)
qed

theorem disconnect_reported_once_witness:
  "mark_offline_all 20 sample_config ''heartbeat'' sample_loop
      ((snd sample_installed)\<lparr>fs_registry := registry_run [CancelAll, FenceOwned ''eu/c1'']
         (fs_registry (snd (mark_offline_all 9 sample_config ''disconnect'' sample_loop (snd sample_installed))))\<rparr>)
    = ([], (snd sample_installed)\<lparr>fs_registry := registry_run [CancelAll, FenceOwned ''eu/c1'']
         (fs_registry (snd (mark_offline_all 9 sample_config ''disconnect'' sample_loop (snd sample_installed))))\<rparr>)"
proof -
  let ?m = "mark_offline_all 9 sample_config ''disconnect'' sample_loop (snd sample_installed)"
  have m: "?m = (fst ?m, snd ?m)" by simp
  have "fst ?m \<noteq> []"
    by (simp add: mark_offline_all_def mark_offline_def sample_loop_def sample_installed_inner Let_def split: prod.splits)
  from disconnect_reported_once [OF m this refl refl, of _ "[CancelAll, FenceOwned ''eu/c1'']" sample_loop 20 sample_config "''heartbeat''"]
  show ?thesis by simp
qed

text \<open>
  C7: A fenced session applies nothing. Whatever arrives in a turn of the message loop and whatever
  other tasks do to the session table between its checks, if the ownership of the session has been
  invalidated by the last check before the payload, the turn completes no proxy call, submits no
  observation and leaves the watch state alone; and it changes nothing of aggregate, caches and
  offline workers either and sends nothing, unless it is the disconnect clean-up, which ends the loop
  and happens only for a cancelled or ended stream whose session is still the current one. (A
  revocation after that last check no longer stops the payload.)
\<close>

theorem fenced_session_is_inert:
  assumes "loop_step p cfg e inb ml fs = (ctl, effs, ml', fs')"
    and "cid = ss_controller_id (ml_session ml)"
    and "ss_flag (ml_session ml) \<in> sr_revoked (table_at_last_check e cid (fs_registry fs))"
  shows "ml' = ml \<and> fs_slots fs' = fs_slots fs \<and> fs_pending_proxies fs' = fs_pending_proxies fs
     \<and> (effs = [] \<and> fs_aggregator fs' = fs_aggregator fs \<and> fs_watch fs' = fs_watch fs \<and> fs_reconciler fs' = fs_reconciler fs
        \<or> ctl = LoopBreak \<and> (ss_cancel (ml_session ml) \<in> sr_cancelled (fs_registry fs) \<or> inb \<in> {InError, InClosed})
          \<and> is_current_session cid (ss_session_id (ml_session ml)) (fs_registry fs)
          \<and> (\<exists>reason. mark_offline_all (me_now e) cfg reason ml fs = (effs, fs')))"
proof (cases "ss_cancel (ml_session ml) \<in> sr_cancelled (fs_registry fs) \<or> inb \<in> {InError, InClosed}")
  case True
  then obtain reason where m: "mark_offline_all (me_now e) cfg reason ml fs = (effs, fs')" and l: "ctl = LoopBreak" "ml' = ml"
    using assms(1) by (rule loop_step_leaves)
  from m assms(2) refl show ?thesis
  proof (cases rule: mark_offline_all_acts)
    case idle
    with l show ?thesis by simp
  next
    case (acts sess)
    with l m True mark_offline_all_data [OF m] show ?thesis by blast
  qed
next
  case False
  then obtain msg where "inb = InMessage msg" by (cases inb) auto
  with False assms(1) have "on_message p cfg e msg ml fs = (ctl, effs, ml', fs')" by (simp add: loop_step_def)
  then show ?thesis
  proof (cases rule: on_message_cases)
    case 1
    then show ?thesis by (simp add: same_data_def)
  next
    case (2 fs2)
    with assms(2,3) on_payload_revoked [of ml fs2 p cfg e msg] show ?thesis by (simp add: same_data_def)
  qed
qed

theorem fenced_session_is_inert_witness:
  "fst (snd (loop_step sample_parsers sample_config (sample_env 8 (\<lambda>n r. if n = 2 then r\<lparr>sr_revoked := {0}\<rparr> else r))
      (InMessage (MsgPong 1)) sample_loop (snd sample_installed))) = []"
proof -
  let ?e = "sample_env 8 (\<lambda>n r. if n = 2 then r\<lparr>sr_revoked := {0}\<rparr> else r)"
  let ?r = "loop_step sample_parsers sample_config ?e (InMessage (MsgPong 1)) sample_loop (snd sample_installed)"
  have split: "?r = (fst ?r, fst (snd ?r), fst (snd (snd ?r)), snd (snd (snd ?r)))" by simp
  have "ss_flag (ml_session sample_loop) \<in> sr_revoked (table_at_last_check ?e ''eu/c1'' (fs_registry (snd sample_installed)))"
    by (simp add: table_at_last_check_def sample_env_def sample_loop_def sample_installed_cells)
  then show ?thesis
    using fenced_session_is_inert [OF split, of "''eu/c1''"]
    by (simp add: sample_loop_def sample_installed_cells sample_installed_inner)
qed

text \<open>
  C37: A silent peer goes offline: when more than three ping intervals have passed since the last
  Pong, the next tick of the heartbeat cancels the session, and the next turn of the message loop,
  whatever has arrived, ends the loop with the session marked offline and no longer online.
\<close>

theorem silent_peer_goes_offline:
  assumes "heartbeat_tick interval now now_ms closed full ml fs = (beat, fs1)"
    and "3 * interval < now - ml_last_pong ml"
    and "map_of (sr_inner (fs_registry fs)) cid = Some sess" "sess_session_id sess = ss_session_id (ml_session ml)"
    and "cid = ss_controller_id (ml_session ml)"
    and "loop_step p cfg e inb ml fs1 = (ctl, effs, ml', fs2)"
  shows "ctl = LoopBreak \<and> marked_offline fs2 cid
     \<and> (sess_cancel sess = ss_cancel (ml_session ml) \<longrightarrow> \<not> online_in_registry fs2 cid)"
proof -
  have cancelled: "ss_cancel (ml_session ml) \<in> sr_cancelled (fs_registry fs1)"
    and same: "sr_inner (fs_registry fs1) = sr_inner (fs_registry fs)"
    using assms(1,2) by (auto simp: heartbeat_tick_def HEARTBEAT_MISSED_PING_BUDGET_def Let_def split: if_splits)
  then obtain reason where l: "mark_offline_all (me_now e) cfg reason ml fs1 = (effs, fs2)" and ctl: "ctl = LoopBreak"
    using assms(6) by (auto simp: loop_step_def Let_def split: prod.splits)
  have cur: "is_current_session cid (ss_session_id (ml_session ml)) (fs_registry fs1)"
    using assms(3,4) same by (simp add: is_current_session_def)
  have "marked_offline fs2 cid \<and> (sess_cancel sess = ss_cancel (ml_session ml) \<longrightarrow> \<not> online_in_registry fs2 cid)"
  proof (cases "sess_offline_since sess = None")
    case True
    with mark_offline_all_current(1) [OF cur _ True assms(5) refl l] assms(3) same show ?thesis
      by (simp add: online_in_registry_def marked_offline_def is_online_def)
  next
    case False
    then have "mark_offline (me_now e) cid (ss_session_id (ml_session ml)) (fs_registry fs1) = (False, fs_registry fs1)"
      using assms(3,4) same by (auto simp: mark_offline_def)
    with l assms(5) have "fs2 = fs1" by (simp add: mark_offline_all_def)
    with False assms(3) same cancelled show ?thesis
      by (auto simp: online_in_registry_def marked_offline_def is_online_def)
  qed
  with ctl show ?thesis by simp
qed

theorem silent_peer_goes_offline_witness:
  "\<not> online_in_registry
     (snd (snd (snd (loop_step sample_parsers sample_config (sample_env 99 (\<lambda>_ r. r)) (InMessage (MsgPong 1)) sample_loop
        (snd (heartbeat_tick 10 50 0 False False sample_loop (snd sample_installed))))))) ''eu/c1''"
proof -
  let ?f = "heartbeat_tick 10 50 0 False False sample_loop (snd sample_installed)"
  let ?l = "loop_step sample_parsers sample_config (sample_env 99 (\<lambda>_ r. r)) (InMessage (MsgPong 1)) sample_loop (snd ?f)"
  have f: "?f = (fst ?f, snd ?f)" and l: "?l = (fst ?l, fst (snd ?l), fst (snd (snd ?l)), snd (snd (snd ?l)))" by simp_all
  show ?thesis
    by (rule silent_peer_goes_offline
          [where sess = "the (map_of (sr_inner (fs_registry (snd sample_installed))) ''eu/c1'')", OF f _ _ _ _ l, THEN conjunct2, THEN conjunct2, rule_format])
      (simp_all add: sample_loop_def sample_installed_inner sample_installed_cells)
qed

text \<open>
  A message that arrives between the two writes with which the ownership task gives a session up
  (the validity flag first, the cancellation second) makes the message loop stop without the
  disconnect clean-up: the session stays current and online in both tables, nothing is scheduled and
  no other task of the stream is left that would do it.
\<close>

theorem revoked_loop_skips_cleanup:
  "let fs = (snd sample_installed)\<lparr>fs_registry := (fs_registry (snd sample_installed))\<lparr>sr_revoked := {0}\<rparr>\<rparr>
   in loop_step p sample_config e (InMessage msg) sample_loop fs = (LoopBreak, [], sample_loop, fs)
      \<and> online_in_registry fs ''eu/c1'' \<and> online_in_aggregator fs ''eu/c1''"
  by (simp add: loop_step_def sample_loop_def sample_installed_cells on_message_def live_def sample_installed_inner
      online_defs is_online_def sample_installed_aggregator new_snapshot_def Let_def)

text \<open>
  C40: The projection failure of a registration that has been superseded while it waited for the
  directory hides its successor: in every state in which the session is no longer the current one of
  its Controller, a failed or timed-out projection leaves the session table as it is, so a live
  successor stays current and online there, and takes the Controller offline in the aggregate, which is
  not guarded by the session id. Other Controllers are not touched.
\<close>

theorem late_projection_failure_hides_successor:
  assumes "\<not> is_current_session (ss_controller_id s) (ss_session_id s) (fs_registry fs)"
    and "cfg_has_directory cfg" "answer \<noteq> Some (Inr ())"
    and "sync_projected display now cfg s answer fs = (effs, result, fs')"
  shows "fs_registry fs' = fs_registry fs \<and> online_in_registry fs' (ss_controller_id s) = online_in_registry fs (ss_controller_id s)
     \<and> \<not> online_in_aggregator fs' (ss_controller_id s)
     \<and> (\<forall>d. d \<noteq> ss_controller_id s \<longrightarrow> online_in_aggregator fs' d = online_in_aggregator fs d)"
proof -
  have failed: "projection_failed display now s answer fs = (effs, fs')"
    using assms(2-4) by (auto simp: sync_projected_def Let_def split: option.splits sum.splits prod.splits)
  have reg: "fs_registry fs' = fs_registry fs"
    using failed mark_offline_stale [OF assms(1), of now] by (auto simp: projection_failed_def Let_def split: prod.splits)
  have "fs_aggregator fs' = fst (aggregator_mark_offline now (ss_controller_id s) (fs_aggregator fs))"
    using failed by (auto simp: projection_failed_def Let_def split: prod.splits)
  then have "online_in_aggregator fs' d \<longleftrightarrow> d \<noteq> ss_controller_id s \<and> online_in_aggregator fs d" for d
    using offline_after_aggregator [where fs = fs and now = now and c = "ss_controller_id s" and d = d] by (simp add: online_in_aggregator_def)
  with reg show ?thesis by (simp add: online_in_registry_def cong: option.case_cong)
qed

definition sample_takeover :: "sync_session \<times> FederationGrpcServer" where
  "sample_takeover = snd (install_session 6 sample_register ''s2'' 8 4 (Some sample_lead) (snd sample_installed))"

lemma sample_takeover_current:
  "is_current_session ''eu/c1'' ''s2'' (fs_registry (snd sample_takeover))" "online_in_registry (snd sample_takeover) ''eu/c1''"
  by (simp_all add: sample_takeover_def install_session_def register_owned_cancellable_def sample_register_def
      sample_installed_inner sample_installed_def initial_server_def new_controller_registry_def
      is_current_session_def online_in_registry_def is_online_def Let_def split: prod.splits)

theorem late_projection_failure_hides_successor_witness:
  "let fs = snd (snd (sync_projected (\<lambda>_. ''error'') 9 sample_config (fst sample_installed) None (snd sample_takeover)))
   in is_current_session ''eu/c1'' ''s2'' (fs_registry fs) \<and> online_in_registry fs ''eu/c1''
      \<and> \<not> online_in_aggregator fs ''eu/c1''"
proof -
  let ?r = "sync_projected (\<lambda>_. ''error'') 9 sample_config (fst sample_installed) None (snd sample_takeover)"
  have r: "?r = (fst ?r, fst (snd ?r), snd (snd ?r))" by simp
  have "\<not> is_current_session (ss_controller_id (fst sample_installed)) (ss_session_id (fst sample_installed)) (fs_registry (snd sample_takeover))"
    using sample_takeover_current(1) by (auto simp: is_current_session_def sample_installed_inner split: option.splits)
  from late_projection_failure_hides_successor [OF this _ _ r] show ?thesis
    using sample_takeover_current by (simp add: sample_config_def sample_installed_inner Let_def)
qed

end
