(* ===== verification/Forwarding.thy ===== *)
theory Forwarding
  imports Fed_Session
begin

text \<open>
  Operations on a live Controller from the management side: eviction
  (\<open>crates/center-runtime/src/eviction.rs\<close>), the HTTP tunnel (\<open>proxy.rs\<close>) and the one-hop calls
  between replicas (\<open>internal_forwarding/mod.rs\<close>).

  The owner locator, the transport to another replica, the answer of a Controller and the codec of
  the internal messages are the environment and come as arguments; \<open>None\<close> is a timeout. What other
  tasks do while a call awaits, or between two locked sections, is an argument too. Reaching
  \<open>unreachable!\<close> is the result \<open>None\<close> of a forwarding loop. Metric and log calls are left out.
\<close>

section \<open>Errors and operations\<close>

datatype ForwardErrorKind = StaleOwnership | ForwardUnavailable | Deadline | Rejected

record ForwardError =
  fe_kind :: ForwardErrorKind
  fe_message :: string

record ForwardHttpOperation =
  op_method :: string
  op_path :: string
  op_headers :: "(string, string) hmap"
  op_body :: string

datatype FencedProxyError = FencedStale | Dispatch nat string

type_synonym http_error = "nat \<times> string"

definition proxy_error :: "ForwardError \<Rightarrow> http_error" where
  "proxy_error e =
     ((case fe_kind e of Deadline \<Rightarrow> 504 | StaleOwnership \<Rightarrow> 503 | ForwardUnavailable \<Rightarrow> 503 | Rejected \<Rightarrow> 502),
      fe_message e)"

definition from_status :: "Status \<Rightarrow> ForwardError" where
  "from_status status =
     \<lparr>fe_kind = (case fst status of
                   FailedPrecondition \<Rightarrow> StaleOwnership
                 | NotFoundStatus \<Rightarrow> StaleOwnership
                 | DeadlineExceeded \<Rightarrow> Deadline
                 | Unavailable \<Rightarrow> ForwardUnavailable
                 | _ \<Rightarrow> Rejected),
      fe_message = snd status\<rparr>"

definition DENIED :: "string list" where
  "DENIED =
     [''authorization'', ''cookie'', ''connection'', ''keep-alive'', ''proxy-authenticate'', ''proxy-authorization'',
      ''te'', ''trailer'', ''transfer-encoding'', ''upgrade'', ''host'']"

definition nominated_headers :: "(string, string) hmap \<Rightarrow> string list" where
  "nominated_headers headers =
     filter (\<lambda>name. name \<noteq> [])
       (map (\<lambda>name. to_ascii_lowercase (trim name))
         (concat (map (\<lambda>(_, v). split_on (CHR '','') v)
           (filter (\<lambda>(name, _). eq_ignore_ascii_case name ''connection'') headers))))"

definition sanitize_headers :: "(string, string) hmap \<Rightarrow> (string, string) hmap" where
  "sanitize_headers headers =
     filter (\<lambda>(name, _). to_ascii_lowercase name \<notin> set DENIED \<and> to_ascii_lowercase name \<notin> set (nominated_headers headers))
       headers"

section \<open>Eviction\<close>

definition evict_unfenced :: "string \<Rightarrow> FederationGrpcServer \<Rightarrow> fed_effect list \<times> FederationGrpcServer" where
  "evict_unfenced cid fs =
     (let registry = snd (remove_session cid (fs_registry fs));
          (_, aggregator, writes) = aggregator_remove cid (fs_aggregator fs);
          watch = with_effects (remove_controller cid (ws_registry (fs_watch fs))) (fs_watch fs)
      in ([Gauges writes], fs\<lparr>fs_registry := registry, fs_aggregator := aggregator, fs_watch := watch\<rparr>))"

text \<open>\<open>between\<close> is what other tasks do after the session was looked up and before it is removed.\<close>

definition evict_fenced ::
  "(FederationGrpcServer \<Rightarrow> FederationGrpcServer) \<Rightarrow> string \<Rightarrow> string \<Rightarrow> OwnershipFence \<Rightarrow> FederationGrpcServer
     \<Rightarrow> fed_effect list \<times> unit CoreResult \<times> FederationGrpcServer" where
  "evict_fenced between cid holder fence fs =
     (case get_session cid (fs_registry fs) of
        None \<Rightarrow> ([], Inl (Conflict ''controller session moved before eviction''), fs)
      | Some session \<Rightarrow>
          if \<not> matches_ownership (fs_registry fs) holder fence session then
            ([], Inl (Conflict ''controller ownership changed before eviction''), fs)
          else let (effs, fs') = evict_unfenced cid (between fs) in (effs, Inr (), fs'))"

text \<open>
  The answers to one attempt: the located route, and for a remote owner the answer of its replica.
  In the forwarding record the locator and the transport are these answers. \<open>ea_before\<close> is what other
  tasks do while the locator is awaited, \<open>ea_between\<close> what they do between the fence check and the removal.
\<close>

record evict_attempt =
  ea_before :: "FederationGrpcServer \<Rightarrow> FederationGrpcServer"
  ea_route :: "ControllerOwnerRoute option CoreResult"
  ea_remote :: "ForwardError + unit"
  ea_between :: "FederationGrpcServer \<Rightarrow> FederationGrpcServer"

definition evict_error :: "ForwardError \<Rightarrow> CoreError" where
  "evict_error e = (case fe_kind e of StaleOwnership \<Rightarrow> Conflict (fe_message e) | _ \<Rightarrow> Adapter (fe_message e))"

text \<open>One attempt: the result of the call, or the route to compare the next one with.\<close>

definition evict_try ::
  "(CoreError \<Rightarrow> string) \<Rightarrow> string \<Rightarrow> string \<Rightarrow> OwnershipFence \<Rightarrow> evict_attempt \<Rightarrow> bool \<Rightarrow> ControllerOwnerRoute option
     \<Rightarrow> FederationGrpcServer \<Rightarrow> fed_effect list \<times> (unit CoreResult + ControllerOwnerRoute) \<times> FederationGrpcServer" where
  "evict_try display local_holder cid expected a first previous fs0 =
     (let fs = ea_before a fs0
      in case ea_route a of
        Inl e \<Rightarrow> ([], Inl (Inl e), fs)
      | Inr None \<Rightarrow> ([], Inl (Inr ()), fs)
      | Inr (Some route) \<Rightarrow>
          if route_ownership_fence route \<noteq> expected then ([], Inl (Inr ()), fs)
          else if previous = Some route then
            ([], Inl (Inl (Conflict ''controller ownership did not advance during eviction'')), fs)
          else
            let (effs, result, fs') =
                  (if route_holder route = local_holder then
                     (let (effs, r, fs') = evict_fenced (ea_between a) cid (route_holder route) (route_ownership_fence route) fs
                      in (effs, (case r of Inl e \<Rightarrow> Inl \<lparr>fe_kind = StaleOwnership, fe_message = display e\<rparr> | Inr x \<Rightarrow> Inr x), fs'))
                   else ([], ea_remote a, fs))
            in (effs,
                (case result of
                   Inr () \<Rightarrow> Inl (Inr ())
                 | Inl e \<Rightarrow> if first \<and> fe_kind e = StaleOwnership then Inr route else Inl (Inl (evict_error e))),
                fs'))"

text \<open>\<open>evict_live\<close>; \<open>forwarding\<close> is the local holder when owner forwarding is configured.\<close>

definition evict_live ::
  "(CoreError \<Rightarrow> string) \<Rightarrow> string option \<Rightarrow> string \<Rightarrow> EvictionTarget option \<Rightarrow> evict_attempt \<Rightarrow> evict_attempt
     \<Rightarrow> FederationGrpcServer \<Rightarrow> fed_effect list \<times> unit CoreResult option \<times> FederationGrpcServer" where
  "evict_live display forwarding cid target a1 a2 fs =
     (case forwarding of
        None \<Rightarrow> (let (effs, fs') = evict_unfenced cid fs in (effs, Some (Inr ()), fs'))
      | Some local_holder \<Rightarrow>
          (case Option.bind target target_ownership_fence of
             None \<Rightarrow> ([], Some (Inr ()), fs)
           | Some expected \<Rightarrow>
               (case evict_try display local_holder cid expected a1 True None fs of
                  (effs, Inl result, fs') \<Rightarrow> (effs, Some result, fs')
                | (effs, Inr route, fs') \<Rightarrow>
                    (case evict_try display local_holder cid expected a2 False (Some route) fs' of
                       (effs', Inl result, fs'') \<Rightarrow> (effs @ effs', Some result, fs'')
                     | (effs', Inr _, fs'') \<Rightarrow> (effs @ effs', None, fs'')))))"

section \<open>HTTP tunnel\<close>

text \<open>
  One dispatch. \<open>de_sent\<close> says whether the channel took the message, \<open>de_while_sending\<close> and
  \<open>de_while_waiting\<close> are what other tasks do meanwhile, \<open>de_answer\<close> what arrives: \<open>None\<close> for a
  timeout, \<open>Some None\<close> when the sender is dropped.
\<close>

record dispatch_env =
  de_request_id :: string
  de_oneshot :: nat
  de_while_sending :: "FederationGrpcServer \<Rightarrow> FederationGrpcServer"
  de_sent :: bool
  de_while_waiting :: "FederationGrpcServer \<Rightarrow> FederationGrpcServer"
  de_answer :: "HttpProxyResponse option option"
  de_timeout_secs :: string

definition remove_pending :: "string \<Rightarrow> FederationGrpcServer \<Rightarrow> FederationGrpcServer" where
  "remove_pending request_id fs = fs\<lparr>fs_pending_proxies := AList.delete request_id (fs_pending_proxies fs)\<rparr>"

definition dispatch_to_session ::
  "dispatch_env \<Rightarrow> string \<Rightarrow> ForwardHttpOperation \<Rightarrow> SessionView \<Rightarrow> FederationGrpcServer
     \<Rightarrow> fed_effect list \<times> (http_error + HttpProxyResponse) \<times> FederationGrpcServer" where
  "dispatch_to_session d cid oper session fs =
     (case sv_stream_tx session of
        None \<Rightarrow> ([], Inl (503, ''Controller '' @ cid @ '' is offline''), fs)
      | Some stream_tx \<Rightarrow>
          let rid = de_request_id d;
              fs1 = de_while_sending d
                      (fs\<lparr>fs_pending_proxies := AList.update rid (de_oneshot d) (fs_pending_proxies fs)\<rparr>);
              msg = HttpProxy \<lparr>hreq_request_id = rid, hreq_method = op_method oper, hreq_path = op_path oper,
                               hreq_headers = op_headers oper, hreq_body = op_body oper\<rparr>
          in if sv_session_cancel session \<in> sr_cancelled (fs_registry fs1) then
               ([], Inl (503, ''Controller '' @ cid @ '' is offline''), remove_pending rid fs1)
             else if \<not> de_sent d then
               ([], Inl (502, ''Failed to send proxy request: stream closed''), remove_pending rid fs1)
             else
               let fs2 = de_while_waiting d fs1;
                   result =
                     (if sv_session_cancel session \<in> sr_cancelled (fs_registry fs2) then
                        Inl (502, ''Controller '' @ cid @ '' disconnected while proxy result was pending'')
                      else
                        (case de_answer d of
                           None \<Rightarrow> Inl (504, ''Proxy request timed out after '' @ de_timeout_secs d @ ''s'')
                         | Some None \<Rightarrow> Inl (502, ''Proxy response channel dropped'')
                         | Some (Some response) \<Rightarrow> Inr response))
               in ([SendTo stream_tx msg], result, remove_pending rid fs2))"

definition forward_local ::
  "dispatch_env \<Rightarrow> string \<Rightarrow> ForwardHttpOperation \<Rightarrow> FederationGrpcServer
     \<Rightarrow> fed_effect list \<times> (http_error + HttpProxyResponse) \<times> FederationGrpcServer" where
  "forward_local d cid oper fs =
     (case get_session cid (fs_registry fs) of
        None \<Rightarrow> ([], Inl (404, ''Controller '' @ cid @ '' not found or offline''), fs)
      | Some session \<Rightarrow> dispatch_to_session d cid oper session fs)"

definition forward_fenced_local ::
  "dispatch_env \<Rightarrow> string \<Rightarrow> ForwardHttpOperation \<Rightarrow> string \<Rightarrow> OwnershipFence \<Rightarrow> FederationGrpcServer
     \<Rightarrow> fed_effect list \<times> (FencedProxyError + HttpProxyResponse) \<times> FederationGrpcServer" where
  "forward_fenced_local d cid oper holder fence fs =
     (case get_session cid (fs_registry fs) of
        None \<Rightarrow> ([], Inl FencedStale, fs)
      | Some session \<Rightarrow>
          if \<not> matches_ownership (fs_registry fs) holder fence session then ([], Inl FencedStale, fs)
          else
            let (effs, r, fs') = dispatch_to_session d cid oper session fs
            in (effs, (case r of Inl (status, message) \<Rightarrow> Inl (Dispatch status message) | Inr x \<Rightarrow> Inr x), fs'))"

definition local_session_is_dispatchable :: "bool \<Rightarrow> string \<Rightarrow> FederationGrpcServer \<Rightarrow> bool" where
  "local_session_is_dispatchable has_forwarding cid fs \<longleftrightarrow>
     (case get_session cid (fs_registry fs) of
        None \<Rightarrow> False
      | Some session \<Rightarrow>
          sv_stream_tx session \<noteq> None
          \<and> (\<not> has_forwarding
             \<or> (case sv_ownership session of None \<Rightarrow> False | Some ow \<Rightarrow> is_valid (fs_registry fs) ow)))"

record proxy_attempt =
  pa_route :: "ControllerOwnerRoute option CoreResult"
  pa_remote :: "ForwardError + HttpProxyResponse"

definition forward_try ::
  "(CoreError \<Rightarrow> string) \<Rightarrow> string \<Rightarrow> string \<Rightarrow> proxy_attempt \<Rightarrow> bool \<Rightarrow> ControllerOwnerRoute option
     \<Rightarrow> (http_error + HttpProxyResponse) + ControllerOwnerRoute" where
  "forward_try display local_holder cid a first previous =
     (case pa_route a of
        Inl e \<Rightarrow> Inl (Inl (503, display e))
      | Inr None \<Rightarrow> Inl (Inl (404, ''Controller '' @ cid @ '' not found or offline''))
      | Inr (Some route) \<Rightarrow>
          if route_holder route = local_holder then
            Inl (Inl (503, ''Controller '' @ cid @ '' ownership is stale on this replica''))
          else if previous = Some route then
            Inl (Inl (503, ''Controller '' @ cid @ '' ownership did not advance''))
          else
            (case pa_remote a of
               Inr response \<Rightarrow> Inl (Inr response)
             | Inl e \<Rightarrow> if first \<and> fe_kind e = StaleOwnership then Inr route else Inl (Inl (proxy_error e))))"

definition forward_remote ::
  "(CoreError \<Rightarrow> string) \<Rightarrow> string \<Rightarrow> string \<Rightarrow> proxy_attempt \<Rightarrow> proxy_attempt \<Rightarrow> (http_error + HttpProxyResponse) option" where
  "forward_remote display local_holder cid a1 a2 =
     (case identifier_new ''controller'' cid of
        Inl e \<Rightarrow> Some (Inl (400, display e))
      | Inr _ \<Rightarrow>
          (case forward_try display local_holder cid a1 True None of
             Inl result \<Rightarrow> Some result
           | Inr route \<Rightarrow>
               (case forward_try display local_holder cid a2 False (Some route) of
                  Inl result \<Rightarrow> Some result
                | Inr _ \<Rightarrow> None)))"

text \<open>
  \<open>forward\<close>; \<open>in_time\<close> says whether it ends before its own timeout. When it does not, the dispatch is
  dropped where it stands, while sending (\<open>de_sent\<close> is false) or while waiting (\<open>de_answer\<close> is
  \<open>None\<close>), and its guard removes the pending entry, the state the dispatch ends in as well.
\<close>

definition forward ::
  "(CoreError \<Rightarrow> string) \<Rightarrow> string option \<Rightarrow> string \<Rightarrow> ForwardHttpOperation \<Rightarrow> dispatch_env \<Rightarrow> proxy_attempt \<Rightarrow> proxy_attempt
     \<Rightarrow> bool \<Rightarrow> FederationGrpcServer \<Rightarrow> fed_effect list \<times> (http_error + HttpProxyResponse) option \<times> FederationGrpcServer" where
  "forward display forwarding cid oper d a1 a2 in_time fs =
     (let oper' = oper\<lparr>op_headers := sanitize_headers (op_headers oper)\<rparr>;
          late = (\<lambda>r. if in_time then r else Some (Inl (504, ''Proxy request timed out after '' @ de_timeout_secs d @ ''s'')));
          here = (let (effs, r, fs') = forward_local d cid oper' fs in (effs, late (Some r), fs'))
      in if local_session_is_dispatchable (forwarding \<noteq> None) cid fs then here
         else
           (case forwarding of
              None \<Rightarrow> here
            | Some local_holder \<Rightarrow> ([], late (forward_remote display local_holder cid a1 a2), fs)))"

section \<open>Calls from another replica\<close>

record OwnershipTarget =
  ot_holder :: string
  ot_fencing_token :: string
  ot_fencing_epoch :: u64

datatype ValidationError =
    Draining | Hop | MissingTarget | WrongTarget | InvalidFence | MissingPeer | InvalidPeer | DeniedPeer | RequestTooLarge

fun validation_status :: "ValidationError \<Rightarrow> Status" where
  "validation_status Draining = (Unavailable, ''replica is draining'')"
| "validation_status Hop = (FailedPrecondition, ''internal forwarding is exactly one hop'')"
| "validation_status MissingTarget = (InvalidArgument, ''ownership target is required'')"
| "validation_status WrongTarget = (FailedPrecondition, ''target replica changed'')"
| "validation_status InvalidFence = (InvalidArgument, ''invalid ownership fence'')"
| "validation_status MissingPeer = (Unauthenticated, ''internal client certificate is required'')"
| "validation_status InvalidPeer = (PermissionDenied, ''internal client identity is invalid'')"
| "validation_status DeniedPeer = (PermissionDenied, ''internal client identity is not authorized'')"
| "validation_status RequestTooLarge = (ResourceExhausted, ''internal forwarding request exceeds limit'')"

record InternalForwardingService =
  if_local_holder :: string
  if_accepting :: bool
  if_max_request_bytes :: nat
  if_max_response_bytes :: nat
  if_expected_peer_spiffe_id :: string

definition stop_accepting :: "InternalForwardingService \<Rightarrow> InternalForwardingService" where
  "stop_accepting svc = svc\<lparr>if_accepting := False\<rparr>"

definition validate_target ::
  "InternalForwardingService \<Rightarrow> u32 \<Rightarrow> OwnershipTarget option \<Rightarrow> ValidationError + OwnershipFence" where
  "validate_target svc hop_count target =
     (if \<not> if_accepting svc then Inl Draining
      else if hop_count \<noteq> 1 then Inl Hop
      else
        (case target of
           None \<Rightarrow> Inl MissingTarget
         | Some t \<Rightarrow>
             if ot_holder t \<noteq> if_local_holder svc then Inl WrongTarget
             else if ot_fencing_token t = [] \<or> ot_fencing_epoch t = 0 then Inl InvalidFence
             else Inr \<lparr>fence_token = ot_fencing_token t, fence_epoch = ot_fencing_epoch t\<rparr>))"

definition validate_peer ::
  "der_parser \<Rightarrow> InternalForwardingService \<Rightarrow> string list option \<Rightarrow> ValidationError + unit" where
  "validate_peer from_der svc peer_certs =
     (case Option.bind peer_certs (\<lambda>cs. if cs = [] then None else Some (hd cs)) of
        None \<Rightarrow> Inl MissingPeer
      | Some leaf \<Rightarrow>
          (case extract_single_spiffe_uri from_der leaf of
             Inl _ \<Rightarrow> Inl InvalidPeer
           | Inr actual \<Rightarrow> if actual \<noteq> if_expected_peer_spiffe_id svc then Inl DeniedPeer else Inr ()))"

definition validate_request_size :: "InternalForwardingService \<Rightarrow> nat \<Rightarrow> ValidationError + unit" where
  "validate_request_size svc encoded_len =
     (if if_max_request_bytes svc < encoded_len then Inl RequestTooLarge else Inr ())"

fun proxy_dispatch_status :: "FencedProxyError \<Rightarrow> Status" where
  "proxy_dispatch_status FencedStale = (FailedPrecondition, ''controller ownership is stale'')"
| "proxy_dispatch_status (Dispatch _ _) = (Unavailable, ''controller dispatch result is uncertain'')"

record internal_request =
  ir_peer_certs :: "string list option"
  ir_encoded_len :: nat
  ir_hop_count :: u32
  ir_target :: "OwnershipTarget option"
  ir_controller_id :: string
  ir_request :: string

definition admit_internal ::
  "der_parser \<Rightarrow> InternalForwardingService \<Rightarrow> internal_request \<Rightarrow> Status + OwnershipFence" where
  "admit_internal from_der svc r =
     (case and_then (validate_peer from_der svc (ir_peer_certs r)) (\<lambda>_.
             and_then (validate_request_size svc (ir_encoded_len r)) (\<lambda>_.
               validate_target svc (ir_hop_count r) (ir_target r))) of
        Inl e \<Rightarrow> Inl (validation_status e)
      | Inr fence \<Rightarrow> Inr fence)"

text \<open>\<open>decode\<close> is \<open>HttpProxyRequest::decode\<close>.\<close>

definition serve_forward_http ::
  "der_parser \<Rightarrow> (string \<Rightarrow> HttpProxyRequest option) \<Rightarrow> InternalForwardingService \<Rightarrow> internal_request \<Rightarrow> dispatch_env
     \<Rightarrow> FederationGrpcServer \<Rightarrow> fed_effect list \<times> (Status + HttpProxyResponse) \<times> FederationGrpcServer" where
  "serve_forward_http from_der decode svc r d fs =
     (case admit_internal from_der svc r of
        Inl status \<Rightarrow> ([], Inl status, fs)
      | Inr fence \<Rightarrow>
          (case decode (ir_request r) of
             None \<Rightarrow> ([], Inl (InvalidArgument, ''proxy request is invalid''), fs)
           | Some req \<Rightarrow>
               if if_max_request_bytes svc < length (hreq_body req) then
                 ([], Inl (ResourceExhausted, ''proxy request exceeds limit''), fs)
               else
                 let (effs, result, fs') =
                       forward_fenced_local d (ir_controller_id r)
                         \<lparr>op_method = hreq_method req, op_path = hreq_path req,
                          op_headers = sanitize_headers (hreq_headers req), op_body = hreq_body req\<rparr>
                         (if_local_holder svc) fence fs
                 in (effs,
                     (case result of
                        Inl e \<Rightarrow> Inl (proxy_dispatch_status e)
                      | Inr response \<Rightarrow>
                          if if_max_response_bytes svc < length (hresp_body response)
                          then Inl (ResourceExhausted, ''proxy response exceeds limit'') else Inr response),
                     fs')))"

definition serve_evict_local ::
  "der_parser \<Rightarrow> (CoreError \<Rightarrow> string) \<Rightarrow> (FederationGrpcServer \<Rightarrow> FederationGrpcServer) \<Rightarrow> InternalForwardingService \<Rightarrow> internal_request
     \<Rightarrow> FederationGrpcServer \<Rightarrow> fed_effect list \<times> (Status + unit) \<times> FederationGrpcServer" where
  "serve_evict_local from_der display between svc r fs =
     (case admit_internal from_der svc r of
        Inl status \<Rightarrow> ([], Inl status, fs)
      | Inr fence \<Rightarrow>
          let (effs, result, fs') = evict_fenced between (ir_controller_id r) (if_local_holder svc) fence fs
          in (effs, (case result of Inl e \<Rightarrow> Inl (FailedPrecondition, display e) | Inr () \<Rightarrow> Inr ()), fs'))"

section \<open>Lemmas\<close>

lemma evict_fenced_cases:
  assumes "evict_fenced between cid holder fence fs = (effs, r, fs')"
  obtains "fs' = fs" "effs = []" "r \<noteq> Inr ()"
  | session where "get_session cid (fs_registry fs) = Some session"
      "matches_ownership (fs_registry fs) holder fence session" "(effs, fs') = evict_unfenced cid (between fs)" "r = Inr ()"
  using assms that by (auto simp: evict_fenced_def split: option.splits if_splits prod.splits)

text \<open>The session the fence check of an eviction accepts.\<close>

definition holds_fence :: "string \<Rightarrow> OwnershipFence \<Rightarrow> ControllerRegistry \<Rightarrow> ControllerSession \<Rightarrow> bool" where
  "holds_fence holder fence table s \<longleftrightarrow>
     (\<exists>ow. sess_ownership s = Some ow \<and> own_holder ow = holder \<and> own_fence ow = fence \<and> own_valid ow \<notin> sr_revoked table)"

lemma matches_holds_fence:
  assumes "get_session cid table = Some session" "matches_ownership table holder fence session"
  obtains s where "map_of (sr_inner table) cid = Some s" "holds_fence holder fence table s"
  using assms that by (auto simp: get_session_def matches_ownership_def holds_fence_def is_valid_def split: option.splits)

lemma evict_try_cases:
  assumes "evict_try display h cid expected a first previous fs = (effs, r, fs')"
  obtains (kept) "fs' = ea_before a fs" "effs = []" "first \<or> (\<exists>x. r = Inl x)"
  | (removed) s where "map_of (sr_inner (fs_registry (ea_before a fs))) cid = Some s"
      "holds_fence h expected (fs_registry (ea_before a fs)) s"
      "(effs, fs') = evict_unfenced cid (ea_between a (ea_before a fs))" "r = Inl (Inr ())"
proof (cases "\<exists>route. ea_route a = Inr (Some route) \<and> route_ownership_fence route = expected \<and> previous \<noteq> Some route
    \<and> route_holder route = h")
  case True
  then obtain route where r: "ea_route a = Inr (Some route)" "route_ownership_fence route = expected"
    "previous \<noteq> Some route" "route_holder route = h" by blast
  obtain effs1 r1 fs1 where e: "evict_fenced (ea_between a) cid h expected (ea_before a fs) = (effs1, r1, fs1)"
    by (cases "evict_fenced (ea_between a) cid h expected (ea_before a fs)") auto
  from e show ?thesis
  proof (cases rule: evict_fenced_cases)
    case 1
    with assms r e have "fs' = ea_before a fs \<and> effs = [] \<and> (first \<or> (\<exists>x. r = Inl x))"
      by (cases r1) (auto simp: evict_try_def Let_def split: if_splits)
    then show ?thesis using kept by blast
  next
    case (2 session)
    from 2(1,2) obtain s where "map_of (sr_inner (fs_registry (ea_before a fs))) cid = Some s"
      "holds_fence h expected (fs_registry (ea_before a fs)) s" by (rule matches_holds_fence)
    with assms r e 2 removed show ?thesis by (auto simp: evict_try_def Let_def)
  qed
next
  case False
  with assms have "fs' = ea_before a fs \<and> effs = [] \<and> (first \<or> (\<exists>x. r = Inl x))"
    by (auto simp: evict_try_def Let_def split: sum.splits option.splits if_splits prod.splits)
  then show ?thesis using kept by blast
qed

text \<open>What removing the entry of a Controller does to the session table.\<close>

lemma evict_unfenced_table:
  assumes "(effs, fs') = evict_unfenced cid fs"
  shows "map_of (sr_inner (fs_registry fs')) d = (if d = cid then None else map_of (sr_inner (fs_registry fs)) d)"
    and "map_of (sr_inner (fs_registry fs)) cid = Some s \<Longrightarrow> sess_cancel s \<in> sr_cancelled (fs_registry fs')"
    and "map_of (sr_inner (fs_registry fs)) cid = Some s \<Longrightarrow> sess_ownership s = Some ow \<Longrightarrow> own_valid ow \<in> sr_revoked (fs_registry fs')"
proof -
  have "fs_registry fs' = snd (remove_session cid (fs_registry fs))"
    using assms by (auto simp: evict_unfenced_def Let_def split: prod.splits)
  then show "map_of (sr_inner (fs_registry fs')) d = (if d = cid then None else map_of (sr_inner (fs_registry fs)) d)"
    "map_of (sr_inner (fs_registry fs)) cid = Some s \<Longrightarrow> sess_cancel s \<in> sr_cancelled (fs_registry fs')"
    "map_of (sr_inner (fs_registry fs)) cid = Some s \<Longrightarrow> sess_ownership s = Some ow \<Longrightarrow> own_valid ow \<in> sr_revoked (fs_registry fs')"
    by (auto simp: remove_session_def map_simps split: option.splits)
qed

lemma nominated_empty: "\<forall>(n, v) \<in> set h. \<not> eq_ignore_ascii_case n ''connection'' \<Longrightarrow> nominated_headers h = []"
proof -
  assume "\<forall>(n, v) \<in> set h. \<not> eq_ignore_ascii_case n ''connection''"
  then have "filter (\<lambda>(name, _). eq_ignore_ascii_case name ''connection'') h = []"
    by (auto simp: filter_empty_conv)
  then show ?thesis by (simp add: nominated_headers_def)
qed

lemma connection_denied: "eq_ignore_ascii_case n ''connection'' \<Longrightarrow> to_ascii_lowercase n \<in> set DENIED"
proof -
  assume "eq_ignore_ascii_case n ''connection''"
  moreover have "to_ascii_lowercase ''connection'' = ''connection''" by code_simp
  ultimately show ?thesis by (simp add: eq_ignore_ascii_case_def DENIED_def)
qed

lemma sanitize_again: "sanitize_headers (sanitize_headers h) = sanitize_headers h"
proof -
  have "nominated_headers (sanitize_headers h) = []"
    by (rule nominated_empty) (auto simp: sanitize_headers_def dest: connection_denied)
  moreover have "\<forall>(n, v) \<in> set (sanitize_headers h). to_ascii_lowercase n \<notin> set DENIED"
    by (auto simp: sanitize_headers_def)
  ultimately show ?thesis
    unfolding sanitize_headers_def [of "sanitize_headers h"] by (auto simp: filter_id_conv)
qed

lemma dispatch_pending:
  assumes "dispatch_to_session d cid oper session fs = (effs, r, fs')"
  shows "fs' = fs \<and> effs = [] \<or> map_of (fs_pending_proxies fs') (de_request_id d) = None"
  using assms
  by (auto simp: dispatch_to_session_def Let_def remove_pending_def map_simps split: option.splits if_splits)

lemma admit_internal_ok:
  assumes "admit_internal from_der svc r = Inr fence"
  shows "if_accepting svc \<and> ir_hop_count r = 1
     \<and> (\<exists>leaf rest. ir_peer_certs r = Some (leaf # rest)
           \<and> extract_single_spiffe_uri from_der leaf = Inr (if_expected_peer_spiffe_id svc))
     \<and> (\<exists>t. ir_target r = Some t \<and> ot_holder t = if_local_holder svc
           \<and> fence = \<lparr>fence_token = ot_fencing_token t, fence_epoch = ot_fencing_epoch t\<rparr>)
     \<and> fence_token fence \<noteq> [] \<and> fence_epoch fence \<noteq> 0"
proof -
  from assms have p: "validate_peer from_der svc (ir_peer_certs r) = Inr ()"
    and t: "validate_target svc (ir_hop_count r) (ir_target r) = Inr fence"
    by (auto simp: admit_internal_def and_then_def split: sum.splits)
  from p have "\<exists>leaf rest. ir_peer_certs r = Some (leaf # rest)
      \<and> extract_single_spiffe_uri from_der leaf = Inr (if_expected_peer_spiffe_id svc)"
    by (cases "ir_peer_certs r"; cases "the (ir_peer_certs r)")
      (auto simp: validate_peer_def split: sum.splits if_splits)
  with t show ?thesis by (auto simp: validate_target_def split: if_splits option.splits)
qed

section \<open>Properties\<close>

text \<open>
  C10: An owner-aware eviction returns within two attempts. Whatever other tasks do while it waits, it
  either changes nothing in this process or, at one of its attempts, found the Controller's session
  to hold a valid ownership of this replica with the fence of the eviction target, and then removed
  the entry the Controller had by the time of the removal, and of the session table only that. If the
  session it checked was still that entry, it is the one that is removed, cancelled and revoked.
  (Between the check and the removal another session may have taken its place.)
\<close>

theorem eviction_is_fenced:
  assumes "evict_live display (Some h) cid target a1 a2 fs = (effs, result, fs')"
  shows "result \<noteq> None \<and>
     (effs = [] \<and> fs' \<in> {fs, ea_before a1 fs, ea_before a2 (ea_before a1 fs)}
      \<or> (\<exists>fence a found s.
           Option.bind target target_ownership_fence = Some fence
           \<and> (a = a1 \<and> found = ea_before a1 fs \<or> a = a2 \<and> found = ea_before a2 (ea_before a1 fs))
           \<and> map_of (sr_inner (fs_registry found)) cid = Some s \<and> holds_fence h fence (fs_registry found) s
           \<and> (effs, fs') = evict_unfenced cid (ea_between a found)
           \<and> (\<forall>d. map_of (sr_inner (fs_registry fs')) d =
                (if d = cid then None else map_of (sr_inner (fs_registry (ea_between a found))) d))
           \<and> (map_of (sr_inner (fs_registry (ea_between a found))) cid = Some s \<longrightarrow>
                sess_cancel s \<in> sr_cancelled (fs_registry fs')
                \<and> (\<exists>ow. sess_ownership s = Some ow \<and> own_valid ow \<in> sr_revoked (fs_registry fs')))))"
    (is "_ \<and> (?idle \<or> (\<exists>fence a found s. ?removed fence a found s))")
proof (cases "Option.bind target target_ownership_fence")
  case None
  with assms show ?thesis by (auto simp: evict_live_def)
next
  case (Some expected)
  have removedI: "?removed expected a found s"
    if "a = a1 \<and> found = ea_before a1 fs \<or> a = a2 \<and> found = ea_before a2 (ea_before a1 fs)"
      "map_of (sr_inner (fs_registry found)) cid = Some s" "holds_fence h expected (fs_registry found) s"
      "(effs, fs') = evict_unfenced cid (ea_between a found)" for a found s
    using that Some evict_unfenced_table [OF that(4)] by (auto simp: holds_fence_def)
  obtain e1 r1 fs1 where t1: "evict_try display h cid expected a1 True None fs = (e1, r1, fs1)"
    by (cases "evict_try display h cid expected a1 True None fs") auto
  from t1 show ?thesis
  proof (cases rule: evict_try_cases)
    case (removed s)
    with assms t1 Some have "result = Some (Inr ())" "effs = e1" "fs' = fs1" by (auto simp: evict_live_def)
    with removed removedI [of a1 "ea_before a1 fs" s] show ?thesis by blast
  next
    case kept
    show ?thesis
    proof (cases r1)
      case (Inl x)
      with assms t1 Some kept show ?thesis by (auto simp: evict_live_def)
    next
      case (Inr route)
      obtain e2 r2 fs2 where t2: "evict_try display h cid expected a2 False (Some route) fs1 = (e2, r2, fs2)"
        by (cases "evict_try display h cid expected a2 False (Some route) fs1") auto
      from t2 show ?thesis
      proof (cases rule: evict_try_cases)
        case (removed s)
        with assms t1 t2 Some Inr kept have "result = Some (Inr ())" "effs = e2" "fs' = fs2" by (auto simp: evict_live_def)
        with removed kept(1) removedI [of a2 "ea_before a2 (ea_before a1 fs)" s] show ?thesis by blast
      next
        case again: kept
        with assms t1 t2 Some Inr kept show ?thesis by (auto simp: evict_live_def)
      qed
    qed
  qed
qed

definition sample_target :: EvictionTarget where
  "sample_target = \<lparr>target_session_id = Some ''s1'', target_connected_replica = None,
                    target_ownership_fence = Some (fence_of sample_lead)\<rparr>"

definition sample_attempt_local :: evict_attempt where
  "sample_attempt_local =
     \<lparr>ea_before = (\<lambda>x. x),
      ea_route = Inr (Some \<lparr>route_holder = ''center-0'', route_endpoint = ''https://10.0.0.1'',
                           route_ownership_fence = fence_of sample_lead\<rparr>),
      ea_remote = Inr (), ea_between = (\<lambda>x. x)\<rparr>"

theorem eviction_is_fenced_witness:
  "fst (snd (evict_live (\<lambda>_. []) (Some ''center-0'') ''eu/c1'' (Some sample_target) sample_attempt_local sample_attempt_local
      (snd sample_installed))) \<noteq> None
   \<and> get_session ''eu/c1'' (fs_registry (snd (snd (evict_live (\<lambda>_. []) (Some ''center-0'') ''eu/c1'' (Some sample_target)
        sample_attempt_local sample_attempt_local (snd sample_installed))))) = None"
proof
  let ?r = "evict_live (\<lambda>_. []) (Some ''center-0'') ''eu/c1'' (Some sample_target) sample_attempt_local sample_attempt_local
    (snd sample_installed)"
  have split: "?r = (fst ?r, fst (snd ?r), snd (snd ?r))" by simp
  show "fst (snd ?r) \<noteq> None"
    using eviction_is_fenced [OF split] by (simp add: sample_attempt_local_def)
  show "get_session ''eu/c1'' (fs_registry (snd (snd ?r))) = None"
    by (simp add: evict_live_def evict_try_def sample_target_def sample_attempt_local_def evict_fenced_def get_session_def
        matches_ownership_def is_valid_def sample_installed_inner evict_unfenced_def remove_session_def Let_def split: prod.splits)
qed

text \<open>
  The fence check of a local eviction and the removal are two steps: a Controller that reconnects
  between them has its new session removed, although it carries another fence than the one checked.
\<close>

theorem eviction_race_removes_successor:
  "let new_lead = sample_lead\<lparr>lead_fencing_token := ''t2'', lead_fencing_epoch := 2\<rparr>;
       reconnect = (\<lambda>fs. snd (snd (install_session 6 sample_register ''s2'' 8 4 (Some new_lead) fs)));
       (effs, result, fs) = evict_fenced reconnect ''eu/c1'' ''center-0'' (fence_of sample_lead) (snd sample_installed)
   in result = Inr () \<and> is_current_session ''eu/c1'' ''s2'' (fs_registry (reconnect (snd sample_installed)))
      \<and> get_session ''eu/c1'' (fs_registry fs) = None"
  by (simp add: evict_fenced_def get_session_def sample_installed_inner matches_ownership_def is_valid_def
      install_session_def register_owned_cancellable_def sample_register_def is_current_session_def
      evict_unfenced_def remove_session_def Let_def split: prod.splits)

text \<open>
  Forwarded headers are clean, and cleaning once is enough: what is left of a header map is
  exactly its entries that are neither on the deny list nor nominated by a \<open>Connection\<close> header, the
  names compared without case, and the second pass on the owning replica changes nothing.
\<close>

theorem sanitize_headers_exact:
  "set (sanitize_headers h) =
     {(n, v) \<in> set h. to_ascii_lowercase n \<notin> set DENIED
        \<and> (to_ascii_lowercase n = [] \<or>
           to_ascii_lowercase n \<notin> {to_ascii_lowercase (trim part) | part c w. (c, w) \<in> set h
              \<and> eq_ignore_ascii_case c ''connection'' \<and> part \<in> set (split_on (CHR '','') w)})}
   \<and> sanitize_headers (sanitize_headers h) = sanitize_headers h"
proof
  have "x \<in> set (nominated_headers h) \<longleftrightarrow> x \<noteq> [] \<and> (\<exists>part c w. x = to_ascii_lowercase (trim part) \<and> (c, w) \<in> set h
      \<and> eq_ignore_ascii_case c ''connection'' \<and> part \<in> set (split_on (CHR '','') w))" for x
    by (auto simp: nominated_headers_def)
  then show "set (sanitize_headers h) =
     {(n, v) \<in> set h. to_ascii_lowercase n \<notin> set DENIED
        \<and> (to_ascii_lowercase n = [] \<or>
           to_ascii_lowercase n \<notin> {to_ascii_lowercase (trim part) | part c w. (c, w) \<in> set h
              \<and> eq_ignore_ascii_case c ''connection'' \<and> part \<in> set (split_on (CHR '','') w)})}"
    by (auto simp: sanitize_headers_def)
qed (rule sanitize_again)

text \<open>
  C34: A call from another replica reaches a Controller or its state only when the caller's leaf
  certificate carries exactly the configured identity, the replica is not draining, the call is the
  first hop, and it names this replica and the fence of a valid ownership of the Controller's session.
\<close>

theorem internal_calls_are_authorised:
  assumes "serve_forward_http from_der decode svc r d fs = (effs, result, fs') \<and> effs \<noteq> []
     \<or> serve_evict_local from_der display between svc r fs = (effs, result', fs') \<and> (effs \<noteq> [] \<or> fs' \<noteq> fs)"
  shows "\<exists>leaf rest target session. ir_peer_certs r = Some (leaf # rest)
     \<and> extract_single_spiffe_uri from_der leaf = Inr (if_expected_peer_spiffe_id svc)
     \<and> if_accepting svc \<and> ir_hop_count r = 1
     \<and> ir_target r = Some target \<and> ot_holder target = if_local_holder svc
     \<and> get_session (ir_controller_id r) (fs_registry fs) = Some session
     \<and> matches_ownership (fs_registry fs) (if_local_holder svc)
         \<lparr>fence_token = ot_fencing_token target, fence_epoch = ot_fencing_epoch target\<rparr> session"
proof -
  obtain fence where f: "admit_internal from_der svc r = Inr fence"
    using assms by (cases "admit_internal from_der svc r") (auto simp: serve_forward_http_def serve_evict_local_def)
  have "\<exists>session. get_session (ir_controller_id r) (fs_registry fs) = Some session
      \<and> matches_ownership (fs_registry fs) (if_local_holder svc) fence session"
    using assms f
    by (auto simp: serve_forward_http_def serve_evict_local_def forward_fenced_local_def evict_fenced_def Let_def
        split: option.splits if_splits prod.splits)
  with admit_internal_ok [OF f] show ?thesis by blast
qed

definition sample_service :: InternalForwardingService where
  "sample_service =
     \<lparr>if_local_holder = ''center-0'', if_accepting = True, if_max_request_bytes = 1000, if_max_response_bytes = 1000,
      if_expected_peer_spiffe_id = ''SPIFFE://Td/controllers/eu/c1''\<rparr>"

definition sample_internal :: internal_request where
  "sample_internal =
     \<lparr>ir_peer_certs = Some [''der''], ir_encoded_len = 10, ir_hop_count = 1,
      ir_target = Some \<lparr>ot_holder = ''center-0'', ot_fencing_token = ''t1'', ot_fencing_epoch = 1\<rparr>,
      ir_controller_id = ''eu/c1'', ir_request = []\<rparr>"

theorem internal_calls_are_authorised_witness:
  "extract_single_spiffe_uri sample_der_parser ''der'' = Inr (if_expected_peer_spiffe_id sample_service)
   \<and> fst (serve_evict_local sample_der_parser (\<lambda>_. []) (\<lambda>x. x) sample_service sample_internal (snd sample_installed)) \<noteq> []"
proof -
  let ?s = "serve_evict_local sample_der_parser (\<lambda>_. []) (\<lambda>x. x) sample_service sample_internal (snd sample_installed)"
  have x: "extract_single_spiffe_uri sample_der_parser ''der'' = Inr ''SPIFFE://Td/controllers/eu/c1''" by code_simp
  have ne: "fst ?s \<noteq> []"
    by (simp add: serve_evict_local_def admit_internal_def validate_peer_def x sample_service_def sample_internal_def
        validate_request_size_def validate_target_def and_then_def evict_fenced_def get_session_def sample_installed_inner
        matches_ownership_def is_valid_def fence_of_def sample_lead_def evict_unfenced_def Let_def split: prod.splits)
  have "?s = (fst ?s, fst (snd ?s), snd (snd ?s)) \<and> (fst ?s \<noteq> [] \<or> snd (snd ?s) \<noteq> snd sample_installed)"
    using ne by simp
  from internal_calls_are_authorised [OF disjI2 [OF this]] ne show ?thesis
    by (auto simp: sample_internal_def)
qed

text \<open>
  A tunnelled request leaves nothing behind and is answered at most once: on every path, error
  paths and concurrent changes included, a dispatch that registered its request id removes it again;
  and the first response that carries a pending id is delivered to its caller and removes the id, so
  a second one is dropped.
\<close>

theorem proxy_request_is_settled:
  assumes "dispatch_to_session d cid oper session fs = (effs, r, fs')" "sv_stream_tx session = Some tx"
    and "ss_flag (ml_session ml) \<notin> sr_revoked (fs_registry fs1)"
    and "map_of (fs_pending_proxies fs1) (hresp_request_id resp) = Some caller"
    and "on_payload p cfg e (MsgHttpProxyResponse resp) ml fs1 = (ctl, effs1, ml1, fs2)"
  shows "map_of (fs_pending_proxies fs') (de_request_id d) = None
     \<and> effs1 = [CompleteProxy caller resp]
     \<and> (\<exists>fs3. on_payload p cfg e' (MsgHttpProxyResponse resp) ml fs2 = (LoopContinue, [], ml, fs3)
          \<and> fs_pending_proxies fs3 = fs_pending_proxies fs2)"
proof -
  have "map_of (fs_pending_proxies fs') (de_request_id d) = None"
    using assms(1,2) by (auto simp: dispatch_to_session_def Let_def remove_pending_def map_simps split: if_splits)
  moreover have "effs1 = [CompleteProxy caller resp]" "map_of (fs_pending_proxies fs2) (hresp_request_id resp) = None"
    using assms(3-5) by (auto simp: on_payload_def Let_def map_simps)
  ultimately show ?thesis by (simp add: on_payload_def Let_def)
qed

definition sample_dispatch :: dispatch_env where
  "sample_dispatch =
     \<lparr>de_request_id = ''q1'', de_oneshot = 40, de_while_sending = (\<lambda>x. x), de_sent = True, de_while_waiting = (\<lambda>x. x),
      de_answer = None, de_timeout_secs = ''30''\<rparr>"

definition sample_response :: HttpProxyResponse where
  "sample_response = \<lparr>hresp_request_id = ''q1'', hresp_status_code = 200, hresp_headers = [], hresp_body = []\<rparr>"

theorem proxy_request_is_settled_witness:
  "map_of (fs_pending_proxies (snd (snd (dispatch_to_session sample_dispatch ''eu/c1''
      \<lparr>op_method = ''GET'', op_path = ''/'', op_headers = [], op_body = []\<rparr>
      (the (get_session ''eu/c1'' (fs_registry (snd sample_installed)))) (snd sample_installed))))) ''q1'' = None"
proof -
  let ?d = "dispatch_to_session sample_dispatch ''eu/c1'' \<lparr>op_method = ''GET'', op_path = ''/'', op_headers = [], op_body = []\<rparr>
      (the (get_session ''eu/c1'' (fs_registry (snd sample_installed)))) (snd sample_installed)"
  let ?fs = "(snd sample_installed)\<lparr>fs_pending_proxies := [(''q1'', 40)]\<rparr>"
  let ?p = "on_payload sample_parsers sample_config (sample_env 8 (\<lambda>_ r. r)) (MsgHttpProxyResponse sample_response) sample_loop ?fs"
  have d: "?d = (fst ?d, fst (snd ?d), snd (snd ?d))" and p: "?p = (fst ?p, fst (snd ?p), fst (snd (snd ?p)), snd (snd (snd ?p)))"
    by simp_all
  have "sv_stream_tx (the (get_session ''eu/c1'' (fs_registry (snd sample_installed)))) = Some 3"
    by (simp add: get_session_def sample_installed_inner is_online_def sample_installed_cells)
  from proxy_request_is_settled [OF d this _ _ p, of 40 "sample_env 9 (\<lambda>_ r. r)"] show ?thesis
    by (simp add: sample_loop_def sample_installed_cells sample_installed_inner sample_response_def)
      (simp add: sample_dispatch_def)
qed

end
