(* ===== verification/Dns_Names.thy ===== *)
theory Dns_Names
  imports Center_Prelude
begin

text \<open>
  Identifiers and DNS names of the provider-neutral cloud model:
  \<open>crates/center-core/src/cloud.rs\<close> and the names of \<open>cloud/dns.rs\<close>. IDNA conversion
  (\<open>idna::domain_to_ascii\<close>) is the argument \<open>idna\<close>, \<open>None\<close> for an error.
\<close>

section \<open>Identifiers\<close>

datatype CloudProvider = Cloudflare | Aws

datatype ZoneVisibility = Public | Private

definition MAX_OPAQUE_ID_LEN :: nat where "MAX_OPAQUE_ID_LEN = 512"
definition MAX_PAGE_TOKEN_LEN :: nat where "MAX_PAGE_TOKEN_LEN = 4096"

definition validate_text :: "string \<Rightarrow> string \<Rightarrow> nat \<Rightarrow> unit CoreResult" where
  "validate_text value kind max_len =
     (if value = [] \<or> max_len < length value \<or> trim value \<noteq> value \<or> has_control value
      then Inl (Conflict (kind @ '' is invalid'')) else Inr ())"

lemma validate_text_printable:
  "list_all printable s \<Longrightarrow> s \<noteq> [] \<Longrightarrow> graphic (hd s) \<Longrightarrow> graphic (last s) \<Longrightarrow> length s \<le> n \<Longrightarrow>
     validate_text s kind n = Inr ()"
  by (simp add: validate_text_def trim_ends_graphic has_control_printable)

text \<open>\<open>CloudResourceId\<close> and \<open>CredentialRef\<close>, which has no bound.\<close>

definition cloud_identifier_new :: "string \<Rightarrow> nat option \<Rightarrow> string \<Rightarrow> string CoreResult" where
  "cloud_identifier_new kind max_len value =
     (if value = [] \<or> (case max_len of None \<Rightarrow> False | Some m \<Rightarrow> m < length value)
         \<or> trim value \<noteq> value \<or> has_control value
      then Inl (InvalidIdentifier kind value) else Inr value)"

definition validate_resource_id :: "string \<Rightarrow> unit CoreResult" where
  "validate_resource_id v = and_then (cloud_identifier_new ''cloud resource'' (Some 512) v) (\<lambda>_. Inr ())"

datatype ProviderAccountScope = CloudflareScope string | AwsScope string

fun validate_scope_for :: "ProviderAccountScope \<Rightarrow> CloudProvider \<Rightarrow> unit CoreResult" where
  "validate_scope_for (CloudflareScope account_id) provider =
     (if provider \<noteq> Cloudflare
         \<or> \<not> (length account_id = 32
               \<and> list_all (\<lambda>c. is_ascii_digit c \<or> (97 \<le> byte c \<and> byte c \<le> 102)) account_id)
      then Inl (Conflict ''Cloudflare account ID is invalid'') else Inr ())"
| "validate_scope_for (AwsScope account_id) provider =
     (if provider \<noteq> Aws \<or> \<not> (length account_id = 12 \<and> list_all is_ascii_digit account_id)
      then Inl (Conflict ''AWS account ID is invalid'') else Inr ())"

definition opaque_id_new :: "string \<Rightarrow> nat \<Rightarrow> string \<Rightarrow> string CoreResult" where
  "opaque_id_new kind max_len value = and_then (validate_text value kind max_len) (\<lambda>_. Inr value)"

definition validate_zone_id :: "string \<Rightarrow> unit CoreResult" where
  "validate_zone_id v = validate_text v ''DNS zone ID'' MAX_OPAQUE_ID_LEN"

definition validate_object_id :: "string \<Rightarrow> unit CoreResult" where
  "validate_object_id v = validate_text v ''DNS record object ID'' MAX_OPAQUE_ID_LEN"

definition validate_revision :: "string \<Rightarrow> unit CoreResult" where
  "validate_revision v = validate_text v ''DNS record revision'' MAX_OPAQUE_ID_LEN"

definition validate_change_id :: "string \<Rightarrow> unit CoreResult" where
  "validate_change_id v = validate_text v ''DNS change ID'' MAX_OPAQUE_ID_LEN"

definition validate_page_token :: "string \<Rightarrow> unit CoreResult" where
  "validate_page_token v = validate_text v ''DNS page token'' MAX_PAGE_TOKEN_LEN"

definition validate_health_check_id :: "string \<Rightarrow> unit CoreResult" where
  "validate_health_check_id v = validate_text v ''Route 53 health check ID'' 64"

section \<open>Names\<close>

definition label_chars_ok :: "bool \<Rightarrow> string \<Rightarrow> bool" where
  "label_chars_ok underscore label \<longleftrightarrow>
     label \<noteq> [] \<and> length label \<le> 63 \<and> hd label \<noteq> CHR ''-'' \<and> last label \<noteq> CHR ''-''
     \<and> list_all (\<lambda>c. is_ascii_alphanumeric c \<or> c = CHR ''-'' \<or> (underscore \<and> c = CHR ''_'')) label"

definition normalize_label ::
  "(string \<Rightarrow> string option) \<Rightarrow> bool \<Rightarrow> bool \<Rightarrow> bool \<Rightarrow> string \<Rightarrow> string CoreResult" where
  "normalize_label idna allow_underscore allow_wildcard first label =
     (if label = ''*'' \<and> allow_wildcard \<and> first then Inr ''*''
      else if CHR ''_'' \<in> set label then
        (if \<not> allow_underscore \<or> \<not> label_chars_ok True label
         then Inl (Conflict ''DNS owner label is invalid'') else Inr (to_ascii_lowercase label))
      else
        (case idna label of
           None \<Rightarrow> Inl (Conflict ''DNS IDNA label is invalid'')
         | Some a \<Rightarrow>
             let ascii = to_ascii_lowercase a
             in if \<not> label_chars_ok False ascii then Inl (Conflict ''DNS label is invalid'') else Inr ascii))"

fun normalize_labels ::
  "(string \<Rightarrow> string option) \<Rightarrow> bool \<Rightarrow> bool \<Rightarrow> bool \<Rightarrow> string list \<Rightarrow> string list CoreResult" where
  "normalize_labels idna u w first [] = Inr []"
| "normalize_labels idna u w first (l # ls) =
     and_then (normalize_label idna u w first l) (\<lambda>l'.
       and_then (normalize_labels idna u w False ls) (\<lambda>ls'. Inr (l' # ls')))"

definition normalize_name :: "(string \<Rightarrow> string option) \<Rightarrow> string \<Rightarrow> bool \<Rightarrow> bool \<Rightarrow> string CoreResult" where
  "normalize_name idna v allow_underscore allow_wildcard =
     (let value = (case strip_suffix ''.'' v of None \<Rightarrow> v | Some x \<Rightarrow> x)
      in if value = [] \<or> ends_with ''.'' value then Inl (Conflict ''DNS name is invalid'')
         else
           and_then (normalize_labels idna allow_underscore allow_wildcard True (split_on (CHR ''.'') value)) (\<lambda>labels.
             let normalized = join_with ''.'' labels
             in if 253 < length normalized then Inl (Conflict ''DNS name is too long'') else Inr normalized))"

definition absolute_dns_name_new :: "(string \<Rightarrow> string option) \<Rightarrow> string \<Rightarrow> string CoreResult" where
  "absolute_dns_name_new idna v = normalize_name idna v False False"

definition dns_owner_name_new :: "(string \<Rightarrow> string option) \<Rightarrow> string \<Rightarrow> string CoreResult" where
  "dns_owner_name_new idna v = normalize_name idna v True True"

definition fqdn :: "string \<Rightarrow> string" where
  "fqdn name = name @ ''.''"

definition is_within :: "string \<Rightarrow> string \<Rightarrow> bool" where
  "is_within owner apex \<longleftrightarrow> owner = apex \<or> ends_with (''.'' @ apex) owner"

section \<open>Lemmas\<close>

text \<open>The documented idempotence of ToASCII, up to the case of the letters.\<close>

definition idna_stable :: "(string \<Rightarrow> string option) \<Rightarrow> bool" where
  "idna_stable idna \<longleftrightarrow>
     (\<forall>s a. idna s = Some a \<longrightarrow> (\<exists>b. idna (to_ascii_lowercase a) = Some b \<and> to_ascii_lowercase b = to_ascii_lowercase a))"

definition canonical_label :: "bool \<Rightarrow> string \<Rightarrow> bool" where
  "canonical_label underscore label \<longleftrightarrow> label_chars_ok underscore label \<and> to_ascii_lowercase label = label"

lemma lowercase_alnum: "is_ascii_alphanumeric c \<Longrightarrow> is_ascii_alphanumeric (to_ascii_lowercase_char c)"
  by (auto simp: ascii_class_defs to_ascii_lowercase_char_def)

lemma lowercase_dash: "to_ascii_lowercase_char c = CHR ''-'' \<longleftrightarrow> c = CHR ''-''"
proof (cases "65 \<le> byte c \<and> byte c \<le> 90")
  case True
  then have "byte (to_ascii_lowercase_char c) = byte c + 32" by (simp add: to_ascii_lowercase_char_def)
  with True show ?thesis by (auto simp: byte_def)
qed (auto simp: to_ascii_lowercase_char_def)

lemma lowercase_underscore: "to_ascii_lowercase_char c = CHR ''_'' \<longleftrightarrow> c = CHR ''_''"
proof (cases "65 \<le> byte c \<and> byte c \<le> 90")
  case True
  then have "byte (to_ascii_lowercase_char c) = byte c + 32" by (simp add: to_ascii_lowercase_char_def)
  with True show ?thesis by (auto simp: byte_def)
qed (auto simp: to_ascii_lowercase_char_def)

lemma label_chars_ok_lowercase: "label_chars_ok u l \<Longrightarrow> label_chars_ok u (to_ascii_lowercase l)"
  by (auto simp: label_chars_ok_def to_ascii_lowercase_def hd_map last_map lowercase_dash lowercase_underscore
      list_all_iff lowercase_alnum)

lemma label_chars_ok_mono: "label_chars_ok False l \<Longrightarrow> label_chars_ok u l"
  by (auto simp: label_chars_ok_def list_all_iff)

lemma label_no_special:
  assumes "label_chars_ok u l"
  shows "CHR ''.'' \<notin> set l" "l \<noteq> ''*''" "\<not> u \<Longrightarrow> CHR ''_'' \<notin> set l"
  using assms by (auto simp: label_chars_ok_def list_all_iff ascii_class_defs byte_def)

lemma normalize_label_cases:
  assumes "normalize_label idna u w first l = Inr n"
  obtains (wildcard) "n = ''*''" "w" "first"
  | (underscored) "CHR ''_'' \<in> set l" "u" "label_chars_ok True l" "n = to_ascii_lowercase l"
  | (plain) a where "idna l = Some a" "n = to_ascii_lowercase a" "label_chars_ok False n"
proof (cases "l = ''*'' \<and> w \<and> first")
  case True
  with assms wildcard show ?thesis by (simp add: normalize_label_def)
next
  case star: False
  show ?thesis
  proof (cases "CHR ''_'' \<in> set l")
    case True
    with assms star underscored show ?thesis by (simp add: normalize_label_def split: if_splits)
  next
    case False
    with assms star plain show ?thesis
      by (cases "idna l") (simp_all add: normalize_label_def Let_def split: if_splits)
  qed
qed

lemma normalize_label_ok:
  assumes "normalize_label idna u w first l = Inr n"
  shows "(n = ''*'' \<and> w \<and> first) \<or> canonical_label u n"
  using assms
  by (cases rule: normalize_label_cases)
    (simp_all add: canonical_label_def label_chars_ok_lowercase label_chars_ok_mono)

lemma normalize_label_again:
  assumes "normalize_label idna u w first l = Inr n" "idna_stable idna"
  shows "normalize_label idna u w first n = Inr n"
proof (cases "n = ''*'' \<and> w \<and> first")
  case True
  then show ?thesis by (simp add: normalize_label_def)
next
  case False
  from assms(1) show ?thesis
  proof (cases rule: normalize_label_cases)
    case wildcard
    with False show ?thesis by simp
  next
    case und: underscored
    then have "CHR ''_'' \<in> set n" using lowercase_underscore [of "CHR ''_''"] by (auto simp: to_ascii_lowercase_def intro: image_eqI [of _ _ "CHR ''_''"])
    with und label_chars_ok_lowercase [OF und(3)] label_no_special(2) [OF label_chars_ok_lowercase [OF und(3)]]
    show ?thesis by (simp add: normalize_label_def)
  next
    case plain
    from plain(1) assms(2) obtain b where "idna n = Some b" "to_ascii_lowercase b = n"
      unfolding idna_stable_def plain(2) by blast
    with plain label_no_special(2,3) [OF plain(3)] show ?thesis by (simp add: normalize_label_def Let_def)
  qed
qed

lemma normalize_labels_ok:
  assumes "normalize_labels idna u w first ls = Inr ns"
  shows "length ns = length ls \<and> (\<forall>n \<in> set ns. n = ''*'' \<and> w \<or> canonical_label u n)
     \<and> (\<forall>n \<in> set (if first then tl ns else ns). canonical_label u n)"
  using assms
proof (induction idna u w first ls arbitrary: ns rule: normalize_labels.induct)
  case (2 idna u w first l ls)
  then obtain n ns' where n: "normalize_label idna u w first l = Inr n"
    "normalize_labels idna u w False ls = Inr ns'" "ns = n # ns'" by (auto simp: and_then_eq_Inr)
  from 2(1) [OF n(2)] normalize_label_ok [OF n(1)] n(3) show ?case by auto
qed simp

lemma normalize_labels_again:
  assumes "normalize_labels idna u w first ls = Inr ns" "idna_stable idna"
  shows "normalize_labels idna u w first ns = Inr ns"
  using assms
proof (induction idna u w first ls arbitrary: ns rule: normalize_labels.induct)
  case (2 idna u w first l ls)
  then obtain n ns' where n: "normalize_label idna u w first l = Inr n"
    "normalize_labels idna u w False ls = Inr ns'" "ns = n # ns'" by (auto simp: and_then_eq_Inr)
  with 2 normalize_label_again [OF n(1)] show ?case by simp
qed simp

lemma strip_dot: "strip_suffix ''.'' v = None \<longleftrightarrow> \<not> ends_with ''.'' v"
  by (simp add: ends_with_def)

lemma normalize_name_ok:
  assumes "normalize_name idna v u w = Inr n"
  obtains ls ns where "normalize_labels idna u w True ls = Inr ns" "ls \<noteq> []" "n = join_with ''.'' ns" "length n \<le> 253"
  using assms by (auto simp: normalize_name_def Let_def and_then_eq_Inr split: if_splits)

lemma join_last: "ls \<noteq> [] \<Longrightarrow> last ls \<noteq> [] \<Longrightarrow> join_with sep ls \<noteq> [] \<and> last (join_with sep ls) = last (last ls)"
  by (induction sep ls rule: join_with.induct) auto

lemma labels_split:
  assumes "ns \<noteq> []" "\<forall>n \<in> set ns. n = ''*'' \<or> canonical_label u n"
  shows "split_on (CHR ''.'') (join_with ''.'' ns) = ns" "join_with ''.'' ns \<noteq> []" "\<not> ends_with ''.'' (join_with ''.'' ns)"
proof -
  have sep: "\<forall>n \<in> set ns. CHR ''.'' \<notin> set n \<and> n \<noteq> []"
    using assms(2) label_no_special(1) by (auto simp: canonical_label_def label_chars_ok_def)
  with assms(1) show "split_on (CHR ''.'') (join_with ''.'' ns) = ns" by (simp add: split_on_join)
  from sep assms(1) have l: "last ns \<in> set ns" "last ns \<noteq> []" by auto
  from join_last [OF assms(1) this(2), of "''.''"] have j: "join_with ''.'' ns \<noteq> []"
    "last (join_with ''.'' ns) = last (last ns)" by auto
  then show "join_with ''.'' ns \<noteq> []" by simp
  have "last (join_with ''.'' ns) \<noteq> CHR ''.''" using j(2) l sep by (metis last_in_set)
  then show "\<not> ends_with ''.'' (join_with ''.'' ns)" by (auto simp: ends_with_iff)
qed

lemma normalize_name_of_canonical:
  assumes "normalize_labels idna u w True ns = Inr ns" "ns \<noteq> []" "\<forall>n \<in> set ns. n = ''*'' \<or> canonical_label u n"
    and "length (join_with ''.'' ns) \<le> 253"
  shows "normalize_name idna (join_with ''.'' ns) u w = Inr (join_with ''.'' ns)"
    "normalize_name idna (fqdn (join_with ''.'' ns)) u w = Inr (join_with ''.'' ns)"
proof -
  note s = labels_split [OF assms(2,3)]
  from s(3) have "strip_suffix ''.'' (join_with ''.'' ns) = None" by (simp add: strip_dot)
  moreover have "strip_suffix ''.'' (fqdn (join_with ''.'' ns)) = Some (join_with ''.'' ns)"
    by (simp add: strip_suffix_iff fqdn_def)
  ultimately show "normalize_name idna (join_with ''.'' ns) u w = Inr (join_with ''.'' ns)"
    "normalize_name idna (fqdn (join_with ''.'' ns)) u w = Inr (join_with ''.'' ns)"
    using s assms by (simp_all add: normalize_name_def Let_def)
qed

lemma split_on_app: "split_on c (a @ c # s) = split_on c a @ split_on c s"
  by (induction a) (auto simp: hd_append)

lemma join_with_append: "a \<noteq> [] \<Longrightarrow> b \<noteq> [] \<Longrightarrow> join_with sep (a @ b) = join_with sep a @ sep @ join_with sep b"
proof (induction sep a rule: join_with.induct)
  case (2 sep x)
  then show ?case by (cases b) auto
qed auto

section \<open>Properties\<close>

text \<open>
  Normalisation produces canonical names and is stable. An accepted name has at most 253 bytes
  and consists of labels of 1 to 63 lowercase letters, digits, inner hyphens and, for owners,
  underscores; only the first label of an owner may be the wildcard. Normalising the result again,
  with or without the trailing dot of its absolute form, gives the same name.
\<close>

theorem normalize_name_canonical:
  assumes "normalize_name idna v u w = Inr n" "idna_stable idna"
  shows "length n \<le> 253
     \<and> list_all (canonical_label u) (tl (split_on (CHR ''.'') n))
     \<and> (canonical_label u (hd (split_on (CHR ''.'') n)) \<or> w \<and> hd (split_on (CHR ''.'') n) = ''*'')
     \<and> normalize_name idna n u w = Inr n \<and> normalize_name idna (fqdn n) u w = Inr n"
proof -
  from assms(1) obtain ls ns where l: "normalize_labels idna u w True ls = Inr ns" "ls \<noteq> []" "n = join_with ''.'' ns" "length n \<le> 253"
    by (rule normalize_name_ok)
  from normalize_labels_ok [OF l(1)] l(2) have ok: "ns \<noteq> []" "\<forall>n \<in> set ns. n = ''*'' \<and> w \<or> canonical_label u n"
    "\<forall>n \<in> set (tl ns). canonical_label u n" by auto
  then have "\<forall>n \<in> set ns. n = ''*'' \<or> canonical_label u n" by blast
  note norm = normalize_name_of_canonical [OF normalize_labels_again [OF l(1) assms(2)] ok(1) this]
  note split = labels_split(1) [OF ok(1) \<open>\<forall>n \<in> set ns. n = ''*'' \<or> canonical_label u n\<close>]
  show ?thesis using norm l(3,4) ok split by (auto simp: list_all_iff)
qed

theorem normalize_name_canonical_witness:
  "normalize_name Some ''a.io'' True True = Inr ''a.io''
   \<and> normalize_name Some ''A.io.'' True True = Inr ''a.io''"
proof -
  have n: "normalize_name Some ''A.io.'' True True = Inr ''a.io''" by code_simp
  have "idna_stable Some" by (simp add: idna_stable_def)
  from normalize_name_canonical [OF n this] n show ?thesis by simp
qed

text \<open>
  The zone test works on whole labels: an owner is within a zone exactly when the labels of the
  apex are the last labels of the owner, so \<open>notexample.com\<close> is not within \<open>example.com\<close>.
\<close>

theorem is_within_labels:
  "is_within owner apex \<longleftrightarrow> (\<exists>pre. split_on (CHR ''.'') owner = pre @ split_on (CHR ''.'') apex)"
proof
  assume "is_within owner apex"
  then consider "owner = apex" | t where "owner = t @ CHR ''.'' # apex"
    by (auto simp: is_within_def ends_with_iff)
  then show "\<exists>pre. split_on (CHR ''.'') owner = pre @ split_on (CHR ''.'') apex"
    by cases (auto simp: split_on_app intro: exI [of _ "[]"])
next
  assume "\<exists>pre. split_on (CHR ''.'') owner = pre @ split_on (CHR ''.'') apex"
  then obtain pre where p: "split_on (CHR ''.'') owner = pre @ split_on (CHR ''.'') apex" ..
  have "owner = join_with ''.'' (pre @ split_on (CHR ''.'') apex)" using p join_split_on [of "CHR ''.''" owner] by simp
  also have "\<dots> = (if pre = [] then apex else join_with ''.'' pre @ ''.'' @ apex)"
    using join_split_on [of "CHR ''.''" apex] by (simp add: join_with_append)
  finally show "is_within owner apex" by (auto simp: is_within_def ends_with_iff split: if_splits)
qed

end
