(* ===== verification/Dns_Records.thy ===== *)
theory Dns_Records
  imports Dns_Names
begin

text \<open>
  Record sets, changes and receipts of the provider-neutral DNS contract:
  \<open>crates/center-core/src/cloud/dns.rs\<close>. A \<open>BTreeSet\<close> is the list of its elements in order, a
  validated newtype is its content. Addresses are words of their width.
\<close>

section \<open>Values\<close>

definition MAX_PAGE_SIZE :: nat where "MAX_PAGE_SIZE = 1000"
definition MAX_CHANGES :: nat where "MAX_CHANGES = 1000"
definition MAX_TXT_SEGMENTS :: nat where "MAX_TXT_SEGMENTS = 64"
definition MAX_TXT_TOTAL_BYTES :: nat where "MAX_TXT_TOTAL_BYTES = 4096"
definition MAX_TTL_SECONDS :: u32 where "MAX_TTL_SECONDS = 2147483647"

datatype ProviderDnsRecordType = TA | TAaaa | TCname | TTxt | TMx | TSrv | TCaa | TNs | TSoa

definition character_string_new :: "string \<Rightarrow> string CoreResult" where
  "character_string_new v =
     (if 255 < length v then Inl (Conflict ''DNS character-string cannot exceed 255 octets'') else Inr v)"

definition validate_character_string :: "string \<Rightarrow> unit CoreResult" where
  "validate_character_string v = and_then (character_string_new v) (\<lambda>_. Inr ())"

definition txt_value_new :: "string list \<Rightarrow> string list CoreResult" where
  "txt_value_new segments =
     (if segments = [] \<or> MAX_TXT_SEGMENTS < length segments \<or> MAX_TXT_TOTAL_BYTES < sum_list (map length segments)
      then Inl (Conflict ''DNS TXT value is too large'') else Inr segments)"

definition validate_txt_value :: "string list \<Rightarrow> unit CoreResult" where
  "validate_txt_value segments =
     and_then (for_each_ok validate_character_string segments) (\<lambda>_. and_then (txt_value_new segments) (\<lambda>_. Inr ()))"

definition caa_tag_new :: "string \<Rightarrow> string CoreResult" where
  "caa_tag_new v0 =
     (let v = to_ascii_lowercase v0
      in if v = [] \<or> 15 < length v \<or> \<not> is_ascii_alphanumeric (hd v) \<or> \<not> is_ascii_alphanumeric (last v)
            \<or> \<not> list_all (\<lambda>c. is_ascii_alphanumeric c \<or> c = CHR ''-'') v
         then Inl (Conflict ''CAA tag is invalid'') else Inr v)"

definition validate_caa_tag :: "string \<Rightarrow> unit CoreResult" where
  "validate_caa_tag v =
     and_then (caa_tag_new v) (\<lambda>c. if c \<noteq> v then Inl (Conflict ''CAA tag is not canonical'') else Inr ())"

datatype DnsRecordSetValue =
    VA u32
  | VAaaa "128 word"
  | VCname string
  | VTxt "string list"
  | VMx "16 word" string
  | VSrv "16 word" "16 word" "16 word" string
  | VCaa "8 word" string string
  | VNs string
  | VSoa string string u32 u32 u32 u32 u32

fun record_type :: "DnsRecordSetValue \<Rightarrow> ProviderDnsRecordType" where
  "record_type (VA _) = TA"
| "record_type (VAaaa _) = TAaaa"
| "record_type (VCname _) = TCname"
| "record_type (VTxt _) = TTxt"
| "record_type (VMx _ _) = TMx"
| "record_type (VSrv _ _ _ _) = TSrv"
| "record_type (VCaa _ _ _) = TCaa"
| "record_type (VNs _) = TNs"
| "record_type (VSoa _ _ _ _ _ _ _) = TSoa"

fun validate_value :: "DnsRecordSetValue \<Rightarrow> unit CoreResult" where
  "validate_value (VTxt v) = validate_txt_value v"
| "validate_value (VCaa _ tag v) = and_then (validate_caa_tag tag) (\<lambda>_. validate_character_string v)"
| "validate_value _ = Inr ()"

section \<open>Record sets\<close>

record DnsZoneRef =
  zone_account_id :: string
  zone_provider :: CloudProvider
  zone_id :: string
  zone_apex :: string
  zone_visibility :: ZoneVisibility

definition validate_zone_ref :: "DnsZoneRef \<Rightarrow> unit CoreResult" where
  "validate_zone_ref z = and_then (validate_resource_id (zone_account_id z)) (\<lambda>_. validate_zone_id (zone_id z))"

record ObservedDnsZone =
  oz_zone :: DnsZoneRef
  oz_revision :: "string option"

definition validate_observed_zone :: "ObservedDnsZone \<Rightarrow> unit CoreResult" where
  "validate_observed_zone z =
     and_then (validate_zone_ref (oz_zone z)) (\<lambda>_.
       case oz_revision z of None \<Rightarrow> Inr () | Some r \<Rightarrow> validate_revision r)"

datatype DnsRoutingIdentity = Simple | Route53Identity string

record DnsRecordSetKey =
  key_owner :: string
  key_type :: ProviderDnsRecordType
  key_routing :: DnsRoutingIdentity

definition validate_key :: "DnsRecordSetKey \<Rightarrow> unit CoreResult" where
  "validate_key k =
     (case key_routing k of
        Simple \<Rightarrow> Inr ()
      | Route53Identity set_identifier \<Rightarrow> validate_text set_identifier ''Route 53 set identifier'' 128)"

datatype DnsTtl = Automatic | Inherited | Seconds u32

datatype CloudflareProxyOptions = DnsOnly | Proxied

datatype CloudflareCnameFlattening = ProviderDefault | Flatten | DoNotFlatten

record Route53AliasTarget =
  alias_zone_id :: string
  alias_target :: string
  alias_evaluate_target_health :: bool

datatype Route53FailoverRole = Primary | Secondary

datatype Route53GeoLocation = GeoDefault | Continent string | Country string | UsSubdivision string

fun validate_geo :: "Route53GeoLocation \<Rightarrow> unit CoreResult" where
  "validate_geo GeoDefault = Inr ()"
| "validate_geo (Continent code) =
     (if code \<in> {''AF'', ''AN'', ''AS'', ''EU'', ''OC'', ''NA'', ''SA''} then Inr ()
      else Inl (Conflict ''Route 53 geolocation selector is invalid''))"
| "validate_geo (Country code) =
     (if length code = 2 \<and> list_all is_ascii_uppercase code then Inr ()
      else Inl (Conflict ''Route 53 geolocation selector is invalid''))"
| "validate_geo (UsSubdivision code) =
     (if length code = 2 \<and> list_all is_ascii_uppercase code then Inr ()
      else Inl (Conflict ''Route 53 geolocation selector is invalid''))"

fun geo_identity :: "Route53GeoLocation \<Rightarrow> string" where
  "geo_identity GeoDefault = ''default''"
| "geo_identity (Continent code) = ''continent:'' @ code"
| "geo_identity (Country code) = ''country:'' @ code"
| "geo_identity (UsSubdivision code) = ''us-subdivision:'' @ code"

datatype Route53RoutingPolicy =
    Weighted "8 word"
  | Failover Route53FailoverRole
  | Latency string
  | Geolocation Route53GeoLocation
  | Multivalue

fun validate_policy :: "Route53RoutingPolicy \<Rightarrow> unit CoreResult" where
  "validate_policy (Latency region) = validate_text region ''Route 53 latency region'' 64"
| "validate_policy (Geolocation location) = validate_geo location"
| "validate_policy _ = Inr ()"

datatype DnsRecordExtension =
    CloudflareExt "CloudflareProxyOptions option" CloudflareCnameFlattening "string option" "string list"
  | Route53Ext "Route53AliasTarget option" "Route53RoutingPolicy option" "string option"

record ProviderDnsRecordSet =
  rs_key :: DnsRecordSetKey
  rs_ttl :: DnsTtl
  rs_values :: "DnsRecordSetValue list"
  rs_extension :: "DnsRecordExtension option"

definition valid_cloudflare_tag :: "string \<Rightarrow> bool" where
  "valid_cloudflare_tag tag \<longleftrightarrow>
     tag \<noteq> [] \<and> char_count tag \<le> 133 \<and> \<not> has_control tag
     \<and> (case split_once (CHR '':'') tag of
          None \<Rightarrow> False
        | Some (name, v) \<Rightarrow>
            name \<noteq> [] \<and> char_count name \<le> 32 \<and> char_count v \<le> 100
            \<and> list_all (\<lambda>c. is_ascii_alphanumeric c \<or> c = CHR ''-'' \<or> c = CHR ''_'') name)"

text \<open>\<open>tag_name\<close> is the \<open>split_once\<close> with its \<open>expect\<close>, reached for valid tags only.\<close>

definition tag_name :: "string \<Rightarrow> string" where
  "tag_name tag = (case split_once (CHR '':'') tag of None \<Rightarrow> [] | Some (name, _) \<Rightarrow> to_ascii_lowercase name)"

definition valid_cloudflare_tags :: "string list \<Rightarrow> bool" where
  "valid_cloudflare_tags tags \<longleftrightarrow>
     length tags \<le> 20 \<and> list_all valid_cloudflare_tag tags
     \<and> length (remdups (map tag_name tags)) = length tags"

abbreviation reject :: "string \<Rightarrow> unit CoreResult" where
  "reject message \<equiv> Inl (Conflict message)"

definition validate_values :: "ProviderDnsRecordSet \<Rightarrow> unit CoreResult" where
  "validate_values rs =
     (let ty = key_type (rs_key rs)
      in if rs_values rs = [] \<or> rs_ttl rs = Inherited then
           reject ''ordinary DNS record sets require values and a TTL''
         else if list_ex (\<lambda>v. record_type v \<noteq> ty) (rs_values rs) then
           reject ''DNS record value does not match its record type''
         else
           and_then (for_each_ok validate_value (rs_values rs)) (\<lambda>_.
             if ty = TCname \<and> length (rs_values rs) \<noteq> 1 then reject ''CNAME record sets require exactly one value''
             else if ty = TSoa \<and> length (rs_values rs) \<noteq> 1 then reject ''SOA record sets require exactly one value''
             else Inr ()))"

definition validate_cloudflare ::
  "DnsZoneRef \<Rightarrow> ProviderDnsRecordSet \<Rightarrow> CloudflareProxyOptions option \<Rightarrow> CloudflareCnameFlattening \<Rightarrow> string option
     \<Rightarrow> string list \<Rightarrow> unit CoreResult" where
  "validate_cloudflare zone rs proxy flattening comment tags =
     (let ty = key_type (rs_key rs)
      in if zone_provider zone \<noteq> Cloudflare \<or> key_routing (rs_key rs) \<noteq> Simple \<or> rs_ttl rs = Inherited
            \<or> (ty \<in> {TA, TAaaa, TCname}) \<noteq> (proxy \<noteq> None) \<or> ty = TSoa then
           reject ''Cloudflare proxy options are invalid for this record set''
         else if proxy = Some Proxied \<and> rs_ttl rs \<noteq> Automatic then
           reject ''proxied Cloudflare records require automatic TTL''
         else if (case rs_ttl rs of Seconds s \<Rightarrow> \<not> (30 \<le> s \<and> s \<le> 86400) | _ \<Rightarrow> False) then
           reject ''Cloudflare DNS TTL is outside the provider range''
         else if ty \<noteq> TCname \<and> flattening \<noteq> ProviderDefault then
           reject ''Cloudflare CNAME flattening applies only to CNAME records''
         else if proxy = Some Proxied \<and> flattening \<noteq> ProviderDefault then
           reject ''proxied Cloudflare CNAME records cannot override flattening''
         else if ty = TCname \<and> key_owner (rs_key rs) = zone_apex zone \<and> flattening = DoNotFlatten then
           reject ''Cloudflare zone-apex CNAME records are always flattened''
         else if (case comment of None \<Rightarrow> False | Some c \<Rightarrow> 500 < char_count c \<or> has_control c)
              \<or> \<not> valid_cloudflare_tags tags then
           reject ''Cloudflare DNS record metadata is invalid''
         else Inr ())"

definition routing_consistent ::
  "DnsRoutingIdentity \<Rightarrow> Route53AliasTarget option \<Rightarrow> Route53RoutingPolicy option \<Rightarrow> string option \<Rightarrow> bool" where
  "routing_consistent routing alias policy health \<longleftrightarrow>
     (case (routing, policy) of
        (Simple, None) \<Rightarrow> alias \<noteq> None \<or> health \<noteq> None
      | (Route53Identity _, Some _) \<Rightarrow> True
      | _ \<Rightarrow> False)"

definition validate_route53 ::
  "DnsZoneRef \<Rightarrow> ProviderDnsRecordSet \<Rightarrow> Route53AliasTarget option \<Rightarrow> Route53RoutingPolicy option \<Rightarrow> string option
     \<Rightarrow> unit CoreResult" where
  "validate_route53 zone rs alias policy health =
     (let ty = key_type (rs_key rs)
      in if zone_provider zone \<noteq> Aws then reject ''Route 53 extension requires an AWS provider account''
         else
           and_then (case alias of None \<Rightarrow> Inr () | Some t \<Rightarrow> validate_zone_id (alias_zone_id t)) (\<lambda>_.
           and_then (case health of None \<Rightarrow> Inr () | Some h \<Rightarrow> validate_health_check_id h) (\<lambda>_.
           and_then (case policy of None \<Rightarrow> Inr () | Some p \<Rightarrow> validate_policy p) (\<lambda>_.
             if \<not> routing_consistent (key_routing (rs_key rs)) alias policy health then
               reject ''Route 53 routing identity, policy, and alias are inconsistent''
             else if policy \<noteq> None \<and> ty \<in> {TNs, TSoa} then
               reject ''Route 53 routed records cannot use NS or SOA''
             else if policy = Some Multivalue \<and> (alias \<noteq> None \<or> ty \<in> {TCname, TNs, TSoa}) then
               reject ''Route 53 multivalue record type or alias is unsupported''
             else if (case policy of Some (Weighted _) \<Rightarrow> True | Some (Latency _) \<Rightarrow> True | _ \<Rightarrow> False)
                  \<and> alias = None \<and> length (rs_values rs) \<noteq> 1 then
               reject ''Route 53 weighted and latency records require one value''
             else if (case policy of Some (Failover _) \<Rightarrow> True | _ \<Rightarrow> False)
                  \<and> (case alias of None \<Rightarrow> False | Some t \<Rightarrow> \<not> alias_evaluate_target_health t) then
               reject ''Route 53 failover aliases must evaluate target health''
             else Inr ()))))"

definition validate_portable :: "DnsZoneRef \<Rightarrow> ProviderDnsRecordSet \<Rightarrow> unit CoreResult" where
  "validate_portable zone rs =
     (let ty = key_type (rs_key rs)
      in if zone_provider zone = Cloudflare \<and> ty \<in> {TA, TAaaa, TCname} then
           reject ''Cloudflare proxiable records require explicit DNS-only or proxied intent''
         else if rs_ttl rs = Automatic then reject ''automatic DNS TTL requires an explicit provider extension''
         else if ty = TCname \<and> key_owner (rs_key rs) = zone_apex zone then
           reject ''portable CNAME records cannot target the zone apex''
         else if key_routing (rs_key rs) \<noteq> Simple then
           reject ''Route 53 routing identity requires a typed routing policy''
         else Inr ())"

definition is_route53_alias :: "ProviderDnsRecordSet \<Rightarrow> bool" where
  "is_route53_alias rs \<longleftrightarrow> (case rs_extension rs of Some (Route53Ext (Some _) _ _) \<Rightarrow> True | _ \<Rightarrow> False)"

definition validate_record_set :: "DnsZoneRef \<Rightarrow> ProviderDnsRecordSet \<Rightarrow> unit CoreResult" where
  "validate_record_set zone rs =
     (let ty = key_type (rs_key rs); owner = key_owner (rs_key rs)
      in and_then (validate_zone_ref zone) (\<lambda>_.
         and_then (validate_key (rs_key rs)) (\<lambda>_.
           if \<not> is_within owner (zone_apex zone) then reject ''DNS record owner is outside the managed zone''
           else if (case rs_ttl rs of Seconds s \<Rightarrow> MAX_TTL_SECONDS < s | _ \<Rightarrow> False) then reject ''DNS TTL is invalid''
           else if zone_provider zone = Aws
                \<and> ((ty = TNs \<and> starts_with ''*.'' owner) \<or> (ty = TCname \<and> owner = zone_apex zone)) then
             reject ''Route 53 wildcard NS and zone-apex CNAME records are unsupported''
           else
             and_then
               (if is_route53_alias rs then
                  (if rs_values rs \<noteq> [] \<or> rs_ttl rs \<noteq> Inherited \<or> ty \<in> {TNs, TSoa} then
                     reject ''provider alias values, type, or TTL are invalid''
                   else Inr ())
                else validate_values rs) (\<lambda>_.
               case rs_extension rs of
                 Some (CloudflareExt proxy flattening comment tags) \<Rightarrow>
                   validate_cloudflare zone rs proxy flattening comment tags
               | Some (Route53Ext alias policy health) \<Rightarrow> validate_route53 zone rs alias policy health
               | None \<Rightarrow> validate_portable zone rs))))"

definition validate_for_observed_zone :: "ProviderDnsRecordSet \<Rightarrow> ObservedDnsZone \<Rightarrow> unit CoreResult" where
  "validate_for_observed_zone rs z =
     and_then (validate_observed_zone z) (\<lambda>_. validate_record_set (oz_zone z) rs)"

record ObservedDnsRecordSet =
  or_zone :: DnsZoneRef
  or_record_set :: ProviderDnsRecordSet
  or_provider_object_ids :: "string list"
  or_revision :: string

definition validate_observed_record_set :: "ObservedDnsRecordSet \<Rightarrow> unit CoreResult" where
  "validate_observed_record_set obs =
     and_then (validate_record_set (or_zone obs) (or_record_set obs)) (\<lambda>_.
     and_then (validate_revision (or_revision obs)) (\<lambda>_.
       for_each_ok validate_object_id (or_provider_object_ids obs)))"

section \<open>Changes\<close>

datatype DnsMutationGuard = MustNotExist | MatchObserved string

fun validate_guard :: "DnsMutationGuard \<Rightarrow> unit CoreResult" where
  "validate_guard MustNotExist = Inr ()"
| "validate_guard (MatchObserved revision) = validate_revision revision"

datatype DnsGuardStrength = BestEffort | Atomic

datatype DnsRecordChange =
    CreateSet ProviderDnsRecordSet DnsMutationGuard
  | ReplaceSet ObservedDnsRecordSet ProviderDnsRecordSet DnsMutationGuard
  | DeleteSet ObservedDnsRecordSet DnsMutationGuard

fun change_key :: "DnsRecordChange \<Rightarrow> DnsRecordSetKey" where
  "change_key (CreateSet rs _) = rs_key rs"
| "change_key (ReplaceSet _ desired _) = rs_key desired"
| "change_key (DeleteSet previous _) = rs_key (or_record_set previous)"

fun desired_record_set :: "DnsRecordChange \<Rightarrow> ProviderDnsRecordSet option" where
  "desired_record_set (CreateSet rs _) = Some rs"
| "desired_record_set (ReplaceSet _ desired _) = Some desired"
| "desired_record_set (DeleteSet _ _) = None"

definition desired_key :: "DnsRecordChange \<Rightarrow> DnsRecordSetKey option" where
  "desired_key c = map_option rs_key (desired_record_set c)"

definition require_exact_guard :: "DnsMutationGuard \<Rightarrow> string \<Rightarrow> unit CoreResult" where
  "require_exact_guard guard expected =
     (if guard = MatchObserved expected then Inr ()
      else reject ''DNS replacement and deletion require the exact observed revision'')"

fun validate_change :: "DnsZoneRef \<Rightarrow> DnsRecordChange \<Rightarrow> unit CoreResult" where
  "validate_change zone (CreateSet rs guard) =
     and_then (validate_record_set zone rs) (\<lambda>_.
     and_then (validate_guard guard) (\<lambda>_.
       if guard \<noteq> MustNotExist then reject ''DNS create requires a must-not-exist guard'' else Inr ()))"
| "validate_change zone (ReplaceSet previous desired guard) =
     and_then (validate_observed_record_set previous) (\<lambda>_.
     and_then (validate_record_set zone desired) (\<lambda>_.
     and_then (validate_guard guard) (\<lambda>_.
       if or_zone previous \<noteq> zone \<or> rs_key (or_record_set previous) \<noteq> rs_key desired then
         reject ''DNS replacement must preserve zone and record identity''
       else require_exact_guard guard (or_revision previous))))"
| "validate_change zone (DeleteSet previous guard) =
     and_then (validate_observed_record_set previous) (\<lambda>_.
     and_then (validate_guard guard) (\<lambda>_.
       if or_zone previous \<noteq> zone then reject ''DNS deletion targets a different zone''
       else require_exact_guard guard (or_revision previous)))"

datatype Route53RoutingFamily = FSimple | FWeighted | FFailover | FLatency | FGeolocation | FMultivalue

record Route53GroupState =
  gs_family :: Route53RoutingFamily
  gs_explicit_ttl :: "u32 option"
  gs_unique_members :: "string list"
  gs_member_count :: nat

type_synonym route53_groups = "(string \<times> ProviderDnsRecordType, Route53GroupState) hmap"

definition routing_member :: "ProviderDnsRecordSet \<Rightarrow> Route53RoutingFamily \<times> string option" where
  "routing_member rs =
     (case rs_extension rs of
        Some (Route53Ext _ (Some policy) _) \<Rightarrow>
          (case policy of
             Weighted _ \<Rightarrow> (FWeighted, None)
           | Failover role \<Rightarrow> (FFailover, Some (case role of Primary \<Rightarrow> ''Primary'' | Secondary \<Rightarrow> ''Secondary''))
           | Latency region \<Rightarrow> (FLatency, Some region)
           | Geolocation location \<Rightarrow> (FGeolocation, Some (geo_identity location))
           | Multivalue \<Rightarrow> (FMultivalue, None))
      | _ \<Rightarrow> (FSimple, None))"

definition explicit_ttl :: "ProviderDnsRecordSet \<Rightarrow> u32 option" where
  "explicit_ttl rs = (case rs_ttl rs of Seconds s \<Rightarrow> Some s | _ \<Rightarrow> None)"

definition group_key :: "ProviderDnsRecordSet \<Rightarrow> string \<times> ProviderDnsRecordType" where
  "group_key rs = (key_owner (rs_key rs), key_type (rs_key rs))"

definition validate_route53_group_member :: "ProviderDnsRecordSet \<Rightarrow> route53_groups \<Rightarrow> route53_groups CoreResult" where
  "validate_route53_group_member rs groups =
     (let (family, unique_member) = routing_member rs; ttl = explicit_ttl rs; k = group_key rs;
          state = (case map_of groups k of
                     Some s \<Rightarrow> s
                   | None \<Rightarrow> \<lparr>gs_family = family, gs_explicit_ttl = ttl, gs_unique_members = [], gs_member_count = 0\<rparr>)
      in if gs_family state \<noteq> family then Inl (Conflict ''Route 53 record sets cannot mix routing families'')
         else
           and_then
             (case (ttl, gs_explicit_ttl state) of
                (Some t, Some existing) \<Rightarrow>
                  if existing \<noteq> t
                  then Inl (Conflict ''Edgion Route 53 routing groups require a consistent explicit TTL'') else Inr state
              | (Some t, None) \<Rightarrow> Inr (state\<lparr>gs_explicit_ttl := Some t\<rparr>)
              | (None, _) \<Rightarrow> Inr state) (\<lambda>s.
             let s' = s\<lparr>gs_member_count := Suc (gs_member_count s)\<rparr>
             in if gs_family s' = FWeighted \<and> 100 < gs_member_count s'
                then Inl (Conflict ''Route 53 weighted routing groups cannot exceed 100 members'')
                else
                  (case unique_member of
                     None \<Rightarrow> Inr (AList.update k s' groups)
                   | Some m \<Rightarrow>
                       if m \<in> set (gs_unique_members s')
                       then Inl (Conflict ''Route 53 routing group contains a duplicate selector'')
                       else Inr (AList.update k (s'\<lparr>gs_unique_members := m # gs_unique_members s'\<rparr>) groups))))"

text \<open>The loop of \<open>validate_dns_changes\<close> with its three collections.\<close>

record change_scan =
  sc_keys :: "DnsRecordSetKey list"
  sc_owners :: "(string \<times> bool) list"
  sc_groups :: route53_groups

definition scan_change :: "DnsZoneRef \<Rightarrow> DnsRecordChange \<Rightarrow> change_scan \<Rightarrow> change_scan CoreResult" where
  "scan_change zone change sc =
     and_then (validate_change zone change) (\<lambda>_.
       let key = change_key change
       in if key_owner key = zone_apex zone \<and> key_type key \<in> {TNs, TSoa} then
            Inl (Conflict ''apex SOA and delegation NS changes require the zone lifecycle contract'')
          else if key \<in> set (sc_keys sc) then
            Inl (Conflict ''DNS change batch contains a duplicate record identity'')
          else
            let owners = (case desired_key change of
                            None \<Rightarrow> sc_owners sc
                          | Some k \<Rightarrow> (key_owner k, key_type k = TCname) # sc_owners sc)
            in and_then
                 (if zone_provider zone = Aws then
                    (case desired_record_set change of
                       None \<Rightarrow> Inr (sc_groups sc)
                     | Some rs \<Rightarrow> validate_route53_group_member rs (sc_groups sc))
                  else Inr (sc_groups sc)) (\<lambda>groups.
                 Inr \<lparr>sc_keys = key # sc_keys sc, sc_owners = owners, sc_groups = groups\<rparr>))"

fun scan_changes :: "DnsZoneRef \<Rightarrow> DnsRecordChange list \<Rightarrow> change_scan \<Rightarrow> change_scan CoreResult" where
  "scan_changes zone [] sc = Inr sc"
| "scan_changes zone (c # cs) sc = and_then (scan_change zone c sc) (scan_changes zone cs)"

definition validate_dns_changes :: "DnsZoneRef \<Rightarrow> DnsRecordChange list \<Rightarrow> unit CoreResult" where
  "validate_dns_changes zone changes =
     and_then (validate_zone_ref zone) (\<lambda>_.
       if changes = [] \<or> MAX_CHANGES < length changes then Inl (Conflict ''DNS change batch size is invalid'')
       else
         and_then (scan_changes zone changes \<lparr>sc_keys = [], sc_owners = [], sc_groups = []\<rparr>) (\<lambda>sc.
           if list_ex (\<lambda>(owner, cname). cname \<and> (owner, False) \<in> set (sc_owners sc)) (sc_owners sc)
           then Inl (Conflict ''CNAME cannot coexist with another record type in one batch'') else Inr ()))"

section \<open>Receipts and pages\<close>

datatype DnsBatchAtomicity = AllOrNothing | PerChange

datatype DnsPropagationState = PropagationUnknown | PropagationPending | ProviderReportedApplied

datatype DnsChangeState = ChangePending | ProviderCommitted | ChangeFailed | UnknownOutcome

record DnsChangeReceipt =
  rc_id :: string
  rc_state :: DnsChangeState
  rc_submission_atomicity :: DnsBatchAtomicity
  rc_propagation :: DnsPropagationState
  rc_guard_strength :: DnsGuardStrength

definition validate_receipt :: "DnsChangeReceipt \<Rightarrow> unit CoreResult" where
  "validate_receipt r =
     and_then (validate_change_id (rc_id r)) (\<lambda>_.
       if rc_submission_atomicity r = PerChange then
         reject ''per-change DNS submission requires explicit change outcomes''
       else if rc_state r = ChangePending \<and> rc_propagation r = ProviderReportedApplied then
         reject ''pending DNS changes cannot report provider application''
       else if rc_state r \<in> {ChangeFailed, UnknownOutcome} \<and> rc_propagation r \<noteq> PropagationUnknown then
         reject ''failed or unknown DNS changes cannot claim propagation state''
       else Inr ())"

fun weaker :: "DnsGuardStrength \<Rightarrow> DnsGuardStrength \<Rightarrow> bool" where
  "weaker BestEffort Atomic = True"
| "weaker _ _ = False"

definition validate_against_request :: "DnsChangeReceipt \<Rightarrow> DnsGuardStrength \<Rightarrow> unit CoreResult" where
  "validate_against_request r minimum_guard =
     and_then (validate_receipt r) (\<lambda>_.
       if weaker (rc_guard_strength r) minimum_guard then
         reject ''DNS provider returned weaker concurrency protection than requested'' else Inr ())"

record DnsPageRequest =
  page_limit :: "16 word"
  page_token :: "string option"

definition validate_page_request :: "DnsPageRequest \<Rightarrow> unit CoreResult" where
  "validate_page_request p =
     (if page_limit p = 0 \<or> MAX_PAGE_SIZE < unat (page_limit p) then reject ''DNS page size is invalid''
      else (case page_token p of None \<Rightarrow> Inr () | Some t \<Rightarrow> validate_page_token t))"

record 'a DnsPage =
  page_items :: "'a list"
  page_next :: "string option"

definition validate_page :: "'a DnsPage \<Rightarrow> 16 word \<Rightarrow> ('a \<Rightarrow> unit CoreResult) \<Rightarrow> unit CoreResult" where
  "validate_page p requested_limit validate_item =
     (if requested_limit = 0 \<or> MAX_PAGE_SIZE < unat requested_limit \<or> unat requested_limit < length (page_items p) then
        reject ''DNS response page size is invalid''
      else
        and_then (case page_next p of None \<Rightarrow> Inr () | Some t \<Rightarrow> validate_page_token t) (\<lambda>_.
          for_each_ok validate_item (page_items p)))"


section \<open>Routing groups\<close>

text \<open>
  What a routing group may hold, stated on the record sets themselves. The code folds the batch
  into one \<open>Route53GroupState\<close> per (owner, type) and rejects at the first violation.
\<close>

definition compatible :: "ProviderDnsRecordSet \<Rightarrow> ProviderDnsRecordSet \<Rightarrow> bool" where
  "compatible a b \<longleftrightarrow>
     fst (routing_member a) = fst (routing_member b)
     \<and> (explicit_ttl a = None \<or> explicit_ttl b = None \<or> explicit_ttl a = explicit_ttl b)"

definition selectors :: "ProviderDnsRecordSet list \<Rightarrow> string list" where
  "selectors = List.map_filter (\<lambda>rs. snd (routing_member rs))"

definition group_ok :: "ProviderDnsRecordSet list \<Rightarrow> bool" where
  "group_ok grp \<longleftrightarrow>
     (\<forall>a \<in> set grp. \<forall>b \<in> set grp. compatible a b)
     \<and> (list_ex (\<lambda>a. fst (routing_member a) = FWeighted) grp \<longrightarrow> length grp \<le> 100)
     \<and> distinct (selectors grp)"

definition routing_groups_ok :: "ProviderDnsRecordSet list \<Rightarrow> bool" where
  "routing_groups_ok rss \<longleftrightarrow> (\<forall>k. group_ok (filter (\<lambda>rs. group_key rs = k) rss))"

text \<open>The state of one group as a function of its record sets, latest first.\<close>

fun group_state :: "ProviderDnsRecordSet list \<Rightarrow> Route53GroupState option" where
  "group_state [] = None"
| "group_state (rs # earlier) =
     Some \<lparr>gs_family = fst (routing_member rs),
           gs_explicit_ttl =
             (case group_state earlier of
                Some s \<Rightarrow> (case gs_explicit_ttl s of None \<Rightarrow> explicit_ttl rs | t \<Rightarrow> t)
              | None \<Rightarrow> explicit_ttl rs),
           gs_unique_members = selectors (rs # earlier),
           gs_member_count = length (rs # earlier)\<rparr>"

definition represents_groups :: "route53_groups \<Rightarrow> ProviderDnsRecordSet list \<Rightarrow> bool" where
  "represents_groups groups earlier \<longleftrightarrow>
     (\<forall>k. map_of groups k = group_state (filter (\<lambda>rs. group_key rs = k) earlier))"

lemma group_state_eq_None [simp]: "group_state grp = None \<longleftrightarrow> grp = []"
  by (cases grp) auto

lemma group_state_ttl:
  "group_state grp = Some s \<Longrightarrow>
     (gs_explicit_ttl s = None \<longleftrightarrow> (\<forall>r \<in> set grp. explicit_ttl r = None))
     \<and> (\<forall>t. gs_explicit_ttl s = Some t \<longrightarrow> (\<exists>r \<in> set grp. explicit_ttl r = Some t))"
proof (induction grp arbitrary: s)
  case (Cons r grp)
  then show ?case
    by (cases "group_state grp") (auto split: option.splits)
qed simp

lemma selectors_Cons:
  "selectors (rs # grp) = (case snd (routing_member rs) of None \<Rightarrow> selectors grp | Some m \<Rightarrow> m # selectors grp)"
  by (cases "snd (routing_member rs)") (simp_all add: selectors_def List.map_filter_simps)

lemma distinct_selectors_Cons:
  "distinct (selectors (rs # grp)) \<longleftrightarrow>
     distinct (selectors grp) \<and> (\<forall>m. snd (routing_member rs) = Some m \<longrightarrow> m \<notin> set (selectors grp))"
  by (cases "snd (routing_member rs)") (auto simp: selectors_Cons)

lemma compatible_refl [simp]: "compatible a a"
  by (simp add: compatible_def)

lemma compatible_sym: "compatible a b \<longleftrightarrow> compatible b a"
  by (auto simp: compatible_def)

lemma group_ok_Nil [simp]: "group_ok []"
  by (simp add: group_ok_def selectors_def List.map_filter_simps)

lemma group_ok_Cons:
  "group_ok (rs # grp) \<longleftrightarrow>
     group_ok grp \<and> (\<forall>b \<in> set grp. compatible rs b)
     \<and> (list_ex (\<lambda>a. fst (routing_member a) = FWeighted) (rs # grp) \<longrightarrow> length grp < 100)
     \<and> (\<forall>m. snd (routing_member rs) = Some m \<longrightarrow> m \<notin> set (selectors grp))"
proof -
  have "(\<forall>a \<in> set (rs # grp). \<forall>b \<in> set (rs # grp). compatible a b) \<longleftrightarrow>
      (\<forall>a \<in> set grp. \<forall>b \<in> set grp. compatible a b) \<and> (\<forall>b \<in> set grp. compatible rs b)"
    by (simp, metis compatible_sym)
  then show ?thesis
    unfolding group_ok_def distinct_selectors_Cons
    by (simp only: list.size(4) add_Suc_right add_0_right Suc_le_eq list_ex_iff list.set ball_simps bex_simps) (metis insertCI less_imp_le)
qed

text \<open>Adding one record set to a valid group keeps it valid exactly under the four checks of the code.\<close>

lemma group_state_compatible:
  assumes ok: "group_ok grp" and state: "group_state grp = Some s"
  shows "(\<forall>b \<in> set grp. compatible rs b) \<longleftrightarrow>
           gs_family s = fst (routing_member rs)
           \<and> (explicit_ttl rs = None \<or> gs_explicit_ttl s = None \<or> gs_explicit_ttl s = explicit_ttl rs)"
proof -
  obtain r grp' where grp: "grp = r # grp'" "gs_family s = fst (routing_member r)"
    using state by (cases grp) auto
  have family: "fst (routing_member a) = gs_family s" if "a \<in> set grp" for a
  proof -
    have "compatible a r" using ok that unfolding group_ok_def grp(1) by auto
    then show ?thesis using grp(2) by (simp add: compatible_def)
  qed
  show ?thesis
  proof (cases "gs_explicit_ttl s")
    case None
    then have "\<forall>r \<in> set grp. explicit_ttl r = None" using group_state_ttl [OF state] by simp
    moreover have "r \<in> set grp" using grp(1) by simp
    ultimately show ?thesis using family None unfolding compatible_def by metis
  next
    case (Some t)
    then obtain b where b: "b \<in> set grp" "explicit_ttl b = Some t"
      using group_state_ttl [OF state] by blast
    have ttls: "explicit_ttl a = None \<or> explicit_ttl a = Some t" if "a \<in> set grp" for a
    proof -
      have "compatible a b" using ok b(1) that unfolding group_ok_def by blast
      then show ?thesis using b(2) by (auto simp: compatible_def)
    qed
    show ?thesis
    proof
      assume "\<forall>b \<in> set grp. compatible rs b"
      then have "compatible rs b" using b(1) by blast
      then show "gs_family s = fst (routing_member rs)
          \<and> (explicit_ttl rs = None \<or> gs_explicit_ttl s = None \<or> gs_explicit_ttl s = explicit_ttl rs)"
        using family [OF b(1)] b(2) Some by (auto simp: compatible_def)
    next
      assume "gs_family s = fst (routing_member rs)
          \<and> (explicit_ttl rs = None \<or> gs_explicit_ttl s = None \<or> gs_explicit_ttl s = explicit_ttl rs)"
      then show "\<forall>b \<in> set grp. compatible rs b"
        using family ttls Some by (fastforce simp: compatible_def)
    qed
  qed
qed

text \<open>The checks of \<open>validate_route53_group_member\<close> on the group's state.\<close>

definition member_accepted :: "ProviderDnsRecordSet \<Rightarrow> Route53GroupState \<Rightarrow> bool" where
  "member_accepted rs s \<longleftrightarrow>
     gs_family s = fst (routing_member rs)
     \<and> (explicit_ttl rs = None \<or> gs_explicit_ttl s = None \<or> gs_explicit_ttl s = explicit_ttl rs)
     \<and> \<not> (gs_family s = FWeighted \<and> 100 < Suc (gs_member_count s))
     \<and> (\<forall>m. snd (routing_member rs) = Some m \<longrightarrow> m \<notin> set (gs_unique_members s))"

lemma group_state_Some_fields:
  "group_state grp = Some s \<Longrightarrow> gs_unique_members s = selectors grp \<and> gs_member_count s = length grp"
  by (cases grp) auto

lemma group_ok_iff_accepted:
  assumes ok: "group_ok grp" and state: "group_state grp = Some s"
  shows "group_ok (rs # grp) \<longleftrightarrow> member_accepted rs s"
proof (cases "\<forall>b \<in> set grp. compatible rs b")
  case True
  have "list_ex (\<lambda>a. fst (routing_member a) = FWeighted) (rs # grp) \<longleftrightarrow> gs_family s = FWeighted"
    using True group_state_compatible [OF ok state, of rs] by (auto simp: list_ex_iff compatible_def)
  then show ?thesis
    using True ok group_state_compatible [OF ok state, of rs] group_state_Some_fields [OF state]
      Suc_le_eq [of "length grp" 100]
    unfolding group_ok_Cons member_accepted_def by (simp add: not_less)
next
  case False
  then show ?thesis
    using group_state_compatible [OF ok state, of rs] unfolding group_ok_Cons member_accepted_def by blast
qed

definition entry_state :: "ProviderDnsRecordSet \<Rightarrow> route53_groups \<Rightarrow> Route53GroupState" where
  "entry_state rs groups =
     (case map_of groups (group_key rs) of
        Some s \<Rightarrow> s
      | None \<Rightarrow> \<lparr>gs_family = fst (routing_member rs), gs_explicit_ttl = explicit_ttl rs,
                 gs_unique_members = [], gs_member_count = 0\<rparr>)"

definition next_state :: "ProviderDnsRecordSet \<Rightarrow> Route53GroupState \<Rightarrow> Route53GroupState" where
  "next_state rs s =
     \<lparr>gs_family = fst (routing_member rs),
      gs_explicit_ttl = (case gs_explicit_ttl s of None \<Rightarrow> explicit_ttl rs | t \<Rightarrow> t),
      gs_unique_members =
        (case snd (routing_member rs) of None \<Rightarrow> gs_unique_members s | Some m \<Rightarrow> m # gs_unique_members s),
      gs_member_count = Suc (gs_member_count s)\<rparr>"

lemma validate_route53_group_member_iff:
  "validate_route53_group_member rs groups = Inr groups' \<longleftrightarrow>
     member_accepted rs (entry_state rs groups)
     \<and> groups' = AList.update (group_key rs) (next_state rs (entry_state rs groups)) groups"
proof -
  obtain family um where fu: "routing_member rs = (family, um)" by (cases "routing_member rs")
  define s where "s = entry_state rs groups"
  have s: "(case map_of groups (group_key rs) of
              Some s \<Rightarrow> s
            | None \<Rightarrow> \<lparr>gs_family = family, gs_explicit_ttl = explicit_ttl rs, gs_unique_members = [], gs_member_count = 0\<rparr>)
            = s"
    unfolding s_def entry_state_def fu by (simp split: option.splits)
  show ?thesis
    unfolding validate_route53_group_member_def fu Let_def prod.case s s_def [symmetric]
    by (cases um; cases "explicit_ttl rs"; cases "gs_explicit_ttl s"; cases s)
       (auto simp: member_accepted_def next_state_def fu)
qed

lemma represents_groupsD:
  "represents_groups groups earlier \<Longrightarrow> map_of groups k = group_state (filter (\<lambda>r. group_key r = k) earlier)"
  unfolding represents_groups_def by blast

lemma routing_groups_okD: "routing_groups_ok rss \<Longrightarrow> group_ok (filter (\<lambda>r. group_key r = k) rss)"
  unfolding routing_groups_ok_def by blast

lemma represents_entry:
  assumes "represents_groups groups earlier"
  shows "entry_state rs groups =
    (case group_state (filter (\<lambda>r. group_key r = group_key rs) earlier) of
       Some s \<Rightarrow> s
     | None \<Rightarrow> \<lparr>gs_family = fst (routing_member rs), gs_explicit_ttl = explicit_ttl rs,
                gs_unique_members = [], gs_member_count = 0\<rparr>)"
  unfolding entry_state_def represents_groupsD [OF assms] ..

lemma next_state_is_group_state:
  assumes "represents_groups groups earlier"
  shows "Some (next_state rs (entry_state rs groups)) =
     group_state (rs # filter (\<lambda>r. group_key r = group_key rs) earlier)"
proof (cases "group_state (filter (\<lambda>r. group_key r = group_key rs) earlier)")
  case None
  then show ?thesis
    unfolding represents_entry [OF assms]
    by (simp add: next_state_def selectors_Cons, simp add: selectors_def List.map_filter_simps split: option.splits)
next
  case (Some s)
  then show ?thesis
    unfolding represents_entry [OF assms]
    using group_state_Some_fields [OF Some] by (simp add: next_state_def selectors_Cons split: option.splits)
qed

lemma represents_groups_Cons:
  assumes "represents_groups groups earlier"
  shows "represents_groups (AList.update (group_key rs) (next_state rs (entry_state rs groups)) groups) (rs # earlier)"
  unfolding represents_groups_def update_conv'
proof
  fix k
  show "((map_of groups)(group_key rs \<mapsto> next_state rs (entry_state rs groups))) k =
      group_state (filter (\<lambda>r. group_key r = k) (rs # earlier))"
    using next_state_is_group_state [OF assms, of rs] represents_groupsD [OF assms, of k]
    by (cases "k = group_key rs") (auto simp del: group_state.simps)
qed

lemma routing_groups_ok_Cons:
  "routing_groups_ok (rs # earlier) \<longleftrightarrow>
     routing_groups_ok earlier \<and> group_ok (rs # filter (\<lambda>r. group_key r = group_key rs) earlier)"
proof
  assume ok: "routing_groups_ok (rs # earlier)"
  have "group_ok (filter (\<lambda>r. group_key r = k) earlier)" for k
    using ok [unfolded routing_groups_ok_def, rule_format, of k] by (cases "group_key rs = k") (auto simp: group_ok_Cons)
  with ok [unfolded routing_groups_ok_def, rule_format, of "group_key rs"]
  show "routing_groups_ok earlier \<and> group_ok (rs # filter (\<lambda>r. group_key r = group_key rs) earlier)"
    by (simp add: routing_groups_ok_def)
next
  assume ok: "routing_groups_ok earlier \<and> group_ok (rs # filter (\<lambda>r. group_key r = group_key rs) earlier)"
  then show "routing_groups_ok (rs # earlier)"
    by (auto simp: routing_groups_ok_def)
qed

lemma member_accepted_iff:
  assumes repr: "represents_groups groups earlier" and ok: "routing_groups_ok earlier"
  shows "member_accepted rs (entry_state rs groups) \<longleftrightarrow> routing_groups_ok (rs # earlier)"
proof (cases "group_state (filter (\<lambda>r. group_key r = group_key rs) earlier)")
  case None
  then show ?thesis
    unfolding routing_groups_ok_Cons represents_entry [OF repr]
    using ok by (simp add: member_accepted_def group_ok_Cons, simp add: selectors_def List.map_filter_simps)
next
  case (Some s)
  have "group_ok (filter (\<lambda>r. group_key r = group_key rs) earlier)"
    using ok by (rule routing_groups_okD)
  from group_ok_iff_accepted [OF this Some, of rs] show ?thesis
    unfolding routing_groups_ok_Cons represents_entry [OF repr] using ok Some by simp
qed

lemma routing_groups_ok_rev: "routing_groups_ok (rev rss) \<longleftrightarrow> routing_groups_ok rss"
proof -
  have "selectors (rev grp) = rev (selectors grp)" for grp
    by (simp add: selectors_def List.map_filter_def rev_map rev_filter)
  then have "group_ok (rev grp) \<longleftrightarrow> group_ok grp" for grp
    unfolding group_ok_def by (simp add: list_ex_iff)
  then show ?thesis by (simp add: routing_groups_ok_def rev_filter [symmetric])
qed

lemma routing_groups_ok_suffix: "routing_groups_ok (later @ earlier) \<Longrightarrow> routing_groups_ok earlier"
  by (induction later) (auto simp: routing_groups_ok_Cons)

section \<open>Batches\<close>

abbreviation desired_sets :: "DnsRecordChange list \<Rightarrow> ProviderDnsRecordSet list" where
  "desired_sets changes \<equiv> List.map_filter desired_record_set changes"

text \<open>What a batch must satisfy, with no reference to the order in which the code looks at the changes.\<close>

definition change_admissible :: "DnsZoneRef \<Rightarrow> DnsRecordChange \<Rightarrow> bool" where
  "change_admissible zone c \<longleftrightarrow>
     validate_change zone c = Inr ()
     \<and> \<not> (key_owner (change_key c) = zone_apex zone \<and> key_type (change_key c) \<in> {TNs, TSoa})"

definition cname_exclusive :: "ProviderDnsRecordSet list \<Rightarrow> bool" where
  "cname_exclusive rss \<longleftrightarrow>
     (\<forall>a \<in> set rss. \<forall>b \<in> set rss.
        key_owner (rs_key a) = key_owner (rs_key b) \<longrightarrow> (key_type (rs_key a) = TCname \<longleftrightarrow> key_type (rs_key b) = TCname))"

definition batch_ok :: "DnsZoneRef \<Rightarrow> DnsRecordChange list \<Rightarrow> bool" where
  "batch_ok zone changes \<longleftrightarrow>
     validate_zone_ref zone = Inr ()
     \<and> 0 < length changes \<and> length changes \<le> 1000
     \<and> list_all (change_admissible zone) changes
     \<and> distinct (map change_key changes)
     \<and> cname_exclusive (desired_sets changes)
     \<and> (zone_provider zone = Aws \<longrightarrow> routing_groups_ok (desired_sets changes))"

definition represents_scan :: "DnsZoneRef \<Rightarrow> change_scan \<Rightarrow> DnsRecordChange list \<Rightarrow> bool" where
  "represents_scan zone sc earlier \<longleftrightarrow>
     sc_keys sc = map change_key earlier
     \<and> sc_owners sc = map (\<lambda>rs. (key_owner (rs_key rs), key_type (rs_key rs) = TCname)) (desired_sets earlier)
     \<and> (zone_provider zone = Aws \<longrightarrow>
          represents_groups (sc_groups sc) (desired_sets earlier) \<and> routing_groups_ok (desired_sets earlier))"

definition prefix_ok :: "DnsZoneRef \<Rightarrow> DnsRecordChange list \<Rightarrow> bool" where
  "prefix_ok zone earlier \<longleftrightarrow>
     list_all (change_admissible zone) earlier
     \<and> distinct (map change_key earlier)
     \<and> (zone_provider zone = Aws \<longrightarrow> routing_groups_ok (desired_sets earlier))"

lemma desired_sets_Cons:
  "desired_sets (c # cs) = (case desired_record_set c of None \<Rightarrow> desired_sets cs | Some rs \<Rightarrow> rs # desired_sets cs)"
  by (simp add: List.map_filter_simps)

lemma scan_change_step:
  assumes repr: "represents_scan zone sc earlier"
  shows "(\<exists>sc'. scan_change zone c sc = Inr sc' \<and> represents_scan zone sc' (c # earlier)
             \<and> (prefix_ok zone earlier \<longrightarrow> prefix_ok zone (c # earlier)))
         \<or> (\<exists>e. scan_change zone c sc = Inl e) \<and> \<not> prefix_ok zone (c # earlier)"
proof (cases "change_admissible zone c \<and> change_key c \<notin> set (sc_keys sc)")
  case False
  then have "\<not> prefix_ok zone (c # earlier)"
    using repr by (auto simp: prefix_ok_def represents_scan_def)
  moreover have "\<exists>e. scan_change zone c sc = Inl e"
    using False by (cases "validate_change zone c") (auto simp: scan_change_def change_admissible_def Let_def)
  ultimately show ?thesis by blast
next
  case True
  then have valid: "validate_change zone c = Inr ()"
    and apex: "\<not> (key_owner (change_key c) = zone_apex zone \<and> key_type (change_key c) \<in> {TNs, TSoa})"
    and fresh: "change_key c \<notin> set (sc_keys sc)"
    by (auto simp: change_admissible_def)
  note scan = scan_change_def [of zone c sc, unfolded valid and_then_Inr Let_def if_not_P [OF apex] if_not_P [OF fresh]]
  show ?thesis
  proof (cases "desired_record_set c")
    case None
    have "scan_change zone c sc = Inr \<lparr>sc_keys = change_key c # sc_keys sc, sc_owners = sc_owners sc, sc_groups = sc_groups sc\<rparr>"
      unfolding scan by (simp add: desired_key_def None)
    then show ?thesis
      using repr True by (simp add: represents_scan_def prefix_ok_def desired_sets_Cons None)
  next
    case (Some rs)
    show ?thesis
    proof (cases "zone_provider zone = Aws")
      case False
      have "scan_change zone c sc = Inr \<lparr>sc_keys = change_key c # sc_keys sc,
          sc_owners = (key_owner (rs_key rs), key_type (rs_key rs) = TCname) # sc_owners sc, sc_groups = sc_groups sc\<rparr>"
        unfolding scan using False by (simp add: desired_key_def Some)
      then show ?thesis
        using repr True False by (simp add: represents_scan_def prefix_ok_def desired_sets_Cons Some)
    next
      case Aws: True
      then have groups: "represents_groups (sc_groups sc) (desired_sets earlier)" "routing_groups_ok (desired_sets earlier)"
        using repr by (auto simp: represents_scan_def)
      have scan': "scan_change zone c sc = and_then (validate_route53_group_member rs (sc_groups sc)) (\<lambda>groups.
          Inr \<lparr>sc_keys = change_key c # sc_keys sc,
               sc_owners = (key_owner (rs_key rs), key_type (rs_key rs) = TCname) # sc_owners sc, sc_groups = groups\<rparr>)"
        unfolding scan using Aws by (simp add: desired_key_def Some)
      show ?thesis
      proof (cases "validate_route53_group_member rs (sc_groups sc)")
        case (Inl e)
        then have "\<not> member_accepted rs (entry_state rs (sc_groups sc))"
          by (metis validate_route53_group_member_iff sum.distinct(1))
        then have "\<not> prefix_ok zone (c # earlier)"
          using member_accepted_iff [OF groups] Aws by (simp add: prefix_ok_def desired_sets_Cons Some)
        then show ?thesis unfolding scan' Inl by simp
      next
        case (Inr g)
        then have "represents_groups g (rs # desired_sets earlier)" "routing_groups_ok (rs # desired_sets earlier)"
          using represents_groups_Cons [OF groups(1)] member_accepted_iff [OF groups]
          unfolding validate_route53_group_member_iff by auto
        then show ?thesis
          unfolding scan' Inr using repr True Aws
          by (simp add: represents_scan_def prefix_ok_def desired_sets_Cons Some)
      qed
    qed
  qed
qed

lemma prefix_ok_suffix: "prefix_ok zone (later @ earlier) \<Longrightarrow> prefix_ok zone earlier"
  by (auto simp: prefix_ok_def List.map_filter_def intro: routing_groups_ok_suffix)

lemma scan_changes_spec:
  assumes "represents_scan zone sc earlier" "prefix_ok zone earlier"
  shows "(\<exists>sc'. scan_changes zone cs sc = Inr sc' \<and> represents_scan zone sc' (rev cs @ earlier)
             \<and> prefix_ok zone (rev cs @ earlier))
         \<or> (\<exists>e. scan_changes zone cs sc = Inl e) \<and> \<not> prefix_ok zone (rev cs @ earlier)"
  using assms
proof (induction cs arbitrary: sc earlier)
  case (Cons c cs)
  from scan_change_step [OF Cons.prems(1), of c] show ?case
  proof (elim disjE exE conjE)
    fix sc'
    assume "scan_change zone c sc = Inr sc'" "represents_scan zone sc' (c # earlier)"
      "prefix_ok zone earlier \<longrightarrow> prefix_ok zone (c # earlier)"
    then show ?thesis using Cons.IH [of sc' "c # earlier"] Cons.prems(2) by simp
  next
    fix e
    assume "scan_change zone c sc = Inl e" "\<not> prefix_ok zone (c # earlier)"
    then show ?thesis using prefix_ok_suffix [of zone "rev cs" "c # earlier"] by auto
  qed
qed simp

lemma prefix_ok_rev: "prefix_ok zone (rev cs) \<longleftrightarrow> prefix_ok zone cs"
proof -
  have "desired_sets (rev cs) = rev (desired_sets cs)"
    by (simp add: List.map_filter_def rev_map rev_filter)
  then show ?thesis
    unfolding prefix_ok_def by (simp add: routing_groups_ok_rev list_all_iff rev_map [symmetric])
qed

lemma cname_exclusive_scan:
  assumes "represents_scan zone sc (rev cs)"
  shows "list_ex (\<lambda>(owner, cname). cname \<and> (owner, False) \<in> set (sc_owners sc)) (sc_owners sc) \<longleftrightarrow>
    \<not> cname_exclusive (desired_sets cs)"
proof -
  have "set (desired_sets (rev cs)) = set (desired_sets cs)"
    by (simp add: List.map_filter_def)
  then have owners: "set (sc_owners sc) =
      (\<lambda>rs. (key_owner (rs_key rs), key_type (rs_key rs) = TCname)) ` set (desired_sets cs)"
    using assms by (simp add: represents_scan_def)
  have "list_ex (\<lambda>(owner, cname). cname \<and> (owner, False) \<in> set (sc_owners sc)) (sc_owners sc) \<longleftrightarrow>
      (\<exists>a \<in> set (desired_sets cs). \<exists>b \<in> set (desired_sets cs).
         key_type (rs_key a) = TCname \<and> key_owner (rs_key a) = key_owner (rs_key b) \<and> key_type (rs_key b) \<noteq> TCname)"
    unfolding list_ex_iff owners bex_simps image_iff prod.case prod.inject by blast
  also have "\<dots> \<longleftrightarrow> \<not> cname_exclusive (desired_sets cs)"
    unfolding cname_exclusive_def by metis
  finally show ?thesis .
qed

lemma validate_dns_changes_iff: "validate_dns_changes zone changes = Inr () \<longleftrightarrow> batch_ok zone changes"
proof (cases "validate_zone_ref zone = Inr () \<and> changes \<noteq> [] \<and> length changes \<le> 1000")
  case False
  then show ?thesis
    by (cases "validate_zone_ref zone") (auto simp: validate_dns_changes_def batch_ok_def MAX_CHANGES_def)
next
  case True
  let ?sc = "\<lparr>sc_keys = [], sc_owners = [], sc_groups = []\<rparr>"
  have init: "represents_scan zone ?sc []" "prefix_ok zone []"
    by (simp_all add: represents_scan_def prefix_ok_def represents_groups_def routing_groups_ok_def List.map_filter_simps)
  have code: "validate_dns_changes zone changes =
      and_then (scan_changes zone changes ?sc) (\<lambda>sc.
        if list_ex (\<lambda>(owner, cname). cname \<and> (owner, False) \<in> set (sc_owners sc)) (sc_owners sc)
        then Inl (Conflict ''CNAME cannot coexist with another record type in one batch'') else Inr ())"
    using True by (simp add: validate_dns_changes_def MAX_CHANGES_def)
  have spec: "batch_ok zone changes \<longleftrightarrow> prefix_ok zone changes \<and> cname_exclusive (desired_sets changes)"
    using True by (auto simp: batch_ok_def prefix_ok_def)
  from scan_changes_spec [OF init, of changes] show ?thesis
  proof (elim disjE exE conjE)
    fix sc
    assume "scan_changes zone changes ?sc = Inr sc" "represents_scan zone sc (rev changes @ [])" "prefix_ok zone (rev changes @ [])"
    then show ?thesis
      using cname_exclusive_scan [of zone sc changes] unfolding code spec by (simp add: prefix_ok_rev)
  next
    fix e
    assume "scan_changes zone changes ?sc = Inl e" "\<not> prefix_ok zone (rev changes @ [])"
    then show ?thesis unfolding code spec by (simp add: prefix_ok_rev)
  qed
qed

text \<open>
  C14: A batch of record changes is accepted exactly when it satisfies the declarative contract: the
  zone reference is valid, the batch holds 1 to 1000 changes, each valid on its own and none on the
  apex NS or SOA, no record identity twice, no owner with both a CNAME and another type among the
  desired sets, and for an AWS zone every (owner, type) routing group has one routing family, one
  explicit TTL, at most 100 weighted members and no selector twice.
\<close>

theorem dns_batch_accepted_iff: "validate_dns_changes zone changes = Inr () \<longleftrightarrow> batch_ok zone changes"
  by (rule validate_dns_changes_iff)

section \<open>What an accepted batch changes\<close>

lemma validate_record_set_within: "validate_record_set zone rs = Inr () \<Longrightarrow> is_within (key_owner (rs_key rs)) (zone_apex zone)"
  by (auto simp: validate_record_set_def Let_def and_then_eq_Inr split: if_splits)

lemma require_exact_guard_ok [simp]: "require_exact_guard guard revision = Inr () \<longleftrightarrow> guard = MatchObserved revision"
  by (simp add: require_exact_guard_def)

fun change_guarded :: "DnsZoneRef \<Rightarrow> DnsRecordChange \<Rightarrow> bool" where
  "change_guarded zone (CreateSet rs guard) \<longleftrightarrow> guard = MustNotExist"
| "change_guarded zone (ReplaceSet previous desired guard) \<longleftrightarrow>
     or_zone previous = zone \<and> rs_key (or_record_set previous) = rs_key desired
     \<and> guard = MatchObserved (or_revision previous)"
| "change_guarded zone (DeleteSet previous guard) \<longleftrightarrow>
     or_zone previous = zone \<and> guard = MatchObserved (or_revision previous)"

lemma validate_change_ok:
  "validate_change zone c = Inr () \<Longrightarrow>
     is_within (key_owner (change_key c)) (zone_apex zone) \<and> change_guarded zone c"
proof (cases c)
  case (CreateSet rs guard)
  assume "validate_change zone c = Inr ()"
  then show ?thesis
    unfolding CreateSet by (auto simp: and_then_eq_Inr dest: validate_record_set_within split: if_splits)
next
  case (ReplaceSet previous desired guard)
  assume "validate_change zone c = Inr ()"
  then show ?thesis
    unfolding ReplaceSet by (auto simp: and_then_eq_Inr dest: validate_record_set_within split: if_splits)
next
  case (DeleteSet previous guard)
  assume "validate_change zone c = Inr ()"
  then show ?thesis
    unfolding DeleteSet
    by (auto simp: and_then_eq_Inr validate_observed_record_set_def dest: validate_record_set_within split: if_splits)
qed

text \<open>
  Every change of an accepted batch stays inside the managed zone, leaves the apex NS and SOA alone,
  is the only change of its record identity, and is fenced: a creation requires absence, a
  replacement or deletion names this zone, the same record identity and exactly the revision that
  was observed.
\<close>

theorem accepted_changes_are_fenced:
  assumes "validate_dns_changes zone changes = Inr ()" and "i < length changes"
  shows "is_within (key_owner (change_key (changes ! i))) (zone_apex zone)
    \<and> change_guarded zone (changes ! i)
    \<and> \<not> (key_owner (change_key (changes ! i)) = zone_apex zone \<and> key_type (change_key (changes ! i)) \<in> {TNs, TSoa})
    \<and> (\<forall>j. j < length changes \<and> change_key (changes ! j) = change_key (changes ! i) \<longrightarrow> j = i)"
proof -
  have ok: "list_all (change_admissible zone) changes" "distinct (map change_key changes)"
    using assms(1) unfolding validate_dns_changes_iff batch_ok_def by auto
  have "change_admissible zone (changes ! i)"
    using ok(1) assms(2) by (simp add: list_all_length)
  moreover have "j = i" if "j < length changes" "change_key (changes ! j) = change_key (changes ! i)" for j
    using ok(2) that assms(2) nth_eq_iff_index_eq [of "map change_key changes" j i] by simp
  ultimately show ?thesis
    using validate_change_ok unfolding change_admissible_def by blast
qed

definition example_zone :: DnsZoneRef where
  "example_zone = \<lparr>zone_account_id = ''acc'', zone_provider = Cloudflare, zone_id = ''z1'', zone_apex = ''a.io'',
     zone_visibility = Public\<rparr>"

definition example_txt :: ProviderDnsRecordSet where
  "example_txt = \<lparr>rs_key = \<lparr>key_owner = ''t.a.io'', key_type = TTxt, key_routing = Simple\<rparr>, rs_ttl = Seconds 300,
     rs_values = [VTxt [''v'']], rs_extension = None\<rparr>"

lemma example_texts:
  "validate_resource_id ''acc'' = Inr ()" "validate_zone_id ''z1'' = Inr ()" "is_within ''t.a.io'' ''a.io''"
proof -
  have "list_all graphic ''acc''" "list_all graphic ''z1''"
    by (simp_all add: graphic_def byte_def)
  then show "validate_resource_id ''acc'' = Inr ()" "validate_zone_id ''z1'' = Inr ()"
    by (simp_all add: validate_resource_id_def cloud_identifier_new_def validate_zone_id_def validate_text_def
        MAX_OPAQUE_ID_LEN_def string_simps del: has_control.simps list.pred_inject)
  show "is_within ''t.a.io'' ''a.io''"
    by (simp add: is_within_def ends_with_def strip_suffix_def strip_prefix_def)
qed

theorem accepted_changes_are_fenced_witness:
  "validate_dns_changes example_zone [CreateSet example_txt MustNotExist] = Inr ()
   \<and> is_within ''t.a.io'' ''a.io''"
proof -
  have zone: "validate_zone_ref example_zone = Inr ()"
    by (simp add: validate_zone_ref_def example_zone_def example_texts)
  have ok: "validate_dns_changes example_zone [CreateSet example_txt MustNotExist] = Inr ()"
    by (simp add: validate_dns_changes_def zone scan_change_def validate_record_set_def)
       (simp add: example_zone_def example_txt_def validate_key_def example_texts MAX_CHANGES_def MAX_TTL_SECONDS_def
        is_route53_alias_def validate_values_def validate_txt_value_def validate_character_string_def
        character_string_new_def txt_value_new_def MAX_TXT_SEGMENTS_def MAX_TXT_TOTAL_BYTES_def validate_portable_def
        desired_key_def Let_def)
  show ?thesis
    using ok accepted_changes_are_fenced [OF ok, of 0] by (simp add: example_txt_def example_zone_def)
qed

end
