(* ===== verification/Cloud_Resources.thy ===== *)
theory Cloud_Resources
  imports Dns_Names
begin

text \<open>
  Provider-neutral cloud resources: the resource types of \<open>crates/center-core/src/cloud.rs\<close>, status and
  event history (\<open>cloud/status.rs\<close>), normalised provider errors (\<open>cloud/provider_errors.rs\<close>,
  \<open>cloud/direct_call.rs\<close>), credential selection (\<open>cloud/credentials.rs\<close>) and provider accounts
  (\<open>cloud/provider_accounts.rs\<close>). The length of a \<open>serde_json\<close> encoding is an argument; \<open>i64\<close> times
  are only compared and are integers.
\<close>

section \<open>Resource types\<close>

datatype CloudResourceKind = KProviderAccount | KManagedZone | KDnsRecordSet

datatype ManagementPolicy = Managed | ObserveOnly

datatype DeletionPolicy = Retain | DeleteExternal

record CloudResourceMetadata =
  md_id :: string
  md_display_name :: string
  md_owner :: "string option"
  md_labels :: "(string \<times> string) list"
  md_generation :: u64
  md_management_policy :: ManagementPolicy
  md_deletion_policy :: DeletionPolicy

record ProviderResourceRef =
  pr_provider_account_id :: string
  pr_external_id :: string

datatype CloudConditionStatus = CTrue | CFalse | CUnknown

datatype CloudConditionType = Accepted | CredentialsValid | DnsReady | Programmed | DriftDetected

record CloudCondition =
  cond_type :: CloudConditionType
  cond_status :: CloudConditionStatus
  cond_reason :: string
  cond_message :: string
  cond_observed_generation :: u64
  cond_last_transition :: int

record CloudResourceStatus =
  st_observed_generation :: "u64 option"
  st_provider_resource :: "ProviderResourceRef option"
  st_conditions :: "CloudCondition list"

definition default_status :: CloudResourceStatus where
  "default_status = \<lparr>st_observed_generation = None, st_provider_resource = None, st_conditions = []\<rparr>"

section \<open>Status\<close>

definition MAX_REASON_LEN :: nat where "MAX_REASON_LEN = 128"
definition MAX_MESSAGE_LEN :: nat where "MAX_MESSAGE_LEN = 4096"
definition MAX_CORRELATION_ID_LEN :: nat where "MAX_CORRELATION_ID_LEN = 128"
definition MAX_PROVIDER_EXTERNAL_ID_LEN :: nat where "MAX_PROVIDER_EXTERNAL_ID_LEN = 2048"
definition MAX_EVENT_HISTORY :: nat where "MAX_EVENT_HISTORY = 100"

definition validate_reason :: "string \<Rightarrow> unit CoreResult" where
  "validate_reason v =
     and_then (validate_text v ''cloud status reason'' MAX_REASON_LEN) (\<lambda>_.
       if v = [] \<or> \<not> is_ascii_uppercase (hd v) \<or> \<not> list_all is_ascii_alphanumeric v
       then Inl (Conflict ''cloud status reason must be an UpperCamelCase code'') else Inr ())"

record CloudEvent =
  ev_correlation_id :: string
  ev_resource_kind :: CloudResourceKind
  ev_resource_id :: string
  ev_observed_generation :: u64
  ev_condition_type :: "CloudConditionType option"
  ev_reason :: string
  ev_message :: string
  ev_occurred_at :: int

definition validate_event :: "CloudEvent \<Rightarrow> unit CoreResult" where
  "validate_event e =
     and_then (validate_text (ev_correlation_id e) ''cloud correlation ID'' MAX_CORRELATION_ID_LEN) (\<lambda>_.
     and_then (validate_resource_id (ev_resource_id e)) (\<lambda>_.
     and_then (validate_reason (ev_reason e)) (\<lambda>_.
     and_then (validate_text (ev_message e) ''cloud event message'' MAX_MESSAGE_LEN) (\<lambda>_.
       if ev_observed_generation e = 0 \<or> ev_occurred_at e < 0
       then Inl (Conflict ''cloud event generation or time is invalid'') else Inr ()))))"

record BoundedCloudEventHistory =
  hist_max_events :: nat
  hist_events :: "CloudEvent list"

definition history_new :: "nat \<Rightarrow> BoundedCloudEventHistory CoreResult" where
  "history_new max_events =
     (if max_events = 0 \<or> MAX_EVENT_HISTORY < max_events
      then Inl (Conflict ''cloud event history capacity is invalid'')
      else Inr \<lparr>hist_max_events = max_events, hist_events = []\<rparr>)"

definition history_push :: "CloudEvent \<Rightarrow> BoundedCloudEventHistory \<Rightarrow> BoundedCloudEventHistory CoreResult" where
  "history_push e h =
     and_then (validate_event e) (\<lambda>_.
       if hist_events h \<noteq> [] \<and> ev_occurred_at e < ev_occurred_at (last (hist_events h))
       then Inl (Conflict ''cloud event history must be time ordered'')
       else Inr (h\<lparr>hist_events :=
              (if length (hist_events h) = hist_max_events h then tl (hist_events h) else hist_events h) @ [e]\<rparr>))"

definition validate_condition :: "CloudCondition \<Rightarrow> unit CoreResult" where
  "validate_condition c =
     and_then (validate_reason (cond_reason c)) (\<lambda>_.
     and_then (validate_text (cond_message c) ''cloud condition message'' MAX_MESSAGE_LEN) (\<lambda>_.
       if cond_observed_generation c = 0 \<or> cond_last_transition c < 0
       then Inl (Conflict ''cloud condition generation or transition time is invalid'') else Inr ()))"

definition is_true_and_fresh_for :: "CloudCondition \<Rightarrow> u64 \<Rightarrow> bool" where
  "is_true_and_fresh_for c generation \<longleftrightarrow> cond_status c = CTrue \<and> cond_observed_generation c = generation"

definition validate_resource_ref :: "ProviderResourceRef \<Rightarrow> unit CoreResult" where
  "validate_resource_ref r =
     and_then (validate_resource_id (pr_provider_account_id r)) (\<lambda>_.
       validate_text (pr_external_id r) ''provider external resource ID'' MAX_PROVIDER_EXTERNAL_ID_LEN)"

fun validate_conditions :: "u64 \<Rightarrow> u64 option \<Rightarrow> CloudCondition list \<Rightarrow> CloudConditionType list \<Rightarrow> unit CoreResult" where
  "validate_conditions resource_generation observed [] types = Inr ()"
| "validate_conditions resource_generation observed (c # cs) types =
     and_then (validate_condition c) (\<lambda>_.
       if resource_generation < cond_observed_generation c
          \<or> (case observed of None \<Rightarrow> True | Some g \<Rightarrow> g < cond_observed_generation c)
          \<or> cond_type c \<in> set types
       then Inl (Conflict ''cloud resource conditions are inconsistent'')
       else validate_conditions resource_generation observed cs (cond_type c # types))"

definition validate_status :: "CloudResourceStatus \<Rightarrow> u64 \<Rightarrow> unit CoreResult" where
  "validate_status s resource_generation =
     (if resource_generation = 0
         \<or> (case st_observed_generation s of None \<Rightarrow> False | Some g \<Rightarrow> g = 0 \<or> resource_generation < g)
      then Inl (Conflict ''cloud resource status generation is invalid'')
      else
        and_then (case st_provider_resource s of None \<Rightarrow> Inr () | Some r \<Rightarrow> validate_resource_ref r) (\<lambda>_.
          validate_conditions resource_generation (st_observed_generation s) (st_conditions s) []))"

definition condition_is_true_and_fresh :: "CloudResourceStatus \<Rightarrow> CloudConditionType \<Rightarrow> u64 \<Rightarrow> bool" where
  "condition_is_true_and_fresh s ty generation \<longleftrightarrow>
     st_observed_generation s = Some generation
     \<and> list_ex (\<lambda>c. cond_type c = ty \<and> is_true_and_fresh_for c generation) (st_conditions s)"

text \<open>\<open>iter_mut().find(..)\<close> with the assignment through the found reference.\<close>

fun replace_first :: "('a \<Rightarrow> bool) \<Rightarrow> 'a \<Rightarrow> 'a list \<Rightarrow> 'a list" where
  "replace_first p y [] = []"
| "replace_first p y (x # xs) = (if p x then y # xs else x # replace_first p y xs)"

definition merge_condition :: "CloudCondition \<Rightarrow> CloudCondition list \<Rightarrow> CloudCondition list CoreResult" where
  "merge_condition c cs =
     (case find (\<lambda>existing. cond_type existing = cond_type c) cs of
        None \<Rightarrow> Inr (cs @ [c])
      | Some existing \<Rightarrow>
          if cond_observed_generation c < cond_observed_generation existing then
            Inl (Conflict ''cloud condition observed generation moved backwards'')
          else if cond_last_transition c < cond_last_transition existing then
            Inl (Conflict ''cloud condition transition time moved backwards'')
          else
            let c' = (if cond_status c = cond_status existing \<and> cond_reason c = cond_reason existing
                         \<and> cond_message c = cond_message existing
                      then c\<lparr>cond_last_transition := cond_last_transition existing\<rparr> else c)
            in Inr (replace_first (\<lambda>e. cond_type e = cond_type c) c' cs))"

definition set_condition :: "CloudCondition \<Rightarrow> u64 \<Rightarrow> CloudResourceStatus \<Rightarrow> CloudResourceStatus CoreResult" where
  "set_condition c resource_generation s =
     and_then (validate_condition c) (\<lambda>_.
       if resource_generation < cond_observed_generation c then
         Inl (Conflict ''cloud condition observes a future generation'')
       else
         and_then (merge_condition c (st_conditions s)) (\<lambda>conditions.
           let updated = s\<lparr>st_conditions := conditions,
                 st_observed_generation :=
                   Some (max (case st_observed_generation s of None \<Rightarrow> 0 | Some g \<Rightarrow> g) (cond_observed_generation c))\<rparr>
           in and_then (validate_status updated resource_generation) (\<lambda>_. Inr updated)))"

section \<open>Provider errors\<close>

datatype ProviderErrorCategory =
  EAuthentication | EAuthorization | EQuota | EConflict | EValidation | ENotFound | ETransient | EThrottled | EUnknownOutcome

record NormalizedProviderError =
  ne_category :: ProviderErrorCategory
  ne_code :: string
  ne_message :: string
  ne_retry_after_ms :: "u64 option"
  ne_provider_request_id :: "string option"

definition i64_MAX_u64 :: u64 where "i64_MAX_u64 = 9223372036854775807"

definition MAX_ERROR_CODE_LEN :: nat where "MAX_ERROR_CODE_LEN = 128"
definition MAX_ERROR_MESSAGE_LEN :: nat where "MAX_ERROR_MESSAGE_LEN = 4096"
definition MAX_PROVIDER_REQUEST_ID_LEN :: nat where "MAX_PROVIDER_REQUEST_ID_LEN = 512"

definition validate_provider_error :: "NormalizedProviderError \<Rightarrow> unit CoreResult" where
  "validate_provider_error e =
     and_then (validate_text (ne_code e) ''provider error code'' MAX_ERROR_CODE_LEN) (\<lambda>_.
     and_then (validate_text (ne_message e) ''provider error message'' MAX_ERROR_MESSAGE_LEN) (\<lambda>_.
     and_then (case ne_provider_request_id e of
                 None \<Rightarrow> Inr ()
               | Some r \<Rightarrow> validate_text r ''provider request ID'' MAX_PROVIDER_REQUEST_ID_LEN) (\<lambda>_.
       if (case ne_retry_after_ms e of None \<Rightarrow> False | Some delay \<Rightarrow> i64_MAX_u64 < delay) then
         Inl (Conflict ''provider retry delay exceeds the persisted time range'')
       else if ne_category e = EThrottled \<and> ne_retry_after_ms e = None then
         Inl (Conflict ''throttled provider errors require a retry delay'')
       else if ne_category e \<in> {EAuthentication, EAuthorization, EConflict, EValidation, ENotFound, EUnknownOutcome}
            \<and> ne_retry_after_ms e \<noteq> None then
         Inl (Conflict ''terminal provider error category cannot carry a retry delay'')
       else Inr ())))"

definition provider_error_new ::
  "ProviderErrorCategory \<Rightarrow> string \<Rightarrow> string \<Rightarrow> u64 option \<Rightarrow> string option \<Rightarrow> NormalizedProviderError CoreResult" where
  "provider_error_new category code message retry request_id =
     (let e = \<lparr>ne_category = category, ne_code = code, ne_message = message, ne_retry_after_ms = retry,
               ne_provider_request_id = request_id\<rparr>
      in and_then (validate_provider_error e) (\<lambda>_. Inr e))"

datatype OperationErrorKind = OpTransient | OpThrottled | OpConflictRequiresReplan | OpPermanent | OpUnknownOutcome

record OperationError =
  op_kind :: OperationErrorKind
  op_code :: string
  op_message :: string
  op_retry_after_ms :: "u64 option"

definition validate_operation_error :: "OperationError \<Rightarrow> unit CoreResult" where
  "validate_operation_error e =
     and_then (validate_text (op_code e) ''cloud operation error code'' MAX_ERROR_CODE_LEN) (\<lambda>_.
     and_then (validate_text (op_message e) ''cloud operation error message'' MAX_ERROR_MESSAGE_LEN) (\<lambda>_.
       if (case op_retry_after_ms e of None \<Rightarrow> False | Some delay \<Rightarrow> i64_MAX_u64 < delay)
       then Inl (Conflict ''cloud operation retry delay exceeds the persisted time range'') else Inr ()))"

definition operation_kind :: "NormalizedProviderError \<Rightarrow> OperationErrorKind" where
  "operation_kind e =
     (case ne_category e of
        EAuthentication \<Rightarrow> OpPermanent
      | EAuthorization \<Rightarrow> OpPermanent
      | EValidation \<Rightarrow> OpPermanent
      | ENotFound \<Rightarrow> OpPermanent
      | EQuota \<Rightarrow> if ne_retry_after_ms e \<noteq> None then OpThrottled else OpPermanent
      | EConflict \<Rightarrow> OpConflictRequiresReplan
      | ETransient \<Rightarrow> OpTransient
      | EThrottled \<Rightarrow> OpThrottled
      | EUnknownOutcome \<Rightarrow> OpUnknownOutcome)"

definition into_operation_error :: "NormalizedProviderError \<Rightarrow> OperationError CoreResult" where
  "into_operation_error e =
     and_then (validate_provider_error e) (\<lambda>_.
       Inr \<lparr>op_kind = operation_kind e, op_code = ne_code e, op_message = ne_message e,
            op_retry_after_ms = ne_retry_after_ms e\<rparr>)"

definition idempotency_key_new :: "string \<Rightarrow> string CoreResult" where
  "idempotency_key_new v = cloud_identifier_new ''idempotency key'' (Some 512) v"

section \<open>Credentials and provider accounts\<close>

datatype CredentialSource =
    StaticSecret string
  | Ambient
  | Federated "string option" string "string option"
  | AssumeIdentity "string option" string "string option"

definition validate_principal :: "string \<Rightarrow> unit CoreResult" where
  "validate_principal v =
     (if trim v = [] \<or> trim v \<noteq> v \<or> has_control v
      then Inl (Conflict ''credential target principal is invalid'') else Inr ())"

fun validate_credential_source :: "CredentialSource \<Rightarrow> unit CoreResult" where
  "validate_credential_source (StaticSecret _) = Inr ()"
| "validate_credential_source Ambient = Inr ()"
| "validate_credential_source (Federated _ target_principal audience) =
     and_then (validate_principal target_principal) (\<lambda>_.
       if (case audience of None \<Rightarrow> False | Some a \<Rightarrow> trim a = [])
       then Inl (Conflict ''federated credential audience must not be empty'') else Inr ())"
| "validate_credential_source (AssumeIdentity _ target_principal _) = validate_principal target_principal"

abbreviation option_list :: "'a option \<Rightarrow> 'a list" where
  "option_list x \<equiv> (case x of None \<Rightarrow> [] | Some y \<Rightarrow> [y])"

fun credential_refs :: "CredentialSource \<Rightarrow> string list" where
  "credential_refs (StaticSecret credential_ref) = [credential_ref]"
| "credential_refs Ambient = []"
| "credential_refs (Federated subject_token_ref _ _) = option_list subject_token_ref"
| "credential_refs (AssumeIdentity base_credential_ref _ external_id_ref) =
     option_list base_credential_ref @ option_list external_id_ref"

datatype CredentialState = CredValid | CredInvalid | CredUnknown

record ProviderIdentity =
  pid_provider :: CloudProvider
  pid_principal :: string
  pid_scope :: "string option"

datatype CredentialIssueKind =
  ReferenceNotFound | CredAuthenticationFailed | CredPermissionDenied | CredExpired | CredInvalidConfiguration
  | CredProviderUnavailable

record CredentialIssue =
  ci_kind :: CredentialIssueKind
  ci_code :: string
  ci_message :: string

record CredentialInspection =
  insp_state :: CredentialState
  insp_identity :: "ProviderIdentity option"
  insp_credential_revision :: "string option"
  insp_expires_at :: "int option"
  insp_issues :: "CredentialIssue list"

definition requires_client_refresh :: "CredentialInspection \<Rightarrow> CredentialInspection \<Rightarrow> bool" where
  "requires_client_refresh i previous \<longleftrightarrow>
     insp_credential_revision i \<noteq> insp_credential_revision previous
     \<or> insp_identity i \<noteq> insp_identity previous \<or> insp_state i \<noteq> insp_state previous"

record ProviderAccountSpec =
  spec_provider :: CloudProvider
  spec_scope :: "ProviderAccountScope option"
  spec_credential_source :: CredentialSource

definition validate_account_spec :: "ProviderAccountSpec \<Rightarrow> unit CoreResult" where
  "validate_account_spec s =
     and_then (validate_credential_source (spec_credential_source s)) (\<lambda>_.
       case spec_scope s of None \<Rightarrow> Inr () | Some scope \<Rightarrow> validate_scope_for scope (spec_provider s))"

record ProviderAccount =
  acc_metadata :: CloudResourceMetadata
  acc_spec :: ProviderAccountSpec
  acc_status :: CloudResourceStatus

definition MAX_PROVIDER_ACCOUNT_PAGE_SIZE :: nat where "MAX_PROVIDER_ACCOUNT_PAGE_SIZE = 100"
definition MAX_LABELS :: nat where "MAX_LABELS = 64"
definition MAX_CREDENTIAL_REF_BYTES :: nat where "MAX_CREDENTIAL_REF_BYTES = 512"
definition MAX_DESIRED_PAYLOAD_BYTES :: nat where "MAX_DESIRED_PAYLOAD_BYTES = 64 * 1024"
definition MAX_PROVIDER_ACCOUNT_GENERATION :: u64 where "MAX_PROVIDER_ACCOUNT_GENERATION = i64_MAX_u64"

record ProviderAccountDesired =
  des_display_name :: string
  des_owner :: "string option"
  des_labels :: "(string \<times> string) list"
  des_management_policy :: ManagementPolicy
  des_deletion_policy :: DeletionPolicy
  des_spec :: ProviderAccountSpec

definition validate_account_text :: "string \<Rightarrow> string \<Rightarrow> nat \<Rightarrow> bool \<Rightarrow> unit CoreResult" where
  "validate_account_text v kind max_bytes allow_empty =
     (if (\<not> allow_empty \<and> v = []) \<or> max_bytes < length v \<or> trim v \<noteq> v \<or> has_control v
      then Inl (Conflict (kind @ '' is invalid'')) else Inr ())"

definition validate_credential_ref :: "string \<Rightarrow> unit CoreResult" where
  "validate_credential_ref r =
     and_then (cloud_identifier_new ''credential reference'' None r) (\<lambda>_.
       if MAX_CREDENTIAL_REF_BYTES < length r
       then Inl (Conflict ''provider account credential reference is too long'') else Inr ())"

text \<open>\<open>encoded_len\<close> is the length of \<open>serde_json::to_vec\<close>, \<open>None\<close> for its error.\<close>

definition validate_desired :: "(ProviderAccountDesired \<Rightarrow> nat option) \<Rightarrow> ProviderAccountDesired \<Rightarrow> unit CoreResult" where
  "validate_desired encoded_len d =
     and_then (validate_account_text (des_display_name d) ''provider account display name'' 256 False) (\<lambda>_.
     and_then (case des_owner d of
                 None \<Rightarrow> Inr ()
               | Some owner \<Rightarrow> validate_account_text owner ''provider account owner'' 256 False) (\<lambda>_.
       if MAX_LABELS < length (des_labels d) then Inl (Conflict ''provider account has too many labels'')
       else
         and_then (for_each_ok (\<lambda>(key, v).
                     and_then (validate_account_text key ''provider account label key'' 128 False) (\<lambda>_.
                       validate_account_text v ''provider account label value'' 256 True)) (des_labels d)) (\<lambda>_.
           if des_deletion_policy d \<noteq> Retain then
             Inl (Conflict ''provider account deletion policy must retain the provider account'')
           else
             and_then (validate_account_spec (des_spec d)) (\<lambda>_.
             and_then (for_each_ok validate_credential_ref (credential_refs (spec_credential_source (des_spec d)))) (\<lambda>_.
               case encoded_len d of
                 None \<Rightarrow> Inl (Conflict ''provider account desired state is invalid'')
               | Some n \<Rightarrow>
                   if MAX_DESIRED_PAYLOAD_BYTES < n
                   then Inl (Conflict ''provider account desired state exceeds its persistence limit'') else Inr ())))))"

definition from_account :: "ProviderAccount \<Rightarrow> ProviderAccountDesired" where
  "from_account a =
     \<lparr>des_display_name = md_display_name (acc_metadata a), des_owner = md_owner (acc_metadata a),
      des_labels = md_labels (acc_metadata a), des_management_policy = md_management_policy (acc_metadata a),
      des_deletion_policy = md_deletion_policy (acc_metadata a), des_spec = acc_spec a\<rparr>"

definition validate_provider_account :: "ProviderAccount \<Rightarrow> unit CoreResult" where
  "validate_provider_account a =
     (if trim (md_display_name (acc_metadata a)) = [] \<or> md_generation (acc_metadata a) = 0 then
        Inl (Conflict (''provider account '' @ md_id (acc_metadata a) @ '' has invalid metadata''))
      else
        and_then (validate_status (acc_status a) (md_generation (acc_metadata a))) (\<lambda>_.
          validate_account_spec (acc_spec a)))"

definition validate_stored_provider_account ::
  "(ProviderAccountDesired \<Rightarrow> nat option) \<Rightarrow> ProviderAccount \<Rightarrow> unit CoreResult" where
  "validate_stored_provider_account encoded_len a =
     and_then (validate_resource_id (md_id (acc_metadata a))) (\<lambda>_.
       if md_generation (acc_metadata a) = 0 \<or> MAX_PROVIDER_ACCOUNT_GENERATION < md_generation (acc_metadata a) then
         Inl (Conflict ''stored provider account generation is outside the persistence range'')
       else if acc_status a \<noteq> default_status then
         Inl (Conflict ''provider account desired-state store does not accept status'')
       else
         and_then (validate_desired encoded_len (from_account a)) (\<lambda>_. validate_provider_account a))"

definition provider_account_from_desired ::
  "(ProviderAccountDesired \<Rightarrow> nat option) \<Rightarrow> string \<Rightarrow> u64 \<Rightarrow> ProviderAccountDesired \<Rightarrow> ProviderAccount CoreResult" where
  "provider_account_from_desired encoded_len account_id generation d =
     and_then (validate_resource_id account_id) (\<lambda>_.
     and_then (validate_desired encoded_len d) (\<lambda>_.
       if generation = 0 \<or> MAX_PROVIDER_ACCOUNT_GENERATION < generation then
         Inl (Conflict ''provider account generation is outside the persistence range'')
       else
         let account =
           \<lparr>acc_metadata =
              \<lparr>md_id = account_id, md_display_name = des_display_name d, md_owner = des_owner d,
               md_labels = des_labels d, md_generation = generation,
               md_management_policy = des_management_policy d, md_deletion_policy = des_deletion_policy d\<rparr>,
            acc_spec = des_spec d, acc_status = default_status\<rparr>
         in and_then (validate_stored_provider_account encoded_len account) (\<lambda>_. Inr account)))"

record ProviderAccountPageRequest =
  apr_limit :: "16 word"
  apr_after :: "string option"

definition validate_account_page_request :: "ProviderAccountPageRequest \<Rightarrow> unit CoreResult" where
  "validate_account_page_request r =
     (if apr_limit r = 0 \<or> MAX_PROVIDER_ACCOUNT_PAGE_SIZE < unat (apr_limit r) then
        Inl (Conflict ''provider account page size is invalid'')
      else (case apr_after r of None \<Rightarrow> Inr () | Some after \<Rightarrow> validate_resource_id after))"

record ProviderAccountPage =
  ap_items :: "ProviderAccount list"
  ap_next :: "string option"

abbreviation acc_id :: "ProviderAccount \<Rightarrow> string" where
  "acc_id a \<equiv> md_id (acc_metadata a)"

fun validate_account_items ::
  "(ProviderAccountDesired \<Rightarrow> nat option) \<Rightarrow> string option \<Rightarrow> ProviderAccount list \<Rightarrow> unit CoreResult" where
  "validate_account_items encoded_len previous [] = Inr ()"
| "validate_account_items encoded_len previous (a # as) =
     and_then (validate_stored_provider_account encoded_len a) (\<lambda>_.
       if (case previous of None \<Rightarrow> False | Some i \<Rightarrow> acc_id a \<le> i) then
         Inl (Conflict ''provider account response page is not strictly ordered'')
       else validate_account_items encoded_len (Some (acc_id a)) as)"

definition validate_account_page ::
  "(ProviderAccountDesired \<Rightarrow> nat option) \<Rightarrow> ProviderAccountPage \<Rightarrow> ProviderAccountPageRequest \<Rightarrow> unit CoreResult" where
  "validate_account_page encoded_len p request =
     and_then (validate_account_page_request request) (\<lambda>_.
       if unat (apr_limit request) < length (ap_items p) then
         Inl (Conflict ''provider account response page exceeds the requested size'')
       else
         and_then (validate_account_items encoded_len (apr_after request) (ap_items p)) (\<lambda>_.
           case ap_next p of
             None \<Rightarrow> Inr ()
           | Some next \<Rightarrow>
               and_then (validate_resource_id next) (\<lambda>_.
                 if (if ap_items p = [] then None else Some (acc_id (last (ap_items p)))) \<noteq> Some next then
                   Inl (Conflict ''provider account next boundary does not match the page'')
                 else Inr ())))"

section \<open>Properties of status updates\<close>

definition condition_of :: "CloudResourceStatus \<Rightarrow> CloudConditionType \<Rightarrow> CloudCondition option" where
  "condition_of s ty = find (\<lambda>c. cond_type c = ty) (st_conditions s)"

text \<open>A repeated report keeps the time of the transition it repeats.\<close>

definition carry_transition :: "CloudCondition option \<Rightarrow> CloudCondition \<Rightarrow> CloudCondition" where
  "carry_transition existing c =
     (case existing of
        None \<Rightarrow> c
      | Some e \<Rightarrow>
          if cond_status c = cond_status e \<and> cond_reason c = cond_reason e \<and> cond_message c = cond_message e
          then c\<lparr>cond_last_transition := cond_last_transition e\<rparr> else c)"

definition not_older :: "CloudCondition option \<Rightarrow> CloudCondition \<Rightarrow> bool" where
  "not_older existing c \<longleftrightarrow>
     (case existing of
        None \<Rightarrow> True
      | Some e \<Rightarrow> cond_observed_generation e \<le> cond_observed_generation c \<and> cond_last_transition e \<le> cond_last_transition c)"

definition condition_fits :: "u64 \<Rightarrow> u64 option \<Rightarrow> CloudCondition \<Rightarrow> bool" where
  "condition_fits g observed c \<longleftrightarrow>
     validate_condition c = Inr () \<and> cond_observed_generation c \<le> g
     \<and> (case observed of None \<Rightarrow> False | Some o' \<Rightarrow> cond_observed_generation c \<le> o')"

lemma validate_conditions_iff:
  "validate_conditions g observed cs types = Inr () \<longleftrightarrow>
     (\<forall>c \<in> set cs. condition_fits g observed c) \<and> distinct (map cond_type cs)
     \<and> set (map cond_type cs) \<inter> set types = {}"
proof (induction cs arbitrary: types)
  case (Cons c cs)
  have "validate_conditions g observed (c # cs) types = Inr () \<longleftrightarrow>
      condition_fits g observed c \<and> cond_type c \<notin> set types
      \<and> validate_conditions g observed cs (cond_type c # types) = Inr ()"
    by (cases observed) (auto simp: and_then_eq_Inr condition_fits_def not_less)
  then show ?case unfolding Cons.IH by auto
qed simp

lemma validate_status_iff:
  "validate_status s g = Inr () \<longleftrightarrow>
     g \<noteq> 0 \<and> (case st_observed_generation s of None \<Rightarrow> True | Some o' \<Rightarrow> o' \<noteq> 0 \<and> o' \<le> g)
     \<and> (case st_provider_resource s of None \<Rightarrow> True | Some r \<Rightarrow> validate_resource_ref r = Inr ())
     \<and> (\<forall>c \<in> set (st_conditions s). condition_fits g (st_observed_generation s) c)
     \<and> distinct (map cond_type (st_conditions s))"
  unfolding validate_status_def
  by (cases "st_observed_generation s"; cases "st_provider_resource s")
     (auto simp: validate_conditions_iff and_then_eq_Inr not_less)

lemma replace_first_types:
  "cond_type y = ty \<Longrightarrow> map cond_type (replace_first (\<lambda>e. cond_type e = ty) y cs) = map cond_type cs"
  by (induction cs) auto

lemma replace_first_set: "set (replace_first p y cs) \<subseteq> insert y (set cs)"
  by (induction cs) auto

lemma find_replace_first:
  "cond_type y = ty \<Longrightarrow> find (\<lambda>c. cond_type c = ty) cs \<noteq> None \<Longrightarrow>
     find (\<lambda>c. cond_type c = ty') (replace_first (\<lambda>e. cond_type e = ty) y cs) =
       (if ty' = ty then Some y else find (\<lambda>c. cond_type c = ty') cs)"
  by (induction cs) (auto split: if_splits)

lemma merge_condition_iff:
  "merge_condition c cs = Inr cs' \<longleftrightarrow>
     not_older (find (\<lambda>e. cond_type e = cond_type c) cs) c
     \<and> cs' = (case find (\<lambda>e. cond_type e = cond_type c) cs of
                None \<Rightarrow> cs @ [c]
              | Some e \<Rightarrow> replace_first (\<lambda>e. cond_type e = cond_type c) (carry_transition (Some e) c) cs)"
  by (cases "find (\<lambda>e. cond_type e = cond_type c) cs")
     (auto simp: merge_condition_def not_older_def carry_transition_def Let_def not_less)

lemma carry_transition_fields [simp]:
  "cond_type (carry_transition e c) = cond_type c"
  "cond_observed_generation (carry_transition e c) = cond_observed_generation c"
  by (auto simp: carry_transition_def split: option.splits)

lemma carry_transition_valid:
  "validate_condition c = Inr () \<Longrightarrow> (\<And>e. existing = Some e \<Longrightarrow> validate_condition e = Inr ()) \<Longrightarrow>
     validate_condition (carry_transition existing c) = Inr ()"
  by (cases existing) (auto simp: carry_transition_def validate_condition_def and_then_eq_Inr)

lemma merged_conditions:
  assumes m: "merge_condition c cs = Inr cs'" and d: "distinct (map cond_type cs)"
  shows "distinct (map cond_type cs')
    \<and> set cs' \<subseteq> insert (carry_transition (find (\<lambda>e. cond_type e = cond_type c) cs) c) (set cs)
    \<and> find (\<lambda>e. cond_type e = ty) cs' =
        (if ty = cond_type c then Some (carry_transition (find (\<lambda>e. cond_type e = ty) cs) c)
         else find (\<lambda>e. cond_type e = ty) cs)"
proof (cases "find (\<lambda>e. cond_type e = cond_type c) cs")
  case None
  then have cs': "cs' = cs @ [c]" using m by (simp add: merge_condition_iff)
  have "cond_type c \<notin> cond_type ` set cs" using None by (auto simp: find_None_iff)
  moreover have "find (\<lambda>e. cond_type e = ty) (cs @ [c]) =
      (case find (\<lambda>e. cond_type e = ty) cs of Some e \<Rightarrow> Some e | None \<Rightarrow> if cond_type c = ty then Some c else None)"
    by (induction cs) auto
  ultimately show ?thesis
    using d None unfolding cs' by (auto simp: carry_transition_def split: option.splits)
next
  case (Some e)
  then have cs': "cs' = replace_first (\<lambda>e. cond_type e = cond_type c) (carry_transition (Some e) c) cs"
    using m by (simp add: merge_condition_iff)
  show ?thesis
    using d Some replace_first_set [of "\<lambda>e. cond_type e = cond_type c" "carry_transition (Some e) c" cs]
    unfolding cs' by (simp add: replace_first_types find_replace_first)
qed

definition raised_generation :: "CloudResourceStatus \<Rightarrow> CloudCondition \<Rightarrow> u64" where
  "raised_generation s c =
     max (case st_observed_generation s of None \<Rightarrow> 0 | Some g \<Rightarrow> g) (cond_observed_generation c)"

lemma updated_status_valid:
  assumes valid: "validate_status s g = Inr ()" and c: "validate_condition c = Inr ()" "cond_observed_generation c \<le> g"
    and m: "merge_condition c (st_conditions s) = Inr cs"
  shows "validate_status (s\<lparr>st_conditions := cs, st_observed_generation := Some (raised_generation s c)\<rparr>) g = Inr ()"
proof -
  have s: "g \<noteq> 0" "\<forall>e \<in> set (st_conditions s). condition_fits g (st_observed_generation s) e"
    "distinct (map cond_type (st_conditions s))"
    using valid by (auto simp: validate_status_iff)
  have gen: "cond_observed_generation c \<noteq> 0"
    using c(1) by (auto simp: validate_condition_def and_then_eq_Inr split: if_splits)
  have raised: "raised_generation s c \<noteq> 0 \<and> raised_generation s c \<le> g"
    using valid c(2) gen by (auto simp: validate_status_iff raised_generation_def max_def split: option.splits)
  have old: "condition_fits g (Some (raised_generation s c)) e" if "e \<in> set (st_conditions s)" for e
    using s(2) that
    by (auto simp: condition_fits_def raised_generation_def max_def split: option.splits intro: order_trans)
  have new: "condition_fits g (Some (raised_generation s c))
      (carry_transition (find (\<lambda>e. cond_type e = cond_type c) (st_conditions s)) c)"
  proof -
    have "validate_condition (carry_transition (find (\<lambda>e. cond_type e = cond_type c) (st_conditions s)) c) = Inr ()"
      using c(1) s(2)
      by (intro carry_transition_valid) (auto simp: find_Some_iff condition_fits_def)
    then show ?thesis using c(2) by (simp add: condition_fits_def raised_generation_def)
  qed
  show ?thesis
    using valid raised old new s(1) merged_conditions [OF m s(3)]
    unfolding validate_status_iff by auto
qed

text \<open>
  Status reports are exact and atomic. On a valid status a report is accepted precisely when it is
  well formed, does not observe a future generation, and is not older in generation or transition
  time than the condition of its type; nothing else makes it fail. The accepted status is valid
  again, holds the reported condition (with the old transition time when nothing changed), keeps
  every other condition, and its observed generation never moves back.
\<close>

theorem set_condition_exact:
  assumes "validate_status s g = Inr ()"
  shows "((\<exists>s'. set_condition c g s = Inr s') \<longleftrightarrow>
            validate_condition c = Inr () \<and> cond_observed_generation c \<le> g \<and> not_older (condition_of s (cond_type c)) c)
    \<and> (\<forall>s'. set_condition c g s = Inr s' \<longrightarrow>
          validate_status s' g = Inr ()
          \<and> condition_of s' = (condition_of s)(cond_type c := Some (carry_transition (condition_of s (cond_type c)) c))
          \<and> st_observed_generation s' = Some (raised_generation s c)
          \<and> st_provider_resource s' = st_provider_resource s)"
proof -
  let ?up = "\<lambda>cs. s\<lparr>st_conditions := cs, st_observed_generation := Some (raised_generation s c)\<rparr>"
  have code: "set_condition c g s = Inr s' \<longleftrightarrow>
      validate_condition c = Inr () \<and> cond_observed_generation c \<le> g
      \<and> (\<exists>cs. merge_condition c (st_conditions s) = Inr cs \<and> s' = ?up cs)" for s'
    using updated_status_valid [OF assms]
    by (auto simp: set_condition_def Let_def and_then_eq_Inr raised_generation_def not_less)
  have d: "distinct (map cond_type (st_conditions s))"
    using assms by (simp add: validate_status_iff)
  have effect: "condition_of (?up cs) = (condition_of s)(cond_type c := Some (carry_transition (condition_of s (cond_type c)) c))"
    if m: "merge_condition c (st_conditions s) = Inr cs" for cs
    using merged_conditions [OF m d] by (auto simp: condition_of_def fun_eq_iff)
  show ?thesis
    using updated_status_valid [OF assms] effect
    unfolding code by (auto simp: merge_condition_iff condition_of_def)
qed

theorem set_condition_exact_witness:
  "validate_status default_status 1 = Inr ()
   \<and> (\<exists>s'. set_condition \<lparr>cond_type = DnsReady, cond_status = CTrue, cond_reason = ''Ok'', cond_message = ''m'',
              cond_observed_generation = 1, cond_last_transition = 5\<rparr> 1 default_status = Inr s')"
proof -
  have ok: "validate_status default_status 1 = Inr ()"
    by (simp add: validate_status_def default_status_def)
  have "list_all graphic ''Ok''" "list_all graphic ''m''"
    by (simp_all add: graphic_def byte_def)
  then have texts: "validate_text ''Ok'' kind MAX_REASON_LEN = Inr ()" "validate_text ''m'' kind MAX_MESSAGE_LEN = Inr ()" for kind
    by (simp_all add: validate_text_def MAX_REASON_LEN_def MAX_MESSAGE_LEN_def string_simps del: has_control.simps list.pred_inject)
  have "list_all is_ascii_alphanumeric ''Ok''" "is_ascii_uppercase (CHR ''O'')"
    by code_simp+
  then have "validate_reason ''Ok'' = Inr ()"
    by (simp add: validate_reason_def texts del: list.pred_inject)
  then show ?thesis
    using ok set_condition_exact [OF ok, of "\<lparr>cond_type = DnsReady, cond_status = CTrue, cond_reason = ''Ok'', cond_message = ''m'',
              cond_observed_generation = 1, cond_last_transition = 5\<rparr>"]
    by (simp add: validate_condition_def texts condition_of_def default_status_def not_older_def)
qed

section \<open>Properties of the event history\<close>

fun accepted_events :: "CloudEvent option \<Rightarrow> CloudEvent list \<Rightarrow> CloudEvent list" where
  "accepted_events previous [] = []"
| "accepted_events previous (e # es) =
     (if validate_event e = Inr () \<and> (case previous of None \<Rightarrow> True | Some p \<Rightarrow> ev_occurred_at p \<le> ev_occurred_at e)
      then e # accepted_events (Some e) es else accepted_events previous es)"

definition history_offer :: "CloudEvent \<Rightarrow> BoundedCloudEventHistory \<Rightarrow> BoundedCloudEventHistory" where
  "history_offer e h = (case history_push e h of Inl _ \<Rightarrow> h | Inr h' \<Rightarrow> h')"

definition suffix_of :: "nat \<Rightarrow> 'a list \<Rightarrow> 'a list" where
  "suffix_of n xs = drop (length xs - n) xs"

lemma suffix_of_snoc:
  "0 < n \<Longrightarrow> suffix_of n (xs @ [x]) = (if length (suffix_of n xs) = n then tl (suffix_of n xs) else suffix_of n xs) @ [x]"
proof -
  assume n: "0 < n"
  show ?thesis
  proof (cases "n \<le> length xs")
    case True
    then have "Suc (length xs) - n = Suc (length xs - n)" by simp
    then show ?thesis using True n by (simp add: suffix_of_def drop_Suc tl_drop)
  next
    case False
    then show ?thesis using n by (simp add: suffix_of_def)
  qed
qed

lemma last_suffix_of: "0 < n \<Longrightarrow> xs \<noteq> [] \<Longrightarrow> suffix_of n xs \<noteq> [] \<and> last (suffix_of n xs) = last xs"
  by (cases xs rule: rev_cases) (auto simp: suffix_of_snoc)

lemma history_run:
  assumes "0 < n" "h = \<lparr>hist_max_events = n, hist_events = suffix_of n acc\<rparr>"
  shows "fold history_offer es h =
    \<lparr>hist_max_events = n,
     hist_events = suffix_of n (acc @ accepted_events (if acc = [] then None else Some (last acc)) es)\<rparr>"
  using assms(2)
proof (induction es arbitrary: h acc)
  case (Cons e es)
  let ?prev = "if acc = [] then None else Some (last acc)"
  have events: "hist_events h = [] \<longleftrightarrow> acc = []" "acc \<noteq> [] \<Longrightarrow> last (hist_events h) = last acc"
    using last_suffix_of [OF assms(1), of acc] Cons.prems by (auto simp: suffix_of_def)
  show ?case
  proof (cases "validate_event e = Inr () \<and> (case ?prev of None \<Rightarrow> True | Some p \<Rightarrow> ev_occurred_at p \<le> ev_occurred_at e)")
    case True
    have "history_offer e h = \<lparr>hist_max_events = n, hist_events = suffix_of n (acc @ [e])\<rparr>"
      using True events Cons.prems suffix_of_snoc [OF assms(1), of acc e]
      by (auto simp: history_offer_def history_push_def not_less split: if_splits)
    from Cons.IH [OF this] True show ?thesis by simp
  next
    case False
    have "history_offer e h = h"
      using False events
      by (cases "validate_event e") (auto simp: history_offer_def history_push_def not_less split: if_splits)
    then show ?thesis using Cons.IH [OF Cons.prems] False by (auto split: if_splits)
  qed
qed simp

lemma accepted_sorted:
  "sorted (map ev_occurred_at (accepted_events previous es))
   \<and> (\<forall>p. previous = Some p \<longrightarrow> (\<forall>e \<in> set (accepted_events previous es). ev_occurred_at p \<le> ev_occurred_at e))"
proof (induction es arbitrary: previous)
  case (Cons e es)
  then show ?case
    using Cons.IH [of "Some e"] Cons.IH [of previous] by (cases previous) force+
qed simp

text \<open>
  The bounded history is a sliding window: whatever events are offered, it holds exactly the last
  \<open>n\<close> of the accepted ones (valid and not earlier than the last accepted), never more than \<open>n\<close> and
  so never more than 100, in order of time.
\<close>

theorem history_is_a_window:
  assumes "history_new n = Inr h"
  shows "hist_events (fold history_offer es h) = suffix_of n (accepted_events None es)
    \<and> length (hist_events (fold history_offer es h)) \<le> n \<and> n \<le> 100
    \<and> sorted (map ev_occurred_at (hist_events (fold history_offer es h)))"
proof -
  have n: "0 < n" "n \<le> 100" "h = \<lparr>hist_max_events = n, hist_events = suffix_of n []\<rparr>"
    using assms by (auto simp: history_new_def MAX_EVENT_HISTORY_def suffix_of_def split: if_splits)
  have run: "hist_events (fold history_offer es h) = suffix_of n (accepted_events None es)"
    using history_run [OF n(1,3), of es] by simp
  have "sorted (map ev_occurred_at (suffix_of n (accepted_events None es)))"
    using accepted_sorted [of None es] by (simp add: suffix_of_def drop_map [symmetric] sorted_wrt_drop)
  then show ?thesis using run n by (simp add: suffix_of_def)
qed

theorem history_is_a_window_witness:
  "history_new 2 = Inr \<lparr>hist_max_events = 2, hist_events = []\<rparr>
   \<and> (\<forall>es. hist_events (fold history_offer es \<lparr>hist_max_events = 2, hist_events = []\<rparr>) =
         suffix_of 2 (accepted_events None es))"
proof -
  have h: "history_new 2 = Inr \<lparr>hist_max_events = 2, hist_events = []\<rparr>"
    by (simp add: history_new_def MAX_EVENT_HISTORY_def)
  then show ?thesis using history_is_a_window [OF h] by blast
qed

section \<open>Properties of errors, accounts and pages\<close>

text \<open>
  Every constructed provider error converts into a valid operation error that keeps code, message
  and delay. A throttled outcome always says how long to wait, and a delay occurs only on an outcome
  that may be retried.
\<close>

theorem provider_error_normalised:
  assumes "provider_error_new category code message retry request_id = Inr e"
  shows "\<exists>op. into_operation_error e = Inr op \<and> validate_operation_error op = Inr ()
    \<and> op_code op = code \<and> op_message op = message \<and> op_retry_after_ms op = retry
    \<and> (op_kind op = OpThrottled \<longrightarrow> retry \<noteq> None)
    \<and> (retry \<noteq> None \<longrightarrow> op_kind op = OpThrottled \<or> op_kind op = OpTransient)"
proof -
  let ?e = "\<lparr>ne_category = category, ne_code = code, ne_message = message, ne_retry_after_ms = retry,
               ne_provider_request_id = request_id\<rparr>"
  have e: "e = ?e" "validate_provider_error ?e = Inr ()"
    using assms by (auto simp: provider_error_new_def Let_def and_then_eq_Inr)
  have delay: "(case retry of None \<Rightarrow> False | Some d \<Rightarrow> i64_MAX_u64 < d) = False"
    and texts: "validate_text code ''provider error code'' MAX_ERROR_CODE_LEN = Inr ()"
      "validate_text message ''provider error message'' MAX_ERROR_MESSAGE_LEN = Inr ()"
    and throttled: "category = EThrottled \<Longrightarrow> retry \<noteq> None"
    and terminal: "category \<in> {EAuthentication, EAuthorization, EConflict, EValidation, ENotFound, EUnknownOutcome} \<Longrightarrow> retry = None"
    using e(2) by (auto simp: validate_provider_error_def and_then_eq_Inr split: if_splits)
  have texts': "validate_text code kind MAX_ERROR_CODE_LEN = Inr ()" "validate_text message kind MAX_ERROR_MESSAGE_LEN = Inr ()" for kind
    using texts by (auto simp: validate_text_def split: if_splits)
  have "validate_operation_error \<lparr>op_kind = operation_kind e, op_code = code, op_message = message, op_retry_after_ms = retry\<rparr> = Inr ()"
    using delay by (simp add: validate_operation_error_def texts')
  moreover have "operation_kind e = OpThrottled \<longrightarrow> retry \<noteq> None"
    using throttled unfolding e(1) operation_kind_def by (cases category) (auto split: if_splits)
  moreover have "retry \<noteq> None \<longrightarrow> operation_kind e = OpThrottled \<or> operation_kind e = OpTransient"
    using terminal unfolding e(1) operation_kind_def by (cases category) auto
  ultimately show ?thesis
    using e by (simp add: into_operation_error_def)
qed

theorem provider_error_normalised_witness:
  "\<exists>e op. provider_error_new EQuota ''q'' ''m'' (Some 5) None = Inr e \<and> into_operation_error e = Inr op
     \<and> (op_kind op = OpThrottled \<or> op_kind op = OpTransient)"
proof -
  have "list_all graphic ''q''" "list_all graphic ''m''"
    by (simp_all add: graphic_def byte_def)
  then have "validate_text ''q'' kind MAX_ERROR_CODE_LEN = Inr ()" "validate_text ''m'' kind MAX_ERROR_MESSAGE_LEN = Inr ()" for kind
    by (simp_all add: validate_text_def MAX_ERROR_CODE_LEN_def MAX_ERROR_MESSAGE_LEN_def string_simps
        del: has_control.simps list.pred_inject)
  then obtain e where e: "provider_error_new EQuota ''q'' ''m'' (Some 5) None = Inr e"
    by (simp add: provider_error_new_def validate_provider_error_def i64_MAX_u64_def)
  from provider_error_normalised [OF e] e show ?thesis by blast
qed

lemma account_text_trimmed: "validate_account_text v kind n False = Inr () \<Longrightarrow> trim v \<noteq> []"
  by (auto simp: validate_account_text_def split: if_splits)

lemma validate_desired_parts:
  assumes "validate_desired encoded_len d = Inr ()"
  shows "trim (des_display_name d) \<noteq> []" "validate_account_spec (des_spec d) = Inr ()"
  using assms account_text_trimmed
  by (auto simp: validate_desired_def and_then_eq_Inr split: if_splits)

lemma default_status_valid: "g \<noteq> 0 \<Longrightarrow> validate_status default_status g = Inr ()"
  by (simp add: validate_status_def default_status_def)

definition account_of :: "string \<Rightarrow> u64 \<Rightarrow> ProviderAccountDesired \<Rightarrow> ProviderAccount" where
  "account_of i g d =
     \<lparr>acc_metadata =
        \<lparr>md_id = i, md_display_name = des_display_name d, md_owner = des_owner d, md_labels = des_labels d,
         md_generation = g, md_management_policy = des_management_policy d, md_deletion_policy = des_deletion_policy d\<rparr>,
      acc_spec = des_spec d, acc_status = default_status\<rparr>"

lemma account_of_fields [simp]:
  "from_account (account_of i g d) = d" "acc_id (account_of i g d) = i"
  "md_generation (acc_metadata (account_of i g d)) = g" "acc_status (account_of i g d) = default_status"
  by (simp_all add: account_of_def from_account_def)

lemma account_of_stored:
  assumes "validate_resource_id i = Inr ()" "validate_desired encoded_len d = Inr ()" "g \<noteq> 0"
    "g \<le> MAX_PROVIDER_ACCOUNT_GENERATION"
  shows "validate_stored_provider_account encoded_len (account_of i g d) = Inr ()"
proof -
  have "acc_spec (account_of i g d) = des_spec d" "md_display_name (acc_metadata (account_of i g d)) = des_display_name d"
    by (simp_all add: account_of_def)
  then show ?thesis
    using assms validate_desired_parts [OF assms(2)] default_status_valid [OF assms(3)]
    by (simp add: validate_stored_provider_account_def validate_provider_account_def not_less [symmetric])
qed

text \<open>
  The constructor of a stored account is exact: it succeeds precisely for a valid id, a valid desired
  state and a generation within the persistence range (its final revalidation never fails), reading
  the desired state back gives what was stored, and the account passes the validation every reader
  applies.
\<close>

theorem provider_account_roundtrip:
  "((\<exists>a. provider_account_from_desired encoded_len i g d = Inr a) \<longleftrightarrow>
      validate_resource_id i = Inr () \<and> validate_desired encoded_len d = Inr () \<and> g \<noteq> 0 \<and> g \<le> MAX_PROVIDER_ACCOUNT_GENERATION)
   \<and> (\<forall>a. provider_account_from_desired encoded_len i g d = Inr a \<longrightarrow>
        from_account a = d \<and> acc_id a = i \<and> md_generation (acc_metadata a) = g \<and> acc_status a = default_status
        \<and> validate_stored_provider_account encoded_len a = Inr ())"
proof -
  have "provider_account_from_desired encoded_len i g d = Inr x \<longleftrightarrow>
      validate_resource_id i = Inr () \<and> validate_desired encoded_len d = Inr () \<and> g \<noteq> 0
      \<and> g \<le> MAX_PROVIDER_ACCOUNT_GENERATION \<and> x = account_of i g d" for x
    using account_of_stored unfolding provider_account_from_desired_def Let_def account_of_def [symmetric]
    by (auto simp: and_then_eq_Inr not_less)
  then show ?thesis using account_of_stored by auto
qed

definition example_desired :: ProviderAccountDesired where
  "example_desired =
     \<lparr>des_display_name = ''n'', des_owner = None, des_labels = [], des_management_policy = ObserveOnly,
      des_deletion_policy = Retain,
      des_spec = \<lparr>spec_provider = Aws, spec_scope = None, spec_credential_source = Ambient\<rparr>\<rparr>"

lemma example_desired_valid:
  "validate_desired (\<lambda>_. Some 0) example_desired = Inr ()"
  "validate_resource_id ''a'' = Inr ()" "validate_resource_id ''b'' = Inr ()"
proof -
  have "list_all graphic ''n''" "list_all graphic ''a''" "list_all graphic ''b''"
    by (simp_all add: graphic_def byte_def)
  then show "validate_desired (\<lambda>_. Some 0) example_desired = Inr ()" "validate_resource_id ''a'' = Inr ()"
    "validate_resource_id ''b'' = Inr ()"
    by (simp_all add: validate_desired_def example_desired_def validate_account_text_def MAX_LABELS_def
        validate_account_spec_def validate_resource_id_def cloud_identifier_new_def string_simps
        del: has_control.simps list.pred_inject)
qed

theorem provider_account_roundtrip_witness:
  "\<exists>a. provider_account_from_desired (\<lambda>_. Some 0) ''a'' 1 example_desired = Inr a \<and> from_account a = example_desired"
  using provider_account_roundtrip [of "\<lambda>_. Some 0" "''a''" 1 example_desired] example_desired_valid
  by (simp add: MAX_PROVIDER_ACCOUNT_GENERATION_def i64_MAX_u64_def) blast

text \<open>A traversal: each page answers a request that starts at the boundary of the page before it.\<close>

fun account_listing ::
  "(ProviderAccountDesired \<Rightarrow> nat option) \<Rightarrow> string option \<Rightarrow> (ProviderAccountPageRequest \<times> ProviderAccountPage) list \<Rightarrow> bool" where
  "account_listing encoded_len after [] = True"
| "account_listing encoded_len after ((request, p) # rest) =
     (apr_after request = after \<and> validate_account_page encoded_len p request = Inr ()
      \<and> (rest = [] \<or> ap_next p \<noteq> None \<and> account_listing encoded_len (ap_next p) rest))"

lemma validate_account_items_ordered:
  "validate_account_items encoded_len previous as = Inr () \<Longrightarrow>
     sorted_wrt (<) (map acc_id as) \<and> (\<forall>i. previous = Some i \<longrightarrow> (\<forall>a \<in> set as. i < acc_id a))"
proof (induction as arbitrary: previous)
  case (Cons a as)
  then have ih: "sorted_wrt (<) (map acc_id as)" "\<forall>x \<in> set as. acc_id a < acc_id x"
    and first: "\<forall>i. previous = Some i \<longrightarrow> i < acc_id a"
    by (auto simp: and_then_eq_Inr not_le split: if_splits option.splits)
  then show ?case by (auto intro: less_trans)
qed simp

lemma validate_account_page_ordered:
  assumes "validate_account_page encoded_len p request = Inr ()"
  shows "sorted_wrt (<) (map acc_id (ap_items p))"
    "apr_after request = Some i \<Longrightarrow> a \<in> set (ap_items p) \<Longrightarrow> i < acc_id a"
    "ap_next p = Some n \<Longrightarrow> ap_items p \<noteq> [] \<and> n = acc_id (last (ap_items p))"
proof -
  have items: "validate_account_items encoded_len (apr_after request) (ap_items p) = Inr ()"
    using assms by (auto simp: validate_account_page_def and_then_eq_Inr split: if_splits)
  from validate_account_items_ordered [OF this] show "sorted_wrt (<) (map acc_id (ap_items p))"
    "apr_after request = Some i \<Longrightarrow> a \<in> set (ap_items p) \<Longrightarrow> i < acc_id a" by auto
  show "ap_next p = Some n \<Longrightarrow> ap_items p \<noteq> [] \<and> n = acc_id (last (ap_items p))"
    using assms by (auto simp: validate_account_page_def and_then_eq_Inr split: if_splits)
qed

text \<open>
  Keyset pagination visits accounts in strictly increasing id order over all pages together, so no
  account is listed twice and none lies at or before the boundary the traversal started from.
\<close>

theorem account_listing_strictly_ordered:
  assumes "account_listing encoded_len after pages"
  shows "sorted_wrt (<) (map acc_id (concat (map (\<lambda>(_, p). ap_items p) pages)))
    \<and> (\<forall>i. after = Some i \<longrightarrow> (\<forall>a \<in> set (concat (map (\<lambda>(_, p). ap_items p) pages)). i < acc_id a))"
  using assms
proof (induction pages arbitrary: after)
  case (Cons rp pages)
  obtain request p where rp: "rp = (request, p)" by (cases rp)
  have page: "validate_account_page encoded_len p request = Inr ()" "apr_after request = after"
    using Cons.prems unfolding rp by auto
  note ordered = validate_account_page_ordered [OF page(1)]
  show ?case
  proof (cases "pages = []")
    case True
    then show ?thesis using ordered(1,2) page(2) unfolding rp by auto
  next
    case False
    then obtain n where n: "ap_next p = Some n" "account_listing encoded_len (Some n) pages"
      using Cons.prems unfolding rp by auto
    have ih: "sorted_wrt (<) (map acc_id (concat (map (\<lambda>(_, p). ap_items p) pages)))"
      "\<And>a. a \<in> set (concat (map (\<lambda>(_, p). ap_items p) pages)) \<Longrightarrow> n < acc_id a"
      using Cons.IH [OF n(2)] by auto
    have boundary: "acc_id a \<le> n" if "a \<in> set (ap_items p)" for a
      using ordered(1,3) n(1) that by (cases "ap_items p" rule: rev_cases) (auto simp: sorted_wrt_append)
    have "sorted_wrt (<) (map acc_id (ap_items p @ concat (map (\<lambda>(_, p). ap_items p) pages)))"
      unfolding map_append sorted_wrt_append
      using ordered(1) ih(1) le_less_trans [OF boundary ih(2)] by (auto simp del: set_concat)
    moreover have "i < acc_id a" if "after = Some i" "a \<in> set (ap_items p @ concat (map (\<lambda>(_, p). ap_items p) pages))" for i a
    proof (cases "a \<in> set (ap_items p)")
      case True
      then show ?thesis using ordered(2) page(2) that(1) by blast
    next
      case outer: False
      have "ap_items p \<noteq> []" using ordered(3) n(1) by blast
      then have "i < acc_id (last (ap_items p))" using ordered(2) page(2) that(1) last_in_set by blast
      also have "\<dots> \<le> n" using boundary last_in_set [OF \<open>ap_items p \<noteq> []\<close>] by blast
      also have "n < acc_id a" using ih(2) that(2) outer by auto
      finally show ?thesis .
    qed
    ultimately show ?thesis unfolding rp by simp
  qed
qed simp

definition example_listing :: "(ProviderAccountPageRequest \<times> ProviderAccountPage) list" where
  "example_listing =
     [(\<lparr>apr_limit = 1, apr_after = None\<rparr>, \<lparr>ap_items = [account_of ''a'' 1 example_desired], ap_next = Some ''a''\<rparr>),
      (\<lparr>apr_limit = 1, apr_after = Some ''a''\<rparr>, \<lparr>ap_items = [account_of ''b'' 1 example_desired], ap_next = None\<rparr>)]"

theorem account_listing_strictly_ordered_witness:
  "account_listing (\<lambda>_. Some 0) None example_listing
   \<and> sorted_wrt (<) (map acc_id (concat (map (\<lambda>(_, p). ap_items p) example_listing)))"
proof -
  have "validate_stored_provider_account (\<lambda>_. Some 0) (account_of ''a'' 1 example_desired) = Inr ()"
    "validate_stored_provider_account (\<lambda>_. Some 0) (account_of ''b'' 1 example_desired) = Inr ()"
    by (rule account_of_stored; simp add: example_desired_valid MAX_PROVIDER_ACCOUNT_GENERATION_def i64_MAX_u64_def)+
  moreover have "\<not> (''b'' :: string) \<le> ''a''" by code_simp
  ultimately have l: "account_listing (\<lambda>_. Some 0) None example_listing"
    by (simp add: example_listing_def validate_account_page_def validate_account_page_request_def
        MAX_PROVIDER_ACCOUNT_PAGE_SIZE_def example_desired_valid)
  from account_listing_strictly_ordered [OF l] l show ?thesis by blast
qed

end
