(* ===== verification/Zone_Lifecycle.thy ===== *)
theory Zone_Lifecycle
  imports Dns_Records Cloud_Resources
begin

text \<open>
  The managed-zone lifecycle contract: \<open>crates/center-core/src/cloud/zone_lifecycle.rs\<close>. A \<open>BTreeSet\<close> is a set. The provider port is a trait and has no
  model; observations are what a provider returns.
\<close>

section \<open>Observations\<close>

definition zone_revision_new :: "string \<Rightarrow> string \<Rightarrow> string CoreResult" where
  "zone_revision_new kind v =
     (if v = [] \<or> 1024 < length v \<or> trim v \<noteq> v \<or> has_control v then Inl (InvalidIdentifier kind v) else Inr v)"

datatype ZoneOrigin = Imported | CenterCreated

datatype DnssecDesiredState = DnssecOff | DnssecOn

record DnssecDsRecord =
  ds_key_tag :: "16 word"
  ds_algorithm :: "8 word"
  ds_digest_type :: "8 word"
  ds_digest :: string

definition validate_ds_record :: "DnssecDsRecord \<Rightarrow> unit CoreResult" where
  "validate_ds_record r =
     and_then
       (if ds_digest_type r = 1 then Inr 40
        else if ds_digest_type r = 2 then Inr 64
        else if ds_digest_type r = 4 then Inr 96
        else Inl (Conflict ''DNSSEC DS digest type is unsupported'')) (\<lambda>expected_digest_length :: nat.
       if length (ds_digest r) \<noteq> expected_digest_length \<or> \<not> list_all is_ascii_hexdigit (ds_digest r)
          \<or> list_ex is_ascii_lowercase (ds_digest r)
       then reject ''DNSSEC DS digest must be upper-case hexadecimal'' else Inr ())"

datatype DnssecProviderState =
  DnssecUnsupported | DnssecDisabled | Enabling | AwaitingDs | DnssecActive | Disabling | AwaitingDsRemoval
  | DnssecFailed | DnssecUnknown

datatype DnssecExternalAction =
    PublishDs "DnssecDsRecord list" | RemoveDs "16 word set" | WaitForProviderActivation | NoAction

record DnssecObservation =
  dnssec_state :: DnssecProviderState
  dnssec_ds_records :: "DnssecDsRecord list"
  dnssec_external_action :: DnssecExternalAction
  dnssec_provider_detail :: "string option"

definition dnssec_transition_for_intent :: "DnssecDesiredState \<Rightarrow> DnssecObservation \<Rightarrow> DnssecObservation" where
  "dnssec_transition_for_intent desired observed =
     (if desired = DnssecOff \<and> dnssec_state observed \<notin> {DnssecDisabled, DnssecUnsupported} then
        let key_tags = set (map ds_key_tag (dnssec_ds_records observed))
        in observed\<lparr>dnssec_state := AwaitingDsRemoval,
                    dnssec_external_action := (if key_tags = {} then WaitForProviderActivation else RemoveDs key_tags)\<rparr>
      else observed)"

datatype DelegationState = NotApplicable | DelegationNotChecked | Absent | Partial | Delegated | Mismatch | CheckFailed

record DelegationObservation =
  dlg_state :: DelegationState
  dlg_expected_nameservers :: "string set"
  dlg_parent_nameservers :: "string set"
  dlg_checked_at :: "string option"
  dlg_failure :: "string option"

datatype AuthoritativeDnsVerification = AuthNotChecked | AuthVerified string | AuthFailed string string

datatype ZoneReadiness = AwaitingAuthoritativeVerification | ZoneReady | VerificationFailed

fun evaluate_zone_readiness :: "AuthoritativeDnsVerification \<Rightarrow> ZoneReadiness" where
  "evaluate_zone_readiness AuthNotChecked = AwaitingAuthoritativeVerification"
| "evaluate_zone_readiness (AuthVerified _) = ZoneReady"
| "evaluate_zone_readiness (AuthFailed _ _) = VerificationFailed"

record ZoneLifecycleObservation =
  zlo_zone :: DnsZoneRef
  zlo_revision :: string
  zlo_nameservers :: "string set"
  zlo_delegation :: DelegationObservation
  zlo_verification :: AuthoritativeDnsVerification
  zlo_readiness :: ZoneReadiness
  zlo_dnssec :: DnssecObservation
  zlo_non_default_record_count :: u64

definition bad_timestamp :: "string \<Rightarrow> bool" where
  "bad_timestamp checked_at \<longleftrightarrow> checked_at = [] \<or> 128 < length checked_at \<or> has_control checked_at"

definition validate_delegation :: "ZoneLifecycleObservation \<Rightarrow> unit CoreResult" where
  "validate_delegation z =
     (case zone_visibility (zlo_zone z) of
        Public \<Rightarrow>
          if zlo_nameservers z = {} \<or> dlg_state (zlo_delegation z) = NotApplicable
             \<or> dlg_expected_nameservers (zlo_delegation z) \<noteq> zlo_nameservers z then
            reject ''public zone lifecycle has invalid delegation evidence''
          else if zlo_readiness z = ZoneReady
             \<and> (dlg_state (zlo_delegation z) \<noteq> Delegated \<or> dlg_parent_nameservers (zlo_delegation z) \<noteq> zlo_nameservers z) then
            reject ''public zone cannot be ready without exact parent delegation''
          else Inr ()
      | Private \<Rightarrow>
          if dlg_state (zlo_delegation z) \<noteq> NotApplicable \<or> dlg_parent_nameservers (zlo_delegation z) \<noteq> {} then
            reject ''private zone cannot claim parent delegation''
          else Inr ())"

definition validate_external_action :: "DnssecExternalAction \<Rightarrow> unit CoreResult" where
  "validate_external_action a =
     (case a of
        PublishDs records \<Rightarrow>
          if records = [] then reject ''DS publication action requires records''
          else for_each_ok validate_ds_record records
      | RemoveDs key_tags \<Rightarrow> if key_tags = {} then reject ''DS removal action requires key tags'' else Inr ()
      | _ \<Rightarrow> Inr ())"

definition validate_zone_observation :: "ZoneLifecycleObservation \<Rightarrow> unit CoreResult" where
  "validate_zone_observation z =
     and_then (validate_zone_ref (zlo_zone z)) (\<lambda>_.
       if zlo_readiness z \<noteq> evaluate_zone_readiness (zlo_verification z) then
         reject ''zone readiness lacks matching authoritative verification''
       else if (case zlo_verification z of
                  AuthVerified checked_at \<Rightarrow> bad_timestamp checked_at
                | AuthFailed checked_at _ \<Rightarrow> bad_timestamp checked_at
                | AuthNotChecked \<Rightarrow> False) then
         reject ''authoritative verification timestamp is invalid''
       else
         and_then (validate_delegation z) (\<lambda>_.
         and_then (for_each_ok validate_ds_record (dnssec_ds_records (zlo_dnssec z))) (\<lambda>_.
           validate_external_action (dnssec_external_action (zlo_dnssec z)))))"

section \<open>Deletion\<close>

datatype ZoneDeletionBlocker =
  BlockImportedZone | BlockObserveOnly | BlockRetainPolicy | BlockNonEmptyZone | BlockDelegatedZone | BlockDnssecEnabled

record ZoneDeletionPlan =
  plan_zone :: DnsZoneRef
  plan_observed_revision :: string
  plan_origin :: ZoneOrigin
  plan_management_policy :: ManagementPolicy
  plan_deletion_policy :: DeletionPolicy
  plan_non_default_record_count :: u64
  plan_delegation_state :: DelegationState
  plan_dnssec_state :: DnssecProviderState
  plan_blockers :: "ZoneDeletionBlocker set"

definition insert_if :: "bool \<Rightarrow> 'a \<Rightarrow> 'a set \<Rightarrow> 'a set" where
  "insert_if b x s = (if b then insert x s else s)"

text \<open>The six conditional insertions that \<open>from_observation\<close> and \<open>authorize_zone_deletion\<close> both make.\<close>

definition collect_blockers ::
  "ZoneOrigin \<Rightarrow> ManagementPolicy \<Rightarrow> DeletionPolicy \<Rightarrow> u64 \<Rightarrow> DelegationState \<Rightarrow> DnssecProviderState
     \<Rightarrow> ZoneDeletionBlocker set" where
  "collect_blockers origin management deletion count delegation dnssec =
     insert_if (dnssec \<notin> {DnssecDisabled, DnssecUnsupported}) BlockDnssecEnabled
    (insert_if (delegation \<notin> {Absent, NotApplicable}) BlockDelegatedZone
    (insert_if (count \<noteq> 0) BlockNonEmptyZone
    (insert_if (deletion \<noteq> DeleteExternal) BlockRetainPolicy
    (insert_if (management \<noteq> Managed) BlockObserveOnly
    (insert_if (origin = Imported) BlockImportedZone {})))))"

definition plan_from_observation ::
  "ZoneLifecycleObservation \<Rightarrow> ZoneOrigin \<Rightarrow> ManagementPolicy \<Rightarrow> DeletionPolicy \<Rightarrow> ZoneDeletionPlan" where
  "plan_from_observation z origin management deletion =
     \<lparr>plan_zone = zlo_zone z, plan_observed_revision = zlo_revision z, plan_origin = origin,
      plan_management_policy = management, plan_deletion_policy = deletion,
      plan_non_default_record_count = zlo_non_default_record_count z,
      plan_delegation_state = dlg_state (zlo_delegation z), plan_dnssec_state = dnssec_state (zlo_dnssec z),
      plan_blockers =
        collect_blockers origin management deletion (zlo_non_default_record_count z)
          (dlg_state (zlo_delegation z)) (dnssec_state (zlo_dnssec z))\<rparr>"

datatype ZoneDeletionAcknowledgement = AckNonEmptyZone | AckDelegatedZone | AckDnssecEnabled

record ZoneDeletionApproval =
  approved_revision :: string
  approved_zone :: DnsZoneRef
  approved_by :: string
  approved_at :: string
  acknowledgements :: "ZoneDeletionAcknowledgement set"

record ZoneDeletionRequest =
  zdr_zone :: DnsZoneRef
  zdr_revision :: string
  zdr_approval :: ZoneDeletionApproval

definition authorize_zone_deletion :: "ZoneDeletionPlan \<Rightarrow> ZoneDeletionApproval \<Rightarrow> ZoneDeletionRequest CoreResult" where
  "authorize_zone_deletion plan approval =
     (if approved_revision approval \<noteq> plan_observed_revision plan then
        Inl (Conflict ''zone deletion approval is stale'')
      else if approved_zone approval \<noteq> plan_zone plan then
        Inl (Conflict ''zone deletion approval is bound to another zone'')
      else if trim (approved_by approval) = [] \<or> trim (approved_at approval) = [] then
        Inl (Conflict ''zone deletion approval is incomplete'')
      else if plan_blockers plan \<noteq>
              collect_blockers (plan_origin plan) (plan_management_policy plan) (plan_deletion_policy plan)
                (plan_non_default_record_count plan) (plan_delegation_state plan) (plan_dnssec_state plan) then
        Inl (Conflict ''zone deletion plan blockers do not match its observation'')
      else if plan_blockers plan \<noteq> {} then
        Inl (Conflict ''zone deletion preconditions are not satisfied'')
      else
        Inr \<lparr>zdr_zone = plan_zone plan, zdr_revision = plan_observed_revision plan, zdr_approval = approval\<rparr>)"

section \<open>Properties\<close>

lemma insert_if_empty [simp]: "insert_if b x s = {} \<longleftrightarrow> \<not> b \<and> s = {}"
  by (simp add: insert_if_def)

lemma no_blockers:
  "collect_blockers origin management deletion count delegation dnssec = {} \<longleftrightarrow>
     origin = CenterCreated \<and> management = Managed \<and> deletion = DeleteExternal \<and> count = 0
     \<and> delegation \<in> {Absent, NotApplicable} \<and> dnssec \<in> {DnssecDisabled, DnssecUnsupported}"
  by (cases origin; cases management; cases deletion) (auto simp: collect_blockers_def)

lemma authorize_ok:
  "authorize_zone_deletion plan approval = Inr req \<longleftrightarrow>
     approved_revision approval = plan_observed_revision plan \<and> approved_zone approval = plan_zone plan
     \<and> trim (approved_by approval) \<noteq> [] \<and> trim (approved_at approval) \<noteq> []
     \<and> plan_blockers plan = {} \<and> plan_origin plan = CenterCreated \<and> plan_management_policy plan = Managed
     \<and> plan_deletion_policy plan = DeleteExternal \<and> plan_non_default_record_count plan = 0
     \<and> plan_delegation_state plan \<in> {Absent, NotApplicable}
     \<and> plan_dnssec_state plan \<in> {DnssecDisabled, DnssecUnsupported}
     \<and> req = \<lparr>zdr_zone = plan_zone plan, zdr_revision = plan_observed_revision plan, zdr_approval = approval\<rparr>"
proof -
  let ?B = "collect_blockers (plan_origin plan) (plan_management_policy plan) (plan_deletion_policy plan)
      (plan_non_default_record_count plan) (plan_delegation_state plan) (plan_dnssec_state plan)"
  have "authorize_zone_deletion plan approval = Inr req \<longleftrightarrow>
      approved_revision approval = plan_observed_revision plan \<and> approved_zone approval = plan_zone plan
      \<and> trim (approved_by approval) \<noteq> [] \<and> trim (approved_at approval) \<noteq> []
      \<and> plan_blockers plan = {} \<and> ?B = {}
      \<and> req = \<lparr>zdr_zone = plan_zone plan, zdr_revision = plan_observed_revision plan, zdr_approval = approval\<rparr>"
    unfolding authorize_zone_deletion_def
    by (cases "approved_revision approval = plan_observed_revision plan"; cases "approved_zone approval = plan_zone plan";
        cases "plan_blockers plan = {}"; cases "?B = {}") auto
  then show ?thesis unfolding no_blockers by blast
qed

text \<open>
  C28: A deletion request for an observed zone comes into being exactly when the zone was created by the
  Center, is managed with external deletion, holds no own record, is observed absent from its parent
  (a failed or missing check is not enough), has DNSSEC off or unsupported, and a named approver
  signed this zone at this revision. Acknowledgements make no difference, and for a validated public
  observation \<open>NotApplicable\<close> is ruled out.
\<close>

theorem zone_deletion_authorised_iff:
  "(\<exists>req. authorize_zone_deletion (plan_from_observation z origin management deletion) approval = Inr req) \<longleftrightarrow>
     origin = CenterCreated \<and> management = Managed \<and> deletion = DeleteExternal
     \<and> zlo_non_default_record_count z = 0
     \<and> dlg_state (zlo_delegation z) \<in> {Absent, NotApplicable}
     \<and> dnssec_state (zlo_dnssec z) \<in> {DnssecDisabled, DnssecUnsupported}
     \<and> approved_zone approval = zlo_zone z \<and> approved_revision approval = zlo_revision z
     \<and> trim (approved_by approval) \<noteq> [] \<and> trim (approved_at approval) \<noteq> []"
  unfolding authorize_ok plan_from_observation_def
  using no_blockers [of origin management deletion "zlo_non_default_record_count z"
      "dlg_state (zlo_delegation z)" "dnssec_state (zlo_dnssec z)"]
  by auto

text \<open>
  No plan, however it was stored or edited, yields a deletion capability for a zone with records,
  delegation or DNSSEC: the recorded blockers are recomputed from the plan's own evidence. Clearing
  the blockers of a plan by hand is refused.
\<close>

theorem edited_plan_refused:
  "authorize_zone_deletion (plan\<lparr>plan_blockers := {}\<rparr>) approval = Inr req \<longleftrightarrow>
     collect_blockers (plan_origin plan) (plan_management_policy plan) (plan_deletion_policy plan)
       (plan_non_default_record_count plan) (plan_delegation_state plan) (plan_dnssec_state plan) = {}
     \<and> approved_revision approval = plan_observed_revision plan \<and> approved_zone approval = plan_zone plan
     \<and> trim (approved_by approval) \<noteq> [] \<and> trim (approved_at approval) \<noteq> []
     \<and> req = \<lparr>zdr_zone = plan_zone plan, zdr_revision = plan_observed_revision plan, zdr_approval = approval\<rparr>"
  unfolding authorize_ok no_blockers by auto

text \<open>
  Readiness needs evidence: a validated observation is ready exactly when the authoritative servers
  were verified, and then a public zone has name servers and its parent delegates to exactly these,
  while a private zone claims no parent at all.
\<close>

theorem ready_zone_has_evidence:
  assumes "validate_zone_observation z = Inr ()" and "zlo_readiness z = ZoneReady"
  shows "(\<exists>checked_at. zlo_verification z = AuthVerified checked_at \<and> \<not> bad_timestamp checked_at)
    \<and> (zone_visibility (zlo_zone z) = Public \<longrightarrow>
         zlo_nameservers z \<noteq> {} \<and> dlg_state (zlo_delegation z) = Delegated
         \<and> dlg_parent_nameservers (zlo_delegation z) = zlo_nameservers z
         \<and> dlg_expected_nameservers (zlo_delegation z) = zlo_nameservers z)
    \<and> (zone_visibility (zlo_zone z) = Private \<longrightarrow>
         dlg_state (zlo_delegation z) = NotApplicable \<and> dlg_parent_nameservers (zlo_delegation z) = {})"
proof -
  have v: "zlo_readiness z = evaluate_zone_readiness (zlo_verification z)" "validate_delegation z = Inr ()"
    using assms(1) by (auto simp: validate_zone_observation_def and_then_eq_Inr split: if_splits)
  then obtain t where t: "zlo_verification z = AuthVerified t"
    using assms(2) by (cases "zlo_verification z") auto
  then have "\<not> bad_timestamp t"
    using assms(1) by (auto simp: validate_zone_observation_def and_then_eq_Inr split: if_splits)
  then show ?thesis
    using t v(2) assms(2) unfolding validate_delegation_def by (cases "zone_visibility (zlo_zone z)") (auto split: if_splits)
qed

definition example_observation :: ZoneLifecycleObservation where
  "example_observation =
     \<lparr>zlo_zone = example_zone, zlo_revision = ''r1'', zlo_nameservers = {''ns.io''},
      zlo_delegation = \<lparr>dlg_state = Delegated, dlg_expected_nameservers = {''ns.io''},
        dlg_parent_nameservers = {''ns.io''}, dlg_checked_at = None, dlg_failure = None\<rparr>,
      zlo_verification = AuthVerified ''t'', zlo_readiness = ZoneReady,
      zlo_dnssec = \<lparr>dnssec_state = DnssecDisabled, dnssec_ds_records = [], dnssec_external_action = NoAction,
        dnssec_provider_detail = None\<rparr>,
      zlo_non_default_record_count = 0\<rparr>"

theorem ready_zone_has_evidence_witness:
  "validate_zone_observation example_observation = Inr ()
   \<and> (\<exists>checked_at. zlo_verification example_observation = AuthVerified checked_at \<and> \<not> bad_timestamp checked_at)"
proof -
  have zone: "validate_zone_ref example_zone = Inr ()"
    by (simp add: validate_zone_ref_def example_zone_def example_texts)
  have ok: "validate_zone_observation example_observation = Inr ()"
    by (simp add: validate_zone_observation_def example_observation_def zone validate_delegation_def
        validate_external_action_def bad_timestamp_def byte_def, simp add: example_zone_def)
  have "zlo_readiness example_observation = ZoneReady"
    by (simp add: example_observation_def)
  from ready_zone_has_evidence [OF ok this] ok show ?thesis by blast
qed

text \<open>
  Turning DNSSEC off never shortens the way: whatever the provider reports, the reinterpreted state
  still blocks the deletion of the zone unless the provider itself reports it disabled or
  unsupported; the key tags to remove at the parent are exactly those of the observed DS records;
  and reinterpreting again changes nothing.
\<close>

theorem dnssec_shutdown_is_observed:
  "(BlockDnssecEnabled \<in>
      plan_blockers (plan_from_observation
        (z\<lparr>zlo_dnssec := dnssec_transition_for_intent DnssecOff (zlo_dnssec z)\<rparr>) origin management deletion)
    \<longleftrightarrow> dnssec_state (zlo_dnssec z) \<notin> {DnssecDisabled, DnssecUnsupported})
   \<and> (\<forall>tags. dnssec_external_action (dnssec_transition_for_intent DnssecOff d) = RemoveDs tags \<longleftrightarrow>
        (if dnssec_state d \<in> {DnssecDisabled, DnssecUnsupported} then dnssec_external_action d = RemoveDs tags
         else tags = ds_key_tag ` set (dnssec_ds_records d) \<and> tags \<noteq> {}))
   \<and> dnssec_transition_for_intent DnssecOff (dnssec_transition_for_intent DnssecOff d) =
       dnssec_transition_for_intent DnssecOff d"
  by (auto simp: plan_from_observation_def collect_blockers_def insert_if_def dnssec_transition_for_intent_def Let_def)

end
