(* ===== verification/Capabilities.thy ===== *)
theory Capabilities
  imports Cloud_Resources Json_Value
begin

text \<open>
  Capability discovery and its fail-closed evaluation: \<open>crates/center-core/src/cloud/capabilities.rs\<close>.
  The length of the JSON encoding of a snapshot (\<open>serde_json::to_vec\<close>, \<open>None\<close> for its error) and the
  JSON parser are arguments.
\<close>

section \<open>Observations\<close>

definition CAPABILITY_CONTRACT_VERSION :: "16 word" where "CAPABILITY_CONTRACT_VERSION = 1"

definition MAX_REGION_LEN :: nat where "MAX_REGION_LEN = 128"
definition MAX_REVISION_LEN :: nat where "MAX_REVISION_LEN = 512"
definition MAX_DISCOVERY_TOKEN_LEN :: nat where "MAX_DISCOVERY_TOKEN_LEN = 512"
definition MAX_EXTERNAL_ID_LEN :: nat where "MAX_EXTERNAL_ID_LEN = 1024"
definition MAX_DIAGNOSTIC_CODE_LEN :: nat where "MAX_DIAGNOSTIC_CODE_LEN = 128"
definition MAX_DIAGNOSTIC_MESSAGE_LEN :: nat where "MAX_DIAGNOSTIC_MESSAGE_LEN = 2048"
definition MAX_CAPABILITIES_PER_REPORT :: nat where "MAX_CAPABILITIES_PER_REPORT = 256"
definition MAX_ISSUES_PER_REPORT :: nat where "MAX_ISSUES_PER_REPORT = 128"
definition MAX_SNAPSHOT_SERIALIZED_BYTES :: nat where "MAX_SNAPSHOT_SERIALIZED_BYTES = 512 * 1024"

text \<open>\<open>validate_bounded_text\<close> is the \<open>validate_text\<close> of the DNS contract.\<close>

abbreviation validate_bounded_text :: "string \<Rightarrow> string \<Rightarrow> nat \<Rightarrow> unit CoreResult" where
  "validate_bounded_text \<equiv> validate_text"

definition validate_optional_bounded_text :: "string option \<Rightarrow> string \<Rightarrow> nat \<Rightarrow> unit CoreResult" where
  "validate_optional_bounded_text v kind max_len =
     (case v of None \<Rightarrow> Inr () | Some t \<Rightarrow> validate_bounded_text t kind max_len)"

datatype DnsCapability =
  PublicZones | PrivateZones | RecordSets | Dnssec | ApexAlias | ProxiedRecords | WeightedRouting
  | GeolocationRouting | FailoverRouting | AtomicChanges

datatype ProviderCapability = DnsCap DnsCapability

fun contains_retired_capability_family :: "json \<Rightarrow> bool" where
  "contains_retired_capability_family (JObject m) \<longleftrightarrow>
     (case Option.bind (map_of m ''family'') as_str of
        None \<Rightarrow> False
      | Some f \<Rightarrow> f \<in> {''certificate'', ''edge'', ''health_check'', ''cache'', ''waf''})
     \<or> list_ex (\<lambda>p. contains_retired_capability_family (snd p)) m"
| "contains_retired_capability_family (JArray vs) \<longleftrightarrow> list_ex contains_retired_capability_family vs"
| "contains_retired_capability_family _ \<longleftrightarrow> False"

definition is_retired_capability_snapshot_json :: "(string \<Rightarrow> json option) \<Rightarrow> string \<Rightarrow> bool" where
  "is_retired_capability_snapshot_json parse v =
     (case parse v of None \<Rightarrow> False | Some j \<Rightarrow> contains_retired_capability_family j)"

datatype CapabilityAction = ActObserve | ActCreate | ActUpdate | ActDelete | ActExecute

definition ALL_ACTIONS :: "CapabilityAction list" where
  "ALL_ACTIONS = [ActObserve, ActCreate, ActUpdate, ActDelete, ActExecute]"

record CapabilityRequirement =
  rq_capability :: ProviderCapability
  rq_action :: CapabilityAction

datatype CapabilityScope = ScopeAccount | ScopeRegion string | ScopeResource CloudResourceKind ProviderResourceRef

fun validate_for_account :: "CapabilityScope \<Rightarrow> string \<Rightarrow> unit CoreResult" where
  "validate_for_account ScopeAccount account = Inr ()"
| "validate_for_account (ScopeRegion region) account = validate_bounded_text region ''provider region'' MAX_REGION_LEN"
| "validate_for_account (ScopeResource _ resource) account =
     and_then (validate_resource_id (pr_provider_account_id resource)) (\<lambda>_.
     and_then (validate_bounded_text (pr_external_id resource) ''provider external resource'' MAX_EXTERNAL_ID_LEN) (\<lambda>_.
       if pr_provider_account_id resource \<noteq> account then
         Inl (Conflict ''capability resource scope belongs to a different provider account'') else Inr ()))"

datatype CapabilityDimension = AdapterSupport | ProviderSupport | Entitlement | Access | Location | Quota

definition ACTION_INDEPENDENT :: "CapabilityDimension list" where
  "ACTION_INDEPENDENT = [AdapterSupport, ProviderSupport, Entitlement, Location]"

datatype TriState = Affirmative | Negative | TriUnknown | TriNotApplicable

datatype CapabilityReason =
  AdapterNotImplemented | ProviderUnsupported | NotEntitled | AuthenticationFailed | DiscoveryPermissionDenied
  | BusinessPermissionDenied | LocationUnavailable | QuotaExhausted | NotDiscovered | ProbeFailed
  | ProviderUnavailable | InvalidProviderResponse

datatype CapabilityEvidence = AdapterContract | ProviderMetadata | ProviderProbe | PermissionProbe | QuotaProbe

record CapabilityDimensionObservation =
  do_dimension :: CapabilityDimension
  do_action :: "CapabilityAction option"
  do_state :: TriState
  do_reason :: "CapabilityReason option"
  do_evidence :: CapabilityEvidence
  do_code :: "string option"
  do_message :: "string option"
  do_observed_at :: int
  do_valid_until :: int

definition reason_matches_dimension :: "CapabilityDimension \<Rightarrow> TriState \<Rightarrow> CapabilityReason option \<Rightarrow> bool" where
  "reason_matches_dimension dimension state reason =
     (case state of
        Affirmative \<Rightarrow> reason = None
      | TriNotApplicable \<Rightarrow> reason = None
      | Negative \<Rightarrow>
          (dimension, reason) \<in>
            {(AdapterSupport, Some AdapterNotImplemented), (ProviderSupport, Some ProviderUnsupported),
             (Entitlement, Some NotEntitled), (Access, Some BusinessPermissionDenied),
             (Location, Some LocationUnavailable), (Quota, Some QuotaExhausted)}
      | TriUnknown \<Rightarrow>
          reason \<in> {Some NotDiscovered, Some ProbeFailed, Some ProviderUnavailable, Some InvalidProviderResponse,
                    Some AuthenticationFailed, Some DiscoveryPermissionDenied})"

fun evidence_matches_dimension :: "CapabilityDimension \<Rightarrow> CapabilityEvidence \<Rightarrow> bool" where
  "evidence_matches_dimension AdapterSupport evidence = (evidence = AdapterContract)"
| "evidence_matches_dimension ProviderSupport evidence =
     (evidence \<in> {AdapterContract, ProviderMetadata, ProviderProbe})"
| "evidence_matches_dimension Entitlement evidence = (evidence \<in> {ProviderMetadata, ProviderProbe})"
| "evidence_matches_dimension Location evidence = (evidence \<in> {ProviderMetadata, ProviderProbe})"
| "evidence_matches_dimension Access evidence = (evidence = PermissionProbe)"
| "evidence_matches_dimension Quota evidence = (evidence \<in> {QuotaProbe, ProviderMetadata})"

definition issue_reason_matches_dimension :: "CapabilityReason \<Rightarrow> CapabilityDimension \<Rightarrow> bool" where
  "issue_reason_matches_dimension reason dimension =
     (case reason of
        AdapterNotImplemented \<Rightarrow> dimension = AdapterSupport
      | ProviderUnsupported \<Rightarrow> dimension = ProviderSupport
      | NotEntitled \<Rightarrow> dimension = Entitlement
      | BusinessPermissionDenied \<Rightarrow> dimension = Access
      | DiscoveryPermissionDenied \<Rightarrow> dimension = Access
      | LocationUnavailable \<Rightarrow> dimension = Location
      | QuotaExhausted \<Rightarrow> dimension = Quota
      | AuthenticationFailed \<Rightarrow> False
      | NotDiscovered \<Rightarrow> True
      | ProbeFailed \<Rightarrow> True
      | ProviderUnavailable \<Rightarrow> True
      | InvalidProviderResponse \<Rightarrow> True)"

definition validate_code :: "string \<Rightarrow> unit CoreResult" where
  "validate_code v = validate_bounded_text v ''capability diagnostic code'' MAX_DIAGNOSTIC_CODE_LEN"

definition validate_message :: "string \<Rightarrow> unit CoreResult" where
  "validate_message v = validate_bounded_text v ''capability diagnostic message'' MAX_DIAGNOSTIC_MESSAGE_LEN"

definition validate_dimension_observation :: "CapabilityDimensionObservation \<Rightarrow> unit CoreResult" where
  "validate_dimension_observation v =
     (if do_observed_at v \<le> 0 \<or> do_valid_until v \<le> do_observed_at v then
        Inl (Conflict ''capability observation freshness window is invalid'')
      else if do_state v \<in> {Affirmative, TriNotApplicable} \<and> do_reason v \<noteq> None then
        Inl (Conflict ''affirmative capability observation must not contain a failure reason'')
      else if do_state v \<in> {Negative, TriUnknown} \<and> do_reason v = None then
        Inl (Conflict ''non-affirmative capability observation requires a stable reason'')
      else if \<not> reason_matches_dimension (do_dimension v) (do_state v) (do_reason v) then
        Inl (Conflict ''capability reason does not match its dimension and state'')
      else if (do_dimension v \<in> {Access, Quota}) \<noteq> (do_action v \<noteq> None)
           \<or> (do_state v = TriNotApplicable \<and> do_dimension v \<noteq> Quota) then
        Inl (Conflict ''capability action or applicability is invalid for its dimension'')
      else if \<not> evidence_matches_dimension (do_dimension v) (do_evidence v) then
        Inl (Conflict ''capability evidence is invalid for its dimension'')
      else
        and_then (case do_code v of None \<Rightarrow> Inr () | Some c \<Rightarrow> validate_code c) (\<lambda>_.
          case do_message v of None \<Rightarrow> Inr () | Some m \<Rightarrow> validate_message m))"

definition is_fresh_at :: "CapabilityDimensionObservation \<Rightarrow> int \<Rightarrow> bool" where
  "is_fresh_at v now \<longleftrightarrow> do_observed_at v \<le> now \<and> now < do_valid_until v"

record CapabilityObservation =
  co_capability :: ProviderCapability
  co_dimensions :: "CapabilityDimensionObservation list"

text \<open>A loop that validates each item and inserts its key into a fresh set.\<close>

fun validate_distinct :: "('a \<Rightarrow> unit CoreResult) \<Rightarrow> ('a \<Rightarrow> 'k) \<Rightarrow> string \<Rightarrow> 'k list \<Rightarrow> 'a list \<Rightarrow> unit CoreResult" where
  "validate_distinct check key message seen [] = Inr ()"
| "validate_distinct check key message seen (x # xs) =
     and_then (check x) (\<lambda>_.
       if key x \<in> set seen then Inl (Conflict message)
       else validate_distinct check key message (key x # seen) xs)"

definition validate_observation :: "CapabilityObservation \<Rightarrow> unit CoreResult" where
  "validate_observation ob =
     (if length ACTION_INDEPENDENT + length ALL_ACTIONS * 2 < length (co_dimensions ob) then
        Inl (Conflict ''capability observation has too many dimensions'')
      else validate_distinct validate_dimension_observation (\<lambda>v. (do_dimension v, do_action v))
             ''capability observation contains duplicate dimensions'' [] (co_dimensions ob))"

datatype CapabilityDiscoveryState = Complete | PartialDiscovery | DiscoveryFailedState

datatype CapabilityIssueSeverity = Warning | Blocking

datatype CapabilityIssueScope =
    IssueAccount
  | IssueRequirement CapabilityRequirement
  | IssueDimension CapabilityRequirement CapabilityDimension

record CapabilityDiscoveryIssue =
  is_severity :: CapabilityIssueSeverity
  is_scope :: CapabilityIssueScope
  is_reason :: CapabilityReason
  is_code :: string
  is_message :: string

definition validate_issue :: "CapabilityDiscoveryIssue \<Rightarrow> unit CoreResult" where
  "validate_issue i =
     and_then (validate_code (is_code i)) (\<lambda>_.
     and_then (validate_message (is_message i)) (\<lambda>_.
       if \<not> (case is_reason i of
               AuthenticationFailed \<Rightarrow> is_severity i = Blocking \<and> is_scope i = IssueAccount
             | BusinessPermissionDenied \<Rightarrow> is_severity i = Blocking \<and> is_scope i \<noteq> IssueAccount
             | _ \<Rightarrow> True) then
         Inl (Conflict ''capability issue severity or scope is invalid for its reason'')
       else
         (case is_scope i of
            IssueDimension _ dimension \<Rightarrow>
              if \<not> issue_reason_matches_dimension (is_reason i) dimension then
                Inl (Conflict ''capability issue reason does not match its dimension'') else Inr ()
          | _ \<Rightarrow> Inr ())))"

section \<open>Requests, reports and snapshots\<close>

record CapabilityDiscoveryFence =
  cf_provider_account_generation :: u64
  cf_credential_revision :: "string option"
  cf_discovery_epoch :: u64
  cf_discovery_token :: string

definition validate_fence :: "CapabilityDiscoveryFence \<Rightarrow> unit CoreResult" where
  "validate_fence f =
     (if cf_provider_account_generation f = 0 \<or> i64_MAX_u64 < cf_provider_account_generation f
         \<or> cf_discovery_epoch f = 0 \<or> i64_MAX_u64 < cf_discovery_epoch f then
        Inl (Conflict ''capability discovery fence is invalid'')
      else
        and_then (validate_optional_bounded_text (cf_credential_revision f) ''credential revision'' MAX_REVISION_LEN) (\<lambda>_.
          validate_bounded_text (cf_discovery_token f) ''capability discovery token'' MAX_DISCOVERY_TOKEN_LEN))"

record CapabilityDiscoveryRequest =
  cq_provider_account_id :: string
  cq_fence :: CapabilityDiscoveryFence
  cq_account :: ProviderAccountSpec
  cq_scope :: CapabilityScope

definition validate_request :: "CapabilityDiscoveryRequest \<Rightarrow> unit CoreResult" where
  "validate_request r =
     and_then (validate_resource_id (cq_provider_account_id r)) (\<lambda>_.
     and_then (validate_fence (cq_fence r)) (\<lambda>_.
     and_then (validate_account_spec (cq_account r)) (\<lambda>_.
       validate_for_account (cq_scope r) (cq_provider_account_id r))))"

record CapabilityDiscoveryReport =
  rp_state :: CapabilityDiscoveryState
  rp_observations :: "CapabilityObservation list"
  rp_issues :: "CapabilityDiscoveryIssue list"

definition validate_observations_and_issues ::
  "CapabilityObservation list \<Rightarrow> CapabilityDiscoveryIssue list \<Rightarrow> unit CoreResult" where
  "validate_observations_and_issues observations issues =
     (if MAX_CAPABILITIES_PER_REPORT < length observations \<or> MAX_ISSUES_PER_REPORT < length issues then
        Inl (Conflict ''capability discovery result exceeds its size limit'')
      else
        and_then (validate_distinct validate_observation co_capability
                    ''capability discovery result contains duplicate capabilities'' [] observations) (\<lambda>_.
          for_each_ok validate_issue issues))"

definition check_issues :: "string \<Rightarrow> string \<Rightarrow> CapabilityDiscoveryState \<Rightarrow> CapabilityDiscoveryIssue list \<Rightarrow> unit CoreResult" where
  "check_issues complete failed state issues =
     (if state = Complete \<and> issues \<noteq> [] then Inl (Conflict complete)
      else if state = DiscoveryFailedState \<and> issues = [] then Inl (Conflict failed)
      else Inr ())"

definition validate_report :: "CapabilityDiscoveryReport \<Rightarrow> unit CoreResult" where
  "validate_report r =
     and_then (validate_observations_and_issues (rp_observations r) (rp_issues r)) (\<lambda>_.
       check_issues ''complete capability discovery cannot contain issues''
         ''failed capability discovery requires an issue'' (rp_state r) (rp_issues r))"

record ProviderCapabilitySnapshot =
  sn_contract_version :: "16 word"
  sn_provider_account_id :: string
  sn_provider :: CloudProvider
  sn_fence :: CapabilityDiscoveryFence
  sn_scope :: CapabilityScope
  sn_state :: CapabilityDiscoveryState
  sn_discovered_at :: int
  sn_observations :: "CapabilityObservation list"
  sn_issues :: "CapabilityDiscoveryIssue list"

definition validate_snapshot :: "(ProviderCapabilitySnapshot \<Rightarrow> nat option) \<Rightarrow> ProviderCapabilitySnapshot \<Rightarrow> unit CoreResult" where
  "validate_snapshot encoded_len s =
     (if sn_contract_version s \<noteq> CAPABILITY_CONTRACT_VERSION \<or> sn_discovered_at s \<le> 0 then
        Inl (Conflict ''provider capability snapshot metadata is invalid'')
      else
        and_then (validate_resource_id (sn_provider_account_id s)) (\<lambda>_.
        and_then (validate_fence (sn_fence s)) (\<lambda>_.
        and_then (validate_for_account (sn_scope s) (sn_provider_account_id s)) (\<lambda>_.
        and_then (validate_observations_and_issues (sn_observations s) (sn_issues s)) (\<lambda>_.
        and_then (check_issues ''complete capability snapshot cannot contain issues''
                    ''failed capability snapshot requires an issue'' (sn_state s) (sn_issues s)) (\<lambda>_.
          case encoded_len s of
            None \<Rightarrow> Inl (Conflict ''capability snapshot cannot be serialized'')
          | Some n \<Rightarrow>
              if MAX_SNAPSHOT_SERIALIZED_BYTES < n then
                Inl (Conflict ''provider capability snapshot exceeds its serialized size limit'') else Inr ()))))))"

definition snapshot_from_report ::
  "(ProviderCapabilitySnapshot \<Rightarrow> nat option) \<Rightarrow> CapabilityDiscoveryRequest \<Rightarrow> int \<Rightarrow> CapabilityDiscoveryReport
     \<Rightarrow> ProviderCapabilitySnapshot CoreResult" where
  "snapshot_from_report encoded_len request discovered_at report =
     and_then (validate_request request) (\<lambda>_.
     and_then (validate_report report) (\<lambda>_.
       let snapshot =
         \<lparr>sn_contract_version = CAPABILITY_CONTRACT_VERSION, sn_provider_account_id = cq_provider_account_id request,
          sn_provider = spec_provider (cq_account request), sn_fence = cq_fence request, sn_scope = cq_scope request,
          sn_state = rp_state report, sn_discovered_at = discovered_at, sn_observations = rp_observations report,
          sn_issues = rp_issues report\<rparr>
       in and_then (validate_snapshot encoded_len snapshot) (\<lambda>_. Inr snapshot)))"

section \<open>Evaluation\<close>

record CapabilityEvaluationContext =
  cx_now :: int
  cx_provider_account_id :: string
  cx_provider :: CloudProvider
  cx_provider_account_generation :: u64
  cx_credential_revision :: "string option"
  cx_scope :: CapabilityScope

datatype CapabilityDecisionOutcome = Allowed | Denied | Indeterminate

datatype CapabilityGateReason =
  SnapshotInvalid | ProviderAccountMismatch | ProviderMismatch | AccountGenerationMismatch
  | CredentialRevisionMismatch | ScopeMismatch | DiscoveryFailed | BlockingDiscoveryIssue
  | CapabilityNotReported | DimensionNotReported | ObservationStale | DimensionNegative | DimensionUnknown

record CapabilityGateBlocker =
  gb_dimension :: "CapabilityDimension option"
  gb_reason :: CapabilityGateReason
  gb_diagnostic_reason :: "CapabilityReason option"
  gb_code :: "string option"
  gb_message :: "string option"

record CapabilityDecision =
  cd_requirement :: CapabilityRequirement
  cd_outcome :: CapabilityDecisionOutcome
  cd_blockers :: "CapabilityGateBlocker list"

definition indeterminate ::
  "CapabilityRequirement \<Rightarrow> CapabilityGateReason \<Rightarrow> CapabilityDimension option \<Rightarrow> CapabilityDecision" where
  "indeterminate requirement reason dimension =
     \<lparr>cd_requirement = requirement, cd_outcome = Indeterminate,
      cd_blockers = [\<lparr>gb_dimension = dimension, gb_reason = reason, gb_diagnostic_reason = None, gb_code = None,
                      gb_message = None\<rparr>]\<rparr>"

definition snapshot_reason ::
  "(ProviderCapabilitySnapshot \<Rightarrow> nat option) \<Rightarrow> ProviderCapabilitySnapshot \<Rightarrow> CapabilityEvaluationContext
     \<Rightarrow> CapabilityGateReason option" where
  "snapshot_reason encoded_len s cx =
     (if \<not> is_ok (validate_snapshot encoded_len s) then Some SnapshotInvalid
      else if sn_provider_account_id s \<noteq> cx_provider_account_id cx then Some ProviderAccountMismatch
      else if sn_provider s \<noteq> cx_provider cx then Some ProviderMismatch
      else if cf_provider_account_generation (sn_fence s) \<noteq> cx_provider_account_generation cx then
        Some AccountGenerationMismatch
      else if cf_credential_revision (sn_fence s) \<noteq> cx_credential_revision cx then Some CredentialRevisionMismatch
      else if sn_scope s \<noteq> cx_scope cx then Some ScopeMismatch
      else if sn_state s = DiscoveryFailedState then Some DiscoveryFailed
      else None)"

definition issue_blocks :: "CapabilityRequirement \<Rightarrow> CapabilityDiscoveryIssue \<Rightarrow> bool" where
  "issue_blocks requirement i \<longleftrightarrow>
     is_severity i = Blocking
     \<and> (case is_scope i of
          IssueAccount \<Rightarrow> True
        | IssueRequirement affected \<Rightarrow> affected = requirement
        | IssueDimension affected _ \<Rightarrow> affected = requirement)"

definition required_dimensions :: "CapabilityAction \<Rightarrow> (CapabilityDimension \<times> CapabilityAction option) list" where
  "required_dimensions action =
     map (\<lambda>dimension. (dimension, None)) ACTION_INDEPENDENT @ [(Access, Some action), (Quota, Some action)]"

definition dimension_passes :: "CapabilityDimension \<Rightarrow> TriState \<Rightarrow> bool" where
  "dimension_passes dimension state \<longleftrightarrow> state = Affirmative \<or> (dimension = Quota \<and> state = TriNotApplicable)"

definition dimension_blocker ::
  "int \<Rightarrow> CapabilityObservation \<Rightarrow> CapabilityDimension \<times> CapabilityAction option \<Rightarrow> CapabilityGateBlocker option" where
  "dimension_blocker now ob da =
     (case da of (dimension, action) \<Rightarrow>
        (case find (\<lambda>v. do_dimension v = dimension \<and> do_action v = action) (co_dimensions ob) of
           None \<Rightarrow>
             Some \<lparr>gb_dimension = Some dimension, gb_reason = DimensionNotReported, gb_diagnostic_reason = None,
                   gb_code = None, gb_message = None\<rparr>
         | Some v \<Rightarrow>
             if \<not> is_fresh_at v now then
               Some \<lparr>gb_dimension = Some dimension, gb_reason = ObservationStale, gb_diagnostic_reason = do_reason v,
                     gb_code = do_code v, gb_message = do_message v\<rparr>
             else if \<not> dimension_passes dimension (do_state v) then
               Some \<lparr>gb_dimension = Some dimension,
                     gb_reason = (if do_state v = Negative then DimensionNegative else DimensionUnknown),
                     gb_diagnostic_reason = do_reason v, gb_code = do_code v, gb_message = do_message v\<rparr>
             else None))"

definition evaluate_one ::
  "(ProviderCapabilitySnapshot \<Rightarrow> nat option) \<Rightarrow> ProviderCapabilitySnapshot \<Rightarrow> CapabilityEvaluationContext
     \<Rightarrow> CapabilityRequirement \<Rightarrow> CapabilityDecision" where
  "evaluate_one encoded_len s cx requirement =
     (case snapshot_reason encoded_len s cx of
        Some reason \<Rightarrow> indeterminate requirement reason None
      | None \<Rightarrow>
          (case find (issue_blocks requirement) (sn_issues s) of
             Some issue \<Rightarrow>
               \<lparr>cd_requirement = requirement, cd_outcome = Indeterminate,
                cd_blockers =
                  [\<lparr>gb_dimension = (case is_scope issue of IssueDimension _ dimension \<Rightarrow> Some dimension | _ \<Rightarrow> None),
                    gb_reason = BlockingDiscoveryIssue, gb_diagnostic_reason = Some (is_reason issue),
                    gb_code = Some (is_code issue), gb_message = Some (is_message issue)\<rparr>]\<rparr>
           | None \<Rightarrow>
               (case find (\<lambda>ob. co_capability ob = rq_capability requirement) (sn_observations s) of
                  None \<Rightarrow> indeterminate requirement CapabilityNotReported None
                | Some ob \<Rightarrow>
                    let blockers = List.map_filter (dimension_blocker (cx_now cx) ob) (required_dimensions (rq_action requirement))
                    in \<lparr>cd_requirement = requirement,
                        cd_outcome =
                          (if blockers = [] then Allowed
                           else if list_ex (\<lambda>b. gb_reason b = DimensionNegative) blockers then Denied
                           else Indeterminate),
                        cd_blockers = blockers\<rparr>)))"

fun capability_rank :: "ProviderCapability \<Rightarrow> nat" where
  "capability_rank (DnsCap c) =
     (case c of
        PublicZones \<Rightarrow> 0 | PrivateZones \<Rightarrow> 1 | RecordSets \<Rightarrow> 2 | Dnssec \<Rightarrow> 3 | ApexAlias \<Rightarrow> 4 | ProxiedRecords \<Rightarrow> 5
      | WeightedRouting \<Rightarrow> 6 | GeolocationRouting \<Rightarrow> 7 | FailoverRouting \<Rightarrow> 8 | AtomicChanges \<Rightarrow> 9)"

fun action_rank :: "CapabilityAction \<Rightarrow> nat" where
  "action_rank ActObserve = 0"
| "action_rank ActCreate = 1"
| "action_rank ActUpdate = 2"
| "action_rank ActDelete = 3"
| "action_rank ActExecute = 4"

text \<open>The derived \<open>Ord\<close> of a requirement: the \<open>BTreeSet\<close> of the requirements in order.\<close>

definition requirement_rank :: "CapabilityRequirement \<Rightarrow> nat \<times> nat" where
  "requirement_rank r = (capability_rank (rq_capability r), action_rank (rq_action r))"

definition evaluate ::
  "(ProviderCapabilitySnapshot \<Rightarrow> nat option) \<Rightarrow> ProviderCapabilitySnapshot \<Rightarrow> CapabilityEvaluationContext
     \<Rightarrow> CapabilityRequirement list \<Rightarrow> CapabilityDecision list" where
  "evaluate encoded_len s cx required =
     map (evaluate_one encoded_len s cx) (sort_key requirement_rank (remdups required))"

section \<open>Snapshot writes\<close>

record CapabilitySnapshotKey =
  ck_provider_account_id :: string
  ck_scope :: CapabilityScope

definition validate_snapshot_key :: "CapabilitySnapshotKey \<Rightarrow> unit CoreResult" where
  "validate_snapshot_key k =
     and_then (validate_resource_id (ck_provider_account_id k)) (\<lambda>_.
       validate_for_account (ck_scope k) (ck_provider_account_id k))"

definition validate_write ::
  "(ProviderCapabilitySnapshot \<Rightarrow> nat option) \<Rightarrow> CapabilitySnapshotKey \<Rightarrow> CapabilityDiscoveryFence
     \<Rightarrow> ProviderCapabilitySnapshot \<Rightarrow> unit CoreResult" where
  "validate_write encoded_len k expected_fence s =
     and_then (validate_snapshot_key k) (\<lambda>_.
     and_then (validate_fence expected_fence) (\<lambda>_.
     and_then (validate_snapshot encoded_len s) (\<lambda>_.
       if ck_provider_account_id k \<noteq> sn_provider_account_id s \<or> ck_scope k \<noteq> sn_scope s \<or> expected_fence \<noteq> sn_fence s then
         Inl (Conflict ''capability snapshot write does not match its key and authority fence'') else Inr ())))"

section \<open>Properties\<close>

lemma validate_distinct_iff:
  "validate_distinct check key message seen xs = Inr () \<longleftrightarrow>
     (\<forall>x \<in> set xs. check x = Inr ()) \<and> distinct (map key xs) \<and> set (map key xs) \<inter> set seen = {}"
  by (induction xs arbitrary: seen) (auto simp: and_then_eq_Inr)

lemma find_by_key:
  assumes "distinct (map key xs)"
  shows "find (\<lambda>x. key x = k) xs = Some x \<longleftrightarrow> x \<in> set xs \<and> key x = k"
  using assms by (induction xs) force+

lemma map_filter_empty: "List.map_filter f xs = [] \<longleftrightarrow> (\<forall>x \<in> set xs. f x = None)"
  by (induction xs) (auto simp: List.map_filter_simps split: option.splits)

lemma set_map_filter: "set (List.map_filter f xs) = {y. \<exists>x \<in> set xs. f x = Some y}"
  by (induction xs) (auto simp: List.map_filter_simps split: option.splits)

lemma snapshot_distinct:
  assumes "validate_snapshot encoded_len s = Inr ()"
  shows "distinct (map co_capability (sn_observations s))"
    "ob \<in> set (sn_observations s) \<Longrightarrow> distinct (map (\<lambda>v. (do_dimension v, do_action v)) (co_dimensions ob))"
proof -
  have v: "validate_observations_and_issues (sn_observations s) (sn_issues s) = Inr ()"
    using assms by (auto simp: validate_snapshot_def and_then_eq_Inr split: if_splits)
  then have d: "validate_distinct validate_observation co_capability
      ''capability discovery result contains duplicate capabilities'' [] (sn_observations s) = Inr ()"
    by (auto simp: validate_observations_and_issues_def and_then_eq_Inr split: if_splits)
  then show "distinct (map co_capability (sn_observations s))"
    by (simp add: validate_distinct_iff)
  assume "ob \<in> set (sn_observations s)"
  with d have "validate_observation ob = Inr ()" by (simp add: validate_distinct_iff)
  then show "distinct (map (\<lambda>v. (do_dimension v, do_action v)) (co_dimensions ob))"
    by (auto simp: validate_observation_def validate_distinct_iff split: if_splits)
qed

text \<open>The snapshot speaks about this account, at this generation and credential, and nothing blocks the requirement.\<close>

definition snapshot_applies ::
  "(ProviderCapabilitySnapshot \<Rightarrow> nat option) \<Rightarrow> ProviderCapabilitySnapshot \<Rightarrow> CapabilityEvaluationContext
     \<Rightarrow> CapabilityRequirement \<Rightarrow> bool" where
  "snapshot_applies encoded_len s cx r \<longleftrightarrow>
     validate_snapshot encoded_len s = Inr ()
     \<and> sn_provider_account_id s = cx_provider_account_id cx \<and> sn_provider s = cx_provider cx
     \<and> cf_provider_account_generation (sn_fence s) = cx_provider_account_generation cx
     \<and> cf_credential_revision (sn_fence s) = cx_credential_revision cx
     \<and> sn_scope s = cx_scope cx \<and> sn_state s \<noteq> DiscoveryFailedState
     \<and> \<not> (\<exists>i \<in> set (sn_issues s). is_severity i = Blocking
          \<and> (is_scope i = IssueAccount \<or> is_scope i = IssueRequirement r \<or> (\<exists>d. is_scope i = IssueDimension r d)))"

lemma issue_blocks_iff:
  "issue_blocks r i \<longleftrightarrow> is_severity i = Blocking
     \<and> (is_scope i = IssueAccount \<or> is_scope i = IssueRequirement r \<or> (\<exists>d. is_scope i = IssueDimension r d))"
  by (auto simp: issue_blocks_def split: CapabilityIssueScope.splits)

text \<open>
  The evidence the gate wants, on the data of the snapshot: an observation of the capability reports the
  dimension for the action with the state, was made no later than now and is not yet expired.
\<close>

definition evidence ::
  "ProviderCapabilitySnapshot \<Rightarrow> int \<Rightarrow> ProviderCapability \<Rightarrow> CapabilityDimension \<Rightarrow> CapabilityAction option \<Rightarrow> TriState \<Rightarrow> bool" where
  "evidence s now cap dimension action st \<longleftrightarrow>
     (\<exists>ob \<in> set (sn_observations s). \<exists>v \<in> set (co_dimensions ob).
        co_capability ob = cap \<and> do_dimension v = dimension \<and> do_action v = action
        \<and> do_observed_at v \<le> now \<and> now < do_valid_until v \<and> do_state v = st)"

text \<open>The same through the helpers of the code, for a set of states.\<close>

definition reported_fresh ::
  "ProviderCapabilitySnapshot \<Rightarrow> int \<Rightarrow> ProviderCapability \<Rightarrow> (CapabilityDimension \<times> CapabilityAction option)
     \<Rightarrow> (TriState \<Rightarrow> bool) \<Rightarrow> bool" where
  "reported_fresh s now cap da P \<longleftrightarrow>
     (\<exists>ob \<in> set (sn_observations s). co_capability ob = cap
        \<and> (\<exists>v \<in> set (co_dimensions ob). (do_dimension v, do_action v) = da \<and> is_fresh_at v now \<and> P (do_state v)))"

lemma snapshot_reason_None:
  "snapshot_reason encoded_len s cx = None \<and> find (issue_blocks r) (sn_issues s) = None \<longleftrightarrow>
     snapshot_applies encoded_len s cx r"
  by (cases "validate_snapshot encoded_len s")
     (auto simp: snapshot_reason_def snapshot_applies_def find_None_iff issue_blocks_iff)

lemma evaluate_one_outcome:
  "cd_outcome (evaluate_one encoded_len s cx r) =
     (if \<not> snapshot_applies encoded_len s cx r then Indeterminate
      else
        (case find (\<lambda>ob. co_capability ob = rq_capability r) (sn_observations s) of
           None \<Rightarrow> Indeterminate
         | Some ob \<Rightarrow>
             let blockers = List.map_filter (dimension_blocker (cx_now cx) ob) (required_dimensions (rq_action r))
             in if blockers = [] then Allowed
                else if list_ex (\<lambda>b. gb_reason b = DimensionNegative) blockers then Denied else Indeterminate))"
proof (cases "snapshot_applies encoded_len s cx r")
  case True
  then have "snapshot_reason encoded_len s cx = None" "find (issue_blocks r) (sn_issues s) = None"
    by (simp_all add: snapshot_reason_None [symmetric])
  then show ?thesis
    using True unfolding evaluate_one_def
    by (cases "find (\<lambda>ob. co_capability ob = rq_capability r) (sn_observations s)")
       (simp_all add: indeterminate_def Let_def)
next
  case False
  then have "snapshot_reason encoded_len s cx \<noteq> None \<or> find (issue_blocks r) (sn_issues s) \<noteq> None"
    by (simp add: snapshot_reason_None [symmetric])
  then show ?thesis
    using False unfolding evaluate_one_def
    by (cases "snapshot_reason encoded_len s cx"; cases "find (issue_blocks r) (sn_issues s)")
       (simp_all add: indeterminate_def)
qed

lemma dimension_blocker_cases:
  assumes "distinct (map (\<lambda>v. (do_dimension v, do_action v)) (co_dimensions ob))"
  shows "dimension_blocker now ob da = None \<longleftrightarrow>
      (\<exists>v \<in> set (co_dimensions ob). (do_dimension v, do_action v) = da \<and> is_fresh_at v now
         \<and> dimension_passes (fst da) (do_state v))"
    and "(\<exists>b. dimension_blocker now ob da = Some b \<and> gb_reason b = DimensionNegative) \<longleftrightarrow>
      (\<exists>v \<in> set (co_dimensions ob). (do_dimension v, do_action v) = da \<and> is_fresh_at v now \<and> do_state v = Negative)"
proof -
  obtain d a where da: "da = (d, a)" by (cases da)
  have find: "find (\<lambda>v. do_dimension v = d \<and> do_action v = a) (co_dimensions ob) = Some v \<longleftrightarrow>
      v \<in> set (co_dimensions ob) \<and> (do_dimension v, do_action v) = da" for v
    using find_by_key [OF assms, of da v] unfolding da by simp
  have ex: "(\<exists>v \<in> set (co_dimensions ob). (do_dimension v, do_action v) = da \<and> is_fresh_at v now \<and> Q v) \<longleftrightarrow>
      (case find (\<lambda>v. do_dimension v = d \<and> do_action v = a) (co_dimensions ob) of
         None \<Rightarrow> False | Some w \<Rightarrow> is_fresh_at w now \<and> Q w)" for Q
  proof (cases "find (\<lambda>v. do_dimension v = d \<and> do_action v = a) (co_dimensions ob)")
    case None
    then have "\<not> (v \<in> set (co_dimensions ob) \<and> (do_dimension v, do_action v) = da)" for v
      using find [of v] by simp
    then show ?thesis unfolding None by auto
  next
    case (Some w)
    then have w: "w \<in> set (co_dimensions ob)" "(do_dimension w, do_action w) = da"
      using find [of w] by simp_all
    have only: "v = w" if "v \<in> set (co_dimensions ob)" "(do_dimension v, do_action v) = da" for v
      using find [of v] that Some by simp
    show ?thesis unfolding Some option.case using w only by blast
  qed
  show "dimension_blocker now ob da = None \<longleftrightarrow>
      (\<exists>v \<in> set (co_dimensions ob). (do_dimension v, do_action v) = da \<and> is_fresh_at v now
         \<and> dimension_passes (fst da) (do_state v))"
    unfolding ex unfolding dimension_blocker_def da prod.case fst_conv
    by (cases "find (\<lambda>v. do_dimension v = d \<and> do_action v = a) (co_dimensions ob)") simp_all
  show "(\<exists>b. dimension_blocker now ob da = Some b \<and> gb_reason b = DimensionNegative) \<longleftrightarrow>
      (\<exists>v \<in> set (co_dimensions ob). (do_dimension v, do_action v) = da \<and> is_fresh_at v now \<and> do_state v = Negative)"
    unfolding ex unfolding dimension_blocker_def da prod.case
    by (cases "find (\<lambda>v. do_dimension v = d \<and> do_action v = a) (co_dimensions ob)")
       (auto simp: dimension_passes_def)
qed

lemma gate_by_dimensions:
  "(cd_outcome (evaluate_one encoded_len s cx r) = Allowed \<longleftrightarrow>
      snapshot_applies encoded_len s cx r
      \<and> list_all (\<lambda>da. reported_fresh s (cx_now cx) (rq_capability r) da (dimension_passes (fst da)))
          (required_dimensions (rq_action r)))
   \<and> (cd_outcome (evaluate_one encoded_len s cx r) = Denied \<longleftrightarrow>
      snapshot_applies encoded_len s cx r
      \<and> list_ex (\<lambda>da. reported_fresh s (cx_now cx) (rq_capability r) da (\<lambda>st. st = Negative))
          (required_dimensions (rq_action r)))"
proof (cases "snapshot_applies encoded_len s cx r")
  case False
  then show ?thesis by (simp add: evaluate_one_outcome)
next
  case True
  then have valid: "validate_snapshot encoded_len s = Inr ()" by (simp add: snapshot_applies_def)
  note unique = find_by_key [OF snapshot_distinct(1) [OF valid], of "rq_capability r"]
  show ?thesis
  proof (cases "find (\<lambda>ob. co_capability ob = rq_capability r) (sn_observations s)")
    case None
    then have "\<not> reported_fresh s now (rq_capability r) da P" for now da P
      by (auto simp: find_None_iff reported_fresh_def)
    moreover have "(Access, Some (rq_action r)) \<in> set (required_dimensions (rq_action r))"
      by (simp add: required_dimensions_def)
    ultimately show ?thesis
      using None True by (auto simp: evaluate_one_outcome list_all_iff list_ex_iff)
  next
    case (Some ob)
    then have ob: "ob \<in> set (sn_observations s)" by (simp add: unique)
    have fresh: "reported_fresh s now (rq_capability r) da P \<longleftrightarrow>
        (\<exists>v \<in> set (co_dimensions ob). (do_dimension v, do_action v) = da \<and> is_fresh_at v now \<and> P (do_state v))" for now da P
      using Some unique unfolding reported_fresh_def by (metis option.inject)
    let ?bs = "List.map_filter (dimension_blocker (cx_now cx) ob) (required_dimensions (rq_action r))"
    note blocker = dimension_blocker_cases [OF snapshot_distinct(2) [OF valid ob], of "cx_now cx"]
    have empty: "?bs = [] \<longleftrightarrow> list_all (\<lambda>da. reported_fresh s (cx_now cx) (rq_capability r) da (dimension_passes (fst da)))
          (required_dimensions (rq_action r))"
      unfolding map_filter_empty list_all_iff fresh blocker(1) ..
    have neg: "list_ex (\<lambda>b. gb_reason b = DimensionNegative) ?bs \<longleftrightarrow>
        list_ex (\<lambda>da. reported_fresh s (cx_now cx) (rq_capability r) da (\<lambda>st. st = Negative)) (required_dimensions (rq_action r))"
      unfolding list_ex_iff set_map_filter fresh blocker(2) [symmetric] by blast
    have "\<not> (?bs = [] \<and> list_ex (\<lambda>b. gb_reason b = DimensionNegative) ?bs)" by auto
    then show ?thesis
      using True Some unfolding evaluate_one_outcome empty [symmetric] neg [symmetric] by (auto simp: Let_def)
  qed
qed

lemma reported_fresh_evidence:
  "reported_fresh s now cap (dimension, action) P \<longleftrightarrow> (\<exists>st. P st \<and> evidence s now cap dimension action st)"
  by (auto simp: reported_fresh_def evidence_def is_fresh_at_def)

text \<open>
  C21: The capability gate fails closed. A requirement is allowed exactly when the snapshot passes its
  validation, belongs to this account, provider, account generation, credential revision and scope, its
  discovery did not fail, no blocking issue of the account or of this requirement is recorded, and there
  is evidence, observed by now and not yet expired, that affirms adapter support, provider support,
  entitlement and location, access for the action, and quota for the action (or that a quota does not
  apply). It is denied exactly when the snapshot applies in that sense and there is such evidence of one
  of the six being negative; everything stale, missing or unknown is indeterminate.
\<close>

theorem capability_gate_fails_closed:
  "(cd_outcome (evaluate_one encoded_len s cx r) = Allowed \<longleftrightarrow>
      snapshot_applies encoded_len s cx r
      \<and> evidence s (cx_now cx) (rq_capability r) AdapterSupport None Affirmative
      \<and> evidence s (cx_now cx) (rq_capability r) ProviderSupport None Affirmative
      \<and> evidence s (cx_now cx) (rq_capability r) Entitlement None Affirmative
      \<and> evidence s (cx_now cx) (rq_capability r) Location None Affirmative
      \<and> evidence s (cx_now cx) (rq_capability r) Access (Some (rq_action r)) Affirmative
      \<and> (evidence s (cx_now cx) (rq_capability r) Quota (Some (rq_action r)) Affirmative
         \<or> evidence s (cx_now cx) (rq_capability r) Quota (Some (rq_action r)) TriNotApplicable))
   \<and> (cd_outcome (evaluate_one encoded_len s cx r) = Denied \<longleftrightarrow>
      snapshot_applies encoded_len s cx r
      \<and> (evidence s (cx_now cx) (rq_capability r) AdapterSupport None Negative
         \<or> evidence s (cx_now cx) (rq_capability r) ProviderSupport None Negative
         \<or> evidence s (cx_now cx) (rq_capability r) Entitlement None Negative
         \<or> evidence s (cx_now cx) (rq_capability r) Location None Negative
         \<or> evidence s (cx_now cx) (rq_capability r) Access (Some (rq_action r)) Negative
         \<or> evidence s (cx_now cx) (rq_capability r) Quota (Some (rq_action r)) Negative))"
  unfolding gate_by_dimensions [THEN conjunct1] gate_by_dimensions [THEN conjunct2]
  by (auto simp: required_dimensions_def ACTION_INDEPENDENT_def reported_fresh_evidence dimension_passes_def)

lemma rank_inj: "inj requirement_rank"
proof
  fix a b :: CapabilityRequirement
  assume eq: "requirement_rank a = requirement_rank b"
  obtain ca cb where c: "rq_capability a = DnsCap ca" "rq_capability b = DnsCap cb"
    using ProviderCapability.exhaust by metis
  have "ca = cb"
    using eq by (cases ca; cases cb) (simp_all add: requirement_rank_def c)
  moreover have "rq_action a = rq_action b"
    using eq by (cases "rq_action a"; cases "rq_action b") (simp_all add: requirement_rank_def)
  ultimately show "a = b" using c by (cases a; cases b) simp
qed

text \<open>
  An evaluation answers each distinct requirement once, in the fixed order of requirements,
  whatever order and repetitions they came in.
\<close>

theorem evaluation_is_canonical:
  "set (map cd_requirement (evaluate encoded_len s cx required)) = set required
   \<and> sorted_wrt (<) (map requirement_rank (map cd_requirement (evaluate encoded_len s cx required)))
   \<and> (set required = set required' \<longrightarrow> evaluate encoded_len s cx required = evaluate encoded_len s cx required')"
proof -
  have req: "cd_requirement (evaluate_one encoded_len s cx r) = r" for r
    by (simp add: evaluate_one_def indeterminate_def Let_def split: option.splits)
  have map_req: "map cd_requirement (evaluate encoded_len s cx required) = sort_key requirement_rank (remdups required)"
    by (simp add: evaluate_def comp_def req)
  have sorted: "sorted_wrt (<) (map requirement_rank (sort_key requirement_rank (remdups rs)))" for rs
    using rank_inj
    by (simp add: strict_sorted_iff distinct_map inj_on_def inj_def)
  have unique: "sort_key requirement_rank (remdups required) = sort_key requirement_rank (remdups required')"
    if "set required = set required'"
  proof -
    have "map requirement_rank (sort_key requirement_rank (remdups required)) =
        map requirement_rank (sort_key requirement_rank (remdups required'))"
      using sorted that by (intro strict_sorted_equal) auto
    then show ?thesis using rank_inj by (simp add: inj_map_eq_map)
  qed
  show ?thesis using sorted map_req unique by (auto simp: evaluate_def)
qed

text \<open>
  A snapshot is built exactly from a valid request and a valid report at a positive time when its
  encoding fits, and a built snapshot may be written: its own key and fence pass the check every
  store makes before its compare-and-set.
\<close>

theorem built_snapshot_is_writable:
  assumes "snapshot_from_report encoded_len request discovered_at report = Inr s"
  shows "validate_write encoded_len
      \<lparr>ck_provider_account_id = cq_provider_account_id request, ck_scope = cq_scope request\<rparr> (cq_fence request) s = Inr ()
    \<and> (\<forall>k f. validate_write encoded_len k f s = Inr () \<longrightarrow>
         f = cq_fence request \<and> ck_provider_account_id k = cq_provider_account_id request \<and> ck_scope k = cq_scope request)
    \<and> sn_observations s = rp_observations report \<and> sn_state s = rp_state report"
proof -
  have parts: "validate_request request = Inr ()" "validate_snapshot encoded_len s = Inr ()"
    and fields: "sn_provider_account_id s = cq_provider_account_id request" "sn_scope s = cq_scope request"
      "sn_fence s = cq_fence request" "sn_observations s = rp_observations report" "sn_state s = rp_state report"
    using assms by (auto simp: snapshot_from_report_def Let_def and_then_eq_Inr)
  then show ?thesis
    by (auto simp: validate_write_def validate_snapshot_key_def validate_request_def and_then_eq_Inr split: if_splits)
qed

definition example_request :: CapabilityDiscoveryRequest where
  "example_request =
     \<lparr>cq_provider_account_id = ''a'',
      cq_fence = \<lparr>cf_provider_account_generation = 4, cf_credential_revision = None, cf_discovery_epoch = 7,
                  cf_discovery_token = ''t''\<rparr>,
      cq_account = \<lparr>spec_provider = Aws, spec_scope = None, spec_credential_source = Ambient\<rparr>,
      cq_scope = ScopeAccount\<rparr>"

definition example_report :: CapabilityDiscoveryReport where
  "example_report = \<lparr>rp_state = Complete, rp_observations = [], rp_issues = []\<rparr>"

theorem built_snapshot_is_writable_witness:
  "\<exists>s. snapshot_from_report (\<lambda>_. Some 0) example_request 5 example_report = Inr s
     \<and> validate_write (\<lambda>_. Some 0) \<lparr>ck_provider_account_id = ''a'', ck_scope = ScopeAccount\<rparr> (cq_fence example_request) s = Inr ()"
proof -
  have "list_all graphic ''t''" by (simp add: graphic_def byte_def)
  then have token: "validate_text ''t'' kind MAX_DISCOVERY_TOKEN_LEN = Inr ()" for kind
    by (simp add: validate_text_def MAX_DISCOVERY_TOKEN_LEN_def string_simps del: has_control.simps list.pred_inject)
  have fence: "validate_fence (cq_fence example_request) = Inr ()"
    by (simp add: validate_fence_def example_request_def validate_optional_bounded_text_def token i64_MAX_u64_def)
  have report: "validate_observations_and_issues [] [] = Inr ()"
    by (simp add: validate_observations_and_issues_def)
  have request: "validate_request example_request = Inr ()"
    using fence by (simp add: validate_request_def example_request_def example_desired_valid validate_account_spec_def)
  obtain s where s: "snapshot_from_report (\<lambda>_. Some 0) example_request 5 example_report = Inr s"
    unfolding snapshot_from_report_def request
    using fence
    by (simp add: example_report_def validate_report_def report check_issues_def validate_snapshot_def
        example_desired_valid, simp add: example_request_def example_desired_valid)
  have "cq_provider_account_id example_request = ''a''" "cq_scope example_request = ScopeAccount"
    by (simp_all add: example_request_def)
  then show ?thesis using built_snapshot_is_writable [OF s] s by auto
qed

end
