(* ===== verification/Decimal.thy ===== *)
theory Decimal
  imports Center_Prelude
begin

text \<open>
  Decimal text of unsigned integers as Rust prints and parses it: \<open>to_string\<close>, and \<open>str::parse\<close> for an
  unsigned type (an optional plus sign, at least one digit, digits only, no overflow).
\<close>

fun show_nat :: "nat \<Rightarrow> string" where
  "show_nat n =
     (if n < 10 then [char_of (48 + n)] else show_nat (n div 10) @ [char_of (48 + n mod 10)])"

declare show_nat.simps [simp del]

definition show_u64 :: "u64 \<Rightarrow> string" where
  "show_u64 w = show_nat (unat w)"

definition digits_value :: "string \<Rightarrow> nat" where
  "digits_value s = fold (\<lambda>c n. n * 10 + (byte c - 48)) s 0"

definition parse_word :: "string \<Rightarrow> ('w :: len) word option" where
  "parse_word s =
     (let ds = (case s of c # cs \<Rightarrow> if c = CHR ''+'' then cs else s | [] \<Rightarrow> [])
      in if ds = [] \<or> \<not> list_all is_ascii_digit ds then None
         else if digits_value ds < 2 ^ LENGTH('w) then Some (of_nat (digits_value ds)) else None)"

abbreviation parse_u64 :: "string \<Rightarrow> u64 option" where
  "parse_u64 \<equiv> parse_word"

section \<open>Lemmas\<close>

lemma digit_char_class: "d < 10 \<Longrightarrow> is_ascii_digit (char_of (48 + d :: nat))"
  by (simp add: is_ascii_digit_def)

lemma show_nat_digits: "list_all is_ascii_digit (show_nat n)"
proof (induction n rule: show_nat.induct)
  case (1 n)
  then show ?case by (subst show_nat.simps) (auto simp: digit_char_class)
qed

lemma show_nat_not_Nil [simp]: "show_nat n \<noteq> []"
  by (subst show_nat.simps) simp

lemma digits_value_snoc: "digits_value (s @ [c]) = digits_value s * 10 + (byte c - 48)"
  by (simp add: digits_value_def)

lemma digits_value_show_nat: "digits_value (show_nat n) = n"
proof (induction n rule: show_nat.induct)
  case (1 n)
  show ?case
  proof (cases "n < 10")
    case True
    then show ?thesis by (subst show_nat.simps) (simp add: digits_value_def)
  next
    case False
    with 1 have "digits_value (show_nat (n div 10)) = n div 10" by blast
    with False show ?thesis by (subst show_nat.simps) (simp add: digits_value_snoc)
  qed
qed

lemma plus_not_digit: "\<not> is_ascii_digit (CHR ''+'')"
  by (simp add: is_ascii_digit_def byte_def)

lemma parse_show_word [simp]: "parse_word (show_nat (unat w)) = Some (w :: ('w :: len) word)"
proof -
  obtain c cs where s: "show_nat (unat w) = c # cs"
    using show_nat_not_Nil [of "unat w"] by (cases "show_nat (unat w)") auto
  moreover have "c \<noteq> CHR ''+''"
    using show_nat_digits [of "unat w"] s plus_not_digit by auto
  moreover have "digits_value (c # cs) = unat w" "list_all is_ascii_digit (c # cs)"
    using digits_value_show_nat [of "unat w"] show_nat_digits [of "unat w"] by (simp_all add: s)
  moreover have "unat w < 2 ^ LENGTH('w)" by (rule unsigned_less)
  ultimately show ?thesis by (simp add: parse_word_def)
qed

lemma parse_show_u64 [simp]: "parse_u64 (show_u64 w) = Some w"
  by (simp add: show_u64_def)

end
