(* ===== verification/Kube_Api.thy ===== *)
theory Kube_Api
  imports Center_Prelude
begin

text \<open>
  What the adapters of \<open>crates/center-adapter-kubernetes/src\<close> share: the classified errors of an API
  call, the bounded retry loop around optimistic concurrency, and the argument why numbered grants
  fence each other, as a locale that the Lease coordinator and the capability store interpret.
\<close>

section \<open>Errors and retries\<close>

datatype ResourceError = ResConflict | ResOther string

definition resource_adapter_error :: "ResourceError \<Rightarrow> CoreError" where
  "resource_adapter_error error =
     (case error of
        ResConflict \<Rightarrow> Conflict ''Kubernetes resourceVersion conflict''
      | ResOther message \<Rightarrow> Adapter message)"

text \<open>
  An attempt is given the answers to its calls. It ends with \<open>Inl\<close> the value returned or goes on
  (\<open>Inr ()\<close>) after a conflict, and says which objects it submitted.
\<close>

fun retry_rounds ::
  "('t \<Rightarrow> ('a CoreResult + unit) \<times> 'w list) \<Rightarrow> CoreError \<Rightarrow> nat \<Rightarrow> 't list \<Rightarrow> 'a CoreResult \<times> 'w list" where
  "retry_rounds f exhausted 0 as = (Inl exhausted, [])"
| "retry_rounds f exhausted (Suc n) [] = (Inl exhausted, [])"
| "retry_rounds f exhausted (Suc n) (a # as) =
     (case f a of
        (Inl result, ws) \<Rightarrow> (result, ws)
      | (Inr (), ws) \<Rightarrow> (let (result, ws') = retry_rounds f exhausted n as in (result, ws @ ws')))"

text \<open>What is submitted was submitted by an attempt, and a value is the value of an attempt.\<close>

lemma retry_rounds_write: "w \<in> set (snd (retry_rounds f e n as)) \<Longrightarrow> \<exists>a \<in> set as. w \<in> set (snd (f a))"
  by (induction f e n as rule: retry_rounds.induct) (auto split: sum.splits prod.splits)

lemma retry_rounds_value: "fst (retry_rounds f e n as) = Inr v \<Longrightarrow> \<exists>a \<in> set as. fst (f a) = Inl (Inr v)"
  by (induction f e n as rule: retry_rounds.induct) (auto split: sum.splits prod.splits)

section \<open>Fenced histories\<close>

text \<open>
  What makes grants fence each other: a step either grants nothing and does not lower the epoch, or
  grants exactly the new, larger epoch.
\<close>

locale fenced_history =
  fixes step :: "'s \<Rightarrow> 's \<Rightarrow> bool"
    and inv :: "'s \<Rightarrow> bool"
    and epoch :: "'s \<Rightarrow> nat"
    and grants :: "'s \<Rightarrow> nat list"
  assumes inv_step: "inv s \<Longrightarrow> step s t \<Longrightarrow> inv t"
    and fence_step: "inv s \<Longrightarrow> step s t \<Longrightarrow>
      (grants t = grants s \<and> epoch s \<le> epoch t) \<or> (grants t = epoch t # grants s \<and> epoch s < epoch t)"
begin

definition ordered :: "'s \<Rightarrow> bool" where
  "ordered s \<longleftrightarrow> inv s \<and> sorted_wrt (>) (grants s) \<and> (\<forall>g \<in> set (grants s). g \<le> epoch s)"

lemma ordered_step: "ordered s \<Longrightarrow> step s t \<Longrightarrow> ordered t"
  using inv_step [of s t] fence_step [of s t] unfolding ordered_def by fastforce

lemma ordered_run: "step\<^sup>*\<^sup>* s t \<Longrightarrow> ordered s \<Longrightarrow> ordered t"
  by (induction rule: rtranclp_induct) (auto intro: ordered_step)

lemma epoch_mono: "step\<^sup>*\<^sup>* s t \<Longrightarrow> ordered s \<Longrightarrow> epoch s \<le> epoch t"
proof (induction rule: rtranclp_induct)
  case (step t u)
  then have "ordered t" by (blast intro: ordered_run)
  with step fence_step [of t u] show ?case unfolding ordered_def by fastforce
qed simp

lemma grants_mono: "step\<^sup>*\<^sup>* s t \<Longrightarrow> ordered s \<Longrightarrow> set (grants s) \<subseteq> set (grants t)"
proof (induction rule: rtranclp_induct)
  case (step t u)
  then have "ordered t" by (blast intro: ordered_run)
  with step fence_step [of t u] show ?case unfolding ordered_def by fastforce
qed simp

end

end
