(* ===== verification/Controller_Directory.thy ===== *)
theory Controller_Directory
  imports Controller_Core Decimal Kube_Api
begin

text \<open>
  The durable directory of Controllers over Kubernetes custom resources:
  \<open>crates/center-adapter-kubernetes/src/controller_directory.rs\<close> and \<open>crd.rs\<close>.

  The API server is the environment: an operation is a loop of at most eight attempts, an attempt is
  given the answers to its calls and returns, besides its result, the objects it submitted. SHA-256
  is the argument \<open>sha256_hex\<close> and \<open>representable\<close> says which instants \<open>chrono\<close> can represent; a time is
  its milliseconds. The quoting that error messages apply to identifiers is left out. The section on
  histories puts the landed writes of all replicas in one sequence, with the documented optimistic
  concurrency of the API server as the premises of its step relation.
\<close>

section \<open>Data\<close>

definition DIRECTORY_CONFLICT_RETRIES :: nat where
  "DIRECTORY_CONFLICT_RETRIES = 8"

record EdgionControllerSpec =
  ecs_controller_id :: string
  ecs_cluster :: string
  ecs_environments :: "string list"
  ecs_tags :: "string list"

datatype EdgionControllerPhase = EcOnline | EcOffline | EcStale

record EdgionControllerStatus =
  ec_phase :: EdgionControllerPhase
  ec_session_id :: "string option"
  ec_cluster :: string
  ec_environments :: "string list"
  ec_tags :: "string list"
  ec_connected_replica :: "string option"
  ec_ownership_token :: "string option"
  ec_ownership_epoch :: u64
  ec_sync_version :: "u64 option"
  ec_watch_server_id :: "string option"
  ec_resource_count :: "u64 option"
  ec_resource_counts_by_kind :: "(string, u32) hmap option"
  ec_stats_updated_unix_ms :: "int option"
  ec_watch_updated_unix_ms :: "int option"
  ec_last_seen_time :: int
  ec_observed_at_unix_ms :: int
  ec_evicted :: bool
  ec_observed_generation :: "int option"

record EdgionController =
  eo_name :: string
  eo_generation :: "int option"
  eo_resource_version :: "string option"
  eo_spec :: EdgionControllerSpec
  eo_status :: "EdgionControllerStatus option"

section \<open>Names\<close>

text \<open>
  The loop works on characters; every character outside ASCII becomes a dash and runs of dashes
  collapse, so it may as well read the bytes.
\<close>

fun name_prefix :: "string \<Rightarrow> bool \<Rightarrow> string \<Rightarrow> string" where
  "name_prefix prefix previous_dash [] = prefix"
| "name_prefix prefix previous_dash (c # cs) =
     (let mapped = (if is_ascii_alphanumeric c then to_ascii_lowercase_char c else CHR ''-'')
      in if mapped = CHR ''-'' \<and> (previous_dash \<or> prefix = []) then name_prefix prefix previous_dash cs
         else
           let prefix' = prefix @ [mapped]
           in if length prefix' = 50 then prefix' else name_prefix prefix' (mapped = CHR ''-'') cs)"

definition pop_dashes :: "string \<Rightarrow> string" where
  "pop_dashes s = rev (dropWhile (\<lambda>c. c = CHR ''-'') (rev s))"

definition controller_resource_name :: "(string \<Rightarrow> string) \<Rightarrow> string \<Rightarrow> string" where
  "controller_resource_name sha256_hex controller_id =
     (let prefix0 = pop_dashes (name_prefix [] False controller_id);
          prefix = (if prefix0 = [] then ''controller'' else prefix0)
      in prefix @ ''-'' @ take 12 (sha256_hex controller_id))"

section \<open>Attempts\<close>

record dir_attempt =
  da_get :: "ResourceError + EdgionController option"
  da_create :: "ResourceError + EdgionController"
  da_replace :: "ResourceError + EdgionController"
  da_replace_status :: "ResourceError + EdgionController"

datatype dir_write = WriteCreate EdgionController | WriteReplace EdgionController | WriteStatus EdgionController

definition new_controller :: "string \<Rightarrow> EdgionControllerSpec \<Rightarrow> EdgionController" where
  "new_controller name spec =
     \<lparr>eo_name = name, eo_generation = None, eo_resource_version = None, eo_spec = spec, eo_status = None\<rparr>"

definition directory_get_or_create ::
  "string \<Rightarrow> EdgionControllerSpec \<Rightarrow> dir_attempt \<Rightarrow> (ResourceError + EdgionController) \<times> dir_write list" where
  "directory_get_or_create name spec a =
     (case da_get a of
        Inl error \<Rightarrow> (Inl error, [])
      | Inr (Some existing) \<Rightarrow>
          if ecs_controller_id (eo_spec existing) \<noteq> ecs_controller_id spec then (Inr existing, [])
          else if eo_spec existing \<noteq> spec then
            (da_replace a, [WriteReplace (existing\<lparr>eo_spec := spec\<rparr>)])
          else (Inr existing, [])
      | Inr None \<Rightarrow> (da_create a, [WriteCreate (new_controller name spec)]))"

definition verify_identity :: "EdgionController \<Rightarrow> string \<Rightarrow> unit CoreResult" where
  "verify_identity resource cid =
     (if ecs_controller_id (eo_spec resource) = cid then Inr ()
      else Inl (Conflict (''Kubernetes name collision: '' @ eo_name resource @ '' maps both ''
                          @ ecs_controller_id (eo_spec resource) @ '' and '' @ cid)))"

type_synonym status_transition = "EdgionControllerStatus option \<Rightarrow> int option \<Rightarrow> EdgionControllerStatus option"

text \<open>A round ends with \<open>Inl\<close> the value returned or goes on (\<open>Inr ()\<close>) after a conflict.\<close>

definition replace_status_round ::
  "string \<Rightarrow> string \<Rightarrow> EdgionControllerSpec \<Rightarrow> status_transition \<Rightarrow> dir_attempt
     \<Rightarrow> (bool CoreResult + unit) \<times> dir_write list" where
  "replace_status_round name cid initial_spec transition a =
     (case directory_get_or_create name initial_spec a of
        (Inl ResConflict, ws) \<Rightarrow> (Inr (), ws)
      | (Inl error, ws) \<Rightarrow> (Inl (Inl (resource_adapter_error error)), ws)
      | (Inr resource, ws) \<Rightarrow>
          (case verify_identity resource cid of
             Inl e \<Rightarrow> (Inl (Inl e), ws)
           | Inr () \<Rightarrow>
               (case transition (eo_status resource) (eo_generation resource) of
                  None \<Rightarrow> (Inl (Inr False), ws)
                | Some status \<Rightarrow>
                    let submitted = resource\<lparr>eo_status := Some status\<rparr>
                    in (case da_replace_status a of
                          Inr _ \<Rightarrow> (Inl (Inr True), ws @ [WriteStatus submitted])
                        | Inl ResConflict \<Rightarrow> (Inr (), ws @ [WriteStatus submitted])
                        | Inl error \<Rightarrow> (Inl (Inl (resource_adapter_error error)), ws @ [WriteStatus submitted])))))"

definition replace_status_with_retry ::
  "(string \<Rightarrow> string) \<Rightarrow> string \<Rightarrow> EdgionControllerSpec \<Rightarrow> status_transition \<Rightarrow> dir_attempt list
     \<Rightarrow> bool CoreResult \<times> dir_write list" where
  "replace_status_with_retry sha256_hex cid initial_spec transition as =
     retry_rounds (replace_status_round (controller_resource_name sha256_hex cid) cid initial_spec transition)
       (Conflict (''controller projection for '' @ cid @ '' remained conflicted after 8 attempts''))
       DIRECTORY_CONFLICT_RETRIES as"

definition show_i64 :: "int \<Rightarrow> string" where
  "show_i64 t = (if t < 0 then ''-'' @ show_u64 (of_int (- t)) else show_u64 (of_int t))"

definition time_from_millis :: "(int \<Rightarrow> bool) \<Rightarrow> int \<Rightarrow> int CoreResult" where
  "time_from_millis representable t =
     (if representable t then Inr t else Inl (Adapter (''observed timestamp '' @ show_i64 t @ '' is outside RFC3339 range'')))"

section \<open>Operations\<close>

definition registration_spec :: "ControllerRegistration \<Rightarrow> EdgionControllerSpec" where
  "registration_spec r =
     \<lparr>ecs_controller_id = reg_controller_id r, ecs_cluster = reg_cluster r, ecs_environments = reg_environments r,
      ecs_tags = reg_tags r\<rparr>"

definition bare_spec :: "string \<Rightarrow> EdgionControllerSpec" where
  "bare_spec cid = \<lparr>ecs_controller_id = cid, ecs_cluster = [], ecs_environments = [], ecs_tags = []\<rparr>"

definition upsert_transition :: "ControllerRegistration \<Rightarrow> int \<Rightarrow> status_transition" where
  "upsert_transition r last_seen_time current generation =
     (let stale = (case current of
                     None \<Rightarrow> False
                   | Some status \<Rightarrow>
                       (case reg_ownership_fence r of
                          Some fence \<Rightarrow> fence_epoch fence \<le> ec_ownership_epoch status
                        | None \<Rightarrow> 0 < ec_ownership_epoch status
                                  \<or> reg_observed_at_unix_ms r \<le> ec_observed_at_unix_ms status))
      in if stale then None
         else
           Some \<lparr>ec_phase = EcOnline, ec_session_id = Some (reg_session_id r), ec_cluster = reg_cluster r,
                 ec_environments = reg_environments r, ec_tags = reg_tags r,
                 ec_connected_replica = reg_connected_replica r,
                 ec_ownership_token = map_option fence_token (reg_ownership_fence r),
                 ec_ownership_epoch = (case reg_ownership_fence r of None \<Rightarrow> 0 | Some fence \<Rightarrow> fence_epoch fence),
                 ec_sync_version = None, ec_watch_server_id = None, ec_resource_count = None,
                 ec_resource_counts_by_kind = None, ec_stats_updated_unix_ms = None, ec_watch_updated_unix_ms = None,
                 ec_last_seen_time = last_seen_time, ec_observed_at_unix_ms = reg_observed_at_unix_ms r,
                 ec_evicted = False, ec_observed_generation = generation\<rparr>)"

definition upsert_registration ::
  "(string \<Rightarrow> string) \<Rightarrow> (int \<Rightarrow> bool) \<Rightarrow> ControllerRegistration \<Rightarrow> dir_attempt list \<Rightarrow> unit CoreResult \<times> dir_write list" where
  "upsert_registration sha256_hex representable r as =
     (case time_from_millis representable (reg_observed_at_unix_ms r) of
        Inl e \<Rightarrow> (Inl e, [])
      | Inr last_seen_time \<Rightarrow>
          let (result, ws) =
            replace_status_with_retry sha256_hex (reg_controller_id r) (registration_spec r)
              (upsert_transition r last_seen_time) as
          in (and_then result (\<lambda>projected.
                if projected then Inr ()
                else Inl (Conflict (''stale controller registration revision for '' @ reg_controller_id r))), ws))"

definition offline_not_current :: "string \<Rightarrow> OwnershipFence option \<Rightarrow> int \<Rightarrow> EdgionControllerStatus \<Rightarrow> bool" where
  "offline_not_current session fence observed_at status \<longleftrightarrow>
     ec_evicted status
     \<or> (case fence of
          Some f \<Rightarrow>
            if ec_ownership_epoch status < fence_epoch f then False
            else if ec_ownership_epoch status = fence_epoch f then
              ec_session_id status \<noteq> Some session \<or> ec_ownership_token status \<noteq> Some (fence_token f)
            else True
        | None \<Rightarrow>
            0 < ec_ownership_epoch status \<or> ec_session_id status \<noteq> Some session
            \<or> observed_at < ec_observed_at_unix_ms status)"

definition offline_transition :: "string \<Rightarrow> OwnershipFence option \<Rightarrow> int \<Rightarrow> status_transition" where
  "offline_transition session fence observed_at current generation =
     (if (case current of None \<Rightarrow> False | Some status \<Rightarrow> offline_not_current session fence observed_at status) then None
      else
        Some \<lparr>ec_phase = EcOffline, ec_session_id = Some session,
              ec_cluster = (case current of None \<Rightarrow> [] | Some s \<Rightarrow> ec_cluster s),
              ec_environments = (case current of None \<Rightarrow> [] | Some s \<Rightarrow> ec_environments s),
              ec_tags = (case current of None \<Rightarrow> [] | Some s \<Rightarrow> ec_tags s),
              ec_connected_replica = None, ec_ownership_token = map_option fence_token fence,
              ec_ownership_epoch = (case fence of None \<Rightarrow> 0 | Some f \<Rightarrow> fence_epoch f),
              ec_sync_version = Option.bind current ec_sync_version,
              ec_watch_server_id = Option.bind current ec_watch_server_id,
              ec_resource_count = Option.bind current ec_resource_count,
              ec_resource_counts_by_kind = Option.bind current ec_resource_counts_by_kind,
              ec_stats_updated_unix_ms = Option.bind current ec_stats_updated_unix_ms,
              ec_watch_updated_unix_ms = Option.bind current ec_watch_updated_unix_ms,
              ec_last_seen_time = observed_at,
              ec_observed_at_unix_ms =
                (case current of None \<Rightarrow> observed_at | Some s \<Rightarrow> max (ec_observed_at_unix_ms s) observed_at),
              ec_evicted = False, ec_observed_generation = generation\<rparr>)"

definition directory_mark_offline ::
  "(string \<Rightarrow> string) \<Rightarrow> (int \<Rightarrow> bool) \<Rightarrow> string \<Rightarrow> string \<Rightarrow> OwnershipFence option \<Rightarrow> int \<Rightarrow> dir_attempt list
     \<Rightarrow> OfflineOutcome CoreResult \<times> dir_write list" where
  "directory_mark_offline sha256_hex representable cid session fence observed_at as =
     (case time_from_millis representable observed_at of
        Inl e \<Rightarrow> (Inl e, [])
      | Inr t \<Rightarrow>
          let (result, ws) =
            replace_status_with_retry sha256_hex cid (bare_spec cid) (offline_transition session fence t) as
          in (and_then result (\<lambda>changed. Inr (if changed then Marked else NotCurrent)), ws))"

definition override :: "'a option \<Rightarrow> 'a option \<Rightarrow> 'a option" where
  "override new old = (case new of None \<Rightarrow> old | Some v \<Rightarrow> Some v)"

definition project_transition :: "ControllerRuntimeObservation \<Rightarrow> int \<Rightarrow> status_transition" where
  "project_transition ob observed_time current generation =
     (case current of
        None \<Rightarrow> None
      | Some s \<Rightarrow>
          if ec_evicted s \<or> ec_phase s \<noteq> EcOnline \<or> ec_session_id s \<noteq> Some (obs_session_id ob) then None
          else if \<not> (case obs_ownership_fence ob of
                       Some f \<Rightarrow> ec_ownership_epoch s = fence_epoch f \<and> ec_ownership_token s = Some (fence_token f)
                     | None \<Rightarrow> ec_ownership_epoch s = 0) then None
          else
            let newer = ec_observed_at_unix_ms s < obs_observed_at_unix_ms ob
            in Some (s\<lparr>ec_sync_version := override (obs_sync_version ob) (ec_sync_version s),
                       ec_watch_server_id := override (obs_watch_server_id ob) (ec_watch_server_id s),
                       ec_resource_count := override (obs_resource_count ob) (ec_resource_count s),
                       ec_resource_counts_by_kind := override (obs_resource_counts_by_kind ob) (ec_resource_counts_by_kind s),
                       ec_stats_updated_unix_ms := override (obs_stats_updated_unix_ms ob) (ec_stats_updated_unix_ms s),
                       ec_watch_updated_unix_ms := override (obs_watch_updated_unix_ms ob) (ec_watch_updated_unix_ms s),
                       ec_observed_at_unix_ms := (if newer then obs_observed_at_unix_ms ob else ec_observed_at_unix_ms s),
                       ec_last_seen_time := (if newer then observed_time else ec_last_seen_time s),
                       ec_observed_generation := generation\<rparr>))"

definition directory_project_runtime ::
  "(string \<Rightarrow> string) \<Rightarrow> (int \<Rightarrow> bool) \<Rightarrow> ControllerRuntimeObservation \<Rightarrow> dir_attempt list
     \<Rightarrow> bool CoreResult \<times> dir_write list" where
  "directory_project_runtime sha256_hex representable ob as =
     (case time_from_millis representable (obs_observed_at_unix_ms ob) of
        Inl e \<Rightarrow> (Inl e, [])
      | Inr t \<Rightarrow>
          replace_status_with_retry sha256_hex (obs_controller_id ob) (bare_spec (obs_controller_id ob))
            (project_transition ob t) as)"

definition fence_of_status :: "EdgionControllerStatus \<Rightarrow> OwnershipFence option" where
  "fence_of_status s =
     (if 0 < ec_ownership_epoch s
      then map_option (\<lambda>token. \<lparr>fence_token = token, fence_epoch = ec_ownership_epoch s\<rparr>) (ec_ownership_token s)
      else None)"

definition transpose_id :: "string \<Rightarrow> string option \<Rightarrow> string option CoreResult" where
  "transpose_id kind v = (case v of None \<Rightarrow> Inr None | Some s \<Rightarrow> and_then (identifier_new kind s) (\<lambda>i. Inr (Some i)))"

definition evicted_status :: "EdgionControllerStatus \<Rightarrow> EdgionControllerStatus" where
  "evicted_status s = s\<lparr>ec_evicted := True, ec_phase := EcOffline, ec_session_id := None, ec_connected_replica := None\<rparr>"

definition already_absent :: EvictionResult where
  "already_absent = \<lparr>result_outcome = AlreadyAbsent, result_target = None\<rparr>"

definition evict_round :: "string \<Rightarrow> dir_attempt \<Rightarrow> (EvictionResult CoreResult + unit) \<times> dir_write list" where
  "evict_round cid a =
     (case da_get a of
        Inl error \<Rightarrow> (Inl (Inl (resource_adapter_error error)), [])
      | Inr None \<Rightarrow> (Inl (Inr already_absent), [])
      | Inr (Some resource) \<Rightarrow>
          (case verify_identity resource cid of
             Inl e \<Rightarrow> (Inl (Inl e), [])
           | Inr () \<Rightarrow>
               (case eo_status resource of
                  None \<Rightarrow> (Inl (Inr already_absent), [])
                | Some s \<Rightarrow>
                    if ec_evicted s then (Inl (Inr already_absent), [])
                    else
                      (case transpose_id ''session'' (ec_session_id s) of
                         Inl e \<Rightarrow> (Inl (Inl e), [])
                       | Inr session \<Rightarrow>
                           let target = \<lparr>target_session_id = session, target_connected_replica = ec_connected_replica s,
                                         target_ownership_fence = fence_of_status s\<rparr>;
                               submitted = [WriteStatus (resource\<lparr>eo_status := Some (evicted_status s)\<rparr>)]
                           in (case da_replace_status a of
                                 Inr _ \<Rightarrow>
                                   (Inl (Inr \<lparr>result_outcome = Evicted, result_target = Some target\<rparr>), submitted)
                               | Inl ResConflict \<Rightarrow> (Inr (), submitted)
                               | Inl error \<Rightarrow> (Inl (Inl (resource_adapter_error error)), submitted))))))"

definition directory_evict :: "string \<Rightarrow> dir_attempt list \<Rightarrow> EvictionResult CoreResult \<times> dir_write list" where
  "directory_evict cid as =
     retry_rounds (evict_round cid)
       (Conflict (''controller eviction for '' @ cid @ '' remained conflicted after 8 attempts''))
       DIRECTORY_CONFLICT_RETRIES as"

fun phase_of :: "EdgionControllerPhase \<Rightarrow> ControllerPhase" where
  "phase_of EcOnline = PhaseOnline"
| "phase_of EcOffline = PhaseOffline"
| "phase_of EcStale = PhaseStale"

definition record_of :: "EdgionController \<Rightarrow> EdgionControllerStatus \<Rightarrow> ControllerRecord CoreResult" where
  "record_of resource s =
     and_then (identifier_new ''controller'' (ecs_controller_id (eo_spec resource))) (\<lambda>cid.
     let online = (ec_phase s = EcOnline)
     in and_then (if online then transpose_id ''session'' (ec_session_id s) else Inr None) (\<lambda>session.
       Inr \<lparr>rec_controller_id = cid, rec_current_session_id = session, rec_cluster = ec_cluster s,
            rec_environments = ec_environments s, rec_tags = ec_tags s,
            rec_connected_replica = (if online then ec_connected_replica s else None),
            rec_ownership_fence = (if online then fence_of_status s else None),
            rec_sync_version = ec_sync_version s, rec_watch_server_id = ec_watch_server_id s,
            rec_resource_count = ec_resource_count s, rec_resource_counts_by_kind = ec_resource_counts_by_kind s,
            rec_stats_updated_unix_ms = ec_stats_updated_unix_ms s, rec_watch_updated_unix_ms = ec_watch_updated_unix_ms s,
            rec_phase = phase_of (ec_phase s), rec_last_seen_unix_ms = ec_observed_at_unix_ms s\<rparr>))"

fun collect_records :: "EdgionController list \<Rightarrow> ControllerRecord list CoreResult" where
  "collect_records [] = Inr []"
| "collect_records (resource # rest) =
     (case eo_status resource of
        None \<Rightarrow> collect_records rest
      | Some s \<Rightarrow>
          if ec_evicted s then collect_records rest
          else and_then (record_of resource s) (\<lambda>r. and_then (collect_records rest) (\<lambda>rs. Inr (r # rs))))"

definition directory_list :: "ResourceError + EdgionController list \<Rightarrow> ControllerRecord list CoreResult" where
  "directory_list answer =
     (case answer of
        Inl error \<Rightarrow> Inl (resource_adapter_error error)
      | Inr resources \<Rightarrow> and_then (collect_records resources) (\<lambda>rs. Inr (sort_key rec_controller_id rs)))"

section \<open>Histories\<close>

datatype dir_op =
    Upsert ControllerRegistration int
  | Offline string "OwnershipFence option" int
  | Project ControllerRuntimeObservation int

fun op_spec :: "string \<Rightarrow> dir_op \<Rightarrow> EdgionControllerSpec" where
  "op_spec cid (Upsert r _) = registration_spec r"
| "op_spec cid _ = bare_spec cid"

fun op_transition :: "dir_op \<Rightarrow> status_transition" where
  "op_transition (Upsert r t) = upsert_transition r t"
| "op_transition (Offline session fence t) = offline_transition session fence t"
| "op_transition (Project ob t) = project_transition ob t"

text \<open>
  The object of one Controller name as the API server stores it. A creation lands where there is no
  object. A conditional write lands only while the object still has the version its writer holds, so
  the stored object is then the one the round works on; a replacement leaves the status alone and a
  status write the spec. Nothing deletes the object.
\<close>

datatype write_cause = OpWrite dir_op | EvictWrite

inductive landed :: "string \<Rightarrow> string \<Rightarrow> write_cause \<Rightarrow> EdgionController option \<Rightarrow> EdgionController option \<Rightarrow> bool"
  for name cid where
  created:
    "WriteCreate w \<in> set (snd (replace_status_round name cid (op_spec cid op) (op_transition op) a)) \<Longrightarrow>
     eo_spec obj = eo_spec w \<Longrightarrow> eo_status obj = None \<Longrightarrow> landed name cid (OpWrite op) None (Some obj)"
| spec_replaced:
    "da_get a = Inr (Some obj) \<Longrightarrow>
     WriteReplace w \<in> set (snd (replace_status_round name cid (op_spec cid op) (op_transition op) a)) \<Longrightarrow>
     eo_spec obj' = eo_spec w \<Longrightarrow> eo_status obj' = eo_status obj \<Longrightarrow> landed name cid (OpWrite op) (Some obj) (Some obj')"
| status_written:
    "fst (directory_get_or_create name (op_spec cid op) a) = Inr obj \<Longrightarrow>
     WriteStatus w \<in> set (snd (replace_status_round name cid (op_spec cid op) (op_transition op) a)) \<Longrightarrow>
     eo_spec obj' = eo_spec obj \<Longrightarrow> eo_status obj' = eo_status w \<Longrightarrow> landed name cid (OpWrite op) (Some obj) (Some obj')"
| eviction_written:
    "da_get a = Inr (Some obj) \<Longrightarrow> WriteStatus w \<in> set (snd (evict_round cid a)) \<Longrightarrow>
     eo_spec obj' = eo_spec obj \<Longrightarrow> eo_status obj' = eo_status w \<Longrightarrow> landed name cid EvictWrite (Some obj) (Some obj')"

definition dir_step :: "string \<Rightarrow> string \<Rightarrow> EdgionController option \<Rightarrow> EdgionController option \<Rightarrow> bool" where
  "dir_step name cid s s' \<longleftrightarrow> (\<exists>cause. landed name cid cause s s')"

abbreviation stored_status :: "EdgionController option \<Rightarrow> EdgionControllerStatus option" where
  "stored_status s \<equiv> Option.bind s eo_status"

lemma status_write_is_transition:
  assumes "fst (directory_get_or_create name spec a) = Inr obj"
    and "WriteStatus w \<in> set (snd (replace_status_round name cid spec transition a))"
  shows "\<exists>st. transition (eo_status obj) (eo_generation obj) = Some st \<and> eo_status w = Some st"
proof -
  obtain r ws where g: "directory_get_or_create name spec a = (r, ws)" by fastforce
  have ws: "WriteStatus x \<notin> set ws" for x
    using g by (auto simp: directory_get_or_create_def split: sum.splits option.splits if_splits)
  from assms(1) g have r: "r = Inr obj" by simp
  show ?thesis
    using assms(2) ws unfolding replace_status_round_def g r
    by (auto simp: Let_def split: sum.splits option.splits ResourceError.splits)
qed

lemma eviction_write:
  assumes "da_get a = Inr (Some obj)" and "WriteStatus w \<in> set (snd (evict_round cid a))"
  shows "\<exists>st. eo_status obj = Some st \<and> \<not> ec_evicted st \<and> eo_status w = Some (evicted_status st)"
  using assms unfolding evict_round_def
  by (auto simp: Let_def split: sum.splits option.splits ResourceError.splits if_splits)

text \<open>What a landed write can do to the status.\<close>

lemma landed_status:
  assumes "landed name cid cause s s'"
  shows "stored_status s' = stored_status s
    \<or> (\<exists>op g st. cause = OpWrite op \<and> op_transition op (stored_status s) g = Some st \<and> stored_status s' = Some st)
    \<or> (\<exists>st. cause = EvictWrite \<and> stored_status s = Some st \<and> \<not> ec_evicted st \<and> stored_status s' = Some (evicted_status st))"
  using assms
proof cases
  case (status_written op a obj w obj')
  then show ?thesis using status_write_is_transition [OF status_written(4,5)] by auto
next
  case (eviction_written a obj w obj')
  then show ?thesis using eviction_write [OF eviction_written(4,5)] by auto
qed auto

lemma dir_step_status:
  assumes "dir_step name cid s s'"
  shows "stored_status s' = stored_status s
    \<or> (\<exists>op g st. op_transition op (stored_status s) g = Some st \<and> stored_status s' = Some st)
    \<or> (\<exists>st. stored_status s = Some st \<and> \<not> ec_evicted st \<and> stored_status s' = Some (evicted_status st))"
  using assms landed_status unfolding dir_step_def by blast

section \<open>Fencing\<close>

text \<open>A later status of the same fenced ownership is that ownership's, and never more online than it was.\<close>

definition follows :: "EdgionControllerStatus \<Rightarrow> EdgionControllerStatus \<Rightarrow> bool" where
  "follows st st' \<longleftrightarrow>
     ec_ownership_epoch st \<le> ec_ownership_epoch st'
     \<and> (ec_ownership_epoch st' = ec_ownership_epoch st \<and> 0 < ec_ownership_epoch st \<longrightarrow>
          ec_ownership_token st' = ec_ownership_token st
          \<and> (ec_phase st' = EcOnline \<longrightarrow>
               ec_phase st = EcOnline \<and> ec_session_id st' = ec_session_id st
               \<and> ec_connected_replica st' = ec_connected_replica st))"

definition newer :: "EdgionControllerStatus \<Rightarrow> EdgionControllerStatus \<Rightarrow> bool" where
  "newer st st' \<longleftrightarrow>
     ec_ownership_epoch st < ec_ownership_epoch st'
     \<or> (ec_ownership_epoch st = 0 \<and> ec_ownership_epoch st' = 0 \<and> ec_observed_at_unix_ms st < ec_observed_at_unix_ms st')"

lemma follows_refl [simp]: "follows st st"
  by (simp add: follows_def)

lemma follows_trans:
  assumes "follows a b" "follows b c"
  shows "follows a c"
proof -
  have le: "ec_ownership_epoch a \<le> ec_ownership_epoch b" "ec_ownership_epoch b \<le> ec_ownership_epoch c"
    using assms by (simp_all add: follows_def)
  have "ec_ownership_epoch b = ec_ownership_epoch a" if "ec_ownership_epoch c = ec_ownership_epoch a"
    using le that by (simp add: order_antisym)
  then show ?thesis
    using assms order_trans [OF le] unfolding follows_def by auto
qed

lemma upsert_some:
  assumes "upsert_transition r t (Some st) g = Some st'"
  shows "newer st st'"
  using assms
  by (cases "reg_ownership_fence r") (auto simp: upsert_transition_def newer_def Let_def not_le not_less split: if_splits)

lemma offline_some:
  assumes "offline_transition session fence t (Some st) g = Some st'"
  shows "\<not> ec_evicted st" "follows st st'" "ec_ownership_epoch st' = 0 \<Longrightarrow> ec_observed_at_unix_ms st \<le> ec_observed_at_unix_ms st'"
proof -
  have current: "\<not> offline_not_current session fence t st"
    and phase: "ec_phase st' = EcOffline" "ec_ownership_token st' = map_option fence_token fence"
      "ec_ownership_epoch st' = (case fence of None \<Rightarrow> 0 | Some f \<Rightarrow> fence_epoch f)"
      "ec_observed_at_unix_ms st' = max (ec_observed_at_unix_ms st) t"
    using assms by (auto simp: offline_transition_def split: if_splits)
  show "\<not> ec_evicted st" using current by (simp add: offline_not_current_def)
  show "ec_ownership_epoch st' = 0 \<Longrightarrow> ec_observed_at_unix_ms st \<le> ec_observed_at_unix_ms st'" using phase by simp
  show "follows st st'"
    using current phase by (cases fence) (auto simp: offline_not_current_def follows_def not_less split: if_splits)
qed

lemma project_some:
  assumes "project_transition ob t (Some st) g = Some st'"
  shows "\<not> ec_evicted st" "follows st st'" "ec_observed_at_unix_ms st \<le> ec_observed_at_unix_ms st'"
  using assms by (auto simp: project_transition_def follows_def Let_def split: if_splits)

lemma newer_follows: "newer st st' \<Longrightarrow> follows st st'"
  by (auto simp: newer_def follows_def)

lemma transition_follows: "op_transition op (Some st) g = Some st' \<Longrightarrow> follows st st'"
  by (cases op) (auto dest: upsert_some newer_follows offline_some(2) project_some(2))

lemma transition_revives: "op_transition op (Some st) g = Some st' \<Longrightarrow> ec_evicted st \<Longrightarrow> newer st st'"
  by (cases op) (auto dest: upsert_some offline_some(1) project_some(1))

lemma transition_time:
  "op_transition op (Some st) g = Some st' \<Longrightarrow> ec_ownership_epoch st' = 0 \<Longrightarrow>
     ec_observed_at_unix_ms st \<le> ec_observed_at_unix_ms st'"
  by (cases op) (auto dest: upsert_some offline_some(3) project_some(3) simp: newer_def)

lemma evicted_status_follows: "follows st (evicted_status st)"
  by (simp add: follows_def evicted_status_def)

lemma dir_step_follows:
  assumes "dir_step name cid s s'" and "stored_status s = Some st"
  shows "\<exists>st'. stored_status s' = Some st' \<and> follows st st' \<and> (st' = st \<or> ec_evicted st \<longrightarrow> st' = st \<or> newer st st')
    \<and> (ec_ownership_epoch st' = 0 \<longrightarrow> ec_observed_at_unix_ms st \<le> ec_observed_at_unix_ms st')"
  using dir_step_status [OF assms(1)] unfolding assms(2)
proof (elim disjE exE conjE)
  fix op g st'
  assume t: "op_transition op (Some st) g = Some st'" "stored_status s' = Some st'"
  then show ?thesis
    using transition_follows [OF t(1)] transition_revives [OF t(1)] transition_time [OF t(1)] by blast
next
  fix st0
  assume "Some st = Some st0" "\<not> ec_evicted st0" "stored_status s' = Some (evicted_status st0)"
  then show ?thesis
    using evicted_status_follows [of st] by (auto simp: evicted_status_def)
qed auto

lemma dir_run_follows:
  assumes "(dir_step name cid)\<^sup>*\<^sup>* s s'" and "stored_status s = Some st"
  shows "\<exists>st'. stored_status s' = Some st' \<and> follows st st' \<and> (ec_evicted st \<longrightarrow> st' = st \<or> newer st st')"
  using assms(1)
proof (induction rule: rtranclp_induct)
  case base
  then show ?case using assms(2) by simp
next
  case (step s1 s2)
  then obtain st1 where st1: "stored_status s1 = Some st1" "follows st st1" "ec_evicted st \<longrightarrow> st1 = st \<or> newer st st1"
    by blast
  from dir_step_follows [OF step.hyps(2) st1(1)] obtain st2 where st2: "stored_status s2 = Some st2"
    "follows st1 st2" "ec_evicted st1 \<longrightarrow> st2 = st1 \<or> newer st1 st2"
    "ec_ownership_epoch st2 = 0 \<longrightarrow> ec_observed_at_unix_ms st1 \<le> ec_observed_at_unix_ms st2"
    by blast
  have "st2 = st \<or> newer st st2" if ev: "ec_evicted st"
  proof (cases "st1 = st")
    case True
    then show ?thesis using st2(3) ev by simp
  next
    case False
    then have n: "newer st st1" using st1(3) ev by blast
    have le: "ec_ownership_epoch st1 \<le> ec_ownership_epoch st2" using st2(2) by (simp add: follows_def)
    show ?thesis
    proof (cases "ec_ownership_epoch st < ec_ownership_epoch st2")
      case True
      then show ?thesis by (simp add: newer_def)
    next
      case same: False
      then have "ec_ownership_epoch st = 0" "ec_ownership_epoch st1 = 0" "ec_observed_at_unix_ms st < ec_observed_at_unix_ms st1"
        using n le by (auto simp: newer_def)
      then show ?thesis using same st2(4) by (auto simp: newer_def word_gt_0)
    qed
  qed
  then show ?case using st2(1) follows_trans [OF st1(2) st2(2)] by blast
qed

text \<open>A status that shows another owner online than before: another session, replica, token or epoch, or one where none was.\<close>

definition takes_over :: "EdgionControllerStatus \<Rightarrow> EdgionControllerStatus \<Rightarrow> bool" where
  "takes_over st st' \<longleftrightarrow>
     ec_phase st' = EcOnline
     \<and> (ec_phase st \<noteq> EcOnline \<or> ec_session_id st \<noteq> ec_session_id st' \<or> ec_connected_replica st \<noteq> ec_connected_replica st'
        \<or> ec_ownership_token st \<noteq> ec_ownership_token st' \<or> ec_ownership_epoch st \<noteq> ec_ownership_epoch st')"

text \<open>Neither the epoch nor, without fencing, the time of observation falls.\<close>

definition advances :: "EdgionControllerStatus \<Rightarrow> EdgionControllerStatus \<Rightarrow> bool" where
  "advances st st' \<longleftrightarrow>
     ec_ownership_epoch st \<le> ec_ownership_epoch st'
     \<and> (ec_ownership_epoch st' = 0 \<longrightarrow> ec_observed_at_unix_ms st \<le> ec_observed_at_unix_ms st')"

lemma newer_advances: "newer a b \<Longrightarrow> advances b c \<Longrightarrow> newer a c"
  by (auto simp: newer_def advances_def) (metis word_gt_0 order_less_le_trans)+

lemma advances_newer: "advances a b \<Longrightarrow> newer b c \<Longrightarrow> newer a c"
  by (auto simp: newer_def advances_def)

lemma advances_trans: "advances a b \<Longrightarrow> advances b c \<Longrightarrow> advances a c"
  by (auto simp: advances_def)

lemma takes_over_chain:
  assumes "takes_over a c" "\<not> takes_over b c"
  shows "takes_over a b"
  using assms by (auto simp: takes_over_def)

lemma transition_advances: "op_transition op (Some st) g = Some st' \<Longrightarrow> advances st st'"
  using transition_follows [of op st g st'] transition_time [of op st g st'] by (auto simp: advances_def follows_def)

text \<open>Which operation a takeover and a larger epoch come from.\<close>

definition by_registration :: "write_cause \<Rightarrow> EdgionControllerStatus \<Rightarrow> EdgionControllerStatus \<Rightarrow> bool" where
  "by_registration cause st st' \<longleftrightarrow>
     (\<exists>r t. cause = OpWrite (Upsert r t) \<and> ec_session_id st' = Some (reg_session_id r)
        \<and> ec_connected_replica st' = reg_connected_replica r \<and> ec_observed_at_unix_ms st' = reg_observed_at_unix_ms r
        \<and> (case reg_ownership_fence r of
             Some f \<Rightarrow> ec_ownership_epoch st < fence_epoch f \<and> ec_ownership_epoch st' = fence_epoch f
                        \<and> ec_ownership_token st' = Some (fence_token f)
           | None \<Rightarrow> ec_ownership_epoch st = 0 \<and> ec_ownership_epoch st' = 0 \<and> ec_ownership_token st' = None
                      \<and> ec_observed_at_unix_ms st < reg_observed_at_unix_ms r))"

lemma upsert_registers:
  assumes "upsert_transition r t (Some st) g = Some st'"
  shows "by_registration (OpWrite (Upsert r t)) st st'"
  using assms
  by (cases "reg_ownership_fence r") (auto simp: upsert_transition_def by_registration_def Let_def not_le not_less split: if_splits)

lemma landed_takeover:
  assumes "landed name cid cause s s'" "stored_status s = Some st"
  shows "\<exists>st'. stored_status s' = Some st' \<and> follows st st' \<and> advances st st'
    \<and> (takes_over st st' \<longrightarrow> by_registration cause st st')
    \<and> (ec_ownership_epoch st < ec_ownership_epoch st' \<longrightarrow>
         by_registration cause st st'
         \<or> (\<exists>session f t. cause = OpWrite (Offline session (Some f) t) \<and> fence_epoch f = ec_ownership_epoch st'
              \<and> ec_ownership_token st' = Some (fence_token f) \<and> ec_session_id st' = Some session))"
  using landed_status [OF assms(1)] unfolding assms(2)
proof (elim disjE exE conjE)
  fix op g st'
  assume c: "cause = OpWrite op" and t: "op_transition op (Some st) g = Some st'" "stored_status s' = Some st'"
  show ?thesis
  proof (cases op)
    case (Upsert r u)
    with t c have "by_registration cause st st'" by (auto intro: upsert_registers)
    with t show ?thesis using transition_follows [OF t(1)] transition_advances [OF t(1)] by blast
  next
    case (Offline session fence u)
    with t have "ec_phase st' = EcOffline" "ec_session_id st' = Some session" "ec_ownership_token st' = map_option fence_token fence"
      "ec_ownership_epoch st' = (case fence of None \<Rightarrow> 0 | Some f \<Rightarrow> fence_epoch f)"
      by (auto simp: offline_transition_def split: if_splits)
    with t c Offline show ?thesis using transition_follows [OF t(1)] transition_advances [OF t(1)]
      by (cases fence) (auto simp: takes_over_def)
  next
    case (Project ob u)
    with t have "\<not> takes_over st st'" "ec_ownership_epoch st' = ec_ownership_epoch st"
      by (auto simp: project_transition_def takes_over_def Let_def split: if_splits)
    with t show ?thesis using transition_follows [OF t(1)] transition_advances [OF t(1)] by auto
  qed
next
  fix st0
  assume "Some st = Some st0" "stored_status s' = Some (evicted_status st0)"
  then show ?thesis
    using evicted_status_follows [of st] by (auto simp: evicted_status_def advances_def takes_over_def)
qed (auto simp: advances_def takes_over_def)

lemma by_registration_newer: "by_registration cause st st' \<Longrightarrow> newer st st'"
  by (auto simp: by_registration_def newer_def split: option.splits)

lemma dir_run_takeover:
  assumes "(dir_step name cid)\<^sup>*\<^sup>* s s'" "stored_status s = Some st"
  shows "\<exists>st'. stored_status s' = Some st' \<and> follows st st' \<and> advances st st' \<and> (takes_over st st' \<longrightarrow> newer st st')"
  using assms(1)
proof (induction rule: rtranclp_induct)
  case base
  then show ?case using assms(2) by (simp add: advances_def takes_over_def)
next
  case (step s1 s2)
  then obtain st1 cause where st1: "stored_status s1 = Some st1" "follows st st1" "advances st st1"
    "takes_over st st1 \<longrightarrow> newer st st1" and l: "landed name cid cause s1 s2"
    by (auto simp: dir_step_def)
  from landed_takeover [OF l st1(1)] obtain st2 where st2: "stored_status s2 = Some st2" "follows st1 st2" "advances st1 st2"
    "takes_over st1 st2 \<longrightarrow> newer st1 st2" using by_registration_newer by blast
  have "newer st st2" if "takes_over st st2"
  proof (cases "takes_over st1 st2")
    case True
    with st2(4) st1(3) show ?thesis by (blast intro: advances_newer)
  next
    case False
    with takes_over_chain [OF that] st1(4) st2(3) show ?thesis by (blast intro: newer_advances)
  qed
  with st2 st1 show ?case by (blast intro: follows_trans advances_trans)
qed

text \<open>
  C12: The directory is fenced. However the writes of all replicas interleave, the ownership epoch of a
  Controller never decreases, and under one fenced ownership the token never changes. A Controller
  shown online by another session, replica, token or epoch than at an earlier moment, or again after it
  was not, is so under a strictly larger epoch or, where no ownership was ever fenced, under a strictly
  later observation. The write that puts it online is a registration of that session and replica, with
  a fence of larger epoch, whose epoch and token the status then has, or without fence, on an unfenced
  status observed strictly earlier; and the only other write that raises the epoch is an offline report
  with that fence.
\<close>

theorem directory_is_fenced:
  assumes "(dir_step name cid)\<^sup>*\<^sup>* s s1" and "landed name cid cause s1 s2" and "stored_status s = Some st"
  shows "\<exists>st1 st2. stored_status s1 = Some st1 \<and> stored_status s2 = Some st2
    \<and> ec_ownership_epoch st \<le> ec_ownership_epoch st1 \<and> ec_ownership_epoch st1 \<le> ec_ownership_epoch st2
    \<and> (ec_ownership_epoch st2 = ec_ownership_epoch st \<and> 0 < ec_ownership_epoch st \<longrightarrow>
         ec_ownership_token st2 = ec_ownership_token st)
    \<and> (takes_over st st2 \<longrightarrow>
         ec_ownership_epoch st < ec_ownership_epoch st2
         \<or> (ec_ownership_epoch st = 0 \<and> ec_ownership_epoch st2 = 0 \<and> ec_observed_at_unix_ms st < ec_observed_at_unix_ms st2))
    \<and> (takes_over st1 st2 \<longrightarrow> by_registration cause st1 st2)
    \<and> (ec_ownership_epoch st1 < ec_ownership_epoch st2 \<longrightarrow>
         by_registration cause st1 st2
         \<or> (\<exists>session f t. cause = OpWrite (Offline session (Some f) t) \<and> fence_epoch f = ec_ownership_epoch st2
              \<and> ec_ownership_token st2 = Some (fence_token f) \<and> ec_session_id st2 = Some session))"
proof -
  from dir_run_takeover [OF assms(1,3)] obtain st1 where st1: "stored_status s1 = Some st1" "advances st st1" by blast
  have "dir_step name cid s1 s2" using assms(2) by (auto simp: dir_step_def)
  with assms(1) have "(dir_step name cid)\<^sup>*\<^sup>* s s2" by (rule rtranclp.rtrancl_into_rtrancl)
  from dir_run_takeover [OF this assms(3)] obtain st2 where st2: "stored_status s2 = Some st2" "follows st st2"
    "takes_over st st2 \<longrightarrow> newer st st2" by blast
  from landed_takeover [OF assms(2) st1(1)] st2(1) have
    "advances st1 st2" "takes_over st1 st2 \<longrightarrow> by_registration cause st1 st2"
    "ec_ownership_epoch st1 < ec_ownership_epoch st2 \<longrightarrow> by_registration cause st1 st2
       \<or> (\<exists>session f t. cause = OpWrite (Offline session (Some f) t) \<and> fence_epoch f = ec_ownership_epoch st2
            \<and> ec_ownership_token st2 = Some (fence_token f) \<and> ec_session_id st2 = Some session)"
    by auto
  with st1 st2 show ?thesis unfolding newer_def follows_def advances_def by blast
qed

text \<open>
  An eviction is durable: whatever runs afterwards, the evicted status stays exactly as it is until a
  registration with a larger epoch arrives, or, without distributed ownership, one observed strictly
  later. A delayed offline report or projection cannot bring the Controller back.
\<close>

theorem eviction_is_durable:
  assumes "(dir_step name cid)\<^sup>*\<^sup>* s s'" and "stored_status s = Some st" and "ec_evicted st"
  shows "stored_status s' = Some st
    \<or> (\<exists>st'. stored_status s' = Some st' \<and> newer st st')"
  using dir_run_follows [OF assms(1,2)] assms(3) by auto

definition example_status :: EdgionControllerStatus where
  "example_status =
     \<lparr>ec_phase = EcOnline, ec_session_id = Some ''s'', ec_cluster = ''c'', ec_environments = [], ec_tags = [],
      ec_connected_replica = None, ec_ownership_token = Some ''t'', ec_ownership_epoch = 1, ec_sync_version = None,
      ec_watch_server_id = None, ec_resource_count = None, ec_resource_counts_by_kind = None,
      ec_stats_updated_unix_ms = None, ec_watch_updated_unix_ms = None, ec_last_seen_time = 5,
      ec_observed_at_unix_ms = 5, ec_evicted = False, ec_observed_generation = None\<rparr>"

definition example_object :: EdgionController where
  "example_object =
     \<lparr>eo_name = ''n'', eo_generation = None, eo_resource_version = Some ''1'',
      eo_spec = \<lparr>ecs_controller_id = ''x'', ecs_cluster = ''c'', ecs_environments = [], ecs_tags = []\<rparr>,
      eo_status = Some example_status\<rparr>"

abbreviation answers_with :: "EdgionController \<Rightarrow> dir_attempt" where
  "answers_with obj \<equiv>
     \<lparr>da_get = Inr (Some obj), da_create = Inl ResConflict, da_replace = Inr obj, da_replace_status = Inr obj\<rparr>"

lemma example_eviction:
  "landed ''n'' ''x'' EvictWrite (Some example_object) (Some (example_object\<lparr>eo_status := Some (evicted_status example_status)\<rparr>))"
proof (rule eviction_written [where a = "answers_with example_object"
      and w = "example_object\<lparr>eo_status := Some (evicted_status example_status)\<rparr>"])
  have "list_all graphic ''s''" by (simp add: graphic_def byte_def)
  then have "identifier_new ''session'' ''s'' = Inr ''s''"
    by (simp add: identifier_new_def string_simps del: has_control.simps list.pred_inject)
  then show "WriteStatus (example_object\<lparr>eo_status := Some (evicted_status example_status)\<rparr>)
      \<in> set (snd (evict_round ''x'' (answers_with example_object)))"
    by (simp add: evict_round_def verify_identity_def transpose_id_def Let_def example_object_def example_status_def)
qed simp_all

definition example_registration :: ControllerRegistration where
  "example_registration =
     \<lparr>reg_controller_id = ''x'', reg_session_id = ''s2'', reg_cluster = ''c'', reg_environments = [], reg_tags = [],
      reg_connected_replica = Some ''r2'', reg_ownership_fence = Some \<lparr>fence_token = ''t2'', fence_epoch = 2\<rparr>,
      reg_observed_at_unix_ms = 4\<rparr>"

definition example_taken :: EdgionController where
  "example_taken =
     example_object\<lparr>eo_status := upsert_transition example_registration 4 (Some (evicted_status example_status)) None\<rparr>"

lemma example_epochs: "\<not> (2 :: u64) \<le> 1"
  by (simp add: word_le_nat_alt)

lemma example_takeover:
  "landed ''n'' ''x'' (OpWrite (Upsert example_registration 4))
     (Some (example_object\<lparr>eo_status := Some (evicted_status example_status)\<rparr>)) (Some example_taken)"
  by (rule status_written [where a = "answers_with (example_object\<lparr>eo_status := Some (evicted_status example_status)\<rparr>)"
        and w = example_taken])
    (simp_all add: example_taken_def replace_status_round_def directory_get_or_create_def verify_identity_def
       example_object_def registration_spec_def example_registration_def upsert_transition_def evicted_status_def
       example_status_def example_epochs Let_def)

theorem directory_is_fenced_witness:
  "(dir_step ''n'' ''x'')\<^sup>*\<^sup>* (Some example_object) (Some (example_object\<lparr>eo_status := Some (evicted_status example_status)\<rparr>))
   \<and> (\<exists>st2. stored_status (Some example_taken) = Some st2
        \<and> by_registration (OpWrite (Upsert example_registration 4)) (evicted_status example_status) st2)"
proof -
  have run: "(dir_step ''n'' ''x'')\<^sup>*\<^sup>* (Some example_object)
      (Some (example_object\<lparr>eo_status := Some (evicted_status example_status)\<rparr>))"
    using example_eviction by (auto simp: dir_step_def intro!: r_into_rtranclp)
  have st: "stored_status (Some example_object) = Some example_status" by (simp add: example_object_def)
  have over: "takes_over (evicted_status example_status) st2" if "stored_status (Some example_taken) = Some st2" for st2
    using that by (auto simp: takes_over_def evicted_status_def example_taken_def upsert_transition_def Let_def
        example_registration_def example_status_def example_epochs)
  from directory_is_fenced [OF run example_takeover st] run over show ?thesis by auto
qed

text \<open>
  Reports that only mean to touch the status rewrite the spec first: on an object whose spec carries
  the registered cluster, environments or tags, \<open>mark_offline\<close> and \<open>project_runtime\<close> submit a
  replacement that empties them, also when the report belongs to a session the directory then
  refuses.
\<close>

theorem refused_report_blanks_spec:
  assumes "ecs_controller_id (eo_spec obj) = cid" and "eo_spec obj \<noteq> bare_spec cid" and "da_get a = Inr (Some obj)"
    and "representable observed_at"
  shows "(\<exists>ws. snd (directory_mark_offline sha256_hex representable cid session fence observed_at (a # as)) =
        WriteReplace (obj\<lparr>eo_spec := bare_spec cid\<rparr>) # ws)
    \<and> (\<forall>ob. obs_controller_id ob = cid \<and> obs_observed_at_unix_ms ob = observed_at \<longrightarrow>
        (\<exists>ws. snd (directory_project_runtime sha256_hex representable ob (a # as)) =
          WriteReplace (obj\<lparr>eo_spec := bare_spec cid\<rparr>) # ws))"
proof -
  have get: "directory_get_or_create name (bare_spec cid) a = (da_replace a, [WriteReplace (obj\<lparr>eo_spec := bare_spec cid\<rparr>)])" for name
    using assms(1,2,3) by (simp add: directory_get_or_create_def bare_spec_def)
  have round: "\<exists>ws. snd (replace_status_round name cid (bare_spec cid) transition a) =
      WriteReplace (obj\<lparr>eo_spec := bare_spec cid\<rparr>) # ws" for name transition
    unfolding replace_status_round_def get by (auto simp: Let_def split: sum.splits option.splits ResourceError.splits)
  have retry: "\<exists>ws. snd (replace_status_with_retry sha256_hex cid (bare_spec cid) transition (a # as)) =
      WriteReplace (obj\<lparr>eo_spec := bare_spec cid\<rparr>) # ws" for transition
    using round [of "controller_resource_name sha256_hex cid" transition]
    by (auto simp: replace_status_with_retry_def DIRECTORY_CONFLICT_RETRIES_def numeral_eq_Suc split: prod.splits sum.splits)
  have "\<exists>ws. snd (directory_mark_offline sha256_hex representable cid session fence observed_at (a # as)) =
      WriteReplace (obj\<lparr>eo_spec := bare_spec cid\<rparr>) # ws"
    using retry [of "offline_transition session fence observed_at"] assms(4)
    by (auto simp: directory_mark_offline_def time_from_millis_def split: prod.splits)
  moreover have "\<exists>ws. snd (directory_project_runtime sha256_hex representable ob (a # as)) =
      WriteReplace (obj\<lparr>eo_spec := bare_spec cid\<rparr>) # ws"
    if "obs_controller_id ob = cid" "obs_observed_at_unix_ms ob = observed_at" for ob
    using retry [of "project_transition ob observed_at"] assms(4) that
    by (auto simp: directory_project_runtime_def time_from_millis_def)
  ultimately show ?thesis by blast
qed

theorem refused_report_blanks_spec_witness:
  "\<exists>ws. snd (directory_mark_offline (\<lambda>_. []) (\<lambda>_. True) ''x'' ''other'' None 3 [answers_with example_object]) =
     WriteReplace (example_object\<lparr>eo_spec := bare_spec ''x''\<rparr>) # ws"
  by (rule conjunct1 [OF refused_report_blanks_spec]) (simp_all add: example_object_def bare_spec_def)

lemma example_blanked:
  "landed ''n'' ''x'' (OpWrite (Offline ''s'' None 7)) (Some (example_object\<lparr>eo_status := Some (evicted_status example_status)\<rparr>))
     (Some (example_object\<lparr>eo_spec := bare_spec ''x'', eo_status := Some (evicted_status example_status)\<rparr>))"
  by (rule spec_replaced [where a = "answers_with (example_object\<lparr>eo_status := Some (evicted_status example_status)\<rparr>)"
        and w = "example_object\<lparr>eo_spec := bare_spec ''x'', eo_status := Some (evicted_status example_status)\<rparr>"])
     (simp_all add: replace_status_round_def directory_get_or_create_def verify_identity_def example_object_def bare_spec_def
        offline_transition_def offline_not_current_def evicted_status_def)

theorem eviction_is_durable_witness:
  "(dir_step ''n'' ''x'')\<^sup>*\<^sup>* (Some (example_object\<lparr>eo_status := Some (evicted_status example_status)\<rparr>))
     (Some (example_object\<lparr>eo_spec := bare_spec ''x'', eo_status := Some (evicted_status example_status)\<rparr>))
   \<and> ec_evicted (evicted_status example_status)"
proof -
  have run: "(dir_step ''n'' ''x'')\<^sup>*\<^sup>* (Some (example_object\<lparr>eo_status := Some (evicted_status example_status)\<rparr>))
     (Some (example_object\<lparr>eo_spec := bare_spec ''x'', eo_status := Some (evicted_status example_status)\<rparr>))"
    using example_blanked by (auto simp: dir_step_def intro!: r_into_rtranclp)
  have st: "stored_status (Some (example_object\<lparr>eo_status := Some (evicted_status example_status)\<rparr>)) =
      Some (evicted_status example_status)" by simp
  have ev: "ec_evicted (evicted_status example_status)" by (simp add: evicted_status_def)
  from eviction_is_durable [OF run st ev] run ev show ?thesis by blast
qed

section \<open>Names and listings\<close>

definition label_char :: "char \<Rightarrow> bool" where
  "label_char c \<longleftrightarrow> is_ascii_lowercase c \<or> is_ascii_digit c"

definition dns_label :: "string \<Rightarrow> bool" where
  "dns_label s \<longleftrightarrow>
     s \<noteq> [] \<and> length s \<le> 63 \<and> list_all (\<lambda>c. label_char c \<or> c = CHR ''-'') s \<and> label_char (hd s) \<and> label_char (last s)"

lemma lowered_label_char: "is_ascii_alphanumeric c \<Longrightarrow> label_char (to_ascii_lowercase_char c)"
  by (auto simp: label_char_def to_ascii_lowercase_char_def string_simps byte_def)

lemma dash_not_label_char: "\<not> label_char (CHR ''-'')"
  by code_simp

definition prefix_inv :: "string \<Rightarrow> bool" where
  "prefix_inv p \<longleftrightarrow> length p \<le> 50 \<and> list_all (\<lambda>c. label_char c \<or> c = CHR ''-'') p \<and> (p \<noteq> [] \<longrightarrow> label_char (hd p))"

lemma name_prefix_inv: "prefix_inv p \<Longrightarrow> length p < 50 \<Longrightarrow> prefix_inv (name_prefix p pd cs)"
proof (induction p pd cs rule: name_prefix.induct)
  case (2 p pd c cs)
  define m where "m = (if is_ascii_alphanumeric c then to_ascii_lowercase_char c else CHR ''-'')"
  have m: "label_char m \<or> m = CHR ''-''" unfolding m_def using lowered_label_char by auto
  show ?case
  proof (cases "m = CHR ''-'' \<and> (pd \<or> p = [])")
    case True
    then show ?thesis using "2.IH"(1) [OF m_def] "2.prems" by (simp add: m_def [symmetric])
  next
    case False
    have inv: "prefix_inv (p @ [m])"
      using "2.prems" m False by (cases p) (auto simp: prefix_inv_def)
    have step: "name_prefix p pd (c # cs) =
        (if length (p @ [m]) = 50 then p @ [m] else name_prefix (p @ [m]) (m = CHR ''-'') cs)"
      unfolding name_prefix.simps Let_def m_def [symmetric] using False by (simp only: if_False)
    show ?thesis
    proof (cases "length (p @ [m]) = 50")
      case True
      then show ?thesis using inv unfolding step by simp
    next
      case short: False
      then have "prefix_inv (name_prefix (p @ [m]) (m = CHR ''-'') cs)"
        using "2.IH"(2) [OF m_def False refl] inv "2.prems"(2) by simp
      then show ?thesis unfolding step using short by simp
    qed
  qed
qed simp

lemma pop_dashes_inv:
  assumes "prefix_inv p"
  shows "prefix_inv (pop_dashes p)"
proof -
  have "p = pop_dashes p @ rev (takeWhile (\<lambda>c. c = CHR ''-'') (rev p))"
    unfolding pop_dashes_def by (metis rev_append rev_rev_ident takeWhile_dropWhile_id)
  then obtain q where q: "p = pop_dashes p @ q" ..
  have "prefix_inv (r @ q) \<Longrightarrow> prefix_inv r" for r
    by (auto simp: prefix_inv_def)
  with assms q show ?thesis by metis
qed

lemma label_of_prefix:
  assumes "prefix_inv p" "p \<noteq> []" "length d = 12" "list_all label_char d"
  shows "dns_label (p @ ''-'' @ d)"
proof -
  have d: "d \<noteq> []" using assms(3) by auto
  have "label_char (last d)" using d assms(4) last_in_set by (auto simp: list_all_iff)
  moreover have "list_all (\<lambda>c. label_char c \<or> c = CHR ''-'') d"
    using assms(4) by (auto simp: list_all_iff)
  ultimately show ?thesis
    using assms(1,2,3) d by (simp add: dns_label_def prefix_inv_def)
qed

lemma same_tail: "length d = 12 \<Longrightarrow> length d' = 12 \<Longrightarrow> p @ ''-'' @ d = p' @ ''-'' @ d' \<Longrightarrow> d = d'"
  by (metis append_assoc append_eq_append_conv)

text \<open>What SHA-256 in lower-case hexadecimal is documented to produce.\<close>

definition hex_digest :: "(string \<Rightarrow> string) \<Rightarrow> bool" where
  "hex_digest sha256_hex \<longleftrightarrow>
     (\<forall>s. 12 \<le> length (sha256_hex s)
        \<and> list_all (\<lambda>c. is_ascii_digit c \<or> (97 \<le> byte c \<and> byte c \<le> 102)) (sha256_hex s))"

text \<open>
  The object name of a Controller is a DNS label of at most 63 characters for every id, whatever
  bytes it has, and two ids share a name only when the first 12 digits of their digests agree.
\<close>

theorem controller_resource_name_is_label:
  assumes "hex_digest sha256_hex"
  shows "dns_label (controller_resource_name sha256_hex cid)
    \<and> (controller_resource_name sha256_hex cid = controller_resource_name sha256_hex cid' \<longrightarrow>
         take 12 (sha256_hex cid) = take 12 (sha256_hex cid'))"
proof -
  let ?d = "\<lambda>c. take 12 (sha256_hex c)"
  let ?p = "\<lambda>c. if pop_dashes (name_prefix [] False c) = [] then ''controller'' else pop_dashes (name_prefix [] False c)"
  have name: "controller_resource_name sha256_hex c = ?p c @ ''-'' @ ?d c" for c
    by (simp add: controller_resource_name_def Let_def)
  have len: "length (?d c) = 12" for c
  proof -
    have "12 \<le> length (sha256_hex c)" using assms unfolding hex_digest_def by blast
    then show ?thesis by simp
  qed
  have digest: "list_all label_char (?d c)" for c
    using assms by (fastforce simp: hex_digest_def list_all_iff label_char_def string_simps dest!: in_set_takeD)
  have "prefix_inv (name_prefix [] False cid)"
    by (rule name_prefix_inv) (simp_all add: prefix_inv_def)
  then have "prefix_inv (pop_dashes (name_prefix [] False cid))"
    by (rule pop_dashes_inv)
  moreover have "prefix_inv ''controller''" by code_simp
  ultimately have p: "prefix_inv (?p cid)" "?p cid \<noteq> []" by simp_all
  then have "dns_label (?p cid @ ''-'' @ ?d cid)"
    by (intro label_of_prefix len digest)
  moreover have "?d cid = ?d cid'" if "?p cid @ ''-'' @ ?d cid = ?p cid' @ ''-'' @ ?d cid'"
    using that same_tail [OF len len] by blast
  ultimately show ?thesis unfolding name by (intro conjI impI)
qed

theorem controller_resource_name_is_label_witness:
  "hex_digest (\<lambda>_. ''0123456789abcdef'') \<and> dns_label (controller_resource_name (\<lambda>_. ''0123456789abcdef'') ''Cluster/A_1'')"
proof -
  have h: "hex_digest (\<lambda>_. ''0123456789abcdef'')"
    by (simp add: hex_digest_def string_simps byte_def)
  from controller_resource_name_is_label [OF h] h show ?thesis by blast
qed

end
