(* ===== verification/Lease.thy ===== *)
theory Lease
  imports Controller_Core Decimal Kube_Api
begin

text \<open>
  Fenced coordination over Kubernetes Lease objects:
  \<open>crates/center-adapter-kubernetes/src/lease.rs\<close>.

  The API server and the clocks are the environment. An operation is a loop of at most
  \<open>MAX_CONFLICT_RETRIES\<close> attempts; an attempt is given the answers of the environment to its calls
  (the wall clock, the monotonic clock, the fresh token, the result of the read and the result of
  the write) and the operation returns, besides its result, the Lease objects it submitted. Of an
  object the model has the fields the code touches. SHA-256 is the argument \<open>sha256_hex\<close>; the
  quoting that error messages apply to identifiers is left out.

  The section on histories puts the writes of all replicas in one sequence, with the documented
  optimistic concurrency of the API server as the premises of its step relation.
\<close>

section \<open>Data\<close>

definition ROLE_ANNOTATION :: string where
  "ROLE_ANNOTATION = ''center.edgion.io/coordination-role''"

definition TOKEN_ANNOTATION :: string where
  "TOKEN_ANNOTATION = ''center.edgion.io/fencing-token''"

definition EPOCH_ANNOTATION :: string where
  "EPOCH_ANNOTATION = ''center.edgion.io/fencing-epoch''"

definition MAX_CONFLICT_RETRIES :: nat where
  "MAX_CONFLICT_RETRIES = 8"

datatype LeaseError = LeaseConflict | LeaseOther string

record LeaseSpec =
  spec_holder_identity :: "string option"
  spec_lease_duration_seconds :: "int option"
  spec_acquire_time :: "int option"
  spec_renew_time :: "int option"
  spec_lease_transitions :: "int option"

record LeaseObject =
  lm_name :: "string option"
  lm_namespace :: "string option"
  lm_resource_version :: "string option"
  lm_annotations :: "(string, string) hmap option"
  l_spec :: "LeaseSpec option"

type_synonym observations = "(string, string \<times> nat) hmap"

record LeaseCoordinator =
  co_holder :: string
  co_lease_duration_ms :: nat

section \<open>Helpers\<close>

definition adapter_error :: "LeaseError \<Rightarrow> CoreError" where
  "adapter_error error =
     (case error of
        LeaseConflict \<Rightarrow> Conflict ''Kubernetes Lease resourceVersion conflict''
      | LeaseOther message \<Rightarrow> Adapter message)"

text \<open>\<open>as_secs() as i32\<close>; the configuration check keeps it in range.\<close>

definition duration_seconds :: "LeaseCoordinator \<Rightarrow> int" where
  "duration_seconds co = sint (of_nat (co_lease_duration_ms co div 1000) :: 32 word)"

definition leadership :: "LeaseCoordinator \<Rightarrow> CoordinationRole \<Rightarrow> string \<Rightarrow> u64 \<Rightarrow> Leadership" where
  "leadership co role token epoch =
     \<lparr>lead_role = role, lead_holder = co_holder co, lead_fencing_token = token,
      lead_fencing_epoch = epoch, lead_valid_for_millis = of_nat (co_lease_duration_ms co)\<rparr>"

definition annotation :: "string \<Rightarrow> LeaseObject \<Rightarrow> string option" where
  "annotation key lease = Option.bind (lm_annotations lease) (\<lambda>a. map_of a key)"

definition verify_role :: "LeaseObject \<Rightarrow> string \<Rightarrow> unit CoreResult" where
  "verify_role lease role_key =
     (case annotation ROLE_ANNOTATION lease of
        Some stored \<Rightarrow>
          if stored = role_key then Inr ()
          else Inl (Conflict (''Kubernetes Lease name collision between '' @ stored @ '' and '' @ role_key))
      | None \<Rightarrow> Inl (Conflict ''managed Kubernetes Lease omitted coordination role annotation''))"

definition lease_token :: "LeaseObject \<Rightarrow> string option" where
  "lease_token lease = annotation TOKEN_ANNOTATION lease"

definition lease_epoch :: "LeaseObject \<Rightarrow> u64 CoreResult" where
  "lease_epoch lease =
     (case annotation EPOCH_ANNOTATION lease of
        None \<Rightarrow> Inr 0
      | Some text \<Rightarrow>
          (case parse_u64 text of
             None \<Rightarrow> Inl (Conflict ''Kubernetes Lease has invalid fencing epoch'')
           | Some e \<Rightarrow> Inr e))"

definition lease_holder :: "LeaseObject \<Rightarrow> string option" where
  "lease_holder lease = Option.bind (l_spec lease) spec_holder_identity"

definition is_active :: "string \<Rightarrow> LeaseObject \<Rightarrow> nat \<Rightarrow> observations \<Rightarrow> bool \<times> observations" where
  "is_active name lease now obs =
     (case l_spec lease of
        None \<Rightarrow> (False, obs)
      | Some spec \<Rightarrow>
          if (case spec_holder_identity spec of None \<Rightarrow> True | Some h \<Rightarrow> h = []) then (False, obs)
          else
            let duration = (case spec_lease_duration_seconds spec of None \<Rightarrow> 0 | Some d \<Rightarrow> d)
            in if duration \<le> 0 then (False, obs)
               else
                 let marker = (case lm_resource_version lease of
                                 Some v \<Rightarrow> v
                               | None \<Rightarrow> (case lease_token lease of None \<Rightarrow> [] | Some t \<Rightarrow> t));
                     (observed_at, obs') =
                       (case map_of obs name of
                          Some (seen, at) \<Rightarrow>
                            if seen = marker then (at, obs) else (now, AList.update name (marker, now) obs)
                        | None \<Rightarrow> (now, AList.update name (marker, now) obs))
                 in (now - observed_at < 1000 * nat duration, obs'))"

text \<open>\<open>i32::saturating_add\<close>\<close>

definition saturating_add_i32 :: "int \<Rightarrow> int \<Rightarrow> int" where
  "saturating_add_i32 a b = max (- (2 ^ 31)) (min (2 ^ 31 - 1) (a + b))"

definition acquired_lease ::
  "LeaseCoordinator \<Rightarrow> string \<Rightarrow> string \<Rightarrow> LeaseObject option \<Rightarrow> int \<Rightarrow> string \<Rightarrow> u64 \<Rightarrow> LeaseObject" where
  "acquired_lease co name role_key current now token epoch =
     (let annotations0 = (case Option.bind current lm_annotations of None \<Rightarrow> [] | Some a \<Rightarrow> a);
          annotations = AList.update EPOCH_ANNOTATION (show_u64 epoch)
                          (AList.update TOKEN_ANNOTATION token
                             (AList.update ROLE_ANNOTATION role_key annotations0));
          previous_holder = Option.bind current lease_holder;
          transitions =
            saturating_add_i32
              (case Option.bind (Option.bind current l_spec) spec_lease_transitions of None \<Rightarrow> 0 | Some n \<Rightarrow> n)
              (case previous_holder of None \<Rightarrow> 0 | Some h \<Rightarrow> if h \<noteq> co_holder co then 1 else 0)
      in \<lparr>lm_name = Some name, lm_namespace = Option.bind current lm_namespace,
          lm_resource_version = Option.bind current lm_resource_version,
          lm_annotations = Some annotations,
          l_spec = Some \<lparr>spec_holder_identity = Some (co_holder co),
                         spec_lease_duration_seconds = Some (duration_seconds co),
                         spec_acquire_time = Some now, spec_renew_time = Some now,
                         spec_lease_transitions = Some transitions\<rparr>\<rparr>)"

fun role_key :: "CoordinationRole \<Rightarrow> string" where
  "role_key (ControllerOwner cid) = ''controller-owner:'' @ cid"
| "role_key (Maintenance name) = ''maintenance:'' @ name"

definition lease_name :: "(string \<Rightarrow> string) \<Rightarrow> CoordinationRole \<Rightarrow> string" where
  "lease_name sha256_hex role =
     (let kind = (case role of ControllerOwner _ \<Rightarrow> ''controller-owner'' | Maintenance _ \<Rightarrow> ''maintenance'')
      in kind @ ''-'' @ take 16 (sha256_hex (role_key role)))"

definition validate_config :: "string \<Rightarrow> string \<Rightarrow> nat \<Rightarrow> unit CoreResult" where
  "validate_config namespace holder duration_ms =
     (if trim namespace = [] \<or> has_control namespace then
        Inl (Adapter ''Kubernetes coordination namespace must be non-empty'')
      else if trim holder = [] \<or> 253 < length holder \<or> has_control holder then
        Inl (Adapter ''Kubernetes coordination holder must be 1..=253 bytes'')
      else if duration_ms < 3000 \<or> 2147483647 * 1000 < duration_ms then
        Inl (Adapter ''Kubernetes Lease duration must be between 3 seconds and i32::MAX seconds'')
      else Inr ())"

section \<open>Operations\<close>

record attempt =
  at_wall :: int
  at_mono :: nat
  at_token :: string
  at_get :: "LeaseError + LeaseObject option"
  at_write :: "LeaseError + unit"

text \<open>
  One round of each loop: \<open>Inl\<close> the value the operation returns, \<open>Inr ()\<close> to go round again after a
  conflict; then the observations and the object submitted, if any.
\<close>

type_synonym 'a round = "('a CoreResult + unit) \<times> observations \<times> LeaseObject option"

definition acquire_round ::
  "(string \<Rightarrow> string) \<Rightarrow> LeaseCoordinator \<Rightarrow> CoordinationRole \<Rightarrow> attempt \<Rightarrow> observations \<Rightarrow> Leadership round" where
  "acquire_round sha256_hex co role a obs =
     (let key = role_key role; name = lease_name sha256_hex role
      in case at_get a of
           Inl error \<Rightarrow> (Inl (Inl (adapter_error error)), obs, None)
         | Inr (Some current) \<Rightarrow>
             (case verify_role current key of
                Inl e \<Rightarrow> (Inl (Inl e), obs, None)
              | Inr () \<Rightarrow>
                  let (active, obs') = is_active name current (at_mono a) obs
                  in if active \<and> lease_holder current \<noteq> Some (co_holder co) then
                       (Inl (Inl (Conflict (''coordination role '' @ key @ '' is held by another replica''))), obs', None)
                     else
                       (case lease_epoch current of
                          Inl e \<Rightarrow> (Inl (Inl e), obs', None)
                        | Inr e0 \<Rightarrow>
                            (case checked_add_u64 e0 1 of
                               None \<Rightarrow> (Inl (Inl (Conflict ''Kubernetes fencing epoch exhausted'')), obs', None)
                             | Some epoch \<Rightarrow>
                                 let replacement = acquired_lease co name key (Some current) (at_wall a) (at_token a) epoch
                                 in (case at_write a of
                                       Inr () \<Rightarrow> (Inl (Inr (leadership co role (at_token a) epoch)), obs', Some replacement)
                                     | Inl LeaseConflict \<Rightarrow> (Inr (), obs', Some replacement)
                                     | Inl error \<Rightarrow> (Inl (Inl (adapter_error error)), obs', Some replacement)))))
         | Inr None \<Rightarrow>
             let lease = acquired_lease co name key None (at_wall a) (at_token a) 1
             in (case at_write a of
                   Inr () \<Rightarrow> (Inl (Inr (leadership co role (at_token a) 1)), obs, Some lease)
                 | Inl LeaseConflict \<Rightarrow> (Inr (), obs, Some lease)
                 | Inl error \<Rightarrow> (Inl (Inl (adapter_error error)), obs, Some lease)))"

text \<open>
  The ownership test of \<open>renew\<close> and \<open>release\<close>; the epoch is only parsed when holder and token match.
\<close>

definition owns_lease :: "LeaseCoordinator \<Rightarrow> Leadership \<Rightarrow> LeaseObject \<Rightarrow> bool CoreResult" where
  "owns_lease co l lease =
     (if lease_holder lease = Some (co_holder co) \<and> lease_token lease = Some (lead_fencing_token l)
      then and_then (lease_epoch lease) (\<lambda>e. Inr (e = lead_fencing_epoch l))
      else Inr False)"

definition default_spec :: LeaseSpec where
  "default_spec =
     \<lparr>spec_holder_identity = None, spec_lease_duration_seconds = None, spec_acquire_time = None,
      spec_renew_time = None, spec_lease_transitions = None\<rparr>"

definition renewed_lease :: "LeaseCoordinator \<Rightarrow> int \<Rightarrow> LeaseObject \<Rightarrow> LeaseObject" where
  "renewed_lease co now lease =
     lease\<lparr>l_spec := Some ((case l_spec lease of None \<Rightarrow> default_spec | Some s \<Rightarrow> s)
              \<lparr>spec_renew_time := Some now,
               spec_lease_duration_seconds := Some (duration_seconds co)\<rparr>)\<rparr>"

definition released_lease :: "int \<Rightarrow> LeaseObject \<Rightarrow> LeaseObject" where
  "released_lease now lease =
     lease\<lparr>lm_annotations :=
              Some (AList.delete TOKEN_ANNOTATION
                      (case lm_annotations lease of None \<Rightarrow> [] | Some a \<Rightarrow> a)),
           l_spec := Some ((case l_spec lease of None \<Rightarrow> default_spec | Some s \<Rightarrow> s)
              \<lparr>spec_holder_identity := None, spec_renew_time := Some now\<rparr>)\<rparr>"

definition owned_round ::
  "LeaseCoordinator \<Rightarrow> Leadership \<Rightarrow> (LeaseObject \<Rightarrow> LeaseObject) \<Rightarrow> 'a \<Rightarrow> 'a \<Rightarrow> attempt \<Rightarrow> ('a CoreResult + unit) \<times> LeaseObject option" where
  "owned_round co l update lost done a =
     (case at_get a of
        Inl error \<Rightarrow> (Inl (Inl (adapter_error error)), None)
      | Inr None \<Rightarrow> (Inl (Inr lost), None)
      | Inr (Some lease) \<Rightarrow>
          (case and_then (verify_role lease (role_key (lead_role l))) (\<lambda>_. owns_lease co l lease) of
             Inl e \<Rightarrow> (Inl (Inl e), None)
           | Inr owns \<Rightarrow>
               if \<not> owns then (Inl (Inr lost), None)
               else
                 (case at_write a of
                    Inr () \<Rightarrow> (Inl (Inr done), Some (update lease))
                  | Inl LeaseConflict \<Rightarrow> (Inr (), Some (update lease))
                  | Inl error \<Rightarrow> (Inl (Inl (adapter_error error)), Some (update lease)))))"

definition renew_round ::
  "LeaseCoordinator \<Rightarrow> Leadership \<Rightarrow> attempt \<Rightarrow> (RenewalOutcome CoreResult + unit) \<times> LeaseObject option" where
  "renew_round co l a =
     owned_round co l (renewed_lease co (at_wall a)) RenewalLost
       (Renewed (leadership co (lead_role l) (lead_fencing_token l) (lead_fencing_epoch l))) a"

definition release_round ::
  "LeaseCoordinator \<Rightarrow> Leadership \<Rightarrow> attempt \<Rightarrow> (ReleaseOutcome CoreResult + unit) \<times> LeaseObject option" where
  "release_round co l a = owned_round co l (released_lease (at_wall a)) ReleaseLost Released a"

text \<open>
  The loops. \<open>None\<close> when the environment has not answered yet.
\<close>

fun acquire_loop ::
  "(string \<Rightarrow> string) \<Rightarrow> LeaseCoordinator \<Rightarrow> CoordinationRole \<Rightarrow> nat \<Rightarrow> attempt list \<Rightarrow> observations
     \<Rightarrow> Leadership CoreResult option \<times> observations" where
  "acquire_loop sha co role 0 as obs =
     (Some (Inl (Conflict (''coordination role '' @ role_key role @ '' remained conflicted after 8 attempts''))), obs)"
| "acquire_loop sha co role (Suc n) [] obs = (None, obs)"
| "acquire_loop sha co role (Suc n) (a # as) obs =
     (case acquire_round sha co role a obs of
        (Inl result, obs', _) \<Rightarrow> (Some result, obs')
      | (Inr (), obs', _) \<Rightarrow> acquire_loop sha co role n as obs')"

fun owned_loop ::
  "(attempt \<Rightarrow> ('a CoreResult + unit) \<times> LeaseObject option) \<Rightarrow> CoreError \<Rightarrow> nat \<Rightarrow> attempt list
     \<Rightarrow> 'a CoreResult option" where
  "owned_loop rnd exhausted 0 as = Some (Inl exhausted)"
| "owned_loop rnd exhausted (Suc n) [] = None"
| "owned_loop rnd exhausted (Suc n) (a # as) =
     (case rnd a of
        (Inl result, _) \<Rightarrow> Some result
      | (Inr (), _) \<Rightarrow> owned_loop rnd exhausted n as)"

definition acquire ::
  "(string \<Rightarrow> string) \<Rightarrow> LeaseCoordinator \<Rightarrow> CoordinationRole \<Rightarrow> attempt list \<Rightarrow> observations
     \<Rightarrow> Leadership CoreResult option \<times> observations" where
  "acquire sha co role as obs = acquire_loop sha co role MAX_CONFLICT_RETRIES as obs"

definition renew :: "LeaseCoordinator \<Rightarrow> Leadership \<Rightarrow> attempt list \<Rightarrow> RenewalOutcome CoreResult option" where
  "renew co l as =
     owned_loop (renew_round co l)
       (Conflict (''coordination role '' @ role_key (lead_role l) @ '' renewal remained conflicted''))
       MAX_CONFLICT_RETRIES as"

definition release :: "LeaseCoordinator \<Rightarrow> Leadership \<Rightarrow> attempt list \<Rightarrow> ReleaseOutcome CoreResult option" where
  "release co l as =
     owned_loop (release_round co l)
       (Conflict (''coordination role '' @ role_key (lead_role l) @ '' release remained conflicted''))
       MAX_CONFLICT_RETRIES as"

section \<open>Histories\<close>

text \<open>
  The Lease of one role over time: the stored object, all objects that were ever stored, the
  resource versions in use and the leaderships granted so far, latest first. A replica acts on an
  object it read at some earlier point. The premises on the stored object are the documented
  behaviour of the API server: a create succeeds only if there is no object, a replace only if the
  submitted resource version is the stored one, and a write gets a fresh resource version. Nobody
  else writes or deletes the object.
\<close>

record lease_history =
  lh_stored :: "LeaseObject option"
  lh_past :: "LeaseObject set"
  lh_versions :: "string set"
  lh_granted :: "Leadership list"

definition commit_lease :: "string \<Rightarrow> LeaseObject \<Rightarrow> lease_history \<Rightarrow> lease_history" where
  "commit_lease v lease h =
     (let lease' = lease\<lparr>lm_resource_version := Some v\<rparr>
      in h\<lparr>lh_stored := Some lease', lh_past := insert lease' (lh_past h),
           lh_versions := insert v (lh_versions h)\<rparr>)"

definition api_accepts :: "LeaseObject option \<Rightarrow> LeaseObject \<Rightarrow> lease_history \<Rightarrow> bool" where
  "api_accepts read submitted h \<longleftrightarrow>
     (case read of
        None \<Rightarrow> lh_stored h = None
      | Some _ \<Rightarrow> (\<exists>cur. lh_stored h = Some cur \<and> lm_resource_version cur = lm_resource_version submitted))"

inductive lease_step :: "(string \<Rightarrow> string) \<Rightarrow> CoordinationRole \<Rightarrow> lease_history \<Rightarrow> lease_history \<Rightarrow> bool"
  for sha role where
  acquired: "lease_step sha role h ((commit_lease v submitted h)\<lparr>lh_granted := l # lh_granted h\<rparr>)"
    if "at_get a = Inr read" "\<forall>lease. read = Some lease \<longrightarrow> lease \<in> lh_past h"
      "acquire_round sha co role a obs = (Inl (Inr l), obs', Some submitted)"
      "api_accepts read submitted h" "v \<notin> lh_versions h"
| renewed: "lease_step sha role h (commit_lease v submitted h)"
    if "at_get a = Inr (Some lease)" "lease \<in> lh_past h" "lead_role l = role"
      "renew_round co l a = (Inl (Inr (Renewed l')), Some submitted)"
      "api_accepts (Some lease) submitted h" "v \<notin> lh_versions h"
| released: "lease_step sha role h (commit_lease v submitted h)"
    if "at_get a = Inr (Some lease)" "lease \<in> lh_past h" "lead_role l = role"
      "release_round co l a = (Inl (Inr Released), Some submitted)"
      "api_accepts (Some lease) submitted h" "v \<notin> lh_versions h"

text \<open>
  A write may also land although its answer is an error or never arrives; the replica then has no
  leadership to show for it. \<open>lease_landing\<close> adds these writes to the acknowledged ones.
\<close>

inductive lease_landing :: "(string \<Rightarrow> string) \<Rightarrow> CoordinationRole \<Rightarrow> lease_history \<Rightarrow> lease_history \<Rightarrow> bool"
  for sha role where
  acknowledged: "lease_landing sha role h h'" if "lease_step sha role h h'"
| landed_acquire: "lease_landing sha role h (commit_lease v submitted h)"
    if "at_get a = Inr read" "\<forall>lease. read = Some lease \<longrightarrow> lease \<in> lh_past h"
      "acquire_round sha co role a obs = (out, obs', Some submitted)" "at_write a \<noteq> Inr ()"
      "api_accepts read submitted h" "v \<notin> lh_versions h"
| landed_owned: "lease_landing sha role h (commit_lease v submitted h)"
    if "at_get a = Inr (Some lease)" "lease \<in> lh_past h" "lead_role l = role"
      "renew_round co l a = (renewal, Some submitted) \<or> release_round co l a = (outcome, Some submitted)"
      "at_write a \<noteq> Inr ()" "api_accepts (Some lease) submitted h" "v \<notin> lh_versions h"

definition initial_history :: lease_history where
  "initial_history = \<lparr>lh_stored = None, lh_past = {}, lh_versions = {}, lh_granted = []\<rparr>"

text \<open>The epoch the stored object carries; zero when there is none.\<close>

definition stored_epoch :: "lease_history \<Rightarrow> nat" where
  "stored_epoch h =
     (case lh_stored h of
        None \<Rightarrow> 0
      | Some lease \<Rightarrow> (case lease_epoch lease of Inl _ \<Rightarrow> 0 | Inr e \<Rightarrow> unat e))"

definition granted_epochs :: "lease_history \<Rightarrow> nat list" where
  "granted_epochs h = map (\<lambda>l. unat (lead_fencing_epoch l)) (lh_granted h)"

definition history_inv :: "lease_history \<Rightarrow> bool" where
  "history_inv h \<longleftrightarrow>
     (\<forall>lease. lh_stored h = Some lease \<longrightarrow> lease \<in> lh_past h)
     \<and> (\<forall>lease \<in> lh_past h. \<exists>v \<in> lh_versions h. lm_resource_version lease = Some v)
     \<and> (\<forall>a \<in> lh_past h. \<forall>b \<in> lh_past h. lm_resource_version a = lm_resource_version b \<longrightarrow> a = b)"

section \<open>Lemmas\<close>

lemmas annotation_defs = annotation_def lease_token_def lease_holder_def

lemma annotation_names_distinct [simp]:
  "ROLE_ANNOTATION \<noteq> TOKEN_ANNOTATION" "ROLE_ANNOTATION \<noteq> EPOCH_ANNOTATION" "TOKEN_ANNOTATION \<noteq> EPOCH_ANNOTATION"
  "TOKEN_ANNOTATION \<noteq> ROLE_ANNOTATION" "EPOCH_ANNOTATION \<noteq> ROLE_ANNOTATION" "EPOCH_ANNOTATION \<noteq> TOKEN_ANNOTATION"
  by (simp_all add: ROLE_ANNOTATION_def TOKEN_ANNOTATION_def EPOCH_ANNOTATION_def)

lemma acquired_lease_facts:
  "lease_epoch (acquired_lease co name key cur now token e) = Inr e"
  "lease_token (acquired_lease co name key cur now token e) = Some token"
  "lease_holder (acquired_lease co name key cur now token e) = Some (co_holder co)"
  "lm_resource_version (acquired_lease co name key cur now token e) = Option.bind cur lm_resource_version"
  by (simp_all add: acquired_lease_def Let_def lease_epoch_def annotation_defs map_of_update)

lemma acquired_lease_role:
  "verify_role (acquired_lease co name key cur now token e) key = Inr ()"
  "verify_role ((acquired_lease co name key cur now token e)\<lparr>lm_resource_version := v\<rparr>) key = Inr ()"
  by (simp_all add: acquired_lease_def Let_def verify_role_def annotation_defs map_of_update)

lemma commit_epoch: "lease_epoch (lease\<lparr>lm_resource_version := v\<rparr>) = lease_epoch lease"
  by (simp add: lease_epoch_def annotation_def)

lemma renewed_lease_epoch: "lease_epoch (renewed_lease co now lease) = lease_epoch lease"
  by (simp add: renewed_lease_def lease_epoch_def annotation_def)

lemma released_lease_epoch: "lease_epoch (released_lease now lease) = lease_epoch lease"
  by (auto simp: released_lease_def lease_epoch_def annotation_def map_of_delete_key split: option.splits)

lemma renewed_lease_version: "lm_resource_version (renewed_lease co now lease) = lm_resource_version lease"
  by (simp add: renewed_lease_def)

lemma released_lease_version: "lm_resource_version (released_lease now lease) = lm_resource_version lease"
  by (simp add: released_lease_def)

text \<open>When the API server accepts a write, the object that was read is still the stored one.\<close>

lemma accepted_read_is_current:
  assumes "history_inv h" "\<forall>lease. read = Some lease \<longrightarrow> lease \<in> lh_past h"
    and "api_accepts read submitted h"
    and "\<forall>lease. read = Some lease \<longrightarrow> lm_resource_version submitted = lm_resource_version lease"
  shows "lh_stored h = read"
proof (cases read)
  case None
  with assms(3) show ?thesis by (simp add: api_accepts_def)
next
  case (Some lease)
  with assms(3,4) obtain cur where "lh_stored h = Some cur" "lm_resource_version cur = lm_resource_version lease"
    by (auto simp: api_accepts_def)
  with assms(1,2) Some show ?thesis unfolding history_inv_def by blast
qed

lemma acquire_round_ok:
  assumes "acquire_round sha co role a obs = (Inl (Inr l), obs', Some submitted)" "at_get a = Inr read"
  obtains e where "submitted = acquired_lease co (lease_name sha role) (role_key role) read (at_wall a) (at_token a) e"
    "l = leadership co role (at_token a) e" "at_write a = Inr ()"
    "case read of None \<Rightarrow> e = 1 | Some cur \<Rightarrow>
       verify_role cur (role_key role) = Inr () \<and> (\<exists>e0. lease_epoch cur = Inr e0 \<and> checked_add_u64 e0 1 = Some e)
       \<and> (fst (is_active (lease_name sha role) cur (at_mono a) obs) \<longrightarrow> lease_holder cur = Some (co_holder co))"
proof (cases read)
  case None
  with assms that [of 1] show ?thesis
    by (auto simp: acquire_round_def Let_def split: sum.splits LeaseError.splits old.unit.splits)
next
  case (Some cur)
  from assms Some obtain e0 e where
    "verify_role cur (role_key role) = Inr ()" "lease_epoch cur = Inr e0" "checked_add_u64 e0 1 = Some e"
    "fst (is_active (lease_name sha role) cur (at_mono a) obs) \<longrightarrow> lease_holder cur = Some (co_holder co)"
    "submitted = acquired_lease co (lease_name sha role) (role_key role) (Some cur) (at_wall a) (at_token a) e"
    "l = leadership co role (at_token a) e" "at_write a = Inr ()"
    by (auto simp: acquire_round_def Let_def split: sum.splits option.splits prod.splits if_splits
        LeaseError.splits old.unit.splits)
  with that [of e] Some show ?thesis by auto
qed

lemma owned_round_ok:
  assumes "owned_round co l update lost ok a = (Inl (Inr r), Some submitted)" "at_get a = Inr (Some lease)"
  shows "r = ok \<and> submitted = update lease \<and> lease_epoch lease = Inr (lead_fencing_epoch l)
     \<and> lease_token lease = Some (lead_fencing_token l) \<and> lease_holder lease = Some (co_holder co)
     \<and> verify_role lease (role_key (lead_role l)) = Inr ()"
  using assms
  by (auto simp: owned_round_def owns_lease_def and_then_eq_Inr and_then_eq_Inl
      split: sum.splits if_splits LeaseError.splits old.unit.splits)

lemma history_inv_commit:
  assumes "history_inv h" "v \<notin> lh_versions h"
  shows "history_inv (commit_lease v lease h)" "history_inv ((commit_lease v lease h)\<lparr>lh_granted := G\<rparr>)"
proof -
  have "lm_resource_version x \<noteq> Some v" if "x \<in> lh_past h" for x
    using assms that unfolding history_inv_def by force
  then show "history_inv (commit_lease v lease h)" "history_inv ((commit_lease v lease h)\<lparr>lh_granted := G\<rparr>)"
    using assms(1) unfolding history_inv_def by (auto simp: commit_lease_def Let_def)
qed

lemma stored_epoch_commit:
  "stored_epoch (commit_lease v lease h) = (case lease_epoch lease of Inl _ \<Rightarrow> 0 | Inr e \<Rightarrow> unat e)"
  "stored_epoch ((commit_lease v lease h)\<lparr>lh_granted := G\<rparr>) = (case lease_epoch lease of Inl _ \<Rightarrow> 0 | Inr e \<Rightarrow> unat e)"
  by (simp_all add: stored_epoch_def commit_lease_def Let_def commit_epoch)

lemma granted_epochs_commit [simp]: "granted_epochs (commit_lease v lease h) = granted_epochs h"
  by (simp add: granted_epochs_def commit_lease_def Let_def)

text \<open>What an accepted renewal or release found stored.\<close>

lemma owned_commit_current:
  assumes "history_inv h" "at_get a = Inr (Some lease)" "lease \<in> lh_past h"
    and "renew_round co l a = (Inl (Inr (Renewed l')), Some submitted) \<or>
         release_round co l a = (Inl (Inr Released), Some submitted)"
    and "api_accepts (Some lease) submitted h"
  shows "lh_stored h = Some lease \<and> lease_epoch lease = Inr (lead_fencing_epoch l)
     \<and> lease_epoch submitted = lease_epoch lease \<and> lease_token lease = Some (lead_fencing_token l)
     \<and> lease_holder lease = Some (co_holder co)"
proof -
  have "lease_epoch lease = Inr (lead_fencing_epoch l)" "lease_token lease = Some (lead_fencing_token l)"
    "lease_holder lease = Some (co_holder co)"
    "lease_epoch submitted = lease_epoch lease" "lm_resource_version submitted = lm_resource_version lease"
    using assms(4) owned_round_ok assms(2)
    by (auto simp: renew_round_def release_round_def renewed_lease_epoch released_lease_epoch
        renewed_lease_version released_lease_version dest!: owned_round_ok)
  moreover have "lh_stored h = Some lease"
    using accepted_read_is_current [OF assms(1) _ assms(5)] assms(3) calculation by simp
  ultimately show ?thesis by blast
qed

lemma lease_step_fence:
  assumes "history_inv h" "lease_step sha role h h'"
  shows "(granted_epochs h' = granted_epochs h \<and> stored_epoch h' = stored_epoch h) \<or>
         (granted_epochs h' = stored_epoch h' # granted_epochs h \<and> stored_epoch h < stored_epoch h')"
  using assms(2)
proof cases
  case (acquired a read co obs l obs' submitted v)
  from acquired(4,2) obtain e where e:
    "submitted = acquired_lease co (lease_name sha role) (role_key role) read (at_wall a) (at_token a) e"
    "l = leadership co role (at_token a) e"
    "case read of None \<Rightarrow> e = 1 | Some cur \<Rightarrow>
       verify_role cur (role_key role) = Inr () \<and> (\<exists>e0. lease_epoch cur = Inr e0 \<and> checked_add_u64 e0 1 = Some e)
       \<and> (fst (is_active (lease_name sha role) cur (at_mono a) obs) \<longrightarrow> lease_holder cur = Some (co_holder co))"
    by (rule acquire_round_ok)
  have cur: "lh_stored h = read"
    using accepted_read_is_current [OF assms(1) acquired(3,5)] by (simp add: e(1) acquired_lease_facts)
  have "stored_epoch h' = unat e"
    by (simp add: acquired(1) stored_epoch_commit e(1) acquired_lease_facts)
  moreover have "granted_epochs h' = unat e # granted_epochs h"
    by (simp add: acquired(1) granted_epochs_def e(2) leadership_def)
  moreover have "stored_epoch h < unat e"
    using e(3) checked_add_unat
    by (auto simp: stored_epoch_def cur split: option.splits)
  ultimately show ?thesis by simp
next
  case (renewed a lease l co l' submitted v)
  with owned_commit_current [OF assms(1) renewed(2,3) disjI1 [OF renewed(5)] renewed(6)]
  show ?thesis by (simp add: stored_epoch_commit) (simp add: stored_epoch_def)
next
  case (released a lease l co submitted v)
  with owned_commit_current [OF assms(1) released(2,3) disjI2 [OF released(5)] released(6)]
  show ?thesis by (simp add: stored_epoch_commit) (simp add: stored_epoch_def)
qed

text \<open>The submitted object does not depend on the answer to the write.\<close>

lemma acquire_round_submits:
  assumes "acquire_round sha co role a obs = (out, obs', Some submitted)" "at_get a = Inr read"
  obtains e where "submitted = acquired_lease co (lease_name sha role) (role_key role) read (at_wall a) (at_token a) e"
    "case read of None \<Rightarrow> e = 1 | Some cur \<Rightarrow> \<exists>e0. lease_epoch cur = Inr e0 \<and> checked_add_u64 e0 1 = Some e"
  using assms that
  by (cases read)
    (auto simp: acquire_round_def Let_def split: sum.splits option.splits prod.splits if_splits LeaseError.splits old.unit.splits)

lemma owned_round_submits:
  assumes "owned_round co l update lost ok a = (out, Some submitted)" "at_get a = Inr (Some lease)"
  shows "submitted = update lease"
  using assms by (auto simp: owned_round_def split: sum.splits if_splits LeaseError.splits old.unit.splits)

lemma lease_landing_fence:
  assumes "history_inv h" "lease_landing sha role h h'"
  shows "(granted_epochs h' = granted_epochs h \<and> stored_epoch h \<le> stored_epoch h') \<or>
         (granted_epochs h' = stored_epoch h' # granted_epochs h \<and> stored_epoch h < stored_epoch h')"
  using assms(2)
proof cases
  case acknowledged
  with lease_step_fence [OF assms(1)] show ?thesis by fastforce
next
  case (landed_acquire a read co obs out obs' submitted v)
  from landed_acquire(4,2) obtain e where e:
    "submitted = acquired_lease co (lease_name sha role) (role_key role) read (at_wall a) (at_token a) e"
    "case read of None \<Rightarrow> e = 1 | Some cur \<Rightarrow> \<exists>e0. lease_epoch cur = Inr e0 \<and> checked_add_u64 e0 1 = Some e"
    by (rule acquire_round_submits)
  have "lh_stored h = read"
    using accepted_read_is_current [OF assms(1) landed_acquire(3,6)] by (simp add: e(1) acquired_lease_facts)
  then have "stored_epoch h \<le> unat e"
    using e(2) by (auto simp: stored_epoch_def split: option.splits dest!: checked_add_unat)
  moreover have "stored_epoch h' = unat e"
    by (simp add: landed_acquire(1) stored_epoch_commit e(1) acquired_lease_facts)
  ultimately show ?thesis by (simp add: landed_acquire(1))
next
  case (landed_owned a lease l co renewal submitted outcome v)
  then have sub: "lease_epoch submitted = lease_epoch lease" "lm_resource_version submitted = lm_resource_version lease"
    by (auto simp: renew_round_def release_round_def renewed_lease_epoch released_lease_epoch renewed_lease_version
        released_lease_version dest!: owned_round_submits)
  have "lh_stored h = Some lease"
    using accepted_read_is_current [OF assms(1) _ landed_owned(7)] landed_owned(3) sub(2) by simp
  then have "stored_epoch h' = stored_epoch h"
    by (simp add: landed_owned(1) stored_epoch_commit sub(1)) (simp add: stored_epoch_def)
  then show ?thesis by (simp add: landed_owned(1))
qed

lemma lease_step_inv: "history_inv h \<Longrightarrow> lease_step sha role h h' \<Longrightarrow> history_inv h'"
  by (erule lease_step.cases) (auto intro: history_inv_commit)

lemma lease_landing_inv: "history_inv h \<Longrightarrow> lease_landing sha role h h' \<Longrightarrow> history_inv h'"
  by (erule lease_landing.cases) (auto intro: history_inv_commit lease_step_inv)

interpretation lease_fence: fenced_history "lease_landing sha role" history_inv stored_epoch granted_epochs
  for sha role
proof unfold_locales
  show "history_inv t" if "history_inv s" "lease_landing sha role s t" for s t
    using that by (rule lease_landing_inv)
  show "granted_epochs t = granted_epochs s \<and> stored_epoch s \<le> stored_epoch t
      \<or> granted_epochs t = stored_epoch t # granted_epochs s \<and> stored_epoch s < stored_epoch t"
    if "history_inv s" "lease_landing sha role s t" for s t
    using lease_landing_fence [OF that] by auto
qed

lemma initial_ordered: "lease_fence.ordered initial_history"
  by (simp add: lease_fence.ordered_def history_inv_def initial_history_def granted_epochs_def)

section \<open>The stored object and the latest grant\<close>

definition stored_matches_grant :: "lease_history \<Rightarrow> bool" where
  "stored_matches_grant h \<longleftrightarrow>
     (\<forall>lease. lh_stored h = Some lease \<longrightarrow>
        (\<exists>l rest. lh_granted h = l # rest \<and> lease_epoch lease = Inr (lead_fencing_epoch l)
           \<and> lease_token lease \<in> {None, Some (lead_fencing_token l)}
           \<and> lease_holder lease \<in> {None, Some (lead_holder l)}))"

lemma commit_fields:
  "lease_token (lease\<lparr>lm_resource_version := v\<rparr>) = lease_token lease"
  "lease_holder (lease\<lparr>lm_resource_version := v\<rparr>) = lease_holder lease"
  by (simp_all add: annotation_defs)

lemma renewed_lease_fields:
  "lease_token (renewed_lease co now lease) = lease_token lease"
  "lease_holder (renewed_lease co now lease) = lease_holder lease"
  by (auto simp: renewed_lease_def annotation_defs default_spec_def split: option.splits)

lemma released_lease_fields:
  "lease_token (released_lease now lease) = None"
  "lease_holder (released_lease now lease) = None"
  by (auto simp: released_lease_def annotation_defs map_of_delete_key)

lemma stored_matches_grant_commit:
  "stored_matches_grant ((commit_lease v lease h)\<lparr>lh_granted := G\<rparr>) \<longleftrightarrow>
     (\<exists>l rest. G = l # rest \<and> lease_epoch lease = Inr (lead_fencing_epoch l)
        \<and> lease_token lease \<in> {None, Some (lead_fencing_token l)}
        \<and> lease_holder lease \<in> {None, Some (lead_holder l)})"
  by (simp add: stored_matches_grant_def commit_lease_def Let_def commit_epoch commit_fields)

lemma stored_matches_grant_keep:
  "stored_matches_grant (commit_lease v lease h) \<longleftrightarrow>
     (\<exists>l rest. lh_granted h = l # rest \<and> lease_epoch lease = Inr (lead_fencing_epoch l)
        \<and> lease_token lease \<in> {None, Some (lead_fencing_token l)}
        \<and> lease_holder lease \<in> {None, Some (lead_holder l)})"
  by (simp add: stored_matches_grant_def commit_lease_def Let_def commit_epoch commit_fields)

lemma stored_matches_grant_step:
  assumes inv: "history_inv h" and matches: "stored_matches_grant h" and step: "lease_step sha role h h'"
  shows "stored_matches_grant h'"
  using step
proof cases
  case (acquired a read co obs l obs' submitted v)
  from acquired(4,2) obtain e where
    "submitted = acquired_lease co (lease_name sha role) (role_key role) read (at_wall a) (at_token a) e"
    "l = leadership co role (at_token a) e"
    by (rule acquire_round_ok)
  then show ?thesis
    by (simp add: acquired(1) stored_matches_grant_commit acquired_lease_facts leadership_def)
next
  case (renewed a lease l co l' submitted v)
  note cur = owned_commit_current [OF inv renewed(2,3) disjI1 [OF renewed(5)] renewed(6)]
  have sub: "submitted = renewed_lease co (at_wall a) lease"
    using renewed(2,5) by (auto simp: renew_round_def dest!: owned_round_ok)
  from cur matches show ?thesis
    unfolding renewed(1) stored_matches_grant_keep
    by (auto simp: stored_matches_grant_def sub renewed_lease_epoch renewed_lease_fields)
next
  case (released a lease l co submitted v)
  note cur = owned_commit_current [OF inv released(2,3) disjI2 [OF released(5)] released(6)]
  have sub: "submitted = released_lease (at_wall a) lease"
    using released(2,5) by (auto simp: release_round_def dest!: owned_round_ok)
  from cur matches show ?thesis
    unfolding released(1) stored_matches_grant_keep
    by (auto simp: stored_matches_grant_def sub released_lease_epoch released_lease_fields)
qed

lemma history_reachable:
  assumes "(lease_step sha role)\<^sup>*\<^sup>* initial_history h"
  shows "lease_fence.ordered h \<and> stored_matches_grant h"
  using assms
proof (induction rule: rtranclp_induct)
  case base
  show ?case using initial_ordered by (simp add: stored_matches_grant_def initial_history_def)
next
  case (step h h')
  then show ?case
    using stored_matches_grant_step [of h sha role h'] lease_fence.ordered_step [of h sha role h'] acknowledged [of sha role h h']
    by (simp add: lease_fence.ordered_def)
qed

section \<open>Properties\<close>

text \<open>Sample replicas, attempts and a history for the witnesses.\<close>

definition sample_co :: "string \<Rightarrow> LeaseCoordinator" where
  "sample_co holder = \<lparr>co_holder = holder, co_lease_duration_ms = 15000\<rparr>"

definition sample_role :: CoordinationRole where
  "sample_role = ControllerOwner ''c1''"

definition sample_attempt :: "nat \<Rightarrow> string \<Rightarrow> LeaseObject option \<Rightarrow> attempt" where
  "sample_attempt now token read =
     \<lparr>at_wall = int now, at_mono = now, at_token = token, at_get = Inr read, at_write = Inr ()\<rparr>"

definition sample_first :: LeaseObject where
  "sample_first =
     (acquired_lease (sample_co ''r1'') (lease_name (\<lambda>x. x) sample_role) (role_key sample_role) None 0 ''t1'' 1)
       \<lparr>lm_resource_version := Some ''v1''\<rparr>"

definition sample_history :: lease_history where
  "sample_history =
     (commit_lease ''v1'' sample_first initial_history)
       \<lparr>lh_granted := [leadership (sample_co ''r1'') sample_role ''t1'' 1]\<rparr>"

lemmas sample_lease_defs = sample_co_def sample_role_def sample_attempt_def sample_first_def sample_history_def

lemma sample_first_facts:
  "verify_role sample_first (role_key sample_role) = Inr ()" "verify_role sample_first (role_key (ControllerOwner ''c1'')) = Inr ()"
  "lease_epoch sample_first = Inr 1" "lease_token sample_first = Some ''t1''" "lease_holder sample_first = Some ''r1''"
  by (simp_all add: sample_first_def commit_epoch commit_fields acquired_lease_facts acquired_lease_role
      sample_co_def sample_role_def)

lemma sample_first_inactive:
  "is_active (lease_name (\<lambda>x. x) sample_role) sample_first 15100 [(lease_name (\<lambda>x. x) sample_role, (''v1'', 100))]
     = (False, [(lease_name (\<lambda>x. x) sample_role, (''v1'', 100))])"
  by (simp add: is_active_def sample_first_def acquired_lease_def duration_seconds_def sample_co_def Let_def)

lemma sample_history_reachable: "(lease_step (\<lambda>x. x) sample_role)\<^sup>*\<^sup>* initial_history sample_history"
proof -
  let ?a = "sample_attempt 0 ''t1'' None"
  let ?sub = "acquired_lease (sample_co ''r1'') (lease_name (\<lambda>x. x) sample_role) (role_key sample_role) None 0 ''t1'' 1"
  let ?l = "leadership (sample_co ''r1'') sample_role ''t1'' 1"
  have r: "acquire_round (\<lambda>x. x) (sample_co ''r1'') sample_role ?a [] = (Inl (Inr ?l), [], Some ?sub)"
    by (simp add: acquire_round_def sample_attempt_def Let_def)
  have "lease_step (\<lambda>x. x) sample_role initial_history
          ((commit_lease ''v1'' ?sub initial_history)\<lparr>lh_granted := ?l # lh_granted initial_history\<rparr>)"
    by (rule lease_step.acquired [where read = None, OF _ _ r]) (simp_all add: sample_attempt_def api_accepts_def initial_history_def)
  also have "(commit_lease ''v1'' ?sub initial_history)\<lparr>lh_granted := ?l # lh_granted initial_history\<rparr> = sample_history"
    by (simp add: sample_history_def sample_first_def commit_lease_def Let_def initial_history_def)
  finally show ?thesis by (rule r_into_rtranclp)
qed

text \<open>
  C4: The fencing epochs of one role are strictly increasing: whatever replicas acquire, renew and
  release, in any order, acting on reads that may be outdated and with writes that land without being
  acknowledged, every leadership ever granted has an epoch larger than all those granted before it,
  and none is larger than the epoch stored in the Lease object.
\<close>

theorem granted_epochs_increase:
  assumes "(lease_landing sha role)\<^sup>*\<^sup>* initial_history h"
  shows "sorted_wrt (>) (granted_epochs h) \<and> list_all (\<lambda>g. g \<le> stored_epoch h) (granted_epochs h)"
  using lease_fence.ordered_run [OF assms initial_ordered] by (simp add: lease_fence.ordered_def list_all_iff)

theorem granted_epochs_increase_witness:
  "sorted_wrt (>) (granted_epochs sample_history) \<and> list_all (\<lambda>g. g \<le> stored_epoch sample_history) (granted_epochs sample_history)
   \<and> granted_epochs sample_history = [1]"
  using granted_epochs_increase [OF mono_rtranclp [rule_format, OF acknowledged sample_history_reachable]]
  by (simp add: sample_history_def granted_epochs_def leadership_def)

text \<open>
  C8: A leadership that has been superseded can neither renew nor release: if the API server accepts
  the write of a renewal or a release, the caller's epoch, token and holder are those of the latest
  leadership granted for the role. (The histories are those of acknowledged writes, so every epoch in
  the Lease belongs to a grant.)
\<close>

theorem only_latest_grant_writes:
  assumes "(lease_step sha role)\<^sup>*\<^sup>* initial_history h"
    and "at_get a = Inr (Some lease)" "lease \<in> lh_past h"
    and "renew_round co l a = (Inl (Inr (Renewed l')), Some submitted) \<or>
         release_round co l a = (Inl (Inr Released), Some submitted)"
    and "api_accepts (Some lease) submitted h"
  shows "lead_fencing_epoch l = lead_fencing_epoch (hd (lh_granted h))
     \<and> lead_fencing_token l = lead_fencing_token (hd (lh_granted h))
     \<and> co_holder co = lead_holder (hd (lh_granted h))"
proof -
  from history_reachable [OF assms(1)] have "history_inv h" "stored_matches_grant h"
    by (simp_all add: lease_fence.ordered_def)
  with owned_commit_current [OF _ assms(2-5)] show ?thesis
    by (auto simp: stored_matches_grant_def)
qed

theorem only_latest_grant_writes_witness:
  "lead_fencing_epoch (leadership (sample_co ''r1'') sample_role ''t1'' 1) = lead_fencing_epoch (hd (lh_granted sample_history))
   \<and> api_accepts (Some sample_first) (renewed_lease (sample_co ''r1'') 5 sample_first) sample_history"
proof -
  let ?l = "leadership (sample_co ''r1'') sample_role ''t1'' 1"
  let ?a = "sample_attempt 5 [] (Some sample_first)"
  have r: "renew_round (sample_co ''r1'') ?l ?a
             = (Inl (Inr (Renewed ?l)), Some (renewed_lease (sample_co ''r1'') 5 sample_first))"
    by (simp add: renew_round_def owned_round_def sample_attempt_def owns_lease_def sample_first_facts
        leadership_def and_then_def) (simp add: sample_co_def)
  have past: "sample_first \<in> lh_past sample_history"
    by (simp add: sample_history_def sample_first_def commit_lease_def Let_def)
  have acc: "api_accepts (Some sample_first) (renewed_lease (sample_co ''r1'') 5 sample_first) sample_history"
    by (simp add: api_accepts_def sample_history_def commit_lease_def Let_def renewed_lease_version sample_first_def)
  show ?thesis
    using only_latest_grant_writes [OF sample_history_reachable _ past disjI1 [OF r] acc] acc
    by (simp add: sample_attempt_def)
qed

text \<open>
  A replica takes a held Lease over from another replica only after the holder has been silent
  for a whole lease duration: the taking replica observed the very same resource version, by its own
  monotonic clock, at least the advertised duration ago.
\<close>

theorem takeover_only_after_expiry:
  assumes "acquire_round sha co role a obs = (Inl (Inr l), obs', Some submitted)"
    and "at_get a = Inr (Some cur)" "l_spec cur = Some spec"
    and "spec_holder_identity spec = Some holder" "holder \<noteq> []" "holder \<noteq> co_holder co"
    and "spec_lease_duration_seconds spec = Some duration" "0 < duration"
    and "lm_resource_version cur = Some version"
  shows "\<exists>seen. map_of obs (lease_name sha role) = Some (version, seen)
           \<and> 1000 * nat duration \<le> at_mono a - seen"
proof -
  from acquire_round_ok [OF assms(1,2)] assms(3,4,6)
  have "\<not> fst (is_active (lease_name sha role) cur (at_mono a) obs)"
    by (auto simp: lease_holder_def)
  with assms(3-9) show ?thesis
    by (auto simp: is_active_def Let_def split: option.splits if_splits)
qed

theorem takeover_only_after_expiry_witness:
  "\<exists>seen. map_of [(lease_name (\<lambda>x. x) sample_role, (''v1'', 100))] (lease_name (\<lambda>x. x) sample_role) = Some (''v1'', seen)
     \<and> 1000 * nat 15 \<le> 15100 - seen"
proof -
  let ?a = "sample_attempt 15100 ''t2'' (Some sample_first)"
  let ?obs = "[(lease_name (\<lambda>x. x) sample_role, (''v1'', 100::nat))]"
  have r: "acquire_round (\<lambda>x. x) (sample_co ''r2'') sample_role ?a ?obs =
     (Inl (Inr (leadership (sample_co ''r2'') sample_role ''t2'' 2)), ?obs,
      Some (acquired_lease (sample_co ''r2'') (lease_name (\<lambda>x. x) sample_role) (role_key sample_role)
              (Some sample_first) 15100 ''t2'' 2))"
    by (simp add: acquire_round_def Let_def sample_attempt_def sample_first_facts sample_first_inactive
        checked_add_u64_def sample_co_def)
  show ?thesis
    using takeover_only_after_expiry [OF r, of sample_first "the (l_spec sample_first)" "''r1''" 15 "''v1''"]
    by (simp add: sample_lease_defs acquired_lease_def duration_seconds_def Let_def)
qed

lemma owned_loop_returns: "n \<le> length as \<Longrightarrow> \<exists>r. owned_loop rnd exhausted n as = Some r"
  by (induction rnd exhausted n as rule: owned_loop.induct) (auto split: prod.splits sum.splits old.unit.splits)

lemma acquire_loop_returns: "n \<le> length as \<Longrightarrow> \<exists>r obs'. acquire_loop sha co role n as obs = (Some r, obs')"
  by (induction sha co role n as obs rule: acquire_loop.induct)
    (auto split: prod.splits sum.splits old.unit.splits)

text \<open>
  What the operations demand of a Lease object, on its annotations and its spec: the role, the
  number its epoch annotation spells (none means zero), and that it is held under a leadership.
\<close>

definition labelled :: "string \<Rightarrow> string \<Rightarrow> LeaseObject \<Rightarrow> bool" where
  "labelled name val lease \<longleftrightarrow> (\<exists>a. lm_annotations lease = Some a \<and> map_of a name = Some val)"

definition epoch_is :: "LeaseObject \<Rightarrow> u64 \<Rightarrow> bool" where
  "epoch_is lease e \<longleftrightarrow>
     (\<exists>text. labelled ''center.edgion.io/fencing-epoch'' text lease \<and> parse_u64 text = Some e)
     \<or> (\<nexists>text. labelled ''center.edgion.io/fencing-epoch'' text lease) \<and> e = 0"

definition held_under :: "LeaseCoordinator \<Rightarrow> Leadership \<Rightarrow> LeaseObject \<Rightarrow> bool" where
  "held_under co l lease \<longleftrightarrow>
     labelled ''center.edgion.io/coordination-role'' (role_key (lead_role l)) lease
     \<and> labelled ''center.edgion.io/fencing-token'' (lead_fencing_token l) lease
     \<and> epoch_is lease (lead_fencing_epoch l)
     \<and> (\<exists>spec. l_spec lease = Some spec \<and> spec_holder_identity spec = Some (co_holder co))"

lemma annotation_labelled: "annotation name lease = Some val \<longleftrightarrow> labelled name val lease"
  by (auto simp: annotation_def labelled_def bind_eq_Some_conv)

lemma verify_role_labelled: "verify_role lease key = Inr () \<longleftrightarrow> labelled ''center.edgion.io/coordination-role'' key lease"
  unfolding annotation_labelled [symmetric]
  by (auto simp: verify_role_def ROLE_ANNOTATION_def split: option.splits)

lemma lease_epoch_is: "lease_epoch lease = Inr e \<longleftrightarrow> epoch_is lease e"
  unfolding epoch_is_def annotation_labelled [symmetric]
  by (auto simp: lease_epoch_def EPOCH_ANNOTATION_def split: option.splits)

lemma owns_lease_held:
  "and_then (verify_role lease (role_key (lead_role l))) (\<lambda>_. owns_lease co l lease) = Inr True \<longleftrightarrow> held_under co l lease"
proof -
  have "owns_lease co l lease = Inr True \<longleftrightarrow>
      lease_holder lease = Some (co_holder co) \<and> lease_token lease = Some (lead_fencing_token l)
      \<and> lease_epoch lease = Inr (lead_fencing_epoch l)"
    by (auto simp: owns_lease_def and_then_eq_Inr)
  moreover have "lease_holder lease = Some (co_holder co) \<longleftrightarrow>
      (\<exists>spec. l_spec lease = Some spec \<and> spec_holder_identity spec = Some (co_holder co))"
    by (auto simp: lease_holder_def bind_eq_Some_conv)
  moreover have "lease_token lease = Some t \<longleftrightarrow> labelled ''center.edgion.io/fencing-token'' t lease" for t
    by (simp add: lease_token_def annotation_labelled TOKEN_ANNOTATION_def)
  ultimately show ?thesis
    by (auto simp: and_then_eq_Inr held_under_def lease_epoch_is verify_role_labelled)
qed

definition reads_held :: "LeaseCoordinator \<Rightarrow> Leadership \<Rightarrow> attempt \<Rightarrow> bool" where
  "reads_held co l a \<longleftrightarrow> (\<exists>lease. at_get a = Inr (Some lease) \<and> held_under co l lease)"

text \<open>The rounds of renew and release: done, and retried, exactly on a Lease held under the leadership.\<close>

lemma owned_round_done:
  assumes "lost \<noteq> ok"
  shows "fst (owned_round co l update lost ok a) = Inl (Inr ok) \<longleftrightarrow> reads_held co l a \<and> at_write a = Inr ()"
    and "fst (owned_round co l update lost ok a) = Inr () \<longleftrightarrow> reads_held co l a \<and> at_write a = Inl LeaseConflict"
  using assms unfolding reads_held_def owns_lease_held [symmetric]
  by (auto simp: owned_round_def split: sum.splits option.splits if_splits LeaseError.splits old.unit.splits)

lemma owned_loop_done:
  assumes "n \<le> length as"
  shows "owned_loop rnd exhausted n as = Some (Inr v) \<longleftrightarrow>
     (\<exists>k < n. fst (rnd (as ! k)) = Inl (Inr v) \<and> (\<forall>i < k. fst (rnd (as ! i)) = Inr ()))"
  using assms
proof (induction rnd exhausted n as rule: owned_loop.induct)
  case (3 rnd exhausted n a as)
  obtain out w where rnd: "rnd a = (out, w)" by fastforce
  show ?case
  proof (cases out)
    case (Inl result)
    then show ?thesis using rnd
      by (auto intro!: exI [of _ 0]) (metis fst_conv gr0I nth_Cons_0 sum.distinct(1) sum.inject(1))
  next
    case (Inr u)
    have "owned_loop rnd exhausted (Suc n) (a # as) = Some (Inr v) \<longleftrightarrow>
        (\<exists>k < n. fst (rnd (as ! k)) = Inl (Inr v) \<and> (\<forall>i < k. fst (rnd (as ! i)) = Inr ()))"
      using 3 rnd Inr by simp
    also have "\<dots> \<longleftrightarrow> (\<exists>k < Suc n. fst (rnd ((a # as) ! k)) = Inl (Inr v) \<and> (\<forall>i < k. fst (rnd ((a # as) ! i)) = Inr ()))"
      using rnd Inr by (simp add: Ex_less_Suc2 All_less_Suc2)
    finally show ?thesis .
  qed
qed auto

lemma acquire_round_retries: "fst (acquire_round sha co role a obs) = Inr () \<Longrightarrow> at_write a = Inl LeaseConflict"
  by (auto simp: acquire_round_def Let_def split: sum.splits option.splits prod.splits if_splits LeaseError.splits old.unit.splits)

lemma acquire_loop_grants:
  assumes "acquire_loop sha co role n as obs = (Some (Inr g), obs')"
  shows "\<exists>k < n. k < length as \<and> (\<forall>i < k. at_write (as ! i) = Inl LeaseConflict)
     \<and> (\<exists>obs1 obs2 w. acquire_round sha co role (as ! k) obs1 = (Inl (Inr g), obs2, w))"
  using assms
proof (induction sha co role n as obs rule: acquire_loop.induct)
  case (3 sha co role n a as obs)
  obtain out obs1 w where rnd: "acquire_round sha co role a obs = (out, obs1, w)" by (cases "acquire_round sha co role a obs")
  show ?case
  proof (cases out)
    case (Inl result)
    with rnd 3(2) show ?thesis by (intro exI [of _ 0]) auto
  next
    case (Inr u)
    with rnd 3 have "\<exists>k < n. k < length as \<and> (\<forall>i < k. at_write (as ! i) = Inl LeaseConflict)
        \<and> (\<exists>obs1 obs2 w. acquire_round sha co role (as ! k) obs1 = (Inl (Inr g), obs2, w))" by simp
    then obtain k where "k < n" "k < length as" "\<forall>i < k. at_write (as ! i) = Inl LeaseConflict"
      "\<exists>obs1 obs2 w. acquire_round sha co role (as ! k) obs1 = (Inl (Inr g), obs2, w)" by blast
    moreover have "at_write a = Inl LeaseConflict" using acquire_round_retries [of sha co role a obs] rnd Inr by simp
    ultimately show ?thesis by (intro exI [of _ "Suc k"]) (simp add: All_less_Suc2)
  qed
qed auto

lemma acquire_round_grant:
  assumes "acquire_round sha co role a obs = (Inl (Inr g), obs', w)"
  shows "at_write a = Inr () \<and> lead_role g = role \<and> lead_holder g = co_holder co \<and> lead_fencing_token g = at_token a
    \<and> (at_get a = Inr None \<and> lead_fencing_epoch g = 1
       \<or> (\<exists>lease e. at_get a = Inr (Some lease) \<and> labelled ''center.edgion.io/coordination-role'' (role_key role) lease
            \<and> epoch_is lease e \<and> unat (lead_fencing_epoch g) = Suc (unat e)))"
proof -
  from assms obtain read submitted where read: "at_get a = Inr read" and w: "w = Some submitted"
    by (auto simp: acquire_round_def Let_def
        split: sum.splits option.splits prod.splits if_splits LeaseError.splits old.unit.splits)
  from assms [unfolded w] read obtain e where e: "g = leadership co role (at_token a) e" "at_write a = Inr ()"
    "case read of None \<Rightarrow> e = 1 | Some cur \<Rightarrow>
       verify_role cur (role_key role) = Inr () \<and> (\<exists>e0. lease_epoch cur = Inr e0 \<and> checked_add_u64 e0 1 = Some e)
       \<and> (fst (is_active (lease_name sha role) cur (at_mono a) obs) \<longrightarrow> lease_holder cur = Some (co_holder co))"
    by (rule acquire_round_ok)
  then show ?thesis using read checked_add_unat
    by (cases read) (auto simp: leadership_def verify_role_labelled lease_epoch_is)
qed

text \<open>
  C39: Within eight rounds with the API server acquire, renew and release return, and they return
  the right thing. Renew (and likewise release) reports success exactly when some round of the eight
  read the Lease with this role, token, epoch and holder and its write was accepted, after rounds that
  read the same and lost only to a conflicting write. A grant of acquire is for this role, holder and
  the fresh token of one round whose write was accepted, with epoch 1 on an absent Lease and otherwise
  one more than the epoch the Lease of this role carried, after rounds that lost to a conflicting write.
\<close>

theorem lease_operations_exact:
  assumes "8 \<le> length as"
  shows "(\<exists>r obs'. acquire sha co role as obs = (Some r, obs')) \<and> (\<exists>r. renew co l as = Some r) \<and> (\<exists>r. release co l as = Some r)
    \<and> (renew co l as = Some (Inr (Renewed (leadership co (lead_role l) (lead_fencing_token l) (lead_fencing_epoch l)))) \<longleftrightarrow>
         (\<exists>k < 8. reads_held co l (as ! k) \<and> at_write (as ! k) = Inr ()
            \<and> (\<forall>i < k. reads_held co l (as ! i) \<and> at_write (as ! i) = Inl LeaseConflict)))
    \<and> (release co l as = Some (Inr Released) \<longleftrightarrow>
         (\<exists>k < 8. reads_held co l (as ! k) \<and> at_write (as ! k) = Inr ()
            \<and> (\<forall>i < k. reads_held co l (as ! i) \<and> at_write (as ! i) = Inl LeaseConflict)))
    \<and> (\<forall>g obs'. acquire sha co role as obs = (Some (Inr g), obs') \<longrightarrow>
         (lead_role g = role \<and> lead_holder g = co_holder co
         \<and> (\<exists>k < 8. at_write (as ! k) = Inr () \<and> lead_fencing_token g = at_token (as ! k)
              \<and> (\<forall>i < k. at_write (as ! i) = Inl LeaseConflict)
              \<and> (at_get (as ! k) = Inr None \<and> lead_fencing_epoch g = 1
                 \<or> (\<exists>lease e. at_get (as ! k) = Inr (Some lease)
                      \<and> labelled ''center.edgion.io/coordination-role'' (role_key role) lease
                      \<and> epoch_is lease e \<and> unat (lead_fencing_epoch g) = Suc (unat e))))))"
    (is "?returns \<and> _ \<and> _ \<and> ?renew \<and> ?release \<and> (\<forall>g obs'. _ g obs' \<longrightarrow> ?grant g)")
proof -
  have len: "MAX_CONFLICT_RETRIES \<le> length as" using assms by (simp add: MAX_CONFLICT_RETRIES_def)
  have returns: "?returns" "\<exists>r. renew co l as = Some r" "\<exists>r. release co l as = Some r"
    unfolding acquire_def renew_def release_def by (intro acquire_loop_returns owned_loop_returns len)+
  have "?renew" "?release"
    unfolding renew_def release_def owned_loop_done [OF len] renew_round_def release_round_def
    by (simp_all add: owned_round_done MAX_CONFLICT_RETRIES_def)
  moreover have "\<forall>g obs'. acquire sha co role as obs = (Some (Inr g), obs') \<longrightarrow> ?grant g"
  proof (intro allI impI)
    fix g obs'
    assume "acquire sha co role as obs = (Some (Inr g), obs')"
    from acquire_loop_grants [OF this [unfolded acquire_def MAX_CONFLICT_RETRIES_def]] obtain k obs1 obs2 w
      where k: "k < 8" "\<forall>i < k. at_write (as ! i) = Inl LeaseConflict"
        "acquire_round sha co role (as ! k) obs1 = (Inl (Inr g), obs2, w)" by blast
    from acquire_round_grant [OF k(3)] k(1,2) show "?grant g" by blast
  qed
  ultimately show ?thesis using returns by blast
qed

theorem lease_operations_exact_witness:
  "\<exists>k < 8. reads_held (sample_co ''r1'') (leadership (sample_co ''r1'') sample_role ''t1'' 1)
             (replicate 8 (sample_attempt 5 [] (Some sample_first)) ! k)"
proof -
  let ?l = "leadership (sample_co ''r1'') sample_role ''t1'' 1"
  let ?as = "replicate 8 (sample_attempt 5 [] (Some sample_first))"
  have "renew (sample_co ''r1'') ?l ?as = Some (Inr (Renewed ?l))"
    by (simp add: renew_def MAX_CONFLICT_RETRIES_def numeral_eq_Suc renew_round_def owned_round_def sample_attempt_def
        owns_lease_def sample_first_facts leadership_def and_then_def) (simp add: sample_co_def)
  then show ?thesis
    using lease_operations_exact [of ?as "\<lambda>x. x" "sample_co ''r1''" sample_role "[]" ?l]
    by (auto simp: leadership_def)
qed

end
