(* ===== verification/Owner_Locator.thy ===== *)
theory Owner_Locator
  imports Lease
begin

text \<open>
  Resolution of a Controller to the replica that owns its Lease:
  \<open>crates/center-adapter-kubernetes/src/owner_locator.rs\<close>. The API server's answers and the monotonic
  clock (milliseconds) are arguments; of a Pod the model has the fields the code reads.
\<close>

record PodStatus =
  pod_phase :: "string option"
  pod_status_ip :: "string option"

record Pod =
  pod_uid :: "string option"
  pod_deleting :: bool
  pod_status :: "PodStatus option"

record owner_locator =
  ol_internal_port :: "16 word"
  ol_observations :: observations

definition owner_locator_new :: "string \<Rightarrow> 16 word \<Rightarrow> owner_locator CoreResult" where
  "owner_locator_new namespace internal_port =
     (if trim namespace = [] \<or> has_control namespace then
        Inl (Adapter ''Kubernetes owner locator namespace must be non-empty'')
      else if internal_port = 0 then
        Inl (Adapter ''Kubernetes owner locator internal port must be non-zero'')
      else Inr \<lparr>ol_internal_port = internal_port, ol_observations = []\<rparr>)"

text \<open>The fencing token and epoch of an active Lease.\<close>

definition owner_fence :: "(string, string) hmap \<Rightarrow> OwnershipFence CoreResult" where
  "owner_fence annotations =
     and_then (case map_of annotations TOKEN_ANNOTATION of
                 Some token \<Rightarrow> if token = [] then Inl (Conflict ''active Controller Lease omitted fencing token'') else Inr token
               | None \<Rightarrow> Inl (Conflict ''active Controller Lease omitted fencing token'')) (\<lambda>token.
     and_then (case map_of annotations EPOCH_ANNOTATION of
                 None \<Rightarrow> Inl (Conflict ''active Controller Lease omitted fencing epoch'')
               | Some text \<Rightarrow>
                   (case parse_u64 text of
                      None \<Rightarrow> Inl (Conflict ''active Controller Lease has invalid fencing epoch'')
                    | Some e \<Rightarrow> Inr e)) (\<lambda>epoch.
       if epoch = 0 then Inl (Conflict ''active Controller Lease has zero fencing epoch'')
       else Inr \<lparr>fence_token = token, fence_epoch = epoch\<rparr>))"

definition active_owner ::
  "nat \<Rightarrow> string \<Rightarrow> LeaseObject \<Rightarrow> string \<Rightarrow> observations \<Rightarrow> (string \<times> OwnershipFence) option CoreResult \<times> observations" where
  "active_owner now name lease expected_role obs =
     (case lm_annotations lease of
        None \<Rightarrow> (Inl (Conflict ''managed Controller Lease omitted annotations''), obs)
      | Some annotations \<Rightarrow>
          if map_of annotations ROLE_ANNOTATION \<noteq> Some expected_role then
            (Inl (Conflict ''Controller Lease role annotation did not match its name''), obs)
          else
            (case l_spec lease of
               None \<Rightarrow> (Inr None, obs)
             | Some spec \<Rightarrow>
                 (case spec_holder_identity spec of
                    None \<Rightarrow> (Inr None, obs)
                  | Some holder \<Rightarrow>
                      if holder = [] then (Inr None, obs)
                      else
                        (case spec_lease_duration_seconds spec of
                           None \<Rightarrow> (Inr None, obs)
                         | Some duration \<Rightarrow>
                             if duration \<le> 0 then (Inr None, obs)
                             else
                               let marker = (case lm_resource_version lease of
                                               Some v \<Rightarrow> v
                                             | None \<Rightarrow> (case map_of annotations TOKEN_ANNOTATION of None \<Rightarrow> [] | Some t \<Rightarrow> t));
                                   (observed_at, obs') =
                                     (case map_of obs name of
                                        Some (seen, at) \<Rightarrow>
                                          if seen = marker then (at, obs) else (now, AList.update name (marker, now) obs)
                                      | None \<Rightarrow> (now, AList.update name (marker, now) obs))
                               in if 1000 * nat duration \<le> now - observed_at then (Inr None, obs')
                                  else (and_then (owner_fence annotations) (\<lambda>fence. Inr (Some (holder, fence))), obs')))))"

definition parse_holder :: "string \<Rightarrow> (string \<times> string) CoreResult" where
  "parse_holder holder =
     (case split_on (CHR ''/'') holder of
        [pod_name, uid] \<Rightarrow>
          if pod_name = [] \<or> uid = [] then Inl (Conflict ''Controller Lease holder must be podName/podUID'')
          else Inr (pod_name, uid)
      | _ \<Rightarrow> Inl (Conflict ''Controller Lease holder must be podName/podUID''))"

definition pod_ip :: "Pod \<Rightarrow> string \<Rightarrow> string option" where
  "pod_ip pod expected_uid =
     (if pod_uid pod \<noteq> Some expected_uid \<or> pod_deleting pod \<or> Option.bind (pod_status pod) pod_phase \<noteq> Some ''Running'' then None
      else Option.bind (Option.bind (pod_status pod) pod_status_ip) (\<lambda>ip. if ip = [] then None else Some ip))"

definition endpoint :: "16 word \<Rightarrow> string \<Rightarrow> string" where
  "endpoint port ip =
     (if CHR '':'' \<in> set ip then ''https://['' @ ip @ '']:'' @ show_nat (unat port)
      else ''https://'' @ ip @ '':'' @ show_nat (unat port))"

text \<open>\<open>get_pod\<close> is asked for the Pod named by the holder; an error is its text.\<close>

definition resolve_owner ::
  "16 word \<Rightarrow> (string \<Rightarrow> string + Pod option) \<Rightarrow> string \<Rightarrow> OwnershipFence \<Rightarrow> ControllerOwnerRoute option CoreResult" where
  "resolve_owner port get_pod holder fence =
     and_then (parse_holder holder) (\<lambda>(pod_name, uid).
       case get_pod pod_name of
         Inl error \<Rightarrow> Inl (Adapter error)
       | Inr None \<Rightarrow> Inr None
       | Inr (Some pod) \<Rightarrow>
           (case pod_ip pod uid of
              None \<Rightarrow> Inr None
            | Some ip \<Rightarrow>
                Inr (Some \<lparr>route_holder = holder, route_endpoint = endpoint port ip, route_ownership_fence = fence\<rparr>)))"

definition locate ::
  "(string \<Rightarrow> string) \<Rightarrow> nat \<Rightarrow> string + LeaseObject option \<Rightarrow> (string \<Rightarrow> string + Pod option) \<Rightarrow> string \<Rightarrow> owner_locator
     \<Rightarrow> ControllerOwnerRoute option CoreResult \<times> owner_locator" where
  "locate sha256_hex now lease_answer get_pod cid ol =
     (let role = ControllerOwner cid; name = lease_name sha256_hex role
      in case lease_answer of
           Inl error \<Rightarrow> (Inl (Adapter error), ol)
         | Inr None \<Rightarrow> (Inr None, ol)
         | Inr (Some lease) \<Rightarrow>
             let (result, obs) = active_owner now name lease (role_key role) (ol_observations ol);
                 ol' = ol\<lparr>ol_observations := obs\<rparr>
             in (and_then result (\<lambda>owner.
                   case owner of
                     None \<Rightarrow> Inr None
                   | Some (holder, fence) \<Rightarrow> resolve_owner (ol_internal_port ol) get_pod holder fence), ol'))"

section \<open>Properties\<close>

lemma owner_fence_ok:
  "owner_fence annotations = Inr f \<longleftrightarrow>
     map_of annotations TOKEN_ANNOTATION = Some (fence_token f) \<and> fence_token f \<noteq> [] \<and> fence_epoch f \<noteq> 0
     \<and> (\<exists>text. map_of annotations EPOCH_ANNOTATION = Some text \<and> parse_u64 text = Some (fence_epoch f))"
  unfolding owner_fence_def
  by (cases f) (auto simp: and_then_eq_Inr split: option.splits if_splits)

text \<open>The locator and the coordinator judge the activity of a Lease alike, with the same observation table.\<close>

lemma active_owner_is_active:
  assumes "lm_annotations lease = Some annotations" "map_of annotations ROLE_ANNOTATION = Some expected_role"
  shows "active_owner now name lease expected_role obs =
     (let (active, obs') = is_active name lease now obs
      in (if active
          then and_then (owner_fence annotations) (\<lambda>fence. Inr (Some (the (lease_holder lease), fence)))
          else Inr None, obs'))"
proof -
  have token: "lease_token lease = map_of annotations TOKEN_ANNOTATION"
    using assms(1) by (simp add: lease_token_def annotation_def)
  show ?thesis
  proof (cases "l_spec lease")
    case None
    then show ?thesis using assms by (simp add: active_owner_def is_active_def)
  next
    case (Some spec)
    show ?thesis
    proof (cases "spec_holder_identity spec")
      case None
      then show ?thesis using assms Some by (simp add: active_owner_def is_active_def)
    next
      case holder: (Some holder)
      have h: "lease_holder lease = Some holder" using Some holder by (simp add: lease_holder_def)
      show ?thesis
      proof (cases "holder = [] \<or> (case spec_lease_duration_seconds spec of None \<Rightarrow> True | Some d \<Rightarrow> d \<le> 0)")
        case True
        then show ?thesis using assms Some holder
          by (auto simp: active_owner_def is_active_def Let_def split: option.splits)
      next
        case False
        then obtain d where d: "spec_lease_duration_seconds spec = Some d" "0 < d" "holder \<noteq> []"
          by (auto split: option.splits)
        then show ?thesis using assms Some holder h token
          by (auto simp: active_owner_def is_active_def Let_def not_le split: option.splits prod.splits if_splits)
      qed
    qed
  qed
qed

lemma active_has_holder: "fst (is_active name lease now obs) \<Longrightarrow> \<exists>h. lease_holder lease = Some h"
  by (auto simp: is_active_def lease_holder_def split: option.splits if_splits)

lemma active_owner_some:
  "fst (active_owner now name lease expected_role obs) = Inr (Some (holder, fence)) \<longleftrightarrow>
     (\<exists>annotations. lm_annotations lease = Some annotations \<and> map_of annotations ROLE_ANNOTATION = Some expected_role
        \<and> fst (is_active name lease now obs) \<and> lease_holder lease = Some holder \<and> owner_fence annotations = Inr fence)"
proof (cases "\<exists>annotations. lm_annotations lease = Some annotations \<and> map_of annotations ROLE_ANNOTATION = Some expected_role")
  case True
  then obtain annotations where a: "lm_annotations lease = Some annotations"
    "map_of annotations ROLE_ANNOTATION = Some expected_role" by blast
  obtain active obs' where ac: "is_active name lease now obs = (active, obs')" by fastforce
  show ?thesis
    using a active_has_holder [of name lease now obs]
    unfolding active_owner_is_active [OF a] ac by (auto simp: and_then_eq_Inr)
next
  case False
  then show ?thesis by (auto simp: active_owner_def split: option.splits)
qed

lemma resolve_owner_some:
  "resolve_owner port get_pod holder fence = Inr (Some route) \<longleftrightarrow>
     (\<exists>pod_name uid pod ip. parse_holder holder = Inr (pod_name, uid) \<and> get_pod pod_name = Inr (Some pod)
        \<and> pod_ip pod uid = Some ip
        \<and> route = \<lparr>route_holder = holder, route_endpoint = endpoint port ip, route_ownership_fence = fence\<rparr>)"
proof (cases "parse_holder holder")
  case (Inr nu)
  obtain pod_name uid where nu: "nu = (pod_name, uid)" by (cases nu)
  consider e where "get_pod pod_name = Inl e" | "get_pod pod_name = Inr None" | pod where "get_pod pod_name = Inr (Some pod)"
    by (metis option.exhaust sum.exhaust)
  then show ?thesis
    by cases (auto simp: resolve_owner_def Inr nu split: option.splits)
qed (simp add: resolve_owner_def)

text \<open>The helpers of the code, each against what it has to accept.\<close>

lemma parse_holder_iff:
  "parse_holder holder = Inr (pod_name, uid) \<longleftrightarrow>
     holder = pod_name @ ''/'' @ uid \<and> pod_name \<noteq> [] \<and> uid \<noteq> [] \<and> CHR ''/'' \<notin> set pod_name \<and> CHR ''/'' \<notin> set uid"
proof -
  have "split_on (CHR ''/'') holder = [pod_name, uid] \<longleftrightarrow>
      holder = pod_name @ ''/'' @ uid \<and> CHR ''/'' \<notin> set pod_name \<and> CHR ''/'' \<notin> set uid"
    using join_split_on [of "CHR ''/''" holder] split_on_no_sep [of _ "CHR ''/''" holder]
    by (auto simp: split_on_append split_on_single)
  moreover have "parse_holder holder = Inr (pod_name, uid) \<longleftrightarrow>
      split_on (CHR ''/'') holder = [pod_name, uid] \<and> pod_name \<noteq> [] \<and> uid \<noteq> []"
    by (auto simp: parse_holder_def split: list.splits)
  ultimately show ?thesis by blast
qed

lemma pod_ip_iff:
  "pod_ip pod uid = Some ip \<longleftrightarrow>
     pod_uid pod = Some uid \<and> \<not> pod_deleting pod
     \<and> (\<exists>st. pod_status pod = Some st \<and> pod_phase st = Some ''Running'' \<and> pod_status_ip st = Some ip \<and> ip \<noteq> [])"
  by (auto simp: pod_ip_def bind_eq_Some_conv split: if_splits option.splits)

lemma is_active_iff:
  "fst (is_active name lease now obs) \<longleftrightarrow>
     (\<exists>spec holder d. l_spec lease = Some spec \<and> spec_holder_identity spec = Some holder \<and> holder \<noteq> []
        \<and> spec_lease_duration_seconds spec = Some d \<and> 0 < d
        \<and> (\<forall>at. map_of obs name = Some (case lm_resource_version lease of
                   Some v \<Rightarrow> v | None \<Rightarrow> (case lease_token lease of None \<Rightarrow> [] | Some t \<Rightarrow> t), at)
             \<longrightarrow> now - at < 1000 * nat d))"
  by (auto simp: is_active_def Let_def split: option.splits prod.splits if_splits)

lemma endpoint_eq:
  "endpoint port ip =
     ''https://'' @ (if CHR '':'' \<in> set ip then ''['' @ ip @ '']'' else ip) @ '':'' @ show_nat (unat port)"
  by (simp add: endpoint_def)

lemma locate_some:
  "(\<exists>ol'. locate sha256_hex now answer get_pod cid ol = (Inr (Some route), ol')) \<longleftrightarrow>
     (\<exists>lease pod_name uid pod ip.
        answer = Inr (Some lease)
        \<and> fst (active_owner now (lease_name sha256_hex (ControllerOwner cid)) lease (role_key (ControllerOwner cid))
            (ol_observations ol)) = Inr (Some (route_holder route, route_ownership_fence route))
        \<and> parse_holder (route_holder route) = Inr (pod_name, uid) \<and> get_pod pod_name = Inr (Some pod)
        \<and> pod_ip pod uid = Some ip \<and> route_endpoint route = endpoint (ol_internal_port ol) ip)"
proof (cases "\<exists>lease. answer = Inr (Some lease)")
  case False
  then show ?thesis by (auto simp: locate_def Let_def split: sum.splits option.splits)
next
  case True
  then obtain lease where lease: "answer = Inr (Some lease)" ..
  obtain result obs where ao: "active_owner now (lease_name sha256_hex (ControllerOwner cid)) lease
      (role_key (ControllerOwner cid)) (ol_observations ol) = (result, obs)" by fastforce
  have "locate sha256_hex now answer get_pod cid ol =
      (and_then result (\<lambda>owner. case owner of
          None \<Rightarrow> Inr None
        | Some (holder, fence) \<Rightarrow> resolve_owner (ol_internal_port ol) get_pod holder fence), ol\<lparr>ol_observations := obs\<rparr>)"
    by (simp add: locate_def lease ao Let_def del: role_key.simps)
  then have "(\<exists>ol'. locate sha256_hex now answer get_pod cid ol = (Inr (Some route), ol')) \<longleftrightarrow>
      (\<exists>holder fence. result = Inr (Some (holder, fence))
         \<and> resolve_owner (ol_internal_port ol) get_pod holder fence = Inr (Some route))"
    by (auto simp: and_then_eq_Inr split: option.splits)
  then show ?thesis
    unfolding resolve_owner_some lease by (cases route) (auto simp: ao simp del: role_key.simps)
qed

text \<open>The verdict on the Lease, on its annotations and its spec.\<close>

lemma active_owner_iff:
  "fst (active_owner now name lease expected_role obs) = Inr (Some (holder, fence)) \<longleftrightarrow>
     (\<exists>annotations spec d epoch_text. lm_annotations lease = Some annotations
        \<and> map_of annotations ROLE_ANNOTATION = Some expected_role
        \<and> map_of annotations TOKEN_ANNOTATION = Some (fence_token fence) \<and> fence_token fence \<noteq> []
        \<and> map_of annotations EPOCH_ANNOTATION = Some epoch_text \<and> parse_u64 epoch_text = Some (fence_epoch fence)
        \<and> fence_epoch fence \<noteq> 0
        \<and> l_spec lease = Some spec \<and> spec_holder_identity spec = Some holder \<and> holder \<noteq> []
        \<and> spec_lease_duration_seconds spec = Some d \<and> 0 < d
        \<and> (\<forall>at. map_of obs name =
              Some (case lm_resource_version lease of Some v \<Rightarrow> v | None \<Rightarrow> fence_token fence, at)
            \<longrightarrow> now - at < 1000 * nat d))"
proof -
  have token: "lease_token lease = map_of a TOKEN_ANNOTATION" if "lm_annotations lease = Some a" for a
    using that by (simp add: lease_token_def annotation_def)
  have holder: "lease_holder lease = Some holder \<longleftrightarrow> (\<exists>spec. l_spec lease = Some spec \<and> spec_holder_identity spec = Some holder)"
    by (auto simp: lease_holder_def bind_eq_Some_conv)
  show ?thesis
    unfolding active_owner_some owner_fence_ok is_active_iff holder using token
    by (auto split: option.splits)
qed

text \<open>
  C29: A route is trustworthy. It is given exactly for a Lease whose role annotation names this
  Controller, with a positive duration, that the locator has not seen unchanged for a whole duration of
  its own clock, with a non-empty token and a non-zero epoch, which the route carries; and exactly when
  the holder, which the route carries too, reads podName/podUID and the Pod of that name has that UID,
  is not terminating, is in phase Running and has an address, to which the endpoint leads. So a
  replacement Pod of the same name never inherits a route.
\<close>

theorem located_route_is_verified:
  "(\<exists>ol'. locate sha256_hex now answer get_pod cid ol = (Inr (Some route), ol')) \<longleftrightarrow>
     (\<exists>lease annotations spec d epoch_text pod_name uid pod st ip.
        answer = Inr (Some lease) \<and> lm_annotations lease = Some annotations
        \<and> map_of annotations ''center.edgion.io/coordination-role'' = Some (''controller-owner:'' @ cid)
        \<and> map_of annotations ''center.edgion.io/fencing-token'' = Some (fence_token (route_ownership_fence route))
        \<and> fence_token (route_ownership_fence route) \<noteq> []
        \<and> map_of annotations ''center.edgion.io/fencing-epoch'' = Some epoch_text
        \<and> parse_u64 epoch_text = Some (fence_epoch (route_ownership_fence route))
        \<and> fence_epoch (route_ownership_fence route) \<noteq> 0
        \<and> l_spec lease = Some spec \<and> spec_holder_identity spec = Some (route_holder route)
        \<and> spec_lease_duration_seconds spec = Some d \<and> 0 < d
        \<and> (\<forall>at. map_of (ol_observations ol) (''controller-owner-'' @ take 16 (sha256_hex (''controller-owner:'' @ cid))) =
              Some (case lm_resource_version lease of Some v \<Rightarrow> v | None \<Rightarrow> fence_token (route_ownership_fence route), at)
            \<longrightarrow> now - at < 1000 * nat d)
        \<and> route_holder route = pod_name @ ''/'' @ uid \<and> pod_name \<noteq> [] \<and> uid \<noteq> []
        \<and> CHR ''/'' \<notin> set pod_name \<and> CHR ''/'' \<notin> set uid
        \<and> get_pod pod_name = Inr (Some pod) \<and> pod_uid pod = Some uid \<and> \<not> pod_deleting pod
        \<and> pod_status pod = Some st \<and> pod_phase st = Some ''Running'' \<and> pod_status_ip st = Some ip \<and> ip \<noteq> []
        \<and> route_endpoint route = ''https://'' @ (if CHR '':'' \<in> set ip then ''['' @ ip @ '']'' else ip)
            @ '':'' @ show_nat (unat (ol_internal_port ol)))"
proof -
  have name: "lease_name sha256_hex (ControllerOwner cid) =
      ''controller-owner-'' @ take 16 (sha256_hex (''controller-owner:'' @ cid))"
    and key: "role_key (ControllerOwner cid) = ''controller-owner:'' @ cid"
    by (simp_all add: lease_name_def)
  show ?thesis
    unfolding locate_some active_owner_iff parse_holder_iff pod_ip_iff endpoint_eq name key
      ROLE_ANNOTATION_def TOKEN_ANNOTATION_def EPOCH_ANNOTATION_def
    by (rule iffI; elim exE conjE; intro exI conjI; (assumption | simp))
qed

definition sample_located_lease :: LeaseObject where
  "sample_located_lease =
     acquired_lease \<lparr>co_holder = ''p/u'', co_lease_duration_ms = 15000\<rparr> ''l'' ''controller-owner:x'' None 0 ''t'' 7"

definition sample_pod :: Pod where
  "sample_pod = \<lparr>pod_uid = Some ''u'', pod_deleting = False,
     pod_status = Some \<lparr>pod_phase = Some ''Running'', pod_status_ip = Some ''10.0.0.7''\<rparr>\<rparr>"

theorem located_route_is_verified_witness:
  "\<exists>ol'. locate (\<lambda>x. x) 5 (Inr (Some sample_located_lease)) (\<lambda>name. Inr (if name = ''p'' then Some sample_pod else None)) ''x''
       \<lparr>ol_internal_port = 9443, ol_observations = []\<rparr> =
     (Inr (Some \<lparr>route_holder = ''p/u'', route_endpoint = ''https://10.0.0.7:9443'',
        route_ownership_fence = \<lparr>fence_token = ''t'', fence_epoch = 7\<rparr>\<rparr>), ol')"
proof -
  have port: "show_nat 9443 = ''9443''" by (simp add: show_nat.simps char_of_def bit_Suc_0_iff)
  show ?thesis
    unfolding located_route_is_verified
    by (rule exI [of _ sample_located_lease], rule exI, rule exI, rule exI [of _ 15], rule exI [of _ "show_u64 7"],
        rule exI [of _ "''p''"], rule exI [of _ "''u''"], rule exI [of _ sample_pod], rule exI, rule exI [of _ "''10.0.0.7''"])
      (auto simp: sample_located_lease_def sample_pod_def acquired_lease_def Let_def map_of_update duration_seconds_def
         ROLE_ANNOTATION_def TOKEN_ANNOTATION_def EPOCH_ANNOTATION_def port)
qed

text \<open>
  The locator reads back what the coordinator granted: on the Lease an acquisition writes, seen for
  the first time, it reports that holder with exactly the token and the epoch of the granted
  leadership.
\<close>

theorem locator_reads_granted_fence:
  assumes "co_holder co \<noteq> []" and "token \<noteq> []" and "epoch \<noteq> 0" and "0 < duration_seconds co"
    and "map_of obs name = None"
  shows "fst (active_owner now name (acquired_lease co name (role_key role) current wall token epoch) (role_key role) obs) =
    Inr (Some (lead_holder (leadership co role token epoch),
      \<lparr>fence_token = lead_fencing_token (leadership co role token epoch),
       fence_epoch = lead_fencing_epoch (leadership co role token epoch)\<rparr>))"
proof -
  let ?lease = "acquired_lease co name (role_key role) current wall token epoch"
  obtain annotations where ann: "lm_annotations ?lease = Some annotations"
    "map_of annotations ROLE_ANNOTATION = Some (role_key role)" "map_of annotations TOKEN_ANNOTATION = Some token"
    "map_of annotations EPOCH_ANNOTATION = Some (show_u64 epoch)"
    by (simp add: acquired_lease_def Let_def update_conv' ROLE_ANNOTATION_def TOKEN_ANNOTATION_def EPOCH_ANNOTATION_def)
  have holder: "lease_holder ?lease = Some (co_holder co)"
    by (simp add: acquired_lease_def lease_holder_def Let_def)
  have active: "fst (is_active name ?lease now obs)"
    using assms(1,4,5)
    by (simp add: is_active_def acquired_lease_def Let_def split: option.splits)
  have "owner_fence annotations = Inr \<lparr>fence_token = token, fence_epoch = epoch\<rparr>"
    using assms(2,3) ann by (simp add: owner_fence_ok)
  then show ?thesis
    using ann holder active by (simp add: active_owner_some leadership_def)
qed

theorem locator_reads_granted_fence_witness:
  "fst (active_owner 0 ''l'' (acquired_lease \<lparr>co_holder = ''p/u'', co_lease_duration_ms = 15000\<rparr> ''l''
        (role_key (ControllerOwner ''x'')) None 0 ''t'' 7) (role_key (ControllerOwner ''x'')) []) =
     Inr (Some (''p/u'', \<lparr>fence_token = ''t'', fence_epoch = 7\<rparr>))"
  using locator_reads_granted_fence [of "\<lparr>co_holder = ''p/u'', co_lease_duration_ms = 15000\<rparr>" "''t''" 7 "[]" "''l''" 0
      "ControllerOwner ''x''" None 0]
  by (simp add: duration_seconds_def leadership_def del: role_key.simps)

end
