(* ===== verification/Capability_Store.thy ===== *)
theory Capability_Store
  imports Capabilities Kube_Api
begin

text \<open>
  Storage of capability snapshots in Kubernetes: \<open>crates/center-adapter-kubernetes/src/\<close>
  \<open>cloud_capability_store.rs\<close> with the custom resource of \<open>cloud_capability_crd.rs\<close>.

  One object per snapshot key holds the active discovery authority, its epoch and the last committed
  snapshot. An operation is a loop of attempts over the answers of the API server and returns the
  objects it submitted. \<open>serde_json\<close>, SHA-256 and the random tokens are parameters: the record \<open>serde\<close>
  and a field of each attempt. An \<open>i64\<close> is an integer and its checked operations are written out. The
  section on histories puts the writes that land in one sequence.
\<close>

section \<open>The custom resource\<close>

record EdgionCapabilityScopeSpec =
  ss_scope_type :: string
  ss_region :: "string option"
  ss_resource_kind :: "string option"
  ss_provider_account_id :: "string option"
  ss_external_id :: "string option"

record EdgionProviderCapabilitySnapshotSpec =
  sp_contract_version :: int
  sp_provider_account_id :: string
  sp_scope :: EdgionCapabilityScopeSpec

record EdgionCapabilityAuthorityStatus =
  au_provider_account_generation :: int
  au_credential_revision :: "string option"
  au_discovery_epoch :: int
  au_discovery_token :: string

record EdgionProviderCapabilitySnapshotStatus =
  sx_last_discovery_epoch :: int
  sx_authority :: "EdgionCapabilityAuthorityStatus option"
  sx_snapshot_json :: "string option"

record EdgionProviderCapabilitySnapshot =
  cs_name :: string
  cs_labels :: "(string, string) hmap"
  cs_spec :: EdgionProviderCapabilitySnapshotSpec
  cs_status :: "EdgionProviderCapabilitySnapshotStatus option"

text \<open>\<open>Display\<close> of an error; the quoting of identifiers is left out.\<close>

fun show_core_error :: "CoreError \<Rightarrow> string" where
  "show_core_error (InvalidIdentifier k v) = ''invalid '' @ k @ '' identifier: '' @ v"
| "show_core_error (Conflict m) = ''conflict: '' @ m"
| "show_core_error (NotFound m) = ''not found: '' @ m"
| "show_core_error (Unsupported c) = ''unsupported capability: '' @ c"
| "show_core_error (Adapter m) = ''adapter error: '' @ m"

definition as_text :: "'a CoreResult \<Rightarrow> string + 'a" where
  "as_text r = (case r of Inl e \<Rightarrow> Inl (show_core_error e) | Inr x \<Rightarrow> Inr x)"

definition need :: "string \<Rightarrow> 'a option \<Rightarrow> string + 'a" where
  "need message v = (case v of None \<Rightarrow> Inl message | Some x \<Rightarrow> Inr x)"

fun json_scalar :: "CloudResourceKind \<Rightarrow> string" where
  "json_scalar KProviderAccount = ''provider_account''"
| "json_scalar KManagedZone = ''managed_zone''"
| "json_scalar KDnsRecordSet = ''dns_record_set''"

definition parse_scalar :: "string \<Rightarrow> string + CloudResourceKind" where
  "parse_scalar v =
     (if v = ''provider_account'' then Inr KProviderAccount
      else if v = ''managed_zone'' then Inr KManagedZone
      else if v = ''dns_record_set'' then Inr KDnsRecordSet
      else Inl (''unknown variant `'' @ v @ ''`, expected one of `provider_account`, `managed_zone`, `dns_record_set`''))"

fun scope_spec_from :: "CapabilityScope \<Rightarrow> EdgionCapabilityScopeSpec" where
  "scope_spec_from ScopeAccount =
     \<lparr>ss_scope_type = ''account'', ss_region = None, ss_resource_kind = None, ss_provider_account_id = None,
      ss_external_id = None\<rparr>"
| "scope_spec_from (ScopeRegion region) =
     \<lparr>ss_scope_type = ''region'', ss_region = Some region, ss_resource_kind = None, ss_provider_account_id = None,
      ss_external_id = None\<rparr>"
| "scope_spec_from (ScopeResource kind resource) =
     \<lparr>ss_scope_type = ''resource'', ss_region = None, ss_resource_kind = Some (json_scalar kind),
      ss_provider_account_id = Some (pr_provider_account_id resource), ss_external_id = Some (pr_external_id resource)\<rparr>"

definition scope_to_core :: "EdgionCapabilityScopeSpec \<Rightarrow> string + CapabilityScope" where
  "scope_to_core s =
     (if ss_scope_type s = ''account'' \<and> ss_region s = None \<and> ss_resource_kind s = None
         \<and> ss_provider_account_id s = None \<and> ss_external_id s = None then Inr ScopeAccount
      else if ss_scope_type s = ''region'' \<and> ss_resource_kind s = None \<and> ss_provider_account_id s = None
              \<and> ss_external_id s = None then
        and_then (need ''capability region scope omitted region'' (ss_region s)) (\<lambda>region.
        and_then (as_text (validate_bounded_text region ''provider region'' MAX_REGION_LEN)) (\<lambda>_.
          Inr (ScopeRegion region)))
      else if ss_scope_type s = ''resource'' \<and> ss_region s = None then
        and_then (and_then (need ''capability resource scope omitted resource kind'' (ss_resource_kind s)) parse_scalar) (\<lambda>kind.
        and_then (need ''capability resource scope omitted provider account'' (ss_provider_account_id s)) (\<lambda>account.
        and_then (as_text (validate_resource_id account)) (\<lambda>_.
        and_then (need ''capability resource scope omitted external id'' (ss_external_id s)) (\<lambda>external_id.
          Inr (ScopeResource kind \<lparr>pr_provider_account_id = account, pr_external_id = external_id\<rparr>)))))
      else Inl ''capability snapshot CRD scope shape is invalid'')"

definition spec_from_key :: "CapabilitySnapshotKey \<Rightarrow> EdgionProviderCapabilitySnapshotSpec" where
  "spec_from_key key =
     \<lparr>sp_contract_version = 1, sp_provider_account_id = ck_provider_account_id key,
      sp_scope = scope_spec_from (ck_scope key)\<rparr>"

definition spec_to_key :: "EdgionProviderCapabilitySnapshotSpec \<Rightarrow> string + CapabilitySnapshotKey" where
  "spec_to_key spec =
     (if sp_contract_version spec \<noteq> 1 then Inl ''unsupported capability snapshot CRD contract version''
      else
        and_then (as_text (validate_resource_id (sp_provider_account_id spec))) (\<lambda>_.
        and_then (scope_to_core (sp_scope spec)) (\<lambda>scope.
          let key = \<lparr>ck_provider_account_id = sp_provider_account_id spec, ck_scope = scope\<rparr>
          in and_then (as_text (validate_snapshot_key key)) (\<lambda>_. Inr key))))"

text \<open>\<open>from_core\<close> expects the numbers of a validated fence.\<close>

definition authority_from_core :: "CapabilityDiscoveryFence \<Rightarrow> EdgionCapabilityAuthorityStatus" where
  "authority_from_core f =
     \<lparr>au_provider_account_generation = uint (cf_provider_account_generation f),
      au_credential_revision = cf_credential_revision f, au_discovery_epoch = uint (cf_discovery_epoch f),
      au_discovery_token = cf_discovery_token f\<rparr>"

definition authority_to_core :: "EdgionCapabilityAuthorityStatus \<Rightarrow> string + CapabilityDiscoveryFence" where
  "authority_to_core a =
     (if au_provider_account_generation a < 0 then Inl ''negative capability account generation''
      else if au_discovery_epoch a < 0 then Inl ''negative capability discovery epoch''
      else
        and_then (as_text (validate_bounded_text (au_discovery_token a) ''capability discovery token'' MAX_DISCOVERY_TOKEN_LEN)) (\<lambda>_.
        let fence = \<lparr>cf_provider_account_generation = of_int (au_provider_account_generation a),
                     cf_credential_revision = au_credential_revision a,
                     cf_discovery_epoch = of_int (au_discovery_epoch a), cf_discovery_token = au_discovery_token a\<rparr>
        in and_then (as_text (validate_fence fence)) (\<lambda>_. Inr fence)))"

section \<open>The store\<close>

definition CAPABILITY_CONFLICT_RETRIES :: nat where "CAPABILITY_CONFLICT_RETRIES = 8"
definition ACCOUNT_LABEL :: string where "ACCOUNT_LABEL = ''center.edgion.io/provider-account-hash''"
definition i64_MAX :: int where "i64_MAX = 9223372036854775807"

datatype CapabilityStoreWrite = Stored | FenceLost

record serde =
  sd_encode :: "ProviderCapabilitySnapshot \<Rightarrow> string + string"
  sd_decode :: "string \<Rightarrow> ProviderCapabilitySnapshot option"
  sd_parse :: "string \<Rightarrow> json option"
  sd_encode_key :: "CapabilitySnapshotKey \<Rightarrow> string + string"
  sd_sha256_hex :: "string \<Rightarrow> string"

definition encoded_len :: "serde \<Rightarrow> ProviderCapabilitySnapshot \<Rightarrow> nat option" where
  "encoded_len sd s = (case sd_encode sd s of Inl _ \<Rightarrow> None | Inr text \<Rightarrow> Some (length text))"

record cap_attempt =
  ca_get :: "ResourceError + EdgionProviderCapabilitySnapshot option"
  ca_create :: "ResourceError + EdgionProviderCapabilitySnapshot"
  ca_replace_status :: "ResourceError + EdgionProviderCapabilitySnapshot"
  ca_token :: string

datatype cap_write = CapCreate EdgionProviderCapabilitySnapshot | CapStatus EdgionProviderCapabilitySnapshot

definition digest :: "serde \<Rightarrow> string \<Rightarrow> string" where
  "digest sd value = take 32 (sd_sha256_hex sd value)"

definition capability_snapshot_resource_name :: "serde \<Rightarrow> CapabilitySnapshotKey \<Rightarrow> string CoreResult" where
  "capability_snapshot_resource_name sd key =
     and_then (validate_snapshot_key key) (\<lambda>_.
       case sd_encode_key sd key of
         Inl error \<Rightarrow> Inl (Adapter error)
       | Inr encoded \<Rightarrow> Inr (''cloudcap-'' @ digest sd encoded))"

definition verify_key :: "EdgionProviderCapabilitySnapshot \<Rightarrow> CapabilitySnapshotKey \<Rightarrow> unit CoreResult" where
  "verify_key resource expected =
     (case spec_to_key (cs_spec resource) of
        Inl message \<Rightarrow> Inl (Conflict (''invalid capability snapshot CRD key: '' @ message))
      | Inr actual \<Rightarrow>
          if actual \<noteq> expected then Inl (Conflict ''capability snapshot CRD name collision'') else Inr ())"

text \<open>The cast of the epoch back to \<open>i64\<close> is exact: \<open>to_core\<close> bounds it.\<close>

definition status_authority ::
  "EdgionProviderCapabilitySnapshotStatus \<Rightarrow> CapabilityDiscoveryFence option CoreResult" where
  "status_authority status =
     (if sx_last_discovery_epoch status < 0 then
        Inl (Conflict ''capability snapshot CRD has a negative discovery epoch'')
      else
        (case sx_authority status of
           None \<Rightarrow> Inr None
         | Some a \<Rightarrow>
             (case authority_to_core a of
                Inl message \<Rightarrow> Inl (Conflict (''invalid capability snapshot authority: '' @ message))
              | Inr fence \<Rightarrow>
                  if uint (cf_discovery_epoch fence) \<noteq> sx_last_discovery_epoch status then
                    Inl (Conflict ''capability snapshot authority is not the latest epoch'')
                  else Inr (Some fence))))"

definition status_snapshot ::
  "serde \<Rightarrow> CapabilitySnapshotKey \<Rightarrow> EdgionProviderCapabilitySnapshotStatus \<Rightarrow> ProviderCapabilitySnapshot option CoreResult" where
  "status_snapshot sd key status =
     (case sx_snapshot_json status of
        None \<Rightarrow> Inr None
      | Some value \<Rightarrow>
          (case sd_decode sd value of
             None \<Rightarrow>
               if is_retired_capability_snapshot_json (sd_parse sd) value then Inr None
               else Inl (Conflict ''capability snapshot CRD contains an invalid payload'')
           | Some snapshot \<Rightarrow>
               and_then (validate_write (encoded_len sd) key (sn_fence snapshot) snapshot) (\<lambda>_. Inr (Some snapshot))))"

definition new_resource :: "serde \<Rightarrow> string \<Rightarrow> CapabilitySnapshotKey \<Rightarrow> EdgionProviderCapabilitySnapshot" where
  "new_resource sd name key =
     \<lparr>cs_name = name, cs_labels = [(ACCOUNT_LABEL, digest sd (ck_provider_account_id key))],
      cs_spec = spec_from_key key, cs_status = None\<rparr>"

definition capability_store_new :: "string \<Rightarrow> unit CoreResult" where
  "capability_store_new namespace =
     (if trim namespace = [] \<or> has_control namespace then
        Inl (Adapter ''Kubernetes capability snapshot namespace must be non-empty'') else Inr ())"

definition load_for_key ::
  "CapabilitySnapshotKey \<Rightarrow> ResourceError + EdgionProviderCapabilitySnapshot option
     \<Rightarrow> EdgionProviderCapabilitySnapshot option CoreResult" where
  "load_for_key key answer =
     (case answer of
        Inl error \<Rightarrow> Inl (resource_adapter_error error)
      | Inr None \<Rightarrow> Inr None
      | Inr (Some resource) \<Rightarrow> and_then (verify_key resource key) (\<lambda>_. Inr (Some resource)))"

definition capability_get ::
  "serde \<Rightarrow> CapabilitySnapshotKey \<Rightarrow> ResourceError + EdgionProviderCapabilitySnapshot option
     \<Rightarrow> ProviderCapabilitySnapshot option CoreResult" where
  "capability_get sd key answer =
     and_then (validate_snapshot_key key) (\<lambda>_.
     and_then (capability_snapshot_resource_name sd key) (\<lambda>_.
     and_then (load_for_key key answer) (\<lambda>loaded.
       case loaded of
         None \<Rightarrow> Inr None
       | Some resource \<Rightarrow>
           (case cs_status resource of
              None \<Rightarrow> Inr None
            | Some status \<Rightarrow> status_snapshot sd key status))))"

section \<open>Writes\<close>

definition submit_status ::
  "EdgionProviderCapabilitySnapshot \<Rightarrow> 'a \<Rightarrow> cap_attempt \<Rightarrow> cap_write list \<Rightarrow> ('a CoreResult + unit) \<times> cap_write list" where
  "submit_status resource value a ws =
     (case ca_replace_status a of
        Inr _ \<Rightarrow> (Inl (Inr value), ws @ [CapStatus resource])
      | Inl ResConflict \<Rightarrow> (Inr (), ws @ [CapStatus resource])
      | Inl error \<Rightarrow> (Inl (Inl (resource_adapter_error error)), ws @ [CapStatus resource]))"

text \<open>The object to write to: the stored one, or a new one. \<open>Inl\<close> ends the attempt.\<close>

definition begin_resource ::
  "serde \<Rightarrow> string \<Rightarrow> CapabilitySnapshotKey \<Rightarrow> cap_attempt
     \<Rightarrow> (('a CoreResult + unit) + EdgionProviderCapabilitySnapshot) \<times> cap_write list" where
  "begin_resource sd name key a =
     (case ca_get a of
        Inl error \<Rightarrow> (Inl (Inl (Inl (resource_adapter_error error))), [])
      | Inr (Some resource) \<Rightarrow>
          (case verify_key resource key of Inl e \<Rightarrow> (Inl (Inl (Inl e)), []) | Inr _ \<Rightarrow> (Inr resource, []))
      | Inr None \<Rightarrow>
          ((case ca_create a of
              Inr resource \<Rightarrow> Inr resource
            | Inl ResConflict \<Rightarrow> Inl (Inr ())
            | Inl error \<Rightarrow> Inl (Inl (Inl (resource_adapter_error error)))), [CapCreate (new_resource sd name key)]))"

definition next_fence ::
  "EdgionProviderCapabilitySnapshotStatus option \<Rightarrow> u64 \<Rightarrow> string option \<Rightarrow> string \<Rightarrow> CapabilityDiscoveryFence CoreResult" where
  "next_fence status generation revision token =
     and_then (case status of
                 None \<Rightarrow> Inr 0
               | Some s \<Rightarrow>
                   if sx_last_discovery_epoch s < 0 then Inl (Conflict ''capability discovery epoch is negative'')
                   else Inr (of_int (sx_last_discovery_epoch s))) (\<lambda>last_epoch.
     and_then (case checked_add_u64 last_epoch 1 of
                 None \<Rightarrow> Inl (Conflict ''capability discovery epoch exhausted'')
               | Some e \<Rightarrow> Inr e) (\<lambda>discovery_epoch.
     and_then (validate_bounded_text token ''capability discovery token'' MAX_DISCOVERY_TOKEN_LEN) (\<lambda>_.
       let fence = \<lparr>cf_provider_account_generation = generation, cf_credential_revision = revision,
                    cf_discovery_epoch = discovery_epoch, cf_discovery_token = token\<rparr>
       in and_then (validate_fence fence) (\<lambda>_. Inr fence))))"

definition begun_status ::
  "CapabilityDiscoveryFence \<Rightarrow> EdgionProviderCapabilitySnapshotStatus option \<Rightarrow> EdgionProviderCapabilitySnapshotStatus CoreResult" where
  "begun_status fence status =
     (if i64_MAX < uint (cf_discovery_epoch fence) then Inl (Conflict ''capability discovery epoch exhausted'')
      else Inr \<lparr>sx_last_discovery_epoch = uint (cf_discovery_epoch fence), sx_authority = Some (authority_from_core fence),
                sx_snapshot_json = Option.bind status sx_snapshot_json\<rparr>)"

definition begin_round ::
  "serde \<Rightarrow> string \<Rightarrow> CapabilitySnapshotKey \<Rightarrow> u64 \<Rightarrow> string option \<Rightarrow> cap_attempt
     \<Rightarrow> (CapabilityDiscoveryFence CoreResult + unit) \<times> cap_write list" where
  "begin_round sd name key generation revision a =
     (case begin_resource sd name key a of
        (Inl r, ws) \<Rightarrow> (r, ws)
      | (Inr resource, ws) \<Rightarrow>
          (case and_then (next_fence (cs_status resource) generation revision (ca_token a)) (\<lambda>fence.
                and_then (begun_status fence (cs_status resource)) (\<lambda>status. Inr (fence, status))) of
             Inl e \<Rightarrow> (Inl (Inl e), ws)
           | Inr (fence, status) \<Rightarrow> submit_status (resource\<lparr>cs_status := Some status\<rparr>) fence a ws))"

definition begin_discovery ::
  "serde \<Rightarrow> CapabilitySnapshotKey \<Rightarrow> u64 \<Rightarrow> string option \<Rightarrow> cap_attempt list
     \<Rightarrow> CapabilityDiscoveryFence CoreResult \<times> cap_write list" where
  "begin_discovery sd key generation revision as =
     (case and_then (validate_snapshot_key key) (\<lambda>_. capability_snapshot_resource_name sd key) of
        Inl e \<Rightarrow> (Inl e, [])
      | Inr name \<Rightarrow>
          retry_rounds (begin_round sd name key generation revision)
            (Conflict ''capability discovery begin remained conflicted'') CAPABILITY_CONFLICT_RETRIES as)"

definition put_round ::
  "serde \<Rightarrow> CapabilitySnapshotKey \<Rightarrow> CapabilityDiscoveryFence \<Rightarrow> ProviderCapabilitySnapshot \<Rightarrow> string \<Rightarrow> cap_attempt
     \<Rightarrow> (CapabilityStoreWrite CoreResult + unit) \<times> cap_write list" where
  "put_round sd key expected_fence snapshot payload a =
     (case load_for_key key (ca_get a) of
        Inl e \<Rightarrow> (Inl (Inl e), [])
      | Inr None \<Rightarrow> (Inl (Inr FenceLost), [])
      | Inr (Some resource) \<Rightarrow>
          (case cs_status resource of
             None \<Rightarrow> (Inl (Inr FenceLost), [])
           | Some status \<Rightarrow>
               (case status_authority status of
                  Inl e \<Rightarrow> (Inl (Inl e), [])
                | Inr authority \<Rightarrow>
                    if authority \<noteq> Some expected_fence then (Inl (Inr FenceLost), [])
                    else
                      let submitted = submit_status (resource\<lparr>cs_status := Some (status\<lparr>sx_snapshot_json := Some payload\<rparr>)\<rparr>) Stored a []
                      in (case status_snapshot sd key status of
                            Inr (Some existing) \<Rightarrow>
                              if sn_fence existing = expected_fence then
                                (if existing = snapshot then (Inl (Inr Stored), [])
                                 else (Inl (Inl (Conflict ''capability discovery fence cannot commit two different snapshots'')), []))
                              else submitted
                          | _ \<Rightarrow> submitted))))"

definition put_if_current ::
  "serde \<Rightarrow> CapabilitySnapshotKey \<Rightarrow> CapabilityDiscoveryFence \<Rightarrow> ProviderCapabilitySnapshot \<Rightarrow> cap_attempt list
     \<Rightarrow> CapabilityStoreWrite CoreResult \<times> cap_write list" where
  "put_if_current sd key expected_fence snapshot as =
     (case validate_write (encoded_len sd) key expected_fence snapshot of
        Inl e \<Rightarrow> (Inl e, [])
      | Inr _ \<Rightarrow>
          (case sd_encode sd snapshot of
             Inl error \<Rightarrow> (Inl (Adapter error), [])
           | Inr payload \<Rightarrow>
               (case capability_snapshot_resource_name sd key of
                  Inl e \<Rightarrow> (Inl e, [])
                | Inr _ \<Rightarrow>
                    retry_rounds (put_round sd key expected_fence snapshot payload)
                      (Conflict ''capability snapshot write remained conflicted'') CAPABILITY_CONFLICT_RETRIES as)))"

section \<open>Invalidation\<close>

definition fence_of_revision :: "u64 \<Rightarrow> string option \<Rightarrow> CapabilityDiscoveryFence \<Rightarrow> bool" where
  "fence_of_revision generation revision fence \<longleftrightarrow>
     cf_provider_account_generation fence = generation \<and> cf_credential_revision fence = revision"

definition active_matches :: "u64 \<Rightarrow> string option \<Rightarrow> EdgionProviderCapabilitySnapshotStatus \<Rightarrow> bool" where
  "active_matches generation revision status \<longleftrightarrow>
     (case status_authority status of
        Inl _ \<Rightarrow> True
      | Inr None \<Rightarrow> False
      | Inr (Some fence) \<Rightarrow> fence_of_revision generation revision fence)"

definition snapshot_matches :: "serde \<Rightarrow> u64 \<Rightarrow> string option \<Rightarrow> EdgionProviderCapabilitySnapshotStatus \<Rightarrow> bool" where
  "snapshot_matches sd generation revision status \<longleftrightarrow>
     (case sx_snapshot_json status of
        None \<Rightarrow> False
      | Some value \<Rightarrow>
          (case sd_decode sd value of
             None \<Rightarrow> True
           | Some snapshot \<Rightarrow> fence_of_revision generation revision (sn_fence snapshot)))"

definition invalidated_status ::
  "serde \<Rightarrow> u64 \<Rightarrow> string option \<Rightarrow> EdgionProviderCapabilitySnapshotStatus \<Rightarrow> EdgionProviderCapabilitySnapshotStatus CoreResult" where
  "invalidated_status sd generation revision status =
     and_then (if active_matches generation revision status then
                 and_then (if sx_last_discovery_epoch status < 0 then Inr 0
                           else if i64_MAX < sx_last_discovery_epoch status + 1 then
                             Inl (Conflict ''capability discovery epoch exhausted'')
                           else Inr (sx_last_discovery_epoch status + 1)) (\<lambda>epoch.
                   Inr (status\<lparr>sx_authority := None, sx_last_discovery_epoch := epoch\<rparr>))
               else Inr status) (\<lambda>revoked.
       Inr (if snapshot_matches sd generation revision status then revoked\<lparr>sx_snapshot_json := None\<rparr> else revoked))"

definition invalidate_round ::
  "serde \<Rightarrow> CapabilitySnapshotKey \<Rightarrow> u64 \<Rightarrow> string option \<Rightarrow> cap_attempt \<Rightarrow> (unit CoreResult + unit) \<times> cap_write list" where
  "invalidate_round sd key generation revision a =
     (case load_for_key key (ca_get a) of
        Inl e \<Rightarrow> (Inl (Inl e), [])
      | Inr None \<Rightarrow> (Inl (Inr ()), [])
      | Inr (Some resource) \<Rightarrow>
          (case cs_status resource of
             None \<Rightarrow> (Inl (Inr ()), [])
           | Some status \<Rightarrow>
               if \<not> active_matches generation revision status \<and> \<not> snapshot_matches sd generation revision status then
                 (Inl (Inr ()), [])
               else
                 (case invalidated_status sd generation revision status of
                    Inl e \<Rightarrow> (Inl (Inl e), [])
                  | Inr status' \<Rightarrow> submit_status (resource\<lparr>cs_status := Some status'\<rparr>) () a [])))"

definition invalidate_key ::
  "serde \<Rightarrow> CapabilitySnapshotKey \<Rightarrow> u64 \<Rightarrow> string option \<Rightarrow> cap_attempt list \<Rightarrow> unit CoreResult \<times> cap_write list" where
  "invalidate_key sd key generation revision as =
     (case capability_snapshot_resource_name sd key of
        Inl e \<Rightarrow> (Inl e, [])
      | Inr _ \<Rightarrow>
          retry_rounds (invalidate_round sd key generation revision)
            (Conflict ''capability snapshot invalidation remained conflicted'') CAPABILITY_CONFLICT_RETRIES as)"

text \<open>\<open>answers\<close> are the attempts made for the object of a key. The first error is kept.\<close>

definition invalidate_one ::
  "serde \<Rightarrow> string \<Rightarrow> u64 \<Rightarrow> string option \<Rightarrow> (CapabilitySnapshotKey \<Rightarrow> cap_attempt list) \<Rightarrow> EdgionProviderCapabilitySnapshot
     \<Rightarrow> unit CoreResult \<times> cap_write list" where
  "invalidate_one sd account_id generation revision answers resource =
     (if sp_provider_account_id (cs_spec resource) \<noteq> account_id then (Inr (), [])
      else
        (case spec_to_key (cs_spec resource) of
           Inl message \<Rightarrow> (Inl (Conflict (''invalid capability snapshot CRD key: '' @ message)), [])
         | Inr key \<Rightarrow>
             if ck_provider_account_id key \<noteq> account_id then
               (Inl (Conflict ''capability snapshot account identity is inconsistent''), [])
             else invalidate_key sd key generation revision (answers key)))"

fun invalidate_all ::
  "(EdgionProviderCapabilitySnapshot \<Rightarrow> unit CoreResult \<times> cap_write list) \<Rightarrow> EdgionProviderCapabilitySnapshot list
     \<Rightarrow> unit CoreResult \<times> cap_write list" where
  "invalidate_all f [] = (Inr (), [])"
| "invalidate_all f (resource # rest) =
     (let (r, ws) = f resource; (r', ws') = invalidate_all f rest
      in (case r of Inl e \<Rightarrow> Inl e | Inr _ \<Rightarrow> r', ws @ ws'))"

definition invalidate_account_revision ::
  "serde \<Rightarrow> string \<Rightarrow> u64 \<Rightarrow> string option \<Rightarrow> ResourceError + EdgionProviderCapabilitySnapshot list
     \<Rightarrow> (CapabilitySnapshotKey \<Rightarrow> cap_attempt list) \<Rightarrow> unit CoreResult \<times> cap_write list" where
  "invalidate_account_revision sd account_id generation revision listing answers =
     (case and_then (validate_resource_id account_id) (\<lambda>_.
           validate_fence \<lparr>cf_provider_account_generation = generation, cf_credential_revision = revision,
                           cf_discovery_epoch = 1, cf_discovery_token = ''invalidation-validation''\<rparr>) of
        Inl e \<Rightarrow> (Inl e, [])
      | Inr _ \<Rightarrow>
          (case listing of
             Inl error \<Rightarrow> (Inl (resource_adapter_error error), [])
           | Inr resources \<Rightarrow> invalidate_all (invalidate_one sd account_id generation revision answers) resources))"

section \<open>Histories\<close>

text \<open>
  The object of one key as the API server stores it, and the fences the store has handed out, the
  latest first. A creation lands where there is no object and a conditional write while the stored
  object is still the one its attempt works on, whatever answer its writer gets. Nothing deletes it.
\<close>

record cap_history =
  ch_stored :: "EdgionProviderCapabilitySnapshot option"
  ch_granted :: "CapabilityDiscoveryFence list"

inductive cap_step :: "serde \<Rightarrow> CapabilitySnapshotKey \<Rightarrow> cap_history \<Rightarrow> cap_history \<Rightarrow> bool" for sd key where
  created:
    "ch_stored h = None \<Longrightarrow> CapCreate w \<in> set (snd (begin_round sd name key generation revision a)) \<Longrightarrow>
     cap_step sd key h (h\<lparr>ch_stored := Some w\<rparr>)"
| begun:
    "ch_stored h = Some obj \<Longrightarrow> fst (begin_resource sd name key a :: ((unit CoreResult + unit) + _) \<times> _) = Inr obj \<Longrightarrow>
     CapStatus w \<in> set (snd (begin_round sd name key generation revision a)) \<Longrightarrow>
     next_fence (cs_status obj) generation revision (ca_token a) = Inr fence \<Longrightarrow>
     cap_step sd key h \<lparr>ch_stored = Some w, ch_granted = fence # ch_granted h\<rparr>"
| committed:
    "ch_stored h = Some obj \<Longrightarrow> ca_get a = Inr (Some obj) \<Longrightarrow>
     validate_write (encoded_len sd) key fence snapshot = Inr () \<Longrightarrow> sd_encode sd snapshot = Inr payload \<Longrightarrow>
     CapStatus w \<in> set (snd (put_round sd key fence snapshot payload a)) \<Longrightarrow>
     cap_step sd key h (h\<lparr>ch_stored := Some w\<rparr>)"
| invalidated:
    "ch_stored h = Some obj \<Longrightarrow> ca_get a = Inr (Some obj) \<Longrightarrow>
     CapStatus w \<in> set (snd (invalidate_round sd key generation revision a)) \<Longrightarrow>
     cap_step sd key h (h\<lparr>ch_stored := Some w\<rparr>)"

definition empty_history :: cap_history where
  "empty_history = \<lparr>ch_stored = None, ch_granted = []\<rparr>"

abbreviation history_status :: "cap_history \<Rightarrow> EdgionProviderCapabilitySnapshotStatus option" where
  "history_status h \<equiv> Option.bind (ch_stored h) cs_status"

text \<open>The fence that can commit, the epoch, and the epochs handed out.\<close>

definition held_fence :: "cap_history \<Rightarrow> CapabilityDiscoveryFence option" where
  "held_fence h =
     (case history_status h of
        None \<Rightarrow> None
      | Some status \<Rightarrow> (case status_authority status of Inl _ \<Rightarrow> None | Inr authority \<Rightarrow> authority))"

definition discovery_epoch :: "cap_history \<Rightarrow> nat" where
  "discovery_epoch h = (case history_status h of None \<Rightarrow> 0 | Some status \<Rightarrow> nat (sx_last_discovery_epoch status))"

definition discovery_grants :: "cap_history \<Rightarrow> nat list" where
  "discovery_grants h = map (\<lambda>f. unat (cf_discovery_epoch f)) (ch_granted h)"

definition epoch_in_range :: "cap_history \<Rightarrow> bool" where
  "epoch_in_range h \<longleftrightarrow> (case history_status h of None \<Rightarrow> True | Some status \<Rightarrow> sx_last_discovery_epoch status \<le> i64_MAX)"

section \<open>Properties of the writes\<close>

lemma need_Inr [simp]: "need m v = Inr x \<longleftrightarrow> v = Some x"
  by (simp add: need_def split: option.splits)

lemma as_text_Inr [simp]: "as_text r = Inr x \<longleftrightarrow> r = Inr x"
  by (simp add: as_text_def split: sum.splits)

lemma validate_fence_iff:
  "validate_fence f = Inr () \<longleftrightarrow>
     cf_provider_account_generation f \<noteq> 0 \<and> unat (cf_provider_account_generation f) < 2 ^ 63
     \<and> cf_discovery_epoch f \<noteq> 0 \<and> unat (cf_discovery_epoch f) < 2 ^ 63
     \<and> validate_optional_bounded_text (cf_credential_revision f) ''credential revision'' MAX_REVISION_LEN = Inr ()
     \<and> validate_bounded_text (cf_discovery_token f) ''capability discovery token'' MAX_DISCOVERY_TOKEN_LEN = Inr ()"
proof -
  have "i64_MAX_u64 < x \<longleftrightarrow> \<not> unat x < 2 ^ 63" for x :: u64
    by (simp add: i64_MAX_u64_def word_less_nat_alt) linarith
  then show ?thesis
    by (auto simp: validate_fence_def and_then_eq_Inr split: if_splits)
qed

lemma authority_roundtrip:
  assumes "validate_fence f = Inr ()"
  shows "authority_to_core (authority_from_core f) = Inr f"
  using assms
  by (cases f) (auto simp: authority_to_core_def authority_from_core_def validate_fence_iff Let_def and_then_eq_Inr)

lemma authority_epoch: "status_authority status = Inr (Some f) \<Longrightarrow> uint (cf_discovery_epoch f) = sx_last_discovery_epoch status"
  by (auto simp: status_authority_def split: if_splits option.splits sum.splits)

lemma submit_status_writes [simp]: "snd (submit_status r v a ws) = ws @ [CapStatus r]"
  by (simp add: submit_status_def split: sum.splits ResourceError.splits)

lemma begin_resource_writes:
  "CapStatus w \<notin> set (snd (begin_resource sd name key a))"
  by (auto simp: begin_resource_def split: sum.splits option.splits)

lemma begin_resource_poly:
  "fst (begin_resource sd name key a :: (('a CoreResult + unit) + _) \<times> _) = Inr obj \<longleftrightarrow>
   fst (begin_resource sd name key a :: (('b CoreResult + unit) + _) \<times> _) = Inr obj"
  by (auto simp: begin_resource_def split: sum.splits option.splits ResourceError.splits)

lemma begin_write:
  assumes "CapStatus w \<in> set (snd (begin_round sd name key generation revision a))"
    and "fst (begin_resource sd name key a :: ((unit CoreResult + unit) + _) \<times> _) = Inr obj"
    and "next_fence (cs_status obj) generation revision (ca_token a) = Inr fence"
  shows "\<exists>status. begun_status fence (cs_status obj) = Inr status \<and> w = obj\<lparr>cs_status := Some status\<rparr>"
proof -
  obtain ws where b: "(begin_resource sd name key a :: ((CapabilityDiscoveryFence CoreResult + unit) + _) \<times> _) = (Inr obj, ws)"
    using begin_resource_poly [THEN iffD1, OF assms(2)] by (metis prod.collapse)
  have "CapStatus w \<notin> set ws" using begin_resource_writes b by (metis snd_conv)
  with assms(1) show ?thesis
    by (auto simp: begin_round_def b assms(3) and_then_eq_Inr split: sum.splits)
qed

lemma create_write:
  "CapCreate w \<in> set (snd (begin_round sd name key generation revision a)) \<Longrightarrow> w = new_resource sd name key"
  by (auto simp: begin_round_def begin_resource_def split: sum.splits option.splits prod.splits)

lemma put_write:
  assumes "CapStatus w \<in> set (snd (put_round sd key fence snapshot payload a))" and "ca_get a = Inr (Some obj)"
  shows "\<exists>status. cs_status obj = Some status \<and> status_authority status = Inr (Some fence)
    \<and> w = obj\<lparr>cs_status := Some (status\<lparr>sx_snapshot_json := Some payload\<rparr>)\<rparr>
    \<and> (\<forall>existing. status_snapshot sd key status = Inr (Some existing) \<longrightarrow> sn_fence existing \<noteq> fence)"
  using assms
  by (auto simp: put_round_def load_for_key_def Let_def and_then_def
      split: sum.splits option.splits if_splits)

lemma invalidate_write:
  assumes "CapStatus w \<in> set (snd (invalidate_round sd key generation revision a))" and "ca_get a = Inr (Some obj)"
  shows "\<exists>status status'. cs_status obj = Some status \<and> invalidated_status sd generation revision status = Inr status'
    \<and> w = obj\<lparr>cs_status := Some status'\<rparr>
    \<and> (active_matches generation revision status \<or> snapshot_matches sd generation revision status)"
  using assms
  by (auto simp: invalidate_round_def load_for_key_def and_then_def split: sum.splits option.splits if_splits)


text \<open>The numbers of a fence that is handed out.\<close>

lemma u64_of_i64: "0 \<le> x \<Longrightarrow> x \<le> i64_MAX \<Longrightarrow> int (unat (of_int x :: u64)) = x"
  by (simp add: i64_MAX_def unsigned_of_int take_bit_int_eq_self_iff)

lemma next_fence_epoch:
  assumes "next_fence status generation revision token = Inr f"
    and "\<And>s. status = Some s \<Longrightarrow> sx_last_discovery_epoch s \<le> i64_MAX"
  shows "validate_fence f = Inr ()"
    and "int (unat (cf_discovery_epoch f)) = (case status of None \<Rightarrow> 0 | Some s \<Rightarrow> sx_last_discovery_epoch s) + 1"
proof -
  define l_of :: "u64 CoreResult" where "l_of = (case status of None \<Rightarrow> Inr 0 | Some s \<Rightarrow>
      if sx_last_discovery_epoch s < 0 then Inl (Conflict ''capability discovery epoch is negative'')
      else Inr (of_int (sx_last_discovery_epoch s)))"
  from assms(1) obtain l e where l: "l_of = Inr l"
    and e: "(case checked_add_u64 l 1 of None \<Rightarrow> Inl (Conflict ''capability discovery epoch exhausted'') | Some e \<Rightarrow> Inr e) = Inr e"
    and f: "and_then (validate_fence \<lparr>cf_provider_account_generation = generation, cf_credential_revision = revision,
        cf_discovery_epoch = e, cf_discovery_token = token\<rparr>)
      (\<lambda>_. Inr \<lparr>cf_provider_account_generation = generation, cf_credential_revision = revision,
        cf_discovery_epoch = e, cf_discovery_token = token\<rparr>) = Inr f"
    unfolding next_fence_def l_of_def [symmetric] Let_def and_then_eq_Inr by blast
  from e have "checked_add_u64 l 1 = Some e" by (cases "checked_add_u64 l 1") simp_all
  with f have add: "checked_add_u64 l 1 = Some (cf_discovery_epoch f)" and v: "validate_fence f = Inr ()"
    by (auto simp: and_then_eq_Inr)
  show "validate_fence f = Inr ()" by (rule v)
  have "int (unat l) = (case status of None \<Rightarrow> 0 | Some s \<Rightarrow> sx_last_discovery_epoch s)"
  proof (cases status)
    case (Some st)
    then show ?thesis using l assms(2) u64_of_i64 [of "sx_last_discovery_epoch st"]
      by (simp add: l_of_def not_less split: if_splits)
  qed (use l in \<open>simp add: l_of_def\<close>)
  with checked_add_unat [OF add]
  show "int (unat (cf_discovery_epoch f)) = (case status of None \<Rightarrow> 0 | Some s \<Rightarrow> sx_last_discovery_epoch s) + 1"
    by simp
qed

lemma begun_status_authority:
  assumes "begun_status f status = Inr status'" and "validate_fence f = Inr ()"
  shows "status_authority status' = Inr (Some f)" and "sx_last_discovery_epoch status' = int (unat (cf_discovery_epoch f))"
    and "sx_last_discovery_epoch status' \<le> i64_MAX" and "sx_snapshot_json status' = Option.bind status sx_snapshot_json"
  using assms by (auto simp: begun_status_def status_authority_def authority_roundtrip split: if_splits)

lemma authority_keeps_json [simp]: "status_authority (status\<lparr>sx_snapshot_json := j\<rparr>) = status_authority status"
  by (simp add: status_authority_def cong: option.case_cong sum.case_cong)

lemma authority_revoked: "0 \<le> e \<Longrightarrow> status_authority (status\<lparr>sx_authority := None, sx_last_discovery_epoch := e\<rparr>) = Inr None"
  by (simp add: status_authority_def)

lemma invalidated_status_cases:
  assumes "invalidated_status sd g r status = Inr status'"
  shows "sx_last_discovery_epoch status \<le> sx_last_discovery_epoch status'"
    and "sx_last_discovery_epoch status \<le> i64_MAX \<Longrightarrow> sx_last_discovery_epoch status' \<le> i64_MAX"
    and "status_authority status' = Inr None
      \<or> status_authority status' = status_authority status \<and> \<not> active_matches g r status"
    and "sx_snapshot_json status' = (if snapshot_matches sd g r status then None else sx_snapshot_json status)"
  using assms
  by (auto simp: invalidated_status_def and_then_eq_Inr i64_MAX_def authority_revoked split: if_splits)


section \<open>Histories are fenced\<close>

lemmas history_defs = held_fence_def discovery_epoch_def discovery_grants_def epoch_in_range_def

lemma cap_step_effect:
  assumes "cap_step sd key h h'" and "epoch_in_range h"
  shows "epoch_in_range h'
    \<and> ((ch_granted h' = ch_granted h \<and> discovery_epoch h \<le> discovery_epoch h'
          \<and> (held_fence h' = None \<or> held_fence h' = held_fence h))
       \<or> (\<exists>f. ch_granted h' = f # ch_granted h \<and> held_fence h' = Some f
             \<and> discovery_epoch h' = unat (cf_discovery_epoch f) \<and> discovery_epoch h < discovery_epoch h'))"
  using assms(1)
proof cases
  case (created w name generation revision a)
  then show ?thesis
    using create_write [OF created(3)] by (simp add: history_defs new_resource_def)
next
  case (begun obj name a w generation revision fence)
  have range: "\<And>s. cs_status obj = Some s \<Longrightarrow> sx_last_discovery_epoch s \<le> i64_MAX"
    using assms(2) begun(2) by (simp add: epoch_in_range_def)
  note n = next_fence_epoch [OF begun(5) range]
  obtain st where st: "begun_status fence (cs_status obj) = Inr st" "w = obj\<lparr>cs_status := Some st\<rparr>"
    using begin_write [OF begun(4,3,5)] by blast
  note b = begun_status_authority [OF st(1) n(1)]
  have pos: "0 < unat (cf_discovery_epoch fence)" using n(1) by (simp add: validate_fence_iff unat_gt_0)
  have "discovery_epoch h < unat (cf_discovery_epoch fence)"
  proof (cases "cs_status obj")
    case (Some st)
    then have e: "int (unat (cf_discovery_epoch fence)) = sx_last_discovery_epoch st + 1" using n(2) by simp
    then have "nat (sx_last_discovery_epoch st) < unat (cf_discovery_epoch fence)" using pos by linarith
    then show ?thesis by (simp add: discovery_epoch_def begun(2) Some)
  qed (use pos in \<open>simp add: discovery_epoch_def begun(2)\<close>)
  then show ?thesis
    using b st(2) by (simp add: history_defs begun(1))
next
  case (committed obj a fence snapshot payload w)
  then show ?thesis
    using put_write [OF committed(6,3)] assms(2) by (auto simp: history_defs)
next
  case (invalidated obj a w generation revision)
  then obtain st st' where st: "cs_status obj = Some st" "invalidated_status sd generation revision st = Inr st'"
    "w = obj\<lparr>cs_status := Some st'\<rparr>" using invalidate_write [OF invalidated(4,3)] by blast
  from invalidated_status_cases [OF st(2)] show ?thesis
    using st invalidated(1,2) assms(2) by (auto simp: history_defs nat_mono)
qed

interpretation cap_fence: fenced_history "cap_step sd key" epoch_in_range discovery_epoch discovery_grants
  for sd key
proof unfold_locales
  show "epoch_in_range t" if "epoch_in_range s" "cap_step sd key s t" for s t
    using cap_step_effect [OF that(2,1)] by blast
  show "discovery_grants t = discovery_grants s \<and> discovery_epoch s \<le> discovery_epoch t
      \<or> discovery_grants t = discovery_epoch t # discovery_grants s \<and> discovery_epoch s < discovery_epoch t"
    if "epoch_in_range s" "cap_step sd key s t" for s t
    using cap_step_effect [OF that(2,1)] by (auto simp: discovery_grants_def)
qed

lemma empty_ordered: "cap_fence.ordered empty_history"
  by (simp add: cap_fence.ordered_def history_defs empty_history_def)

lemma ordered_in_range: "cap_fence.ordered h \<Longrightarrow> epoch_in_range h"
  by (simp add: cap_fence.ordered_def)

lemma held_is_latest:
  assumes "(cap_step sd key)\<^sup>*\<^sup>* empty_history h" and "held_fence h = Some f"
  shows "\<exists>rest. ch_granted h = f # rest"
  using assms
proof (induction arbitrary: f rule: rtranclp_induct)
  case base
  then show ?case by (simp add: held_fence_def empty_history_def)
next
  case (step h h')
  have "epoch_in_range h"
    using cap_fence.ordered_run [OF step.hyps(1) empty_ordered] by (rule ordered_in_range)
  from cap_step_effect [OF step.hyps(2) this] step.IH step.prems show ?case by auto
qed

lemma granted_kept: "(cap_step sd key)\<^sup>*\<^sup>* h h' \<Longrightarrow> cap_fence.ordered h \<Longrightarrow> set (ch_granted h) \<subseteq> set (ch_granted h')"
proof (induction rule: rtranclp_induct)
  case (step h1 h2)
  have "epoch_in_range h1" using ordered_in_range [OF cap_fence.ordered_run [OF step.hyps(1) step.prems]] .
  from cap_step_effect [OF step.hyps(2) this] step show ?case by auto
qed simp

text \<open>A fence that was handed out and is not held is never held again.\<close>

lemma lost_stays_lost:
  assumes "(cap_step sd key)\<^sup>*\<^sup>* h h'" and "cap_fence.ordered h" and "f \<in> set (ch_granted h)" and "held_fence h \<noteq> Some f"
  shows "f \<in> set (ch_granted h') \<and> held_fence h' \<noteq> Some f"
  using assms(1)
proof (induction rule: rtranclp_induct)
  case (step h1 h2)
  have o1: "cap_fence.ordered h1" using cap_fence.ordered_run [OF step.hyps(1) assms(2)] .
  have bound: "unat (cf_discovery_epoch f) \<le> discovery_epoch h1"
    using o1 step.IH by (auto simp: cap_fence.ordered_def discovery_grants_def)
  from cap_step_effect [OF step.hyps(2) ordered_in_range [OF o1]] step.IH bound show ?case by auto
qed (use assms in simp)


text \<open>
  Every discovery gets a larger epoch than all earlier ones of its key, across account generations,
  credential revisions and revocations; no handed-out epoch exceeds the stored one, and the counter
  stays within an \<open>i64\<close>.
\<close>

theorem discovery_epochs_increase:
  assumes "(cap_step sd key)\<^sup>*\<^sup>* empty_history h"
  shows "sorted_wrt (\<lambda>f g. cf_discovery_epoch g < cf_discovery_epoch f) (ch_granted h)
    \<and> (\<forall>f \<in> set (ch_granted h). unat (cf_discovery_epoch f) \<le> discovery_epoch h)
    \<and> discovery_epoch h < 2 ^ 63"
proof -
  have o: "cap_fence.ordered h" using cap_fence.ordered_run [OF assms empty_ordered] .
  then have "sorted_wrt (\<lambda>f g. cf_discovery_epoch g < cf_discovery_epoch f) (ch_granted h)"
    "\<forall>f \<in> set (ch_granted h). unat (cf_discovery_epoch f) \<le> discovery_epoch h"
    by (auto simp: cap_fence.ordered_def discovery_grants_def sorted_wrt_map word_less_nat_alt)
  moreover have "discovery_epoch h < 2 ^ 63"
    using ordered_in_range [OF o] by (auto simp: epoch_in_range_def discovery_epoch_def i64_MAX_def split: option.splits)
  ultimately show ?thesis by blast
qed

text \<open>
  C11: A discovery that has lost its authority, to a newer discovery or to an invalidation, can never
  commit: whatever lands afterwards, its write submits nothing and is not reported as stored.
\<close>

theorem lost_fence_never_commits:
  assumes "(cap_step sd key)\<^sup>*\<^sup>* empty_history h" and "f \<in> set (ch_granted h)" and "held_fence h \<noteq> Some f"
    and "(cap_step sd key)\<^sup>*\<^sup>* h h'" and "ca_get a = Inr (ch_stored h')"
  shows "snd (put_round sd key f snapshot payload a) = [] \<and> fst (put_round sd key f snapshot payload a) \<noteq> Inl (Inr Stored)"
proof -
  have "held_fence h' \<noteq> Some f"
    using lost_stays_lost [OF assms(4) cap_fence.ordered_run [OF assms(1) empty_ordered] assms(2,3)] by blast
  then show ?thesis
    using assms(5)
    by (auto simp: put_round_def load_for_key_def held_fence_def and_then_def split: sum.splits option.splits)
qed

text \<open>
  The fence that commits is the one handed out last, and its first payload is final: while it stays
  the authority, the stored payload does not change.
\<close>

lemma commit_keeps_payload:
  assumes "cap_step sd key h h'" and "epoch_in_range h" and "history_status h = Some st"
    and "status_snapshot sd key st = Inr (Some s)" and "held_fence h = Some (sn_fence s)" and "held_fence h' = held_fence h"
    and "sn_fence s \<in> set (ch_granted h)" and "\<forall>g \<in> set (ch_granted h). unat (cf_discovery_epoch g) \<le> discovery_epoch h"
  shows "\<exists>st'. history_status h' = Some st' \<and> sx_snapshot_json st' = sx_snapshot_json st"
  using assms(1)
proof cases
  case (created w name generation revision a)
  then show ?thesis using assms(3) by simp
next
  case (begun obj name a w generation revision fence)
  have "held_fence h' = Some fence" "discovery_epoch h < unat (cf_discovery_epoch fence)"
    using cap_step_effect [OF assms(1,2)] begun(1) by auto
  then show ?thesis using assms(5,6,7,8) by fastforce
next
  case (committed obj a fence snapshot payload w)
  then obtain st' where st': "cs_status obj = Some st'" "status_authority st' = Inr (Some fence)"
    "\<forall>existing. status_snapshot sd key st' = Inr (Some existing) \<longrightarrow> sn_fence existing \<noteq> fence"
    using put_write [OF committed(6,3)] by blast
  then have "st' = st" using assms(3) committed(2) by simp
  then show ?thesis using st' assms(3,4,5) by (auto simp: held_fence_def)
next
  case (invalidated obj a w generation revision)
  then obtain st0 st' where st: "cs_status obj = Some st0" "invalidated_status sd generation revision st0 = Inr st'"
    "w = obj\<lparr>cs_status := Some st'\<rparr>" using invalidate_write [OF invalidated(4,3)] by blast
  then have eq: "st0 = st" using assms(3) invalidated(2) by simp
  have auth: "status_authority st = Inr (Some (sn_fence s))"
    using assms(3,5) by (auto simp: held_fence_def split: sum.splits)
  have "held_fence h' = (case status_authority st' of Inl _ \<Rightarrow> None | Inr a \<Rightarrow> a)"
    by (simp add: held_fence_def invalidated(1) st(3))
  then have "\<not> active_matches generation revision st"
    using invalidated_status_cases(3) [OF st(2)] assms(5,6) eq by auto
  then have "\<not> snapshot_matches sd generation revision st"
    using assms(4) auth
    by (auto simp: active_matches_def snapshot_matches_def status_snapshot_def and_then_eq_Inr split: option.splits if_splits)
  then show ?thesis
    using invalidated_status_cases(4) [OF st(2)] eq by (simp add: invalidated(1) st(3))
qed

theorem committed_payload_is_final:
  assumes "(cap_step sd key)\<^sup>*\<^sup>* empty_history h" and "history_status h = Some st"
    and "status_snapshot sd key st = Inr (Some s)" and "held_fence h = Some (sn_fence s)"
    and "(cap_step sd key)\<^sup>*\<^sup>* h h'" and "held_fence h' = Some (sn_fence s)"
  shows "(\<exists>rest. ch_granted h' = sn_fence s # rest)
    \<and> (\<exists>st'. history_status h' = Some st' \<and> status_snapshot sd key st' = Inr (Some s))"
proof -
  have "\<exists>st'. history_status h' = Some st' \<and> sx_snapshot_json st' = sx_snapshot_json st"
    using assms(5,6)
  proof (induction rule: rtranclp_induct)
    case (step h1 h2)
    have run1: "(cap_step sd key)\<^sup>*\<^sup>* empty_history h1" using assms(1) step.hyps(1) by (rule rtranclp_trans)
    have o1: "cap_fence.ordered h1" using cap_fence.ordered_run [OF run1 empty_ordered] .
    have f1: "sn_fence s \<in> set (ch_granted h1)"
      using held_is_latest [OF assms(1,4)] granted_kept [OF step.hyps(1) cap_fence.ordered_run [OF assms(1) empty_ordered]]
      by auto
    have held1: "held_fence h1 = Some (sn_fence s)"
      using lost_stays_lost [OF r_into_rtranclp [of "cap_step sd key", OF step.hyps(2)] o1 f1] step.prems by blast
    then obtain st1 where st1: "history_status h1 = Some st1" "sx_snapshot_json st1 = sx_snapshot_json st"
      using step.IH by blast
    then have "status_snapshot sd key st1 = Inr (Some s)" using assms(3) by (simp add: status_snapshot_def)
    moreover have "\<forall>g \<in> set (ch_granted h1). unat (cf_discovery_epoch g) \<le> discovery_epoch h1"
      using o1 by (auto simp: cap_fence.ordered_def discovery_grants_def)
    ultimately show ?case
      using commit_keeps_payload [OF step.hyps(2) ordered_in_range [OF o1] st1(1) _ held1 _ f1] held1 step.prems st1(2)
      by simp
  qed (use assms(2) in simp)
  then have "\<exists>st'. history_status h' = Some st' \<and> status_snapshot sd key st' = Inr (Some s)"
    using assms(3) by (auto simp: status_snapshot_def)
  then show ?thesis using held_is_latest [OF rtranclp_trans [OF assms(1,5)] assms(6)] by blast
qed

text \<open>
  An invalidation is exact. Afterwards neither the authority nor the snapshot is of the stale
  revision; an authority of another revision keeps its fence and epoch, a readable snapshot of
  another revision stays.
\<close>

theorem invalidation_is_exact:
  assumes "invalidated_status sd generation revision status = Inr status'"
  shows "\<not> active_matches generation revision status' \<and> \<not> snapshot_matches sd generation revision status'
    \<and> (\<not> active_matches generation revision status \<longrightarrow>
         status_authority status' = status_authority status \<and> sx_last_discovery_epoch status' = sx_last_discovery_epoch status)
    \<and> (active_matches generation revision status \<longrightarrow> status_authority status' = Inr None)
    \<and> (\<not> snapshot_matches sd generation revision status \<longrightarrow> sx_snapshot_json status' = sx_snapshot_json status)"
proof -
  have keep: "active_matches generation revision (st\<lparr>sx_snapshot_json := j\<rparr>) = active_matches generation revision st" for st j
    by (simp add: active_matches_def)
  show ?thesis
  proof (cases "active_matches generation revision status")
    case True
    then obtain e where "0 \<le> e" "status' = (if snapshot_matches sd generation revision status
        then status\<lparr>sx_authority := None, sx_last_discovery_epoch := e, sx_snapshot_json := None\<rparr>
        else status\<lparr>sx_authority := None, sx_last_discovery_epoch := e\<rparr>)"
      using assms by (fastforce simp: invalidated_status_def and_then_eq_Inr split: if_splits)
    then show ?thesis using True authority_revoked [of e status]
      by (auto simp: snapshot_matches_def active_matches_def)
  next
    case False
    then have "status' = (if snapshot_matches sd generation revision status then status\<lparr>sx_snapshot_json := None\<rparr> else status)"
      using assms by (simp add: invalidated_status_def)
    moreover have "\<not> snapshot_matches sd generation revision (status\<lparr>sx_snapshot_json := None\<rparr>)"
      by (simp add: snapshot_matches_def)
    ultimately show ?thesis using False keep by simp
  qed
qed


text \<open>The spec of an object and a valid key determine each other.\<close>

lemma parse_json_scalar: "parse_scalar v = Inr k \<longleftrightarrow> v = json_scalar k"
  by (cases k) (auto simp: parse_scalar_def split: if_splits)

lemma scope_to_core_iff:
  assumes "validate_for_account scope account = Inr ()"
  shows "scope_to_core s = Inr scope \<longleftrightarrow> s = scope_spec_from scope"
proof (cases scope)
  case (ScopeResource kind resource)
  then show ?thesis
    using assms
    by (cases s; cases resource) (auto simp: scope_to_core_def and_then_eq_Inr parse_json_scalar split: if_splits)
qed (use assms in \<open>cases s, auto simp: scope_to_core_def and_then_eq_Inr split: if_splits\<close>)+

theorem snapshot_key_roundtrip:
  "spec_to_key spec = Inr key \<longleftrightarrow> validate_snapshot_key key = Inr () \<and> spec = spec_from_key key"
proof -
  have "spec_to_key spec = Inr key \<longleftrightarrow>
      sp_contract_version spec = 1 \<and> sp_provider_account_id spec = ck_provider_account_id key
      \<and> validate_snapshot_key key = Inr () \<and> scope_to_core (sp_scope spec) = Inr (ck_scope key)"
    by (cases key) (auto simp: spec_to_key_def Let_def and_then_eq_Inr validate_snapshot_key_def)
  moreover have "scope_to_core (sp_scope spec) = Inr (ck_scope key) \<longleftrightarrow> sp_scope spec = scope_spec_from (ck_scope key)"
    if "validate_snapshot_key key = Inr ()"
    using scope_to_core_iff that by (auto simp: validate_snapshot_key_def and_then_eq_Inr)
  moreover have "spec = spec_from_key key \<longleftrightarrow> sp_contract_version spec = 1
      \<and> sp_provider_account_id spec = ck_provider_account_id key \<and> sp_scope spec = scope_spec_from (ck_scope key)"
    by (cases spec) (simp add: spec_from_key_def)
  ultimately show ?thesis by blast
qed

text \<open>
  What is reported as stored is what a reader gets: after a successful write the object that the
  attempt left behind reads back as the snapshot.
\<close>

theorem stored_snapshot_reads_back:
  assumes "fst (put_if_current sd key fence snapshot [a]) = Inr Stored" and "ca_get a = Inr (Some obj)"
    and "sd_encode sd snapshot = Inr payload" and "sd_decode sd payload = Some snapshot"
  shows "capability_get sd key (Inr (Some (case snd (put_if_current sd key fence snapshot [a]) of
      [] \<Rightarrow> obj | CapStatus w # _ \<Rightarrow> w | CapCreate w # _ \<Rightarrow> w))) = Inr (Some snapshot)"
proof -
  have valid: "validate_write (encoded_len sd) key fence snapshot = Inr ()"
    and name: "\<exists>n. capability_snapshot_resource_name sd key = Inr n"
    using assms(1) by (auto simp: put_if_current_def split: sum.splits)
  have key: "validate_snapshot_key key = Inr ()" and fence: "sn_fence snapshot = fence"
    using valid by (auto simp: validate_write_def and_then_eq_Inr split: if_splits)
  have put: "put_if_current sd key fence snapshot [a] =
      retry_rounds (put_round sd key fence snapshot payload) (Conflict ''capability snapshot write remained conflicted'') 8 [a]"
    using name valid assms(3) by (auto simp: put_if_current_def CAPABILITY_CONFLICT_RETRIES_def)
  have round: "fst (put_round sd key fence snapshot payload a) = Inl (Inr Stored)"
    and snd: "snd (put_if_current sd key fence snapshot [a]) = snd (put_round sd key fence snapshot payload a)"
    using assms(1) unfolding put by (auto simp: numeral_eq_Suc split: sum.splits prod.splits)
  from round obtain status where st: "cs_status obj = Some status" "verify_key obj key = Inr ()"
    "snd (put_round sd key fence snapshot payload a) = [] \<and> status_snapshot sd key status = Inr (Some snapshot)
     \<or> snd (put_round sd key fence snapshot payload a) = [CapStatus (obj\<lparr>cs_status := Some (status\<lparr>sx_snapshot_json := Some payload\<rparr>)\<rparr>)]"
    using assms(2)
    by (auto simp: put_round_def load_for_key_def Let_def and_then_def split: sum.splits option.splits if_splits)
  have read: "status_snapshot sd key (status\<lparr>sx_snapshot_json := Some payload\<rparr>) = Inr (Some snapshot)"
    using assms(4) valid fence by (simp add: status_snapshot_def)
  have verify: "verify_key (obj\<lparr>cs_status := s\<rparr>) key = Inr ()" for s
    using st(2) by (simp add: verify_key_def)
  show ?thesis
    using st(3) name unfolding snd
    by (elim disjE conjE exE) (simp_all add: capability_get_def key load_for_key_def st(1,2) verify read)
qed


section \<open>An example\<close>

definition ex_key :: CapabilitySnapshotKey where
  "ex_key = \<lparr>ck_provider_account_id = ''a'', ck_scope = ScopeAccount\<rparr>"

definition ex_fence :: "u64 \<Rightarrow> CapabilityDiscoveryFence" where
  "ex_fence e = \<lparr>cf_provider_account_generation = 4, cf_credential_revision = None, cf_discovery_epoch = e,
                 cf_discovery_token = ''t''\<rparr>"

definition ex_snapshot :: ProviderCapabilitySnapshot where
  "ex_snapshot =
     \<lparr>sn_contract_version = 1, sn_provider_account_id = ''a'', sn_provider = Aws, sn_fence = ex_fence 1, sn_scope = ScopeAccount,
      sn_state = Complete, sn_discovered_at = 5, sn_observations = [], sn_issues = []\<rparr>"

definition ex_serde :: serde where
  "ex_serde = \<lparr>sd_encode = (\<lambda>_. Inr ''p''), sd_decode = (\<lambda>_. Some ex_snapshot), sd_parse = (\<lambda>_. None),
               sd_encode_key = (\<lambda>_. Inr ''k''), sd_sha256_hex = (\<lambda>_. ''f'')\<rparr>"

definition ex_object :: "EdgionProviderCapabilitySnapshotStatus option \<Rightarrow> EdgionProviderCapabilitySnapshot" where
  "ex_object status = (new_resource ex_serde ''n'' ex_key)\<lparr>cs_status := status\<rparr>"

definition ex_status :: "u64 \<Rightarrow> string option \<Rightarrow> EdgionProviderCapabilitySnapshotStatus" where
  "ex_status e json = \<lparr>sx_last_discovery_epoch = uint e, sx_authority = Some (authority_from_core (ex_fence e)), sx_snapshot_json = json\<rparr>"

definition ex_attempt :: "EdgionProviderCapabilitySnapshot option \<Rightarrow> cap_attempt" where
  "ex_attempt stored = \<lparr>ca_get = Inr stored, ca_create = Inl ResConflict, ca_replace_status = Inl ResConflict, ca_token = ''t''\<rparr>"

lemma ex_object_simps [simp]:
  "cs_status (ex_object status) = status" "(ex_object status)\<lparr>cs_status := status'\<rparr> = ex_object status'"
  by (simp_all add: ex_object_def)

lemma ex_status_json [simp]:
  "(ex_status e json)\<lparr>sx_snapshot_json := json'\<rparr> = ex_status e json'" "status_snapshot sd key (ex_status e None) = Inr None"
  "sx_snapshot_json (ex_status e json) = json"
  by (simp_all add: ex_status_def status_snapshot_def)

lemma ex_valid:
  "validate_snapshot_key ex_key = Inr ()"
  "e \<noteq> 0 \<Longrightarrow> unat e < 2 ^ 63 \<Longrightarrow> validate_fence (ex_fence e) = Inr ()"
  "verify_key (ex_object status) ex_key = Inr ()"
  "validate_write (encoded_len ex_serde) ex_key (ex_fence 1) ex_snapshot = Inr ()"
proof -
  have "list_all graphic ''t''" by (simp add: graphic_def byte_def)
  then have token: "validate_text ''t'' kind MAX_DISCOVERY_TOKEN_LEN = Inr ()" for kind
    by (simp add: validate_text_def MAX_DISCOVERY_TOKEN_LEN_def string_simps del: has_control.simps list.pred_inject)
  show key: "validate_snapshot_key ex_key = Inr ()"
    by (simp add: validate_snapshot_key_def ex_key_def example_desired_valid)
  show fence: "validate_fence (ex_fence e) = Inr ()" if "e \<noteq> 0" "unat e < 2 ^ 63" for e
    using that by (simp add: validate_fence_iff ex_fence_def validate_optional_bounded_text_def token)
  show "verify_key (ex_object status) ex_key = Inr ()"
    using key by (simp add: verify_key_def ex_object_def new_resource_def spec_from_key_def spec_to_key_def as_text_def
        scope_to_core_def ex_key_def example_desired_valid)
  have "validate_snapshot (encoded_len ex_serde) ex_snapshot = Inr ()"
    using fence [of 1]
    by (simp add: validate_snapshot_def ex_snapshot_def CAPABILITY_CONTRACT_VERSION_def example_desired_valid
        validate_observations_and_issues_def check_issues_def encoded_len_def ex_serde_def MAX_SNAPSHOT_SERIALIZED_BYTES_def)
  then show "validate_write (encoded_len ex_serde) ex_key (ex_fence 1) ex_snapshot = Inr ()"
    using key fence [of 1] by (simp add: validate_write_def) (simp add: ex_key_def ex_snapshot_def)
qed

lemma ex_next_fence:
  "next_fence None 4 None ''t'' = Inr (ex_fence 1)"
  "next_fence (Some (ex_status 1 json)) 4 None ''t'' = Inr (ex_fence 2)"
  using ex_valid(2) [of 1] ex_valid(2) [of 2]
  by (simp_all add: next_fence_def checked_add_u64_def ex_status_def validate_fence_iff Let_def and_then_eq_Inr)
    (simp_all add: ex_fence_def validate_fence_iff)

lemma ex_begun_status:
  "begun_status (ex_fence 1) status = Inr (ex_status 1 (Option.bind status sx_snapshot_json))"
  "begun_status (ex_fence 2) status = Inr (ex_status 2 (Option.bind status sx_snapshot_json))"
  by (simp_all add: begun_status_def ex_status_def ex_fence_def i64_MAX_def)

lemma ex_authority:
  "status_authority (ex_status 1 json) = Inr (Some (ex_fence 1))" "status_authority (ex_status 2 json) = Inr (Some (ex_fence 2))"
  using authority_roundtrip [OF ex_valid(2) [of 1]] authority_roundtrip [OF ex_valid(2) [of 2]]
  by (simp_all add: status_authority_def ex_status_def) (simp_all add: ex_fence_def)

definition ex_history :: "EdgionProviderCapabilitySnapshotStatus option \<Rightarrow> CapabilityDiscoveryFence list \<Rightarrow> cap_history" where
  "ex_history status granted = \<lparr>ch_stored = Some (ex_object status), ch_granted = granted\<rparr>"

lemma ex_created: "cap_step ex_serde ex_key empty_history (ex_history None [])"
proof -
  have "cap_step ex_serde ex_key empty_history (empty_history\<lparr>ch_stored := Some (ex_object None)\<rparr>)"
    by (rule created [where a = "ex_attempt None" and name = "''n''"])
      (simp_all add: empty_history_def begin_round_def begin_resource_def ex_attempt_def ex_object_def new_resource_def)
  then show ?thesis by (simp add: ex_history_def empty_history_def)
qed

lemma ex_begun:
  assumes "next_fence status 4 None ''t'' = Inr f" and "begun_status f status = Inr status'"
  shows "cap_step ex_serde ex_key (ex_history status granted) (ex_history (Some status') (f # granted))"
proof -
  have "cap_step ex_serde ex_key (ex_history status granted)
      \<lparr>ch_stored = Some (ex_object (Some status')), ch_granted = f # ch_granted (ex_history status granted)\<rparr>"
    by (rule begun [where a = "ex_attempt (Some (ex_object status))" and name = "''n''" and obj = "ex_object status"
          and generation = 4 and revision = None])
      (use assms in \<open>simp_all add: ex_history_def begin_round_def begin_resource_def ex_attempt_def ex_valid\<close>)
  then show ?thesis by (simp add: ex_history_def)
qed

lemma ex_committed:
  "cap_step ex_serde ex_key (ex_history (Some (ex_status 1 None)) granted) (ex_history (Some (ex_status 1 (Some ''p''))) granted)"
proof -
  have "cap_step ex_serde ex_key (ex_history (Some (ex_status 1 None)) granted)
      ((ex_history (Some (ex_status 1 None)) granted)\<lparr>ch_stored := Some (ex_object (Some (ex_status 1 (Some ''p''))))\<rparr>)"
    by (rule committed [where a = "ex_attempt (Some (ex_object (Some (ex_status 1 None))))"
          and obj = "ex_object (Some (ex_status 1 None))" and fence = "ex_fence 1" and snapshot = ex_snapshot and payload = "''p''"])
      (simp_all add: ex_history_def ex_attempt_def ex_valid put_round_def load_for_key_def ex_authority Let_def,
       simp add: ex_serde_def)
  then show ?thesis by (simp add: ex_history_def)
qed

lemma ex_run1: "(cap_step ex_serde ex_key)\<^sup>*\<^sup>* empty_history (ex_history (Some (ex_status 1 (Some ''p''))) [ex_fence 1])"
proof -
  have "cap_step ex_serde ex_key (ex_history None []) (ex_history (Some (ex_status 1 None)) [ex_fence 1])"
    by (rule ex_begun [OF ex_next_fence(1)]) (simp add: ex_begun_status)
  with ex_created ex_committed show ?thesis by (meson r_into_rtranclp rtranclp.rtrancl_into_rtrancl)
qed

lemma ex_run2: "(cap_step ex_serde ex_key)\<^sup>*\<^sup>* empty_history (ex_history (Some (ex_status 2 (Some ''p''))) [ex_fence 2, ex_fence 1])"
proof -
  have "cap_step ex_serde ex_key (ex_history (Some (ex_status 1 (Some ''p''))) [ex_fence 1])
      (ex_history (Some (ex_status 2 (Some ''p''))) [ex_fence 2, ex_fence 1])"
    by (rule ex_begun [OF ex_next_fence(2)]) (simp add: ex_begun_status)
  with ex_run1 show ?thesis by (rule rtranclp.rtrancl_into_rtrancl)
qed

lemma ex_held:
  "held_fence (ex_history (Some (ex_status 1 json)) g) = Some (ex_fence 1)"
  "held_fence (ex_history (Some (ex_status 2 json)) g) = Some (ex_fence 2)"
  by (simp_all add: held_fence_def ex_history_def ex_object_def ex_authority)

theorem discovery_epochs_increase_witness:
  "(cap_step ex_serde ex_key)\<^sup>*\<^sup>* empty_history (ex_history (Some (ex_status 2 (Some ''p''))) [ex_fence 2, ex_fence 1])
   \<and> cf_discovery_epoch (ex_fence 1) < cf_discovery_epoch (ex_fence 2)"
  using discovery_epochs_increase [OF ex_run2] ex_run2 by (simp add: ex_history_def)

theorem lost_fence_never_commits_witness:
  "snd (put_round ex_serde ex_key (ex_fence 1) ex_snapshot ''p''
     (ex_attempt (Some (ex_object (Some (ex_status 2 (Some ''p''))))))) = []"
proof -
  have f: "ex_fence 2 \<noteq> ex_fence 1" by (simp add: ex_fence_def)
  show ?thesis
    by (rule conjunct1 [OF lost_fence_never_commits [OF ex_run2 _ _ rtranclp.rtrancl_refl]])
      (use f in \<open>simp_all add: ex_held ex_history_def ex_attempt_def held_fence_def ex_object_def ex_authority\<close>)
qed

theorem committed_payload_is_final_witness:
  "\<exists>st'. history_status (ex_history (Some (ex_status 1 (Some ''p''))) [ex_fence 1]) = Some st'
     \<and> status_snapshot ex_serde ex_key st' = Inr (Some ex_snapshot)"
proof -
  have read: "status_snapshot ex_serde ex_key (ex_status 1 (Some ''p'')) = Inr (Some ex_snapshot)"
    using ex_valid(4) by (simp add: status_snapshot_def ex_status_def ex_serde_def) (simp add: ex_snapshot_def)
  have fence: "sn_fence ex_snapshot = ex_fence 1" by (simp add: ex_snapshot_def)
  have status: "history_status (ex_history (Some (ex_status 1 (Some ''p''))) [ex_fence 1]) = Some (ex_status 1 (Some ''p''))"
    by (simp add: ex_history_def ex_object_def)
  show ?thesis
    by (rule conjunct2 [OF committed_payload_is_final [OF ex_run1 status read _ rtranclp.rtrancl_refl]])
      (simp_all add: fence ex_held)
qed

theorem invalidation_is_exact_witness:
  "\<exists>status'. invalidated_status ex_serde 4 None (ex_status 1 (Some ''p'')) = Inr status'
     \<and> status_authority status' = Inr None \<and> \<not> snapshot_matches ex_serde 4 None status'"
proof -
  have active: "active_matches 4 None (ex_status 1 (Some ''p''))"
    by (simp add: active_matches_def ex_authority) (simp add: fence_of_revision_def ex_fence_def)
  then obtain status' where i: "invalidated_status ex_serde 4 None (ex_status 1 (Some ''p'')) = Inr status'"
    by (simp add: invalidated_status_def) (simp add: ex_status_def i64_MAX_def)
  from invalidation_is_exact [OF i] active i show ?thesis by blast
qed

theorem stored_snapshot_reads_back_witness:
  "\<exists>obj. capability_get ex_serde ex_key (Inr (Some obj)) = Inr (Some ex_snapshot)"
proof -
  let ?a = "ex_attempt (Some (ex_object (Some (ex_status 1 (Some ''p'')))))"
  have read: "status_snapshot ex_serde ex_key (ex_status 1 (Some ''p'')) = Inr (Some ex_snapshot)"
    using ex_valid(4) by (simp add: status_snapshot_def ex_status_def ex_serde_def) (simp add: ex_snapshot_def)
  have name: "capability_snapshot_resource_name ex_serde ex_key = Inr (''cloudcap-'' @ digest ex_serde ''k'')"
    using ex_valid(1) by (simp add: capability_snapshot_resource_name_def) (simp add: ex_serde_def)
  have round: "put_round ex_serde ex_key (ex_fence 1) ex_snapshot ''p'' ?a = (Inl (Inr Stored), [])"
    by (simp add: put_round_def ex_attempt_def load_for_key_def ex_valid Let_def)
      (simp add: ex_object_def ex_authority read ex_snapshot_def)
  have enc: "sd_encode ex_serde ex_snapshot = Inr ''p''" "sd_decode ex_serde ''p'' = Some ex_snapshot"
    by (simp_all add: ex_serde_def)
  have "fst (put_if_current ex_serde ex_key (ex_fence 1) ex_snapshot [?a]) = Inr Stored"
    by (simp add: put_if_current_def ex_valid enc name CAPABILITY_CONFLICT_RETRIES_def numeral_eq_Suc round)
  from stored_snapshot_reads_back [OF this _ enc] show ?thesis
    by (auto simp: ex_attempt_def)
qed

end
