(* ===== verification/Capability_Discovery.thy ===== *)
theory Capability_Discovery
  imports Capability_Store
begin

unbundle bit_operations_syntax

text \<open>
  The capability discovery service, \<open>crates/center-runtime/src/cloud/capability_discovery.rs\<close>: reuse of
  a stored snapshot within its freshness window, one refresh under a discovery fence, and the keyed
  flights that let concurrent callers share a refresh.

  Store, provider, clock and jitter are the environment: a refresh is given their answers
  (\<open>refresh_env\<close>), the polls for a winner as the list of answers before the timeout. A \<open>Duration\<close> is its
  nanoseconds and an \<open>i64\<close> time an integer with the saturation written out. Flights are a step relation
  of any number of callers, cut where the code awaits, with cancellation at every point.
\<close>

section \<open>Policy and jitter\<close>

definition DEFAULT_MAX_CONCURRENT_DISCOVERIES :: nat where "DEFAULT_MAX_CONCURRENT_DISCOVERIES = 16"
definition MAX_CREDENTIAL_REVISION_LEN :: nat where "MAX_CREDENTIAL_REVISION_LEN = 512"

type_synonym duration = nat

definition from_secs :: "nat \<Rightarrow> duration" where "from_secs n = n * 10 ^ 9"
definition duration_millis :: "nat \<Rightarrow> duration" where "duration_millis n = n * 10 ^ 6"
definition as_millis :: "duration \<Rightarrow> nat" where "as_millis d = d div 10 ^ 6"

definition saturate_i64 :: "int \<Rightarrow> int" where
  "saturate_i64 x = max (- i64_MAX - 1) (min i64_MAX x)"

definition FNV_OFFSET :: u64 where "FNV_OFFSET = 0xcbf29ce484222325"
definition FNV_PRIME :: u64 where "FNV_PRIME = 0x00000100000001b3"

definition fnv_step :: "char \<Rightarrow> u64 \<Rightarrow> u64" where
  "fnv_step c hash = (hash XOR of_nat (byte c)) * FNV_PRIME"

definition stable_refresh_ahead_ms :: "CapabilitySnapshotKey \<Rightarrow> ProviderCapabilitySnapshot \<Rightarrow> u64 \<Rightarrow> u64" where
  "stable_refresh_ahead_ms key snapshot maximum_ms =
     (if maximum_ms = 0 then 0
      else fold fnv_step (ck_provider_account_id key @ cf_discovery_token (sn_fence snapshot)) FNV_OFFSET
             mod saturating_add_u64 maximum_ms 1)"

record CapabilityRefreshPolicy =
  maximum_complete_ttl :: duration
  maximum_partial_ttl :: duration
  failed_ttl :: duration
  unrevisioned_ttl :: duration
  maximum_refresh_ahead :: duration

definition default_refresh_policy :: CapabilityRefreshPolicy where
  "default_refresh_policy =
     \<lparr>maximum_complete_ttl = from_secs (15 * 60), maximum_partial_ttl = from_secs (2 * 60), failed_ttl = from_secs 30,
      unrevisioned_ttl = from_secs 60, maximum_refresh_ahead = from_secs 5\<rparr>"

definition validate_refresh_policy :: "CapabilityRefreshPolicy \<Rightarrow> unit CoreResult" where
  "validate_refresh_policy p =
     (if maximum_complete_ttl p = 0 \<or> maximum_partial_ttl p = 0 \<or> failed_ttl p = 0 \<or> unrevisioned_ttl p = 0
         \<or> maximum_complete_ttl p < maximum_partial_ttl p \<or> maximum_partial_ttl p < failed_ttl p
         \<or> maximum_complete_ttl p < unrevisioned_ttl p \<or> failed_ttl p \<le> maximum_refresh_ahead p then
        Inl (Conflict ''capability refresh cache policy is invalid'') else Inr ())"

definition discovery_service_new :: "duration \<Rightarrow> nat \<Rightarrow> CapabilityRefreshPolicy \<Rightarrow> unit CoreResult" where
  "discovery_service_new discovery_timeout max_concurrent_discoveries policy =
     and_then (validate_refresh_policy policy) (\<lambda>_.
       if discovery_timeout = 0 \<or> max_concurrent_discoveries = 0 then
         Inl (Conflict ''capability discovery timeout and concurrency limit must be positive'') else Inr ())"

section \<open>Inputs\<close>

record CapabilityRefreshInput =
  ci_provider_account_id :: string
  ci_provider_account_generation :: u64
  ci_credential_revision :: "string option"
  ci_account :: ProviderAccountSpec
  ci_scope :: CapabilityScope

definition input_key :: "CapabilityRefreshInput \<Rightarrow> CapabilitySnapshotKey" where
  "input_key i = \<lparr>ck_provider_account_id = ci_provider_account_id i, ck_scope = ci_scope i\<rparr>"

definition validate_credential_revision :: "string option \<Rightarrow> unit CoreResult" where
  "validate_credential_revision revision =
     (if (case revision of
            None \<Rightarrow> False
          | Some r \<Rightarrow> r = [] \<or> MAX_CREDENTIAL_REVISION_LEN < length r \<or> trim r \<noteq> r \<or> has_control r) then
        Inl (Conflict ''capability refresh credential revision is invalid'') else Inr ())"

definition validate_input :: "CapabilityRefreshInput \<Rightarrow> unit CoreResult" where
  "validate_input i =
     and_then (validate_snapshot_key (input_key i)) (\<lambda>_.
     and_then (validate_credential_source (spec_credential_source (ci_account i))) (\<lambda>_.
       if ci_provider_account_generation i = 0 \<or> i64_MAX_u64 < ci_provider_account_generation i then
         Inl (Conflict ''capability refresh account generation is invalid'')
       else validate_credential_revision (ci_credential_revision i)))"

datatype CapabilityRefreshOutcome =
    Cached ProviderCapabilitySnapshot
  | Refreshed ProviderCapabilitySnapshot
  | WonByOther ProviderCapabilitySnapshot

fun outcome_snapshot :: "CapabilityRefreshOutcome \<Rightarrow> ProviderCapabilitySnapshot" where
  "outcome_snapshot (Cached s) = s"
| "outcome_snapshot (Refreshed s) = s"
| "outcome_snapshot (WonByOther s) = s"

section \<open>Reuse\<close>

definition duration_ms_i64 :: "duration \<Rightarrow> int" where
  "duration_ms_i64 d = (if int (as_millis d) \<le> i64_MAX then int (as_millis d) else i64_MAX)"

definition authority_matches :: "CapabilityRefreshInput \<Rightarrow> ProviderCapabilitySnapshot \<Rightarrow> bool" where
  "authority_matches i s \<longleftrightarrow>
     sn_provider_account_id s = ci_provider_account_id i \<and> sn_provider s = spec_provider (ci_account i)
     \<and> sn_scope s = ci_scope i \<and> cf_provider_account_generation (sn_fence s) = ci_provider_account_generation i
     \<and> cf_credential_revision (sn_fence s) = ci_credential_revision i"

definition state_ttl :: "CapabilityRefreshPolicy \<Rightarrow> CapabilityRefreshInput \<Rightarrow> ProviderCapabilitySnapshot \<Rightarrow> duration" where
  "state_ttl p i s =
     (let ttl = (case sn_state s of
                   Complete \<Rightarrow> maximum_complete_ttl p
                 | PartialDiscovery \<Rightarrow> maximum_partial_ttl p
                 | DiscoveryFailedState \<Rightarrow> failed_ttl p)
      in if ci_credential_revision i = None then min ttl (unrevisioned_ttl p) else ttl)"

definition reuse_deadline :: "CapabilityRefreshPolicy \<Rightarrow> CapabilityRefreshInput \<Rightarrow> ProviderCapabilitySnapshot \<Rightarrow> int" where
  "reuse_deadline p i s =
     (let runtime_deadline = saturate_i64 (sn_discovered_at s + duration_ms_i64 (state_ttl p i s));
          untils = map do_valid_until (concat (map co_dimensions (sn_observations s)))
      in min runtime_deadline (if untils = [] then runtime_deadline else Min (set untils)))"

definition maximum_jitter :: "CapabilityRefreshPolicy \<Rightarrow> CapabilityRefreshInput \<Rightarrow> ProviderCapabilitySnapshot \<Rightarrow> u64" where
  "maximum_jitter p i s =
     (let d = min (maximum_refresh_ahead p) (state_ttl p i s - duration_millis 1)
      in if as_millis d < 2 ^ 64 then of_nat (as_millis d) else - 1)"

definition is_reusable ::
  "(ProviderCapabilitySnapshot \<Rightarrow> nat option) \<Rightarrow> CapabilityRefreshPolicy
     \<Rightarrow> (CapabilitySnapshotKey \<Rightarrow> ProviderCapabilitySnapshot \<Rightarrow> u64 \<Rightarrow> u64) \<Rightarrow> int
     \<Rightarrow> CapabilityRefreshInput \<Rightarrow> ProviderCapabilitySnapshot \<Rightarrow> bool" where
  "is_reusable len p jitter now i s \<longleftrightarrow>
     is_ok (validate_snapshot len s) \<and> authority_matches i s
     \<and> (let refresh_ahead = jitter (input_key i) s (maximum_jitter p i s);
            ahead = (if uint refresh_ahead \<le> i64_MAX then uint refresh_ahead else i64_MAX)
        in sn_discovered_at s \<le> now \<and> now < saturate_i64 (reuse_deadline p i s - ahead))"

section \<open>Refresh\<close>

text \<open>The provider has no discoverer, times out, fails, or reports.\<close>

datatype discovery_answer = NoDiscoverer | TimedOut | ProviderFailed | Reported CapabilityDiscoveryReport

record refresh_env =
  re_permit :: bool
  re_fence :: "CapabilityDiscoveryFence CoreResult"
  re_discovery :: discovery_answer
  re_now :: int
  re_put :: "CapabilityStoreWrite CoreResult"
  re_polls :: "ProviderCapabilitySnapshot option CoreResult list"

definition check_fence :: "CapabilityRefreshInput \<Rightarrow> CapabilityDiscoveryFence \<Rightarrow> unit CoreResult" where
  "check_fence i f =
     and_then (validate_fence f) (\<lambda>_.
       if cf_provider_account_generation f \<noteq> ci_provider_account_generation i
          \<or> cf_credential_revision f \<noteq> ci_credential_revision i then
         Inl (Conflict ''capability store returned a mismatched discovery fence'') else Inr ())"

definition validate_winner ::
  "(ProviderCapabilitySnapshot \<Rightarrow> nat option) \<Rightarrow> CapabilityRefreshInput \<Rightarrow> CapabilityDiscoveryFence option
     \<Rightarrow> ProviderCapabilitySnapshot \<Rightarrow> unit CoreResult" where
  "validate_winner len i lost_fence winner =
     and_then (validate_snapshot len winner) (\<lambda>_.
       if \<not> authority_matches i winner
          \<or> (case lost_fence of
               None \<Rightarrow> False
             | Some lost \<Rightarrow> cf_discovery_epoch (sn_fence winner) \<le> cf_discovery_epoch lost) then
         Inl (Conflict ''capability refresh fence winner is not authoritative for the request'') else Inr ())"

definition fixed_failure_report :: "CapabilityReason \<Rightarrow> string \<Rightarrow> string \<Rightarrow> CapabilityDiscoveryReport CoreResult" where
  "fixed_failure_report reason code message =
     and_then (validate_code code) (\<lambda>_. and_then (validate_message message) (\<lambda>_.
       Inr \<lparr>rp_state = DiscoveryFailedState, rp_observations = [],
            rp_issues = [\<lparr>is_severity = Blocking, is_scope = IssueAccount, is_reason = reason, is_code = code,
                          is_message = message\<rparr>]\<rparr>))"

fun discovery_report :: "discovery_answer \<Rightarrow> CapabilityDiscoveryReport CoreResult" where
  "discovery_report (Reported report) =
     (if is_ok (validate_report report) then Inr report
      else fixed_failure_report InvalidProviderResponse ''invalid_provider_response''
             ''provider capability discovery returned an invalid response'')"
| "discovery_report ProviderFailed =
     fixed_failure_report ProbeFailed ''discovery_failed'' ''provider capability discovery failed''"
| "discovery_report TimedOut =
     fixed_failure_report ProviderUnavailable ''discovery_timeout'' ''provider capability discovery timed out''"
| "discovery_report NoDiscoverer =
     fixed_failure_report AdapterNotImplemented ''discoverer_unavailable'' ''provider capability discoverer is not configured''"

fun poll_winner ::
  "(ProviderCapabilitySnapshot \<Rightarrow> nat option) \<Rightarrow> CapabilityRefreshInput \<Rightarrow> CapabilityDiscoveryFence
     \<Rightarrow> ProviderCapabilitySnapshot option CoreResult list \<Rightarrow> ProviderCapabilitySnapshot CoreResult" where
  "poll_winner len i fence [] =
     Inl (Conflict ''capability refresh lost its fence without an authoritative winner'')"
| "poll_winner len i fence (answer # rest) =
     (case answer of
        Inl e \<Rightarrow> Inl e
      | Inr None \<Rightarrow> poll_winner len i fence rest
      | Inr (Some winner) \<Rightarrow>
          if is_ok (validate_winner len i (Some fence) winner) then Inr winner
          else poll_winner len i fence rest)"

definition input_request :: "CapabilityRefreshInput \<Rightarrow> CapabilityDiscoveryFence \<Rightarrow> CapabilityDiscoveryRequest" where
  "input_request i fence =
     \<lparr>cq_provider_account_id = ci_provider_account_id i, cq_fence = fence, cq_account = ci_account i, cq_scope = ci_scope i\<rparr>"

text \<open>The snapshot that a refresh submits with its fence.\<close>

definition refresh_snapshot ::
  "(ProviderCapabilitySnapshot \<Rightarrow> nat option) \<Rightarrow> refresh_env \<Rightarrow> CapabilityRefreshInput
     \<Rightarrow> (CapabilityDiscoveryFence \<times> ProviderCapabilitySnapshot) CoreResult" where
  "refresh_snapshot len env i =
     (if \<not> re_permit env then Inl (Adapter ''capability discovery service is closed'')
      else
        and_then (re_fence env) (\<lambda>fence.
        and_then (check_fence i fence) (\<lambda>_.
        and_then (validate_request (input_request i fence)) (\<lambda>_.
        and_then (discovery_report (re_discovery env)) (\<lambda>report.
        and_then (snapshot_from_report len (input_request i fence) (max (re_now env) 1) report) (\<lambda>snapshot.
          Inr (fence, snapshot)))))))"

definition perform_refresh ::
  "(ProviderCapabilitySnapshot \<Rightarrow> nat option) \<Rightarrow> refresh_env \<Rightarrow> CapabilityRefreshInput \<Rightarrow> CapabilityRefreshOutcome CoreResult" where
  "perform_refresh len env i =
     and_then (refresh_snapshot len env i) (\<lambda>(fence, snapshot).
     and_then (re_put env) (\<lambda>write.
       case write of
         Stored \<Rightarrow> Inr (Refreshed snapshot)
       | FenceLost \<Rightarrow> and_then (poll_winner len i fence (re_polls env)) (\<lambda>winner. Inr (WonByOther winner))))"

definition get_or_refresh ::
  "(ProviderCapabilitySnapshot \<Rightarrow> nat option) \<Rightarrow> CapabilityRefreshPolicy
     \<Rightarrow> (CapabilitySnapshotKey \<Rightarrow> ProviderCapabilitySnapshot \<Rightarrow> u64 \<Rightarrow> u64) \<Rightarrow> int
     \<Rightarrow> ProviderCapabilitySnapshot option CoreResult \<Rightarrow> CapabilityRefreshOutcome CoreResult \<Rightarrow> CapabilityRefreshInput
     \<Rightarrow> CapabilityRefreshOutcome CoreResult" where
  "get_or_refresh len p jitter now stored refreshed i =
     and_then (validate_input i) (\<lambda>_.
     and_then stored (\<lambda>cached.
       case cached of
         Some s \<Rightarrow> if is_reusable len p jitter now i s then Inr (Cached s) else refreshed
       | None \<Rightarrow> refreshed))"

definition invalidate_stale_revision ::
  "string \<Rightarrow> u64 \<Rightarrow> string option \<Rightarrow> unit CoreResult \<Rightarrow> unit CoreResult" where
  "invalidate_stale_revision account_id stale_generation stale_revision store_answer =
     and_then (validate_resource_id account_id) (\<lambda>_.
       if stale_generation = 0 \<or> i64_MAX_u64 < stale_generation then
         Inl (Conflict ''stale provider account generation is invalid'')
       else and_then (validate_credential_revision stale_revision) (\<lambda>_. store_answer))"


section \<open>Properties of reuse and refresh\<close>

lemma clamp_i64_le: "x \<le> y \<Longrightarrow> - i64_MAX - 1 \<le> y \<Longrightarrow> saturate_i64 x \<le> y"
  by (simp add: saturate_i64_def)

lemma stable_jitter_bounded: "stable_refresh_ahead_ms key s maximum \<le> maximum"
proof (cases "maximum = 0")
  case False
  let ?m = "saturating_add_u64 maximum 1"
  have m: "unat ?m = min (unat maximum + 1) (2 ^ 64 - 1)" by (simp add: saturating_add_unat)
  have pos: "0 < unat maximum" using False by (simp add: unat_gt_0)
  then have "unat (h mod ?m) < unat ?m" for h using m by (simp add: unat_mod_distrib)
  then have "unat (h mod ?m) \<le> unat maximum" for h using m pos by (metis less_Suc_eq_le min_less_iff_conj Suc_eq_plus1)
  then show ?thesis using False by (simp add: stable_refresh_ahead_ms_def word_le_nat_alt)
qed (simp add: stable_refresh_ahead_ms_def)

lemma from_report_writable:
  assumes "snapshot_from_report len request t report = Inr s"
  shows "validate_write len \<lparr>ck_provider_account_id = cq_provider_account_id request, ck_scope = cq_scope request\<rparr>
      (cq_fence request) s = Inr ()"
    and "sn_fence s = cq_fence request" and "sn_provider_account_id s = cq_provider_account_id request"
    and "sn_scope s = cq_scope request" and "sn_provider s = spec_provider (cq_account request)"
    and "sn_state s = rp_state report" and "sn_issues s = rp_issues report" and "validate_snapshot len s = Inr ()"
  using assms
  by (auto simp: snapshot_from_report_def Let_def and_then_eq_Inr validate_write_def validate_snapshot_key_def validate_request_def)

lemma refresh_snapshot_ok:
  assumes "refresh_snapshot len env i = Inr (fence, s)"
  shows "re_fence env = Inr fence" and "authority_matches i s" and "sn_fence s = fence" and "validate_snapshot len s = Inr ()"
    and "validate_write len (input_key i) fence s = Inr ()"
proof -
  obtain report where r: "snapshot_from_report len (input_request i fence) (max (re_now env) 1) report = Inr s"
    and f: "re_fence env = Inr fence" "check_fence i fence = Inr ()"
    using assms by (auto simp: refresh_snapshot_def and_then_eq_Inr split: if_splits)
  from from_report_writable [OF r] f
  show "re_fence env = Inr fence" "authority_matches i s" "sn_fence s = fence" "validate_snapshot len s = Inr ()"
    "validate_write len (input_key i) fence s = Inr ()"
    by (auto simp: input_request_def authority_matches_def check_fence_def input_key_def and_then_eq_Inr split: if_splits)
qed

lemma poll_winner_ok:
  "poll_winner len i fence polls = Inr w \<Longrightarrow>
     Inr (Some w) \<in> set polls \<and> validate_snapshot len w = Inr () \<and> authority_matches i w
     \<and> cf_discovery_epoch fence < cf_discovery_epoch (sn_fence w)"
  by (induction polls)
    (auto simp: validate_winner_def and_then_def is_ok_def not_le split: sum.splits option.splits if_splits)

text \<open>
  A snapshot is served from the store only for exactly the requested authority, at most for the time
  the policy allows its state, and only while none of its observations has expired.
\<close>

theorem reused_snapshot_is_unexpired:
  assumes "is_reusable len p jitter now i s"
  shows "validate_snapshot len s = Inr () \<and> authority_matches i s
    \<and> sn_discovered_at s \<le> now \<and> now < sn_discovered_at s + int (as_millis (state_ttl p i s))
    \<and> list_all (\<lambda>ob. list_all (\<lambda>v. now < do_valid_until v) (co_dimensions ob)) (sn_observations s)"
proof -
  define ahead where "ahead = (if uint (jitter (input_key i) s (maximum_jitter p i s)) \<le> i64_MAX
      then uint (jitter (input_key i) s (maximum_jitter p i s)) else i64_MAX)"
  have valid: "validate_snapshot len s = Inr ()" "authority_matches i s" "sn_discovered_at s \<le> now"
    and now: "now < saturate_i64 (reuse_deadline p i s - ahead)"
    using assms unfolding is_reusable_def Let_def ahead_def by (auto simp: is_ok_def split: sum.splits)
  have pos: "0 < sn_discovered_at s"
    using valid(1) by (simp add: validate_snapshot_def not_le split: if_splits)
  have ahead: "0 \<le> ahead" by (simp add: ahead_def i64_MAX_def)
  have deadline: "now < reuse_deadline p i s"
  proof (rule ccontr)
    assume "\<not> now < reuse_deadline p i s"
    then have "saturate_i64 (reuse_deadline p i s - ahead) \<le> now"
      using ahead valid(3) pos by (intro clamp_i64_le) (simp_all add: i64_MAX_def)
    with now show False by simp
  qed
  have le: "reuse_deadline p i s \<le> saturate_i64 (sn_discovered_at s + duration_ms_i64 (state_ttl p i s))"
    "v \<in> set (map do_valid_until (concat (map co_dimensions (sn_observations s)))) \<Longrightarrow> reuse_deadline p i s \<le> v" for v
    by (auto simp: reuse_deadline_def Let_def intro: min.coboundedI2 Min_le)
  have "saturate_i64 (sn_discovered_at s + duration_ms_i64 (state_ttl p i s)) \<le> sn_discovered_at s + int (as_millis (state_ttl p i s))"
    using pos by (intro clamp_i64_le) (simp_all add: duration_ms_i64_def i64_MAX_def)
  with deadline le(1) have "now < sn_discovered_at s + int (as_millis (state_ttl p i s))" by linarith
  moreover have "list_all (\<lambda>ob. list_all (\<lambda>v. now < do_valid_until v) (co_dimensions ob)) (sn_observations s)"
    using deadline le(2) by (fastforce simp: list_all_iff)
  ultimately show ?thesis using valid by blast
qed


text \<open>
  C22: Whatever the store and the provider answer, a refresh that succeeds returns a valid snapshot of
  exactly the requested authority: its own, under the fence it was given, or that of a winner whose
  epoch is strictly larger than the fence it lost.
\<close>

theorem refresh_outcome_is_authoritative:
  assumes "perform_refresh len env i = Inr outcome"
  shows "validate_snapshot len (outcome_snapshot outcome) = Inr () \<and> authority_matches i (outcome_snapshot outcome)
    \<and> (\<exists>fence s. refresh_snapshot len env i = Inr (fence, s)
         \<and> (outcome = Refreshed s \<and> re_put env = Inr Stored \<and> sn_fence s = fence
            \<or> (\<exists>w. outcome = WonByOther w \<and> re_put env = Inr FenceLost
                 \<and> cf_discovery_epoch fence < cf_discovery_epoch (sn_fence w))))"
proof -
  obtain fence s where r: "refresh_snapshot len env i = Inr (fence, s)"
    using assms by (auto simp: perform_refresh_def and_then_eq_Inr)
  note ok = refresh_snapshot_ok [OF r]
  obtain wr where w: "re_put env = Inr wr"
    using assms by (auto simp: perform_refresh_def and_then_eq_Inr)
  show ?thesis
    using assms ok r w poll_winner_ok [of len i fence "re_polls env"]
    by (cases wr) (auto simp: perform_refresh_def and_then_eq_Inr)
qed

text \<open>The fixed reports are valid.\<close>

lemma fixed_failure_report_ok:
  assumes "validate_code code = Inr ()" and "validate_message message = Inr ()" and "reason \<noteq> BusinessPermissionDenied"
  shows "\<exists>r. fixed_failure_report reason code message = Inr r \<and> rp_state r = DiscoveryFailedState
    \<and> rp_issues r = [\<lparr>is_severity = Blocking, is_scope = IssueAccount, is_reason = reason, is_code = code, is_message = message\<rparr>]
    \<and> validate_report r = Inr ()"
  using assms
  by (cases reason)
    (simp_all add: fixed_failure_report_def validate_report_def validate_observations_and_issues_def
      MAX_ISSUES_PER_REPORT_def validate_issue_def check_issues_def)

fun failure_reason :: "discovery_answer \<Rightarrow> CapabilityReason \<times> string \<times> string" where
  "failure_reason (Reported _) =
     (InvalidProviderResponse, ''invalid_provider_response'', ''provider capability discovery returned an invalid response'')"
| "failure_reason ProviderFailed = (ProbeFailed, ''discovery_failed'', ''provider capability discovery failed'')"
| "failure_reason TimedOut = (ProviderUnavailable, ''discovery_timeout'', ''provider capability discovery timed out'')"
| "failure_reason NoDiscoverer =
     (AdapterNotImplemented, ''discoverer_unavailable'', ''provider capability discoverer is not configured'')"

definition failure_issue :: "discovery_answer \<Rightarrow> CapabilityDiscoveryIssue" where
  "failure_issue a =
     (case failure_reason a of (reason, code, message) \<Rightarrow>
        \<lparr>is_severity = Blocking, is_scope = IssueAccount, is_reason = reason, is_code = code, is_message = message\<rparr>)"

lemma discovery_report_fails:
  assumes "\<And>r. a = Reported r \<Longrightarrow> \<not> is_ok (validate_report r)"
  shows "\<exists>r. discovery_report a = Inr r \<and> rp_state r = DiscoveryFailedState \<and> rp_issues r = [failure_issue a]
    \<and> validate_report r = Inr ()"
proof -
  obtain reason code message where f: "failure_reason a = (reason, code, message)" by (cases "failure_reason a") auto
  have eq: "discovery_report a = fixed_failure_report reason code message"
    using assms f by (cases a) auto
  have literals: "list_all printable code \<and> code \<noteq> [] \<and> graphic (hd code) \<and> graphic (last code) \<and> length code \<le> 128
      \<and> list_all printable message \<and> message \<noteq> [] \<and> graphic (hd message) \<and> graphic (last message) \<and> length message \<le> 2048
      \<and> reason \<noteq> BusinessPermissionDenied"
    using f by (cases a) (auto simp: printable_def graphic_def byte_def)
  show ?thesis
    unfolding eq failure_issue_def f
    using fixed_failure_report_ok [of code message reason] literals
    by (simp add: validate_code_def validate_message_def MAX_DIAGNOSTIC_CODE_LEN_def MAX_DIAGNOSTIC_MESSAGE_LEN_def
        validate_text_printable)
qed


definition failed_snapshot :: "refresh_env \<Rightarrow> CapabilityRefreshInput \<Rightarrow> CapabilityDiscoveryFence \<Rightarrow> ProviderCapabilitySnapshot" where
  "failed_snapshot env i f =
     \<lparr>sn_contract_version = CAPABILITY_CONTRACT_VERSION, sn_provider_account_id = ci_provider_account_id i,
      sn_provider = spec_provider (ci_account i), sn_fence = f, sn_scope = ci_scope i, sn_state = DiscoveryFailedState,
      sn_discovered_at = max (re_now env) 1, sn_observations = [], sn_issues = [failure_issue (re_discovery env)]\<rparr>"

lemma failed_refresh:
  assumes "validate_input i = Inr ()" and "validate_account_spec (ci_account i) = Inr ()"
    and "re_permit env" and "re_fence env = Inr f" and "check_fence i f = Inr ()"
    and "case re_discovery env of Reported r \<Rightarrow> \<not> is_ok (validate_report r) | _ \<Rightarrow> True"
    and "len (failed_snapshot env i f) = Some n" and "n \<le> MAX_SNAPSHOT_SERIALIZED_BYTES"
  shows "validate_snapshot len (failed_snapshot env i f) = Inr ()"
    and "refresh_snapshot len env i = Inr (f, failed_snapshot env i f)"
proof -
  obtain report where r: "discovery_report (re_discovery env) = Inr report" "rp_state report = DiscoveryFailedState"
    "rp_issues report = [failure_issue (re_discovery env)]" "validate_report report = Inr ()"
    using discovery_report_fails [of "re_discovery env"] assms(6) by (auto split: discovery_answer.splits)
  have obs: "rp_observations report = []"
    using r(1) assms(6)
    by (cases "re_discovery env") (auto simp: fixed_failure_report_def and_then_eq_Inr)
  have key: "validate_resource_id (ci_provider_account_id i) = Inr ()"
    "validate_for_account (ci_scope i) (ci_provider_account_id i) = Inr ()"
    using assms(1) by (auto simp: validate_input_def input_key_def validate_snapshot_key_def and_then_eq_Inr)
  have fence: "validate_fence f = Inr ()" using assms(5) by (auto simp: check_fence_def and_then_eq_Inr)
  have request: "validate_request (input_request i f) = Inr ()"
    using key fence assms(2) by (simp add: validate_request_def input_request_def)
  have report: "validate_observations_and_issues [] [failure_issue (re_discovery env)] = Inr ()"
    using r(4) by (auto simp: validate_report_def and_then_eq_Inr obs r(3))
  show valid: "validate_snapshot len (failed_snapshot env i f) = Inr ()"
    using assms(7,8) key fence report
    by (simp add: validate_snapshot_def failed_snapshot_def check_issues_def)
  have "snapshot_from_report len (input_request i f) (max (re_now env) 1) report = Inr (failed_snapshot env i f)"
    using valid request by (simp add: snapshot_from_report_def r obs input_request_def failed_snapshot_def Let_def)
  then show "refresh_snapshot len env i = Inr (f, failed_snapshot env i f)"
    by (simp add: refresh_snapshot_def assms(3-5) request r(1))
qed

text \<open>
  A provider that is missing, slow, failing or answering nonsense still leaves a committed snapshot:
  the failed one, with a fixed text and nothing the provider said. The gate never allows anything on it.
\<close>

theorem provider_failure_is_recorded:
  assumes "validate_input i = Inr ()" and "validate_account_spec (ci_account i) = Inr ()"
    and "re_permit env" and "re_fence env = Inr f" and "check_fence i f = Inr ()" and "re_put env = Inr Stored"
    and "case re_discovery env of Reported r \<Rightarrow> \<not> is_ok (validate_report r) | _ \<Rightarrow> True"
    and "len (failed_snapshot env i f) = Some n" and "n \<le> MAX_SNAPSHOT_SERIALIZED_BYTES"
  shows "perform_refresh len env i = Inr (Refreshed (failed_snapshot env i f))
    \<and> cd_outcome (evaluate_one len (failed_snapshot env i f) cx requirement) = Indeterminate"
proof -
  note failed = failed_refresh [where len = len, OF assms(1-5,7-9)]
  have "cd_outcome (evaluate_one len (failed_snapshot env i f) cx requirement) = Indeterminate"
    by (simp add: evaluate_one_def snapshot_reason_def failed(1) indeterminate_def) (simp add: failed_snapshot_def)
  then show ?thesis by (simp add: perform_refresh_def failed(2) assms(6))
qed

section \<open>The store as an interface\<close>

text \<open>
  What the service needs of a snapshot store: a write that is reported as stored had the latest fence
  of its key and is what the store holds.
\<close>

locale snapshot_store =
  fixes reachable :: "'s \<Rightarrow> bool"
    and granted :: "'s \<Rightarrow> CapabilityDiscoveryFence list"
    and put_answer :: "'s \<Rightarrow> CapabilityDiscoveryFence \<Rightarrow> ProviderCapabilitySnapshot \<Rightarrow> CapabilityStoreWrite CoreResult \<Rightarrow> bool"
  assumes stored_latest: "reachable s \<Longrightarrow> put_answer s f snapshot (Inr Stored) \<Longrightarrow> \<exists>rest. granted s = f # rest"
begin

lemma refreshed_is_latest:
  assumes "reachable s" and "refresh_snapshot len env i = Inr (f, snapshot)" and "put_answer s f snapshot (re_put env)"
    and "perform_refresh len env i = Inr (Refreshed snapshot')"
  shows "snapshot' = snapshot \<and> (\<exists>rest. granted s = sn_fence snapshot # rest)"
proof -
  obtain wr where "re_put env = Inr wr" using assms(2,4) by (auto simp: perform_refresh_def and_then_eq_Inr)
  then have put: "re_put env = Inr Stored" "snapshot' = snapshot"
    using assms(2,4) by (cases wr; auto simp: perform_refresh_def and_then_eq_Inr)+
  with stored_latest [OF assms(1)] assms(3) refresh_snapshot_ok(3) [OF assms(2)] show ?thesis by simp
qed

end

text \<open>An answer of the Kubernetes store to a write in a state of its history.\<close>

definition kube_put_answer ::
  "serde \<Rightarrow> CapabilitySnapshotKey \<Rightarrow> cap_history \<Rightarrow> CapabilityDiscoveryFence \<Rightarrow> ProviderCapabilitySnapshot
     \<Rightarrow> CapabilityStoreWrite CoreResult \<Rightarrow> bool" where
  "kube_put_answer sd key h f snapshot answer \<longleftrightarrow>
     (\<exists>a payload. ca_get a = Inr (ch_stored h) \<and> fst (put_round sd key f snapshot payload a) = Inl answer)"

interpretation kube_store: snapshot_store "(cap_step sd key)\<^sup>*\<^sup>* empty_history" ch_granted "kube_put_answer sd key"
  for sd key
proof unfold_locales
  fix h f snapshot
  assume run: "(cap_step sd key)\<^sup>*\<^sup>* empty_history h" and "kube_put_answer sd key h f snapshot (Inr Stored)"
  then obtain a payload where a: "ca_get a = Inr (ch_stored h)" "fst (put_round sd key f snapshot payload a) = Inl (Inr Stored)"
    by (auto simp: kube_put_answer_def)
  then have "held_fence h = Some f"
    by (auto simp: put_round_def load_for_key_def held_fence_def and_then_def Let_def split: sum.splits option.splits if_splits)
  with held_is_latest [OF run] show "\<exists>rest. ch_granted h = f # rest" by blast
qed

text \<open>
  Service and store together: a refresh reports a refreshed snapshot only if, when its write was
  answered, its fence was the latest of all that the store had handed out for the key, on any replica.
\<close>

theorem refreshed_under_latest_fence:
  assumes "(cap_step sd (input_key i))\<^sup>*\<^sup>* empty_history h"
    and "refresh_snapshot (encoded_len sd) env i = Inr (f, snapshot)"
    and "kube_put_answer sd (input_key i) h f snapshot (re_put env)"
    and "perform_refresh (encoded_len sd) env i = Inr (Refreshed s)"
  shows "s = snapshot \<and> (\<exists>rest. ch_granted h = sn_fence snapshot # rest)"
  using assms by (rule kube_store.refreshed_is_latest)


section \<open>Flights\<close>

record FlightKey =
  fk_snapshot_key :: CapabilitySnapshotKey
  fk_provider :: CloudProvider
  fk_provider_account_generation :: u64
  fk_credential_revision :: "string option"

definition flight_key :: "CapabilityRefreshInput \<Rightarrow> FlightKey" where
  "flight_key i =
     \<lparr>fk_snapshot_key = input_key i, fk_provider = spec_provider (ci_account i),
      fk_provider_account_generation = ci_provider_account_generation i, fk_credential_revision = ci_credential_revision i\<rparr>"

text \<open>
  A flight is named by a number. The table has weak references; a caller holds a strong one, with the
  key it asked for, from joining until it returns or is cancelled. \<open>fl_gate\<close> is the caller that holds
  the mutex of a flight, \<open>fl_result\<close> what its performer stored, \<open>fl_returned\<close> what callers got.
\<close>

record flights =
  fl_table :: "(FlightKey \<times> nat) list"
  fl_next :: nat
  fl_callers :: "(nat, FlightKey \<times> nat) hmap"
  fl_gate :: "(nat, nat) hmap"
  fl_result :: "(nat, CapabilityRefreshOutcome CoreResult) hmap"
  fl_returned :: "(nat \<times> nat \<times> CapabilityRefreshOutcome CoreResult) list"

definition no_flights :: flights where
  "no_flights = \<lparr>fl_table = [], fl_next = 0, fl_callers = [], fl_gate = [], fl_result = [], fl_returned = []\<rparr>"

definition flight_alive :: "flights \<Rightarrow> nat \<Rightarrow> bool" where
  "flight_alive st f \<longleftrightarrow> f \<in> (snd \<circ> snd) ` set (fl_callers st)"

definition join_flight :: "nat \<Rightarrow> FlightKey \<Rightarrow> flights \<Rightarrow> flights" where
  "join_flight c key st =
     (let table = filter (\<lambda>(_, f). flight_alive st f) (fl_table st)
      in case find (\<lambda>(candidate, _). candidate = key) table of
           Some (_, f) \<Rightarrow> st\<lparr>fl_table := table, fl_callers := (c, key, f) # fl_callers st\<rparr>
         | None \<Rightarrow>
             st\<lparr>fl_table := table @ [(key, fl_next st)], fl_next := Suc (fl_next st),
                fl_callers := (c, key, fl_next st) # fl_callers st\<rparr>)"

definition lock_gate :: "nat \<Rightarrow> nat \<Rightarrow> flights \<Rightarrow> flights" where
  "lock_gate c f st = st\<lparr>fl_gate := AList.update f c (fl_gate st)\<rparr>"

definition store_result :: "nat \<Rightarrow> CapabilityRefreshOutcome CoreResult \<Rightarrow> flights \<Rightarrow> flights" where
  "store_result f r st = st\<lparr>fl_result := AList.update f r (fl_result st)\<rparr>"

definition remove_flight :: "FlightKey \<Rightarrow> nat \<Rightarrow> flights \<Rightarrow> flights" where
  "remove_flight key f st =
     st\<lparr>fl_table := filter (\<lambda>(candidate, g). candidate \<noteq> key \<or> (flight_alive st g \<and> g \<noteq> f)) (fl_table st)\<rparr>"

text \<open>A caller that returns or is dropped releases the gate and its reference.\<close>

definition leave_flight :: "nat \<Rightarrow> nat \<Rightarrow> flights \<Rightarrow> flights" where
  "leave_flight c f st =
     st\<lparr>fl_callers := AList.delete c (fl_callers st),
        fl_gate := (if map_of (fl_gate st) f = Some c then AList.delete f (fl_gate st) else fl_gate st)\<rparr>"

definition return_result :: "nat \<Rightarrow> nat \<Rightarrow> CapabilityRefreshOutcome CoreResult \<Rightarrow> flights \<Rightarrow> flights" where
  "return_result c f r st = (leave_flight c f st)\<lparr>fl_returned := (c, f, r) # fl_returned st\<rparr>"

inductive flight_step :: "flights \<Rightarrow> flights \<Rightarrow> bool" where
  join: "map_of (fl_callers st) c = None \<Longrightarrow> flight_step st (join_flight c key st)"
| lock: "map_of (fl_callers st) c = Some (key, f) \<Longrightarrow> map_of (fl_gate st) f = None \<Longrightarrow> flight_step st (lock_gate c f st)"
| reuse: "map_of (fl_callers st) c = Some (key, f) \<Longrightarrow> map_of (fl_gate st) f = Some c \<Longrightarrow>
    map_of (fl_result st) f = Some r \<Longrightarrow> flight_step st (return_result c f r st)"
| perform: "map_of (fl_callers st) c = Some (key, f) \<Longrightarrow> map_of (fl_gate st) f = Some c \<Longrightarrow>
    map_of (fl_result st) f = None \<Longrightarrow> flight_step st (store_result f r st)"
| finish: "map_of (fl_callers st) c = Some (key, f) \<Longrightarrow> map_of (fl_gate st) f = Some c \<Longrightarrow>
    map_of (fl_result st) f = Some r \<Longrightarrow> flight_step st (return_result c f r (remove_flight key f st))"
| cancel: "map_of (fl_callers st) c = Some (key, f) \<Longrightarrow> flight_step st (leave_flight c f st)"

definition flights_inv :: "flights \<Rightarrow> bool" where
  "flights_inv st \<longleftrightarrow>
     wf_map (fl_callers st)
     \<and> (\<forall>f c. map_of (fl_gate st) f = Some c \<longrightarrow> (\<exists>key. map_of (fl_callers st) c = Some (key, f)))
     \<and> (\<forall>c key f. map_of (fl_callers st) c = Some (key, f) \<longrightarrow> f < fl_next st)
     \<and> (\<forall>key f. (key, f) \<in> set (fl_table st) \<longrightarrow> f < fl_next st)
     \<and> (\<forall>c key f. map_of (fl_callers st) c = Some (key, f) \<longrightarrow> (key, f) \<in> set (fl_table st) \<or> map_of (fl_result st) f \<noteq> None)
     \<and> (\<forall>key f g. (key, f) \<in> set (fl_table st) \<and> (key, g) \<in> set (fl_table st) \<and> flight_alive st f \<and> flight_alive st g \<longrightarrow> f = g)
     \<and> (\<forall>f r. map_of (fl_result st) f = Some r \<longrightarrow> f < fl_next st)
     \<and> (\<forall>c f r. (c, f, r) \<in> set (fl_returned st) \<longrightarrow> map_of (fl_result st) f = Some r)"

lemma alive_iff: "wf_map (fl_callers st) \<Longrightarrow> flight_alive st f \<longleftrightarrow> (\<exists>c key. map_of (fl_callers st) c = Some (key, f))"
  by (force simp: flight_alive_def image_iff mem_wf_map [symmetric])


lemma flights_invD:
  assumes "flights_inv st"
  shows "wf_map (fl_callers st)"
    and "\<And>f c. map_of (fl_gate st) f = Some c \<Longrightarrow> \<exists>key. map_of (fl_callers st) c = Some (key, f)"
    and "\<And>c key f. map_of (fl_callers st) c = Some (key, f) \<Longrightarrow> f < fl_next st"
    and "\<And>key f. (key, f) \<in> set (fl_table st) \<Longrightarrow> f < fl_next st"
    and "\<And>c key f. map_of (fl_callers st) c = Some (key, f) \<Longrightarrow> map_of (fl_result st) f = None \<Longrightarrow> (key, f) \<in> set (fl_table st)"
    and "\<And>key f g. (key, f) \<in> set (fl_table st) \<Longrightarrow> (key, g) \<in> set (fl_table st) \<Longrightarrow> flight_alive st f \<Longrightarrow>
           flight_alive st g \<Longrightarrow> f = g"
    and "\<And>f r. map_of (fl_result st) f = Some r \<Longrightarrow> f < fl_next st"
    and "\<And>c f r. (c, f, r) \<in> set (fl_returned st) \<Longrightarrow> map_of (fl_result st) f = Some r"
  using assms unfolding flights_inv_def by (blast, blast, blast, blast, fastforce, blast, blast, blast)

lemma flights_invI:
  assumes "wf_map (fl_callers st)"
    and "\<And>f c. map_of (fl_gate st) f = Some c \<Longrightarrow> \<exists>key. map_of (fl_callers st) c = Some (key, f)"
    and "\<And>c key f. map_of (fl_callers st) c = Some (key, f) \<Longrightarrow> f < fl_next st"
    and "\<And>key f. (key, f) \<in> set (fl_table st) \<Longrightarrow> f < fl_next st"
    and "\<And>c key f. map_of (fl_callers st) c = Some (key, f) \<Longrightarrow> map_of (fl_result st) f = None \<Longrightarrow> (key, f) \<in> set (fl_table st)"
    and "\<And>key f g. (key, f) \<in> set (fl_table st) \<Longrightarrow> (key, g) \<in> set (fl_table st) \<Longrightarrow> flight_alive st f \<Longrightarrow>
           flight_alive st g \<Longrightarrow> f = g"
    and "\<And>f r. map_of (fl_result st) f = Some r \<Longrightarrow> f < fl_next st"
    and "\<And>c f r. (c, f, r) \<in> set (fl_returned st) \<Longrightarrow> map_of (fl_result st) f = Some r"
  shows "flights_inv st"
  unfolding flights_inv_def using assms by (intro conjI allI impI) blast+

lemma inv_alive: "flights_inv st \<Longrightarrow> map_of (fl_callers st) c = Some (key, f) \<Longrightarrow> flight_alive st f"
  using alive_iff [OF flights_invD(1)] by blast

text \<open>Only callers, gate and returned values change, callers and gate to a subset.\<close>

lemma leave_inv:
  assumes inv: "flights_inv st" and c: "map_of (fl_callers st) c = Some (key, f)"
  shows "flights_inv (leave_flight c f st)"
proof (rule flights_invI)
  note D = flights_invD [OF inv]
  have alive: "flight_alive (leave_flight c f st) g \<Longrightarrow> flight_alive st g" for g
    by (auto simp: flight_alive_def leave_flight_def dest: set_delete_subset)
  have callers: "map_of (fl_callers (leave_flight c f st)) d = (if d = c then None else map_of (fl_callers st) d)" for d
    by (simp add: leave_flight_def map_simps)
  have rest: "fl_table (leave_flight c f st) = fl_table st" "fl_next (leave_flight c f st) = fl_next st"
    "fl_result (leave_flight c f st) = fl_result st" "fl_returned (leave_flight c f st) = fl_returned st"
    by (simp_all add: leave_flight_def)
  show "wf_map (fl_callers (leave_flight c f st))" using D(1) by (simp add: leave_flight_def)
  show "\<exists>k. map_of (fl_callers (leave_flight c f st)) d = Some (k, g)"
    if "map_of (fl_gate (leave_flight c f st)) g = Some d" for g d
  proof -
    have "map_of (fl_gate st) g = Some d" "d = c \<Longrightarrow> g \<noteq> f"
      using that by (auto simp: leave_flight_def map_simps split: if_splits)
    moreover from D(2) [OF this(1)] obtain k where "map_of (fl_callers st) d = Some (k, g)" by blast
    ultimately show ?thesis using c by (auto simp: callers)
  qed
  show "(k, g) \<in> set (fl_table (leave_flight c f st))"
    if "map_of (fl_callers (leave_flight c f st)) d = Some (k, g)" "map_of (fl_result (leave_flight c f st)) g = None" for d k g
    using that D(5) by (simp add: callers rest split: if_splits)
  show "g = h" if "(k, g) \<in> set (fl_table (leave_flight c f st))" "(k, h) \<in> set (fl_table (leave_flight c f st))"
    "flight_alive (leave_flight c f st) g" "flight_alive (leave_flight c f st) h" for k g h
    using that D(6) alive by (simp add: rest)
qed (use flights_invD(3,4,7,8) [OF inv] in \<open>auto simp: leave_flight_def map_simps split: if_splits\<close>)

lemma return_inv:
  assumes "flights_inv (leave_flight c f st)" and "map_of (fl_result st) f = Some r"
  shows "flights_inv (return_result c f r st)"
proof -
  note D = flights_invD [OF assms(1)]
  have same: "fl_table (return_result c f r st) = fl_table (leave_flight c f st)"
    "fl_next (return_result c f r st) = fl_next (leave_flight c f st)"
    "fl_callers (return_result c f r st) = fl_callers (leave_flight c f st)"
    "fl_gate (return_result c f r st) = fl_gate (leave_flight c f st)"
    "fl_result (return_result c f r st) = fl_result (leave_flight c f st)"
    "flight_alive (return_result c f r st) = flight_alive (leave_flight c f st)"
    by (simp_all add: return_result_def flight_alive_def fun_eq_iff)
  have "\<forall>d g q. (d, g, q) \<in> set (fl_returned (return_result c f r st)) \<longrightarrow>
      map_of (fl_result (leave_flight c f st)) g = Some q"
    using assms(2) D(8) by (auto simp: return_result_def leave_flight_def)
  with assms(1) show ?thesis unfolding flights_inv_def same by (elim conjE, intro conjI)
qed

lemma remove_inv:
  assumes inv: "flights_inv st" and r: "map_of (fl_result st) f = Some r"
  shows "flights_inv (remove_flight key f st)"
proof -
  note D = flights_invD [OF inv]
  have alive: "flight_alive (remove_flight key f st) = flight_alive st" by (simp add: flight_alive_def remove_flight_def fun_eq_iff)
  have "(k, g) \<in> set (fl_table (remove_flight key f st))"
    if "map_of (fl_callers st) c = Some (k, g)" "map_of (fl_result st) g = None" for c k g
    using D(5) [OF that] r that inv_alive [OF inv that(1)] by (auto simp: remove_flight_def)
  then show ?thesis
    using D alive by (intro flights_invI) (auto simp: remove_flight_def)
qed

text \<open>A new caller joins an existing live flight of its key or opens one.\<close>

lemma join_cases:
  assumes "flights_inv st"
  obtains f where "(key, f) \<in> set (fl_table st)" "flight_alive st f"
      "join_flight c key st = st\<lparr>fl_table := filter (\<lambda>(_, f). flight_alive st f) (fl_table st), fl_callers := (c, key, f) # fl_callers st\<rparr>"
  | "\<And>f. (key, f) \<in> set (fl_table st) \<Longrightarrow> \<not> flight_alive st f"
      "join_flight c key st = st\<lparr>fl_table := filter (\<lambda>(_, f). flight_alive st f) (fl_table st) @ [(key, fl_next st)],
         fl_next := Suc (fl_next st), fl_callers := (c, key, fl_next st) # fl_callers st\<rparr>"
proof (cases "find (\<lambda>(candidate, _). candidate = key) (filter (\<lambda>(_, f). flight_alive st f) (fl_table st))")
  case None
  then have "join_flight c key st = st\<lparr>fl_table := filter (\<lambda>(_, f). flight_alive st f) (fl_table st) @ [(key, fl_next st)],
      fl_next := Suc (fl_next st), fl_callers := (c, key, fl_next st) # fl_callers st\<rparr>"
    by (simp add: join_flight_def Let_def)
  moreover have "(key, f) \<in> set (fl_table st) \<Longrightarrow> \<not> flight_alive st f" for f using None by (auto simp: find_None_iff)
  ultimately show ?thesis using that(2) by blast
next
  case (Some kf)
  then have "kf \<in> set (filter (\<lambda>(_, f). flight_alive st f) (fl_table st))" by (metis find_Some_iff nth_mem)
  moreover have "fst kf = key" using Some by (auto simp: find_Some_iff)
  then obtain f where kf: "kf = (key, f)" by (cases kf) simp
  ultimately have f: "kf = (key, f)" "(key, f) \<in> set (fl_table st)" "flight_alive st f" by simp_all
  show ?thesis by (rule that(1) [OF f(2,3)]) (use Some f(1) in \<open>simp add: join_flight_def Let_def\<close>)
qed

lemma join_inv:
  assumes inv: "flights_inv st" and c: "map_of (fl_callers st) c = None"
  shows "flights_inv (join_flight c key st)"
proof -
  note D = flights_invD [OF inv]
  have c': "c \<notin> fst ` set (fl_callers st)" using c by (simp add: map_of_eq_None_iff)
  have gate: "map_of (fl_gate st) g \<noteq> Some c" for g using D(2) [of g c] c by auto
  from inv show ?thesis
  proof (cases rule: join_cases [where key = key and c = c])
    case (1 f)
    have alive: "flight_alive (join_flight c key st) g \<longleftrightarrow> flight_alive st g" for g
      using 1(2) by (auto simp: flight_alive_def 1(3))
    show ?thesis
      by (rule flights_invI; (unfold alive)?)
        (use D c' gate 1(1,2) inv_alive [OF inv] in \<open>auto simp: 1(3) split: if_splits\<close>)
  next
    case 2
    have alive: "flight_alive (join_flight c key st) g \<longleftrightarrow> flight_alive st g \<or> g = fl_next st" for g
      by (auto simp: flight_alive_def 2(2))
    have dead: "\<not> flight_alive st (fl_next st)" using D(1,3) alive_iff by blast
    show ?thesis
      by (rule flights_invI; (unfold alive)?)
        (use D c' gate 2(1) dead inv_alive [OF inv] in \<open>auto simp: 2(2) less_Suc_eq split: if_splits\<close>)
  qed
qed


lemma flight_step_inv:
  assumes "flight_step st st'" and inv: "flights_inv st"
  shows "flights_inv st'"
  using assms(1)
proof cases
  case (join c key)
  then show ?thesis using join_inv [OF inv] by simp
next
  case (lock c key f)
  have alive: "flight_alive (lock_gate c f st) = flight_alive st" by (simp add: flight_alive_def lock_gate_def fun_eq_iff)
  show ?thesis
    unfolding lock(1)
    by (rule flights_invI; (unfold alive)?)
      (use flights_invD [OF inv] lock in \<open>auto simp: lock_gate_def map_simps split: if_splits\<close>)
next
  case (reuse c key f r)
  then show ?thesis using return_inv [OF leave_inv [OF inv]] by simp
next
  case (perform c key f r)
  have alive: "flight_alive (store_result f r st) = flight_alive st" by (simp add: flight_alive_def store_result_def fun_eq_iff)
  show ?thesis
    unfolding perform(1)
    by (rule flights_invI; (unfold alive)?)
      (use flights_invD [OF inv] perform in \<open>auto simp: store_result_def map_simps split: if_splits\<close>)
next
  case (finish c key f r)
  have "map_of (fl_callers (remove_flight key f st)) c = Some (key, f)" "map_of (fl_result (remove_flight key f st)) f = Some r"
    using finish by (simp_all add: remove_flight_def)
  then show ?thesis unfolding finish(1) using return_inv [OF leave_inv [OF remove_inv [OF inv finish(4)]]] by blast
next
  case (cancel c key f)
  then show ?thesis using leave_inv [OF inv] by simp
qed

lemma flights_reachable_inv: "flight_step\<^sup>*\<^sup>* no_flights st \<Longrightarrow> flights_inv st"
proof (induction rule: rtranclp_induct)
  case base
  show ?case by (simp add: flights_inv_def no_flights_def)
qed (rule flight_step_inv)

text \<open>
  C23: However callers join, wait, finish and are cancelled, at most one of the callers that ask for the
  same account, scope and authority is performing a discovery, and all callers that return from one
  flight got the same result.
\<close>

theorem one_discovery_per_authority:
  assumes "flight_step\<^sup>*\<^sup>* no_flights st"
    and "map_of (fl_gate st) f = Some c" and "map_of (fl_callers st) c = Some (key, f)" and "map_of (fl_result st) f = None"
    and "map_of (fl_gate st) g = Some d" and "map_of (fl_callers st) d = Some (key, g)" and "map_of (fl_result st) g = None"
  shows "c = d \<and> (\<forall>x y h r q. (x, h, r) \<in> set (fl_returned st) \<and> (y, h, q) \<in> set (fl_returned st) \<longrightarrow> r = q)"
proof -
  have inv: "flights_inv st" using flights_reachable_inv [OF assms(1)] .
  note D = flights_invD [OF inv]
  have "(key, f) \<in> set (fl_table st)" "(key, g) \<in> set (fl_table st)" using D(5) assms(3,4,6,7) by blast+
  then have "f = g" using D(6) inv_alive [OF inv] assms(3,6) by blast
  moreover have "r = q" if "(x, h, r) \<in> set (fl_returned st)" "(y, h, q) \<in> set (fl_returned st)" for x y h r q
    using D(8) [OF that(1)] D(8) [OF that(2)] by simp
  ultimately show ?thesis using assms(2,5) by auto
qed


section \<open>An example\<close>

definition ex_input :: CapabilityRefreshInput where
  "ex_input =
     \<lparr>ci_provider_account_id = ''a'', ci_provider_account_generation = 4, ci_credential_revision = None,
      ci_account = \<lparr>spec_provider = Aws, spec_scope = None, spec_credential_source = Ambient\<rparr>, ci_scope = ScopeAccount\<rparr>"

definition ex_env :: refresh_env where
  "ex_env =
     \<lparr>re_permit = True, re_fence = Inr (ex_fence 1), re_discovery = TimedOut, re_now = 5, re_put = Inr Stored, re_polls = []\<rparr>"

lemma ex_input_key: "input_key ex_input = ex_key"
  by (simp add: input_key_def ex_input_def ex_key_def)

lemma ex_input_valid:
  "validate_input ex_input = Inr ()" "validate_account_spec (ci_account ex_input) = Inr ()"
  "check_fence ex_input (ex_fence 1) = Inr ()"
proof -
  show "validate_input ex_input = Inr ()"
    using ex_valid(1)
    by (simp add: validate_input_def ex_input_key) (simp add: ex_input_def i64_MAX_u64_def validate_credential_revision_def)
  show "validate_account_spec (ci_account ex_input) = Inr ()" by (simp add: validate_account_spec_def ex_input_def)
  show "check_fence ex_input (ex_fence 1) = Inr ()"
    using ex_valid(2) [of 1] by (simp add: check_fence_def) (simp add: ex_fence_def ex_input_def)
qed

lemma ex_len: "encoded_len ex_serde s = Some 1"
  by (simp add: encoded_len_def ex_serde_def)

theorem provider_failure_is_recorded_witness:
  "perform_refresh (encoded_len ex_serde) ex_env ex_input = Inr (Refreshed (failed_snapshot ex_env ex_input (ex_fence 1)))"
  by (rule conjunct1 [OF provider_failure_is_recorded [OF ex_input_valid(1,2) _ _ ex_input_valid(3) _ _ ex_len]])
    (simp_all add: ex_env_def MAX_SNAPSHOT_SERIALIZED_BYTES_def)

lemma ex_failed:
  "validate_snapshot (encoded_len ex_serde) (failed_snapshot ex_env ex_input (ex_fence 1)) = Inr ()"
  "refresh_snapshot (encoded_len ex_serde) ex_env ex_input = Inr (ex_fence 1, failed_snapshot ex_env ex_input (ex_fence 1))"
  by (rule failed_refresh [OF ex_input_valid(1,2) _ _ ex_input_valid(3) _ ex_len];
      simp add: ex_env_def MAX_SNAPSHOT_SERIALIZED_BYTES_def)+

theorem refresh_outcome_is_authoritative_witness:
  "authority_matches ex_input (failed_snapshot ex_env ex_input (ex_fence 1))"
proof -
  have "perform_refresh (encoded_len ex_serde) ex_env ex_input = Inr (Refreshed (failed_snapshot ex_env ex_input (ex_fence 1)))"
    by (simp add: perform_refresh_def ex_failed(2)) (simp add: ex_env_def)
  from refresh_outcome_is_authoritative [OF this] show ?thesis by simp
qed

theorem reused_snapshot_is_unexpired_witness:
  "is_reusable (encoded_len ex_serde) default_refresh_policy stable_refresh_ahead_ms 6 ex_input
     (failed_snapshot ex_env ex_input (ex_fence 1))
   \<and> 6 < sn_discovered_at (failed_snapshot ex_env ex_input (ex_fence 1)) + 30000"
proof -
  let ?s = "failed_snapshot ex_env ex_input (ex_fence 1)"
  have now: "sn_discovered_at ?s = 5" by (simp add: failed_snapshot_def ex_env_def)
  have ttl: "state_ttl default_refresh_policy ex_input ?s = from_secs 30"
    by (simp add: state_ttl_def failed_snapshot_def ex_input_def default_refresh_policy_def from_secs_def)
  have deadline: "reuse_deadline default_refresh_policy ex_input ?s = 30005"
    by (simp add: reuse_deadline_def ttl now)
      (simp add: failed_snapshot_def saturate_i64_def duration_ms_i64_def as_millis_def from_secs_def i64_MAX_def)
  have jitter: "maximum_jitter default_refresh_policy ex_input ?s = 5000"
    by (simp add: maximum_jitter_def ttl) (simp add: default_refresh_policy_def from_secs_def duration_millis_def as_millis_def)
  define ahead where "ahead = uint (stable_refresh_ahead_ms (input_key ex_input) ?s 5000)"
  have "ahead \<le> 5000"
    using stable_jitter_bounded [of "input_key ex_input" ?s 5000] by (simp add: ahead_def word_le_def)
  moreover have "0 \<le> ahead" by (simp add: ahead_def)
  ultimately have late: "(6::int) < saturate_i64 (30005 - (if ahead \<le> i64_MAX then ahead else i64_MAX))"
    by (simp add: saturate_i64_def i64_MAX_def)
  have m: "authority_matches ex_input ?s"
    using refresh_snapshot_ok(2) [OF ex_failed(2)] .
  have r: "is_reusable (encoded_len ex_serde) default_refresh_policy stable_refresh_ahead_ms 6 ex_input ?s"
    using late unfolding is_reusable_def Let_def deadline jitter now ahead_def by (simp add: ex_failed(1) m)
  from reused_snapshot_is_unexpired [OF r] r show ?thesis
    by (simp add: ttl) (simp add: from_secs_def as_millis_def)
qed

theorem refreshed_under_latest_fence_witness:
  "\<exists>rest. ch_granted (ex_history (Some (ex_status 1 None)) [ex_fence 1]) = ex_fence 1 # rest"
proof -
  let ?h = "ex_history (Some (ex_status 1 None)) [ex_fence 1]"
  let ?s = "failed_snapshot ex_env ex_input (ex_fence 1)"
  let ?a = "(ex_attempt (ch_stored ?h))\<lparr>ca_replace_status := Inr (ex_object None)\<rparr>"
  have run: "(cap_step ex_serde (input_key ex_input))\<^sup>*\<^sup>* empty_history ?h"
    unfolding ex_input_key
    using ex_created ex_begun [OF ex_next_fence(1), of "ex_status 1 None" "[]"] ex_begun_status(1) [of None]
    by (simp add: rtranclp.rtrancl_into_rtrancl)
  have "fst (put_round ex_serde ex_key (ex_fence 1) ?s ''p'' ?a) = Inl (Inr Stored)"
    by (simp add: put_round_def ex_attempt_def load_for_key_def ex_history_def ex_valid ex_authority submit_status_def Let_def)
  then have put: "kube_put_answer ex_serde (input_key ex_input) ?h (ex_fence 1) ?s (re_put ex_env)"
    unfolding kube_put_answer_def ex_input_key by (intro exI [of _ ?a] exI [of _ "''p''"]) (simp add: ex_attempt_def ex_env_def)
  have "perform_refresh (encoded_len ex_serde) ex_env ex_input = Inr (Refreshed ?s)"
    by (simp add: perform_refresh_def ex_failed(2)) (simp add: ex_env_def)
  from refreshed_under_latest_fence [OF run ex_failed(2) put this] show ?thesis by (simp add: failed_snapshot_def)
qed

theorem one_discovery_per_authority_witness:
  "flight_step\<^sup>*\<^sup>* no_flights (lock_gate 3 0 (join_flight 2 (flight_key ex_input) (join_flight 3 (flight_key ex_input) no_flights)))"
proof -
  let ?k = "flight_key ex_input"
  let ?st = "lock_gate 3 0 (join_flight 2 ?k (join_flight 3 ?k no_flights))"
  have j1: "join_flight 3 ?k no_flights = no_flights\<lparr>fl_table := [(?k, 0)], fl_next := Suc 0, fl_callers := [(3, ?k, 0)]\<rparr>"
    by (simp add: join_flight_def no_flights_def)
  have j2: "join_flight 2 ?k (join_flight 3 ?k no_flights) =
      no_flights\<lparr>fl_table := [(?k, 0)], fl_next := Suc 0, fl_callers := [(2, ?k, 0), (3, ?k, 0)]\<rparr>"
    unfolding j1 by (simp add: join_flight_def flight_alive_def)
  have "flight_step no_flights (join_flight 3 ?k no_flights)" by (rule join) (simp add: no_flights_def)
  moreover have "flight_step (join_flight 3 ?k no_flights) (join_flight 2 ?k (join_flight 3 ?k no_flights))"
    by (rule join) (simp add: j1)
  moreover have "flight_step (join_flight 2 ?k (join_flight 3 ?k no_flights)) ?st"
    by (rule lock [where key = ?k]; unfold j2) (simp_all add: no_flights_def)
  ultimately have run: "flight_step\<^sup>*\<^sup>* no_flights ?st" by (meson r_into_rtranclp rtranclp.rtrancl_into_rtrancl)
  have g: "map_of (fl_gate ?st) 0 = Some 3" "map_of (fl_callers ?st) 3 = Some (?k, 0)" "map_of (fl_result ?st) 0 = None"
    unfolding j2 by (simp_all add: lock_gate_def no_flights_def)
  from one_discovery_per_authority [OF run g g] run show ?thesis by blast
qed

end
