(* ===== verification/Http_Api.thy ===== *)
theory Http_Api
  imports Json_Value
begin

text \<open>
  The vocabulary of the Admin API layers: the methods of the \<open>http\<close> crate, a response as status,
  headers and JSON body, and the common response bodies of
  \<open>center-app/src/common/api/types.rs\<close>. A header name is its lower-case text, the way the
  \<open>http\<close> crate stores it, and \<open>insert\<close> on a header map replaces.
\<close>

datatype Method =
    GET | HEAD | POST | PUT | PATCH | DELETE | OPTIONS | CONNECT | TRACE | Extension string

fun method_as_str :: "Method \<Rightarrow> string" where
  "method_as_str GET = ''GET''"
| "method_as_str HEAD = ''HEAD''"
| "method_as_str POST = ''POST''"
| "method_as_str PUT = ''PUT''"
| "method_as_str PATCH = ''PATCH''"
| "method_as_str DELETE = ''DELETE''"
| "method_as_str OPTIONS = ''OPTIONS''"
| "method_as_str CONNECT = ''CONNECT''"
| "method_as_str TRACE = ''TRACE''"
| "method_as_str (Extension s) = s"

definition is_read_method :: "Method \<Rightarrow> bool" where
  "is_read_method m \<longleftrightarrow> m = GET \<or> m = HEAD"

record http_response =
  resp_status :: nat
  resp_headers :: "(string, string) hmap"
  resp_body :: json

definition json_response :: "nat \<Rightarrow> json \<Rightarrow> http_response" where
  "json_response st b =
     \<lparr>resp_status = st, resp_headers = [(''content-type'', ''application/json'')], resp_body = b\<rparr>"

definition insert_header :: "string \<Rightarrow> string \<Rightarrow> http_response \<Rightarrow> http_response" where
  "insert_header k v r = r\<lparr>resp_headers := AList.update k v (resp_headers r)\<rparr>"

definition ok_body :: "json \<Rightarrow> json" where
  "ok_body d = JObject [(''success'', JBool True), (''data'', d)]"

definition err_body :: "string \<Rightarrow> json" where
  "err_body e = JObject [(''success'', JBool False), (''error'', JString e)]"

text \<open>The outermost layer of the composed router.\<close>

definition cache_control_no_store_middleware :: "http_response \<Rightarrow> http_response" where
  "cache_control_no_store_middleware r = insert_header ''cache-control'' ''no-store'' r"

section \<open>Lemmas\<close>

named_theorems response_simps

lemma json_response_simps [response_simps, simp]:
  "resp_status (json_response st b) = st"
  "resp_body (json_response st b) = b"
  by (simp_all add: json_response_def)

lemma insert_header_simps [response_simps, simp]:
  "resp_status (insert_header k v r) = resp_status r"
  "resp_body (insert_header k v r) = resp_body r"
  "map_of (resp_headers (insert_header k v r)) = (map_of (resp_headers r))(k \<mapsto> v)"
  by (simp_all add: insert_header_def map_simps)

lemma cache_control_simps [response_simps, simp]:
  "resp_status (cache_control_no_store_middleware r) = resp_status r"
  "resp_body (cache_control_no_store_middleware r) = resp_body r"
  "map_of (resp_headers (cache_control_no_store_middleware r)) ''cache-control'' = Some ''no-store''"
  by (simp_all add: cache_control_no_store_middleware_def)

lemma strip_prefix_Cons [simp]:
  "strip_prefix [] s = Some s"
  "strip_prefix (c # p) [] = None"
  "strip_prefix (c # p) (d # s) = (if c = d then strip_prefix p s else None)"
  by (simp_all add: strip_prefix_def)

lemma starts_with_Cons [simp]:
  "starts_with [] s"
  "\<not> starts_with (c # p) []"
  "starts_with (c # p) (d # s) \<longleftrightarrow> c = d \<and> starts_with p s"
  by (simp_all add: starts_with_def)

text \<open>
  Splitting with an accumulator, which evaluates in one pass; the segments of a path whose parts are
  known.
\<close>

fun split_acc :: "char \<Rightarrow> string \<Rightarrow> string \<Rightarrow> string list" where
  "split_acc c acc [] = [rev acc]"
| "split_acc c acc (x # xs) = (if x = c then rev acc # split_acc c [] xs else split_acc c (x # acc) xs)"

lemma split_acc_on: "split_acc c acc s = (rev acc @ hd (split_on c s)) # tl (split_on c s)"
  by (induction c acc s rule: split_acc.induct) auto

lemma split_on_eval: "split_on c s = split_acc c [] s"
  by (simp add: split_acc_on)

lemma split_acc_part: "c \<notin> set a \<Longrightarrow> split_acc c acc (a @ c # s) = (rev acc @ a) # split_acc c [] s"
  by (simp add: split_acc_on split_on_append split_on_eval [symmetric])

lemma split_acc_end: "c \<notin> set a \<Longrightarrow> split_acc c acc a = [rev acc @ a]"
  by (simp add: split_acc_on split_on_single)

lemma split_on_inj: "split_on c s = split_on c t \<Longrightarrow> s = t"
  by (metis join_split_on)

end
