(* ===== verification/Authn.thy ===== *)
theory Authn
  imports Http_Api
begin

text \<open>
  Authentication of the Admin API: the public paths (\<open>common/auth/public_paths.rs\<close>), the OIDC and
  local provider configurations with their validation, the OIDC provider with its key cache and
  claim checks (\<open>common/auth/oidc.rs\<close>), the middleware that tries OIDC and then the local secret
  (\<open>common/unified_auth/mod.rs\<close>), and the login and logout handlers of the single administrator
  and of database users. Base64, JSON parsing, JWS verification, the HS256 token library and
  bcrypt are parameters. Time is nanoseconds for the monotonic clock of the key cache and seconds
  for wall-clock claims; an \<open>i64\<close> computation wraps, as the release build has it. The model is of
  the build with the \<open>password-auth\<close> feature.
\<close>

section \<open>Public paths\<close>

definition PUBLIC_PROBE_PATHS :: "string list" where
  "PUBLIC_PROBE_PATHS = [''/health'', ''/ready'', ''/metrics'']"

definition PUBLIC_AUTH_ENDPOINTS :: "string list" where
  "PUBLIC_AUTH_ENDPOINTS = [''/api/v1/auth/login'', ''/api/v1/auth/logout'', ''/api/v1/auth/status'']"

definition PUBLIC_DISCOVERY_ENDPOINTS :: "string list" where
  "PUBLIC_DISCOVERY_ENDPOINTS = [''/api/v1/server-info'']"

definition AUTH_ENDPOINT_PREFIX :: string where
  "AUTH_ENDPOINT_PREFIX = ''/api/v1/auth/''"

definition is_public_probe :: "string \<Rightarrow> bool" where
  "is_public_probe path \<longleftrightarrow> path \<in> set PUBLIC_PROBE_PATHS"

definition is_public_auth_endpoint :: "string \<Rightarrow> bool" where
  "is_public_auth_endpoint path \<longleftrightarrow> path \<in> set PUBLIC_AUTH_ENDPOINTS"

definition is_public_discovery_endpoint :: "string \<Rightarrow> bool" where
  "is_public_discovery_endpoint path \<longleftrightarrow> path \<in> set PUBLIC_DISCOVERY_ENDPOINTS"

definition is_static_public :: "string \<Rightarrow> bool" where
  "is_static_public path \<longleftrightarrow>
     is_public_probe path \<or> is_public_auth_endpoint path \<or> is_public_discovery_endpoint path"

definition is_skip_allowlisted :: "string \<Rightarrow> bool" where
  "is_skip_allowlisted path \<longleftrightarrow> is_public_probe path \<or> starts_with AUTH_ENDPOINT_PREFIX path"

section \<open>Configurations\<close>

record AdminAuthConfig =
  ac_enabled :: bool
  ac_discovery :: string
  ac_logout_path :: "string option"
  ac_audiences :: "string list"
  ac_issuers :: "string list"
  ac_allowed_algorithms :: "string list"
  ac_groups_claim :: string
  ac_clock_skew_seconds :: u64
  ac_jwks_cache_ttl :: u64
  ac_jwks_min_refresh_interval :: u64
  ac_skip_paths :: "string list"
  ac_ssl_verify :: bool
  ac_ca_file :: "string option"
  ac_discovery_max_response_bytes :: u64
  ac_jwks_max_response_bytes :: u64

definition default_admin_auth_config :: AdminAuthConfig where
  "default_admin_auth_config =
     \<lparr>ac_enabled = True, ac_discovery = [], ac_logout_path = None, ac_audiences = [],
      ac_issuers = [], ac_allowed_algorithms = [], ac_groups_claim = ''groups'',
      ac_clock_skew_seconds = 120, ac_jwks_cache_ttl = 300, ac_jwks_min_refresh_interval = 10,
      ac_skip_paths = PUBLIC_PROBE_PATHS, ac_ssl_verify = True, ac_ca_file = None,
      ac_discovery_max_response_bytes = 65536, ac_jwks_max_response_bytes = 1048576\<rparr>"

definition SKIP_PATHS_ALLOWLIST_ERR :: string where
  "SKIP_PATHS_ALLOWLIST_ERR =
     ''skip_paths entries must be exactly /health, /ready, /metrics, or start with /api/v1/auth/''"

definition skip_path_is_allowlisted :: "string \<Rightarrow> bool" where
  "skip_path_is_allowlisted path = is_skip_allowlisted path"

definition bad_logout_path :: "string \<Rightarrow> bool" where
  "bad_logout_path path \<longleftrightarrow>
     \<not> starts_with ''/'' path \<or> starts_with ''//'' path \<or> CHR 0x5C \<in> set path \<or> has_control path"

definition admin_auth_validate :: "AdminAuthConfig \<Rightarrow> string option" where
  "admin_auth_validate c =
     (if \<not> ac_enabled c then None
      else if ac_discovery c = [] then Some ''auth.discovery is required when auth is enabled''
      else if (case ac_logout_path c of None \<Rightarrow> False | Some path \<Rightarrow> bad_logout_path path)
      then Some ''auth.logout_path must be a same-origin absolute path without backslashes or control characters''
      else if \<not> starts_with ''https://'' (ac_discovery c) \<and> \<not> starts_with ''http://'' (ac_discovery c)
      then Some ''auth.discovery must start with http:// or https://''
      else if ac_jwks_cache_ttl c = 0 then Some ''auth.jwks_cache_ttl must be greater than 0''
      else if ac_jwks_min_refresh_interval c = 0
      then Some ''auth.jwks_min_refresh_interval must be greater than 0''
      else if ac_discovery_max_response_bytes c = 0
      then Some ''auth.discovery_max_response_bytes must be greater than 0''
      else if ac_jwks_max_response_bytes c = 0
      then Some ''auth.jwks_max_response_bytes must be greater than 0''
      else if ac_groups_claim c = [] \<or> 128 < length (ac_groups_claim c) \<or> has_control (ac_groups_claim c)
      then Some ''auth.groups_claim must be a non-empty claim name of at most 128 bytes''
      else if (case ac_ca_file c of None \<Rightarrow> False | Some path \<Rightarrow> trim path = [])
      then Some ''auth.ca_file must not be empty when configured''
      else if list_ex (\<lambda>p. \<not> skip_path_is_allowlisted p) (ac_skip_paths c)
      then Some SKIP_PATHS_ALLOWLIST_ERR
      else None)"

record LocalAuthConfig =
  lc_enabled :: bool
  lc_username :: string
  lc_password :: string
  lc_jwt_secret :: string
  lc_jwt_expiry_hours :: u64
  lc_skip_paths :: "string list"
  lc_cookie_secure :: bool

definition default_local_auth_config :: LocalAuthConfig where
  "default_local_auth_config =
     \<lparr>lc_enabled = True, lc_username = ''admin'', lc_password = [], lc_jwt_secret = [],
      lc_jwt_expiry_hours = 24, lc_skip_paths = PUBLIC_PROBE_PATHS, lc_cookie_secure = True\<rparr>"

definition env_override :: "(string \<Rightarrow> string option) \<Rightarrow> string \<Rightarrow> string \<Rightarrow> string" where
  "env_override env name old =
     (case env name of None \<Rightarrow> old | Some v \<Rightarrow> if v = [] then old else v)"

definition apply_env_overrides :: "(string \<Rightarrow> string option) \<Rightarrow> LocalAuthConfig \<Rightarrow> LocalAuthConfig" where
  "apply_env_overrides env c =
     c\<lparr>lc_username := env_override env ''EDGION_ADMIN_USERNAME'' (lc_username c),
       lc_password := env_override env ''EDGION_ADMIN_PASSWORD'' (lc_password c),
       lc_jwt_secret := env_override env ''EDGION_ADMIN_JWT_SECRET'' (lc_jwt_secret c)\<rparr>"

definition env_overrides_present :: "(string \<Rightarrow> string option) \<Rightarrow> bool" where
  "env_overrides_present env \<longleftrightarrow>
     list_ex (\<lambda>k. case env k of None \<Rightarrow> False | Some v \<Rightarrow> v \<noteq> [])
       [''EDGION_ADMIN_USERNAME'', ''EDGION_ADMIN_PASSWORD'', ''EDGION_ADMIN_JWT_SECRET'']"

definition local_auth_validate :: "LocalAuthConfig \<Rightarrow> string option" where
  "local_auth_validate c =
     (if \<not> lc_enabled c then None
      else if lc_username c = [] then Some ''local_auth.username must not be empty''
      else if lc_password c = [] then Some ''local_auth.password must not be empty''
      else if lc_jwt_secret c = [] then Some ''local_auth.jwt_secret must not be empty''
      else if lc_jwt_expiry_hours c = 0 then Some ''local_auth.jwt_expiry_hours must be greater than 0''
      else if list_ex (\<lambda>p. \<not> skip_path_is_allowlisted p) (lc_skip_paths c)
      then Some SKIP_PATHS_ALLOWLIST_ERR
      else None)"

section \<open>The OIDC provider\<close>

definition DEFAULT_ALLOWED_ALGS :: "string list" where
  "DEFAULT_ALLOWED_ALGS = [''RS256'', ''RS384'', ''RS512'', ''ES256'', ''ES384'']"

record JoseHeader =
  jh_alg :: string
  jh_kid :: "string option"

record OidcClaims =
  oc_sub :: "string option"
  oc_iss :: "string option"
  oc_claims :: json

record 'k CachedKeys =
  ck_jwks :: "'k list"
  ck_issuer :: string
  ck_fetched_at :: nat

record OidcPolicy =
  op_ttl :: nat
  op_min_refresh_interval :: nat
  op_audiences :: "string list"
  op_issuers :: "string list"
  op_allowed_algorithms :: "string list"
  op_clock_skew_seconds :: u64

text \<open>
  What the libraries do: Base64, the JOSE header and claim parsers, the algorithm names of the
  key library, and the verification of a signature with one key. A left value is the text of the
  library's error.
\<close>

record ('k, 'a) jose =
  b64_decode :: "string \<Rightarrow> string + string"
  parse_header :: "string \<Rightarrow> string + JoseHeader"
  parse_json :: "string \<Rightarrow> string + json"
  parse_alg :: "string \<Rightarrow> 'a option"
  key_id :: "'k \<Rightarrow> string option"
  verify_signature :: "'k \<Rightarrow> 'a \<Rightarrow> string \<Rightarrow> string \<Rightarrow> string + unit"

definition seconds :: "u64 \<Rightarrow> nat" where
  "seconds n = unat n * 1000000000"

definition elapsed :: "nat \<Rightarrow> nat \<Rightarrow> nat" where
  "elapsed now since = now - since"

definition trim_end_slashes :: "string \<Rightarrow> string" where
  "trim_end_slashes s = rev (dropWhile (\<lambda>c. c = CHR ''/'') (rev s))"

definition derive_issuer :: "string \<Rightarrow> string" where
  "derive_issuer discovery =
     (let trimmed = trim_end_slashes discovery in
      case strip_suffix ''/.well-known/openid-configuration'' trimmed of
        Some stripped \<Rightarrow> stripped
      | None \<Rightarrow> trimmed)"

definition oidc_from_config :: "AdminAuthConfig \<Rightarrow> OidcPolicy" where
  "oidc_from_config c =
     \<lparr>op_ttl = seconds (ac_jwks_cache_ttl c),
      op_min_refresh_interval = seconds (ac_jwks_min_refresh_interval c),
      op_audiences = ac_audiences c, op_issuers = ac_issuers c,
      op_allowed_algorithms = ac_allowed_algorithms c,
      op_clock_skew_seconds = ac_clock_skew_seconds c\<rparr>"

text \<open>
  One refresh: the clock at the staleness check, the cache another task wrote while this one waited
  for the fetch lock, the clock under the lock, the answer of discovery (keys and issuer, or the
  error text), and the clock when the answer was stored.
\<close>

record 'k key_refresh_env =
  re_checked :: nat
  re_meanwhile :: "'k CachedKeys option"
  re_locked :: nat
  re_discovered :: "string + ('k list \<times> string)"
  re_stored :: nat

text \<open>The result, the cache afterwards, and whether the provider was contacted.\<close>

definition fetch_and_cache ::
  "OidcPolicy \<Rightarrow> 'k key_refresh_env \<Rightarrow> 'k CachedKeys option \<Rightarrow> (string + unit) \<times> 'k CachedKeys option \<times> bool" where
  "fetch_and_cache pol e cache0 =
     (let cache = (case re_meanwhile e of None \<Rightarrow> cache0 | Some c \<Rightarrow> Some c) in
      if (case cache of None \<Rightarrow> False
          | Some c \<Rightarrow> elapsed (re_locked e) (ck_fetched_at c) < op_min_refresh_interval pol)
      then (Inr (), cache, False)
      else
        (case re_discovered e of
           Inl err \<Rightarrow> (Inl (''OIDC discovery/JWKS fetch failed: '' @ err), cache, True)
         | Inr (jwks, issuer) \<Rightarrow>
             if jwks = [] then (Inl ''OIDC JWKS contains no keys'', cache, True)
             else (Inr (), Some \<lparr>ck_jwks = jwks, ck_issuer = issuer, ck_fetched_at = re_stored e\<rparr>, True)))"

definition needs_refresh :: "OidcPolicy \<Rightarrow> bool \<Rightarrow> nat \<Rightarrow> 'k CachedKeys option \<Rightarrow> bool" where
  "needs_refresh pol force now cache \<longleftrightarrow>
     force \<or> (case cache of None \<Rightarrow> True | Some c \<Rightarrow> op_ttl pol \<le> elapsed now (ck_fetched_at c))"

definition cached_answer :: "'k CachedKeys option \<Rightarrow> string + ('k list \<times> string)" where
  "cached_answer cache =
     (case cache of None \<Rightarrow> Inl ''OIDC JWKS unavailable'' | Some c \<Rightarrow> Inr (ck_jwks c, ck_issuer c))"

definition oidc_keys ::
  "OidcPolicy \<Rightarrow> bool \<Rightarrow> 'k key_refresh_env \<Rightarrow> 'k CachedKeys option \<Rightarrow>
   (string + ('k list \<times> string)) \<times> 'k CachedKeys option \<times> bool" where
  "oidc_keys pol force e cache =
     (if needs_refresh pol force (re_checked e) cache then
        (case fetch_and_cache pol e cache of
           (Inl err, cache', contacted) \<Rightarrow>
             (if cache' = None then Inl err else cached_answer cache', cache', contacted)
         | (Inr _, cache', contacted) \<Rightarrow> (cached_answer cache', cache', contacted))
      else (cached_answer cache, cache, False))"

datatype VerifyError = KidNotFound | Message string

fun verify_error_message :: "VerifyError \<Rightarrow> string" where
  "verify_error_message KidNotFound = ''Unknown signing key''"
| "verify_error_message (Message m) = m"

definition key_candidate :: "('k, 'a) jose \<Rightarrow> string option \<Rightarrow> 'k \<Rightarrow> bool" where
  "key_candidate lib kid k =
     (case (key_id lib k, kid) of
        (Some k_kid, Some jwt_kid) \<Rightarrow> k_kid = jwt_kid
      | (_, None) \<Rightarrow> True
      | _ \<Rightarrow> False)"

fun verify_any :: "('k \<Rightarrow> string + unit) \<Rightarrow> string option \<Rightarrow> 'k list \<Rightarrow> VerifyError + unit" where
  "verify_any check last_err [] =
     Inl (Message (case last_err of Some e \<Rightarrow> e | None \<Rightarrow> ''signature verification failed''))"
| "verify_any check last_err (k # ks) =
     (case check k of
        Inr _ \<Rightarrow> Inr ()
      | Inl e \<Rightarrow> verify_any check (Some (''signature verification failed: '' @ e)) ks)"

definition verify_with_jwks ::
  "('k, 'a) jose \<Rightarrow> 'k list \<Rightarrow> 'a \<Rightarrow> string option \<Rightarrow> string \<Rightarrow> string \<Rightarrow> VerifyError + unit" where
  "verify_with_jwks lib jwks alg kid message signature =
     (let candidates = filter (key_candidate lib kid) jwks in
      if candidates = [] then Inl KidNotFound
      else verify_any (\<lambda>k. verify_signature lib k alg message signature) None candidates)"

definition extract_audiences :: "json \<Rightarrow> string list" where
  "extract_audiences claims =
     (case json_get ''aud'' claims of
        Some (JString s) \<Rightarrow> [s]
      | Some (JArray arr) \<Rightarrow> List.map_filter as_str arr
      | _ \<Rightarrow> [])"

text \<open>\<open>Value::as_i64\<close> on the text of a number: an integer literal within the \<open>i64\<close> range.\<close>

definition nat_of_digits :: "string \<Rightarrow> nat" where
  "nat_of_digits s = fold (\<lambda>c n. n * 10 + (byte c - 48)) s 0"

definition int_of_text :: "string \<Rightarrow> int option" where
  "int_of_text s =
     (let (neg, ds) = (case s of c # cs \<Rightarrow> if c = CHR ''-'' then (True, cs) else (False, s) | [] \<Rightarrow> (False, []))
      in if ds = [] \<or> \<not> list_all is_ascii_digit ds then None
         else Some (if neg then - int (nat_of_digits ds) else int (nat_of_digits ds)))"

fun as_i64 :: "json \<Rightarrow> int option" where
  "as_i64 (JNumber s) =
     (case int_of_text s of
        None \<Rightarrow> None
      | Some i \<Rightarrow> if - (2 ^ 63) \<le> i \<and> i < 2 ^ 63 then Some i else None)"
| "as_i64 _ = None"

definition wrap_i64 :: "int \<Rightarrow> int" where
  "wrap_i64 i = (i + 2 ^ 63) mod 2 ^ 64 - 2 ^ 63"

definition issuer_allowed :: "OidcPolicy \<Rightarrow> string \<Rightarrow> json \<Rightarrow> string + unit" where
  "issuer_allowed pol discovery_issuer claims =
     (let token_iss = Option.bind (json_get ''iss'' claims) as_str in
      if op_issuers pol \<noteq> [] then
        (case token_iss of
           Some iss \<Rightarrow> if iss \<in> set (op_issuers pol) then Inr () else Inl ''token issuer not allowed''
         | None \<Rightarrow> Inl ''token issuer not allowed'')
      else if discovery_issuer \<noteq> [] then
        (case token_iss of
           Some iss \<Rightarrow> if iss = discovery_issuer then Inr () else Inl ''token issuer does not match provider''
         | None \<Rightarrow> Inl ''token issuer does not match provider'')
      else Inr ())"

definition validate_claims :: "OidcPolicy \<Rightarrow> u64 \<Rightarrow> json \<Rightarrow> string \<Rightarrow> string + unit" where
  "validate_claims pol now_secs claims discovery_issuer =
     (let now = wrap_i64 (uint now_secs);
          leeway = wrap_i64 (uint (op_clock_skew_seconds pol))
      in case Option.bind (json_get ''exp'' claims) as_i64 of
           None \<Rightarrow> Inl ''token missing exp''
         | Some exp \<Rightarrow>
             if wrap_i64 (exp + leeway) < now then Inl ''token expired''
             else if (case Option.bind (json_get ''nbf'' claims) as_i64 of
                        None \<Rightarrow> False | Some nbf \<Rightarrow> now < wrap_i64 (nbf - leeway))
             then Inl ''token not yet valid (nbf)''
             else if op_audiences pol \<noteq> []
                     \<and> \<not> list_ex (\<lambda>a. a \<in> set (op_audiences pol)) (extract_audiences claims)
             then Inl ''token audience not allowed''
             else issuer_allowed pol discovery_issuer claims)"

definition algorithm_policy :: "OidcPolicy \<Rightarrow> string \<Rightarrow> string + unit" where
  "algorithm_policy pol alg =
     (let allowed = (if op_allowed_algorithms pol = [] then DEFAULT_ALLOWED_ALGS else op_allowed_algorithms pol)
      in if eq_ignore_ascii_case alg ''none'' then Inl ''alg=none is not allowed''
         else if \<not> list_ex (\<lambda>a. eq_ignore_ascii_case a alg) allowed
         then Inl (''algorithm '' @ alg @ '' not allowed'')
         else Inr ())"

definition with_context :: "string \<Rightarrow> string + 'b \<Rightarrow> string + 'b" where
  "with_context what r = (case r of Inl e \<Rightarrow> Inl (what @ e) | Inr x \<Rightarrow> Inr x)"

text \<open>The token up to the key set: its segments, header, algorithm.\<close>

definition parse_token :: "('k, 'a) jose \<Rightarrow> OidcPolicy \<Rightarrow> string \<Rightarrow> string + (string list \<times> JoseHeader \<times> 'a)" where
  "parse_token lib pol token =
     (let parts = split_on CHR ''.'' token in
      if length parts \<noteq> 3 then Inl ''malformed JWT: expected 3 segments''
      else
        and_then (with_context ''Invalid token header: '' (b64_decode lib (parts ! 0))) (\<lambda>header_bytes.
        and_then (with_context ''Invalid token header: '' (parse_header lib header_bytes)) (\<lambda>header.
        and_then (algorithm_policy pol (jh_alg header)) (\<lambda>_.
          case parse_alg lib (jh_alg header) of
            None \<Rightarrow> Inl (''unsupported alg: '' @ jh_alg header)
          | Some alg \<Rightarrow> Inr (parts, header, alg)))))"

text \<open>The claims of a token whose signature was verified.\<close>

definition verified_claims ::
  "('k, 'a) jose \<Rightarrow> OidcPolicy \<Rightarrow> u64 \<Rightarrow> string \<Rightarrow> string \<Rightarrow> string + OidcClaims" where
  "verified_claims lib pol now payload discovery_issuer =
     and_then (with_context ''Invalid token payload: '' (b64_decode lib payload)) (\<lambda>payload_bytes.
     and_then (with_context ''Invalid token payload: '' (parse_json lib payload_bytes)) (\<lambda>claims.
     and_then (validate_claims pol now claims discovery_issuer) (\<lambda>_.
       Inr \<lparr>oc_sub = Option.bind (json_get ''sub'' claims) as_str,
            oc_iss = Option.bind (json_get ''iss'' claims) as_str, oc_claims = claims\<rparr>)))"

record 'k oidc_env =
  oe_keys :: "'k key_refresh_env"
  oe_forced :: "'k key_refresh_env"
  oe_now :: u64

text \<open>The whole validation with the cache it leaves; an unknown key id forces one refresh.\<close>

definition oidc_validate ::
  "('k, 'a) jose \<Rightarrow> OidcPolicy \<Rightarrow> 'k oidc_env \<Rightarrow> 'k CachedKeys option \<Rightarrow> string \<Rightarrow>
   (string + OidcClaims) \<times> 'k CachedKeys option" where
  "oidc_validate lib pol e cache token =
     (case parse_token lib pol token of
        Inl err \<Rightarrow> (Inl err, cache)
      | Inr (parts, header, alg) \<Rightarrow>
          (case oidc_keys pol False (oe_keys e) cache of
             (Inl err, cache1, _) \<Rightarrow> (Inl err, cache1)
           | (Inr (jwks, issuer), cache1, _) \<Rightarrow>
               let signing_input = parts ! 0 @ ''.'' @ parts ! 1 in
               case with_context ''Invalid signature encoding: '' (b64_decode lib (parts ! 2)) of
                 Inl err \<Rightarrow> (Inl err, cache1)
               | Inr signature \<Rightarrow>
                   (case verify_with_jwks lib jwks alg (jh_kid header) signing_input signature of
                      Inr _ \<Rightarrow> (verified_claims lib pol (oe_now e) (parts ! 1) issuer, cache1)
                    | Inl KidNotFound \<Rightarrow>
                        (case oidc_keys pol True (oe_forced e) cache1 of
                           (Inl err, cache2, _) \<Rightarrow> (Inl err, cache2)
                         | (Inr (jwks2, issuer2), cache2, _) \<Rightarrow>
                             (case verify_with_jwks lib jwks2 alg (jh_kid header) signing_input signature of
                                Inl verr \<Rightarrow> (Inl (verify_error_message verr), cache2)
                              | Inr _ \<Rightarrow> (verified_claims lib pol (oe_now e) (parts ! 1) issuer2, cache2)))
                    | Inl (Message m) \<Rightarrow> (Inl m, cache1))))"

section \<open>The unified middleware\<close>

datatype AuthProvider = Oidc | Local

record UnifiedAuthClaims =
  uc_provider :: AuthProvider
  uc_sub :: "string option"
  uc_iss :: "string option"
  uc_groups :: "string list"
  uc_claims :: json

record LocalAuthState =
  ls_password_hash :: string
  ls_dummy_hash :: string
  ls_username :: string
  ls_jwt_secret :: string
  ls_jwt_expiry_hours :: u64
  ls_cookie_secure :: bool

record 'k AuthMiddlewareState =
  am_policy :: OidcPolicy
  am_issuer_url :: string
  am_cache :: "'k CachedKeys option"
  am_groups_claim :: string
  am_logout_path :: "string option"

record 'k UnifiedAuthState =
  us_oidc :: "'k AuthMiddlewareState option"
  us_local :: "LocalAuthState option"
  us_skip_paths :: "string list"
  us_require_auth :: bool

text \<open>
  Building the state. The HTTP client and the URL parser of the OIDC provider may refuse its
  configuration (\<open>build_client\<close>, with the error text); \<open>hash\<close> is bcrypt on a password.
\<close>

definition local_state_from_config :: "(string \<Rightarrow> string) \<Rightarrow> LocalAuthConfig \<Rightarrow> LocalAuthState" where
  "local_state_from_config hash c =
     \<lparr>ls_password_hash = hash (lc_password c), ls_dummy_hash = hash ''__dummy__'',
      ls_username = lc_username c, ls_jwt_secret = lc_jwt_secret c,
      ls_jwt_expiry_hours = lc_jwt_expiry_hours c, ls_cookie_secure = lc_cookie_secure c\<rparr>"

definition middleware_state_from_config ::
  "(AdminAuthConfig \<Rightarrow> string + unit) \<Rightarrow> AdminAuthConfig \<Rightarrow> string + 'k AuthMiddlewareState" where
  "middleware_state_from_config build_client c =
     and_then (build_client c) (\<lambda>_.
       Inr \<lparr>am_policy = oidc_from_config c, am_issuer_url = derive_issuer (ac_discovery c),
            am_cache = None, am_groups_claim = ac_groups_claim c, am_logout_path = ac_logout_path c\<rparr>)"

definition oidc_from_configs ::
  "(AdminAuthConfig \<Rightarrow> string + unit) \<Rightarrow> AdminAuthConfig option \<Rightarrow>
   string + ('k AuthMiddlewareState option \<times> string list)" where
  "oidc_from_configs build_client auth_config =
     (case auth_config of
        None \<Rightarrow> Inr (None, [])
      | Some cfg \<Rightarrow>
          if \<not> ac_enabled cfg then Inr (None, [])
          else
            (case admin_auth_validate cfg of
               Some err \<Rightarrow> Inl err
             | None \<Rightarrow>
                 and_then (middleware_state_from_config build_client cfg) (\<lambda>st.
                   Inr (Some st, ac_skip_paths cfg))))"

definition local_from_configs ::
  "(string \<Rightarrow> string) \<Rightarrow> LocalAuthConfig option \<Rightarrow> string + (LocalAuthState option \<times> string list)" where
  "local_from_configs hash local_auth_config =
     (case local_auth_config of
        None \<Rightarrow> Inr (None, [])
      | Some cfg \<Rightarrow>
          if \<not> lc_enabled cfg then Inr (None, [])
          else
            (case local_auth_validate cfg of
               Some err \<Rightarrow> Inl err
             | None \<Rightarrow> Inr (Some (local_state_from_config hash cfg), lc_skip_paths cfg)))"

definition from_configs ::
  "(AdminAuthConfig \<Rightarrow> string + unit) \<Rightarrow> (string \<Rightarrow> string) \<Rightarrow> AdminAuthConfig option \<Rightarrow>
   LocalAuthConfig option \<Rightarrow> bool \<Rightarrow> string + 'k UnifiedAuthState" where
  "from_configs build_client hash auth_config local_auth_config require_auth =
     and_then (oidc_from_configs build_client auth_config) (\<lambda>(oidc, oidc_skips).
     and_then (local_from_configs hash local_auth_config) (\<lambda>(local, local_skips).
       Inr \<lparr>us_oidc = oidc, us_local = local,
            us_skip_paths = PUBLIC_PROBE_PATHS @ PUBLIC_DISCOVERY_ENDPOINTS @ oidc_skips @ local_skips,
            us_require_auth = require_auth\<rparr>))"

definition update_local :: "LocalAuthState \<Rightarrow> 'k UnifiedAuthState \<Rightarrow> 'k UnifiedAuthState" where
  "update_local l st = st\<lparr>us_local := Some l\<rparr>"

datatype AuthStatus = Ready | Initializing | Disabled

record AuthStatusResponse =
  as_auth_required :: bool
  as_active_providers :: "string list"
  as_status :: AuthStatus

definition build_status :: "'k UnifiedAuthState \<Rightarrow> AuthStatusResponse" where
  "build_status st =
     (let (status, providers) =
        (if \<not> us_require_auth st then (Disabled, [])
         else
           let providers = (if us_oidc st \<noteq> None then [''oidc''] else [])
                           @ (if us_local st \<noteq> None then [''local''] else [])
           in (if providers = [] then Initializing else Ready, providers))
      in \<lparr>as_auth_required = us_require_auth st, as_active_providers = providers, as_status = status\<rparr>)"

record http_request =
  rq_method :: Method
  rq_path :: string
  rq_authorization :: "string option"
  rq_cookie :: "string option"
  rq_bypass :: bool

text \<open>\<open>HeaderValue::to_str\<close>: visible ASCII, blanks and tabs.\<close>

definition header_to_str :: "string \<Rightarrow> string option" where
  "header_to_str v =
     (if list_all (\<lambda>c. byte c = 9 \<or> (32 \<le> byte c \<and> byte c < 127)) v then Some v else None)"

definition extract_bearer_token :: "http_request \<Rightarrow> string option" where
  "extract_bearer_token rq =
     Option.bind (rq_authorization rq) (\<lambda>h. Option.bind (header_to_str h) (\<lambda>auth_str.
       if 7 < length auth_str \<and> eq_ignore_ascii_case (take 7 auth_str) ''bearer ''
       then Some (drop 7 auth_str) else None))"

fun first_token_cookie :: "string list \<Rightarrow> string option" where
  "first_token_cookie [] = None"
| "first_token_cookie (part # parts) =
     (case strip_prefix ''edgion_token='' (trim part) of
        None \<Rightarrow> first_token_cookie parts
      | Some value \<Rightarrow> if value \<noteq> [] then Some value else first_token_cookie parts)"

definition extract_cookie_token :: "http_request \<Rightarrow> string option" where
  "extract_cookie_token rq =
     Option.bind (rq_cookie rq) (\<lambda>h. Option.bind (header_to_str h) (\<lambda>cookie_str.
       first_token_cookie (split_on CHR '';'' cookie_str)))"

definition validated_identity_claim :: "string \<Rightarrow> string option \<Rightarrow> nat \<Rightarrow> string + string" where
  "validated_identity_claim name value max_bytes =
     (case value of
        None \<Rightarrow> Inl (''OIDC token is missing '' @ [CHR 0x22] @ name @ [CHR 0x22] @ '' claim'')
      | Some v \<Rightarrow>
          if v = [] \<or> max_bytes < length v \<or> has_control v
          then Inl (''OIDC token contains invalid '' @ [CHR 0x22] @ name @ [CHR 0x22] @ '' claim'')
          else Inr v)"

text \<open>The texts of the group errors name the claim; they are never shown to the client.\<close>

fun collect_groups :: "json list \<Rightarrow> string list \<Rightarrow> string + string list" where
  "collect_groups [] groups = Inr groups"
| "collect_groups (v # vs) groups =
     (case as_str v of
        None \<Rightarrow> Inl ''OIDC group claim must contain only strings''
      | Some g \<Rightarrow>
          if g = [] \<or> 256 < length g \<or> has_control g
          then Inl ''OIDC group claim contains an invalid group''
          else collect_groups vs (if g \<in> set groups then groups else groups @ [g]))"

definition extract_validated_groups :: "json \<Rightarrow> string \<Rightarrow> string + string list" where
  "extract_validated_groups claims claim_name =
     (case json_get claim_name claims of
        None \<Rightarrow> Inr []
      | Some (JArray values) \<Rightarrow>
          if 256 < length values then Inl ''OIDC group claim exceeds 256 entries''
          else collect_groups values []
      | Some _ \<Rightarrow> Inl ''OIDC group claim must be an array of strings'')"

definition oidc_identity :: "string \<Rightarrow> OidcClaims \<Rightarrow> string + UnifiedAuthClaims" where
  "oidc_identity groups_claim claims =
     and_then (validated_identity_claim ''sub'' (oc_sub claims) 255) (\<lambda>subject.
     and_then (validated_identity_claim ''iss'' (oc_iss claims) 2048) (\<lambda>issuer.
     and_then (extract_validated_groups (oc_claims claims) groups_claim) (\<lambda>groups.
       Inr \<lparr>uc_provider = Oidc, uc_sub = Some subject, uc_iss = Some issuer, uc_groups = groups,
            uc_claims = oc_claims claims\<rparr>)))"

definition try_oidc_validation ::
  "('k, 'a) jose \<Rightarrow> 'k oidc_env \<Rightarrow> 'k AuthMiddlewareState \<Rightarrow> string \<Rightarrow>
   (string + UnifiedAuthClaims) \<times> 'k AuthMiddlewareState" where
  "try_oidc_validation lib e st token =
     (case oidc_validate lib (am_policy st) e (am_cache st) token of
        (r, cache') \<Rightarrow> (and_then r (oidc_identity (am_groups_claim st)), st\<lparr>am_cache := cache'\<rparr>))"

record LocalAuthClaims =
  la_sub :: string
  la_iat :: u64
  la_exp :: u64

text \<open>
  The token library: decoding with a secret at a wall-clock second (signature, expiry and
  not-before included) and encoding.
\<close>

record jwt_lib =
  jwt_decode :: "string \<Rightarrow> u64 \<Rightarrow> string \<Rightarrow> string + LocalAuthClaims"
  jwt_encode :: "string \<Rightarrow> LocalAuthClaims \<Rightarrow> string + string"
  number_text :: "u64 \<Rightarrow> string"

definition try_local_validation :: "jwt_lib \<Rightarrow> u64 \<Rightarrow> LocalAuthState \<Rightarrow> string \<Rightarrow> string + UnifiedAuthClaims" where
  "try_local_validation jwt now st token =
     and_then (with_context ''Local JWT validation failed: '' (jwt_decode jwt (ls_jwt_secret st) now token)) (\<lambda>c.
       Inr \<lparr>uc_provider = Local, uc_sub = Some (la_sub c), uc_iss = None, uc_groups = [],
            uc_claims = JObject [(''sub'', JString (la_sub c)),
                                 (''iat'', JNumber (number_text jwt (la_iat c))),
                                 (''exp'', JNumber (number_text jwt (la_exp c)))]\<rparr>)"

definition initializing_response :: http_response where
  "initializing_response =
     insert_header ''retry-after'' ''10''
       (json_response 503 (err_body ''authentication subsystem initializing, retry later''))"

definition build_admin_auth_error_response :: "nat \<Rightarrow> string \<Rightarrow> http_response" where
  "build_admin_auth_error_response status message =
     (let resp = json_response status (JObject [(''error'', JString message)]) in
      if status = 401 then insert_header ''www-authenticate'' (''Bearer realm='' @ [CHR 0x22] @ ''edgion-admin'' @ [CHR 0x22]) resp else resp)"

text \<open>What a layer does with a request: hand it on with the claims it put in, or answer.\<close>

datatype 'x layer = RunNext 'x | Answer http_response

definition request_token :: "http_request \<Rightarrow> string option" where
  "request_token rq =
     (case extract_bearer_token rq of Some t \<Rightarrow> Some t | None \<Rightarrow> extract_cookie_token rq)"

definition try_local :: "jwt_lib \<Rightarrow> u64 \<Rightarrow> LocalAuthState option \<Rightarrow> string \<Rightarrow> UnifiedAuthClaims option layer" where
  "try_local jwt now local token =
     (case local of
        None \<Rightarrow> Answer (build_admin_auth_error_response 401 ''Authentication failed'')
      | Some l \<Rightarrow>
          (case try_local_validation jwt now l token of
             Inr claims \<Rightarrow> RunNext (Some claims)
           | Inl _ \<Rightarrow> Answer (build_admin_auth_error_response 401 ''Authentication failed'')))"

definition try_providers ::
  "('k, 'a) jose \<Rightarrow> jwt_lib \<Rightarrow> 'k oidc_env \<Rightarrow> 'k UnifiedAuthState \<Rightarrow> string \<Rightarrow>
   UnifiedAuthClaims option layer \<times> 'k UnifiedAuthState" where
  "try_providers lib jwt e st token =
     (case us_oidc st of
        None \<Rightarrow> (try_local jwt (oe_now e) (us_local st) token, st)
      | Some oidc \<Rightarrow>
          (case try_oidc_validation lib e oidc token of
             (Inr claims, oidc') \<Rightarrow> (RunNext (Some claims), st\<lparr>us_oidc := Some oidc'\<rparr>)
           | (Inl _, oidc') \<Rightarrow>
               (try_local jwt (oe_now e) (us_local st) token, st\<lparr>us_oidc := Some oidc'\<rparr>)))"

definition unified_auth_middleware ::
  "('k, 'a) jose \<Rightarrow> jwt_lib \<Rightarrow> 'k oidc_env \<Rightarrow> 'k UnifiedAuthState \<Rightarrow> http_request \<Rightarrow>
   UnifiedAuthClaims option layer \<times> 'k UnifiedAuthState" where
  "unified_auth_middleware lib jwt e st rq =
     (let path = rq_path rq in
      if path \<in> set (us_skip_paths st) then (RunNext None, st)
      else if is_public_auth_endpoint path then (RunNext None, st)
      else if rq_bypass rq then (RunNext None, st)
      else if us_oidc st = None \<and> us_local st = None then (Answer initializing_response, st)
      else
        (case request_token rq of
           None \<Rightarrow> (Answer (build_admin_auth_error_response 401 ''Missing credentials''), st)
         | Some token \<Rightarrow> try_providers lib jwt e st token))"

section \<open>Login and logout\<close>

record LoginRequest =
  lr_username :: string
  lr_password :: string

text \<open>\<open>bcrypt_verify password hash\<close> is \<open>Inl\<close> when the library refuses the hash.\<close>

definition verify_single_admin ::
  "(string \<Rightarrow> string \<Rightarrow> string + bool) \<Rightarrow> LocalAuthState \<Rightarrow> string \<Rightarrow> string \<Rightarrow> bool" where
  "verify_single_admin bcrypt st username password =
     (let username_matches = (username = ls_username st);
          hash = (if username_matches then ls_password_hash st else ls_dummy_hash st);
          verified = (case bcrypt password hash of Inr v \<Rightarrow> v | Inl _ \<Rightarrow> False)
      in username_matches \<and> verified)"

definition secure_attr :: "bool \<Rightarrow> string" where
  "secure_attr cookie_secure = (if cookie_secure then ''; Secure'' else [])"

definition local_claims :: "LocalAuthState \<Rightarrow> u64 \<Rightarrow> string \<Rightarrow> LocalAuthClaims" where
  "local_claims st now username =
     \<lparr>la_sub = username, la_iat = now, la_exp = now + ls_jwt_expiry_hours st * 3600\<rparr>"

definition issue_login_response :: "jwt_lib \<Rightarrow> u64 \<Rightarrow> LocalAuthState \<Rightarrow> string \<Rightarrow> http_response" where
  "issue_login_response jwt now st username =
     (let expiry_secs = ls_jwt_expiry_hours st * 3600 in
      case jwt_encode jwt (ls_jwt_secret st) (local_claims st now username) of
        Inr token \<Rightarrow>
          insert_header ''set-cookie''
            (''edgion_token='' @ token @ ''; HttpOnly; SameSite=Strict; Path=/''
             @ secure_attr (ls_cookie_secure st) @ ''; Max-Age='' @ number_text jwt expiry_secs)
            (json_response 200 (ok_body (JObject
               [(''token'', JString token), (''expires_in'', JNumber (number_text jwt expiry_secs))])))
      | Inl _ \<Rightarrow> json_response 500 (err_body ''Failed to generate token''))"

definition invalid_credentials :: http_response where
  "invalid_credentials = json_response 401 (err_body ''Invalid username or password'')"

definition internal_auth_error :: http_response where
  "internal_auth_error = json_response 500 (err_body ''Internal authentication error'')"

text \<open>\<open>panics\<close> tells whether the blocking verification task panicked.\<close>

definition login_handler ::
  "(string \<Rightarrow> string \<Rightarrow> string + bool) \<Rightarrow> jwt_lib \<Rightarrow> bool \<Rightarrow> u64 \<Rightarrow> 'k UnifiedAuthState \<Rightarrow> LoginRequest \<Rightarrow> http_response" where
  "login_handler bcrypt jwt panics now st req =
     (case us_local st of
        None \<Rightarrow> initializing_response
      | Some local \<Rightarrow>
          if panics then internal_auth_error
          else if \<not> verify_single_admin bcrypt local (lr_username req) (lr_password req)
          then invalid_credentials
          else issue_login_response jwt now local (ls_username local))"

definition logout_handler :: "'k UnifiedAuthState \<Rightarrow> http_response" where
  "logout_handler st =
     (let cookie_secure = (case us_local st of Some l \<Rightarrow> ls_cookie_secure l | None \<Rightarrow> True)
      in insert_header ''set-cookie''
           (''edgion_token=; HttpOnly; SameSite=Strict; Path=/'' @ secure_attr cookie_secure @ ''; Max-Age=0'')
           (json_response 200 (ok_body JNull)))"

text \<open>
  Database users, of the standalone binary. The query for the row of a username may fail; a missing
  row is checked against the dummy hash.
\<close>

record db_user =
  du_password_hash :: string
  du_status :: string

definition verify_user_credentials ::
  "(string \<Rightarrow> string \<Rightarrow> string + bool) \<Rightarrow> bool \<Rightarrow> string + db_user option \<Rightarrow> string \<Rightarrow> string \<Rightarrow> string + bool" where
  "verify_user_credentials bcrypt panics row password dummy_hash =
     and_then row (\<lambda>user.
       let active = (case user of None \<Rightarrow> False | Some u \<Rightarrow> du_status u = ''active'');
           hash = (case user of None \<Rightarrow> dummy_hash | Some u \<Rightarrow> du_password_hash u)
       in if panics then Inl ''password verification task failed''
          else Inr (active \<and> (case bcrypt password hash of Inr v \<Rightarrow> v | Inl _ \<Rightarrow> False)))"

record UnifiedLoginState =
  ul_store :: "(string \<Rightarrow> string + db_user option) option"
  ul_local :: LocalAuthState
  ul_single_admin_enabled :: bool

definition single_admin_login ::
  "(string \<Rightarrow> string \<Rightarrow> string + bool) \<Rightarrow> jwt_lib \<Rightarrow> bool \<Rightarrow> u64 \<Rightarrow> UnifiedLoginState \<Rightarrow> LoginRequest \<Rightarrow> http_response" where
  "single_admin_login bcrypt jwt panics now st req =
     (if \<not> ul_single_admin_enabled st then invalid_credentials
      else if panics then internal_auth_error
      else if verify_single_admin bcrypt (ul_local st) (lr_username req) (lr_password req)
      then issue_login_response jwt now (ul_local st) (lr_username req)
      else invalid_credentials)"

definition unified_login_handler ::
  "(string \<Rightarrow> string \<Rightarrow> string + bool) \<Rightarrow> jwt_lib \<Rightarrow> bool \<Rightarrow> bool \<Rightarrow> u64 \<Rightarrow> UnifiedLoginState \<Rightarrow> LoginRequest \<Rightarrow> http_response" where
  "unified_login_handler bcrypt jwt db_panics panics now st req =
     (case ul_store st of
        None \<Rightarrow> single_admin_login bcrypt jwt panics now st req
      | Some query \<Rightarrow>
          (case verify_user_credentials bcrypt db_panics (query (lr_username req)) (lr_password req)
                  (ls_dummy_hash (ul_local st)) of
             Inr True \<Rightarrow> issue_login_response jwt now (ul_local st) (lr_username req)
           | Inr False \<Rightarrow> single_admin_login bcrypt jwt panics now st req
           | Inl _ \<Rightarrow> internal_auth_error))"

section \<open>Lemmas\<close>

lemmas public_defs =
  is_public_probe_def is_public_auth_endpoint_def is_public_discovery_endpoint_def
  PUBLIC_PROBE_PATHS_def PUBLIC_AUTH_ENDPOINTS_def PUBLIC_DISCOVERY_ENDPOINTS_def
  AUTH_ENDPOINT_PREFIX_def

lemma with_context_Inr [simp]: "with_context w r = Inr x \<longleftrightarrow> r = Inr x"
  by (cases r) (simp_all add: with_context_def)

lemma with_context_of_Inr [simp]: "with_context w (Inr x) = Inr x"
  by (simp add: with_context_def)

lemma wrap_i64_id: "- (2 ^ 63) \<le> i \<Longrightarrow> i < 2 ^ 63 \<Longrightarrow> wrap_i64 i = i"
  by (simp add: wrap_i64_def)

lemma wrap_i64_above: "2 ^ 63 \<le> i \<Longrightarrow> i < 2 ^ 64 + 2 ^ 63 \<Longrightarrow> wrap_i64 i = i - 2 ^ 64"
  unfolding wrap_i64_def using mod_pos_pos_trivial [of "i - 2 ^ 63" "2 ^ 64"]
    mod_add_self2 [of "i - 2 ^ 63" "2 ^ 64 :: int"] by (simp add: add.commute)

lemma wrap_i64_below: "i < - (2 ^ 63) \<Longrightarrow> - (2 ^ 64) - 2 ^ 63 \<le> i \<Longrightarrow> wrap_i64 i = i + 2 ^ 64"
  unfolding wrap_i64_def using mod_pos_pos_trivial [of "i + 2 ^ 63 + 2 ^ 64" "2 ^ 64"]
    mod_add_self2 [of "i + 2 ^ 63" "2 ^ 64 :: int"] by simp

lemma as_i64_range: "as_i64 v = Some i \<Longrightarrow> - (2 ^ 63) \<le> i \<and> i < 2 ^ 63"
  by (cases v) (auto split: option.splits if_splits)

lemma exp_check:
  assumes "0 \<le> leeway" "leeway < 2 ^ 63" "0 \<le> now" "- (2 ^ 63) \<le> i" "i < 2 ^ 63"
  shows "\<not> wrap_i64 (i + leeway) < now \<longleftrightarrow> now \<le> i + leeway \<and> i + leeway < 2 ^ 63"
proof (cases "i + leeway < 2 ^ 63")
  case True
  with assms show ?thesis using wrap_i64_id [of "i + leeway"] by auto
next
  case False
  with assms show ?thesis using wrap_i64_above [of "i + leeway"] by simp
qed

lemma nbf_check:
  assumes "0 \<le> leeway" "leeway \<le> 2 ^ 62" "0 \<le> now" "now < 2 ^ 62" "- (2 ^ 63) \<le> i" "i < 2 ^ 63"
  shows "\<not> now < wrap_i64 (i - leeway) \<longleftrightarrow> i - leeway \<le> now \<and> - (2 ^ 63) \<le> i - leeway"
proof (cases "- (2 ^ 63) \<le> i - leeway")
  case True
  with assms show ?thesis using wrap_i64_id [of "i - leeway"] by auto
next
  case False
  with assms show ?thesis using wrap_i64_below [of "i - leeway"] by auto
qed

text \<open>The checks on the claims, stated over the integers.\<close>

definition exp_ok :: "int \<Rightarrow> int \<Rightarrow> json \<Rightarrow> bool" where
  "exp_ok now leeway claims \<longleftrightarrow>
     (case Option.bind (json_get ''exp'' claims) as_i64 of
        None \<Rightarrow> False | Some i \<Rightarrow> now \<le> i + leeway \<and> i + leeway < 2 ^ 63)"

definition nbf_ok :: "int \<Rightarrow> int \<Rightarrow> json \<Rightarrow> bool" where
  "nbf_ok now leeway claims \<longleftrightarrow>
     (case Option.bind (json_get ''nbf'' claims) as_i64 of
        None \<Rightarrow> True | Some i \<Rightarrow> i - leeway \<le> now \<and> - (2 ^ 63) \<le> i - leeway)"

definition aud_ok :: "OidcPolicy \<Rightarrow> json \<Rightarrow> bool" where
  "aud_ok pol claims \<longleftrightarrow>
     op_audiences pol = [] \<or> (\<exists>a. a \<in> set (extract_audiences claims) \<and> a \<in> set (op_audiences pol))"

definition iss_ok :: "OidcPolicy \<Rightarrow> string \<Rightarrow> json \<Rightarrow> bool" where
  "iss_ok pol discovery_issuer claims \<longleftrightarrow>
     (case Option.bind (json_get ''iss'' claims) as_str of
        None \<Rightarrow> op_issuers pol = [] \<and> discovery_issuer = []
      | Some iss \<Rightarrow>
          (if op_issuers pol = [] then discovery_issuer = [] \<or> iss = discovery_issuer
           else iss \<in> set (op_issuers pol)))"

lemma issuer_allowed_iff: "issuer_allowed pol di claims = Inr () \<longleftrightarrow> iss_ok pol di claims"
  by (auto simp: issuer_allowed_def iss_ok_def Let_def split: option.splits if_splits)

lemma bind_as_i64_range: "Option.bind x as_i64 = Some i \<Longrightarrow> - (2 ^ 63) \<le> i \<and> i < 2 ^ 63"
  by (cases x) (auto dest: as_i64_range)

lemma small_u64_wrap: "uint (w :: u64) \<le> 2 ^ 62 \<Longrightarrow> wrap_i64 (uint w) = uint w"
proof (rule wrap_i64_id)
  show "- (2 ^ 63) \<le> uint w" by (rule order_trans [OF _ uint_ge_0]) simp
qed simp

lemma validate_claims_iff:
  assumes skew: "uint (op_clock_skew_seconds pol) \<le> 2 ^ 62" and clock: "uint now < 2 ^ 62"
  shows "validate_claims pol now claims di = Inr () \<longleftrightarrow>
    exp_ok (uint now) (uint (op_clock_skew_seconds pol)) claims
    \<and> nbf_ok (uint now) (uint (op_clock_skew_seconds pol)) claims
    \<and> aud_ok pol claims \<and> iss_ok pol di claims"
proof -
  let ?n = "uint now" and ?l = "uint (op_clock_skew_seconds pol)"
  have n: "wrap_i64 ?n = ?n" and l: "wrap_i64 ?l = ?l" using skew clock by (auto intro: small_u64_wrap)
  have l62: "?l \<le> 2 ^ 62" and n62: "?n < 2 ^ 62" using skew clock by simp_all
  have ec: "wrap_i64 (i + ?l) < ?n \<longleftrightarrow> \<not> (?n \<le> i + ?l \<and> i + ?l < 2 ^ 63)"
    if "Option.bind x as_i64 = Some i" for x i
    using exp_check [of ?l ?n i] bind_as_i64_range [OF that] l62 by auto
  have nc: "?n < wrap_i64 (i - ?l) \<longleftrightarrow> \<not> (i - ?l \<le> ?n \<and> - (2 ^ 63) \<le> i - ?l)"
    if "Option.bind x as_i64 = Some i" for x i
    using nbf_check [of ?l ?n i] bind_as_i64_range [OF that] l62 n62 by auto
  have e: "exp_ok ?n ?l claims \<longleftrightarrow>
      (case Option.bind (json_get ''exp'' claims) as_i64 of None \<Rightarrow> False | Some i \<Rightarrow> \<not> wrap_i64 (i + ?l) < ?n)"
    unfolding exp_ok_def by (auto simp: ec split: option.splits)
  have b: "nbf_ok ?n ?l claims \<longleftrightarrow>
      (case Option.bind (json_get ''nbf'' claims) as_i64 of None \<Rightarrow> True | Some i \<Rightarrow> \<not> ?n < wrap_i64 (i - ?l))"
    unfolding nbf_ok_def by (auto simp: nc split: option.splits)
  have a: "aud_ok pol claims \<longleftrightarrow>
      \<not> (op_audiences pol \<noteq> [] \<and> \<not> list_ex (\<lambda>a. a \<in> set (op_audiences pol)) (extract_audiences claims))"
    by (auto simp: aud_ok_def list_ex_iff)
  show ?thesis
    unfolding e b a validate_claims_def n l Let_def issuer_allowed_iff [symmetric]
    by (auto split: option.splits)
qed

text \<open>
  C30: A token's claims are accepted exactly when \<open>exp\<close> is present and not past beyond the clock skew,
  \<open>nbf\<close> if present is not ahead beyond the skew, one of the audiences is configured (if any are)
  and the issuer is on the allow-list or, without one, the issuer of discovery. A bound that
  leaves the \<open>i64\<close> range, where the release build wraps, refuses the token and never admits it.
\<close>

theorem claim_checks_exact:
  assumes skew: "uint (op_clock_skew_seconds pol) \<le> 2 ^ 62" and clock: "uint now < 2 ^ 62"
  shows "validate_claims pol now claims di = Inr () \<longleftrightarrow>
    exp_ok (uint now) (uint (op_clock_skew_seconds pol)) claims
    \<and> nbf_ok (uint now) (uint (op_clock_skew_seconds pol)) claims
    \<and> aud_ok pol claims \<and> iss_ok pol di claims"
  by (rule validate_claims_iff [OF skew clock])

theorem claim_checks_exact_witness:
  "validate_claims (oidc_from_config default_admin_auth_config) 1000
     (JObject [(''exp'', JNumber ''900''), (''iss'', JString ''https://idp'')]) ''https://idp'' = Inr ()"
proof -
  have "uint (op_clock_skew_seconds (oidc_from_config default_admin_auth_config)) = 120"
    by (simp add: oidc_from_config_def default_admin_auth_config_def)
  then show ?thesis
    by (subst claim_checks_exact)
      (simp_all add: exp_ok_def nbf_ok_def aud_ok_def iss_ok_def oidc_from_config_def
        default_admin_auth_config_def json_get_def int_of_text_def nat_of_digits_def is_ascii_digit_def byte_def)
qed

section \<open>Keys and signatures\<close>

definition cache_ok :: "'k CachedKeys option \<Rightarrow> bool" where
  "cache_ok cache \<longleftrightarrow> (case cache of None \<Rightarrow> True | Some c \<Rightarrow> ck_jwks c \<noteq> [])"

lemmas key_cache_defs = oidc_keys_def needs_refresh_def fetch_and_cache_def cached_answer_def

lemma cached_answer_Inr:
  "cached_answer cache = Inr (jwks, issuer) \<longleftrightarrow>
     (\<exists>c. cache = Some c \<and> jwks = ck_jwks c \<and> issuer = ck_issuer c)"
  by (auto simp: cached_answer_def split: option.splits)

lemma oidc_keys_answer:
  "oidc_keys pol force e cache = (Inr (jwks, issuer), cache', contacted) \<Longrightarrow>
     \<exists>c. cache' = Some c \<and> jwks = ck_jwks c \<and> issuer = ck_issuer c"
  by (auto simp: oidc_keys_def cached_answer_Inr split: if_splits prod.splits sum.splits)

lemma verify_any_Inr: "verify_any check last_err ks = Inr u \<longleftrightarrow> (\<exists>k. k \<in> set ks \<and> check k = Inr ())"
  by (induction ks arbitrary: last_err) (auto split: sum.splits)

lemma verify_with_jwks_Inr:
  "verify_with_jwks lib jwks alg kid m sig = Inr u \<longleftrightarrow>
     (\<exists>k. k \<in> set jwks \<and> key_candidate lib kid k \<and> verify_signature lib k alg m sig = Inr ())"
  by (auto simp: verify_with_jwks_def Let_def verify_any_Inr filter_empty_conv)

lemma parse_token_Inr:
  "parse_token lib pol token = Inr (parts, header, alg) \<Longrightarrow>
     parts = split_on CHR ''.'' token \<and> length parts = 3 \<and> algorithm_policy pol (jh_alg header) = Inr ()
     \<and> parse_alg lib (jh_alg header) = Some alg
     \<and> (\<exists>b. b64_decode lib (parts ! 0) = Inr b \<and> parse_header lib b = Inr header)"
  by (auto simp: parse_token_def Let_def and_then_eq_Inr split: if_splits option.splits)

lemma algorithm_policy_Inr:
  "algorithm_policy pol alg = Inr () \<longleftrightarrow>
     \<not> eq_ignore_ascii_case alg ''none''
     \<and> list_ex (\<lambda>a. eq_ignore_ascii_case a alg)
         (if op_allowed_algorithms pol = [] then DEFAULT_ALLOWED_ALGS else op_allowed_algorithms pol)"
  by (simp add: algorithm_policy_def Let_def)

text \<open>
  What an accepted token has to be, with the key set of the cache left behind. The algorithm: not
  \<open>none\<close> in any case, and one of the configured ones or, without configuration, of the five default
  ones. The audience: the claim \<open>aud\<close> is a configured name or a list that contains one.
\<close>

definition algorithm_allowed :: "OidcPolicy \<Rightarrow> string \<Rightarrow> bool" where
  "algorithm_allowed pol alg \<longleftrightarrow>
     \<not> eq_ignore_ascii_case alg ''none''
     \<and> (\<exists>a. eq_ignore_ascii_case a alg
          \<and> (a \<in> set (op_allowed_algorithms pol)
             \<or> op_allowed_algorithms pol = [] \<and> a \<in> {''RS256'', ''RS384'', ''RS512'', ''ES256'', ''ES384''}))"

definition audience_named :: "OidcPolicy \<Rightarrow> json \<Rightarrow> bool" where
  "audience_named pol claims \<longleftrightarrow>
     op_audiences pol = []
     \<or> (\<exists>a \<in> set (op_audiences pol).
          json_get ''aud'' claims = Some (JString a)
          \<or> (\<exists>arr. json_get ''aud'' claims = Some (JArray arr) \<and> JString a \<in> set arr))"

definition token_verified ::
  "('k, 'a) jose \<Rightarrow> OidcPolicy \<Rightarrow> u64 \<Rightarrow> 'k CachedKeys \<Rightarrow> string \<Rightarrow> OidcClaims \<Rightarrow> bool" where
  "token_verified lib pol now keys token c \<longleftrightarrow>
     (\<exists>h p s hb pb header alg k sig.
        token = h @ ''.'' @ p @ ''.'' @ s \<and> CHR ''.'' \<notin> set h \<and> CHR ''.'' \<notin> set p \<and> CHR ''.'' \<notin> set s
        \<and> b64_decode lib h = Inr hb \<and> parse_header lib hb = Inr header
        \<and> algorithm_allowed pol (jh_alg header) \<and> parse_alg lib (jh_alg header) = Some alg
        \<and> b64_decode lib s = Inr sig
        \<and> k \<in> set (ck_jwks keys) \<and> (jh_kid header = None \<or> key_id lib k \<noteq> None \<and> key_id lib k = jh_kid header)
        \<and> verify_signature lib k alg (h @ ''.'' @ p) sig = Inr ()
        \<and> b64_decode lib p = Inr pb \<and> parse_json lib pb = Inr (oc_claims c)
        \<and> exp_ok (uint now) (uint (op_clock_skew_seconds pol)) (oc_claims c)
        \<and> nbf_ok (uint now) (uint (op_clock_skew_seconds pol)) (oc_claims c)
        \<and> audience_named pol (oc_claims c) \<and> iss_ok pol (ck_issuer keys) (oc_claims c)
        \<and> oc_sub c = Option.bind (json_get ''sub'' (oc_claims c)) as_str
        \<and> oc_iss c = Option.bind (json_get ''iss'' (oc_claims c)) as_str)"

lemma algorithm_policy_allowed: "algorithm_policy pol alg = Inr () \<longleftrightarrow> algorithm_allowed pol alg"
  by (auto simp: algorithm_policy_Inr algorithm_allowed_def DEFAULT_ALLOWED_ALGS_def list_ex_iff)

lemma key_candidate_iff: "key_candidate lib kid k \<longleftrightarrow> kid = None \<or> key_id lib k \<noteq> None \<and> key_id lib k = kid"
  by (auto simp: key_candidate_def split: option.splits)

lemma as_str_iff: "as_str v = Some t \<longleftrightarrow> v = JString t"
  by (cases v) auto

lemma audience_named_iff: "aud_ok pol claims \<longleftrightarrow> audience_named pol claims"
proof -
  have "a \<in> set (List.map_filter as_str arr) \<longleftrightarrow> JString a \<in> set arr" for a arr
    by (induction arr) (auto simp: List.map_filter_simps as_str_iff split: option.splits)
  then have "a \<in> set (extract_audiences claims) \<longleftrightarrow> json_get ''aud'' claims = Some (JString a)
      \<or> (\<exists>arr. json_get ''aud'' claims = Some (JArray arr) \<and> JString a \<in> set arr)" for a
    by (cases "json_get ''aud'' claims"; cases "the (json_get ''aud'' claims)") (auto simp: extract_audiences_def)
  then show ?thesis unfolding aud_ok_def audience_named_def by blast
qed

lemma verified_claims_Inr:
  assumes "verified_claims lib pol now payload di = Inr c"
    and "uint (op_clock_skew_seconds pol) \<le> 2 ^ 62" "uint now < 2 ^ 62"
  shows "(\<exists>pb. b64_decode lib payload = Inr pb \<and> parse_json lib pb = Inr (oc_claims c))
    \<and> exp_ok (uint now) (uint (op_clock_skew_seconds pol)) (oc_claims c)
    \<and> nbf_ok (uint now) (uint (op_clock_skew_seconds pol)) (oc_claims c)
    \<and> audience_named pol (oc_claims c) \<and> iss_ok pol di (oc_claims c)
    \<and> oc_sub c = Option.bind (json_get ''sub'' (oc_claims c)) as_str
    \<and> oc_iss c = Option.bind (json_get ''iss'' (oc_claims c)) as_str"
  using assms(1) unfolding audience_named_iff [symmetric]
  by (auto simp: verified_claims_def and_then_eq_Inr validate_claims_iff [OF assms(2,3)])

lemma three_parts:
  assumes "parts = split_on d token" "length parts = 3"
  shows "token = parts ! 0 @ [d] @ parts ! 1 @ [d] @ parts ! 2"
proof -
  have "token = join_with [d] parts" using assms(1) by (simp add: join_split_on)
  moreover obtain a b c where "parts = [a, b, c]"
    using assms(2) by (auto simp: numeral_3_eq_3 length_Suc_conv)
  ultimately show ?thesis by simp
qed

lemma token_verifiedI:
  assumes parse: "parse_token lib pol token = Inr (parts, header, alg)"
    and sig: "b64_decode lib (parts ! 2) = Inr sig"
    and key: "verify_with_jwks lib (ck_jwks keys) alg (jh_kid header) (parts ! 0 @ ''.'' @ parts ! 1) sig = Inr u"
    and claims: "verified_claims lib pol now (parts ! 1) (ck_issuer keys) = Inr c"
    and range: "uint (op_clock_skew_seconds pol) \<le> 2 ^ 62" "uint now < 2 ^ 62"
  shows "token_verified lib pol now keys token c"
proof -
  from parse_token_Inr [OF parse] obtain hb where p: "parts = split_on CHR ''.'' token" "length parts = 3"
    "algorithm_allowed pol (jh_alg header)" "parse_alg lib (jh_alg header) = Some alg"
    "b64_decode lib (parts ! 0) = Inr hb" "parse_header lib hb = Inr header"
    by (auto simp: algorithm_policy_allowed)
  from key obtain k where k: "k \<in> set (ck_jwks keys)"
    "jh_kid header = None \<or> key_id lib k \<noteq> None \<and> key_id lib k = jh_kid header"
    "verify_signature lib k alg (parts ! 0 @ ''.'' @ parts ! 1) sig = Inr ()"
    unfolding verify_with_jwks_Inr key_candidate_iff by blast
  have dots: "CHR ''.'' \<notin> set (parts ! n)" if "n < 3" for n
    using split_on_no_sep [of "parts ! n" "CHR ''.''" token] p(1,2) that by simp
  note c = verified_claims_Inr [OF claims range]
  from c obtain pb where pb: "b64_decode lib (parts ! 1) = Inr pb" "parse_json lib pb = Inr (oc_claims c)" by blast
  show ?thesis
    unfolding token_verified_def
    by (rule exI [of _ "parts ! 0"], rule exI [of _ "parts ! 1"], rule exI [of _ "parts ! 2"], rule exI [of _ hb],
        rule exI [of _ pb], rule exI [of _ header], rule exI [of _ alg], rule exI [of _ k], rule exI [of _ sig])
      (use three_parts [OF p(1,2)] p(3-6) k dots [of 0] dots [of 1] dots [of 2] sig c pb in simp)
qed

text \<open>
  C17: An OIDC token is accepted only if it has three segments, its header names an algorithm of the
  allow-list and never \<open>none\<close>, in any case of letters, a key of the current key set verifies the
  signature over header and payload, with the key id of the header if that names one, and the claims
  in the payload have an expiry that is not past beyond the clock skew, no not-before ahead of it, a
  configured audience and the allowed issuer; the claims returned are those of the payload. Clock and
  skew are below 2^62 seconds.
\<close>

theorem accepted_token_is_verified:
  assumes acc: "oidc_validate lib pol e cache token = (Inr c, cache')"
    and range: "uint (op_clock_skew_seconds pol) \<le> 2 ^ 62" "uint (oe_now e) < 2 ^ 62"
  shows "\<exists>keys. cache' = Some keys \<and> token_verified lib pol (oe_now e) keys token c"
proof -
  from acc obtain parts header alg where parse: "parse_token lib pol token = Inr (parts, header, alg)"
    by (auto simp: oidc_validate_def split: sum.splits)
  from acc parse obtain jwks issuer cache1 b where
    keys: "oidc_keys pol False (oe_keys e) cache = (Inr (jwks, issuer), cache1, b)"
    by (auto simp: oidc_validate_def split: sum.splits prod.splits)
  from oidc_keys_answer [OF keys] obtain k1 where k1: "cache1 = Some k1" "jwks = ck_jwks k1" "issuer = ck_issuer k1"
    by blast
  from acc parse keys obtain sig where sig: "b64_decode lib (parts ! 2) = Inr sig"
    by (auto simp: oidc_validate_def Let_def with_context_def split: sum.splits)
  show ?thesis
  proof (cases "verify_with_jwks lib jwks alg (jh_kid header) (parts ! 0 @ ''.'' @ parts ! 1) sig")
    case (Inr u)
    then have "verified_claims lib pol (oe_now e) (parts ! 1) issuer = Inr c \<and> cache' = cache1"
      using acc parse keys sig by (simp add: oidc_validate_def Let_def)
    with Inr k1 show ?thesis using token_verifiedI [OF parse sig _ _ range, of k1] by auto
  next
    case (Inl err)
    with acc parse keys sig obtain jwks2 issuer2 cache2 b2 where
      forced: "oidc_keys pol True (oe_forced e) cache1 = (Inr (jwks2, issuer2), cache2, b2)"
      and "cache' = cache2" "verified_claims lib pol (oe_now e) (parts ! 1) issuer2 = Inr c"
      and "is_ok (verify_with_jwks lib jwks2 alg (jh_kid header) (parts ! 0 @ ''.'' @ parts ! 1) sig)"
      by (auto simp: oidc_validate_def Let_def split: VerifyError.splits sum.splits prod.splits)
    moreover obtain k2 where "cache2 = Some k2" "jwks2 = ck_jwks k2" "issuer2 = ck_issuer k2"
      using oidc_keys_answer [OF forced] by blast
    ultimately show ?thesis
      using token_verifiedI [OF parse sig _ _ range, of k2] by (auto simp: is_ok_def split: sum.splits)
  qed
qed

text \<open>A key library for concrete runs: the signature of a token is the name of its key.\<close>

definition sample_jose :: "(string, string) jose" where
  "sample_jose =
     \<lparr>b64_decode = Inr, parse_header = (\<lambda>_. Inr \<lparr>jh_alg = ''RS256'', jh_kid = None\<rparr>),
      parse_json = (\<lambda>_. Inr (JObject [(''exp'', JNumber ''900''), (''sub'', JString ''alice''),
                                      (''iss'', JString ''idp'')])),
      parse_alg = Some, key_id = (\<lambda>_. None),
      verify_signature = (\<lambda>k a m s. if s = k then Inr () else Inl ''mismatch'')\<rparr>"

definition sample_policy :: OidcPolicy where
  "sample_policy = oidc_from_config default_admin_auth_config"

definition sample_refresh :: "string key_refresh_env" where
  "sample_refresh =
     \<lparr>re_checked = 5, re_meanwhile = None, re_locked = 6, re_discovered = Inr ([''key''], ''idp''), re_stored = 7\<rparr>"

definition sample_oidc_env :: "string oidc_env" where
  "sample_oidc_env = \<lparr>oe_keys = sample_refresh, oe_forced = sample_refresh, oe_now = 1000\<rparr>"

lemma sample_simps [simp]:
  "b64_decode sample_jose = Inr"
  "parse_header sample_jose = (\<lambda>_. Inr \<lparr>jh_alg = ''RS256'', jh_kid = None\<rparr>)"
  "parse_json sample_jose =
     (\<lambda>_. Inr (JObject [(''exp'', JNumber ''900''), (''sub'', JString ''alice''), (''iss'', JString ''idp'')]))"
  "parse_alg sample_jose = Some"
  "key_id sample_jose = (\<lambda>_. None)"
  "verify_signature sample_jose = (\<lambda>k a m s. if s = k then Inr () else Inl ''mismatch'')"
  "oe_keys sample_oidc_env = sample_refresh"
  "oe_now sample_oidc_env = 1000"
  by (simp_all add: sample_jose_def sample_oidc_env_def)

lemmas sample_defs = sample_policy_def sample_refresh_def
  oidc_from_config_def default_admin_auth_config_def

lemma sample_claims_ok:
  "validate_claims sample_policy 1000 (JObject [(''exp'', JNumber ''900''), (''sub'', JString ''alice''),
     (''iss'', JString ''idp'')]) ''idp'' = Inr ()"
  by (simp add: sample_defs validate_claims_def Let_def wrap_i64_def json_get_def int_of_text_def
      nat_of_digits_def is_ascii_digit_def byte_def issuer_allowed_def)

lemma sample_keys:
  "oidc_keys sample_policy False sample_refresh None =
     (Inr ([''key''], ''idp''), Some \<lparr>ck_jwks = [''key''], ck_issuer = ''idp'', ck_fetched_at = 7\<rparr>, True)"
  by (simp add: sample_refresh_def key_cache_defs)

lemma sample_parse:
  "parse_token sample_jose sample_policy ''h.p.key'' =
     Inr ([''h'', ''p'', ''key''], \<lparr>jh_alg = ''RS256'', jh_kid = None\<rparr>, ''RS256'')"
  by (simp add: parse_token_def sample_defs algorithm_policy_def DEFAULT_ALLOWED_ALGS_def
      eq_ignore_ascii_case_def to_ascii_lowercase_def to_ascii_lowercase_char_def byte_def)

lemma sample_validate:
  "oidc_validate sample_jose sample_policy sample_oidc_env None ''h.p.key'' =
     (Inr \<lparr>oc_sub = Some ''alice'', oc_iss = Some ''idp'',
           oc_claims = JObject [(''exp'', JNumber ''900''), (''sub'', JString ''alice''), (''iss'', JString ''idp'')]\<rparr>,
      Some \<lparr>ck_jwks = [''key''], ck_issuer = ''idp'', ck_fetched_at = 7\<rparr>)"
  using sample_claims_ok
  by (simp add: oidc_validate_def sample_parse sample_keys verify_with_jwks_def
      key_candidate_def verified_claims_def json_get_def)

theorem accepted_token_is_verified_witness:
  "\<exists>keys c. snd (oidc_validate sample_jose sample_policy sample_oidc_env None ''h.p.key'') = Some keys
     \<and> token_verified sample_jose sample_policy 1000 keys ''h.p.key'' c"
proof -
  have "uint (op_clock_skew_seconds sample_policy) \<le> 2 ^ 62"
    by (simp add: sample_policy_def oidc_from_config_def default_admin_auth_config_def)
  from accepted_token_is_verified [OF sample_validate this] show ?thesis by (auto simp: sample_validate)
qed

text \<open>
  The key cache. A warm cache always answers, with a non-empty key set, whether discovery fails or
  not; no key set the cache comes to hold is empty; and the provider is contacted only when the
  last successful refresh lies the minimum interval back or there was none.
\<close>

theorem key_cache_contract:
  assumes ok: "cache_ok cache" "cache_ok (re_meanwhile e)"
    and r: "oidc_keys pol force e cache = (answer, cache', contacted)"
  shows "cache_ok cache'
    \<and> (cache \<noteq> None \<longrightarrow> (\<exists>jwks issuer. answer = Inr (jwks, issuer) \<and> jwks \<noteq> []))
    \<and> (contacted \<longrightarrow>
         (case (case re_meanwhile e of None \<Rightarrow> cache | Some c \<Rightarrow> Some c) of
            None \<Rightarrow> True | Some c \<Rightarrow> op_min_refresh_interval pol \<le> elapsed (re_locked e) (ck_fetched_at c)))"
proof -
  consider (kept) "\<not> needs_refresh pol force (re_checked e) cache"
    | (refreshed) "needs_refresh pol force (re_checked e) cache" by blast
  then show ?thesis
  proof cases
    case kept
    with r have "answer = cached_answer cache \<and> cache' = cache \<and> \<not> contacted" by (auto simp: oidc_keys_def)
    with ok kept show ?thesis by (auto simp: cached_answer_def cache_ok_def needs_refresh_def split: option.splits)
  next
    case refreshed
    with r ok show ?thesis
      by (auto simp: oidc_keys_def fetch_and_cache_def cached_answer_def cache_ok_def Let_def
          split: option.splits sum.splits if_splits prod.splits)
  qed
qed

theorem key_cache_contract_witness:
  "cache_ok (fst (snd (oidc_keys sample_policy True
     \<lparr>re_checked = 20000000000, re_meanwhile = None, re_locked = 20000000000, re_discovered = Inl ''down'',
      re_stored = 0\<rparr>
     (Some \<lparr>ck_jwks = [''key''], ck_issuer = ''idp'', ck_fetched_at = 7\<rparr>))))"
proof -
  let ?e = "\<lparr>re_checked = 20000000000, re_meanwhile = None, re_locked = 20000000000,
    re_discovered = Inl ''down'', re_stored = 0\<rparr> :: string key_refresh_env"
  let ?c = "Some \<lparr>ck_jwks = [''key''], ck_issuer = ''idp'', ck_fetched_at = 7\<rparr> :: string CachedKeys option"
  obtain a c b where r: "oidc_keys sample_policy True ?e ?c = (a, c, b)" by (metis prod_cases3)
  show ?thesis using key_cache_contract [OF _ _ r] by (simp add: r cache_ok_def)
qed

text \<open>
  A refresh that fails is not remembered: while discovery is down and the cache cold, every
  request contacts the provider again, whatever the minimum refresh interval.
\<close>

theorem failed_refresh_is_unlimited:
  assumes "re_meanwhile e = None" "re_discovered e = Inl err"
  shows "oidc_keys pol force e None = (Inl (''OIDC discovery/JWKS fetch failed: '' @ err), None, True)"
  using assms by (simp add: key_cache_defs)

theorem failed_refresh_is_unlimited_witness:
  "oidc_keys sample_policy False
     \<lparr>re_checked = 5, re_meanwhile = None, re_locked = 5, re_discovered = Inl ''down'', re_stored = 5\<rparr> None
     = (Inl ''OIDC discovery/JWKS fetch failed: down'', None, True)"
  using failed_refresh_is_unlimited
    [of "\<lparr>re_checked = 5, re_meanwhile = None, re_locked = 5, re_discovered = Inl ''down'', re_stored = 5\<rparr>"
      "''down''" sample_policy False] by simp

section \<open>The life of the authentication state\<close>

text \<open>
  The state as the process has it: built from the configurations, then changed by the late
  installation of local credentials and by requests, which refresh the key cache.
\<close>

inductive auth_state ::
  "(AdminAuthConfig \<Rightarrow> string + unit) \<Rightarrow> (string \<Rightarrow> string) \<Rightarrow> ('k, 'a) jose \<Rightarrow> jwt_lib \<Rightarrow> 'k UnifiedAuthState \<Rightarrow> bool"
  for build hash lib jwt where
  started: "from_configs build hash ac lc req = Inr st \<Longrightarrow> auth_state build hash lib jwt st"
| installed: "auth_state build hash lib jwt st \<Longrightarrow> auth_state build hash lib jwt (update_local l st)"
| served: "auth_state build hash lib jwt st \<Longrightarrow> unified_auth_middleware lib jwt e st rq = (r, st')
    \<Longrightarrow> auth_state build hash lib jwt st'"

lemma admin_auth_validate_skips:
  "admin_auth_validate c = None \<Longrightarrow> ac_enabled c \<Longrightarrow> list_all is_skip_allowlisted (ac_skip_paths c)"
  by (auto simp: admin_auth_validate_def skip_path_is_allowlisted_def list_ex_iff list_all_iff split: if_splits)

lemma local_auth_validate_skips:
  "local_auth_validate c = None \<Longrightarrow> lc_enabled c \<Longrightarrow> list_all is_skip_allowlisted (lc_skip_paths c)"
  by (auto simp: local_auth_validate_def skip_path_is_allowlisted_def list_ex_iff list_all_iff split: if_splits)

lemma oidc_from_configs_skips:
  "oidc_from_configs build ac = Inr (oidc, skips) \<Longrightarrow> list_all is_skip_allowlisted skips"
  by (auto simp: oidc_from_configs_def and_then_eq_Inr admin_auth_validate_skips split: option.splits if_splits)

lemma local_from_configs_skips:
  "local_from_configs hash lc = Inr (local, skips) \<Longrightarrow> list_all is_skip_allowlisted skips"
  by (auto simp: local_from_configs_def local_auth_validate_skips split: option.splits if_splits)

definition skips_public :: "'k UnifiedAuthState \<Rightarrow> bool" where
  "skips_public st \<longleftrightarrow>
     list_all (\<lambda>p. is_skip_allowlisted p \<or> is_public_discovery_endpoint p) (us_skip_paths st)"

lemma from_configs_skips: "from_configs build hash ac lc req = Inr st \<Longrightarrow> skips_public st"
  by (auto simp: from_configs_def and_then_eq_Inr skips_public_def list_all_iff is_skip_allowlisted_def
      is_public_probe_def is_public_discovery_endpoint_def
      dest!: oidc_from_configs_skips local_from_configs_skips)

lemma middleware_keeps:
  assumes "unified_auth_middleware lib jwt e st rq = (r, st')"
  shows "us_skip_paths st' = us_skip_paths st \<and> us_local st' = us_local st
    \<and> us_require_auth st' = us_require_auth st"
proof -
  have "us_skip_paths (snd (try_providers lib jwt e st t)) = us_skip_paths st
      \<and> us_local (snd (try_providers lib jwt e st t)) = us_local st
      \<and> us_require_auth (snd (try_providers lib jwt e st t)) = us_require_auth st" for t
    by (auto simp: try_providers_def split: option.splits prod.splits sum.splits)
  with assms show ?thesis
    by (auto simp: unified_auth_middleware_def Let_def split: if_splits option.splits) (metis snd_conv)+
qed

lemma auth_state_skips: "auth_state build hash lib jwt st \<Longrightarrow> skips_public st"
proof (induction rule: auth_state.induct)
  case (started ac lc req st)
  then show ?case by (rule from_configs_skips)
next
  case (installed st l)
  then show ?case by (simp add: update_local_def skips_public_def)
next
  case (served st e rq r st')
  with middleware_keeps [OF served(2)] show ?case by (simp add: skips_public_def)
qed

text \<open>The claims a layer handed on were established by one of the two validations.\<close>

definition claims_established ::
  "('k, 'a) jose \<Rightarrow> jwt_lib \<Rightarrow> 'k oidc_env \<Rightarrow> 'k UnifiedAuthState \<Rightarrow> string \<Rightarrow> UnifiedAuthClaims \<Rightarrow> bool" where
  "claims_established lib jwt e st token claims \<longleftrightarrow>
     (\<exists>oidc. us_oidc st = Some oidc \<and> fst (try_oidc_validation lib e oidc token) = Inr claims)
     \<or> (\<exists>l. us_local st = Some l \<and> try_local_validation jwt (oe_now e) l token = Inr claims)"

lemma try_local_RunNext:
  "try_local jwt now local token = RunNext c \<longleftrightarrow>
     (\<exists>l claims. local = Some l \<and> try_local_validation jwt now l token = Inr claims \<and> c = Some claims)"
  by (auto simp: try_local_def split: option.splits sum.splits)

lemma try_providers_RunNext:
  assumes "try_providers lib jwt e st token = (RunNext c, st')"
  shows "\<exists>claims. c = Some claims \<and> claims_established lib jwt e st token claims"
  using assms unfolding try_providers_def claims_established_def
  by (force simp: try_local_RunNext split: option.splits prod.splits sum.splits)

lemma try_oidc_fst:
  "fst (try_oidc_validation lib e st token) =
     and_then (fst (oidc_validate lib (am_policy st) e (am_cache st) token)) (oidc_identity (am_groups_claim st))"
  by (simp add: try_oidc_validation_def case_prod_beta)

lemma oidc_identity_Inr:
  "oidc_identity gc oc = Inr claims \<Longrightarrow> uc_provider claims = Oidc \<and> uc_sub claims = oc_sub oc \<and> oc_sub oc \<noteq> None
     \<and> uc_iss claims = oc_iss oc \<and> (\<exists>iss. oc_iss oc = Some iss \<and> iss \<noteq> [])"
  by (auto simp: oidc_identity_def and_then_eq_Inr validated_identity_claim_def split: option.splits if_splits)

lemma try_local_validation_Inr:
  "try_local_validation jwt now l token = Inr claims \<Longrightarrow> uc_provider claims = Local \<and> uc_sub claims \<noteq> None
     \<and> uc_iss claims = None \<and> uc_groups claims = []"
  by (auto simp: try_local_validation_def and_then_eq_Inr)

lemma established_subject:
  "claims_established lib jwt e st token claims \<Longrightarrow> \<exists>s. uc_sub claims = Some s"
  unfolding claims_established_def try_oidc_fst
  by (auto simp: and_then_eq_Inr dest!: oidc_identity_Inr try_local_validation_Inr)

lemma protected_path:
  assumes "skips_public st" "\<not> is_skip_allowlisted path" "\<not> is_public_discovery_endpoint path"
  shows "path \<notin> set (us_skip_paths st) \<and> \<not> is_public_auth_endpoint path"
  using assms
  by (auto simp: skips_public_def list_all_iff is_skip_allowlisted_def is_public_auth_endpoint_def
      PUBLIC_AUTH_ENDPOINTS_def AUTH_ENDPOINT_PREFIX_def)

text \<open>
  Whatever the operator configured, a request without the trusted bypass marker whose path is
  neither a probe, nor under \<open>/api/v1/auth/\<close>, nor the discovery endpoint gets past authentication
  only with a token from its Authorization header or cookie that one of the providers
  validated, and then with the claims of that validation, a subject included.
\<close>

theorem protected_requests_carry_claims:
  assumes st: "auth_state build hash lib jwt st"
    and run: "unified_auth_middleware lib jwt e st rq = (RunNext c, st')"
    and path: "\<not> is_skip_allowlisted (rq_path rq)" "\<not> is_public_discovery_endpoint (rq_path rq)"
    and bypass: "\<not> rq_bypass rq"
  shows "\<exists>token claims s. request_token rq = Some token \<and> c = Some claims \<and> uc_sub claims = Some s
    \<and> claims_established lib jwt e st token claims"
proof -
  note p = protected_path [OF auth_state_skips [OF st] path]
  from run p bypass obtain token where t: "request_token rq = Some token"
    and "try_providers lib jwt e st token = (RunNext c, st')"
    by (auto simp: unified_auth_middleware_def Let_def split: if_splits option.splits)
  from try_providers_RunNext [OF this(2)] t established_subject show ?thesis by blast
qed

text \<open>
  Without a ready provider every such request is answered 503 with a retry hint, and a request
  that presents no credential is answered 401.
\<close>

theorem unready_authentication_fails_closed:
  assumes st: "auth_state build hash lib jwt st"
    and path: "\<not> is_skip_allowlisted (rq_path rq)" "\<not> is_public_discovery_endpoint (rq_path rq)"
    and bypass: "\<not> rq_bypass rq"
    and no: "(us_oidc st = None \<and> us_local st = None) \<or> request_token rq = None"
  shows "\<exists>resp. unified_auth_middleware lib jwt e st rq = (Answer resp, st)
    \<and> resp_status resp = (if us_oidc st = None \<and> us_local st = None then 503 else 401)"
  using protected_path [OF auth_state_skips [OF st] path] bypass no
  by (auto simp: unified_auth_middleware_def Let_def initializing_response_def
      build_admin_auth_error_response_def)

definition sample_jwt :: jwt_lib where
  "sample_jwt =
     \<lparr>jwt_decode = (\<lambda>secret now t. if t = ''h.p.s'' \<and> secret = ''signing-key''
                      then Inr \<lparr>la_sub = ''admin'', la_iat = 1000, la_exp = 87400\<rparr> else Inl ''invalid''),
      jwt_encode = (\<lambda>secret c. Inr ''h.p.s''), number_text = (\<lambda>_. ''86400'')\<rparr>"

definition sample_local :: LocalAuthState where
  "sample_local =
     \<lparr>ls_password_hash = ''pw'', ls_dummy_hash = ''dummy'', ls_username = ''admin'',
      ls_jwt_secret = ''signing-key'', ls_jwt_expiry_hours = 24, ls_cookie_secure = True\<rparr>"

definition sample_auth :: "string UnifiedAuthState" where
  "sample_auth =
     \<lparr>us_oidc = None, us_local = Some sample_local,
      us_skip_paths = PUBLIC_PROBE_PATHS @ PUBLIC_DISCOVERY_ENDPOINTS, us_require_auth = True\<rparr>"

definition sample_get :: "string \<Rightarrow> string option \<Rightarrow> http_request" where
  "sample_get path cookie =
     \<lparr>rq_method = GET, rq_path = path, rq_authorization = None, rq_cookie = cookie, rq_bypass = False\<rparr>"

lemma sample_auth_state: "auth_state (\<lambda>_. Inr ()) id lib jwt sample_auth"
proof -
  have "from_configs (\<lambda>_. Inr ()) id None None True = Inr \<lparr>us_oidc = None, us_local = None,
      us_skip_paths = PUBLIC_PROBE_PATHS @ PUBLIC_DISCOVERY_ENDPOINTS, us_require_auth = True\<rparr>"
    by (simp add: from_configs_def oidc_from_configs_def local_from_configs_def)
  then have "auth_state (\<lambda>_. Inr ()) id lib jwt (update_local sample_local \<lparr>us_oidc = None, us_local = None,
      us_skip_paths = PUBLIC_PROBE_PATHS @ PUBLIC_DISCOVERY_ENDPOINTS, us_require_auth = True\<rparr>)"
    by (rule installed [OF started])
  then show ?thesis by (simp add: update_local_def sample_auth_def)
qed

lemma sample_path_protected:
  "\<not> is_skip_allowlisted ''/api/v1/controllers'' \<and> \<not> is_public_discovery_endpoint ''/api/v1/controllers''"
  by (simp add: is_skip_allowlisted_def public_defs)

lemma sample_no_token: "request_token (sample_get path None) = None"
  by (simp add: request_token_def extract_bearer_token_def extract_cookie_token_def sample_get_def)

theorem unready_authentication_fails_closed_witness:
  "\<exists>resp. unified_auth_middleware sample_jose sample_jwt sample_oidc_env sample_auth
       (sample_get ''/api/v1/controllers'' None) = (Answer resp, sample_auth) \<and> resp_status resp = 401"
  using unready_authentication_fails_closed [OF sample_auth_state, of "sample_get ''/api/v1/controllers'' None"]
    sample_path_protected sample_no_token
  by (simp add: sample_get_def sample_auth_def)

section \<open>Logins\<close>

text \<open>A compact token: visible characters, none of them the cookie separator.\<close>

definition token_text :: "string \<Rightarrow> bool" where
  "token_text t \<longleftrightarrow> t \<noteq> [] \<and> list_all (\<lambda>c. graphic c \<and> c \<noteq> CHR '';'') t"

definition presents :: "http_request \<Rightarrow> string \<Rightarrow> bool" where
  "presents rq t \<longleftrightarrow>
     rq_authorization rq = Some (''Bearer '' @ t)
     \<or> (rq_authorization rq = None \<and> rq_cookie rq = Some (''edgion_token='' @ t))"

lemma header_to_str_graphic: "list_all (\<lambda>c. graphic c \<or> c = CHR '' '') v \<Longrightarrow> header_to_str v = Some v"
proof -
  have "graphic c \<or> c = CHR '' '' \<Longrightarrow> byte c = 9 \<or> (32 \<le> byte c \<and> byte c < 127)" for c
    by (auto simp: graphic_def byte_def)
  then show "list_all (\<lambda>c. graphic c \<or> c = CHR '' '') v \<Longrightarrow> header_to_str v = Some v"
    unfolding header_to_str_def list_all_iff by meson
qed

lemma token_text_graphic: "token_text t \<Longrightarrow> list_all graphic t"
  unfolding token_text_def list_all_iff by blast

lemma header_literals:
  "list_all graphic ''edgion_token=''" "list_all (\<lambda>c. graphic c \<or> c = CHR '' '') ''Bearer ''"
  by (simp_all add: graphic_def byte_def)

lemma header_to_str_prefix:
  assumes "token_text t"
  shows "header_to_str (''Bearer '' @ t) = Some (''Bearer '' @ t)"
    and "header_to_str (''edgion_token='' @ t) = Some (''edgion_token='' @ t)"
proof -
  have t: "list_all (\<lambda>c. graphic c \<or> c = CHR '' '') t"
    using token_text_graphic [OF assms] by (rule list.pred_mono_strong) simp
  have l: "list_all (\<lambda>c. graphic c \<or> c = CHR '' '') ''edgion_token=''"
    using header_literals(1) by (rule list.pred_mono_strong) simp
  show "header_to_str (''Bearer '' @ t) = Some (''Bearer '' @ t)"
    by (rule header_to_str_graphic) (use t header_literals(2) in \<open>simp only: list_all_append simp_thms\<close>)
  show "header_to_str (''edgion_token='' @ t) = Some (''edgion_token='' @ t)"
    by (rule header_to_str_graphic) (use t l in \<open>simp only: list_all_append simp_thms\<close>)
qed

lemma cookie_token:
  assumes "token_text t"
  shows "first_token_cookie (split_on CHR '';'' (''edgion_token='' @ t)) = Some t"
proof -
  have "CHR '';'' \<notin> set (''edgion_token='' @ t)" using assms by (auto simp: token_text_def list_all_iff)
  then have "split_on CHR '';'' (''edgion_token='' @ t) = [''edgion_token='' @ t]" by (rule split_on_single)
  moreover have "list_all graphic (''edgion_token='' @ t)"
    using header_literals(1) token_text_graphic [OF assms] by (simp only: list_all_append simp_thms)
  then have "trim (''edgion_token='' @ t) = ''edgion_token='' @ t" by (rule trim_graphic)
  ultimately show ?thesis using assms by (simp add: token_text_def)
qed

lemma request_token_presented:
  assumes "token_text t" "presents rq t"
  shows "request_token rq = Some t"
proof (cases "rq_authorization rq")
  case (Some a)
  with assms(2) have a: "a = ''Bearer '' @ t" by (simp add: presents_def)
  have t: "0 < length t" using assms(1) by (simp add: token_text_def)
  have bearer: "eq_ignore_ascii_case ''Bearer '' ''bearer ''"
    by code_simp
  have "extract_bearer_token rq = Some t"
    using Some a t bearer header_to_str_prefix(1) [OF assms(1)]
    by (simp add: extract_bearer_token_def)
  then show ?thesis by (simp add: request_token_def)
next
  case None
  then show ?thesis
    using assms(2) cookie_token [OF assms(1)] header_to_str_prefix(2) [OF assms(1)]
    by (simp add: presents_def request_token_def extract_bearer_token_def extract_cookie_token_def)
qed

lemma verify_single_admin_iff:
  "verify_single_admin bcrypt l u p \<longleftrightarrow> u = ls_username l \<and> bcrypt p (ls_password_hash l) = Inr True"
  by (auto simp: verify_single_admin_def Let_def split: sum.splits)

lemma issue_login_ok:
  "resp_status (issue_login_response jwt now l u) = 200 \<longleftrightarrow>
     is_ok (jwt_encode jwt (ls_jwt_secret l) (local_claims l now u))"
  by (auto simp: issue_login_response_def Let_def is_ok_def split: sum.splits)

text \<open>
  The login of database users and of the administrator succeeds exactly when the credential is
  that of an active row, or the administrator is enabled and its name and password match, and the
  token could be signed. In particular a disabled row does not disable the administrator, and a
  failed query never lets anyone in.
\<close>

theorem unified_login_exact:
  "resp_status (unified_login_handler bcrypt jwt db_panics panics now st req) = 200 \<longleftrightarrow>
     is_ok (jwt_encode jwt (ls_jwt_secret (ul_local st)) (local_claims (ul_local st) now (lr_username req)))
     \<and> (let db = (case ul_store st of None \<Rightarrow> Inr False
                  | Some query \<Rightarrow> verify_user_credentials bcrypt db_panics (query (lr_username req))
                      (lr_password req) (ls_dummy_hash (ul_local st)))
        in db = Inr True
           \<or> (db = Inr False \<and> ul_single_admin_enabled st \<and> \<not> panics
              \<and> lr_username req = ls_username (ul_local st)
              \<and> bcrypt (lr_password req) (ls_password_hash (ul_local st)) = Inr True))"
  by (auto simp: unified_login_handler_def single_admin_login_def invalid_credentials_def
      internal_auth_error_def issue_login_ok verify_single_admin_iff Let_def
      split: option.splits sum.splits bool.splits)

text \<open>
  C36: A login round trip. The token that a successful login returns, presented later as bearer header
  or as the cookie, authenticates as the administrator until it expires, on every path, unless
  OIDC itself accepts that text.
\<close>

theorem login_token_authenticates:
  assumes local: "us_local st = Some l"
    and ok: "resp_status (login_handler bcrypt jwt panics now st req) = 200"
    and lib: "\<forall>t. jwt_encode jwt (ls_jwt_secret l) (local_claims l now (ls_username l)) = Inr t \<longrightarrow>
      token_text t \<and> (\<forall>n. n \<le> la_exp (local_claims l now (ls_username l)) \<longrightarrow>
        jwt_decode jwt (ls_jwt_secret l) n t = Inr (local_claims l now (ls_username l)))"
  shows "\<exists>t. json_pointer [''data'', ''token''] (resp_body (login_handler bcrypt jwt panics now st req)) = Some (JString t)
    \<and> (\<forall>rq lib' e. presents rq t \<longrightarrow> oe_now e \<le> la_exp (local_claims l now (ls_username l)) \<longrightarrow>
         \<not> is_ok (case us_oidc st of None \<Rightarrow> Inl [] | Some oidc \<Rightarrow> fst (try_oidc_validation lib' e oidc t)) \<longrightarrow>
         rq_path rq \<notin> set (us_skip_paths st) \<longrightarrow> \<not> is_public_auth_endpoint (rq_path rq) \<longrightarrow> \<not> rq_bypass rq \<longrightarrow>
         (\<exists>claims. fst (unified_auth_middleware lib' jwt e st rq) = RunNext (Some claims)
            \<and> uc_provider claims = Local \<and> uc_sub claims = Some (ls_username l)))"
proof -
  let ?c = "local_claims l now (ls_username l)"
  from ok local have login: "login_handler bcrypt jwt panics now st req = issue_login_response jwt now l (ls_username l)"
    by (auto simp: login_handler_def internal_auth_error_def invalid_credentials_def split: if_splits)
  with ok obtain t where t: "jwt_encode jwt (ls_jwt_secret l) ?c = Inr t"
    by (auto simp: issue_login_ok is_ok_def split: sum.splits)
  with lib have tt: "token_text t" and dec: "\<And>n. n \<le> la_exp ?c \<Longrightarrow> jwt_decode jwt (ls_jwt_secret l) n t = Inr ?c"
    by blast+
  have "json_pointer [''data'', ''token''] (resp_body (login_handler bcrypt jwt panics now st req)) = Some (JString t)"
    by (simp add: login issue_login_response_def Let_def t ok_body_def json_get_def)
  moreover have "\<exists>claims. fst (unified_auth_middleware lib' jwt e st rq) = RunNext (Some claims)
      \<and> uc_provider claims = Local \<and> uc_sub claims = Some (ls_username l)"
    if rq: "presents rq t" "oe_now e \<le> la_exp ?c"
      "\<not> is_ok (case us_oidc st of None \<Rightarrow> Inl [] | Some oidc \<Rightarrow> fst (try_oidc_validation lib' e oidc t))"
      "rq_path rq \<notin> set (us_skip_paths st)" "\<not> is_public_auth_endpoint (rq_path rq)" "\<not> rq_bypass rq"
    for rq lib' e
  proof -
    from dec [OF rq(2)] obtain claims where
      v: "try_local_validation jwt (oe_now e) l t = Inr claims" "uc_provider claims = Local"
        "uc_sub claims = Some (ls_username l)"
      by (simp add: try_local_validation_def local_claims_def)
    from rq(3) v(1) local have "fst (try_providers lib' jwt e st t) = RunNext (Some claims)"
      by (auto simp: try_providers_def try_local_RunNext is_ok_def split: option.splits prod.splits sum.splits)
    with v(2,3) rq(4-6) request_token_presented [OF tt rq(1)] local show ?thesis
      by (auto simp: unified_auth_middleware_def Let_def)
  qed
  ultimately show ?thesis by blast
qed

definition sample_bcrypt :: "string \<Rightarrow> string \<Rightarrow> string + bool" where
  "sample_bcrypt p h = Inr (p = h)"

definition sample_login :: LoginRequest where
  "sample_login = \<lparr>lr_username = ''admin'', lr_password = ''pw''\<rparr>"

lemma sample_claims: "local_claims sample_local 1000 ''admin'' = \<lparr>la_sub = ''admin'', la_iat = 1000, la_exp = 87400\<rparr>"
  by (simp add: local_claims_def sample_local_def)

lemma sample_token_text: "token_text ''h.p.s''"
  by (simp add: token_text_def graphic_def byte_def)

lemma sample_jwt_simps [simp]:
  "jwt_encode sample_jwt secret c = Inr ''h.p.s''"
  "jwt_decode sample_jwt ''signing-key'' now ''h.p.s'' = Inr \<lparr>la_sub = ''admin'', la_iat = 1000, la_exp = 87400\<rparr>"
  "ls_jwt_secret sample_local = ''signing-key''" "ls_username sample_local = ''admin''"
  by (simp_all add: sample_jwt_def sample_local_def)

lemma sample_login_ok: "resp_status (login_handler sample_bcrypt sample_jwt False 1000 sample_auth sample_login) = 200"
  by (simp add: login_handler_def sample_auth_def sample_login_def sample_bcrypt_def verify_single_admin_iff
      issue_login_ok) (simp add: sample_local_def)

lemma sample_presents: "presents (sample_get path (Some ''edgion_token=h.p.s'')) ''h.p.s''"
  by (simp add: presents_def sample_get_def)

theorem login_token_authenticates_witness:
  "\<exists>claims. fst (unified_auth_middleware sample_jose sample_jwt sample_oidc_env sample_auth
      (sample_get ''/api/v1/controllers'' (Some ''edgion_token=h.p.s''))) = RunNext (Some claims)
    \<and> uc_provider claims = Local \<and> uc_sub claims = Some ''admin''"
proof -
  have l: "us_local sample_auth = Some sample_local" "us_oidc sample_auth = None" by (simp_all add: sample_auth_def)
  have lib: "\<forall>t. jwt_encode sample_jwt (ls_jwt_secret sample_local) (local_claims sample_local 1000 (ls_username sample_local)) = Inr t \<longrightarrow>
      token_text t \<and> (\<forall>n. n \<le> la_exp (local_claims sample_local 1000 (ls_username sample_local)) \<longrightarrow>
        jwt_decode sample_jwt (ls_jwt_secret sample_local) n t = Inr (local_claims sample_local 1000 (ls_username sample_local)))"
    by (simp add: sample_claims sample_token_text)
  have tok: "json_pointer [''data'', ''token'']
      (resp_body (login_handler sample_bcrypt sample_jwt False 1000 sample_auth sample_login)) = Some (JString t)
      \<Longrightarrow> t = ''h.p.s''" for t
    by (simp add: login_handler_def l sample_login_def sample_bcrypt_def verify_single_admin_iff
        issue_login_response_def ok_body_def json_get_def Let_def sample_local_def)
  have path: "''/api/v1/controllers'' \<notin> set (us_skip_paths sample_auth)"
    "\<not> is_public_auth_endpoint ''/api/v1/controllers''"
    by (simp_all add: sample_auth_def public_defs)
  from login_token_authenticates [OF l(1) sample_login_ok lib] obtain t where
    t: "json_pointer [''data'', ''token'']
      (resp_body (login_handler sample_bcrypt sample_jwt False 1000 sample_auth sample_login)) = Some (JString t)"
    and run: "\<And>rq (lib' :: (string, string) jose) e. presents rq t \<Longrightarrow>
      oe_now e \<le> la_exp (local_claims sample_local 1000 (ls_username sample_local)) \<Longrightarrow>
      \<not> is_ok (case us_oidc sample_auth of None \<Rightarrow> Inl [] | Some oidc \<Rightarrow> fst (try_oidc_validation lib' e oidc t)) \<Longrightarrow>
      rq_path rq \<notin> set (us_skip_paths sample_auth) \<Longrightarrow> \<not> is_public_auth_endpoint (rq_path rq) \<Longrightarrow> \<not> rq_bypass rq \<Longrightarrow>
      \<exists>claims. fst (unified_auth_middleware lib' sample_jwt e sample_auth rq) = RunNext (Some claims)
        \<and> uc_provider claims = Local \<and> uc_sub claims = Some (ls_username sample_local)" by blast
  from run [of "sample_get ''/api/v1/controllers'' (Some ''edgion_token=h.p.s'')" sample_oidc_env sample_jose]
    tok [OF t] path l show ?thesis
    by (simp add: sample_presents sample_claims) (simp add: sample_get_def)
qed

lemma sample_cookie_run:
  "\<exists>claims st'. unified_auth_middleware sample_jose sample_jwt sample_oidc_env sample_auth
      (sample_get ''/api/v1/controllers'' (Some ''edgion_token=h.p.s'')) = (RunNext (Some claims), st')"
proof -
  have "request_token (sample_get ''/api/v1/controllers'' (Some ''edgion_token=h.p.s'')) = Some ''h.p.s''"
    by (rule request_token_presented [OF sample_token_text sample_presents])
  then show ?thesis
    by (simp add: unified_auth_middleware_def sample_auth_def sample_get_def public_defs try_providers_def
        try_local_def try_local_validation_def)
qed

theorem protected_requests_carry_claims_witness:
  "\<exists>claims s. fst (unified_auth_middleware sample_jose sample_jwt sample_oidc_env sample_auth
      (sample_get ''/api/v1/controllers'' (Some ''edgion_token=h.p.s''))) = RunNext (Some claims)
    \<and> uc_sub claims = Some s"
proof -
  obtain claims st' where run: "unified_auth_middleware sample_jose sample_jwt sample_oidc_env sample_auth
      (sample_get ''/api/v1/controllers'' (Some ''edgion_token=h.p.s'')) = (RunNext (Some claims), st')"
    using sample_cookie_run by blast
  from protected_requests_carry_claims [OF sample_auth_state run] sample_path_protected run
  show ?thesis by (auto simp: sample_get_def)
qed

section \<open>Bounds on an OIDC identity\<close>

lemma collect_groups_bounded:
  assumes "collect_groups vs acc = Inr gs" "distinct acc"
    and "list_all (\<lambda>g. g \<noteq> [] \<and> length g \<le> 256 \<and> \<not> has_control g) acc"
  shows "distinct gs \<and> length gs \<le> length acc + length vs
    \<and> list_all (\<lambda>g. g \<noteq> [] \<and> length g \<le> 256 \<and> \<not> has_control g) gs
    \<and> set gs = set acc \<union> {g. JString g \<in> set vs}"
  using assms
proof (induction vs arbitrary: acc)
  case (Cons v vs)
  from Cons.prems obtain g where g: "v = JString g" "g \<noteq> []" "length g \<le> 256" "\<not> has_control g"
    and r: "collect_groups vs (if g \<in> set acc then acc else acc @ [g]) = Inr gs"
    by (auto split: option.splits if_splits)
  from Cons.IH [OF r] Cons.prems(2,3) g show ?case by (auto split: if_splits)
qed simp

text \<open>
  The identity of an accepted OIDC token: subject and issuer are the claims, within 255 and 2048
  bytes and free of control characters; the groups are exactly the strings of the group claim,
  without repetition, at most 256 of at most 256 bytes each.
\<close>

theorem oidc_identity_bounded:
  assumes "oidc_identity groups_claim oc = Inr claims"
  shows "(\<exists>s i. oc_sub oc = Some s \<and> uc_sub claims = Some s \<and> oc_iss oc = Some i \<and> uc_iss claims = Some i
      \<and> s \<noteq> [] \<and> length s \<le> 255 \<and> \<not> has_control s \<and> i \<noteq> [] \<and> length i \<le> 2048 \<and> \<not> has_control i)
    \<and> distinct (uc_groups claims) \<and> length (uc_groups claims) \<le> 256
    \<and> list_all (\<lambda>g. g \<noteq> [] \<and> length g \<le> 256 \<and> \<not> has_control g) (uc_groups claims)
    \<and> set (uc_groups claims) =
        {g. \<exists>vs. json_get groups_claim (oc_claims oc) = Some (JArray vs) \<and> JString g \<in> set vs}"
proof -
  from assms obtain s i gs where si: "validated_identity_claim ''sub'' (oc_sub oc) 255 = Inr s"
    "validated_identity_claim ''iss'' (oc_iss oc) 2048 = Inr i"
    and gs: "extract_validated_groups (oc_claims oc) groups_claim = Inr gs"
    and c: "uc_sub claims = Some s" "uc_iss claims = Some i" "uc_groups claims = gs"
    by (auto simp: oidc_identity_def and_then_eq_Inr)
  from gs have "distinct gs \<and> length gs \<le> 256
    \<and> list_all (\<lambda>g. g \<noteq> [] \<and> length g \<le> 256 \<and> \<not> has_control g) gs
    \<and> set gs = {g. \<exists>vs. json_get groups_claim (oc_claims oc) = Some (JArray vs) \<and> JString g \<in> set vs}"
    using collect_groups_bounded [of _ "[]" gs]
    by (fastforce simp: extract_validated_groups_def split: option.splits json.splits if_splits)
  with si c show ?thesis
    by (auto simp: validated_identity_claim_def split: option.splits if_splits)
qed

theorem oidc_identity_bounded_witness:
  "distinct (uc_groups (projr (oidc_identity ''groups'' \<lparr>oc_sub = Some ''a'', oc_iss = Some ''i'',
     oc_claims = JObject [(''groups'', JArray [JString ''ops'', JString ''dev'', JString ''ops''])]\<rparr>)))"
proof -
  have "\<exists>claims. oidc_identity ''groups'' \<lparr>oc_sub = Some ''a'', oc_iss = Some ''i'',
     oc_claims = JObject [(''groups'', JArray [JString ''ops'', JString ''dev'', JString ''ops''])]\<rparr> = Inr claims"
    by (simp add: oidc_identity_def validated_identity_claim_def extract_validated_groups_def json_get_def byte_def)
  then show ?thesis using oidc_identity_bounded by fastforce
qed

end
