(* ===== verification/Authz.thy ===== *)
theory Authz
  imports Authn Controller_Core Controller_Directory
begin

text \<open>
  Authorisation of the Admin API: the permission catalogue with the map from requests to
  permission keys (\<open>center-app/src/common/authz/catalog.rs\<close>), the middleware that asks the
  installed policy (\<open>authz/middleware.rs\<close>), and the two policies whose code is pure:
  \<open>AllowAllAuthorizer\<close> (\<open>center-core/src/authz.rs\<close>) and the Kubernetes SubjectAccessReview
  policy (\<open>center-adapter-kubernetes/src/sar.rs\<close>). The policy is a record of its two operations;
  within one request the middleware never asks the same question twice, so a function of the
  action gives every sequence of answers. The middleware returns the actions it asked about
  beside what it does. The API server and the percent decoder are parameters.
\<close>

section \<open>Permission keys\<close>

definition CONTROLLERS_READ :: string where "CONTROLLERS_READ = ''controllers:read''"
definition CONTROLLERS_WRITE :: string where "CONTROLLERS_WRITE = ''controllers:write''"
definition REGION_ROUTES_READ :: string where "REGION_ROUTES_READ = ''region-routes:read''"
definition REGION_ROUTES_WRITE :: string where "REGION_ROUTES_WRITE = ''region-routes:write''"
definition GLOBAL_RESOURCES_READ :: string where "GLOBAL_RESOURCES_READ = ''global-resources:read''"
definition AUDIT_READ :: string where "AUDIT_READ = ''audit:read''"
definition SERVER_READ :: string where "SERVER_READ = ''server:read''"
definition PROXY_READ :: string where "PROXY_READ = ''proxy:read''"
definition PROXY_WRITE :: string where "PROXY_WRITE = ''proxy:write''"
definition USERS_MANAGE :: string where "USERS_MANAGE = ''users:manage''"
definition ROLES_MANAGE :: string where "ROLES_MANAGE = ''roles:manage''"
definition CLOUDFLARE_DNS_READ :: string where "CLOUDFLARE_DNS_READ = ''cloudflare-dns:read''"
definition CLOUDFLARE_DNS_WRITE :: string where "CLOUDFLARE_DNS_WRITE = ''cloudflare-dns:write''"
definition CLOUDFLARE_DNS_REMOTE_WRITE :: string where
  "CLOUDFLARE_DNS_REMOTE_WRITE = ''cloudflare-dns:remote-write''"
definition ROUTE53_DNS_READ :: string where "ROUTE53_DNS_READ = ''route53-dns:read''"
definition ROUTE53_DNS_WRITE :: string where "ROUTE53_DNS_WRITE = ''route53-dns:write''"
definition ROUTE53_ZONES_WRITE :: string where "ROUTE53_ZONES_WRITE = ''route53-zones:write''"
definition PROVIDER_ACCOUNTS_READ :: string where "PROVIDER_ACCOUNTS_READ = ''provider-accounts:read''"
definition PROVIDER_ACCOUNTS_WRITE :: string where "PROVIDER_ACCOUNTS_WRITE = ''provider-accounts:write''"
definition PROVIDER_CREDENTIALS_USE :: string where
  "PROVIDER_CREDENTIALS_USE = ''provider-credentials:use''"
definition PROVIDER_CAPABILITIES_READ :: string where
  "PROVIDER_CAPABILITIES_READ = ''provider-capabilities:read''"
definition PROVIDER_CREDENTIALS_INSPECT :: string where
  "PROVIDER_CREDENTIALS_INSPECT = ''provider-credentials:inspect''"

lemmas key_defs =
  CONTROLLERS_READ_def CONTROLLERS_WRITE_def REGION_ROUTES_READ_def REGION_ROUTES_WRITE_def
  GLOBAL_RESOURCES_READ_def AUDIT_READ_def SERVER_READ_def PROXY_READ_def PROXY_WRITE_def
  USERS_MANAGE_def ROLES_MANAGE_def CLOUDFLARE_DNS_READ_def CLOUDFLARE_DNS_WRITE_def
  CLOUDFLARE_DNS_REMOTE_WRITE_def ROUTE53_DNS_READ_def ROUTE53_DNS_WRITE_def
  ROUTE53_ZONES_WRITE_def PROVIDER_ACCOUNTS_READ_def PROVIDER_ACCOUNTS_WRITE_def
  PROVIDER_CREDENTIALS_USE_def PROVIDER_CAPABILITIES_READ_def PROVIDER_CREDENTIALS_INSPECT_def

definition all_keys :: "string list" where
  "all_keys =
     [CONTROLLERS_READ, CONTROLLERS_WRITE, REGION_ROUTES_READ, REGION_ROUTES_WRITE,
      GLOBAL_RESOURCES_READ, AUDIT_READ, SERVER_READ, PROXY_READ, PROXY_WRITE,
      USERS_MANAGE, ROLES_MANAGE, CLOUDFLARE_DNS_READ, CLOUDFLARE_DNS_WRITE,
      CLOUDFLARE_DNS_REMOTE_WRITE, ROUTE53_DNS_READ, ROUTE53_DNS_WRITE, ROUTE53_ZONES_WRITE,
      PROVIDER_ACCOUNTS_READ, PROVIDER_ACCOUNTS_WRITE, PROVIDER_CREDENTIALS_USE,
      PROVIDER_CAPABILITIES_READ, PROVIDER_CREDENTIALS_INSPECT]"

definition is_known_key :: "string \<Rightarrow> bool" where
  "is_known_key key \<longleftrightarrow> key \<in> set all_keys"

record PermissionGroup =
  group_name :: string
  group_keys :: "string list"

definition catalog_groups :: "PermissionGroup list" where
  "catalog_groups =
     [\<lparr>group_name = ''Controllers'', group_keys = [CONTROLLERS_READ, CONTROLLERS_WRITE]\<rparr>,
      \<lparr>group_name = ''Region Routes'', group_keys = [REGION_ROUTES_READ, REGION_ROUTES_WRITE]\<rparr>,
      \<lparr>group_name = ''Global Resources'', group_keys = [GLOBAL_RESOURCES_READ]\<rparr>,
      \<lparr>group_name = ''Audit'', group_keys = [AUDIT_READ]\<rparr>,
      \<lparr>group_name = ''Server'', group_keys = [SERVER_READ]\<rparr>,
      \<lparr>group_name = ''Proxy'', group_keys = [PROXY_READ, PROXY_WRITE]\<rparr>,
      \<lparr>group_name = ''Access Control'', group_keys = [USERS_MANAGE, ROLES_MANAGE]\<rparr>,
      \<lparr>group_name = ''Cloudflare DNS'',
       group_keys = [CLOUDFLARE_DNS_READ, CLOUDFLARE_DNS_WRITE, CLOUDFLARE_DNS_REMOTE_WRITE]\<rparr>,
      \<lparr>group_name = ''Route 53 DNS'',
       group_keys = [ROUTE53_DNS_READ, ROUTE53_DNS_WRITE, ROUTE53_ZONES_WRITE]\<rparr>,
      \<lparr>group_name = ''Provider Accounts'', group_keys = [PROVIDER_ACCOUNTS_READ, PROVIDER_ACCOUNTS_WRITE]\<rparr>,
      \<lparr>group_name = ''Provider Credentials'',
       group_keys = [PROVIDER_CREDENTIALS_USE, PROVIDER_CREDENTIALS_INSPECT]\<rparr>,
      \<lparr>group_name = ''Provider Capabilities'', group_keys = [PROVIDER_CAPABILITIES_READ]\<rparr>]"

section \<open>From requests to permission keys\<close>

definition is_business_path :: "string \<Rightarrow> bool" where
  "is_business_path path \<longleftrightarrow> starts_with ''/api/v1/'' path \<and> \<not> starts_with ''/api/v1/auth/'' path"

definition under_segment :: "string \<Rightarrow> string \<Rightarrow> bool" where
  "under_segment path base \<longleftrightarrow> path = base \<or> starts_with (base @ ''/'') path"

definition is_cloudflare_remote_control_path :: "string \<Rightarrow> bool" where
  "is_cloudflare_remote_control_path path \<longleftrightarrow>
     (case strip_prefix ''/api/v1/center/cloudflare/dns/accounts/'' path of
        None \<Rightarrow> False
      | Some suffix \<Rightarrow>
          let segments = split_on CHR ''/'' suffix in
          length segments = 6 \<and> list_all (\<lambda>segment. segment \<noteq> []) segments
          \<and> segments ! 1 = ''zones'' \<and> segments ! 3 = ''record-sets'' \<and> segments ! 5 = ''remote-control'')"

datatype Route53DnsRoute = ZoneCollection | Read | RecordDetail | ChangeBatch | ZoneLifecycle

definition route53_segments :: "string list \<Rightarrow> Route53DnsRoute option" where
  "route53_segments segments =
     (if length segments = 2 \<and> segments ! 1 = ''hosted-zones'' then Some ZoneCollection
      else if length segments = 3 \<and> segments ! 1 = ''hosted-zones'' then Some Read
      else if length segments = 4 \<and> segments ! 1 = ''hosted-zones'' \<and> segments ! 3 = ''record-sets''
      then Some Read
      else if length segments = 5 \<and> segments ! 1 = ''hosted-zones'' \<and> segments ! 3 = ''changes''
      then Some Read
      else if length segments = 5 \<and> segments ! 1 = ''hosted-zones'' \<and> segments ! 3 = ''record-sets''
      then Some RecordDetail
      else if length segments = 4 \<and> segments ! 1 = ''hosted-zones'' \<and> segments ! 3 = ''change-batches''
      then Some ChangeBatch
      else if length segments = 4 \<and> segments ! 1 = ''hosted-zones'' \<and> segments ! 3 = ''lifecycle''
      then Some ZoneLifecycle
      else None)"

definition route53_dns_route :: "string \<Rightarrow> Route53DnsRoute option" where
  "route53_dns_route path =
     (case strip_prefix ''/api/v1/center/aws/route53/accounts/'' path of
        None \<Rightarrow> None
      | Some suffix \<Rightarrow>
          let segments = split_on CHR ''/'' suffix in
          if list_ex (\<lambda>segment. segment = []) segments then None else route53_segments segments)"

fun route53_key :: "Route53DnsRoute \<Rightarrow> Method \<Rightarrow> string option" where
  "route53_key ZoneCollection GET = Some ROUTE53_DNS_READ"
| "route53_key Read GET = Some ROUTE53_DNS_READ"
| "route53_key ZoneCollection POST = Some ROUTE53_ZONES_WRITE"
| "route53_key RecordDetail GET = Some ROUTE53_DNS_READ"
| "route53_key RecordDetail PUT = Some ROUTE53_DNS_WRITE"
| "route53_key RecordDetail DELETE = Some ROUTE53_DNS_WRITE"
| "route53_key ChangeBatch POST = Some ROUTE53_DNS_WRITE"
| "route53_key ZoneLifecycle GET = Some ROUTE53_ZONES_WRITE"
| "route53_key ZoneLifecycle POST = Some ROUTE53_ZONES_WRITE"
| "route53_key ZoneLifecycle DELETE = Some ROUTE53_ZONES_WRITE"
| "route53_key _ _ = None"

definition cloudflare_key :: "Method \<Rightarrow> string option" where
  "cloudflare_key m =
     (if m = GET \<or> m = HEAD then Some CLOUDFLARE_DNS_READ
      else if m = POST \<or> m = PUT \<or> m = PATCH \<or> m = DELETE then Some CLOUDFLARE_DNS_WRITE
      else None)"

definition provider_account_key :: "Method \<Rightarrow> string option" where
  "provider_account_key m =
     (if m = GET \<or> m = HEAD then Some PROVIDER_ACCOUNTS_READ
      else if m = POST \<or> m = PUT then Some PROVIDER_ACCOUNTS_WRITE
      else None)"

text \<open>The two guards with an account segment: one non-empty segment, and nothing else.\<close>

definition is_capability_path :: "string \<Rightarrow> bool" where
  "is_capability_path path \<longleftrightarrow>
     (case strip_prefix ''/api/v1/center/cloud/provider-capabilities/accounts/'' path of
        None \<Rightarrow> False
      | Some suffix \<Rightarrow>
          let segments = split_on CHR ''/'' suffix in segments ! 0 \<noteq> [] \<and> length segments = 1)"

definition is_inspection_path :: "string \<Rightarrow> bool" where
  "is_inspection_path path \<longleftrightarrow>
     (case strip_prefix ''/api/v1/center/cloud/provider-credential-inspections/accounts/'' path of
        None \<Rightarrow> False
      | Some suffix \<Rightarrow>
          (case strip_suffix ''/refresh'' suffix of
             None \<Rightarrow> False
           | Some account_id \<Rightarrow> account_id \<noteq> [] \<and> CHR ''/'' \<notin> set account_id))"

definition then_some :: "bool \<Rightarrow> 'a \<Rightarrow> 'a option" where
  "then_some b x = (if b then Some x else None)"

text \<open>The part of \<open>route_permission\<close> after the provider routes: administration, routes, Controllers.\<close>

definition admin_permission :: "Method \<Rightarrow> string \<Rightarrow> string option" where
  "admin_permission m path =
     (let is_read = is_read_method m in
      if path = ''/api/v1/center/admin/audit-logs'' then Some AUDIT_READ
      else if path = ''/api/v1/center/admin/controllers''
              \<or> starts_with ''/api/v1/center/admin/controllers/'' path
      then Some (if is_read then CONTROLLERS_READ else CONTROLLERS_WRITE)
      else if under_segment path ''/api/v1/center/admin/users'' then Some USERS_MANAGE
      else if under_segment path ''/api/v1/center/admin/roles''
              \<or> path = ''/api/v1/center/admin/permission-catalog''
      then Some ROLES_MANAGE
      else if under_segment path ''/api/v1/center/region-route-overrides''
      then Some (if is_read then REGION_ROUTES_READ else REGION_ROUTES_WRITE)
      else if path = ''/api/v1/server-info'' then Some SERVER_READ
      else if path = ''/api/v1/controllers'' \<or> path = ''/api/v1/clusters'' then Some CONTROLLERS_READ
      else if starts_with ''/api/v1/controllers/'' path then Some CONTROLLERS_WRITE
      else None)"

definition route_permission :: "Method \<Rightarrow> string \<Rightarrow> string option" where
  "route_permission m path =
     (let is_read = is_read_method m in
      if path = ''/api/v1/center/global-resources/catalog''
         \<or> under_segment path ''/api/v1/center/global-resources/resources''
      then then_some is_read GLOBAL_RESOURCES_READ
      else if starts_with ''/api/v1/proxy/'' path
      then Some (if is_read then PROXY_READ else PROXY_WRITE)
      else if is_cloudflare_remote_control_path path
      then then_some (m = PUT) CLOUDFLARE_DNS_REMOTE_WRITE
      else if under_segment path ''/api/v1/center/cloudflare/dns'' then cloudflare_key m
      else (case route53_dns_route path of
              Some route \<Rightarrow> route53_key route m
            | None \<Rightarrow>
                if is_capability_path path then then_some is_read PROVIDER_CAPABILITIES_READ
                else if is_inspection_path path then then_some (m = POST) PROVIDER_CREDENTIALS_INSPECT
                else if under_segment path ''/api/v1/center/cloud/provider-accounts''
                then provider_account_key m
                else admin_permission m path))"

section \<open>Principals, actions and policies\<close>

datatype ActionOperation = OpList | OpGet | OpCreate | OpUpdate | OpDelete | OpExecute

record Principal =
  pr_subject :: string
  pr_provider :: string
  pr_issuer :: "string option"
  pr_groups :: "string list"

record Action =
  act_permission :: string
  act_controller_id :: "string option"
  act_operation :: "ActionOperation option"
  act_request_path :: "string option"
  act_request_verb :: "string option"

record Decision =
  dec_allowed :: bool
  dec_reason :: "string option"

definition decision_allow :: Decision where
  "decision_allow = \<lparr>dec_allowed = True, dec_reason = None\<rparr>"

definition decision_deny :: "string \<Rightarrow> Decision" where
  "decision_deny reason = \<lparr>dec_allowed = False, dec_reason = Some reason\<rparr>"

record Authorizer =
  authorize :: "Principal \<Rightarrow> Action \<Rightarrow> Decision CoreResult"
  granted_permissions :: "Principal \<Rightarrow> string list \<Rightarrow> string list option CoreResult"

definition allow_all_authorizer :: Authorizer where
  "allow_all_authorizer =
     \<lparr>authorize = (\<lambda>_ _. Inr decision_allow), granted_permissions = (\<lambda>_ candidates. Inr (Some candidates))\<rparr>"

section \<open>The middleware\<close>

definition forbidden_response :: "string \<Rightarrow> http_response" where
  "forbidden_response required =
     json_response 403 (JObject [(''success'', JBool False),
       (''error'', JString ''forbidden: missing permission''), (''required_permission'', JString required)])"

definition authorization_unavailable_response :: http_response where
  "authorization_unavailable_response =
     json_response 503 (JObject [(''success'', JBool False), (''error'', JString ''authorization service unavailable'')])"

definition invalid_principal_response :: http_response where
  "invalid_principal_response =
     json_response 401 (JObject [(''success'', JBool False), (''error'', JString ''invalid authenticated principal'')])"

definition request_operation :: "Method \<Rightarrow> string \<Rightarrow> ActionOperation" where
  "request_operation m path =
     (if is_read_method m then
        (if path = ''/api/v1/controllers'' \<or> path = ''/api/v1/clusters''
            \<or> path = ''/api/v1/center/admin/controllers''
            \<or> path = ''/api/v1/center/cloud/provider-accounts''
         then OpList else OpGet)
      else if m = DELETE then OpDelete
      else if m = PATCH \<or> m = PUT then OpUpdate
      else if ends_with ''/reload'' path \<or> ends_with ''/refresh'' path \<or> ends_with ''/sync'' path
              \<or> ends_with ''/failover'' path \<or> starts_with ''/api/v1/proxy/'' path
      then OpExecute
      else OpCreate)"

definition encoded_controller_id :: "string \<Rightarrow> string option" where
  "encoded_controller_id path =
     (let suffix = (case strip_prefix ''/api/v1/center/admin/controllers/'' path of
                      Some s \<Rightarrow> Some s
                    | None \<Rightarrow> strip_prefix ''/api/v1/controllers/'' path)
      in case suffix of
           None \<Rightarrow> None
         | Some s \<Rightarrow> (let i = hd (split_on CHR ''/'' s) in if i = [] then None else Some i))"

definition tilde_to_slash :: "string \<Rightarrow> string" where
  "tilde_to_slash s = map (\<lambda>c. if c = CHR ''~'' then CHR ''/'' else c) s"

definition target_controller_id :: "(string \<Rightarrow> string option) \<Rightarrow> string \<Rightarrow> unit + string" where
  "target_controller_id percent_decode_utf8 i =
     (case percent_decode_utf8 i of
        None \<Rightarrow> Inl ()
      | Some decoded \<Rightarrow>
          (case identifier_new ''controller'' (tilde_to_slash decoded) of
             Inl _ \<Rightarrow> Inl ()
           | Inr cid \<Rightarrow> Inr cid))"

definition action_for_request :: "(string \<Rightarrow> string option) \<Rightarrow> string \<Rightarrow> Method \<Rightarrow> string \<Rightarrow> unit + Action" where
  "action_for_request percent_decode_utf8 permission m path =
     and_then
       (case encoded_controller_id path of
          None \<Rightarrow> Inr None
        | Some i \<Rightarrow> and_then (target_controller_id percent_decode_utf8 i) (\<lambda>cid. Inr (Some cid)))
       (\<lambda>cid. Inr
          \<lparr>act_permission = permission, act_controller_id = cid,
           act_operation = Some (request_operation m path), act_request_path = Some path,
           act_request_verb = Some (if m = HEAD then ''get'' else to_ascii_lowercase (method_as_str m))\<rparr>)"

definition unmapped_action :: "Method \<Rightarrow> string \<Rightarrow> Action" where
  "unmapped_action m path =
     \<lparr>act_permission = ''<unmapped-business-route>'', act_controller_id = None,
      act_operation = Some OpExecute, act_request_path = Some path,
      act_request_verb = Some (to_ascii_lowercase (method_as_str m))\<rparr>"

definition credential_action :: Action where
  "credential_action =
     \<lparr>act_permission = PROVIDER_CREDENTIALS_USE, act_controller_id = None, act_operation = Some OpGet,
      act_request_path = Some (''/permissions/'' @ PROVIDER_CREDENTIALS_USE), act_request_verb = Some ''get''\<rparr>"

definition writes_provider_account :: "Method \<Rightarrow> string \<Rightarrow> bool" where
  "writes_provider_account m path \<longleftrightarrow>
     (m = POST \<or> m = PUT)
     \<and> (path = ''/api/v1/center/cloud/provider-accounts''
        \<or> starts_with ''/api/v1/center/cloud/provider-accounts/'' path)"

definition principal_of :: "UnifiedAuthClaims \<Rightarrow> Principal option" where
  "principal_of claims =
     (case uc_sub claims of
        None \<Rightarrow> None
      | Some subject \<Rightarrow>
          Some \<lparr>pr_subject = subject,
                pr_provider = (case uc_provider claims of Oidc \<Rightarrow> ''oidc'' | Local \<Rightarrow> ''local''),
                pr_issuer = uc_iss claims, pr_groups = uc_groups claims\<rparr>)"

text \<open>
  A mapped route: the key itself and, for a write of a provider account, the use of credentials.
  The list is the actions the policy was asked about, in order.
\<close>

definition authz_mapped ::
  "(string \<Rightarrow> string option) \<Rightarrow> Authorizer \<Rightarrow> Principal \<Rightarrow> string \<Rightarrow> Method \<Rightarrow> string \<Rightarrow> Action list \<times> string list layer" where
  "authz_mapped percent_decode_utf8 policy who key m path =
     (case action_for_request percent_decode_utf8 key m path of
        Inl _ \<Rightarrow> ([], Answer (forbidden_response ''<invalid-controller-id>''))
      | Inr action \<Rightarrow>
          (case authorize policy who action of
             Inl _ \<Rightarrow> ([action], Answer authorization_unavailable_response)
           | Inr decision \<Rightarrow>
               if \<not> dec_allowed decision then ([action], Answer (forbidden_response key))
               else if writes_provider_account m path then
                 (case authorize policy who credential_action of
                    Inl _ \<Rightarrow> ([action, credential_action], Answer authorization_unavailable_response)
                  | Inr d \<Rightarrow>
                      if dec_allowed d
                      then ([action, credential_action], RunNext [key, PROVIDER_CREDENTIALS_USE])
                      else ([action, credential_action], Answer (forbidden_response PROVIDER_CREDENTIALS_USE)))
               else ([action], RunNext [key])))"

definition authz_identity :: "Authorizer \<Rightarrow> Principal \<Rightarrow> string \<Rightarrow> string list layer" where
  "authz_identity policy who path =
     (if path = ''/api/v1/auth/me'' then
        (case granted_permissions policy who all_keys of
           Inr (Some allowed) \<Rightarrow> RunNext allowed
         | Inr None \<Rightarrow> RunNext []
         | Inl _ \<Rightarrow> Answer authorization_unavailable_response)
      else RunNext [])"

definition authz_unmapped ::
  "Authorizer \<Rightarrow> Principal \<Rightarrow> Method \<Rightarrow> string \<Rightarrow> Action list \<times> string list layer" where
  "authz_unmapped policy who m path =
     (if is_business_path path then
        (case authorize policy who (unmapped_action m path) of
           Inl _ \<Rightarrow> ([unmapped_action m path], Answer authorization_unavailable_response)
         | Inr decision \<Rightarrow>
             if \<not> dec_allowed decision
             then ([unmapped_action m path], Answer (forbidden_response ''<unmapped-business-route>''))
             else ([unmapped_action m path], authz_identity policy who path))
      else ([], authz_identity policy who path))"

text \<open>The permission set handed on is the list of its keys; \<open>None\<close> is a request passed untouched.\<close>

definition map_layer :: "('a \<Rightarrow> 'b) \<Rightarrow> 'a layer \<Rightarrow> 'b layer" where
  "map_layer f l = (case l of RunNext x \<Rightarrow> RunNext (f x) | Answer r \<Rightarrow> Answer r)"

definition authz_middleware ::
  "(string \<Rightarrow> string option) \<Rightarrow> Authorizer \<Rightarrow> UnifiedAuthClaims option \<Rightarrow> Method \<Rightarrow> string \<Rightarrow>
   Action list \<times> string list option layer" where
  "authz_middleware percent_decode_utf8 policy claims m path =
     (case claims of
        None \<Rightarrow> ([], RunNext None)
      | Some c \<Rightarrow>
          (case principal_of c of
             None \<Rightarrow> ([], Answer invalid_principal_response)
           | Some who \<Rightarrow>
               map_prod id (map_layer Some)
                 (case route_permission m path of
                    Some key \<Rightarrow> authz_mapped percent_decode_utf8 policy who key m path
                  | None \<Rightarrow> authz_unmapped policy who m path)))"

text \<open>\<open>PermissionSet::materialize\<close>: the keys of the set, sorted.\<close>

definition materialize :: "string list \<Rightarrow> string list" where
  "materialize keys = sort (remdups keys)"

record MeResponse =
  me_username :: string
  me_permissions :: "string list"
  me_auth_provider :: AuthProvider
  me_logout_path :: "string option"
  me_local_logout_available :: bool

definition me_handler :: "'k UnifiedAuthState \<Rightarrow> UnifiedAuthClaims \<Rightarrow> string list option \<Rightarrow> MeResponse" where
  "me_handler st claims perms =
     \<lparr>me_username = (case uc_sub claims of Some s \<Rightarrow> s | None \<Rightarrow> []),
      me_permissions = (case perms of Some keys \<Rightarrow> materialize keys | None \<Rightarrow> []),
      me_auth_provider = uc_provider claims,
      me_logout_path = (if uc_provider claims = Oidc then Option.bind (us_oidc st) am_logout_path else None),
      me_local_logout_available = (us_local st \<noteq> None)\<rparr>"

section \<open>SubjectAccessReview\<close>

definition CENTER_AUTHZ_PATH_PREFIX :: string where
  "CENTER_AUTHZ_PATH_PREFIX = ''/edgion-center-authz''"

record ResourceAttributes =
  ra_group :: string
  ra_version :: string
  ra_resource :: string
  ra_namespace :: string
  ra_name :: "string option"
  ra_verb :: string

record NonResourceAttributes =
  nr_path :: string
  nr_verb :: string

record SubjectAccessReviewSpec =
  sar_user :: string
  sar_groups :: "string list"
  sar_resource :: "ResourceAttributes option"
  sar_non_resource :: "NonResourceAttributes option"

record SubjectAccessReviewStatus =
  sas_allowed :: bool
  sas_evaluation_error :: "string option"
  sas_reason :: "string option"

definition oidc_prefix :: "string \<Rightarrow> string" where
  "oidc_prefix issuer = ''oidc:'' @ show_nat (length issuer) @ '':'' @ issuer"

text \<open>The error text of the last branch shows the provider quoted, without escapes.\<close>

definition sar_identity :: "Principal \<Rightarrow> (string \<times> string list) CoreResult" where
  "sar_identity who =
     (if pr_provider who = ''oidc'' then
        (case pr_issuer who of
           Some issuer \<Rightarrow>
             if issuer \<noteq> [] then
               Inr (oidc_prefix issuer @ '':user:'' @ pr_subject who,
                    map (\<lambda>group. oidc_prefix issuer @ '':group:'' @ group) (pr_groups who))
             else Inl (Adapter ''OIDC authorization requires a validated issuer'')
         | None \<Rightarrow> Inl (Adapter ''OIDC authorization requires a validated issuer''))
      else if pr_provider who = ''local'' \<and> pr_issuer who = None then
        Inr (''local:user:'' @ pr_subject who,
             map (\<lambda>group. ''local:group:'' @ group) (pr_groups who))
      else Inl (Adapter (''unsupported Kubernetes principal provider '' @ [CHR 0x22] @ pr_provider who @ [CHR 0x22])))"

fun operation_verb :: "ActionOperation \<Rightarrow> string" where
  "operation_verb OpList = ''list''"
| "operation_verb OpGet = ''get''"
| "operation_verb OpCreate = ''create''"
| "operation_verb OpUpdate = ''update''"
| "operation_verb OpExecute = ''update''"
| "operation_verb OpDelete = ''delete''"

definition controller_attributes :: "(string \<Rightarrow> string) \<Rightarrow> string \<Rightarrow> Action \<Rightarrow> ResourceAttributes CoreResult" where
  "controller_attributes sha256_hex namespace action =
     (case act_operation action of
        None \<Rightarrow> Inl (Adapter ''controller authorization requires an operation'')
      | Some operation \<Rightarrow>
          Inr \<lparr>ra_group = ''center.edgion.io'', ra_version = ''v1alpha1'', ra_resource = ''edgioncontrollers'',
               ra_namespace = namespace,
               ra_name = map_option (controller_resource_name sha256_hex) (act_controller_id action),
               ra_verb = operation_verb operation\<rparr>)"

definition path_attributes :: "Action \<Rightarrow> NonResourceAttributes CoreResult" where
  "path_attributes action =
     (case act_request_path action of
        None \<Rightarrow> Inl (Adapter ''non-resource authorization requires a request path'')
      | Some request_path \<Rightarrow>
          if \<not> starts_with ''/'' request_path
          then Inl (Adapter ''non-resource authorization requires an absolute request path'')
          else
            (case act_request_verb action of
               None \<Rightarrow> Inl (Adapter ''non-resource authorization requires a request verb'')
             | Some verb \<Rightarrow> Inr \<lparr>nr_path = CENTER_AUTHZ_PATH_PREFIX @ request_path, nr_verb = verb\<rparr>))"

definition sar_review :: "(string \<Rightarrow> string) \<Rightarrow> string \<Rightarrow> Principal \<Rightarrow> Action \<Rightarrow> SubjectAccessReviewSpec CoreResult" where
  "sar_review sha256_hex namespace who action =
     and_then (sar_identity who) (\<lambda>(user, groups).
     and_then
       (if starts_with ''controllers:'' (act_permission action)
        then and_then (controller_attributes sha256_hex namespace action) (\<lambda>r. Inr (Some r, None))
        else and_then (path_attributes action) (\<lambda>n. Inr (None, Some n)))
       (\<lambda>(resource, non_resource).
          Inr \<lparr>sar_user = user, sar_groups = groups, sar_resource = resource, sar_non_resource = non_resource\<rparr>))"

definition sar_decision :: "SubjectAccessReviewStatus option \<Rightarrow> Decision CoreResult" where
  "sar_decision status =
     (case status of
        None \<Rightarrow> Inl (Adapter ''SubjectAccessReview response omitted status'')
      | Some st \<Rightarrow>
          (case sas_evaluation_error st of
             Some error \<Rightarrow>
               if error \<noteq> [] then Inl (Adapter (''SubjectAccessReview evaluation error: '' @ error))
               else Inr (if sas_allowed st then decision_allow
                         else decision_deny (case sas_reason st of Some r \<Rightarrow> r | None \<Rightarrow> ''Kubernetes authorization denied''))
           | None \<Rightarrow> Inr (if sas_allowed st then decision_allow
                         else decision_deny (case sas_reason st of Some r \<Rightarrow> r | None \<Rightarrow> ''Kubernetes authorization denied''))))"

definition sar_authorize ::
  "(string \<Rightarrow> string) \<Rightarrow> (SubjectAccessReviewSpec \<Rightarrow> SubjectAccessReviewStatus option CoreResult) \<Rightarrow> string \<Rightarrow>
   Principal \<Rightarrow> Action \<Rightarrow> Decision CoreResult" where
  "sar_authorize sha256_hex create namespace who action =
     and_then (sar_review sha256_hex namespace who action) (\<lambda>review. and_then (create review) sar_decision)"

definition discovery_action :: "string \<Rightarrow> Action" where
  "discovery_action permission =
     \<lparr>act_permission = ''<permission-discovery>'', act_controller_id = None, act_operation = Some OpGet,
      act_request_path = Some (''/permissions/'' @ permission), act_request_verb = Some ''get''\<rparr>"

fun grant_loop :: "(string \<Rightarrow> Decision CoreResult) \<Rightarrow> string list \<Rightarrow> string list \<Rightarrow> string list option CoreResult" where
  "grant_loop ask granted [] = Inr (Some granted)"
| "grant_loop ask granted (permission # candidates) =
     and_then (ask permission) (\<lambda>decision.
       grant_loop ask (if dec_allowed decision then granted @ [permission] else granted) candidates)"

definition sar_authorizer ::
  "(string \<Rightarrow> string) \<Rightarrow> (SubjectAccessReviewSpec \<Rightarrow> SubjectAccessReviewStatus option CoreResult) \<Rightarrow> string \<Rightarrow> Authorizer" where
  "sar_authorizer sha256_hex create namespace =
     \<lparr>authorize = sar_authorize sha256_hex create namespace,
      granted_permissions = (\<lambda>who candidates.
        grant_loop (\<lambda>permission. sar_authorize sha256_hex create namespace who (discovery_action permission))
          [] candidates)\<rparr>"

section \<open>The role store\<close>

text \<open>
  The policy of the standalone mode: the permission keys of a subject from the database, cached for
  thirty seconds. \<open>query\<close> is the answer of the database at the time of the request; the cache maps a
  subject to the time of its entry and the keys.
\<close>

definition SQL_CACHE_TTL :: nat where
  "SQL_CACHE_TTL = 30 * 1000000000"

type_synonym sql_cache = "(string, nat \<times> string list) hmap"

definition sql_cached :: "sql_cache \<Rightarrow> string \<Rightarrow> nat \<Rightarrow> string list option" where
  "sql_cached cache subject now =
     (case map_of cache subject of
        None \<Rightarrow> None
      | Some (recorded_at, permissions) \<Rightarrow>
          if now - recorded_at < SQL_CACHE_TTL then Some permissions else None)"

definition sql_permissions ::
  "(string \<Rightarrow> string + string list) \<Rightarrow> nat \<Rightarrow> sql_cache \<Rightarrow> string \<Rightarrow> string list CoreResult \<times> sql_cache" where
  "sql_permissions query now cache subject =
     (case sql_cached cache subject now of
        Some permissions \<Rightarrow> (Inr permissions, cache)
      | None \<Rightarrow>
          (case query subject of
             Inl e \<Rightarrow> (Inl (Adapter e), cache)
           | Inr permissions \<Rightarrow> (Inr permissions, AList.update subject (now, permissions) cache)))"

definition sql_authorize ::
  "(string \<Rightarrow> string + string list) \<Rightarrow> nat \<Rightarrow> sql_cache \<Rightarrow> Principal \<Rightarrow> Action \<Rightarrow> Decision CoreResult \<times> sql_cache" where
  "sql_authorize query now cache who action =
     map_prod
       (\<lambda>r. and_then r (\<lambda>permissions.
          Inr (if act_permission action \<in> set permissions then decision_allow
               else decision_deny (''missing permission '' @ act_permission action))))
       id (sql_permissions query now cache (pr_subject who))"

definition sql_granted_permissions ::
  "(string \<Rightarrow> string + string list) \<Rightarrow> nat \<Rightarrow> sql_cache \<Rightarrow> Principal \<Rightarrow> string list \<Rightarrow>
   string list option CoreResult \<times> sql_cache" where
  "sql_granted_permissions query now cache who candidates =
     map_prod
       (\<lambda>r. and_then r (\<lambda>permissions. Inr (Some (filter (\<lambda>k. k \<in> set permissions) candidates))))
       id (sql_permissions query now cache (pr_subject who))"

text \<open>The policy as one request sees it.\<close>

definition sql_authorizer :: "(string \<Rightarrow> string + string list) \<Rightarrow> nat \<Rightarrow> sql_cache \<Rightarrow> Authorizer" where
  "sql_authorizer query now cache =
     \<lparr>authorize = (\<lambda>p a. fst (sql_authorize query now cache p a)),
      granted_permissions = (\<lambda>p cs. fst (sql_granted_permissions query now cache p cs))\<rparr>"

section \<open>The catalogue\<close>

lemma all_keys_distinct: "distinct all_keys"
  by (simp add: all_keys_def key_defs)

lemma groups_partition:
  "distinct (concat (map group_keys catalog_groups)) \<and> set (concat (map group_keys catalog_groups)) = set all_keys"
  by (auto simp: catalog_groups_def all_keys_def key_defs)

lemma known_keys [simp]:
  "CONTROLLERS_READ \<in> set all_keys" "CONTROLLERS_WRITE \<in> set all_keys" "REGION_ROUTES_READ \<in> set all_keys"
  "REGION_ROUTES_WRITE \<in> set all_keys" "GLOBAL_RESOURCES_READ \<in> set all_keys" "AUDIT_READ \<in> set all_keys"
  "SERVER_READ \<in> set all_keys" "PROXY_READ \<in> set all_keys" "PROXY_WRITE \<in> set all_keys"
  "USERS_MANAGE \<in> set all_keys" "ROLES_MANAGE \<in> set all_keys" "CLOUDFLARE_DNS_READ \<in> set all_keys"
  "CLOUDFLARE_DNS_WRITE \<in> set all_keys" "CLOUDFLARE_DNS_REMOTE_WRITE \<in> set all_keys"
  "ROUTE53_DNS_READ \<in> set all_keys" "ROUTE53_DNS_WRITE \<in> set all_keys" "ROUTE53_ZONES_WRITE \<in> set all_keys"
  "PROVIDER_ACCOUNTS_READ \<in> set all_keys" "PROVIDER_ACCOUNTS_WRITE \<in> set all_keys"
  "PROVIDER_CREDENTIALS_USE \<in> set all_keys" "PROVIDER_CAPABILITIES_READ \<in> set all_keys"
  "PROVIDER_CREDENTIALS_INSPECT \<in> set all_keys"
  by (simp_all add: all_keys_def)

lemma route53_key_known: "route53_key r m = Some k \<Longrightarrow> k \<in> set all_keys"
  by (induction r m rule: route53_key.induct) auto

lemma admin_permission_known: "admin_permission m path = Some k \<Longrightarrow> k \<in> set all_keys"
  by (auto simp: admin_permission_def Let_def split: if_splits)

lemma route_permission_known: "route_permission m path = Some k \<Longrightarrow> k \<in> set all_keys"
  unfolding route_permission_def Let_def
  by (auto simp: then_some_def cloudflare_key_def provider_account_key_def
      dest: admin_permission_known route53_key_known split: if_splits option.splits)

lemma in_one_group:
  assumes "distinct (concat xss)" "k \<in> set (concat xss)"
  shows "\<exists>!i. i < length xss \<and> k \<in> set (xss ! i)"
  using assms
proof (induction xss)
  case (Cons xs xss)
  show ?case
  proof (cases "k \<in> set xs")
    case True
    with Cons.prems have "\<forall>j < length xss. k \<notin> set (xss ! j)" by (auto dest!: nth_mem)
    with True have "\<forall>i. i < length (xs # xss) \<and> k \<in> set ((xs # xss) ! i) \<longrightarrow> i = 0"
      by (metis Suc_less_eq length_Cons not0_implies_Suc nth_Cons_Suc)
    with True show ?thesis by (intro ex1I [of _ 0]) auto
  next
    case False
    with Cons obtain i where i: "i < length xss" "k \<in> set (xss ! i)"
      and u: "\<forall>j. j < length xss \<and> k \<in> set (xss ! j) \<longrightarrow> j = i" by auto
    have "\<forall>j. j < length (xs # xss) \<and> k \<in> set ((xs # xss) ! j) \<longrightarrow> j = Suc i"
      using False u by (metis Suc_less_eq length_Cons not0_implies_Suc nth_Cons_0 nth_Cons_Suc)
    with i show ?thesis by (intro ex1I [of _ "Suc i"]) auto
  qed
qed simp

text \<open>
  C38: Every key the route map assigns is a key of the catalogue, and belongs to exactly one group of
  the permission matrix.
\<close>

theorem route_keys_are_catalogued:
  assumes "route_permission m path = Some key"
  shows "is_known_key key \<and> (\<exists>!i. i < length catalog_groups \<and> key \<in> set (group_keys (catalog_groups ! i)))"
proof -
  have k: "key \<in> set all_keys" using route_permission_known [OF assms] .
  with in_one_group [of "map group_keys catalog_groups" key] groups_partition
  have "\<exists>!i. i < length (map group_keys catalog_groups) \<and> key \<in> set (map group_keys catalog_groups ! i)"
    by blast
  then have "\<exists>!i. i < length catalog_groups \<and> key \<in> set (group_keys (catalog_groups ! i))"
    by (metis (no_types, lifting) length_map nth_map)
  with k show ?thesis by (simp add: is_known_key_def)
qed

theorem route_keys_are_catalogued_witness: "is_known_key PROXY_READ"
proof -
  have "route_permission GET ''/api/v1/proxy/c/x'' = Some PROXY_READ"
    by (simp add: route_permission_def under_segment_def is_read_method_def)
  from route_keys_are_catalogued [OF this] show ?thesis by blast
qed

section \<open>The middleware\<close>

definition allows :: "Authorizer \<Rightarrow> Principal \<Rightarrow> Action \<Rightarrow> bool" where
  "allows policy who action \<longleftrightarrow>
     (case authorize policy who action of Inr d \<Rightarrow> dec_allowed d | Inl _ \<Rightarrow> False)"

text \<open>What has to be allowed for a request: the actions, or none when the path names no Controller.\<close>

definition required_actions :: "(string \<Rightarrow> string option) \<Rightarrow> Method \<Rightarrow> string \<Rightarrow> Action list option" where
  "required_actions dec m path =
     (case route_permission m path of
        None \<Rightarrow> Some [unmapped_action m path]
      | Some key \<Rightarrow>
          (case action_for_request dec key m path of
             Inl _ \<Rightarrow> None
           | Inr a \<Rightarrow> Some (if writes_provider_account m path then [a, credential_action] else [a])))"

lemma map_layer_RunNext [simp]: "map_layer f l = RunNext y \<longleftrightarrow> (\<exists>x. l = RunNext x \<and> y = f x)"
  by (cases l) (auto simp: map_layer_def)

lemma map_layer_Answer [simp]: "map_layer f l = Answer r \<longleftrightarrow> l = Answer r"
  by (cases l) (auto simp: map_layer_def)

lemma authz_mapped_RunNext:
  "snd (authz_mapped dec policy who key m path) = RunNext ps \<longleftrightarrow>
     (\<exists>a. action_for_request dec key m path = Inr a \<and> allows policy who a
        \<and> (if writes_provider_account m path
           then allows policy who credential_action \<and> ps = [key, PROVIDER_CREDENTIALS_USE] else ps = [key]))"
  by (auto simp: authz_mapped_def allows_def split: sum.splits if_splits)

lemma authz_unmapped_RunNext:
  "is_business_path path \<Longrightarrow>
     snd (authz_unmapped policy who m path) = RunNext ps \<longleftrightarrow> allows policy who (unmapped_action m path) \<and> ps = []"
  by (auto simp: authz_unmapped_def authz_identity_def allows_def is_business_path_def split: sum.splits if_splits)

lemma passes_iff:
  assumes business: "is_business_path path"
  shows "(\<exists>perms. snd (authz_middleware dec policy (Some c) m path) = RunNext (Some perms)) \<longleftrightarrow>
    (\<exists>who actions. principal_of c = Some who \<and> required_actions dec m path = Some actions
       \<and> list_all (allows policy who) actions)"
proof (cases "principal_of c")
  case None
  then show ?thesis by (simp add: authz_middleware_def)
next
  case (Some who)
  show ?thesis
  proof (cases "route_permission m path")
    case None
    with Some business show ?thesis
      by (simp add: authz_middleware_def required_actions_def authz_unmapped_RunNext)
  next
    case (Some key)
    with \<open>principal_of c = Some who\<close> show ?thesis
      by (auto simp: authz_middleware_def required_actions_def authz_mapped_RunNext split: sum.splits)
  qed
qed

text \<open>
  C18: The middleware hands a business request on exactly when its claims name a subject, the path names
  a valid Controller where it has one, and the policy allows every action the request needs: that
  of the route's key, for a write of a provider account also the use of credentials, and for an
  unmapped route the synthetic action that no role grants. A failing policy allows nothing.
\<close>

theorem business_request_passes_iff:
  assumes business: "is_business_path path"
  shows "(\<exists>perms. snd (authz_middleware dec policy (Some c) m path) = RunNext (Some perms)) \<longleftrightarrow>
    (\<exists>who actions. principal_of c = Some who \<and> required_actions dec m path = Some actions
       \<and> list_all (allows policy who) actions)"
  using assms by (rule passes_iff)

theorem business_request_passes_iff_witness:
  "\<exists>perms. snd (authz_middleware Some allow_all_authorizer
     (Some \<lparr>uc_provider = Local, uc_sub = Some ''admin'', uc_iss = None, uc_groups = [], uc_claims = JNull\<rparr>)
     GET ''/api/v1/clusters'') = RunNext (Some perms)"
proof -
  have b: "is_business_path ''/api/v1/clusters''" by (simp add: is_business_path_def)
  have "route_permission GET ''/api/v1/clusters'' = Some CONTROLLERS_READ"
    by (simp add: route_permission_def under_segment_def is_cloudflare_remote_control_path_def
        route53_dns_route_def is_capability_path_def is_inspection_path_def admin_permission_def)
  then have "\<exists>a. required_actions Some GET ''/api/v1/clusters'' = Some [a]"
    by (simp add: required_actions_def action_for_request_def encoded_controller_id_def writes_provider_account_def)
  then show ?thesis
    by (subst business_request_passes_iff [OF b])
      (auto simp: principal_of_def allows_def allow_all_authorizer_def decision_allow_def)
qed

text \<open>
  The answer of the middleware tells a denial from an outage: 503 exactly when the policy failed on
  an action it was asked about or on the enumeration for \<open>/auth/me\<close>, 401 when the claims have no
  subject, 403 otherwise; and it never asks about more than two actions.
\<close>

definition policy_failed :: "Authorizer \<Rightarrow> Principal \<Rightarrow> Action list \<Rightarrow> string \<Rightarrow> bool" where
  "policy_failed policy who asked path \<longleftrightarrow>
     list_ex (\<lambda>a. \<not> is_ok (authorize policy who a)) asked
     \<or> (path = ''/api/v1/auth/me'' \<and> \<not> is_ok (granted_permissions policy who all_keys))"

lemma me_not_business: "\<not> is_business_path ''/api/v1/auth/me''"
  by (simp add: is_business_path_def)

lemma me_unmapped: "route_permission m ''/api/v1/auth/me'' = None"
  by (simp add: route_permission_def under_segment_def is_cloudflare_remote_control_path_def
      route53_dns_route_def is_capability_path_def is_inspection_path_def admin_permission_def)

lemma mapped_answer:
  assumes "authz_mapped dec policy who key m path = (asked, Answer r)"
  shows "length asked \<le> 2 \<and> resp_status r = (if list_ex (\<lambda>a. \<not> is_ok (authorize policy who a)) asked then 503 else 403)"
  using assms
  by (auto simp: authz_mapped_def is_ok_def forbidden_response_def authorization_unavailable_response_def
      split: sum.splits if_splits)

lemma unmapped_answer:
  assumes "authz_unmapped policy who m path = (asked, Answer r)"
  shows "length asked \<le> 2 \<and> resp_status r = (if policy_failed policy who asked path then 503 else 403)"
  using assms me_not_business
  by (auto simp: authz_unmapped_def authz_identity_def policy_failed_def is_ok_def forbidden_response_def
      authorization_unavailable_response_def split: sum.splits if_splits option.splits)

theorem refusals_are_classified:
  assumes "authz_middleware dec policy (Some c) m path = (asked, Answer r)"
  shows "length asked \<le> 2
    \<and> (case principal_of c of
         None \<Rightarrow> resp_status r = 401
       | Some who \<Rightarrow> resp_status r = (if policy_failed policy who asked path then 503 else 403))"
proof (cases "principal_of c")
  case None
  with assms show ?thesis by (auto simp: authz_middleware_def invalid_principal_response_def)
next
  case (Some who)
  show ?thesis
  proof (cases "route_permission m path")
    case None
    with assms Some have "authz_unmapped policy who m path = (asked, Answer r)"
      by (auto simp: authz_middleware_def map_prod_def split: prod.splits)
    from unmapped_answer [OF this] Some show ?thesis by simp
  next
    case (Some key)
    then have "path \<noteq> ''/api/v1/auth/me''" using me_unmapped by auto
    moreover from assms Some \<open>principal_of c = Some who\<close> have "authz_mapped dec policy who key m path = (asked, Answer r)"
      by (auto simp: authz_middleware_def map_prod_def split: prod.splits)
    ultimately show ?thesis using mapped_answer [of dec policy who key m path asked r] \<open>principal_of c = Some who\<close>
      by (simp add: policy_failed_def)
  qed
qed

definition denying_authorizer :: Authorizer where
  "denying_authorizer =
     \<lparr>authorize = (\<lambda>_ _. Inr (decision_deny ''no'')), granted_permissions = (\<lambda>_ _. Inr None)\<rparr>"

theorem refusals_are_classified_witness:
  "\<exists>asked r. authz_middleware Some denying_authorizer
     (Some \<lparr>uc_provider = Local, uc_sub = Some ''admin'', uc_iss = None, uc_groups = [], uc_claims = JNull\<rparr>)
     POST ''/api/v1/center/unknown'' = (asked, Answer r) \<and> resp_status r = 403"
proof -
  let ?c = "\<lparr>uc_provider = Local, uc_sub = Some ''admin'', uc_iss = None, uc_groups = [], uc_claims = JNull\<rparr>"
  have "route_permission POST ''/api/v1/center/unknown'' = None"
    by (simp add: route_permission_def under_segment_def is_cloudflare_remote_control_path_def
        route53_dns_route_def is_capability_path_def is_inspection_path_def admin_permission_def)
  then have r: "\<exists>r. authz_middleware Some denying_authorizer (Some ?c) POST ''/api/v1/center/unknown''
      = ([unmapped_action POST ''/api/v1/center/unknown''], Answer r)"
    by (simp add: authz_middleware_def principal_of_def authz_unmapped_def is_business_path_def
        denying_authorizer_def decision_deny_def map_layer_def)
  then obtain r where r: "authz_middleware Some denying_authorizer (Some ?c) POST ''/api/v1/center/unknown''
      = ([unmapped_action POST ''/api/v1/center/unknown''], Answer r)" by blast
  from refusals_are_classified [OF r] r show ?thesis
    by (auto simp: principal_of_def policy_failed_def denying_authorizer_def is_ok_def)
qed

section \<open>Enumeration of permissions\<close>

text \<open>
  The contract of \<open>granted_permissions\<close>: the enumeration names exactly the candidates whose probing
  action the policy allows, where each policy has its own probe for a key.
\<close>

locale permission_enumeration =
  fixes policy :: Authorizer
    and probe :: "string \<Rightarrow> Action"
  assumes enumerates: "granted_permissions policy who candidates = Inr (Some granted) \<Longrightarrow>
      granted = filter (\<lambda>k. allows policy who (probe k)) candidates"
    and always_enumerates: "granted_permissions policy who candidates \<noteq> Inr None"
begin

lemma identity_permissions:
  assumes "authz_identity policy who ''/api/v1/auth/me'' = RunNext ps"
  shows "set ps = {k \<in> set all_keys. allows policy who (probe k)}"
  using assms enumerates [of who all_keys] always_enumerates [of who all_keys]
  by (auto simp: authz_identity_def split: sum.splits option.splits)

lemma me_reports:
  assumes "authz_middleware dec policy (Some c) m ''/api/v1/auth/me'' = (asked, RunNext (Some ps))"
  shows "asked = [] \<and> (\<exists>who. principal_of c = Some who
    \<and> set (me_permissions (me_handler st c (Some ps))) = {k \<in> set all_keys. allows policy who (probe k)}
    \<and> sorted (me_permissions (me_handler st c (Some ps))) \<and> distinct (me_permissions (me_handler st c (Some ps))))"
proof -
  from assms obtain who where who: "principal_of c = Some who"
    and id: "authz_identity policy who ''/api/v1/auth/me'' = RunNext ps" and "asked = []"
    by (auto simp: authz_middleware_def me_unmapped authz_unmapped_def me_not_business map_prod_def split: option.splits)
  with identity_permissions [OF id] show ?thesis by (simp add: me_handler_def materialize_def)
qed

end

lemma grant_loop_filter:
  assumes "grant_loop ask acc candidates = Inr r"
  shows "r = Some (acc @ filter (\<lambda>k. case ask k of Inr d \<Rightarrow> dec_allowed d | Inl _ \<Rightarrow> False) candidates)"
  using assms
proof (induction candidates arbitrary: acc)
  case (Cons k candidates)
  then obtain d where "ask k = Inr d" "grant_loop ask (if dec_allowed d then acc @ [k] else acc) candidates = Inr r"
    by (auto simp: and_then_eq_Inr)
  with Cons.IH [OF this(2)] show ?case by auto
qed simp

text \<open>The probe of a policy that looks at the key alone.\<close>

definition key_action :: "string \<Rightarrow> Action" where
  "key_action k =
     \<lparr>act_permission = k, act_controller_id = None, act_operation = None, act_request_path = None, act_request_verb = None\<rparr>"

interpretation allow_all: permission_enumeration allow_all_authorizer key_action
  by unfold_locales (auto simp: allow_all_authorizer_def allows_def decision_allow_def)

interpretation sar: permission_enumeration "sar_authorizer sha256_hex create namespace" discovery_action
  for sha256_hex create namespace
  by unfold_locales (auto simp: sar_authorizer_def allows_def dest!: grant_loop_filter)

lemma sql_allows:
  "fst (sql_permissions query now cache (pr_subject who)) = Inr ps \<Longrightarrow>
     allows (sql_authorizer query now cache) who a \<longleftrightarrow> act_permission a \<in> set ps"
  by (simp add: allows_def sql_authorizer_def sql_authorize_def decision_allow_def decision_deny_def)

interpretation sql: permission_enumeration "sql_authorizer query now cache" key_action
  for query now cache
proof unfold_locales
  show "granted = filter (\<lambda>k. allows (sql_authorizer query now cache) who (key_action k)) candidates"
    if "granted_permissions (sql_authorizer query now cache) who candidates = Inr (Some granted)" for who candidates granted
  proof -
    from that obtain ps where ps: "fst (sql_permissions query now cache (pr_subject who)) = Inr ps"
      "granted = filter (\<lambda>k. k \<in> set ps) candidates"
      by (auto simp: sql_authorizer_def sql_granted_permissions_def and_then_eq_Inr)
    then show ?thesis by (simp add: sql_allows [OF ps(1)] key_action_def)
  qed
  show "granted_permissions (sql_authorizer query now cache) who candidates \<noteq> Inr None" for who candidates
    by (auto simp: sql_authorizer_def sql_granted_permissions_def and_then_eq_Inr)
qed

text \<open>
  In Kubernetes mode \<open>/auth/me\<close> reports, sorted and without repetition, exactly the keys of the
  catalogue whose virtual permission path the API server allows to the caller. The answer on
  the use of credentials rests on the same review as the check of a provider-account write.
\<close>

theorem me_reports_reviewed_permissions:
  assumes "authz_middleware dec (sar_authorizer sha256_hex create namespace) (Some c) m ''/api/v1/auth/me''
    = (asked, RunNext (Some ps))"
  shows "\<exists>who. principal_of c = Some who
    \<and> set (me_permissions (me_handler st c (Some ps)))
        = {k \<in> set all_keys. allows (sar_authorizer sha256_hex create namespace) who (discovery_action k)}
    \<and> sorted (me_permissions (me_handler st c (Some ps))) \<and> distinct (me_permissions (me_handler st c (Some ps)))
    \<and> (PROVIDER_CREDENTIALS_USE \<in> set (me_permissions (me_handler st c (Some ps)))
       \<longleftrightarrow> allows (sar_authorizer sha256_hex create namespace) who credential_action)"
proof -
  have "sar_review sha256_hex namespace who (discovery_action PROVIDER_CREDENTIALS_USE)
      = sar_review sha256_hex namespace who credential_action" for who
    by (simp add: sar_review_def path_attributes_def discovery_action_def credential_action_def key_defs)
  then have "allows (sar_authorizer sha256_hex create namespace) who (discovery_action PROVIDER_CREDENTIALS_USE)
      \<longleftrightarrow> allows (sar_authorizer sha256_hex create namespace) who credential_action" for who
    by (simp add: allows_def sar_authorizer_def sar_authorize_def)
  with sar.me_reports [OF assms, of st] show ?thesis by auto
qed

definition sample_create :: "SubjectAccessReviewSpec \<Rightarrow> SubjectAccessReviewStatus option CoreResult" where
  "sample_create review =
     Inr (Some \<lparr>sas_allowed = (sar_user review = ''local:user:admin''), sas_evaluation_error = None, sas_reason = None\<rparr>)"

definition sample_identity :: UnifiedAuthClaims where
  "sample_identity =
     \<lparr>uc_provider = Local, uc_sub = Some ''admin'', uc_iss = None, uc_groups = [], uc_claims = JNull\<rparr>"

lemma grant_loop_total: "(\<And>k. is_ok (ask k)) \<Longrightarrow> \<exists>gs. grant_loop ask acc candidates = Inr (Some gs)"
proof (induction candidates arbitrary: acc)
  case (Cons k candidates)
  obtain d where "ask k = Inr d" using Cons.prems [of k] by (auto simp: is_ok_def split: sum.splits)
  with Cons.IH [OF Cons.prems] show ?case by simp
qed simp

lemma sample_me_runs:
  "\<exists>ps. authz_middleware Some (sar_authorizer id sample_create ''ns'') (Some sample_identity) GET ''/api/v1/auth/me''
     = ([], RunNext (Some ps))"
proof -
  let ?who = "\<lparr>pr_subject = ''admin'', pr_provider = ''local'', pr_issuer = None, pr_groups = []\<rparr>"
  have "is_ok (sar_authorize id sample_create ''ns'' ?who (discovery_action k))" for k
    by (simp add: sar_authorize_def sar_review_def sar_identity_def path_attributes_def discovery_action_def
        sample_create_def sar_decision_def decision_allow_def)
  from grant_loop_total [of "\<lambda>k. sar_authorize id sample_create ''ns'' ?who (discovery_action k)" "[]" all_keys, OF this] obtain gs where
    "granted_permissions (sar_authorizer id sample_create ''ns'') ?who all_keys = Inr (Some gs)"
    by (auto simp: sar_authorizer_def)
  then show ?thesis
    by (simp add: authz_middleware_def sample_identity_def principal_of_def me_unmapped authz_unmapped_def
        me_not_business authz_identity_def map_layer_def)
qed

theorem me_reports_reviewed_permissions_witness:
  "\<exists>ps. authz_middleware Some (sar_authorizer id sample_create ''ns'') (Some sample_identity) GET ''/api/v1/auth/me''
      = ([], RunNext (Some ps))
    \<and> sorted (me_permissions (me_handler sample_auth sample_identity (Some ps)))"
proof -
  obtain ps where ps: "authz_middleware Some (sar_authorizer id sample_create ''ns'') (Some sample_identity) GET ''/api/v1/auth/me''
      = ([], RunNext (Some ps))" using sample_me_runs by blast
  from me_reports_reviewed_permissions [OF ps, of sample_auth] ps show ?thesis by blast
qed

section \<open>Identities and paths under review\<close>

lemma oidc_prefix_inj:
  assumes "oidc_prefix i @ CHR '':'' # s = oidc_prefix j @ CHR '':'' # t"
  shows "i = j \<and> s = t"
proof -
  have colon: "CHR '':'' \<notin> set (show_nat n)" for n
    using show_nat_digits [of n] by (auto simp: list_all_iff is_ascii_digit_def byte_def)
  from assms have "show_nat (length i) @ CHR '':'' # i @ CHR '':'' # s = show_nat (length j) @ CHR '':'' # j @ CHR '':'' # t"
    by (simp add: oidc_prefix_def)
  then have "split_once CHR '':'' (show_nat (length i) @ CHR '':'' # i @ CHR '':'' # s)
      = split_once CHR '':'' (show_nat (length j) @ CHR '':'' # j @ CHR '':'' # t)" by simp
  then have n: "show_nat (length i) = show_nat (length j)" and r: "i @ CHR '':'' # s = j @ CHR '':'' # t"
    by (simp_all add: split_once_append colon)
  from n have "length i = length j" by (metis digits_value_show_nat)
  with r show ?thesis by simp
qed

lemma sar_identity_cases:
  assumes "sar_identity p = Inr (u, gs)"
  obtains i where "pr_provider p = ''oidc''" "pr_issuer p = Some i"
      "u = oidc_prefix i @ CHR '':'' # ''user:'' @ pr_subject p"
      "gs = map (\<lambda>g. oidc_prefix i @ CHR '':'' # ''group:'' @ g) (pr_groups p)"
    | "pr_provider p = ''local''" "pr_issuer p = None" "u = ''local:user:'' @ pr_subject p"
      "gs = map (\<lambda>g. ''local:group:'' @ g) (pr_groups p)"
  using assms unfolding sar_identity_def by (auto split: if_splits option.splits)

lemma oidc_not_local: "oidc_prefix i @ s \<noteq> CHR ''l'' # t"
  by (simp add: oidc_prefix_def)

text \<open>
  The identities under review never collide: two principals with the same user name have the same
  provider, issuer and subject, and a group name two principals share is the same group of the
  same provider and issuer, whatever delimiters issuer, subject and groups contain.
\<close>

theorem review_identities_never_collide:
  assumes p: "sar_identity p = Inr (u, gs)" and q: "sar_identity q = Inr (v, hs)"
  shows "(u = v \<longrightarrow> pr_provider p = pr_provider q \<and> pr_issuer p = pr_issuer q \<and> pr_subject p = pr_subject q)
    \<and> (\<forall>g. g \<in> set gs \<inter> set hs \<longrightarrow> pr_provider p = pr_provider q \<and> pr_issuer p = pr_issuer q
         \<and> (\<exists>n. n \<in> set (pr_groups p) \<inter> set (pr_groups q)))"
  using p
proof (cases rule: sar_identity_cases)
  case (1 i)
  note P = 1
  from q show ?thesis
  proof (cases rule: sar_identity_cases)
    case (1 j)
    with P show ?thesis by (auto dest!: oidc_prefix_inj)
  next
    case 2
    with P show ?thesis using oidc_not_local by fastforce
  qed
next
  case 2
  note P = 2
  from q show ?thesis
  proof (cases rule: sar_identity_cases)
    case (1 j)
    with P show ?thesis using oidc_not_local [of j] by (fastforce dest: sym)
  next
    case 2
    with P show ?thesis by auto
  qed
qed

theorem review_identities_never_collide_witness:
  "sar_identity \<lparr>pr_subject = ''user:x'', pr_provider = ''oidc'', pr_issuer = Some ''a'', pr_groups = []\<rparr>
     \<noteq> sar_identity \<lparr>pr_subject = ''x'', pr_provider = ''oidc'', pr_issuer = Some ''a:user'', pr_groups = []\<rparr>"
proof -
  have a: "sar_identity \<lparr>pr_subject = ''user:x'', pr_provider = ''oidc'', pr_issuer = Some ''a'', pr_groups = []\<rparr>
      = Inr (oidc_prefix ''a'' @ '':user:user:x'', [])" by (simp add: sar_identity_def)
  have b: "sar_identity \<lparr>pr_subject = ''x'', pr_provider = ''oidc'', pr_issuer = Some ''a:user'', pr_groups = []\<rparr>
      = Inr (oidc_prefix ''a:user'' @ '':user:x'', [])" by (simp add: sar_identity_def)
  from review_identities_never_collide [OF a b] show ?thesis by (auto simp: a b)
qed

text \<open>
  A review has the identity of the principal and exactly one target: for a Controller key the
  resource in the Center's namespace, otherwise a path in the private namespace, so a role that
  grants the API server's own paths never applies.
\<close>

theorem review_target_is_private:
  assumes "sar_review sha256_hex namespace who action = Inr review"
  shows "sar_identity who = Inr (sar_user review, sar_groups review)
    \<and> (if starts_with ''controllers:'' (act_permission action)
       then sar_non_resource review = None \<and> (\<exists>r. sar_resource review = Some r \<and> ra_namespace r = namespace
              \<and> ra_name r = map_option (controller_resource_name sha256_hex) (act_controller_id action))
       else sar_resource review = None
            \<and> (\<exists>n path. sar_non_resource review = Some n \<and> act_request_path action = Some path
                 \<and> nr_path n = CENTER_AUTHZ_PATH_PREFIX @ path \<and> starts_with ''/edgion-center-authz/'' (nr_path n)
                 \<and> \<not> starts_with ''/api'' (nr_path n)))"
  using assms
  by (auto simp: sar_review_def and_then_eq_Inr controller_attributes_def path_attributes_def
      CENTER_AUTHZ_PATH_PREFIX_def starts_with_iff split: if_splits option.splits prod.splits)

theorem review_target_is_private_witness:
  "\<exists>review. sar_review id ''ns'' \<lparr>pr_subject = ''x'', pr_provider = ''local'', pr_issuer = None, pr_groups = []\<rparr>
      (discovery_action AUDIT_READ) = Inr review \<and> sar_resource review = None"
proof -
  have "\<exists>review. sar_review id ''ns'' \<lparr>pr_subject = ''x'', pr_provider = ''local'', pr_issuer = None, pr_groups = []\<rparr>
      (discovery_action AUDIT_READ) = Inr review"
    by (simp add: sar_review_def sar_identity_def path_attributes_def discovery_action_def)
  then obtain review where r: "sar_review id ''ns''
      \<lparr>pr_subject = ''x'', pr_provider = ''local'', pr_issuer = None, pr_groups = []\<rparr>
      (discovery_action AUDIT_READ) = Inr review" by blast
  from review_target_is_private [OF r] r show ?thesis by (simp add: discovery_action_def)
qed

section \<open>Freshness of the role store\<close>

text \<open>
  The database as a function of time, and the cache of a running policy: it starts empty, and
  requests, each at a time not before the last, ask it and the database.
\<close>

inductive sql_run :: "(nat \<Rightarrow> string \<Rightarrow> string + string list) \<Rightarrow> nat \<Rightarrow> sql_cache \<Rightarrow> bool" for db where
  sql_start: "sql_run db now []"
| sql_ask: "sql_run db now cache \<Longrightarrow> now \<le> now' \<Longrightarrow>
    sql_run db now' (snd (sql_permissions (db now') now' cache subject))"

definition sql_sound :: "(nat \<Rightarrow> string \<Rightarrow> string + string list) \<Rightarrow> nat \<Rightarrow> sql_cache \<Rightarrow> bool" where
  "sql_sound db now cache \<longleftrightarrow>
     (\<forall>s t ps. map_of cache s = Some (t, ps) \<longrightarrow> t \<le> now \<and> db t s = Inr ps)"

lemma sql_permissions_sound:
  assumes "sql_sound db now cache" "now \<le> now'"
  shows "sql_sound db now' (snd (sql_permissions (db now') now' cache subject))"
proof -
  have "sql_sound db now' cache" using assms unfolding sql_sound_def by force
  then show ?thesis
    unfolding sql_sound_def by (auto simp: sql_permissions_def map_simps split: option.splits sum.splits if_splits)
qed

lemma sql_run_sound: "sql_run db now cache \<Longrightarrow> sql_sound db now cache"
proof (induction rule: sql_run.induct)
  case (sql_start now)
  show ?case by (simp add: sql_sound_def)
next
  case (sql_ask now cache now' subject)
  then show ?case by (blast intro: sql_permissions_sound)
qed

lemma sql_permissions_fresh:
  assumes "sql_sound db now cache" "now \<le> now'" "fst (sql_permissions (db now') now' cache subject) = Inr ps"
  shows "\<exists>t. t \<le> now' \<and> now' - t < SQL_CACHE_TTL \<and> db t subject = Inr ps"
proof (cases "sql_cached cache subject now'")
  case None
  with assms(3) have "db now' subject = Inr ps" by (auto simp: sql_permissions_def split: sum.splits)
  then show ?thesis by (intro exI [of _ now']) (simp add: SQL_CACHE_TTL_def)
next
  case (Some qs)
  then obtain t where "map_of cache subject = Some (t, qs)" "now' - t < SQL_CACHE_TTL"
    by (auto simp: sql_cached_def split: option.splits if_splits)
  moreover from assms(3) Some have "qs = ps" by (simp add: sql_permissions_def)
  ultimately have "t \<le> now \<and> db t subject = Inr ps \<and> now' - t < SQL_CACHE_TTL"
    using assms(1) unfolding sql_sound_def by blast
  with assms(2) show ?thesis by (intro exI [of _ t]) simp
qed

text \<open>
  A decision of the role store reflects the database as it was less than thirty seconds ago: a key
  is granted exactly when the subject held it at such a time, so a revoked role stops working
  within the cache lifetime.
\<close>

theorem role_decisions_are_fresh:
  assumes run: "sql_run db now cache" "now \<le> now'"
    and d: "fst (sql_authorize (db now') now' cache who action) = Inr d"
  shows "\<exists>t ps. t \<le> now' \<and> now' - t < SQL_CACHE_TTL \<and> db t (pr_subject who) = Inr ps
    \<and> (dec_allowed d \<longleftrightarrow> act_permission action \<in> set ps)"
proof -
  from d obtain ps where ps: "fst (sql_permissions (db now') now' cache (pr_subject who)) = Inr ps"
    and "dec_allowed d \<longleftrightarrow> act_permission action \<in> set ps"
    by (auto simp: sql_authorize_def and_then_eq_Inr decision_allow_def decision_deny_def)
  with sql_permissions_fresh [OF sql_run_sound [OF run(1)] run(2) ps] show ?thesis by blast
qed

theorem role_decisions_are_fresh_witness:
  "\<exists>d. fst (sql_authorize (\<lambda>s. Inr [AUDIT_READ]) 5 []
      \<lparr>pr_subject = ''x'', pr_provider = ''local'', pr_issuer = None, pr_groups = []\<rparr> (key_action AUDIT_READ)) = Inr d
    \<and> dec_allowed d"
proof -
  let ?who = "\<lparr>pr_subject = ''x'', pr_provider = ''local'', pr_issuer = None, pr_groups = []\<rparr>"
  have "\<exists>d. fst (sql_authorize (\<lambda>s. Inr [AUDIT_READ]) 5 [] ?who (key_action AUDIT_READ)) = Inr d"
    by (simp add: sql_authorize_def sql_permissions_def sql_cached_def)
  then obtain d where d: "fst (sql_authorize ((\<lambda>_ s. Inr [AUDIT_READ]) (5 :: nat)) 5 [] ?who (key_action AUDIT_READ)) = Inr d"
    by auto
  have run: "sql_run (\<lambda>_ s. Inr [AUDIT_READ]) 3 []" by (rule sql_start)
  from role_decisions_are_fresh [OF run _ d] obtain ps where "[AUDIT_READ] = ps"
    "dec_allowed d \<longleftrightarrow> act_permission (key_action AUDIT_READ) \<in> set ps" by auto
  then have "dec_allowed d" by (auto simp: key_action_def)
  with d show ?thesis by blast
qed

text \<open>A write of a provider account that passes has asked the policy twice.\<close>

lemma provider_write_asks_twice:
  assumes "writes_provider_account m path" "snd (authz_mapped dec policy who key m path) = RunNext ps"
  shows "length (fst (authz_mapped dec policy who key m path)) = 2"
  using assms by (auto simp: authz_mapped_def split: sum.splits if_splits)

end
