(* ===== verification/Admin_Api.thy ===== *)
theory Admin_Api
  imports Authz
begin

text \<open>
  The Admin API as it is put together: the capabilities of a Center
  (\<open>center-core/src/capabilities.rs\<close>), the route table (\<open>router\<close> in \<open>center-app/src/api/mod.rs\<close>),
  the shared routes and the order of the layers (\<open>common/api/compose.rs\<close>, \<open>common/api/mod.rs\<close>).
  Handlers are their names. Matching a request against the table is axum's: \<open>dispatch\<close> is a
  parameter, and \<open>dispatch_sound\<close> states its documented behaviour, that the handler it selects
  belongs to a route whose pattern the path is an instance of and whose methods serve the request
  (a capture is one non-empty segment, a trailing wildcard the non-empty rest, \<open>get\<close> also serves
  HEAD).
\<close>

section \<open>Capabilities\<close>

datatype CenterMode = Standalone | Kubernetes

record CenterCapabilities =
  cc_global_resources_inventory :: bool
  cc_user_admin :: bool
  cc_role_admin :: bool
  cc_audit_query :: bool
  cc_controller_history :: bool
  cc_native_rbac :: bool
  cc_leader_election :: bool
  cc_password_login :: bool
  cc_cloudflare_dns_read :: bool
  cc_cloudflare_dns_write :: bool
  cc_route53_dns_read :: bool
  cc_route53_dns_write :: bool
  cc_route53_zone_lifecycle :: bool
  cc_provider_account_admin :: bool
  cc_provider_capability_read :: bool
  cc_provider_credential_inspection :: bool

fun for_mode :: "CenterMode \<Rightarrow> CenterCapabilities" where
  "for_mode Standalone =
     \<lparr>cc_global_resources_inventory = False, cc_user_admin = True, cc_role_admin = True,
      cc_audit_query = True, cc_controller_history = True, cc_native_rbac = False,
      cc_leader_election = False, cc_password_login = True, cc_cloudflare_dns_read = False,
      cc_cloudflare_dns_write = False, cc_route53_dns_read = False, cc_route53_dns_write = False,
      cc_route53_zone_lifecycle = False, cc_provider_account_admin = False,
      cc_provider_capability_read = False, cc_provider_credential_inspection = False\<rparr>"
| "for_mode Kubernetes =
     \<lparr>cc_global_resources_inventory = False, cc_user_admin = False, cc_role_admin = False,
      cc_audit_query = False, cc_controller_history = True, cc_native_rbac = True,
      cc_leader_election = True, cc_password_login = False, cc_cloudflare_dns_read = False,
      cc_cloudflare_dns_write = False, cc_route53_dns_read = False, cc_route53_dns_write = False,
      cc_route53_zone_lifecycle = False, cc_provider_account_admin = False,
      cc_provider_capability_read = False, cc_provider_credential_inspection = False\<rparr>"

text \<open>The part of the API state the router looks at: which services are composed.\<close>

record ApiState =
  api_capabilities :: CenterCapabilities
  has_cloudflare_dns_admin :: bool
  has_cloudflare_dns_write_admin :: bool
  has_route53_dns_admin :: bool
  has_route53_dns_write_admin :: bool
  has_route53_zone_lifecycle_admin :: bool
  has_provider_account_store :: bool
  has_capability_snapshot_store :: bool
  has_credential_inspection_service :: bool

definition effective_capabilities :: "ApiState \<Rightarrow> CenterCapabilities" where
  "effective_capabilities st =
     (let c = api_capabilities st in
      c\<lparr>cc_cloudflare_dns_read := cc_cloudflare_dns_read c \<and> has_cloudflare_dns_admin st,
        cc_cloudflare_dns_write := cc_cloudflare_dns_write c \<and> has_cloudflare_dns_write_admin st,
        cc_route53_dns_read := cc_route53_dns_read c \<and> has_route53_dns_admin st,
        cc_route53_dns_write := cc_route53_dns_write c \<and> has_route53_dns_write_admin st,
        cc_route53_zone_lifecycle := cc_route53_zone_lifecycle c \<and> has_route53_zone_lifecycle_admin st,
        cc_provider_account_admin := cc_provider_account_admin c \<and> has_provider_account_store st,
        cc_provider_capability_read := cc_provider_capability_read c
          \<and> has_provider_account_store st \<and> has_capability_snapshot_store st,
        cc_provider_credential_inspection := cc_provider_credential_inspection c
          \<and> has_credential_inspection_service st\<rparr>)"

section \<open>The route table\<close>

datatype method_filter = Methods "Method list" | AnyMethod

record route =
  rt_pattern :: string
  rt_methods :: method_filter
  rt_handlers :: "string list"
  rt_body_limit :: "nat option"

definition route_at :: "nat option \<Rightarrow> string \<Rightarrow> (Method \<times> string) list \<Rightarrow> route" where
  "route_at limit pattern handlers =
     \<lparr>rt_pattern = pattern, rt_methods = Methods (map fst handlers), rt_handlers = map snd handlers,
      rt_body_limit = limit\<rparr>"

definition core_routes :: "route list" where
  "core_routes =
     [route_at None ''/api/v1/server-info'' [(GET, ''server_info'')],
      route_at None ''/api/v1/controllers'' [(GET, ''list_controllers'')],
      route_at None ''/api/v1/clusters'' [(GET, ''list_clusters'')],
      route_at None ''/api/v1/controllers/{id}/reload'' [(POST, ''reload_controller'')],
      route_at None ''/api/v1/center/region-route-overrides'' [(GET, ''list_region_route_overrides'')],
      route_at None ''/api/v1/center/region-route-overrides/failover'' [(POST, ''region_route_failover'')],
      route_at None ''/api/v1/center/region-route-overrides/sync'' [(POST, ''region_route_override_sync'')],
      \<lparr>rt_pattern = ''/api/v1/proxy/{controller_id}/{*rest}'', rt_methods = AnyMethod,
       rt_handlers = [''proxy_handler''], rt_body_limit = Some (1024 * 1024)\<rparr>]"

definition history_routes :: "route list" where
  "history_routes =
     [route_at None ''/api/v1/center/admin/controllers'' [(GET, ''list_admin_controllers'')],
      route_at None ''/api/v1/center/admin/controllers/{id}'' [(DELETE, ''delete_admin_controller'')]]"

definition global_resource_routes :: "route list" where
  "global_resource_routes =
     [route_at None ''/api/v1/center/global-resources/catalog'' [(GET, ''global_resources::catalog'')],
      route_at None ''/api/v1/center/global-resources/resources/{kind}'' [(GET, ''global_resources::list'')],
      route_at None ''/api/v1/center/global-resources/resources/{kind}/{namespace}/{name}''
        [(GET, ''global_resources::detail'')]]"

definition user_routes :: "route list" where
  "user_routes =
     [route_at None ''/api/v1/center/admin/users''
        [(GET, ''list_users_handler''), (POST, ''create_user_handler'')],
      route_at None ''/api/v1/center/admin/users/{id}''
        [(PATCH, ''update_user_handler''), (DELETE, ''delete_user_handler'')]]"

definition role_routes :: "route list" where
  "role_routes =
     [route_at None ''/api/v1/center/admin/roles''
        [(GET, ''list_roles_handler''), (POST, ''create_role_handler'')],
      route_at None ''/api/v1/center/admin/roles/{id}'' [(DELETE, ''delete_role_handler'')],
      route_at None ''/api/v1/center/admin/roles/{id}/permissions'' [(PUT, ''set_role_permissions_handler'')],
      route_at None ''/api/v1/center/admin/permission-catalog'' [(GET, ''permission_catalog_handler'')]]"

definition audit_routes :: "route list" where
  "audit_routes = [route_at None ''/api/v1/center/admin/audit-logs'' [(GET, ''audit_list_handler'')]]"

definition cloudflare_read_routes :: "route list" where
  "cloudflare_read_routes =
     [route_at None ''/api/v1/center/cloudflare/dns/accounts/{account_id}/zones''
        [(GET, ''cloudflare_dns::list_zones'')],
      route_at None ''/api/v1/center/cloudflare/dns/accounts/{account_id}/zones/{zone_id}''
        [(GET, ''cloudflare_dns::get_zone'')],
      route_at None ''/api/v1/center/cloudflare/dns/accounts/{account_id}/zones/{zone_id}/record-sets''
        [(GET, ''cloudflare_dns::list_record_sets'')],
      route_at None ''/api/v1/center/cloudflare/dns/accounts/{account_id}/zones/{zone_id}/record-sets/{record_type}''
        [(GET, ''cloudflare_dns::get_record_set'')]]"

definition cloudflare_write_routes :: "route list" where
  "cloudflare_write_routes =
     [route_at (Some (64 * 1024)) ''/api/v1/center/cloudflare/dns/accounts/{account_id}/zones''
        [(POST, ''cloudflare_dns::create_zone'')],
      route_at (Some (64 * 1024)) ''/api/v1/center/cloudflare/dns/accounts/{account_id}/zones/{zone_id}''
        [(DELETE, ''cloudflare_dns::delete_zone'')],
      route_at (Some (64 * 1024))
        ''/api/v1/center/cloudflare/dns/accounts/{account_id}/zones/{zone_id}/record-sets/{record_type}''
        [(PUT, ''cloudflare_dns::put_record_set''), (DELETE, ''cloudflare_dns::delete_record_set'')],
      route_at (Some (64 * 1024))
        ''/api/v1/center/cloudflare/dns/accounts/{account_id}/zones/{zone_id}/record-sets/{record_type}/remote-control''
        [(PUT, ''cloudflare_dns::put_remote_record_set'')]]"

definition route53_read_routes :: "route list" where
  "route53_read_routes =
     [route_at None ''/api/v1/center/aws/route53/accounts/{account_id}/hosted-zones''
        [(GET, ''route53_dns::list_zones'')],
      route_at None ''/api/v1/center/aws/route53/accounts/{account_id}/hosted-zones/{zone_id}''
        [(GET, ''route53_dns::get_zone'')],
      route_at None ''/api/v1/center/aws/route53/accounts/{account_id}/hosted-zones/{zone_id}/record-sets''
        [(GET, ''route53_dns::list_record_sets'')],
      route_at None
        ''/api/v1/center/aws/route53/accounts/{account_id}/hosted-zones/{zone_id}/record-sets/{record_type}''
        [(GET, ''route53_dns::get_record_set'')]]"

definition route53_write_routes :: "route list" where
  "route53_write_routes =
     [route_at (Some (1024 * 1024))
        ''/api/v1/center/aws/route53/accounts/{account_id}/hosted-zones/{zone_id}/record-sets/{record_type}''
        [(PUT, ''route53_dns::put_record_set''), (DELETE, ''route53_dns::delete_record_set'')],
      route_at (Some (1024 * 1024))
        ''/api/v1/center/aws/route53/accounts/{account_id}/hosted-zones/{zone_id}/change-batches''
        [(POST, ''route53_dns::apply_change_batch'')],
      route_at (Some (1024 * 1024))
        ''/api/v1/center/aws/route53/accounts/{account_id}/hosted-zones/{zone_id}/changes/{receipt}''
        [(GET, ''route53_dns::get_change'')]]"

definition route53_lifecycle_routes :: "route list" where
  "route53_lifecycle_routes =
     [route_at (Some (64 * 1024)) ''/api/v1/center/aws/route53/accounts/{account_id}/hosted-zones''
        [(POST, ''route53_dns::create_zone'')],
      route_at (Some (64 * 1024))
        ''/api/v1/center/aws/route53/accounts/{account_id}/hosted-zones/{zone_id}/lifecycle''
        [(GET, ''route53_dns::observe_zone_lifecycle''), (DELETE, ''route53_dns::delete_zone'')]]"

definition provider_account_routes :: "route list" where
  "provider_account_routes =
     [route_at (Some (70 * 1024)) ''/api/v1/center/cloud/provider-accounts''
        [(GET, ''provider_accounts::list''), (POST, ''provider_accounts::create'')],
      route_at (Some (70 * 1024)) ''/api/v1/center/cloud/provider-accounts/{account_id}''
        [(GET, ''provider_accounts::get''), (PUT, ''provider_accounts::replace'')]]"

definition provider_capability_routes :: "route list" where
  "provider_capability_routes =
     [route_at None ''/api/v1/center/cloud/provider-capabilities/accounts/{account_id}''
        [(GET, ''provider_capabilities::get'')]]"

definition credential_inspection_routes :: "route list" where
  "credential_inspection_routes =
     [route_at None ''/api/v1/center/cloud/provider-credential-inspections/accounts/{account_id}/refresh''
        [(POST, ''provider_credential_inspections::refresh'')]]"

definition router :: "ApiState \<Rightarrow> route list" where
  "router st =
     (let c = effective_capabilities st in
      core_routes
      @ (if cc_controller_history c then history_routes else [])
      @ (if cc_global_resources_inventory c then global_resource_routes else [])
      @ (if cc_user_admin c then user_routes else [])
      @ (if cc_role_admin c then role_routes else [])
      @ (if cc_audit_query c then audit_routes else [])
      @ (if cc_cloudflare_dns_read c \<and> has_cloudflare_dns_admin st then cloudflare_read_routes else [])
      @ (if cc_cloudflare_dns_write c \<and> has_cloudflare_dns_write_admin st then cloudflare_write_routes else [])
      @ (if cc_route53_dns_read c \<and> has_route53_dns_admin st then route53_read_routes else [])
      @ (if cc_route53_dns_write c \<and> has_route53_dns_write_admin st then route53_write_routes else [])
      @ (if cc_route53_zone_lifecycle c \<and> has_route53_zone_lifecycle_admin st then route53_lifecycle_routes else [])
      @ (if cc_provider_account_admin c \<and> has_provider_account_store st then provider_account_routes else [])
      @ (if cc_provider_capability_read c \<and> has_provider_account_store st \<and> has_capability_snapshot_store st
         then provider_capability_routes else [])
      @ (if cc_provider_credential_inspection c \<and> has_credential_inspection_service st
         then credential_inspection_routes else []))"

section \<open>Composition\<close>

definition add_local_auth_routes :: "bool \<Rightarrow> route list \<Rightarrow> route list" where
  "add_local_auth_routes local_auth_intent routes =
     (if \<not> local_auth_intent then routes
      else routes @ [route_at None ''/api/v1/auth/login'' [(POST, ''login_handler'')],
                     route_at None ''/api/v1/auth/logout'' [(POST, ''logout_handler'')]])"

definition add_auth_identity_route :: "route list \<Rightarrow> route list" where
  "add_auth_identity_route routes = routes @ [route_at None ''/api/v1/auth/me'' [(GET, ''me_handler'')]]"

definition add_auth_status_route :: "route list \<Rightarrow> route list" where
  "add_auth_status_route routes = routes @ [route_at None ''/api/v1/auth/status'' [(GET, ''build_status'')]]"

datatype served =
    Handled string "UnifiedAuthClaims option" "string list option"
  | Responded http_response
  | Unrouted

text \<open>
  A request through the composed layers: authentication, authorisation, and the selected handler
  with the claims and the permission set the layers put in. The list is what the policy was asked.
\<close>

definition compose_admin_routes ::
  "(string \<Rightarrow> string option) \<Rightarrow> (route list \<Rightarrow> Method \<Rightarrow> string \<Rightarrow> string option) \<Rightarrow> ('k, 'a) jose \<Rightarrow> jwt_lib \<Rightarrow>
   'k oidc_env \<Rightarrow> route list \<Rightarrow> bool \<Rightarrow> Authorizer \<Rightarrow> 'k UnifiedAuthState \<Rightarrow> http_request \<Rightarrow>
   Action list \<times> served \<times> 'k UnifiedAuthState" where
  "compose_admin_routes dec dispatch lib jwt e business local_auth_intent policy st rq =
     (let routes = add_auth_status_route (add_auth_identity_route (add_local_auth_routes local_auth_intent business)) in
      case unified_auth_middleware lib jwt e st rq of
        (Answer r, st') \<Rightarrow> ([], Responded (cache_control_no_store_middleware r), st')
      | (RunNext claims, st') \<Rightarrow>
          (case authz_middleware dec policy claims (rq_method rq) (rq_path rq) of
             (asked, Answer r) \<Rightarrow> (asked, Responded (cache_control_no_store_middleware r), st')
           | (asked, RunNext perms) \<Rightarrow>
               (asked,
                (case dispatch routes (rq_method rq) (rq_path rq) of
                   Some h \<Rightarrow> Handled h claims perms
                 | None \<Rightarrow> Unrouted), st')))"

section \<open>Matching\<close>

datatype pattern_seg = Lit string | Capture | Wildcard

definition parse_seg :: "string \<Rightarrow> pattern_seg" where
  "parse_seg s = (if starts_with ''{*'' s then Wildcard else if starts_with ''{'' s then Capture else Lit s)"

definition pattern_segs :: "string \<Rightarrow> pattern_seg list" where
  "pattern_segs p = map parse_seg (split_on CHR ''/'' (tl p))"

fun seg_match :: "pattern_seg list \<Rightarrow> string list \<Rightarrow> bool" where
  "seg_match [] xs = (xs = [])"
| "seg_match (Lit s # ps) xs = (case xs of [] \<Rightarrow> False | x # ys \<Rightarrow> x = s \<and> seg_match ps ys)"
| "seg_match (Capture # ps) xs = (case xs of [] \<Rightarrow> False | x # ys \<Rightarrow> x \<noteq> [] \<and> seg_match ps ys)"
| "seg_match (Wildcard # ps) xs = (xs \<noteq> [] \<and> xs \<noteq> [[]])"

definition pattern_instance :: "string \<Rightarrow> string \<Rightarrow> bool" where
  "pattern_instance p path \<longleftrightarrow>
     starts_with ''/'' path \<and> seg_match (pattern_segs p) (split_on CHR ''/'' (tl path))"

definition serves :: "route \<Rightarrow> Method \<Rightarrow> bool" where
  "serves r m \<longleftrightarrow>
     (case rt_methods r of AnyMethod \<Rightarrow> True | Methods ms \<Rightarrow> m \<in> set ms \<or> (m = HEAD \<and> GET \<in> set ms))"

definition dispatch_sound :: "(route list \<Rightarrow> Method \<Rightarrow> string \<Rightarrow> string option) \<Rightarrow> bool" where
  "dispatch_sound dispatch \<longleftrightarrow>
     (\<forall>routes m path h. dispatch routes m path = Some h \<longrightarrow>
        (\<exists>r. r \<in> set routes \<and> pattern_instance (rt_pattern r) path \<and> serves r m \<and> h \<in> set (rt_handlers r)))"

definition first_match :: "route list \<Rightarrow> Method \<Rightarrow> string \<Rightarrow> string option" where
  "first_match routes m path =
     (case find (\<lambda>r. pattern_instance (rt_pattern r) path \<and> serves r m \<and> rt_handlers r \<noteq> []) routes of
        None \<Rightarrow> None | Some r \<Rightarrow> Some (hd (rt_handlers r)))"

lemma first_match_sound: "dispatch_sound first_match"
  unfolding dispatch_sound_def first_match_def
  by (auto split: option.splits simp: find_Some_iff) (metis list.set_sel(1) nth_mem)

section \<open>The keys of the table\<close>

definition read_key :: "string \<Rightarrow> bool" where
  "read_key k \<longleftrightarrow> ends_with '':read'' k"

lemma not_read_keys [simp]:
  "\<not> read_key CONTROLLERS_WRITE" "\<not> read_key REGION_ROUTES_WRITE" "\<not> read_key PROXY_WRITE"
  "\<not> read_key USERS_MANAGE" "\<not> read_key ROLES_MANAGE" "\<not> read_key CLOUDFLARE_DNS_WRITE"
  "\<not> read_key CLOUDFLARE_DNS_REMOTE_WRITE" "\<not> read_key ROUTE53_DNS_WRITE" "\<not> read_key ROUTE53_ZONES_WRITE"
  "\<not> read_key PROVIDER_ACCOUNTS_WRITE" "\<not> read_key PROVIDER_CREDENTIALS_INSPECT"
  by (simp_all add: read_key_def ends_with_def strip_suffix_def key_defs)

text \<open>
  A route is mapped when every request for it, by a method it was registered with, has a key, and
  one that is not a read key unless the method only reads.
\<close>

definition path_of :: "string list \<Rightarrow> string" where
  "path_of segs = CHR ''/'' # join_with ''/'' segs"

definition registered :: "route \<Rightarrow> Method \<Rightarrow> bool" where
  "registered r m \<longleftrightarrow> (case rt_methods r of AnyMethod \<Rightarrow> True | Methods ms \<Rightarrow> m \<in> set ms)"

definition key_fits :: "Method \<Rightarrow> string option \<Rightarrow> bool" where
  "key_fits m k \<longleftrightarrow> (case k of None \<Rightarrow> False | Some key \<Rightarrow> is_read_method m \<or> \<not> read_key key)"

definition route_mapped :: "route \<Rightarrow> bool" where
  "route_mapped r \<longleftrightarrow>
     (\<forall>segs m. seg_match (pattern_segs (rt_pattern r)) segs \<longrightarrow> list_all (\<lambda>s. CHR ''/'' \<notin> set s) segs \<longrightarrow>
        registered r m \<longrightarrow> key_fits m (route_permission m (path_of segs)))"

lemma pattern_instance_segs:
  assumes "pattern_instance p path"
  shows "\<exists>segs. path = path_of segs \<and> seg_match (pattern_segs p) segs \<and> list_all (\<lambda>s. CHR ''/'' \<notin> set s) segs"
proof -
  from assms obtain rest where "path = CHR ''/'' # rest"
    by (cases path) (auto simp: pattern_instance_def)
  with assms show ?thesis
    by (intro exI [of _ "split_on CHR ''/'' rest"])
      (auto simp: pattern_instance_def path_of_def join_split_on list_all_iff dest: split_on_no_sep)
qed

lemmas table_simps =
  route_mapped_def route_at_def registered_def key_fits_def pattern_segs_def parse_seg_def path_of_def

lemma seg_match_iffs:
  "seg_match (Lit s # ps) xs \<longleftrightarrow> (\<exists>ys. xs = s # ys \<and> seg_match ps ys)"
  "seg_match (Capture # ps) xs \<longleftrightarrow> (\<exists>x ys. xs = x # ys \<and> x \<noteq> [] \<and> seg_match ps ys)"
  by (cases xs; auto)+


lemmas permission_eval =
  route_permission_def under_segment_def is_cloudflare_remote_control_path_def route53_dns_route_def
  route53_segments_def is_capability_path_def is_inspection_path_def admin_permission_def
  cloudflare_key_def provider_account_key_def then_some_def is_read_method_def Let_def
  split_on_eval split_acc_part split_acc_end strip_suffix_def

lemma route_mappedI:
  assumes "\<And>segs m. seg_match (pattern_segs (rt_pattern r)) segs \<Longrightarrow> list_all (\<lambda>s. CHR ''/'' \<notin> set s) segs \<Longrightarrow>
    registered r m \<Longrightarrow> key_fits m (route_permission m (path_of segs))"
  shows "route_mapped r"
  using assms by (simp add: route_mapped_def)


lemmas all_route_defs =
  core_routes_def history_routes_def global_resource_routes_def user_routes_def role_routes_def audit_routes_def
  cloudflare_read_routes_def cloudflare_write_routes_def route53_read_routes_def route53_write_routes_def
  route53_lifecycle_routes_def provider_account_routes_def provider_capability_routes_def
  credential_inspection_routes_def

lemma center_routes_mapped:
  "list_all route_mapped (core_routes @ history_routes @ global_resource_routes @ user_routes @ role_routes @ audit_routes)"
  unfolding all_route_defs append.simps list.pred_inject
  by (intro conjI TrueI route_mappedI;
      clarsimp simp: table_simps seg_match_iffs split_on_eval simp del: split_on.simps seg_match.simps(2,3);
      simp add: permission_eval del: split_on.simps; auto simp: is_read_method_def)

lemma provider_routes_mapped:
  "list_all route_mapped (cloudflare_read_routes @ cloudflare_write_routes @ route53_read_routes @ route53_write_routes
     @ route53_lifecycle_routes @ provider_account_routes @ provider_capability_routes @ credential_inspection_routes)"
  unfolding all_route_defs append.simps list.pred_inject
  by (intro conjI TrueI route_mappedI;
      clarsimp simp: table_simps seg_match_iffs split_on_eval simp del: split_on.simps seg_match.simps(2,3);
      simp add: permission_eval del: split_on.simps; auto simp: is_read_method_def)

lemma router_routes:
  "set (router st) \<subseteq> set ((core_routes @ history_routes @ global_resource_routes @ user_routes @ role_routes @ audit_routes)
     @ (cloudflare_read_routes @ cloudflare_write_routes @ route53_read_routes @ route53_write_routes
     @ route53_lifecycle_routes @ provider_account_routes @ provider_capability_routes @ credential_inspection_routes))"
  unfolding router_def Let_def by auto

lemma router_mapped: "r \<in> set (router st) \<Longrightarrow> route_mapped r"
  using router_routes [of st] center_routes_mapped provider_routes_mapped
  unfolding list_all_append by (auto simp: list_all_iff)

lemma route_has_key:
  assumes "r \<in> set (router st)" "pattern_instance (rt_pattern r) path" "registered r m"
  shows "\<exists>key. route_permission m path = Some key \<and> is_known_key key \<and> (is_read_method m \<or> \<not> read_key key)"
proof -
  obtain segs where "path = path_of segs" "seg_match (pattern_segs (rt_pattern r)) segs"
    "list_all (\<lambda>s. CHR ''/'' \<notin> set s) segs" using pattern_instance_segs [OF assms(2)] by blast
  with router_mapped [OF assms(1)] assms(3) have "key_fits m (route_permission m path)"
    by (simp add: route_mapped_def)
  then show ?thesis by (auto simp: key_fits_def is_known_key_def dest: route_permission_known split: option.splits)
qed

text \<open>
  C16: Every route of the table is in the catalogue: whatever is composed, a request that is an instance
  of a registered route and uses one of its registered methods has a permission key, and a
  method that changes something never gets by with a read key.
\<close>

theorem every_route_has_a_key:
  assumes "r \<in> set (router st)" "pattern_instance (rt_pattern r) path" "registered r m"
  shows "\<exists>key. route_permission m path = Some key \<and> is_known_key key \<and> (is_read_method m \<or> \<not> read_key key)"
  using assms by (rule route_has_key)

definition sample_api :: ApiState where
  "sample_api =
     \<lparr>api_capabilities = for_mode Standalone, has_cloudflare_dns_admin = False, has_cloudflare_dns_write_admin = False,
      has_route53_dns_admin = False, has_route53_dns_write_admin = False, has_route53_zone_lifecycle_admin = False,
      has_provider_account_store = False, has_capability_snapshot_store = False,
      has_credential_inspection_service = False\<rparr>"

lemma sample_reload_route:
  "route_at None ''/api/v1/controllers/{id}/reload'' [(POST, ''reload_controller'')] \<in> set (router sample_api)"
  by (simp add: router_def Let_def core_routes_def)

lemma sample_reload_path: "pattern_instance ''/api/v1/controllers/{id}/reload'' ''/api/v1/controllers/c~1/reload''"
  by (simp add: pattern_instance_def pattern_segs_def parse_seg_def split_on_eval del: split_on.simps)

theorem every_route_has_a_key_witness:
  "\<exists>key. route_permission POST ''/api/v1/controllers/c~1/reload'' = Some key \<and> \<not> read_key key"
  using every_route_has_a_key [OF sample_reload_route, of "''/api/v1/controllers/c~1/reload''" POST] sample_reload_path
  by (auto simp: route_at_def registered_def is_read_method_def)

section \<open>The composed service\<close>

lemma compose_Handled:
  assumes "compose_admin_routes dec dispatch lib jwt e business intent policy st rq = (asked, Handled h claims perms, st')"
  shows "unified_auth_middleware lib jwt e st rq = (RunNext claims, st')
    \<and> authz_middleware dec policy claims (rq_method rq) (rq_path rq) = (asked, RunNext perms)
    \<and> dispatch (add_auth_status_route (add_auth_identity_route (add_local_auth_routes intent business)))
        (rq_method rq) (rq_path rq) = Some h"
  using assms by (auto simp: compose_admin_routes_def Let_def split: prod.splits layer.splits option.splits)

lemma business_not_allowlisted: "is_business_path path \<Longrightarrow> \<not> is_skip_allowlisted path"
  by (auto simp: is_business_path_def is_skip_allowlisted_def public_defs)

lemma authz_RunNext_Some:
  assumes "authz_middleware dec policy (Some c) m path = (asked, RunNext perms)"
  shows "\<exists>ps. perms = Some ps"
  using assms by (auto simp: authz_middleware_def map_prod_def split: option.splits prod.splits)

lemma auth_routes_not_business:
  assumes "r \<in> set (add_auth_status_route (add_auth_identity_route (add_local_auth_routes intent routes)))"
    and "pattern_instance (rt_pattern r) path" "is_business_path path"
  shows "r \<in> set routes"
proof (rule ccontr)
  assume "r \<notin> set routes"
  with assms(1) have "pattern_segs (rt_pattern r) \<in>
      {[Lit ''api'', Lit ''v1'', Lit ''auth'', Lit ''login''], [Lit ''api'', Lit ''v1'', Lit ''auth'', Lit ''logout''],
       [Lit ''api'', Lit ''v1'', Lit ''auth'', Lit ''me''], [Lit ''api'', Lit ''v1'', Lit ''auth'', Lit ''status'']}"
    by (auto simp: add_auth_status_route_def add_auth_identity_route_def add_local_auth_routes_def route_at_def
        pattern_segs_def parse_seg_def split_on_eval simp del: split_on.simps split: if_splits)
  with pattern_instance_segs [OF assms(2)] assms(3) show False
    by (auto simp: seg_match_iffs path_of_def is_business_path_def simp del: seg_match.simps(2,3))
qed

lemma route_selected:
  assumes run: "compose_admin_routes dec dispatch lib jwt e routes intent policy st rq = (asked, Handled h claims perms, st')"
    and axum: "dispatch_sound dispatch" and path: "is_business_path (rq_path rq)" and m: "\<not> is_read_method (rq_method rq)"
  shows "\<exists>r. r \<in> set routes \<and> pattern_instance (rt_pattern r) (rq_path rq) \<and> registered r (rq_method rq)"
proof -
  from compose_Handled [OF run] axum obtain r where
    "r \<in> set (add_auth_status_route (add_auth_identity_route (add_local_auth_routes intent routes)))"
    "pattern_instance (rt_pattern r) (rq_path rq)" "serves r (rq_method rq)"
    unfolding dispatch_sound_def by blast
  moreover from this(3) m have "registered r (rq_method rq)"
    by (auto simp: serves_def registered_def is_read_method_def split: method_filter.splits)
  ultimately show ?thesis using auth_routes_not_business path by blast
qed

lemma handler_authorised:
  assumes st: "auth_state build hash lib jwt st"
    and run: "compose_admin_routes dec dispatch lib jwt e business intent policy st rq = (asked, Handled h claims perms, st')"
    and path: "is_business_path (rq_path rq)" "\<not> is_public_discovery_endpoint (rq_path rq)"
    and bypass: "\<not> rq_bypass rq"
  shows "\<exists>token c who actions. request_token rq = Some token \<and> claims = Some c
    \<and> claims_established lib jwt e st token c \<and> principal_of c = Some who
    \<and> required_actions dec (rq_method rq) (rq_path rq) = Some actions \<and> list_all (allows policy who) actions"
proof -
  note parts = compose_Handled [OF run]
  from parts have auth: "unified_auth_middleware lib jwt e st rq = (RunNext claims, st')"
    and authz: "authz_middleware dec policy claims (rq_method rq) (rq_path rq) = (asked, RunNext perms)" by blast+
  have "\<not> is_skip_allowlisted (rq_path rq)" using path(1) by (rule business_not_allowlisted)
  then have protected: "rq_path rq \<notin> set (us_skip_paths st) \<and> \<not> is_public_auth_endpoint (rq_path rq)"
    using protected_path [OF auth_state_skips [OF st]] path(2) by blast
  with auth bypass obtain token where t: "request_token rq = Some token"
    and "try_providers lib jwt e st token = (RunNext claims, st')"
    by (auto simp: unified_auth_middleware_def Let_def split: if_splits option.splits)
  then obtain c where c: "claims = Some c" "claims_established lib jwt e st token c"
    using try_providers_RunNext by blast
  with authz obtain ps where "snd (authz_middleware dec policy (Some c) (rq_method rq) (rq_path rq)) = RunNext (Some ps)"
    using authz_RunNext_Some by fastforce
  with t c passes_iff [OF path(1)] show ?thesis by blast
qed

text \<open>
  C2: From the connection to the handler. Whatever the operator configured and whichever policy is
  installed, the handler of a business path other than the discovery endpoint runs only for a
  request whose token one of the providers validated, and only when the policy allowed every
  action that request needs to the principal of those claims. The two layers answer all other
  requests themselves.
\<close>

theorem business_handlers_are_authorised:
  assumes st: "auth_state build hash lib jwt st"
    and run: "compose_admin_routes dec dispatch lib jwt e business intent policy st rq = (asked, Handled h claims perms, st')"
    and path: "is_business_path (rq_path rq)" "\<not> is_public_discovery_endpoint (rq_path rq)"
    and bypass: "\<not> rq_bypass rq"
  shows "\<exists>token c who actions. request_token rq = Some token \<and> claims = Some c
    \<and> claims_established lib jwt e st token c \<and> principal_of c = Some who
    \<and> required_actions dec (rq_method rq) (rq_path rq) = Some actions \<and> list_all (allows policy who) actions"
  using assms by (rule handler_authorised)

text \<open>
  The same for what the authorisation is worth: a handler of the route table that was reached with a
  method that changes something was reached because the policy allowed, for that very path, an
  action whose key is in the catalogue and is no read key.
\<close>

theorem mutations_need_a_write_key:
  assumes st: "auth_state build hash lib jwt st"
    and run: "compose_admin_routes dec dispatch lib jwt e (router api) intent policy st rq = (asked, Handled h claims perms, st')"
    and path: "is_business_path (rq_path rq)" "\<not> is_public_discovery_endpoint (rq_path rq)"
    and bypass: "\<not> rq_bypass rq" and axum: "dispatch_sound dispatch" and m: "\<not> is_read_method (rq_method rq)"
  shows "\<exists>who action. allows policy who action \<and> act_request_path action = Some (rq_path rq)
    \<and> is_known_key (act_permission action) \<and> \<not> read_key (act_permission action)"
proof -
  have "\<exists>r. r \<in> set (router api) \<and> pattern_instance (rt_pattern r) (rq_path rq) \<and> registered r (rq_method rq)"
    using route_selected [OF run axum path(1) m] .
  then obtain r key where "route_permission (rq_method rq) (rq_path rq) = Some key"
    and key: "is_known_key key" "\<not> read_key key"
    using route_has_key m by blast
  moreover obtain c who actions where "principal_of c = Some who"
    "required_actions dec (rq_method rq) (rq_path rq) = Some actions" "list_all (allows policy who) actions"
    using handler_authorised [OF st run path bypass] by blast
  ultimately obtain a where "action_for_request dec key (rq_method rq) (rq_path rq) = Inr a" "allows policy who a"
    by (auto simp: required_actions_def split: sum.splits if_splits)
  then have "allows policy who a \<and> act_request_path a = Some (rq_path rq) \<and> act_permission a = key"
    by (auto simp: action_for_request_def and_then_eq_Inr)
  with key show ?thesis by blast
qed

definition sample_post :: http_request where
  "sample_post =
     \<lparr>rq_method = POST, rq_path = ''/api/v1/controllers/c~1/reload'', rq_authorization = None,
      rq_cookie = Some ''edgion_token=h.p.s'', rq_bypass = False\<rparr>"

lemma sample_post_path:
  "is_business_path (rq_path sample_post)" "\<not> is_public_discovery_endpoint (rq_path sample_post)"
  "\<not> rq_bypass sample_post" "\<not> is_read_method (rq_method sample_post)"
  by (simp_all add: sample_post_def is_business_path_def public_defs is_read_method_def)

lemma sample_post_authenticated:
  "\<exists>st'. unified_auth_middleware sample_jose sample_jwt sample_oidc_env sample_auth sample_post = (RunNext (Some
     \<lparr>uc_provider = Local, uc_sub = Some ''admin'', uc_iss = None, uc_groups = [],
      uc_claims = JObject [(''sub'', JString ''admin''), (''iat'', JNumber ''86400''), (''exp'', JNumber ''86400'')]\<rparr>), st')"
proof -
  have "request_token sample_post = Some ''h.p.s''"
    by (rule request_token_presented [OF sample_token_text]) (simp add: presents_def sample_post_def)
  then show ?thesis
    by (simp add: unified_auth_middleware_def sample_auth_def sample_post_def public_defs try_providers_def
        try_local_def try_local_validation_def) (simp add: sample_jwt_def)
qed

lemma sample_post_key: "route_permission POST ''/api/v1/controllers/c~1/reload'' = Some CONTROLLERS_WRITE"
  by (simp add: permission_eval del: split_on.simps)

lemma sample_post_target: "is_ok (action_for_request Some CONTROLLERS_WRITE POST ''/api/v1/controllers/c~1/reload'')"
proof -
  have g: "list_all graphic ''c/1''" by (simp add: graphic_def byte_def)
  have "identifier_new ''controller'' ''c/1'' = Inr ''c/1''"
    using trim_graphic [OF g] has_control_graphic [OF g] by (simp add: identifier_new_def del: has_control.simps)
  then show ?thesis
    by (simp add: action_for_request_def encoded_controller_id_def target_controller_id_def tilde_to_slash_def
        split_on_eval Let_def del: split_on.simps)
qed

lemma sample_post_authorised:
  "\<exists>asked. authz_middleware Some allow_all_authorizer (Some
     \<lparr>uc_provider = Local, uc_sub = Some ''admin'', uc_iss = None, uc_groups = [],
      uc_claims = JObject [(''sub'', JString ''admin''), (''iat'', JNumber ''86400''), (''exp'', JNumber ''86400'')]\<rparr>)
     POST ''/api/v1/controllers/c~1/reload'' = (asked, RunNext (Some [CONTROLLERS_WRITE]))"
  using sample_post_target
  by (auto simp: authz_middleware_def principal_of_def sample_post_key authz_mapped_def is_ok_def
      allow_all_authorizer_def decision_allow_def writes_provider_account_def map_layer_def split: sum.splits)

lemma sample_post_handled:
  "\<exists>asked claims perms st'. compose_admin_routes Some first_match sample_jose sample_jwt sample_oidc_env (router sample_api)
     False allow_all_authorizer sample_auth sample_post = (asked, Handled ''reload_controller'' claims perms, st')"
proof -
  have "\<exists>rest. router sample_api = core_routes @ rest" by (auto simp: router_def Let_def)
  then obtain rest where r: "router sample_api = core_routes @ rest" by blast
  have "first_match (add_auth_status_route (add_auth_identity_route (add_local_auth_routes False (router sample_api))))
      POST ''/api/v1/controllers/c~1/reload'' = Some ''reload_controller''"
    unfolding r
    by (simp add: first_match_def add_auth_status_route_def add_auth_identity_route_def add_local_auth_routes_def
        core_routes_def route_at_def pattern_instance_def pattern_segs_def parse_seg_def serves_def split_on_eval
        del: split_on.simps)
  with sample_post_authenticated sample_post_authorised show ?thesis
    by (fastforce simp: compose_admin_routes_def Let_def sample_post_def)
qed

theorem business_handlers_are_authorised_witness:
  "\<exists>token c. request_token sample_post = Some token \<and> claims_established sample_jose sample_jwt sample_oidc_env sample_auth token c"
proof -
  obtain asked claims perms st' where run: "compose_admin_routes Some first_match sample_jose sample_jwt sample_oidc_env
      (router sample_api) False allow_all_authorizer sample_auth sample_post = (asked, Handled ''reload_controller'' claims perms, st')"
    using sample_post_handled by blast
  from business_handlers_are_authorised [OF sample_auth_state run] sample_post_path show ?thesis by blast
qed

theorem mutations_need_a_write_key_witness:
  "\<exists>who action. allows allow_all_authorizer who action \<and> act_request_path action = Some (rq_path sample_post)
    \<and> \<not> read_key (act_permission action)"
proof -
  obtain asked claims perms st' where run: "compose_admin_routes Some first_match sample_jose sample_jwt sample_oidc_env
      (router sample_api) False allow_all_authorizer sample_auth sample_post = (asked, Handled ''reload_controller'' claims perms, st')"
    using sample_post_handled by blast
  from mutations_need_a_write_key [OF sample_auth_state run] sample_post_path first_match_sound show ?thesis by blast
qed

text \<open>
  The discovery endpoint is a business path with the key \<open>server:read\<close>, and no policy is ever asked
  about it: it is on the skip list of every authentication state, so its requests carry no claims
  and pass the authorisation layer untouched.
\<close>

theorem server_info_key_is_never_checked:
  assumes "from_configs build hash ac lc req = Inr st"
  shows "is_business_path ''/api/v1/server-info'' \<and> route_permission m ''/api/v1/server-info'' = Some SERVER_READ
    \<and> (rq_path rq = ''/api/v1/server-info'' \<longrightarrow>
         fst (compose_admin_routes dec dispatch lib jwt e business intent policy st rq) = []
         \<and> (\<forall>r. fst (snd (compose_admin_routes dec dispatch lib jwt e business intent policy st rq)) \<noteq> Responded r))"
proof -
  have "''/api/v1/server-info'' \<in> set (us_skip_paths st)"
    using assms by (auto simp: from_configs_def and_then_eq_Inr PUBLIC_DISCOVERY_ENDPOINTS_def)
  then have "rq_path rq = ''/api/v1/server-info'' \<Longrightarrow> unified_auth_middleware lib jwt e st rq = (RunNext None, st)"
    by (simp add: unified_auth_middleware_def)
  then show ?thesis
    by (auto simp: is_business_path_def permission_eval compose_admin_routes_def authz_middleware_def
        simp del: split_on.simps split: option.splits)
qed

theorem server_info_key_is_never_checked_witness:
  "fst (compose_admin_routes Some first_match sample_jose sample_jwt sample_oidc_env [] False denying_authorizer
     \<lparr>us_oidc = None, us_local = None, us_skip_paths = PUBLIC_PROBE_PATHS @ PUBLIC_DISCOVERY_ENDPOINTS,
      us_require_auth = True\<rparr> (sample_get ''/api/v1/server-info'' None)) = []"
proof -
  have "from_configs (\<lambda>_. Inr ()) id None None True = Inr (\<lparr>us_oidc = None, us_local = None,
      us_skip_paths = PUBLIC_PROBE_PATHS @ PUBLIC_DISCOVERY_ENDPOINTS, us_require_auth = True\<rparr> :: string UnifiedAuthState)"
    by (simp add: from_configs_def oidc_from_configs_def local_from_configs_def)
  from server_info_key_is_never_checked [OF this, where rq = "sample_get ''/api/v1/server-info'' None" and lib = sample_jose]
  show ?thesis by (simp add: sample_get_def)
qed

text \<open>
  A HEAD request for a Route 53 read: axum serves it by the handler of GET, other reads of the API
  accept it with the key of GET, and here the route map has no key, so it needs the synthetic
  action that no role grants.
\<close>

theorem route53_head_is_unmapped:
  assumes "x \<noteq> []" "CHR ''/'' \<notin> set x"
  shows "route_permission GET (''/api/v1/center/aws/route53/accounts/'' @ x @ ''/hosted-zones'') = Some ROUTE53_DNS_READ
    \<and> route_permission HEAD (''/api/v1/center/aws/route53/accounts/'' @ x @ ''/hosted-zones'') = None"
  using assms by (simp add: permission_eval del: split_on.simps)

theorem route53_head_is_unmapped_witness:
  "route_permission HEAD ''/api/v1/center/aws/route53/accounts/a/hosted-zones'' = None"
  using route53_head_is_unmapped [of "''a''"] by simp

end
