(* ===== verification/Account_Store.thy ===== *)
theory Account_Store
  imports Cloud_Resources
begin

text \<open>
  The store of provider accounts on custom resources, \<open>provider_account_store.rs\<close> and \<open>provider_account_crd.rs\<close>
  of \<open>crates/center-adapter-kubernetes/src\<close>. The typed API of kube-rs is a record of operations on a world;
  \<open>serde_json\<close> and SHA-256 are parameters. What the store promises its clients is the locale
  \<open>account_store\<close>: a replacement is a compare-and-swap on the generation.
\<close>

section \<open>The custom resource\<close>

record EdgionProviderAccountSpec =
  eas_contract_version :: int
  eas_account_id :: string
  eas_desired_generation :: int
  eas_desired_json :: string

text \<open>The fields of \<open>ObjectMeta\<close> that the store uses; the server sets the revision and the generation.\<close>

record EdgionProviderAccount =
  ea_name :: "string option"
  ea_generation :: "int option"
  ea_resource_version :: "string option"
  ea_labels :: "(string \<times> string) list"
  ea_spec :: EdgionProviderAccountSpec

record account_codec =
  ak_json :: "ProviderAccountDesired \<Rightarrow> string option"
  ak_unjson :: "string \<Rightarrow> ProviderAccountDesired option"
  ak_sha256_hex :: "string \<Rightarrow> string"

definition encoded_len :: "account_codec \<Rightarrow> ProviderAccountDesired \<Rightarrow> nat option" where
  "encoded_len k d = map_option length (ak_json k d)"

definition account_spec_new :: "account_codec \<Rightarrow> string \<Rightarrow> u64 \<Rightarrow> ProviderAccountDesired \<Rightarrow> string + EdgionProviderAccountSpec" where
  "account_spec_new k account_id generation d =
     (if i64_MAX_u64 < generation then Inl ''provider account generation exceeds Kubernetes range''
      else case ak_json k d of
        None \<Rightarrow> Inl ''provider account desired state is not serializable''
      | Some json \<Rightarrow>
          Inr \<lparr>eas_contract_version = 1, eas_account_id = account_id, eas_desired_generation = uint generation, eas_desired_json = json\<rparr>)"

text \<open>Why a document is refused is not kept.\<close>

definition account_spec_to_core :: "account_codec \<Rightarrow> EdgionProviderAccountSpec \<Rightarrow> ProviderAccount option" where
  "account_spec_to_core k s =
     (if eas_contract_version s \<noteq> 1 then None
      else if validate_resource_id (eas_account_id s) \<noteq> Inr () then None
      else if eas_desired_generation s < 0 then None
      else case ak_unjson k (eas_desired_json s) of
        None \<Rightarrow> None
      | Some d \<Rightarrow>
          if ak_json k d \<noteq> Some (eas_desired_json s) then None
          else (case provider_account_from_desired (encoded_len k) (eas_account_id s) (word_of_int (eas_desired_generation s)) d of
                  Inl _ \<Rightarrow> None
                | Inr a \<Rightarrow> Some a))"

section \<open>The store\<close>

definition ACCOUNT_CONFLICT_RETRIES :: nat where "ACCOUNT_CONFLICT_RETRIES = 8"

datatype AccountResourceError = AccConflict | AccNotFound | AccOther

text \<open>\<open>From<kube::Error>\<close>: the code of an API error, or any other error.\<close>

fun account_resource_error :: "nat option \<Rightarrow> AccountResourceError" where
  "account_resource_error (Some code) = (if code = 409 then AccConflict else if code = 404 then AccNotFound else AccOther)"
| "account_resource_error None = AccOther"

record 'w account_resources =
  ar_get :: "string \<Rightarrow> 'w \<Rightarrow> (AccountResourceError + EdgionProviderAccount option) \<times> 'w"
  ar_list :: "'w \<Rightarrow> (AccountResourceError + EdgionProviderAccount list) \<times> 'w"
  ar_create :: "EdgionProviderAccount \<Rightarrow> 'w \<Rightarrow> (AccountResourceError + EdgionProviderAccount) \<times> 'w"
  ar_replace :: "string \<Rightarrow> EdgionProviderAccount \<Rightarrow> 'w \<Rightarrow> (AccountResourceError + EdgionProviderAccount) \<times> 'w"

definition account_store_new :: "string \<Rightarrow> unit CoreResult" where
  "account_store_new namespace =
     (if trim namespace = [] \<or> has_control namespace
      then Inl (Adapter ''Kubernetes provider account namespace must be non-empty'') else Inr ())"

fun account_adapter_error :: "AccountResourceError \<Rightarrow> CoreError" where
  "account_adapter_error AccConflict = Conflict ''Kubernetes resourceVersion conflict''"
| "account_adapter_error AccNotFound = Adapter ''Kubernetes provider account was not found''"
| "account_adapter_error AccOther = Adapter ''Kubernetes provider account request failed''"

definition provider_account_resource_name :: "account_codec \<Rightarrow> string \<Rightarrow> string CoreResult" where
  "provider_account_resource_name k account_id =
     and_then (validate_resource_id account_id) (\<lambda>_. Inr (''provider-account-'' @ take 40 (ak_sha256_hex k account_id)))"

definition verify_account_id :: "account_codec \<Rightarrow> EdgionProviderAccount \<Rightarrow> string \<Rightarrow> unit CoreResult" where
  "verify_account_id k resource expected =
     (if eas_account_id (ea_spec resource) \<noteq> expected then Inl (Adapter ''provider account CRD name collision'')
      else and_then (provider_account_resource_name k expected) (\<lambda>expected_name.
        if ea_name resource \<noteq> Some expected_name then
          Inl (Adapter ''provider account CRD name does not match its account identity'')
        else Inr ()))"

definition account_core :: "account_codec \<Rightarrow> EdgionProviderAccount \<Rightarrow> ProviderAccount CoreResult" where
  "account_core k resource =
     (case ea_generation resource of
        None \<Rightarrow> Inl (Adapter ''provider account CRD omitted metadata.generation'')
      | Some metadata_generation \<Rightarrow>
          if metadata_generation \<noteq> eas_desired_generation (ea_spec resource) then
            Inl (Adapter ''provider account CRD generation does not match desired generation'')
          else (case account_spec_to_core k (ea_spec resource) of
            None \<Rightarrow> Inl (Adapter ''invalid provider account CRD'')
          | Some account \<Rightarrow>
              and_then (verify_account_id k resource (acc_id account)) (\<lambda>_.
                if validate_stored_provider_account (encoded_len k) account \<noteq> Inr () then
                  Inl (Adapter ''provider account CRD contains invalid stored state'')
                else Inr account)))"

definition account_new_resource :: "account_codec \<Rightarrow> string \<Rightarrow> string \<Rightarrow> u64 \<Rightarrow> ProviderAccountDesired \<Rightarrow> EdgionProviderAccount CoreResult" where
  "account_new_resource k name account_id generation d =
     (case account_spec_new k account_id generation d of
        Inl message \<Rightarrow> Inl (Conflict message)
      | Inr spec \<Rightarrow>
          Inr \<lparr>ea_name = Some name, ea_generation = None, ea_resource_version = None,
               ea_labels = [(''app.kubernetes.io/managed-by'', ''edgion-center'')], ea_spec = spec\<rparr>)"

type_synonym ('w, 'a) account_call = "'w \<Rightarrow> 'a CoreResult \<times> 'w"

text \<open>A read of the resource of an account, and the rest of an operation after a result.\<close>

definition call_then :: "('w, 'a) account_call \<Rightarrow> ('a \<Rightarrow> ('w, 'b) account_call) \<Rightarrow> ('w, 'b) account_call" where
  "call_then m f w = (case m w of (Inl e, w') \<Rightarrow> (Inl e, w') | (Inr x, w') \<Rightarrow> f x w')"

definition call_lift :: "'a CoreResult \<Rightarrow> ('w, 'a) account_call" where
  "call_lift r w = (r, w)"

definition get_resource :: "'w account_resources \<Rightarrow> string \<Rightarrow> ('w, EdgionProviderAccount option) account_call" where
  "get_resource res name w = (case ar_get res name w of (Inl e, w') \<Rightarrow> (Inl (account_adapter_error e), w') | (Inr x, w') \<Rightarrow> (Inr x, w'))"

definition account_load :: "account_codec \<Rightarrow> 'w account_resources \<Rightarrow> string \<Rightarrow> ('w, EdgionProviderAccount option) account_call" where
  "account_load k res account_id =
     call_then (call_lift (provider_account_resource_name k account_id)) (\<lambda>name.
     call_then (get_resource res name) (\<lambda>found.
       call_lift (case found of
         None \<Rightarrow> Inr None
       | Some resource \<Rightarrow> and_then (verify_account_id k resource account_id) (\<lambda>_. Inr (Some resource)))))"

datatype ProviderAccountCreateResult = AccountCreated ProviderAccount | AccountAlreadyExists

datatype ProviderAccountReplaceResult = AccountStored ProviderAccount | AccountNotFound | GenerationMismatch u64

definition account_create ::
  "account_codec \<Rightarrow> 'w account_resources \<Rightarrow> string \<Rightarrow> ProviderAccountDesired \<Rightarrow> ('w, ProviderAccountCreateResult) account_call" where
  "account_create k res account_id d =
     call_then (call_lift (and_then (validate_resource_id account_id) (\<lambda>_. validate_desired (encoded_len k) d))) (\<lambda>_.
     call_then (call_lift (provider_account_resource_name k account_id)) (\<lambda>name.
     call_then (call_lift (account_new_resource k name account_id 1 d)) (\<lambda>resource w.
       case ar_create res resource w of
         (Inr created, w1) \<Rightarrow>
           (and_then (verify_account_id k created account_id) (\<lambda>_.
            and_then (account_core k created) (\<lambda>account. Inr (AccountCreated account))), w1)
       | (Inl AccConflict, w1) \<Rightarrow>
           call_then (get_resource res name) (\<lambda>existing.
             call_lift (case existing of
               None \<Rightarrow> Inl (Conflict ''provider account create conflicted with a disappearing resource'')
             | Some resource \<Rightarrow>
                 and_then (verify_account_id k resource account_id) (\<lambda>_.
                 and_then (account_core k resource) (\<lambda>_. Inr AccountAlreadyExists)))) w1
       | (Inl e, w1) \<Rightarrow> (Inl (account_adapter_error e), w1))))"

definition account_get :: "account_codec \<Rightarrow> 'w account_resources \<Rightarrow> string \<Rightarrow> ('w, ProviderAccount option) account_call" where
  "account_get k res account_id =
     call_then (call_lift (validate_resource_id account_id)) (\<lambda>_.
     call_then (account_load k res account_id) (\<lambda>found.
       call_lift (case found of
         None \<Rightarrow> Inr None
       | Some resource \<Rightarrow> and_then (account_core k resource) (\<lambda>a. Inr (Some a)))))"

text \<open>The page of a listing, from the accounts that were read.\<close>

fun collect_accounts :: "account_codec \<Rightarrow> EdgionProviderAccount list \<Rightarrow> ProviderAccount list CoreResult" where
  "collect_accounts k [] = Inr []"
| "collect_accounts k (r # rs) = and_then (account_core k r) (\<lambda>a. and_then (collect_accounts k rs) (\<lambda>as. Inr (a # as)))"

definition after_boundary :: "string option \<Rightarrow> ProviderAccount \<Rightarrow> bool" where
  "after_boundary after a \<longleftrightarrow> (case after of None \<Rightarrow> True | Some i \<Rightarrow> i < acc_id a)"

definition account_page :: "ProviderAccountPageRequest \<Rightarrow> ProviderAccount list \<Rightarrow> ProviderAccountPage" where
  "account_page page accounts =
     (let rest = filter (after_boundary (apr_after page)) (sort_key acc_id accounts);
          items = take (unat (apr_limit page)) rest
      in \<lparr>ap_items = items, ap_next = (if unat (apr_limit page) < length rest then Some (acc_id (last items)) else None)\<rparr>)"

definition account_list ::
  "account_codec \<Rightarrow> 'w account_resources \<Rightarrow> ProviderAccountPageRequest \<Rightarrow> ('w, ProviderAccountPage) account_call" where
  "account_list k res page =
     call_then (call_lift (validate_account_page_request page)) (\<lambda>_.
     call_then (\<lambda>w. case ar_list res w of (Inl e, w') \<Rightarrow> (Inl (account_adapter_error e), w') | (Inr rs, w') \<Rightarrow> (Inr rs, w')) (\<lambda>resources.
     call_then (call_lift (collect_accounts k resources)) (\<lambda>accounts.
       call_lift (and_then (validate_account_page (encoded_len k) (account_page page accounts) page) (\<lambda>_.
         Inr (account_page page accounts))))))"

text \<open>The attempts of a replacement; a conflict is retried.\<close>

fun replace_attempts ::
  "account_codec \<Rightarrow> 'w account_resources \<Rightarrow> string \<Rightarrow> string \<Rightarrow> u64 \<Rightarrow> ProviderAccountDesired \<Rightarrow> nat \<Rightarrow> ('w, ProviderAccountReplaceResult) account_call" where
  "replace_attempts k res account_id name expected d 0 w = (Inl (Conflict ''Kubernetes provider account update remained contended''), w)"
| "replace_attempts k res account_id name expected d (Suc n) w =
     (case account_load k res account_id w of
        (Inl e, w1) \<Rightarrow> (Inl e, w1)
      | (Inr None, w1) \<Rightarrow> (Inr AccountNotFound, w1)
      | (Inr (Some resource), w1) \<Rightarrow>
          (case account_core k resource of
             Inl e \<Rightarrow> (Inl e, w1)
           | Inr current \<Rightarrow>
               if md_generation (acc_metadata current) \<noteq> expected then
                 (Inr (GenerationMismatch (md_generation (acc_metadata current))), w1)
               else
                 (case account_spec_new k account_id (expected + 1) d of
                    Inl message \<Rightarrow> (Inl (Conflict message), w1)
                  | Inr spec \<Rightarrow>
                      (case ar_replace res name (resource\<lparr>ea_spec := spec\<rparr>) w1 of
                         (Inr stored, w2) \<Rightarrow>
                           (and_then (verify_account_id k stored account_id) (\<lambda>_.
                            and_then (account_core k stored) (\<lambda>a. Inr (AccountStored a))), w2)
                       | (Inl AccConflict, w2) \<Rightarrow> replace_attempts k res account_id name expected d n w2
                       | (Inl AccNotFound, w2) \<Rightarrow> (Inr AccountNotFound, w2)
                       | (Inl e, w2) \<Rightarrow> (Inl (account_adapter_error e), w2)))))"

definition account_replace_if_generation ::
  "account_codec \<Rightarrow> 'w account_resources \<Rightarrow> string \<Rightarrow> u64 \<Rightarrow> ProviderAccountDesired \<Rightarrow> ('w, ProviderAccountReplaceResult) account_call" where
  "account_replace_if_generation k res account_id expected d =
     call_then (call_lift (and_then (validate_resource_id account_id) (\<lambda>_. validate_desired (encoded_len k) d))) (\<lambda>_.
       if expected = 0 \<or> i64_MAX_u64 \<le> expected then
         call_lift (Inl (Conflict ''provider account expected generation is outside the persistence range''))
       else
         call_then (call_lift (provider_account_resource_name k account_id)) (\<lambda>name.
           replace_attempts k res account_id name expected d ACCOUNT_CONFLICT_RETRIES))"


section \<open>The contract of a store\<close>

abbreviation acc_gen :: "ProviderAccount \<Rightarrow> u64" where
  "acc_gen a \<equiv> md_generation (acc_metadata a)"

text \<open>
  The worlds are the moments of one history, and other clients act between any two operations: a read
  tells what is stored at its end, and a replacement that succeeds was a compare-and-swap on the generation
  at one moment. While an account is only updated, and never deleted and created again, a generation
  moreover names one content.
\<close>

locale account_store =
  fixes get :: "string \<Rightarrow> ('w, ProviderAccount option) account_call"
    and replace :: "string \<Rightarrow> u64 \<Rightarrow> ProviderAccountDesired \<Rightarrow> ('w, ProviderAccountReplaceResult) account_call"
    and account_at :: "'w \<Rightarrow> string \<Rightarrow> ProviderAccount option"
    and evolves :: "'w \<Rightarrow> 'w \<Rightarrow> bool"
  assumes evolves_trans: "evolves u v \<Longrightarrow> evolves v w \<Longrightarrow> evolves u w"
    and get_reads: "get i w = (r, w') \<Longrightarrow> evolves w w' \<and> (\<forall>x. r = Inr x \<longrightarrow> account_at w' i = x)"
    and replace_evolves: "replace i g d w = (result, w') \<Longrightarrow> evolves w w'"
    and replace_swaps: "replace i g d w = (Inr (AccountStored a), w') \<Longrightarrow>
      \<exists>w1 old. evolves w w1 \<and> evolves w1 w' \<and> account_at w1 i = Some old \<and> acc_gen old = g
        \<and> account_at w' i = Some a \<and> from_account a = d \<and> acc_id a = i \<and> acc_gen a = g + 1"

locale updated_account_store = account_store +
  assumes generation_fixes: "evolves w w' \<Longrightarrow> account_at w i = Some a \<Longrightarrow> account_at w' i = Some b \<Longrightarrow> acc_gen a = acc_gen b \<Longrightarrow> a = b"
begin

text \<open>What a client saw before it asked for a replacement of that generation is what was replaced.\<close>

lemma checked_replacement:
  assumes "get i w = (Inr (Some seen), w1)" "replace i (acc_gen seen) d w1 = (Inr (AccountStored a), w')"
  shows "\<exists>w2. evolves w1 w2 \<and> evolves w2 w' \<and> account_at w2 i = Some seen
    \<and> account_at w' i = Some a \<and> from_account a = d \<and> acc_id a = i \<and> acc_gen a = acc_gen seen + 1"
proof -
  obtain w2 old where o: "evolves w1 w2" "evolves w2 w'" "account_at w2 i = Some old" "acc_gen old = acc_gen seen"
    "account_at w' i = Some a" "from_account a = d" "acc_id a = i" "acc_gen a = acc_gen seen + 1"
    using replace_swaps [OF assms(2)] by blast
  have "account_at w1 i = Some seen" using get_reads [OF assms(1)] by simp
  from generation_fixes [OF o(1) this o(3)] o show ?thesis by metis
qed

end

section \<open>The API server\<close>

text \<open>
  What is documented of the server: reads are of the current state, a replacement is refused unless the
  revision is the stored one, and a revision names one content. By the validation rule of the custom
  resource an update changes the spec only together with its generation, an \<open>i64\<close> that grows;
  this holds of histories without a deletion and a new creation of the same name.
\<close>

definition account_server ::
  "'w account_resources \<Rightarrow> ('w \<Rightarrow> string \<Rightarrow> EdgionProviderAccount option) \<Rightarrow> ('w \<Rightarrow> 'w \<Rightarrow> bool) \<Rightarrow> bool" where
  "account_server res stored evolves \<longleftrightarrow>
     (\<forall>w. evolves w w) \<and> (\<forall>u v w. evolves u v \<and> evolves v w \<longrightarrow> evolves u w)
     \<and> (\<forall>name w r w'. ar_get res name w = (r, w') \<longrightarrow> evolves w w' \<and> (\<forall>x. r = Inr x \<longrightarrow> stored w' name = x))
     \<and> (\<forall>name v w r w'. ar_replace res name v w = (r, w') \<longrightarrow> evolves w w')
     \<and> (\<forall>name v w s w'. ar_replace res name v w = (Inr s, w') \<longrightarrow>
          (\<exists>w1 old. evolves w w1 \<and> evolves w1 w' \<and> stored w1 name = Some old \<and> ea_resource_version old = ea_resource_version v
             \<and> stored w' name = Some s \<and> ea_spec s = ea_spec v))
     \<and> (\<forall>w w' name a b. evolves w w' \<and> stored w name = Some a \<and> stored w' name = Some b \<longrightarrow>
          (ea_resource_version a = ea_resource_version b \<longrightarrow> a = b))"

definition generations_grow :: "('w \<Rightarrow> string \<Rightarrow> EdgionProviderAccount option) \<Rightarrow> ('w \<Rightarrow> 'w \<Rightarrow> bool) \<Rightarrow> bool" where
  "generations_grow stored evolves \<longleftrightarrow>
     (\<forall>w w' name a b. evolves w w' \<and> stored w name = Some a \<and> stored w' name = Some b \<longrightarrow>
          ea_spec a = ea_spec b \<or> eas_desired_generation (ea_spec a) < eas_desired_generation (ea_spec b))
     \<and> (\<forall>w name a. stored w name = Some a \<longrightarrow> eas_desired_generation (ea_spec a) < 2 ^ 63)"

text \<open>The account a reader finds.\<close>

definition account_at :: "account_codec \<Rightarrow> ('w \<Rightarrow> string \<Rightarrow> EdgionProviderAccount option) \<Rightarrow> 'w \<Rightarrow> string \<Rightarrow> ProviderAccount option" where
  "account_at k stored w account_id =
     (case provider_account_resource_name k account_id of
        Inl _ \<Rightarrow> None
      | Inr name \<Rightarrow>
          (case stored w name of
             None \<Rightarrow> None
           | Some r \<Rightarrow>
               if verify_account_id k r account_id = Inr () then (case account_core k r of Inr a \<Rightarrow> Some a | Inl _ \<Rightarrow> None) else None))"

text \<open>\<open>serde_json\<close> reads back what it wrote.\<close>

definition codec_reads_back :: "account_codec \<Rightarrow> bool" where
  "codec_reads_back k \<longleftrightarrow> (\<forall>d j. ak_json k d = Some j \<longrightarrow> ak_unjson k j = Some d)"

lemma call_then_eq_Inr: "call_then m f w = (Inr x, w') \<longleftrightarrow> (\<exists>y w1. m w = (Inr y, w1) \<and> f y w1 = (Inr x, w'))"
  by (auto simp: call_then_def split: prod.splits sum.splits)

lemma call_lift_simp [simp]: "call_lift r w = (r, w)"
  by (simp add: call_lift_def)

lemma account_from_desired:
  assumes "provider_account_from_desired len i g d = Inr a"
  shows "from_account a = d" "acc_id a = i" "acc_gen a = g"
  using assms by (auto simp: provider_account_from_desired_def and_then_eq_Inr Let_def from_account_def split: if_splits)

lemma account_core_ok:
  assumes "account_core k r = Inr a"
  shows "ak_unjson k (eas_desired_json (ea_spec r)) = Some (from_account a)" "acc_id a = eas_account_id (ea_spec r)"
    "acc_gen a = word_of_int (eas_desired_generation (ea_spec r))" "verify_account_id k r (acc_id a) = Inr ()"
    "0 < eas_desired_generation (ea_spec r)"
proof -
  obtain d where d: "account_spec_to_core k (ea_spec r) = Some a" "verify_account_id k r (acc_id a) = Inr ()"
    using assms by (auto simp: account_core_def and_then_eq_Inr split: option.splits if_splits)
  from d(1) obtain d where spec: "ak_unjson k (eas_desired_json (ea_spec r)) = Some d" "0 \<le> eas_desired_generation (ea_spec r)"
    "provider_account_from_desired (encoded_len k) (eas_account_id (ea_spec r)) (word_of_int (eas_desired_generation (ea_spec r))) d = Inr a"
    by (auto simp: account_spec_to_core_def split: option.splits if_splits sum.splits)
  note account_from_desired [OF spec(3)]
  with spec d(2) show "ak_unjson k (eas_desired_json (ea_spec r)) = Some (from_account a)" "acc_id a = eas_account_id (ea_spec r)"
    "acc_gen a = word_of_int (eas_desired_generation (ea_spec r))" "verify_account_id k r (acc_id a) = Inr ()" by auto
  have "(word_of_int (eas_desired_generation (ea_spec r)) :: u64) \<noteq> 0"
    using spec(3) by (auto simp: provider_account_from_desired_def and_then_eq_Inr split: if_splits)
  with spec(2) show "0 < eas_desired_generation (ea_spec r)" by (cases "eas_desired_generation (ea_spec r) = 0") auto
qed

lemma account_core_spec:
  "account_core k a = Inr x \<Longrightarrow> account_core k b = Inr y \<Longrightarrow> ea_spec a = ea_spec b \<Longrightarrow> x = y"
  by (auto simp: account_core_def and_then_eq_Inr split: option.splits if_splits)

lemma account_generation_fixes:
  assumes "generations_grow stored evolves" "evolves w w'" "account_at k stored w i = Some a" "account_at k stored w' i = Some b"
    and "acc_gen a = acc_gen b"
  shows "a = b"
proof -
  obtain name r s where r: "provider_account_resource_name k i = Inr name" "stored w name = Some r" "account_core k r = Inr a"
    "stored w' name = Some s" "account_core k s = Inr b"
    using assms(3,4) by (auto simp: account_at_def split: sum.splits option.splits if_splits)
  have bounds: "0 < eas_desired_generation (ea_spec r)" "eas_desired_generation (ea_spec r) < 2 ^ 63"
    "0 < eas_desired_generation (ea_spec s)" "eas_desired_generation (ea_spec s) < 2 ^ 63"
    using account_core_ok(5) [OF r(3)] account_core_ok(5) [OF r(5)] assms(1) r(2,4) unfolding generations_grow_def by blast+
  have "(word_of_int (eas_desired_generation (ea_spec r)) :: u64) = word_of_int (eas_desired_generation (ea_spec s))"
    using account_core_ok(3) [OF r(3)] account_core_ok(3) [OF r(5)] assms(5) by simp
  then have "take_bit 64 (eas_desired_generation (ea_spec r)) = take_bit 64 (eas_desired_generation (ea_spec s))"
    by (simp add: word_of_int_eq_iff)
  then have "eas_desired_generation (ea_spec r) = eas_desired_generation (ea_spec s)"
    using bounds by (simp add: take_bit_int_eq_self)
  moreover have "ea_spec r = ea_spec s \<or> eas_desired_generation (ea_spec r) < eas_desired_generation (ea_spec s)"
    using assms(1,2) r(2,4) unfolding generations_grow_def by blast
  ultimately show ?thesis using account_core_spec [OF r(3,5)] by simp
qed


section \<open>The store keeps its contract\<close>

lemma server_evolves:
  assumes "account_server res stored evolves"
  shows "evolves w w" "evolves u v \<Longrightarrow> evolves v w \<Longrightarrow> evolves u w"
    "ar_get res name w = (r, w') \<Longrightarrow> evolves w w'" "ar_get res name w = (Inr x, w') \<Longrightarrow> stored w' name = x"
    "ar_replace res name value w = (s, w') \<Longrightarrow> evolves w w'"
proof -
  note laws = assms [unfolded account_server_def]
  show "evolves w w" using laws [THEN conjunct1] by blast
  show "evolves u v \<Longrightarrow> evolves v w \<Longrightarrow> evolves u w" using laws [THEN conjunct2, THEN conjunct1] by blast
  show "ar_get res name w = (r, w') \<Longrightarrow> evolves w w'" "ar_get res name w = (Inr x, w') \<Longrightarrow> stored w' name = x"
    using laws [THEN conjunct2, THEN conjunct2, THEN conjunct1] by blast+
  show "ar_replace res name value w = (s, w') \<Longrightarrow> evolves w w'"
    using laws [THEN conjunct2, THEN conjunct2, THEN conjunct2, THEN conjunct1] by blast
qed

lemma server_swaps:
  assumes "account_server res stored evolves" "ar_replace res name value w = (Inr s, w')"
  shows "\<exists>w1 old. evolves w w1 \<and> evolves w1 w' \<and> stored w1 name = Some old \<and> ea_resource_version old = ea_resource_version value
    \<and> stored w' name = Some s \<and> ea_spec s = ea_spec value"
  using assms unfolding account_server_def by blast

lemma server_revisions:
  assumes "account_server res stored evolves" "evolves w w'" "stored w name = Some a" "stored w' name = Some b"
    and "ea_resource_version a = ea_resource_version b"
  shows "a = b"
  using assms unfolding account_server_def by blast

lemma load_reads:
  assumes "account_server res stored evolves" "account_load k res i w = (r, w')"
  shows "evolves w w'" "r = Inr found \<Longrightarrow> \<exists>name. provider_account_resource_name k i = Inr name \<and> stored w' name = found
    \<and> (\<forall>resource. found = Some resource \<longrightarrow> verify_account_id k resource i = Inr ())"
  using assms(2) server_evolves [OF assms(1)]
  by (auto simp: account_load_def call_then_def get_resource_def and_then_eq_Inr split: prod.splits sum.splits option.splits)

lemma account_get_reads:
  assumes "account_server res stored evolves" "account_get k res i w = (r, w')"
  shows "evolves w w' \<and> (\<forall>x. r = Inr x \<longrightarrow> account_at k stored w' i = x)"
proof -
  obtain v where v: "validate_resource_id i = v" by blast
  show ?thesis
  proof (cases v)
    case (Inl e)
    then show ?thesis using assms(2) v server_evolves(1) [OF assms(1)] by (auto simp: account_get_def call_then_def)
  next
    case (Inr u)
    obtain l w1 where l: "account_load k res i w = (l, w1)" by fastforce
    note read = load_reads [OF assms(1) l]
    have "w' = w1" using assms(2) v Inr l by (auto simp: account_get_def call_then_def split: sum.splits)
    moreover have "account_at k stored w1 i = x" if ok: "r = Inr x" for x
    proof -
      obtain found where found: "l = Inr found" "(case found of None \<Rightarrow> Inr None | Some resource \<Rightarrow> and_then (account_core k resource) (\<lambda>a. Inr (Some a))) = Inr x"
        using assms(2) v Inr l ok by (auto simp: account_get_def call_then_def split: sum.splits)
      from read(2) [OF found(1)] found(2) show ?thesis
        by (auto simp: account_at_def and_then_eq_Inr split: option.splits)
    qed
    ultimately show ?thesis using read(1) by blast
  qed
qed

text \<open>One attempt of a replacement that is stored.\<close>

lemma attempt_swaps:
  assumes server: "account_server res stored evolves" and codec: "codec_reads_back k"
    and name: "provider_account_resource_name k i = Inr name"
    and load: "account_load k res i w = (Inr (Some resource), w1)" and current: "account_core k resource = Inr current"
    and spec: "account_spec_new k i (acc_gen current + 1) d = Inr spec"
    and sent: "ar_replace res name (resource\<lparr>ea_spec := spec\<rparr>) w1 = (Inr s, w')"
    and checked: "verify_account_id k s i = Inr ()" "account_core k s = Inr a"
  shows "\<exists>w2. evolves w w2 \<and> evolves w2 w' \<and> account_at k stored w2 i = Some current
    \<and> account_at k stored w' i = Some a \<and> from_account a = d \<and> acc_id a = i \<and> acc_gen a = acc_gen current + 1"
proof -
  note ev = server_evolves [OF server]
  from load_reads [OF server load] name have l: "evolves w w1" "stored w1 name = Some resource" "verify_account_id k resource i = Inr ()" by auto
  obtain w2 old where o: "evolves w1 w2" "evolves w2 w'" "stored w2 name = Some old"
    "ea_resource_version old = ea_resource_version resource" "stored w' name = Some s" "ea_spec s = spec"
    using server_swaps [OF server sent] by auto
  have "old = resource" using server_revisions [OF server o(1) l(2) o(3)] o(4) by simp
  then have "account_at k stored w2 i = Some current" using name o(3) l(3) current by (simp add: account_at_def)
  moreover have "account_at k stored w' i = Some a" using name o(5) checked by (simp add: account_at_def)
  moreover have spec_eq: "ak_json k d = Some (eas_desired_json spec)" "eas_account_id spec = i" "eas_desired_generation spec = uint (acc_gen current + 1)"
    using spec by (auto simp: account_spec_new_def split: if_splits option.splits)
  moreover have "ak_unjson k (eas_desired_json spec) = Some d" using codec spec_eq(1) by (simp add: codec_reads_back_def)
  ultimately show ?thesis using account_core_ok(1-3) [OF checked(2)] o(2,6) ev(2) [OF l(1) o(1)] by auto
qed

lemma replace_attempts_swap:
  assumes server: "account_server res stored evolves" and codec: "codec_reads_back k" and name: "provider_account_resource_name k i = Inr name"
  shows "replace_attempts k res i name g d n w = (r, w') \<Longrightarrow> evolves w w' \<and> (\<forall>a. r = Inr (AccountStored a) \<longrightarrow>
    (\<exists>w1 old. evolves w w1 \<and> evolves w1 w' \<and> account_at k stored w1 i = Some old \<and> acc_gen old = g
       \<and> account_at k stored w' i = Some a \<and> from_account a = d \<and> acc_id a = i \<and> acc_gen a = g + 1))"
proof (induction n arbitrary: w)
  case 0
  then show ?case using server_evolves(1) [OF server] by auto
next
  case (Suc n)
  note ev = server_evolves [OF server]
  obtain l w1 where l: "account_load k res i w = (l, w1)" by fastforce
  note read = load_reads [OF server l]
  show ?case
  proof (cases "\<exists>resource current spec. l = Inr (Some resource) \<and> account_core k resource = Inr current \<and> acc_gen current = g
      \<and> account_spec_new k i (g + 1) d = Inr spec")
    case False
    then have "w' = w1 \<and> (\<forall>a. r \<noteq> Inr (AccountStored a))"
      using Suc.prems l by (auto split: sum.splits option.splits if_splits)
    then show ?thesis using read(1) by blast
  next
    case True
    then obtain resource current spec where t: "l = Inr (Some resource)" "account_core k resource = Inr current" "acc_gen current = g"
      "account_spec_new k i (g + 1) d = Inr spec" by blast
    obtain s w2 where s: "ar_replace res name (resource\<lparr>ea_spec := spec\<rparr>) w1 = (s, w2)" by fastforce
    have w2: "evolves w w2" using ev(2) [OF read(1) ev(5) [OF s]] .
    show ?thesis
    proof (cases s)
      case (Inl e)
      then show ?thesis
        using Suc.prems Suc.IH [of w2] l t s w2 ev(2) [OF w2] by (cases e) fastforce+
    next
      case (Inr stored')
      have run: "r = and_then (verify_account_id k stored' i) (\<lambda>_. and_then (account_core k stored') (\<lambda>a. Inr (AccountStored a)))" "w' = w2"
        using Suc.prems l t s Inr by auto
      have "\<exists>w1 old. evolves w w1 \<and> evolves w1 w' \<and> account_at k stored w1 i = Some old \<and> acc_gen old = g
          \<and> account_at k stored w' i = Some a \<and> from_account a = d \<and> acc_id a = i \<and> acc_gen a = g + 1" if "r = Inr (AccountStored a)" for a
        using attempt_swaps [OF server codec name, of w resource w1 current d spec stored' w2 a] that run l t s Inr
        by (auto simp: and_then_eq_Inr)
      then show ?thesis using w2 run(2) by blast
    qed
  qed
qed

lemma kube_account_store:
  assumes "account_server res stored evolves" "codec_reads_back k"
  shows "account_store (account_get k res) (account_replace_if_generation k res) (account_at k stored) evolves"
proof
  note ev = server_evolves [OF assms(1)]
  show "evolves u v \<Longrightarrow> evolves v w \<Longrightarrow> evolves u w" for u v w by (rule ev(2))
  show "account_get k res i w = (r, w') \<Longrightarrow> evolves w w' \<and> (\<forall>x. r = Inr x \<longrightarrow> account_at k stored w' i = x)" for i w r w'
    by (rule account_get_reads [OF assms(1)])
  have run: "r \<noteq> Inr (AccountStored a) \<and> w' = w \<or> (\<exists>name. provider_account_resource_name k i = Inr name
      \<and> replace_attempts k res i name g d ACCOUNT_CONFLICT_RETRIES w = (r, w'))"
    if "account_replace_if_generation k res i g d w = (r, w')" for i g d w r w' a
    using that by (auto simp: account_replace_if_generation_def call_then_def split: sum.splits if_splits)
  show "evolves w w'" if "account_replace_if_generation k res i g d w = (r, w')" for i g d w r w'
    using run [OF that, of undefined] replace_attempts_swap [OF assms] ev(1) by blast
  show "\<exists>w1 old. evolves w w1 \<and> evolves w1 w' \<and> account_at k stored w1 i = Some old \<and> acc_gen old = g
      \<and> account_at k stored w' i = Some a \<and> from_account a = d \<and> acc_id a = i \<and> acc_gen a = g + 1"
    if "account_replace_if_generation k res i g d w = (Inr (AccountStored a), w')" for i g d w a w'
    using run [OF that, of a] replace_attempts_swap [OF assms] by blast
qed


section \<open>A server\<close>

text \<open>
  A server that has the documented behaviour, with other clients that write between any two calls: each
  call is preceded by the next of their attempts. A replacement needs the stored revision and obeys the
  validation rule of the resource; every write makes the revision longer.
\<close>

record kube_world =
  kw_db :: "string \<Rightarrow> EdgionProviderAccount option"
  kw_others :: "(string \<times> EdgionProviderAccount) list"

definition next_revision :: "EdgionProviderAccount \<Rightarrow> string option" where
  "next_revision old = Some ((case ea_resource_version old of None \<Rightarrow> [] | Some r \<Rightarrow> r) @ ''.'')"

definition kube_put :: "string \<Rightarrow> EdgionProviderAccount \<Rightarrow> (string \<Rightarrow> EdgionProviderAccount option) \<Rightarrow> (AccountResourceError + EdgionProviderAccount)" where
  "kube_put name v db =
     (case db name of
        None \<Rightarrow> Inl AccNotFound
      | Some old \<Rightarrow>
          if ea_resource_version old \<noteq> ea_resource_version v then Inl AccConflict
          else if ea_spec v = ea_spec old then Inr (v\<lparr>ea_resource_version := next_revision old, ea_generation := ea_generation old\<rparr>)
          else if eas_desired_generation (ea_spec v) = eas_desired_generation (ea_spec old) + 1 \<and> eas_desired_generation (ea_spec v) < 2 ^ 63
          then Inr (v\<lparr>ea_resource_version := next_revision old, ea_generation := map_option (\<lambda>g. g + 1) (ea_generation old)\<rparr>)
          else Inl AccOther)"

definition kube_update :: "string \<Rightarrow> EdgionProviderAccount \<Rightarrow> (string \<Rightarrow> EdgionProviderAccount option) \<Rightarrow> (string \<Rightarrow> EdgionProviderAccount option)" where
  "kube_update name v db = (case kube_put name v db of Inl _ \<Rightarrow> db | Inr s \<Rightarrow> db(name \<mapsto> s))"

definition others_write :: "kube_world \<Rightarrow> kube_world" where
  "others_write w = (case kw_others w of [] \<Rightarrow> w | (name, v) # rest \<Rightarrow> w\<lparr>kw_db := kube_update name v (kw_db w), kw_others := rest\<rparr>)"

text \<open>Documents beyond the range of the generation do not exist.\<close>

definition kube_stored :: "kube_world \<Rightarrow> string \<Rightarrow> EdgionProviderAccount option" where
  "kube_stored w name = (case kw_db w name of Some a \<Rightarrow> if eas_desired_generation (ea_spec a) < 2 ^ 63 then Some a else None | None \<Rightarrow> None)"

definition kube_resources :: "kube_world account_resources" where
  "kube_resources =
     \<lparr>ar_get = (\<lambda>name w. let w' = others_write w in (Inr (kube_stored w' name), w')),
      ar_list = (\<lambda>w. (Inl AccOther, w)),
      ar_create = (\<lambda>v w. (Inl AccConflict, w)),
      ar_replace = (\<lambda>name v w.
        let w1 = others_write w
        in case kube_put name v (kw_db w1) of
             Inl e \<Rightarrow> (Inl e, w1)
           | Inr s \<Rightarrow> if kube_stored w1 name = None then (Inl AccOther, w1) else (Inr s, w1\<lparr>kw_db := (kw_db w1)(name \<mapsto> s)\<rparr>))\<rparr>"

inductive kube_evolves :: "kube_world \<Rightarrow> kube_world \<Rightarrow> bool" where
  same_db: "kw_db v = kw_db w \<Longrightarrow> kube_evolves w v"
| later_write: "kube_evolves w v \<Longrightarrow> kw_db u = kube_update name x (kw_db v) \<Longrightarrow> kube_evolves w u"

lemma kube_evolves_trans: "kube_evolves v w \<Longrightarrow> kube_evolves u v \<Longrightarrow> kube_evolves u w"
proof (induction rule: kube_evolves.induct)
  case (same_db v w)
  from same_db.prems same_db.hyps show ?case
    by (cases rule: kube_evolves.cases) (auto intro: kube_evolves.intros)
next
  case (later_write w v u name x)
  then show ?case by (blast intro: kube_evolves.later_write)
qed

definition revision_rank :: "EdgionProviderAccount \<Rightarrow> nat" where
  "revision_rank a = (case ea_resource_version a of None \<Rightarrow> 0 | Some r \<Rightarrow> Suc (length r))"

text \<open>A later document is the same one, or its revision is larger and its spec the same or of a larger generation.\<close>

definition kube_later :: "EdgionProviderAccount \<Rightarrow> EdgionProviderAccount \<Rightarrow> bool" where
  "kube_later a b \<longleftrightarrow> a = b \<or> revision_rank a < revision_rank b
     \<and> (ea_spec a = ea_spec b \<or> eas_desired_generation (ea_spec a) < eas_desired_generation (ea_spec b))"

lemma kube_put_later: "kube_put name v db = Inr s \<Longrightarrow> db name = Some old \<Longrightarrow> kube_later old s"
  by (auto simp: kube_put_def kube_later_def revision_rank_def next_revision_def split: if_splits option.splits)

lemma kube_evolves_later:
  "kube_evolves w w' \<Longrightarrow> kw_db w name = Some a \<Longrightarrow> \<exists>b. kw_db w' name = Some b \<and> kube_later a b"
proof (induction arbitrary: a rule: kube_evolves.induct)
  case (later_write w v u n x)
  then obtain b where b: "kw_db v name = Some b" "kube_later a b" by blast
  show ?case
  proof (cases "kube_put n x (kw_db v)")
    case (Inl e)
    then show ?thesis using later_write b by (simp add: kube_update_def)
  next
    case (Inr s)
    then have "kw_db u = (kw_db v)(n \<mapsto> s)" using later_write by (simp add: kube_update_def)
    moreover have "kube_later a s" if "n = name"
      using kube_put_later [OF Inr, of b] b that by (auto simp: kube_later_def)
    ultimately show ?thesis using b by auto
  qed
qed (auto simp: kube_later_def)

lemma others_write_evolves: "kube_evolves w (others_write w)"
  unfolding others_write_def
  by (auto intro: kube_evolves.intros split: list.split)

lemma kube_stored_later:
  assumes "kube_evolves w w'" "kube_stored w name = Some a" "kube_stored w' name = Some b"
  shows "kube_later a b"
  using assms kube_evolves_later [of w w' name a]
  by (auto simp: kube_stored_def split: option.splits if_splits)

lemma kube_server: "account_server kube_resources kube_stored kube_evolves"
  unfolding account_server_def
proof (intro conjI allI impI)
  show "kube_evolves w w" for w by (rule same_db) simp
  show "kube_evolves u v \<and> kube_evolves v w \<Longrightarrow> kube_evolves u w" for u v w by (blast intro: kube_evolves_trans)
  show "kube_evolves w w'" if "ar_get kube_resources name w = (r, w')" for name w r w'
    using that others_write_evolves by (auto simp: kube_resources_def Let_def)
  show "kube_stored w' name = x" if "ar_get kube_resources name w = (r, w')" "r = Inr x" for name w r w' x
    using that by (auto simp: kube_resources_def Let_def)
  have put: "kube_evolves w1 (w1\<lparr>kw_db := (kw_db w1)(name \<mapsto> s)\<rparr>)" if "kube_put name v (kw_db w1) = Inr s" for w1 name v s
    by (rule later_write [where v = w1 and name = name and x = v]) (simp_all add: same_db kube_update_def that)
  show "kube_evolves w w'" if "ar_replace kube_resources name v w = (r, w')" for name v w r w'
    using that others_write_evolves [of w] kube_evolves_trans [OF put others_write_evolves]
    by (auto simp: kube_resources_def Let_def split: sum.splits if_splits)
  show "\<exists>w1 old. kube_evolves w w1 \<and> kube_evolves w1 w' \<and> kube_stored w1 name = Some old \<and> ea_resource_version old = ea_resource_version v
      \<and> kube_stored w' name = Some s \<and> ea_spec s = ea_spec v"
    if run: "ar_replace kube_resources name v w = (Inr s, w')" for name v w s w'
  proof -
    define w1 where "w1 = others_write w"
    obtain old where p: "kube_put name v (kw_db w1) = Inr s" "kube_stored w1 name = Some old" "w' = w1\<lparr>kw_db := (kw_db w1)(name \<mapsto> s)\<rparr>"
      using run by (auto simp: kube_resources_def Let_def w1_def [symmetric] split: sum.splits if_splits)
    have old: "kw_db w1 name = Some old" "eas_desired_generation (ea_spec old) < 2 ^ 63"
      using p(2) by (auto simp: kube_stored_def split: option.splits if_splits)
    have s: "ea_resource_version old = ea_resource_version v" "ea_spec s = ea_spec v" "eas_desired_generation (ea_spec s) < 2 ^ 63"
      using p(1) old by (auto simp: kube_put_def split: if_splits)
    then have "kube_stored w' name = Some s" using p(3) by (simp add: kube_stored_def)
    then show ?thesis using others_write_evolves [of w] put [OF p(1)] p(2,3) s w1_def by blast
  qed
  show "a = b" if "kube_evolves w w' \<and> kube_stored w name = Some a \<and> kube_stored w' name = Some b"
    "ea_resource_version a = ea_resource_version b" for w w' name a b
    using kube_stored_later [of w w' name a b] that by (auto simp: kube_later_def revision_rank_def)
qed

lemma kube_generations_grow: "generations_grow kube_stored kube_evolves"
  unfolding generations_grow_def
proof (intro conjI allI impI)
  show "ea_spec a = ea_spec b \<or> eas_desired_generation (ea_spec a) < eas_desired_generation (ea_spec b)"
    if "kube_evolves w w' \<and> kube_stored w name = Some a \<and> kube_stored w' name = Some b" for w w' name a b
    using kube_stored_later [of w w' name a b] that by (auto simp: kube_later_def)
  show "eas_desired_generation (ea_spec a) < 2 ^ 63" if "kube_stored w name = Some a" for w name a
    using that by (auto simp: kube_stored_def split: option.splits if_splits)
qed

definition example_codec :: account_codec where
  "example_codec = \<lparr>ak_json = (\<lambda>d. if d = example_desired then Some ''d'' else None),
     ak_unjson = (\<lambda>j. if j = ''d'' then Some example_desired else None), ak_sha256_hex = (\<lambda>_. ''0a'')\<rparr>"

lemma example_codec_reads_back: "codec_reads_back example_codec"
  by (simp add: codec_reads_back_def example_codec_def)

interpretation kube_accounts: updated_account_store "account_get example_codec kube_resources"
  "account_replace_if_generation example_codec kube_resources" "account_at example_codec kube_stored" kube_evolves
proof (rule updated_account_store.intro)
  show "account_store (account_get example_codec kube_resources)
      (account_replace_if_generation example_codec kube_resources) (account_at example_codec kube_stored) kube_evolves"
    by (rule kube_account_store [OF kube_server example_codec_reads_back])
  show "updated_account_store_axioms (account_at example_codec kube_stored) kube_evolves"
    by unfold_locales (rule account_generation_fixes [OF kube_generations_grow])
qed

text \<open>
  C31: A replacement that is reported as stored was a compare-and-swap, whatever other clients did between its
  calls, deletion and creation of the same name included, and however often it was retried: at one moment the account had the expected generation, and what
  is stored after it is the account with the desired state and the next generation.
\<close>

theorem replacement_is_compare_and_swap:
  assumes "account_server res stored evolves" "codec_reads_back k"
    and "account_replace_if_generation k res i g d w = (Inr (AccountStored a), w')"
  shows "\<exists>w1 old. evolves w w1 \<and> evolves w1 w' \<and> account_at k stored w1 i = Some old \<and> acc_gen old = g
    \<and> account_at k stored w' i = Some a \<and> from_account a = d \<and> acc_id a = i \<and> acc_gen a = g + 1"
  by (rule account_store.replace_swaps [OF kube_account_store [OF assms(1,2)] assms(3)])

section \<open>Listings\<close>

lemma after_boundary_drop:
  assumes "sorted_wrt (<) (map acc_id xs)" "m \<le> length xs"
  shows "filter (after_boundary (if m = 0 then None else Some (acc_id (xs ! (m - 1))))) xs = drop m xs"
proof (cases m)
  case (Suc n)
  have lt: "acc_id (xs ! i) < acc_id (xs ! j)" if "i < j" "j < length xs" for i j
    using sorted_wrt_nth_less [OF assms(1), of i j] that by simp
  have le: "\<not> acc_id (xs ! n) < acc_id (xs ! i)" if "i < m" for i
    using lt [of i n] that assms(2) Suc by (cases "i = n") (auto dest: less_asym)
  have "filter (after_boundary (Some (acc_id (xs ! n)))) (take m xs) = []"
    using le assms(2) by (auto simp: filter_empty_conv in_set_conv_nth after_boundary_def)
  moreover have "filter (after_boundary (Some (acc_id (xs ! n)))) (drop m xs) = drop m xs"
    using lt assms(2) Suc by (auto simp: filter_id_conv in_set_conv_nth after_boundary_def)
  ultimately have "filter (after_boundary (Some (acc_id (xs ! n)))) (take m xs @ drop m xs) = drop m xs"
    unfolding filter_append by simp
  then show ?thesis using Suc by simp
qed (simp add: after_boundary_def)

text \<open>Following the boundaries of the pages from one to the next.\<close>

fun follow_accounts ::
  "account_codec \<Rightarrow> 'w account_resources \<Rightarrow> 16 word \<Rightarrow> nat \<Rightarrow> string option \<Rightarrow> 'w \<Rightarrow> ProviderAccount list option" where
  "follow_accounts k res limit 0 after w = None"
| "follow_accounts k res limit (Suc n) after w =
     (case account_list k res \<lparr>apr_limit = limit, apr_after = after\<rparr> w of
        (Inl e, w') \<Rightarrow> None
      | (Inr p, w') \<Rightarrow>
          (case ap_next p of
             None \<Rightarrow> Some (ap_items p)
           | Some next \<Rightarrow> map_option (\<lambda>rest. ap_items p @ rest) (follow_accounts k res limit n (Some next) w')))"

lemma collect_accounts_valid:
  "collect_accounts k rs = Inr accounts \<Longrightarrow> a \<in> set accounts \<Longrightarrow>
     validate_stored_provider_account (encoded_len k) a = Inr () \<and> validate_resource_id (acc_id a) = Inr ()"
proof (induction rs arbitrary: accounts)
  case (Cons r rs)
  then show ?case
    by (auto simp: and_then_eq_Inr account_core_def validate_stored_provider_account_def split: option.splits if_splits)
qed simp

lemma validate_items_ordered:
  "sorted_wrt (<) (map acc_id as) \<Longrightarrow> (\<And>a. a \<in> set as \<Longrightarrow> validate_stored_provider_account len a = Inr ()) \<Longrightarrow>
     (\<And>i a. previous = Some i \<Longrightarrow> a \<in> set as \<Longrightarrow> i < acc_id a) \<Longrightarrow> validate_account_items len previous as = Inr ()"
proof (induction as arbitrary: previous)
  case (Cons a as)
  have "validate_account_items len (Some (acc_id a)) as = Inr ()"
    by (rule Cons.IH) (use Cons.prems in auto)
  with Cons.prems show ?case by (cases previous) (auto simp: not_le)
qed simp


lemma account_list_page:
  assumes rs: "ar_list res w = (Inr rs, w)" "collect_accounts k rs = Inr accounts" and distinct: "distinct (map acc_id accounts)"
    and limit: "0 < limit" "unat limit \<le> MAX_PROVIDER_ACCOUNT_PAGE_SIZE" and m: "m \<le> length accounts"
  defines "xs \<equiv> sort_key acc_id accounts"
  shows "account_list k res \<lparr>apr_limit = limit, apr_after = (if m = 0 then None else Some (acc_id (xs ! (m - 1))))\<rparr> w =
    (Inr \<lparr>ap_items = take (unat limit) (drop m xs),
          ap_next = (if unat limit < length xs - m then Some (acc_id (xs ! (m + unat limit - 1))) else None)\<rparr>, w)"
proof -
  define page where "page = \<lparr>apr_limit = limit, apr_after = (if m = 0 then None else Some (acc_id (xs ! (m - 1))))\<rparr>"
  define p where "p = \<lparr>ap_items = take (unat limit) (drop m xs),
    ap_next = (if unat limit < length xs - m then Some (acc_id (xs ! (m + unat limit - 1))) else None)\<rparr>"
  have sorted: "sorted_wrt (<) (map acc_id xs)"
    using distinct by (simp add: xs_def strict_sorted_iff distinct_map)
  have len: "length xs = length accounts" "set xs = set accounts" by (simp_all add: xs_def)
  have valid: "validate_stored_provider_account (encoded_len k) a = Inr ()" "validate_resource_id (acc_id a) = Inr ()" if "a \<in> set xs" for a
    using collect_accounts_valid [OF rs(2)] that len(2) by auto
  have pos: "0 < unat limit" using limit(1) by (simp add: word_less_nat_alt)
  have last: "last (take (unat limit) (drop m xs)) = xs ! (m + unat limit - 1)" "take (unat limit) (drop m xs) \<noteq> []" if "unat limit < length xs - m"
    using that pos by (auto simp: last_conv_nth)
  have built: "account_page page accounts = p"
    using after_boundary_drop [OF sorted, of m] m len(1) last
    by (simp add: account_page_def page_def p_def Let_def xs_def [symmetric])
  have request: "validate_account_page_request page = Inr ()"
    using limit m pos len(1) valid(2) by (auto simp: validate_account_page_request_def page_def)
  have "validate_account_items (encoded_len k) (apr_after page) (ap_items p) = Inr ()"
  proof (rule validate_items_ordered)
    show "sorted_wrt (<) (map acc_id (ap_items p))"
      using sorted by (simp add: p_def take_map [symmetric] drop_map [symmetric] sorted_wrt_take sorted_wrt_drop)
    show "validate_stored_provider_account (encoded_len k) a = Inr ()" if "a \<in> set (ap_items p)" for a
      using that valid(1) by (auto simp: p_def dest: in_set_takeD in_set_dropD)
    show "i < acc_id a" if "apr_after page = Some i" "a \<in> set (ap_items p)" for i a
    proof -
      have "a \<in> set (drop m xs)" using that(2) by (auto simp: p_def dest: in_set_takeD)
      then obtain j where j: "a = xs ! (m + j)" "m + j < length xs" by (auto simp: in_set_conv_nth)
      with that(1) sorted_wrt_nth_less [OF sorted, of "m - 1" "m + j"] show ?thesis by (auto simp: page_def split: if_splits)
    qed
  qed
  moreover have "validate_resource_id b = Inr () \<and> b = acc_id (last (ap_items p)) \<and> ap_items p \<noteq> []" if b: "ap_next p = Some b" for b
  proof -
    have "unat limit < length xs - m" "b = acc_id (xs ! (m + unat limit - 1))" using b by (auto simp: p_def split: if_splits)
    moreover from this pos have "xs ! (m + unat limit - 1) \<in> set xs" by (intro nth_mem) linarith
    ultimately show ?thesis using last valid(2) by (simp add: p_def)
  qed
  moreover have "\<not> unat (apr_limit page) < length (ap_items p)" by (simp add: page_def p_def)
  ultimately have "validate_account_page (encoded_len k) p page = Inr ()"
    using request by (cases "ap_next p") (simp_all add: validate_account_page_def)
  then show ?thesis
    unfolding page_def [symmetric] p_def [symmetric]
    using request rs built by (simp add: account_list_def call_then_def)
qed

lemma follow_accounts_from:
  assumes "ar_list res w = (Inr rs, w)" "collect_accounts k rs = Inr accounts" "distinct (map acc_id accounts)"
    and limit: "0 < limit" "unat limit \<le> MAX_PROVIDER_ACCOUNT_PAGE_SIZE"
  shows "m \<le> length accounts \<Longrightarrow> length accounts - m < n \<Longrightarrow>
    follow_accounts k res limit n (if m = 0 then None else Some (acc_id (sort_key acc_id accounts ! (m - 1)))) w
      = Some (drop m (sort_key acc_id accounts))"
proof (induction n arbitrary: m)
  case (Suc n)
  define xs where "xs = sort_key acc_id accounts"
  have len: "length xs = length accounts" by (simp add: xs_def)
  have pos: "0 < unat limit" using limit(1) by (simp add: word_less_nat_alt)
  define after where "after = (if m = 0 then None else Some (acc_id (xs ! (m - 1))))"
  note page = account_list_page [OF assms Suc.prems(1), folded xs_def, folded after_def]
  have "follow_accounts k res limit (Suc n) after w = Some (drop m xs)"
  proof (cases "unat limit < length xs - m")
    case True
    have "follow_accounts k res limit n (Some (acc_id (xs ! (m + unat limit - 1)))) w = Some (drop (m + unat limit) xs)"
      using Suc.IH [of "m + unat limit"] Suc.prems True pos len by (simp add: xs_def [symmetric])
    moreover have "take (unat limit) (drop m xs) @ drop (m + unat limit) xs = drop m xs"
      by (metis append_take_drop_id drop_drop add.commute)
    ultimately show ?thesis using True page by simp
  next
    case False
    then show ?thesis using page by simp
  qed
  then show ?case by (simp only: after_def xs_def)
qed simp

text \<open>
  While the accounts do not change, following the boundaries of the pages lists every account exactly once and
  in the order of their identifiers, for every admitted page size, and ends.
\<close>

theorem account_pages_are_complete:
  assumes "ar_list res w = (Inr rs, w)" "collect_accounts k rs = Inr accounts" "distinct (map acc_id accounts)"
    and "0 < limit" "unat limit \<le> MAX_PROVIDER_ACCOUNT_PAGE_SIZE"
  shows "follow_accounts k res limit (Suc (length accounts)) None w = Some (sort_key acc_id accounts)"
  using follow_accounts_from [OF assms, of 0 "Suc (length accounts)"] by simp


section \<open>An example\<close>

definition example_resource :: "int \<Rightarrow> string \<Rightarrow> EdgionProviderAccount" where
  "example_resource g revision = \<lparr>ea_name = Some ''provider-account-0a'', ea_generation = Some g, ea_resource_version = Some revision, ea_labels = [],
     ea_spec = \<lparr>eas_contract_version = 1, eas_account_id = ''a'', eas_desired_generation = g, eas_desired_json = ''d''\<rparr>\<rparr>"

definition example_world :: kube_world where
  "example_world = \<lparr>kw_db = [''provider-account-0a'' \<mapsto> example_resource 1 ''r''], kw_others = []\<rparr>"

lemma example_name: "provider_account_resource_name example_codec ''a'' = Inr ''provider-account-0a''"
  using example_desired_valid(2) by (simp add: provider_account_resource_name_def) (simp add: example_codec_def)

lemma example_desired_stored: "validate_desired (encoded_len example_codec) example_desired = Inr ()"
proof -
  have "validate_desired (\<lambda>_. Some 0) example_desired = Inr ()" by (rule example_desired_valid(1))
  then show ?thesis
    by (simp add: validate_desired_def and_then_eq_Inr encoded_len_def example_codec_def MAX_DESIRED_PAYLOAD_BYTES_def split: if_splits)
qed

lemma example_verified: "verify_account_id example_codec (example_resource g revision) ''a'' = Inr ()"
  by (simp add: verify_account_id_def example_name) (simp add: example_resource_def)

lemma example_core:
  assumes "g = 1 \<or> g = 2"
  shows "account_core example_codec (example_resource g revision) = Inr (account_of ''a'' (word_of_int g) example_desired)"
proof -
  have stored: "validate_stored_provider_account (encoded_len example_codec) (account_of ''a'' (word_of_int g) example_desired) = Inr ()"
    using assms
    by (intro account_of_stored) (auto simp: example_desired_stored example_desired_valid MAX_PROVIDER_ACCOUNT_GENERATION_def i64_MAX_u64_def)
  then have "provider_account_from_desired (encoded_len example_codec) ''a'' (word_of_int g) example_desired
      = Inr (account_of ''a'' (word_of_int g) example_desired)"
    using assms example_desired_stored example_desired_valid(2)
    by (auto simp: provider_account_from_desired_def account_of_def [symmetric] Let_def MAX_PROVIDER_ACCOUNT_GENERATION_def i64_MAX_u64_def)
  then have "account_spec_to_core example_codec (ea_spec (example_resource g revision)) = Some (account_of ''a'' (word_of_int g) example_desired)"
    using assms example_desired_valid(2)
    by (auto simp: account_spec_to_core_def example_resource_def) (auto simp: example_codec_def)
  moreover have "acc_id (account_of ''a'' (word_of_int g) example_desired) = ''a''" by (simp add: account_of_def)
  ultimately show ?thesis
    using stored example_verified [of g revision] by (simp add: account_core_def) (simp add: example_resource_def)
qed

theorem replacement_is_compare_and_swap_witness:
  "\<exists>a w'. account_replace_if_generation example_codec kube_resources ''a'' 1 example_desired example_world = (Inr (AccountStored a), w')
     \<and> account_at example_codec kube_stored w' ''a'' = Some a \<and> acc_gen a = 2"
proof -
  have load: "account_load example_codec kube_resources ''a'' example_world = (Inr (Some (example_resource 1 ''r'')), example_world)"
    by (simp add: account_load_def call_then_def example_name get_resource_def kube_resources_def others_write_def kube_stored_def
        example_world_def example_verified) (simp add: example_resource_def)
  have spec: "account_spec_new example_codec ''a'' 2 example_desired = Inr (ea_spec (example_resource 2 ''r''))"
    by (simp add: account_spec_new_def example_codec_def example_resource_def i64_MAX_u64_def)
  have moved: "(example_resource 1 ''r'')\<lparr>ea_spec := ea_spec (example_resource 2 ''r'')\<rparr>
      = (example_resource 2 ''r'')\<lparr>ea_generation := Some 1\<rparr>" by (simp add: example_resource_def)
  have put: "kube_put ''provider-account-0a'' ((example_resource 2 ''r'')\<lparr>ea_generation := Some 1\<rparr>) (kw_db example_world) = Inr (example_resource 2 ''r.'')"
    by (simp add: kube_put_def example_world_def example_resource_def next_revision_def)
  have idle: "others_write example_world = example_world" "kube_stored example_world ''provider-account-0a'' = Some (example_resource 1 ''r'')"
    by (simp_all add: others_write_def example_world_def kube_stored_def) (simp add: example_resource_def)
  have sent: "ar_replace kube_resources ''provider-account-0a'' ((example_resource 2 ''r'')\<lparr>ea_generation := Some 1\<rparr>) example_world =
      (Inr (example_resource 2 ''r.''), example_world\<lparr>kw_db := (kw_db example_world)(''provider-account-0a'' \<mapsto> example_resource 2 ''r.'')\<rparr>)"
    using put idle by (simp add: kube_resources_def)
  have gen: "acc_gen (account_of ''a'' 1 example_desired) = 1" by (simp add: account_of_def)
  have "replace_attempts example_codec kube_resources ''a'' ''provider-account-0a'' 1 example_desired (Suc 7) example_world =
      (Inr (AccountStored (account_of ''a'' 2 example_desired)),
       example_world\<lparr>kw_db := (kw_db example_world)(''provider-account-0a'' \<mapsto> example_resource 2 ''r.'')\<rparr>)"
    unfolding replace_attempts.simps(2)
    using load spec sent gen moved example_verified [of 2 "''r.''"] example_core [of 1 "''r''"] example_core [of 2 "''r.''"]
    by (simp del: replace_attempts.simps)
  moreover have "\<not> i64_MAX_u64 \<le> 1" by (simp add: i64_MAX_u64_def word_le_nat_alt)
  ultimately have run: "account_replace_if_generation example_codec kube_resources ''a'' 1 example_desired example_world =
      (Inr (AccountStored (account_of ''a'' 2 example_desired)),
       example_world\<lparr>kw_db := (kw_db example_world)(''provider-account-0a'' \<mapsto> example_resource 2 ''r.'')\<rparr>)"
    by (simp add: account_replace_if_generation_def call_then_def example_desired_valid(2) example_desired_stored example_name
        ACCOUNT_CONFLICT_RETRIES_def del: replace_attempts.simps)
  show ?thesis
    using replacement_is_compare_and_swap [OF kube_server example_codec_reads_back run] run by fastforce
qed

theorem account_pages_are_complete_witness:
  "follow_accounts example_codec (kube_resources\<lparr>ar_list := \<lambda>w. (Inr [example_resource 1 ''r''], w)\<rparr>) 1 2 None example_world
     = Some [account_of ''a'' 1 example_desired]"
proof -
  have "collect_accounts example_codec [example_resource 1 ''r''] = Inr [account_of ''a'' 1 example_desired]"
    using example_core [of 1 "''r''"] by simp
  from account_pages_are_complete [OF _ this, of "kube_resources\<lparr>ar_list := \<lambda>w. (Inr [example_resource 1 ''r''], w)\<rparr>" example_world 1]
  show ?thesis by (simp add: MAX_PROVIDER_ACCOUNT_PAGE_SIZE_def numeral_2_eq_2 del: follow_accounts.simps)
qed

end
