(* ===== verification/Ip_Addr.thy ===== *)
theory Ip_Addr
  imports Decimal
begin

text \<open>
  Addresses as the standard library of Rust prints and parses them (\<open>Display\<close> and \<open>FromStr\<close> of
  \<open>Ipv4Addr\<close> and \<open>Ipv6Addr\<close>), for the adapters that exchange record values as text. An address is a
  word of its width; the parser reads from a string and returns what it has not consumed, as the
  library's internal \<open>Parser\<close> does.
\<close>

section \<open>Numbers in a radix\<close>

definition to_digit :: "nat \<Rightarrow> char \<Rightarrow> nat option" where
  "to_digit radix c =
     (let v = (if is_ascii_digit c then Some (byte c - 48)
               else if is_ascii_lowercase c then Some (byte c - 87)
               else if is_ascii_uppercase c then Some (byte c - 55) else None)
      in case v of Some d \<Rightarrow> if d < radix then Some d else None | None \<Rightarrow> None)"

definition radix_value :: "nat \<Rightarrow> string \<Rightarrow> nat" where
  "radix_value radix s = fold (\<lambda>c n. n * radix + (case to_digit radix c of Some d \<Rightarrow> d | None \<Rightarrow> 0)) s 0"

definition read_number :: "nat \<Rightarrow> nat \<Rightarrow> bool \<Rightarrow> nat \<Rightarrow> string \<Rightarrow> (nat \<times> string) option" where
  "read_number radix max_digits allow_zero_prefix bound s =
     (let ds = takeWhile (\<lambda>c. to_digit radix c \<noteq> None) s
      in if ds = [] \<or> max_digits < length ds \<or> (\<not> allow_zero_prefix \<and> hd ds = CHR ''0'' \<and> 1 < length ds)
            \<or> bound \<le> radix_value radix ds
         then None else Some (radix_value radix ds, drop (length ds) s))"

definition digit_char :: "nat \<Rightarrow> char" where
  "digit_char d = (if d < 10 then char_of (48 + d) else char_of (87 + d))"

fun show_radix :: "nat \<Rightarrow> nat \<Rightarrow> string" where
  "show_radix radix n =
     (if n < radix \<or> radix < 2 then [digit_char n]
      else show_radix radix (n div radix) @ [digit_char (n mod radix)])"

declare show_radix.simps [simp del]

section \<open>IPv4\<close>

definition read_given_char :: "char \<Rightarrow> string \<Rightarrow> string option" where
  "read_given_char c s = (case s of x # xs \<Rightarrow> if x = c then Some xs else None | [] \<Rightarrow> None)"

definition read_separator ::
  "char \<Rightarrow> nat \<Rightarrow> (string \<Rightarrow> ('a \<times> string) option) \<Rightarrow> string \<Rightarrow> ('a \<times> string) option" where
  "read_separator c i inner s = (if i = 0 then inner s else Option.bind (read_given_char c s) inner)"

definition read_octet :: "string \<Rightarrow> (nat \<times> string) option" where
  "read_octet = read_number 10 3 False 256"

definition read_ipv4 :: "string \<Rightarrow> (nat \<times> string) option" where
  "read_ipv4 s0 =
     Option.bind (read_octet s0) (\<lambda>(a, s1).
     Option.bind (read_separator (CHR ''.'') 1 read_octet s1) (\<lambda>(b, s2).
     Option.bind (read_separator (CHR ''.'') 2 read_octet s2) (\<lambda>(c, s3).
     Option.bind (read_separator (CHR ''.'') 3 read_octet s3) (\<lambda>(d, s4).
       Some (((a * 256 + b) * 256 + c) * 256 + d, s4)))))"

definition parse_ipv4 :: "string \<Rightarrow> u32 option" where
  "parse_ipv4 s =
     (if 15 < length s then None
      else case read_ipv4 s of Some (a, []) \<Rightarrow> Some (of_nat a) | _ \<Rightarrow> None)"

definition ipv4_text :: "nat \<Rightarrow> string" where
  "ipv4_text n =
     join_with ''.'' (map (show_radix 10) [n div 2 ^ 24 mod 256, n div 2 ^ 16 mod 256, n div 2 ^ 8 mod 256, n mod 256])"

definition show_ipv4 :: "u32 \<Rightarrow> string" where
  "show_ipv4 a = ipv4_text (unat a)"

section \<open>IPv6\<close>

fun read_groups :: "nat \<Rightarrow> nat \<Rightarrow> string \<Rightarrow> nat list \<times> bool \<times> string" where
  "read_groups i 0 s = ([], False, s)"
| "read_groups i (Suc n) s =
     (case (if n = 0 then None else read_separator (CHR '':'') i read_ipv4 s) of
        Some (a, rest) \<Rightarrow> ([a div 65536, a mod 65536], True, rest)
      | None \<Rightarrow>
          (case read_separator (CHR '':'') i (read_number 16 4 True 65536) s of
             None \<Rightarrow> ([], False, s)
           | Some (g, rest) \<Rightarrow> (case read_groups (Suc i) n rest of (gs, v4, rest') \<Rightarrow> (g # gs, v4, rest'))))"

definition from_segments :: "nat list \<Rightarrow> 128 word" where
  "from_segments gs = of_nat (fold (\<lambda>g n. n * 65536 + g) gs 0)"

definition read_ipv6 :: "string \<Rightarrow> (128 word \<times> string) option" where
  "read_ipv6 s =
     (case read_groups 0 8 s of
        (head, head_ipv4, s1) \<Rightarrow>
          if length head = 8 then Some (from_segments head, s1)
          else if head_ipv4 then None
          else
            Option.bind (read_given_char (CHR '':'') s1) (\<lambda>s2.
            Option.bind (read_given_char (CHR '':'') s2) (\<lambda>s3.
              case read_groups 0 (8 - (length head + 1)) s3 of
                (tail, _, s4) \<Rightarrow>
                  Some (from_segments (head @ replicate (8 - length head - length tail) 0 @ tail), s4))))"

definition parse_ipv6 :: "string \<Rightarrow> (128 word) option" where
  "parse_ipv6 s = (case read_ipv6 s of Some (a, []) \<Rightarrow> Some a | _ \<Rightarrow> None)"

fun to_segments :: "nat \<Rightarrow> nat \<Rightarrow> nat list" where
  "to_segments 0 n = []"
| "to_segments (Suc k) n = to_segments k (n div 65536) @ [n mod 65536]"

definition ipv6_segments :: "128 word \<Rightarrow> nat list" where
  "ipv6_segments a = to_segments 8 (unat a)"

text \<open>The longest run of zero segments, the first of them on a tie: a span is its start and length.\<close>

type_synonym span = "nat \<times> nat"

definition span_step :: "nat \<Rightarrow> nat \<Rightarrow> span \<times> span \<Rightarrow> span \<times> span" where
  "span_step i segment state =
     (case state of (longest, current) \<Rightarrow>
        if segment = 0 then
          let current' = (if snd current = 0 then i else fst current, snd current + 1)
          in (if snd longest < snd current' then current' else longest, current')
        else (longest, (0, 0)))"

fun span_loop :: "nat \<Rightarrow> nat list \<Rightarrow> span \<times> span \<Rightarrow> span \<times> span" where
  "span_loop i [] state = state"
| "span_loop i (g # gs) state = span_loop (Suc i) gs (span_step i g state)"

definition longest_zeroes :: "nat list \<Rightarrow> span" where
  "longest_zeroes gs = fst (span_loop 0 gs ((0, 0), (0, 0)))"

definition groups_text :: "nat list \<Rightarrow> string" where
  "groups_text gs = join_with '':'' (map (show_radix 16) gs)"

definition show_ipv6 :: "128 word \<Rightarrow> string" where
  "show_ipv6 a =
     (let gs = ipv6_segments a; z = longest_zeroes gs
      in if take 6 gs = [0, 0, 0, 0, 0, 65535] then ''::ffff:'' @ ipv4_text (unat a mod 2 ^ 32)
         else if 1 < snd z then groups_text (take (fst z) gs) @ ''::'' @ groups_text (drop (fst z + snd z) gs)
         else groups_text gs)"

section \<open>Lemmas\<close>

lemma to_digit_digit_char: "d < radix \<Longrightarrow> radix \<le> 16 \<Longrightarrow> to_digit radix (digit_char d) = Some d"
  by (auto simp: to_digit_def digit_char_def is_ascii_digit_def is_ascii_lowercase_def is_ascii_uppercase_def)

lemma radix_value_snoc:
  "radix_value radix (s @ [c]) = radix_value radix s * radix + (case to_digit radix c of Some d \<Rightarrow> d | None \<Rightarrow> 0)"
  by (simp add: radix_value_def)

lemma radix_value_single: "to_digit radix c = Some d \<Longrightarrow> radix_value radix [c] = d"
  by (simp add: radix_value_def)

lemma show_radix_digits:
  "2 \<le> radix \<Longrightarrow> radix \<le> 16 \<Longrightarrow> \<forall>c \<in> set (show_radix radix n). to_digit radix c \<noteq> None"
proof (induction radix n rule: show_radix.induct)
  case (1 radix n)
  then show ?case by (subst show_radix.simps) (auto simp: to_digit_digit_char)
qed

lemma radix_value_show: "2 \<le> radix \<Longrightarrow> radix \<le> 16 \<Longrightarrow> radix_value radix (show_radix radix n) = n"
proof (induction radix n rule: show_radix.induct)
  case (1 radix n)
  show ?case
  proof (cases "n < radix")
    case True
    with 1 show ?thesis by (subst show_radix.simps) (simp add: radix_value_single to_digit_digit_char)
  next
    case False
    with 1 have "radix_value radix (show_radix radix (n div radix)) = n div radix" by simp
    with 1 False show ?thesis
      by (subst show_radix.simps) (simp add: radix_value_snoc to_digit_digit_char)
  qed
qed

lemma show_radix_not_Nil [simp]: "show_radix radix n \<noteq> []"
  by (subst show_radix.simps) simp

lemma show_radix_length: "2 \<le> radix \<Longrightarrow> n < radix ^ k \<Longrightarrow> 0 < k \<Longrightarrow> length (show_radix radix n) \<le> k"
proof (induction k arbitrary: n)
  case (Suc k)
  show ?case
  proof (cases "n < radix")
    case True
    then show ?thesis by (subst show_radix.simps) simp
  next
    case False
    then have "0 < k" using Suc.prems by (cases k) auto
    moreover have "n div radix < radix ^ k"
      using Suc.prems by (simp add: less_mult_imp_div_less mult.commute)
    ultimately have "length (show_radix radix (n div radix)) \<le> k" using Suc by blast
    with False Suc.prems show ?thesis by (subst show_radix.simps) simp
  qed
qed simp

lemma digit_char_zero: "d < 16 \<Longrightarrow> digit_char d = CHR ''0'' \<longleftrightarrow> d = 0"
proof
  assume "d < 16" "digit_char d = CHR ''0''"
  then have "byte (digit_char d) = 48" by (simp add: byte_def)
  with \<open>d < 16\<close> show "d = 0" by (auto simp: digit_char_def split: if_splits)
qed (use char_of_byte [of "CHR ''0''"] in \<open>simp add: digit_char_def byte_def\<close>)

lemma show_radix_leading:
  "2 \<le> radix \<Longrightarrow> radix \<le> 16 \<Longrightarrow> 0 < n \<Longrightarrow> hd (show_radix radix n) \<noteq> CHR ''0''"
proof (induction radix n rule: show_radix.induct)
  case (1 radix n)
  show ?case
  proof (cases "n < radix")
    case True
    with 1 show ?thesis by (subst show_radix.simps) (simp add: digit_char_zero)
  next
    case False
    with 1 have "hd (show_radix radix (n div radix)) \<noteq> CHR ''0''"
      by (simp add: div_greater_zero_iff)
    with 1 False show ?thesis by (subst show_radix.simps) (simp add: hd_append)
  qed
qed

lemma takeWhile_show:
  "2 \<le> radix \<Longrightarrow> radix \<le> 16 \<Longrightarrow> rest = [] \<or> to_digit radix (hd rest) = None \<Longrightarrow>
     takeWhile (\<lambda>c. to_digit radix c \<noteq> None) (show_radix radix n @ rest) = show_radix radix n"
  using show_radix_digits [of radix n] by (cases rest) (auto simp: takeWhile_append)

lemma read_number_show:
  assumes "2 \<le> radix" "radix \<le> 16" "n < bound" "bound \<le> radix ^ k" "0 < k"
    and "rest = [] \<or> to_digit radix (hd rest) = None"
  shows "read_number radix k zero_prefix bound (show_radix radix n @ rest) = Some (n, rest)"
proof -
  have "length (show_radix radix n) \<le> k" using assms by (intro show_radix_length) auto
  moreover have "\<not> (hd (show_radix radix n) = CHR ''0'' \<and> 1 < length (show_radix radix n))"
  proof (cases "n = 0")
    case True
    with assms show ?thesis by (subst show_radix.simps) simp
  next
    case False
    with assms show_radix_leading [of radix n] show ?thesis by simp
  qed
  moreover have "radix_value radix (show_radix radix n) = n" using assms by (intro radix_value_show)
  ultimately show ?thesis
    unfolding read_number_def takeWhile_show [OF assms(1,2,6)] Let_def using assms(3) by auto
qed

lemma separators_not_digits [simp]:
  "to_digit radix (CHR ''.'') = None" "to_digit radix (CHR '':'') = None"
  by (simp_all add: to_digit_def is_ascii_digit_def is_ascii_lowercase_def is_ascii_uppercase_def byte_def)

lemma read_octet_show:
  "n < 256 \<Longrightarrow> rest = [] \<or> to_digit 10 (hd rest) = None \<Longrightarrow> read_octet (show_radix 10 n @ rest) = Some (n, rest)"
  unfolding read_octet_def by (rule read_number_show) auto

lemma read_separator_char: "0 < i \<Longrightarrow> read_separator c i inner (c # s) = inner s"
  by (simp add: read_separator_def read_given_char_def)

lemma octets_value:
  assumes "n < 2 ^ 32"
  shows "((n div 2 ^ 24 mod 256 * 256 + n div 2 ^ 16 mod 256) * 256 + n div 2 ^ 8 mod 256) * 256 + n mod 256 = (n :: nat)"
proof -
  have "n div 2 ^ 24 < 256" using assms by (simp add: less_mult_imp_div_less)
  moreover have "n div 2 ^ 24 = n div 2 ^ 16 div 256" "n div 2 ^ 16 = n div 2 ^ 8 div 256" "n div 2 ^ 8 = n div 256"
    by (simp_all flip: div_mult2_eq)
  ultimately show ?thesis by (metis div_mult_mod_eq mod_less)
qed

lemma ipv4_text_append:
  "ipv4_text n @ rest =
     show_radix 10 (n div 2 ^ 24 mod 256) @ CHR ''.'' # show_radix 10 (n div 2 ^ 16 mod 256)
       @ CHR ''.'' # show_radix 10 (n div 2 ^ 8 mod 256) @ CHR ''.'' # show_radix 10 (n mod 256) @ rest"
  by (simp add: ipv4_text_def)

lemma read_ipv4_text:
  assumes "n < 2 ^ 32" "rest = [] \<or> to_digit 10 (hd rest) = None"
  shows "read_ipv4 (ipv4_text n @ rest) = Some (n, rest)"
proof -
  have "read_ipv4 (ipv4_text n @ rest) =
      Some (((n div 2 ^ 24 mod 256 * 256 + n div 2 ^ 16 mod 256) * 256 + n div 2 ^ 8 mod 256) * 256 + n mod 256, rest)"
    unfolding ipv4_text_append using assms(2)
    by (simp add: read_ipv4_def read_octet_show read_separator_char)
  with assms(1) show ?thesis by (simp only: octets_value)
qed

lemma ipv4_text_length: "length (ipv4_text n) \<le> 15"
proof -
  have "length (show_radix 10 (m mod 256)) \<le> 3" for m by (rule show_radix_length) auto
  from this [of "n div 2 ^ 24"] this [of "n div 2 ^ 16"] this [of "n div 2 ^ 8"] this [of n]
  show ?thesis by (simp add: ipv4_text_def)
qed

lemma parse_show_ipv4 [simp]: "parse_ipv4 (show_ipv4 a) = Some a"
proof -
  have "unat a < 2 ^ 32" using unsigned_less [of a, where ?'a = nat] by simp
  then have "read_ipv4 (ipv4_text (unat a)) = Some (unat a, [])" using read_ipv4_text [of "unat a" "[]"] by simp
  with ipv4_text_length [of "unat a"] show ?thesis by (simp add: parse_ipv4_def show_ipv4_def)
qed

text \<open>Reading groups back: each is preceded by a colon unless it is the first.\<close>

definition groups_from :: "nat \<Rightarrow> nat list \<Rightarrow> string" where
  "groups_from i gs = (if i = 0 then groups_text gs else concat (map (\<lambda>g. CHR '':'' # show_radix 16 g) gs))"

lemma groups_text_Cons: "groups_text (g # gs) = show_radix 16 g @ groups_from 1 gs"
proof (induction gs arbitrary: g)
  case (Cons h gs)
  then show ?case by (simp add: groups_text_def groups_from_def)
qed (simp add: groups_text_def groups_from_def)

lemma groups_from_Cons:
  "groups_from i (g # gs) = (if i = 0 then [] else '':'') @ show_radix 16 g @ groups_from (Suc i) gs"
  by (simp add: groups_from_def groups_text_Cons)

lemma read_group_show:
  "g < 65536 \<Longrightarrow> rest = [] \<or> hd rest = CHR '':'' \<Longrightarrow>
     read_number 16 4 True 65536 (show_radix 16 g @ rest) = Some (g, rest)"
  by (rule read_number_show) auto

lemma read_octet_stops:
  assumes "read_octet (s @ rest) = Some (a, t)" "CHR ''.'' \<notin> set s" "rest = [] \<or> hd rest = CHR '':''"
  shows "t = [] \<or> hd t \<noteq> CHR ''.''"
proof -
  let ?ds = "takeWhile (\<lambda>c. to_digit 10 c \<noteq> None) (s @ rest)"
  have t: "t = dropWhile (\<lambda>c. to_digit 10 c \<noteq> None) (s @ rest)"
    using assms(1) unfolding read_octet_def read_number_def Let_def
    by (auto simp: dropWhile_eq_drop split: if_splits)
  show ?thesis
  proof (rule ccontr)
    assume "\<not> ?thesis"
    then have "t \<noteq> []" "hd t = CHR ''.''" by auto
    then obtain u where split: "s @ rest = ?ds @ CHR ''.'' # u" using t by (metis takeWhile_dropWhile_id list.collapse)
    have "length s \<le> length ?ds"
    proof (rule ccontr)
      assume "\<not> length s \<le> length ?ds"
      then have "CHR ''.'' = s ! length ?ds" using split by (metis nth_append nth_append_length not_le)
      with \<open>\<not> length s \<le> length ?ds\<close> assms(2) show False by (metis not_le nth_mem)
    qed
    then obtain v where v: "?ds = s @ v" using split
      by (metis append_eq_append_conv_if append_take_drop_id)
    then have "rest = v @ CHR ''.'' # u" using split by simp
    moreover have "\<forall>c \<in> set v. to_digit 10 c \<noteq> None" using v by (metis Un_iff set_append set_takeWhileD)
    ultimately show False using assms(3) by (cases v) auto
  qed
qed

lemma no_dot_in_show: "CHR ''.'' \<notin> set (show_radix 16 g)"
  using show_radix_digits [of 16 g] by auto

lemma read_ipv4_group:
  assumes "rest = [] \<or> hd rest = CHR '':''"
  shows "read_ipv4 (show_radix 16 g @ rest) = None"
proof (cases "read_octet (show_radix 16 g @ rest)")
  case (Some p)
  then obtain a t where p: "read_octet (show_radix 16 g @ rest) = Some (a, t)" by (cases p) auto
  then have "t = [] \<or> hd t \<noteq> CHR ''.''" using read_octet_stops no_dot_in_show assms by blast
  then have "read_separator (CHR ''.'') 1 read_octet t = None"
    by (cases t) (auto simp: read_separator_def read_given_char_def)
  with p show ?thesis by (simp add: read_ipv4_def)
qed (simp add: read_ipv4_def)

lemma read_number_none: "s = [] \<or> to_digit radix (hd s) = None \<Longrightarrow> read_number radix k z b s = None"
  by (cases s) (auto simp: read_number_def)

lemma read_group_none: "s = [] \<or> hd s = CHR '':'' \<Longrightarrow> read_number 16 4 True 65536 s = None"
  by (auto simp: read_number_none)

lemma read_ipv4_none: "s = [] \<or> hd s = CHR '':'' \<Longrightarrow> read_ipv4 s = None"
  by (auto simp: read_ipv4_def read_octet_def read_number_none)

text \<open>What follows the groups ends them: the end of the text, or the two colons of the zero run.\<close>

definition ends_groups :: "string \<Rightarrow> bool" where
  "ends_groups rest \<longleftrightarrow> rest = [] \<or> (\<exists>t. rest = CHR '':'' # CHR '':'' # t)"

lemma read_group_ends:
  assumes "ends_groups rest" and "\<And>s. s = [] \<or> hd s = CHR '':'' \<Longrightarrow> inner s = None"
  shows "read_separator (CHR '':'') i inner rest = None"
  using assms by (auto simp: ends_groups_def read_separator_def read_given_char_def)

lemma read_groups_text:
  assumes "\<forall>g \<in> set gs. g < 65536" "length gs \<le> n" "ends_groups rest"
  shows "read_groups i n (groups_from i gs @ rest) = (gs, False, rest)"
  using assms
proof (induction gs arbitrary: i n)
  case Nil
  have "groups_from i [] = []" by (simp add: groups_from_def groups_text_def)
  moreover have "read_separator (CHR '':'') i read_ipv4 rest = None"
    "read_separator (CHR '':'') i (read_number 16 4 True 65536) rest = None"
    using read_group_ends [OF Nil.prems(3)] read_ipv4_none read_group_none by blast+
  ultimately show ?case by (cases n) auto
next
  case (Cons g gs)
  then obtain m where n: "n = Suc m" by (cases n) auto
  let ?rest = "groups_from (Suc i) gs @ rest"
  have stop: "?rest = [] \<or> hd ?rest = CHR '':''"
    using Cons.prems(3) by (cases gs) (auto simp: groups_from_def ends_groups_def)
  have "read_separator (CHR '':'') i inner (groups_from i (g # gs) @ rest) = inner (show_radix 16 g @ ?rest)" for inner :: "string \<Rightarrow> (nat \<times> string) option"
    by (auto simp: groups_from_Cons read_separator_def read_given_char_def)
  moreover have "read_groups (Suc i) m ?rest = (gs, False, rest)"
    using Cons.prems Cons.IH n by (auto simp: ends_groups_def)
  ultimately show ?case
    using Cons.prems n read_ipv4_group [OF stop, of g] read_group_show [OF _ stop, of g] by auto
qed

lemma to_segments_less: "\<forall>g \<in> set (to_segments k n). g < 65536"
  by (induction k n rule: to_segments.induct) auto

lemma to_segments_length [simp]: "length (to_segments k n) = k"
  by (induction k n rule: to_segments.induct) auto

lemma to_segments_value: "n < 65536 ^ k \<Longrightarrow> fold (\<lambda>g n. n * 65536 + g) (to_segments k n) 0 = n"
proof (induction k n rule: to_segments.induct)
  case (2 k n)
  then have "n div 65536 < 65536 ^ k" by (simp add: less_mult_imp_div_less mult.commute)
  with 2 show ?case by simp
qed simp

lemma from_to_segments [simp]: "from_segments (ipv6_segments a) = a"
proof -
  have "unat a < 65536 ^ 8" using unsigned_less [of a, where ?'a = nat] by simp
  then show ?thesis by (simp add: from_segments_def ipv6_segments_def to_segments_value)
qed

text \<open>The spans of the loop cover zeroes only.\<close>

definition zero_span :: "nat list \<Rightarrow> nat \<Rightarrow> span \<Rightarrow> bool" where
  "zero_span gs i z \<longleftrightarrow> fst z + snd z \<le> i \<and> (\<forall>j. fst z \<le> j \<and> j < fst z + snd z \<longrightarrow> gs ! j = 0)"

lemma span_loop_inv:
  assumes "zero_span all i longest" "zero_span all i current" "snd current = 0 \<or> fst current + snd current = i"
    and "all = pre @ gs" "length pre = i"
  shows "zero_span all (length all) (fst (span_loop i gs (longest, current)))"
  using assms
proof (induction gs arbitrary: i pre longest current)
  case Nil
  then show ?case by (simp add: zero_span_def)
next
  case (Cons g gs)
  obtain longest' current' where step: "span_step i g (longest, current) = (longest', current')"
    by (cases "span_step i g (longest, current)")
  have g: "all ! i = g" using Cons.prems by (simp add: nth_append)
  have "zero_span all (Suc i) current' \<and> (snd current' = 0 \<or> fst current' + snd current' = Suc i)"
    using step Cons.prems(2,3) g
    by (auto simp: span_step_def zero_span_def Let_def less_Suc_eq split: if_splits)
  moreover from this have "zero_span all (Suc i) longest'"
    using step Cons.prems(1) by (auto simp: span_step_def Let_def zero_span_def split: if_splits)
  ultimately show ?case
    using Cons.IH [of "Suc i" longest' current' "pre @ [g]"] Cons.prems step by simp
qed

lemma longest_zeroes_span: "zero_span gs (length gs) (longest_zeroes gs)"
  unfolding longest_zeroes_def
  using span_loop_inv [of gs 0 "(0, 0)" "(0, 0)" "[]" gs] by (simp add: zero_span_def)

lemma zero_span_split:
  assumes "zero_span gs (length gs) (start, len)"
  shows "take start gs @ replicate len 0 @ drop (start + len) gs = gs"
proof -
  have "take len (drop start gs) = replicate len 0"
    using assms by (intro nth_equalityI) (auto simp: zero_span_def)
  then have "gs = take start gs @ replicate len 0 @ drop len (drop start gs)"
    by (metis append_take_drop_id)
  then show ?thesis by (simp add: add.commute)
qed

text \<open>An address printed is read back as itself.\<close>

lemma read_groups_start:
  "\<forall>g \<in> set gs. g < 65536 \<Longrightarrow> length gs \<le> n \<Longrightarrow> ends_groups rest \<Longrightarrow>
     read_groups 0 n (groups_text gs @ rest) = (gs, False, rest)"
  using read_groups_text [of gs n rest 0] by (simp add: groups_from_def)

lemma read_ipv6_compressed:
  assumes "\<forall>g \<in> set (h @ t). g < 65536" "length h + length t < 8"
  shows "read_ipv6 (groups_text h @ ''::'' @ groups_text t)
    = Some (from_segments (h @ replicate (8 - length h - length t) 0 @ t), [])"
proof -
  have "read_groups 0 8 (groups_text h @ ''::'' @ groups_text t) = (h, False, ''::'' @ groups_text t)"
    using assms by (intro read_groups_start) (auto simp: ends_groups_def)
  moreover have "read_groups 0 (8 - (length h + 1)) (groups_text t) = (t, False, [])"
    using read_groups_start [of t "8 - (length h + 1)" "[]"] assms by (auto simp: ends_groups_def)
  ultimately show ?thesis using assms by (simp add: read_ipv6_def read_given_char_def)
qed

lemma to_segments_two:
  "to_segments (Suc (Suc k)) n = to_segments k (n div 65536 div 65536) @ [n div 65536 mod 65536, n mod 65536]"
  by (simp only: to_segments.simps append_assoc append.simps)

lemma show_radix_step: "\<not> n < radix \<Longrightarrow> 2 \<le> radix \<Longrightarrow> show_radix radix n = show_radix radix (n div radix) @ [digit_char (n mod radix)]"
  by (subst show_radix.simps) simp

lemma show_radix_digit: "n < radix \<Longrightarrow> show_radix radix n = [digit_char n]"
  by (subst show_radix.simps) simp

lemma mapped_segments:
  assumes "take 6 (ipv6_segments a) = [0, 0, 0, 0, 0, 65535]"
  shows "ipv6_segments a = [0, 0, 0, 0, 0, 65535, unat a mod 2 ^ 32 div 65536, unat a mod 2 ^ 32 mod 65536]"
proof -
  have "ipv6_segments a = to_segments 6 (unat a div 65536 div 65536) @ [unat a div 65536 mod 65536, unat a mod 65536]"
    using to_segments_two [of 6 "unat a"] by (simp add: ipv6_segments_def)
  moreover have "unat a div 65536 mod 65536 = unat a mod 2 ^ 32 div 65536" "unat a mod 65536 = unat a mod 2 ^ 32 mod 65536"
    using mod_mult2_eq [of "unat a" 65536 65536] by simp_all
  ultimately show ?thesis using assms by simp
qed

lemma read_mapped:
  assumes "n < 2 ^ 32"
  shows "read_groups 0 7 (''ffff:'' @ ipv4_text n) = ([65535, n div 65536, n mod 65536], True, [])"
proof -
  have "digit_char 15 = CHR ''f''"
    using char_of_byte [of "CHR ''f''"] by (simp add: digit_char_def byte_def)
  then have ffff: "show_radix 16 65535 = ''ffff''" by (simp add: show_radix_step show_radix_digit)
  have "read_ipv4 (show_radix 16 65535 @ '':'' @ ipv4_text n) = None" by (rule read_ipv4_group) simp
  moreover have "read_number 16 4 True 65536 (show_radix 16 65535 @ '':'' @ ipv4_text n) = Some (65535, '':'' @ ipv4_text n)"
    by (rule read_group_show) simp_all
  moreover have "read_ipv4 (ipv4_text n) = Some (n, [])" using read_ipv4_text [of n "[]"] assms by simp
  ultimately have "read_groups 0 (Suc (Suc (Suc m))) (''ffff:'' @ ipv4_text n) = ([65535, n div 65536, n mod 65536], True, [])" for m
    by (simp add: ffff read_separator_def read_given_char_def)
  from this [of 4] show ?thesis by simp
qed

lemma replicate_eval: "replicate 5 (0 :: nat) = [0, 0, 0, 0, 0]"
  by code_simp

lemma parse_show_ipv6 [simp]: "parse_ipv6 (show_ipv6 a) = Some a"
proof -
  let ?gs = "ipv6_segments a"
  have less: "\<forall>g \<in> set ?gs. g < 65536" and len: "length ?gs = 8" by (simp_all add: ipv6_segments_def to_segments_less)
  obtain start size where z: "longest_zeroes ?gs = (start, size)" by (cases "longest_zeroes ?gs")
  have span: "zero_span ?gs 8 (start, size)" using longest_zeroes_span [of ?gs] z len by simp
  consider (mapped) "take 6 ?gs = [0, 0, 0, 0, 0, 65535]"
    | (compressed) "take 6 ?gs \<noteq> [0, 0, 0, 0, 0, 65535]" "1 < size"
    | (full) "take 6 ?gs \<noteq> [0, 0, 0, 0, 0, 65535]" "\<not> 1 < size" by blast
  then show ?thesis
  proof cases
    case mapped
    let ?n = "unat a mod 2 ^ 32"
    have "read_groups 0 8 (''::ffff:'' @ ipv4_text ?n) = ([], False, ''::ffff:'' @ ipv4_text ?n)"
      using read_groups_start [of "[]" 8 "''::ffff:'' @ ipv4_text ?n"] by (simp add: ends_groups_def groups_text_def)
    then have "read_ipv6 (show_ipv6 a) = Some (from_segments (replicate 5 0 @ [65535, ?n div 65536, ?n mod 65536]), [])"
      using mapped read_mapped [of ?n] by (simp add: show_ipv6_def read_ipv6_def read_given_char_def)
    also have "replicate 5 0 @ [65535, ?n div 65536, ?n mod 65536] = ?gs"
      using mapped_segments [OF mapped]
      by (simp add: replicate_eval)
    finally show ?thesis by (simp add: parse_ipv6_def)
  next
    case compressed
    let ?h = "take start ?gs" and ?t = "drop (start + size) ?gs"
    have "\<forall>g \<in> set (?h @ ?t). g < 65536" using less by (auto dest: in_set_takeD in_set_dropD)
    moreover have lens: "length ?h + length ?t < 8" "8 - length ?h - length ?t = size"
      using span compressed len by (auto simp: zero_span_def)
    ultimately have "read_ipv6 (show_ipv6 a) = Some (from_segments (?h @ replicate size 0 @ ?t), [])"
      using compressed z read_ipv6_compressed [of ?h ?t] by (simp only: show_ipv6_def Let_def if_False if_True fst_conv snd_conv)
    then show ?thesis using zero_span_split [of ?gs start size] span len by (simp add: parse_ipv6_def)
  next
    case full
    have "read_groups 0 8 (groups_text ?gs) = (?gs, False, [])"
      using read_groups_start [of ?gs 8 "[]"] less len by (simp add: ends_groups_def)
    then show ?thesis using full z len by (simp add: parse_ipv6_def show_ipv6_def read_ipv6_def)
  qed
qed

end
