(* ===== verification/Route53_Model.thy ===== *)
theory Route53_Model
  imports Zone_Lifecycle Ip_Addr
begin

text \<open>
  The Route 53 representation of record sets and its translation to the provider-neutral contract:
  \<open>crates/center-adapter-route53/src/model.rs\<close> and the types of \<open>api.rs\<close>, with the error constructors and
  \<open>normalize_zone_id\<close> of \<open>lib.rs\<close>. Text is its UTF-8 bytes. The \<open>idna\<close>, \<open>serde_json\<close>, SHA-256 and base64
  functions are arguments, collected in a record.
\<close>

section \<open>Errors\<close>

type_synonym 'a ProviderResult = "NormalizedProviderError + 'a"

definition provider_error :: "ProviderErrorCategory \<Rightarrow> string \<Rightarrow> NormalizedProviderError" where
  "provider_error category code =
     \<lparr>ne_category = category, ne_code = code, ne_message = ''Route 53 DNS adapter rejected the request'',
      ne_retry_after_ms = None, ne_provider_request_id = None\<rparr>"

definition validation :: "string \<Rightarrow> NormalizedProviderError" where
  "validation code = provider_error EValidation code"

definition not_found :: "string \<Rightarrow> NormalizedProviderError" where
  "not_found code = provider_error ENotFound code"

definition conflict :: "string \<Rightarrow> NormalizedProviderError" where
  "conflict code = provider_error EConflict code"

definition unknown_outcome :: "string \<Rightarrow> NormalizedProviderError" where
  "unknown_outcome code = provider_error EUnknownOutcome code"

text \<open>\<open>map_err(|_| e)\<close> and \<open>ok_or_else(|| e)\<close>.\<close>

definition map_err :: "'e \<Rightarrow> 'd + 'a \<Rightarrow> 'e + 'a" where
  "map_err e r = (case r of Inl _ \<Rightarrow> Inl e | Inr x \<Rightarrow> Inr x)"

definition ok_or :: "'e \<Rightarrow> 'a option \<Rightarrow> 'e + 'a" where
  "ok_or e v = (case v of None \<Rightarrow> Inl e | Some x \<Rightarrow> Inr x)"

text \<open>\<open>as_ref().map(f).transpose()\<close>, and \<open>iter().map(f).collect::<Result<Vec<_>, _>>()\<close>.\<close>

definition transpose_map :: "('a \<Rightarrow> 'e + 'b) \<Rightarrow> 'a option \<Rightarrow> 'e + 'b option" where
  "transpose_map f v = (case v of None \<Rightarrow> Inr None | Some x \<Rightarrow> and_then (f x) (\<lambda>y. Inr (Some y)))"

fun collect_ok :: "('a \<Rightarrow> 'e + 'b) \<Rightarrow> 'a list \<Rightarrow> 'e + 'b list" where
  "collect_ok f [] = Inr []"
| "collect_ok f (x # xs) = and_then (f x) (\<lambda>y. and_then (collect_ok f xs) (\<lambda>ys. Inr (y # ys)))"

section \<open>The provider's record sets\<close>

record Route53AliasTargetData =
  atd_hosted_zone_id :: string
  atd_dns_name :: string
  atd_evaluate_target_health :: bool

record Route53GeoLocationData =
  continent_code :: "string option"
  country_code :: "string option"
  subdivision_code :: "string option"

record Route53RecordSet =
  raw_name :: string
  raw_record_type :: string
  raw_ttl :: "u32 option"
  raw_resource_records :: "string list"
  raw_alias_target :: "Route53AliasTargetData option"
  raw_set_identifier :: "string option"
  raw_weight :: "8 word option"
  raw_failover :: "string option"
  raw_region :: "string option"
  raw_geolocation :: "Route53GeoLocationData option"
  raw_multivalue_answer :: "bool option"
  raw_health_check_id :: "string option"
  raw_traffic_policy_instance_id :: "string option"
  raw_has_cidr_routing_config :: bool
  raw_has_geoproximity_location :: bool

record route53_codec =
  cx_idna :: "string \<Rightarrow> string option"
  cx_record_set_json :: "ProviderDnsRecordSet \<Rightarrow> string option"
  cx_digest :: "string \<Rightarrow> string"

section \<open>Catalogues\<close>

definition ROUTE53_LATENCY_REGIONS :: "string list" where
  "ROUTE53_LATENCY_REGIONS =
     [''us-east-1'', ''us-east-2'', ''us-west-1'', ''us-west-2'', ''ca-central-1'', ''eu-west-1'', ''eu-west-2'',
      ''eu-west-3'', ''eu-central-1'', ''eu-central-2'', ''ap-southeast-1'', ''ap-southeast-2'', ''ap-southeast-3'',
      ''ap-northeast-1'', ''ap-northeast-2'', ''ap-northeast-3'', ''eu-north-1'', ''sa-east-1'', ''cn-north-1'',
      ''cn-northwest-1'', ''ap-east-1'', ''me-south-1'', ''me-central-1'', ''ap-south-1'', ''ap-south-2'',
      ''af-south-1'', ''eu-south-1'', ''eu-south-2'', ''ap-southeast-4'', ''il-central-1'', ''ca-west-1'',
      ''ap-southeast-5'', ''mx-central-1'', ''ap-southeast-7'', ''us-gov-east-1'', ''us-gov-west-1'', ''ap-east-2'',
      ''ap-southeast-6'']"

definition ISO_3166_ALPHA2 :: string where
  "ISO_3166_ALPHA2 =
     ''ADAEAFAGAIALAMAOAQARASATAUAWAXAZ'' @
     ''BABBBDBEBFBGBHBIBJBLBMBNBOBQBRBSBTBVBWBYBZ'' @
     ''CACCCDCFCGCHCICKCLCMCNCOCRCUCVCWCXCYCZ'' @
     ''DEDJDKDMDODZ'' @
     ''ECEEEGEHERESET'' @
     ''FIFJFKFMFOFR'' @
     ''GAGBGDGEGFGGGHGIGLGMGNGPGQGRGSGTGUGWGY'' @
     ''HKHMHNHRHTHU'' @
     ''IDIEILIMINIOIQIRISIT'' @
     ''JEJMJOJP'' @
     ''KEKGKHKIKMKNKPKRKWKYKZ'' @
     ''LALBLCLILKLRLSLTLULVLY'' @
     ''MAMCMDMEMFMGMHMKMLMMMNMOMPMQMRMSMTMUMVMWMXMYMZ'' @
     ''NANCNENFNGNINLNONPNRNUNZ'' @
     ''OM'' @
     ''PAPEPFPGPHPKPLPMPNPRPSPTPWPY'' @
     ''QA'' @
     ''RERORSRURW'' @
     ''SASBSCSDSESGSHSISJSKSLSMSNSOSRSSSTSVSXSYSZ'' @
     ''TCTDTFTGTHTJTKTLTMTNTOTRTTTVTWTZ'' @
     ''UAUGUMUSUYUZ'' @
     ''VAVCVEVGVIVNVU'' @
     ''WFWS'' @
     ''YEYT'' @
     ''ZAZMZW''"

definition ROUTE53_US_SUBDIVISIONS :: string where
  "ROUTE53_US_SUBDIVISIONS =
     ''AKALAZARCACOCTDEFLGAHIIDILINIAKSKYLAMEMDMAMIMNMSMOMT'' @
     ''NENVNHNJNMNYNCNDOHOKORPARISCSDTNTXUTVTVAWAWVWIWY'' @
     ''ASDCFMGUMHMPRPVIAAAEAP''"

fun chunks2 :: "string \<Rightarrow> string list" where
  "chunks2 (a # b # rest) = [a, b] # chunks2 rest"
| "chunks2 _ = []"

definition catalog_contains :: "string \<Rightarrow> string \<Rightarrow> bool" where
  "catalog_contains catalog code \<longleftrightarrow> length code = 2 \<and> list_ex (\<lambda>candidate. candidate = code) (chunks2 catalog)"

section \<open>Presentation format\<close>

definition normalize_zone_id :: "string \<Rightarrow> string ProviderResult" where
  "normalize_zone_id v =
     (let normalized = (case strip_prefix ''/hostedzone/'' v of Some x \<Rightarrow> x | None \<Rightarrow> v)
      in if normalized = [] \<or> 32 < length normalized \<or> \<not> starts_with ''Z'' normalized
            \<or> \<not> list_all (\<lambda>c. is_ascii_uppercase c \<or> is_ascii_digit c) normalized
            \<or> starts_with ''/hostedzone//'' v \<or> CHR ''/'' \<in> set normalized
         then Inl (validation ''invalid_route53_zone_id'') else Inr normalized)"

definition is_octal_digit :: "char \<Rightarrow> bool" where
  "is_octal_digit c \<longleftrightarrow> 48 \<le> byte c \<and> byte c \<le> 55"

text \<open>The octet at the cursor, the cursor being the rest of the text.\<close>

definition parse_octal_escape :: "string \<Rightarrow> char option" where
  "parse_octal_escape s =
     (case s of
        a # b # c # _ \<Rightarrow>
          if \<not> list_all is_octal_digit [a, b, c] then None
          else let v = (byte a - 48) * 64 + (byte b - 48) * 8 + (byte c - 48)
               in if v < 256 then Some (char_of v) else None
      | _ \<Rightarrow> None)"

text \<open>\<open>String::from_utf8\<close>: the well-formed byte sequences of the Unicode standard.\<close>

definition in_bytes :: "nat \<Rightarrow> nat \<Rightarrow> char \<Rightarrow> bool" where
  "in_bytes lo hi c \<longleftrightarrow> lo \<le> byte c \<and> byte c \<le> hi"

fun valid_utf8 :: "string \<Rightarrow> bool" where
  "valid_utf8 [] \<longleftrightarrow> True"
| "valid_utf8 (a # r) \<longleftrightarrow>
     (if byte a < 128 then valid_utf8 r
      else case r of
        [] \<Rightarrow> False
      | b # r1 \<Rightarrow>
          if in_bytes 194 223 a then in_bytes 128 191 b \<and> valid_utf8 r1
          else case r1 of
            [] \<Rightarrow> False
          | c # r2 \<Rightarrow>
              if in_bytes 224 239 a then
                in_bytes (if byte a = 224 then 160 else 128) (if byte a = 237 then 159 else 191) b
                \<and> in_bytes 128 191 c \<and> valid_utf8 r2
              else case r2 of
                [] \<Rightarrow> False
              | d # r3 \<Rightarrow>
                  in_bytes 240 244 a
                  \<and> in_bytes (if byte a = 240 then 144 else 128) (if byte a = 244 then 143 else 191) b
                  \<and> in_bytes 128 191 c \<and> in_bytes 128 191 d \<and> valid_utf8 r3)"

text \<open>The decoding loop, then the conversion of the octets to a string.\<close>

fun decode_escapes :: "string \<Rightarrow> string ProviderResult" where
  "decode_escapes [] = Inr []"
| "decode_escapes (c # cs) =
     (if c \<noteq> CHR 0x5C then and_then (decode_escapes cs) (\<lambda>decoded. Inr (c # decoded))
      else case parse_octal_escape cs of
        None \<Rightarrow> Inl (validation ''invalid_route53_domain_escape'')
      | Some octet \<Rightarrow> and_then (decode_escapes (drop 3 cs)) (\<lambda>decoded. Inr (octet # decoded)))"

definition decode_domain_presentation :: "string \<Rightarrow> string ProviderResult" where
  "decode_domain_presentation v =
     and_then (decode_escapes v) (\<lambda>decoded.
       if valid_utf8 decoded then Inr decoded else Inl (validation ''unsupported_route53_domain_encoding''))"

definition is_ascii_whitespace :: "char \<Rightarrow> bool" where
  "is_ascii_whitespace c \<longleftrightarrow> byte c \<in> {9, 10, 12, 13, 32}"

text \<open>The loop inside the quotes: the octets up to the closing quote and what follows it.\<close>

fun read_segment :: "string \<Rightarrow> (string \<times> string) ProviderResult" where
  "read_segment [] = Inl (validation ''invalid_route53_character_string'')"
| "read_segment (c # cs) =
     (if c = CHR 0x22 then Inr ([], cs)
      else if c = CHR 0x5C then
        (case cs of
           [] \<Rightarrow> Inl (validation ''invalid_route53_character_string'')
         | d # ds \<Rightarrow>
             if is_ascii_digit d then
               (case parse_octal_escape cs of
                  None \<Rightarrow> Inl (validation ''invalid_route53_character_string'')
                | Some octet \<Rightarrow> and_then (read_segment (drop 3 cs)) (\<lambda>(segment, rest). Inr (octet # segment, rest)))
             else and_then (read_segment ds) (\<lambda>(segment, rest). Inr (d # segment, rest)))
      else and_then (read_segment cs) (\<lambda>(segment, rest). Inr (c # segment, rest)))"

lemma read_segment_shorter: "read_segment s = Inr (segment, rest) \<Longrightarrow> length rest < length s"
proof (induction s arbitrary: segment rest rule: read_segment.induct)
  case (2 c cs)
  show ?case
  proof (cases "c = CHR 0x22 \<or> c \<noteq> CHR 0x5C")
    case True
    with 2 show ?thesis by (fastforce simp: and_then_eq_Inr split: if_splits)
  next
    case False
    with 2 show ?thesis
      by (fastforce simp: and_then_eq_Inr split: if_splits list.splits option.splits)
  qed
qed simp

text \<open>The loop over the quoted strings.\<close>

function read_segments :: "string \<Rightarrow> string list ProviderResult" where
  "read_segments s =
     (case dropWhile is_ascii_whitespace s of
        [] \<Rightarrow> Inr []
      | c # cs \<Rightarrow>
          if c \<noteq> CHR 0x22 then Inl (validation ''invalid_route53_character_string'')
          else case read_segment cs of
            Inl e \<Rightarrow> Inl e
          | Inr (segment, rest) \<Rightarrow>
              and_then (map_err (validation ''invalid_route53_character_string'') (character_string_new segment)) (\<lambda>segment'.
              and_then (read_segments rest) (\<lambda>segments. Inr (segment' # segments))))"
  by pat_completeness auto
termination
proof (relation "measure length")
  fix s c cs p segment rest segment'
  assume "dropWhile is_ascii_whitespace s = c # cs" "read_segment cs = Inr p" "(segment, rest) = p"
  then have "length rest < length cs" "length (c # cs) \<le> length s"
    using read_segment_shorter length_dropWhile_le [of is_ascii_whitespace s] by auto
  then show "(rest, s) \<in> measure length" by simp
qed simp

declare read_segments.simps [simp del]

definition parse_character_strings :: "string \<Rightarrow> string list ProviderResult" where
  "parse_character_strings v =
     and_then (read_segments v) (\<lambda>segments.
       if segments = [] then Inl (validation ''invalid_route53_character_string'')
       else map_err (validation ''invalid_route53_character_string'') (txt_value_new segments))"

function split_ascii_whitespace :: "string \<Rightarrow> string list" where
  "split_ascii_whitespace [] = []"
| "split_ascii_whitespace (c # cs) =
     (if is_ascii_whitespace c then split_ascii_whitespace cs
      else (c # takeWhile (\<lambda>d. \<not> is_ascii_whitespace d) cs)
             # split_ascii_whitespace (dropWhile (\<lambda>d. \<not> is_ascii_whitespace d) cs))"
  by pat_completeness auto
termination
  by (relation "measure length") (auto simp: length_dropWhile_le le_imp_less_Suc)

definition fields :: "string \<Rightarrow> nat \<Rightarrow> string \<Rightarrow> string list ProviderResult" where
  "fields v count code =
     (let fs = split_ascii_whitespace v in if length fs \<noteq> count then Inl (validation code) else Inr fs)"

text \<open>The text before the first whitespace character and the text from there.\<close>

fun split_at_whitespace :: "string \<Rightarrow> (string \<times> string) option" where
  "split_at_whitespace s =
     (if list_ex (\<lambda>w. starts_with w s) whitespace_encodings then Some ([], s)
      else case s of
        [] \<Rightarrow> None
      | c # cs \<Rightarrow> map_option (\<lambda>(a, b). (c # a, b)) (split_at_whitespace cs))"

declare split_at_whitespace.simps [simp del]

definition take_presentation_field :: "string \<Rightarrow> (string \<times> string) option" where
  "take_presentation_field v =
     (case split_at_whitespace (trim_words whitespace_encodings v) of
        None \<Rightarrow> None
      | Some (field, rest) \<Rightarrow> if field = [] then None else Some (field, trim_words whitespace_encodings rest))"

section \<open>Values\<close>

text \<open>The derived order of \<open>DnsRecordSetValue\<close>: the variant first, then the fields in their order.\<close>

fun value_rank :: "DnsRecordSetValue \<Rightarrow> nat \<times> nat list \<times> string list \<times> nat list" where
  "value_rank (VA address) = (0, [unat address], [], [])"
| "value_rank (VAaaa address) = (1, [unat address], [], [])"
| "value_rank (VCname target) = (2, [], [target], [])"
| "value_rank (VTxt segments) = (3, [], segments, [])"
| "value_rank (VMx preference exchange) = (4, [unat preference], [exchange], [])"
| "value_rank (VSrv priority weight port target) = (5, [unat priority, unat weight, unat port], [target], [])"
| "value_rank (VCaa flags tag v) = (6, [unat flags], [tag, v], [])"
| "value_rank (VNs target) = (7, [], [target], [])"
| "value_rank (VSoa mname rname serial refresh retry expire minimum) =
     (8, [], [mname, rname], [unat serial, unat refresh, unat retry, unat expire, unat minimum])"

lemma value_rank_inject: "value_rank v = value_rank w \<longleftrightarrow> v = w"
  by (cases v; cases w) (auto simp: word_unat_eq_iff)

instantiation DnsRecordSetValue :: linorder
begin

definition less_eq_DnsRecordSetValue :: "DnsRecordSetValue \<Rightarrow> DnsRecordSetValue \<Rightarrow> bool" where
  "v \<le> w \<longleftrightarrow> value_rank v \<le> value_rank w"

definition less_DnsRecordSetValue :: "DnsRecordSetValue \<Rightarrow> DnsRecordSetValue \<Rightarrow> bool" where
  "v < w \<longleftrightarrow> value_rank v < value_rank w"

instance
  by standard
    (auto simp: less_eq_DnsRecordSetValue_def less_DnsRecordSetValue_def value_rank_inject
      intro: order_antisym dest: order_antisym [of "value_rank _" "value_rank _"])

end

text \<open>\<open>collect::<BTreeSet<_>>()\<close>.\<close>

definition btree_set :: "'a :: linorder list \<Rightarrow> 'a list" where
  "btree_set xs = sort (remdups xs)"

definition absolute_name :: "route53_codec \<Rightarrow> string \<Rightarrow> string \<Rightarrow> string ProviderResult" where
  "absolute_name cx v code =
     and_then (decode_domain_presentation v) (\<lambda>decoded.
       map_err (validation code) (absolute_dns_name_new (cx_idna cx) decoded))"

definition parse_number :: "string \<Rightarrow> string \<Rightarrow> ('w :: len) word ProviderResult" where
  "parse_number v code = ok_or (validation code) (parse_word v)"

definition parse_caa :: "string \<Rightarrow> DnsRecordSetValue ProviderResult" where
  "parse_caa v =
     (let code = ''invalid_route53_caa_value''
      in and_then (ok_or (validation code) (take_presentation_field v)) (\<lambda>(flags, remaining).
         and_then (ok_or (validation code) (take_presentation_field remaining)) (\<lambda>(tag, presentation).
         and_then (parse_number flags code) (\<lambda>flags'.
         and_then (map_err (validation code) (caa_tag_new tag)) (\<lambda>tag'.
         and_then (parse_character_strings presentation) (\<lambda>strings.
           if length strings \<noteq> 1 then Inl (validation code) else Inr (VCaa flags' tag' (hd strings))))))))"

fun parse_value :: "route53_codec \<Rightarrow> ProviderDnsRecordType \<Rightarrow> string \<Rightarrow> DnsRecordSetValue ProviderResult" where
  "parse_value cx TA v =
     and_then (ok_or (validation ''invalid_route53_a_value'') (parse_ipv4 v)) (\<lambda>address. Inr (VA address))"
| "parse_value cx TAaaa v =
     and_then (ok_or (validation ''invalid_route53_aaaa_value'') (parse_ipv6 v)) (\<lambda>address. Inr (VAaaa address))"
| "parse_value cx TCname v =
     and_then (absolute_name cx v ''invalid_route53_cname_value'') (\<lambda>target. Inr (VCname target))"
| "parse_value cx TTxt v = and_then (parse_character_strings v) (\<lambda>segments. Inr (VTxt segments))"
| "parse_value cx TMx v =
     (let code = ''invalid_route53_mx_value''
      in and_then (fields v 2 code) (\<lambda>fs.
         and_then (parse_number (fs ! 0) code) (\<lambda>preference.
         and_then (absolute_name cx (fs ! 1) code) (\<lambda>exchange. Inr (VMx preference exchange)))))"
| "parse_value cx TSrv v =
     (let code = ''invalid_route53_srv_value''
      in and_then (fields v 4 code) (\<lambda>fs.
         and_then (parse_number (fs ! 0) code) (\<lambda>priority.
         and_then (parse_number (fs ! 1) code) (\<lambda>weight.
         and_then (parse_number (fs ! 2) code) (\<lambda>port.
         and_then (absolute_name cx (fs ! 3) code) (\<lambda>target. Inr (VSrv priority weight port target)))))))"
| "parse_value cx TCaa v = parse_caa v"
| "parse_value cx TNs v =
     and_then (absolute_name cx v ''invalid_route53_ns_value'') (\<lambda>target. Inr (VNs target))"
| "parse_value cx TSoa v =
     (let code = ''invalid_route53_soa_value''
      in and_then (fields v 7 code) (\<lambda>fs.
         and_then (absolute_name cx (fs ! 0) code) (\<lambda>mname.
         and_then (absolute_name cx (fs ! 1) code) (\<lambda>rname.
         and_then (parse_number (fs ! 2) code) (\<lambda>serial.
         and_then (parse_number (fs ! 3) code) (\<lambda>refresh.
         and_then (parse_number (fs ! 4) code) (\<lambda>retry.
         and_then (parse_number (fs ! 5) code) (\<lambda>expire.
         and_then (parse_number (fs ! 6) code) (\<lambda>minimum.
           Inr (VSoa mname rname serial refresh retry expire minimum))))))))))"

text \<open>\<open>{value:03o}\<close> of an octet.\<close>

definition octal3 :: "nat \<Rightarrow> string" where
  "octal3 n = [char_of (48 + n div 64), char_of (48 + n div 8 mod 8), char_of (48 + n mod 8)]"

definition render_octet :: "char \<Rightarrow> string" where
  "render_octet c =
     (if c = CHR 0x22 \<or> c = CHR 0x5C then [CHR 0x5C, c]
      else if 32 \<le> byte c \<and> byte c \<le> 126 then [c]
      else CHR 0x5C # octal3 (byte c))"

definition render_character_string :: "string \<Rightarrow> string" where
  "render_character_string v = [CHR 0x22] @ concat (map render_octet v) @ [CHR 0x22]"

definition show_word :: "('w :: len) word \<Rightarrow> string" where
  "show_word w = show_nat (unat w)"

fun render_value :: "DnsRecordSetValue \<Rightarrow> string" where
  "render_value (VA address) = show_ipv4 address"
| "render_value (VAaaa address) = show_ipv6 address"
| "render_value (VCname target) = fqdn target"
| "render_value (VNs target) = fqdn target"
| "render_value (VTxt segments) = join_with '' '' (map render_character_string segments)"
| "render_value (VMx preference exchange) = show_word preference @ '' '' @ fqdn exchange"
| "render_value (VSrv priority weight port target) =
     show_word priority @ '' '' @ show_word weight @ '' '' @ show_word port @ '' '' @ fqdn target"
| "render_value (VCaa flags tag v) = show_word flags @ '' '' @ tag @ '' '' @ render_character_string v"
| "render_value (VSoa mname rname serial refresh retry expire minimum) =
     fqdn mname @ '' '' @ fqdn rname @ '' '' @ show_word serial @ '' '' @ show_word refresh @ '' ''
       @ show_word retry @ '' '' @ show_word expire @ '' '' @ show_word minimum"

section \<open>Record sets\<close>

definition map_record_type :: "string \<Rightarrow> ProviderDnsRecordType ProviderResult" where
  "map_record_type v =
     (if v = ''A'' then Inr TA
      else if v = ''AAAA'' then Inr TAaaa
      else if v = ''CNAME'' then Inr TCname
      else if v = ''TXT'' then Inr TTxt
      else if v = ''MX'' then Inr TMx
      else if v = ''SRV'' then Inr TSrv
      else if v = ''CAA'' then Inr TCaa
      else if v = ''NS'' then Inr TNs
      else if v = ''SOA'' then Inr TSoa
      else Inl (validation ''unsupported_route53_record_type''))"

fun render_record_type :: "ProviderDnsRecordType \<Rightarrow> string" where
  "render_record_type TA = ''A''"
| "render_record_type TAaaa = ''AAAA''"
| "render_record_type TCname = ''CNAME''"
| "render_record_type TTxt = ''TXT''"
| "render_record_type TMx = ''MX''"
| "render_record_type TSrv = ''SRV''"
| "render_record_type TCaa = ''CAA''"
| "render_record_type TNs = ''NS''"
| "render_record_type TSoa = ''SOA''"

definition map_geolocation :: "Route53GeoLocationData \<Rightarrow> Route53GeoLocation ProviderResult" where
  "map_geolocation v =
     (case (continent_code v, country_code v, subdivision_code v) of
        (Some code, None, None) \<Rightarrow>
          if code \<in> {''AF'', ''AN'', ''AS'', ''EU'', ''OC'', ''NA'', ''SA''} then Inr (Continent code)
          else Inl (validation ''invalid_route53_geolocation'')
      | (None, Some country, None) \<Rightarrow>
          if country = ''*'' then Inr GeoDefault
          else if catalog_contains ISO_3166_ALPHA2 country then Inr (Country country)
          else Inl (validation ''invalid_route53_geolocation'')
      | (None, Some country, Some code) \<Rightarrow>
          if country = ''US'' \<and> catalog_contains ROUTE53_US_SUBDIVISIONS code then Inr (UsSubdivision code)
          else Inl (validation ''invalid_route53_geolocation'')
      | _ \<Rightarrow> Inl (validation ''invalid_route53_geolocation''))"

fun render_geolocation :: "Route53GeoLocation \<Rightarrow> Route53GeoLocationData" where
  "render_geolocation GeoDefault = \<lparr>continent_code = None, country_code = Some ''*'', subdivision_code = None\<rparr>"
| "render_geolocation (Continent code) = \<lparr>continent_code = Some code, country_code = None, subdivision_code = None\<rparr>"
| "render_geolocation (Country code) = \<lparr>continent_code = None, country_code = Some code, subdivision_code = None\<rparr>"
| "render_geolocation (UsSubdivision code) =
     \<lparr>continent_code = None, country_code = Some ''US'', subdivision_code = Some code\<rparr>"

definition map_failover :: "string \<Rightarrow> Route53RoutingPolicy ProviderResult" where
  "map_failover failover =
     (if failover = ''PRIMARY'' then Inr (Failover Primary)
      else if failover = ''SECONDARY'' then Inr (Failover Secondary)
      else Inl (validation ''unsupported_route53_failover_role''))"

definition map_region :: "string \<Rightarrow> Route53RoutingPolicy ProviderResult" where
  "map_region region =
     (if \<not> list_ex (\<lambda>r. r = region) ROUTE53_LATENCY_REGIONS then Inl (validation ''unsupported_route53_latency_region'')
      else Inr (Latency region))"

definition map_routing :: "Route53RecordSet \<Rightarrow> (DnsRoutingIdentity \<times> Route53RoutingPolicy option) ProviderResult" where
  "map_routing record =
     (let weighted = (case raw_weight record of None \<Rightarrow> [] | Some weight \<Rightarrow> [Weighted weight])
      in and_then (transpose_map map_failover (raw_failover record)) (\<lambda>failover.
         and_then (transpose_map map_region (raw_region record)) (\<lambda>latency.
         and_then (transpose_map map_geolocation (raw_geolocation record)) (\<lambda>location.
           let policies =
                 weighted @ (case failover of None \<Rightarrow> [] | Some p \<Rightarrow> [p]) @ (case latency of None \<Rightarrow> [] | Some p \<Rightarrow> [p])
                 @ (case location of None \<Rightarrow> [] | Some l \<Rightarrow> [Geolocation l])
                 @ (if raw_multivalue_answer record = Some True then [Multivalue] else [])
           in if 1 < length policies then Inl (validation ''multiple_route53_routing_policies'')
              else case (raw_set_identifier record, policies) of
                (None, []) \<Rightarrow> Inr (Simple, None)
              | (Some identifier, policy # _) \<Rightarrow> Inr (Route53Identity identifier, Some policy)
              | _ \<Rightarrow> Inl (validation ''invalid_route53_routing_identity'')))))"

definition map_alias :: "route53_codec \<Rightarrow> Route53AliasTargetData \<Rightarrow> Route53AliasTarget ProviderResult" where
  "map_alias cx target =
     and_then (normalize_zone_id (atd_hosted_zone_id target)) (\<lambda>zone.
     and_then (map_err (validation ''invalid_route53_alias_zone_id'') (validate_zone_id zone)) (\<lambda>_.
     and_then (decode_domain_presentation (atd_dns_name target)) (\<lambda>decoded.
     and_then (map_err (validation ''invalid_route53_alias_target'') (absolute_dns_name_new (cx_idna cx) decoded)) (\<lambda>name.
       Inr \<lparr>alias_zone_id = zone, alias_target = name,
            alias_evaluate_target_health = atd_evaluate_target_health target\<rparr>))))"

definition map_health_check :: "string \<Rightarrow> string ProviderResult" where
  "map_health_check v =
     and_then (map_err (validation ''invalid_route53_health_check_id'') (validate_health_check_id v)) (\<lambda>_. Inr v)"

definition map_values_and_ttl ::
  "route53_codec \<Rightarrow> ProviderDnsRecordType \<Rightarrow> Route53RecordSet \<Rightarrow> (DnsTtl \<times> DnsRecordSetValue list) ProviderResult" where
  "map_values_and_ttl cx ty record =
     (if raw_alias_target record \<noteq> None then
        (if raw_ttl record \<noteq> None \<or> raw_resource_records record \<noteq> [] then
           Inl (validation ''invalid_route53_alias_shape'')
         else Inr (Inherited, []))
      else
        and_then (ok_or (validation ''missing_route53_record_ttl'') (raw_ttl record)) (\<lambda>ttl.
          if raw_resource_records record = [] then Inl (validation ''missing_route53_record_values'')
          else
            and_then (collect_ok (parse_value cx ty) (raw_resource_records record)) (\<lambda>values.
              Inr (Seconds ttl, btree_set values))))"

definition canonical_revision :: "route53_codec \<Rightarrow> ProviderDnsRecordSet \<Rightarrow> string ProviderResult" where
  "canonical_revision cx rs =
     and_then (ok_or (validation ''route53_revision_encoding_failed'') (cx_record_set_json cx rs)) (\<lambda>canonical.
       let revision = ''sha256:'' @ cx_digest cx canonical
       in and_then (map_err (validation ''invalid_route53_record_revision'') (validate_revision revision)) (\<lambda>_.
            Inr revision))"

definition map_record_set ::
  "route53_codec \<Rightarrow> DnsZoneRef \<Rightarrow> Route53RecordSet \<Rightarrow> (ProviderDnsRecordSet \<times> string) ProviderResult" where
  "map_record_set cx zone record =
     (if raw_traffic_policy_instance_id record \<noteq> None then
        Inl (validation ''route53_traffic_policy_record_unsupported'')
      else if raw_has_cidr_routing_config record then Inl (validation ''route53_cidr_routing_unsupported'')
      else if raw_has_geoproximity_location record then
        Inl (validation ''route53_geoproximity_routing_unsupported'')
      else
        and_then (map_record_type (raw_record_type record)) (\<lambda>ty.
        and_then (decode_domain_presentation (raw_name record)) (\<lambda>decoded.
        and_then (map_err (validation ''invalid_route53_record_name'') (dns_owner_name_new (cx_idna cx) decoded)) (\<lambda>owner.
        and_then (map_routing record) (\<lambda>(routing, policy).
        and_then (transpose_map (map_alias cx) (raw_alias_target record)) (\<lambda>alias.
        and_then (transpose_map map_health_check (raw_health_check_id record)) (\<lambda>health.
        and_then (map_values_and_ttl cx ty record) (\<lambda>(ttl, values).
          let mapped = \<lparr>rs_key = \<lparr>key_owner = owner, key_type = ty, key_routing = routing\<rparr>,
                        rs_ttl = ttl, rs_values = values,
                        rs_extension = (if alias \<noteq> None \<or> policy \<noteq> None \<or> health \<noteq> None
                                        then Some (Route53Ext alias policy health) else None)\<rparr>
          in and_then (map_err (validation ''invalid_route53_record_set'') (validate_record_set zone mapped)) (\<lambda>_.
             and_then (canonical_revision cx mapped) (\<lambda>revision. Inr (mapped, revision)))))))))))"

definition blank_record :: "string \<Rightarrow> string \<Rightarrow> Route53RecordSet" where
  "blank_record name ty =
     \<lparr>raw_name = name, raw_record_type = ty, raw_ttl = None, raw_resource_records = [], raw_alias_target = None,
      raw_set_identifier = None, raw_weight = None, raw_failover = None, raw_region = None, raw_geolocation = None,
      raw_multivalue_answer = None, raw_health_check_id = None, raw_traffic_policy_instance_id = None,
      raw_has_cidr_routing_config = False, raw_has_geoproximity_location = False\<rparr>"

fun render_policy :: "Route53RoutingPolicy option \<Rightarrow> Route53RecordSet \<Rightarrow> Route53RecordSet" where
  "render_policy (Some (Weighted weight)) r = r\<lparr>raw_weight := Some weight\<rparr>"
| "render_policy (Some (Failover role)) r =
     r\<lparr>raw_failover := Some (case role of Primary \<Rightarrow> ''PRIMARY'' | Secondary \<Rightarrow> ''SECONDARY'')\<rparr>"
| "render_policy (Some (Latency region)) r = r\<lparr>raw_region := Some region\<rparr>"
| "render_policy (Some (Geolocation location)) r = r\<lparr>raw_geolocation := Some (render_geolocation location)\<rparr>"
| "render_policy (Some Multivalue) r = r\<lparr>raw_multivalue_answer := Some True\<rparr>"
| "render_policy None r = r"

definition render_alias :: "Route53AliasTarget \<Rightarrow> Route53AliasTargetData" where
  "render_alias target =
     \<lparr>atd_hosted_zone_id = alias_zone_id target, atd_dns_name = fqdn (alias_target target),
      atd_evaluate_target_health = alias_evaluate_target_health target\<rparr>"

definition render_extension :: "ProviderDnsRecordSet \<Rightarrow> Route53RecordSet \<Rightarrow> Route53RecordSet ProviderResult" where
  "render_extension rs r =
     (case rs_extension rs of
        Some (Route53Ext alias policy health) \<Rightarrow>
          Inr (render_policy policy
            (r\<lparr>raw_alias_target := map_option render_alias alias, raw_health_check_id := health,
               raw_set_identifier :=
                 (case key_routing (rs_key rs) of Route53Identity identifier \<Rightarrow> Some identifier | Simple \<Rightarrow> None)\<rparr>))
      | None \<Rightarrow> Inr r
      | Some _ \<Rightarrow> Inl (validation ''invalid_route53_record_extension''))"

definition render_record_set ::
  "route53_codec \<Rightarrow> DnsZoneRef \<Rightarrow> ProviderDnsRecordSet \<Rightarrow> Route53RecordSet ProviderResult" where
  "render_record_set cx zone rs =
     and_then (map_err (validation ''invalid_route53_record_set'') (validate_record_set zone rs)) (\<lambda>_.
     and_then (render_extension rs (blank_record (fqdn (key_owner (rs_key rs))) (render_record_type (key_type (rs_key rs))))) (\<lambda>r.
     and_then
       (if raw_alias_target r \<noteq> None then
          (if rs_ttl rs \<noteq> Inherited \<or> rs_values rs \<noteq> [] then Inl (validation ''invalid_route53_alias_shape'') else Inr r)
        else
          (case rs_ttl rs of
             Seconds v \<Rightarrow> Inr (r\<lparr>raw_ttl := Some v, raw_resource_records := map render_value (rs_values rs)\<rparr>)
           | _ \<Rightarrow> Inl (validation ''invalid_route53_record_ttl''))) (\<lambda>rendered.
     and_then (map_record_set cx zone rendered) (\<lambda>(round_trip, _).
       if round_trip \<noteq> rs then Inl (validation ''route53_record_render_not_lossless'') else Inr rendered))))"

section \<open>Reading back what was rendered\<close>

lemma map_err_Inr [simp]: "map_err e r = Inr x \<longleftrightarrow> r = Inr x"
  by (cases r) (auto simp: map_err_def)

lemma map_err_of_Inr [simp]: "map_err e (Inr x) = Inr x"
  by (simp add: map_err_def)

lemma ok_or_Inr [simp]: "ok_or e v = Inr x \<longleftrightarrow> v = Some x"
  by (cases v) (auto simp: ok_or_def)

lemma ok_or_Some [simp]: "ok_or e (Some x) = Inr x"
  by (simp add: ok_or_def)

lemma transpose_map_simps [simp]:
  "transpose_map f None = Inr None" "transpose_map f (Some x) = and_then (f x) (\<lambda>y. Inr (Some y))"
  by (simp_all add: transpose_map_def)

lemma collect_ok_map: "(\<And>x. x \<in> set xs \<Longrightarrow> f (g x) = Inr x) \<Longrightarrow> collect_ok f (map g xs) = Inr xs"
  by (induction xs) auto

lemma collect_ok_set: "collect_ok f xs = Inr ys \<Longrightarrow> y \<in> set ys \<Longrightarrow> \<exists>x \<in> set xs. f x = Inr y"
  by (induction xs arbitrary: ys) (auto simp: and_then_eq_Inr)

text \<open>Octets and character strings.\<close>

lemma octal_digits:
  "n < 256 \<Longrightarrow> n div 64 < 8" "n div 8 mod 8 < (8 :: nat)" "n mod 8 < (8 :: nat)"
  "n div 64 * 64 + n div 8 mod 8 * 8 + n mod 8 = (n :: nat)"
proof -
  have "(a * 8 + b) * 8 + c = a * 64 + b * 8 + c" for a b c :: nat by simp
  moreover have "(n div 8 div 8 * 8 + n div 8 mod 8) * 8 + n mod 8 = n" by (simp only: div_mult_mod_eq)
  moreover have "n div 64 = n div 8 div 8" by (simp flip: div_mult2_eq)
  ultimately show "n div 64 * 64 + n div 8 mod 8 * 8 + n mod 8 = n" by metis
qed (auto simp: less_mult_imp_div_less)

lemma parse_octal3: "parse_octal_escape (octal3 (byte c) @ rest) = Some c"
proof -
  note d = octal_digits(1) [OF byte_less [of c]] octal_digits(2,3) [of "byte c"]
  have "byte (char_of (48 + n)) = 48 + n" if "n < 8" for n :: nat using that by simp
  moreover have "48 \<le> 48 + n \<and> 48 + n \<le> 55" if "n < 8" for n :: nat using that by simp
  ultimately have "is_octal_digit (char_of (48 + n))" if "n < 8" for n :: nat using that by (simp only: is_octal_digit_def)
  with d have "list_all is_octal_digit (octal3 (byte c))" by (simp only: octal3_def list.pred_inject simp_thms)
  with d octal_digits(4) [of "byte c"] show ?thesis
    by (simp add: parse_octal_escape_def octal3_def)
qed

lemma octal3_head: "is_ascii_digit (hd (octal3 (byte c)))" "length (octal3 (byte c)) = 3"
  using octal_digits(1) [OF byte_less [of c]] by (simp_all add: octal3_def is_ascii_digit_def)

lemma escape_chars: "\<not> is_ascii_digit (CHR 0x22)" "\<not> is_ascii_digit (CHR 0x5C)"
  by (simp_all add: is_ascii_digit_def byte_def)

lemma read_rendered_octet:
  "read_segment (render_octet c @ s) = and_then (read_segment s) (\<lambda>(segment, rest). Inr (c # segment, rest))"
proof -
  consider "c = CHR 0x22 \<or> c = CHR 0x5C" | "c \<noteq> CHR 0x22" "c \<noteq> CHR 0x5C" "32 \<le> byte c \<and> byte c \<le> 126"
    | "c \<noteq> CHR 0x22" "c \<noteq> CHR 0x5C" "\<not> (32 \<le> byte c \<and> byte c \<le> 126)" by blast
  then show ?thesis
  proof cases
    case 3
    obtain a as where a: "octal3 (byte c) = a # as" "is_ascii_digit a" "length as = 2"
      using octal3_head [of c] by (cases "octal3 (byte c)") auto
    moreover have "parse_octal_escape (a # as @ s) = Some c" using parse_octal3 [of c s] a by simp
    moreover have "drop 3 (a # as @ s) = s" using a by simp
    ultimately show ?thesis using 3 by (simp add: render_octet_def)
  qed (auto simp: render_octet_def escape_chars)
qed

lemma read_rendered_segment: "read_segment (concat (map render_octet v) @ CHR 0x22 # rest) = Inr (v, rest)"
  by (induction v) (simp_all add: read_rendered_octet del: read_segment.simps(2), simp)

lemma read_segments_blank: "\<forall>c \<in> set s. is_ascii_whitespace c \<Longrightarrow> read_segments s = Inr []"
  by (subst read_segments.simps) (simp add: dropWhile_eq_Nil_conv [THEN iffD2])

lemma quote_not_space: "\<not> is_ascii_whitespace (CHR 0x22)"
  by (simp add: is_ascii_whitespace_def byte_def)

lemma space_is_space: "is_ascii_whitespace (CHR '' '')"
  by (simp add: is_ascii_whitespace_def byte_def)

lemma read_segments_step:
  assumes "length v \<le> 255" "\<forall>c \<in> set pre. is_ascii_whitespace c"
  shows "read_segments (pre @ render_character_string v @ rest) = and_then (read_segments rest) (\<lambda>vs. Inr (v # vs))"
proof -
  have "dropWhile is_ascii_whitespace (pre @ render_character_string v @ rest)
      = CHR 0x22 # concat (map render_octet v) @ CHR 0x22 # rest"
    using assms(2) quote_not_space by (simp add: render_character_string_def dropWhile_append)
  then show ?thesis
    using assms(1) by (subst read_segments.simps) (simp add: read_rendered_segment character_string_new_def)
qed

lemma read_rendered_segments:
  "\<forall>v \<in> set vs. length v \<le> 255 \<Longrightarrow> read_segments (join_with '' '' (map render_character_string vs)) = Inr vs"
proof (induction vs rule: induct_list012)
  case 1
  show ?case by (simp add: read_segments_blank)
next
  case (2 v)
  then show ?case using read_segments_step [of v "[]" "[]"] by (simp add: read_segments_blank)
next
  case (3 v w vs)
  have "read_segments (CHR '' '' # s) = read_segments s" for s
    by (subst (1 2) read_segments.simps) (simp add: space_is_space)
  with 3 read_segments_step [of v "[]" "'' '' @ join_with '' '' (map render_character_string (w # vs))"]
  show ?case by simp
qed

lemma parse_rendered_strings:
  assumes "\<forall>v \<in> set vs. length v \<le> 255" "txt_value_new vs = Inr vs"
  shows "parse_character_strings (join_with '' '' (map render_character_string vs)) = Inr vs"
  using assms by (auto simp: parse_character_strings_def read_rendered_segments txt_value_new_def)

text \<open>Names: a canonical name is printed without escapes.\<close>

definition name_char :: "char \<Rightarrow> bool" where
  "name_char c \<longleftrightarrow> is_ascii_alphanumeric c \<or> c \<in> {CHR ''-'', CHR ''_'', CHR ''.'', CHR ''*''}"

lemma name_char_plain:
  assumes "name_char c"
  shows "graphic c" "c \<noteq> CHR 0x5C" "\<not> is_ascii_whitespace c" "byte c < 128"
  using assms by (auto simp: name_char_def ascii_class_defs byte_def graphic_def is_ascii_whitespace_def)

lemma decode_plain: "\<forall>c \<in> set s. c \<noteq> CHR 0x5C \<Longrightarrow> decode_escapes s = Inr s"
  by (induction s) auto

lemma ascii_valid_utf8: "\<forall>c \<in> set s. byte c < 128 \<Longrightarrow> valid_utf8 s"
  by (induction s) auto

lemma decode_name: "list_all name_char s \<Longrightarrow> decode_domain_presentation s = Inr s"
  using name_char_plain
  by (simp add: decode_domain_presentation_def decode_plain ascii_valid_utf8 list_all_iff)

lemma join_with_chars: "\<forall>l \<in> set ls. list_all P l \<Longrightarrow> list_all P sep \<Longrightarrow> list_all P (join_with sep ls)"
  by (induction sep ls rule: join_with.induct) auto

lemma label_name_chars: "n = ''*'' \<or> canonical_label u n \<Longrightarrow> list_all name_char n"
  by (auto simp: canonical_label_def label_chars_ok_def list_all_iff name_char_def)

lemma normalized_labels:
  assumes "normalize_name idna v u w = Inr n"
  obtains ls ns where "normalize_labels idna u w True ls = Inr ns" "ns \<noteq> []" "n = join_with ''.'' ns" "length n \<le> 253"
    "\<forall>l \<in> set ns. l = ''*'' \<or> canonical_label u l"
proof -
  from assms obtain ls ns where "normalize_labels idna u w True ls = Inr ns" "ls \<noteq> []" "n = join_with ''.'' ns" "length n \<le> 253"
    by (rule normalize_name_ok)
  with normalize_labels_ok [OF this(1)] show ?thesis by (intro that) auto
qed

lemma normalized_chars: "normalize_name idna v u w = Inr n \<Longrightarrow> n \<noteq> [] \<and> list_all name_char n \<and> \<not> ends_with ''.'' n"
proof (erule normalized_labels)
  fix ls ns
  assume ns: "ns \<noteq> []" "n = join_with ''.'' ns" "\<forall>l \<in> set ns. l = ''*'' \<or> canonical_label u l"
  have "list_all name_char n"
    unfolding ns(2) using ns(3) label_name_chars by (intro join_with_chars) (auto simp: name_char_def)
  with labels_split(2,3) [OF ns(1,3)] ns(2) show "n \<noteq> [] \<and> list_all name_char n \<and> \<not> ends_with ''.'' n" by simp
qed

text \<open>A name that is its own normalisation, as the constructors return it.\<close>

definition canonical_name :: "(string \<Rightarrow> string option) \<Rightarrow> bool \<Rightarrow> bool \<Rightarrow> string \<Rightarrow> bool" where
  "canonical_name idna u w n \<longleftrightarrow> normalize_name idna n u w = Inr n"

lemma normalized_is_canonical: "normalize_name idna v u w = Inr n \<Longrightarrow> idna_stable idna \<Longrightarrow> canonical_name idna u w n"
  by (erule normalized_labels)
    (auto simp: canonical_name_def intro!: normalize_name_of_canonical(1) normalize_labels_again)

lemma canonical_fqdn:
  assumes "canonical_name idna u w n"
  shows "normalize_name idna (fqdn n) u w = Inr n" "decode_domain_presentation (fqdn n) = Inr (fqdn n)"
proof -
  from assms have n: "n \<noteq> []" "list_all name_char n" "\<not> ends_with ''.'' n"
    by (auto simp: canonical_name_def dest: normalized_chars)
  then have "strip_suffix ''.'' n = None" by (simp add: strip_dot)
  moreover have "strip_suffix ''.'' (fqdn n) = Some n" by (simp add: strip_suffix_iff fqdn_def)
  ultimately show "normalize_name idna (fqdn n) u w = Inr n"
    using assms by (simp add: canonical_name_def normalize_name_def)
  from n(2) show "decode_domain_presentation (fqdn n) = Inr (fqdn n)"
    by (intro decode_name) (simp add: fqdn_def name_char_def)
qed

lemma absolute_name_fqdn:
  "canonical_name (cx_idna cx) False False n \<Longrightarrow> absolute_name cx (fqdn n) code = Inr n"
  by (simp add: absolute_name_def canonical_fqdn absolute_dns_name_new_def)

text \<open>Fields separated by one space.\<close>

lemma split_fields:
  assumes "f \<noteq> []" "\<forall>c \<in> set f. \<not> is_ascii_whitespace c"
  shows "split_ascii_whitespace (f @ CHR '' '' # rest) = f # split_ascii_whitespace rest"
    "split_ascii_whitespace f = [f]"
proof -
  obtain c cs where f: "f = c # cs" using assms(1) by (cases f) auto
  then have plain: "\<not> is_ascii_whitespace c" "\<forall>d \<in> set cs. \<not> is_ascii_whitespace d" using assms(2) by auto
  have "takeWhile (\<lambda>d. \<not> is_ascii_whitespace d) (cs @ CHR '' '' # rest) = cs"
    "dropWhile (\<lambda>d. \<not> is_ascii_whitespace d) (cs @ CHR '' '' # rest) = CHR '' '' # rest"
    using plain(2) space_is_space by (simp_all add: takeWhile_append dropWhile_append)
  then show "split_ascii_whitespace (f @ CHR '' '' # rest) = f # split_ascii_whitespace rest"
    using f plain(1) by (simp add: space_is_space)
  have "takeWhile (\<lambda>d. \<not> is_ascii_whitespace d) cs = cs" and rest: "dropWhile (\<lambda>d. \<not> is_ascii_whitespace d) cs = []"
    using plain(2) by (simp_all add: takeWhile_eq_all_conv dropWhile_eq_Nil_conv)
  then have "split_ascii_whitespace (c # cs) = (c # cs) # split_ascii_whitespace []"
    using plain(1) by (simp only: split_ascii_whitespace.simps if_False)
  then show "split_ascii_whitespace f = [f]" using f by simp
qed

definition plain_field :: "string \<Rightarrow> bool" where
  "plain_field f \<longleftrightarrow> f \<noteq> [] \<and> list_all (\<lambda>c. graphic c \<and> \<not> is_ascii_whitespace c) f"

lemma split_plain_fields:
  "plain_field f \<Longrightarrow> split_ascii_whitespace (f @ CHR '' '' # rest) = f # split_ascii_whitespace rest"
  "plain_field f \<Longrightarrow> split_ascii_whitespace f = [f]"
  using split_fields(1) [of f rest] split_fields(2) [of f] by (auto simp: plain_field_def list_all_iff)

lemma digit_plain: "is_ascii_digit c \<Longrightarrow> graphic c \<and> \<not> is_ascii_whitespace c"
  by (auto simp: is_ascii_digit_def graphic_def is_ascii_whitespace_def)

lemma plain_show_word [simp]: "plain_field (show_word w)"
  using show_nat_digits [of "unat w"] digit_plain by (auto simp: plain_field_def show_word_def list_all_iff)

lemma plain_name: "canonical_name idna u w n \<Longrightarrow> plain_field (fqdn n)"
proof -
  assume "canonical_name idna u w n"
  then have "list_all name_char (fqdn n)" using normalized_chars [of idna n u w n]
    by (simp add: canonical_name_def fqdn_def name_char_def)
  then show ?thesis using name_char_plain by (auto simp: plain_field_def list_all_iff fqdn_def)
qed

lemma parse_show_number [simp]: "parse_number (show_word w) code = Inr w"
  by (simp add: parse_number_def show_word_def)

lemma whitespace_starts:
  assumes "graphic c"
  shows "\<not> list_ex (\<lambda>w. starts_with w (c # s)) whitespace_encodings"
proof -
  have "\<not> starts_with w (c # s)" if "w \<in> set whitespace_encodings" for w
    using whitespace_not_graphic that assms by (cases w) (auto simp: starts_with_iff)
  then show ?thesis by (simp add: list_ex_iff)
qed

lemma trim_words_graphic: "s = [] \<or> graphic (hd s) \<Longrightarrow> trim_words whitespace_encodings s = s"
  using whitespace_not_graphic whitespace_starts
  by (intro trim_words_fixed) (cases s; auto simp: starts_with_def strip_prefix_def list_ex_iff)

lemma space_encoding: "starts_with '' '' (CHR '' '' # s)" "'' '' \<in> set whitespace_encodings"
  by (auto simp: starts_with_iff whitespace_encodings_def char_of_def bit_Suc_0_iff)

lemma split_at_space: "list_all graphic f \<Longrightarrow> split_at_whitespace (f @ CHR '' '' # rest) = Some (f, CHR '' '' # rest)"
proof (induction f)
  case Nil
  have "list_ex (\<lambda>w. starts_with w (CHR '' '' # rest)) whitespace_encodings"
    using space_encoding by (auto simp: list_ex_iff)
  then show ?case by (subst split_at_whitespace.simps) simp
next
  case (Cons c f)
  then show ?case using whitespace_starts by (subst split_at_whitespace.simps) simp
qed

lemma trim_words_space:
  assumes "graphic (hd s)" "s \<noteq> []"
  shows "trim_words whitespace_encodings (CHR '' '' # s) = s"
proof -
  have "find (\<lambda>w. w \<noteq> [] \<and> strip_prefix w (CHR '' '' # s) \<noteq> None) whitespace_encodings = Some '' ''"
    by (simp add: whitespace_encodings_def strip_prefix_def char_of_def bit_Suc_0_iff)
  then show ?thesis using trim_words_graphic [of s] assms by (subst trim_words.simps) simp
qed

lemma take_plain_field:
  assumes "plain_field f" "rest \<noteq> []" "graphic (hd rest)"
  shows "take_presentation_field (f @ CHR '' '' # rest) = Some (f, rest)"
proof -
  have f: "list_all graphic f" "f \<noteq> []" using assms(1) by (auto simp: plain_field_def list_all_iff)
  then have "graphic (hd (f @ CHR '' '' # rest))" by (cases f) auto
  then show ?thesis using f assms(2,3)
    by (simp add: take_presentation_field_def trim_words_graphic split_at_space trim_words_space)
qed

text \<open>Values: what \<open>render_value\<close> writes, \<open>parse_value\<close> reads.\<close>

fun value_names :: "DnsRecordSetValue \<Rightarrow> string list" where
  "value_names (VCname target) = [target]"
| "value_names (VNs target) = [target]"
| "value_names (VMx _ exchange) = [exchange]"
| "value_names (VSrv _ _ _ target) = [target]"
| "value_names (VSoa mname rname _ _ _ _ _) = [mname, rname]"
| "value_names _ = []"

definition value_canonical :: "route53_codec \<Rightarrow> DnsRecordSetValue \<Rightarrow> bool" where
  "value_canonical cx v \<longleftrightarrow>
     validate_value v = Inr () \<and> list_all (canonical_name (cx_idna cx) False False) (value_names v)"

lemma txt_valid:
  "validate_txt_value vs = Inr () \<Longrightarrow> (\<forall>v \<in> set vs. length v \<le> 255) \<and> txt_value_new vs = Inr vs"
  by (auto simp: validate_txt_value_def and_then_eq_Inr for_each_ok_Inr validate_character_string_def
      character_string_new_def txt_value_new_def split: if_splits)

lemma caa_tag_valid:
  assumes "validate_caa_tag tag = Inr ()"
  shows "caa_tag_new tag = Inr tag" "plain_field tag"
proof -
  show new: "caa_tag_new tag = Inr tag"
    using assms by (auto simp: validate_caa_tag_def and_then_eq_Inr split: if_splits)
  then have "to_ascii_lowercase tag = tag" "tag \<noteq> []"
    "list_all (\<lambda>c. is_ascii_alphanumeric c \<or> c = CHR ''-'') (to_ascii_lowercase tag)"
    by (auto simp: caa_tag_new_def Let_def split: if_splits)
  then have "tag \<noteq> []" "list_all name_char tag" by (auto simp: name_char_def list_all_iff)
  then show "plain_field tag" using name_char_plain by (auto simp: plain_field_def list_all_iff)
qed

lemma quote_graphic: "render_character_string v \<noteq> []" "graphic (hd (render_character_string v))"
  by (simp_all add: render_character_string_def graphic_def byte_def)

lemma plain_head: "plain_field f \<Longrightarrow> graphic (hd (f @ rest)) \<and> f @ rest \<noteq> []"
  by (cases f) (auto simp: plain_field_def)

lemma parse_rendered_caa:
  assumes "validate_caa_tag tag = Inr ()" "length v \<le> 255"
  shows "parse_caa (show_word flags @ '' '' @ tag @ '' '' @ render_character_string v) = Inr (VCaa flags tag v)"
proof -
  have "take_presentation_field (show_word flags @ CHR '' '' # tag @ CHR '' '' # render_character_string v)
      = Some (show_word flags, tag @ CHR '' '' # render_character_string v)"
    using plain_head [OF caa_tag_valid(2) [OF assms(1)]] by (intro take_plain_field) auto
  moreover have "take_presentation_field (tag @ CHR '' '' # render_character_string v) = Some (tag, render_character_string v)"
    using caa_tag_valid(2) [OF assms(1)] quote_graphic by (intro take_plain_field)
  moreover have "parse_character_strings (render_character_string v) = Inr [v]"
    using parse_rendered_strings [of "[v]"] assms(2)
    by (simp add: txt_value_new_def MAX_TXT_SEGMENTS_def MAX_TXT_TOTAL_BYTES_def)
  ultimately show ?thesis using caa_tag_valid(1) [OF assms(1)] by (simp add: parse_caa_def)
qed

lemma parse_rendered_value:
  assumes "value_canonical cx v"
  shows "parse_value cx (record_type v) (render_value v) = Inr v"
proof (cases v)
  case (VTxt vs)
  with assms have "(\<forall>v \<in> set vs. length v \<le> 255) \<and> txt_value_new vs = Inr vs"
    by (intro txt_valid) (simp add: value_canonical_def)
  with VTxt show ?thesis by (simp add: parse_rendered_strings)
next
  case (VCaa flags tag content)
  with assms have "validate_caa_tag tag = Inr ()" "length content \<le> 255"
    by (auto simp: value_canonical_def and_then_eq_Inr validate_character_string_def character_string_new_def split: if_splits)
  with VCaa parse_rendered_caa show ?thesis by simp
next
  case (VMx preference exchange)
  with assms have "canonical_name (cx_idna cx) False False exchange" by (simp add: value_canonical_def)
  with VMx show ?thesis by (simp add: fields_def split_plain_fields plain_name absolute_name_fqdn)
next
  case (VSrv priority weight port target)
  with assms have "canonical_name (cx_idna cx) False False target" by (simp add: value_canonical_def)
  with VSrv show ?thesis by (simp add: fields_def split_plain_fields plain_name absolute_name_fqdn numeral_eq_Suc)
next
  case (VSoa mname rname serial refresh retry expire minimum)
  with assms have "canonical_name (cx_idna cx) False False mname" "canonical_name (cx_idna cx) False False rname"
    by (simp_all add: value_canonical_def)
  with VSoa show ?thesis by (simp add: fields_def split_plain_fields plain_name absolute_name_fqdn numeral_eq_Suc)
qed (use assms in \<open>simp_all add: value_canonical_def absolute_name_fqdn\<close>)

text \<open>Conversely, a parsed value is canonical.\<close>

lemma absolute_name_canonical:
  "absolute_name cx v code = Inr n \<Longrightarrow> idna_stable (cx_idna cx) \<Longrightarrow> canonical_name (cx_idna cx) False False n"
  by (auto simp: absolute_name_def and_then_eq_Inr absolute_dns_name_new_def intro: normalized_is_canonical)

lemma parsed_strings_valid:
  assumes "parse_character_strings v = Inr vs"
  shows "validate_txt_value vs = Inr ()" "\<forall>s \<in> set vs. validate_character_string s = Inr ()"
proof -
  have "\<forall>s \<in> set vs. validate_character_string s = Inr ()" if "read_segments v = Inr vs" for vs
    using that
  proof (induction v arbitrary: vs rule: read_segments.induct)
    case (1 v)
    show ?case
    proof (cases "dropWhile is_ascii_whitespace v")
      case Nil
      with 1 show ?thesis by (subst (asm) (2) read_segments.simps) auto
    next
      case (Cons c cs)
      with 1(2) obtain segment rest where r: "c = CHR 0x22" "read_segment cs = Inr (segment, rest)"
        by (subst (asm) read_segments.simps) (auto split: if_splits sum.splits)
      with Cons 1(2) obtain ws where w: "character_string_new segment = Inr segment" "read_segments rest = Inr ws" "vs = segment # ws"
        by (subst (asm) read_segments.simps) (auto simp: and_then_eq_Inr character_string_new_def split: if_splits)
      from 1(1) [OF Cons _ r(2) refl w(2)] r w show ?thesis
        by (auto simp: validate_character_string_def)
    qed
  qed
  moreover from assms have "read_segments v = Inr vs \<and> txt_value_new vs = Inr vs"
    by (auto simp: parse_character_strings_def and_then_eq_Inr txt_value_new_def split: if_splits)
  ultimately show "\<forall>s \<in> set vs. validate_character_string s = Inr ()" "validate_txt_value vs = Inr ()"
    by (auto simp: validate_txt_value_def for_each_ok_Inr and_then_eq_Inr)
qed

lemma caa_tag_new_valid: "caa_tag_new v = Inr tag \<Longrightarrow> validate_caa_tag tag = Inr ()"
  by (auto simp: validate_caa_tag_def caa_tag_new_def Let_def split: if_splits)

lemma parse_caa_canonical: "parse_caa v = Inr w \<Longrightarrow> value_canonical cx w \<and> record_type w = TCaa"
proof -
  assume "parse_caa v = Inr w"
  then obtain flags tag t strings p where w: "w = VCaa flags tag (hd strings)" "caa_tag_new t = Inr tag"
    "parse_character_strings p = Inr strings" "length strings = 1"
    by (auto simp: parse_caa_def Let_def and_then_eq_Inr split: if_splits)
  then have "hd strings \<in> set strings" by (cases strings) auto
  with parsed_strings_valid(2) [OF w(3)] caa_tag_new_valid [OF w(2)] w(1) show ?thesis
    by (auto simp: value_canonical_def)
qed

lemma parse_value_canonical:
  assumes "parse_value cx ty s = Inr v" "idna_stable (cx_idna cx)"
  shows "value_canonical cx v \<and> record_type v = ty"
proof (cases ty)
  case TTxt
  with assms show ?thesis using parsed_strings_valid(1) by (auto simp: and_then_eq_Inr value_canonical_def)
next
  case TCaa
  with assms parse_caa_canonical show ?thesis by simp
qed (use assms in \<open>auto simp: Let_def and_then_eq_Inr value_canonical_def intro: absolute_name_canonical\<close>)

text \<open>Record sets that the provider's representation can hold.\<close>

definition policy_supported :: "Route53RoutingPolicy \<Rightarrow> bool" where
  "policy_supported policy \<longleftrightarrow>
     (case policy of
        Latency region \<Rightarrow> list_ex (\<lambda>r. r = region) ROUTE53_LATENCY_REGIONS
      | Geolocation location \<Rightarrow> map_geolocation (render_geolocation location) = Inr location
      | _ \<Rightarrow> True)"

definition routing_rendered :: "DnsRoutingIdentity \<Rightarrow> Route53RoutingPolicy option \<Rightarrow> bool" where
  "routing_rendered routing policy \<longleftrightarrow>
     (case (routing, policy) of
        (Simple, None) \<Rightarrow> True
      | (Route53Identity _, Some p) \<Rightarrow> policy_supported p
      | _ \<Rightarrow> False)"

definition alias_canonical :: "route53_codec \<Rightarrow> Route53AliasTarget \<Rightarrow> bool" where
  "alias_canonical cx t \<longleftrightarrow>
     normalize_zone_id (alias_zone_id t) = Inr (alias_zone_id t) \<and> validate_zone_id (alias_zone_id t) = Inr ()
     \<and> canonical_name (cx_idna cx) False False (alias_target t)"

definition content_canonical :: "route53_codec \<Rightarrow> ProviderDnsRecordSet \<Rightarrow> bool" where
  "content_canonical cx rs \<longleftrightarrow>
     (if is_route53_alias rs then rs_ttl rs = Inherited \<and> rs_values rs = []
      else (case rs_ttl rs of Seconds _ \<Rightarrow> True | _ \<Rightarrow> False) \<and> rs_values rs \<noteq> []
        \<and> list_all (\<lambda>v. value_canonical cx v \<and> record_type v = key_type (rs_key rs)) (rs_values rs)
        \<and> btree_set (rs_values rs) = rs_values rs)"

definition renderable :: "route53_codec \<Rightarrow> ProviderDnsRecordSet \<Rightarrow> bool" where
  "renderable cx rs \<longleftrightarrow>
     canonical_name (cx_idna cx) True True (key_owner (rs_key rs)) \<and> content_canonical cx rs
     \<and> (case rs_extension rs of
          None \<Rightarrow> key_routing (rs_key rs) = Simple
        | Some (Route53Ext alias policy health) \<Rightarrow>
            (alias \<noteq> None \<or> policy \<noteq> None \<or> health \<noteq> None)
            \<and> (case alias of None \<Rightarrow> True | Some t \<Rightarrow> alias_canonical cx t)
            \<and> (case health of None \<Rightarrow> True | Some h \<Rightarrow> validate_health_check_id h = Inr ())
            \<and> routing_rendered (key_routing (rs_key rs)) policy
        | _ \<Rightarrow> False)"

lemma map_rendered_type [simp]: "map_record_type (render_record_type ty) = Inr ty"
  by (cases ty) (simp_all add: map_record_type_def)

lemma map_rendered_alias: "alias_canonical cx t \<Longrightarrow> map_alias cx (render_alias t) = Inr t"
  using canonical_fqdn [of "cx_idna cx" False False "alias_target t"]
  by (simp add: map_alias_def render_alias_def alias_canonical_def absolute_dns_name_new_def)

lemma render_policy_fields [simp]:
  "raw_name (render_policy p r) = raw_name r" "raw_record_type (render_policy p r) = raw_record_type r"
  "raw_ttl (render_policy p r) = raw_ttl r" "raw_resource_records (render_policy p r) = raw_resource_records r"
  "raw_alias_target (render_policy p r) = raw_alias_target r" "raw_set_identifier (render_policy p r) = raw_set_identifier r"
  "raw_health_check_id (render_policy p r) = raw_health_check_id r"
  "raw_traffic_policy_instance_id (render_policy p r) = raw_traffic_policy_instance_id r"
  "raw_has_cidr_routing_config (render_policy p r) = raw_has_cidr_routing_config r"
  "raw_has_geoproximity_location (render_policy p r) = raw_has_geoproximity_location r"
  by (induction p r rule: render_policy.induct; simp)+

text \<open>The selectors of a record set, and that a record set without any is the simple one.\<close>

definition no_selectors :: "Route53RecordSet \<Rightarrow> bool" where
  "no_selectors r \<longleftrightarrow> raw_weight r = None \<and> raw_failover r = None \<and> raw_region r = None
     \<and> raw_geolocation r = None \<and> raw_multivalue_answer r = None"

lemma map_rendered_routing:
  assumes "routing_rendered routing policy" "no_selectors r"
    and "raw_set_identifier r = (case routing of Route53Identity identifier \<Rightarrow> Some identifier | Simple \<Rightarrow> None)"
  shows "map_routing (render_policy policy r) = Inr (routing, policy)"
proof (cases policy)
  case None
  with assms show ?thesis
    by (cases routing) (simp_all add: map_routing_def no_selectors_def routing_rendered_def)
next
  case (Some p)
  with assms(1) obtain sid where "routing = Route53Identity sid" "policy_supported p"
    by (cases routing) (auto simp: routing_rendered_def)
  with Some assms(2,3) show ?thesis
    by (cases p) (auto simp: map_routing_def no_selectors_def map_failover_def map_region_def policy_supported_def
        split: Route53FailoverRole.splits)
qed

lemma map_rendered_values:
  assumes "list_all (\<lambda>v. value_canonical cx v \<and> record_type v = ty) vs"
  shows "collect_ok (parse_value cx ty) (map render_value vs) = Inr vs"
  using assms parse_rendered_value by (intro collect_ok_map) (auto simp: list_all_iff)

text \<open>The record set that is sent, and its reading.\<close>

definition rendered_set :: "ProviderDnsRecordSet \<Rightarrow> Route53RecordSet" where
  "rendered_set rs =
     (let blank = blank_record (fqdn (key_owner (rs_key rs))) (render_record_type (key_type (rs_key rs)));
          extended =
            (case rs_extension rs of
               Some (Route53Ext alias policy health) \<Rightarrow>
                 render_policy policy
                   (blank\<lparr>raw_alias_target := map_option render_alias alias, raw_health_check_id := health,
                      raw_set_identifier :=
                        (case key_routing (rs_key rs) of Route53Identity identifier \<Rightarrow> Some identifier | Simple \<Rightarrow> None)\<rparr>)
             | _ \<Rightarrow> blank)
      in case rs_ttl rs of
           Seconds v \<Rightarrow> extended\<lparr>raw_ttl := Some v, raw_resource_records := map render_value (rs_values rs)\<rparr>
         | _ \<Rightarrow> extended)"

lemma rendered_alias_target:
  "raw_alias_target (rendered_set rs) \<noteq> None \<longleftrightarrow> is_route53_alias rs"
  by (auto simp: rendered_set_def Let_def is_route53_alias_def blank_record_def
      split: option.splits DnsRecordExtension.splits DnsTtl.splits)

lemma rendered_values:
  assumes "content_canonical cx rs"
  shows "map_values_and_ttl cx (key_type (rs_key rs)) (rendered_set rs) = Inr (rs_ttl rs, rs_values rs)"
proof (cases "is_route53_alias rs")
  case True
  then have "raw_alias_target (rendered_set rs) \<noteq> None" using rendered_alias_target by blast
  with True assms show ?thesis
    by (auto simp: map_values_and_ttl_def content_canonical_def rendered_set_def Let_def is_route53_alias_def
        blank_record_def split: option.splits DnsRecordExtension.splits)
next
  case False
  with assms obtain v where v: "rs_ttl rs = Seconds v" "rs_values rs \<noteq> []" "btree_set (rs_values rs) = rs_values rs"
    "list_all (\<lambda>v. value_canonical cx v \<and> record_type v = key_type (rs_key rs)) (rs_values rs)"
    by (cases "rs_ttl rs") (auto simp: content_canonical_def)
  from False have "raw_alias_target (rendered_set rs) = None" using rendered_alias_target [of rs] by simp
  moreover have "raw_ttl (rendered_set rs) = Some v" "raw_resource_records (rendered_set rs) = map render_value (rs_values rs)"
    using v(1) by (simp_all add: rendered_set_def Let_def)
  ultimately show ?thesis
    using v map_rendered_values [OF v(4)] by (simp add: map_values_and_ttl_def)
qed

lemma map_routing_content: "map_routing (r\<lparr>raw_ttl := a, raw_resource_records := b\<rparr>) = map_routing r"
  by (cases r) (simp only: map_routing_def Route53RecordSet.simps)

lemma rendered_routing:
  assumes "renderable cx rs" "rs_extension rs = Some (Route53Ext alias policy health)"
  shows "map_routing (rendered_set rs) = Inr (key_routing (rs_key rs), policy)"
proof -
  let ?blank = "blank_record (fqdn (key_owner (rs_key rs))) (render_record_type (key_type (rs_key rs)))"
  let ?r = "?blank\<lparr>raw_alias_target := map_option render_alias alias, raw_health_check_id := health,
      raw_set_identifier := (case key_routing (rs_key rs) of Route53Identity sid \<Rightarrow> Some sid | Simple \<Rightarrow> None)\<rparr>"
  have "map_routing (rendered_set rs) = map_routing (render_policy policy ?r)"
    using assms(2) by (simp add: rendered_set_def Let_def map_routing_content split: DnsTtl.splits)
  also have "\<dots> = Inr (key_routing (rs_key rs), policy)"
    using assms by (intro map_rendered_routing) (auto simp: renderable_def no_selectors_def blank_record_def)
  finally show ?thesis .
qed

lemma rendered_fields [simp]:
  "raw_name (rendered_set rs) = fqdn (key_owner (rs_key rs))"
  "raw_record_type (rendered_set rs) = render_record_type (key_type (rs_key rs))"
  "raw_traffic_policy_instance_id (rendered_set rs) = None"
  "raw_has_cidr_routing_config (rendered_set rs) = False"
  "raw_has_geoproximity_location (rendered_set rs) = False"
  by (simp_all add: rendered_set_def Let_def blank_record_def
      split: option.splits DnsRecordExtension.splits DnsTtl.splits)

lemma rendered_extension:
  assumes "renderable cx rs"
  shows "\<exists>policy alias health.
    map_routing (rendered_set rs) = Inr (key_routing (rs_key rs), policy)
    \<and> transpose_map (map_alias cx) (raw_alias_target (rendered_set rs)) = Inr alias
    \<and> transpose_map map_health_check (raw_health_check_id (rendered_set rs)) = Inr health
    \<and> rs_extension rs = (if alias \<noteq> None \<or> policy \<noteq> None \<or> health \<noteq> None then Some (Route53Ext alias policy health) else None)"
proof (cases "rs_extension rs")
  case None
  with assms have "map_routing (rendered_set rs) = Inr (key_routing (rs_key rs), None)"
    by (simp add: renderable_def rendered_set_def Let_def blank_record_def map_routing_def split: DnsTtl.splits)
  moreover have "raw_alias_target (rendered_set rs) = None" "raw_health_check_id (rendered_set rs) = None"
    using None by (simp_all add: rendered_set_def Let_def blank_record_def split: DnsTtl.splits)
  ultimately show ?thesis using None by auto
next
  case (Some e)
  with assms obtain "alias" policy health where e: "rs_extension rs = Some (Route53Ext alias policy health)"
    by (auto simp: renderable_def split: DnsRecordExtension.splits)
  then have "raw_alias_target (rendered_set rs) = map_option render_alias alias" "raw_health_check_id (rendered_set rs) = health"
    by (simp_all add: rendered_set_def Let_def split: DnsTtl.splits)
  moreover have "transpose_map (map_alias cx) (map_option render_alias alias) = Inr alias"
    "transpose_map map_health_check health = Inr health"
    using assms e by (cases "alias"; cases health; simp add: renderable_def map_rendered_alias map_health_check_def)+
  ultimately show ?thesis using assms e rendered_routing [OF assms e] by (auto simp: renderable_def)
qed

lemma map_rendered_set:
  assumes "renderable cx rs" "validate_record_set zone rs = Inr ()" "canonical_revision cx rs = Inr revision"
  shows "map_record_set cx zone (rendered_set rs) = Inr (rs, revision)"
proof -
  from rendered_extension [OF assms(1)] obtain policy "alias" health where e:
    "map_routing (rendered_set rs) = Inr (key_routing (rs_key rs), policy)"
    "transpose_map (map_alias cx) (raw_alias_target (rendered_set rs)) = Inr alias"
    "transpose_map map_health_check (raw_health_check_id (rendered_set rs)) = Inr health"
    "rs_extension rs = (if alias \<noteq> None \<or> policy \<noteq> None \<or> health \<noteq> None then Some (Route53Ext alias policy health) else None)"
    by blast
  have "rs = \<lparr>rs_key = \<lparr>key_owner = key_owner (rs_key rs), key_type = key_type (rs_key rs), key_routing = key_routing (rs_key rs)\<rparr>,
      rs_ttl = rs_ttl rs, rs_values = rs_values rs,
      rs_extension = (if alias \<noteq> None \<or> policy \<noteq> None \<or> health \<noteq> None then Some (Route53Ext alias policy health) else None)\<rparr>"
    (is "_ = ?mapped")
    using e(4) by simp
  moreover have name: "decode_domain_presentation (fqdn (key_owner (rs_key rs))) = Inr (fqdn (key_owner (rs_key rs)))"
    "dns_owner_name_new (cx_idna cx) (fqdn (key_owner (rs_key rs))) = Inr (key_owner (rs_key rs))"
    using assms(1) canonical_fqdn [of "cx_idna cx" True True] by (simp_all add: renderable_def dns_owner_name_new_def)
  moreover have "map_values_and_ttl cx (key_type (rs_key rs)) (rendered_set rs) = Inr (rs_ttl rs, rs_values rs)"
    using assms(1) by (intro rendered_values) (simp add: renderable_def)
  ultimately show ?thesis
    using assms(2,3) e(1-3) by (simp add: map_record_set_def)
qed

lemma render_renderable:
  assumes "renderable cx rs" "validate_record_set zone rs = Inr ()" "canonical_revision cx rs = Inr revision"
  shows "render_record_set cx zone rs = Inr (rendered_set rs)"
proof -
  let ?blank = "blank_record (fqdn (key_owner (rs_key rs))) (render_record_type (key_type (rs_key rs)))"
  obtain r where r: "render_extension rs ?blank = Inr r"
    "rendered_set rs = (case rs_ttl rs of
       Seconds v \<Rightarrow> r\<lparr>raw_ttl := Some v, raw_resource_records := map render_value (rs_values rs)\<rparr> | _ \<Rightarrow> r)"
    using assms(1) by (auto simp: renderable_def render_extension_def rendered_set_def Let_def
        split: option.splits DnsRecordExtension.splits)
  then have target: "raw_alias_target r \<noteq> None \<longleftrightarrow> is_route53_alias rs"
    using rendered_alias_target [of rs] by (simp split: DnsTtl.splits)
  have "(if raw_alias_target r \<noteq> None then
          (if rs_ttl rs \<noteq> Inherited \<or> rs_values rs \<noteq> [] then Inl (validation ''invalid_route53_alias_shape'') else Inr r)
        else
          (case rs_ttl rs of
             Seconds v \<Rightarrow> Inr (r\<lparr>raw_ttl := Some v, raw_resource_records := map render_value (rs_values rs)\<rparr>)
           | _ \<Rightarrow> Inl (validation ''invalid_route53_record_ttl''))) = Inr (rendered_set rs)"
    using assms(1) target r(2) by (auto simp: renderable_def content_canonical_def split: if_splits DnsTtl.splits)
  then show ?thesis
    using r(1) assms(2) map_rendered_set [OF assms] by (simp add: render_record_set_def)
qed

text \<open>What is read is renderable.\<close>

lemma map_geolocation_again: "map_geolocation v = Inr l \<Longrightarrow> map_geolocation (render_geolocation l) = Inr l"
proof (cases "continent_code v"; cases "country_code v"; cases "subdivision_code v")
qed (fastforce simp: map_geolocation_def simp del: insert_iff split: if_splits)+

lemma map_routing_supported: "map_routing r = Inr (routing, policy) \<Longrightarrow> routing_rendered routing policy"
proof -
  assume routing: "map_routing r = Inr (routing, policy)"
  then obtain f l g where parts: "transpose_map map_failover (raw_failover r) = Inr f"
    "transpose_map map_region (raw_region r) = Inr l" "transpose_map map_geolocation (raw_geolocation r) = Inr g"
    by (auto simp: map_routing_def Let_def and_then_eq_Inr)
  have "policy_supported p" if "p \<in> set (case raw_weight r of None \<Rightarrow> [] | Some w \<Rightarrow> [Weighted w])
      \<union> set (case f of None \<Rightarrow> [] | Some p \<Rightarrow> [p]) \<union> set (case l of None \<Rightarrow> [] | Some p \<Rightarrow> [p])
      \<union> set (case g of None \<Rightarrow> [] | Some v \<Rightarrow> [Geolocation v]) \<union> {Multivalue}" for p
    using that parts map_geolocation_again
    by (cases "raw_failover r"; cases "raw_region r"; cases "raw_geolocation r")
      (auto simp: policy_supported_def map_failover_def map_region_def and_then_eq_Inr split: option.splits if_splits)
  with routing parts show ?thesis
    by (auto simp: map_routing_def Let_def routing_rendered_def split: option.splits list.splits if_splits)
qed

lemma normalize_zone_id_again: "normalize_zone_id v = Inr z \<Longrightarrow> normalize_zone_id z = Inr z"
proof -
  assume n: "normalize_zone_id v = Inr z"
  then have z: "z \<noteq> []" "length z \<le> 32" "starts_with ''Z'' z"
    "list_all (\<lambda>c. is_ascii_uppercase c \<or> is_ascii_digit c) z" "CHR ''/'' \<notin> set z"
    by (auto simp: normalize_zone_id_def Let_def split: if_splits)
  then have "\<not> starts_with (CHR ''/'' # p) z" for p by (auto simp: starts_with_iff)
  then have "strip_prefix ''/hostedzone/'' z = None" "\<not> starts_with ''/hostedzone//'' z"
    by (auto simp: starts_with_def)
  with z show ?thesis by (simp add: normalize_zone_id_def)
qed

lemma map_alias_canonical: "map_alias cx d = Inr t \<Longrightarrow> idna_stable (cx_idna cx) \<Longrightarrow> alias_canonical cx t"
proof -
  assume m: "map_alias cx d = Inr t" "idna_stable (cx_idna cx)"
  then obtain decoded where t: "normalize_zone_id (atd_hosted_zone_id d) = Inr (alias_zone_id t)"
    "validate_zone_id (alias_zone_id t) = Inr ()" "normalize_name (cx_idna cx) decoded False False = Inr (alias_target t)"
    by (auto simp: map_alias_def and_then_eq_Inr absolute_dns_name_new_def)
  have "normalize_zone_id (alias_zone_id t) = Inr (alias_zone_id t)"
    using t(1) by (rule normalize_zone_id_again)
  with t m(2) show ?thesis by (simp add: alias_canonical_def normalized_is_canonical)
qed

lemma btree_set_again [simp]: "btree_set (btree_set xs) = btree_set xs"
  by (simp add: btree_set_def sorted_sort_id)

lemma set_btree_set [simp]: "set (btree_set xs) = set xs"
  by (simp add: btree_set_def)

lemma map_record_set_renderable:
  assumes "map_record_set cx zone raw = Inr (rs, revision)" "idna_stable (cx_idna cx)"
  shows "renderable cx rs \<and> validate_record_set zone rs = Inr () \<and> canonical_revision cx rs = Inr revision"
proof -
  obtain ty decoded owner routing policy "alias" health ttl vs where m:
    "dns_owner_name_new (cx_idna cx) decoded = Inr owner" "map_routing raw = Inr (routing, policy)"
    "transpose_map (map_alias cx) (raw_alias_target raw) = Inr alias"
    "transpose_map map_health_check (raw_health_check_id raw) = Inr health"
    "map_values_and_ttl cx ty raw = Inr (ttl, vs)"
    "rs = \<lparr>rs_key = \<lparr>key_owner = owner, key_type = ty, key_routing = routing\<rparr>, rs_ttl = ttl, rs_values = vs,
       rs_extension = (if alias \<noteq> None \<or> policy \<noteq> None \<or> health \<noteq> None then Some (Route53Ext alias policy health) else None)\<rparr>"
    "validate_record_set zone rs = Inr ()" "canonical_revision cx rs = Inr revision"
    using assms(1) by (auto simp: map_record_set_def Let_def and_then_eq_Inr split: if_splits)
  have owner: "canonical_name (cx_idna cx) True True owner"
    using m(1) assms(2) by (auto simp: dns_owner_name_new_def intro: normalized_is_canonical)
  have target: "case alias of None \<Rightarrow> raw_alias_target raw = None | Some t \<Rightarrow> raw_alias_target raw \<noteq> None \<and> alias_canonical cx t"
    using m(3) assms(2) map_alias_canonical by (cases "raw_alias_target raw") (auto simp: and_then_eq_Inr)
  have check: "case health of None \<Rightarrow> True | Some h \<Rightarrow> validate_health_check_id h = Inr ()"
    using m(4) by (cases "raw_health_check_id raw") (auto simp: and_then_eq_Inr map_health_check_def split: option.splits)
  have alias_iff: "is_route53_alias rs \<longleftrightarrow> raw_alias_target raw \<noteq> None"
    using target m(6) by (cases "alias") (auto simp: is_route53_alias_def)
  have "content_canonical cx rs"
  proof (cases "raw_alias_target raw")
    case None
    with m(5) obtain seconds parsed where p: "ttl = Seconds seconds" "raw_resource_records raw \<noteq> []"
      "collect_ok (parse_value cx ty) (raw_resource_records raw) = Inr parsed" "vs = btree_set parsed"
      by (auto simp: map_values_and_ttl_def and_then_eq_Inr split: if_splits)
    have "value_canonical cx v \<and> record_type v = ty" if "v \<in> set parsed" for v
      using collect_ok_set [OF p(3) that] parse_value_canonical assms(2) by blast
    then have "list_all (\<lambda>v. value_canonical cx v \<and> record_type v = ty) vs" using p(4) by (auto simp: list_all_iff)
    moreover have "parsed \<noteq> []" using p(2,3) by (cases "raw_resource_records raw") (auto simp: and_then_eq_Inr)
    then have "vs \<noteq> []" using p(4) by (metis set_btree_set set_empty)
    ultimately show ?thesis using None alias_iff p m(6) by (simp add: content_canonical_def)
  next
    case (Some d)
    with m(5) alias_iff m(6) show ?thesis
      by (auto simp: content_canonical_def map_values_and_ttl_def split: if_splits)
  qed
  moreover have "routing_rendered routing policy" using m(2) by (rule map_routing_supported)
  ultimately show ?thesis
    using owner target check m(6-8)
    by (auto simp: renderable_def routing_rendered_def split: option.splits DnsRoutingIdentity.splits)
qed

section \<open>Properties\<close>

text \<open>
  C25: Everything the adapter observes it can write back without loss. A record set that was read from
  Route 53 renders (no error is possible any more), and reading the rendered form gives the same
  record set with the same revision: escapes in TXT and CAA strings, compressed IPv6 addresses,
  wildcard owners, alias targets and every routing policy survive.
\<close>

theorem observed_record_sets_render_losslessly:
  assumes "map_record_set cx zone raw = Inr (rs, revision)" "idna_stable (cx_idna cx)"
  shows "\<exists>rendered. render_record_set cx zone rs = Inr rendered \<and> map_record_set cx zone rendered = Inr (rs, revision)"
  using map_record_set_renderable [OF assms] render_renderable map_rendered_set by blast

definition aws_zone :: DnsZoneRef where
  "aws_zone = \<lparr>zone_account_id = ''acc'', zone_provider = Aws, zone_id = ''Z1'', zone_apex = ''a.io'', zone_visibility = Public\<rparr>"

definition aws_codec :: route53_codec where
  "aws_codec = \<lparr>cx_idna = Some, cx_record_set_json = (\<lambda>_. Some []), cx_digest = (\<lambda>_. ''d'')\<rparr>"

definition aws_txt :: ProviderDnsRecordSet where
  "aws_txt = \<lparr>rs_key = \<lparr>key_owner = ''*.a.io'', key_type = TTxt, key_routing = Simple\<rparr>, rs_ttl = Seconds 300,
     rs_values = [VTxt [[CHR 0x00, CHR 0x22, CHR 0xFF]]], rs_extension = None\<rparr>"

lemma aws_zone_valid: "validate_zone_ref aws_zone = Inr ()"
proof -
  have "list_all graphic ''Z1''" by (simp add: graphic_def byte_def)
  then have "validate_zone_id ''Z1'' = Inr ()"
    by (simp add: validate_zone_id_def validate_text_def MAX_OPAQUE_ID_LEN_def string_simps del: has_control.simps list.pred_inject)
  then show ?thesis by (simp add: validate_zone_ref_def aws_zone_def example_texts)
qed

lemma aws_txt_valid: "validate_record_set aws_zone aws_txt = Inr ()"
proof -
  have "is_within ''*.a.io'' ''a.io''" by (simp add: is_within_def ends_with_def strip_suffix_def strip_prefix_def)
  then show ?thesis
    by (simp add: validate_record_set_def aws_zone_valid)
      (simp add: aws_zone_def aws_txt_def validate_key_def MAX_TTL_SECONDS_def
        is_route53_alias_def validate_values_def validate_txt_value_def validate_character_string_def
        character_string_new_def txt_value_new_def MAX_TXT_SEGMENTS_def MAX_TXT_TOTAL_BYTES_def validate_portable_def Let_def)
qed

lemma aws_revision: "canonical_revision aws_codec rs = Inr ''sha256:d''"
proof -
  have "list_all graphic ''sha256:d''" by (simp add: graphic_def byte_def)
  then have "validate_revision ''sha256:d'' = Inr ()"
    by (simp add: validate_revision_def validate_text_def MAX_OPAQUE_ID_LEN_def string_simps del: has_control.simps list.pred_inject)
  then show ?thesis by (simp add: canonical_revision_def aws_codec_def)
qed

lemma aws_txt_renderable: "renderable aws_codec aws_txt"
proof -
  have "canonical_name Some True True ''*.a.io''" by code_simp
  then show ?thesis
    by (simp add: renderable_def content_canonical_def aws_txt_def aws_codec_def is_route53_alias_def value_canonical_def
        validate_txt_value_def validate_character_string_def character_string_new_def txt_value_new_def
        MAX_TXT_SEGMENTS_def MAX_TXT_TOTAL_BYTES_def btree_set_def)
qed

lemma aws_idna: "idna_stable (cx_idna aws_codec)"
  by (simp add: idna_stable_def aws_codec_def)

theorem observed_record_sets_render_losslessly_witness:
  "\<exists>rendered. render_record_set aws_codec aws_zone aws_txt = Inr rendered
     \<and> map_record_set aws_codec aws_zone rendered = Inr (aws_txt, ''sha256:d'')"
  using observed_record_sets_render_losslessly
    [OF map_rendered_set [OF aws_txt_renderable aws_txt_valid aws_revision] aws_idna] .

end
