(* ===== verification/Route53_Plan.thy ===== *)
theory Route53_Plan
  imports Route53_Model
begin

text \<open>
  The change planner of the Route 53 adapter, \<open>plan_change_batch\<close> and its helpers in
  \<open>crates/center-adapter-route53/src/lib.rs\<close>: from validated changes and the inventory just read to the one
  atomic batch that is sent. A \<open>BTreeMap\<close> is an association list that is read in the order of its keys.
\<close>

section \<open>Batches\<close>

datatype Route53ChangeAction = ActCreate | ActDelete

record Route53RecordChange =
  ch_action :: Route53ChangeAction
  ch_record_set :: Route53RecordSet

record Route53ChangeBatch =
  cb_changes :: "Route53RecordChange list"
  cb_comment :: string

definition MAX_PROVIDER_CHANGE_ACTIONS :: nat where "MAX_PROVIDER_CHANGE_ACTIONS = 1000"
definition MAX_PROVIDER_RECORD_ELEMENTS :: nat where "MAX_PROVIDER_RECORD_ELEMENTS = 1000"
definition MAX_PROVIDER_RECORD_VALUE_BYTES :: nat where "MAX_PROVIDER_RECORD_VALUE_BYTES = 32000"

text \<open>The derived orders of record types and keys.\<close>

fun type_rank :: "ProviderDnsRecordType \<Rightarrow> nat" where
  "type_rank TA = 0"
| "type_rank TAaaa = 1"
| "type_rank TCname = 2"
| "type_rank TTxt = 3"
| "type_rank TMx = 4"
| "type_rank TSrv = 5"
| "type_rank TCaa = 6"
| "type_rank TNs = 7"
| "type_rank TSoa = 8"

definition key_rank :: "DnsRecordSetKey \<Rightarrow> string \<times> nat \<times> string list" where
  "key_rank k =
     (key_owner k, type_rank (key_type k), case key_routing k of Simple \<Rightarrow> [] | Route53Identity sid \<Rightarrow> [sid])"

section \<open>The resulting inventory\<close>

datatype ResultantRoutingFamily = RSimple | RWeighted | RFailover | RLatency | RGeolocation | RMultivalue

definition resultant_routing_family :: "ProviderDnsRecordSet \<Rightarrow> ResultantRoutingFamily" where
  "resultant_routing_family rs =
     (case rs_extension rs of
        Some (Route53Ext _ (Some policy) _) \<Rightarrow>
          (case policy of
             Weighted _ \<Rightarrow> RWeighted
           | Failover _ \<Rightarrow> RFailover
           | Latency _ \<Rightarrow> RLatency
           | Geolocation _ \<Rightarrow> RGeolocation
           | Multivalue \<Rightarrow> RMultivalue)
      | _ \<Rightarrow> RSimple)"

definition resultant_selector :: "ProviderDnsRecordSet \<Rightarrow> string option" where
  "resultant_selector rs =
     (case rs_extension rs of
        Some (Route53Ext _ (Some policy) _) \<Rightarrow>
          (case policy of
             Failover Primary \<Rightarrow> Some ''failover:Primary''
           | Failover Secondary \<Rightarrow> Some ''failover:Secondary''
           | Latency region \<Rightarrow> Some (''latency:'' @ region)
           | Geolocation GeoDefault \<Rightarrow> Some ''geo:default''
           | Geolocation (Continent code) \<Rightarrow> Some (''geo:continent:'' @ code)
           | Geolocation (Country code) \<Rightarrow> Some (''geo:country:'' @ code)
           | Geolocation (UsSubdivision code) \<Rightarrow> Some (''geo:us:'' @ code)
           | Weighted _ \<Rightarrow> None
           | Multivalue \<Rightarrow> None)
      | _ \<Rightarrow> None)"

definition check_owner :: "ProviderDnsRecordSet list \<Rightarrow> string \<Rightarrow> unit ProviderResult" where
  "check_owner values owner =
     (let mine = filter (\<lambda>r. key_owner (rs_key r) = owner) values
      in if list_ex (\<lambda>r. key_type (rs_key r) = TCname) mine \<and> list_ex (\<lambda>r. key_type (rs_key r) \<noteq> TCname) mine
         then Inl (conflict ''route53_resultant_cname_conflict'') else Inr ())"

fun scan_members ::
  "ResultantRoutingFamily \<Rightarrow> u32 option \<Rightarrow> string list \<Rightarrow> ProviderDnsRecordSet list \<Rightarrow> unit ProviderResult" where
  "scan_members family ttl seen [] = Inr ()"
| "scan_members family ttl seen (m # ms) =
     (if resultant_routing_family m \<noteq> family then Inl (conflict ''route53_resultant_routing_family_conflict'')
      else
        and_then
          (case rs_ttl m of
             Seconds v \<Rightarrow>
               if (case ttl of None \<Rightarrow> False | Some existing \<Rightarrow> existing \<noteq> v)
               then Inl (conflict ''route53_resultant_ttl_conflict'') else Inr (Some v)
           | _ \<Rightarrow> Inr ttl) (\<lambda>ttl'.
        and_then
          (case resultant_selector m of
             None \<Rightarrow> Inr seen
           | Some selector \<Rightarrow>
               if selector \<in> set seen then Inl (conflict ''route53_resultant_selector_conflict'')
               else Inr (selector # seen)) (\<lambda>seen'.
          scan_members family ttl' seen' ms)))"

definition check_group :: "ProviderDnsRecordSet list \<Rightarrow> string \<times> ProviderDnsRecordType \<Rightarrow> unit ProviderResult" where
  "check_group values grp =
     (let members = filter (\<lambda>r. key_owner (rs_key r) = fst grp \<and> key_type (rs_key r) = snd grp) values
      in case members of
           [] \<Rightarrow> Inr ()
         | first # _ \<Rightarrow>
             let family = resultant_routing_family first
             in and_then (scan_members family None [] members) (\<lambda>_.
                  if family = RWeighted \<and> 100 < length members
                  then Inl (conflict ''route53_resultant_weighted_limit'') else Inr ()))"

definition validate_resultant_inventory ::
  "(DnsRecordSetKey, ProviderDnsRecordSet) hmap \<Rightarrow> string list \<Rightarrow> (string \<times> ProviderDnsRecordType) list
     \<Rightarrow> unit ProviderResult" where
  "validate_resultant_inventory resultant owners groups =
     (let values = map snd (sort_key (\<lambda>e. key_rank (fst e)) resultant)
      in and_then (for_each_ok (check_owner values) (btree_set owners)) (\<lambda>_.
           for_each_ok (check_group values) (sort_key (\<lambda>(owner, ty). (owner, type_rank ty)) (remdups groups))))"

section \<open>Planning\<close>

text \<open>The cost of a change is at most its number of values; the sum stays far below \<open>usize::MAX\<close>.\<close>

definition element_cost :: "Route53RecordChange \<Rightarrow> nat" where
  "element_cost c =
     (if raw_alias_target (ch_record_set c) \<noteq> None then 1 else length (raw_resource_records (ch_record_set c)))"

definition validate_change_request :: "Route53RecordChange list \<Rightarrow> unit ProviderResult" where
  "validate_change_request request =
     and_then (for_each_ok (\<lambda>c.
         if list_ex (\<lambda>v. MAX_PROVIDER_RECORD_VALUE_BYTES < length v) (raw_resource_records (ch_record_set c))
         then Inl (validation ''route53_record_value_size_limit'') else Inr ()) request) (\<lambda>_.
       let elements = sum_list (map element_cost request)
       in if elements = 0 \<or> MAX_PROVIDER_RECORD_ELEMENTS < elements
          then Inl (validation ''route53_change_element_limit'') else Inr ())"

definition same_route53_observation :: "ObservedDnsRecordSet \<Rightarrow> ObservedDnsRecordSet \<Rightarrow> bool" where
  "same_route53_observation current requested \<longleftrightarrow>
     or_zone current = or_zone requested \<and> or_record_set current = or_record_set requested
     \<and> or_revision current = or_revision requested"

definition route53_alias_and_health :: "ProviderDnsRecordSet \<Rightarrow> bool \<times> string option" where
  "route53_alias_and_health rs =
     (case rs_extension rs of
        Some (Route53Ext alias _ health) \<Rightarrow> (alias \<noteq> None, health)
      | _ \<Rightarrow> (False, None))"

definition validate_replace_shape :: "ProviderDnsRecordSet \<Rightarrow> ProviderDnsRecordSet \<Rightarrow> unit ProviderResult" where
  "validate_replace_shape previous desired =
     (if resultant_routing_family previous \<noteq> resultant_routing_family desired
         \<or> fst (route53_alias_and_health previous) \<noteq> fst (route53_alias_and_health desired)
         \<or> snd (route53_alias_and_health previous) \<noteq> snd (route53_alias_and_health desired)
      then Inl (conflict ''route53_replace_shape_conflict'') else Inr ())"

type_synonym inventory = "(DnsRecordSetKey, ObservedDnsRecordSet \<times> Route53RecordSet) hmap"

record plan_state =
  ps_resultant :: "(DnsRecordSetKey, ProviderDnsRecordSet) hmap"
  ps_owners :: "string list"
  ps_groups :: "(string \<times> ProviderDnsRecordType) list"
  ps_request :: "Route53RecordChange list"

definition affect :: "DnsRecordSetKey \<Rightarrow> plan_state \<Rightarrow> plan_state" where
  "affect key ps = ps\<lparr>ps_owners := key_owner key # ps_owners ps, ps_groups := (key_owner key, key_type key) # ps_groups ps\<rparr>"

text \<open>One pass of the loop over the changes.\<close>

fun plan_change ::
  "route53_codec \<Rightarrow> DnsZoneRef \<Rightarrow> inventory \<Rightarrow> DnsRecordChange \<Rightarrow> plan_state \<Rightarrow> plan_state ProviderResult" where
  "plan_change cx zone current (CreateSet rs _) ps0 =
     (let ps = affect (rs_key rs) ps0
      in if map_of current (rs_key rs) \<noteq> None then Inl (conflict ''route53_create_guard_conflict'')
         else and_then (render_record_set cx zone rs) (\<lambda>rendered.
           Inr (ps\<lparr>ps_request := ps_request ps @ [\<lparr>ch_action = ActCreate, ch_record_set = rendered\<rparr>],
                   ps_resultant := AList.update (rs_key rs) rs (ps_resultant ps)\<rparr>)))"
| "plan_change cx zone current (ReplaceSet previous desired _) ps0 =
     (let ps = affect (rs_key desired) ps0
      in case map_of current (rs_key desired) of
           None \<Rightarrow> Inl (conflict ''route53_replace_guard_conflict'')
         | Some (observed, raw) \<Rightarrow>
             if \<not> same_route53_observation observed previous then Inl (conflict ''route53_replace_guard_conflict'')
             else and_then (validate_replace_shape (or_record_set previous) desired) (\<lambda>_.
               if or_record_set previous = desired then Inl (validation ''route53_noop_replace'')
               else and_then (render_record_set cx zone desired) (\<lambda>rendered.
                 Inr (ps\<lparr>ps_request := ps_request ps @
                           [\<lparr>ch_action = ActDelete, ch_record_set = raw\<rparr>, \<lparr>ch_action = ActCreate, ch_record_set = rendered\<rparr>],
                         ps_resultant := AList.update (rs_key desired) desired (ps_resultant ps)\<rparr>))))"
| "plan_change cx zone current (DeleteSet previous _) ps0 =
     (let key = rs_key (or_record_set previous); ps = affect key ps0
      in case map_of current key of
           None \<Rightarrow> Inl (conflict ''route53_delete_guard_conflict'')
         | Some (observed, raw) \<Rightarrow>
             if \<not> same_route53_observation observed previous then Inl (conflict ''route53_delete_guard_conflict'')
             else Inr (ps\<lparr>ps_request := ps_request ps @ [\<lparr>ch_action = ActDelete, ch_record_set = raw\<rparr>],
                          ps_resultant := AList.delete key (ps_resultant ps)\<rparr>))"

fun plan_changes ::
  "route53_codec \<Rightarrow> DnsZoneRef \<Rightarrow> inventory \<Rightarrow> DnsRecordChange list \<Rightarrow> plan_state \<Rightarrow> plan_state ProviderResult" where
  "plan_changes cx zone current [] ps = Inr ps"
| "plan_changes cx zone current (c # cs) ps = and_then (plan_change cx zone current c ps) (plan_changes cx zone current cs)"

definition plan_inventory :: "(ObservedDnsRecordSet \<times> Route53RecordSet) list \<Rightarrow> inventory" where
  "plan_inventory current = collect_map (map (\<lambda>(observed, raw). (rs_key (or_record_set observed), (observed, raw))) current)"

definition plan_start :: "inventory \<Rightarrow> plan_state" where
  "plan_start current =
     \<lparr>ps_resultant = map_values (\<lambda>e. or_record_set (fst e)) current, ps_owners = [], ps_groups = [], ps_request = []\<rparr>"

definition plan_change_batch ::
  "route53_codec \<Rightarrow> DnsZoneRef \<Rightarrow> DnsRecordChange list \<Rightarrow> (ObservedDnsRecordSet \<times> Route53RecordSet) list
     \<Rightarrow> Route53RecordChange list ProviderResult" where
  "plan_change_batch cx zone changes current =
     and_then (plan_changes cx zone (plan_inventory current) changes (plan_start (plan_inventory current))) (\<lambda>ps.
     and_then (validate_resultant_inventory (ps_resultant ps) (ps_owners ps) (ps_groups ps)) (\<lambda>_.
       if ps_request ps = [] \<or> MAX_PROVIDER_CHANGE_ACTIONS < length (ps_request ps)
       then Inl (validation ''route53_change_action_limit'')
       else and_then (validate_change_request (ps_request ps)) (\<lambda>_. Inr (ps_request ps))))"

section \<open>What a batch does to a zone\<close>

text \<open>
  The specification. A zone is the set of its record sets, no two with the same identity. A batch is
  carried out in order and as a whole: a deletion names a record set that is there, exactly as it is
  there, and a creation one whose identity is free.
\<close>

definition reads :: "route53_codec \<Rightarrow> DnsZoneRef \<Rightarrow> Route53RecordSet \<Rightarrow> ProviderDnsRecordSet option" where
  "reads cx zone raw = (case map_record_set cx zone raw of Inr (rs, _) \<Rightarrow> Some rs | Inl _ \<Rightarrow> None)"

definition run_change ::
  "route53_codec \<Rightarrow> DnsZoneRef \<Rightarrow> Route53RecordChange \<Rightarrow> Route53RecordSet set \<Rightarrow> Route53RecordSet set option" where
  "run_change cx zone c z =
     (case ch_action c of
        ActDelete \<Rightarrow> if ch_record_set c \<in> z then Some (z - {ch_record_set c}) else None
      | ActCreate \<Rightarrow>
          if \<exists>r \<in> z. map_option rs_key (reads cx zone r) = map_option rs_key (reads cx zone (ch_record_set c))
          then None else Some (insert (ch_record_set c) z))"

fun run_batch ::
  "route53_codec \<Rightarrow> DnsZoneRef \<Rightarrow> Route53RecordChange list \<Rightarrow> Route53RecordSet set \<Rightarrow> Route53RecordSet set option" where
  "run_batch cx zone [] z = Some z"
| "run_batch cx zone (c # cs) z = Option.bind (run_change cx zone c z) (run_batch cx zone cs)"

definition zone_sets :: "route53_codec \<Rightarrow> DnsZoneRef \<Rightarrow> Route53RecordSet set \<Rightarrow> ProviderDnsRecordSet set" where
  "zone_sets cx zone z = {rs. \<exists>raw \<in> z. reads cx zone raw = Some rs}"

text \<open>The meaning of the changes, on the record sets themselves.\<close>

fun apply_change :: "DnsRecordChange \<Rightarrow> ProviderDnsRecordSet set \<Rightarrow> ProviderDnsRecordSet set" where
  "apply_change (CreateSet rs _) s = insert rs s"
| "apply_change (ReplaceSet previous desired _) s = insert desired (s - {or_record_set previous})"
| "apply_change (DeleteSet previous _) s = s - {or_record_set previous}"

fun guard_holds :: "ObservedDnsRecordSet list \<Rightarrow> DnsRecordChange \<Rightarrow> bool" where
  "guard_holds current (CreateSet rs _) \<longleftrightarrow> rs_key rs \<notin> (\<lambda>obs. rs_key (or_record_set obs)) ` set current"
| "guard_holds current (ReplaceSet previous _ _) \<longleftrightarrow> (\<exists>obs \<in> set current. same_route53_observation obs previous)"
| "guard_holds current (DeleteSet previous _) \<longleftrightarrow> (\<exists>obs \<in> set current. same_route53_observation obs previous)"

text \<open>A routing group that Route 53 accepts.\<close>

definition group_consistent :: "ProviderDnsRecordSet set \<Rightarrow> bool" where
  "group_consistent g \<longleftrightarrow>
     (\<forall>a \<in> g. \<forall>b \<in> g. resultant_routing_family a = resultant_routing_family b
        \<and> (\<forall>s t. rs_ttl a = Seconds s \<and> rs_ttl b = Seconds t \<longrightarrow> s = t)
        \<and> (a \<noteq> b \<and> resultant_selector a \<noteq> None \<longrightarrow> resultant_selector a \<noteq> resultant_selector b))
     \<and> ((\<exists>a \<in> g. resultant_routing_family a = RWeighted) \<longrightarrow> card g \<le> 100)"

definition zone_consistent :: "DnsRecordSetKey \<Rightarrow> ProviderDnsRecordSet set \<Rightarrow> bool" where
  "zone_consistent key s \<longleftrightarrow>
     \<not> ((\<exists>a \<in> s. key_owner (rs_key a) = key_owner key \<and> key_type (rs_key a) = TCname)
        \<and> (\<exists>b \<in> s. key_owner (rs_key b) = key_owner key \<and> key_type (rs_key b) \<noteq> TCname))
     \<and> group_consistent {a \<in> s. key_owner (rs_key a) = key_owner key \<and> key_type (rs_key a) = key_type key}"

section \<open>Lemmas\<close>

lemma run_batch_append: "run_batch cx zone (a @ b) z = Option.bind (run_batch cx zone a z) (run_batch cx zone b)"
  by (induction a arbitrary: z) (auto split: bind_splits)

lemma render_reads: "render_record_set cx zone rs = Inr rendered \<Longrightarrow> reads cx zone rendered = Some rs"
  by (auto simp: render_record_set_def reads_def and_then_eq_Inr split: if_splits)

abbreviation read_key :: "route53_codec \<Rightarrow> DnsZoneRef \<Rightarrow> Route53RecordSet \<Rightarrow> DnsRecordSetKey option" where
  "read_key cx zone r \<equiv> map_option rs_key (reads cx zone r)"

definition wf_zone :: "route53_codec \<Rightarrow> DnsZoneRef \<Rightarrow> Route53RecordSet set \<Rightarrow> bool" where
  "wf_zone cx zone z \<longleftrightarrow> finite z \<and> (\<forall>r \<in> z. reads cx zone r \<noteq> None) \<and> inj_on (read_key cx zone) z"

lemma zone_delete:
  assumes "wf_zone cx zone z" "raw \<in> z" "reads cx zone raw = Some p"
  shows "wf_zone cx zone (z - {raw})" "zone_sets cx zone (z - {raw}) = zone_sets cx zone z - {p}"
    "\<And>r. r \<in> z - {raw} \<Longrightarrow> read_key cx zone r \<noteq> Some (rs_key p)"
proof -
  show "wf_zone cx zone (z - {raw})" using assms(1) by (auto simp: wf_zone_def intro: inj_on_subset)
  show other: "read_key cx zone r \<noteq> Some (rs_key p)" if "r \<in> z - {raw}" for r
    using assms that unfolding wf_zone_def inj_on_def by force
  show "zone_sets cx zone (z - {raw}) = zone_sets cx zone z - {p}"
  proof -
    have "reads cx zone r \<noteq> Some p" if "r \<in> z - {raw}" for r using other [OF that] by auto
    then show ?thesis using assms(3) by (auto simp: zone_sets_def)
  qed
qed

lemma zone_create:
  assumes "wf_zone cx zone z" "reads cx zone raw = Some d" "\<And>r. r \<in> z \<Longrightarrow> read_key cx zone r \<noteq> Some (rs_key d)"
  shows "wf_zone cx zone (insert raw z)" "zone_sets cx zone (insert raw z) = insert d (zone_sets cx zone z)"
    "run_change cx zone \<lparr>ch_action = ActCreate, ch_record_set = raw\<rparr> z = Some (insert raw z)"
proof -
  have "raw \<notin> z" using assms(2) assms(3) [of raw] by auto
  moreover have "read_key cx zone raw \<notin> read_key cx zone ` z"
  proof
    assume "read_key cx zone raw \<in> read_key cx zone ` z"
    then obtain r where r: "read_key cx zone raw = read_key cx zone r" "r \<in> z" by (rule imageE)
    have "read_key cx zone raw = Some (rs_key d)" using assms(2) by simp
    then show False using assms(3) [OF r(2)] unfolding r(1) by blast
  qed
  ultimately show "wf_zone cx zone (insert raw z)" using assms(1,2) by (simp add: wf_zone_def inj_on_insert)
  show "zone_sets cx zone (insert raw z) = insert d (zone_sets cx zone z)" using assms(2) by (auto simp: zone_sets_def)
  show "run_change cx zone \<lparr>ch_action = ActCreate, ch_record_set = raw\<rparr> z = Some (insert raw z)"
    using assms(2,3) by (auto simp: run_change_def)
qed

lemma zone_sets_unique: "wf_zone cx zone z \<Longrightarrow> inj_on rs_key (zone_sets cx zone z)"
  by (auto simp: inj_on_def wf_zone_def zone_sets_def)

lemma zone_sets_key: "rs \<in> zone_sets cx zone z \<Longrightarrow> \<exists>r \<in> z. read_key cx zone r = Some (rs_key rs)"
  by (force simp: zone_sets_def)

text \<open>What the loop maintains: the request so far leads to a zone that the resulting inventory describes, and keys not yet visited are as they were read.\<close>

definition inventory_ok :: "route53_codec \<Rightarrow> DnsZoneRef \<Rightarrow> inventory \<Rightarrow> bool" where
  "inventory_ok cx zone current \<longleftrightarrow>
     (\<forall>k obs raw. map_of current k = Some (obs, raw) \<longrightarrow> reads cx zone raw = Some (or_record_set obs) \<and> rs_key (or_record_set obs) = k)"

definition represents_sets :: "(DnsRecordSetKey, ProviderDnsRecordSet) hmap \<Rightarrow> ProviderDnsRecordSet set \<Rightarrow> bool" where
  "represents_sets m s \<longleftrightarrow> wf_map m \<and> (\<forall>k rs. map_of m k = Some rs \<longleftrightarrow> rs \<in> s \<and> rs_key rs = k)"

definition plan_inv ::
  "route53_codec \<Rightarrow> DnsZoneRef \<Rightarrow> inventory \<Rightarrow> Route53RecordSet set \<Rightarrow> DnsRecordSetKey set \<Rightarrow> Route53RecordSet set
     \<Rightarrow> plan_state \<Rightarrow> bool" where
  "plan_inv cx zone current z0 visited z ps \<longleftrightarrow>
     run_batch cx zone (ps_request ps) z0 = Some z \<and> wf_zone cx zone z
     \<and> represents_sets (ps_resultant ps) (zone_sets cx zone z)
     \<and> (\<forall>k. k \<notin> visited \<longrightarrow>
          (case map_of current k of
             Some (_, raw) \<Rightarrow> raw \<in> z
           | None \<Rightarrow> \<forall>r \<in> z. read_key cx zone r \<noteq> Some k))
     \<and> set (ps_groups ps) = (\<lambda>k. (key_owner k, key_type k)) ` visited
     \<and> set (ps_owners ps) = key_owner ` visited"

lemma represents_update:
  "represents_sets m s \<Longrightarrow> (\<And>rs. rs \<in> s \<Longrightarrow> rs_key rs \<noteq> rs_key d) \<Longrightarrow> represents_sets (AList.update (rs_key d) d m) (insert d s)"
  by (auto simp: represents_sets_def map_simps)

lemma represents_delete:
  assumes "represents_sets m s" "inj_on rs_key s" "p \<in> s"
  shows "represents_sets (AList.delete (rs_key p) m) (s - {p})"
  using assms inj_onD [OF assms(2)] by (auto simp: represents_sets_def map_simps)

lemma represents_replace:
  assumes "represents_sets m s" "inj_on rs_key s" "p \<in> s" "rs_key p = rs_key d"
  shows "represents_sets (AList.update (rs_key d) d m) (insert d (s - {p}))"
  using assms inj_onD [OF assms(2)] by (auto simp: represents_sets_def map_simps)

lemma visited_step:
  assumes "\<forall>k. k \<notin> visited \<longrightarrow> (case map_of current k of Some (_, raw) \<Rightarrow> raw \<in> z | None \<Rightarrow> \<forall>r \<in> z. read_key cx zone r \<noteq> Some k)"
    and "inventory_ok cx zone current"
    and "\<And>r. r \<in> z \<Longrightarrow> r \<notin> z' \<Longrightarrow> read_key cx zone r = Some key"
    and "\<And>r. r \<in> z' \<Longrightarrow> r \<notin> z \<Longrightarrow> read_key cx zone r = Some key"
  shows "\<forall>k. k \<notin> insert key visited \<longrightarrow>
    (case map_of current k of Some (_, raw) \<Rightarrow> raw \<in> z' | None \<Rightarrow> \<forall>r \<in> z'. read_key cx zone r \<noteq> Some k)"
proof (intro allI impI)
  fix k
  assume k: "k \<notin> insert key visited"
  show "case map_of current k of Some (_, raw) \<Rightarrow> raw \<in> z' | None \<Rightarrow> \<forall>r \<in> z'. read_key cx zone r \<noteq> Some k"
  proof (cases "map_of current k")
    case None
    with assms(1,4) k show ?thesis by force
  next
    case (Some e)
    then obtain obs raw where e: "map_of current k = Some (obs, raw)" by (cases e) auto
    with assms(1) k have "raw \<in> z" by auto
    moreover have "read_key cx zone raw = Some k" using assms(2) e by (simp add: inventory_ok_def)
    ultimately have "raw \<in> z'" using assms(3) [of raw] k by fastforce
    with e show ?thesis by simp
  qed
qed

lemma affect_simps [simp]:
  "ps_resultant (affect k ps) = ps_resultant ps" "ps_request (affect k ps) = ps_request ps"
  "set (ps_groups (affect k ps)) = insert (key_owner k, key_type k) (set (ps_groups ps))"
  "set (ps_owners (affect k ps)) = insert (key_owner k) (set (ps_owners ps))"
  by (simp_all add: affect_def)

lemma plan_inv_current:
  assumes "plan_inv cx zone current z0 visited z ps" "inventory_ok cx zone current" "k \<notin> visited"
    and "map_of current k = Some (obs, raw)"
  shows "raw \<in> z" "reads cx zone raw = Some (or_record_set obs)" "rs_key (or_record_set obs) = k" "or_record_set obs \<in> zone_sets cx zone z"
proof -
  show in_z: "raw \<in> z" using assms(1,3,4) unfolding plan_inv_def by (metis (no_types, lifting) old.prod.case option.simps(5))
  show reads: "reads cx zone raw = Some (or_record_set obs)" "rs_key (or_record_set obs) = k"
    using assms(2,4) by (auto simp: inventory_ok_def)
  show "or_record_set obs \<in> zone_sets cx zone z" using in_z reads by (auto simp: zone_sets_def)
qed

lemma plan_delete_step:
  assumes "plan_inv cx zone current z0 visited z ps" "inventory_ok cx zone current" "k \<notin> visited"
    and "map_of current k = Some (obs, raw)"
  shows "plan_inv cx zone current z0 (insert k visited) (z - {raw})
      ((affect k ps)\<lparr>ps_request := ps_request ps @ [\<lparr>ch_action = ActDelete, ch_record_set = raw\<rparr>],
         ps_resultant := AList.delete k (ps_resultant ps)\<rparr>)"
    and "zone_sets cx zone (z - {raw}) = zone_sets cx zone z - {or_record_set obs}"
proof -
  note c = plan_inv_current [OF assms]
  have inv: "run_batch cx zone (ps_request ps) z0 = Some z" "wf_zone cx zone z"
    "represents_sets (ps_resultant ps) (zone_sets cx zone z)"
    and unvisited: "\<forall>k. k \<notin> visited \<longrightarrow> (case map_of current k of Some (_, raw) \<Rightarrow> raw \<in> z | None \<Rightarrow> \<forall>r \<in> z. read_key cx zone r \<noteq> Some k)"
    using assms(1) by (simp_all add: plan_inv_def)
  note d = zone_delete [OF inv(2) c(1,2)]
  show sets: "zone_sets cx zone (z - {raw}) = zone_sets cx zone z - {or_record_set obs}" by (rule d(2))
  have "represents_sets (AList.delete k (ps_resultant ps)) (zone_sets cx zone (z - {raw}))"
    unfolding sets using represents_delete [OF inv(3) zone_sets_unique [OF inv(2)] c(4)] c(3) by simp
  moreover have "\<forall>j. j \<notin> insert k visited \<longrightarrow>
      (case map_of current j of Some (_, r) \<Rightarrow> r \<in> z - {raw} | None \<Rightarrow> \<forall>r \<in> z - {raw}. read_key cx zone r \<noteq> Some j)"
    by (rule visited_step [OF unvisited assms(2)]) (use c(2,3) in auto)
  ultimately show "plan_inv cx zone current z0 (insert k visited) (z - {raw})
      ((affect k ps)\<lparr>ps_request := ps_request ps @ [\<lparr>ch_action = ActDelete, ch_record_set = raw\<rparr>],
         ps_resultant := AList.delete k (ps_resultant ps)\<rparr>)"
    using assms(1) inv(1) d(1) c(1) by (simp add: plan_inv_def run_batch_append run_change_def)
qed

lemma plan_create_step:
  assumes "plan_inv cx zone current z0 visited z ps" "inventory_ok cx zone current"
    and "reads cx zone rendered = Some d" "k = rs_key d" "\<And>r. r \<in> z \<Longrightarrow> read_key cx zone r \<noteq> Some k"
  shows "plan_inv cx zone current z0 (insert k visited) (insert rendered z)
      ((affect k ps)\<lparr>ps_request := ps_request ps @ [\<lparr>ch_action = ActCreate, ch_record_set = rendered\<rparr>],
         ps_resultant := AList.update k d (ps_resultant ps)\<rparr>)"
    and "zone_sets cx zone (insert rendered z) = insert d (zone_sets cx zone z)"
proof -
  have inv: "run_batch cx zone (ps_request ps) z0 = Some z" "wf_zone cx zone z"
    "represents_sets (ps_resultant ps) (zone_sets cx zone z)"
    and unvisited: "\<forall>k. k \<notin> visited \<longrightarrow> (case map_of current k of Some (_, raw) \<Rightarrow> raw \<in> z | None \<Rightarrow> \<forall>r \<in> z. read_key cx zone r \<noteq> Some k)"
    using assms(1) by (simp_all add: plan_inv_def)
  note d = zone_create [OF inv(2) assms(3)] 
  note fresh = assms(5) [unfolded assms(4)]
  show sets: "zone_sets cx zone (insert rendered z) = insert d (zone_sets cx zone z)" using d(2) fresh by blast
  have "represents_sets (AList.update k d (ps_resultant ps)) (zone_sets cx zone (insert rendered z))"
    unfolding sets assms(4) using zone_sets_key fresh by (intro represents_update [OF inv(3)]) metis
  moreover have "\<forall>j. j \<notin> insert k visited \<longrightarrow>
      (case map_of current j of Some (_, r) \<Rightarrow> r \<in> insert rendered z | None \<Rightarrow> \<forall>r \<in> insert rendered z. read_key cx zone r \<noteq> Some j)"
    by (rule visited_step [OF unvisited assms(2)]) (use assms(3,4) in auto)
  ultimately show "plan_inv cx zone current z0 (insert k visited) (insert rendered z)
      ((affect k ps)\<lparr>ps_request := ps_request ps @ [\<lparr>ch_action = ActCreate, ch_record_set = rendered\<rparr>],
         ps_resultant := AList.update k d (ps_resultant ps)\<rparr>)"
    using assms(1) inv(1) d(1,3) fresh by (simp add: plan_inv_def run_batch_append)
qed

text \<open>A replacement deletes and creates under one key; the resulting map only records the second step.\<close>

lemma plan_replace_step:
  assumes "plan_inv cx zone current z0 visited z ps" "inventory_ok cx zone current" "k \<notin> visited"
    and "map_of current k = Some (obs, raw)" "reads cx zone rendered = Some d" "k = rs_key d"
  shows "\<exists>z'. plan_inv cx zone current z0 (insert k visited) z'
      ((affect k ps)\<lparr>ps_request := ps_request ps @ [\<lparr>ch_action = ActDelete, ch_record_set = raw\<rparr>,
           \<lparr>ch_action = ActCreate, ch_record_set = rendered\<rparr>],
         ps_resultant := AList.update k d (ps_resultant ps)\<rparr>)
     \<and> zone_sets cx zone z' = insert d (zone_sets cx zone z - {or_record_set obs})"
proof -
  let ?ps = "(affect k ps)\<lparr>ps_request := ps_request ps @ [\<lparr>ch_action = ActDelete, ch_record_set = raw\<rparr>],
      ps_resultant := AList.delete k (ps_resultant ps)\<rparr>"
  note del = plan_delete_step [OF assms(1-4)] and c = plan_inv_current [OF assms(1-4)]
  have wf: "wf_zone cx zone z" and rep: "represents_sets (ps_resultant ps) (zone_sets cx zone z)"
    using assms(1) by (simp_all add: plan_inv_def)
  have "read_key cx zone r \<noteq> Some k" if "r \<in> z - {raw}" for r
    using zone_delete(3) [OF wf c(1,2) that] c(3) by simp
  note cre = plan_create_step [OF del(1) assms(2,5,6) this]
  have "represents_sets (AList.update k d (ps_resultant ps)) (insert d (zone_sets cx zone z - {or_record_set obs}))"
    using represents_replace [OF rep zone_sets_unique [OF wf] c(4)] c(3) assms(6) by simp
  with cre del(2) show ?thesis
    by (intro exI [of _ "insert rendered (z - {raw})"]) (simp add: plan_inv_def)
qed

lemma plan_change_step:
  assumes "plan_change cx zone current c ps = Inr ps'" "plan_inv cx zone current z0 visited z ps"
    and "inventory_ok cx zone current" "change_key c \<notin> visited"
  shows "\<exists>z'. plan_inv cx zone current z0 (insert (change_key c) visited) z' ps'
     \<and> zone_sets cx zone z' = apply_change c (zone_sets cx zone z)"
proof (cases c)
  case (CreateSet rs guard)
  with assms(1) obtain rendered where r: "map_of current (rs_key rs) = None" "render_record_set cx zone rs = Inr rendered"
    "ps' = (affect (rs_key rs) ps)\<lparr>ps_request := ps_request ps @ [\<lparr>ch_action = ActCreate, ch_record_set = rendered\<rparr>],
       ps_resultant := AList.update (rs_key rs) rs (ps_resultant ps)\<rparr>"
    by (cases "map_of current (rs_key rs)") (auto simp: Let_def and_then_eq_Inr split: if_splits)
  have "case map_of current (rs_key rs) of Some (_, raw) \<Rightarrow> raw \<in> z | None \<Rightarrow> \<forall>r \<in> z. read_key cx zone r \<noteq> Some (rs_key rs)"
    using assms(2,4) CreateSet unfolding plan_inv_def by simp
  with r(1) have "\<And>r. r \<in> z \<Longrightarrow> read_key cx zone r \<noteq> Some (rs_key rs)" by simp
  from plan_create_step [OF assms(2,3) render_reads [OF r(2)] refl this] r(3) CreateSet show ?thesis by auto
next
  case (ReplaceSet previous desired guard)
  with assms(1) obtain obs raw rendered where r: "map_of current (rs_key desired) = Some (obs, raw)"
    "same_route53_observation obs previous" "render_record_set cx zone desired = Inr rendered"
    "ps' = (affect (rs_key desired) ps)\<lparr>ps_request := ps_request ps @ [\<lparr>ch_action = ActDelete, ch_record_set = raw\<rparr>,
         \<lparr>ch_action = ActCreate, ch_record_set = rendered\<rparr>],
       ps_resultant := AList.update (rs_key desired) desired (ps_resultant ps)\<rparr>"
    by (auto simp: Let_def and_then_eq_Inr split: if_splits option.splits)
  have "rs_key desired \<notin> visited" using assms(4) ReplaceSet by simp
  from plan_replace_step [OF assms(2,3) this r(1) render_reads [OF r(3)] refl] r(2,4) ReplaceSet show ?thesis
    by (simp add: same_route53_observation_def)
next
  case (DeleteSet previous guard)
  let ?k = "rs_key (or_record_set previous)"
  from DeleteSet assms(1) obtain obs raw where r: "map_of current ?k = Some (obs, raw)" "same_route53_observation obs previous"
    "ps' = (affect ?k ps)\<lparr>ps_request := ps_request ps @ [\<lparr>ch_action = ActDelete, ch_record_set = raw\<rparr>],
       ps_resultant := AList.delete ?k (ps_resultant ps)\<rparr>"
    by (auto simp: Let_def split: if_splits option.splits)
  have "?k \<notin> visited" using assms(4) DeleteSet by simp
  from plan_delete_step [OF assms(2,3) this r(1)] r(2,3) DeleteSet show ?thesis
    by (auto simp: same_route53_observation_def)
qed

lemma plan_changes_run:
  assumes "plan_changes cx zone current cs ps = Inr ps'" "plan_inv cx zone current z0 visited z ps"
    and "inventory_ok cx zone current" "distinct (map change_key cs)" "visited \<inter> change_key ` set cs = {}"
  shows "\<exists>z'. plan_inv cx zone current z0 (change_key ` set cs \<union> visited) z' ps'
     \<and> zone_sets cx zone z' = fold apply_change cs (zone_sets cx zone z)"
  using assms
proof (induction cs arbitrary: ps visited z)
  case (Cons c cs)
  then obtain ps1 where p: "plan_change cx zone current c ps = Inr ps1" "plan_changes cx zone current cs ps1 = Inr ps'"
    by (auto simp: and_then_eq_Inr)
  from plan_change_step [OF p(1) Cons.prems(2,3)] Cons.prems(5) obtain z1 where z1:
    "plan_inv cx zone current z0 (insert (change_key c) visited) z1 ps1"
    "zone_sets cx zone z1 = apply_change c (zone_sets cx zone z)" by auto
  have "insert (change_key c) visited \<inter> change_key ` set cs = {}" using Cons.prems(4,5) by auto
  from Cons.IH [OF p(2) z1(1) Cons.prems(3) _ this] Cons.prems(4) z1(2) show ?case by simp
qed auto

text \<open>The guards of accepted changes.\<close>

lemma plan_changes_guards:
  "plan_changes cx zone current cs ps = Inr ps' \<Longrightarrow> c \<in> set cs \<Longrightarrow>
     (case c of
        CreateSet rs _ \<Rightarrow> map_of current (rs_key rs) = None
      | ReplaceSet previous desired _ \<Rightarrow> \<exists>obs raw. map_of current (rs_key desired) = Some (obs, raw) \<and> same_route53_observation obs previous
      | DeleteSet previous _ \<Rightarrow> \<exists>obs raw. map_of current (rs_key (or_record_set previous)) = Some (obs, raw) \<and> same_route53_observation obs previous)"
proof (induction cs arbitrary: ps)
  case (Cons d cs)
  then obtain ps1 where p: "plan_change cx zone current d ps = Inr ps1" "plan_changes cx zone current cs ps1 = Inr ps'"
    by (auto simp: and_then_eq_Inr)
  show ?case
  proof (cases "c = d")
    case True
    with p(1) show ?thesis
      by (cases d; cases "map_of current (change_key d)") (auto simp: Let_def split: if_splits)
  next
    case False
    with Cons p(2) show ?thesis by auto
  qed
qed simp

text \<open>The checks on the resulting inventory.\<close>

lemma represents_values:
  assumes "represents_sets m s"
  shows "set (map snd (sort_key (\<lambda>e. key_rank (fst e)) m)) = s" "distinct (map snd (sort_key (\<lambda>e. key_rank (fst e)) m))"
proof -
  have m: "(k, rs) \<in> set m \<longleftrightarrow> rs \<in> s \<and> rs_key rs = k" for k rs
    using assms by (simp add: represents_sets_def mem_wf_map)
  then show "set (map snd (sort_key (\<lambda>e. key_rank (fst e)) m)) = s" by force
  have "distinct m" "inj_on snd (set m)"
    using assms m by (auto simp: represents_sets_def distinct_map inj_on_def)
  then show "distinct (map snd (sort_key (\<lambda>e. key_rank (fst e)) m))" by (simp add: distinct_map)
qed

lemma scan_members_step:
  assumes "scan_members family ttl seen (m # ms) = Inr u"
  obtains ttl' seen' where "resultant_routing_family m = family" "scan_members family ttl' seen' ms = Inr u"
    "\<And>s. rs_ttl m = Seconds s \<Longrightarrow> ttl' = Some s" "\<And>t. ttl = Some t \<Longrightarrow> ttl' = Some t"
    "seen' = (case resultant_selector m of None \<Rightarrow> seen | Some sel \<Rightarrow> sel # seen)"
    "\<And>sel. resultant_selector m = Some sel \<Longrightarrow> sel \<notin> set seen"
proof -
  from assms obtain ttl' seen' where step: "resultant_routing_family m = family"
    "(case rs_ttl m of Seconds v \<Rightarrow> if (case ttl of None \<Rightarrow> False | Some existing \<Rightarrow> existing \<noteq> v)
        then Inl (conflict ''route53_resultant_ttl_conflict'') else Inr (Some v) | _ \<Rightarrow> Inr ttl) = Inr ttl'"
    "(case resultant_selector m of None \<Rightarrow> Inr seen | Some selector \<Rightarrow> if selector \<in> set seen
        then Inl (conflict ''route53_resultant_selector_conflict'') else Inr (selector # seen)) = Inr seen'"
    "scan_members family ttl' seen' ms = Inr u" by (auto simp: and_then_eq_Inr split: if_splits)
  show ?thesis
  proof (rule that [OF step(1,4)])
    show "ttl' = Some s" if "rs_ttl m = Seconds s" for s using step(2) that by (auto split: if_splits option.splits)
    show "ttl' = Some t" if "ttl = Some t" for t using step(2) that by (auto split: DnsTtl.splits if_splits)
    show "seen' = (case resultant_selector m of None \<Rightarrow> seen | Some sel \<Rightarrow> sel # seen)"
      using step(3) by (auto split: option.splits if_splits)
    show "sel \<notin> set seen" if "resultant_selector m = Some sel" for sel using step(3) that by (auto split: if_splits)
  qed
qed

lemma scan_members_family:
  "scan_members family ttl seen ms = Inr u \<Longrightarrow> a \<in> set ms \<Longrightarrow> resultant_routing_family a = family"
  by (induction ms arbitrary: ttl seen) (auto elim!: scan_members_step simp del: scan_members.simps(2))

lemma scan_members_ttl:
  "scan_members family (Some t) seen ms = Inr u \<Longrightarrow> a \<in> set ms \<Longrightarrow> rs_ttl a = Seconds s \<Longrightarrow> s = t"
proof (induction ms arbitrary: seen)
  case (Cons m ms)
  from Cons.prems(1) obtain ttl' seen' where "scan_members family ttl' seen' ms = Inr u" "\<And>s. rs_ttl m = Seconds s \<Longrightarrow> ttl' = Some s"
    "ttl' = Some t" by (rule scan_members_step) auto
  with Cons show ?case by (cases "a = m") auto
qed simp

lemma scan_members_ttls:
  "scan_members family ttl seen ms = Inr u \<Longrightarrow> a \<in> set ms \<Longrightarrow> b \<in> set ms \<Longrightarrow> rs_ttl a = Seconds s \<Longrightarrow> rs_ttl b = Seconds t \<Longrightarrow> s = t"
proof (induction ms arbitrary: ttl seen)
  case (Cons m ms)
  from Cons.prems(1) obtain ttl' seen' where scan: "scan_members family ttl' seen' ms = Inr u"
    and first: "\<And>s. rs_ttl m = Seconds s \<Longrightarrow> ttl' = Some s" by (rule scan_members_step) auto
  have later: "w = v" if "rs_ttl m = Seconds v" "x \<in> set ms" "rs_ttl x = Seconds w" for v w x
    using scan_members_ttl [OF _ that(2,3)] scan first [OF that(1)] by blast
  consider "a = m" "b = m" | "a = m" "b \<in> set ms" | "a \<in> set ms" "b = m" | "a \<in> set ms" "b \<in> set ms"
    using Cons.prems(2,3) by auto
  then show ?case
  proof cases
    case 1
    with Cons.prems(4,5) show ?thesis by simp
  next
    case 2
    with later Cons.prems(4,5) show ?thesis by blast
  next
    case 3
    with later Cons.prems(4,5) show ?thesis by blast
  next
    case 4
    from Cons.IH [OF scan this Cons.prems(4,5)] show ?thesis .
  qed
qed simp

lemma scan_members_selectors:
  "scan_members family ttl seen ms = Inr u \<Longrightarrow>
     distinct (List.map_filter resultant_selector ms) \<and> set (List.map_filter resultant_selector ms) \<inter> set seen = {}"
proof (induction ms arbitrary: ttl seen)
  case (Cons m ms)
  from Cons.prems obtain ttl' seen' where step: "scan_members family ttl' seen' ms = Inr u"
    "seen' = (case resultant_selector m of None \<Rightarrow> seen | Some sel \<Rightarrow> sel # seen)"
    "\<And>sel. resultant_selector m = Some sel \<Longrightarrow> sel \<notin> set seen" by (rule scan_members_step) blast
  from Cons.IH [OF step(1)] step(2,3) show ?case
    by (cases "resultant_selector m") (auto simp: List.map_filter_simps)
qed (simp add: List.map_filter_simps)

lemma distinct_selectors:
  assumes "distinct (List.map_filter f xs)" "distinct xs" "a \<in> set xs" "b \<in> set xs" "a \<noteq> b" "f a \<noteq> None"
  shows "f a \<noteq> f b"
proof
  assume "f a = f b"
  with assms(6) obtain s where s: "f a = Some s" "f b = Some s" by auto
  have mem: "s \<in> set (List.map_filter f ys)" if "y \<in> set ys" "f y = Some s" for y ys
    using that by (force simp: List.map_filter_def)
  from assms(1-5) s show False
  proof (induction xs)
    case (Cons x xs)
    then show ?case using mem [of a xs] mem [of b xs] by (cases "f x") (auto simp: List.map_filter_simps)
  qed simp
qed

lemma check_group_ok:
  assumes "check_group vs (owner, ty) = Inr ()" "distinct vs"
  shows "group_consistent {a \<in> set vs. key_owner (rs_key a) = owner \<and> key_type (rs_key a) = ty}"
proof (cases "filter (\<lambda>r. key_owner (rs_key r) = owner \<and> key_type (rs_key r) = ty) vs")
  case Nil
  then have none: "{a \<in> set vs. key_owner (rs_key a) = owner \<and> key_type (rs_key a) = ty} = {}" by (auto simp: filter_empty_conv)
  show ?thesis unfolding none group_consistent_def by simp
next
  case (Cons first rest)
  let ?ms = "filter (\<lambda>r. key_owner (rs_key r) = owner \<and> key_type (rs_key r) = ty) vs"
  have set: "{a \<in> set vs. key_owner (rs_key a) = owner \<and> key_type (rs_key a) = ty} = set ?ms" by auto
  have scan: "scan_members (resultant_routing_family first) None [] ?ms = Inr ()"
    and limit: "\<not> (resultant_routing_family first = RWeighted \<and> 100 < length ?ms)"
    using assms(1) Cons by (auto simp: check_group_def Let_def and_then_eq_Inr split: if_splits)
  note dist = distinct_filter [OF assms(2)]
  show ?thesis
    unfolding set group_consistent_def
  proof (intro conjI ballI impI allI)
    fix a b
    assume ab: "a \<in> set ?ms" "b \<in> set ?ms"
    show "resultant_routing_family a = resultant_routing_family b"
      using scan_members_family [OF scan ab(1)] scan_members_family [OF scan ab(2)] by simp
    show "s = t" if "rs_ttl a = Seconds s \<and> rs_ttl b = Seconds t" for s t
      using scan_members_ttls [OF scan ab] that by blast
    show "resultant_selector a \<noteq> resultant_selector b" if "a \<noteq> b \<and> resultant_selector a \<noteq> None"
      using distinct_selectors [OF _ dist ab] scan_members_selectors [OF scan] that by blast
  next
    assume "\<exists>a \<in> set ?ms. resultant_routing_family a = RWeighted"
    then have "resultant_routing_family first = RWeighted" using scan_members_family [OF scan] by fastforce
    with limit distinct_card [OF dist] show "card (set ?ms) \<le> 100" by simp
  qed
qed

lemma validate_resultant_ok:
  assumes "validate_resultant_inventory m owners groups = Inr ()" "represents_sets m s"
    and "set owners = key_owner ` visited" "set groups = (\<lambda>k. (key_owner k, key_type k)) ` visited" "k \<in> visited"
  shows "zone_consistent k s"
proof -
  let ?vs = "map snd (sort_key (\<lambda>e. key_rank (fst e)) m)"
  note vs = represents_values [OF assms(2)]
  have "check_owner ?vs (key_owner k) = Inr ()" "check_group ?vs (key_owner k, key_type k) = Inr ()"
    using assms(1,3-5) by (auto simp: validate_resultant_inventory_def Let_def and_then_eq_Inr for_each_ok_Inr)
  with check_group_ok [OF _ vs(2)] vs(1) show ?thesis
    by (auto simp: zone_consistent_def check_owner_def Let_def list_ex_iff split: if_splits)
qed

text \<open>The inventory as it was read, with one record set per key.\<close>

definition read_inventory :: "route53_codec \<Rightarrow> DnsZoneRef \<Rightarrow> (ObservedDnsRecordSet \<times> Route53RecordSet) list \<Rightarrow> bool" where
  "read_inventory cx zone current \<longleftrightarrow>
     list_all (\<lambda>(obs, raw). map_record_set cx zone raw = Inr (or_record_set obs, or_revision obs)) current
     \<and> distinct (map (\<lambda>(obs, _). rs_key (or_record_set obs)) current)"

lemma plan_inventory_lookup:
  assumes "read_inventory cx zone current"
  shows "map_of (plan_inventory current) k = Some (obs, raw) \<longleftrightarrow> (obs, raw) \<in> set current \<and> rs_key (or_record_set obs) = k"
proof -
  let ?items = "map (\<lambda>(observed, raw). (rs_key (or_record_set observed), (observed, raw))) current"
  have "map fst ?items = map (\<lambda>(obs, _). rs_key (or_record_set obs)) current" by (simp add: comp_def case_prod_unfold)
  with assms have wf: "wf_map ?items" unfolding read_inventory_def by metis
  then have "map_of (plan_inventory current) = map_of ?items"
    by (simp add: plan_inventory_def map_of_collect map_of_rev_distinct)
  moreover have "map_of ?items k = Some (obs, raw) \<longleftrightarrow> (k, obs, raw) \<in> set ?items" using mem_wf_map [OF wf] by simp
  moreover have "(k, obs, raw) \<in> set ?items \<longleftrightarrow> (obs, raw) \<in> set current \<and> rs_key (or_record_set obs) = k" by force
  ultimately show ?thesis by simp
qed

lemma read_inventory_reads:
  "read_inventory cx zone current \<Longrightarrow> (obs, raw) \<in> set current \<Longrightarrow> reads cx zone raw = Some (or_record_set obs)"
  by (auto simp: read_inventory_def list_all_iff reads_def dest!: bspec)

lemma plan_inventory_ok: "read_inventory cx zone current \<Longrightarrow> inventory_ok cx zone (plan_inventory current)"
  by (auto simp: inventory_ok_def plan_inventory_lookup read_inventory_reads)

lemma read_inventory_key:
  assumes "read_inventory cx zone current" "(o1, r1) \<in> set current" "(o2, r2) \<in> set current"
    and "rs_key (or_record_set o1) = rs_key (or_record_set o2)"
  shows "r1 = r2 \<and> o1 = o2"
proof -
  have "inj_on (\<lambda>(obs, _). rs_key (or_record_set obs)) (set current)"
    using assms(1) by (simp add: read_inventory_def distinct_map)
  from inj_onD [OF this, of "(o1, r1)" "(o2, r2)"] assms(2-4) show ?thesis by simp
qed

lemma plan_inv_start:
  assumes "read_inventory cx zone current"
  shows "plan_inv cx zone (plan_inventory current) (snd ` set current) {} (snd ` set current) (plan_start (plan_inventory current))"
proof -
  note reads = read_inventory_reads [OF assms]
  have inj: "raw = raw'" if "(obs, raw) \<in> set current" "(obs', raw') \<in> set current" "rs_key (or_record_set obs) = rs_key (or_record_set obs')"
    for obs raw obs' raw' using read_inventory_key [OF assms that] by simp
  have wf: "wf_zone cx zone (snd ` set current)"
    using reads inj by (fastforce simp: wf_zone_def inj_on_def)
  have "map_of (map_values (\<lambda>e. or_record_set (fst e)) (plan_inventory current)) k = Some rs
      \<longleftrightarrow> rs \<in> zone_sets cx zone (snd ` set current) \<and> rs_key rs = k" for k rs
    using reads by (force simp: map_simps plan_inventory_lookup [OF assms] zone_sets_def)
  then have "represents_sets (map_values (\<lambda>e. or_record_set (fst e)) (plan_inventory current)) (zone_sets cx zone (snd ` set current))"
    by (simp add: represents_sets_def plan_inventory_def)
  moreover have "case map_of (plan_inventory current) k of Some (_, raw) \<Rightarrow> raw \<in> snd ` set current
      | None \<Rightarrow> \<forall>r \<in> snd ` set current. read_key cx zone r \<noteq> Some k" for k
  proof (cases "map_of (plan_inventory current) k")
    case None
    have "rs_key (or_record_set obs) \<noteq> k" if "(obs, raw) \<in> set current" for obs raw
      using plan_inventory_lookup [OF assms, of k obs raw] None that by simp
    with None reads show ?thesis by force
  next
    case (Some e)
    then obtain obs raw where "e = (obs, raw)" "(obs, raw) \<in> set current"
      using plan_inventory_lookup [OF assms, of k] by (cases e) auto
    with Some show ?thesis by force
  qed
  ultimately show ?thesis using wf by (simp add: plan_inv_def plan_start_def)
qed

lemma plan_guard_holds:
  assumes "read_inventory cx zone current" "plan_changes cx zone (plan_inventory current) cs ps = Inr ps'" "c \<in> set cs"
  shows "guard_holds (map fst current) c"
proof (cases c)
  case (CreateSet rs guard)
  with plan_changes_guards [OF assms(2,3)] have none: "map_of (plan_inventory current) (rs_key rs) = None" by simp
  have "rs_key (or_record_set obs) \<noteq> rs_key rs" if "(obs, raw) \<in> set current" for obs raw
    using plan_inventory_lookup [OF assms(1), of "rs_key rs" obs raw] none that by simp
  with CreateSet show ?thesis by force
next
  case (ReplaceSet previous desired guard)
  with plan_changes_guards [OF assms(2,3)] plan_inventory_lookup [OF assms(1)] show ?thesis by force
next
  case (DeleteSet previous guard)
  with plan_changes_guards [OF assms(2,3)] plan_inventory_lookup [OF assms(1)] show ?thesis by force
qed

text \<open>
  The batch carries its guards: on whatever zone it runs, the record sets it replaces or deletes are
  there as they were observed, and the identities it creates are free.
\<close>

fun guard_at :: "ProviderDnsRecordSet set \<Rightarrow> DnsRecordChange \<Rightarrow> bool" where
  "guard_at s (CreateSet rs _) \<longleftrightarrow> (\<forall>a \<in> s. rs_key a \<noteq> rs_key rs)"
| "guard_at s (ReplaceSet previous desired _) \<longleftrightarrow>
     or_record_set previous \<in> s \<and> rs_key (or_record_set previous) = rs_key desired"
| "guard_at s (DeleteSet previous _) \<longleftrightarrow> or_record_set previous \<in> s"

lemma guard_at_local:
  "guard_at s c \<Longrightarrow> (\<And>a. rs_key a = change_key c \<Longrightarrow> a \<in> t \<longleftrightarrow> a \<in> s) \<Longrightarrow> guard_at t c"
  by (cases c) auto

lemma apply_change_local:
  "guard_at s c \<Longrightarrow> rs_key a \<noteq> change_key c \<Longrightarrow> a \<in> apply_change c s \<longleftrightarrow> a \<in> s"
  by (cases c) auto

lemma run_create_fresh:
  assumes "run_change cx zone \<lparr>ch_action = ActCreate, ch_record_set = raw\<rparr> z = Some z'" "reads cx zone raw = Some d"
  shows "z' = insert raw z" "\<And>r. r \<in> z \<Longrightarrow> read_key cx zone r \<noteq> Some (rs_key d)"
  using assms by (auto simp: run_change_def split: if_splits)

lemma run_create_anywhere:
  assumes "run_change cx zone \<lparr>ch_action = ActCreate, ch_record_set = raw\<rparr> z = Some z'" "reads cx zone raw = Some d"
    and "wf_zone cx zone z"
  shows "wf_zone cx zone z' \<and> zone_sets cx zone z' = insert d (zone_sets cx zone z)
    \<and> (\<forall>a \<in> zone_sets cx zone z. rs_key a \<noteq> rs_key d)"
proof -
  note fresh = run_create_fresh [OF assms(1,2)]
  from zone_create [OF assms(3,2) fresh(2)] fresh(1) show ?thesis using zone_sets_key fresh(2) by metis
qed

lemma run_delete_anywhere:
  assumes "run_change cx zone \<lparr>ch_action = ActDelete, ch_record_set = raw\<rparr> z = Some z'" "reads cx zone raw = Some p"
    and "wf_zone cx zone z"
  shows "wf_zone cx zone z' \<and> zone_sets cx zone z' = zone_sets cx zone z - {p} \<and> p \<in> zone_sets cx zone z"
proof -
  have "raw \<in> z" "z' = z - {raw}" using assms(1) by (auto simp: run_change_def split: if_splits)
  then show ?thesis using zone_delete [OF assms(3) _ assms(2)] assms(2) by (auto simp: zone_sets_def)
qed

lemma plan_change_anywhere:
  assumes "plan_change cx zone current c ps = Inr ps'" "inventory_ok cx zone current"
  shows "\<exists>extra. ps_request ps' = ps_request ps @ extra \<and>
    (\<forall>z z'. wf_zone cx zone z \<and> run_batch cx zone extra z = Some z' \<longrightarrow>
       wf_zone cx zone z' \<and> zone_sets cx zone z' = apply_change c (zone_sets cx zone z) \<and> guard_at (zone_sets cx zone z) c)"
proof (cases c)
  case (CreateSet rs guard)
  with assms(1) obtain rendered where r: "render_record_set cx zone rs = Inr rendered"
    "ps_request ps' = ps_request ps @ [\<lparr>ch_action = ActCreate, ch_record_set = rendered\<rparr>]"
    by (cases "map_of current (rs_key rs)") (auto simp: Let_def and_then_eq_Inr split: if_splits)
  with CreateSet run_create_anywhere [OF _ render_reads [OF r(1)]] show ?thesis by (auto simp: bind_eq_Some_conv)
next
  case (ReplaceSet previous desired guard)
  with assms(1) obtain obs raw rendered where r: "map_of current (rs_key desired) = Some (obs, raw)"
    "same_route53_observation obs previous" "render_record_set cx zone desired = Inr rendered"
    "ps_request ps' = ps_request ps @ [\<lparr>ch_action = ActDelete, ch_record_set = raw\<rparr>, \<lparr>ch_action = ActCreate, ch_record_set = rendered\<rparr>]"
    by (auto simp: Let_def and_then_eq_Inr split: if_splits option.splits)
  have "or_record_set obs = or_record_set previous" using r(2) by (simp add: same_route53_observation_def)
  with assms(2) r(1) have p: "reads cx zone raw = Some (or_record_set previous)" "rs_key (or_record_set previous) = rs_key desired"
    unfolding inventory_ok_def by metis+
  have "wf_zone cx zone z' \<and> zone_sets cx zone z' = insert desired (zone_sets cx zone z - {or_record_set previous})
      \<and> or_record_set previous \<in> zone_sets cx zone z"
    if wf: "wf_zone cx zone z" and d: "run_change cx zone \<lparr>ch_action = ActDelete, ch_record_set = raw\<rparr> z = Some z1"
      and cr: "run_change cx zone \<lparr>ch_action = ActCreate, ch_record_set = rendered\<rparr> z1 = Some z'" for z z1 z'
    using run_delete_anywhere [OF d p(1) wf] run_create_anywhere [OF cr render_reads [OF r(3)]] by simp
  with ReplaceSet r(4) p(2) show ?thesis by (fastforce simp: bind_eq_Some_conv)
next
  case (DeleteSet previous guard)
  with assms(1) obtain obs raw where r: "map_of current (rs_key (or_record_set previous)) = Some (obs, raw)"
    "same_route53_observation obs previous"
    "ps_request ps' = ps_request ps @ [\<lparr>ch_action = ActDelete, ch_record_set = raw\<rparr>]"
    by (auto simp: Let_def split: if_splits option.splits)
  have "reads cx zone raw = Some (or_record_set previous)"
    using assms(2) r(1,2) by (auto simp: inventory_ok_def same_route53_observation_def)
  with DeleteSet r(3) run_delete_anywhere show ?thesis by (fastforce simp: bind_eq_Some_conv)
qed

lemma plan_changes_anywhere:
  assumes "plan_changes cx zone current cs ps = Inr ps'" "inventory_ok cx zone current" "distinct (map change_key cs)"
  shows "\<exists>extra. ps_request ps' = ps_request ps @ extra \<and>
    (\<forall>z z'. wf_zone cx zone z \<and> run_batch cx zone extra z = Some z' \<longrightarrow>
       wf_zone cx zone z' \<and> zone_sets cx zone z' = fold apply_change cs (zone_sets cx zone z)
       \<and> (\<forall>c \<in> set cs. guard_at (zone_sets cx zone z) c))"
  using assms
proof (induction cs arbitrary: ps)
  case (Cons c cs)
  then obtain ps1 where p: "plan_change cx zone current c ps = Inr ps1" "plan_changes cx zone current cs ps1 = Inr ps'"
    by (auto simp: and_then_eq_Inr)
  from plan_change_anywhere [OF p(1) Cons.prems(2)] obtain e1 where e1: "ps_request ps1 = ps_request ps @ e1"
    "\<And>z z'. wf_zone cx zone z \<Longrightarrow> run_batch cx zone e1 z = Some z' \<Longrightarrow>
       wf_zone cx zone z' \<and> zone_sets cx zone z' = apply_change c (zone_sets cx zone z) \<and> guard_at (zone_sets cx zone z) c"
    by blast
  from Cons.IH [OF p(2) Cons.prems(2)] Cons.prems(3) obtain e2 where e2: "ps_request ps' = ps_request ps1 @ e2"
    "\<And>z z'. wf_zone cx zone z \<Longrightarrow> run_batch cx zone e2 z = Some z' \<Longrightarrow>
       wf_zone cx zone z' \<and> zone_sets cx zone z' = fold apply_change cs (zone_sets cx zone z)
       \<and> (\<forall>c \<in> set cs. guard_at (zone_sets cx zone z) c)"
    by auto
  have "wf_zone cx zone z' \<and> zone_sets cx zone z' = fold apply_change (c # cs) (zone_sets cx zone z)
      \<and> (\<forall>d \<in> set (c # cs). guard_at (zone_sets cx zone z) d)"
    if wf: "wf_zone cx zone z" and run: "run_batch cx zone (e1 @ e2) z = Some z'" for z z'
  proof -
    from run obtain z1 where r: "run_batch cx zone e1 z = Some z1" "run_batch cx zone e2 z1 = Some z'"
      by (auto simp: run_batch_append bind_eq_Some_conv)
    note a = e1(2) [OF wf r(1)]
    then have b: "wf_zone cx zone z' \<and> zone_sets cx zone z' = fold apply_change cs (zone_sets cx zone z1)
        \<and> (\<forall>d \<in> set cs. guard_at (zone_sets cx zone z1) d)" using e2(2) r(2) by blast
    have "guard_at (zone_sets cx zone z) d" if "d \<in> set cs" for d
    proof (rule guard_at_local)
      show "guard_at (zone_sets cx zone z1) d" using b that by blast
      fix x :: ProviderDnsRecordSet assume "rs_key x = change_key d"
      then have "rs_key x \<noteq> change_key c" using Cons.prems(3) that by force
      with a show "x \<in> zone_sets cx zone z \<longleftrightarrow> x \<in> zone_sets cx zone z1" by (simp add: apply_change_local)
    qed
    with a b show ?thesis by simp
  qed
  moreover have "ps_request ps' = ps_request ps @ (e1 @ e2)" using e1(1) e2(1) by simp
  ultimately show ?case by blast
qed simp

lemma planned_batch_anywhere:
  assumes "validate_dns_changes zone changes = Inr ()" "plan_change_batch cx zone changes current = Inr request"
    and "read_inventory cx zone current" "wf_zone cx zone z" "run_batch cx zone request z = Some z'"
  shows "zone_sets cx zone z' = fold apply_change changes (zone_sets cx zone z)
    \<and> (\<forall>c \<in> set changes. guard_at (zone_sets cx zone z) c)"
proof -
  from assms(2) obtain ps where p: "plan_changes cx zone (plan_inventory current) changes (plan_start (plan_inventory current)) = Inr ps"
    "request = ps_request ps"
    by (auto simp: plan_change_batch_def and_then_eq_Inr split: if_splits)
  have "distinct (map change_key changes)" using assms(1) by (simp add: validate_dns_changes_iff batch_ok_def)
  from plan_changes_anywhere [OF p(1) plan_inventory_ok [OF assms(3)] this] p(2) assms(4,5) show ?thesis
    by (auto simp: plan_start_def)
qed

section \<open>Properties\<close>

text \<open>
  C15: The batch that is sent does what was asked. For an accepted list of changes and the inventory that
  was read, the planned batch runs on the zone (every deletion names a record set that is there,
  exactly, every creation a free identity) and leaves exactly the record sets the changes describe.
  Every guard held on the inventory, the owners and routing groups it touches are consistent
  afterwards, and the batch is within the provider's limits.
\<close>

theorem planned_batch_refines_changes:
  assumes "validate_dns_changes zone changes = Inr ()"
    and "plan_change_batch cx zone changes current = Inr request"
    and "read_inventory cx zone current"
  shows "\<exists>z. run_batch cx zone request (snd ` set current) = Some z
     \<and> zone_sets cx zone z = fold apply_change changes (zone_sets cx zone (snd ` set current))
     \<and> (\<forall>c \<in> set changes. guard_holds (map fst current) c \<and> zone_consistent (change_key c) (zone_sets cx zone z))
     \<and> 0 < length request \<and> length request \<le> 1000 \<and> sum_list (map element_cost request) \<le> 1000"
proof -
  from assms(2) obtain ps where p: "plan_changes cx zone (plan_inventory current) changes (plan_start (plan_inventory current)) = Inr ps"
    "validate_resultant_inventory (ps_resultant ps) (ps_owners ps) (ps_groups ps) = Inr ()"
    "ps_request ps \<noteq> []" "length (ps_request ps) \<le> 1000" "validate_change_request (ps_request ps) = Inr ()" "request = ps_request ps"
    by (auto simp: plan_change_batch_def and_then_eq_Inr MAX_PROVIDER_CHANGE_ACTIONS_def split: if_splits)
  have "distinct (map change_key changes)" using assms(1) by (simp add: validate_dns_changes_iff batch_ok_def)
  from plan_changes_run [OF p(1) plan_inv_start [OF assms(3)] plan_inventory_ok [OF assms(3)] this] obtain z where z:
    "plan_inv cx zone (plan_inventory current) (snd ` set current) (change_key ` set changes) z ps"
    "zone_sets cx zone z = fold apply_change changes (zone_sets cx zone (snd ` set current))" by auto
  have "zone_consistent (change_key c) (zone_sets cx zone z)" if "c \<in> set changes" for c
    using validate_resultant_ok [OF p(2), of "zone_sets cx zone z" "change_key ` set changes"] z(1) that by (simp add: plan_inv_def)
  moreover have "sum_list (map element_cost request) \<le> 1000"
    using p(5,6) by (auto simp: validate_change_request_def and_then_eq_Inr Let_def MAX_PROVIDER_RECORD_ELEMENTS_def split: if_splits)
  ultimately show ?thesis
    using z p(3,4,6) plan_guard_holds [OF assms(3) p(1)] by (auto simp: plan_inv_def)
qed

definition aws_observed :: ObservedDnsRecordSet where
  "aws_observed = \<lparr>or_zone = aws_zone, or_record_set = aws_txt, or_provider_object_ids = [], or_revision = ''sha256:d''\<rparr>"

lemma aws_delete_valid: "validate_dns_changes aws_zone [DeleteSet aws_observed (MatchObserved ''sha256:d'')] = Inr ()"
proof -
  have "validate_revision ''sha256:d'' = Inr ()" using aws_revision [of aws_txt]
    by (simp add: canonical_revision_def aws_codec_def Let_def and_then_eq_Inr)
  then have "validate_change aws_zone (DeleteSet aws_observed (MatchObserved ''sha256:d'')) = Inr ()"
    by (simp add: aws_observed_def validate_observed_record_set_def aws_txt_valid require_exact_guard_def)
  then have "change_admissible aws_zone (DeleteSet aws_observed (MatchObserved ''sha256:d''))"
    by (simp add: change_admissible_def aws_observed_def aws_txt_def)
  then show ?thesis
    by (simp add: validate_dns_changes_iff batch_ok_def aws_zone_valid List.map_filter_simps cname_exclusive_def routing_groups_ok_def)
qed

lemma aws_inventory: "read_inventory aws_codec aws_zone [(aws_observed, rendered_set aws_txt)]"
  using map_rendered_set [OF aws_txt_renderable aws_txt_valid aws_revision]
  by (simp add: read_inventory_def aws_observed_def)

lemma aws_plan:
  "plan_change_batch aws_codec aws_zone [DeleteSet aws_observed (MatchObserved ''sha256:d'')] [(aws_observed, rendered_set aws_txt)]
     = Inr [\<lparr>ch_action = ActDelete, ch_record_set = rendered_set aws_txt\<rparr>]"
proof -
  have "raw_resource_records (rendered_set aws_txt) = [render_value (VTxt [[CHR 0x00, CHR 0x22, CHR 0xFF]])]"
    "raw_alias_target (rendered_set aws_txt) = None"
    by (simp_all add: rendered_set_def Let_def aws_txt_def blank_record_def)
  moreover have "length (render_value (VTxt [[CHR 0x00, CHR 0x22, CHR 0xFF]])) = 12"
    by (simp add: render_character_string_def render_octet_def octal3_def byte_def)
  ultimately have "validate_change_request [\<lparr>ch_action = ActDelete, ch_record_set = rendered_set aws_txt\<rparr>] = Inr ()"
    by (simp add: validate_change_request_def MAX_PROVIDER_RECORD_VALUE_BYTES_def element_cost_def MAX_PROVIDER_RECORD_ELEMENTS_def
        del: render_value.simps)
  moreover have "plan_inventory [(aws_observed, rendered_set aws_txt)] = [(rs_key aws_txt, (aws_observed, rendered_set aws_txt))]"
    by (simp add: plan_inventory_def collect_map_def aws_observed_def)
  ultimately show ?thesis
    by (simp add: plan_change_batch_def Let_def plan_start_def aws_observed_def same_route53_observation_def affect_def map_values_def
        validate_resultant_inventory_def check_owner_def check_group_def btree_set_def MAX_PROVIDER_CHANGE_ACTIONS_def)
qed

theorem planned_batch_refines_changes_witness:
  "\<exists>z. run_batch aws_codec aws_zone [\<lparr>ch_action = ActDelete, ch_record_set = rendered_set aws_txt\<rparr>] {rendered_set aws_txt} = Some z
     \<and> zone_sets aws_codec aws_zone z = zone_sets aws_codec aws_zone {rendered_set aws_txt} - {aws_txt}"
  using planned_batch_refines_changes [OF aws_delete_valid aws_plan aws_inventory] by (auto simp: aws_observed_def)

end
