(* ===== verification/Route53_Adapter.thy ===== *)
theory Route53_Adapter
  imports Route53_Plan "HOL-Library.Multiset"
begin

text \<open>
  The Route 53 adapter, \<open>crates/center-adapter-route53/src/lib.rs\<close>: keys and constructors, the complete
  inventories read page by page, signed cursors and receipts, and guarded record changes;
  the hosted-zone lifecycle is in \<open>Route53_Lifecycle\<close>. The provider API is a record of operations over a world that the theorems leave open; a
  call returns its answer and the world after it. A loop over at most \<open>MAX_PROVIDER_PAGES\<close> pages counts
  down. HMAC, SHA-256, base64 and \<open>serde_json\<close> are arguments.
\<close>

section \<open>Calls\<close>

type_synonym ('w, 'a) io = "'w \<Rightarrow> 'a ProviderResult \<times> 'w"

definition io_then :: "('w, 'a) io \<Rightarrow> ('a \<Rightarrow> ('w, 'b) io) \<Rightarrow> ('w, 'b) io" where
  "io_then m f w = (case m w of (Inl e, w') \<Rightarrow> (Inl e, w') | (Inr x, w') \<Rightarrow> f x w')"

definition io_lift :: "'a ProviderResult \<Rightarrow> ('w, 'a) io" where
  "io_lift r w = (r, w)"

record Route53HostedZone =
  hz_id :: string
  hz_name :: string
  hz_private_zone :: bool
  hz_caller_reference :: string
  hz_resource_record_set_count :: u64
  hz_name_servers :: "string list"
  hz_has_linked_service :: bool
  hz_has_unsupported_features :: bool

record Route53CreateHostedZoneRequest =
  cr_name :: string
  cr_caller_reference :: string

record Route53ChangeInfo =
  ci_id :: string
  ci_status :: string
  ci_submitted_at :: int
  ci_comment :: "string option"

record Route53CreateHostedZoneResult =
  cz_hosted_zone :: Route53HostedZone
  cz_change :: Route53ChangeInfo

record Route53KeySigningKey =
  ksk_status :: string
  ksk_ds_record :: "string option"

record Route53DnssecInfo =
  di_serve_signature :: string
  di_key_signing_keys :: "Route53KeySigningKey list"

record Route53HostedZonePage =
  zp_items :: "Route53HostedZone list"
  zp_is_truncated :: bool
  zp_next_marker :: "string option"

record Route53RecordCursor =
  cur_name :: string
  cur_record_type :: string
  cur_set_identifier :: "string option"

record Route53RecordPage =
  rp_items :: "Route53RecordSet list"
  rp_is_truncated :: bool
  rp_next :: "Route53RecordCursor option"

record 'w Route53Api =
  verified_account_id :: string
  create_hosted_zone :: "Route53CreateHostedZoneRequest \<Rightarrow> ('w, Route53CreateHostedZoneResult) io"
  get_hosted_zone :: "string \<Rightarrow> ('w, Route53HostedZone option) io"
  list_hosted_zones :: "string option \<Rightarrow> nat \<Rightarrow> ('w, Route53HostedZonePage) io"
  list_record_sets :: "string \<Rightarrow> Route53RecordCursor option \<Rightarrow> nat \<Rightarrow> ('w, Route53RecordPage) io"
  change_record_sets :: "string \<Rightarrow> Route53ChangeBatch \<Rightarrow> ('w, Route53ChangeInfo) io"
  get_change :: "string \<Rightarrow> ('w, Route53ChangeInfo option) io"
  delete_hosted_zone :: "string \<Rightarrow> ('w, Route53ChangeInfo) io"
  get_dnssec :: "string \<Rightarrow> ('w, Route53DnssecInfo) io"
  enable_hosted_zone_dnssec :: "string \<Rightarrow> ('w, Route53ChangeInfo) io"
  disable_hosted_zone_dnssec :: "string \<Rightarrow> ('w, Route53ChangeInfo) io"

section \<open>Tokens\<close>

datatype CursorMethod = MZones | MRecords string

record CursorScope =
  cs_center_account_id :: string
  cs_aws_account_id :: string
  cs_method :: CursorMethod

record CursorToken =
  ct_version :: "8 word"
  ct_scope :: CursorScope
  ct_offset :: nat
  ct_inventory_digest :: string

record ChangeToken =
  gt_version :: "8 word"
  gt_center_scope :: string
  gt_external_scope :: string
  gt_zone_scope :: string
  gt_provider_change_id :: string
  gt_request_digest :: string
  gt_submitted_at :: int
  gt_guard :: DnsGuardStrength

datatype LifecycleOperation = OpCreate | OpDelete | OpEnableDnssec

record LifecycleMutationToken =
  lt_version :: "8 word"
  lt_center_scope :: string
  lt_account_scope :: string
  lt_zone_scope :: "string option"
  lt_provider_change_id :: "string option"
  lt_submitted_at :: int
  lt_operation :: LifecycleOperation

datatype TokenDomain = InventoryCursor | MutationReceipt | LifecycleToken

fun separator :: "TokenDomain \<Rightarrow> string" where
  "separator InventoryCursor = ''edgion-center/route53/inventory-cursor/v1'' @ [CHR 0x00]"
| "separator MutationReceipt = ''edgion-center/route53/mutation-receipt/v1'' @ [CHR 0x00]"
| "separator LifecycleToken = ''edgion-center/route53/lifecycle-token/v1'' @ [CHR 0x00]"

text \<open>
  What the adapter uses of the libraries: JSON encodings with their decoders, base64url and
  HMAC-SHA-256 of a key and a message. \<open>cx_digest\<close> of the codec is base64url of SHA-256.
\<close>

record route53_crypto =
  cr_codec :: route53_codec
  cr_b64 :: "string \<Rightarrow> string"
  cr_unb64 :: "string \<Rightarrow> string option"
  cr_hmac :: "string \<Rightarrow> string \<Rightarrow> string"
  cr_cursor_json :: "CursorToken \<Rightarrow> string option"
  cr_cursor_unjson :: "string \<Rightarrow> CursorToken option"
  cr_change_json :: "ChangeToken \<Rightarrow> string option"
  cr_change_unjson :: "string \<Rightarrow> ChangeToken option"
  cr_lifecycle_json :: "LifecycleMutationToken \<Rightarrow> string option"
  cr_lifecycle_unjson :: "string \<Rightarrow> LifecycleMutationToken option"
  cr_zones_json :: "ObservedDnsZone list \<Rightarrow> string option"
  cr_records_json :: "ObservedDnsRecordSet list \<Rightarrow> string option"
  cr_changes_json :: "Route53RecordChange list \<Rightarrow> string option"
  cr_lifecycle_state_json :: "Route53HostedZone \<times> Route53DnssecInfo option \<Rightarrow> string option"

definition scope_hash :: "route53_crypto \<Rightarrow> string \<Rightarrow> string" where
  "scope_hash cr v = cx_digest (cr_codec cr) v"

definition sign_token :: "route53_crypto \<Rightarrow> string option \<Rightarrow> string \<Rightarrow> TokenDomain \<Rightarrow> string ProviderResult" where
  "sign_token cr json key domain =
     and_then (ok_or (validation ''route53_token_encoding_failed'') json) (\<lambda>encoded.
       Inr (cr_b64 cr (encoded @ cr_hmac cr key (separator domain @ encoded))))"

definition verify_token ::
  "route53_crypto \<Rightarrow> (string \<Rightarrow> 't option) \<Rightarrow> string \<Rightarrow> string \<Rightarrow> TokenDomain \<Rightarrow> 't ProviderResult" where
  "verify_token cr unjson v key domain =
     and_then (ok_or (validation ''invalid_route53_token'') (cr_unb64 cr v)) (\<lambda>authenticated.
       if length authenticated \<le> 32 then Inl (validation ''invalid_route53_token'')
       else
         let encoded = take (length authenticated - 32) authenticated;
             signature = drop (length authenticated - 32) authenticated
         in if signature \<noteq> cr_hmac cr key (separator domain @ encoded) then Inl (validation ''invalid_route53_token'')
            else ok_or (validation ''invalid_route53_token'') (unjson encoded))"

section \<open>Keys and constructors\<close>

definition key_new :: "string \<Rightarrow> string \<Rightarrow> string ProviderResult" where
  "key_new code v = (if list_all (\<lambda>c. c = CHR 0x00) v then Inl (validation code) else Inr v)"

definition cursor_key_new :: "string \<Rightarrow> string ProviderResult" where
  "cursor_key_new v = key_new ''weak_route53_cursor_key'' v"

definition mutation_receipt_key_new :: "string \<Rightarrow> string ProviderResult" where
  "mutation_receipt_key_new v = key_new ''weak_route53_mutation_receipt_key'' v"

definition lifecycle_token_key_new :: "string \<Rightarrow> string ProviderResult" where
  "lifecycle_token_key_new v = key_new ''weak_route53_lifecycle_token_key'' v"

text \<open>The checks that the verifier and the adapter make of the account; they return the AWS account.\<close>

definition aws_account :: "string \<Rightarrow> ProviderAccountSpec \<Rightarrow> string ProviderResult" where
  "aws_account center_account_id account =
     and_then (map_err (validation ''invalid_center_account_id'') (validate_resource_id center_account_id)) (\<lambda>_.
     and_then (map_err (validation ''invalid_provider_account'') (validate_account_spec account)) (\<lambda>_.
       if spec_provider account \<noteq> Aws then Inl (validation ''route53_provider_required'')
       else case spec_scope account of
         None \<Rightarrow> Inl (validation ''route53_account_scope_required'')
       | Some (AwsScope account_id) \<Rightarrow> Inr account_id
       | Some _ \<Rightarrow> Inl (validation ''route53_account_scope_mismatch'')))"

record Route53MutationReceiptVerifier =
  rv_center_account_id :: string
  rv_aws_account_id :: string
  rv_key :: string

definition verifier_new :: "string \<Rightarrow> ProviderAccountSpec \<Rightarrow> string \<Rightarrow> Route53MutationReceiptVerifier ProviderResult" where
  "verifier_new center_account_id account key =
     and_then (aws_account center_account_id account) (\<lambda>account_id.
       Inr \<lparr>rv_center_account_id = center_account_id, rv_aws_account_id = account_id, rv_key = key\<rparr>)"

definition verifier_matches :: "Route53MutationReceiptVerifier \<Rightarrow> string \<Rightarrow> ProviderAccountSpec \<Rightarrow> bool" where
  "verifier_matches v center_account_id account \<longleftrightarrow>
     spec_provider account = Aws \<and> rv_center_account_id v = center_account_id
     \<and> (case spec_scope account of Some (AwsScope account_id) \<Rightarrow> account_id = rv_aws_account_id v | _ \<Rightarrow> False)"

record 'w Route53DnsAdapter =
  ad_center_account_id :: string
  ad_aws_account_id :: string
  ad_api :: "'w Route53Api"
  ad_cursor_key :: string
  ad_mutation_receipt_verifier :: "Route53MutationReceiptVerifier option"
  ad_lifecycle_token_key :: "string option"

definition new_inner ::
  "string \<Rightarrow> ProviderAccountSpec \<Rightarrow> 'w Route53Api \<Rightarrow> string \<Rightarrow> Route53MutationReceiptVerifier option \<Rightarrow> string option
     \<Rightarrow> 'w Route53DnsAdapter ProviderResult" where
  "new_inner center_account_id account api cursor_key verifier lifecycle_key =
     and_then (aws_account center_account_id account) (\<lambda>account_id.
       if verified_account_id api \<noteq> account_id then Inl (validation ''route53_verified_account_mismatch'')
       else Inr \<lparr>ad_center_account_id = center_account_id, ad_aws_account_id = account_id, ad_api = api,
                 ad_cursor_key = cursor_key, ad_mutation_receipt_verifier = verifier,
                 ad_lifecycle_token_key = lifecycle_key\<rparr>)"

definition adapter_new ::
  "string \<Rightarrow> ProviderAccountSpec \<Rightarrow> 'w Route53Api \<Rightarrow> string \<Rightarrow> 'w Route53DnsAdapter ProviderResult" where
  "adapter_new center_account_id account api cursor_key = new_inner center_account_id account api cursor_key None None"

definition new_with_record_write_verifier ::
  "string \<Rightarrow> ProviderAccountSpec \<Rightarrow> 'w Route53Api \<Rightarrow> string \<Rightarrow> Route53MutationReceiptVerifier
     \<Rightarrow> 'w Route53DnsAdapter ProviderResult" where
  "new_with_record_write_verifier center_account_id account api cursor_key verifier =
     (if cursor_key = rv_key verifier then Inl (validation ''route53_signing_key_reuse'')
      else if \<not> verifier_matches verifier center_account_id account then
        Inl (validation ''route53_mutation_receipt_scope_mismatch'')
      else new_inner center_account_id account api cursor_key (Some verifier) None)"

definition new_with_record_write_key ::
  "string \<Rightarrow> ProviderAccountSpec \<Rightarrow> 'w Route53Api \<Rightarrow> string \<Rightarrow> string \<Rightarrow> 'w Route53DnsAdapter ProviderResult" where
  "new_with_record_write_key center_account_id account api cursor_key receipt_key =
     (if cursor_key = receipt_key then Inl (validation ''route53_signing_key_reuse'')
      else and_then (verifier_new center_account_id account receipt_key)
             (new_with_record_write_verifier center_account_id account api cursor_key))"

definition new_with_lifecycle_key ::
  "string \<Rightarrow> ProviderAccountSpec \<Rightarrow> 'w Route53Api \<Rightarrow> string \<Rightarrow> string \<Rightarrow> 'w Route53DnsAdapter ProviderResult" where
  "new_with_lifecycle_key center_account_id account api cursor_key lifecycle_key =
     (if cursor_key = lifecycle_key then Inl (validation ''route53_signing_key_reuse'')
      else new_inner center_account_id account api cursor_key None (Some lifecycle_key))"

definition new_with_write_keys ::
  "string \<Rightarrow> ProviderAccountSpec \<Rightarrow> 'w Route53Api \<Rightarrow> string \<Rightarrow> string \<Rightarrow> string \<Rightarrow> 'w Route53DnsAdapter ProviderResult" where
  "new_with_write_keys center_account_id account api cursor_key receipt_key lifecycle_key =
     (if cursor_key = receipt_key \<or> cursor_key = lifecycle_key \<or> receipt_key = lifecycle_key then
        Inl (validation ''route53_signing_key_reuse'')
      else and_then (verifier_new center_account_id account receipt_key) (\<lambda>verifier.
             new_inner center_account_id account api cursor_key (Some verifier) (Some lifecycle_key)))"

definition mutation_receipt_verifier :: "'w Route53DnsAdapter \<Rightarrow> Route53MutationReceiptVerifier ProviderResult" where
  "mutation_receipt_verifier ad =
     ok_or (validation ''route53_mutation_authority_unavailable'') (ad_mutation_receipt_verifier ad)"

definition lifecycle_token_key :: "'w Route53DnsAdapter \<Rightarrow> string ProviderResult" where
  "lifecycle_token_key ad = ok_or (validation ''route53_mutation_authority_unavailable'') (ad_lifecycle_token_key ad)"

section \<open>Inventories\<close>

definition HOSTED_ZONE_PAGE_SIZE :: nat where "HOSTED_ZONE_PAGE_SIZE = 100"
definition RECORD_PAGE_SIZE :: nat where "RECORD_PAGE_SIZE = 300"
definition MAX_PROVIDER_PAGES :: nat where "MAX_PROVIDER_PAGES = 10000"
definition MAX_INVENTORY_ZONES :: nat where "MAX_INVENTORY_ZONES = 10000"
definition MAX_INVENTORY_RECORDS :: nat where "MAX_INVENTORY_RECORDS = 100000"

definition is_route53_record_type :: "string \<Rightarrow> bool" where
  "is_route53_record_type v \<longleftrightarrow>
     v \<in> {''SOA'', ''A'', ''TXT'', ''NS'', ''CNAME'', ''MX'', ''NAPTR'', ''PTR'', ''SRV'', ''SPF'', ''AAAA'', ''CAA'',
          ''DS'', ''TLSA'', ''SSHFP'', ''SVCB'', ''HTTPS''}"

definition validate_zone_page :: "Route53HostedZonePage \<Rightarrow> unit ProviderResult" where
  "validate_zone_page page =
     (if HOSTED_ZONE_PAGE_SIZE < length (zp_items page)
         \<or> zp_is_truncated page \<noteq> (zp_next_marker page \<noteq> None)
         \<or> (zp_is_truncated page \<and> zp_items page = [])
         \<or> (case zp_next_marker page of
              None \<Rightarrow> False
            | Some marker \<Rightarrow> marker = [] \<or> 64 < length marker \<or> has_control marker)
      then Inl (validation ''invalid_route53_zone_page'') else Inr ())"

definition validate_record_page :: "Route53RecordPage \<Rightarrow> unit ProviderResult" where
  "validate_record_page page =
     (if RECORD_PAGE_SIZE < length (rp_items page)
         \<or> rp_is_truncated page \<noteq> (rp_next page \<noteq> None)
         \<or> (rp_is_truncated page \<and> rp_items page = [])
         \<or> (case rp_next page of
              None \<Rightarrow> False
            | Some next \<Rightarrow>
                cur_name next = [] \<or> 1024 < length (cur_name next)
                \<or> \<not> is_ok (decode_domain_presentation (cur_name next))
                \<or> cur_record_type next = [] \<or> \<not> is_route53_record_type (cur_record_type next)
                \<or> has_control (cur_name next) \<or> has_control (cur_record_type next)
                \<or> (case cur_set_identifier next of
                     None \<Rightarrow> False
                   | Some sid \<Rightarrow> sid = [] \<or> 128 < length sid \<or> has_control sid))
      then Inl (validation ''invalid_route53_record_page'') else Inr ())"

definition map_zone :: "route53_crypto \<Rightarrow> 'w Route53DnsAdapter \<Rightarrow> Route53HostedZone \<Rightarrow> ObservedDnsZone ProviderResult" where
  "map_zone cr ad zone =
     (if hz_private_zone zone then Inl (validation ''route53_private_zone_unsupported'')
      else if hz_has_linked_service zone then Inl (validation ''route53_linked_service_zone_unsupported'')
      else if hz_has_unsupported_features zone then Inl (validation ''route53_zone_features_unsupported'')
      else
        and_then (normalize_zone_id (hz_id zone)) (\<lambda>zid.
        and_then (map_err (validation ''invalid_route53_zone_id'') (validate_zone_id zid)) (\<lambda>_.
        and_then (decode_domain_presentation (hz_name zone)) (\<lambda>decoded.
        and_then (map_err (validation ''invalid_route53_zone_name'')
                    (absolute_dns_name_new (cx_idna (cr_codec cr)) decoded)) (\<lambda>apex.
          Inr \<lparr>oz_zone = \<lparr>zone_account_id = ad_center_account_id ad, zone_provider = Aws, zone_id = zid,
                         zone_apex = apex, zone_visibility = Public\<rparr>,
               oz_revision = None\<rparr>)))))"

definition adapter_zone_ref :: "'w Route53DnsAdapter \<Rightarrow> DnsZoneRef \<Rightarrow> unit ProviderResult" where
  "adapter_zone_ref ad zone =
     and_then (map_err (validation ''invalid_zone'') (validate_zone_ref zone)) (\<lambda>_.
       if zone_provider zone \<noteq> Aws \<or> zone_account_id zone \<noteq> ad_center_account_id ad \<or> zone_visibility zone \<noteq> Public
       then Inl (validation ''route53_zone_scope_mismatch'')
       else and_then (normalize_zone_id (zone_id zone)) (\<lambda>zid.
         if zid \<noteq> zone_id zone then Inl (validation ''route53_zone_scope_mismatch'') else Inr ()))"

text \<open>The items of one page of zones: private ones are skipped, the rest mapped, distinct and bounded.\<close>

fun collect_zones ::
  "route53_crypto \<Rightarrow> 'w Route53DnsAdapter \<Rightarrow> Route53HostedZone list \<Rightarrow> ObservedDnsZone list \<Rightarrow> string list
     \<Rightarrow> (ObservedDnsZone list \<times> string list) ProviderResult" where
  "collect_zones cr ad [] zones seen = Inr (zones, seen)"
| "collect_zones cr ad (z # zs) zones seen =
     (if hz_private_zone z then collect_zones cr ad zs zones seen
      else and_then (map_zone cr ad z) (\<lambda>mapped.
        if zone_id (oz_zone mapped) \<in> set seen then Inl (validation ''duplicate_route53_zone_id'')
        else if MAX_INVENTORY_ZONES < length (zones @ [mapped]) then Inl (validation ''route53_zone_inventory_limit'')
        else collect_zones cr ad zs (zones @ [mapped]) (zone_id (oz_zone mapped) # seen)))"

fun zone_pages ::
  "route53_crypto \<Rightarrow> 'w Route53DnsAdapter \<Rightarrow> nat \<Rightarrow> ObservedDnsZone list \<Rightarrow> string option \<Rightarrow> string list \<Rightarrow> string list
     \<Rightarrow> ('w, ObservedDnsZone list) io" where
  "zone_pages cr ad 0 zones marker markers seen = io_lift (Inl (validation ''route53_zone_pagination_limit''))"
| "zone_pages cr ad (Suc n) zones marker markers seen =
     io_then (list_hosted_zones (ad_api ad) marker HOSTED_ZONE_PAGE_SIZE) (\<lambda>page.
     io_then (io_lift (validate_zone_page page)) (\<lambda>_.
     io_then (io_lift (collect_zones cr ad (zp_items page) zones seen)) (\<lambda>(zones', seen').
       case zp_next_marker page of
         None \<Rightarrow> io_lift (Inr (sort_key (\<lambda>z. zone_id (oz_zone z)) zones'))
       | Some next \<Rightarrow>
           if marker = Some next \<or> next \<in> set markers then io_lift (Inl (validation ''route53_zone_pagination_loop''))
           else zone_pages cr ad n zones' (Some next) (next # markers) seen')))"

definition all_zones :: "route53_crypto \<Rightarrow> 'w Route53DnsAdapter \<Rightarrow> ('w, ObservedDnsZone list) io" where
  "all_zones cr ad = zone_pages cr ad MAX_PROVIDER_PAGES [] None [] []"

type_synonym raw_inventory = "(ObservedDnsRecordSet \<times> Route53RecordSet) list"

fun collect_records ::
  "route53_crypto \<Rightarrow> DnsZoneRef \<Rightarrow> Route53RecordSet list \<Rightarrow> raw_inventory \<Rightarrow> DnsRecordSetKey list
     \<Rightarrow> (raw_inventory \<times> DnsRecordSetKey list) ProviderResult" where
  "collect_records cr zone [] records seen = Inr (records, seen)"
| "collect_records cr zone (r # rs) records seen =
     and_then (map_record_set (cr_codec cr) zone r) (\<lambda>(record_set, revision).
       if rs_key record_set \<in> set seen then Inl (validation ''duplicate_route53_record_identity'')
       else
         let records' = records @ [(\<lparr>or_zone = zone, or_record_set = record_set, or_provider_object_ids = [],
                                     or_revision = revision\<rparr>, r)]
         in if MAX_INVENTORY_RECORDS < length records' then Inl (validation ''route53_record_inventory_limit'')
            else collect_records cr zone rs records' (rs_key record_set # seen))"

fun record_pages ::
  "route53_crypto \<Rightarrow> 'w Route53DnsAdapter \<Rightarrow> DnsZoneRef \<Rightarrow> nat \<Rightarrow> raw_inventory \<Rightarrow> Route53RecordCursor option
     \<Rightarrow> Route53RecordCursor list \<Rightarrow> DnsRecordSetKey list \<Rightarrow> ('w, raw_inventory) io" where
  "record_pages cr ad zone 0 records cursor cursors seen = io_lift (Inl (validation ''route53_record_pagination_limit''))"
| "record_pages cr ad zone (Suc n) records cursor cursors seen =
     io_then (list_record_sets (ad_api ad) (zone_id zone) cursor RECORD_PAGE_SIZE) (\<lambda>page.
     io_then (io_lift (validate_record_page page)) (\<lambda>_.
     io_then (io_lift (collect_records cr zone (rp_items page) records seen)) (\<lambda>(records', seen').
       case rp_next page of
         None \<Rightarrow> io_lift (Inr (sort_key (\<lambda>e. key_rank (rs_key (or_record_set (fst e)))) records'))
       | Some next \<Rightarrow>
           if cursor = Some next \<or> next \<in> set cursors then io_lift (Inl (validation ''route53_record_pagination_loop''))
           else record_pages cr ad zone n records' (Some next) (next # cursors) seen')))"

definition all_records_with_raw :: "route53_crypto \<Rightarrow> 'w Route53DnsAdapter \<Rightarrow> DnsZoneRef \<Rightarrow> ('w, raw_inventory) io" where
  "all_records_with_raw cr ad zone =
     io_then (io_lift (adapter_zone_ref ad zone)) (\<lambda>_.
     io_then (get_hosted_zone (ad_api ad) (zone_id zone)) (\<lambda>found.
     io_then (io_lift (ok_or (not_found ''route53_zone_not_found'') found)) (\<lambda>provider_zone.
     io_then (io_lift (map_zone cr ad provider_zone)) (\<lambda>mapped.
       if oz_zone mapped \<noteq> zone then io_lift (Inl (validation ''route53_zone_identity_mismatch''))
       else record_pages cr ad zone MAX_PROVIDER_PAGES [] None [] []))))"

definition all_records :: "route53_crypto \<Rightarrow> 'w Route53DnsAdapter \<Rightarrow> DnsZoneRef \<Rightarrow> ('w, ObservedDnsRecordSet list) io" where
  "all_records cr ad zone = io_then (all_records_with_raw cr ad zone) (\<lambda>rs. io_lift (Inr (map fst rs)))"

definition observe_zone_by_id :: "route53_crypto \<Rightarrow> 'w Route53DnsAdapter \<Rightarrow> string \<Rightarrow> string \<Rightarrow> ('w, ObservedDnsZone option) io" where
  "observe_zone_by_id cr ad account_id zid =
     io_then (io_lift (map_err (validation ''invalid_account'') (validate_resource_id account_id))) (\<lambda>_.
     io_then (io_lift (map_err (validation ''invalid_route53_zone_id'') (validate_zone_id zid))) (\<lambda>_.
       if account_id \<noteq> ad_center_account_id ad then io_lift (Inl (validation ''route53_zone_scope_mismatch''))
       else io_then (io_lift (normalize_zone_id zid)) (\<lambda>normalized.
         if normalized \<noteq> zid then io_lift (Inl (validation ''route53_zone_scope_mismatch''))
         else io_then (get_hosted_zone (ad_api ad) zid) (\<lambda>found.
           case found of
             None \<Rightarrow> io_lift (Inr None)
           | Some raw_zone \<Rightarrow>
               io_then (io_lift (map_zone cr ad raw_zone)) (\<lambda>observed.
                 if zone_account_id (oz_zone observed) \<noteq> account_id \<or> zone_id (oz_zone observed) \<noteq> zid
                 then io_lift (Inl (validation ''route53_zone_identity_mismatch''))
                 else io_lift (Inr (Some observed)))))))"

section \<open>Pages\<close>

definition cursor_scope :: "'w Route53DnsAdapter \<Rightarrow> CursorMethod \<Rightarrow> CursorScope" where
  "cursor_scope ad m =
     \<lparr>cs_center_account_id = ad_center_account_id ad, cs_aws_account_id = ad_aws_account_id ad, cs_method = m\<rparr>"

definition canonical_inventory_digest :: "route53_crypto \<Rightarrow> ('a list \<Rightarrow> string option) \<Rightarrow> 'a list \<Rightarrow> string ProviderResult" where
  "canonical_inventory_digest cr json items =
     and_then (ok_or (validation ''route53_inventory_encoding_failed'') (json items)) (\<lambda>canonical.
       Inr (cx_digest (cr_codec cr) canonical))"

definition page_offset ::
  "route53_crypto \<Rightarrow> 'a list \<Rightarrow> string option \<Rightarrow> CursorScope \<Rightarrow> string \<Rightarrow> string \<Rightarrow> nat ProviderResult" where
  "page_offset cr items token scope key inventory_digest =
     (case token of
        None \<Rightarrow> Inr 0
      | Some t \<Rightarrow>
          and_then (map_err (validation ''invalid_route53_page_token'')
                      (verify_token cr (cr_cursor_unjson cr) t key InventoryCursor)) (\<lambda>decoded.
            if ct_version decoded \<noteq> 1 \<or> ct_scope decoded \<noteq> scope \<or> length items \<le> ct_offset decoded then
              Inl (validation ''invalid_route53_page_token'')
            else if ct_inventory_digest decoded \<noteq> inventory_digest then Inl (validation ''route53_inventory_changed'')
            else Inr (ct_offset decoded)))"

definition paginate ::
  "route53_crypto \<Rightarrow> ('a list \<Rightarrow> string option) \<Rightarrow> 'a list \<Rightarrow> DnsPageRequest \<Rightarrow> CursorScope \<Rightarrow> string \<Rightarrow> 'a DnsPage ProviderResult" where
  "paginate cr json items page scope key =
     and_then (canonical_inventory_digest cr json items) (\<lambda>inventory_digest.
     and_then (page_offset cr items (page_token page) scope key inventory_digest) (\<lambda>offset.
       let end = min (offset + unat (page_limit page)) (length items)
       in and_then
            (if end < length items then
               and_then (sign_token cr (cr_cursor_json cr
                   \<lparr>ct_version = 1, ct_scope = scope, ct_offset = end, ct_inventory_digest = inventory_digest\<rparr>)
                   key InventoryCursor) (\<lambda>t.
               and_then (map_err (validation ''route53_page_token_encoding_failed'') (validate_page_token t)) (\<lambda>_.
                 Inr (Some t)))
             else Inr None) (\<lambda>next.
          let result = \<lparr>page_items = take (end - offset) (drop offset items), page_next = next\<rparr>
          in and_then (map_err (validation ''invalid_route53_page'') (validate_page result (page_limit page) (\<lambda>_. Inr ()))) (\<lambda>_.
               Inr result))))"

section \<open>Receipts\<close>

definition normalize_change_id :: "string \<Rightarrow> string ProviderResult" where
  "normalize_change_id v =
     (let normalized = (case strip_prefix ''/change/'' v of Some x \<Rightarrow> x | None \<Rightarrow> v)
      in if length normalized < 2 \<or> 64 < length normalized \<or> \<not> starts_with ''C'' normalized
            \<or> \<not> list_all (\<lambda>c. is_ascii_uppercase c \<or> is_ascii_digit c) normalized \<or> CHR ''/'' \<in> set normalized
         then Inl (validation ''invalid_route53_change_id'') else Inr normalized)"

definition change_comment :: "string \<Rightarrow> string" where
  "change_comment request_digest = ''edgion:'' @ request_digest"

definition change_receipt :: "string \<Rightarrow> string \<Rightarrow> DnsGuardStrength \<Rightarrow> DnsChangeReceipt ProviderResult" where
  "change_receipt rid status guard_strength =
     and_then
       (if status = ''PENDING'' then Inr (ChangePending, PropagationPending)
        else if status = ''INSYNC'' then Inr (ProviderCommitted, ProviderReportedApplied)
        else Inl (validation ''unsupported_route53_change_status'')) (\<lambda>(state, propagation).
       let receipt = \<lparr>rc_id = rid, rc_state = state, rc_submission_atomicity = AllOrNothing,
                      rc_propagation = propagation, rc_guard_strength = guard_strength\<rparr>
       in and_then (map_err (validation ''invalid_route53_change_receipt'') (validate_receipt receipt)) (\<lambda>_. Inr receipt))"

definition decode_scope ::
  "route53_crypto \<Rightarrow> Route53MutationReceiptVerifier \<Rightarrow> string \<Rightarrow> string \<Rightarrow> string \<Rightarrow> ChangeToken ProviderResult" where
  "decode_scope cr v account_id zid change_id =
     (let missing = not_found ''route53_change_not_found''
      in and_then (map_err missing (validate_resource_id account_id)) (\<lambda>_.
         and_then (map_err missing (validate_zone_id zid)) (\<lambda>_.
         and_then (map_err missing (validate_change_id change_id)) (\<lambda>_.
         and_then (map_err missing (verify_token cr (cr_change_unjson cr) change_id (rv_key v) MutationReceipt)) (\<lambda>token.
           if gt_version token \<noteq> 1 \<or> account_id \<noteq> rv_center_account_id v
              \<or> normalize_zone_id zid \<noteq> Inr zid
              \<or> gt_center_scope token \<noteq> scope_hash cr account_id
              \<or> gt_external_scope token \<noteq> scope_hash cr (rv_aws_account_id v)
              \<or> gt_zone_scope token \<noteq> scope_hash cr zid
              \<or> gt_guard token \<noteq> Atomic
              \<or> normalize_change_id (gt_provider_change_id token) \<noteq> Inr (gt_provider_change_id token)
           then Inl missing else Inr token)))))"

definition validate_scope ::
  "route53_crypto \<Rightarrow> Route53MutationReceiptVerifier \<Rightarrow> string \<Rightarrow> string \<Rightarrow> string \<Rightarrow> unit ProviderResult" where
  "validate_scope cr v account_id zid change_id = and_then (decode_scope cr v account_id zid change_id) (\<lambda>_. Inr ())"

definition validate_change_receipt_scope ::
  "route53_crypto \<Rightarrow> 'w Route53DnsAdapter \<Rightarrow> string \<Rightarrow> string \<Rightarrow> string \<Rightarrow> unit ProviderResult" where
  "validate_change_receipt_scope cr ad account_id zid change_id =
     and_then (mutation_receipt_verifier ad) (\<lambda>v. validate_scope cr v account_id zid change_id)"

definition change_token ::
  "route53_crypto \<Rightarrow> 'w Route53DnsAdapter \<Rightarrow> DnsZoneRef \<Rightarrow> string \<Rightarrow> string \<Rightarrow> int \<Rightarrow> ChangeToken" where
  "change_token cr ad zone provider_change_id request_digest submitted_at =
     \<lparr>gt_version = 1, gt_center_scope = scope_hash cr (ad_center_account_id ad),
      gt_external_scope = scope_hash cr (ad_aws_account_id ad), gt_zone_scope = scope_hash cr (zone_id zone),
      gt_provider_change_id = provider_change_id, gt_request_digest = request_digest,
      gt_submitted_at = submitted_at, gt_guard = Atomic\<rparr>"

definition build_change_receipt ::
  "route53_crypto \<Rightarrow> 'w Route53DnsAdapter \<Rightarrow> DnsZoneRef \<Rightarrow> string \<Rightarrow> string \<Rightarrow> int \<Rightarrow> string \<Rightarrow> DnsChangeReceipt ProviderResult" where
  "build_change_receipt cr ad zone provider_change_id request_digest submitted_at status =
     and_then (mutation_receipt_verifier ad) (\<lambda>v.
     and_then (sign_token cr (cr_change_json cr (change_token cr ad zone provider_change_id request_digest submitted_at))
                 (rv_key v) MutationReceipt) (\<lambda>rid.
     and_then (map_err (unknown_outcome ''route53_receipt_encoding_failed'') (validate_change_id rid)) (\<lambda>_.
       map_err (unknown_outcome ''invalid_route53_change_status'') (change_receipt rid status Atomic))))"

definition decode_change_receipt ::
  "route53_crypto \<Rightarrow> 'w Route53DnsAdapter \<Rightarrow> DnsZoneRef \<Rightarrow> string \<Rightarrow> ChangeToken ProviderResult" where
  "decode_change_receipt cr ad zone change_id =
     and_then (adapter_zone_ref ad zone) (\<lambda>_.
     and_then (mutation_receipt_verifier ad) (\<lambda>v. decode_scope cr v (zone_account_id zone) (zone_id zone) change_id))"

section \<open>The DNS provider\<close>

definition get_zone :: "route53_crypto \<Rightarrow> 'w Route53DnsAdapter \<Rightarrow> DnsZoneRef \<Rightarrow> ('w, ObservedDnsZone option) io" where
  "get_zone cr ad zone =
     io_then (io_lift (adapter_zone_ref ad zone)) (\<lambda>_.
     io_then (get_hosted_zone (ad_api ad) (zone_id zone)) (\<lambda>found.
       case found of
         None \<Rightarrow> io_lift (Inr None)
       | Some provider_zone \<Rightarrow>
           io_then (io_lift (map_zone cr ad provider_zone)) (\<lambda>observed.
             if oz_zone observed \<noteq> zone then io_lift (Inl (validation ''route53_zone_identity_mismatch''))
             else io_lift (Inr (Some observed)))))"

definition list_zones ::
  "route53_crypto \<Rightarrow> 'w Route53DnsAdapter \<Rightarrow> string \<Rightarrow> DnsPageRequest \<Rightarrow> ('w, ObservedDnsZone DnsPage) io" where
  "list_zones cr ad account page =
     io_then (io_lift (map_err (validation ''invalid_account'') (validate_resource_id account))) (\<lambda>_.
     io_then (io_lift (map_err (validation ''invalid_page'') (validate_page_request page))) (\<lambda>_.
       if account \<noteq> ad_center_account_id ad then io_lift (Inl (validation ''route53_account_scope_mismatch''))
       else io_then (all_zones cr ad) (\<lambda>zones.
         io_lift (paginate cr (cr_zones_json cr) zones page (cursor_scope ad MZones) (ad_cursor_key ad)))))"

definition get_record_set ::
  "route53_crypto \<Rightarrow> 'w Route53DnsAdapter \<Rightarrow> DnsZoneRef \<Rightarrow> DnsRecordSetKey \<Rightarrow> ('w, ObservedDnsRecordSet option) io" where
  "get_record_set cr ad zone key =
     io_then (io_lift (map_err (validation ''invalid_record_key'') (validate_key key))) (\<lambda>_.
     io_then (all_records cr ad zone) (\<lambda>rs. io_lift (Inr (find (\<lambda>r. rs_key (or_record_set r) = key) rs))))"

definition list_record_sets_page ::
  "route53_crypto \<Rightarrow> 'w Route53DnsAdapter \<Rightarrow> DnsZoneRef \<Rightarrow> DnsPageRequest \<Rightarrow> ('w, ObservedDnsRecordSet DnsPage) io" where
  "list_record_sets_page cr ad zone page =
     io_then (io_lift (adapter_zone_ref ad zone)) (\<lambda>_.
     io_then (io_lift (map_err (validation ''invalid_page'') (validate_page_request page))) (\<lambda>_.
     io_then (all_records cr ad zone) (\<lambda>rs.
       io_lift (paginate cr (cr_records_json cr) rs page (cursor_scope ad (MRecords (zone_id zone))) (ad_cursor_key ad)))))"

text \<open>What is done with the answer to the change request.\<close>

definition settle_change ::
  "route53_crypto \<Rightarrow> 'w Route53DnsAdapter \<Rightarrow> DnsZoneRef \<Rightarrow> string \<Rightarrow> DnsGuardStrength \<Rightarrow> Route53ChangeInfo
     \<Rightarrow> DnsChangeReceipt ProviderResult" where
  "settle_change cr ad zone request_digest minimum_guard result =
     and_then (map_err (unknown_outcome ''invalid_route53_change_response'') (normalize_change_id (ci_id result))) (\<lambda>provider_change_id.
       if ci_submitted_at result < 0 \<or> ci_comment result \<noteq> Some (change_comment request_digest)
       then Inl (unknown_outcome ''invalid_route53_change_response'')
       else
         and_then (build_change_receipt cr ad zone provider_change_id request_digest (ci_submitted_at result) (ci_status result)) (\<lambda>receipt.
         and_then (map_err (unknown_outcome ''invalid_route53_change_receipt'') (validate_against_request receipt minimum_guard)) (\<lambda>_.
           Inr receipt)))"

text \<open>The request that is sent, from the checks to the digest.\<close>

definition prepare_change ::
  "route53_crypto \<Rightarrow> DnsZoneRef \<Rightarrow> DnsRecordChange list \<Rightarrow> raw_inventory \<Rightarrow> (Route53ChangeBatch \<times> string) ProviderResult" where
  "prepare_change cr zone changes current =
     and_then (plan_change_batch (cr_codec cr) zone changes current) (\<lambda>planned.
     and_then (ok_or (validation ''route53_change_encoding_failed'') (cr_changes_json cr planned)) (\<lambda>bytes.
       let request_digest = cx_digest (cr_codec cr) bytes
       in Inr (\<lparr>cb_changes = planned, cb_comment = change_comment request_digest\<rparr>, request_digest)))"

definition apply_record_changes ::
  "route53_crypto \<Rightarrow> 'w Route53DnsAdapter \<Rightarrow> DnsZoneRef \<Rightarrow> DnsRecordChange list \<Rightarrow> DnsGuardStrength \<Rightarrow> ('w, DnsChangeReceipt) io" where
  "apply_record_changes cr ad zone changes minimum_guard =
     io_then (io_lift (mutation_receipt_verifier ad)) (\<lambda>_.
     io_then (io_lift (adapter_zone_ref ad zone)) (\<lambda>_.
     io_then (io_lift (map_err (validation ''invalid_dns_changes'') (validate_dns_changes zone changes))) (\<lambda>_.
     io_then (all_records_with_raw cr ad zone) (\<lambda>current.
     io_then (io_lift (prepare_change cr zone changes current)) (\<lambda>(request, request_digest).
     io_then (change_record_sets (ad_api ad) (zone_id zone) request) (\<lambda>result.
       io_lift (settle_change cr ad zone request_digest minimum_guard result)))))))"

definition observe_change ::
  "route53_crypto \<Rightarrow> 'w Route53DnsAdapter \<Rightarrow> DnsZoneRef \<Rightarrow> string \<Rightarrow> ('w, DnsChangeReceipt) io" where
  "observe_change cr ad zone change_id =
     io_then (io_lift (mutation_receipt_verifier ad)) (\<lambda>_.
     io_then (io_lift (adapter_zone_ref ad zone)) (\<lambda>_.
     io_then (io_lift (decode_change_receipt cr ad zone change_id)) (\<lambda>token.
     io_then (get_change (ad_api ad) (gt_provider_change_id token)) (\<lambda>found.
     io_then (io_lift (ok_or (not_found ''route53_change_not_found'') found)) (\<lambda>result.
     io_then (io_lift (map_err (validation ''invalid_route53_change_response'') (normalize_change_id (ci_id result)))) (\<lambda>returned_id.
       if returned_id \<noteq> gt_provider_change_id token then io_lift (Inl (validation ''route53_change_identity_mismatch''))
       else if ci_submitted_at result \<noteq> gt_submitted_at token
               \<or> ci_comment result \<noteq> Some (change_comment (gt_request_digest token)) then
         io_lift (Inl (validation ''route53_change_metadata_mismatch''))
       else io_lift (change_receipt change_id (ci_status result) (gt_guard token))))))))"

section \<open>Lemmas\<close>

lemma io_lift_simp [simp]: "io_lift r w = (r, w)"
  by (simp add: io_lift_def)

lemma io_then_eq_Inr:
  "io_then m f w = (Inr x, w') \<longleftrightarrow> (\<exists>y w1. m w = (Inr y, w1) \<and> f y w1 = (Inr x, w'))"
  by (auto simp: io_then_def split: prod.splits sum.splits)

lemma io_then_eq_Inl:
  "io_then m f w = (Inl e, w') \<longleftrightarrow> m w = (Inl e, w') \<or> (\<exists>y w1. m w = (Inr y, w1) \<and> f y w1 = (Inl e, w'))"
  by (auto simp: io_then_def split: prod.splits sum.splits)

lemma io_then_lift [simp]: "io_then (io_lift (Inr x)) f w = f x w" "io_then (io_lift (Inl e)) f w = (Inl e, w)"
  by (simp_all add: io_then_def)

lemma io_then_eq:
  "io_then m f w = (r, w') \<Longrightarrow>
     (\<exists>e. m w = (Inl e, w') \<and> r = Inl e) \<or> (\<exists>y w1. m w = (Inr y, w1) \<and> f y w1 = (r, w'))"
  by (auto simp: io_then_def split: prod.splits sum.splits)

lemmas io_simps = io_then_eq_Inr io_then_eq_Inl and_then_eq_Inr

lemma map_err_Inl [simp]: "map_err e r = Inl x \<longleftrightarrow> x = e \<and> (\<exists>d. r = Inl d)"
  by (cases r) (auto simp: map_err_def)

lemma category_simps [simp]:
  "ne_category (validation c) = EValidation" "ne_category (not_found c) = ENotFound"
  "ne_category (conflict c) = EConflict" "ne_category (unknown_outcome c) = EUnknownOutcome"
  by (simp_all add: validation_def not_found_def conflict_def unknown_outcome_def provider_error_def)

lemma key_rank_inject: "key_rank k = key_rank k' \<longleftrightarrow> k = k'"
proof -
  have "type_rank a = type_rank b \<longleftrightarrow> a = b" for a b by (cases a; cases b) simp_all
  then show ?thesis by (cases k; cases k') (auto simp: key_rank_def split: DnsRoutingIdentity.splits)
qed

text \<open>The inventory: what was read of each set, one per key, no more than the limit.\<close>

definition inventory_inv :: "route53_crypto \<Rightarrow> DnsZoneRef \<Rightarrow> raw_inventory \<Rightarrow> DnsRecordSetKey list \<Rightarrow> bool" where
  "inventory_inv cr zone records seen \<longleftrightarrow>
     read_inventory (cr_codec cr) zone records \<and> set seen = (\<lambda>e. rs_key (or_record_set (fst e))) ` set records
     \<and> list_all (\<lambda>e. or_zone (fst e) = zone) records \<and> length records \<le> MAX_INVENTORY_RECORDS"

lemma collect_records_inv:
  "inventory_inv cr zone records seen \<Longrightarrow> collect_records cr zone rs records seen = Inr (records', seen')
     \<Longrightarrow> inventory_inv cr zone records' seen' \<and> map snd records' = map snd records @ rs"
proof (induction rs arbitrary: records seen)
  case (Cons r rs)
  from Cons.prems(2) obtain s revision where s: "map_record_set (cr_codec cr) zone r = Inr (s, revision)" "rs_key s \<notin> set seen"
    "\<not> MAX_INVENTORY_RECORDS < length records + 1"
    "collect_records cr zone rs (records @ [(\<lparr>or_zone = zone, or_record_set = s, or_provider_object_ids = [], or_revision = revision\<rparr>, r)])
       (rs_key s # seen) = Inr (records', seen')"
    by (auto simp: and_then_eq_Inr Let_def split: if_splits)
  have "inventory_inv cr zone (records @ [(\<lparr>or_zone = zone, or_record_set = s, or_provider_object_ids = [], or_revision = revision\<rparr>, r)])
      (rs_key s # seen)"
    using Cons.prems(1) s(1-3) by (force simp: inventory_inv_def read_inventory_def case_prod_unfold)
  from Cons.IH [OF this s(4)] show ?case by simp
qed simp

lemma inventory_inv_sort:
  assumes "inventory_inv cr zone records seen"
  shows "inventory_inv cr zone (sort_key f records) seen"
proof -
  have "distinct (map g (sort_key f records)) \<longleftrightarrow> distinct (map g records)" for g :: "ObservedDnsRecordSet \<times> Route53RecordSet \<Rightarrow> DnsRecordSetKey"
    by (simp add: distinct_map)
  with assms show ?thesis by (simp add: inventory_inv_def read_inventory_def list_all_iff)
qed

text \<open>What following the cursors of a zone from one page to the next gives, as a relation on worlds.\<close>

inductive listing :: "'w Route53Api \<Rightarrow> string \<Rightarrow> Route53RecordCursor option \<Rightarrow> 'w \<Rightarrow> Route53RecordSet list \<Rightarrow> 'w \<Rightarrow> bool"
  for api zid where
  last_page: "list_record_sets api zid cursor RECORD_PAGE_SIZE w = (Inr page, w') \<Longrightarrow> rp_next page = None
     \<Longrightarrow> listing api zid cursor w (rp_items page) w'"
| more_pages: "list_record_sets api zid cursor RECORD_PAGE_SIZE w = (Inr page, w1) \<Longrightarrow> rp_next page = Some c
     \<Longrightarrow> listing api zid (Some c) w1 rest w' \<Longrightarrow> listing api zid cursor w (rp_items page @ rest) w'"

lemma record_pages_inv:
  assumes "inventory_inv cr zone records seen" "record_pages cr ad zone n records cursor cursors seen w = (Inr current, w')"
  shows "\<exists>seen' items. inventory_inv cr zone current seen' \<and> sorted (map (\<lambda>e. key_rank (rs_key (or_record_set (fst e)))) current)
     \<and> listing (ad_api ad) (zone_id zone) cursor w items w' \<and> mset (map snd current) = mset (map snd records) + mset items"
  using assms
proof (induction n arbitrary: records cursor cursors seen w)
  case (Suc n)
  from Suc.prems(2) obtain page w1 records' seen' where p:
    "list_record_sets (ad_api ad) (zone_id zone) cursor RECORD_PAGE_SIZE w = (Inr page, w1)"
    "collect_records cr zone (rp_items page) records seen = Inr (records', seen')"
    "(case rp_next page of
        None \<Rightarrow> io_lift (Inr (sort_key (\<lambda>e. key_rank (rs_key (or_record_set (fst e)))) records'))
      | Some c \<Rightarrow>
          if cursor = Some c \<or> c \<in> set cursors then io_lift (Inl (validation ''route53_record_pagination_loop''))
          else record_pages cr ad zone n records' (Some c) (c # cursors) seen') w1 = (Inr current, w')"
    by (auto simp: io_then_eq_Inr)
  note inv = collect_records_inv [OF Suc.prems(1) p(2)]
  then have items: "mset (map snd records') = mset (map snd records) + mset (rp_items page)" by (metis mset_append)
  show ?case
  proof (cases "rp_next page")
    case None
    with p(3) have c: "current = sort_key (\<lambda>e. key_rank (rs_key (or_record_set (fst e)))) records'" "w' = w1" by auto
    have "mset (map snd current) = mset (map snd records')" unfolding c(1) mset_map by simp
    moreover have "sorted (map (\<lambda>e. key_rank (rs_key (or_record_set (fst e)))) current)" unfolding c(1) by simp
    ultimately show ?thesis
      using inventory_inv_sort [of cr zone records' seen'] inv last_page [OF p(1) None] items unfolding c by metis
  next
    case (Some c)
    with p(3) have more: "record_pages cr ad zone n records' (Some c) (c # cursors) seen' w1 = (Inr current, w')"
      by (auto split: if_splits)
    from Suc.IH [OF conjunct1 [OF inv] more] obtain seen'' rest where r: "inventory_inv cr zone current seen''"
      "sorted (map (\<lambda>e. key_rank (rs_key (or_record_set (fst e)))) current)" "listing (ad_api ad) (zone_id zone) (Some c) w1 rest w'"
      "mset (map snd current) = mset (map snd records') + mset rest" by blast
    then show ?thesis using more_pages [OF p(1) Some r(3)] items by (metis (no_types, lifting) mset_append union_assoc)
  qed
qed simp

lemma all_records_inv:
  assumes "all_records_with_raw cr ad zone w = (Inr current, w')"
  shows "\<exists>seen items w0. inventory_inv cr zone current seen \<and> sorted (map (\<lambda>e. key_rank (rs_key (or_record_set (fst e)))) current)
     \<and> listing (ad_api ad) (zone_id zone) None w0 items w' \<and> mset (map snd current) = mset items"
proof -
  from assms obtain w0 where pages: "record_pages cr ad zone MAX_PROVIDER_PAGES [] None [] [] w0 = (Inr current, w')"
    by (auto simp: all_records_with_raw_def io_then_eq_Inr split: if_splits)
  have "inventory_inv cr zone [] []" by (simp add: inventory_inv_def read_inventory_def)
  note start = this
  show ?thesis using record_pages_inv [OF start pages] by (simp only: list.map mset.simps add_0) blast
qed

lemma settle_error_unknown:
  assumes "settle_change cr ad zone digest minimum_guard result = Inl e" "mutation_receipt_verifier ad = Inr v"
    and "\<forall>t. cr_change_json cr t \<noteq> None"
  shows "ne_category e = EUnknownOutcome"
proof -
  have signed: "\<exists>t. sign_token cr (cr_change_json cr token) key MutationReceipt = Inr t" for token key
    using assms(3) by (auto simp: sign_token_def and_then_eq_Inr)
  have built: "ne_category e = EUnknownOutcome" if "build_change_receipt cr ad zone pid d at status = Inl e" for pid d at status
  proof -
    from signed obtain t where t: "sign_token cr (cr_change_json cr (change_token cr ad zone pid d at)) (rv_key v) MutationReceipt = Inr t"
      by blast
    from that show ?thesis
      unfolding build_change_receipt_def assms(2) and_then_Inr t by (auto simp: and_then_def split: sum.splits)
  qed
  from assms(1) show ?thesis
    using built by (auto simp: settle_change_def and_then_def split: sum.splits if_splits)
qed

lemma settle_receipt_guard: "settle_change cr ad zone digest minimum_guard result = Inr receipt \<Longrightarrow> rc_guard_strength receipt = Atomic"
  by (auto simp: settle_change_def build_change_receipt_def change_receipt_def and_then_eq_Inr Let_def split: if_splits)

section \<open>Properties\<close>

text \<open>
  The inventory that every operation works on is the provider's complete listing: the record sets on
  the pages, each once and each translated, in the order of their keys, with one key per set and no
  more than the limit. Pages that repeat a key, loop or never end give an error instead.
\<close>

theorem inventory_is_complete_listing:
  assumes "all_records_with_raw cr ad zone w = (Inr current, w')"
  shows "\<exists>w0 items. listing (ad_api ad) (zone_id zone) None w0 items w' \<and> mset (map snd current) = mset items
     \<and> (\<forall>(obs, raw) \<in> set current. or_zone obs = zone
          \<and> map_record_set (cr_codec cr) zone raw = Inr (or_record_set obs, or_revision obs))
     \<and> sorted_wrt (<) (map (\<lambda>(obs, _). key_rank (rs_key (or_record_set obs))) current) \<and> length current \<le> 100000"
proof -
  from all_records_inv [OF assms] obtain seen items w0 where r: "inventory_inv cr zone current seen"
    "sorted (map (\<lambda>e. key_rank (rs_key (or_record_set (fst e)))) current)"
    "listing (ad_api ad) (zone_id zone) None w0 items w'" "mset (map snd current) = mset items" by blast
  have "distinct (map (\<lambda>e. key_rank (rs_key (or_record_set (fst e)))) current)"
    using r(1) by (simp add: inventory_inv_def read_inventory_def case_prod_unfold distinct_map inj_on_def key_rank_inject)
  with r(2) have "sorted_wrt (<) (map (\<lambda>e. key_rank (rs_key (or_record_set (fst e)))) current)"
    by (simp add: strict_sorted_iff)
  moreover have "\<forall>(obs, raw) \<in> set current. or_zone obs = zone
      \<and> map_record_set (cr_codec cr) zone raw = Inr (or_record_set obs, or_revision obs)"
    using r(1) by (auto simp: inventory_inv_def read_inventory_def list_all_iff)
  moreover have "length current \<le> 100000" using r(1) by (simp add: inventory_inv_def MAX_INVENTORY_RECORDS_def)
  ultimately show ?thesis using r(3,4) by (auto simp: case_prod_unfold)
qed

text \<open>
  What Route 53 documents of a change batch, and what the client reports of it: a batch is carried
  out as a whole on the zone as it then is or not at all; an error other than an unknown outcome means
  that it was not carried out.
\<close>

definition route53_batches :: "route53_codec \<Rightarrow> DnsZoneRef \<Rightarrow> 'w Route53Api \<Rightarrow> ('w \<Rightarrow> Route53RecordSet set) \<Rightarrow> bool" where
  "route53_batches cx zone api content \<longleftrightarrow>
     (\<forall>w batch. wf_zone cx zone (content w) \<and>
        (case change_record_sets api (zone_id zone) batch w of
           (Inr _, w') \<Rightarrow> run_batch cx zone (cb_changes batch) (content w) = Some (content w')
         | (Inl e, w') \<Rightarrow>
             content w' = content w
             \<or> ne_category e = EUnknownOutcome \<and> run_batch cx zone (cb_changes batch) (content w) = Some (content w')))"

text \<open>
  Guarded changes are all or nothing, whatever happens to the zone while the inventory is read. When
  a receipt is returned, the zone holds exactly what the changes make of the zone at the moment of
  submission, and every guard held at that moment, not only when the inventory was read. An error
  other than an unknown outcome means that nothing was changed.
\<close>

theorem guarded_changes_are_atomic:
  assumes "route53_batches (cr_codec cr) zone (ad_api ad) content"
    and "\<forall>t. cr_change_json cr t \<noteq> None"
    and "apply_record_changes cr ad zone changes minimum_guard w = (r, w')"
  defines "before \<equiv> zone_sets (cr_codec cr) zone (content (snd (all_records_with_raw cr ad zone w)))"
    and "after \<equiv> zone_sets (cr_codec cr) zone (content w')"
  shows "case r of
      Inr receipt \<Rightarrow> after = fold apply_change changes before \<and> (\<forall>c \<in> set changes. guard_at before c) \<and> rc_guard_strength receipt = Atomic
    | Inl e \<Rightarrow> w' = w \<or> after = before
        \<or> ne_category e = EUnknownOutcome \<and> after = fold apply_change changes before \<and> (\<forall>c \<in> set changes. guard_at before c)"
proof (cases "\<exists>v. mutation_receipt_verifier ad = Inr v \<and> adapter_zone_ref ad zone = Inr () \<and> validate_dns_changes zone changes = Inr ()")
  case False
  then have "\<exists>e. r = Inl e \<and> w' = w"
    using assms(3)
    by (cases "mutation_receipt_verifier ad"; cases "adapter_zone_ref ad zone"; cases "validate_dns_changes zone changes")
      (auto simp: apply_record_changes_def map_err_def)
  then show ?thesis by auto
next
  case True
  then obtain v where v: "mutation_receipt_verifier ad = Inr v" "validate_dns_changes zone changes = Inr ()"
    and rest: "io_then (all_records_with_raw cr ad zone) (\<lambda>current.
      io_then (io_lift (prepare_change cr zone changes current)) (\<lambda>(request, request_digest).
      io_then (change_record_sets (ad_api ad) (zone_id zone) request) (\<lambda>result.
        io_lift (settle_change cr ad zone request_digest minimum_guard result)))) w = (r, w')"
    using assms(3) by (auto simp: apply_record_changes_def)
  obtain inv w1 where inv: "all_records_with_raw cr ad zone w = (inv, w1)" by fastforce
  have w1: "snd (all_records_with_raw cr ad zone w) = w1" using inv by simp
  show ?thesis
  proof (cases "\<exists>current request digest. inv = Inr current \<and> prepare_change cr zone changes current = Inr (request, digest)")
    case False
    then have "\<exists>e. r = Inl e \<and> w' = w1"
      using rest inv by (cases inv) (auto simp: io_then_def split: sum.splits)
    then show ?thesis unfolding before_def after_def w1 by auto
  next
    case True
    then obtain current request digest where p: "inv = Inr current" "prepare_change cr zone changes current = Inr (request, digest)" by blast
    then obtain planned where plan: "plan_change_batch (cr_codec cr) zone changes current = Inr planned" "cb_changes request = planned"
      by (auto simp: prepare_change_def and_then_eq_Inr Let_def)
    have read: "read_inventory (cr_codec cr) zone current"
      using all_records_inv inv p(1) by (metis inventory_inv_def)
    have run: "zone_sets (cr_codec cr) zone z = fold apply_change changes before \<and> (\<forall>c \<in> set changes. guard_at before c)"
      if "run_batch (cr_codec cr) zone planned (content w1) = Some z" for z
      unfolding before_def w1
      using planned_batch_anywhere [OF v(2) plan(1) read _ that] assms(1) by (auto simp: route53_batches_def)
    obtain answer w2 where a: "change_record_sets (ad_api ad) (zone_id zone) request w1 = (answer, w2)" by fastforce
    have law: "case answer of
        Inr _ \<Rightarrow> run_batch (cr_codec cr) zone planned (content w1) = Some (content w2)
      | Inl e \<Rightarrow> content w2 = content w1
          \<or> ne_category e = EUnknownOutcome \<and> run_batch (cr_codec cr) zone planned (content w1) = Some (content w2)"
    proof -
      have "case change_record_sets (ad_api ad) (zone_id zone) request w1 of
          (Inr _, w') \<Rightarrow> run_batch (cr_codec cr) zone (cb_changes request) (content w1) = Some (content w')
        | (Inl e, w') \<Rightarrow> content w' = content w1
            \<or> ne_category e = EUnknownOutcome \<and> run_batch (cr_codec cr) zone (cb_changes request) (content w1) = Some (content w')"
        using assms(1) [unfolded route53_batches_def, THEN spec, THEN spec, of w1 request] by (rule conjunct2)
      then show ?thesis unfolding a plan(2) by (cases answer) simp_all
    qed
    show ?thesis
    proof (cases answer)
      case (Inl e)
      then have "r = Inl e" "w' = w2" using rest inv p a by (simp_all add: io_then_def)
      with Inl law run [of "content w2"] show ?thesis unfolding before_def after_def w1 by auto
    next
      case (Inr result)
      then have r: "r = settle_change cr ad zone digest minimum_guard result" "w' = w2"
        using rest inv p a by (simp_all add: io_then_def)
      have applied: "after = fold apply_change changes before \<and> (\<forall>c \<in> set changes. guard_at before c)"
        using law run [of "content w2"] Inr r(2) by (simp add: after_def)
      show ?thesis
      proof (cases r)
        case (Inl e)
        then have "ne_category e = EUnknownOutcome" using settle_error_unknown [OF _ v(1) assms(2)] r(1) by simp
        with Inl applied show ?thesis by simp
      next
        case (Inr receipt)
        then have "rc_guard_strength receipt = Atomic" using settle_receipt_guard r(1) by simp
        with Inr applied show ?thesis by simp
      qed
    qed
  qed
qed

text \<open>
  The libraries behind the tokens: base64 and JSON decode what they encoded, an HMAC has 32 bytes and a
  JSON text is not empty.
\<close>

definition token_laws :: "route53_crypto \<Rightarrow> ('t \<Rightarrow> string option) \<Rightarrow> (string \<Rightarrow> 't option) \<Rightarrow> 't \<Rightarrow> bool" where
  "token_laws cr json unjson t \<longleftrightarrow>
     (\<forall>x. cr_unb64 cr (cr_b64 cr x) = Some x) \<and> (\<forall>k m. length (cr_hmac cr k m) = 32)
     \<and> (\<exists>j. json t = Some j \<and> j \<noteq> [] \<and> unjson j = Some t)"

lemma verify_signed:
  assumes "token_laws cr json unjson t" "sign_token cr (json t) key domain = Inr tok"
  shows "verify_token cr unjson tok key domain = Inr t"
proof -
  from assms obtain j where "json t = Some j" "j \<noteq> []" "unjson j = Some t" "tok = cr_b64 cr (j @ cr_hmac cr key (separator domain @ j))"
    by (auto simp: token_laws_def sign_token_def)
  then show ?thesis using assms(1) by (simp add: verify_token_def token_laws_def Let_def)
qed

text \<open>
  A receipt leads back to the change it was issued for, and only for its zone: it decodes exactly for
  the references of this account whose zone has the same hash, to the provider's change, the digest of
  the request and the time of submission; and asking for the change asks the provider for that one.
\<close>

theorem receipts_lead_back:
  assumes "build_change_receipt cr ad zone provider_change_id digest submitted_at status = Inr receipt"
    and "token_laws cr (cr_change_json cr) (cr_change_unjson cr) (change_token cr ad zone provider_change_id digest submitted_at)"
    and "mutation_receipt_verifier ad = Inr v" "rv_center_account_id v = ad_center_account_id ad" "rv_aws_account_id v = ad_aws_account_id ad"
    and "normalize_change_id provider_change_id = Inr provider_change_id"
  shows "decode_change_receipt cr ad other (rc_id receipt) = Inr token \<longleftrightarrow>
     adapter_zone_ref ad other = Inr () \<and> scope_hash cr (zone_id other) = scope_hash cr (zone_id zone)
     \<and> token = change_token cr ad zone provider_change_id digest submitted_at"
proof -
  let ?t = "change_token cr ad zone provider_change_id digest submitted_at"
  from assms(1,3) obtain rid where rid: "sign_token cr (cr_change_json cr ?t) (rv_key v) MutationReceipt = Inr rid"
    "validate_change_id rid = Inr ()" "rc_id receipt = rid"
    by (auto simp: build_change_receipt_def change_receipt_def and_then_eq_Inr Let_def split: if_splits)
  have verified: "verify_token cr (cr_change_unjson cr) rid (rv_key v) MutationReceipt = Inr ?t"
    by (rule verify_signed [OF assms(2) rid(1)])
  have ref: "validate_resource_id (zone_account_id other) = Inr () \<and> validate_zone_id (zone_id other) = Inr ()
      \<and> zone_account_id other = ad_center_account_id ad \<and> normalize_zone_id (zone_id other) = Inr (zone_id other)"
    if "adapter_zone_ref ad other = Inr ()"
    using that by (auto simp: adapter_zone_ref_def validate_zone_ref_def and_then_eq_Inr split: if_splits)
  have fields: "gt_version ?t = 1" "gt_center_scope ?t = scope_hash cr (ad_center_account_id ad)"
    "gt_external_scope ?t = scope_hash cr (ad_aws_account_id ad)" "gt_zone_scope ?t = scope_hash cr (zone_id zone)"
    "gt_guard ?t = Atomic" "gt_provider_change_id ?t = provider_change_id" by (simp_all add: change_token_def)
  have decoded: "decode_scope cr v (zone_account_id other) (zone_id other) rid =
      (if scope_hash cr (zone_id zone) \<noteq> scope_hash cr (zone_id other) then Inl (not_found ''route53_change_not_found'') else Inr ?t)"
    if ok: "adapter_zone_ref ad other = Inr ()"
  proof -
    note r = ref [OF ok]
    have "validate_resource_id (ad_center_account_id ad) = Inr ()" using r by metis
    with r rid(2) show ?thesis
      unfolding decode_scope_def Let_def by (simp add: verified fields assms(4-6))
  qed
  show ?thesis
    unfolding decode_change_receipt_def rid(3) assms(3) by (cases "adapter_zone_ref ad other") (auto simp: decoded)
qed

text \<open>Following the page tokens to the end; \<open>None\<close> when a page fails or the fuel runs out.\<close>

fun follow_pages ::
  "route53_crypto \<Rightarrow> ('a list \<Rightarrow> string option) \<Rightarrow> 'a list \<Rightarrow> 16 word \<Rightarrow> CursorScope \<Rightarrow> string \<Rightarrow> nat \<Rightarrow> string option \<Rightarrow> 'a list option" where
  "follow_pages cr json items limit scope key 0 token = None"
| "follow_pages cr json items limit scope key (Suc n) token =
     (case paginate cr json items \<lparr>page_limit = limit, page_token = token\<rparr> scope key of
        Inl _ \<Rightarrow> None
      | Inr page \<Rightarrow>
          (case page_next page of
             None \<Rightarrow> Some (page_items page)
           | Some t \<Rightarrow> map_option (\<lambda>rest. page_items page @ rest) (follow_pages cr json items limit scope key n (Some t))))"

definition cursor_at :: "CursorScope \<Rightarrow> string \<Rightarrow> nat \<Rightarrow> CursorToken" where
  "cursor_at scope digest offset = \<lparr>ct_version = 1, ct_scope = scope, ct_offset = offset, ct_inventory_digest = digest\<rparr>"

definition cursors_ok :: "route53_crypto \<Rightarrow> CursorScope \<Rightarrow> string \<Rightarrow> string \<Rightarrow> nat \<Rightarrow> bool" where
  "cursors_ok cr scope key digest n \<longleftrightarrow>
     (\<forall>offset < n. token_laws cr (cr_cursor_json cr) (cr_cursor_unjson cr) (cursor_at scope digest offset)
        \<and> (\<forall>t. sign_token cr (cr_cursor_json cr (cursor_at scope digest offset)) key InventoryCursor = Inr t
             \<longrightarrow> validate_page_token t = Inr ()))"

lemma signed_cursor:
  assumes "cursors_ok cr scope key digest n" "offset < n"
  shows "\<exists>t. sign_token cr (cr_cursor_json cr (cursor_at scope digest offset)) key InventoryCursor = Inr t
     \<and> validate_page_token t = Inr ()
     \<and> verify_token cr (cr_cursor_unjson cr) t key InventoryCursor = Inr (cursor_at scope digest offset)"
proof -
  have laws: "token_laws cr (cr_cursor_json cr) (cr_cursor_unjson cr) (cursor_at scope digest offset)"
    using assms by (simp add: cursors_ok_def)
  then obtain t where t: "sign_token cr (cr_cursor_json cr (cursor_at scope digest offset)) key InventoryCursor = Inr t"
    by (auto simp: token_laws_def sign_token_def)
  with assms verify_signed [OF laws t] show ?thesis by (auto simp: cursors_ok_def)
qed

lemma for_each_trivial [simp]: "for_each_ok (\<lambda>_. Inr ()) xs = Inr ()"
  by (induction xs) simp_all

lemma paginate_at:
  assumes "canonical_inventory_digest cr json items = Inr digest" "cursors_ok cr scope key digest (length items)"
    and "page_offset cr items token scope key digest = Inr offset" "0 < unat limit" "unat limit \<le> MAX_PAGE_SIZE"
  shows "\<exists>t. paginate cr json items \<lparr>page_limit = limit, page_token = token\<rparr> scope key =
       Inr \<lparr>page_items = take (unat limit) (drop offset items),
            page_next = (if offset + unat limit < length items then Some t else None)\<rparr>
     \<and> (offset + unat limit < length items \<longrightarrow>
          verify_token cr (cr_cursor_unjson cr) t key InventoryCursor = Inr (cursor_at scope digest (offset + unat limit)))"
proof (cases "offset + unat limit < length items")
  case True
  from signed_cursor [OF assms(2) True] obtain t where t:
    "sign_token cr (cr_cursor_json cr (cursor_at scope digest (offset + unat limit))) key InventoryCursor = Inr t"
    "validate_page_token t = Inr ()"
    "verify_token cr (cr_cursor_unjson cr) t key InventoryCursor = Inr (cursor_at scope digest (offset + unat limit))" by blast
  have "limit \<noteq> 0" using assms(4) by auto
  moreover have "min (offset + unat limit) (length items) = offset + unat limit" using True by simp
  ultimately show ?thesis
    using True t(2,3) t(1) [unfolded cursor_at_def] assms(1,3,5) by (auto simp: paginate_def validate_page_def Let_def)
next
  case False
  have "limit \<noteq> 0" using assms(4) by auto
  moreover have "min (offset + unat limit) (length items) = length items" "\<not> unat limit < length items - offset"
    "take (length items - offset) (drop offset items) = take (unat limit) (drop offset items)" using False by simp_all
  ultimately show ?thesis
    using False assms(1,3,5) by (simp add: paginate_def validate_page_def Let_def)
qed

lemma follow_from:
  assumes "canonical_inventory_digest cr json items = Inr digest" "cursors_ok cr scope key digest (length items)"
    and "0 < unat limit" "unat limit \<le> MAX_PAGE_SIZE"
  shows "page_offset cr items token scope key digest = Inr offset \<Longrightarrow> length items < offset + n \<Longrightarrow>
     follow_pages cr json items limit scope key n token = Some (drop offset items) \<or> n = 0"
proof (induction n arbitrary: token offset)
  case (Suc n)
  from paginate_at [OF assms(1,2) Suc.prems(1) assms(3,4)] obtain t where t:
    "paginate cr json items \<lparr>page_limit = limit, page_token = token\<rparr> scope key =
       Inr \<lparr>page_items = take (unat limit) (drop offset items),
            page_next = (if offset + unat limit < length items then Some t else None)\<rparr>"
    "offset + unat limit < length items \<Longrightarrow>
       verify_token cr (cr_cursor_unjson cr) t key InventoryCursor = Inr (cursor_at scope digest (offset + unat limit))" by blast
  show ?case
  proof (cases "offset + unat limit < length items")
    case True
    then have "page_offset cr items (Some t) scope key digest = Inr (offset + unat limit)"
      using t(2) by (simp add: page_offset_def cursor_at_def)
    from Suc.IH [OF this] Suc.prems(2) True assms(3)
    have "follow_pages cr json items limit scope key n (Some t) = Some (drop (offset + unat limit) items)" by auto
    moreover have "take (unat limit) (drop offset items) @ drop (offset + unat limit) items = drop offset items"
      by (metis append_take_drop_id drop_drop add.commute)
    ultimately show ?thesis using t(1) True by simp
  next
    case False
    then show ?thesis using t(1) by simp
  qed
qed simp

text \<open>
  C26: Pages cut the inventory without loss: as long as the inventory stays the same, following the tokens
  from the first page returns every item once and in order, in no more steps than there are items;
  and a token issued on one inventory is refused on another of a different digest.
\<close>

theorem pages_partition_inventory:
  assumes "canonical_inventory_digest cr json items = Inr digest" "cursors_ok cr scope key digest (length items)"
    and "validate_page_request \<lparr>page_limit = limit, page_token = None\<rparr> = Inr ()"
  shows "follow_pages cr json items limit scope key (Suc (length items)) None = Some items
     \<and> (\<forall>token page t items' digest'.
          paginate cr json items \<lparr>page_limit = limit, page_token = token\<rparr> scope key = Inr page \<and> page_next page = Some t
          \<and> canonical_inventory_digest cr json items' = Inr digest' \<and> digest' \<noteq> digest \<longrightarrow>
          (\<exists>e. paginate cr json items' \<lparr>page_limit = limit, page_token = Some t\<rparr> scope key = Inl e))"
proof -
  have limit: "0 < unat limit" "unat limit \<le> MAX_PAGE_SIZE"
    using assms(3) by (auto simp: validate_page_request_def unat_gt_0 split: if_splits)
  have "follow_pages cr json items limit scope key (Suc (length items)) None = Some items"
    using follow_from [OF assms(1,2) limit, of None 0 "Suc (length items)"] by (simp add: page_offset_def)
  moreover have "\<exists>e. paginate cr json items' \<lparr>page_limit = limit, page_token = Some t\<rparr> scope key = Inl e"
    if "paginate cr json items \<lparr>page_limit = limit, page_token = token\<rparr> scope key = Inr page" "page_next page = Some t"
      "canonical_inventory_digest cr json items' = Inr digest'" "digest' \<noteq> digest" for token page t items' digest'
  proof -
    from that(1) assms(1) obtain offset where "page_offset cr items token scope key digest = Inr offset"
      by (auto simp: paginate_def and_then_eq_Inr)
    from paginate_at [OF assms(1,2) this limit] that(1,2)
    have "verify_token cr (cr_cursor_unjson cr) t key InventoryCursor = Inr (cursor_at scope digest (offset + unat limit))"
      by (auto split: if_splits)
    with that(3,4) show ?thesis by (simp add: paginate_def page_offset_def cursor_at_def)
  qed
  ultimately show ?thesis by blast
qed

section \<open>An example\<close>

text \<open>A zone with one record set, which one batch removes.\<close>

definition aws_delete :: Route53RecordChange where
  "aws_delete = \<lparr>ch_action = ActDelete, ch_record_set = rendered_set aws_txt\<rparr>"

definition aws_hosted :: Route53HostedZone where
  "aws_hosted = \<lparr>hz_id = ''/hostedzone/Z1'', hz_name = ''a.io.'', hz_private_zone = False, hz_caller_reference = ''edgion-d'',
     hz_resource_record_set_count = 2, hz_name_servers = [''ns.a.io''], hz_has_linked_service = False,
     hz_has_unsupported_features = False\<rparr>"

definition aws_answer :: "string \<Rightarrow> Route53ChangeInfo" where
  "aws_answer comment = \<lparr>ci_id = ''/change/C1'', ci_status = ''INSYNC'', ci_submitted_at = 7, ci_comment = Some comment\<rparr>"

definition aws_api :: "bool Route53Api" where
  "aws_api = \<lparr>verified_account_id = ''123456789012'',
     create_hosted_zone = (\<lambda>_ w. (Inl (conflict ''exists''), w)),
     get_hosted_zone = (\<lambda>_ w. (Inr (Some aws_hosted), w)),
     list_hosted_zones = (\<lambda>_ _ w. (Inr \<lparr>zp_items = [aws_hosted], zp_is_truncated = False, zp_next_marker = None\<rparr>, w)),
     list_record_sets = (\<lambda>_ _ _ w. (Inr \<lparr>rp_items = (if w then [rendered_set aws_txt] else []), rp_is_truncated = False,
       rp_next = None\<rparr>, w)),
     change_record_sets = (\<lambda>_ batch w. if w \<and> cb_changes batch = [aws_delete] then (Inr (aws_answer (cb_comment batch)), False)
       else (Inl (conflict ''refused''), w)),
     get_change = (\<lambda>_ w. (Inr (Some (aws_answer ''edgion:d'')), w)),
     delete_hosted_zone = (\<lambda>_ w. (Inr (aws_answer []), False)),
     get_dnssec = (\<lambda>_ w. (Inr \<lparr>di_serve_signature = ''NOT_SIGNING'', di_key_signing_keys = []\<rparr>, w)),
     enable_hosted_zone_dnssec = (\<lambda>_ w. (Inr (aws_answer []), w)),
     disable_hosted_zone_dnssec = (\<lambda>_ w. (Inr (aws_answer []), w))\<rparr>"

definition aws_verifier :: Route53MutationReceiptVerifier where
  "aws_verifier = \<lparr>rv_center_account_id = ''acc'', rv_aws_account_id = ''123456789012'', rv_key = ''k2''\<rparr>"

definition aws_adapter :: "bool Route53DnsAdapter" where
  "aws_adapter = \<lparr>ad_center_account_id = ''acc'', ad_aws_account_id = ''123456789012'', ad_api = aws_api, ad_cursor_key = ''k1'',
     ad_mutation_receipt_verifier = Some aws_verifier, ad_lifecycle_token_key = Some ''k3''\<rparr>"

definition aws_token :: ChangeToken where
  "aws_token = \<lparr>gt_version = 1, gt_center_scope = ''d'', gt_external_scope = ''d'', gt_zone_scope = ''d'',
     gt_provider_change_id = ''C1'', gt_request_digest = ''d'', gt_submitted_at = 7, gt_guard = Atomic\<rparr>"

definition aws_crypto :: route53_crypto where
  "aws_crypto = \<lparr>cr_codec = aws_codec, cr_b64 = (\<lambda>x. x), cr_unb64 = Some, cr_hmac = (\<lambda>_ _. replicate 32 CHR ''h''),
     cr_cursor_json = (\<lambda>t. Some (replicate (Suc (ct_offset t)) CHR ''x'')),
     cr_cursor_unjson = (\<lambda>j. Some (cursor_at (cursor_scope aws_adapter MZones) ''d'' (length j - 1))),
     cr_change_json = (\<lambda>_. Some ''t''), cr_change_unjson = (\<lambda>_. Some aws_token),
     cr_lifecycle_json = (\<lambda>_. Some ''t''), cr_lifecycle_unjson = (\<lambda>_. None),
     cr_zones_json = (\<lambda>_. Some []), cr_records_json = (\<lambda>_. Some []), cr_changes_json = (\<lambda>_. Some []),
     cr_lifecycle_state_json = (\<lambda>_. Some [])\<rparr>"

lemma aws_crypto_codec [simp]: "cr_codec aws_crypto = aws_codec"
  by (simp add: aws_crypto_def)

lemma aws_zone_ref: "adapter_zone_ref aws_adapter aws_zone = Inr ()"
proof -
  have "normalize_zone_id ''Z1'' = Inr ''Z1''" by code_simp
  then show ?thesis by (simp add: adapter_zone_ref_def aws_zone_valid) (simp add: aws_zone_def aws_adapter_def)
qed

lemma aws_map_zone: "map_zone aws_crypto aws_adapter aws_hosted = Inr \<lparr>oz_zone = aws_zone, oz_revision = None\<rparr>"
proof -
  have n: "normalize_zone_id ''/hostedzone/Z1'' = Inr ''Z1''" "decode_domain_presentation ''a.io.'' = Inr ''a.io.''"
    "absolute_dns_name_new Some ''a.io.'' = Inr ''a.io''" by code_simp+
  have "validate_zone_id ''Z1'' = Inr ()" using aws_zone_valid by (auto simp: validate_zone_ref_def aws_zone_def and_then_eq_Inr)
  with n show ?thesis
    by (simp add: map_zone_def aws_hosted_def aws_codec_def) (simp add: aws_zone_def aws_adapter_def)
qed

lemma aws_records: "all_records_with_raw aws_crypto aws_adapter aws_zone True = (Inr [(aws_observed, rendered_set aws_txt)], True)"
proof -
  obtain n where n: "MAX_PROVIDER_PAGES = Suc n" using gr0_implies_Suc [of MAX_PROVIDER_PAGES] by (auto simp: MAX_PROVIDER_PAGES_def)
  have api: "ad_api aws_adapter = aws_api" by (simp add: aws_adapter_def)
  show ?thesis
    using map_rendered_set [OF aws_txt_renderable aws_txt_valid aws_revision]
    by (simp add: all_records_with_raw_def aws_zone_ref api n)
      (simp add: io_then_def n api aws_api_def aws_map_zone validate_record_page_def RECORD_PAGE_SIZE_def MAX_INVENTORY_RECORDS_def
        aws_observed_def)
qed

lemma aws_signed: "validate_change_id (''t'' @ replicate 32 CHR ''h'') = Inr ()"
proof -
  have "list_all graphic (''t'' @ replicate 32 CHR ''h'')" by (simp add: graphic_def byte_def list_all_iff)
  then show ?thesis
    by (simp add: validate_change_id_def validate_text_def MAX_OPAQUE_ID_LEN_def string_simps del: has_control.simps list.pred_inject append.simps)
qed

lemma aws_receipt:
  "build_change_receipt aws_crypto aws_adapter aws_zone ''C1'' ''d'' 7 ''INSYNC'' =
     Inr \<lparr>rc_id = ''t'' @ replicate 32 CHR ''h'', rc_state = ProviderCommitted, rc_submission_atomicity = AllOrNothing,
          rc_propagation = ProviderReportedApplied, rc_guard_strength = Atomic\<rparr>"
  using aws_signed
  by (simp add: build_change_receipt_def mutation_receipt_verifier_def aws_adapter_def sign_token_def aws_crypto_def change_receipt_def
      validate_receipt_def Let_def)

lemma aws_apply:
  "\<exists>receipt. apply_record_changes aws_crypto aws_adapter aws_zone [DeleteSet aws_observed (MatchObserved ''sha256:d'')] Atomic True
     = (Inr receipt, False)"
proof -
  have api: "ad_api aws_adapter = aws_api" by (simp add: aws_adapter_def)
  have key: "mutation_receipt_verifier aws_adapter = Inr aws_verifier" by (simp add: mutation_receipt_verifier_def aws_adapter_def)
  have prepared: "prepare_change aws_crypto aws_zone [DeleteSet aws_observed (MatchObserved ''sha256:d'')] [(aws_observed, rendered_set aws_txt)] =
      Inr (\<lparr>cb_changes = [aws_delete], cb_comment = ''edgion:d''\<rparr>, ''d'')"
    using aws_plan by (simp add: prepare_change_def Let_def aws_delete_def change_comment_def) (simp add: aws_crypto_def aws_codec_def)
  have "normalize_change_id ''/change/C1'' = Inr ''C1''" by code_simp
  then have "\<exists>receipt. settle_change aws_crypto aws_adapter aws_zone ''d'' Atomic (aws_answer ''edgion:d'') = Inr receipt"
    using aws_receipt aws_signed
    by (simp add: settle_change_def aws_answer_def change_comment_def validate_against_request_def validate_receipt_def)
  then show ?thesis
    unfolding apply_record_changes_def
    by (simp add: key aws_zone_ref aws_delete_valid api)
      (auto simp: io_then_def aws_records prepared aws_api_def)
qed

definition aws_content :: "bool \<Rightarrow> Route53RecordSet set" where
  "aws_content w = (if w then {rendered_set aws_txt} else {})"

lemma aws_reads: "reads aws_codec aws_zone (rendered_set aws_txt) = Some aws_txt"
  using map_rendered_set [OF aws_txt_renderable aws_txt_valid aws_revision] by (simp add: reads_def)

lemma aws_batches: "route53_batches aws_codec aws_zone aws_api aws_content"
  by (auto simp: route53_batches_def aws_content_def aws_api_def wf_zone_def aws_reads aws_delete_def run_change_def)

theorem inventory_is_complete_listing_witness:
  "\<exists>w0 items. listing aws_api ''Z1'' None w0 items True \<and> mset [rendered_set aws_txt] = mset items"
  using inventory_is_complete_listing [OF aws_records] by (auto simp: aws_adapter_def aws_zone_def)

theorem guarded_changes_are_atomic_witness:
  "zone_sets aws_codec aws_zone {} = zone_sets aws_codec aws_zone {rendered_set aws_txt} - {aws_txt}
   \<and> aws_txt \<in> zone_sets aws_codec aws_zone {rendered_set aws_txt}"
proof -
  obtain receipt where run: "apply_record_changes aws_crypto aws_adapter aws_zone
      [DeleteSet aws_observed (MatchObserved ''sha256:d'')] Atomic True = (Inr receipt, False)"
    using aws_apply by blast
  have "route53_batches (cr_codec aws_crypto) aws_zone (ad_api aws_adapter) aws_content"
    using aws_batches by (simp add: aws_adapter_def)
  moreover have "\<forall>t. cr_change_json aws_crypto t \<noteq> None" by (simp add: aws_crypto_def)
  ultimately show ?thesis
    using guarded_changes_are_atomic [OF _ _ run, of aws_content] by (simp add: aws_records aws_content_def) (simp add: aws_observed_def)
qed

theorem receipts_lead_back_witness:
  "decode_change_receipt aws_crypto aws_adapter aws_zone (''t'' @ replicate 32 CHR ''h'') = Inr aws_token"
proof -
  have token: "change_token aws_crypto aws_adapter aws_zone ''C1'' ''d'' 7 = aws_token"
    by (simp add: change_token_def aws_token_def scope_hash_def aws_codec_def)
  have "token_laws aws_crypto (cr_change_json aws_crypto) (cr_change_unjson aws_crypto) (change_token aws_crypto aws_adapter aws_zone ''C1'' ''d'' 7)"
    unfolding token by (simp add: token_laws_def aws_crypto_def)
  moreover have "normalize_change_id ''C1'' = Inr ''C1''" by code_simp
  moreover have "mutation_receipt_verifier aws_adapter = Inr aws_verifier" "rv_center_account_id aws_verifier = ad_center_account_id aws_adapter"
    "rv_aws_account_id aws_verifier = ad_aws_account_id aws_adapter"
    by (simp_all add: mutation_receipt_verifier_def aws_adapter_def aws_verifier_def)
  ultimately show ?thesis
    using receipts_lead_back [OF aws_receipt, of aws_verifier aws_zone aws_token] aws_zone_ref token by simp
qed

theorem pages_partition_inventory_witness:
  "follow_pages aws_crypto (\<lambda>_. Some []) [True, False] 1 (cursor_scope aws_adapter MZones) ''k1'' 3 None = Some [True, False]"
proof -
  have small: "offset < 2 \<Longrightarrow> offset = 0 \<or> offset = 1" for offset :: nat by auto
  have "list_all graphic (replicate n CHR ''x'' @ replicate 32 CHR ''h'')" for n by (simp add: graphic_def byte_def list_all_iff)
  then have "validate_page_token (replicate n CHR ''x'' @ replicate 32 CHR ''h'') = Inr ()" if "n \<le> 2" for n
    using that
    by (simp add: validate_page_token_def validate_text_def MAX_PAGE_TOKEN_LEN_def string_simps del: has_control.simps list.pred_inject append.simps)
  then have "cursors_ok aws_crypto (cursor_scope aws_adapter MZones) ''k1'' ''d'' (length [True, False])"
    by (auto simp: cursors_ok_def token_laws_def aws_crypto_def sign_token_def cursor_at_def dest!: small simp del: replicate_Suc)
  moreover have "canonical_inventory_digest aws_crypto (\<lambda>_. Some []) [True, False] = Inr ''d''"
    by (simp add: canonical_inventory_digest_def aws_codec_def)
  moreover have "validate_page_request \<lparr>page_limit = 1, page_token = None\<rparr> = Inr ()"
    by (simp add: validate_page_request_def MAX_PAGE_SIZE_def)
  ultimately show ?thesis
    using pages_partition_inventory [of aws_crypto "\<lambda>_. Some []" "[True, False]"] by (simp add: numeral_eq_Suc del: follow_pages.simps)
qed

end
