(* ===== verification/Route53_Lifecycle.thy ===== *)
theory Route53_Lifecycle
  imports Route53_Adapter Zone_Lifecycle
begin

text \<open>
  The hosted-zone lifecycle of the Route 53 adapter, \<open>crates/center-adapter-route53/src/lib.rs\<close>: the lifecycle
  observation with its DNSSEC state and revision, creation with recovery by caller reference, the guarded
  deletion, DNSSEC and the observation of a mutation.
\<close>

section \<open>Observations of a hosted zone\<close>

record ZoneCreationRequest =
  zc_provider_account_id :: string
  zc_provider :: CloudProvider
  zc_apex :: string
  zc_visibility :: ZoneVisibility
  zc_idempotency_key :: string

datatype ZoneLifecycleMutationState = MutPending | MutSucceeded | MutFailed | MutUnknownOutcome

record ZoneLifecycleMutationReceipt =
  mr_mutation_id :: string
  mr_state :: ZoneLifecycleMutationState

definition validate_mutation_id :: "string \<Rightarrow> unit CoreResult" where
  "validate_mutation_id v = and_then (zone_revision_new ''zone lifecycle mutation ID'' v) (\<lambda>_. Inr ())"

definition to_ascii_uppercase :: "string \<Rightarrow> string" where
  "to_ascii_uppercase s = map (\<lambda>c. if is_ascii_lowercase c then char_of (byte c - 32) else c) s"

definition parse_ds_record :: "string \<Rightarrow> DnssecDsRecord ProviderResult" where
  "parse_ds_record v =
     (let code = ''invalid_route53_dnssec_ds_record''; parts = split_ascii_whitespace v
      in if length parts \<noteq> 4 then Inl (validation code)
         else
           and_then (parse_number (parts ! 0) code) (\<lambda>tag.
           and_then (parse_number (parts ! 1) code) (\<lambda>algorithm.
           and_then (parse_number (parts ! 2) code) (\<lambda>digest_type.
             let record = \<lparr>ds_key_tag = tag, ds_algorithm = algorithm, ds_digest_type = digest_type,
                           ds_digest = to_ascii_uppercase (parts ! 3)\<rparr>
             in and_then (map_err (validation code) (validate_ds_record record)) (\<lambda>_. Inr record)))))"

text \<open>The loop over the key signing keys: whether one failed, all DS records, those of active keys.\<close>

fun scan_keys ::
  "Route53KeySigningKey list \<Rightarrow> bool \<times> DnssecDsRecord list \<times> DnssecDsRecord list
     \<Rightarrow> (bool \<times> DnssecDsRecord list \<times> DnssecDsRecord list) ProviderResult" where
  "scan_keys [] acc = Inr acc"
| "scan_keys (k # ks) (failed, records, active_records) =
     and_then
       (if ksk_status k \<in> {''ACTIVE'', ''INACTIVE'', ''DELETING''} then Inr failed
        else if ksk_status k \<in> {''ACTION_NEEDED'', ''INTERNAL_FAILURE''} then Inr True
        else Inl (validation ''unsupported_route53_dnssec_ksk_status'')) (\<lambda>failed'.
       case ksk_ds_record k of
         None \<Rightarrow> scan_keys ks (failed', records, active_records)
       | Some ds \<Rightarrow>
           and_then (parse_ds_record ds) (\<lambda>record.
             scan_keys ks (failed', records @ [record],
               (if ksk_status k = ''ACTIVE'' then active_records @ [record] else active_records))))"

definition sorted_records :: "DnssecDsRecord list \<Rightarrow> DnssecDsRecord list" where
  "sorted_records rs = remdups_adj (sort_key (\<lambda>r. unat (ds_key_tag r)) rs)"

definition signing_state ::
  "string \<Rightarrow> DnssecDsRecord list \<Rightarrow> DnssecDsRecord list \<Rightarrow> (DnssecProviderState \<times> DnssecExternalAction) ProviderResult" where
  "signing_state signature records active_records =
     (if signature = ''NOT_SIGNING'' then
        Inr (if records = [] then (DnssecDisabled, NoAction)
             else (AwaitingDsRemoval, RemoveDs (set (map ds_key_tag records))))
      else if signature = ''SIGNING'' then
        Inr (if active_records = [] then (Enabling, WaitForProviderActivation)
             else (AwaitingDs, PublishDs active_records))
      else if signature = ''DELETING'' then
        Inr (if records = [] then (Disabling, WaitForProviderActivation)
             else (AwaitingDsRemoval, RemoveDs (set (map ds_key_tag records))))
      else Inl (validation ''unsupported_route53_dnssec_signing_status''))"

definition map_dnssec_observation :: "Route53DnssecInfo \<Rightarrow> DnssecObservation ProviderResult" where
  "map_dnssec_observation v =
     and_then (scan_keys (di_key_signing_keys v) (False, [], [])) (\<lambda>(failed, records0, active0).
       let records = sorted_records records0; active_records = sorted_records active0
       in if failed then
            Inr \<lparr>dnssec_state = DnssecFailed, dnssec_ds_records = records, dnssec_external_action = NoAction,
                 dnssec_provider_detail = Some ''ksk_action_required''\<rparr>
          else
            and_then (signing_state (di_serve_signature v) records active_records) (\<lambda>(state, external_action).
              Inr \<lparr>dnssec_state = state, dnssec_ds_records = records, dnssec_external_action = external_action,
                   dnssec_provider_detail = Some (to_ascii_lowercase (di_serve_signature v))\<rparr>))"

definition ksk_rank :: "Route53KeySigningKey \<Rightarrow> string \<times> string list" where
  "ksk_rank k = (ksk_status k, case ksk_ds_record k of None \<Rightarrow> [] | Some ds \<Rightarrow> [ds])"

definition lifecycle_revision :: "route53_crypto \<Rightarrow> Route53HostedZone \<Rightarrow> Route53DnssecInfo option \<Rightarrow> string ProviderResult" where
  "lifecycle_revision cr zone dnssec =
     (let zone' = zone\<lparr>hz_name_servers := sort (hz_name_servers zone)\<rparr>;
          dnssec' = map_option (\<lambda>d. d\<lparr>di_key_signing_keys := sort_key ksk_rank (di_key_signing_keys d)\<rparr>) dnssec
      in and_then (ok_or (validation ''route53_lifecycle_revision_encoding_failed'') (cr_lifecycle_state_json cr (zone', dnssec'))) (\<lambda>bytes.
           map_err (validation ''invalid_route53_lifecycle_revision'')
             (zone_revision_new ''zone lifecycle revision'' (cx_digest (cr_codec cr) bytes))))"

definition validate_lifecycle_zone_ref :: "'w Route53DnsAdapter \<Rightarrow> DnsZoneRef \<Rightarrow> unit ProviderResult" where
  "validate_lifecycle_zone_ref ad zone =
     and_then (map_err (validation ''invalid_zone'') (validate_zone_ref zone)) (\<lambda>_.
       if zone_provider zone \<noteq> Aws \<or> zone_account_id zone \<noteq> ad_center_account_id ad
       then Inl (validation ''route53_zone_scope_mismatch'')
       else and_then (normalize_zone_id (zone_id zone)) (\<lambda>zid.
         if zid \<noteq> zone_id zone then Inl (validation ''route53_zone_scope_mismatch'') else Inr ()))"

definition map_nameserver :: "route53_crypto \<Rightarrow> string \<Rightarrow> string ProviderResult" where
  "map_nameserver cr v =
     and_then (decode_domain_presentation v) (\<lambda>decoded.
       map_err (validation ''invalid_route53_nameserver'') (absolute_dns_name_new (cx_idna (cr_codec cr)) decoded))"

text \<open>The checks on the hosted zone that was read, up to its name servers.\<close>

definition check_hosted_zone :: "route53_crypto \<Rightarrow> DnsZoneRef \<Rightarrow> Route53HostedZone \<Rightarrow> string list ProviderResult" where
  "check_hosted_zone cr zone raw_zone =
     and_then (normalize_zone_id (hz_id raw_zone)) (\<lambda>normalized_id.
     and_then (decode_domain_presentation (hz_name raw_zone)) (\<lambda>decoded.
     and_then (map_err (validation ''invalid_route53_zone_name'') (absolute_dns_name_new (cx_idna (cr_codec cr)) decoded)) (\<lambda>apex.
       if normalized_id \<noteq> zone_id zone \<or> apex \<noteq> zone_apex zone
          \<or> (if hz_private_zone raw_zone then Private else Public) \<noteq> zone_visibility zone
       then Inl (validation ''route53_zone_identity_mismatch'')
       else if hz_has_linked_service raw_zone \<or> hz_has_unsupported_features raw_zone then
         Inl (validation ''route53_zone_lifecycle_unsupported'')
       else
         and_then (collect_ok (map_nameserver cr) (hz_name_servers raw_zone)) (\<lambda>nameservers.
           if \<not> hz_private_zone raw_zone \<and> nameservers = [] then Inl (validation ''missing_route53_delegation_set'')
           else if hz_private_zone raw_zone \<and> nameservers \<noteq> [] then
             Inl (validation ''invalid_route53_private_delegation_set'')
           else Inr nameservers))))"

definition private_dnssec :: DnssecObservation where
  "private_dnssec = \<lparr>dnssec_state = DnssecUnsupported, dnssec_ds_records = [], dnssec_external_action = NoAction,
     dnssec_provider_detail = Some ''private_zone''\<rparr>"

text \<open>\<open>checked_sub(2)\<close> of the record count, then the observation and its validation.\<close>

definition build_observation ::
  "route53_crypto \<Rightarrow> DnsZoneRef \<Rightarrow> Route53HostedZone \<Rightarrow> string list \<Rightarrow> Route53DnssecInfo option
     \<Rightarrow> ZoneLifecycleObservation ProviderResult" where
  "build_observation cr zone raw_zone nameservers dnssec_raw =
     and_then (case dnssec_raw of None \<Rightarrow> Inr private_dnssec | Some v \<Rightarrow> map_dnssec_observation v) (\<lambda>dnssec.
     and_then (if hz_resource_record_set_count raw_zone < 2 then Inl (validation ''invalid_route53_record_set_count'')
               else Inr (hz_resource_record_set_count raw_zone - 2)) (\<lambda>count.
     and_then (lifecycle_revision cr raw_zone dnssec_raw) (\<lambda>revision.
       let observation =
             \<lparr>zlo_zone = zone, zlo_revision = revision, zlo_nameservers = set nameservers,
              zlo_delegation =
                \<lparr>dlg_state = (if hz_private_zone raw_zone then NotApplicable else DelegationNotChecked),
                 dlg_expected_nameservers = (if hz_private_zone raw_zone then {} else set nameservers),
                 dlg_parent_nameservers = {}, dlg_checked_at = None, dlg_failure = None\<rparr>,
              zlo_verification = AuthNotChecked, zlo_readiness = evaluate_zone_readiness AuthNotChecked,
              zlo_dnssec = dnssec, zlo_non_default_record_count = count\<rparr>
       in and_then (map_err (validation ''invalid_route53_lifecycle_observation'') (validate_zone_observation observation)) (\<lambda>_.
            Inr observation))))"

definition observe_lifecycle_inner ::
  "route53_crypto \<Rightarrow> 'w Route53DnsAdapter \<Rightarrow> DnsZoneRef \<Rightarrow> ('w, ZoneLifecycleObservation option) io" where
  "observe_lifecycle_inner cr ad zone =
     io_then (io_lift (validate_lifecycle_zone_ref ad zone)) (\<lambda>_.
     io_then (get_hosted_zone (ad_api ad) (zone_id zone)) (\<lambda>found.
       case found of
         None \<Rightarrow> io_lift (Inr None)
       | Some raw_zone \<Rightarrow>
           io_then (io_lift (check_hosted_zone cr zone raw_zone)) (\<lambda>nameservers.
           io_then (if hz_private_zone raw_zone then io_lift (Inr None)
                    else io_then (get_dnssec (ad_api ad) (zone_id zone)) (\<lambda>d. io_lift (Inr (Some d)))) (\<lambda>dnssec_raw.
           io_then (io_lift (build_observation cr zone raw_zone nameservers dnssec_raw)) (\<lambda>observation.
             io_lift (Inr (Some observation)))))))"

section \<open>Mutations\<close>

definition lifecycle_change_receipt :: "string \<Rightarrow> string \<Rightarrow> ZoneLifecycleMutationReceipt ProviderResult" where
  "lifecycle_change_receipt mutation_id status =
     and_then
       (if status = ''PENDING'' then Inr MutPending
        else if status = ''INSYNC'' then Inr MutSucceeded
        else Inl (validation ''unsupported_route53_change_status'')) (\<lambda>state.
       Inr \<lparr>mr_mutation_id = mutation_id, mr_state = state\<rparr>)"

text \<open>Signing a lifecycle token and wrapping it as a mutation identifier, which both receipts do.\<close>

definition lifecycle_mutation_id :: "route53_crypto \<Rightarrow> 'w Route53DnsAdapter \<Rightarrow> LifecycleMutationToken \<Rightarrow> string ProviderResult" where
  "lifecycle_mutation_id cr ad token =
     and_then (lifecycle_token_key ad) (\<lambda>key.
     and_then (sign_token cr (cr_lifecycle_json cr token) key LifecycleToken) (\<lambda>signed.
     and_then (map_err (unknown_outcome ''route53_lifecycle_receipt_encoding_failed'') (validate_mutation_id signed)) (\<lambda>_.
       Inr signed)))"

definition lifecycle_receipt ::
  "route53_crypto \<Rightarrow> 'w Route53DnsAdapter \<Rightarrow> string option \<Rightarrow> LifecycleOperation \<Rightarrow> Route53ChangeInfo
     \<Rightarrow> ZoneLifecycleMutationReceipt ProviderResult" where
  "lifecycle_receipt cr ad zid operation change =
     and_then (map_err (unknown_outcome ''invalid_route53_lifecycle_change'') (normalize_change_id (ci_id change))) (\<lambda>provider_change_id.
       if ci_submitted_at change < 0 then Inl (unknown_outcome ''invalid_route53_lifecycle_change'')
       else
         and_then (lifecycle_mutation_id cr ad
             \<lparr>lt_version = 1, lt_center_scope = scope_hash cr (ad_center_account_id ad),
              lt_account_scope = scope_hash cr (ad_aws_account_id ad), lt_zone_scope = map_option (scope_hash cr) zid,
              lt_provider_change_id = Some provider_change_id, lt_submitted_at = ci_submitted_at change,
              lt_operation = operation\<rparr>) (\<lambda>mutation_id.
           lifecycle_change_receipt mutation_id (ci_status change)))"

definition recovered_create_receipt ::
  "route53_crypto \<Rightarrow> 'w Route53DnsAdapter \<Rightarrow> string \<Rightarrow> ZoneLifecycleMutationReceipt ProviderResult" where
  "recovered_create_receipt cr ad zid =
     and_then (lifecycle_mutation_id cr ad
         \<lparr>lt_version = 1, lt_center_scope = scope_hash cr (ad_center_account_id ad),
          lt_account_scope = scope_hash cr (ad_aws_account_id ad), lt_zone_scope = Some (scope_hash cr zid),
          lt_provider_change_id = None, lt_submitted_at = 0, lt_operation = OpCreate\<rparr>) (\<lambda>mutation_id.
       Inr \<lparr>mr_mutation_id = mutation_id, mr_state = MutSucceeded\<rparr>)"

fun find_zone_pages ::
  "'w Route53DnsAdapter \<Rightarrow> string \<Rightarrow> nat \<Rightarrow> string option \<Rightarrow> string list \<Rightarrow> ('w, Route53HostedZone option) io" where
  "find_zone_pages ad caller_reference 0 marker seen = io_lift (Inl (validation ''route53_zone_pagination_limit''))"
| "find_zone_pages ad caller_reference (Suc n) marker seen =
     io_then (list_hosted_zones (ad_api ad) marker HOSTED_ZONE_PAGE_SIZE) (\<lambda>page.
     io_then (io_lift (validate_zone_page page)) (\<lambda>_.
       case find (\<lambda>z. hz_caller_reference z = caller_reference) (zp_items page) of
         Some zone \<Rightarrow> io_lift (Inr (Some zone))
       | None \<Rightarrow>
           (case zp_next_marker page of
              None \<Rightarrow> io_lift (Inr None)
            | Some next \<Rightarrow>
                if next \<in> set seen then io_lift (Inl (validation ''route53_zone_pagination_loop''))
                else find_zone_pages ad caller_reference n (Some next) (next # seen))))"

definition find_zone_by_caller_reference :: "'w Route53DnsAdapter \<Rightarrow> string \<Rightarrow> ('w, Route53HostedZone option) io" where
  "find_zone_by_caller_reference ad caller_reference = find_zone_pages ad caller_reference MAX_PROVIDER_PAGES None []"

definition stable_caller_reference :: "route53_crypto \<Rightarrow> string \<Rightarrow> string \<Rightarrow> string \<Rightarrow> string" where
  "stable_caller_reference cr center_scope account_scope key =
     ''edgion-'' @ cx_digest (cr_codec cr) (center_scope @ [CHR 0x00] @ account_scope @ [CHR 0x00] @ key)"

definition validate_created_zone :: "route53_crypto \<Rightarrow> Route53HostedZone \<Rightarrow> ZoneCreationRequest \<Rightarrow> string \<Rightarrow> unit ProviderResult" where
  "validate_created_zone cr zone request caller_reference =
     and_then (decode_domain_presentation (hz_name zone)) (\<lambda>decoded.
     and_then (map_err (validation ''invalid_route53_zone_name'') (absolute_dns_name_new (cx_idna (cr_codec cr)) decoded)) (\<lambda>apex.
     and_then (normalize_zone_id (hz_id zone)) (\<lambda>_.
       if hz_private_zone zone \<or> hz_has_linked_service zone \<or> hz_has_unsupported_features zone
          \<or> hz_caller_reference zone \<noteq> caller_reference \<or> apex \<noteq> zc_apex request \<or> hz_name_servers zone = []
       then Inl (validation ''route53_create_zone_result_mismatch'') else Inr ())))"

text \<open>The zone the caller reference found is read again and answered; a created zone is checked.\<close>

definition recover_zone ::
  "route53_crypto \<Rightarrow> 'w Route53DnsAdapter \<Rightarrow> ZoneCreationRequest \<Rightarrow> string \<Rightarrow> Route53HostedZone
     \<Rightarrow> ('w, ZoneLifecycleMutationReceipt) io" where
  "recover_zone cr ad request caller_reference listed =
     io_then (io_lift (normalize_zone_id (hz_id listed))) (\<lambda>zid.
     io_then (get_hosted_zone (ad_api ad) zid) (\<lambda>reread.
     io_then (io_lift (ok_or (unknown_outcome ''route53_recovered_zone_disappeared'') reread)) (\<lambda>found.
     io_then (io_lift (validate_created_zone cr found request caller_reference)) (\<lambda>_.
       io_lift (recovered_create_receipt cr ad zid)))))"

definition settle_create ::
  "route53_crypto \<Rightarrow> 'w Route53DnsAdapter \<Rightarrow> ZoneCreationRequest \<Rightarrow> string \<Rightarrow> Route53CreateHostedZoneResult
     \<Rightarrow> ZoneLifecycleMutationReceipt ProviderResult" where
  "settle_create cr ad request caller_reference created =
     (let mismatch = unknown_outcome ''route53_create_zone_result_mismatch''
      in and_then (map_err mismatch (validate_created_zone cr (cz_hosted_zone created) request caller_reference)) (\<lambda>_.
         and_then (map_err mismatch (normalize_zone_id (hz_id (cz_hosted_zone created)))) (\<lambda>zid.
           lifecycle_receipt cr ad (Some zid) OpCreate (cz_change created))))"

definition create_zone ::
  "route53_crypto \<Rightarrow> 'w Route53DnsAdapter \<Rightarrow> ZoneCreationRequest \<Rightarrow> ('w, ZoneLifecycleMutationReceipt) io" where
  "create_zone cr ad request =
     io_then (io_lift (lifecycle_token_key ad)) (\<lambda>_.
       if zc_provider request \<noteq> Aws \<or> zc_provider_account_id request \<noteq> ad_center_account_id ad then
         io_lift (Inl (validation ''route53_zone_creation_scope_mismatch''))
       else if zc_visibility request \<noteq> Public then
         io_lift (Inl (validation ''route53_private_zone_creation_requires_vpc''))
       else
         let caller_reference =
               stable_caller_reference cr (ad_center_account_id ad) (ad_aws_account_id ad) (zc_idempotency_key request)
         in io_then (find_zone_by_caller_reference ad caller_reference) (\<lambda>found.
              case found of
                Some listed \<Rightarrow> recover_zone cr ad request caller_reference listed
              | None \<Rightarrow>
                  io_then (create_hosted_zone (ad_api ad)
                             \<lparr>cr_name = zc_apex request, cr_caller_reference = caller_reference\<rparr>) (\<lambda>created.
                    io_lift (settle_create cr ad request caller_reference created))))"

definition observe_zone :: "route53_crypto \<Rightarrow> 'w Route53DnsAdapter \<Rightarrow> DnsZoneRef \<Rightarrow> ('w, ZoneLifecycleObservation option) io" where
  "observe_zone cr ad zone = observe_lifecycle_inner cr ad zone"

text \<open>The fresh observation that every guarded mutation starts from, checked against the expected revision.\<close>

definition observe_at_revision ::
  "route53_crypto \<Rightarrow> 'w Route53DnsAdapter \<Rightarrow> DnsZoneRef \<Rightarrow> string \<Rightarrow> ('w, ZoneLifecycleObservation) io" where
  "observe_at_revision cr ad zone expected_revision =
     io_then (observe_lifecycle_inner cr ad zone) (\<lambda>found.
     io_then (io_lift (ok_or (not_found ''route53_zone_not_found'') found)) (\<lambda>observed.
       if zlo_revision observed \<noteq> expected_revision then
         io_lift (Inl (conflict ''route53_zone_lifecycle_revision_conflict''))
       else io_lift (Inr observed)))"

definition enable_dnssec ::
  "route53_crypto \<Rightarrow> 'w Route53DnsAdapter \<Rightarrow> DnsZoneRef \<Rightarrow> ZoneLifecycleObservation \<Rightarrow> ('w, ZoneLifecycleMutationReceipt) io" where
  "enable_dnssec cr ad zone observed =
     (if dnssec_state (zlo_dnssec observed) \<in> {Enabling, AwaitingDs, DnssecActive} then
        io_lift (Inl (conflict ''route53_dnssec_already_enabled''))
      else
        io_then (get_dnssec (ad_api ad) (zone_id zone)) (\<lambda>raw.
          if \<not> list_ex (\<lambda>k. ksk_status k = ''ACTIVE'' \<and> ksk_ds_record k \<noteq> None) (di_key_signing_keys raw) then
            io_lift (Inl (conflict ''route53_dnssec_active_ksk_required''))
          else
            io_then (enable_hosted_zone_dnssec (ad_api ad) (zone_id zone)) (\<lambda>change.
              io_lift (lifecycle_receipt cr ad (Some (zone_id zone)) OpEnableDnssec change))))"

definition set_dnssec ::
  "route53_crypto \<Rightarrow> 'w Route53DnsAdapter \<Rightarrow> DnsZoneRef \<Rightarrow> DnssecDesiredState \<Rightarrow> string \<Rightarrow> ('w, ZoneLifecycleMutationReceipt) io" where
  "set_dnssec cr ad zone desired expected_revision =
     io_then (io_lift (lifecycle_token_key ad)) (\<lambda>_.
     io_then (observe_at_revision cr ad zone expected_revision) (\<lambda>observed.
       if zone_visibility zone \<noteq> Public then io_lift (Inl (conflict ''route53_private_dnssec_unsupported''))
       else case desired of
         DnssecOn \<Rightarrow> enable_dnssec cr ad zone observed
       | DnssecOff \<Rightarrow>
           if dnssec_state (zlo_dnssec observed) = DnssecDisabled then
             io_lift (Inl (conflict ''route53_dnssec_already_disabled''))
           else io_lift (Inl (conflict ''route53_dnssec_parent_ds_removal_verification_required''))))"

text \<open>The precondition of a deletion and its dispatch; the two deletions differ in the DNSSEC states they admit.\<close>

definition dispatch_delete ::
  "route53_crypto \<Rightarrow> 'w Route53DnsAdapter \<Rightarrow> DnsZoneRef \<Rightarrow> string \<Rightarrow> DnssecProviderState set \<Rightarrow> ('w, ZoneLifecycleMutationReceipt) io" where
  "dispatch_delete cr ad zone expected_revision admitted =
     io_then (observe_at_revision cr ad zone expected_revision) (\<lambda>observed.
       if zlo_non_default_record_count observed \<noteq> 0 \<or> dnssec_state (zlo_dnssec observed) \<notin> admitted then
         io_lift (Inl (conflict ''route53_zone_deletion_precondition_failed''))
       else
         io_then (delete_hosted_zone (ad_api ad) (zone_id zone)) (\<lambda>change.
           io_lift (lifecycle_receipt cr ad (Some (zone_id zone)) OpDelete change)))"

definition delete_zone_with_exact_guard ::
  "route53_crypto \<Rightarrow> 'w Route53DnsAdapter \<Rightarrow> DnsZoneRef \<Rightarrow> string \<Rightarrow> ('w, ZoneLifecycleMutationReceipt) io" where
  "delete_zone_with_exact_guard cr ad zone expected_revision =
     io_then (io_lift (lifecycle_token_key ad)) (\<lambda>_.
       if zone_visibility zone \<noteq> Public then io_lift (Inl (validation ''route53_private_zone_deletion_unsupported''))
       else dispatch_delete cr ad zone expected_revision {DnssecDisabled})"

definition delete_zone ::
  "route53_crypto \<Rightarrow> 'w Route53DnsAdapter \<Rightarrow> ZoneDeletionRequest \<Rightarrow> ('w, ZoneLifecycleMutationReceipt) io" where
  "delete_zone cr ad request =
     io_then (io_lift (lifecycle_token_key ad)) (\<lambda>_.
       if approved_revision (zdr_approval request) \<noteq> zdr_revision request
          \<or> approved_zone (zdr_approval request) \<noteq> zdr_zone request
          \<or> trim (approved_by (zdr_approval request)) = [] \<or> trim (approved_at (zdr_approval request)) = []
          \<or> acknowledgements (zdr_approval request) \<noteq> {} then
         io_lift (Inl (validation ''invalid_route53_zone_deletion_approval''))
       else dispatch_delete cr ad (zdr_zone request) (zdr_revision request) {DnssecDisabled, DnssecUnsupported})"

definition decode_lifecycle_token :: "route53_crypto \<Rightarrow> 'w Route53DnsAdapter \<Rightarrow> string \<Rightarrow> LifecycleMutationToken ProviderResult" where
  "decode_lifecycle_token cr ad mutation_id =
     (let missing = not_found ''route53_lifecycle_mutation_not_found''
      in and_then (lifecycle_token_key ad) (\<lambda>key.
         and_then (map_err missing (verify_token cr (cr_lifecycle_unjson cr) mutation_id key LifecycleToken)) (\<lambda>token.
           if lt_version token \<noteq> 1
              \<or> lt_center_scope token \<noteq> scope_hash cr (ad_center_account_id ad)
              \<or> lt_account_scope token \<noteq> scope_hash cr (ad_aws_account_id ad)
              \<or> lt_zone_scope token = None \<or> lt_zone_scope token = Some []
           then Inl missing else Inr token)))"

definition observe_mutation :: "route53_crypto \<Rightarrow> 'w Route53DnsAdapter \<Rightarrow> string \<Rightarrow> ('w, ZoneLifecycleMutationReceipt) io" where
  "observe_mutation cr ad mutation_id =
     (let missing = not_found ''route53_lifecycle_mutation_not_found''
      in io_then (io_lift (decode_lifecycle_token cr ad mutation_id)) (\<lambda>token.
           case lt_provider_change_id token of
             None \<Rightarrow>
               if lt_operation token \<noteq> OpCreate then io_lift (Inl missing)
               else io_lift (Inr \<lparr>mr_mutation_id = mutation_id, mr_state = MutSucceeded\<rparr>)
           | Some provider_change_id \<Rightarrow>
               if normalize_change_id provider_change_id \<noteq> Inr provider_change_id then io_lift (Inl missing)
               else
                 io_then (get_change (ad_api ad) provider_change_id) (\<lambda>found.
                 io_then (io_lift (ok_or missing found)) (\<lambda>change.
                   if normalize_change_id (ci_id change) \<noteq> Inr provider_change_id
                      \<or> ci_submitted_at change \<noteq> lt_submitted_at token
                   then io_lift (Inl (validation ''route53_lifecycle_change_metadata_mismatch''))
                   else io_lift (lifecycle_change_receipt mutation_id (ci_status change))))))"

section \<open>Lemmas\<close>

lemma scan_keys_step:
  assumes "scan_keys (k # ks) (failed, records, active) = Inr out"
  shows "\<exists>failed1. (failed1 \<longleftrightarrow> failed \<or> ksk_status k \<in> {''ACTION_NEEDED'', ''INTERNAL_FAILURE''})
    \<and> (if ksk_ds_record k = None then scan_keys ks (failed1, records, active) = Inr out
       else \<exists>rec0. parse_ds_record (the (ksk_ds_record k)) = Inr rec0
         \<and> scan_keys ks (failed1, records @ [rec0], if ksk_status k = ''ACTIVE'' then active @ [rec0] else active) = Inr out)"
proof -
  from assms obtain failed1 where f:
    "(if ksk_status k \<in> {''ACTIVE'', ''INACTIVE'', ''DELETING''} then Inr failed
      else if ksk_status k \<in> {''ACTION_NEEDED'', ''INTERNAL_FAILURE''} then Inr True
      else Inl (validation ''unsupported_route53_dnssec_ksk_status'')) = Inr failed1"
    and rest: "(case ksk_ds_record k of
         None \<Rightarrow> scan_keys ks (failed1, records, active)
       | Some ds \<Rightarrow> and_then (parse_ds_record ds) (\<lambda>rec0.
           scan_keys ks (failed1, records @ [rec0], if ksk_status k = ''ACTIVE'' then active @ [rec0] else active))) = Inr out"
    unfolding scan_keys.simps and_then_eq_Inr by blast
  from f have "failed1 \<longleftrightarrow> failed \<or> ksk_status k \<in> {''ACTION_NEEDED'', ''INTERNAL_FAILURE''}" by (auto split: if_splits)
  moreover from rest have "if ksk_ds_record k = None then scan_keys ks (failed1, records, active) = Inr out
       else \<exists>rec0. parse_ds_record (the (ksk_ds_record k)) = Inr rec0
         \<and> scan_keys ks (failed1, records @ [rec0], if ksk_status k = ''ACTIVE'' then active @ [rec0] else active) = Inr out"
    by (cases "ksk_ds_record k") (auto simp: and_then_eq_Inr)
  ultimately show ?thesis by blast
qed

lemma scan_keys_clean:
  "scan_keys ks (failed, records, active) = Inr (failed', records', active') \<Longrightarrow>
     (failed' \<longleftrightarrow> failed \<or> (\<exists>k \<in> set ks. ksk_status k \<in> {''ACTION_NEEDED'', ''INTERNAL_FAILURE''}))
     \<and> (records' = [] \<longleftrightarrow> records = [] \<and> (\<forall>k \<in> set ks. ksk_ds_record k = None))"
proof (induction ks arbitrary: failed records active)
  case (Cons k ks)
  from scan_keys_step [OF Cons.prems] obtain failed1 where f: "failed1 \<longleftrightarrow> failed \<or> ksk_status k \<in> {''ACTION_NEEDED'', ''INTERNAL_FAILURE''}"
    and rest: "if ksk_ds_record k = None then scan_keys ks (failed1, records, active) = Inr (failed', records', active')
       else \<exists>rec0. parse_ds_record (the (ksk_ds_record k)) = Inr rec0
         \<and> scan_keys ks (failed1, records @ [rec0], if ksk_status k = ''ACTIVE'' then active @ [rec0] else active)
             = Inr (failed', records', active')" by blast
  show ?case
  proof (cases "ksk_ds_record k")
    case None
    with rest Cons.IH have "(failed' \<longleftrightarrow> failed1 \<or> (\<exists>k \<in> set ks. ksk_status k \<in> {''ACTION_NEEDED'', ''INTERNAL_FAILURE''}))
        \<and> (records' = [] \<longleftrightarrow> records = [] \<and> (\<forall>k \<in> set ks. ksk_ds_record k = None))" by metis
    with f None show ?thesis by auto
  next
    case (Some ds)
    with rest obtain rec0 active1 where "scan_keys ks (failed1, records @ [rec0], active1) = Inr (failed', records', active')" by auto
    from Cons.IH [OF this] f Some show ?thesis by auto
  qed
qed simp

lemma sorted_records_Nil [simp]: "sorted_records rs = [] \<longleftrightarrow> rs = []"
  by (cases rs) (auto simp: sorted_records_def)

text \<open>The provider serves no signature and no key has a DS record: the only way to \<open>Disabled\<close>.\<close>

lemma dnssec_disabled_iff:
  assumes "map_dnssec_observation info = Inr d"
  shows "dnssec_state d = DnssecDisabled \<longleftrightarrow>
     di_serve_signature info = ''NOT_SIGNING''
     \<and> (\<forall>k \<in> set (di_key_signing_keys info). ksk_ds_record k = None \<and> ksk_status k \<notin> {''ACTION_NEEDED'', ''INTERNAL_FAILURE''})"
proof -
  obtain failed records active where s: "scan_keys (di_key_signing_keys info) (False, [], []) = Inr (failed, records, active)"
    using assms by (auto simp: map_dnssec_observation_def and_then_eq_Inr)
  from assms show ?thesis
    using scan_keys_clean [OF s] by (auto simp: map_dnssec_observation_def s signing_state_def Let_def and_then_eq_Inr split: if_splits)
qed

lemma observe_lifecycle_ok:
  assumes "observe_lifecycle_inner cr ad zone w = (Inr (Some obs), w')"
  shows "validate_lifecycle_zone_ref ad zone = Inr () \<and> (\<exists>raw nameservers dnssec w0.
     get_hosted_zone (ad_api ad) (zone_id zone) w = (Inr (Some raw), w0) \<and> check_hosted_zone cr zone raw = Inr nameservers
     \<and> build_observation cr zone raw nameservers dnssec = Inr obs
     \<and> (if hz_private_zone raw then dnssec = None \<and> w' = w0
        else \<exists>info. dnssec = Some info \<and> get_dnssec (ad_api ad) (zone_id zone) w0 = (Inr info, w')))"
proof -
  from assms obtain found w0 where f: "validate_lifecycle_zone_ref ad zone = Inr ()"
    "get_hosted_zone (ad_api ad) (zone_id zone) w = (Inr found, w0)"
    and rest: "(case found of
         None \<Rightarrow> io_lift (Inr None)
       | Some raw_zone \<Rightarrow>
           io_then (io_lift (check_hosted_zone cr zone raw_zone)) (\<lambda>nameservers.
           io_then (if hz_private_zone raw_zone then io_lift (Inr None)
                    else io_then (get_dnssec (ad_api ad) (zone_id zone)) (\<lambda>d. io_lift (Inr (Some d)))) (\<lambda>dnssec_raw.
           io_then (io_lift (build_observation cr zone raw_zone nameservers dnssec_raw)) (\<lambda>observation.
             io_lift (Inr (Some observation)))))) w0 = (Inr (Some obs), w')"
    by (auto simp: observe_lifecycle_inner_def io_then_eq_Inr)
  then obtain raw where "found = Some raw" by (cases found) auto
  with f rest show ?thesis by (cases "hz_private_zone raw") (auto simp: io_then_eq_Inr)
qed

definition reads_keep :: "'w Route53Api \<Rightarrow> ('w \<Rightarrow> 's) \<Rightarrow> string \<Rightarrow> bool" where
  "reads_keep api state zid \<longleftrightarrow>
     (\<forall>w. state (snd (get_hosted_zone api zid w)) = state w \<and> state (snd (get_dnssec api zid w)) = state w)"

lemma observe_keeps: "reads_keep (ad_api ad) state (zone_id zone) \<Longrightarrow> state (snd (observe_lifecycle_inner cr ad zone w)) = state w"
  unfolding observe_lifecycle_inner_def reads_keep_def io_then_def io_lift_def
  by (auto split: prod.splits sum.splits option.splits) (metis snd_conv)+

lemma observe_at_revision_keeps:
  assumes "reads_keep (ad_api ad) state (zone_id zone)"
  shows "state (snd (observe_at_revision cr ad zone rvn w)) = state w"
  using observe_keeps [OF assms, of cr w]
  by (auto simp: observe_at_revision_def io_then_def ok_or_def split: prod.splits sum.splits option.splits)

lemma dispatched_delete:
  assumes "reads_keep (ad_api ad) state (zone_id zone)" "dispatch_delete cr ad zone rvn admitted w = (r, w')" "state w' \<noteq> state w"
  shows "\<exists>obs w1. observe_lifecycle_inner cr ad zone w = (Inr (Some obs), w1) \<and> zlo_revision obs = rvn
     \<and> zlo_non_default_record_count obs = 0 \<and> dnssec_state (zlo_dnssec obs) \<in> admitted"
proof -
  obtain a w1 where at: "observe_at_revision cr ad zone rvn w = (a, w1)" by fastforce
  have "state w1 = state w" using observe_at_revision_keeps [OF assms(1), of cr rvn w] at by simp
  with assms(2,3) at obtain obs where obs: "a = Inr obs" "zlo_non_default_record_count obs = 0" "dnssec_state (zlo_dnssec obs) \<in> admitted"
    by (cases a) (auto simp: dispatch_delete_def io_then_def split: if_splits)
  with at show ?thesis
    by (auto simp: observe_at_revision_def io_then_eq_Inr split: if_splits)
qed

lemma built_observation:
  assumes "build_observation cr zone raw nameservers dnssec = Inr obs"
  shows "zlo_zone obs = zone" "lifecycle_revision cr raw dnssec = Inr (zlo_revision obs)"
    "2 \<le> hz_resource_record_set_count raw" "zlo_non_default_record_count obs = hz_resource_record_set_count raw - 2"
    "(case dnssec of None \<Rightarrow> Inr private_dnssec | Some v \<Rightarrow> map_dnssec_observation v) = Inr (zlo_dnssec obs)"
    "dlg_state (zlo_delegation obs) = (if hz_private_zone raw then NotApplicable else DelegationNotChecked)"
    "zlo_readiness obs = AwaitingAuthoritativeVerification" "validate_zone_observation obs = Inr ()"
  using assms by (auto simp: build_observation_def and_then_eq_Inr Let_def not_less split: if_splits)

section \<open>Properties\<close>

text \<open>
  C27: A hosted zone is deleted only on fresh evidence. If the guarded deletion changed anything at the
  provider, the provider had just answered that the zone of this identifier and apex is public, without
  linked service, holds its two default record sets and nothing else, serves no signature and has no key
  with a DS record, and the revision of exactly this answer is the expected one. Reading alone does not
  count as a change.
\<close>

theorem zone_deletion_needs_fresh_evidence:
  assumes "reads_keep (ad_api ad) state (zone_id zone)"
    and "delete_zone_with_exact_guard cr ad zone expected_revision w = (r, w')" and "state w' \<noteq> state w"
  shows "\<exists>raw info w0. get_hosted_zone (ad_api ad) (zone_id zone) w = (Inr (Some raw), w0)
     \<and> fst (get_dnssec (ad_api ad) (zone_id zone) w0) = Inr info
     \<and> normalize_zone_id (hz_id raw) = Inr (zone_id zone)
     \<and> (\<exists>name. decode_domain_presentation (hz_name raw) = Inr name
          \<and> absolute_dns_name_new (cx_idna (cr_codec cr)) name = Inr (zone_apex zone))
     \<and> \<not> hz_private_zone raw \<and> \<not> hz_has_linked_service raw \<and> hz_resource_record_set_count raw = 2
     \<and> di_serve_signature info = ''NOT_SIGNING'' \<and> (\<forall>k \<in> set (di_key_signing_keys info). ksk_ds_record k = None)
     \<and> lifecycle_revision cr raw (Some info) = Inr expected_revision"
proof -
  have public: "zone_visibility zone = Public"
    and run: "dispatch_delete cr ad zone expected_revision {DnssecDisabled} w = (r, w')"
    using assms(2,3) by (cases "lifecycle_token_key ad"; auto simp: delete_zone_with_exact_guard_def split: if_splits)+
  from dispatched_delete [OF assms(1) run assms(3)] obtain obs w1 where obs:
    "observe_lifecycle_inner cr ad zone w = (Inr (Some obs), w1)" "zlo_revision obs = expected_revision"
    "zlo_non_default_record_count obs = 0" "dnssec_state (zlo_dnssec obs) = DnssecDisabled" by auto
  from observe_lifecycle_ok [OF obs(1)] obtain raw nameservers dnssec w0 where o:
    "get_hosted_zone (ad_api ad) (zone_id zone) w = (Inr (Some raw), w0)" "check_hosted_zone cr zone raw = Inr nameservers"
    "build_observation cr zone raw nameservers dnssec = Inr obs"
    "if hz_private_zone raw then dnssec = None \<and> w1 = w0
     else \<exists>info. dnssec = Some info \<and> get_dnssec (ad_api ad) (zone_id zone) w0 = (Inr info, w1)" by blast
  have c: "normalize_zone_id (hz_id raw) = Inr (zone_id zone)" "\<not> hz_private_zone raw" "\<not> hz_has_linked_service raw"
    "\<exists>name. decode_domain_presentation (hz_name raw) = Inr name
       \<and> absolute_dns_name_new (cx_idna (cr_codec cr)) name = Inr (zone_apex zone)"
    using o(2) public by (auto simp: check_hosted_zone_def and_then_eq_Inr split: if_splits)
  with o(4) obtain info where info: "dnssec = Some info" "get_dnssec (ad_api ad) (zone_id zone) w0 = (Inr info, w1)" by auto
  note b = built_observation [OF o(3)]
  have "hz_resource_record_set_count raw = 2" using b(4) obs(3) by simp
  moreover have "map_dnssec_observation info = Inr (zlo_dnssec obs)" using b(5) info(1) by simp
  ultimately show ?thesis
    using o(1) c info b(2) obs(2,4) dnssec_disabled_iff [of info "zlo_dnssec obs"] by auto
qed

text \<open>
  Every lifecycle observation of the adapter is valid and promises nothing it did not see: it is for
  the requested zone, is never ready, and leaves the delegation of a public zone unchecked, so that no
  approval turns it into a deletion request of the generic contract. A private zone can be deleted
  that way only when it holds no own record.
\<close>

theorem observations_do_not_authorise_deletion:
  assumes "observe_zone cr ad zone w = (Inr (Some obs), w')"
  shows "validate_zone_observation obs = Inr () \<and> zlo_zone obs = zone \<and> zlo_readiness obs \<noteq> ZoneReady
     \<and> (\<forall>req. authorize_zone_deletion (plan_from_observation obs origin management deletion) approval = Inr req \<longrightarrow>
          zone_visibility zone = Private \<and> zlo_non_default_record_count obs = 0)"
proof -
  from observe_lifecycle_ok [OF assms [unfolded observe_zone_def]] obtain raw nameservers dnssec where o:
    "check_hosted_zone cr zone raw = Inr nameservers" "build_observation cr zone raw nameservers dnssec = Inr obs" by blast
  note b = built_observation [OF o(2)]
  have "hz_private_zone raw \<longleftrightarrow> zone_visibility zone = Private"
    using o(1) by (auto simp: check_hosted_zone_def and_then_eq_Inr split: if_splits)
  with b(1,6-8) show ?thesis by (auto simp: authorize_ok plan_from_observation_def)
qed

text \<open>
  Creating a zone is repeatable. A new zone is requested only after the complete listing of the account
  has no zone with the caller reference, which depends on the accounts and the idempotency key alone;
  when there is one, the call creates nothing, and returns a succeeded receipt only if that zone is the
  requested one.
\<close>

theorem creation_is_repeatable:
  assumes "create_zone cr ad request w = (r, w')"
    and "find_zone_by_caller_reference ad
           (stable_caller_reference cr (ad_center_account_id ad) (ad_aws_account_id ad) (zc_idempotency_key request)) w = (Inr (Some listed), w1)"
    and "\<forall>w zid. state (snd (get_hosted_zone (ad_api ad) zid w)) = state w" "state w1 = state w"
  shows "state w' = state w \<and> (\<forall>receipt. r = Inr receipt \<longrightarrow> mr_state receipt = MutSucceeded
     \<and> (\<exists>zid found w2. normalize_zone_id (hz_id listed) = Inr zid \<and> get_hosted_zone (ad_api ad) zid w1 = (Inr (Some found), w2)
          \<and> \<not> hz_private_zone found
          \<and> hz_caller_reference found = stable_caller_reference cr (ad_center_account_id ad) (ad_aws_account_id ad) (zc_idempotency_key request)))"
proof -
  let ?ref = "stable_caller_reference cr (ad_center_account_id ad) (ad_aws_account_id ad) (zc_idempotency_key request)"
  from assms(1) consider e where "r = Inl e" "w' = w" | "recover_zone cr ad request ?ref listed w1 = (r, w')"
    using assms(2) by (cases "lifecycle_token_key ad") (auto simp: create_zone_def io_then_def Let_def split: if_splits)
  then show ?thesis
  proof cases
    case 2
    have "state (snd (recover_zone cr ad request ?ref listed w1)) = state w1"
      using assms(3) by (auto simp: recover_zone_def io_then_def split: prod.splits sum.splits) (metis snd_conv)+
    with 2 assms(4) have "state w' = state w" by simp
    moreover have "mr_state receipt = MutSucceeded \<and> (\<exists>zid found w2. normalize_zone_id (hz_id listed) = Inr zid
        \<and> get_hosted_zone (ad_api ad) zid w1 = (Inr (Some found), w2) \<and> \<not> hz_private_zone found \<and> hz_caller_reference found = ?ref)"
      if "r = Inr receipt" for receipt
      using 2 that by (auto simp: recover_zone_def io_then_eq_Inr validate_created_zone_def recovered_create_receipt_def and_then_eq_Inr split: if_splits)
    ultimately show ?thesis by blast
  qed simp
qed

section \<open>Examples\<close>

definition aws_unsigned :: Route53DnssecInfo where
  "aws_unsigned = \<lparr>di_serve_signature = ''NOT_SIGNING'', di_key_signing_keys = []\<rparr>"

lemma aws_lifecycle_revision: "lifecycle_revision aws_crypto z d = Inr ''d''"
proof -
  have "list_all graphic ''d''" by (simp add: graphic_def byte_def)
  then have "zone_revision_new ''zone lifecycle revision'' ''d'' = Inr ''d''"
    by (simp add: zone_revision_new_def string_simps del: has_control.simps list.pred_inject)
  then show ?thesis by (simp add: lifecycle_revision_def Let_def) (simp add: aws_crypto_def aws_codec_def)
qed

lemma aws_observation:
  "\<exists>obs. observe_lifecycle_inner aws_crypto aws_adapter aws_zone w = (Inr (Some obs), w) \<and> zlo_revision obs = ''d''
     \<and> zlo_non_default_record_count obs = 0 \<and> dnssec_state (zlo_dnssec obs) = DnssecDisabled"
proof -
  have n: "normalize_zone_id ''/hostedzone/Z1'' = Inr ''Z1''" "normalize_zone_id ''Z1'' = Inr ''Z1''"
    "decode_domain_presentation ''a.io.'' = Inr ''a.io.''" "decode_domain_presentation ''ns.a.io'' = Inr ''ns.a.io''"
    "absolute_dns_name_new Some ''a.io.'' = Inr ''a.io''" "absolute_dns_name_new Some ''ns.a.io'' = Inr ''ns.a.io''"
    "to_ascii_lowercase ''NOT_SIGNING'' = ''not_signing''" by code_simp+
  have ref: "validate_lifecycle_zone_ref aws_adapter aws_zone = Inr ()"
    using n by (simp add: validate_lifecycle_zone_ref_def aws_zone_valid) (simp add: aws_adapter_def aws_zone_def)
  have checked: "check_hosted_zone aws_crypto aws_zone aws_hosted = Inr [''ns.a.io'']"
    using n by (simp add: check_hosted_zone_def map_nameserver_def aws_hosted_def aws_codec_def) (simp add: aws_zone_def)
  have "\<exists>obs. build_observation aws_crypto aws_zone aws_hosted [''ns.a.io''] (Some aws_unsigned) = Inr obs \<and> zlo_revision obs = ''d''
     \<and> zlo_non_default_record_count obs = 0 \<and> dnssec_state (zlo_dnssec obs) = DnssecDisabled"
    by (simp add: build_observation_def aws_unsigned_def map_dnssec_observation_def sorted_records_def signing_state_def aws_lifecycle_revision
        Let_def validate_zone_observation_def aws_zone_valid)
      (simp add: aws_hosted_def validate_delegation_def aws_zone_def validate_external_action_def)
  with ref checked show ?thesis
    by (simp add: observe_lifecycle_inner_def) (auto simp: io_then_def aws_adapter_def aws_api_def aws_zone_def aws_unsigned_def aws_hosted_def)
qed

theorem zone_deletion_needs_fresh_evidence_witness:
  "\<exists>raw info w0. get_hosted_zone aws_api ''Z1'' True = (Inr (Some raw), w0) \<and> hz_resource_record_set_count raw = 2
     \<and> lifecycle_revision aws_crypto raw (Some info) = Inr ''d''"
proof -
  have keep: "reads_keep (ad_api aws_adapter) (\<lambda>w. w) (zone_id aws_zone)" by (simp add: reads_keep_def aws_adapter_def aws_api_def)
  obtain obs where obs: "observe_lifecycle_inner aws_crypto aws_adapter aws_zone True = (Inr (Some obs), True)" "zlo_revision obs = ''d''"
    "zlo_non_default_record_count obs = 0" "dnssec_state (zlo_dnssec obs) = DnssecDisabled" using aws_observation by blast
  have "lifecycle_token_key aws_adapter = Inr ''k3''" "zone_visibility aws_zone = Public"
    by (simp_all add: lifecycle_token_key_def aws_adapter_def aws_zone_def)
  with obs have "\<exists>r. delete_zone_with_exact_guard aws_crypto aws_adapter aws_zone ''d'' True = (r, False)"
    by (simp add: delete_zone_with_exact_guard_def dispatch_delete_def observe_at_revision_def io_then_def)
      (simp add: aws_adapter_def aws_api_def)
  then obtain r where "delete_zone_with_exact_guard aws_crypto aws_adapter aws_zone ''d'' True = (r, False)" by blast
  from zone_deletion_needs_fresh_evidence [OF keep this] show ?thesis
    by (auto simp: aws_adapter_def aws_zone_def)
qed

theorem observations_do_not_authorise_deletion_witness:
  "\<exists>obs. observe_zone aws_crypto aws_adapter aws_zone True = (Inr (Some obs), True) \<and> zlo_zone obs = aws_zone \<and> zlo_readiness obs \<noteq> ZoneReady"
proof -
  obtain obs where obs: "observe_zone aws_crypto aws_adapter aws_zone True = (Inr (Some obs), True)"
    using aws_observation [of True] by (auto simp: observe_zone_def)
  with observations_do_not_authorise_deletion [OF obs] show ?thesis by blast
qed

definition aws_creation :: ZoneCreationRequest where
  "aws_creation = \<lparr>zc_provider_account_id = ''acc'', zc_provider = Aws, zc_apex = ''a.io'', zc_visibility = Public, zc_idempotency_key = ''i''\<rparr>"

theorem creation_is_repeatable_witness:
  "snd (create_zone aws_crypto aws_adapter aws_creation True) = True"
proof -
  obtain n where n: "MAX_PROVIDER_PAGES = Suc n" using gr0_implies_Suc [of MAX_PROVIDER_PAGES] by (auto simp: MAX_PROVIDER_PAGES_def)
  have ref: "stable_caller_reference aws_crypto (ad_center_account_id aws_adapter) (ad_aws_account_id aws_adapter) (zc_idempotency_key aws_creation)
      = ''edgion-d''" by (simp add: stable_caller_reference_def aws_codec_def)
  have "find_zone_by_caller_reference aws_adapter ''edgion-d'' True = (Inr (Some aws_hosted), True)"
    by (simp add: find_zone_by_caller_reference_def n) (simp add: io_then_def aws_adapter_def aws_api_def validate_zone_page_def
        HOSTED_ZONE_PAGE_SIZE_def aws_hosted_def)
  then have found: "find_zone_by_caller_reference aws_adapter (stable_caller_reference aws_crypto (ad_center_account_id aws_adapter)
      (ad_aws_account_id aws_adapter) (zc_idempotency_key aws_creation)) True = (Inr (Some aws_hosted), True)" unfolding ref .
  obtain r w' where run: "create_zone aws_crypto aws_adapter aws_creation True = (r, w')" by fastforce
  have "\<forall>w zid. snd (get_hosted_zone (ad_api aws_adapter) zid w) = w" by (simp add: aws_adapter_def aws_api_def)
  with creation_is_repeatable [OF run found, of "\<lambda>w. w"] run show ?thesis by simp
qed

end
