(* ===== verification/Route53_Contract.thy ===== *)
theory Route53_Contract
  imports Route53_Lifecycle Http_Api
begin

text \<open>
  The Route 53 Admin API contract, \<open>crates/center-app/src/api/route53_dns.rs\<close>: the request and response shapes
  with their conversions to the core model, the validation of what a service returned, the parsers of path
  and query, and the handlers. The services are arguments; \<open>serde_json\<close> of a response and base64url are
  arguments too.
\<close>

section \<open>Identities and pages\<close>

definition DEFAULT_ROUTE53_PAGE_LIMIT :: "16 word" where "DEFAULT_ROUTE53_PAGE_LIMIT = 50"
definition MAX_ROUTE53_PAGE_LIMIT :: "16 word" where "MAX_ROUTE53_PAGE_LIMIT = 300"
definition MAX_ROUTE53_CHANGE_BATCH :: nat where "MAX_ROUTE53_CHANGE_BATCH = 100"

datatype Route53DnsAdminError =
  InvalidRequest | AdminNotFound | AdminConflict | AdminUnknownOutcome | RestartRequired | InvalidProviderObservation | Unavailable

record Route53PageRequest =
  pr_limit :: "16 word"
  pr_cursor :: "string option"

record Route53ZoneDto =
  zd_provider_account_id :: string
  zd_zone_id :: string
  zd_apex :: string
  zd_visibility :: ZoneVisibility

record Route53ZonePageDto =
  zpd_items :: "Route53ZoneDto list"
  zpd_next_cursor :: "string option"

datatype Route53RecordType = RtA | RtAaaa | RtCname | RtTxt | RtMx | RtSrv | RtCaa | RtNs | RtSoa

fun type_core :: "Route53RecordType \<Rightarrow> ProviderDnsRecordType" where
  "type_core RtA = TA"
| "type_core RtAaaa = TAaaa"
| "type_core RtCname = TCname"
| "type_core RtTxt = TTxt"
| "type_core RtMx = TMx"
| "type_core RtSrv = TSrv"
| "type_core RtCaa = TCaa"
| "type_core RtNs = TNs"
| "type_core RtSoa = TSoa"

fun type_from_core :: "ProviderDnsRecordType \<Rightarrow> Route53RecordType option" where
  "type_from_core TA = Some RtA"
| "type_from_core TAaaa = Some RtAaaa"
| "type_from_core TCname = Some RtCname"
| "type_from_core TTxt = Some RtTxt"
| "type_from_core TMx = Some RtMx"
| "type_from_core TSrv = Some RtSrv"
| "type_from_core TCaa = Some RtCaa"
| "type_from_core TNs = Some RtNs"
| "type_from_core TSoa = Some RtSoa"

record Route53RecordSetKey =
  rk_owner :: string
  rk_record_type :: Route53RecordType
  rk_set_identifier :: "string option"

definition key_core :: "Route53RecordSetKey \<Rightarrow> DnsRecordSetKey" where
  "key_core k =
     \<lparr>key_owner = rk_owner k, key_type = type_core (rk_record_type k),
      key_routing = (case rk_set_identifier k of Some set_identifier \<Rightarrow> Route53Identity set_identifier | None \<Rightarrow> Simple)\<rparr>"

datatype Route53RecordControlDto = ExternalOrManual

record Route53RecordSetDto =
  rd_provider_account_id :: string
  rd_zone_id :: string
  rd_zone_apex :: string
  rd_zone_visibility :: ZoneVisibility
  rd_record_set :: ProviderDnsRecordSet
  rd_control :: Route53RecordControlDto
  rd_revision :: string

record Route53RecordPageDto =
  rpd_zone :: Route53ZoneDto
  rpd_items :: "Route53RecordSetDto list"
  rpd_next_cursor :: "string option"

section \<open>Desired record sets\<close>

datatype Route53RecordTtlDto = TtlInherited | TtlSeconds u32

fun ttl_core :: "Route53RecordTtlDto \<Rightarrow> DnsTtl" where
  "ttl_core TtlInherited = Inherited"
| "ttl_core (TtlSeconds seconds) = Seconds seconds"

text \<open>The base64url engine: encoding and decoding of octets.\<close>

record base64_engine =
  b64_encode :: "string \<Rightarrow> string"
  b64_decode :: "string \<Rightarrow> string option"

definition octets_decode :: "base64_engine \<Rightarrow> string \<Rightarrow> string CoreResult" where
  "octets_decode b v =
     (case b64_decode b v of
        None \<Rightarrow> Inl (Conflict ''Route 53 DNS octets are not valid base64url'')
      | Some decoded \<Rightarrow>
          if b64_encode b decoded \<noteq> v then Inl (Conflict ''Route 53 DNS octets are not canonical base64url'')
          else Inr decoded)"

datatype Route53RecordValueDto =
    DtoA u32
  | DtoAaaa "128 word"
  | DtoCname string
  | DtoTxt "string list"
  | DtoMx "16 word" string
  | DtoSrv "16 word" "16 word" "16 word" string
  | DtoCaa "8 word" string string
  | DtoNs string
  | DtoSoa string string u32 u32 u32 u32 u32

fun value_core :: "base64_engine \<Rightarrow> Route53RecordValueDto \<Rightarrow> DnsRecordSetValue CoreResult" where
  "value_core b (DtoA address) = Inr (VA address)"
| "value_core b (DtoAaaa address) = Inr (VAaaa address)"
| "value_core b (DtoCname target) = Inr (VCname target)"
| "value_core b (DtoTxt segments) =
     and_then (collect_ok (\<lambda>v. and_then (octets_decode b v) character_string_new) segments) (\<lambda>decoded.
     and_then (txt_value_new decoded) (\<lambda>txt. Inr (VTxt txt)))"
| "value_core b (DtoMx preference exchange) = Inr (VMx preference exchange)"
| "value_core b (DtoSrv priority weight port target) = Inr (VSrv priority weight port target)"
| "value_core b (DtoCaa flags tag v) =
     and_then (octets_decode b v) (\<lambda>decoded. and_then (character_string_new decoded) (\<lambda>c. Inr (VCaa flags tag c)))"
| "value_core b (DtoNs target) = Inr (VNs target)"
| "value_core b (DtoSoa primary mailbox serial refresh retry expire minimum) =
     Inr (VSoa primary mailbox serial refresh retry expire minimum)"

record Route53AliasTargetDto =
  atd_target_zone_id :: string
  atd_target :: string
  atd_evaluate_health :: bool

definition alias_core :: "Route53AliasTargetDto \<Rightarrow> Route53AliasTarget" where
  "alias_core d = \<lparr>alias_zone_id = atd_target_zone_id d, alias_target = atd_target d, alias_evaluate_target_health = atd_evaluate_health d\<rparr>"

datatype Route53GeoLocationDto = DtoGeoDefault | DtoContinent string | DtoCountry string | DtoUsSubdivision string

fun geo_core :: "Route53GeoLocationDto \<Rightarrow> Route53GeoLocation" where
  "geo_core DtoGeoDefault = GeoDefault"
| "geo_core (DtoContinent code) = Continent code"
| "geo_core (DtoCountry code) = Country code"
| "geo_core (DtoUsSubdivision code) = UsSubdivision code"

datatype Route53RoutingPolicyDto =
  DtoWeighted "8 word" | DtoFailover Route53FailoverRole | DtoLatency string | DtoGeolocation Route53GeoLocationDto | DtoMultivalue

fun policy_core :: "Route53RoutingPolicyDto \<Rightarrow> Route53RoutingPolicy" where
  "policy_core (DtoWeighted weight) = Weighted weight"
| "policy_core (DtoFailover role) = Failover role"
| "policy_core (DtoLatency region) = Latency region"
| "policy_core (DtoGeolocation location) = Geolocation (geo_core location)"
| "policy_core DtoMultivalue = Multivalue"

datatype Route53RecordMutationGuardDto = GuardMustNotExist | GuardMatchRevision string

fun expected_revision :: "Route53RecordMutationGuardDto \<Rightarrow> string option" where
  "expected_revision GuardMustNotExist = None"
| "expected_revision (GuardMatchRevision revision) = Some revision"

record Route53RecordSetDesiredDto =
  dd_ttl :: Route53RecordTtlDto
  dd_values :: "Route53RecordValueDto list"
  dd_alias_target :: "Route53AliasTargetDto option"
  dd_routing_policy :: "Route53RoutingPolicyDto option"
  dd_health_check_id :: "string option"

text \<open>\<open>record_set\<close>, up to the values: a set of values is the sorted list of its elements.\<close>

definition desired_values :: "base64_engine \<Rightarrow> Route53RecordSetKey \<Rightarrow> Route53RecordSetDesiredDto \<Rightarrow> DnsRecordSetValue list CoreResult" where
  "desired_values b key d =
     (if rk_record_type key = RtSoa then Inl (Conflict ''SOA changes require the hosted-zone lifecycle contract'')
      else if 1000 < length (dd_values d) then Inl (Conflict ''Route 53 RRset value count is invalid'')
      else
        and_then (collect_ok (value_core b) (dd_values d)) (\<lambda>converted.
          let values = btree_set converted
          in if length values \<noteq> length (dd_values d) \<or> list_ex (\<lambda>v. record_type v \<noteq> type_core (rk_record_type key)) values
             then Inl (Conflict ''Route 53 RRset values do not match the path identity'')
             else Inr values))"

definition desired_record_set :: "base64_engine \<Rightarrow> Route53RecordSetKey \<Rightarrow> Route53RecordSetDesiredDto \<Rightarrow> ProviderDnsRecordSet CoreResult" where
  "desired_record_set b key d =
     and_then (desired_values b key d) (\<lambda>values.
       let alias = map_option alias_core (dd_alias_target d); policy = map_option policy_core (dd_routing_policy d)
       in if alias \<noteq> None \<and> (values \<noteq> [] \<or> dd_ttl d \<noteq> TtlInherited) then
            Inl (Conflict ''Route 53 Alias RRsets require inherited TTL and no record values'')
          else if alias = None \<and> values = [] then
            Inl (Conflict ''Route 53 non-Alias RRsets require at least one record value'')
          else
            Inr \<lparr>rs_key = key_core key, rs_ttl = ttl_core (dd_ttl d), rs_values = values,
                 rs_extension = (if alias \<noteq> None \<or> policy \<noteq> None \<or> dd_health_check_id d \<noteq> None
                                 then Some (Route53Ext alias policy (dd_health_check_id d)) else None)\<rparr>)"

record Route53RecordSetPutRequest =
  put_guard :: Route53RecordMutationGuardDto
  put_desired :: Route53RecordSetDesiredDto

record Route53RecordSetDeleteRequest =
  del_expected_revision :: string

text \<open>A change of a batch; its key has the fields of a record set key.\<close>

datatype Route53RecordBatchChangeDto =
    BatchCreate Route53RecordSetKey Route53RecordSetDesiredDto
  | BatchReplace Route53RecordSetKey string Route53RecordSetDesiredDto
  | BatchDelete Route53RecordSetKey string

fun batch_change_key :: "Route53RecordBatchChangeDto \<Rightarrow> Route53RecordSetKey" where
  "batch_change_key (BatchCreate key _) = key"
| "batch_change_key (BatchReplace key _ _) = key"
| "batch_change_key (BatchDelete key _) = key"

fun validate_batch_change :: "base64_engine \<Rightarrow> Route53RecordBatchChangeDto \<Rightarrow> unit CoreResult" where
  "validate_batch_change b (BatchCreate key desired) =
     and_then (validate_key (key_core key)) (\<lambda>_. and_then (desired_record_set b key desired) (\<lambda>_. Inr ()))"
| "validate_batch_change b (BatchReplace key revision desired) =
     and_then (validate_revision revision) (\<lambda>_.
     and_then (validate_key (key_core key)) (\<lambda>_. and_then (desired_record_set b key desired) (\<lambda>_. Inr ())))"
| "validate_batch_change b (BatchDelete key revision) =
     and_then (validate_revision revision) (\<lambda>_. validate_key (key_core key))"

fun validate_batch_changes :: "base64_engine \<Rightarrow> Route53RecordBatchChangeDto list \<Rightarrow> DnsRecordSetKey list \<Rightarrow> unit CoreResult" where
  "validate_batch_changes b [] keys = Inr ()"
| "validate_batch_changes b (c # cs) keys =
     and_then (validate_batch_change b c) (\<lambda>_.
       if key_core (batch_change_key c) \<in> set keys then
         Inl (Conflict ''Route 53 change batch contains duplicate identities'')
       else validate_batch_changes b cs (key_core (batch_change_key c) # keys))"

definition validate_shape :: "base64_engine \<Rightarrow> Route53RecordBatchChangeDto list \<Rightarrow> unit CoreResult" where
  "validate_shape b changes =
     (if changes = [] \<or> MAX_ROUTE53_CHANGE_BATCH < length changes then Inl (Conflict ''Route 53 change batch size is invalid'')
      else validate_batch_changes b changes [])"

section \<open>Receipts and observations\<close>

datatype Route53ProviderApplicationDto = AppPending | InSync

datatype Route53AuthoritativeConvergenceDto = ConvergenceNotChecked

record Route53ChangeReceiptDto =
  crd_receipt :: string
  crd_provider_application :: Route53ProviderApplicationDto
  crd_authoritative_convergence :: Route53AuthoritativeConvergenceDto

definition receipt_from_core :: "DnsChangeReceipt \<Rightarrow> Route53ChangeReceiptDto CoreResult" where
  "receipt_from_core r =
     and_then (validate_receipt r) (\<lambda>_.
     and_then
       (if rc_state r = ChangePending \<and> rc_propagation r \<in> {PropagationPending, PropagationUnknown} then Inr AppPending
        else if rc_state r = ProviderCommitted \<and> rc_propagation r = ProviderReportedApplied then Inr InSync
        else Inl (Conflict ''Route 53 change receipt state is invalid'')) (\<lambda>application.
       Inr \<lparr>crd_receipt = rc_id r, crd_provider_application = application, crd_authoritative_convergence = ConvergenceNotChecked\<rparr>))"

record Route53ZoneCreateRequest =
  zcr_apex :: string
  zcr_idempotency_key :: string

record Route53ZoneDeleteRequest =
  zdl_apex :: string
  zdl_revision :: string

datatype Route53ZoneLifecycleApplicationDto = LifecyclePending | Accepted

record Route53ZoneLifecycleMutationDto =
  lmd_mutation_id :: string
  lmd_provider_application :: Route53ZoneLifecycleApplicationDto
  lmd_authoritative_convergence :: Route53AuthoritativeConvergenceDto

definition mutation_from_core :: "ZoneLifecycleMutationReceipt \<Rightarrow> Route53ZoneLifecycleMutationDto CoreResult" where
  "mutation_from_core v =
     and_then
       (case mr_state v of
          MutPending \<Rightarrow> Inr LifecyclePending
        | MutSucceeded \<Rightarrow> Inr Accepted
        | _ \<Rightarrow> Inl (Conflict ''invalid Route 53 lifecycle receipt'')) (\<lambda>application.
       Inr \<lparr>lmd_mutation_id = mr_mutation_id v, lmd_provider_application = application,
            lmd_authoritative_convergence = ConvergenceNotChecked\<rparr>)"

record Route53ZoneLifecycleObservationDto =
  lod_zone :: Route53ZoneDto
  lod_revision :: string
  lod_authoritative_nameservers :: "string set"
  lod_delegation :: DelegationObservation
  lod_readiness :: ZoneReadiness
  lod_dnssec :: DnssecObservation
  lod_non_default_record_count :: u64

definition zone_dto :: "DnsZoneRef \<Rightarrow> Route53ZoneDto" where
  "zone_dto z = \<lparr>zd_provider_account_id = zone_account_id z, zd_zone_id = zone_id z, zd_apex = zone_apex z, zd_visibility = zone_visibility z\<rparr>"

definition observation_from_core :: "ZoneLifecycleObservation \<Rightarrow> Route53ZoneLifecycleObservationDto CoreResult" where
  "observation_from_core v =
     and_then (validate_zone_observation v) (\<lambda>_.
       if zone_provider (zlo_zone v) \<noteq> Aws \<or> zone_visibility (zlo_zone v) \<noteq> Public then
         Inl (Conflict ''invalid Route 53 lifecycle observation'')
       else
         Inr \<lparr>lod_zone = zone_dto (zlo_zone v), lod_revision = zlo_revision v, lod_authoritative_nameservers = zlo_nameservers v,
              lod_delegation = zlo_delegation v, lod_readiness = zlo_readiness v, lod_dnssec = zlo_dnssec v,
              lod_non_default_record_count = zlo_non_default_record_count v\<rparr>)"

section \<open>Validation of what a service returned\<close>

definition validate_route53_zone_id :: "string \<Rightarrow> unit CoreResult" where
  "validate_route53_zone_id v =
     (if v = [] \<or> 32 < length v \<or> \<not> starts_with ''Z'' v \<or> \<not> list_all (\<lambda>c. is_ascii_uppercase c \<or> is_ascii_digit c) v
      then Inl (Conflict ''Route 53 hosted zone ID is invalid'') else Inr ())"

definition dto_zone_ref :: "Route53ZoneDto \<Rightarrow> DnsZoneRef" where
  "dto_zone_ref d =
     \<lparr>zone_account_id = zd_provider_account_id d, zone_provider = Aws, zone_id = zd_zone_id d, zone_apex = zd_apex d,
      zone_visibility = zd_visibility d\<rparr>"

definition validate_zone_dto :: "Route53ZoneDto \<Rightarrow> unit CoreResult" where
  "validate_zone_dto d =
     and_then (validate_resource_id (zd_provider_account_id d)) (\<lambda>_.
     and_then (validate_route53_zone_id (zd_zone_id d)) (\<lambda>_.
       if zd_visibility d \<noteq> Public then Inl (Conflict ''Route 53 Admin API exposes only public zones'')
       else validate_zone_ref (dto_zone_ref d)))"

definition page_limit_ok :: "16 word \<Rightarrow> nat \<Rightarrow> bool" where
  "page_limit_ok limit n \<longleftrightarrow> 1 \<le> limit \<and> limit \<le> MAX_ROUTE53_PAGE_LIMIT \<and> n \<le> unat limit"

definition validate_cursor :: "string option \<Rightarrow> unit CoreResult" where
  "validate_cursor c = (case c of None \<Rightarrow> Inr () | Some t \<Rightarrow> validate_page_token t)"

fun validate_zone_items :: "string \<Rightarrow> Route53ZoneDto list \<Rightarrow> string list \<Rightarrow> unit CoreResult" where
  "validate_zone_items account_id [] identities = Inr ()"
| "validate_zone_items account_id (z # zs) identities =
     and_then (validate_zone_dto z) (\<lambda>_.
       if zd_provider_account_id z \<noteq> account_id \<or> zd_zone_id z \<in> set identities then
         Inl (Conflict ''Route 53 zone page scope is inconsistent'')
       else validate_zone_items account_id zs (zd_zone_id z # identities))"

definition validate_zone_page_dto :: "string \<Rightarrow> 16 word \<Rightarrow> Route53ZonePageDto \<Rightarrow> unit CoreResult" where
  "validate_zone_page_dto account_id requested_limit p =
     (if \<not> page_limit_ok requested_limit (length (zpd_items p)) then
        Inl (Conflict ''Route 53 zone page exceeds the requested limit'')
      else and_then (validate_cursor (zpd_next_cursor p)) (\<lambda>_. validate_zone_items account_id (zpd_items p) []))"

definition record_zone_dto :: "Route53RecordSetDto \<Rightarrow> Route53ZoneDto" where
  "record_zone_dto d =
     \<lparr>zd_provider_account_id = rd_provider_account_id d, zd_zone_id = rd_zone_id d, zd_apex = rd_zone_apex d,
      zd_visibility = rd_zone_visibility d\<rparr>"

definition validate_record_set_dto :: "Route53RecordSetDto \<Rightarrow> unit CoreResult" where
  "validate_record_set_dto d =
     and_then (validate_resource_id (rd_provider_account_id d)) (\<lambda>_.
     and_then (validate_route53_zone_id (rd_zone_id d)) (\<lambda>_.
     and_then (validate_revision (rd_revision d)) (\<lambda>_.
     and_then (validate_zone_dto (record_zone_dto d)) (\<lambda>_.
       validate_record_set (dto_zone_ref (record_zone_dto d)) (rd_record_set d)))))"

definition validate_against_zone :: "Route53ZoneDto \<Rightarrow> Route53RecordSetDto \<Rightarrow> unit CoreResult" where
  "validate_against_zone zone d =
     and_then (validate_record_set_dto d) (\<lambda>_.
       if rd_provider_account_id d \<noteq> zd_provider_account_id zone \<or> rd_zone_id d \<noteq> zd_zone_id zone
          \<or> rd_zone_apex d \<noteq> zd_apex zone \<or> rd_zone_visibility d \<noteq> Public
       then Inl (Conflict ''Route 53 RRset scope is inconsistent'') else Inr ())"

fun validate_record_items :: "Route53ZoneDto \<Rightarrow> Route53RecordSetDto list \<Rightarrow> DnsRecordSetKey list \<Rightarrow> unit CoreResult" where
  "validate_record_items zone [] identities = Inr ()"
| "validate_record_items zone (r # rs) identities =
     and_then (validate_against_zone zone r) (\<lambda>_.
       if rs_key (rd_record_set r) \<in> set identities then
         Inl (Conflict ''Route 53 RRset page contains duplicate identities'')
       else validate_record_items zone rs (rs_key (rd_record_set r) # identities))"

definition validate_record_page_dto :: "string \<Rightarrow> string \<Rightarrow> 16 word \<Rightarrow> Route53RecordPageDto \<Rightarrow> unit CoreResult" where
  "validate_record_page_dto account_id zid requested_limit p =
     and_then (validate_zone_dto (rpd_zone p)) (\<lambda>_.
       if zd_provider_account_id (rpd_zone p) \<noteq> account_id \<or> zd_zone_id (rpd_zone p) \<noteq> zid
          \<or> \<not> page_limit_ok requested_limit (length (rpd_items p)) then
         Inl (Conflict ''Route 53 RRset page scope is inconsistent'')
       else and_then (validate_cursor (rpd_next_cursor p)) (\<lambda>_. validate_record_items (rpd_zone p) (rpd_items p) []))"

section \<open>Path and query\<close>

record Route53PageQuery =
  q_limit :: "string option"
  q_cursor :: "string option"

record Route53RecordDetailQuery =
  q_owner :: "string option"
  q_set_identifier :: "string option"

definition parse_page :: "Route53PageQuery \<Rightarrow> string + Route53PageRequest" where
  "parse_page query =
     and_then
       (case q_limit query of
          Some v \<Rightarrow>
            (case parse_word v of
               Some limit \<Rightarrow> if 1 \<le> limit \<and> limit \<le> MAX_ROUTE53_PAGE_LIMIT then Inr limit else Inl ''invalid_page''
             | None \<Rightarrow> Inl ''invalid_page'')
        | None \<Rightarrow> Inr DEFAULT_ROUTE53_PAGE_LIMIT) (\<lambda>limit.
     and_then
       (case q_cursor query of
          None \<Rightarrow> Inr None
        | Some c \<Rightarrow> and_then (map_err ''invalid_page'' (validate_page_token c)) (\<lambda>_. Inr (Some c))) (\<lambda>cursor.
       Inr \<lparr>pr_limit = limit, pr_cursor = cursor\<rparr>))"

definition parse_zone_id :: "string \<Rightarrow> string + string" where
  "parse_zone_id v =
     and_then (map_err ''invalid_zone_id'' (validate_zone_id v)) (\<lambda>_.
     and_then (map_err ''invalid_zone_id'' (validate_route53_zone_id v)) (\<lambda>_. Inr v))"

definition parse_change_receipt :: "base64_engine \<Rightarrow> string \<Rightarrow> string + string" where
  "parse_change_receipt b v =
     (if 4096 < length v then Inl ''invalid_change_receipt''
      else
        and_then (ok_or ''invalid_change_receipt'' (b64_decode b v)) (\<lambda>decoded.
          if length decoded \<le> 32 \<or> b64_encode b decoded \<noteq> v then Inl ''invalid_change_receipt''
          else and_then (map_err ''invalid_change_receipt'' (validate_change_id v)) (\<lambda>_. Inr v)))"

definition parse_record_type :: "string \<Rightarrow> Route53RecordType option" where
  "parse_record_type v =
     map_of [(''A'', RtA), (''AAAA'', RtAaaa), (''CNAME'', RtCname), (''TXT'', RtTxt), (''MX'', RtMx), (''SRV'', RtSrv),
             (''CAA'', RtCaa), (''NS'', RtNs), (''SOA'', RtSoa)] v"

definition parse_record_identity ::
  "(string \<Rightarrow> string option) \<Rightarrow> string \<Rightarrow> string \<Rightarrow> string \<Rightarrow> Route53RecordDetailQuery
     \<Rightarrow> string + (string \<times> string \<times> Route53RecordSetKey)" where
  "parse_record_identity idna account_id zid ty query =
     and_then (map_err ''invalid_account_id'' (validate_resource_id account_id)) (\<lambda>_.
     and_then (parse_zone_id zid) (\<lambda>zone_id.
     and_then (ok_or ''invalid_record_type'' (parse_record_type ty)) (\<lambda>record_type.
     and_then
       (case q_owner query of
          None \<Rightarrow> Inl ''invalid_record_owner''
        | Some v \<Rightarrow> map_err ''invalid_record_owner'' (dns_owner_name_new idna v)) (\<lambda>owner.
       let key = \<lparr>rk_owner = owner, rk_record_type = record_type, rk_set_identifier = q_set_identifier query\<rparr>
       in and_then (map_err ''invalid_record_identity'' (validate_key (key_core key))) (\<lambda>_.
            Inr (account_id, zone_id, key))))))"

section \<open>Handlers\<close>

definition error_response :: "nat \<Rightarrow> string \<Rightarrow> http_response" where
  "error_response status code = json_response status (err_body code)"

text \<open>A body that axum could not extract: too large, or anything else.\<close>

datatype json_rejection = PayloadTooLarge | OtherRejection

fun json_rejection_response :: "json_rejection \<Rightarrow> http_response" where
  "json_rejection_response PayloadTooLarge = error_response 413 ''request_too_large''"
| "json_rejection_response OtherRejection = error_response 400 ''invalid_request''"

fun service_error_code :: "Route53DnsAdminError \<Rightarrow> nat \<times> string" where
  "service_error_code InvalidRequest = (400, ''invalid_request'')"
| "service_error_code AdminNotFound = (404, ''not_found'')"
| "service_error_code AdminConflict = (409, ''conflict'')"
| "service_error_code AdminUnknownOutcome = (503, ''unknown_outcome'')"
| "service_error_code RestartRequired = (409, ''pagination_restart_required'')"
| "service_error_code InvalidProviderObservation = (503, ''invalid_provider_observation'')"
| "service_error_code Unavailable = (503, ''service_unavailable'')"

definition map_service_error :: "Route53DnsAdminError \<Rightarrow> http_response" where
  "map_service_error e = (case service_error_code e of (status, code) \<Rightarrow> error_response status code)"

type_synonym ('w, 'a) admin_call = "'w \<Rightarrow> (Route53DnsAdminError + 'a) \<times> 'w"

record 'w Route53DnsAdminService =
  svc_list_zones :: "string \<Rightarrow> Route53PageRequest \<Rightarrow> ('w, Route53ZonePageDto) admin_call"
  svc_get_zone :: "string \<Rightarrow> string \<Rightarrow> ('w, Route53ZoneDto) admin_call"
  svc_list_record_sets :: "string \<Rightarrow> string \<Rightarrow> Route53PageRequest \<Rightarrow> ('w, Route53RecordPageDto) admin_call"
  svc_get_record_set :: "string \<Rightarrow> string \<Rightarrow> Route53RecordSetKey \<Rightarrow> ('w, Route53RecordSetDto) admin_call"

record 'w Route53DnsWriteAdminService =
  svc_put_record_set :: "string \<Rightarrow> string \<Rightarrow> Route53RecordSetKey \<Rightarrow> Route53RecordSetPutRequest \<Rightarrow> ('w, Route53ChangeReceiptDto) admin_call"
  svc_delete_record_set :: "string \<Rightarrow> string \<Rightarrow> Route53RecordSetKey \<Rightarrow> Route53RecordSetDeleteRequest \<Rightarrow> ('w, Route53ChangeReceiptDto) admin_call"
  svc_apply_change_batch :: "string \<Rightarrow> string \<Rightarrow> Route53RecordBatchChangeDto list \<Rightarrow> ('w, Route53ChangeReceiptDto) admin_call"
  svc_get_change :: "string \<Rightarrow> string \<Rightarrow> string \<Rightarrow> ('w, Route53ChangeReceiptDto) admin_call"

record 'w Route53ZoneLifecycleAdminService =
  svc_create_zone :: "string \<Rightarrow> ZoneCreationRequest \<Rightarrow> ('w, Route53ZoneLifecycleMutationDto) admin_call"
  svc_observe_zone :: "string \<Rightarrow> string \<Rightarrow> string \<Rightarrow> ('w, Route53ZoneLifecycleObservationDto) admin_call"
  svc_delete_zone :: "string \<Rightarrow> string \<Rightarrow> Route53ZoneDeleteRequest \<Rightarrow> ('w, Route53ZoneLifecycleMutationDto) admin_call"

text \<open>The call and the answer, which is checked before it is rendered; a bad answer becomes \<open>bad\<close>.\<close>

definition answer ::
  "('a \<Rightarrow> json) \<Rightarrow> ('a \<Rightarrow> bool) \<Rightarrow> http_response \<Rightarrow> ('w, 'a) admin_call option \<Rightarrow> 'w \<Rightarrow> http_response \<times> 'w" where
  "answer render ok bad service w =
     (case service of
        None \<Rightarrow> (error_response 503 ''service_unavailable'', w)
      | Some call \<Rightarrow>
          (case call w of
             (Inl e, w') \<Rightarrow> (map_service_error e, w')
           | (Inr result, w') \<Rightarrow> (if ok result then json_response 200 (ok_body (render result)) else bad, w')))"

definition invalid_service_response :: http_response where
  "invalid_service_response = error_response 503 ''invalid_service_response''"

text \<open>An early return with status 400 and a code, or the rest of the handler.\<close>

definition checked :: "string + 'a \<Rightarrow> ('a \<Rightarrow> 'w \<Rightarrow> http_response \<times> 'w) \<Rightarrow> 'w \<Rightarrow> http_response \<times> 'w" where
  "checked r f w = (case r of Inl code \<Rightarrow> (error_response 400 code, w) | Inr x \<Rightarrow> f x w)"

definition extracted :: "json_rejection + 'a \<Rightarrow> ('a \<Rightarrow> 'w \<Rightarrow> http_response \<times> 'w) \<Rightarrow> 'w \<Rightarrow> http_response \<times> 'w" where
  "extracted r f w = (case r of Inl rejection \<Rightarrow> (json_rejection_response rejection, w) | Inr x \<Rightarrow> f x w)"

definition parse_account_id :: "string \<Rightarrow> string + string" where
  "parse_account_id v = and_then (map_err ''invalid_account_id'' (validate_resource_id v)) (\<lambda>_. Inr v)"

definition list_zones_handler ::
  "(Route53ZonePageDto \<Rightarrow> json) \<Rightarrow> 'w Route53DnsAdminService option \<Rightarrow> string \<Rightarrow> Route53PageQuery \<Rightarrow> 'w \<Rightarrow> http_response \<times> 'w" where
  "list_zones_handler render service account query =
     checked (parse_account_id account) (\<lambda>account_id.
     checked (parse_page query) (\<lambda>page.
       answer render (\<lambda>result. is_ok (validate_zone_page_dto account_id (pr_limit page) result)) invalid_service_response
         (map_option (\<lambda>s. svc_list_zones s account_id page) service)))"

definition get_zone_handler ::
  "(Route53ZoneDto \<Rightarrow> json) \<Rightarrow> 'w Route53DnsAdminService option \<Rightarrow> string \<Rightarrow> string \<Rightarrow> 'w \<Rightarrow> http_response \<times> 'w" where
  "get_zone_handler render service account zone =
     checked (parse_account_id account) (\<lambda>account_id.
     checked (parse_zone_id zone) (\<lambda>zid.
       answer render
         (\<lambda>result. is_ok (validate_zone_dto result) \<and> zd_provider_account_id result = account_id \<and> zd_zone_id result = zid)
         invalid_service_response (map_option (\<lambda>s. svc_get_zone s account_id zid) service)))"

definition list_record_sets_handler ::
  "(Route53RecordPageDto \<Rightarrow> json) \<Rightarrow> 'w Route53DnsAdminService option \<Rightarrow> string \<Rightarrow> string \<Rightarrow> Route53PageQuery \<Rightarrow> 'w \<Rightarrow> http_response \<times> 'w" where
  "list_record_sets_handler render service account zone query =
     checked (parse_account_id account) (\<lambda>account_id.
     checked (parse_zone_id zone) (\<lambda>zid.
     checked (parse_page query) (\<lambda>page.
       answer render (\<lambda>result. is_ok (validate_record_page_dto account_id zid (pr_limit page) result)) invalid_service_response
         (map_option (\<lambda>s. svc_list_record_sets s account_id zid page) service))))"

definition get_record_set_handler ::
  "(string \<Rightarrow> string option) \<Rightarrow> (Route53RecordSetDto \<Rightarrow> json) \<Rightarrow> 'w Route53DnsAdminService option \<Rightarrow> string \<Rightarrow> string \<Rightarrow> string
     \<Rightarrow> Route53RecordDetailQuery \<Rightarrow> 'w \<Rightarrow> http_response \<times> 'w" where
  "get_record_set_handler idna render service account zone ty query =
     checked (parse_record_identity idna account zone ty query) (\<lambda>(account_id, zid, key).
       answer render
         (\<lambda>result. is_ok (validate_record_set_dto result) \<and> rd_provider_account_id result = account_id \<and> rd_zone_id result = zid
            \<and> rs_key (rd_record_set result) = key_core key)
         invalid_service_response (map_option (\<lambda>s. svc_get_record_set s account_id zid key) service))"

definition receipt_ok :: "Route53ChangeReceiptDto \<Rightarrow> bool" where
  "receipt_ok r = is_ok (validate_change_id (crd_receipt r))"

definition put_record_set_handler ::
  "base64_engine \<Rightarrow> (string \<Rightarrow> string option) \<Rightarrow> (Route53ChangeReceiptDto \<Rightarrow> json) \<Rightarrow> 'w Route53DnsWriteAdminService option \<Rightarrow> string \<Rightarrow> string
     \<Rightarrow> string \<Rightarrow> Route53RecordDetailQuery \<Rightarrow> json_rejection + Route53RecordSetPutRequest \<Rightarrow> 'w \<Rightarrow> http_response \<times> 'w" where
  "put_record_set_handler b idna render service account zone ty query body =
     checked (parse_record_identity idna account zone ty query) (\<lambda>(account_id, zid, key).
     extracted body (\<lambda>request.
       if \<not> is_ok (desired_record_set b key (put_desired request))
          \<or> (case expected_revision (put_guard request) of None \<Rightarrow> False | Some r \<Rightarrow> \<not> is_ok (validate_revision r))
       then (\<lambda>w. (error_response 400 ''invalid_request'', w))
       else
         answer render receipt_ok (map_service_error AdminUnknownOutcome)
           (map_option (\<lambda>s. svc_put_record_set s account_id zid key request) service)))"

definition delete_record_set_handler ::
  "(string \<Rightarrow> string option) \<Rightarrow> (Route53ChangeReceiptDto \<Rightarrow> json) \<Rightarrow> 'w Route53DnsWriteAdminService option \<Rightarrow> string \<Rightarrow> string
     \<Rightarrow> string \<Rightarrow> Route53RecordDetailQuery \<Rightarrow> json_rejection + Route53RecordSetDeleteRequest \<Rightarrow> 'w \<Rightarrow> http_response \<times> 'w" where
  "delete_record_set_handler idna render service account zone ty query body =
     checked (parse_record_identity idna account zone ty query) (\<lambda>(account_id, zid, key).
     extracted body (\<lambda>request.
       if \<not> is_ok (validate_revision (del_expected_revision request)) then (\<lambda>w. (error_response 400 ''invalid_request'', w))
       else
         answer render receipt_ok (map_service_error AdminUnknownOutcome)
           (map_option (\<lambda>s. svc_delete_record_set s account_id zid key request) service)))"

definition apply_change_batch_handler ::
  "base64_engine \<Rightarrow> (Route53ChangeReceiptDto \<Rightarrow> json) \<Rightarrow> 'w Route53DnsWriteAdminService option \<Rightarrow> string \<Rightarrow> string
     \<Rightarrow> json_rejection + Route53RecordBatchChangeDto list \<Rightarrow> 'w \<Rightarrow> http_response \<times> 'w" where
  "apply_change_batch_handler b render service account zone body =
     checked (parse_account_id account) (\<lambda>account_id.
     checked (parse_zone_id zone) (\<lambda>zid.
     extracted body (\<lambda>changes.
       if \<not> is_ok (validate_shape b changes) then (\<lambda>w. (error_response 400 ''invalid_request'', w))
       else
         answer render receipt_ok (map_service_error AdminUnknownOutcome)
           (map_option (\<lambda>s. svc_apply_change_batch s account_id zid changes) service))))"

definition get_change_handler ::
  "base64_engine \<Rightarrow> (Route53ChangeReceiptDto \<Rightarrow> json) \<Rightarrow> 'w Route53DnsWriteAdminService option \<Rightarrow> string \<Rightarrow> string \<Rightarrow> string
     \<Rightarrow> 'w \<Rightarrow> http_response \<times> 'w" where
  "get_change_handler b render service account zone receipt =
     checked (parse_account_id account) (\<lambda>account_id.
     checked (parse_zone_id zone) (\<lambda>zid.
     checked (parse_change_receipt b receipt) (\<lambda>change_id.
       answer render (\<lambda>result. crd_receipt result = change_id \<and> receipt_ok result) invalid_service_response
         (map_option (\<lambda>s. svc_get_change s account_id zid change_id) service))))"

definition create_zone_handler ::
  "(Route53ZoneLifecycleMutationDto \<Rightarrow> json) \<Rightarrow> 'w Route53ZoneLifecycleAdminService option \<Rightarrow> string
     \<Rightarrow> json_rejection + Route53ZoneCreateRequest \<Rightarrow> 'w \<Rightarrow> http_response \<times> 'w" where
  "create_zone_handler render service account body =
     checked (parse_account_id account) (\<lambda>account_id.
     extracted body (\<lambda>request.
       let creation = \<lparr>zc_provider_account_id = account_id, zc_provider = Aws, zc_apex = zcr_apex request, zc_visibility = Public,
                       zc_idempotency_key = zcr_idempotency_key request\<rparr>
       in answer render (\<lambda>_. True) invalid_service_response (map_option (\<lambda>s. svc_create_zone s account_id creation) service)))"

definition observe_zone_lifecycle_handler ::
  "(string \<Rightarrow> string option) \<Rightarrow> (Route53ZoneLifecycleObservationDto \<Rightarrow> json) \<Rightarrow> 'w Route53ZoneLifecycleAdminService option
     \<Rightarrow> string \<Rightarrow> string \<Rightarrow> string option \<Rightarrow> 'w \<Rightarrow> http_response \<times> 'w" where
  "observe_zone_lifecycle_handler idna render service account zone apex_query =
     checked (parse_account_id account) (\<lambda>account_id.
     checked (parse_zone_id zone) (\<lambda>zid.
     checked (case apex_query of
                None \<Rightarrow> Inl ''invalid_zone_apex''
              | Some v \<Rightarrow> map_err ''invalid_zone_apex'' (absolute_dns_name_new idna v)) (\<lambda>apex.
       answer render
         (\<lambda>result. zd_provider_account_id (lod_zone result) = account_id \<and> zd_zone_id (lod_zone result) = zid
            \<and> zd_apex (lod_zone result) = apex \<and> is_ok (validate_zone_dto (lod_zone result)))
         invalid_service_response (map_option (\<lambda>s. svc_observe_zone s account_id zid apex) service))))"

definition delete_zone_handler ::
  "(Route53ZoneLifecycleMutationDto \<Rightarrow> json) \<Rightarrow> 'w Route53ZoneLifecycleAdminService option \<Rightarrow> string \<Rightarrow> string
     \<Rightarrow> json_rejection + Route53ZoneDeleteRequest \<Rightarrow> 'w \<Rightarrow> http_response \<times> 'w" where
  "delete_zone_handler render service account zone body =
     checked (parse_account_id account) (\<lambda>account_id.
     checked (parse_zone_id zone) (\<lambda>zid.
     extracted body (\<lambda>request.
       answer render (\<lambda>_. True) invalid_service_response (map_option (\<lambda>s. svc_delete_zone s account_id zid request) service))))"

end
