(* ===== verification/Route53_Service.thy ===== *)
theory Route53_Service
  imports Route53_Contract
begin

text \<open>
  The Route 53 services, \<open>crates/center-integration-route53/src\<close>: the read service (\<open>dns_admin_service.rs\<close>,
  \<open>dns_admin.rs\<close>), the record write service (\<open>dns_write_service.rs\<close>) and the zone lifecycle service
  (\<open>zone_lifecycle_service.rs\<close>) over the adapter. The account store, the credential resolver, the API factory
  and the semaphores are operations on a world that the theorems leave open. The deadline of
  \<open>tokio::time::timeout\<close> is a predicate on the world that is looked at before and after every awaited
  operation: when it holds, the rest of the request is cut off.
\<close>

section \<open>Configuration\<close>

definition R53_MAX_TIMEOUT_SECS :: nat where "R53_MAX_TIMEOUT_SECS = 180"
definition READ_MAX_GLOBAL_CONCURRENCY :: nat where "READ_MAX_GLOBAL_CONCURRENCY = 32"
definition READ_MAX_ACCOUNT_CONCURRENCY :: nat where "READ_MAX_ACCOUNT_CONCURRENCY = 4"
definition WRITE_MAX_GLOBAL_CONCURRENCY :: nat where "WRITE_MAX_GLOBAL_CONCURRENCY = 16"
definition WRITE_MAX_ACCOUNT_CONCURRENCY :: nat where "WRITE_MAX_ACCOUNT_CONCURRENCY = 2"
definition LIFECYCLE_MAX_GLOBAL_CONCURRENCY :: nat where "LIFECYCLE_MAX_GLOBAL_CONCURRENCY = 8"
definition LIFECYCLE_MAX_ACCOUNT_CONCURRENCY :: nat where "LIFECYCLE_MAX_ACCOUNT_CONCURRENCY = 1"
definition R53_MAX_TRACKED_ACCOUNTS :: nat where "R53_MAX_TRACKED_ACCOUNTS = 1024"

record Route53ServiceConfig =
  sc_enabled :: bool
  sc_cursor_key_ref :: "string option"
  sc_second_key_ref :: "string option"
  sc_operation_timeout_secs :: nat
  sc_global_concurrency :: nat
  sc_per_account_concurrency :: nat

definition read_config_default :: Route53ServiceConfig where
  "read_config_default = \<lparr>sc_enabled = False, sc_cursor_key_ref = None, sc_second_key_ref = None, sc_operation_timeout_secs = 60,
     sc_global_concurrency = 8, sc_per_account_concurrency = 2\<rparr>"

definition write_config_default :: Route53ServiceConfig where
  "write_config_default = \<lparr>sc_enabled = False, sc_cursor_key_ref = None, sc_second_key_ref = None, sc_operation_timeout_secs = 60,
     sc_global_concurrency = 4, sc_per_account_concurrency = 1\<rparr>"

definition lifecycle_config_default :: Route53ServiceConfig where
  "lifecycle_config_default = \<lparr>sc_enabled = False, sc_cursor_key_ref = None, sc_second_key_ref = None, sc_operation_timeout_secs = 60,
     sc_global_concurrency = 2, sc_per_account_concurrency = 1\<rparr>"

definition config_bounds :: "Route53ServiceConfig \<Rightarrow> nat \<Rightarrow> nat \<Rightarrow> bool" where
  "config_bounds c max_global max_account \<longleftrightarrow>
     1 \<le> sc_operation_timeout_secs c \<and> sc_operation_timeout_secs c \<le> R53_MAX_TIMEOUT_SECS
     \<and> 1 \<le> sc_global_concurrency c \<and> sc_global_concurrency c \<le> max_global
     \<and> 1 \<le> sc_per_account_concurrency c \<and> sc_per_account_concurrency c \<le> max_account"

definition credential_ref_new :: "string \<Rightarrow> string CoreResult" where
  "credential_ref_new v = cloud_identifier_new ''credential reference'' None v"

definition validated_read_config :: "Route53ServiceConfig \<Rightarrow> string option CoreResult" where
  "validated_read_config c =
     (if \<not> sc_enabled c then Inr None
      else if \<not> config_bounds c READ_MAX_GLOBAL_CONCURRENCY READ_MAX_ACCOUNT_CONCURRENCY
              \<or> sc_global_concurrency c < sc_per_account_concurrency c then
        Inl (Conflict ''Route 53 DNS read limits are invalid'')
      else
        and_then (ok_or (Conflict ''Route 53 DNS cursor key is required'') (sc_cursor_key_ref c)) (\<lambda>key.
        and_then (credential_ref_new key) (\<lambda>r. Inr (Some r))))"

definition validated_write_config :: "Route53ServiceConfig \<Rightarrow> (string \<times> string) option CoreResult" where
  "validated_write_config c =
     (if \<not> sc_enabled c then Inr None
      else if \<not> config_bounds c WRITE_MAX_GLOBAL_CONCURRENCY WRITE_MAX_ACCOUNT_CONCURRENCY
              \<or> sc_global_concurrency c < sc_per_account_concurrency c then
        Inl (Conflict ''Route 53 DNS write limits are invalid'')
      else
        and_then (ok_or (Conflict ''Route 53 DNS cursor key is required'') (sc_cursor_key_ref c)) (\<lambda>key.
        and_then (credential_ref_new key) (\<lambda>cursor.
        and_then (ok_or (Conflict ''Route 53 DNS mutation receipt key is required'') (sc_second_key_ref c)) (\<lambda>second.
        and_then (credential_ref_new second) (\<lambda>mutation.
          if cursor = mutation then Inl (Conflict ''Route 53 DNS signing key references must be distinct'')
          else Inr (Some (cursor, mutation)))))))"

definition validated_lifecycle_config :: "Route53ServiceConfig \<Rightarrow> (string \<times> string) option CoreResult" where
  "validated_lifecycle_config c =
     (if \<not> sc_enabled c then
        if c \<noteq> lifecycle_config_default then
          Inl (Conflict ''disabled Route 53 zone lifecycle configuration must use defaults'')
        else Inr None
      else if \<not> config_bounds c LIFECYCLE_MAX_GLOBAL_CONCURRENCY LIFECYCLE_MAX_ACCOUNT_CONCURRENCY then
        Inl (Conflict ''Route 53 zone lifecycle configuration is out of bounds'')
      else
        and_then (ok_or (Conflict ''Route 53 zone lifecycle cursor key is required'') (sc_cursor_key_ref c)) (\<lambda>cursor.
        and_then (ok_or (Conflict ''Route 53 lifecycle token key is required'') (sc_second_key_ref c)) (\<lambda>lifecycle.
          if cursor = lifecycle then Inl (Conflict ''Route 53 lifecycle keys must be distinct'')
          else
            and_then (credential_ref_new cursor) (\<lambda>c1.
            and_then (credential_ref_new lifecycle) (\<lambda>c2. Inr (Some (c1, c2)))))))"

text \<open>
  The table of account semaphores: a weak pointer per account, here with the number of its holders. A
  live entry is shared; otherwise dead entries are dropped before a new one is made.
\<close>

definition account_semaphore :: "(string, nat) hmap \<Rightarrow> string \<Rightarrow> Route53DnsAdminError + (string, nat) hmap" where
  "account_semaphore accounts account_id =
     (case map_of accounts account_id of
        Some (Suc n) \<Rightarrow> Inr (AList.update account_id (Suc (Suc n)) accounts)
      | _ \<Rightarrow>
          let live = map_retain (\<lambda>_ n. 0 < n) accounts
          in if R53_MAX_TRACKED_ACCOUNTS \<le> length live then Inl Unavailable
             else Inr (AList.update account_id 1 live))"

section \<open>The world of a request\<close>

datatype CredentialPurpose =
  CloudflareApiToken | CloudflareDnsCursorHmac | CloudflareDnsMutationTokenHmac | Route53DnsCursorHmac | Route53DnsMutationReceiptHmac
  | Route53ZoneLifecycleHmac

text \<open>
  \<open>ProviderAccountStore::get\<close>, \<open>MountedCredentialResolver::resolve\<close> with the bytes and the revision of the
  credential, \<open>ApiFactory::build\<close>, the admission through the semaphores, and the deadline.
\<close>

record 'w service_env =
  env_account :: "string \<Rightarrow> 'w \<Rightarrow> ProviderAccount option CoreResult \<times> 'w"
  env_resolve :: "string \<Rightarrow> CredentialPurpose \<Rightarrow> string \<Rightarrow> 'w \<Rightarrow> (string \<times> string) CoreResult \<times> 'w"
  env_build :: "'w \<Rightarrow> 'w Route53Api ProviderResult \<times> 'w"
  env_admit :: "string \<Rightarrow> 'w \<Rightarrow> (Route53DnsAdminError + unit) \<times> 'w"
  env_expired :: "'w \<Rightarrow> bool"

record 'w tracked =
  tr_world :: 'w
  tr_dispatched :: bool
  tr_cut :: bool

text \<open>One awaited operation; \<open>None\<close> when the deadline cut the request off.\<close>

definition await :: "'w service_env \<Rightarrow> ('w \<Rightarrow> 'r \<times> 'w) \<Rightarrow> 'w tracked \<Rightarrow> 'r option \<times> 'w tracked" where
  "await env op t =
     (if tr_cut t \<or> env_expired env (tr_world t) then (None, t\<lparr>tr_cut := True\<rparr>)
      else case op (tr_world t) of
        (r, w) \<Rightarrow> if env_expired env w then (None, t\<lparr>tr_world := w, tr_cut := True\<rparr>) else (Some r, t\<lparr>tr_world := w\<rparr>))"

text \<open>
  An operation of the provider API in a request. The error of a cut request goes nowhere: the outcome of
  the request is then that of the deadline.
\<close>

definition cut_off :: NormalizedProviderError where
  "cut_off = unknown_outcome ''deadline''"

definition awaited :: "'w service_env \<Rightarrow> ('w, 'a) io \<Rightarrow> ('w tracked, 'a) io" where
  "awaited env op t = (case await env op t of (None, t') \<Rightarrow> (Inl cut_off, t') | (Some r, t') \<Rightarrow> (r, t'))"

definition timed_api :: "'w service_env \<Rightarrow> 'w Route53Api \<Rightarrow> 'w tracked Route53Api" where
  "timed_api env api =
     \<lparr>verified_account_id = verified_account_id api,
      create_hosted_zone = (\<lambda>request. awaited env (create_hosted_zone api request)),
      get_hosted_zone = (\<lambda>zid. awaited env (get_hosted_zone api zid)),
      list_hosted_zones = (\<lambda>marker n. awaited env (list_hosted_zones api marker n)),
      list_record_sets = (\<lambda>zid cursor n. awaited env (list_record_sets api zid cursor n)),
      change_record_sets = (\<lambda>zid batch. awaited env (change_record_sets api zid batch)),
      get_change = (\<lambda>change_id. awaited env (get_change api change_id)),
      delete_hosted_zone = (\<lambda>zid. awaited env (delete_hosted_zone api zid)),
      get_dnssec = (\<lambda>zid. awaited env (get_dnssec api zid)),
      enable_hosted_zone_dnssec = (\<lambda>zid. awaited env (enable_hosted_zone_dnssec api zid)),
      disable_hosted_zone_dnssec = (\<lambda>zid. awaited env (disable_hosted_zone_dnssec api zid))\<rparr>"

section \<open>The authority of a request\<close>

text \<open>The account as it was read, and the signing keys with the revisions they had.\<close>

record AuthorityFence =
  af_account :: ProviderAccount
  af_keys :: "(CredentialPurpose \<times> string \<times> string) list"

fun resolve_revisions ::
  "'w service_env \<Rightarrow> string \<Rightarrow> (CredentialPurpose \<times> string \<times> string) list \<Rightarrow> 'w tracked \<Rightarrow> string option list option \<times> 'w tracked" where
  "resolve_revisions env account_id [] t = (Some [], t)"
| "resolve_revisions env account_id ((purpose, credential_ref, _) # keys) t =
     (case await env (env_resolve env account_id purpose credential_ref) t of
        (None, t') \<Rightarrow> (None, t')
      | (Some r, t') \<Rightarrow>
          (case resolve_revisions env account_id keys t' of
             (None, t'') \<Rightarrow> (None, t'')
           | (Some rs, t'') \<Rightarrow> (Some ((case r of Inr (_, revision) \<Rightarrow> Some revision | Inl _ \<Rightarrow> None) # rs), t'')))"

definition is_current :: "'w service_env \<Rightarrow> AuthorityFence \<Rightarrow> 'w tracked \<Rightarrow> bool option \<times> 'w tracked" where
  "is_current env fence t =
     (let account_id = md_id (acc_metadata (af_account fence))
      in case await env (env_account env account_id) t of
           (None, t1) \<Rightarrow> (None, t1)
         | (Some r, t1) \<Rightarrow>
             if r \<noteq> Inr (Some (af_account fence)) then (Some False, t1)
             else
               (case resolve_revisions env account_id (af_keys fence) t1 of
                  (None, t2) \<Rightarrow> (None, t2)
                | (Some revisions, t2) \<Rightarrow>
                    if revisions \<noteq> map (\<lambda>(_, _, revision). Some revision) (af_keys fence) then (Some False, t2)
                    else
                      (case await env (env_account env account_id) t2 of
                         (None, t3) \<Rightarrow> (None, t3)
                       | (Some r', t3) \<Rightarrow> (Some (r' = Inr (Some (af_account fence))), t3))))"

definition authority_changed :: NormalizedProviderError where
  "authority_changed =
     \<lparr>ne_category = EValidation, ne_code = ''route53_authority_changed_before_dispatch'',
      ne_message = ''route53_authority_changed_before_dispatch'', ne_retry_after_ms = None, ne_provider_request_id = None\<rparr>"

text \<open>\<open>before_dispatch\<close> and the call: the authority is checked again and the dispatch is noted first.\<close>

definition fenced :: "'w service_env \<Rightarrow> AuthorityFence \<Rightarrow> ('w, 'a) io \<Rightarrow> ('w tracked, 'a) io" where
  "fenced env fence op t =
     (case is_current env fence t of
        (None, t') \<Rightarrow> (Inl cut_off, t')
      | (Some False, t') \<Rightarrow> (Inl authority_changed, t')
      | (Some True, t') \<Rightarrow> awaited env op (t'\<lparr>tr_dispatched := True\<rparr>))"

definition write_tracking_api :: "'w service_env \<Rightarrow> AuthorityFence \<Rightarrow> 'w Route53Api \<Rightarrow> 'w tracked Route53Api" where
  "write_tracking_api env fence api =
     (timed_api env api)\<lparr>change_record_sets := (\<lambda>zid batch. fenced env fence (change_record_sets api zid batch))\<rparr>"

definition lifecycle_tracking_api :: "'w service_env \<Rightarrow> AuthorityFence \<Rightarrow> 'w Route53Api \<Rightarrow> 'w tracked Route53Api" where
  "lifecycle_tracking_api env fence api =
     (timed_api env api)
       \<lparr>create_hosted_zone := (\<lambda>request. fenced env fence (create_hosted_zone api request)),
        delete_hosted_zone := (\<lambda>zid. fenced env fence (delete_hosted_zone api zid))\<rparr>"

section \<open>Requests\<close>

type_synonym ('w, 'a) svc = "'w tracked \<Rightarrow> (Route53DnsAdminError + 'a) \<times> 'w tracked"

definition svc_then :: "('w, 'a) svc \<Rightarrow> ('a \<Rightarrow> ('w, 'b) svc) \<Rightarrow> ('w, 'b) svc" where
  "svc_then m f t = (case m t of (Inl e, t') \<Rightarrow> (Inl e, t') | (Inr x, t') \<Rightarrow> f x t')"

definition svc_lift :: "Route53DnsAdminError + 'a \<Rightarrow> ('w, 'a) svc" where
  "svc_lift r t = (r, t)"

definition svc_await :: "'w service_env \<Rightarrow> ('w \<Rightarrow> 'r \<times> 'w) \<Rightarrow> ('w, 'r) svc" where
  "svc_await env op t = (case await env op t of (None, t') \<Rightarrow> (Inl Unavailable, t') | (Some r, t') \<Rightarrow> (Inr r, t'))"

definition svc_call :: "(NormalizedProviderError \<Rightarrow> bool \<Rightarrow> Route53DnsAdminError) \<Rightarrow> ('w tracked, 'a) io \<Rightarrow> ('w, 'a) svc" where
  "svc_call f op t = (case op t of (Inl e, t') \<Rightarrow> (Inl (f e (tr_dispatched t')), t') | (Inr x, t') \<Rightarrow> (Inr x, t'))"

definition require_current :: "'w service_env \<Rightarrow> AuthorityFence \<Rightarrow> Route53DnsAdminError \<Rightarrow> ('w, unit) svc" where
  "require_current env fence e t =
     (case is_current env fence t of
        (None, t') \<Rightarrow> (Inl e, t')
      | (Some ok, t') \<Rightarrow> ((if ok then Inr () else Inl e), t'))"

text \<open>\<open>tokio::time::timeout\<close> around a request.\<close>

definition with_timeout :: "bool \<Rightarrow> ('w, 'a) svc \<Rightarrow> 'w \<Rightarrow> (Route53DnsAdminError + 'a) \<times> 'w" where
  "with_timeout mutation body w =
     (case body \<lparr>tr_world = w, tr_dispatched = False, tr_cut = False\<rparr> of
        (r, t) \<Rightarrow>
          ((if tr_cut t then Inl (if mutation \<and> tr_dispatched t then AdminUnknownOutcome else Unavailable) else r), tr_world t))"

definition admission :: "'w service_env \<Rightarrow> string \<Rightarrow> ('w, unit) svc" where
  "admission env account_id = svc_then (svc_await env (env_admit env account_id)) svc_lift"

definition read_account :: "'w service_env \<Rightarrow> string \<Rightarrow> ('w, ProviderAccount) svc" where
  "read_account env account_id =
     svc_then (svc_await env (env_account env account_id)) (\<lambda>r.
     svc_then (svc_lift (map_err Unavailable r)) (\<lambda>found. svc_lift (ok_or AdminNotFound found)))"

definition aws_ambient_account :: "ProviderAccount \<Rightarrow> bool" where
  "aws_ambient_account a \<longleftrightarrow>
     spec_provider (acc_spec a) = Aws \<and> (case spec_scope (acc_spec a) of Some (AwsScope _) \<Rightarrow> True | _ \<Rightarrow> False) \<and> spec_credential_source (acc_spec a) = Ambient"

definition validate_read_account :: "string \<Rightarrow> ProviderAccount \<Rightarrow> Route53DnsAdminError + unit" where
  "validate_read_account account_id a =
     (if md_id (acc_metadata a) \<noteq> account_id \<or> \<not> aws_ambient_account a then Inl InvalidRequest else Inr ())"

definition validate_write_account :: "string \<Rightarrow> ProviderAccount \<Rightarrow> Route53DnsAdminError + unit" where
  "validate_write_account account_id a =
     (if md_id (acc_metadata a) \<noteq> account_id \<or> md_management_policy (acc_metadata a) \<noteq> Managed \<or> \<not> aws_ambient_account a
      then Inl InvalidRequest else Inr ())"

definition validate_lifecycle_account :: "string \<Rightarrow> ProviderAccount \<Rightarrow> Route53DnsAdminError + unit" where
  "validate_lifecycle_account account_id a =
     (if md_id (acc_metadata a) \<noteq> account_id \<or> md_management_policy (acc_metadata a) \<noteq> Managed \<or> \<not> aws_ambient_account a
      then Inl AdminConflict else Inr ())"

text \<open>A signing key of 32 bytes that is not all zero, with its revision.\<close>

definition resolve_key ::
  "'w service_env \<Rightarrow> ProviderAccount \<Rightarrow> CredentialPurpose \<Rightarrow> string \<Rightarrow> (string \<Rightarrow> string ProviderResult) \<Rightarrow> ('w, string \<times> string) svc" where
  "resolve_key env account purpose credential_ref new_key =
     svc_then (svc_await env (env_resolve env (md_id (acc_metadata account)) purpose credential_ref)) (\<lambda>r.
     svc_then (svc_lift (map_err Unavailable r)) (\<lambda>(bytes, revision).
       if length bytes \<noteq> 32 then svc_lift (Inl Unavailable)
       else svc_then (svc_lift (map_err Unavailable (new_key bytes))) (\<lambda>key. svc_lift (Inr (key, revision)))))"

definition build_api :: "'w service_env \<Rightarrow> ('w, 'w Route53Api) svc" where
  "build_api env = svc_then (svc_await env (env_build env)) (\<lambda>r. svc_lift (map_err Unavailable r))"

section \<open>The read service\<close>

record read_authority =
  ra_account :: ProviderAccount
  ra_cursor_revision :: string

definition prepare_read ::
  "'w service_env \<Rightarrow> string \<Rightarrow> string \<Rightarrow> ('w, 'w tracked Route53DnsAdapter \<times> read_authority) svc" where
  "prepare_read env cursor_ref account_id =
     svc_then (read_account env account_id) (\<lambda>account.
     svc_then (svc_lift (validate_read_account account_id account)) (\<lambda>_.
     svc_then (resolve_key env account Route53DnsCursorHmac cursor_ref cursor_key_new) (\<lambda>(cursor_key, cursor_revision).
     svc_then (build_api env) (\<lambda>api.
     svc_then (svc_lift (map_err Unavailable
         (adapter_new (md_id (acc_metadata account)) (acc_spec account) (timed_api env api) cursor_key))) (\<lambda>adapter.
       svc_lift (Inr (adapter, \<lparr>ra_account = account, ra_cursor_revision = cursor_revision\<rparr>)))))))"

text \<open>\<open>authority_is_current\<close>, which resolves the key itself and not only its revision; any failure means no.\<close>

definition authority_is_current :: "'w service_env \<Rightarrow> string \<Rightarrow> read_authority \<Rightarrow> ('w, unit) svc" where
  "authority_is_current env cursor_ref authority =
     (let account_id = md_id (acc_metadata (ra_account authority))
      in svc_then (svc_await env (env_account env account_id)) (\<lambda>r.
           if r \<noteq> Inr (Some (ra_account authority)) then svc_lift (Inl Unavailable)
           else
             svc_then (resolve_key env (ra_account authority) Route53DnsCursorHmac cursor_ref cursor_key_new) (\<lambda>(_, revision).
               if revision \<noteq> ra_cursor_revision authority then svc_lift (Inl Unavailable)
               else
                 svc_then (svc_await env (env_account env account_id)) (\<lambda>r'.
                   svc_lift (if r' = Inr (Some (ra_account authority)) then Inr () else Inl Unavailable)))))"

definition map_provider_error :: "NormalizedProviderError \<Rightarrow> Route53DnsAdminError" where
  "map_provider_error e =
     (if ne_code e = ''route53_inventory_changed'' then RestartRequired
      else case ne_category e of
        ENotFound \<Rightarrow> AdminNotFound
      | EValidation \<Rightarrow>
          if ne_code e \<in> {''invalid_route53_page_token'', ''invalid_page''} then InvalidRequest else InvalidProviderObservation
      | _ \<Rightarrow> Unavailable)"

definition observe_exact_zone :: "route53_crypto \<Rightarrow> 'w tracked Route53DnsAdapter \<Rightarrow> string \<Rightarrow> string \<Rightarrow> ('w, ObservedDnsZone) svc" where
  "observe_exact_zone cr adapter account_id zid =
     svc_then (svc_call (\<lambda>e _. map_provider_error e) (observe_zone_by_id cr adapter account_id zid)) (\<lambda>found.
       svc_lift (ok_or AdminNotFound found))"

definition dns_admin_map_zone :: "ObservedDnsZone \<Rightarrow> Route53DnsAdminError + Route53ZoneDto" where
  "dns_admin_map_zone observed =
     and_then (map_err InvalidProviderObservation (validate_observed_zone observed)) (\<lambda>_.
       if zone_provider (oz_zone observed) \<noteq> Aws \<or> zone_visibility (oz_zone observed) \<noteq> Public then Inl InvalidProviderObservation
       else Inr (zone_dto (oz_zone observed)))"

definition dns_admin_map_record :: "ObservedDnsRecordSet \<Rightarrow> Route53DnsAdminError + Route53RecordSetDto" where
  "dns_admin_map_record observed =
     and_then (map_err InvalidProviderObservation (validate_observed_record_set observed)) (\<lambda>_.
       if zone_provider (or_zone observed) \<noteq> Aws \<or> zone_visibility (or_zone observed) \<noteq> Public
          \<or> or_provider_object_ids observed \<noteq> []
          \<or> (case rs_extension (or_record_set observed) of Some (CloudflareExt _ _ _ _) \<Rightarrow> True | _ \<Rightarrow> False)
       then Inl InvalidProviderObservation
       else
         Inr \<lparr>rd_provider_account_id = zone_account_id (or_zone observed), rd_zone_id = zone_id (or_zone observed),
              rd_zone_apex = zone_apex (or_zone observed), rd_zone_visibility = zone_visibility (or_zone observed),
              rd_record_set = or_record_set observed, rd_control = ExternalOrManual, rd_revision = or_revision observed\<rparr>)"

definition validate_service_page :: "Route53PageRequest \<Rightarrow> Route53DnsAdminError + unit" where
  "validate_service_page page =
     (if pr_limit page = 0 \<or> MAX_ROUTE53_PAGE_LIMIT < pr_limit page then Inl InvalidRequest
      else map_err InvalidRequest (validate_cursor (pr_cursor page)))"

definition core_page :: "Route53PageRequest \<Rightarrow> DnsPageRequest" where
  "core_page page = \<lparr>page_limit = pr_limit page, page_token = pr_cursor page\<rparr>"

text \<open>What every read does: admission, the prepared adapter, the authority before and after the work.\<close>

definition read_request ::
  "'w service_env \<Rightarrow> string \<Rightarrow> string \<Rightarrow> ('w tracked Route53DnsAdapter \<Rightarrow> ('w, 'a) svc) \<Rightarrow> ('a \<Rightarrow> Route53DnsAdminError + 'b)
     \<Rightarrow> 'w \<Rightarrow> (Route53DnsAdminError + 'b) \<times> 'w" where
  "read_request env cursor_ref account_id work render =
     with_timeout False
       (svc_then (admission env account_id) (\<lambda>_.
        svc_then (prepare_read env cursor_ref account_id) (\<lambda>(adapter, authority).
        svc_then (authority_is_current env cursor_ref authority) (\<lambda>_.
        svc_then (work adapter) (\<lambda>x.
        svc_then (authority_is_current env cursor_ref authority) (\<lambda>_.
          svc_lift (render x)))))))"

definition read_list_zones ::
  "route53_crypto \<Rightarrow> 'w service_env \<Rightarrow> string \<Rightarrow> string \<Rightarrow> Route53PageRequest \<Rightarrow> ('w, Route53ZonePageDto) admin_call" where
  "read_list_zones cr env cursor_ref account_id page w =
     (case validate_service_page page of
        Inl e \<Rightarrow> (Inl e, w)
      | Inr _ \<Rightarrow>
          read_request env cursor_ref account_id
            (\<lambda>adapter. svc_call (\<lambda>e _. map_provider_error e) (list_zones cr adapter account_id (core_page page)))
            (\<lambda>p. and_then (collect_ok dns_admin_map_zone (page_items p)) (\<lambda>items.
               Inr \<lparr>zpd_items = items, zpd_next_cursor = page_next p\<rparr>)) w)"

definition read_get_zone ::
  "route53_crypto \<Rightarrow> 'w service_env \<Rightarrow> string \<Rightarrow> string \<Rightarrow> string \<Rightarrow> ('w, Route53ZoneDto) admin_call" where
  "read_get_zone cr env cursor_ref account_id zid =
     read_request env cursor_ref account_id (\<lambda>adapter. observe_exact_zone cr adapter account_id zid) dns_admin_map_zone"

definition read_list_record_sets ::
  "route53_crypto \<Rightarrow> 'w service_env \<Rightarrow> string \<Rightarrow> string \<Rightarrow> string \<Rightarrow> Route53PageRequest \<Rightarrow> ('w, Route53RecordPageDto) admin_call" where
  "read_list_record_sets cr env cursor_ref account_id zid page w =
     (case validate_service_page page of
        Inl e \<Rightarrow> (Inl e, w)
      | Inr _ \<Rightarrow>
          read_request env cursor_ref account_id
            (\<lambda>adapter.
               svc_then (observe_exact_zone cr adapter account_id zid) (\<lambda>zone.
               svc_then (svc_call (\<lambda>e _. map_provider_error e) (list_record_sets_page cr adapter (oz_zone zone) (core_page page))) (\<lambda>p.
                 svc_lift (Inr (zone, p)))))
            (\<lambda>(zone, p).
               and_then (dns_admin_map_zone zone) (\<lambda>zone'.
               and_then (collect_ok dns_admin_map_record (page_items p)) (\<lambda>items.
                 Inr \<lparr>rpd_zone = zone', rpd_items = items, rpd_next_cursor = page_next p\<rparr>))) w)"

definition read_get_record_set ::
  "route53_crypto \<Rightarrow> 'w service_env \<Rightarrow> string \<Rightarrow> string \<Rightarrow> string \<Rightarrow> Route53RecordSetKey \<Rightarrow> ('w, Route53RecordSetDto) admin_call" where
  "read_get_record_set cr env cursor_ref account_id zid key w =
     (case validate_key (key_core key) of
        Inl _ \<Rightarrow> (Inl InvalidRequest, w)
      | Inr _ \<Rightarrow>
          read_request env cursor_ref account_id
            (\<lambda>adapter.
               svc_then (observe_exact_zone cr adapter account_id zid) (\<lambda>zone.
               svc_then (svc_call (\<lambda>e _. map_provider_error e) (get_record_set cr adapter (oz_zone zone) (key_core key))) (\<lambda>found.
                 svc_lift (ok_or AdminNotFound found))))
            dns_admin_map_record w)"

definition read_service :: "route53_crypto \<Rightarrow> 'w service_env \<Rightarrow> string \<Rightarrow> 'w Route53DnsAdminService" where
  "read_service cr env cursor_ref =
     \<lparr>svc_list_zones = read_list_zones cr env cursor_ref, svc_get_zone = read_get_zone cr env cursor_ref,
      svc_list_record_sets = read_list_record_sets cr env cursor_ref, svc_get_record_set = read_get_record_set cr env cursor_ref\<rparr>"

section \<open>The write service\<close>

record write_keys =
  wk_cursor_ref :: string
  wk_mutation_ref :: string

definition write_fence :: "write_keys \<Rightarrow> ProviderAccount \<Rightarrow> string \<Rightarrow> string \<Rightarrow> AuthorityFence" where
  "write_fence keys account cursor_revision mutation_revision =
     \<lparr>af_account = account,
      af_keys = [(Route53DnsCursorHmac, wk_cursor_ref keys, cursor_revision),
                 (Route53DnsMutationReceiptHmac, wk_mutation_ref keys, mutation_revision)]\<rparr>"

definition prepare_write ::
  "'w service_env \<Rightarrow> write_keys \<Rightarrow> string \<Rightarrow> ('w, 'w tracked Route53DnsAdapter \<times> AuthorityFence) svc" where
  "prepare_write env keys account_id =
     svc_then (read_account env account_id) (\<lambda>account.
     svc_then (svc_lift (validate_write_account account_id account)) (\<lambda>_.
     svc_then (resolve_key env account Route53DnsCursorHmac (wk_cursor_ref keys) cursor_key_new) (\<lambda>(cursor_key, cursor_revision).
     svc_then (resolve_key env account Route53DnsMutationReceiptHmac (wk_mutation_ref keys) mutation_receipt_key_new) (\<lambda>(mutation_key, mutation_revision).
     svc_then (build_api env) (\<lambda>api.
       let fence = write_fence keys account cursor_revision mutation_revision
       in svc_then (svc_lift (map_err Unavailable
              (new_with_record_write_key (md_id (acc_metadata account)) (acc_spec account) (write_tracking_api env fence api)
                 cursor_key mutation_key))) (\<lambda>adapter.
            svc_lift (Inr (adapter, fence))))))))"

fun observe_records :: "DnsZoneRef \<Rightarrow> ObservedDnsRecordSet list \<Rightarrow> (DnsRecordSetKey, ObservedDnsRecordSet) hmap
     \<Rightarrow> Route53DnsAdminError + (DnsRecordSetKey, ObservedDnsRecordSet) hmap" where
  "observe_records zone [] records = Inr records"
| "observe_records zone (r # rs) records =
     (if or_zone r \<noteq> zone \<or> map_of records (rs_key (or_record_set r)) \<noteq> None then Inl InvalidProviderObservation
      else observe_records zone rs (AList.update (rs_key (or_record_set r)) r records))"

definition observe_all_records ::
  "route53_crypto \<Rightarrow> 'w tracked Route53DnsAdapter \<Rightarrow> DnsZoneRef \<Rightarrow> ('w, (DnsRecordSetKey, ObservedDnsRecordSet) hmap) svc" where
  "observe_all_records cr adapter zone =
     svc_then (svc_call (\<lambda>e _. map_provider_error e) (all_records cr adapter zone)) (\<lambda>rs.
       svc_lift (observe_records zone rs []))"

datatype MutationRequest =
    MPut Route53RecordSetKey Route53RecordSetPutRequest
  | MDelete Route53RecordSetKey Route53RecordSetDeleteRequest
  | MBatch "Route53RecordBatchChangeDto list"

type_synonym record_inventory = "(DnsRecordSetKey, ObservedDnsRecordSet) hmap"

text \<open>The two pushes; a key leaves the inventory with the first change that names it.\<close>

definition push_put_change ::
  "base64_engine \<Rightarrow> DnsZoneRef \<Rightarrow> record_inventory \<Rightarrow> Route53RecordSetKey \<Rightarrow> Route53RecordSetDesiredDto \<Rightarrow> Route53RecordMutationGuardDto
     \<Rightarrow> Route53DnsAdminError + (record_inventory \<times> DnsRecordChange)" where
  "push_put_change b zone inventory key desired guard =
     and_then (map_err InvalidRequest (desired_record_set b key desired)) (\<lambda>record_set.
     and_then (map_err InvalidRequest (validate_record_set zone record_set)) (\<lambda>_.
       let rest = AList.delete (key_core key) inventory
       in case (guard, map_of inventory (key_core key)) of
            (GuardMustNotExist, None) \<Rightarrow> Inr (rest, CreateSet record_set MustNotExist)
          | (GuardMatchRevision revision, Some previous) \<Rightarrow>
              if or_revision previous = revision then Inr (rest, ReplaceSet previous record_set (MatchObserved revision))
              else Inl AdminConflict
          | _ \<Rightarrow> Inl AdminConflict))"

definition push_delete_change ::
  "record_inventory \<Rightarrow> Route53RecordSetKey \<Rightarrow> string \<Rightarrow> Route53DnsAdminError + (record_inventory \<times> DnsRecordChange)" where
  "push_delete_change inventory key revision =
     and_then (map_err InvalidRequest (validate_revision revision)) (\<lambda>_.
       case map_of inventory (key_core key) of
         None \<Rightarrow> Inl AdminConflict
       | Some previous \<Rightarrow>
           if or_revision previous \<noteq> revision then Inl AdminConflict
           else Inr (AList.delete (key_core key) inventory, DeleteSet previous (MatchObserved revision)))"

fun push_batch_change ::
  "base64_engine \<Rightarrow> DnsZoneRef \<Rightarrow> record_inventory \<Rightarrow> Route53RecordBatchChangeDto
     \<Rightarrow> Route53DnsAdminError + (record_inventory \<times> DnsRecordChange)" where
  "push_batch_change b zone inventory (BatchCreate key desired) = push_put_change b zone inventory key desired GuardMustNotExist"
| "push_batch_change b zone inventory (BatchReplace key revision desired) =
     push_put_change b zone inventory key desired (GuardMatchRevision revision)"
| "push_batch_change b zone inventory (BatchDelete key revision) = push_delete_change inventory key revision"

fun push_batch ::
  "base64_engine \<Rightarrow> DnsZoneRef \<Rightarrow> record_inventory \<Rightarrow> Route53RecordBatchChangeDto list \<Rightarrow> Route53DnsAdminError + DnsRecordChange list" where
  "push_batch b zone inventory [] = Inr []"
| "push_batch b zone inventory (c # cs) =
     and_then (push_batch_change b zone inventory c) (\<lambda>(rest, change).
     and_then (push_batch b zone rest cs) (\<lambda>changes. Inr (change # changes)))"

fun build_changes ::
  "base64_engine \<Rightarrow> DnsZoneRef \<Rightarrow> record_inventory \<Rightarrow> MutationRequest \<Rightarrow> Route53DnsAdminError + DnsRecordChange list" where
  "build_changes b zone inventory (MPut key request) =
     and_then (push_put_change b zone inventory key (put_desired request) (put_guard request)) (\<lambda>(_, change). Inr [change])"
| "build_changes b zone inventory (MDelete key request) =
     and_then (push_delete_change inventory key (del_expected_revision request)) (\<lambda>(_, change). Inr [change])"
| "build_changes b zone inventory (MBatch changes) = push_batch b zone inventory changes"

definition map_mutation_error :: "NormalizedProviderError \<Rightarrow> bool \<Rightarrow> Route53DnsAdminError" where
  "map_mutation_error e dispatched =
     (if ne_code e = ''route53_authority_changed_before_dispatch'' then Unavailable
      else case ne_category e of
        EUnknownOutcome \<Rightarrow> AdminUnknownOutcome
      | EConflict \<Rightarrow> AdminConflict
      | ENotFound \<Rightarrow> AdminConflict
      | EValidation \<Rightarrow> InvalidRequest
      | _ \<Rightarrow> if dispatched then AdminUnknownOutcome else Unavailable)"

definition mutate ::
  "route53_crypto \<Rightarrow> base64_engine \<Rightarrow> 'w service_env \<Rightarrow> write_keys \<Rightarrow> string \<Rightarrow> string \<Rightarrow> MutationRequest \<Rightarrow> ('w, Route53ChangeReceiptDto) admin_call" where
  "mutate cr b env keys account_id zid request =
     with_timeout True
       (svc_then (admission env account_id) (\<lambda>_.
        svc_then (prepare_write env keys account_id) (\<lambda>(adapter, fence).
        svc_then (observe_exact_zone cr adapter account_id zid) (\<lambda>zone.
        svc_then (observe_all_records cr adapter (oz_zone zone)) (\<lambda>inventory.
        svc_then (svc_lift (build_changes b (oz_zone zone) inventory request)) (\<lambda>changes.
        svc_then (svc_call map_mutation_error (apply_record_changes cr adapter (oz_zone zone) changes Atomic)) (\<lambda>receipt.
        svc_then (require_current env fence AdminUnknownOutcome) (\<lambda>_.
          svc_lift (map_err AdminUnknownOutcome (receipt_from_core receipt))))))))))"

definition write_apply_change_batch ::
  "route53_crypto \<Rightarrow> base64_engine \<Rightarrow> 'w service_env \<Rightarrow> write_keys \<Rightarrow> string \<Rightarrow> string \<Rightarrow> Route53RecordBatchChangeDto list
     \<Rightarrow> ('w, Route53ChangeReceiptDto) admin_call" where
  "write_apply_change_batch cr b env keys account_id zid changes w =
     (case validate_shape b changes of
        Inl _ \<Rightarrow> (Inl InvalidRequest, w)
      | Inr _ \<Rightarrow> mutate cr b env keys account_id zid (MBatch changes) w)"

definition map_observe_error :: "NormalizedProviderError \<Rightarrow> Route53DnsAdminError" where
  "map_observe_error e = (case ne_category e of ENotFound \<Rightarrow> AdminNotFound | EValidation \<Rightarrow> InvalidRequest | _ \<Rightarrow> Unavailable)"

definition prepare_observe_after_receipt_preflight ::
  "route53_crypto \<Rightarrow> 'w service_env \<Rightarrow> write_keys \<Rightarrow> string \<Rightarrow> string \<Rightarrow> string \<Rightarrow> ('w, 'w tracked Route53DnsAdapter \<times> AuthorityFence) svc" where
  "prepare_observe_after_receipt_preflight cr env keys account_id zid receipt =
     svc_then (read_account env account_id) (\<lambda>account.
     svc_then (svc_lift (validate_write_account account_id account)) (\<lambda>_.
     svc_then (resolve_key env account Route53DnsMutationReceiptHmac (wk_mutation_ref keys) mutation_receipt_key_new) (\<lambda>(mutation_key, mutation_revision).
     svc_then (svc_lift (map_err Unavailable (verifier_new (md_id (acc_metadata account)) (acc_spec account) mutation_key))) (\<lambda>verifier.
     svc_then (svc_lift (case validate_scope cr verifier account_id zid receipt of Inl e \<Rightarrow> Inl (map_observe_error e) | Inr _ \<Rightarrow> Inr ())) (\<lambda>_.
     svc_then (resolve_key env account Route53DnsCursorHmac (wk_cursor_ref keys) cursor_key_new) (\<lambda>(cursor_key, cursor_revision).
       let fence = write_fence keys account cursor_revision mutation_revision
       in svc_then (require_current env fence Unavailable) (\<lambda>_.
          svc_then (build_api env) (\<lambda>api.
          svc_then (svc_lift (map_err Unavailable
              (new_with_record_write_verifier (md_id (acc_metadata account)) (acc_spec account) (write_tracking_api env fence api)
                 cursor_key verifier))) (\<lambda>adapter.
            svc_lift (Inr (adapter, fence)))))))))))"

definition write_get_change ::
  "route53_crypto \<Rightarrow> 'w service_env \<Rightarrow> write_keys \<Rightarrow> string \<Rightarrow> string \<Rightarrow> string \<Rightarrow> ('w, Route53ChangeReceiptDto) admin_call" where
  "write_get_change cr env keys account_id zid receipt w =
     (case validate_change_id receipt of
        Inl _ \<Rightarrow> (Inl InvalidRequest, w)
      | Inr _ \<Rightarrow>
          with_timeout False
            (svc_then (admission env account_id) (\<lambda>_.
             svc_then (prepare_observe_after_receipt_preflight cr env keys account_id zid receipt) (\<lambda>(adapter, fence).
             svc_then (observe_exact_zone cr adapter account_id zid) (\<lambda>zone.
             svc_then (require_current env fence Unavailable) (\<lambda>_.
             svc_then (svc_call (\<lambda>e _. map_observe_error e) (observe_change cr adapter (oz_zone zone) receipt)) (\<lambda>found.
             svc_then (require_current env fence Unavailable) (\<lambda>_.
               svc_lift (map_err InvalidProviderObservation (receipt_from_core found))))))))) w)"

definition write_service :: "route53_crypto \<Rightarrow> base64_engine \<Rightarrow> 'w service_env \<Rightarrow> write_keys \<Rightarrow> 'w Route53DnsWriteAdminService" where
  "write_service cr b env keys =
     \<lparr>svc_put_record_set = (\<lambda>account_id zid key request. mutate cr b env keys account_id zid (MPut key request)),
      svc_delete_record_set = (\<lambda>account_id zid key request. mutate cr b env keys account_id zid (MDelete key request)),
      svc_apply_change_batch = write_apply_change_batch cr b env keys,
      svc_get_change = write_get_change cr env keys\<rparr>"

section \<open>The lifecycle service\<close>

record lifecycle_keys =
  lk_cursor_ref :: string
  lk_lifecycle_ref :: string

definition prepare_lifecycle ::
  "'w service_env \<Rightarrow> lifecycle_keys \<Rightarrow> string \<Rightarrow> ('w, 'w tracked Route53DnsAdapter \<times> AuthorityFence) svc" where
  "prepare_lifecycle env keys account_id =
     svc_then (read_account env account_id) (\<lambda>account.
     svc_then (svc_lift (validate_lifecycle_account account_id account)) (\<lambda>_.
     svc_then (resolve_key env account Route53DnsCursorHmac (lk_cursor_ref keys) cursor_key_new) (\<lambda>(cursor_key, cursor_revision).
     svc_then (resolve_key env account Route53ZoneLifecycleHmac (lk_lifecycle_ref keys) lifecycle_token_key_new) (\<lambda>(lifecycle_key, lifecycle_revision).
     svc_then (build_api env) (\<lambda>api.
       let fence = \<lparr>af_account = account,
                    af_keys = [(Route53DnsCursorHmac, lk_cursor_ref keys, cursor_revision),
                               (Route53ZoneLifecycleHmac, lk_lifecycle_ref keys, lifecycle_revision)]\<rparr>
       in svc_then (svc_lift (map_err Unavailable
              (new_with_lifecycle_key (md_id (acc_metadata account)) (acc_spec account) (lifecycle_tracking_api env fence api)
                 cursor_key lifecycle_key))) (\<lambda>adapter.
            svc_lift (Inr (adapter, fence))))))))"

definition map_lifecycle_error :: "NormalizedProviderError \<Rightarrow> bool \<Rightarrow> Route53DnsAdminError" where
  "map_lifecycle_error e dispatched =
     (if dispatched \<or> ne_category e = EUnknownOutcome then AdminUnknownOutcome
      else case ne_category e of
        ENotFound \<Rightarrow> AdminNotFound
      | EConflict \<Rightarrow> AdminConflict
      | EValidation \<Rightarrow> InvalidRequest
      | _ \<Rightarrow> Unavailable)"

definition run_lifecycle ::
  "'w service_env \<Rightarrow> lifecycle_keys \<Rightarrow> string \<Rightarrow> bool \<Rightarrow> ('w tracked Route53DnsAdapter \<Rightarrow> ('w tracked, 'a) io) \<Rightarrow> ('w, 'a) admin_call" where
  "run_lifecycle env keys account_id mutation work =
     with_timeout mutation
       (svc_then (admission env account_id) (\<lambda>_.
        svc_then (prepare_lifecycle env keys account_id) (\<lambda>(adapter, fence).
        svc_then (svc_call map_lifecycle_error (work adapter)) (\<lambda>result.
        svc_then (require_current env fence (if mutation then AdminUnknownOutcome else Unavailable)) (\<lambda>_.
          svc_lift (Inr result))))))"

definition service_provider_error :: "ProviderErrorCategory \<Rightarrow> string \<Rightarrow> NormalizedProviderError" where
  "service_provider_error category code =
     \<lparr>ne_category = category, ne_code = code, ne_message = code, ne_retry_after_ms = None, ne_provider_request_id = None\<rparr>"

definition create_work ::
  "route53_crypto \<Rightarrow> ZoneCreationRequest \<Rightarrow> 'w Route53DnsAdapter \<Rightarrow> ('w, Route53ZoneLifecycleMutationDto) io" where
  "create_work cr request adapter =
     io_then (create_zone cr adapter request) (\<lambda>receipt.
       io_lift (map_err (service_provider_error EUnknownOutcome ''route53_invalid_lifecycle_receipt'') (mutation_from_core receipt)))"

definition public_zone_ref :: "'w Route53DnsAdapter \<Rightarrow> string \<Rightarrow> string \<Rightarrow> DnsZoneRef" where
  "public_zone_ref adapter zid apex =
     \<lparr>zone_account_id = ad_center_account_id adapter, zone_provider = Aws, zone_id = zid, zone_apex = apex, zone_visibility = Public\<rparr>"

definition observe_work ::
  "route53_crypto \<Rightarrow> string \<Rightarrow> string \<Rightarrow> 'w Route53DnsAdapter \<Rightarrow> ('w, Route53ZoneLifecycleObservationDto) io" where
  "observe_work cr zid apex adapter =
     io_then (observe_zone cr adapter (public_zone_ref adapter zid apex)) (\<lambda>found.
     io_then (io_lift (ok_or (service_provider_error ENotFound ''route53_zone_not_found'') found)) (\<lambda>v.
       io_lift (map_err (service_provider_error EUnknownOutcome ''route53_invalid_lifecycle_observation'') (observation_from_core v))))"

definition delete_work ::
  "route53_crypto \<Rightarrow> string \<Rightarrow> Route53ZoneDeleteRequest \<Rightarrow> 'w Route53DnsAdapter \<Rightarrow> ('w, Route53ZoneLifecycleMutationDto) io" where
  "delete_work cr zid request adapter =
     io_then (delete_zone_with_exact_guard cr adapter (public_zone_ref adapter zid (zdl_apex request)) (zdl_revision request)) (\<lambda>receipt.
       io_lift (map_err (service_provider_error EUnknownOutcome ''route53_invalid_lifecycle_receipt'') (mutation_from_core receipt)))"

definition lifecycle_create_zone ::
  "route53_crypto \<Rightarrow> 'w service_env \<Rightarrow> lifecycle_keys \<Rightarrow> string \<Rightarrow> ZoneCreationRequest \<Rightarrow> ('w, Route53ZoneLifecycleMutationDto) admin_call" where
  "lifecycle_create_zone cr env keys account_id request w =
     (if zc_provider_account_id request \<noteq> account_id \<or> zc_provider request \<noteq> Aws \<or> zc_visibility request \<noteq> Public
      then (Inl InvalidRequest, w)
      else run_lifecycle env keys account_id True (create_work cr request) w)"

definition lifecycle_service :: "route53_crypto \<Rightarrow> 'w service_env \<Rightarrow> lifecycle_keys \<Rightarrow> 'w Route53ZoneLifecycleAdminService" where
  "lifecycle_service cr env keys =
     \<lparr>svc_create_zone = lifecycle_create_zone cr env keys,
      svc_observe_zone = (\<lambda>account_id zid apex. run_lifecycle env keys account_id False (observe_work cr zid apex)),
      svc_delete_zone = (\<lambda>account_id zid request. run_lifecycle env keys account_id True (delete_work cr zid request))\<rparr>"

section \<open>Composition\<close>

text \<open>A disabled service is absent; an enabled one needs the account store and the mounted credentials.\<close>

definition composed :: "string \<Rightarrow> bool \<Rightarrow> bool \<Rightarrow> ('k \<Rightarrow> 's) \<Rightarrow> 'k option \<Rightarrow> 's option CoreResult" where
  "composed what has_store has_resolver service keys =
     (case keys of
        None \<Rightarrow> Inr None
      | Some k \<Rightarrow>
          if \<not> has_store then Inl (Conflict (''Route 53 '' @ what @ '' requires a provider account store''))
          else if \<not> has_resolver then Inl (Conflict (''Route 53 '' @ what @ '' requires mounted credentials''))
          else Inr (Some (service k)))"

definition compose_dns_admin ::
  "route53_crypto \<Rightarrow> 'w service_env \<Rightarrow> Route53ServiceConfig \<Rightarrow> bool \<Rightarrow> bool \<Rightarrow> 'w Route53DnsAdminService option CoreResult" where
  "compose_dns_admin cr env config has_store has_resolver =
     and_then (validated_read_config config) (composed ''DNS read'' has_store has_resolver (read_service cr env))"

definition compose_dns_write_admin ::
  "route53_crypto \<Rightarrow> base64_engine \<Rightarrow> 'w service_env \<Rightarrow> Route53ServiceConfig \<Rightarrow> bool \<Rightarrow> bool
     \<Rightarrow> 'w Route53DnsWriteAdminService option CoreResult" where
  "compose_dns_write_admin cr b env config has_store has_resolver =
     and_then (validated_write_config config) (composed ''DNS write'' has_store has_resolver
       (\<lambda>(cursor, mutation). write_service cr b env \<lparr>wk_cursor_ref = cursor, wk_mutation_ref = mutation\<rparr>))"

definition compose_zone_lifecycle_admin ::
  "route53_crypto \<Rightarrow> 'w service_env \<Rightarrow> Route53ServiceConfig \<Rightarrow> bool \<Rightarrow> bool \<Rightarrow> 'w Route53ZoneLifecycleAdminService option CoreResult" where
  "compose_zone_lifecycle_admin cr env config has_store has_resolver =
     and_then (validated_lifecycle_config config) (composed ''zone lifecycle'' has_store has_resolver
       (\<lambda>(cursor, lifecycle). lifecycle_service cr env \<lparr>lk_cursor_ref = cursor, lk_lifecycle_ref = lifecycle\<rparr>))"

section \<open>Lemmas\<close>

lemma svc_lift_simp [simp]: "svc_lift r t = (r, t)"
  by (simp add: svc_lift_def)

lemma svc_then_eq_Inr: "svc_then m f t = (Inr x, t') \<longleftrightarrow> (\<exists>y t1. m t = (Inr y, t1) \<and> f y t1 = (Inr x, t'))"
  by (auto simp: svc_then_def split: prod.splits sum.splits)

text \<open>What an operation of a request leaves alone.\<close>

definition keeps :: "('t \<Rightarrow> 's) \<Rightarrow> ('t \<Rightarrow> 'r \<times> 't) \<Rightarrow> bool" where
  "keeps st op \<longleftrightarrow> (\<forall>t. st (snd (op t)) = st t)"

lemma keepsD: "keeps st op \<Longrightarrow> op t = (r, t') \<Longrightarrow> st t' = st t"
  unfolding keeps_def by (metis snd_conv)

lemma keepsI:
  assumes "\<And>t r t'. op t = (r, t') \<Longrightarrow> st t' = st t"
  shows "keeps st op"
  using assms [OF prod.collapse [symmetric]] by (simp add: keeps_def)

lemma keeps_svc_then:
  assumes "keeps st m" "\<And>x. keeps st (f x)"
  shows "keeps st (svc_then m f)"
proof (rule keepsI)
  fix t r t'
  assume run: "svc_then m f t = (r, t')"
  obtain x t1 where m: "m t = (x, t1)" by fastforce
  then show "st t' = st t"
    using run keepsD [OF assms(1) m] keepsD [OF assms(2), of _ t1 r t'] by (cases x) (auto simp: svc_then_def)
qed

lemma keeps_io_then:
  assumes "keeps st m" "\<And>x. keeps st (f x)"
  shows "keeps st (io_then m f)"
proof (rule keepsI)
  fix t r t'
  assume run: "io_then m f t = (r, t')"
  obtain x t1 where m: "m t = (x, t1)" by fastforce
  then show "st t' = st t"
    using run keepsD [OF assms(1) m] keepsD [OF assms(2), of _ t1 r t'] by (cases x) (auto simp: io_then_def)
qed

text \<open>An operation whose result is that of another one after some rendering.\<close>

lemma keeps_same_state: "keeps st op \<Longrightarrow> (\<And>t. snd (op' t) = snd (op t)) \<Longrightarrow> keeps st op'"
  by (simp add: keeps_def)

lemma keeps_svc_lift [simp]: "keeps st (svc_lift r)"
  by (simp add: keeps_def)

lemma keeps_io_lift [simp]: "keeps st (io_lift r)"
  by (simp add: keeps_def)

lemma keeps_svc_call: "keeps st op \<Longrightarrow> keeps st (svc_call f op)"
  by (erule keeps_same_state) (simp add: svc_call_def split: prod.split sum.split)

lemma keeps_if: "(c \<Longrightarrow> keeps st f) \<Longrightarrow> (\<not> c \<Longrightarrow> keeps st g) \<Longrightarrow> keeps st (if c then f else g)"
  by simp

lemma keeps_option: "(x = None \<Longrightarrow> keeps st f) \<Longrightarrow> (\<And>y. x = Some y \<Longrightarrow> keeps st (g y)) \<Longrightarrow> keeps st (case x of None \<Rightarrow> f | Some y \<Rightarrow> g y)"
  by (cases x) simp_all

lemma keeps_prod: "(\<And>a b. x = (a, b) \<Longrightarrow> keeps st (f a b)) \<Longrightarrow> keeps st (case x of (a, b) \<Rightarrow> f a b)"
  by (cases x) simp

lemmas keeps_intros = keeps_svc_then keeps_io_then keeps_svc_call keeps_svc_lift keeps_io_lift keeps_if keeps_option keeps_prod

text \<open>The state that matters: what the world shows, and whether anything was dispatched.\<close>

abbreviation shown :: "('w \<Rightarrow> 's) \<Rightarrow> 'w tracked \<Rightarrow> 's \<times> bool" where
  "shown content t \<equiv> (content (tr_world t), tr_dispatched t)"

lemma keeps_await:
  assumes "keeps content op"
  shows "keeps (shown content) (await env op)"
proof (rule keepsI)
  fix t r t'
  assume run: "await env op t = (r, t')"
  obtain x w where x: "op (tr_world t) = (x, w)" by fastforce
  show "shown content t' = shown content t"
    using run keepsD [OF assms x] by (auto simp: await_def x split: if_splits)
qed

lemma keeps_awaited: "keeps content op \<Longrightarrow> keeps (shown content) (awaited env op)"
  by (drule keeps_await [where env = env], erule keeps_same_state) (simp add: awaited_def split: prod.split option.split)

lemma keeps_svc_await: "keeps content op \<Longrightarrow> keeps (shown content) (svc_await env op)"
  by (drule keeps_await [where env = env], erule keeps_same_state) (simp add: svc_await_def split: prod.split option.split)

definition quiet_env :: "'w service_env \<Rightarrow> ('w \<Rightarrow> 's) \<Rightarrow> bool" where
  "quiet_env env content \<longleftrightarrow>
     (\<forall>account_id. keeps content (env_account env account_id)) \<and> (\<forall>account_id purpose r. keeps content (env_resolve env account_id purpose r))
     \<and> keeps content (env_build env) \<and> (\<forall>account_id. keeps content (env_admit env account_id))"

lemma keeps_resolve_revisions:
  assumes "quiet_env env content"
  shows "keeps (shown content) (resolve_revisions env account_id keys)"
proof (induction keys)
  case (Cons k keys)
  obtain purpose cref revision where k: "k = (purpose, cref, revision)" by (cases k) auto
  have one: "keeps (shown content) (await env (env_resolve env account_id purpose cref))"
    using assms by (intro keeps_await) (simp add: quiet_env_def)
  show ?case
  proof (rule keepsI)
    fix t r t'
    assume run: "resolve_revisions env account_id (k # keys) t = (r, t')"
    obtain x t1 where 1: "await env (env_resolve env account_id purpose cref) t = (x, t1)" by fastforce
    obtain y t2 where 2: "resolve_revisions env account_id keys t1 = (y, t2)" by fastforce
    show "shown content t' = shown content t"
      using run keepsD [OF one 1] keepsD [OF Cons.IH 2] by (auto simp: k 1 2 split: option.splits)
  qed
qed (simp add: keeps_def)

lemma keeps_is_current:
  assumes "quiet_env env content"
  shows "keeps (shown content) (is_current env fence)"
proof -
  have a: "keeps (shown content) (await env (env_account env account_id))" for account_id
    using assms by (intro keeps_await) (simp add: quiet_env_def)
  note r = keeps_resolve_revisions [OF assms]
  show ?thesis
    unfolding keeps_def
  proof
    fix t
    obtain x t1 where 1: "await env (env_account env (md_id (acc_metadata (af_account fence)))) t = (x, t1)" by fastforce
    obtain y t2 where 2: "resolve_revisions env (md_id (acc_metadata (af_account fence))) (af_keys fence) t1 = (y, t2)" by fastforce
    obtain z t3 where 3: "await env (env_account env (md_id (acc_metadata (af_account fence)))) t2 = (z, t3)" by fastforce
    have "shown content t1 = shown content t" "shown content t2 = shown content t1" "shown content t3 = shown content t2"
      using keepsD [OF a 1] keepsD [OF r 2] keepsD [OF a 3] by simp_all
    then show "shown content (snd (is_current env fence t)) = shown content t"
      by (simp add: is_current_def Let_def 1 2 3 split: option.split)
  qed
qed

lemma keeps_require_current: "quiet_env env content \<Longrightarrow> keeps (shown content) (require_current env fence e)"
  by (drule keeps_is_current [where fence = fence], erule keeps_same_state) (simp add: require_current_def split: prod.split option.split)

lemma keeps_prepare:
  assumes "quiet_env env content"
  shows "keeps (shown content) (admission env account_id)" "keeps (shown content) (read_account env account_id)"
    "keeps (shown content) (resolve_key env account purpose r new_key)" "keeps (shown content) (build_api env)"
    "keeps (shown content) (prepare_write env wkeys account_id)" "keeps (shown content) (prepare_lifecycle env lkeys account_id)"
proof -
  have c: "keeps content (env_admit env account_id)" "keeps content (env_account env account_id)"
    "\<And>account_id purpose r. keeps content (env_resolve env account_id purpose r)" "keeps content (env_build env)"
    for account_id using assms by (simp_all add: quiet_env_def)
  show a: "keeps (shown content) (admission env account_id)"
    unfolding admission_def by (intro keeps_intros keeps_svc_await c)
  show ra: "keeps (shown content) (read_account env account_id)"
    unfolding read_account_def by (intro keeps_intros keeps_svc_await c)
  show rk: "keeps (shown content) (resolve_key env account purpose r new_key)" for account purpose r new_key
    unfolding resolve_key_def by (intro keeps_intros keeps_svc_await c)
  show ba: "keeps (shown content) (build_api env)"
    unfolding build_api_def by (intro keeps_intros keeps_svc_await c)
  show "keeps (shown content) (prepare_write env wkeys account_id)" "keeps (shown content) (prepare_lifecycle env lkeys account_id)"
    unfolding prepare_write_def prepare_lifecycle_def Let_def by (intro keeps_intros ra rk ba)+
qed

text \<open>The adapter only reads up to the change it submits.\<close>

lemma keeps_record_pages:
  "(\<And>zid cursor n. keeps st (list_record_sets (ad_api ad) zid cursor n)) \<Longrightarrow> keeps st (record_pages cr ad zone k records cursor cursors seen)"
proof (induction k arbitrary: records cursor cursors seen)
  case (Suc k)
  then show ?case unfolding record_pages.simps by (intro keeps_intros Suc.IH) auto
qed (simp add: keeps_def)

lemma keeps_all_records:
  assumes "\<And>zid. keeps st (get_hosted_zone (ad_api ad) zid)" "\<And>zid cursor n. keeps st (list_record_sets (ad_api ad) zid cursor n)"
  shows "keeps st (all_records_with_raw cr ad zone)" "keeps st (all_records cr ad zone)" "keeps st (observe_zone_by_id cr ad account_id zid)"
proof -
  show a: "keeps st (all_records_with_raw cr ad zone)"
    unfolding all_records_with_raw_def by (intro keeps_intros keeps_record_pages assms)
  show "keeps st (all_records cr ad zone)" unfolding all_records_def by (intro keeps_intros a)
  show "keeps st (observe_zone_by_id cr ad account_id zid)" unfolding observe_zone_by_id_def by (intro keeps_intros assms)
qed

end
