(* ===== verification/Route53_Truth.thy ===== *)
theory Route53_Truth
  imports Route53_Service
begin

text \<open>
  What the answers of the Route 53 services say about the provider: a record write that succeeds has applied
  exactly the changes that were asked for, and an error other than an unknown outcome has changed nothing,
  deadline included; the same for the creation and the deletion of a zone.
\<close>

section \<open>One awaited call\<close>

text \<open>A step of a request that only reads, and then the rest of it.\<close>

lemma svc_then_kept:
  assumes "keeps st m" "st t = s"
    and "\<And>x t1. m t = (Inr x, t1) \<Longrightarrow> st t1 = s \<Longrightarrow> R (f x t1)"
    and "\<And>e t1. st t1 = s \<Longrightarrow> R (Inl e, t1)"
  shows "R (svc_then m f t)"
proof -
  obtain r t1 where m: "m t = (r, t1)" by fastforce
  then have "st t1 = s" using keepsD [OF assms(1) m] assms(2) by simp
  with m assms(3,4) show ?thesis by (cases r) (simp_all add: svc_then_def)
qed

lemma svc_then_lifted:
  assumes "\<And>x. r = Inr x \<Longrightarrow> R (f x t)" "\<And>e. R (Inl e, t)"
  shows "R (svc_then (svc_lift r) f t)"
  using assms by (cases r) (simp_all add: svc_then_def)

lemma awaited_cases:
  assumes "awaited env op t = (r, t')"
  shows "tr_dispatched t' = tr_dispatched t
    \<and> (r = Inl cut_off \<and> tr_world t' = tr_world t \<or> (\<exists>r0. op (tr_world t) = (r0, tr_world t') \<and> (r = r0 \<or> r = Inl cut_off)))"
proof -
  obtain x w where x: "op (tr_world t) = (x, w)" by fastforce
  then show ?thesis using assms by (auto simp: awaited_def await_def split: if_splits)
qed

lemma fenced_cases:
  assumes "quiet_env env content" "fenced env fence op t = (r, t')"
  obtains (idle) e where "r = Inl e" "shown content t' = shown content t"
  | (cut) "tr_dispatched t'" "r = Inl cut_off" "content (tr_world t') = content (tr_world t)"
  | (ran) w r0 where "tr_dispatched t'" "content w = content (tr_world t)" "op w = (r0, tr_world t')" "r = r0 \<or> r = Inl cut_off"
proof -
  obtain c t1 where c: "is_current env fence t = (c, t1)" by fastforce
  have same: "shown content t1 = shown content t" using keepsD [OF keeps_is_current [OF assms(1)] c] .
  show thesis
  proof (cases "c = Some True")
    case True
    then have run: "awaited env op (t1\<lparr>tr_dispatched := True\<rparr>) = (r, t')" using assms(2) c by (simp add: fenced_def)
    from awaited_cases [OF this] have "tr_dispatched t'" by simp
    moreover from awaited_cases [OF run] same consider
        "r = Inl cut_off" "content (tr_world t') = content (tr_world t)"
      | r0 where "op (tr_world t1) = (r0, tr_world t')" "r = r0 \<or> r = Inl cut_off" by auto
    ultimately show thesis using cut ran [of "tr_world t1"] same by cases auto
  next
    case False
    then show thesis using assms(2) c same idle by (auto simp: fenced_def split: option.splits bool.splits)
  qed
qed

section \<open>The provider of a write\<close>

text \<open>
  What is documented of the provider, and needed: batches are atomic, reading changes nothing, the hosted zone keeps its
  name, and the code that the fence uses is not one of its own. No other client of the provider writes the
  zone during the request, and the error of a batch that was refused is told apart from an unknown outcome;
  what other writers can do is treated in \<open>Route53_Adapter\<close>.
\<close>

definition write_provider :: "route53_crypto \<Rightarrow> DnsZoneRef \<Rightarrow> ('w \<Rightarrow> Route53RecordSet set) \<Rightarrow> 'w Route53Api \<Rightarrow> bool" where
  "write_provider cr zone content api \<longleftrightarrow>
     route53_batches (cr_codec cr) zone api content
     \<and> (\<forall>zid. keeps content (get_hosted_zone api zid)) \<and> (\<forall>zid cursor n. keeps content (list_record_sets api zid cursor n))
     \<and> (\<forall>zid batch w e w'. change_record_sets api zid batch w = (Inl e, w') \<longrightarrow> ne_code e \<noteq> ne_code authority_changed)
     \<and> (\<forall>w raw w' decoded apex. get_hosted_zone api (zone_id zone) w = (Inr (Some raw), w') \<and>
          decode_domain_presentation (hz_name raw) = Inr decoded \<and> absolute_dns_name_new (cx_idna (cr_codec cr)) decoded = Inr apex
          \<longrightarrow> apex = zone_apex zone)"

definition write_world :: "route53_crypto \<Rightarrow> 'w service_env \<Rightarrow> DnsZoneRef \<Rightarrow> ('w \<Rightarrow> Route53RecordSet set) \<Rightarrow> bool" where
  "write_world cr env zone content \<longleftrightarrow>
     quiet_env env content \<and> (\<forall>w api w'. env_build env w = (Inr api, w') \<longrightarrow> write_provider cr zone content api)"

abbreviation held :: "('w \<Rightarrow> 's) \<Rightarrow> 'w tracked \<Rightarrow> 's" where
  "held content t \<equiv> content (tr_world t)"

lemma cut_off_props: "ne_code cut_off \<noteq> ne_code authority_changed" "ne_category cut_off = EUnknownOutcome"
  by (simp_all add: cut_off_def authority_changed_def unknown_outcome_def provider_error_def)

lemma fenced_batch:
  assumes "quiet_env env content" "write_provider cr zone content api"
    and "fenced env fence (change_record_sets api (zone_id zone) batch) t = (r, t')"
  shows "(\<exists>e. r = Inl e) \<and> shown content t' = shown content t
    \<or> tr_dispatched t' \<and> (\<forall>e. r = Inl e \<longrightarrow> ne_code e \<noteq> ne_code authority_changed) \<and>
      (case r of Inr _ \<Rightarrow> run_batch (cr_codec cr) zone (cb_changes batch) (held content t) = Some (held content t')
       | Inl e \<Rightarrow> held content t' = held content t
           \<or> ne_category e = EUnknownOutcome \<and> run_batch (cr_codec cr) zone (cb_changes batch) (held content t) = Some (held content t'))"
  using assms(1,3)
proof (cases rule: fenced_cases)
  case (ran w r0)
  have b: "case r0 of Inr _ \<Rightarrow> run_batch (cr_codec cr) zone (cb_changes batch) (content w) = Some (held content t')
      | Inl e \<Rightarrow> held content t' = content w
          \<or> ne_category e = EUnknownOutcome \<and> run_batch (cr_codec cr) zone (cb_changes batch) (content w) = Some (held content t')"
    using conjunct2 [OF spec [OF spec [OF assms(2) [unfolded write_provider_def, THEN conjunct1, unfolded route53_batches_def]]], of w batch] ran(3)
    by simp
  have code: "ne_code e \<noteq> ne_code authority_changed" if "r0 = Inl e" for e
    using assms(2) ran(3) that unfolding write_provider_def by blast
  note b = b [unfolded ran(2)]
  show ?thesis
  proof (cases r0)
    case (Inl e)
    with ran(1,4) b code [OF Inl] cut_off_props show ?thesis by (elim disjE) (simp_all, blast+)
  next
    case (Inr a)
    with ran(1,4) b cut_off_props show ?thesis by (elim disjE) simp_all
  qed
next
  case idle
  then show ?thesis by blast
next
  case cut
  then show ?thesis using cut_off_props by simp
qed

lemma tracked_reads:
  assumes "write_provider cr zone content api"
  shows "keeps (shown content) (get_hosted_zone (write_tracking_api env fence api) zid)"
    "keeps (shown content) (list_record_sets (write_tracking_api env fence api) zid cursor n)"
  using assms by (simp_all add: write_tracking_api_def timed_api_def keeps_awaited write_provider_def)

lemma tracked_batches:
  assumes "quiet_env env content" "write_provider cr zone content api"
  shows "route53_batches (cr_codec cr) zone (write_tracking_api env fence api) (held content)"
  unfolding route53_batches_def
proof (intro allI conjI)
  fix t batch
  show "wf_zone (cr_codec cr) zone (held content t)" using assms(2) by (auto simp: write_provider_def route53_batches_def)
  obtain r t' where run: "fenced env fence (change_record_sets api (zone_id zone) batch) t = (r, t')" by fastforce
  from fenced_batch [OF assms run] run
  show "case change_record_sets (write_tracking_api env fence api) (zone_id zone) batch t of
      (Inr _, t') \<Rightarrow> run_batch (cr_codec cr) zone (cb_changes batch) (held content t) = Some (held content t')
    | (Inl e, t') \<Rightarrow> held content t' = held content t
        \<or> ne_category e = EUnknownOutcome \<and> run_batch (cr_codec cr) zone (cb_changes batch) (held content t) = Some (held content t')"
    by (auto simp: write_tracking_api_def split: sum.splits)
qed


section \<open>The adapter under the fence\<close>

text \<open>Up to the submission the adapter only reads; an error before it leaves the request undispatched.\<close>

lemma apply_steps:
  assumes "apply_record_changes cr ad zone changes minimum_guard t = (r, t')"
    and "\<And>zid. keeps st (get_hosted_zone (ad_api ad) zid)" "\<And>zid cursor n. keeps st (list_record_sets (ad_api ad) zid cursor n)"
  obtains (early) e where "r = Inl e" "st t' = st t"
  | (sent) t1 request digest res where "st t1 = st t" "change_record_sets (ad_api ad) (zone_id zone) request t1 = (res, t')"
      "r = (case res of Inl e \<Rightarrow> Inl e | Inr result \<Rightarrow> settle_change cr ad zone digest minimum_guard result)"
proof (cases "\<exists>v. mutation_receipt_verifier ad = Inr v \<and> adapter_zone_ref ad zone = Inr () \<and> validate_dns_changes zone changes = Inr ()")
  case False
  then have "\<exists>e. r = Inl e \<and> t' = t"
    using assms(1)
    by (cases "mutation_receipt_verifier ad"; cases "adapter_zone_ref ad zone"; cases "validate_dns_changes zone changes")
      (auto simp: apply_record_changes_def map_err_def)
  then show thesis using early by auto
next
  case True
  then have rest: "io_then (all_records_with_raw cr ad zone) (\<lambda>current.
      io_then (io_lift (prepare_change cr zone changes current)) (\<lambda>(request, request_digest).
      io_then (change_record_sets (ad_api ad) (zone_id zone) request) (\<lambda>result.
        io_lift (settle_change cr ad zone request_digest minimum_guard result)))) t = (r, t')"
    using assms(1) by (auto simp: apply_record_changes_def)
  obtain inv t1 where inv: "all_records_with_raw cr ad zone t = (inv, t1)" by fastforce
  have same: "st t1 = st t" using keepsD [OF keeps_all_records(1) [OF assms(2,3)] inv] .
  show thesis
  proof (cases "\<exists>current request digest. inv = Inr current \<and> prepare_change cr zone changes current = Inr (request, digest)")
    case False
    then have "\<exists>e. r = Inl e \<and> t' = t1"
      using rest inv by (cases inv) (auto simp: io_then_def split: sum.splits)
    then show thesis using early same by auto
  next
    case True
    then obtain current request digest where p: "inv = Inr current" "prepare_change cr zone changes current = Inr (request, digest)" by blast
    obtain res t2 where res: "change_record_sets (ad_api ad) (zone_id zone) request t1 = (res, t2)" by fastforce
    show thesis using rest inv p res by (intro sent [of t1 request res digest]) (auto simp: same io_then_def split: sum.splits)
  qed
qed

lemma settle_change_code: "settle_change cr ad zone digest g result = Inl e \<Longrightarrow> ne_code e \<noteq> ne_code authority_changed"
  by (auto simp: settle_change_def build_change_receipt_def mutation_receipt_verifier_def sign_token_def and_then_def map_err_def ok_or_def
      authority_changed_def validation_def unknown_outcome_def provider_error_def split: sum.splits option.splits if_splits)

text \<open>A write of the adapter: nothing was dispatched, or the fence was passed.\<close>

lemma apply_tracked:
  assumes "quiet_env env content" "write_provider cr zone content api" "ad_api ad = write_tracking_api env fence api"
    and "apply_record_changes cr ad zone changes minimum_guard t = (r, t')"
  shows "(\<exists>e. r = Inl e) \<and> shown content t' = shown content t
    \<or> tr_dispatched t' \<and> (\<forall>e. r = Inl e \<longrightarrow> ne_code e \<noteq> ne_code authority_changed)"
proof -
  note reads = tracked_reads [OF assms(2), of env fence, folded assms(3)]
  from assms(4) reads show ?thesis
  proof (cases rule: apply_steps)
    case (sent t1 request digest res)
    have "fenced env fence (change_record_sets api (zone_id zone) request) t1 = (res, t')"
      using sent(2) assms(3) by (simp add: write_tracking_api_def)
    from fenced_batch [OF assms(1,2) this] sent(1,3) show ?thesis
      by (cases res) (auto dest: settle_change_code)
  qed auto
qed


section \<open>What was asked for\<close>

text \<open>A single put or delete is a batch of one; a change is the one that was asked for when it has its key, its data and its guard.\<close>

fun request_changes :: "MutationRequest \<Rightarrow> Route53RecordBatchChangeDto list" where
  "request_changes (MPut key request) =
     (case put_guard request of
        GuardMustNotExist \<Rightarrow> [BatchCreate key (put_desired request)]
      | GuardMatchRevision revision \<Rightarrow> [BatchReplace key revision (put_desired request)])"
| "request_changes (MDelete key request) = [BatchDelete key (del_expected_revision request)]"
| "request_changes (MBatch changes) = changes"

fun change_for :: "base64_engine \<Rightarrow> Route53RecordBatchChangeDto \<Rightarrow> DnsRecordChange \<Rightarrow> bool" where
  "change_for b (BatchCreate key desired) c \<longleftrightarrow> (\<exists>rs. desired_record_set b key desired = Inr rs \<and> c = CreateSet rs MustNotExist)"
| "change_for b (BatchReplace key revision desired) c \<longleftrightarrow>
     (\<exists>rs previous. desired_record_set b key desired = Inr rs \<and> rs_key (or_record_set previous) = key_core key
        \<and> or_revision previous = revision \<and> c = ReplaceSet previous rs (MatchObserved revision))"
| "change_for b (BatchDelete key revision) c \<longleftrightarrow>
     (\<exists>previous. rs_key (or_record_set previous) = key_core key \<and> or_revision previous = revision
        \<and> c = DeleteSet previous (MatchObserved revision))"

definition keyed :: "record_inventory \<Rightarrow> bool" where
  "keyed inventory \<longleftrightarrow> (\<forall>(k, r) \<in> set inventory. rs_key (or_record_set r) = k)"

lemma keyed_lookup: "keyed inventory \<Longrightarrow> map_of inventory k = Some r \<Longrightarrow> rs_key (or_record_set r) = k"
  by (auto simp: keyed_def dest: map_of_SomeD)

lemma keyed_update: "keyed inventory \<Longrightarrow> keyed (AList.update (rs_key (or_record_set r)) r inventory)"
proof -
  have "set (AList.update k v m) \<subseteq> insert (k, v) (set m)" for k v and m :: record_inventory by (induction m) auto
  then show "keyed inventory \<Longrightarrow> ?thesis" unfolding keyed_def by blast
qed

lemma keyed_delete: "keyed inventory \<Longrightarrow> keyed (AList.delete k inventory)"
  by (auto simp: keyed_def AList.delete_eq)

lemma observe_records_keyed: "keyed records \<Longrightarrow> observe_records zone rs records = Inr inventory \<Longrightarrow> keyed inventory"
  by (induction rs arbitrary: records) (auto split: if_splits intro: keyed_update)

lemma observe_all_records_keyed:
  assumes "observe_all_records cr ad zone t = (Inr inventory, t')"
  shows "keyed inventory"
proof -
  obtain rs where "observe_records zone rs [] = Inr inventory" using assms by (auto simp: observe_all_records_def svc_then_eq_Inr)
  then show ?thesis by (rule observe_records_keyed [rotated]) (simp add: keyed_def)
qed

lemma push_batch_change_for:
  "keyed inventory \<Longrightarrow> push_batch_change b zone inventory c = Inr (rest, change) \<Longrightarrow> keyed rest \<and> change_for b c change"
  by (cases c)
    (auto simp: push_put_change_def push_delete_change_def and_then_eq_Inr Let_def keyed_delete
      dest: keyed_lookup split: option.splits if_splits)

lemma push_batch_for:
  "keyed inventory \<Longrightarrow> push_batch b zone inventory cs = Inr changes \<Longrightarrow> list_all2 (change_for b) cs changes"
proof (induction cs arbitrary: inventory changes)
  case (Cons c cs)
  from Cons.prems(2) obtain rest change more where p: "push_batch_change b zone inventory c = Inr (rest, change)"
    "push_batch b zone rest cs = Inr more" "changes = change # more"
    by (auto simp: and_then_eq_Inr)
  with push_batch_change_for [OF Cons.prems(1) p(1)] Cons.IH [of rest more] show ?case by simp
qed simp

lemma build_changes_batch: "build_changes b zone inventory request = push_batch b zone inventory (request_changes request)"
  by (cases request) (auto simp: and_then_def split: sum.splits Route53RecordMutationGuardDto.splits)

section \<open>The prepared adapter\<close>

lemma new_with_record_write_key_api:
  "new_with_record_write_key account_id spec api cursor_key receipt_key = Inr ad \<Longrightarrow> ad_api ad = api \<and> ad_center_account_id ad = account_id"
  by (auto simp: new_with_record_write_key_def new_with_record_write_verifier_def new_inner_def and_then_eq_Inr split: if_splits)

lemma build_api_source: "build_api env t = (Inr api, t') \<Longrightarrow> \<exists>w w'. env_build env w = (Inr api, w')"
  by (auto simp: build_api_def svc_then_def svc_await_def await_def map_err_def split: prod.splits sum.splits option.splits if_splits)

lemma prepare_write_adapter:
  assumes "prepare_write env keys account_id t = (Inr (ad, fence), t')"
  shows "\<exists>api w w'. env_build env w = (Inr api, w') \<and> ad_api ad = write_tracking_api env fence api \<and> ad_center_account_id ad = account_id"
  using assms
  by (auto simp: prepare_write_def svc_then_eq_Inr Let_def validate_write_account_def split: if_splits
      dest!: new_with_record_write_key_api build_api_source)

lemma awaited_result: "awaited env op t = (Inr x, t') \<Longrightarrow> op (tr_world t) = (Inr x, tr_world t')"
  using awaited_cases [of env op t "Inr x" t'] by auto

lemma observed_zone_ref:
  assumes "write_provider cr zone content api" "ad_api ad = write_tracking_api env fence api"
    and "zone = public_zone_ref ad (zone_id zone) (zone_apex zone)"
    and "observe_exact_zone cr ad account_id (zone_id zone) t = (Inr z, t')"
  shows "oz_zone z = zone"
proof -
  obtain raw t1 where raw: "get_hosted_zone (ad_api ad) (zone_id zone) t = (Inr (Some raw), t1)" "map_zone cr ad raw = Inr z"
      "zone_id (oz_zone z) = zone_id zone"
    using assms(4)
    by (auto simp: observe_exact_zone_def svc_then_def svc_call_def observe_zone_by_id_def io_then_def ok_or_def
        split: prod.splits sum.splits option.splits if_splits)
  have "get_hosted_zone api (zone_id zone) (tr_world t) = (Inr (Some raw), tr_world t1)"
    using raw(1) assms(2) by (auto simp: write_tracking_api_def timed_api_def dest: awaited_result)
  moreover obtain decoded apex where "decode_domain_presentation (hz_name raw) = Inr decoded"
      "absolute_dns_name_new (cx_idna (cr_codec cr)) decoded = Inr apex"
      "oz_zone z = public_zone_ref ad (zone_id (oz_zone z)) apex"
    using raw(2) by (auto simp: map_zone_def and_then_eq_Inr public_zone_ref_def split: if_splits)
  ultimately show ?thesis using assms(1,3) raw(3) unfolding write_provider_def by metis
qed


section \<open>Record writes\<close>

text \<open>The zone after the changes that were asked for, when all their guards held.\<close>

definition applied ::
  "base64_engine \<Rightarrow> MutationRequest \<Rightarrow> ProviderDnsRecordSet set \<Rightarrow> ProviderDnsRecordSet set \<Rightarrow> bool" where
  "applied b request before after \<longleftrightarrow>
     (\<exists>changes. list_all2 (change_for b) (request_changes request) changes \<and> after = fold apply_change changes before
        \<and> (\<forall>c \<in> set changes. guard_at before c))"

text \<open>The state of a request: nothing dispatched and an error, or a result that says what happened.\<close>

definition told ::
  "(ProviderDnsRecordSet set \<Rightarrow> bool) \<Rightarrow> ('w \<Rightarrow> ProviderDnsRecordSet set) \<Rightarrow> ProviderDnsRecordSet set
     \<Rightarrow> (Route53DnsAdminError + 'a) \<times> 'w tracked \<Rightarrow> bool" where
  "told P sets before = (\<lambda>(r, t).
     (\<exists>e. r = Inl e) \<and> shown sets t = (before, False)
     \<or> tr_dispatched t \<and> (case r of Inr _ \<Rightarrow> P (held sets t) | Inl e \<Rightarrow> held sets t = before \<or> e = AdminUnknownOutcome \<and> P (held sets t)))"

lemma told_early: "shown sets t = (before, False) \<Longrightarrow> told P sets before (Inl e, t)"
  by (simp add: told_def)

lemma told_timeout:
  assumes "told P sets before (body \<lparr>tr_world = w, tr_dispatched = False, tr_cut = False\<rparr>)" "with_timeout True body w = (r, w')"
  shows "case r of Inr _ \<Rightarrow> P (sets w') | Inl e \<Rightarrow> sets w' = before \<or> e = AdminUnknownOutcome \<and> P (sets w')"
proof -
  obtain r0 t where "body \<lparr>tr_world = w, tr_dispatched = False, tr_cut = False\<rparr> = (r0, t)" by fastforce
  with assms show ?thesis by (cases r0) (auto simp: told_def with_timeout_def split: if_splits)
qed

text \<open>The end of a mutation: the authority is looked at once more, and the receipt is rendered.\<close>

lemma told_finish:
  assumes "quiet_env env content" "sets = f \<circ> content" "tr_dispatched t" "P (held sets t)"
  shows "told P sets before (svc_then (require_current env fence AdminUnknownOutcome) (\<lambda>_. svc_lift (map_err AdminUnknownOutcome x)) t)"
proof -
  obtain r t1 where run: "require_current env fence AdminUnknownOutcome t = (r, t1)" by fastforce
  have same: "shown content t1 = shown content t" using keepsD [OF keeps_require_current [OF assms(1)] run] .
  have "r = Inl AdminUnknownOutcome \<or> r = Inr ()"
    using run by (auto simp: require_current_def split: prod.splits option.splits if_splits)
  then show ?thesis
    using run same assms(2-4) by (cases x) (auto simp: told_def svc_then_def map_err_def)
qed

lemma told_submit:
  assumes quiet: "quiet_env env content" and provider: "write_provider cr zone content api"
    and api: "ad_api ad = write_tracking_api env fence api" and json: "\<forall>t. cr_change_json cr t \<noteq> None"
    and asked: "list_all2 (change_for b) (request_changes request) changes"
    and start: "shown content t = (c, False)"
  defines "sets \<equiv> zone_sets (cr_codec cr) zone \<circ> content" and "before \<equiv> zone_sets (cr_codec cr) zone c"
  shows "told (applied b request before) sets before
    (svc_then (svc_call map_mutation_error (apply_record_changes cr ad zone changes Atomic)) (\<lambda>receipt.
     svc_then (require_current env fence AdminUnknownOutcome) (\<lambda>_. svc_lift (map_err AdminUnknownOutcome (receipt_from_core receipt)))) t)"
proof -
  obtain r t1 where run: "apply_record_changes cr ad zone changes Atomic t = (r, t1)" by fastforce
  have batches: "route53_batches (cr_codec cr) zone (ad_api ad) (held content)"
    unfolding api by (rule tracked_batches [OF quiet provider])
  have reads: "keeps (shown content) (all_records_with_raw cr ad zone)"
    using tracked_reads [OF provider, of env fence] by (intro keeps_all_records) (simp_all add: api)
  have b: "zone_sets (cr_codec cr) zone (held content (snd (all_records_with_raw cr ad zone t))) = before"
    using reads start by (simp add: keeps_def before_def)
  note atomic = guarded_changes_are_atomic [OF batches json run, unfolded b]
  note sent = apply_tracked [OF quiet provider api run]
  show ?thesis
  proof (cases r)
    case (Inr receipt)
    with sent atomic asked have "tr_dispatched t1" "applied b request before (held sets t1)" by (auto simp: applied_def sets_def)
    from told_finish [where P = "applied b request before", OF quiet meta_eq_to_obj_eq [OF sets_def] this] show ?thesis using run Inr by (simp add: svc_then_def svc_call_def)
  next
    case (Inl e)
    have same: "held sets t = before" using start by (simp add: sets_def before_def)
    consider "shown content t1 = (c, False)" | "tr_dispatched t1" "ne_code e \<noteq> ne_code authority_changed" "held sets t1 = before"
      | "tr_dispatched t1" "ne_code e \<noteq> ne_code authority_changed" "ne_category e = EUnknownOutcome" "applied b request before (held sets t1)"
      using sent atomic Inl start asked same by (auto simp: applied_def sets_def)
    then show ?thesis
      using run Inl
      by cases (auto simp: told_def svc_then_def svc_call_def map_mutation_error_def authority_changed_def sets_def before_def)
  qed
qed


lemma told_mutation:
  assumes world: "write_world cr env zone content" and json: "\<forall>t. cr_change_json cr t \<noteq> None"
    and zone: "zone = \<lparr>zone_account_id = account_id, zone_provider = Aws, zone_id = zid, zone_apex = apex, zone_visibility = Public\<rparr>"
    and start: "shown content t = (c, False)"
  shows "told (applied b request (zone_sets (cr_codec cr) zone c)) (zone_sets (cr_codec cr) zone \<circ> content) (zone_sets (cr_codec cr) zone c)
    (svc_then (admission env account_id) (\<lambda>_.
     svc_then (prepare_write env keys account_id) (\<lambda>(adapter, fence).
     svc_then (observe_exact_zone cr adapter account_id zid) (\<lambda>z.
     svc_then (observe_all_records cr adapter (oz_zone z)) (\<lambda>inventory.
     svc_then (svc_lift (build_changes b (oz_zone z) inventory request)) (\<lambda>changes.
     svc_then (svc_call map_mutation_error (apply_record_changes cr adapter (oz_zone z) changes Atomic)) (\<lambda>receipt.
     svc_then (require_current env fence AdminUnknownOutcome) (\<lambda>_.
       svc_lift (map_err AdminUnknownOutcome (receipt_from_core receipt))))))))) t)"
    (is "told ?P ?sets ?before _")
proof -
  have quiet: "quiet_env env content" using world by (simp add: write_world_def)
  note kept = svc_then_kept [where st = "shown content" and s = "(c, False)" and R = "told ?P ?sets ?before"]
  have early: "shown content t1 = (c, False) \<Longrightarrow> told ?P ?sets ?before (Inl e, t1)" for e t1 by (rule told_early) simp
  show ?thesis
  proof (rule kept [OF keeps_prepare(1) [OF quiet] start _ early], rule kept [OF keeps_prepare(5) [OF quiet] _ _ early], assumption, unfold split_paired_all prod.case)
    fix ad fence t2 t3
    assume prep: "prepare_write env keys account_id t2 = (Inr (ad, fence), t3)" and t3: "shown content t3 = (c, False)"
    obtain api w w' where api: "env_build env w = (Inr api, w')" "ad_api ad = write_tracking_api env fence api" "ad_center_account_id ad = account_id"
      using prepare_write_adapter [OF prep] by blast
    have provider: "write_provider cr zone content api" using world api(1) by (auto simp: write_world_def)
    have reads: "keeps (shown content) (get_hosted_zone (ad_api ad) zid)" "keeps (shown content) (list_record_sets (ad_api ad) zid cursor n)"
      for zid cursor n using tracked_reads [OF provider, of env fence] by (simp_all add: api(2))
    note all = keeps_all_records [where st = "shown content", OF reads]
    have obs: "keeps (shown content) (observe_exact_zone cr ad account_id zid)" "keeps (shown content) (observe_all_records cr ad z)" for z
      unfolding observe_exact_zone_def observe_all_records_def by (intro keeps_intros all)+
    show "told ?P ?sets ?before
      (svc_then (observe_exact_zone cr ad account_id zid) (\<lambda>z.
       svc_then (observe_all_records cr ad (oz_zone z)) (\<lambda>inventory.
       svc_then (svc_lift (build_changes b (oz_zone z) inventory request)) (\<lambda>changes.
       svc_then (svc_call map_mutation_error (apply_record_changes cr ad (oz_zone z) changes Atomic)) (\<lambda>receipt.
       svc_then (require_current env fence AdminUnknownOutcome) (\<lambda>_.
         svc_lift (map_err AdminUnknownOutcome (receipt_from_core receipt))))))) t3)"
    proof (rule kept [OF obs(1) t3 _ early])
      fix z t4
      assume z: "observe_exact_zone cr ad account_id zid t3 = (Inr z, t4)" and t4: "shown content t4 = (c, False)"
      have zref: "oz_zone z = zone"
        using observed_zone_ref [OF provider api(2), of account_id t3 z t4] z zone api(3) by (simp add: public_zone_ref_def)
      show "told ?P ?sets ?before
        (svc_then (observe_all_records cr ad (oz_zone z)) (\<lambda>inventory.
         svc_then (svc_lift (build_changes b (oz_zone z) inventory request)) (\<lambda>changes.
         svc_then (svc_call map_mutation_error (apply_record_changes cr ad (oz_zone z) changes Atomic)) (\<lambda>receipt.
         svc_then (require_current env fence AdminUnknownOutcome) (\<lambda>_.
           svc_lift (map_err AdminUnknownOutcome (receipt_from_core receipt)))))) t4)"
        unfolding zref
      proof (rule kept [OF obs(2) t4 _ early], rule svc_then_lifted [where R = "told ?P ?sets ?before", OF _ early])
        fix inventory t5 changes
        assume inv: "observe_all_records cr ad zone t4 = (Inr inventory, t5)" and t5: "shown content t5 = (c, False)"
          and built: "build_changes b zone inventory request = Inr changes"
        have "keyed inventory"
          using inv by (rule observe_all_records_keyed)
        with built have "list_all2 (change_for b) (request_changes request) changes"
          by (simp add: build_changes_batch push_batch_for)
        from told_submit [OF quiet provider api(2) json this t5]
        show "told ?P ?sets ?before
          (svc_then (svc_call map_mutation_error (apply_record_changes cr ad zone changes Atomic)) (\<lambda>receipt.
           svc_then (require_current env fence AdminUnknownOutcome) (\<lambda>_.
             svc_lift (map_err AdminUnknownOutcome (receipt_from_core receipt)))) t5)" .
      qed
    qed
  qed
qed

text \<open>
  C13: The answer to a record write says what happened to the zone. Success means that exactly the changes that were
  asked for were applied, each with its guard satisfied at that moment; an unknown outcome means that they were applied
  or nothing was; and every other error means that nothing was changed. This holds wherever the deadline cuts the
  request off and wherever the account or a signing key changes underneath it, for a zone that no other
  client of the provider writes during the request and whose record sets can all be read.
\<close>

theorem record_writes_are_truthful:
  assumes "write_world cr env zone content" "\<forall>t. cr_change_json cr t \<noteq> None"
    and "zone = \<lparr>zone_account_id = account_id, zone_provider = Aws, zone_id = zid, zone_apex = apex, zone_visibility = Public\<rparr>"
    and "mutate cr b env keys account_id zid request w = (r, w')"
  defines "before \<equiv> zone_sets (cr_codec cr) zone (content w)" and "after \<equiv> zone_sets (cr_codec cr) zone (content w')"
  shows "case r of
      Inr _ \<Rightarrow> applied b request before after
    | Inl e \<Rightarrow> after = before \<or> e = AdminUnknownOutcome \<and> applied b request before after"
  using told_timeout [OF told_mutation [OF assms(1-3), of _ "content w"] assms(4) [unfolded mutate_def]]
  unfolding before_def after_def by (cases r) simp_all


section \<open>Creating and deleting zones\<close>

text \<open>What an operation leaves alone unless it dispatches.\<close>

definition calm :: "('w \<Rightarrow> 's) \<Rightarrow> ('w tracked \<Rightarrow> 'r \<times> 'w tracked) \<Rightarrow> bool" where
  "calm content op \<longleftrightarrow> (\<forall>t. tr_dispatched (snd (op t)) \<or> shown content (snd (op t)) = shown content t)"

lemma keeps_calm: "keeps (shown content) op \<Longrightarrow> calm content op"
  by (simp add: keeps_def calm_def)

lemma calmD: "calm content op \<Longrightarrow> op t = (r, t') \<Longrightarrow> tr_dispatched t' \<or> shown content t' = shown content t"
  unfolding calm_def by (metis snd_conv)

lemma calm_io_then:
  assumes "calm content m" "\<And>x. calm content (f x)"
  shows "calm content (io_then m f)"
  unfolding calm_def
proof
  fix t
  obtain x t1 where m: "m t = (x, t1)" by fastforce
  show "tr_dispatched (snd (io_then m f t)) \<or> shown content (snd (io_then m f t)) = shown content t"
  proof (cases x)
    case (Inr y)
    obtain r t' where "f y t1 = (r, t')" by fastforce
    with m Inr calmD [OF assms(1) m] calmD [OF assms(2) this] show ?thesis by (auto simp: io_then_def)
  qed (use m calmD [OF assms(1) m] in \<open>auto simp: io_then_def\<close>)
qed

lemma calm_io_lift: "calm content (io_lift r)"
  by (rule keeps_calm) simp

lemma calm_if: "(c \<Longrightarrow> calm content f) \<Longrightarrow> (\<not> c \<Longrightarrow> calm content g) \<Longrightarrow> calm content (if c then f else g)"
  by simp

lemma calm_option: "(x = None \<Longrightarrow> calm content f) \<Longrightarrow> (\<And>y. x = Some y \<Longrightarrow> calm content (g y)) \<Longrightarrow> calm content (case x of None \<Rightarrow> f | Some y \<Rightarrow> g y)"
  by (cases x) simp_all

lemmas calm_intros = calm_io_then calm_io_lift calm_if calm_option

lemma calm_fenced: "quiet_env env content \<Longrightarrow> calm content (fenced env fence op)"
  unfolding calm_def
proof
  fix t
  assume quiet: "quiet_env env content"
  obtain r t' where run: "fenced env fence op t = (r, t')" by fastforce
  from quiet run show "tr_dispatched (snd (fenced env fence op t)) \<or> shown content (snd (fenced env fence op t)) = shown content t"
    by (cases rule: fenced_cases) (simp_all add: run)
qed

text \<open>Reading the provider changes nothing of the zones; nothing is assumed of what creating and deleting do.\<close>

definition lifecycle_world :: "'w service_env \<Rightarrow> ('w \<Rightarrow> 's) \<Rightarrow> bool" where
  "lifecycle_world env content \<longleftrightarrow>
     quiet_env env content \<and> (\<forall>w api w'. env_build env w = (Inr api, w') \<longrightarrow>
       (\<forall>zid. keeps content (get_hosted_zone api zid)) \<and> (\<forall>marker n. keeps content (list_hosted_zones api marker n))
       \<and> (\<forall>zid. keeps content (get_dnssec api zid)))"

lemma new_with_lifecycle_key_api: "new_with_lifecycle_key account_id spec api cursor_key key = Inr ad \<Longrightarrow> ad_api ad = api"
  by (auto simp: new_with_lifecycle_key_def new_inner_def and_then_eq_Inr split: if_splits)

lemma prepare_lifecycle_adapter:
  assumes "prepare_lifecycle env keys account_id t = (Inr (ad, fence), t')"
  shows "\<exists>api w w'. env_build env w = (Inr api, w') \<and> ad_api ad = lifecycle_tracking_api env fence api"
  using assms
  by (auto simp: prepare_lifecycle_def svc_then_eq_Inr Let_def split: if_splits dest!: new_with_lifecycle_key_api build_api_source)

lemma tracked_lifecycle_reads:
  assumes "lifecycle_world env content" "env_build env w = (Inr api, w')" "ad_api ad = lifecycle_tracking_api env fence api"
  shows "keeps (shown content) (get_hosted_zone (ad_api ad) zid)" "keeps (shown content) (list_hosted_zones (ad_api ad) marker n)"
    "keeps (shown content) (get_dnssec (ad_api ad) zid)"
    "calm content (create_hosted_zone (ad_api ad) request)" "calm content (delete_hosted_zone (ad_api ad) zid)"
proof -
  have "keeps content (get_hosted_zone api zid)" "keeps content (list_hosted_zones api marker n)" "keeps content (get_dnssec api zid)"
    "quiet_env env content"
    using assms(1,2) unfolding lifecycle_world_def by blast+
  then show "keeps (shown content) (get_hosted_zone (ad_api ad) zid)" "keeps (shown content) (list_hosted_zones (ad_api ad) marker n)"
    "keeps (shown content) (get_dnssec (ad_api ad) zid)"
    "calm content (create_hosted_zone (ad_api ad) request)" "calm content (delete_hosted_zone (ad_api ad) zid)"
    by (simp_all add: assms(3) lifecycle_tracking_api_def timed_api_def keeps_awaited calm_fenced)
qed

text \<open>The works of the lifecycle service.\<close>

lemma keeps_find_zone:
  assumes "\<And>marker n. keeps st (list_hosted_zones (ad_api ad) marker n)"
  shows "keeps st (find_zone_pages ad caller_reference k marker seen)"
proof (induction k arbitrary: marker seen)
  case (Suc k)
  then show ?case unfolding find_zone_pages.simps by (intro keeps_intros assms Suc.IH)
qed (simp add: keeps_def)

lemma keeps_observe_lifecycle:
  assumes "\<And>zid. keeps st (get_hosted_zone (ad_api ad) zid)" "\<And>zid. keeps st (get_dnssec (ad_api ad) zid)"
  shows "keeps st (observe_lifecycle_inner cr ad zone)"
  unfolding observe_lifecycle_inner_def by (intro keeps_intros assms)

lemma calm_works:
  assumes "lifecycle_world env content" "env_build env w = (Inr api, w')" "ad_api ad = lifecycle_tracking_api env fence api"
  shows "keeps (shown content) (observe_work cr zid apex ad)" "calm content (create_work cr request ad)" "calm content (delete_work cr zid deletion ad)"
proof -
  note api = tracked_lifecycle_reads [OF assms]
  have observe: "keeps (shown content) (observe_lifecycle_inner cr ad zone)" for zone by (rule keeps_observe_lifecycle [OF api(1,3)])
  show "keeps (shown content) (observe_work cr zid apex ad)"
    unfolding observe_work_def observe_zone_def by (intro keeps_intros observe)
  have recover: "calm content (recover_zone cr ad request ref listed)" for request ref listed
    unfolding recover_zone_def by (intro calm_intros keeps_calm [OF api(1)])
  show "calm content (create_work cr request ad)"
    unfolding create_work_def create_zone_def Let_def find_zone_by_caller_reference_def
    by (intro calm_intros recover api(4) keeps_calm [OF keeps_find_zone [OF api(2)]])
  show "calm content (delete_work cr zid deletion ad)"
    unfolding delete_work_def delete_zone_with_exact_guard_def dispatch_delete_def observe_at_revision_def
    by (intro calm_intros api(5) keeps_calm [OF observe])
qed


text \<open>A request whose work is calm: undispatched and unchanged, or dispatched and no error but the unknown outcome.\<close>

definition honest :: "('w \<Rightarrow> 's) \<Rightarrow> 's \<Rightarrow> (Route53DnsAdminError + 'a) \<times> 'w tracked \<Rightarrow> bool" where
  "honest content c = (\<lambda>(r, t). shown content t = (c, False) \<or> tr_dispatched t \<and> (\<forall>e. r = Inl e \<longrightarrow> e = AdminUnknownOutcome))"

lemma run_lifecycle_honest:
  assumes world: "lifecycle_world env content"
    and works: "\<And>ad fence api w w'. env_build env w = (Inr api, w') \<Longrightarrow> ad_api ad = lifecycle_tracking_api env fence api \<Longrightarrow> calm content (work ad)"
    and run: "run_lifecycle env keys account_id True work w = (r, w')"
  shows "content w' = content w \<or> (\<forall>e. r = Inl e \<longrightarrow> e = AdminUnknownOutcome)"
proof -
  have quiet: "quiet_env env content" using world by (simp add: lifecycle_world_def)
  note kept = svc_then_kept [where st = "shown content" and s = "(content w, False)" and R = "honest content (content w)"]
  have early: "shown content t1 = (content w, False) \<Longrightarrow> honest content (content w) (Inl e, t1)" for e t1 by (simp add: honest_def)
  have "honest content (content w)
    (svc_then (admission env account_id) (\<lambda>_.
     svc_then (prepare_lifecycle env keys account_id) (\<lambda>(adapter, fence).
     svc_then (svc_call map_lifecycle_error (work adapter)) (\<lambda>result.
     svc_then (require_current env fence AdminUnknownOutcome) (\<lambda>_. svc_lift (Inr result))))) \<lparr>tr_world = w, tr_dispatched = False, tr_cut = False\<rparr>)"
  proof (rule kept [OF keeps_prepare(1) [OF quiet] _ _ early], simp, rule kept [OF keeps_prepare(6) [OF quiet] _ _ early], assumption,
      unfold split_paired_all prod.case)
    fix ad fence t2 t3
    assume prep: "prepare_lifecycle env keys account_id t2 = (Inr (ad, fence), t3)" and t3: "shown content t3 = (content w, False)"
    have "calm content (work ad)" using prepare_lifecycle_adapter [OF prep] works by blast
    moreover obtain x t4 where x: "work ad t3 = (x, t4)" by fastforce
    ultimately have t4: "tr_dispatched t4 \<or> shown content t4 = (content w, False)" using calmD t3 by metis
    obtain y t5 where y: "require_current env fence AdminUnknownOutcome t4 = (y, t5)" by fastforce
    have t5: "shown content t5 = shown content t4" using keepsD [OF keeps_require_current [OF quiet] y] .
    have "\<forall>e. y = Inl e \<longrightarrow> e = AdminUnknownOutcome"
      using y by (auto simp: require_current_def split: prod.splits option.splits if_splits)
    with t4 t5 x y show "honest content (content w)
        (svc_then (svc_call map_lifecycle_error (work ad)) (\<lambda>result.
         svc_then (require_current env fence AdminUnknownOutcome) (\<lambda>_. svc_lift (Inr result))) t3)"
      by (cases x; cases y) (auto simp: honest_def svc_then_def svc_call_def map_lifecycle_error_def)
  qed
  then show ?thesis
    using run unfolding run_lifecycle_def with_timeout_def by (auto simp: honest_def split: prod.splits if_splits)
qed

text \<open>
  An error of a zone creation or deletion other than an unknown outcome means that no zone was created,
  deleted or changed, wherever the deadline or a change of authority cut the request off. Whatever the provider does
  with a request that was sent, no such error hides it.
\<close>

theorem zone_errors_are_truthful:
  assumes "lifecycle_world env content"
    and "lifecycle_create_zone cr env keys account_id creation w = (Inl e, w')
      \<or> svc_delete_zone (lifecycle_service cr env keys) account_id zid deletion w = (Inl e, w')"
    and "e \<noteq> AdminUnknownOutcome"
  shows "content w' = content w"
  using assms(2)
proof
  assume "lifecycle_create_zone cr env keys account_id creation w = (Inl e, w')"
  then show ?thesis
    using run_lifecycle_honest [OF assms(1) calm_works(2) [OF assms(1)]] assms(3)
    by (fastforce simp: lifecycle_create_zone_def split: if_splits)
next
  assume "svc_delete_zone (lifecycle_service cr env keys) account_id zid deletion w = (Inl e, w')"
  then show ?thesis
    using run_lifecycle_honest [OF assms(1) calm_works(3) [OF assms(1)]] assms(3)
    by (fastforce simp: lifecycle_service_def)
qed


section \<open>An example\<close>

text \<open>A deployment whose account is there or not, over the example provider.\<close>

definition aws_env :: "ProviderAccount option \<Rightarrow> bool service_env" where
  "aws_env account = \<lparr>env_account = (\<lambda>_ w. (Inr account, w)),
     env_resolve = (\<lambda>_ purpose _ w. (Inr (replicate 32 (if purpose = Route53DnsCursorHmac then CHR ''c'' else CHR ''m''), ''r1''), w)),
     env_build = (\<lambda>w. (Inr aws_api, w)), env_admit = (\<lambda>_ w. (Inr (), w)), env_expired = (\<lambda>_. False)\<rparr>"

lemma aws_quiet: "quiet_env (aws_env account) content"
  by (simp add: quiet_env_def keeps_def aws_env_def)

lemma aws_write_world: "write_world aws_crypto (aws_env account) aws_zone aws_content"
proof -
  have "decode_domain_presentation ''a.io.'' = Inr ''a.io.''" "absolute_dns_name_new Some ''a.io.'' = Inr ''a.io''" by code_simp+
  then have "apex = zone_apex aws_zone" if "decode_domain_presentation (hz_name aws_hosted) = Inr decoded"
      "absolute_dns_name_new (cx_idna aws_codec) decoded = Inr apex" for decoded apex
    using that by (simp add: aws_hosted_def aws_codec_def aws_zone_def)
  moreover have "ne_code (conflict ''refused'') \<noteq> ne_code authority_changed"
    by (simp add: conflict_def provider_error_def authority_changed_def)
  ultimately show ?thesis
    using aws_batches aws_quiet [of account aws_content]
    by (auto simp: write_world_def write_provider_def aws_env_def [of account, simplified] keeps_def aws_api_def split: if_splits)
qed


theorem record_writes_are_truthful_witness:
  "\<forall>b account keys request. case mutate aws_crypto b (aws_env account) keys ''acc'' ''Z1'' request True of
     (Inr _, w') \<Rightarrow> applied b request (zone_sets aws_codec aws_zone (aws_content True)) (zone_sets aws_codec aws_zone (aws_content w'))
   | (Inl e, w') \<Rightarrow> zone_sets aws_codec aws_zone (aws_content w') = zone_sets aws_codec aws_zone (aws_content True)
       \<or> e = AdminUnknownOutcome
         \<and> applied b request (zone_sets aws_codec aws_zone (aws_content True)) (zone_sets aws_codec aws_zone (aws_content w'))"
proof (intro allI)
  fix b account keys request
  obtain r w' where run: "mutate aws_crypto b (aws_env account) keys ''acc'' ''Z1'' request True = (r, w')" by fastforce
  have "\<forall>t. cr_change_json aws_crypto t \<noteq> None" by (simp add: aws_crypto_def)
  moreover have "aws_zone = \<lparr>zone_account_id = ''acc'', zone_provider = Aws, zone_id = ''Z1'', zone_apex = ''a.io'', zone_visibility = Public\<rparr>"
    by (simp add: aws_zone_def)
  ultimately show "case mutate aws_crypto b (aws_env account) keys ''acc'' ''Z1'' request True of
     (Inr _, w') \<Rightarrow> applied b request (zone_sets aws_codec aws_zone (aws_content True)) (zone_sets aws_codec aws_zone (aws_content w'))
   | (Inl e, w') \<Rightarrow> zone_sets aws_codec aws_zone (aws_content w') = zone_sets aws_codec aws_zone (aws_content True)
       \<or> e = AdminUnknownOutcome
         \<and> applied b request (zone_sets aws_codec aws_zone (aws_content True)) (zone_sets aws_codec aws_zone (aws_content w'))"
    using record_writes_are_truthful [OF aws_write_world _ _ run] run by (cases r) simp_all
qed

theorem zone_errors_are_truthful_witness:
  "\<exists>w'. svc_delete_zone (lifecycle_service aws_crypto (aws_env None) \<lparr>lk_cursor_ref = ''c'', lk_lifecycle_ref = ''l''\<rparr>) ''acc'' ''Z1''
     \<lparr>zdl_apex = ''a.io'', zdl_revision = ''r''\<rparr> True = (Inl AdminNotFound, w') \<and> aws_content w' = {rendered_set aws_txt}"
proof -
  have world: "lifecycle_world (aws_env None) aws_content"
    using aws_quiet by (simp add: lifecycle_world_def) (auto simp: aws_env_def aws_api_def keeps_def)
  have run: "svc_delete_zone (lifecycle_service aws_crypto (aws_env None) \<lparr>lk_cursor_ref = ''c'', lk_lifecycle_ref = ''l''\<rparr>) ''acc'' ''Z1''
     \<lparr>zdl_apex = ''a.io'', zdl_revision = ''r''\<rparr> True = (Inl AdminNotFound, True)"
    by (simp add: lifecycle_service_def run_lifecycle_def with_timeout_def svc_then_def admission_def svc_await_def await_def aws_env_def
        prepare_lifecycle_def read_account_def ok_or_def)
  show ?thesis
    using zone_errors_are_truthful [OF world disjI2 [OF run]] run by (auto simp: aws_content_def)
qed

end
