(* ===== verification/Spec2Isabelle.thy ===== *)
theory Spec2Isabelle
  imports Forwarding Zone_Lifecycle Capabilities Controller_Directory Owner_Locator Capability_Discovery Admin_Api Account_Store Route53_Truth
begin

text \<open>
  EdgionCenter: a verification of the control plane that federates Edgion Controllers and manages
  their DNS.

  \<^bold>\<open>The program.\<close> A Center replica accepts one gRPC stream per Controller. A stream registers
  (\<open>federation/server.rs\<close>), is checked against the SPIFFE identity of its certificate
  (\<open>federation/spiffe.rs\<close>), becomes the owner of the Controller by a Kubernetes Lease with a fencing
  epoch (\<open>center-adapter-kubernetes/lease.rs\<close>), and enters the session table
  (\<open>federation/registry.rs\<close>) and the aggregate (\<open>aggregator.rs\<close>). The Center then lists and watches
  the configuration of the Controller over the same stream into per-kind caches (\<open>watch_cache/\<close>),
  whose handler maintains the override store (\<open>metadata_store.rs\<close>) and whose contents are served
  redacted (\<open>watch_cache/read_model.rs\<close>). Observations of a session are projected to a durable
  directory by background workers; heartbeat, disconnect, eviction (\<open>eviction.rs\<close>), HTTP tunnel
  (\<open>proxy.rs\<close>) and calls between replicas (\<open>internal_forwarding/mod.rs\<close>) all act on the same table.
  Beside it stands the provider-neutral DNS contract of \<open>center-core/src/cloud/dns.rs\<close>, which every
  provider adapter and API handler uses to validate names, record sets and change batches. The Route 53
  adapter (\<open>center-adapter-route53\<close>) reads and writes hosted zones through it, the services over the
  adapter (\<open>center-integration-route53\<close>) fence every dispatch by the account and the signing keys, and
  the handlers of \<open>api/route53_dns.rs\<close> answer with what the services report. Operators
  reach all of it over the Admin API, behind authentication (\<open>common/unified_auth\<close>, \<open>common/auth\<close>,
  \<open>common/local_auth\<close>) and authorisation (\<open>common/authz\<close>, \<open>sar.rs\<close>, the SQL role store).

  \<^bold>\<open>Theories.\<close> One theory per component, in the order of their dependencies:

  \<^item> \<open>Center_Prelude\<close>: results, hash maps as association lists, UTF-8 strings as byte strings with
    \<open>trim\<close>, \<open>split\<close>, \<open>is_control\<close>, checked and saturating integers, \<open>CoreError\<close>, and the lemmas
    every component shares. \<open>Json_Value\<close>: \<open>serde_json::Value\<close> with pointers and edits.
    \<open>Decimal\<close>: printing and parsing of unsigned integers. \<open>Ip_Addr\<close>: the text forms of IP addresses in
    the standard library, with their round trip.
  \<^item> \<open>Watch_Cache\<close>: \<open>CenterWatchCache\<close>. A full list or an incremental batch is applied whole or not at
    all and within the capacity bound; the locale \<open>conf_handler\<close> states what a handler promises the
    caches. \<open>Metadata_Store\<close> interprets it for the override aggregate.
  \<^item> \<open>Watch_Registry\<close>: the registry of shared caches and the redacted read model. The locale
    \<open>coupling\<close> is proved once and interpreted for the exact and the pruned store: in any history the
    store shows the documents a Controller's cache holds from its last full list on, as long as no
    later batch of that Controller scrambles its rows and no sweep prunes them. Two theorems show that
    the conditions are needed.
  \<^item> \<open>Controller_Core\<close>, \<open>Session_Registry\<close>: sessions with take-over, fencing, offline marking and
    removal. A registration leaves one live session per Controller, a fenced view never matches.
  \<^item> \<open>Aggregator\<close>: the in-memory aggregate with its gauges.
  \<^item> \<open>Watch_Protocol\<close>: the reverse list/watch of one session, its response handlers, re-watch and
    back-off. \<open>Spiffe\<close>: parsing and matching of the peer identity.
  \<^item> \<open>Runtime_Projector\<close>: projection slots, their workers with retry and shutdown, the observation
    clock and the offline reconciler, with progress and termination of the workers until the stop.
  \<^item> \<open>Kube_Api\<close>: what the clients of the Kubernetes API share: errors, the bounded retry loop, and the
    locale \<open>fenced_history\<close> for a counter of grants that is advanced under optimistic concurrency.
  \<^item> \<open>Lease\<close>: the Lease coordinator over an API server with optimistic concurrency, as the step
    relation \<open>lease_step\<close> of any number of replicas, and as \<open>lease_landing\<close> with the writes whose
    answer was lost. Epochs of successive grants strictly increase, by \<open>fenced_history\<close> interpreted on
    the landed histories, only the latest grant can write, and every operation returns the result that
    the answers of the server call for.
  \<^item> \<open>Ownership\<close>: the task that renews the Lease of a session, and the tracker of such tasks.
  \<^item> \<open>Fed_Registration\<close>, \<open>Fed_Session\<close>: registration of a stream cut where the code awaits, the
    message loop, heartbeat and clean-up. What other tasks do between the checks of a pass and its
    effects is an argument, so the theorems hold in the races as well; where the code loses one, a
    theorem says so. \<open>Forwarding\<close>: eviction, tunnel and internal forwarding over that state.
  \<^item> \<open>Dns_Names\<close>, \<open>Dns_Records\<close>: identifiers, canonical names, record sets with the Cloudflare and
    Route 53 extensions, guarded changes, batches, receipts and pages. The batch validation, a fold
    with three collections, is proved equivalent to a declarative contract.
  \<^item> \<open>Cloud_Resources\<close>: conditions and their merge, the bounded event history, provider errors, provider
    accounts and their pages. \<open>Zone_Lifecycle\<close>: observations of a managed zone, readiness, DNSSEC and
    the authorisation of a deletion. \<open>Capabilities\<close>: capability snapshots and the gate over them.
  \<^item> \<open>Controller_Directory\<close>: the durable directory over custom resources, as the step relation
    \<open>landed\<close> of the writes that reach the server, each with its cause. \<open>Account_Store\<close>: the provider accounts on custom resources; what a
    store promises is the locale \<open>account_store\<close>, a compare-and-swap on the generation. \<open>Owner_Locator\<close>: from the Lease of a Controller to the Pod that
    owns it.
  \<^item> \<open>Capability_Store\<close>: the store of capability snapshots, the second interpretation of
    \<open>fenced_history\<close>: a discovery that lost its fence never commits, what is committed reads back.
    \<open>Capability_Discovery\<close>: the service over it, with reuse, refresh under a fence and one flight per
    authority; it relies on the store by the locale \<open>snapshot_store\<close>.
  \<^item> \<open>Http_Api\<close>: methods and responses. \<open>Authn\<close>: provider configurations, OIDC validation with its key
    cache, the unified authentication middleware, logins. \<open>Authz\<close>: permission catalogue, the
    authorisation middleware and three policies, each an interpretation of the locale
    \<open>permission_enumeration\<close>. \<open>Admin_Api\<close>: the route table and the composed layers, where the theorems
    run from the connection to the handler.
  \<^item> \<open>Route53_Model\<close>: the record sets of the provider, their presentation format with its escapes, and the
    two translations, which are inverse on what can be read. \<open>Route53_Plan\<close>: the batch planned from guarded
    changes; run on the zone it was planned for, it does what the changes describe. \<open>Route53_Adapter\<close>:
    complete inventories, signed cursors and receipts, and guarded changes, atomic at the moment of
    submission. \<open>Route53_Lifecycle\<close>: creation with recovery, guarded deletion and DNSSEC of hosted zones.
  \<^item> \<open>Route53_Contract\<close>: the shapes, validations and handlers of the Route 53 API. \<open>Route53_Service\<close>: the three
    services with their deadline, admission and authority fence. \<open>Route53_Truth\<close>: their answers say what
    happened to the provider.

  \<^bold>\<open>Correspondence.\<close> A struct is a record and an enum a datatype with the variants of the source; a
  method is a function of the same name that returns its result with the new state; \<open>Err\<close> and a
  panic are values. An \<open>async\<close> operation is cut at its awaits: what the awaited party answers and what
  other tasks do in between are arguments, quantified in the theorems. Cancellation tokens and
  shared flags are cells named by numbers. Metrics and sent messages are effect lists.

  \<^bold>\<open>Bounds and fuel.\<close> Words keep their width (\<open>u64\<close> epochs and revisions, \<open>u32\<close> TTLs); a theorem
  about a counter says for how many steps it holds, e.g. fewer than \<open>2 ^ 64\<close>. The Lease operations take
  the list of the rounds' answers and return within \<open>MAX_CONFLICT_RETRIES\<close> rounds, so no fuel is
  needed; the heartbeat and the message loop are lists of events. The page loops of the Route 53
  adapter run for at most \<open>MAX_PROVIDER_PAGES\<close> pages, as the code bounds them. A deadline is a predicate
  on the world, looked at before and after every awaited call, so that a theorem holds wherever it strikes.

  \<^bold>\<open>Parameters.\<close> The X.509 parser, SHA-256, IDNA conversion, \<open>serde_json\<close> parsing, Base64, JWS and
  HS256 tokens, bcrypt, percent decoding, axum's route matching, clocks, random tokens, the Kubernetes
  API server, the database, the directory and the transport between replicas are arguments; a theorem
  that needs a property of one of them names it. So are the HMAC and JSON encodings of the signed tokens,
  the Route 53 API (\<open>Route53Api\<close>, of which \<open>route53_batches\<close> states that batches are atomic), the account
  store, the credential resolver and the semaphores of the services.

  \<^bold>\<open>Not modelled.\<close> Transport and encoding (tonic, prost, axum, kube, sqlx, AWS SDK), the client of the
  AWS SDK behind \<open>Route53Api\<close>, the Cloudflare adapter and its services, the SQL statements and the
  credential files, the handlers of the other API groups, process start-up, metrics registration and the
  web console.
\<close>

end
